(* ===== verification/Prelude.thy ===== *)
theory Prelude
  imports Main "HOL-Library.Word"
begin

text \<open>
  Shared vocabulary of the development: machine integers, memory blocks, the C idioms that
  several components repeat (growing a block by doubling, the partial-write loop, linked
  lists searched by a key) and the generic lemmas about them.

  A block of memory is a byte list as long as its allocation. Copying into a block past its
  end would lengthen the list and reading past its end returns fewer bytes than asked for, so
  every fact about the length of a block or of a read is a fact about memory safety.
\<close>

unbundle bit_operations_syntax

section \<open>Types\<close>

type_synonym byte = "8 word"
type_synonym u16 = "16 word"
type_synonym u32 = "32 word"
type_synonym u64 = "64 word"

text \<open>
  An allocator answers a request for \<open>n\<close> bytes: \<open>None\<close> is a NULL from malloc, \<open>Some f\<close> a
  block whose i-th byte is \<open>f i\<close>. The bytes are arbitrary: nothing is known of fresh memory.
\<close>

type_synonym allocator = "nat \<Rightarrow> (nat \<Rightarrow> byte) option"

named_theorems wf_intros \<open>well-formedness of a component is kept by an operation\<close>
named_theorems frame_simps \<open>fields that an operation leaves alone\<close>

section \<open>Memory blocks\<close>

definition malloc :: "allocator \<Rightarrow> nat \<Rightarrow> byte list option" where
  "malloc a n = map_option (\<lambda>f. map f [0..<n]) (a n)"

text \<open>realloc, used for enlarging only: the old bytes are kept, the rest is fresh.\<close>

definition realloc :: "allocator \<Rightarrow> byte list \<Rightarrow> nat \<Rightarrow> byte list option" where
  "realloc a old n = map_option (\<lambda>new. take n old @ drop (length old) new) (malloc a n)"

definition blit :: "'a list \<Rightarrow> nat \<Rightarrow> 'a list \<Rightarrow> 'a list" where
  "blit dst off src = take off dst @ src @ drop (off + length src) dst"

definition bytes_at :: "nat \<Rightarrow> nat \<Rightarrow> 'a list \<Rightarrow> 'a list" where
  "bytes_at off n xs = take n (drop off xs)"

definition never_fails :: "allocator \<Rightarrow> bool" where
  "never_fails a \<longleftrightarrow> (\<forall>n. a n \<noteq> None)"

definition alloc_ok :: allocator where
  "alloc_ok n = Some (\<lambda>_. 0)"

lemma never_fails_alloc_ok [simp]: "never_fails alloc_ok"
  by (simp add: never_fails_def alloc_ok_def)

lemma malloc_length: "malloc a n = Some b \<Longrightarrow> length b = n"
  by (auto simp: malloc_def)

lemma malloc_never_fails: "never_fails a \<Longrightarrow> \<exists>b. malloc a n = Some b"
  by (auto simp: malloc_def never_fails_def)

lemma malloc_neq_None [simp]: "never_fails a \<Longrightarrow> malloc a n \<noteq> None"
  by (auto simp: malloc_def never_fails_def)

lemma realloc_length: "realloc a old n = Some b \<Longrightarrow> length b = n"
  by (auto simp: realloc_def dest: malloc_length)

lemma realloc_neq_None [simp]: "never_fails a \<Longrightarrow> realloc a old n \<noteq> None"
  by (simp add: realloc_def)

lemma realloc_take:
  "realloc a old n = Some b \<Longrightarrow> length old \<le> n \<Longrightarrow> take (length old) b = old"
  by (auto simp: realloc_def)

lemma realloc_prefix:
  assumes "realloc a old n = Some b" and "length old \<le> n" and "k \<le> length old"
  shows "take k b = take k old"
proof -
  have "take k b = take k (take (length old) b)"
    using assms(3) by (simp add: min_def)
  then show ?thesis using realloc_take[OF assms(1,2)] by simp
qed

lemma blit_length: "off + length src \<le> length dst \<Longrightarrow> length (blit dst off src) = length dst"
  by (simp add: blit_def)

lemma blit_empty [simp]: "blit dst off [] = dst"
  by (simp add: blit_def)

lemma blit_take: "off \<le> length dst \<Longrightarrow> take off (blit dst off src) = take off dst"
  by (simp add: blit_def)

lemma blit_take_all:
  "off \<le> length dst \<Longrightarrow> take (off + length src) (blit dst off src) = take off dst @ src"
  by (simp add: blit_def)

lemma blit_all: "length src = length dst \<Longrightarrow> blit dst 0 src = src"
  by (simp add: blit_def)

lemma blit_nth:
  "off + length src \<le> length dst \<Longrightarrow> j < length dst \<Longrightarrow>
   blit dst off src ! j = (if off \<le> j \<and> j < off + length src then src ! (j - off) else dst ! j)"
  by (auto simp: blit_def nth_append)

lemma bytes_at_nth: "off + n \<le> length xs \<Longrightarrow> i < n \<Longrightarrow> bytes_at off n xs ! i = xs ! (off + i)"
  by (simp add: bytes_at_def)

lemma bytes_at_length: "off + n \<le> length xs \<Longrightarrow> length (bytes_at off n xs) = n"
  by (simp add: bytes_at_def)

lemma bytes_at_0 [simp]: "bytes_at off 0 xs = []"
  by (simp add: bytes_at_def)

lemma bytes_at_all: "bytes_at 0 (length xs) xs = xs"
  by (simp add: bytes_at_def)

section \<open>The last n elements of a list\<close>

definition lastn :: "nat \<Rightarrow> 'a list \<Rightarrow> 'a list" where
  "lastn n xs = drop (length xs - n) xs"

lemma lastn_length [simp]: "length (lastn n xs) = min n (length xs)"
  by (simp add: lastn_def)

lemma lastn_0 [simp]: "lastn 0 xs = []"
  by (simp add: lastn_def)

lemma lastn_short: "length xs \<le> n \<Longrightarrow> lastn n xs = xs"
  by (simp add: lastn_def)

lemma lastn_append_long: "n \<le> length ys \<Longrightarrow> lastn n (xs @ ys) = lastn n ys"
  by (simp add: lastn_def)

lemma lastn_append_short:
  "length ys \<le> n \<Longrightarrow> lastn n (xs @ ys) = lastn (n - length ys) xs @ ys"
  by (simp add: lastn_def)

lemma lastn_rev: "lastn n xs = rev (take n (rev xs))"
  by (simp add: lastn_def take_rev)

lemma lastn_lastn: "lastn n (lastn m xs) = lastn (min n m) xs"
  by (simp add: lastn_rev min.commute)

lemma lastn_lastn_append: "n \<le> m \<Longrightarrow> lastn n (lastn m xs @ ys) = lastn n (xs @ ys)"
  by (auto simp add: lastn_rev min_def)

text \<open>Keeping a suffix of a suffix extended on the right is keeping a suffix of the whole.\<close>

lemma lastn_suffix_append:
  "lastn n (lastn k xs @ ys) = lastn (min n (min k (length xs) + length ys)) (xs @ ys)"
  by (auto simp add: lastn_rev min_def)

section \<open>Growing by doubling\<close>

text \<open>
  \<open>while (nc < need && nc < max_cap) nc *= 2\<close>. A capacity of 0 would double for ever in C;
  the guard \<open>0 < nc\<close> makes the function total, and every caller starts from a positive value.
\<close>

function grow_loop :: "nat \<Rightarrow> nat \<Rightarrow> nat \<Rightarrow> nat" where
  "grow_loop nc need max_cap =
     (if 0 < nc \<and> nc < need \<and> nc < max_cap then grow_loop (nc * 2) need max_cap else nc)"
  by pat_completeness auto
termination
  by (relation "measure (\<lambda>(nc, need, max_cap). max_cap - nc)") auto

declare grow_loop.simps [simp del]

lemma grow_loop_ge: "nc \<le> grow_loop nc need max_cap"
  by (induction nc need max_cap rule: grow_loop.induct) (subst grow_loop.simps, auto)

lemma grow_loop_enough:
  "0 < nc \<Longrightarrow> min need max_cap \<le> grow_loop nc need max_cap"
  by (induction nc need max_cap rule: grow_loop.induct) (subst grow_loop.simps, auto)

text \<open>Doubling never passes twice the larger of the start and the ceiling: no size wraps.\<close>

lemma grow_loop_bound: "grow_loop nc need max_cap \<le> max nc (2 * max_cap)"
  by (induction nc need max_cap rule: grow_loop.induct) (subst grow_loop.simps, auto)

text \<open>\<open>while (nc < need) nc *= 2\<close>, the loop of the buffers that have no ceiling.\<close>

definition double_until :: "nat \<Rightarrow> nat \<Rightarrow> nat" where
  "double_until nc need = grow_loop nc need need"

lemma double_until_ge: "nc \<le> double_until nc need"
  by (simp add: double_until_def grow_loop_ge)

lemma double_until_enough: "0 < nc \<Longrightarrow> need \<le> double_until nc need"
  using grow_loop_enough[of nc need need] by (simp add: double_until_def)

lemma double_until_bound: "double_until nc need \<le> max nc (2 * need)"
  by (simp add: double_until_def grow_loop_bound)

section \<open>Sinks\<close>

text \<open>
  Several buffers of the program are written by appending and fail by raising a flag that is
  never lowered: from then on their contents no longer matter. \<open>appends\<close> says that one state
  follows from another by appending \<open>p\<close>, or else the flag is up.
\<close>

definition appends ::
  "('b \<Rightarrow> bool) \<Rightarrow> ('b \<Rightarrow> bool) \<Rightarrow> ('b \<Rightarrow> byte list) \<Rightarrow> 'b \<Rightarrow> 'b \<Rightarrow> byte list \<Rightarrow> bool" where
  "appends invar failed contents b b' p \<longleftrightarrow>
     (invar b \<longrightarrow> invar b' \<and> (failed b \<longrightarrow> failed b') \<and>
        (\<not> failed b' \<longrightarrow> contents b' = contents b @ p))"

lemma appends_trans:
  "appends i f c b b1 p \<Longrightarrow> appends i f c b1 b2 q \<Longrightarrow> appends i f c b b2 (p @ q)"
  by (auto simp: appends_def)

lemma appends_refl: "appends i f c b b []"
  by (simp add: appends_def)

locale sink =
  fixes put :: "'m \<Rightarrow> 'b \<Rightarrow> byte list \<Rightarrow> 'b"
    and invar :: "'b \<Rightarrow> bool"
    and failed :: "'b \<Rightarrow> bool"
    and contents :: "'b \<Rightarrow> byte list"
  assumes put_appends: "appends invar failed contents b (put m b p) p"
begin

lemma put_invar: "invar b \<Longrightarrow> invar (put m b p)"
  using put_appends[of b m p] by (simp add: appends_def)

lemma put_sticky: "invar b \<Longrightarrow> failed b \<Longrightarrow> failed (put m b p)"
  using put_appends[of b m p] by (simp add: appends_def)

lemma put_contents: "invar b \<Longrightarrow> \<not> failed (put m b p) \<Longrightarrow> contents (put m b p) = contents b @ p"
  using put_appends[of b m p] by (simp add: appends_def)

lemma fold_appends:
  "appends invar failed contents b (fold (\<lambda>(m, p) b. put m b p) ps b) (concat (map snd ps))"
proof (induction ps arbitrary: b)
  case Nil
  then show ?case by (simp add: appends_refl)
next
  case (Cons x ps)
  obtain m p where x: "x = (m, p)" by (cases x)
  show ?case using appends_trans[OF put_appends[of b m p] Cons.IH[of "put m b p"]] x by simp
qed

end

section \<open>Partial writes\<close>

text \<open>
  A result of write(2) on a non-blocking descriptor. The kernel takes at most what it is
  offered. The loop that the daemon and the clients run over it is the same everywhere: go on
  after progress or EINTR, stop at EAGAIN, fail on anything else (a count of 0 included). The
  results come from the environment as a list; its end stands for EAGAIN. \<open>write_loop ws off
  len\<close> is the offset reached and whether the loop ended without a failure.
\<close>

datatype wres = W_ok nat | W_again | W_intr | W_err

fun write_loop :: "wres list \<Rightarrow> nat \<Rightarrow> nat \<Rightarrow> nat \<times> bool" where
  "write_loop ws off len =
     (if off < len then
        (case ws of
           [] \<Rightarrow> (off, True)
         | W_ok n # ws' \<Rightarrow>
             if 0 < n then write_loop ws' (off + min n (len - off)) len else (off, False)
         | W_again # _ \<Rightarrow> (off, True)
         | W_intr # ws' \<Rightarrow> write_loop ws' off len
         | W_err # _ \<Rightarrow> (off, False))
      else (off, True))"

declare write_loop.simps [simp del]

lemma write_loop_bounds: "off \<le> len \<Longrightarrow> off \<le> fst (write_loop ws off len) \<and> fst (write_loop ws off len) \<le> len"
proof (induction ws arbitrary: off)
  case Nil
  then show ?case by (simp add: write_loop.simps)
next
  case (Cons w ws)
  show ?case
  proof (cases "off < len")
    case False
    with Cons.prems show ?thesis by (simp add: write_loop.simps)
  next
    case True
    have le: "off + min n (len - off) \<le> len" for n using True by arith
    have "off \<le> fst (write_loop ws (off + min n (len - off)) len)" for n
      using Cons.IH[OF le, of n] by simp
    with Cons.IH[OF le] Cons.IH[OF Cons.prems] True show ?thesis
      by (cases w) (auto simp: write_loop.simps[of "_ # _"])
  qed
qed

end
