(* ===== verification/Ring.thy ===== *)
theory Ring
  imports Prelude
begin

text \<open>
  The scrollback ring of one session (src/src/daemon/ring.h and ring.c): a circular byte
  buffer that grows by doubling up to a ceiling and overwrites its oldest bytes only at the
  ceiling (or when memory cannot be had). The record has the fields of the C struct. The
  abstraction \<open>ring_contents\<close> is the list of valid bytes, oldest first.
\<close>

section \<open>State and operations\<close>

definition EPI_RING_CAP :: nat where
  "EPI_RING_CAP = 1024 * 1024"

definition EPI_RING_INIT_CAP :: nat where
  "EPI_RING_INIT_CAP = 4096"

record epi_ring =
  r_buf :: "byte list"
  r_cap :: nat
  r_max_cap :: nat
  r_head :: nat
  r_size :: nat

text \<open>\<open>r_buf = []\<close> is the NULL buffer of an unallocated ring (its capacity is 0).\<close>

definition epi_ring_init :: "allocator \<Rightarrow> nat \<Rightarrow> epi_ring \<times> int" where
  "epi_ring_init a cap =
    (let start = (if cap < EPI_RING_INIT_CAP then cap else EPI_RING_INIT_CAP);
         r = \<lparr>r_buf = [], r_cap = 0, r_max_cap = cap, r_head = 0, r_size = 0\<rparr>
     in if cap = 0 then (r, 0)
        else case malloc a start of
               None \<Rightarrow> (r\<lparr>r_max_cap := 0\<rparr>, -1)
             | Some b \<Rightarrow> (r\<lparr>r_buf := b, r_cap := start\<rparr>, 0))"

definition epi_ring_free :: "epi_ring \<Rightarrow> epi_ring" where
  "epi_ring_free r = r\<lparr>r_buf := [], r_cap := 0, r_max_cap := 0, r_head := 0, r_size := 0\<rparr>"

definition ring_grow :: "allocator \<Rightarrow> epi_ring \<Rightarrow> nat \<Rightarrow> epi_ring \<times> int" where
  "ring_grow a r need =
    (if need \<le> r_cap r then (r, 0)
     else if r_cap r \<ge> r_max_cap r then (r, -1)
     else
       let nc0 = grow_loop (if r_cap r \<noteq> 0 then r_cap r else EPI_RING_INIT_CAP) need (r_max_cap r);
           nc = (if nc0 > r_max_cap r then r_max_cap r else nc0)
       in if r_head r = 0 then
            (case realloc a (r_buf r) nc of
               None \<Rightarrow> (r, -1)
             | Some nb \<Rightarrow> (r\<lparr>r_buf := nb, r_cap := nc\<rparr>, if need \<le> nc then 0 else -1))
          else
            let first = r_cap r - r_head r
            in case malloc a nc of
                 None \<Rightarrow> (r, -1)
               | Some nb \<Rightarrow>
                   let nb' = (if first \<ge> r_size r
                              then blit nb 0 (bytes_at (r_head r) (r_size r) (r_buf r))
                              else blit (blit nb 0 (bytes_at (r_head r) first (r_buf r)))
                                     first (bytes_at 0 (r_size r - first) (r_buf r)))
                   in (r\<lparr>r_head := 0, r_buf := nb', r_cap := nc\<rparr>,
                       if need \<le> nc then 0 else -1))"

definition epi_ring_write :: "allocator \<Rightarrow> epi_ring \<Rightarrow> byte list \<Rightarrow> epi_ring" where
  "epi_ring_write a r0 data =
    (let len = length data
     in if r_cap r0 = 0 \<or> len = 0 then r0
        else
          let r = fst (ring_grow a r0 (r_size r0 + len))
          in if len \<ge> r_cap r then
               r\<lparr>r_buf := blit (r_buf r) 0 (bytes_at (len - r_cap r) (r_cap r) data),
                 r_head := 0, r_size := r_cap r\<rparr>
             else
               let tail = (r_head r + r_size r) mod r_cap r;
                   first = min (r_cap r - tail) len;
                   b1 = blit (r_buf r) tail (bytes_at 0 first data);
                   b2 = (if first < len then blit b1 0 (bytes_at first (len - first) data) else b1);
                   r' = r\<lparr>r_buf := b2\<rparr>
               in if r_size r + len \<le> r_cap r then r'\<lparr>r_size := r_size r + len\<rparr>
                  else
                    let overflow = r_size r + len - r_cap r
                    in r'\<lparr>r_head := (r_head r + overflow) mod r_cap r, r_size := r_cap r\<rparr>)"

text \<open>Both snapshots return the block they allocate (\<open>None\<close> is NULL) and \<open>out_len\<close>.\<close>

definition epi_ring_snapshot :: "allocator \<Rightarrow> epi_ring \<Rightarrow> byte list option \<times> nat" where
  "epi_ring_snapshot a r =
    (if r_size r = 0 then (None, 0)
     else case malloc a (r_size r) of
            None \<Rightarrow> (None, 0)
          | Some out \<Rightarrow>
              let first = r_cap r - r_head r;
                  out' = (if first \<ge> r_size r
                          then blit out 0 (bytes_at (r_head r) (r_size r) (r_buf r))
                          else blit (blit out 0 (bytes_at (r_head r) first (r_buf r)))
                                 first (bytes_at 0 (r_size r - first) (r_buf r)))
              in (Some out', r_size r))"

definition epi_ring_snapshot_tail ::
  "allocator \<Rightarrow> epi_ring \<Rightarrow> nat \<Rightarrow> byte list option \<times> nat" where
  "epi_ring_snapshot_tail a r max_bytes =
    (if r_cap r = 0 \<or> r_size r = 0 \<or> max_bytes = 0 then (None, 0)
     else
       let n = (if r_size r < max_bytes then r_size r else max_bytes);
           start = (r_head r + (r_size r - n)) mod r_cap r
       in case malloc a n of
            None \<Rightarrow> (None, 0)
          | Some out \<Rightarrow>
              let first = r_cap r - start;
                  out' = (if first \<ge> n
                          then blit out 0 (bytes_at start n (r_buf r))
                          else blit (blit out 0 (bytes_at start first (r_buf r)))
                                 first (bytes_at 0 (n - first) (r_buf r)))
              in (Some out', n))"

section \<open>Invariant and abstraction\<close>

definition ring_inv :: "epi_ring \<Rightarrow> bool" where
  "ring_inv r \<longleftrightarrow>
     length (r_buf r) = r_cap r \<and> r_cap r \<le> r_max_cap r \<and> r_size r \<le> r_cap r \<and>
     (r_head r < r_cap r \<or> r_head r = 0) \<and> (r_cap r = 0 \<longrightarrow> r_max_cap r = 0)"

definition ring_contents :: "epi_ring \<Rightarrow> byte list" where
  "ring_contents r = bytes_at (r_head r) (r_size r) (r_buf r @ r_buf r)"

lemma ring_contents_length [simp]: "ring_inv r \<Longrightarrow> length (ring_contents r) = r_size r"
  by (auto simp: ring_inv_def ring_contents_def bytes_at_def)

lemma mod_wrap: "(x::nat) < 2 * c \<Longrightarrow> x mod c = (if x < c then x else x - c)"
  by (simp add: mod_if)

text \<open>The two-part copy out of the circular buffer, which three functions repeat.\<close>

lemma wrap_read:
  assumes "start \<le> length buf" and "n \<le> length buf" and "length out = n"
  shows "(if length buf - start \<ge> n then blit out 0 (bytes_at start n buf)
          else blit (blit out 0 (bytes_at start (length buf - start) buf))
                 (length buf - start) (bytes_at 0 (n - (length buf - start)) buf))
         = bytes_at start n (buf @ buf)"
  using assms by (auto simp: blit_def bytes_at_def min_def)

lemma wrap_read_prefix:
  assumes "start \<le> length buf" and "n \<le> length buf" and "n \<le> length out"
  shows "take n (if length buf - start \<ge> n then blit out 0 (bytes_at start n buf)
          else blit (blit out 0 (bytes_at start (length buf - start) buf))
                 (length buf - start) (bytes_at 0 (n - (length buf - start)) buf))
         = bytes_at start n (buf @ buf)"
  using assms by (auto simp: blit_def bytes_at_def min_def)

section \<open>Growing\<close>

lemma ring_grow_max [simp]: "r_max_cap (fst (ring_grow a r need)) = r_max_cap r"
  by (auto simp: ring_grow_def Let_def split: option.splits)

lemma ring_grow_size [simp]: "r_size (fst (ring_grow a r need)) = r_size r"
  by (auto simp: ring_grow_def Let_def split: option.splits)

text \<open>What growing does, in one statement per outcome.\<close>

definition ring_new_cap :: "epi_ring \<Rightarrow> nat \<Rightarrow> nat" where
  "ring_new_cap r need =
     min (r_max_cap r)
       (grow_loop (if r_cap r \<noteq> 0 then r_cap r else EPI_RING_INIT_CAP) need (r_max_cap r))"

lemma ring_new_cap_ge: "r_cap r \<le> r_max_cap r \<Longrightarrow> r_cap r \<le> ring_new_cap r need"
  using grow_loop_ge[of "r_cap r" need "r_max_cap r"] by (simp add: ring_new_cap_def)

lemma ring_new_cap_enough:
  "min need (r_max_cap r) \<le> ring_new_cap r need"
  using grow_loop_enough[of "if r_cap r \<noteq> 0 then r_cap r else EPI_RING_INIT_CAP" need "r_max_cap r"]
  by (auto simp: ring_new_cap_def EPI_RING_INIT_CAP_def split: if_splits)

lemma ring_grow_cases:
  assumes inv: "ring_inv r"
  shows "fst (ring_grow a r need) = r \<or>
         (r_cap (fst (ring_grow a r need)) = ring_new_cap r need \<and>
          length (r_buf (fst (ring_grow a r need))) = ring_new_cap r need \<and>
          r_head (fst (ring_grow a r need)) = 0 \<and>
          take (r_size r) (r_buf (fst (ring_grow a r need))) = ring_contents r)"
proof -
  let ?nc = "ring_new_cap r need"
  have le: "r_cap r \<le> ?nc" and sz: "r_size r \<le> ?nc"
    using inv ring_new_cap_ge[of r need] by (auto simp: ring_inv_def)
  have nc: "(let nc0 = grow_loop (if r_cap r \<noteq> 0 then r_cap r else EPI_RING_INIT_CAP) need (r_max_cap r)
             in if nc0 > r_max_cap r then r_max_cap r else nc0) = ?nc"
    by (auto simp: ring_new_cap_def Let_def min_def)
  show ?thesis
  proof (cases "need \<le> r_cap r \<or> r_cap r \<ge> r_max_cap r")
    case True
    then show ?thesis by (auto simp: ring_grow_def)
  next
    case False
    show ?thesis
    proof (cases "r_head r = 0")
      case True
      have pre: "take (r_size r) nb = ring_contents r" if "realloc a (r_buf r) ?nc = Some nb" for nb
        using realloc_prefix[OF that, of "r_size r"] inv le True
        by (auto simp: ring_inv_def ring_contents_def bytes_at_def)
      show ?thesis
        using False True nc pre
        by (auto simp: ring_grow_def Let_def split: option.splits dest: realloc_length)
    next
      case head: False
      have pre: "take (r_size r) (if r_cap r - r_head r \<ge> r_size r
              then blit nb 0 (bytes_at (r_head r) (r_size r) (r_buf r))
              else blit (blit nb 0 (bytes_at (r_head r) (r_cap r - r_head r) (r_buf r)))
                 (r_cap r - r_head r) (bytes_at 0 (r_size r - (r_cap r - r_head r)) (r_buf r)))
            = ring_contents r" if "malloc a ?nc = Some nb" for nb
        using wrap_read_prefix[of "r_head r" "r_buf r" "r_size r" nb] inv sz malloc_length[OF that]
        by (auto simp: ring_inv_def ring_contents_def)
      have len: "length (if r_cap r - r_head r \<ge> r_size r
              then blit nb 0 (bytes_at (r_head r) (r_size r) (r_buf r))
              else blit (blit nb 0 (bytes_at (r_head r) (r_cap r - r_head r) (r_buf r)))
                 (r_cap r - r_head r) (bytes_at 0 (r_size r - (r_cap r - r_head r)) (r_buf r))) = ?nc"
        if "malloc a ?nc = Some nb" for nb
        using inv sz malloc_length[OF that] by (auto simp: ring_inv_def blit_def bytes_at_def)
      show ?thesis
        using False head nc pre len
        by (auto simp: ring_grow_def Let_def split: option.splits)
    qed
  qed
qed

lemma ring_grow_contents [simp]:
  "ring_inv r \<Longrightarrow> ring_contents (fst (ring_grow a r need)) = ring_contents r"
  using ring_grow_cases[of r a need] ring_new_cap_ge[of r need]
  by (auto simp: ring_contents_def bytes_at_def ring_inv_def)

lemma ring_grow_inv [wf_intros]: "ring_inv r \<Longrightarrow> ring_inv (fst (ring_grow a r need))"
  using ring_grow_cases[of r a need] ring_new_cap_ge[of r need]
  by (auto simp: ring_inv_def ring_new_cap_def)

lemma ring_grow_cap_mono: "ring_inv r \<Longrightarrow> r_cap r \<le> r_cap (fst (ring_grow a r need))"
  using ring_grow_cases[of r a need] ring_new_cap_ge[of r need] by (auto simp: ring_inv_def)

lemma ring_grow_enough:
  assumes "never_fails a"
  shows "min need (r_max_cap r) \<le> r_cap (fst (ring_grow a r need))"
  using assms ring_new_cap_enough[of need r] realloc_neq_None[OF assms] malloc_neq_None[OF assms]
  by (auto simp: ring_grow_def Let_def ring_new_cap_def min_def split: option.splits if_splits)

section \<open>Writing\<close>

lemma ring_contents_nth:
  assumes "ring_inv r" and "i < r_size r"
  shows "ring_contents r ! i = r_buf r ! ((r_head r + i) mod r_cap r)"
  using assms mod_wrap[of "r_head r + i" "r_cap r"]
  by (auto simp: ring_inv_def ring_contents_def bytes_at_def nth_append add.commute)

text \<open>The two-part copy into the circular buffer, cell by cell.\<close>

lemma wrap_write_nth:
  fixes buf data :: "byte list"
  defines "first t \<equiv> min (length buf - t) (length data)"
  assumes t: "t < length buf" and l: "length data < length buf" and j: "j < length buf"
  shows "(if first t < length data
          then blit (blit buf t (bytes_at 0 (first t) data)) 0
                 (bytes_at (first t) (length data - first t) data)
          else blit buf t (bytes_at 0 (first t) data)) ! j
         = (if t \<le> j \<and> j < t + length data then data ! (j - t)
            else if j + length buf < t + length data then data ! (j + length buf - t)
            else buf ! j)"
proof -
  let ?f = "first t"
  have f: "?f \<le> length data" "t + ?f \<le> length buf" using t by (auto simp: first_def)
  have lf: "length (bytes_at 0 ?f data) = ?f" using f by (simp add: bytes_at_length)
  have b1: "blit buf t (bytes_at 0 ?f data) ! j
              = (if t \<le> j \<and> j < t + ?f then data ! (j - t) else buf ! j)"
    using f lf j by (simp add: blit_nth bytes_at_nth less_diff_conv2)
  show ?thesis
  proof (cases "?f < length data")
    case True
    then have ff: "?f = length buf - t" by (auto simp: first_def)
    have l2: "length (bytes_at ?f (length data - ?f) data) = length data - ?f"
      using f by (simp add: bytes_at_length)
    have "blit (blit buf t (bytes_at 0 ?f data)) 0 (bytes_at ?f (length data - ?f) data) ! j
          = (if j < length data - ?f then data ! (?f + j)
             else blit buf t (bytes_at 0 ?f data) ! j)"
      using f lf l2 j l by (simp add: blit_nth bytes_at_nth blit_length)
    then show ?thesis using True b1 ff t j l by (auto simp: less_diff_conv add.commute)
  next
    case False
    then have "?f = length data" using f by simp
    then show ?thesis using b1 f j by simp
  qed
qed

lemma wrap_write_length:
  fixes buf data :: "byte list"
  defines "first t \<equiv> min (length buf - t) (length data)"
  assumes "t < length buf" and "length data < length buf"
  shows "length (if first t < length data
          then blit (blit buf t (bytes_at 0 (first t) data)) 0
                 (bytes_at (first t) (length data - first t) data)
          else blit buf t (bytes_at 0 (first t) data)) = length buf"
  using assms by (auto simp: blit_def bytes_at_def min_def)

text \<open>The part of a write after growing, with room for all of \<open>data\<close> in one lap.\<close>

lemma ring_store:
  fixes r :: epi_ring
  defines "tl' \<equiv> (r_head r + r_size r) mod r_cap r"
  assumes inv: "ring_inv r" and len: "length data < r_cap r"
    and b2: "length b2 = r_cap r"
    and cell: "\<And>j. j < r_cap r \<Longrightarrow> b2 ! j =
       (if tl' \<le> j \<and> j < tl' + length data then data ! (j - tl')
        else if j + r_cap r < tl' + length data then data ! (j + r_cap r - tl')
        else r_buf r ! j)"
    and new: "r_size r' = min (r_cap r) (r_size r + length data)"
      "r_head r' = (r_head r + (r_size r + length data - r_cap r)) mod r_cap r"
      "r_buf r' = b2" "r_cap r' = r_cap r" "r_max_cap r' = r_max_cap r"
  shows "ring_contents r' = lastn (r_cap r) (ring_contents r @ data)"
proof -
  let ?c = "r_cap r" and ?h = "r_head r" and ?n = "r_size r" and ?l = "length data"
  have c: "0 < ?c" "?h < ?c" "?n \<le> ?c" "length (r_buf r) = ?c"
    using inv len by (auto simp: ring_inv_def)
  have inv': "ring_inv r'"
    using inv new b2 c by (auto simp: ring_inv_def)
  have h': "r_head r' < ?c" using new c by simp
  show ?thesis
  proof (rule nth_equalityI)
    show "length (ring_contents r') = length (lastn ?c (ring_contents r @ data))"
      using inv inv' new by simp
  next
    fix i assume "i < length (ring_contents r')"
    then have i: "i < r_size r'" using inv' by simp
    let ?o = "?n + ?l - ?c"
    have io: "?o + i < ?n + ?l" using i new by auto
    have pos: "(r_head r' + i) mod ?c = (?h + ?o + i) mod ?c"
      using new by (simp add: mod_add_left_eq add.assoc)
    have tl': "tl' = (if ?h + ?n < ?c then ?h + ?n else ?h + ?n - ?c)"
      using c mod_wrap[of "?h + ?n" ?c] by (simp add: tl'_def)
    have lhs: "ring_contents r' ! i = b2 ! ((?h + ?o + i) mod ?c)"
      using ring_contents_nth[OF inv' i] new pos by simp
    have rhs: "lastn ?c (ring_contents r @ data) ! i = (ring_contents r @ data) ! (?o + i)"
      using inv io new i by (simp add: lastn_def nth_drop del: drop_append)
    define k where "k = ?o + i"
    have k: "k < ?n + ?l" and ki: "?n + ?l \<le> ?c \<or> k + ?c \<ge> ?n + ?l" 
      using io i new by (auto simp: k_def)
    have "b2 ! ((?h + k) mod ?c) = (ring_contents r @ data) ! k"
    proof (cases "k < ?n")
      case True
      then have m: "(?h + k) mod ?c = (if ?h + k < ?c then ?h + k else ?h + k - ?c)"
        using c mod_wrap[of "?h + k" ?c] by simp
      have "b2 ! ((?h + k) mod ?c) = r_buf r ! ((?h + k) mod ?c)"
        using True cell[of "(?h + k) mod ?c"] c ki len by (auto simp: m tl')
      then show ?thesis
        using True inv ring_contents_nth[OF inv True] by (simp add: nth_append)
    next
      case False
      have "b2 ! ((?h + k) mod ?c) = data ! (k - ?n)"
      proof -
        have "(?h + k) mod ?c = ((?h + ?n) + (k - ?n)) mod ?c" using False by simp
        also have "\<dots> = (tl' + (k - ?n)) mod ?c"
          unfolding tl'_def by (rule mod_add_left_eq[symmetric])
        finally have eq: "(?h + k) mod ?c = (tl' + (k - ?n)) mod ?c" .
        have lt: "k - ?n < ?l" using k False by simp
        have t: "tl' < ?c" using c by (simp add: tl'_def)
        define q where "q = k - ?n"
        have q: "q < ?l" using lt by (simp add: q_def)
        have m: "(tl' + q) mod ?c = (if tl' + q < ?c then tl' + q else tl' + q - ?c)"
          using t q len by (intro mod_wrap) simp
        have "b2 ! ((tl' + q) mod ?c) = data ! q"
        proof (cases "tl' + q < ?c")
          case True
          then show ?thesis unfolding m using cell[of "tl' + q"] q by simp
        next
          case False
          then have "\<not> tl' \<le> tl' + q - ?c" "tl' + q - ?c + ?c = tl' + q" "tl' + q - ?c < ?c"
            using q t len by linarith+
          then show ?thesis
            unfolding m using False cell[of "tl' + q - ?c"] q by simp
        qed
        then show ?thesis by (simp only: eq q_def)
      qed
      then show ?thesis using False inv by (simp add: nth_append)
    qed
    then show "ring_contents r' ! i = lastn ?c (ring_contents r @ data) ! i"
      using lhs rhs by (simp add: k_def add.assoc)
  qed
qed

lemma epi_ring_write_spec:
  assumes inv: "ring_inv r0" and c0: "r_cap r0 \<noteq> 0" and d: "data \<noteq> []"
  shows "ring_contents (epi_ring_write a r0 data)
           = lastn (r_cap (epi_ring_write a r0 data)) (ring_contents r0 @ data) \<and>
         ring_inv (epi_ring_write a r0 data) \<and>
         r_cap (epi_ring_write a r0 data) = r_cap (fst (ring_grow a r0 (r_size r0 + length data))) \<and>
         r_max_cap (epi_ring_write a r0 data) = r_max_cap r0 \<and>
         r_size (epi_ring_write a r0 data)
           = min (r_cap (epi_ring_write a r0 data)) (r_size r0 + length data)"
proof -
  define r where "r = fst (ring_grow a r0 (r_size r0 + length data))"
  have rinv: "ring_inv r" and rcon: "ring_contents r = ring_contents r0"
    and rsz: "r_size r = r_size r0" and rmax: "r_max_cap r = r_max_cap r0"
    using inv by (simp_all add: r_def ring_grow_inv)
  have c: "0 < r_cap r" "r_head r < r_cap r" "r_size r \<le> r_cap r" "length (r_buf r) = r_cap r"
    using rinv c0 ring_grow_cap_mono[OF inv, of a "r_size r0 + length data"]
    by (auto simp: ring_inv_def r_def)
  show ?thesis
  proof (cases "length data \<ge> r_cap r")
    case True
    have w: "epi_ring_write a r0 data =
      r\<lparr>r_buf := blit (r_buf r) 0 (bytes_at (length data - r_cap r) (r_cap r) data),
        r_head := 0, r_size := r_cap r\<rparr>"
      using True c0 d by (simp add: epi_ring_write_def r_def[symmetric] Let_def)
    have b: "blit (r_buf r) 0 (bytes_at (length data - r_cap r) (r_cap r) data) = lastn (r_cap r) data"
      using True c by (simp add: blit_all bytes_at_def lastn_def)
    show ?thesis
      unfolding w b using True c rinv rmax rsz
      by (auto simp: ring_inv_def ring_contents_def bytes_at_def lastn_append_long r_def)
  next
    case False
    let ?t = "(r_head r + r_size r) mod r_cap r"
    let ?f = "min (r_cap r - ?t) (length data)"
    let ?b1 = "blit (r_buf r) ?t (bytes_at 0 ?f data)"
    define b2 where
      "b2 = (if ?f < length data then blit ?b1 0 (bytes_at ?f (length data - ?f) data) else ?b1)"
    have t: "?t < length (r_buf r)" and l: "length data < length (r_buf r)"
      using c False by auto
    have w: "epi_ring_write a r0 data = r\<lparr>r_buf := b2,
        r_size := min (r_cap r) (r_size r + length data),
        r_head := (r_head r + (r_size r + length data - r_cap r)) mod r_cap r\<rparr>"
      using False c0 d c by (simp add: epi_ring_write_def r_def[symmetric] Let_def b2_def)
    have len2: "length b2 = r_cap r"
      unfolding b2_def by (rule wrap_write_length[OF t l, unfolded c(4)])
    have con: "ring_contents (epi_ring_write a r0 data) = lastn (r_cap r) (ring_contents r @ data)"
      using wrap_write_nth[OF t l, unfolded c(4), folded b2_def] False len2
      by (intro ring_store[OF rinv, where ?b2.0 = b2]) (simp_all add: w)
    have cap: "r_cap (epi_ring_write a r0 data) = r_cap r"
      and max: "r_max_cap (epi_ring_write a r0 data) = r_max_cap r"
      and size: "r_size (epi_ring_write a r0 data) = min (r_cap r) (r_size r + length data)"
      and buf: "length (r_buf (epi_ring_write a r0 data)) = r_cap r"
      and head: "r_head (epi_ring_write a r0 data) < r_cap r"
      using len2 c by (simp_all add: w)
    have "ring_inv (epi_ring_write a r0 data)"
      using rinv cap max size buf head by (simp add: ring_inv_def)
    then show ?thesis
      using con rcon rsz rmax cap max size by (simp add: r_def[symmetric])
  qed
qed

lemma epi_ring_write_trivial: "r_cap r = 0 \<or> data = [] \<Longrightarrow> epi_ring_write a r data = r"
  by (auto simp: epi_ring_write_def Let_def)

lemma ring_contents_cap0: "ring_inv r \<Longrightarrow> r_cap r = 0 \<Longrightarrow> ring_contents r = []"
  by (simp add: ring_inv_def ring_contents_def)

lemma lastn_contents: "ring_inv r \<Longrightarrow> r_cap r \<le> n \<Longrightarrow> lastn n (ring_contents r) = ring_contents r"
  by (rule lastn_short) (auto simp: ring_inv_def ring_contents_def bytes_at_def)

lemma epi_ring_write_contents:
  assumes "ring_inv r"
  shows "ring_contents (epi_ring_write a r data)
           = lastn (r_cap (epi_ring_write a r data)) (ring_contents r @ data)"
proof (cases "r_cap r = 0 \<or> data = []")
  case True
  then show ?thesis using assms
    by (auto simp: epi_ring_write_trivial ring_contents_cap0 lastn_contents)
next
  case False
  then show ?thesis using epi_ring_write_spec[OF assms] by blast
qed

lemma epi_ring_write_inv [wf_intros]: "ring_inv r \<Longrightarrow> ring_inv (epi_ring_write a r data)"
  using epi_ring_write_spec[of r data a] by (cases "r_cap r = 0 \<or> data = []")
    (auto simp: epi_ring_write_trivial)

lemma epi_ring_write_max [simp]:
  "ring_inv r \<Longrightarrow> r_max_cap (epi_ring_write a r data) = r_max_cap r"
  using epi_ring_write_spec[of r data a] by (cases "r_cap r = 0 \<or> data = []")
    (auto simp: epi_ring_write_trivial)

lemma epi_ring_write_limit:
  assumes inv: "ring_inv r" and a: "never_fails a"
  shows "ring_contents (epi_ring_write a r data) = lastn (r_max_cap r) (ring_contents r @ data)"
proof (cases "r_cap r = 0 \<or> data = []")
  case True
  then show ?thesis using inv
    by (auto simp: epi_ring_write_trivial ring_contents_cap0 lastn_contents ring_inv_def)
next
  case False
  let ?w = "epi_ring_write a r data" and ?need = "r_size r + length data"
  have w: "ring_contents ?w = lastn (r_cap ?w) (ring_contents r @ data)"
    "r_cap ?w = r_cap (fst (ring_grow a r ?need))" "ring_inv ?w" "r_max_cap ?w = r_max_cap r"
    using epi_ring_write_spec[OF inv, of data a] False by auto
  have "min ?need (r_max_cap r) \<le> r_cap ?w" and "r_cap ?w \<le> r_max_cap r"
    using ring_grow_enough[OF a, of ?need r] w by (auto simp: ring_inv_def)
  then have "r_cap ?w = r_max_cap r \<or> length (ring_contents r @ data) \<le> r_cap ?w"
    using inv by auto
  then show ?thesis
    using w \<open>r_cap ?w \<le> r_max_cap r\<close> by (auto simp: lastn_short)
qed

section \<open>Snapshots\<close>

lemma snapshot_copy:
  assumes "ring_inv r" and "start < r_cap r" and "n \<le> r_cap r" and "length out = n"
  shows "(if r_cap r - start \<ge> n then blit out 0 (bytes_at start n (r_buf r))
          else blit (blit out 0 (bytes_at start (r_cap r - start) (r_buf r)))
                 (r_cap r - start) (bytes_at 0 (n - (r_cap r - start)) (r_buf r)))
         = bytes_at start n (r_buf r @ r_buf r)"
  using assms wrap_read[of start "r_buf r" n out] by (auto simp: ring_inv_def)

lemma epi_ring_snapshot_contents:
  assumes inv: "ring_inv r"
  shows "epi_ring_snapshot a r =
    (if r_size r = 0 \<or> malloc a (r_size r) = None then (None, 0)
     else (Some (ring_contents r), r_size r))"
proof (cases "r_size r = 0 \<or> malloc a (r_size r) = None")
  case True
  then show ?thesis by (auto simp: epi_ring_snapshot_def)
next
  case False
  then obtain out where m: "malloc a (r_size r) = Some out" by auto
  have "r_head r < r_cap r" "r_size r \<le> r_cap r"
    using inv False by (auto simp: ring_inv_def)
  from snapshot_copy[OF inv this malloc_length[OF m]] show ?thesis
    using False m by (simp add: epi_ring_snapshot_def Let_def ring_contents_def)
qed

lemma bytes_at_wrap:
  assumes h: "h \<le> length b" and kn: "k + n \<le> length b" and b: "0 < length b"
  shows "bytes_at ((h + k) mod length b) n (b @ b) = bytes_at k n (bytes_at h (k + n) (b @ b))"
proof (rule nth_equalityI)
  let ?m = "(h + k) mod length b"
  have lt: "?m < length b" using b by simp
  have l1: "length (bytes_at ?m n (b @ b)) = n"
    using lt kn by (simp add: bytes_at_length)
  have l2: "length (bytes_at h (k + n) (b @ b)) = k + n"
    using h kn by (simp add: bytes_at_length)
  then show "length (bytes_at ?m n (b @ b)) = length (bytes_at k n (bytes_at h (k + n) (b @ b)))"
    using l1 by (simp add: bytes_at_length)
  fix i assume "i < length (bytes_at ?m n (b @ b))"
  then have i: "i < n" using l1 by simp
  have m: "?m = (if h + k < length b then h + k else h + k - length b)"
    using assms i by (intro mod_wrap) simp
  have "bytes_at ?m n (b @ b) ! i = (b @ b) ! (?m + i)"
    using lt kn i by (simp add: bytes_at_nth)
  also have "\<dots> = (b @ b) ! (h + (k + i))"
    unfolding m using h kn i by (auto simp: nth_append add.assoc)
  also have "\<dots> = bytes_at k n (bytes_at h (k + n) (b @ b)) ! i"
    using h kn i l2 by (simp add: bytes_at_nth)
  finally show "bytes_at ?m n (b @ b) ! i = bytes_at k n (bytes_at h (k + n) (b @ b)) ! i" .
qed

lemma epi_ring_snapshot_tail_contents:
  assumes inv: "ring_inv r"
  shows "epi_ring_snapshot_tail a r m =
    (if r_size r = 0 \<or> m = 0 \<or> malloc a (min m (r_size r)) = None then (None, 0)
     else (Some (lastn m (ring_contents r)), min m (r_size r)))"
proof (cases "r_size r = 0 \<or> m = 0 \<or> malloc a (min m (r_size r)) = None")
  case True
  then show ?thesis by (auto simp: epi_ring_snapshot_tail_def Let_def min_def split: if_splits)
next
  case False
  define n where "n = (if r_size r < m then r_size r else m)"
  define st where "st = (r_head r + (r_size r - n)) mod r_cap r"
  have n: "n = min m (r_size r)" by (simp add: n_def)
  obtain out where m: "malloc a n = Some out" using False n by auto
  have c: "r_cap r \<noteq> 0" "st < r_cap r" "n \<le> r_cap r" "r_head r \<le> r_cap r" "r_size r \<le> r_cap r"
    "length (r_buf r) = r_cap r" "n \<le> r_size r"
    using inv False by (auto simp: ring_inv_def n st_def)
  have "bytes_at st n (r_buf r @ r_buf r) = bytes_at (r_size r - n) n (ring_contents r)"
    using bytes_at_wrap[of "r_head r" "r_buf r" "r_size r - n" n] c
    by (simp add: ring_contents_def st_def)
  also have "\<dots> = lastn m (ring_contents r)"
    using inv by (simp add: bytes_at_def lastn_def n min_def)
  finally have tail: "bytes_at st n (r_buf r @ r_buf r) = lastn m (ring_contents r)" .
  show ?thesis
    unfolding epi_ring_snapshot_tail_def Let_def n_def[symmetric] st_def[symmetric]
    using False m snapshot_copy[OF inv c(2,3) malloc_length[OF m]] c(1) n tail by simp
qed

lemma epi_ring_init_inv [wf_intros]: "ring_inv (fst (epi_ring_init a cap))"
  by (auto simp: epi_ring_init_def Let_def ring_inv_def EPI_RING_INIT_CAP_def
      split: option.splits dest: malloc_length)

lemma epi_ring_init_empty [simp]: "ring_contents (fst (epi_ring_init a cap)) = []"
  by (auto simp: epi_ring_init_def Let_def ring_contents_def split: option.splits)

lemma epi_ring_init_ok: "snd (epi_ring_init a cap) = 0 \<Longrightarrow> r_max_cap (fst (epi_ring_init a cap)) = cap"
  by (auto simp: epi_ring_init_def Let_def split: option.splits if_splits)

lemma epi_ring_free_inv [wf_intros]: "ring_inv (epi_ring_free r)"
  by (simp add: epi_ring_free_def ring_inv_def)

section \<open>The contract: a bounded log\<close>

text \<open>
  What the daemon relies on: writing appends, and only bytes older than the limit are lost.
  Memory may fail (\<open>ok\<close> tells when it does not); then fewer bytes are kept, but what is kept
  is still the most recent part of the history.
\<close>

locale bounded_log =
  fixes put :: "'m \<Rightarrow> 'r \<Rightarrow> 'b list \<Rightarrow> 'r"
    and ok :: "'m \<Rightarrow> bool"
    and contents :: "'r \<Rightarrow> 'b list"
    and limit :: "'r \<Rightarrow> nat"
    and invar :: "'r \<Rightarrow> bool"
  assumes invar_put: "invar r \<Longrightarrow> invar (put m r d)"
    and limit_put: "invar r \<Longrightarrow> limit (put m r d) = limit r"
    and contents_put: "invar r \<Longrightarrow> ok m \<Longrightarrow> contents (put m r d) = lastn (limit r) (contents r @ d)"
    and contents_suffix: "invar r \<Longrightarrow> \<exists>n. contents (put m r d) = lastn n (contents r @ d)"
begin

lemma invar_fold: "invar r \<Longrightarrow> invar (fold (\<lambda>(m, d) r. put m r d) ws r)"
  by (induction ws arbitrary: r) (auto simp: invar_put)

lemma limit_fold: "invar r \<Longrightarrow> limit (fold (\<lambda>(m, d) r. put m r d) ws r) = limit r"
  by (induction ws arbitrary: r) (auto simp: invar_put limit_put)

lemma contents_fold:
  assumes "invar r" and "\<forall>(m, d) \<in> set ws. ok m" and "length (contents r) \<le> limit r"
  shows "contents (fold (\<lambda>(m, d) r. put m r d) ws r)
           = lastn (limit r) (contents r @ concat (map snd ws))"
  using assms
proof (induction ws arbitrary: r)
  case Nil
  then show ?case by (simp add: lastn_short)
next
  case (Cons w ws)
  obtain m d where w: "w = (m, d)" by (cases w)
  have 1: "contents (put m r d) = lastn (limit r) (contents r @ d)"
    using Cons.prems w by (auto intro: contents_put)
  have "contents (fold (\<lambda>(m, d) r. put m r d) ws (put m r d))
        = lastn (limit r) (contents (put m r d) @ concat (map snd ws))"
    using Cons.prems w 1 by (subst Cons.IH) (auto simp: invar_put limit_put)
  then show ?case using w 1 by (simp add: lastn_lastn_append)
qed

lemma suffix_fold:
  assumes "invar r"
  shows "\<exists>n. contents (fold (\<lambda>(m, d) r. put m r d) ws r)
               = lastn n (contents r @ concat (map snd ws))"
  using assms
proof (induction ws arbitrary: r)
  case Nil
  then show ?case by (auto intro: exI[of _ "length (contents r)"] simp: lastn_short)
next
  case (Cons w ws)
  obtain m d where w: "w = (m, d)" by (cases w)
  obtain k where k: "contents (put m r d) = lastn k (contents r @ d)"
    using contents_suffix[OF Cons.prems] by blast
  obtain n where n: "contents (fold (\<lambda>(m, d) r. put m r d) ws (put m r d))
        = lastn n (contents (put m r d) @ concat (map snd ws))"
    using Cons.IH[OF invar_put[OF Cons.prems]] by blast
  show ?case
  proof (cases "n \<le> k")
    case True
    then show ?thesis using w k n by (auto simp: lastn_lastn_append intro!: exI[of _ n])
  next
    case False
    then show ?thesis
      using w k n by (auto simp: lastn_suffix_append intro!: exI)
  qed
qed

end

interpretation ring: bounded_log epi_ring_write never_fails ring_contents r_max_cap ring_inv
proof (unfold_locales, goal_cases)
  case (1 r m d) then show ?case by (rule epi_ring_write_inv)
next
  case (2 r m d) then show ?case by (rule epi_ring_write_max)
next
  case (3 r m d) then show ?case by (rule epi_ring_write_limit)
next
  case (4 r m d) then show ?case using epi_ring_write_contents by blast
qed

section \<open>Properties\<close>

definition demo_ring :: epi_ring where
  "demo_ring = \<lparr>r_buf = [1, 2, 3, 4], r_cap = 4, r_max_cap = 4, r_head = 3, r_size = 3\<rparr>"

lemma demo_ring_inv: "ring_inv demo_ring"
  by (simp add: demo_ring_def ring_inv_def)

text \<open>Writing to the ring keeps its invariant (indices inside the block, capacity within the
  ceiling) and leaves exactly the most recent bytes of everything it held followed by the new
  data, as many as the capacity it then has, whether or not memory could be had to grow.\<close>

theorem ring_write_keeps_latest:
  assumes "ring_inv r"
  shows "ring_inv (epi_ring_write a r data) \<and>
         ring_contents (epi_ring_write a r data)
           = lastn (r_cap (epi_ring_write a r data)) (ring_contents r @ data) \<and>
         r_cap (epi_ring_write a r data) \<le> r_max_cap r"
  using epi_ring_write_inv[OF assms, of a data] epi_ring_write_contents[OF assms, of a data]
    epi_ring_write_max[OF assms, of a data]
  by (auto simp: ring_inv_def)

theorem ring_write_keeps_latest_witness:
  "ring_contents (epi_ring_write (\<lambda>_. None) demo_ring [7, 8]) = [1, 2, 7, 8]"
  using ring_write_keeps_latest[OF demo_ring_inv, of "\<lambda>_. None" "[7, 8]"]
  by (simp add: demo_ring_def epi_ring_write_def ring_grow_def Let_def bytes_at_def blit_def
      ring_contents_def lastn_def)

text \<open>C8. A ring created with ceiling \<open>cap\<close> and written any number of times, in chunks of any
  size, holds exactly the last \<open>cap\<close> bytes of all that was ever written, as long as memory never
  runs out.\<close>

theorem ring_run_keeps_last_cap:
  assumes "epi_ring_init a0 cap = (r, 0)" and "\<forall>(a, d) \<in> set ws. never_fails a"
  shows "ring_contents (fold (\<lambda>(a, d) r. epi_ring_write a r d) ws r) = lastn cap (concat (map snd ws))"
proof -
  have r: "ring_inv r" "ring_contents r = []" "r_max_cap r = cap"
    using epi_ring_init_inv[of a0 cap] epi_ring_init_empty[of a0 cap] epi_ring_init_ok[of a0 cap]
      assms(1) by auto
  show ?thesis using ring.contents_fold[OF r(1) assms(2)] r by simp
qed

theorem ring_run_keeps_last_cap_witness:
  "\<exists>r. ring_contents (fold (\<lambda>(a, d) r. epi_ring_write a r d) [(alloc_ok, [1, 2, 3]), (alloc_ok, [4, 5])] r)
        = [3, 4, 5]"
proof -
  obtain b where "malloc alloc_ok 3 = Some b" using malloc_never_fails[of alloc_ok 3] by auto
  then have "epi_ring_init alloc_ok 3 = (\<lparr>r_buf = b, r_cap = 3, r_max_cap = 3, r_head = 0, r_size = 0\<rparr>, 0)"
    by (simp add: epi_ring_init_def EPI_RING_INIT_CAP_def)
  from ring_run_keeps_last_cap[OF this, of "[(alloc_ok, [1, 2, 3]), (alloc_ok, [4, 5])]"]
  show ?thesis by (auto simp: lastn_def intro!: exI)
qed

text \<open>A snapshot is the ring's contents in order, and a tail snapshot exactly the last
  \<open>max_bytes\<close> of them (all, when there are fewer); both are NULL for an empty answer or when
  memory fails, and the length reported is the number of bytes returned.\<close>

theorem ring_snapshots_exact:
  assumes "ring_inv r" and "never_fails a"
  shows "epi_ring_snapshot a r =
           (if r_size r = 0 then (None, 0) else (Some (ring_contents r), length (ring_contents r)))
       \<and> epi_ring_snapshot_tail a r m =
           (if lastn m (ring_contents r) = [] then (None, 0)
            else (Some (lastn m (ring_contents r)), length (lastn m (ring_contents r))))"
proof -
  have len: "length (ring_contents r) = r_size r" using assms(1) by simp
  have "lastn m (ring_contents r) = [] \<longleftrightarrow> length (lastn m (ring_contents r)) = 0"
    by (rule length_0_conv[symmetric])
  then have "lastn m (ring_contents r) = [] \<longleftrightarrow> r_size r = 0 \<or> m = 0"
    unfolding lastn_length len by (auto simp: min_def)
  then show ?thesis using assms(2) len
    by (simp add: epi_ring_snapshot_contents[OF assms(1)] epi_ring_snapshot_tail_contents[OF assms(1)])
qed

theorem ring_snapshots_exact_witness:
  "epi_ring_snapshot_tail alloc_ok demo_ring 2 = (Some [1, 2], 2)"
  using ring_snapshots_exact[OF demo_ring_inv never_fails_alloc_ok, of 2]
  by (simp add: demo_ring_def ring_contents_def bytes_at_def lastn_def)

end
