(* ===== verification/Protocol.thy ===== *)
theory Protocol
  imports Prelude
begin

text \<open>
  The wire protocol (src/src/epimone-protocol.h): message and error codes, the growable output
  buffer that frames are built in, the reader cursor over a received body, and the laws that
  tie the two together. Every integer on the wire is little-endian; strings and blobs carry
  their length as a u32.
\<close>

section \<open>Codes\<close>

definition EPI_MSG_CREATE :: u32 where "EPI_MSG_CREATE = 1"
definition EPI_MSG_LIST :: u32 where "EPI_MSG_LIST = 2"
definition EPI_MSG_ATTACH :: u32 where "EPI_MSG_ATTACH = 3"
definition EPI_MSG_KILL :: u32 where "EPI_MSG_KILL = 4"
definition EPI_MSG_RESIZE :: u32 where "EPI_MSG_RESIZE = 5"
definition EPI_MSG_DETACH :: u32 where "EPI_MSG_DETACH = 6"
definition EPI_MSG_PEEK :: u32 where "EPI_MSG_PEEK = 7"
definition EPI_MSG_GROUP_NEW :: u32 where "EPI_MSG_GROUP_NEW = 8"
definition EPI_MSG_GROUP_SET :: u32 where "EPI_MSG_GROUP_SET = 9"
definition EPI_MSG_GROUP_ADD :: u32 where "EPI_MSG_GROUP_ADD = 10"
definition EPI_MSG_GROUP_REMOVE :: u32 where "EPI_MSG_GROUP_REMOVE = 11"
definition EPI_MSG_GROUP_LIST :: u32 where "EPI_MSG_GROUP_LIST = 12"
definition EPI_MSG_ID :: u32 where "EPI_MSG_ID = 100"
definition EPI_MSG_LIST_REPLY :: u32 where "EPI_MSG_LIST_REPLY = 101"
definition EPI_MSG_ATTACHED :: u32 where "EPI_MSG_ATTACHED = 102"
definition EPI_MSG_OK :: u32 where "EPI_MSG_OK = 103"
definition EPI_MSG_ERROR :: u32 where "EPI_MSG_ERROR = 104"
definition EPI_MSG_PEEK_REPLY :: u32 where "EPI_MSG_PEEK_REPLY = 105"
definition EPI_MSG_GROUP_ID :: u32 where "EPI_MSG_GROUP_ID = 106"
definition EPI_MSG_GROUP_LIST_REPLY :: u32 where "EPI_MSG_GROUP_LIST_REPLY = 107"

lemmas msg_codes =
  EPI_MSG_CREATE_def EPI_MSG_LIST_def EPI_MSG_ATTACH_def EPI_MSG_KILL_def EPI_MSG_RESIZE_def
  EPI_MSG_DETACH_def EPI_MSG_PEEK_def EPI_MSG_GROUP_NEW_def EPI_MSG_GROUP_SET_def
  EPI_MSG_GROUP_ADD_def EPI_MSG_GROUP_REMOVE_def EPI_MSG_GROUP_LIST_def EPI_MSG_ID_def
  EPI_MSG_LIST_REPLY_def EPI_MSG_ATTACHED_def EPI_MSG_OK_def EPI_MSG_ERROR_def
  EPI_MSG_PEEK_REPLY_def EPI_MSG_GROUP_ID_def EPI_MSG_GROUP_LIST_REPLY_def

definition EPI_ERR_NONE :: u32 where "EPI_ERR_NONE = 0"
definition EPI_ERR_PROTOCOL :: u32 where "EPI_ERR_PROTOCOL = 1"
definition EPI_ERR_NOT_FOUND :: u32 where "EPI_ERR_NOT_FOUND = 2"
definition EPI_ERR_SPAWN :: u32 where "EPI_ERR_SPAWN = 3"
definition EPI_ERR_INTERNAL :: u32 where "EPI_ERR_INTERNAL = 4"
definition EPI_ERR_TOO_LARGE :: u32 where "EPI_ERR_TOO_LARGE = 5"

lemmas err_codes =
  EPI_ERR_NONE_def EPI_ERR_PROTOCOL_def EPI_ERR_NOT_FOUND_def EPI_ERR_SPAWN_def
  EPI_ERR_INTERNAL_def EPI_ERR_TOO_LARGE_def

definition EPI_PEEK_DEFAULT_BYTES :: nat where "EPI_PEEK_DEFAULT_BYTES = 64 * 1024"
definition EPI_GROUP_BLOB_MAX :: nat where "EPI_GROUP_BLOB_MAX = 64 * 1024"
definition EPI_GROUP_MAX :: nat where "EPI_GROUP_MAX = 4096"

text \<open>A C string literal as bytes, and what a NUL-terminated buffer means as a string.\<close>

definition lit :: "string \<Rightarrow> byte list" where
  "lit s = map of_char s"

definition cstr :: "byte list \<Rightarrow> byte list" where
  "cstr bs = takeWhile (\<lambda>b. b \<noteq> 0) bs"

section \<open>The output buffer\<close>

record epi_buf =
  b_data :: "byte list"
  b_len :: nat
  b_cap :: nat
  b_oom :: bool

definition epi_buf_init :: epi_buf where
  "epi_buf_init = \<lparr>b_data = [], b_len = 0, b_cap = 0, b_oom = False\<rparr>"

definition epi_buf_free :: "epi_buf \<Rightarrow> epi_buf" where
  "epi_buf_free b = epi_buf_init"

definition epi_buf_reserve :: "allocator \<Rightarrow> epi_buf \<Rightarrow> nat \<Rightarrow> epi_buf \<times> int" where
  "epi_buf_reserve a b extra =
    (let need = b_len b + extra
     in if need \<le> b_cap b then (b, 0)
        else
          let nc = double_until (if b_cap b \<noteq> 0 then b_cap b else 64) need
          in case realloc a (b_data b) nc of
               None \<Rightarrow> (b\<lparr>b_oom := True\<rparr>, -1)
             | Some nd \<Rightarrow> (b\<lparr>b_data := nd, b_cap := nc\<rparr>, 0))"

definition epi_buf_put_bytes :: "allocator \<Rightarrow> epi_buf \<Rightarrow> byte list \<Rightarrow> epi_buf" where
  "epi_buf_put_bytes a b p =
    (case epi_buf_reserve a b (length p) of (b', rc) \<Rightarrow>
       if rc \<noteq> 0 then b'
       else b'\<lparr>b_data := blit (b_data b') (b_len b') p, b_len := b_len b' + length p\<rparr>)"

definition le16 :: "u16 \<Rightarrow> byte list" where
  "le16 v = [ucast (v AND 0xff), ucast (drop_bit 8 v AND 0xff)]"

definition le32 :: "u32 \<Rightarrow> byte list" where
  "le32 v = [ucast (v AND 0xff), ucast (drop_bit 8 v AND 0xff),
             ucast (drop_bit 16 v AND 0xff), ucast (drop_bit 24 v AND 0xff)]"

definition epi_buf_put_u8 :: "allocator \<Rightarrow> epi_buf \<Rightarrow> byte \<Rightarrow> epi_buf" where
  "epi_buf_put_u8 a b v = epi_buf_put_bytes a b [v]"

definition epi_buf_put_u16 :: "allocator \<Rightarrow> epi_buf \<Rightarrow> u16 \<Rightarrow> epi_buf" where
  "epi_buf_put_u16 a b v = epi_buf_put_bytes a b (le16 v)"

definition epi_buf_put_u32 :: "allocator \<Rightarrow> epi_buf \<Rightarrow> u32 \<Rightarrow> epi_buf" where
  "epi_buf_put_u32 a b v = epi_buf_put_bytes a b (le32 v)"

definition epi_buf_put_u64 :: "allocator \<Rightarrow> epi_buf \<Rightarrow> u64 \<Rightarrow> epi_buf" where
  "epi_buf_put_u64 a b v =
     (let b1 = epi_buf_put_u32 a b (ucast (v AND 0xffffffff))
      in epi_buf_put_u32 a b1 (ucast (drop_bit 32 v AND 0xffffffff)))"

text \<open>A string argument is \<open>None\<close> for NULL, else the bytes of the buffer it points to.\<close>

definition epi_buf_put_str :: "allocator \<Rightarrow> epi_buf \<Rightarrow> byte list option \<Rightarrow> epi_buf" where
  "epi_buf_put_str a b s =
     (let n = (case s of None \<Rightarrow> 0 | Some cs \<Rightarrow> length (cstr cs));
          b1 = epi_buf_put_u32 a b (word_of_nat n)
      in if n \<noteq> 0 then epi_buf_put_bytes a b1 (cstr (the s)) else b1)"

definition epi_buf_put_blob :: "allocator \<Rightarrow> epi_buf \<Rightarrow> byte list \<Rightarrow> epi_buf" where
  "epi_buf_put_blob a b p =
     (let b1 = epi_buf_put_u32 a b (word_of_nat (length p))
      in if length p \<noteq> 0 then epi_buf_put_bytes a b1 p else b1)"

definition epi_msg_start :: "allocator \<Rightarrow> u32 \<Rightarrow> epi_buf" where
  "epi_msg_start a type =
     (let b = epi_buf_init; b1 = epi_buf_put_u32 a b 0 in epi_buf_put_u32 a b1 type)"

definition epi_msg_end :: "epi_buf \<Rightarrow> epi_buf" where
  "epi_msg_end b =
     (if b_oom b \<or> b_len b < 4 then b
      else b\<lparr>b_data := blit (b_data b) 0 (le32 (word_of_nat (b_len b - 4)))\<rparr>)"

section \<open>The reader cursor\<close>

record epi_rd =
  rd_data :: "byte list"
  rd_pos :: nat
  rd_err :: bool

abbreviation rd_len :: "epi_rd \<Rightarrow> nat" where
  "rd_len r \<equiv> length (rd_data r)"

definition epi_rd_init :: "byte list \<Rightarrow> epi_rd" where
  "epi_rd_init data = \<lparr>rd_data = data, rd_pos = 0, rd_err = False\<rparr>"

definition epi_rd_u8 :: "epi_rd \<Rightarrow> byte \<times> epi_rd" where
  "epi_rd_u8 r =
     (if rd_pos r + 1 > rd_len r then (0, r\<lparr>rd_err := True\<rparr>)
      else (rd_data r ! rd_pos r, r\<lparr>rd_pos := rd_pos r + 1\<rparr>))"

definition epi_rd_u16 :: "epi_rd \<Rightarrow> u16 \<times> epi_rd" where
  "epi_rd_u16 r =
     (if rd_pos r + 2 > rd_len r then (0, r\<lparr>rd_err := True\<rparr>)
      else (ucast (rd_data r ! rd_pos r) OR push_bit 8 (ucast (rd_data r ! (rd_pos r + 1))),
            r\<lparr>rd_pos := rd_pos r + 2\<rparr>))"

text \<open>Four bytes as a word: \<open>p[0] | p[1] << 8 | p[2] << 16 | p[3] << 24\<close>.\<close>

definition get_le32 :: "byte list \<Rightarrow> nat \<Rightarrow> u32" where
  "get_le32 p i = ucast (p ! i) OR push_bit 8 (ucast (p ! (i + 1)))
     OR push_bit 16 (ucast (p ! (i + 2))) OR push_bit 24 (ucast (p ! (i + 3)))"

definition epi_rd_u32 :: "epi_rd \<Rightarrow> u32 \<times> epi_rd" where
  "epi_rd_u32 r =
     (if rd_pos r + 4 > rd_len r then (0, r\<lparr>rd_err := True\<rparr>)
      else (get_le32 (rd_data r) (rd_pos r), r\<lparr>rd_pos := rd_pos r + 4\<rparr>))"

definition epi_rd_u64 :: "epi_rd \<Rightarrow> u64 \<times> epi_rd" where
  "epi_rd_u64 r =
     (case epi_rd_u32 r of (lo, r1) \<Rightarrow>
      case epi_rd_u32 r1 of (hi, r2) \<Rightarrow>
        (ucast lo OR push_bit 32 (ucast hi), r2))"

text \<open>The result is the string the caller sees: the copied bytes up to the first NUL.\<close>

definition epi_rd_str :: "allocator \<Rightarrow> epi_rd \<Rightarrow> byte list option \<times> epi_rd" where
  "epi_rd_str a r =
     (case epi_rd_u32 r of (n32, r1) \<Rightarrow>
        let n = unat n32
        in if rd_err r1 \<or> rd_pos r1 + n > rd_len r1 then (None, r1\<lparr>rd_err := True\<rparr>)
           else case malloc a (n + 1) of
                  None \<Rightarrow> (None, r1\<lparr>rd_err := True\<rparr>)
                | Some s \<Rightarrow>
                    let s1 = blit s 0 (bytes_at (rd_pos r1) n (rd_data r1));
                        s2 = s1[n := 0]
                    in (Some (cstr s2), r1\<lparr>rd_pos := rd_pos r1 + n\<rparr>))"

text \<open>The block and \<open>out_len\<close>; NULL for an empty block as well as for an error.\<close>

definition epi_rd_blob :: "allocator \<Rightarrow> epi_rd \<Rightarrow> (byte list option \<times> nat) \<times> epi_rd" where
  "epi_rd_blob a r =
     (case epi_rd_u32 r of (n32, r1) \<Rightarrow>
        let n = unat n32
        in if rd_err r1 \<or> rd_pos r1 + n > rd_len r1 then ((None, 0), r1\<lparr>rd_err := True\<rparr>)
           else if n = 0 then ((None, 0), r1)
           else case malloc a n of
                  None \<Rightarrow> ((None, 0), r1\<lparr>rd_err := True\<rparr>)
                | Some p \<Rightarrow>
                    ((Some (blit p 0 (bytes_at (rd_pos r1) n (rd_data r1))), n),
                     r1\<lparr>rd_pos := rd_pos r1 + n\<rparr>))"

section \<open>Laws of the output buffer\<close>

definition buf_ok :: "epi_buf \<Rightarrow> bool" where
  "buf_ok b \<longleftrightarrow> length (b_data b) = b_cap b \<and> b_len b \<le> b_cap b"

definition buf_bytes :: "epi_buf \<Rightarrow> byte list" where
  "buf_bytes b = take (b_len b) (b_data b)"

abbreviation buf_app :: "epi_buf \<Rightarrow> epi_buf \<Rightarrow> byte list \<Rightarrow> bool" where
  "buf_app \<equiv> appends buf_ok b_oom buf_bytes"

lemma reserve_spec:
  assumes ok: "buf_ok b" and res: "epi_buf_reserve a b n = (b', rc)"
  shows "buf_ok b' \<and> buf_bytes b' = buf_bytes b \<and> b_len b' = b_len b \<and>
         (rc = 0 \<longrightarrow> b_len b + n \<le> b_cap b' \<and> b_oom b' = b_oom b) \<and> (rc \<noteq> 0 \<longrightarrow> b_oom b')"
proof -
  let ?need = "b_len b + n"
  let ?nc = "double_until (if b_cap b \<noteq> 0 then b_cap b else 64) ?need"
  have need: "?need \<le> ?nc" using double_until_enough by simp
  have cap: "b_cap b \<le> ?nc" using double_until_ge[of "b_cap b" ?need] by (cases "b_cap b = 0") auto
  show ?thesis
  proof (cases "?need \<le> b_cap b")
    case True
    then show ?thesis using ok res by (auto simp: epi_buf_reserve_def)
  next
    case False
    show ?thesis
    proof (cases "realloc a (b_data b) ?nc")
      case None
      then show ?thesis using ok res False
        by (auto simp: epi_buf_reserve_def Let_def buf_ok_def buf_bytes_def)
    next
      case (Some nd)
      then have "length nd = ?nc" "take (b_len b) nd = take (b_len b) (b_data b)"
        using ok cap by (auto simp: buf_ok_def dest: realloc_length intro!: realloc_prefix)
      then show ?thesis using ok res False Some need cap
        by (auto simp: epi_buf_reserve_def Let_def buf_ok_def buf_bytes_def)
    qed
  qed
qed

lemma put_bytes_appends: "buf_app b (epi_buf_put_bytes a b p) p"
proof (cases "epi_buf_reserve a b (length p)")
  case (Pair b' rc)
  show ?thesis
  proof (cases "buf_ok b \<and> rc = 0")
    case True
    with reserve_spec[OF _ Pair]
    have sp: "buf_ok b'" "buf_bytes b' = buf_bytes b" "b_len b' = b_len b"
      "b_len b + length p \<le> b_cap b'" "b_oom b' = b_oom b" by auto
    have l: "b_len b' + length p \<le> length (b_data b')" using sp by (simp add: buf_ok_def)
    have "take (b_len b' + length p) (blit (b_data b') (b_len b') p) = take (b_len b') (b_data b') @ p"
      using l by (intro blit_take_all) simp
    then show ?thesis using sp l True Pair
      by (auto simp: appends_def epi_buf_put_bytes_def buf_ok_def buf_bytes_def blit_length)
  next
    case False
    then show ?thesis using reserve_spec[OF _ Pair] Pair
      by (auto simp: appends_def epi_buf_put_bytes_def)
  qed
qed

interpretation wire: sink epi_buf_put_bytes buf_ok b_oom buf_bytes
  by unfold_locales (rule put_bytes_appends)

definition le64 :: "u64 \<Rightarrow> byte list" where
  "le64 v = le32 (ucast (v AND 0xffffffff)) @ le32 (ucast (drop_bit 32 v AND 0xffffffff))"

definition enc_str :: "byte list option \<Rightarrow> byte list" where
  "enc_str s = (let cs = (case s of None \<Rightarrow> [] | Some x \<Rightarrow> cstr x)
                in le32 (word_of_nat (length cs)) @ cs)"

definition enc_blob :: "byte list \<Rightarrow> byte list" where
  "enc_blob p = le32 (word_of_nat (length p)) @ p"

definition frame :: "u32 \<Rightarrow> byte list \<Rightarrow> byte list" where
  "frame type body = le32 (word_of_nat (4 + length body)) @ le32 type @ body"

named_theorems buf_writes \<open>what each writer of the output buffer appends\<close>

lemma le_lengths [simp]: "length (le16 w) = 2" "length (le32 v) = 4" "length (le64 x) = 8"
  by (simp_all add: le16_def le32_def le64_def)

lemma put_u8_appends [buf_writes]: "buf_app b (epi_buf_put_u8 a b v) [v]"
  unfolding epi_buf_put_u8_def by (rule put_bytes_appends)

lemma put_u16_appends [buf_writes]: "buf_app b (epi_buf_put_u16 a b v) (le16 v)"
  unfolding epi_buf_put_u16_def by (rule put_bytes_appends)

lemma put_u32_appends [buf_writes]: "buf_app b (epi_buf_put_u32 a b v) (le32 v)"
  unfolding epi_buf_put_u32_def by (rule put_bytes_appends)

lemma put_u64_appends [buf_writes]: "buf_app b (epi_buf_put_u64 a b v) (le64 v)"
  unfolding epi_buf_put_u64_def le64_def Let_def
  by (rule appends_trans[OF put_u32_appends put_u32_appends])

lemma put_str_appends [buf_writes]: "buf_app b (epi_buf_put_str a b s) (enc_str s)"
proof (cases "s = None \<or> cstr (the s) = []")
  case True
  then show ?thesis using put_u32_appends[of b a 0]
    by (auto simp: epi_buf_put_str_def enc_str_def split: option.splits)
next
  case False
  then show ?thesis using appends_trans[OF put_u32_appends put_bytes_appends]
    by (auto simp: epi_buf_put_str_def enc_str_def Let_def split: option.splits)
qed

lemma put_blob_appends [buf_writes]: "buf_app b (epi_buf_put_blob a b p) (enc_blob p)"
  using put_u32_appends[of b a 0] appends_trans[OF put_u32_appends put_bytes_appends]
  by (cases "p = []") (auto simp: epi_buf_put_blob_def enc_blob_def)

lemma init_ok [simp]: "buf_ok epi_buf_init" "buf_bytes epi_buf_init = []" "b_oom epi_buf_init = False"
  by (simp_all add: epi_buf_init_def buf_ok_def buf_bytes_def)

lemma msg_start_appends: "buf_app epi_buf_init (epi_msg_start a t) (le32 0 @ le32 t)"
  unfolding epi_msg_start_def Let_def by (rule appends_trans[OF put_u32_appends put_u32_appends])

lemma msg_end_oom [simp]: "b_oom (epi_msg_end b) = b_oom b"
  by (simp add: epi_msg_end_def)

text \<open>A frame built by any writers after the start: either memory failed or it is the frame.\<close>

lemma msg_end_frame:
  assumes "buf_app (epi_msg_start a t) b body" and "\<not> b_oom (epi_msg_end b)"
  shows "buf_bytes (epi_msg_end b) = frame t body \<and> buf_ok (epi_msg_end b)"
proof -
  have b: "buf_ok b" "buf_bytes b = le32 0 @ le32 t @ body" and oom: "\<not> b_oom b"
    using appends_trans[OF msg_start_appends assms(1)] assms(2) by (auto simp: appends_def)
  have len: "b_len b = 8 + length body" "b_len b \<le> length (b_data b)"
  proof -
    have "length (buf_bytes b) = 8 + length body" unfolding b(2) by simp
    then show "b_len b = 8 + length body" "b_len b \<le> length (b_data b)"
      using b(1) by (auto simp: buf_ok_def buf_bytes_def)
  qed
  have "take (b_len b) (blit (b_data b) 0 (le32 (word_of_nat (b_len b - 4))))
        = le32 (word_of_nat (b_len b - 4)) @ drop 4 (buf_bytes b)"
    using len by (simp add: blit_def buf_bytes_def take_drop min_def)
  then show ?thesis using b oom len
    by (auto simp: epi_msg_end_def frame_def buf_bytes_def buf_ok_def blit_length)
qed

text \<open>When memory never fails, no writer raises the flag.\<close>

lemma put_bytes_oom [simp]: "never_fails a \<Longrightarrow> b_oom (epi_buf_put_bytes a b p) = b_oom b"
  by (auto simp: epi_buf_put_bytes_def epi_buf_reserve_def Let_def split: option.splits)

lemma put_oom [simp]:
  assumes "never_fails a"
  shows "b_oom (epi_buf_put_u8 a b v8) = b_oom b" "b_oom (epi_buf_put_u16 a b v16) = b_oom b"
    "b_oom (epi_buf_put_u32 a b v32) = b_oom b" "b_oom (epi_buf_put_u64 a b v64) = b_oom b"
    "b_oom (epi_buf_put_str a b s) = b_oom b" "b_oom (epi_buf_put_blob a b p) = b_oom b"
    "b_oom (epi_msg_start a t) = False"
  using assms by (simp_all add: epi_buf_put_u8_def epi_buf_put_u16_def epi_buf_put_u32_def
      epi_buf_put_u64_def epi_buf_put_str_def epi_buf_put_blob_def epi_msg_start_def Let_def)

section \<open>Laws of the reader\<close>

definition rd_ok :: "epi_rd \<Rightarrow> bool" where
  "rd_ok r \<longleftrightarrow> rd_pos r \<le> rd_len r"

text \<open>The cursor stands, without error, before exactly the bytes \<open>bs\<close>.\<close>

definition rd_at :: "epi_rd \<Rightarrow> byte list \<Rightarrow> bool" where
  "rd_at r bs \<longleftrightarrow> rd_ok r \<and> \<not> rd_err r \<and> drop (rd_pos r) (rd_data r) = bs"

text \<open>
  The loop \<open>for (i = 0; i < count && !r.err; i++) out[i] = dec (r)\<close>, with which every repeated
  structure of the wire format is read.
\<close>

fun rd_loop :: "(epi_rd \<Rightarrow> 'v \<times> epi_rd) \<Rightarrow> nat \<Rightarrow> epi_rd \<Rightarrow> 'v list \<times> epi_rd" where
  "rd_loop dec 0 r = ([], r)"
| "rd_loop dec (Suc n) r =
     (if rd_err r then ([], r)
      else case dec r of (v, r1) \<Rightarrow>
           case rd_loop dec n r1 of (vs, r2) \<Rightarrow> (v # vs, r2))"

lemma rd_loop_Suc [simp]:
  "rd_loop dec (Suc n) r =
     (if rd_err r then ([], r)
      else (fst (dec r) # fst (rd_loop dec n (snd (dec r))), snd (rd_loop dec n (snd (dec r)))))"
  by (simp add: case_prod_beta)

declare rd_loop.simps(2) [simp del]

text \<open>
  The contract of a reader: it leaves the data alone, never moves the cursor past the end or
  backwards and never clears the error flag. A codec is a reader that inverts a writer.
\<close>

locale reader =
  fixes dec :: "allocator \<Rightarrow> epi_rd \<Rightarrow> 'v \<times> epi_rd"
  assumes data: "rd_data (snd (dec a r)) = rd_data r"
    and sticky: "rd_err r \<Longrightarrow> rd_err (snd (dec a r))"
    and bounded: "rd_ok r \<Longrightarrow> rd_ok (snd (dec a r))"
    and forward: "rd_pos r \<le> rd_pos (snd (dec a r))"
begin

lemma loop_reader: "reader (\<lambda>a. rd_loop (dec a) n)"
proof
  fix a r
  show "rd_data (snd (rd_loop (dec a) n r)) = rd_data r"
    by (induction n arbitrary: r) (auto simp: data)
  show "rd_err (snd (rd_loop (dec a) n r))" if "rd_err r"
    using that by (cases n) auto
  show "rd_ok (snd (rd_loop (dec a) n r))" if "rd_ok r"
    using that by (induction n arbitrary: r) (auto simp: bounded)
  show "rd_pos r \<le> rd_pos (snd (rd_loop (dec a) n r))"
    by (induction n arbitrary: r) (auto intro: le_trans[OF forward])
qed

end

locale codec = reader dec for dec :: "allocator \<Rightarrow> epi_rd \<Rightarrow> 'v \<times> epi_rd" +
  fixes enc :: "'v \<Rightarrow> byte list" and okv :: "'v \<Rightarrow> bool"
  assumes decode: "never_fails a \<Longrightarrow> okv v \<Longrightarrow> rd_at r (enc v @ rest) \<Longrightarrow>
      fst (dec a r) = v \<and> rd_at (snd (dec a r)) rest"
begin

lemma loop_decode:
  assumes "never_fails a" and "\<forall>v \<in> set vs. okv v"
    and "rd_at r (concat (map enc vs) @ rest)"
  shows "fst (rd_loop (dec a) (length vs) r) = vs \<and> rd_at (snd (rd_loop (dec a) (length vs) r)) rest"
  using assms(2,3)
proof (induction vs arbitrary: r)
  case Nil
  then show ?case by simp
next
  case (Cons v vs)
  have "fst (dec a r) = v \<and> rd_at (snd (dec a r)) (concat (map enc vs) @ rest)"
    using Cons.prems by (intro decode[OF assms(1)]) simp_all
  moreover have "\<not> rd_err r" using Cons.prems by (simp add: rd_at_def)
  ultimately show ?case using Cons.IH[of "snd (dec a r)"] Cons.prems
    by (auto split: prod.splits)
qed

end

section \<open>The readers of the protocol are codecs\<close>

lemma ff_mask: "(0xff :: 'a::len word) = mask 8" "(0xffffffff :: 'a::len word) = mask 32"
  by (simp_all add: mask_eq_exp_minus_1)

lemma le16_or:
  "ucast (ucast (v AND 0xff) :: byte) OR push_bit 8 (ucast (ucast (drop_bit 8 v AND 0xff) :: byte)) = (v :: u16)"
  unfolding ff_mask by (rule bit_word_eqI) (auto simp add: bit_simps)

lemma byte_of: "(ucast (v AND 0xff) :: byte) = ucast v"
  unfolding ff_mask
  by (rule bit_word_eqI) (auto simp add: bit_simps dest: bit_imp_le_length)

lemma le32_or:
  fixes v :: u32
  shows "ucast (ucast v :: byte) OR push_bit 8 (ucast (ucast (drop_bit 8 v) :: byte))
     OR push_bit 16 (ucast (ucast (drop_bit 16 v) :: byte))
     OR push_bit 24 (ucast (ucast (drop_bit 24 v) :: byte)) = v"
  (is "?l = v")
proof (rule bit_word_eqI)
  fix n assume "n < LENGTH(32)"
  then show "bit ?l n = bit v n"
    by (cases "n < 8"; cases "n < 16"; cases "n < 24") (auto simp add: bit_simps)
qed

lemma le64_or:
  fixes v :: u64
  shows "ucast (ucast (v AND 0xffffffff) :: u32)
     OR push_bit 32 (ucast (ucast (drop_bit 32 v AND 0xffffffff) :: u32)) = v"
  (is "?l = v")
proof (rule bit_word_eqI)
  fix n assume "n < LENGTH(64)"
  then show "bit ?l n = bit v n"
    unfolding ff_mask by (cases "n < 32") (auto simp add: bit_simps)
qed

lemma get_le32_le32: "get_le32 (pre @ le32 v @ post) (length pre) = v"
  by (simp add: get_le32_def le32_def byte_of le32_or nth_append)

text \<open>Standing before \<open>k\<close> known bytes: what a successful read sees.\<close>

lemma rd_at_split:
  assumes "rd_at r (bs @ rest)"
  shows "rd_data r = take (rd_pos r) (rd_data r) @ bs @ rest" and "rd_pos r + length bs \<le> rd_len r"
    and "length (take (rd_pos r) (rd_data r)) = rd_pos r"
proof -
  have d: "drop (rd_pos r) (rd_data r) = bs @ rest" and p: "rd_pos r \<le> rd_len r"
    using assms by (auto simp: rd_at_def rd_ok_def)
  show "rd_data r = take (rd_pos r) (rd_data r) @ bs @ rest"
    using append_take_drop_id[of "rd_pos r" "rd_data r"] d by simp
  show "rd_pos r + length bs \<le> rd_len r"
    using arg_cong[OF d, of length] p by simp
  show "length (take (rd_pos r) (rd_data r)) = rd_pos r" using p by simp
qed

lemma rd_at_advance:
  assumes "rd_at r (bs @ rest)"
  shows "rd_at (r\<lparr>rd_pos := rd_pos r + length bs\<rparr>) rest"
proof -
  have "drop (rd_pos r) (rd_data r) = bs @ rest" "rd_ok r" "\<not> rd_err r"
    using assms by (simp_all add: rd_at_def)
  moreover have "drop (rd_pos r + length bs) (rd_data r) = drop (length bs) (drop (rd_pos r) (rd_data r))"
    by (simp add: add.commute)
  ultimately show ?thesis using rd_at_split(2)[OF assms] by (simp add: rd_at_def rd_ok_def)
qed

lemma rd_u32_at:
  assumes "rd_at r (le32 v @ rest)"
  shows "epi_rd_u32 r = (v, r\<lparr>rd_pos := rd_pos r + 4\<rparr>)" and "rd_at (r\<lparr>rd_pos := rd_pos r + 4\<rparr>) rest"
proof -
  note sp = rd_at_split[OF assms]
  have "get_le32 (rd_data r) (rd_pos r) = v"
    using get_le32_le32[of "take (rd_pos r) (rd_data r)" v rest] sp by metis
  then show "epi_rd_u32 r = (v, r\<lparr>rd_pos := rd_pos r + 4\<rparr>)"
    using sp(2) by (simp add: epi_rd_u32_def)
  show "rd_at (r\<lparr>rd_pos := rd_pos r + 4\<rparr>) rest" using rd_at_advance[OF assms] by simp
qed

lemma bytes_at_split:
  assumes "rd_at r (bs @ rest)"
  shows "bytes_at (rd_pos r) (length bs) (rd_data r) = bs"
  using assms by (simp add: rd_at_def bytes_at_def)

lemma rd_nth:
  assumes "rd_at r (bs @ rest)" and "i < length bs"
  shows "rd_data r ! (rd_pos r + i) = bs ! i"
  using bytes_at_nth[of "rd_pos r" "length bs" "rd_data r" i] bytes_at_split[OF assms(1)]
    rd_at_split(2)[OF assms(1)] assms(2) by simp

lemma rd_u8_at:
  assumes "rd_at r (v # rest)"
  shows "epi_rd_u8 r = (v, r\<lparr>rd_pos := rd_pos r + 1\<rparr>)" and "rd_at (r\<lparr>rd_pos := rd_pos r + 1\<rparr>) rest"
proof -
  have at: "rd_at r ([v] @ rest)" using assms by simp
  show "epi_rd_u8 r = (v, r\<lparr>rd_pos := rd_pos r + 1\<rparr>)"
    using rd_nth[OF at, of 0] rd_at_split(2)[OF at] by (simp add: epi_rd_u8_def)
  show "rd_at (r\<lparr>rd_pos := rd_pos r + 1\<rparr>) rest" using rd_at_advance[OF at] by simp
qed

lemma rd_u16_at:
  assumes "rd_at r (le16 v @ rest)"
  shows "epi_rd_u16 r = (v, r\<lparr>rd_pos := rd_pos r + 2\<rparr>)" and "rd_at (r\<lparr>rd_pos := rd_pos r + 2\<rparr>) rest"
proof -
  show "epi_rd_u16 r = (v, r\<lparr>rd_pos := rd_pos r + 2\<rparr>)"
    using rd_nth[OF assms, of 0] rd_nth[OF assms, of 1] rd_at_split(2)[OF assms] le16_or[of v]
    by (simp add: epi_rd_u16_def le16_def)
  show "rd_at (r\<lparr>rd_pos := rd_pos r + 2\<rparr>) rest" using rd_at_advance[OF assms] by simp
qed

lemma rd_u64_at:
  assumes "rd_at r (le64 v @ rest)"
  shows "epi_rd_u64 r = (v, r\<lparr>rd_pos := rd_pos r + 8\<rparr>)" and "rd_at (r\<lparr>rd_pos := rd_pos r + 8\<rparr>) rest"
proof -
  have at: "rd_at r (le32 (ucast (v AND 0xffffffff)) @ le32 (ucast (drop_bit 32 v AND 0xffffffff)) @ rest)"
    using assms by (simp add: le64_def)
  show "epi_rd_u64 r = (v, r\<lparr>rd_pos := rd_pos r + 8\<rparr>)"
    using rd_u32_at[OF at] rd_u32_at(1)[OF rd_u32_at(2)[OF at]] le64_or[of v]
    by (simp add: epi_rd_u64_def)
  show "rd_at (r\<lparr>rd_pos := rd_pos r + 8\<rparr>) rest" using rd_at_advance[OF assms] by simp
qed

text \<open>A string and a blob behind their length.\<close>

lemma of_nat_u32: "n < 2 ^ 32 \<Longrightarrow> unat (word_of_nat n :: u32) = n"
  by (simp add: unat_of_nat)

lemma cstr_id: "0 \<notin> set s \<Longrightarrow> cstr s = s"
  by (auto simp: cstr_def takeWhile_eq_all_conv)

lemma cstr_append_nul: "cstr (s @ 0 # t) = cstr s"
  by (simp add: cstr_def takeWhile_tail)

lemma rd_str_at:
  assumes "never_fails a" and "0 \<notin> set s" and "length s < 2 ^ 32" and "rd_at r (enc_str (Some s) @ rest)"
  shows "fst (epi_rd_str a r) = Some s \<and> rd_at (snd (epi_rd_str a r)) rest"
proof -
  let ?r1 = "r\<lparr>rd_pos := rd_pos r + 4\<rparr>"
  have at: "rd_at r (le32 (word_of_nat (length s)) @ s @ rest)"
    using assms(2,4) by (simp add: enc_str_def cstr_id)
  note u = rd_u32_at[OF at]
  obtain m where m: "malloc a (Suc (length s)) = Some m" "length m = Suc (length s)"
    using malloc_never_fails[OF assms(1)] malloc_length by metis
  have "length (drop (length s) m) = Suc 0" using m(2) by simp
  then obtain b where b: "drop (length s) m = [b]" by (simp only: length_Suc_conv length_0_conv) blast
  have res: "(blit m 0 s)[length s := 0] = s @ [0]" using b by (simp add: blit_def list_update_append)
  have "\<not> rd_err ?r1" using u(2) by (simp add: rd_at_def)
  moreover have "rd_pos ?r1 + length s \<le> rd_len ?r1" using rd_at_split(2)[OF u(2)] by simp
  ultimately have "epi_rd_str a r = (Some s, ?r1\<lparr>rd_pos := rd_pos ?r1 + length s\<rparr>)"
    using m res bytes_at_split[OF u(2)] assms(2,3) u(1) cstr_append_nul[of s "[]"]
    by (simp add: epi_rd_str_def Let_def of_nat_u32 cstr_id)
  then show ?thesis using rd_at_advance[OF u(2)] by simp
qed

definition enc_block :: "byte list option \<times> nat \<Rightarrow> byte list" where
  "enc_block b = enc_blob (case fst b of None \<Rightarrow> [] | Some p \<Rightarrow> p)"

text \<open>The reader gives NULL and 0 for an empty block, so only these pairs come back.\<close>

definition block_ok :: "byte list option \<times> nat \<Rightarrow> bool" where
  "block_ok b \<longleftrightarrow> (case fst b of None \<Rightarrow> snd b = 0
                    | Some p \<Rightarrow> p \<noteq> [] \<and> snd b = length p \<and> length p < 2 ^ 32)"

lemma rd_blob_at:
  assumes "never_fails a" and "block_ok b" and "rd_at r (enc_block b @ rest)"
  shows "fst (epi_rd_blob a r) = b \<and> rd_at (snd (epi_rd_blob a r)) rest"
proof (cases "fst b")
  case None
  then have at: "rd_at r (le32 0 @ rest)" and b: "b = (None, 0)"
    using assms(2,3) by (auto simp: enc_block_def enc_blob_def block_ok_def prod_eq_iff)
  have "\<not> rd_err r" using assms(3) by (simp add: rd_at_def)
  then show ?thesis using rd_u32_at[OF at] b rd_at_split(2)[OF at] by (simp add: epi_rd_blob_def)
next
  case (Some p)
  let ?r1 = "r\<lparr>rd_pos := rd_pos r + 4\<rparr>"
  have at: "rd_at r (le32 (word_of_nat (length p)) @ p @ rest)"
    and b: "p \<noteq> []" "b = (Some p, length p)" "length p < 2 ^ 32"
    using assms(2,3) Some by (auto simp: enc_block_def enc_blob_def block_ok_def prod_eq_iff)
  note u = rd_u32_at[OF at]
  obtain m where m: "malloc a (length p) = Some m" "length m = length p"
    using malloc_never_fails[OF assms(1)] malloc_length by metis
  have "\<not> rd_err ?r1" using u(2) by (simp add: rd_at_def)
  moreover have "rd_pos ?r1 + length p \<le> rd_len ?r1" using rd_at_split(2)[OF u(2)] by simp
  ultimately have "epi_rd_blob a r = (b, ?r1\<lparr>rd_pos := rd_pos ?r1 + length p\<rparr>)"
    using m bytes_at_split[OF u(2)] b u(1) by (simp add: epi_rd_blob_def Let_def of_nat_u32 blit_all)
  then show ?thesis using rd_at_advance[OF u(2)] by simp
qed

interpretation rd8: codec "\<lambda>_. epi_rd_u8" "\<lambda>v. [v]" "\<lambda>_. True"
  by unfold_locales
    ((auto simp: epi_rd_u8_def rd_ok_def; fail) |
     (simp only: append_Cons append_Nil, frule rd_u8_at(1), drule rd_u8_at(2), simp))+

interpretation rd16: codec "\<lambda>_. epi_rd_u16" le16 "\<lambda>_. True"
  by unfold_locales
    ((auto simp: epi_rd_u16_def rd_ok_def; fail) |
     (frule rd_u16_at(1), drule rd_u16_at(2), simp))+

interpretation rd32: codec "\<lambda>_. epi_rd_u32" le32 "\<lambda>_. True"
  by unfold_locales
    ((auto simp: epi_rd_u32_def rd_ok_def; fail) |
     (frule rd_u32_at(1), drule rd_u32_at(2), simp))+

interpretation rd64: codec "\<lambda>_. epi_rd_u64" le64 "\<lambda>_. True"
  by unfold_locales
    ((auto simp: epi_rd_u64_def epi_rd_u32_def rd_ok_def; fail) |
     (frule rd_u64_at(1), drule rd_u64_at(2), simp))+

lemma rd_u32_fields:
  "rd_data (snd (epi_rd_u32 r)) = rd_data r" "rd_err r \<Longrightarrow> rd_err (snd (epi_rd_u32 r))"
  "rd_ok r \<Longrightarrow> rd_ok (snd (epi_rd_u32 r))" "rd_pos r \<le> rd_pos (snd (epi_rd_u32 r))"
  by (rule rd32.data rd32.sticky rd32.bounded rd32.forward; assumption)+

lemma rd_str_reader: "reader epi_rd_str"
proof
  fix a r
  obtain n r1 where u: "epi_rd_u32 r = (n, r1)" by (cases "epi_rd_u32 r")
  note f = rd_u32_fields[of r, unfolded u snd_conv]
  show "rd_data (snd (epi_rd_str a r)) = rd_data r"
    using u f by (auto simp: epi_rd_str_def Let_def split: option.splits)
  show "rd_err r \<Longrightarrow> rd_err (snd (epi_rd_str a r))"
    using u f by (auto simp: epi_rd_str_def Let_def split: option.splits)
  show "rd_ok r \<Longrightarrow> rd_ok (snd (epi_rd_str a r))"
    using u f by (auto simp: epi_rd_str_def Let_def rd_ok_def split: option.splits)
  show "rd_pos r \<le> rd_pos (snd (epi_rd_str a r))"
    using u f by (auto simp: epi_rd_str_def Let_def split: option.splits)
qed

lemma rd_blob_reader: "reader epi_rd_blob"
proof
  fix a r
  obtain n r1 where u: "epi_rd_u32 r = (n, r1)" by (cases "epi_rd_u32 r")
  note f = rd_u32_fields[of r, unfolded u snd_conv]
  show "rd_data (snd (epi_rd_blob a r)) = rd_data r"
    using u f by (auto simp: epi_rd_blob_def Let_def split: option.splits)
  show "rd_err r \<Longrightarrow> rd_err (snd (epi_rd_blob a r))"
    using u f by (auto simp: epi_rd_blob_def Let_def split: option.splits)
  show "rd_ok r \<Longrightarrow> rd_ok (snd (epi_rd_blob a r))"
    using u f by (auto simp: epi_rd_blob_def Let_def rd_ok_def split: option.splits)
  show "rd_pos r \<le> rd_pos (snd (epi_rd_blob a r))"
    using u f by (auto simp: epi_rd_blob_def Let_def split: option.splits)
qed

interpretation rdstr: codec epi_rd_str enc_str "\<lambda>s. \<exists>t. s = Some t \<and> 0 \<notin> set t \<and> length t < 2 ^ 32"
  by (intro codec.intro rd_str_reader codec_axioms.intro) (auto dest: rd_str_at)

interpretation rdblob: codec epi_rd_blob enc_block block_ok
  by (intro codec.intro rd_blob_reader codec_axioms.intro) (rule rd_blob_at)

end
