(* ===== verification/Group.thy ===== *)
theory Group
  imports Protocol
begin

text \<open>
  Session groups (src/src/daemon/group.c): a group is an id and an opaque blob that the daemon
  stores and returns verbatim. Membership is not kept here; it lives on the sessions.
  A NULL blob is \<open>None\<close>. The list pointer \<open>next\<close> is the position in the server's list.
\<close>

record epi_group =
  g_id :: u64
  g_blob :: "byte list option"
  g_blob_len :: nat
  g_created_at :: int

text \<open>\<open>sizeof (epi_group)\<close> on the LP64 ABI, the size that calloc is asked for.\<close>

definition sizeof_epi_group :: nat where "sizeof_epi_group = 40"

definition blob_dup :: "allocator \<Rightarrow> byte list option \<Rightarrow> nat \<Rightarrow> (byte list option \<times> nat) option" where
  "blob_dup a src len =
     (if len = 0 then Some (None, 0)
      else case malloc a len of
             None \<Rightarrow> None
           | Some p \<Rightarrow> Some (Some (blit p 0 (take len (the src))), len))"

definition epi_group_new :: "allocator \<Rightarrow> int \<Rightarrow> byte list option \<Rightarrow> nat \<Rightarrow> epi_group option" where
  "epi_group_new a now blob blob_len =
     (if a sizeof_epi_group = None then None
      else case blob_dup a blob blob_len of
             None \<Rightarrow> None
           | Some (p, n) \<Rightarrow>
               Some \<lparr>g_id = 0, g_blob = p, g_blob_len = n, g_created_at = now\<rparr>)"

definition epi_group_set_blob :: "allocator \<Rightarrow> epi_group \<Rightarrow> byte list option \<Rightarrow> nat \<Rightarrow> epi_group \<times> int" where
  "epi_group_set_blob a g blob blob_len =
     (case blob_dup a blob blob_len of
        None \<Rightarrow> (g, -1)
      | Some (nb, nl) \<Rightarrow> (g\<lparr>g_blob := nb, g_blob_len := nl\<rparr>, 0))"

section \<open>Laws\<close>

text \<open>A block as the reader hands it over: NULL exactly when it is empty.\<close>

definition blob_wf :: "byte list option \<Rightarrow> nat \<Rightarrow> bool" where
  "blob_wf p n \<longleftrightarrow> (case p of None \<Rightarrow> n = 0 | Some x \<Rightarrow> x \<noteq> [] \<and> n = length x)"

definition group_wf :: "epi_group \<Rightarrow> bool" where
  "group_wf g \<longleftrightarrow> blob_wf (g_blob g) (g_blob_len g) \<and> g_blob_len g \<le> EPI_GROUP_BLOB_MAX"

definition group_bytes :: "epi_group \<Rightarrow> byte list" where
  "group_bytes g = (case g_blob g of None \<Rightarrow> [] | Some x \<Rightarrow> x)"

lemma blob_dup_same: "blob_wf p n \<Longrightarrow> blob_dup a p n = Some (q, m) \<Longrightarrow> q = p \<and> m = n"
  by (auto simp: blob_wf_def blob_dup_def blit_all dest: malloc_length split: option.splits if_splits)

lemma blob_dup_ok: "never_fails a \<Longrightarrow> blob_wf p n \<Longrightarrow> blob_dup a p n = Some (p, n)"
  using blob_dup_same[of p n a] malloc_never_fails[of a n]
  by (fastforce simp: blob_dup_def split: if_splits option.splits)

lemma group_new_wf:
  assumes "epi_group_new a t p n = Some g" and "blob_wf p n"
  shows "g = \<lparr>g_id = 0, g_blob = p, g_blob_len = n, g_created_at = t\<rparr>"
  using assms blob_dup_same[OF assms(2)] by (auto simp: epi_group_new_def split: if_splits option.splits)

lemma group_set_blob_cases:
  assumes "blob_wf p n"
  shows "epi_group_set_blob a g p n = (g, -1) \<or>
         epi_group_set_blob a g p n = (g\<lparr>g_blob := p, g_blob_len := n\<rparr>, 0)"
  using blob_dup_same[OF assms] by (auto simp: epi_group_set_blob_def split: option.splits)

lemma group_set_blob_id [simp]: "g_id (fst (epi_group_set_blob a g p n)) = g_id g"
  by (auto simp: epi_group_set_blob_def split: option.splits)

lemma group_set_blob_wf [wf_intros]:
  "group_wf g \<Longrightarrow> blob_wf p n \<Longrightarrow> n \<le> EPI_GROUP_BLOB_MAX \<Longrightarrow> group_wf (fst (epi_group_set_blob a g p n))"
  using group_set_blob_cases[of p n a g] by (auto simp: group_wf_def)

text \<open>What the reader returns for a blob is well formed.\<close>

lemma rd_blob_wf: "blob_wf (fst (fst (epi_rd_blob a r))) (snd (fst (epi_rd_blob a r)))"
proof -
  obtain n32 r1 where u: "epi_rd_u32 r = (n32, r1)" by (cases "epi_rd_u32 r")
  let ?n = "unat n32"
  show ?thesis
  proof (cases "rd_err r1 \<or> rd_pos r1 + ?n > rd_len r1 \<or> ?n = 0 \<or> malloc a ?n = None")
    case True
    then show ?thesis using u by (auto simp: epi_rd_blob_def Let_def blob_wf_def)
  next
    case False
    then obtain p where p: "malloc a ?n = Some p" by auto
    have len: "length p = ?n" "length (bytes_at (rd_pos r1) ?n (rd_data r1)) = ?n"
      using malloc_length[OF p] bytes_at_length[of "rd_pos r1" ?n "rd_data r1"] False by auto
    then have "blit p 0 (bytes_at (rd_pos r1) ?n (rd_data r1)) = bytes_at (rd_pos r1) ?n (rd_data r1)"
      by (intro blit_all) simp
    moreover have "bytes_at (rd_pos r1) ?n (rd_data r1) \<noteq> []"
    proof
      assume "bytes_at (rd_pos r1) ?n (rd_data r1) = []"
      then have "?n = 0" using len(2) by simp
      then show False using False by simp
    qed
    ultimately show ?thesis using u p len False by (auto simp: epi_rd_blob_def Let_def blob_wf_def)
  qed
qed

end
