(* ===== verification/Session.thy ===== *)
theory Session
  imports Ring Protocol
begin

text \<open>
  Terminal sessions (src/src/daemon/session.c): the record of a session, spawning, keyboard
  input and the operations on the PTY and the child. A session's address is \<open>s_ref\<close>: pointer
  comparison in the code is comparison of addresses here. The list pointers \<open>next\<close> and
  \<open>dead_next\<close> are the positions in the server's lists. What an operation does to the outside
  (signals, ioctls, bytes written) is a list of \<open>sysop\<close>.
\<close>

text \<open>What the forked child does before it executes a program.\<close>

record child_image =
  ch_exec :: "byte list"
  ch_argv :: "byte list list"
  ch_chdir :: "byte list option"
  ch_env :: "byte list \<rightharpoonup> byte list"
  ch_blocked :: "int set"
  ch_handled :: "int set"

datatype sysop =
    Kill int int
  | Shutdown int
  | Close int
  | Winsize int u16 u16
  | Typed int "byte list"
  | Sent int "byte list"
  | Exec int child_image
  | Unlink "byte list"

definition SIGHUP :: int where "SIGHUP = 1"
definition SIGINT :: int where "SIGINT = 2"
definition SIGKILL :: int where "SIGKILL = 9"
definition SIGTERM :: int where "SIGTERM = 15"
definition SIGCHLD :: int where "SIGCHLD = 17"

record epi_session =
  s_ref :: nat
  s_id :: u64
  s_group_id :: u64
  s_pid :: int
  s_pty_master :: int
  s_alive :: bool
  s_killing :: bool
  s_removed :: bool
  s_defunct :: bool
  s_created_at :: int
  s_exit_status :: int
  s_cwd :: "byte list option"
  s_out :: epi_ring
  s_pin :: "byte list"
  s_pin_len :: nat
  s_pin_cap :: nat
  s_client :: "nat option"
  s_kill_deadline :: "int \<times> int"

section \<open>Spawning\<close>

text \<open>
  What the operating system answers while a session is spawned: the environment variables, the
  home directory of the passwd entry, the results of forkpty (the child's pid and the master
  descriptor, or a failure) and of setting the descriptor's flags, and the clock.
\<close>

record spawn_env =
  sp_mem :: allocator
  sp_environ :: "byte list \<rightharpoonup> byte list"
  sp_pw_dir :: "byte list option"
  sp_fork :: "(int \<times> int) option"
  sp_flags_ok :: bool
  sp_now :: int

text \<open>\<open>sizeof (epi_session)\<close> on the LP64 ABI.\<close>

definition sizeof_epi_session :: nat where "sizeof_epi_session = 192"

definition absolute :: "byte list option \<Rightarrow> bool" where
  "absolute p \<longleftrightarrow> (case p of None \<Rightarrow> False | Some s \<Rightarrow> take 1 s = lit ''/'')"

definition default_cwd :: "spawn_env \<Rightarrow> byte list option" where
  "default_cwd e =
     (if absolute (sp_environ e (lit ''HOME'')) then sp_environ e (lit ''HOME'')
      else if absolute (sp_pw_dir e) then sp_pw_dir e
      else None)"

text \<open>putenv of \<open>NAME=VALUE\<close>; without an \<open>=\<close> the variable is removed (glibc).\<close>

definition putenv :: "byte list \<Rightarrow> (byte list \<rightharpoonup> byte list) \<Rightarrow> (byte list \<rightharpoonup> byte list)" where
  "putenv kv env =
     (let k = takeWhile (\<lambda>b. b \<noteq> of_char (CHR ''='')) kv
      in if length k < length kv then env(k \<mapsto> drop (length k + 1) kv) else env(k := None))"

definition ensure_term :: "(byte list \<rightharpoonup> byte list) \<Rightarrow> (byte list \<rightharpoonup> byte list)" where
  "ensure_term env =
     (if env (lit ''TERM'') = None then env(lit ''TERM'' \<mapsto> lit ''xterm-256color'') else env)"

definition spawn_child ::
  "spawn_env \<Rightarrow> byte list option \<Rightarrow> byte list list option \<Rightarrow> byte list list option \<Rightarrow>
   byte list option \<Rightarrow> child_image" where
  "spawn_child e start_cwd argv env exec_path =
     (let shell = (case sp_environ e (lit ''SHELL'') of
                     None \<Rightarrow> lit ''/bin/bash''
                   | Some s \<Rightarrow> if s = [] then lit ''/bin/bash'' else s);
          child_argv = (case argv of None \<Rightarrow> [shell] | Some v \<Rightarrow> v)
      in \<lparr>ch_exec = (case exec_path of
                       None \<Rightarrow> hd child_argv
                     | Some p \<Rightarrow> if p \<noteq> [] then p else hd child_argv),
          ch_argv = child_argv,
          ch_chdir = start_cwd,
          ch_env = ensure_term
            (case env of None \<Rightarrow> sp_environ e | Some kvs \<Rightarrow> fold putenv kvs (sp_environ e)),
          ch_blocked = {}, ch_handled = {}\<rparr>)"

definition strdup :: "allocator \<Rightarrow> byte list \<Rightarrow> byte list option" where
  "strdup a s = (if a (length s + 1) = None then None else Some s)"

definition epi_session_spawn ::
  "spawn_env \<Rightarrow> nat \<Rightarrow> byte list option \<Rightarrow> byte list list option \<Rightarrow> byte list list option \<Rightarrow>
   byte list option \<Rightarrow> epi_session option \<times> sysop list" where
  "epi_session_spawn e ref cwd argv env exec_path =
     (let a = sp_mem e in
      if a sizeof_epi_session = None then (None, [])
      else
        case epi_ring_init a EPI_RING_CAP of (out, rc) \<Rightarrow>
        if rc \<noteq> 0 then (None, [])
        else
          let start_cwd = (case cwd of
                             Some c \<Rightarrow> if c \<noteq> [] then Some c else default_cwd e
                           | None \<Rightarrow> default_cwd e)
          in case sp_fork e of
               None \<Rightarrow> (None, [])
             | Some (pid, master) \<Rightarrow>
                 let image = Exec pid (spawn_child e start_cwd argv env exec_path)
                 in if \<not> sp_flags_ok e then (None, [image, Close master, Kill pid SIGHUP])
                    else (Some \<lparr>s_ref = ref, s_id = 0, s_group_id = 0, s_pid = pid,
                                s_pty_master = master, s_alive = True, s_killing = False,
                                s_removed = False, s_defunct = False,
                                s_created_at = sp_now e, s_exit_status = 0,
                                s_cwd = strdup a (case start_cwd of None \<Rightarrow> [] | Some c \<Rightarrow> c),
                                s_out = out, s_pin = [], s_pin_len = 0, s_pin_cap = 0,
                                s_client = None, s_kill_deadline = (0, 0)\<rparr>, [image]))"

definition epi_session_free :: "epi_session \<Rightarrow> sysop list" where
  "epi_session_free s = (if 0 \<le> s_pty_master s then [Close (s_pty_master s)] else [])"

section \<open>Keyboard input\<close>

text \<open>The results of write(2) on the master descriptor are \<open>ws\<close>.\<close>

definition epi_session_flush_input :: "wres list \<Rightarrow> epi_session \<Rightarrow> epi_session \<times> sysop list \<times> bool" where
  "epi_session_flush_input ws s =
     (if s_pty_master s < 0 then (s\<lparr>s_pin_len := 0\<rparr>, [], False)
      else
        case write_loop ws 0 (s_pin_len s) of (written, ok) \<Rightarrow>
        let off = (if ok then written else s_pin_len s);
            out = (if 0 < written then [Typed (s_pty_master s) (take written (s_pin s))] else []);
            s1 = (if 0 < off
                  then s\<lparr>s_pin := blit (s_pin s) 0 (bytes_at off (s_pin_len s - off) (s_pin s)),
                         s_pin_len := s_pin_len s - off\<rparr>
                  else s)
        in (s1, out, 0 < s_pin_len s1))"

definition epi_session_queue_input ::
  "allocator \<Rightarrow> wres list \<Rightarrow> epi_session \<Rightarrow> byte list \<Rightarrow> epi_session \<times> sysop list \<times> bool" where
  "epi_session_queue_input a ws s data =
     (let len = length data in
      if len = 0 then (s, [], 0 < s_pin_len s)
      else
        case (if s_pin_len s + len > s_pin_cap s
              then let nc = double_until (if s_pin_cap s \<noteq> 0 then s_pin_cap s else 4096)
                              (s_pin_len s + len)
                   in map_option (\<lambda>nd. s\<lparr>s_pin := nd, s_pin_cap := nc\<rparr>) (realloc a (s_pin s) nc)
              else Some s) of
          None \<Rightarrow> (s, [], 0 < s_pin_len s)
        | Some s1 \<Rightarrow>
            epi_session_flush_input ws
              (s1\<lparr>s_pin := blit (s_pin s1) (s_pin_len s1) data, s_pin_len := s_pin_len s1 + len\<rparr>))"

section \<open>The child and the window size\<close>

definition epi_session_resize :: "epi_session \<Rightarrow> u16 \<Rightarrow> u16 \<Rightarrow> sysop list" where
  "epi_session_resize s rows cols =
     (if s_pty_master s < 0 then [] else [Winsize (s_pty_master s) rows cols])"

definition epi_session_hangup :: "epi_session \<Rightarrow> sysop list" where
  "epi_session_hangup s = (if s_alive s \<and> 0 < s_pid s then [Kill (s_pid s) SIGHUP] else [])"

definition epi_session_kill :: "epi_session \<Rightarrow> sysop list" where
  "epi_session_kill s = (if s_alive s \<and> 0 < s_pid s then [Kill (s_pid s) SIGKILL] else [])"

section \<open>Laws\<close>

text \<open>The input queue: a block with its pending bytes at the front.\<close>

definition pin_ok :: "epi_session \<Rightarrow> bool" where
  "pin_ok s \<longleftrightarrow> length (s_pin s) = s_pin_cap s \<and> s_pin_len s \<le> s_pin_cap s"

definition pin_bytes :: "epi_session \<Rightarrow> byte list" where
  "pin_bytes s = take (s_pin_len s) (s_pin s)"

text \<open>The bytes that a list of effects writes to a descriptor.\<close>

fun typed_on :: "int \<Rightarrow> sysop list \<Rightarrow> byte list" where
  "typed_on fd [] = []"
| "typed_on fd (Typed f bs # es) = (if f = fd then bs else []) @ typed_on fd es"
| "typed_on fd (_ # es) = typed_on fd es"

text \<open>Input handling touches nothing but the queue.\<close>

definition same_but_pin :: "epi_session \<Rightarrow> epi_session \<Rightarrow> bool" where
  "same_but_pin s s' \<longleftrightarrow> (\<exists>p n c. s' = s\<lparr>s_pin := p, s_pin_len := n, s_pin_cap := c\<rparr>)"

lemma same_but_pin_fields:
  assumes "same_but_pin s s'"
  shows "s_ref s' = s_ref s" "s_id s' = s_id s" "s_group_id s' = s_group_id s" "s_pid s' = s_pid s"
    "s_pty_master s' = s_pty_master s" "s_alive s' = s_alive s" "s_killing s' = s_killing s"
    "s_removed s' = s_removed s" "s_defunct s' = s_defunct s" "s_created_at s' = s_created_at s"
    "s_out s' = s_out s" "s_client s' = s_client s" "s_cwd s' = s_cwd s"
    "s_kill_deadline s' = s_kill_deadline s" "s_exit_status s' = s_exit_status s"
  using assms by (auto simp: same_but_pin_def)

lemma same_but_pin_refl [simp]: "same_but_pin s s"
  unfolding same_but_pin_def
  by (intro exI[of _ "s_pin s"] exI[of _ "s_pin_len s"] exI[of _ "s_pin_cap s"]) simp

lemma same_but_pin_trans:
  assumes "same_but_pin s t" and "same_but_pin t u"
  shows "same_but_pin s u"
proof -
  obtain p n c p' n' c' where "t = s\<lparr>s_pin := p, s_pin_len := n, s_pin_cap := c\<rparr>"
    "u = t\<lparr>s_pin := p', s_pin_len := n', s_pin_cap := c'\<rparr>"
    using assms unfolding same_but_pin_def by blast
  then have "u = s\<lparr>s_pin := p', s_pin_len := n', s_pin_cap := c'\<rparr>" by (cases s) simp
  then show ?thesis unfolding same_but_pin_def by blast
qed

lemma same_but_pin_updates [simp]:
  "same_but_pin s (s\<lparr>s_pin := p\<rparr>)" "same_but_pin s (s\<lparr>s_pin_len := n\<rparr>)"
  "same_but_pin s (s\<lparr>s_pin := p, s_pin_len := n\<rparr>)" "same_but_pin s (s\<lparr>s_pin := p, s_pin_cap := c\<rparr>)"
  unfolding same_but_pin_def
  subgoal by (rule exI[of _ p], rule exI[of _ "s_pin_len s"], rule exI[of _ "s_pin_cap s"], cases s, simp)
  subgoal by (rule exI[of _ "s_pin s"], rule exI[of _ n], rule exI[of _ "s_pin_cap s"], cases s, simp)
  subgoal by (rule exI[of _ p], rule exI[of _ n], rule exI[of _ "s_pin_cap s"], cases s, simp)
  subgoal by (rule exI[of _ p], rule exI[of _ "s_pin_len s"], rule exI[of _ c], cases s, simp)
  done

lemma flush_input_frame: "same_but_pin s (fst (epi_session_flush_input ws s))"
  by (simp add: epi_session_flush_input_def Let_def split: prod.split)

text \<open>Making room and storing, or dropping the input when memory fails.\<close>

lemma queue_input_cases:
  assumes "pin_ok s" and "data \<noteq> []"
  shows "epi_session_queue_input a ws s data = (s, [], 0 < s_pin_len s) \<and> \<not> never_fails a \<or>
    (\<exists>s1. epi_session_queue_input a ws s data = epi_session_flush_input ws s1 \<and> pin_ok s1 \<and>
          same_but_pin s s1 \<and> pin_bytes s1 = pin_bytes s @ data)"
proof -
  let ?need = "s_pin_len s + length data"
  let ?nc = "double_until (if s_pin_cap s \<noteq> 0 then s_pin_cap s else 4096) ?need"
  define r where "r = (if ?need > s_pin_cap s
     then map_option (\<lambda>nd. s\<lparr>s_pin := nd, s_pin_cap := ?nc\<rparr>) (realloc a (s_pin s) ?nc) else Some s)"
  have q: "epi_session_queue_input a ws s data =
     (case r of None \<Rightarrow> (s, [], 0 < s_pin_len s)
      | Some s1 \<Rightarrow> epi_session_flush_input ws
          (s1\<lparr>s_pin := blit (s_pin s1) (s_pin_len s1) data, s_pin_len := s_pin_len s1 + length data\<rparr>))"
    using assms(2) by (simp add: epi_session_queue_input_def r_def Let_def)
  have len: "length (s_pin s) = s_pin_cap s" "s_pin_len s \<le> s_pin_cap s"
    using assms(1) by (auto simp: pin_ok_def)
  have nc: "?need \<le> ?nc" "s_pin_cap s \<le> ?nc"
    using double_until_enough double_until_ge[of "s_pin_cap s" ?need] by auto
  have room: "same_but_pin s s1 \<and> pin_ok s1 \<and> s_pin_len s1 = s_pin_len s \<and> pin_bytes s1 = pin_bytes s \<and>
      ?need \<le> s_pin_cap s1" if "r = Some s1" for s1
  proof (cases "?need > s_pin_cap s")
    case True
    then have "map_option (\<lambda>nd. s\<lparr>s_pin := nd, s_pin_cap := ?nc\<rparr>) (realloc a (s_pin s) ?nc) = Some s1"
      using that by (simp only: r_def if_True)
    then obtain nd where nd: "realloc a (s_pin s) ?nc = Some nd" "s1 = s\<lparr>s_pin := nd, s_pin_cap := ?nc\<rparr>"
      unfolding map_option_eq_Some by metis
    have "length nd = ?nc" "take (s_pin_len s) nd = take (s_pin_len s) (s_pin s)"
      using realloc_length[OF nd(1)] realloc_prefix[OF nd(1), of "s_pin_len s"] nc len by auto
    then show ?thesis using nd(2) nc len by (simp add: pin_ok_def pin_bytes_def)
  next
    case False
    then show ?thesis using that assms(1) by (simp add: r_def)
  qed
  show ?thesis
  proof (cases r)
    case None
    then have "\<not> never_fails a" by (auto simp: r_def split: if_splits)
    then show ?thesis using q None by simp
  next
    case (Some s1)
    let ?s2 = "s1\<lparr>s_pin := blit (s_pin s1) (s_pin_len s1) data, s_pin_len := s_pin_len s1 + length data\<rparr>"
    note rm = room[OF Some]
    have l: "s_pin_len s1 + length data \<le> length (s_pin s1)" using rm by (simp add: pin_ok_def)
    have "pin_ok ?s2" using rm l by (simp add: pin_ok_def blit_length)
    moreover have "pin_bytes ?s2 = pin_bytes s @ data"
      using rm l blit_take_all[of "s_pin_len s1" "s_pin s1" data]
      by (elim conjE) (simp add: pin_bytes_def)
    moreover have "same_but_pin s ?s2" using rm by (auto intro: same_but_pin_trans)
    ultimately show ?thesis using q Some by auto
  qed
qed

text \<open>
  One flush: the queue stays well formed; the bytes written are a prefix of what was pending,
  and what stays pending is the rest, unless the write failed, and then nothing is.
\<close>

lemma flush_input_spec:
  assumes "pin_ok s" and "epi_session_flush_input ws s = (s', es, mr)"
  shows "pin_ok s'" and "mr = (0 < s_pin_len s')"
    and "\<exists>rest. pin_bytes s = typed_on (s_pty_master s) es @ rest \<and> (pin_bytes s' = rest \<or> pin_bytes s' = [])"
proof -
  obtain w ok where w: "write_loop ws 0 (s_pin_len s) = (w, ok)" by force
  have wl: "w \<le> s_pin_len s" using write_loop_bounds[of 0 "s_pin_len s" ws] w by simp
  have len: "length (s_pin s) = s_pin_cap s" "s_pin_len s \<le> s_pin_cap s"
    using assms(1) by (auto simp: pin_ok_def)
  define off where "off = (if ok then w else s_pin_len s)"
  have off: "off \<le> s_pin_len s" using wl by (simp add: off_def)
  have bl: "length (bytes_at off (s_pin_len s - off) (s_pin s)) = s_pin_len s - off"
    using off len by (intro bytes_at_length) simp
  have cut: "take (s_pin_len s - off) (blit (s_pin s) 0 (bytes_at off (s_pin_len s - off) (s_pin s)))
             = drop off (pin_bytes s)"
    using bl by (simp add: blit_def bytes_at_def pin_bytes_def drop_take)
  show "pin_ok s'" "mr = (0 < s_pin_len s')"
    using assms(2) w len off bl
    by (auto simp: epi_session_flush_input_def Let_def pin_ok_def blit_length off_def[symmetric] split: if_splits)
  have typed: "pin_bytes s = take w (s_pin s) @ drop w (pin_bytes s)"
    using wl by (metis append_take_drop_id min.absorb1 pin_bytes_def take_take)
  show "\<exists>rest. pin_bytes s = typed_on (s_pty_master s) es @ rest \<and> (pin_bytes s' = rest \<or> pin_bytes s' = [])"
  proof (cases "s_pty_master s < 0")
    case True
    then show ?thesis using assms(2) by (auto simp: epi_session_flush_input_def pin_bytes_def)
  next
    case False
    have es: "typed_on (s_pty_master s) es = take w (s_pin s)"
      using assms(2) w False by (auto simp: epi_session_flush_input_def Let_def split: if_splits)
    have s': "pin_bytes s' = (if 0 < off then drop off (pin_bytes s) else pin_bytes s)"
      using assms(2) w False cut
      by (cases "0 < off") (auto simp: epi_session_flush_input_def Let_def off_def[symmetric] pin_bytes_def)
    show ?thesis
    proof (cases ok)
      case True
      then show ?thesis using s' es typed by (intro exI[of _ "drop w (pin_bytes s)"]) (auto simp: off_def)
    next
      case False
      then have "pin_bytes s' = []" using s' len by (auto simp: off_def pin_bytes_def)
      then show ?thesis using es typed by metis
    qed
  qed
qed

lemma queue_input_frame: "same_but_pin s (fst (epi_session_queue_input a ws s data))"
proof -
  let ?nc = "double_until (if s_pin_cap s \<noteq> 0 then s_pin_cap s else 4096) (s_pin_len s + length data)"
  define r where "r = (if s_pin_len s + length data > s_pin_cap s
     then map_option (\<lambda>nd. s\<lparr>s_pin := nd, s_pin_cap := ?nc\<rparr>) (realloc a (s_pin s) ?nc) else Some s)"
  have r: "same_but_pin s s1" if "r = Some s1" for s1
  proof (cases "s_pin_len s + length data > s_pin_cap s")
    case True
    then have "map_option (\<lambda>nd. s\<lparr>s_pin := nd, s_pin_cap := ?nc\<rparr>) (realloc a (s_pin s) ?nc) = Some s1"
      using that unfolding r_def by (simp only: if_True)
    then show ?thesis by (auto simp: map_option_eq_Some)
  next
    case False
    then show ?thesis using that by (simp add: r_def)
  qed
  have q: "epi_session_queue_input a ws s data =
     (if length data = 0 then (s, [], 0 < s_pin_len s)
      else case r of None \<Rightarrow> (s, [], 0 < s_pin_len s)
      | Some s1 \<Rightarrow> epi_session_flush_input ws
          (s1\<lparr>s_pin := blit (s_pin s1) (s_pin_len s1) data, s_pin_len := s_pin_len s1 + length data\<rparr>))"
    by (simp add: epi_session_queue_input_def r_def Let_def)
  show ?thesis
  proof (cases r)
    case None
    then show ?thesis by (simp add: q)
  next
    case (Some s1)
    then show ?thesis using same_but_pin_trans[OF same_but_pin_trans[OF r same_but_pin_updates(3)] flush_input_frame]
      by (simp add: q)
  qed
qed

lemma queue_input_spec:
  assumes "pin_ok s" and "never_fails a" and "epi_session_queue_input a ws s data = (s', es, mr)"
  shows "pin_ok s' \<and> mr = (0 < s_pin_len s') \<and>
    (\<exists>rest. pin_bytes s @ data = typed_on (s_pty_master s) es @ rest \<and> (pin_bytes s' = rest \<or> pin_bytes s' = []))"
proof (cases "data = []")
  case True
  then show ?thesis using assms by (auto simp: epi_session_queue_input_def)
next
  case False
  from queue_input_cases[OF assms(1) this, of a ws] assms(2) obtain s1 where
    s1: "epi_session_queue_input a ws s data = epi_session_flush_input ws s1" "pin_ok s1"
      "same_but_pin s s1" "pin_bytes s1 = pin_bytes s @ data" by blast
  have "epi_session_flush_input ws s1 = (s', es, mr)" using s1(1) assms(3) by simp
  note f = flush_input_spec[OF s1(2) this]
  show ?thesis using f s1(4) same_but_pin_fields(5)[OF s1(3)] by simp
qed

lemma queue_input_ok [wf_intros]: "pin_ok s \<Longrightarrow> pin_ok (fst (epi_session_queue_input a ws s data))"
proof (cases "data = []")
  case False
  assume "pin_ok s"
  from queue_input_cases[OF this False, of a ws] this show ?thesis
    using flush_input_spec(1) by (metis fst_conv prod_cases3)
qed (simp add: epi_session_queue_input_def)

lemma flush_input_ok [wf_intros]: "pin_ok s \<Longrightarrow> pin_ok (fst (epi_session_flush_input ws s))"
  using flush_input_spec(1) by (metis fst_conv prod_cases3)

text \<open>What a spawned session starts as.\<close>

lemma spawn_session:
  assumes "epi_session_spawn e ref cwd argv env exec_path = (Some s, es)"
  shows "s_ref s = ref \<and> s_group_id s = 0 \<and> s_alive s \<and> \<not> s_killing s \<and> \<not> s_removed s \<and> \<not> s_defunct s
    \<and> s_client s = None \<and> pin_ok s \<and> pin_bytes s = [] \<and> ring_inv (s_out s) \<and> ring_contents (s_out s) = []
    \<and> r_max_cap (s_out s) = EPI_RING_CAP \<and> sp_fork e = Some (s_pid s, s_pty_master s)"
  using assms epi_ring_init_inv[of "sp_mem e" EPI_RING_CAP] epi_ring_init_ok[of "sp_mem e" EPI_RING_CAP]
    epi_ring_init_empty[of "sp_mem e" EPI_RING_CAP]
  by (auto simp: epi_session_spawn_def Let_def pin_ok_def pin_bytes_def simp del: epi_ring_init_empty
      split: if_splits prod.splits option.splits)

end
