(* ===== verification/Server_State.thy ===== *)
theory Server_State
  imports Group Session
begin

text \<open>
  The daemon's state (src/src/daemon/server.h) and the helpers of server.c that handlers are
  made of: epoll interest, connection buffers, lookups, session and group bookkeeping.

  Objects are found by address: \<open>s_ref\<close> and \<open>c_ref\<close>, taken from one counter and never reused,
  stand for pointers, and the lists of the record for the linked lists. Three fields record
  what the code leaves in the kernel: \<open>interest\<close> maps a registered descriptor to whether it
  waits for EPOLLOUT, \<open>sys\<close> is the log of effects, and \<open>ids_issued\<close> and \<open>gids_issued\<close> count
  how often the two 64-bit id counters were incremented, so that a wrap can be told.
\<close>

record connection =
  c_ref :: nat
  c_fd :: int
  c_is_data :: bool
  c_session :: "nat option"
  c_rbuf :: "byte list"
  c_rlen :: nat
  c_rcap :: nat
  c_wbuf :: "byte list"
  c_wpos :: nat
  c_wlen :: nat
  c_wcap :: nat
  c_want_close :: bool

record epi_server =
  epfd :: int
  listen_fd :: int
  sig_fd :: int
  next_id :: u64
  next_group_id :: u64
  running :: bool
  instance_id :: u64
  sessions :: "epi_session list"
  dead :: "epi_session list"
  groups :: "epi_group list"
  conns :: "connection list"
  sockpath :: "byte list"
  interest :: "int \<rightharpoonup> bool"
  sys :: "sysop list"
  next_ref :: nat
  ids_issued :: nat
  gids_issued :: nat

definition KILL_GRACE_MS :: int where "KILL_GRACE_MS = 2000"
definition MAX_WBUF :: nat where "MAX_WBUF = 8 * 1024 * 1024"
definition PTY_READ_CHUNK :: nat where "PTY_READ_CHUNK = 65536"
definition MAX_FRAME :: u32 where "MAX_FRAME = 8 * 1024 * 1024"

section \<open>Access by address\<close>

definition emit :: "sysop list \<Rightarrow> epi_server \<Rightarrow> epi_server" where
  "emit es srv = srv\<lparr>sys := sys srv @ es\<rparr>"

definition conn_at :: "epi_server \<Rightarrow> nat \<Rightarrow> connection option" where
  "conn_at srv cr = find (\<lambda>c. c_ref c = cr) (conns srv)"

definition sess_at :: "epi_server \<Rightarrow> nat \<Rightarrow> epi_session option" where
  "sess_at srv sr = find (\<lambda>s. s_ref s = sr) (sessions srv @ dead srv)"

text \<open>Run an operation on the object at an address; an address of nothing is left alone.\<close>

definition on_conn :: "nat \<Rightarrow> (connection \<Rightarrow> connection \<times> sysop list) \<Rightarrow> epi_server \<Rightarrow> epi_server" where
  "on_conn cr f srv =
     (case conn_at srv cr of
        None \<Rightarrow> srv
      | Some c \<Rightarrow> emit (snd (f c))
          (srv\<lparr>conns := map (\<lambda>d. if c_ref d = cr then fst (f d) else d) (conns srv)\<rparr>))"

definition on_sess :: "nat \<Rightarrow> (epi_session \<Rightarrow> epi_session \<times> sysop list) \<Rightarrow> epi_server \<Rightarrow> epi_server" where
  "on_sess sr f srv =
     (case sess_at srv sr of
        None \<Rightarrow> srv
      | Some s \<Rightarrow> emit (snd (f s))
          (srv\<lparr>sessions := map (\<lambda>t. if s_ref t = sr then fst (f t) else t) (sessions srv),
               dead := map (\<lambda>t. if s_ref t = sr then fst (f t) else t) (dead srv)\<rparr>))"

definition quiet :: "('x \<Rightarrow> 'x) \<Rightarrow> 'x \<Rightarrow> 'x \<times> sysop list" where
  "quiet f x = (f x, [])"

section \<open>epoll helpers\<close>

text \<open>The flag is whether the kernel accepts the registration; the result is that of epoll_ctl.\<close>

definition ep_add :: "bool \<Rightarrow> int \<Rightarrow> epi_server \<Rightarrow> epi_server \<times> int" where
  "ep_add ok fd srv =
     (if ok then (srv\<lparr>interest := (interest srv)(fd \<mapsto> False)\<rparr>, 0) else (srv, -1))"

definition ep_mod :: "int \<Rightarrow> bool \<Rightarrow> epi_server \<Rightarrow> epi_server" where
  "ep_mod fd out srv =
     (if interest srv fd = None then srv else srv\<lparr>interest := (interest srv)(fd \<mapsto> out)\<rparr>)"

definition ep_del :: "int \<Rightarrow> epi_server \<Rightarrow> epi_server" where
  "ep_del fd srv = srv\<lparr>interest := (interest srv)(fd := None)\<rparr>"

section \<open>Connection buffers\<close>

definition conn_compact :: "connection \<Rightarrow> connection" where
  "conn_compact c =
     (if 0 < c_wpos c
      then c\<lparr>c_wbuf := blit (c_wbuf c) 0 (bytes_at (c_wpos c) (c_wlen c - c_wpos c) (c_wbuf c)),
             c_wlen := c_wlen c - c_wpos c, c_wpos := 0\<rparr>
      else c)"

definition conn_room :: "allocator \<Rightarrow> connection \<Rightarrow> nat \<Rightarrow> connection option" where
  "conn_room a c len =
     (if c_wlen c + len > c_wcap c
      then let nc = double_until (if c_wcap c \<noteq> 0 then c_wcap c else 4096) (c_wlen c + len)
           in map_option (\<lambda>nd. c\<lparr>c_wbuf := nd, c_wcap := nc\<rparr>) (realloc a (c_wbuf c) nc)
      else Some c)"

definition conn_queue :: "allocator \<Rightarrow> byte list \<Rightarrow> connection \<Rightarrow> connection" where
  "conn_queue a data c =
     (let len = length data in
      if len = 0 then c
      else
        let c1 = conn_compact c in
        case conn_room a c1 len of
          None \<Rightarrow> c1\<lparr>c_want_close := True\<rparr>
        | Some c2 \<Rightarrow>
            let c3 = c2\<lparr>c_wbuf := blit (c_wbuf c2) (c_wlen c2) data, c_wlen := c_wlen c2 + len\<rparr>
            in if c_wlen c3 - c_wpos c3 > MAX_WBUF then c3\<lparr>c_want_close := True\<rparr> else c3)"

definition conn_queue_frame :: "allocator \<Rightarrow> epi_buf \<Rightarrow> connection \<Rightarrow> connection" where
  "conn_queue_frame a b c =
     (if \<not> b_oom b then conn_queue a (take (b_len b) (b_data b)) c else c)"

definition send_error :: "allocator \<Rightarrow> u32 \<Rightarrow> string \<Rightarrow> connection \<Rightarrow> connection" where
  "send_error a code msg c =
     (let b = epi_msg_start a EPI_MSG_ERROR;
          b = epi_buf_put_u32 a b code;
          b = epi_buf_put_str a b (Some (lit msg));
          b = epi_msg_end b
      in conn_queue_frame a b c)"

definition send_ok :: "allocator \<Rightarrow> connection \<Rightarrow> connection" where
  "send_ok a c = conn_queue_frame a (epi_msg_end (epi_msg_start a EPI_MSG_OK)) c"

definition put_session_info :: "allocator \<Rightarrow> epi_session \<Rightarrow> epi_buf \<Rightarrow> epi_buf" where
  "put_session_info a s b =
     (let b = epi_buf_put_u64 a b (s_id s);
          b = epi_buf_put_u32 a b (word_of_int (s_pid s));
          b = epi_buf_put_u8 a b (if s_alive s then 1 else 0);
          b = epi_buf_put_u8 a b (if s_client s \<noteq> None then 1 else 0);
          b = epi_buf_put_u64 a b (word_of_int (s_created_at s))
      in epi_buf_put_str a b (Some (case s_cwd s of None \<Rightarrow> [] | Some w \<Rightarrow> w)))"

definition conn_update :: "nat \<Rightarrow> epi_server \<Rightarrow> epi_server" where
  "conn_update cr srv =
     (case conn_at srv cr of
        None \<Rightarrow> srv
      | Some c \<Rightarrow> ep_mod (c_fd c) (c_wlen c > c_wpos c) srv)"

definition pty_update :: "nat \<Rightarrow> epi_server \<Rightarrow> epi_server" where
  "pty_update sr srv =
     (case sess_at srv sr of
        None \<Rightarrow> srv
      | Some s \<Rightarrow> if s_pty_master s < 0 then srv else ep_mod (s_pty_master s) (s_pin_len s > 0) srv)"

section \<open>Sessions and groups\<close>

definition find_session :: "epi_server \<Rightarrow> u64 \<Rightarrow> bool \<Rightarrow> epi_session option" where
  "find_session srv i allow_removed =
     find (\<lambda>s. s_id s = i \<and> (allow_removed \<or> \<not> s_removed s)) (sessions srv)"

definition find_group :: "epi_server \<Rightarrow> u64 \<Rightarrow> epi_group option" where
  "find_group srv i = find (\<lambda>g. g_id g = i) (groups srv)"

definition count_groups :: "epi_server \<Rightarrow> u32" where
  "count_groups srv = word_of_nat (length (groups srv))"

definition session_in_group :: "epi_session \<Rightarrow> u64 \<Rightarrow> bool" where
  "session_in_group s gid \<longleftrightarrow> \<not> s_removed s \<and> s_group_id s = gid"

definition count_group_members :: "epi_server \<Rightarrow> u64 \<Rightarrow> u32" where
  "count_group_members srv gid =
     word_of_nat (length (filter (\<lambda>s. session_in_group s gid) (sessions srv)))"

text \<open>The group unlinked is the one \<open>find_group\<close> returned: the first of its id.\<close>

fun remove_first :: "('x \<Rightarrow> bool) \<Rightarrow> 'x list \<Rightarrow> 'x list" where
  "remove_first P [] = []"
| "remove_first P (x # xs) = (if P x then xs else x # remove_first P xs)"

definition unlink_group :: "u64 \<Rightarrow> epi_server \<Rightarrow> epi_server" where
  "unlink_group gid srv = srv\<lparr>groups := remove_first (\<lambda>g. g_id g = gid) (groups srv)\<rparr>"

definition gc_group_if_empty :: "u64 \<Rightarrow> epi_server \<Rightarrow> epi_server" where
  "gc_group_if_empty gid srv =
     (if gid = 0 then srv
      else case find_group srv gid of
             None \<Rightarrow> srv
           | Some g \<Rightarrow> if count_group_members srv gid > 0 then srv else unlink_group gid srv)"

text \<open>Drop a connection's session, ask for its end, and wake it: part of two operations below.\<close>

definition conn_drop :: "connection \<Rightarrow> connection \<times> sysop list" where
  "conn_drop c = (c\<lparr>c_session := None, c_want_close := True\<rparr>, [Shutdown (c_fd c)])"

definition remove_session :: "nat \<Rightarrow> epi_server \<Rightarrow> epi_server" where
  "remove_session sr srv =
     (case sess_at srv sr of
        None \<Rightarrow> srv
      | Some s \<Rightarrow>
          if s_defunct s then srv
          else
            let srv1 = (case s_client s of
                          None \<Rightarrow> srv
                        | Some cr \<Rightarrow> on_sess sr (quiet (\<lambda>s. s\<lparr>s_client := None\<rparr>)) (on_conn cr conn_drop srv));
                srv2 = (if 0 \<le> s_pty_master s
                        then on_sess sr (\<lambda>s. (s\<lparr>s_pty_master := -1\<rparr>, [Close (s_pty_master s)]))
                               (ep_del (s_pty_master s) srv1)
                        else srv1);
                s2 = the (sess_at srv2 sr);
                srv3 = srv2\<lparr>sessions := filter (\<lambda>t. s_ref t \<noteq> sr) (sessions srv2),
                            dead := s2\<lparr>s_defunct := True\<rparr> # dead srv2\<rparr>
            in gc_group_if_empty (s_group_id s) srv3)"

definition reap_dead_sessions :: "epi_server \<Rightarrow> epi_server" where
  "reap_dead_sessions srv = emit (concat (map epi_session_free (dead srv))) (srv\<lparr>dead := []\<rparr>)"

definition detach_client :: "nat \<Rightarrow> epi_server \<Rightarrow> epi_server" where
  "detach_client sr srv =
     (case sess_at srv sr of
        None \<Rightarrow> srv
      | Some s \<Rightarrow>
          (case s_client s of
             None \<Rightarrow> srv
           | Some cr \<Rightarrow>
               conn_update cr (on_conn cr conn_drop
                 (on_sess sr (quiet (\<lambda>s. s\<lparr>s_client := None\<rparr>)) srv))))"

end
