(* ===== verification/Server.thy ===== *)
theory Server
  imports Server_State "HOL-Library.Signed_Division"
begin

text \<open>
  The daemon's request handlers, connection and PTY input and output, signals, kill deadlines
  and the event loop (src/src/daemon/server.c). A handler takes what its environment answers
  (\<open>env\<close>), the address of the connection and the server. Results of system calls arrive as
  lists; the end of a list stands for EAGAIN.
\<close>

record env =
  e_mem :: allocator
  e_spawn :: spawn_env
  e_ep_ok :: bool
  e_time :: int
  e_mono :: "int \<times> int"

abbreviation reply :: "nat \<Rightarrow> (connection \<Rightarrow> connection) \<Rightarrow> epi_server \<Rightarrow> epi_server" where
  "reply cr f \<equiv> on_conn cr (quiet f)"

section \<open>Request handlers\<close>

fun read_strs :: "allocator \<Rightarrow> nat \<Rightarrow> epi_rd \<Rightarrow> byte list list option \<times> epi_rd" where
  "read_strs a 0 r = (Some [], r)"
| "read_strs a (Suc n) r =
     (case epi_rd_str a r of
        (None, r1) \<Rightarrow> (None, r1\<lparr>rd_err := True\<rparr>)
      | (Some s, r1) \<Rightarrow>
          (case read_strs a n r1 of
             (None, r2) \<Rightarrow> (None, r2)
           | (Some ss, r2) \<Rightarrow> (Some (s # ss), r2)))"

text \<open>The array is \<open>None\<close> for NULL; \<open>out_count\<close> is its length.\<close>

definition read_str_array :: "allocator \<Rightarrow> epi_rd \<Rightarrow> byte list list option \<times> epi_rd" where
  "read_str_array a r =
     (case epi_rd_u32 r of (count, r1) \<Rightarrow>
        if rd_err r1 then (None, r1)
        else if count = 0 then (None, r1)
        else if count > 4096 then (None, r1\<lparr>rd_err := True\<rparr>)
        else if a ((unat count + 1) * 8) = None then (None, r1\<lparr>rd_err := True\<rparr>)
        else read_strs a (unat count) r1)"

definition handle_create :: "env \<Rightarrow> nat \<Rightarrow> epi_rd \<Rightarrow> epi_server \<Rightarrow> epi_server" where
  "handle_create e cr r srv =
     (let a = e_mem e in
      case epi_rd_str a r of (cwd, r1) \<Rightarrow>
      case read_str_array a r1 of (argv, r2) \<Rightarrow>
      case read_str_array a r2 of (envp, r3) \<Rightarrow>
      case (if \<not> rd_err r3 \<and> rd_pos r3 < rd_len r3 then epi_rd_str a r3 else (None, r3)) of
        (exec_path, r4) \<Rightarrow>
      if rd_err r4 then reply cr (send_error a EPI_ERR_PROTOCOL ''malformed CREATE'') srv
      else
        case epi_session_spawn (e_spawn e) (next_ref srv)
               (case cwd of Some w \<Rightarrow> if w \<noteq> [] then Some w else None | None \<Rightarrow> None)
               argv envp exec_path of
          (None, es) \<Rightarrow>
            reply cr (send_error a EPI_ERR_SPAWN ''failed to spawn session'') (emit es srv)
        | (Some s0, es) \<Rightarrow>
            let i = next_id srv + 1;
                s = s0\<lparr>s_id := i\<rparr>;
                srv1 = (emit es srv)\<lparr>next_id := i, ids_issued := ids_issued srv + 1,
                          next_ref := next_ref srv + 1, sessions := s # sessions srv\<rparr>
            in (case ep_add (e_ep_ok e) (s_pty_master s) srv1 of (srv2, rc) \<Rightarrow>
                  if rc \<noteq> 0 then
                    reply cr (send_error a EPI_ERR_INTERNAL ''epoll registration failed'')
                      (remove_session (s_ref s) srv2)
                  else
                    reply cr (conn_queue_frame a
                      (epi_msg_end (epi_buf_put_u64 a (epi_msg_start a EPI_MSG_ID) i))) srv2))"

definition list_reply :: "allocator \<Rightarrow> epi_server \<Rightarrow> epi_buf" where
  "list_reply a srv =
     (let shown = filter (\<lambda>s. \<not> s_removed s) (sessions srv);
          b = epi_msg_start a EPI_MSG_LIST_REPLY;
          b = epi_buf_put_u32 a b (word_of_nat (length shown));
          b = fold (put_session_info a) shown b;
          b = epi_buf_put_u64 a b (instance_id srv)
      in epi_msg_end b)"

definition handle_list :: "env \<Rightarrow> nat \<Rightarrow> epi_server \<Rightarrow> epi_server" where
  "handle_list e cr srv = reply cr (conn_queue_frame (e_mem e) (list_reply (e_mem e) srv)) srv"

definition handle_attach :: "env \<Rightarrow> nat \<Rightarrow> epi_rd \<Rightarrow> epi_server \<Rightarrow> epi_server" where
  "handle_attach e cr r srv =
     (let a = e_mem e in
      case epi_rd_u64 r of (i, r1) \<Rightarrow>
      if rd_err r1 then reply cr (send_error a EPI_ERR_PROTOCOL ''malformed ATTACH'') srv
      else
        case find_session srv i False of
          None \<Rightarrow> reply cr (send_error a EPI_ERR_NOT_FOUND ''no such session'') srv
        | Some s \<Rightarrow>
            let srv1 = (if s_client s \<noteq> None \<and> s_client s \<noteq> Some cr
                        then detach_client (s_ref s) srv else srv);
                srv2 = reply cr (\<lambda>c. c\<lparr>c_is_data := True, c_session := Some (s_ref s)\<rparr>) srv1;
                srv3 = on_sess (s_ref s) (quiet (\<lambda>s. s\<lparr>s_client := Some cr\<rparr>)) srv2;
                s3 = the (sess_at srv3 (s_ref s));
                b = epi_msg_end (put_session_info a s3 (epi_msg_start a EPI_MSG_ATTACHED));
                srv4 = reply cr (conn_queue_frame a b) srv3
            in (case epi_ring_snapshot a (s_out s3) of
                  (None, _) \<Rightarrow> srv4
                | (Some snap, n) \<Rightarrow> reply cr (conn_queue a (take n snap)) srv4))"

definition handle_kill :: "env \<Rightarrow> nat \<Rightarrow> epi_rd \<Rightarrow> epi_server \<Rightarrow> epi_server" where
  "handle_kill e cr r srv =
     (let a = e_mem e in
      case epi_rd_u64 r of (i, r1) \<Rightarrow>
      if rd_err r1 then reply cr (send_error a EPI_ERR_PROTOCOL ''malformed KILL'') srv
      else
        case find_session srv i False of
          None \<Rightarrow> reply cr (send_error a EPI_ERR_NOT_FOUND ''no such session'') srv
        | Some s \<Rightarrow>
            let srv1 = detach_client (s_ref s) srv in
            if \<not> s_alive s then reply cr (send_ok a) (remove_session (s_ref s) srv1)
            else
              let srv2 = on_sess (s_ref s)
                    (\<lambda>s. (s\<lparr>s_killing := True, s_removed := True,
                            s_kill_deadline := (fst (e_mono e) + KILL_GRACE_MS div 1000, snd (e_mono e))\<rparr>,
                          epi_session_hangup s)) srv1
              in reply cr (send_ok a) (gc_group_if_empty (s_group_id s) srv2))"

definition handle_resize :: "env \<Rightarrow> nat \<Rightarrow> epi_rd \<Rightarrow> epi_server \<Rightarrow> epi_server" where
  "handle_resize e cr r srv =
     (let a = e_mem e in
      case epi_rd_u64 r of (i, r1) \<Rightarrow>
      case epi_rd_u16 r1 of (rows, r2) \<Rightarrow>
      case epi_rd_u16 r2 of (cols, r3) \<Rightarrow>
      if rd_err r3 then reply cr (send_error a EPI_ERR_PROTOCOL ''malformed RESIZE'') srv
      else
        case find_session srv i False of
          None \<Rightarrow> reply cr (send_error a EPI_ERR_NOT_FOUND ''no such session'') srv
        | Some s \<Rightarrow> reply cr (send_ok a) (emit (epi_session_resize s rows cols) srv))"

definition handle_detach :: "env \<Rightarrow> nat \<Rightarrow> epi_rd \<Rightarrow> epi_server \<Rightarrow> epi_server" where
  "handle_detach e cr r srv =
     (let a = e_mem e in
      case epi_rd_u64 r of (i, r1) \<Rightarrow>
      if rd_err r1 then reply cr (send_error a EPI_ERR_PROTOCOL ''malformed DETACH'') srv
      else
        case find_session srv i False of
          None \<Rightarrow> reply cr (send_error a EPI_ERR_NOT_FOUND ''no such session'') srv
        | Some s \<Rightarrow> reply cr (send_ok a) (detach_client (s_ref s) srv))"

definition peek_reply :: "allocator \<Rightarrow> epi_session \<Rightarrow> nat \<Rightarrow> epi_buf" where
  "peek_reply a s max_bytes =
     (case epi_ring_snapshot_tail a (s_out s) max_bytes of (tail, tail_len) \<Rightarrow>
      let b = epi_msg_start a EPI_MSG_PEEK_REPLY;
          b = epi_buf_put_u64 a b (s_id s);
          b = epi_buf_put_blob a b (case tail of None \<Rightarrow> [] | Some t \<Rightarrow> take tail_len t);
          b = epi_buf_put_u64 a b (word_of_nat (r_size (s_out s)))
      in epi_msg_end b)"

definition handle_peek :: "env \<Rightarrow> nat \<Rightarrow> epi_rd \<Rightarrow> epi_server \<Rightarrow> epi_server" where
  "handle_peek e cr r srv =
     (let a = e_mem e in
      case epi_rd_u64 r of (i, r1) \<Rightarrow>
      case (if \<not> rd_err r1 \<and> rd_pos r1 < rd_len r1 then epi_rd_u32 r1
            else (word_of_nat EPI_PEEK_DEFAULT_BYTES, r1)) of (max_bytes, r2) \<Rightarrow>
      if rd_err r2 then reply cr (send_error a EPI_ERR_PROTOCOL ''malformed PEEK'') srv
      else
        case find_session srv i False of
          None \<Rightarrow> reply cr (send_error a EPI_ERR_NOT_FOUND ''no such session'') srv
        | Some s \<Rightarrow> reply cr (conn_queue_frame a (peek_reply a s (unat max_bytes))) srv)"

subsection \<open>Group requests\<close>

definition handle_group_new :: "env \<Rightarrow> nat \<Rightarrow> epi_rd \<Rightarrow> epi_server \<Rightarrow> epi_server" where
  "handle_group_new e cr r srv =
     (let a = e_mem e in
      case (if \<not> rd_err r \<and> rd_pos r < rd_len r then epi_rd_blob a r else ((None, 0), r)) of
        ((blob, blob_len), r1) \<Rightarrow>
      if rd_err r1 then reply cr (send_error a EPI_ERR_PROTOCOL ''malformed GROUP_NEW'') srv
      else if blob_len > EPI_GROUP_BLOB_MAX
      then reply cr (send_error a EPI_ERR_TOO_LARGE ''blob exceeds maximum size'') srv
      else if unat (count_groups srv) \<ge> EPI_GROUP_MAX
      then reply cr (send_error a EPI_ERR_TOO_LARGE ''too many groups'') srv
      else
        case epi_group_new a (e_time e) blob blob_len of
          None \<Rightarrow> reply cr (send_error a EPI_ERR_INTERNAL ''out of memory'') srv
        | Some g0 \<Rightarrow>
            let i = next_group_id srv + 1;
                g = g0\<lparr>g_id := i\<rparr>;
                srv1 = srv\<lparr>next_group_id := i, gids_issued := gids_issued srv + 1,
                           groups := g # groups srv\<rparr>
            in reply cr (conn_queue_frame a
                 (epi_msg_end (epi_buf_put_u64 a (epi_msg_start a EPI_MSG_GROUP_ID) i))) srv1)"

text \<open>The group changed in place is the first of its id, the one \<open>find_group\<close> returns.\<close>

fun update_first :: "('x \<Rightarrow> bool) \<Rightarrow> ('x \<Rightarrow> 'x) \<Rightarrow> 'x list \<Rightarrow> 'x list" where
  "update_first P f [] = []"
| "update_first P f (x # xs) = (if P x then f x # xs else x # update_first P f xs)"

definition handle_group_set :: "env \<Rightarrow> nat \<Rightarrow> epi_rd \<Rightarrow> epi_server \<Rightarrow> epi_server" where
  "handle_group_set e cr r srv =
     (let a = e_mem e in
      case epi_rd_u64 r of (gid, r1) \<Rightarrow>
      case epi_rd_blob a r1 of ((blob, blob_len), r2) \<Rightarrow>
      if rd_err r2 then reply cr (send_error a EPI_ERR_PROTOCOL ''malformed GROUP_SET'') srv
      else if blob_len > EPI_GROUP_BLOB_MAX
      then reply cr (send_error a EPI_ERR_TOO_LARGE ''blob exceeds maximum size'') srv
      else
        case find_group srv gid of
          None \<Rightarrow> reply cr (send_error a EPI_ERR_NOT_FOUND ''no such group'') srv
        | Some g \<Rightarrow>
            (case epi_group_set_blob a g blob blob_len of (g', rc) \<Rightarrow>
               if rc \<noteq> 0 then reply cr (send_error a EPI_ERR_INTERNAL ''out of memory'') srv
               else reply cr (send_ok a)
                      (srv\<lparr>groups := update_first (\<lambda>h. g_id h = gid) (\<lambda>_. g') (groups srv)\<rparr>)))"

definition handle_group_add :: "env \<Rightarrow> nat \<Rightarrow> epi_rd \<Rightarrow> epi_server \<Rightarrow> epi_server" where
  "handle_group_add e cr r srv =
     (let a = e_mem e in
      case epi_rd_u64 r of (gid, r1) \<Rightarrow>
      case epi_rd_u64 r1 of (sid, r2) \<Rightarrow>
      if rd_err r2 then reply cr (send_error a EPI_ERR_PROTOCOL ''malformed GROUP_ADD'') srv
      else if find_group srv gid = None
      then reply cr (send_error a EPI_ERR_NOT_FOUND ''no such group'') srv
      else
        case find_session srv sid False of
          None \<Rightarrow> reply cr (send_error a EPI_ERR_NOT_FOUND ''no such session'') srv
        | Some s \<Rightarrow>
            let was = s_group_id s;
                srv1 = on_sess (s_ref s) (quiet (\<lambda>s. s\<lparr>s_group_id := gid\<rparr>)) srv;
                srv2 = (if was \<noteq> gid then gc_group_if_empty was srv1 else srv1)
            in reply cr (send_ok a) srv2)"

definition handle_group_remove :: "env \<Rightarrow> nat \<Rightarrow> epi_rd \<Rightarrow> epi_server \<Rightarrow> epi_server" where
  "handle_group_remove e cr r srv =
     (let a = e_mem e in
      case epi_rd_u64 r of (sid, r1) \<Rightarrow>
      if rd_err r1 then reply cr (send_error a EPI_ERR_PROTOCOL ''malformed GROUP_REMOVE'') srv
      else
        case find_session srv sid False of
          None \<Rightarrow> reply cr (send_error a EPI_ERR_NOT_FOUND ''no such session'') srv
        | Some s \<Rightarrow>
            let was = s_group_id s;
                srv1 = on_sess (s_ref s) (quiet (\<lambda>s. s\<lparr>s_group_id := 0\<rparr>)) srv
            in reply cr (send_ok a) (gc_group_if_empty was srv1))"

definition put_group :: "allocator \<Rightarrow> epi_server \<Rightarrow> epi_group \<Rightarrow> epi_buf \<Rightarrow> epi_buf" where
  "put_group a srv g b =
     (let b = epi_buf_put_u64 a b (g_id g);
          b = epi_buf_put_u64 a b (word_of_int (g_created_at g));
          b = epi_buf_put_blob a b (case g_blob g of None \<Rightarrow> [] | Some p \<Rightarrow> take (g_blob_len g) p);
          b = epi_buf_put_u32 a b (count_group_members srv (g_id g))
      in fold (\<lambda>s b. epi_buf_put_u64 a b (s_id s))
           (filter (\<lambda>s. session_in_group s (g_id g)) (sessions srv)) b)"

definition group_list_reply :: "allocator \<Rightarrow> epi_server \<Rightarrow> epi_buf" where
  "group_list_reply a srv =
     (let b = epi_msg_start a EPI_MSG_GROUP_LIST_REPLY;
          b = epi_buf_put_u64 a b (instance_id srv);
          b = epi_buf_put_u32 a b (count_groups srv);
          b = fold (put_group a srv) (groups srv) b
      in epi_msg_end b)"

definition handle_group_list :: "env \<Rightarrow> nat \<Rightarrow> epi_server \<Rightarrow> epi_server" where
  "handle_group_list e cr srv =
     reply cr (conn_queue_frame (e_mem e) (group_list_reply (e_mem e) srv)) srv"

definition dispatch_frame :: "env \<Rightarrow> nat \<Rightarrow> u32 \<Rightarrow> byte list \<Rightarrow> epi_server \<Rightarrow> epi_server" where
  "dispatch_frame e cr type body srv =
     (let r = epi_rd_init body in
      if type = EPI_MSG_CREATE then handle_create e cr r srv
      else if type = EPI_MSG_LIST then handle_list e cr srv
      else if type = EPI_MSG_ATTACH then handle_attach e cr r srv
      else if type = EPI_MSG_KILL then handle_kill e cr r srv
      else if type = EPI_MSG_RESIZE then handle_resize e cr r srv
      else if type = EPI_MSG_DETACH then handle_detach e cr r srv
      else if type = EPI_MSG_PEEK then handle_peek e cr r srv
      else if type = EPI_MSG_GROUP_NEW then handle_group_new e cr r srv
      else if type = EPI_MSG_GROUP_SET then handle_group_set e cr r srv
      else if type = EPI_MSG_GROUP_ADD then handle_group_add e cr r srv
      else if type = EPI_MSG_GROUP_REMOVE then handle_group_remove e cr r srv
      else if type = EPI_MSG_GROUP_LIST then handle_group_list e cr srv
      else reply cr (send_error (e_mem e) EPI_ERR_PROTOCOL ''unknown message type'') srv)"

section \<open>Connection input and output\<close>

text \<open>The write loop of \<open>conn_flush\<close>; \<open>ws\<close> are the results of write(2) on the socket.\<close>

definition flush_conn :: "wres list \<Rightarrow> connection \<Rightarrow> connection \<times> sysop list" where
  "flush_conn ws c =
     (case write_loop ws (c_wpos c) (c_wlen c) of (off, ok) \<Rightarrow>
        let sent = (if c_wpos c < off
                    then [Sent (c_fd c) (bytes_at (c_wpos c) (off - c_wpos c) (c_wbuf c))] else []);
            c1 = c\<lparr>c_wpos := off\<rparr>
        in if \<not> ok then (c1\<lparr>c_want_close := True\<rparr>, sent)
           else if off = c_wlen c then (c1\<lparr>c_wpos := 0, c_wlen := 0\<rparr>, sent)
           else (c1, sent))"

definition conn_flush :: "wres list \<Rightarrow> nat \<Rightarrow> epi_server \<Rightarrow> epi_server" where
  "conn_flush ws cr srv = on_conn cr (flush_conn ws) srv"

definition data_to_pty :: "allocator \<Rightarrow> wres list \<Rightarrow> nat \<Rightarrow> byte list \<Rightarrow> epi_server \<Rightarrow> epi_server" where
  "data_to_pty a ws cr data srv =
     (case conn_at srv cr of
        None \<Rightarrow> srv
      | Some c \<Rightarrow>
          (case c_session c of
             None \<Rightarrow> srv
           | Some sr \<Rightarrow>
               pty_update sr
                 (on_sess sr (\<lambda>s. case epi_session_queue_input a ws s data of (s', es, _) \<Rightarrow> (s', es)) srv)))"

text \<open>
  The frame loop over the bytes received so far, \<open>data\<close>: the handlers never touch the receive
  buffer, so it is fixed. \<open>es k\<close> is the environment of the k-th frame. The result is the
  server, the bytes used and whether the connection has just become a data channel.
\<close>

function conn_frames ::
  "(nat \<Rightarrow> env) \<Rightarrow> nat \<Rightarrow> byte list \<Rightarrow> nat \<Rightarrow> nat \<Rightarrow> epi_server \<Rightarrow> epi_server \<times> nat \<times> bool" where
  "conn_frames es cr data used k srv =
     (if length data - used < 4 then (srv, used, False)
      else
        let flen = get_le32 data used; a = e_mem (es k) in
        if flen < 4
        then (reply cr (\<lambda>c. (send_error a EPI_ERR_PROTOCOL ''short frame'' c)\<lparr>c_want_close := True\<rparr>) srv,
              used, False)
        else if flen > MAX_FRAME
        then (reply cr (\<lambda>c. (send_error a EPI_ERR_TOO_LARGE ''frame too large'' c)\<lparr>c_want_close := True\<rparr>) srv,
              used, False)
        else if length data - used - 4 < unat flen then (srv, used, False)
        else
          let type = get_le32 data (used + 4);
              srv1 = dispatch_frame (es k) cr type (bytes_at (used + 8) (unat flen - 4) data) srv;
              used1 = used + (4 + unat flen)
          in case conn_at srv1 cr of
               None \<Rightarrow> (srv1, used1, False)
             | Some c \<Rightarrow>
                 if c_is_data c then (srv1, used1, True)
                 else if c_want_close c then (srv1, used1, False)
                 else conn_frames es cr data used1 (k + 1) srv1)"
  by pat_completeness auto
termination
  by (relation "measure (\<lambda>(es, cr, data, used, k, srv). length data - used)") auto

declare conn_frames.simps [simp del]

text \<open>One result of read(2); no bytes is the end of the stream.\<close>

datatype rres = R_data "byte list" | R_again | R_intr | R_err

record conn_input =
  in_res :: rres
  in_mem :: allocator
  in_pty :: "wres list"
  in_envs :: "nat \<Rightarrow> env"

definition rbuf_room :: "allocator \<Rightarrow> connection \<Rightarrow> nat \<Rightarrow> connection option" where
  "rbuf_room a c n =
     (if c_rlen c + n > c_rcap c
      then let nc = double_until (if c_rcap c \<noteq> 0 then c_rcap c else 4096) (c_rlen c + n)
           in map_option (\<lambda>nd. c\<lparr>c_rbuf := nd, c_rcap := nc\<rparr>) (realloc a (c_rbuf c) nc)
      else Some c)"

definition rbuf_drop :: "nat \<Rightarrow> connection \<Rightarrow> connection" where
  "rbuf_drop used c =
     (if 0 < used \<and> c_rcap c \<noteq> 0
      then c\<lparr>c_rbuf := blit (c_rbuf c) 0 (bytes_at used (c_rlen c - used) (c_rbuf c)),
             c_rlen := c_rlen c - used\<rparr>
      else c)"

definition conn_read :: "conn_input \<Rightarrow> nat \<Rightarrow> epi_server \<Rightarrow> epi_server" where
  "conn_read i cr srv =
     (case in_res i of
        R_again \<Rightarrow> srv
      | R_intr \<Rightarrow> srv
      | R_err \<Rightarrow> reply cr (\<lambda>c. c\<lparr>c_want_close := True\<rparr>) srv
      | R_data bs \<Rightarrow>
          let tmp = take PTY_READ_CHUNK bs in
          if tmp = [] then reply cr (\<lambda>c. c\<lparr>c_want_close := True\<rparr>) srv
          else
            case conn_at srv cr of
              None \<Rightarrow> srv
            | Some c \<Rightarrow>
                if c_is_data c then data_to_pty (in_mem i) (in_pty i) cr tmp srv
                else
                  case rbuf_room (in_mem i) c (length tmp) of
                    None \<Rightarrow> reply cr (\<lambda>c. c\<lparr>c_want_close := True\<rparr>) srv
                  | Some c1 \<Rightarrow>
                      let c2 = c1\<lparr>c_rbuf := blit (c_rbuf c1) (c_rlen c1) tmp,
                                  c_rlen := c_rlen c1 + length tmp\<rparr>;
                          srv1 = reply cr (\<lambda>_. c2) srv;
                          data = take (c_rlen c2) (c_rbuf c2)
                      in case conn_frames (in_envs i) cr data 0 0 srv1 of
                           (srv2, used, True) \<Rightarrow>
                             let srv3 = (if used < length data
                                         then data_to_pty (in_mem i) (in_pty i) cr (drop used data) srv2
                                         else srv2)
                             in reply cr (\<lambda>c. c\<lparr>c_rbuf := [], c_rlen := 0, c_rcap := 0\<rparr>) srv3
                         | (srv2, used, False) \<Rightarrow> reply cr (rbuf_drop used) srv2)"

definition conn_close :: "nat \<Rightarrow> epi_server \<Rightarrow> epi_server" where
  "conn_close cr srv =
     (case conn_at srv cr of
        None \<Rightarrow> srv
      | Some c \<Rightarrow>
          let srv1 = (case c_session c of
                        None \<Rightarrow> srv
                      | Some sr \<Rightarrow> on_sess sr (quiet (\<lambda>s. if s_client s = Some cr
                                                        then s\<lparr>s_client := None\<rparr> else s)) srv);
              srv2 = emit [Close (c_fd c)] (ep_del (c_fd c) srv1)
          in srv2\<lparr>conns := filter (\<lambda>d. c_ref d \<noteq> cr) (conns srv2)\<rparr>)"

text \<open>\<open>sizeof (connection)\<close> on the LP64 ABI.\<close>

definition sizeof_connection :: nat where "sizeof_connection = 120"

definition new_conn :: "nat \<Rightarrow> int \<Rightarrow> connection" where
  "new_conn cr fd =
     \<lparr>c_ref = cr, c_fd = fd, c_is_data = False, c_session = None, c_rbuf = [], c_rlen = 0, c_rcap = 0,
      c_wbuf = [], c_wpos = 0, c_wlen = 0, c_wcap = 0, c_want_close = False\<rparr>"

text \<open>A result of accept4, with the memory at that moment and the answer of epoll.\<close>

datatype acc = A_conn int allocator bool | A_again | A_intr | A_err

fun accept_conn :: "acc list \<Rightarrow> epi_server \<Rightarrow> epi_server" where
  "accept_conn [] srv = srv"
| "accept_conn (A_again # _) srv = srv"
| "accept_conn (A_intr # as) srv = accept_conn as srv"
| "accept_conn (A_err # _) srv = srv"
| "accept_conn (A_conn fd a ok # as) srv =
     (if a sizeof_connection = None then accept_conn as (emit [Close fd] srv)
      else
        let cr = next_ref srv;
            srv1 = srv\<lparr>conns := new_conn cr fd # conns srv, next_ref := cr + 1\<rparr>
        in case ep_add ok fd srv1 of (srv2, rc) \<Rightarrow>
             accept_conn as (if rc \<noteq> 0 then conn_close cr srv2 else srv2))"

section \<open>PTY input and output\<close>

definition client_eof :: "wres list \<Rightarrow> nat \<Rightarrow> epi_server \<Rightarrow> epi_server" where
  "client_eof ws sr srv =
     (case sess_at srv sr of
        None \<Rightarrow> srv
      | Some s \<Rightarrow>
          (case s_client s of
             None \<Rightarrow> srv
           | Some cr \<Rightarrow>
               conn_update cr
                 (on_conn cr (\<lambda>c. (c, if c_wpos c = c_wlen c then [Shutdown (c_fd c)] else []))
                   (reply cr (\<lambda>c. c\<lparr>c_want_close := True\<rparr>) (conn_flush ws cr srv)))))"

text \<open>A result of read(2) on the master, with the memory and the client's socket at that moment.\<close>

datatype pty_read = Pty rres allocator "wres list"

fun pty_reads :: "nat \<Rightarrow> pty_read list \<Rightarrow> epi_server \<Rightarrow> epi_server" where
  "pty_reads sr [] srv = srv"
| "pty_reads sr (Pty res a ws # rs) srv =
     (case res of
        R_again \<Rightarrow> srv
      | R_intr \<Rightarrow> pty_reads sr rs srv
      | _ \<Rightarrow>
          let tmp = (case res of R_data bs \<Rightarrow> take PTY_READ_CHUNK bs | _ \<Rightarrow> []) in
          case sess_at srv sr of
            None \<Rightarrow> srv
          | Some s \<Rightarrow>
              if tmp \<noteq> [] then
                let srv1 = on_sess sr (quiet (\<lambda>s. s\<lparr>s_out := epi_ring_write a (s_out s) tmp\<rparr>)) srv
                in pty_reads sr rs
                     (case s_client s of
                        None \<Rightarrow> srv1
                      | Some cr \<Rightarrow> conn_update cr (conn_flush ws cr (reply cr (conn_queue a tmp) srv1)))
              else
                let srv1 = on_sess sr (\<lambda>s. (s\<lparr>s_pty_master := -1\<rparr>, [Close (s_pty_master s)]))
                             (ep_del (s_pty_master s) srv)
                in if s_removed s then remove_session sr srv1 else client_eof ws sr srv1)"

definition pty_readable :: "nat \<Rightarrow> pty_read list \<Rightarrow> epi_server \<Rightarrow> epi_server" where
  "pty_readable sr rs srv =
     (case sess_at srv sr of
        None \<Rightarrow> srv
      | Some s \<Rightarrow> if s_defunct s \<or> s_pty_master s < 0 then srv else pty_reads sr rs srv)"

section \<open>Signals\<close>

text \<open>One pid and status of waitpid(2); the list ends when no child is left to report.\<close>

definition reap_child :: "int \<Rightarrow> int \<Rightarrow> epi_server \<Rightarrow> epi_server" where
  "reap_child pid status srv =
     (case find (\<lambda>s. s_pid s = pid) (sessions srv) of
        None \<Rightarrow> srv
      | Some s \<Rightarrow>
          let srv1 = on_sess (s_ref s) (quiet (\<lambda>s. s\<lparr>s_alive := False, s_exit_status := status\<rparr>)) srv
          in if s_removed s then remove_session (s_ref s) srv1 else srv1)"

fun reap_children :: "(int \<times> int) list \<Rightarrow> epi_server \<Rightarrow> epi_server" where
  "reap_children [] srv = srv"
| "reap_children ((pid, status) # ps) srv =
     (if 0 < pid then reap_children ps (reap_child pid status srv) else srv)"

text \<open>One record read from the signalfd, with what waitpid reports after it.\<close>

fun handle_signalfd :: "(int \<times> (int \<times> int) list) list \<Rightarrow> epi_server \<Rightarrow> epi_server" where
  "handle_signalfd [] srv = srv"
| "handle_signalfd ((signo, ps) # sigs) srv =
     (if signo = SIGCHLD then handle_signalfd sigs (reap_children ps srv)
      else if signo = SIGTERM \<or> signo = SIGINT then srv\<lparr>running := False\<rparr>
      else handle_signalfd sigs srv)"

section \<open>Kill deadlines\<close>

text \<open>\<open>sdiv\<close> truncates towards zero as C does. Seconds and nanoseconds are C longs.\<close>

definition ms_until :: "int \<times> int \<Rightarrow> int \<times> int \<Rightarrow> int" where
  "ms_until now deadline =
     (fst deadline - fst now) * 1000 + (snd deadline - snd now) sdiv 1000000"

text \<open>\<open>clk\<close> is what the clock shows when the session at that address is looked at.\<close>

definition next_timeout :: "(nat \<Rightarrow> int \<times> int) \<Rightarrow> epi_server \<Rightarrow> int" where
  "next_timeout clk srv =
     (let best = fold (\<lambda>s best.
             if s_killing s \<and> s_alive s
             then let ms = ms_until (clk (s_ref s)) (s_kill_deadline s);
                      ms = (if ms < 0 then 0 else ms)
                  in if best < 0 \<or> ms < best then ms else best
             else best) (sessions srv) (-1)
      in if best < 0 then -1 else sint (word_of_int best :: 32 word))"

definition escalate :: "(nat \<Rightarrow> int \<times> int) \<Rightarrow> epi_session \<Rightarrow> epi_session \<times> sysop list" where
  "escalate clk s =
     (if s_killing s \<and> s_alive s \<and> ms_until (clk (s_ref s)) (s_kill_deadline s) \<le> 0
      then (s\<lparr>s_killing := False\<rparr>, epi_session_kill s)
      else (s, []))"

definition process_kill_deadlines :: "(nat \<Rightarrow> int \<times> int) \<Rightarrow> epi_server \<Rightarrow> epi_server" where
  "process_kill_deadlines clk srv =
     emit (concat (map (\<lambda>s. snd (escalate clk s)) (sessions srv)))
       (srv\<lparr>sessions := map (\<lambda>s. fst (escalate clk s)) (sessions srv)\<rparr>)"

section \<open>Lifecycle\<close>

text \<open>\<open>rnd\<close> is the value getrandom(2) delivers, \<open>None\<close> if it fails.\<close>

definition make_instance_id :: "u64 option \<Rightarrow> int \<times> int \<Rightarrow> int \<Rightarrow> u64" where
  "make_instance_id rnd now pid =
     (case rnd of
        Some v \<Rightarrow> if v \<noteq> 0 then v else
          (let w = push_bit 32 (word_of_int (fst now)) XOR word_of_int (snd now)
                   XOR push_bit 16 (word_of_int pid)
           in if w \<noteq> 0 then w else 1)
      | None \<Rightarrow>
          (let w = push_bit 32 (word_of_int (fst now)) XOR word_of_int (snd now)
                   XOR push_bit 16 (word_of_int pid)
           in if w \<noteq> 0 then w else 1))"

text \<open>
  The results of the system calls of \<open>epi_server_init\<close> in their order; a negative descriptor or
  a False is a failure.
\<close>

record init_env =
  i_random :: "u64 option"
  i_now :: "int \<times> int"
  i_pid :: int
  i_epfd :: int
  i_listen_fd :: int
  i_bind_ok :: bool
  i_listen_ok :: bool
  i_add_listen_ok :: bool
  i_mask_ok :: bool
  i_sig_fd :: int
  i_add_sig_ok :: bool

definition empty_server :: epi_server where
  "empty_server =
     \<lparr>epfd = -1, listen_fd = -1, sig_fd = -1, next_id = 0, next_group_id = 0, running = True,
      instance_id = 0, sessions = [], dead = [], groups = [], conns = [], sockpath = [],
      interest = (\<lambda>_. None), sys = [], next_ref = 0, ids_issued = 0, gids_issued = 0\<rparr>"

text \<open>\<open>sizeof (addr.sun_path)\<close> on Linux.\<close>

definition SUN_PATH_MAX :: nat where "SUN_PATH_MAX = 108"

definition epi_server_init :: "init_env \<Rightarrow> byte list \<Rightarrow> epi_server \<times> int" where
  "epi_server_init e path =
     (let srv0 = empty_server\<lparr>instance_id := make_instance_id (i_random e) (i_now e) (i_pid e),
                              sockpath := take 511 path\<rparr>;
          srv1 = srv0\<lparr>epfd := i_epfd e\<rparr>
      in if i_epfd e < 0 then (srv1, -1)
         else
           let srv2 = srv1\<lparr>listen_fd := i_listen_fd e\<rparr> in
           if i_listen_fd e < 0 then (srv2, -1)
           else if length path \<ge> SUN_PATH_MAX then (srv2, -1)
           else if \<not> i_bind_ok e then (srv2, -1)
           else if \<not> i_listen_ok e then (srv2, -1)
           else
             case ep_add (i_add_listen_ok e) (i_listen_fd e) srv2 of (srv3, rc) \<Rightarrow>
             if rc \<noteq> 0 then (srv3, -1)
             else if \<not> i_mask_ok e then (srv3, -1)
             else
               let srv4 = srv3\<lparr>sig_fd := i_sig_fd e\<rparr> in
               if i_sig_fd e < 0 then (srv4, -1)
               else
                 case ep_add (i_add_sig_ok e) (i_sig_fd e) srv4 of (srv5, rc) \<Rightarrow>
                 if rc \<noteq> 0 then (srv5, -1) else (srv5, 0))"

text \<open>
  One ready descriptor: the source it names (by the address of its object), which of the event
  bits are set (EPOLLOUT; any of EPOLLIN, EPOLLRDHUP, EPOLLHUP, EPOLLERR), and the results of
  the system calls its handling makes.
\<close>

datatype event =
    Ev_listen "acc list"
  | Ev_signal "(int \<times> (int \<times> int) list) list"
  | Ev_pty nat bool bool "wres list" "pty_read list"
  | Ev_conn nat bool bool "wres list" conn_input

fun handle_event :: "event \<Rightarrow> epi_server \<Rightarrow> epi_server" where
  "handle_event (Ev_listen as) srv = accept_conn as srv"
| "handle_event (Ev_signal sigs) srv = handle_signalfd sigs srv"
| "handle_event (Ev_pty sr out inp ws rs) srv =
     (case sess_at srv sr of
        None \<Rightarrow> srv
      | Some s \<Rightarrow>
          if s_defunct s then srv
          else
            let srv1 = (if out
                        then pty_update sr
                          (on_sess sr (\<lambda>s. case epi_session_flush_input ws s of (s', es, _) \<Rightarrow> (s', es)) srv)
                        else srv)
            in if inp then pty_readable sr rs srv1 else srv1)"
| "handle_event (Ev_conn cr out inp ws i) srv =
     (let srv1 = (if out then conn_flush ws cr srv else srv);
          srv2 = (if inp then conn_read i cr srv1 else srv1)
      in case conn_at srv2 cr of
           None \<Rightarrow> srv2
         | Some c \<Rightarrow>
             let srv3 = (if \<not> c_want_close c then conn_update cr srv2 else srv2)
             in if c_want_close c \<and> c_wlen c = c_wpos c then conn_close cr srv3 else srv3)"

text \<open>One return of epoll_wait, with the clock for the deadlines that are checked after it.\<close>

datatype wait = W_events "event list" "nat \<Rightarrow> int \<times> int" | W_interrupted | W_failed

definition run_batch :: "event list \<Rightarrow> (nat \<Rightarrow> int \<times> int) \<Rightarrow> epi_server \<Rightarrow> epi_server" where
  "run_batch evs clk srv = process_kill_deadlines clk (reap_dead_sessions (fold handle_event evs srv))"

text \<open>The loop over the waits that happen; it may go on as long as there are more.\<close>

fun epi_server_run :: "wait list \<Rightarrow> epi_server \<Rightarrow> epi_server" where
  "epi_server_run [] srv = srv"
| "epi_server_run (w # ws) srv =
     (if running srv then
        (case w of
           W_interrupted \<Rightarrow> epi_server_run ws srv
         | W_failed \<Rightarrow> srv
         | W_events evs clk \<Rightarrow> epi_server_run ws (run_batch evs clk srv))
      else srv)"

definition epi_server_shutdown :: "epi_server \<Rightarrow> epi_server" where
  "epi_server_shutdown srv =
     (let srv1 = emit (concat (map epi_session_hangup (sessions srv))) srv;
          srv2 = emit (concat (map (\<lambda>c. if 0 \<le> c_fd c then [Close (c_fd c)] else []) (conns srv)))
                   (srv1\<lparr>conns := []\<rparr>);
          srv3 = emit (concat (map epi_session_free (sessions srv))) (srv2\<lparr>sessions := []\<rparr>);
          srv4 = reap_dead_sessions srv3;
          srv5 = srv4\<lparr>groups := []\<rparr>
      in emit ((if 0 \<le> sig_fd srv then [Close (sig_fd srv)] else [])
             @ (if 0 \<le> listen_fd srv then [Close (listen_fd srv)] else [])
             @ (if 0 \<le> epfd srv then [Close (epfd srv)] else [])
             @ (if sockpath srv \<noteq> [] then [Unlink (sockpath srv)] else [])) srv5)"

end
