(* ===== verification/Server_Inv.thy ===== *)
theory Server_Inv
  imports Server
begin

text \<open>
  The invariant of the daemon's state: addresses are unique, every object is well formed,
  sessions and data connections point at each other, every live session's group exists, ids
  are unique and below their counters. The theory proves that each helper of Server_State
  keeps it and what the helper does to lookups; Server_Safety composes them along the handlers.
\<close>

section \<open>What the helpers leave alone\<close>

lemma emit_frame [simp]:
    "next_id (emit es srv) = next_id srv" "next_group_id (emit es srv) = next_group_id srv"
    "running (emit es srv) = running srv" "instance_id (emit es srv) = instance_id srv"
    "sessions (emit es srv) = sessions srv" "dead (emit es srv) = dead srv"
    "groups (emit es srv) = groups srv" "conns (emit es srv) = conns srv"
    "next_ref (emit es srv) = next_ref srv" "ids_issued (emit es srv) = ids_issued srv"
    "gids_issued (emit es srv) = gids_issued srv" "sockpath (emit es srv) = sockpath srv"
    "listen_fd (emit es srv) = listen_fd srv" "sig_fd (emit es srv) = sig_fd srv"
    "epfd (emit es srv) = epfd srv"
  by (simp_all add: emit_def)

lemma ep_mod_frame [simp]:
    "next_id (ep_mod fd b srv) = next_id srv" "next_group_id (ep_mod fd b srv) = next_group_id srv"
    "running (ep_mod fd b srv) = running srv" "instance_id (ep_mod fd b srv) = instance_id srv"
    "sessions (ep_mod fd b srv) = sessions srv" "dead (ep_mod fd b srv) = dead srv"
    "groups (ep_mod fd b srv) = groups srv" "conns (ep_mod fd b srv) = conns srv"
    "next_ref (ep_mod fd b srv) = next_ref srv" "ids_issued (ep_mod fd b srv) = ids_issued srv"
    "gids_issued (ep_mod fd b srv) = gids_issued srv" "sockpath (ep_mod fd b srv) = sockpath srv"
    "listen_fd (ep_mod fd b srv) = listen_fd srv" "sig_fd (ep_mod fd b srv) = sig_fd srv"
    "epfd (ep_mod fd b srv) = epfd srv"
  by (simp_all add: ep_mod_def)

lemma ep_del_frame [simp]:
    "next_id (ep_del fd srv) = next_id srv" "next_group_id (ep_del fd srv) = next_group_id srv"
    "running (ep_del fd srv) = running srv" "instance_id (ep_del fd srv) = instance_id srv"
    "sessions (ep_del fd srv) = sessions srv" "dead (ep_del fd srv) = dead srv"
    "groups (ep_del fd srv) = groups srv" "conns (ep_del fd srv) = conns srv"
    "next_ref (ep_del fd srv) = next_ref srv" "ids_issued (ep_del fd srv) = ids_issued srv"
    "gids_issued (ep_del fd srv) = gids_issued srv" "sockpath (ep_del fd srv) = sockpath srv"
    "listen_fd (ep_del fd srv) = listen_fd srv" "sig_fd (ep_del fd srv) = sig_fd srv"
    "epfd (ep_del fd srv) = epfd srv"
  by (simp_all add: ep_del_def)

lemma ep_add_frame [simp]:
    "next_id (fst (ep_add ok fd srv)) = next_id srv" "next_group_id (fst (ep_add ok fd srv)) = next_group_id srv"
    "running (fst (ep_add ok fd srv)) = running srv" "instance_id (fst (ep_add ok fd srv)) = instance_id srv"
    "sessions (fst (ep_add ok fd srv)) = sessions srv" "dead (fst (ep_add ok fd srv)) = dead srv"
    "groups (fst (ep_add ok fd srv)) = groups srv" "conns (fst (ep_add ok fd srv)) = conns srv"
    "next_ref (fst (ep_add ok fd srv)) = next_ref srv" "ids_issued (fst (ep_add ok fd srv)) = ids_issued srv"
    "gids_issued (fst (ep_add ok fd srv)) = gids_issued srv" "sockpath (fst (ep_add ok fd srv)) = sockpath srv"
    "listen_fd (fst (ep_add ok fd srv)) = listen_fd srv" "sig_fd (fst (ep_add ok fd srv)) = sig_fd srv"
    "epfd (fst (ep_add ok fd srv)) = epfd srv"
  by (simp_all add: ep_add_def)

lemma conn_update_frame [simp]:
    "next_id (conn_update cr srv) = next_id srv" "next_group_id (conn_update cr srv) = next_group_id srv"
    "running (conn_update cr srv) = running srv" "instance_id (conn_update cr srv) = instance_id srv"
    "sessions (conn_update cr srv) = sessions srv" "dead (conn_update cr srv) = dead srv"
    "groups (conn_update cr srv) = groups srv" "conns (conn_update cr srv) = conns srv"
    "next_ref (conn_update cr srv) = next_ref srv" "ids_issued (conn_update cr srv) = ids_issued srv"
    "gids_issued (conn_update cr srv) = gids_issued srv" "sockpath (conn_update cr srv) = sockpath srv"
    "listen_fd (conn_update cr srv) = listen_fd srv" "sig_fd (conn_update cr srv) = sig_fd srv"
    "epfd (conn_update cr srv) = epfd srv"
  by (simp_all add: conn_update_def split: option.split)

lemma pty_update_frame [simp]:
    "next_id (pty_update sr srv) = next_id srv" "next_group_id (pty_update sr srv) = next_group_id srv"
    "running (pty_update sr srv) = running srv" "instance_id (pty_update sr srv) = instance_id srv"
    "sessions (pty_update sr srv) = sessions srv" "dead (pty_update sr srv) = dead srv"
    "groups (pty_update sr srv) = groups srv" "conns (pty_update sr srv) = conns srv"
    "next_ref (pty_update sr srv) = next_ref srv" "ids_issued (pty_update sr srv) = ids_issued srv"
    "gids_issued (pty_update sr srv) = gids_issued srv" "sockpath (pty_update sr srv) = sockpath srv"
    "listen_fd (pty_update sr srv) = listen_fd srv" "sig_fd (pty_update sr srv) = sig_fd srv"
    "epfd (pty_update sr srv) = epfd srv"
  by (simp_all add: pty_update_def split: option.split)

lemma on_conn_frame [simp]:
    "next_id (on_conn cr f srv) = next_id srv" "next_group_id (on_conn cr f srv) = next_group_id srv"
    "running (on_conn cr f srv) = running srv" "instance_id (on_conn cr f srv) = instance_id srv"
    "sessions (on_conn cr f srv) = sessions srv" "dead (on_conn cr f srv) = dead srv"
    "groups (on_conn cr f srv) = groups srv" "next_ref (on_conn cr f srv) = next_ref srv"
    "ids_issued (on_conn cr f srv) = ids_issued srv" "gids_issued (on_conn cr f srv) = gids_issued srv"
    "sockpath (on_conn cr f srv) = sockpath srv" "listen_fd (on_conn cr f srv) = listen_fd srv"
    "sig_fd (on_conn cr f srv) = sig_fd srv" "epfd (on_conn cr f srv) = epfd srv"
  by (simp_all add: on_conn_def split: option.split)

lemma on_sess_frame [simp]:
    "next_id (on_sess sr f srv) = next_id srv" "next_group_id (on_sess sr f srv) = next_group_id srv"
    "running (on_sess sr f srv) = running srv" "instance_id (on_sess sr f srv) = instance_id srv"
    "groups (on_sess sr f srv) = groups srv" "conns (on_sess sr f srv) = conns srv"
    "next_ref (on_sess sr f srv) = next_ref srv" "ids_issued (on_sess sr f srv) = ids_issued srv"
    "gids_issued (on_sess sr f srv) = gids_issued srv" "sockpath (on_sess sr f srv) = sockpath srv"
    "listen_fd (on_sess sr f srv) = listen_fd srv" "sig_fd (on_sess sr f srv) = sig_fd srv"
    "epfd (on_sess sr f srv) = epfd srv"
  by (simp_all add: on_sess_def split: option.split)

lemma gc_group_frame [simp]:
    "next_id (gc_group_if_empty gid srv) = next_id srv" "next_group_id (gc_group_if_empty gid srv) = next_group_id srv"
    "running (gc_group_if_empty gid srv) = running srv" "instance_id (gc_group_if_empty gid srv) = instance_id srv"
    "sessions (gc_group_if_empty gid srv) = sessions srv" "dead (gc_group_if_empty gid srv) = dead srv"
    "conns (gc_group_if_empty gid srv) = conns srv" "next_ref (gc_group_if_empty gid srv) = next_ref srv"
    "ids_issued (gc_group_if_empty gid srv) = ids_issued srv" "gids_issued (gc_group_if_empty gid srv) = gids_issued srv"
    "sockpath (gc_group_if_empty gid srv) = sockpath srv" "listen_fd (gc_group_if_empty gid srv) = listen_fd srv"
    "sig_fd (gc_group_if_empty gid srv) = sig_fd srv" "epfd (gc_group_if_empty gid srv) = epfd srv"
  by (simp_all add: gc_group_if_empty_def unlink_group_def split: option.split)

lemma at_cong:
  "conns srv = conns srv' \<Longrightarrow> conn_at srv cr = conn_at srv' cr"
  "sessions srv = sessions srv' \<Longrightarrow> dead srv = dead srv' \<Longrightarrow> sess_at srv sr = sess_at srv' sr"
  by (simp_all add: conn_at_def sess_at_def)

lemma at_frame [simp]:
  "conn_at (emit es srv) cr = conn_at srv cr" "conn_at (ep_mod fd b srv) cr = conn_at srv cr"
  "conn_at (ep_del fd srv) cr = conn_at srv cr" "conn_at (fst (ep_add ok fd srv)) cr = conn_at srv cr"
  "conn_at (conn_update c' srv) cr = conn_at srv cr" "conn_at (pty_update s' srv) cr = conn_at srv cr"
  "conn_at (on_sess s' g srv) cr = conn_at srv cr" "conn_at (gc_group_if_empty gid srv) cr = conn_at srv cr"
  "sess_at (emit es srv) sr = sess_at srv sr" "sess_at (ep_mod fd b srv) sr = sess_at srv sr"
  "sess_at (ep_del fd srv) sr = sess_at srv sr" "sess_at (fst (ep_add ok fd srv)) sr = sess_at srv sr"
  "sess_at (conn_update c' srv) sr = sess_at srv sr" "sess_at (pty_update s' srv) sr = sess_at srv sr"
  "sess_at (on_conn c' f srv) sr = sess_at srv sr" "sess_at (gc_group_if_empty gid srv) sr = sess_at srv sr"
  by (simp_all add: conn_at_def sess_at_def)

section \<open>Lookup\<close>

lemma find_map_key:
  "(\<And>x. x \<in> set xs \<Longrightarrow> P (g x) = P x) \<Longrightarrow> find P (map g xs) = map_option g (find P xs)"
  by (induction xs) auto

lemma find_distinct:
  "distinct (map k xs) \<Longrightarrow> find (\<lambda>x. k x = i) xs = Some x \<longleftrightarrow> x \<in> set xs \<and> k x = i"
  by (induction xs) auto

lemma find_SomeD: "find P xs = Some x \<Longrightarrow> x \<in> set xs \<and> P x"
  by (induction xs) (auto split: if_splits)

lemma find_NoneD: "find P xs = None \<Longrightarrow> x \<in> set xs \<Longrightarrow> \<not> P x"
  by (auto simp: find_None_iff)

lemma conn_atD: "conn_at srv cr = Some c \<Longrightarrow> c \<in> set (conns srv) \<and> c_ref c = cr"
  by (auto simp: conn_at_def dest: find_SomeD)

lemma sess_atD: "sess_at srv sr = Some s \<Longrightarrow> s \<in> set (sessions srv @ dead srv) \<and> s_ref s = sr"
  by (auto simp: sess_at_def dest: find_SomeD)

lemma find_sessionD:
  "find_session srv i False = Some s \<Longrightarrow> s \<in> set (sessions srv) \<and> s_id s = i \<and> \<not> s_removed s"
  by (auto simp: find_session_def dest: find_SomeD)

lemma find_groupD: "find_group srv i = Some g \<Longrightarrow> g \<in> set (groups srv) \<and> g_id g = i"
  by (auto simp: find_group_def dest: find_SomeD)

text \<open>The objects after an operation at an address, when the operation keeps addresses.\<close>

lemma conns_on_conn:
  assumes "conn_at srv cr = Some c"
  shows "conns (on_conn cr f srv) = map (\<lambda>d. if c_ref d = cr then fst (f d) else d) (conns srv)"
  using assms by (simp add: on_conn_def)

lemma conns_on_conn_None: "conn_at srv cr = None \<Longrightarrow> on_conn cr f srv = srv"
  by (simp add: on_conn_def)

lemma sess_on_sess:
  assumes "sess_at srv sr = Some s"
  shows "sessions (on_sess sr f srv) = map (\<lambda>t. if s_ref t = sr then fst (f t) else t) (sessions srv)"
    and "dead (on_sess sr f srv) = map (\<lambda>t. if s_ref t = sr then fst (f t) else t) (dead srv)"
  using assms by (simp_all add: on_sess_def)

lemma sess_on_sess_None: "sess_at srv sr = None \<Longrightarrow> on_sess sr f srv = srv"
  by (simp add: on_sess_def)

lemma conn_at_on_conn:
  assumes "\<And>c. c_ref (fst (f c)) = c_ref c"
  shows "conn_at (on_conn cr f srv) cr' =
    (if cr' = cr then map_option (\<lambda>c. fst (f c)) (conn_at srv cr) else conn_at srv cr')"
proof (cases "conn_at srv cr")
  case None
  then show ?thesis by (simp add: on_conn_def)
next
  case (Some c)
  have "conn_at (on_conn cr f srv) cr' =
      map_option (\<lambda>d. if c_ref d = cr then fst (f d) else d) (conn_at srv cr')"
    unfolding conn_at_def conns_on_conn[OF Some] by (rule find_map_key) (simp add: assms)
  then show ?thesis
    by (cases "conn_at srv cr'") (auto dest: conn_atD)
qed

lemma sess_at_on_sess:
  assumes "\<And>s. s_ref (fst (f s)) = s_ref s"
  shows "sess_at (on_sess sr f srv) sr' =
    (if sr' = sr then map_option (\<lambda>s. fst (f s)) (sess_at srv sr) else sess_at srv sr')"
proof (cases "sess_at srv sr")
  case None
  then show ?thesis by (simp add: on_sess_def)
next
  case (Some s)
  have "sess_at (on_sess sr f srv) sr' =
      map_option (\<lambda>d. if s_ref d = sr then fst (f d) else d) (sess_at srv sr')"
    unfolding sess_at_def sess_on_sess[OF Some] map_append[symmetric]
    by (rule find_map_key) (simp add: assms)
  then show ?thesis
    by (cases "sess_at srv sr'") (auto dest: sess_atD)
qed

section \<open>The invariant\<close>

definition conn_ok :: "connection \<Rightarrow> bool" where
  "conn_ok c \<longleftrightarrow>
     length (c_wbuf c) = c_wcap c \<and> c_wpos c \<le> c_wlen c \<and> c_wlen c \<le> c_wcap c \<and>
     length (c_rbuf c) = c_rcap c \<and> c_rlen c \<le> c_rcap c \<and> (c_session c \<noteq> None \<longrightarrow> c_is_data c)"

definition sess_ok :: "epi_session \<Rightarrow> bool" where
  "sess_ok s \<longleftrightarrow>
     ring_inv (s_out s) \<and> r_max_cap (s_out s) = EPI_RING_CAP \<and> pin_ok s \<and>
     (s_killing s \<longrightarrow> s_removed s) \<and> (s_removed s \<longrightarrow> s_client s = None) \<and>
     (s_defunct s \<longrightarrow> s_client s = None \<and> s_pty_master s < 0)"

text \<open>The two sides of the attachment relation, as pairs of a session and a connection.\<close>

definition slinks :: "epi_server \<Rightarrow> (nat \<times> nat) set" where
  "slinks srv = {(s_ref s, cr) |s cr. s \<in> set (sessions srv @ dead srv) \<and> s_client s = Some cr}"

definition clinks :: "epi_server \<Rightarrow> (nat \<times> nat) set" where
  "clinks srv = {(sr, c_ref c) |sr c. c \<in> set (conns srv) \<and> c_session c = Some sr}"

definition inv_refs :: "epi_server \<Rightarrow> bool" where
  "inv_refs srv \<longleftrightarrow>
     distinct (map s_ref (sessions srv @ dead srv)) \<and> distinct (map c_ref (conns srv)) \<and>
     (\<forall>s \<in> set (sessions srv @ dead srv). s_ref s < next_ref srv) \<and>
     (\<forall>c \<in> set (conns srv). c_ref c < next_ref srv)"

definition inv_objs :: "epi_server \<Rightarrow> bool" where
  "inv_objs srv \<longleftrightarrow>
     (\<forall>s \<in> set (sessions srv). sess_ok s \<and> \<not> s_defunct s) \<and>
     (\<forall>s \<in> set (dead srv). sess_ok s \<and> s_defunct s) \<and>
     (\<forall>c \<in> set (conns srv). conn_ok c) \<and> (\<forall>g \<in> set (groups srv). group_wf g)"

text \<open>
  The daemon counts a group's members in 32 bits, so the claim about groups is made while fewer
  than 2^32 sessions have ever been created.
\<close>

definition few_ids :: "epi_server \<Rightarrow> bool" where
  "few_ids srv \<longleftrightarrow> ids_issued srv < 2 ^ 32"

definition inv_groups :: "epi_server \<Rightarrow> bool" where
  "inv_groups srv \<longleftrightarrow>
     length (groups srv) \<le> EPI_GROUP_MAX \<and> length (sessions srv) \<le> ids_issued srv \<and>
     (few_ids srv \<longrightarrow> (\<forall>s \<in> set (sessions srv). \<not> s_removed s \<longrightarrow>
        s_group_id s = 0 \<or> s_group_id s \<in> g_id ` set (groups srv)))"

definition ids_below :: "nat \<Rightarrow> u64 list \<Rightarrow> bool" where
  "ids_below n is \<longleftrightarrow>
     (n < 2 ^ 64 \<longrightarrow> distinct is \<and> (\<forall>i \<in> set is. 0 < unat i \<and> unat i \<le> n))"

definition inv_ids :: "epi_server \<Rightarrow> bool" where
  "inv_ids srv \<longleftrightarrow>
     next_id srv = word_of_nat (ids_issued srv) \<and> next_group_id srv = word_of_nat (gids_issued srv) \<and>
     ids_below (ids_issued srv) (map s_id (sessions srv)) \<and>
     ids_below (gids_issued srv) (map g_id (groups srv))"

definition srv_inv :: "epi_server \<Rightarrow> bool" where
  "srv_inv srv \<longleftrightarrow>
     inv_refs srv \<and> inv_objs srv \<and> slinks srv = clinks srv \<and> inv_groups srv \<and> inv_ids srv"

lemmas inv_parts = few_ids_def inv_refs_def inv_objs_def inv_groups_def inv_ids_def slinks_def clinks_def

lemma srv_inv_cong:
  assumes "sessions srv = sessions srv'" and "dead srv = dead srv'" and "groups srv = groups srv'"
    and "conns srv = conns srv'" and "next_ref srv = next_ref srv'" and "next_id srv = next_id srv'"
    and "next_group_id srv = next_group_id srv'" and "ids_issued srv = ids_issued srv'"
    and "gids_issued srv = gids_issued srv'"
  shows "srv_inv srv = srv_inv srv'"
  by (simp only: srv_inv_def inv_parts assms)

lemma srv_inv_quiet [simp]:
  "srv_inv (emit es srv) = srv_inv srv" "srv_inv (ep_mod fd b srv) = srv_inv srv"
  "srv_inv (ep_del fd srv) = srv_inv srv" "srv_inv (fst (ep_add ok fd srv)) = srv_inv srv"
  "srv_inv (conn_update cr srv) = srv_inv srv" "srv_inv (pty_update sr srv) = srv_inv srv"
  "srv_inv (srv\<lparr>running := rn\<rparr>) = srv_inv srv"
  by (rule srv_inv_cong; simp)+

section \<open>Operations on one object\<close>

lemma few_ids_cong [simp]:
  "few_ids (emit es srv) = few_ids srv" "few_ids (on_conn cr f srv) = few_ids srv"
  "few_ids (on_sess sr g srv) = few_ids srv" "few_ids (ep_mod fd b srv) = few_ids srv"
  "few_ids (ep_del fd srv) = few_ids srv" "few_ids (gc_group_if_empty gid srv) = few_ids srv"
  by (simp_all add: few_ids_def)

lemma sess_at_mem:
  assumes "inv_refs srv" and "s \<in> set (sessions srv @ dead srv)"
  shows "sess_at srv (s_ref s) = Some s"
  unfolding sess_at_def using assms by (subst find_distinct) (auto simp: inv_refs_def)

lemma conn_at_mem: "inv_refs srv \<Longrightarrow> c \<in> set (conns srv) \<Longrightarrow> conn_at srv (c_ref c) = Some c"
  unfolding conn_at_def by (subst find_distinct) (auto simp: inv_refs_def)

lemma map_at_cong:
  assumes "\<And>x. x \<in> set xs \<Longrightarrow> h (if k x = i then f x else x) = h x"
  shows "map h (map (\<lambda>x. if k x = i then f x else x) xs) = map h xs"
  using assms by simp

lemma in_slinks:
  "(sr, cr) \<in> slinks srv \<longleftrightarrow>
     (\<exists>s \<in> set (sessions srv @ dead srv). s_ref s = sr \<and> s_client s = Some cr)"
  unfolding slinks_def by blast

lemma in_clinks: "(sr, cr) \<in> clinks srv \<longleftrightarrow> (\<exists>c \<in> set (conns srv). c_ref c = cr \<and> c_session c = Some sr)"
  unfolding clinks_def by blast

lemma ex_map_at:
  assumes "\<And>x. k (f x) = k x" and "\<And>x. m (f x) = m x"
  shows "(\<exists>x \<in> set (map (\<lambda>x. if k x = i then f x else x) xs). k x = a \<and> m x = b) \<longleftrightarrow>
         (\<exists>x \<in> set xs. k x = a \<and> m x = b)"
  by (induction xs) (simp_all add: assms)

lemma on_conn_inv [wf_intros]:
  assumes inv: "srv_inv srv" and ok: "\<And>c. conn_ok c \<Longrightarrow> conn_ok (fst (f c))"
    and fr: "\<And>c. c_ref (fst (f c)) = c_ref c" "\<And>c. c_session (fst (f c)) = c_session c"
  shows "srv_inv (on_conn cr f srv)"
proof (cases "conn_at srv cr")
  case None
  then show ?thesis using inv by (simp add: conns_on_conn_None)
next
  case (Some c)
  note cs = conns_on_conn[OF Some, of f]
  have "clinks (on_conn cr f srv) = clinks srv"
    by (rule set_eqI, clarify)
      (simp only: in_clinks cs ex_map_at[where k = c_ref and m = c_session and f = "\<lambda>d. fst (f d)", OF fr])
  moreover have "slinks (on_conn cr f srv) = slinks srv" by (simp add: slinks_def)
  moreover have "inv_refs (on_conn cr f srv)"
    using inv unfolding srv_inv_def inv_refs_def cs by (auto simp: fr comp_def if_distrib cong: if_cong)
  moreover have "inv_objs (on_conn cr f srv)"
    using inv ok unfolding srv_inv_def inv_objs_def cs by auto
  moreover have "inv_groups (on_conn cr f srv)" "inv_ids (on_conn cr f srv)"
    using inv by (simp_all add: srv_inv_def inv_groups_def inv_ids_def few_ids_def)
  ultimately show ?thesis using inv by (simp add: srv_inv_def)
qed

lemma on_sess_refs:
  assumes "\<And>s. s_ref (fst (f s)) = s_ref s" and "inv_refs srv"
  shows "inv_refs (on_sess sr f srv)"
proof (cases "sess_at srv sr")
  case None
  then show ?thesis using assms by (simp add: sess_on_sess_None)
next
  case (Some s)
  have eq: "map s_ref (map (\<lambda>t. if s_ref t = sr then fst (f t) else t) xs) = map s_ref xs" for xs
    by (rule map_at_cong) (simp add: assms(1))
  show ?thesis using assms(2) unfolding inv_refs_def sess_on_sess[OF Some] map_append eq
    by (auto simp: assms(1))
qed

lemma on_sess_inv:
  assumes inv: "srv_inv srv"
    and fr: "\<And>s. s_ref (fst (f s)) = s_ref s" "\<And>s. s_id (fst (f s)) = s_id s"
      "\<And>s. s_client (fst (f s)) = s_client s" "\<And>s. s_defunct (fst (f s)) = s_defunct s"
    and ok: "\<And>s. sess_at srv sr = Some s \<Longrightarrow> sess_ok (fst (f s))"
    and grp: "\<And>s. few_ids srv \<Longrightarrow> sess_at srv sr = Some s \<Longrightarrow> \<not> s_removed (fst (f s)) \<Longrightarrow> \<not> s_defunct s \<Longrightarrow>
        s_group_id (fst (f s)) = 0 \<or> s_group_id (fst (f s)) \<in> g_id ` set (groups srv)"
  shows "srv_inv (on_sess sr f srv)"
proof (cases "sess_at srv sr")
  case None
  then show ?thesis using inv by (simp add: sess_on_sess_None)
next
  case (Some s)
  note ss = sess_on_sess[OF Some, of f]
  have refs: "inv_refs srv" using inv by (simp add: srv_inv_def)
  have here: "t = s" if "t \<in> set (sessions srv @ dead srv)" "s_ref t = sr" for t
    using sess_at_mem[OF refs that(1)] that(2) Some by simp
  have "slinks (on_sess sr f srv) = slinks srv"
    by (rule set_eqI, clarify)
      (simp only: in_slinks ss map_append[symmetric]
        ex_map_at[where k = s_ref and m = s_client and f = "\<lambda>d. fst (f d)", OF fr(1,3)])
  moreover have "clinks (on_sess sr f srv) = clinks srv" by (simp add: clinks_def)
  moreover have "inv_refs (on_sess sr f srv)" by (rule on_sess_refs[OF fr(1) refs])
  moreover have "inv_objs (on_sess sr f srv)"
    using inv ok[OF Some] here unfolding srv_inv_def inv_objs_def ss by (auto simp: fr)
  moreover have "inv_groups (on_sess sr f srv)"
    using inv grp[OF _ Some] here unfolding srv_inv_def inv_groups_def inv_objs_def few_ids_def ss by auto
  moreover have "inv_ids (on_sess sr f srv)"
  proof -
    have eq: "map s_id (map (\<lambda>t. if s_ref t = sr then fst (f t) else t) xs) = map s_id xs" for xs
      by (rule map_at_cong) (simp add: fr)
    then show ?thesis using inv unfolding srv_inv_def inv_ids_def ss eq by simp
  qed
  ultimately show ?thesis using inv by (simp add: srv_inv_def)
qed

lemma sess_at_cases:
  assumes "srv_inv srv" and "sess_at srv sr = Some s"
  shows "sess_ok s" and "s_ref s = sr" and "s \<in> set (sessions srv) \<longleftrightarrow> \<not> s_defunct s"
  using assms sess_atD[OF assms(2)] by (auto simp: srv_inv_def inv_objs_def)

lemma live_at:
  assumes "srv_inv srv" and "s \<in> set (sessions srv)"
  shows "sess_at srv (s_ref s) = Some s" and "sess_ok s" and "\<not> s_defunct s"
  using assms by (auto simp: srv_inv_def inv_objs_def intro!: sess_at_mem)

lemma live_group:
  assumes "srv_inv srv" and "few_ids srv" and "s \<in> set (sessions srv)" and "\<not> s_removed s"
  shows "s_group_id s = 0 \<or> s_group_id s \<in> g_id ` set (groups srv)"
  using assms by (auto simp: srv_inv_def inv_groups_def)

text \<open>A change of a session that keeps its identity, its group and its place.\<close>

lemma on_sess_keep [wf_intros]:
  assumes inv: "srv_inv srv"
    and fr: "\<And>s. s_ref (fst (f s)) = s_ref s" "\<And>s. s_id (fst (f s)) = s_id s"
      "\<And>s. s_client (fst (f s)) = s_client s" "\<And>s. s_defunct (fst (f s)) = s_defunct s"
      "\<And>s. s_group_id (fst (f s)) = s_group_id s" "\<And>s. s_removed s \<Longrightarrow> s_removed (fst (f s))"
    and ok: "\<And>s. sess_at srv sr = Some s \<Longrightarrow> sess_ok s \<Longrightarrow> sess_ok (fst (f s))"
  shows "srv_inv (on_sess sr f srv)"
proof (rule on_sess_inv[OF inv fr(1-4)])
  fix s assume s: "sess_at srv sr = Some s"
  show "sess_ok (fst (f s))" using ok[OF s] sess_at_cases(1)[OF inv s] .
  assume "few_ids srv" and "\<not> s_removed (fst (f s))" and "\<not> s_defunct s"
  then show "s_group_id (fst (f s)) = 0 \<or> s_group_id (fst (f s)) \<in> g_id ` set (groups srv)"
    using live_group[OF inv, of s] sess_at_cases(3)[OF inv s] fr(5,6) by metis
qed

section \<open>Attaching and detaching\<close>

lemma link_unique:
  assumes inv: "srv_inv srv" and l: "(sr, cr) \<in> slinks srv"
  shows "{p \<in> slinks srv. fst p \<noteq> sr} = {p \<in> clinks srv. snd p \<noteq> cr}"
proof -
  have eq: "slinks srv = clinks srv" and refs: "inv_refs srv" using inv by (auto simp: srv_inv_def)
  have "sr' = sr \<longleftrightarrow> cr' = cr" if "(sr', cr') \<in> slinks srv" for sr' cr'
  proof
    assume "sr' = sr"
    then show "cr' = cr" using that l sess_at_mem[OF refs] unfolding in_slinks
      by (metis option.inject)
  next
    assume "cr' = cr"
    then show "sr' = sr" using that l conn_at_mem[OF refs] unfolding eq in_clinks
      by (metis option.inject)
  qed
  then have "fst p \<noteq> sr \<longleftrightarrow> snd p \<noteq> cr" if "p \<in> slinks srv" for p
    using that by (cases p) simp
  then show ?thesis unfolding eq[symmetric] by blast
qed

lemma client_linked:
  assumes "srv_inv srv" and "sess_at srv sr = Some s" and "s_client s = Some cr"
  shows "\<exists>c. conn_at srv cr = Some c \<and> c_session c = Some sr"
proof -
  have "(sr, cr) \<in> slinks srv" using assms sess_atD[OF assms(2)] by (auto simp: slinks_def)
  then have "(sr, cr) \<in> clinks srv" using assms(1) by (simp add: srv_inv_def)
  then show ?thesis using assms(1) conn_at_mem by (auto simp: clinks_def srv_inv_def)
qed

lemma session_linked:
  assumes "srv_inv srv" and "conn_at srv cr = Some c" and "c_session c = Some sr"
  shows "\<exists>s. sess_at srv sr = Some s \<and> s_client s = Some cr \<and> s \<in> set (sessions srv)"
proof -
  have "(sr, cr) \<in> clinks srv" using assms conn_atD[OF assms(2)] by (auto simp: clinks_def)
  then have "(sr, cr) \<in> slinks srv" using assms(1) by (simp add: srv_inv_def)
  then obtain s where s: "s \<in> set (sessions srv @ dead srv)" "s_ref s = sr" "s_client s = Some cr"
    by (auto simp: slinks_def)
  then have at: "sess_at srv sr = Some s" using assms(1) sess_at_mem by (auto simp: srv_inv_def)
  have "\<not> s_defunct s" using sess_at_cases(1)[OF assms(1) at] s(3) by (auto simp: sess_ok_def)
  then show ?thesis using at s sess_at_cases(3)[OF assms(1) at] by auto
qed

abbreviation clear_client :: "epi_session \<Rightarrow> epi_session" where
  "clear_client s \<equiv> s\<lparr>s_client := None\<rparr>"

text \<open>Both orders in which the code breaks a link end in the same lists.\<close>

lemma unlink_inv:
  assumes inv: "srv_inv srv" and s: "sess_at srv sr = Some s" "s_client s = Some cr"
    and srv': "sessions srv' = map (\<lambda>t. if s_ref t = sr then clear_client t else t) (sessions srv)"
      "dead srv' = map (\<lambda>t. if s_ref t = sr then clear_client t else t) (dead srv)"
      "conns srv' = map (\<lambda>d. if c_ref d = cr then fst (conn_drop d) else d) (conns srv)"
    and same: "groups srv' = groups srv" "next_ref srv' = next_ref srv" "next_id srv' = next_id srv"
      "next_group_id srv' = next_group_id srv" "ids_issued srv' = ids_issued srv"
      "gids_issued srv' = gids_issued srv"
  shows "srv_inv srv'"
proof -
  have l: "(sr, cr) \<in> slinks srv" using s sess_atD[OF s(1)] by (auto simp: slinks_def)
  have keys: "map s_ref (map (\<lambda>t. if s_ref t = sr then clear_client t else t) xs) = map s_ref xs"
    "map s_id (map (\<lambda>t. if s_ref t = sr then clear_client t else t) xs) = map s_id xs"
    "map c_ref (map (\<lambda>d. if c_ref d = cr then fst (conn_drop d) else d) ys) = map c_ref ys" for xs ys
    by (auto simp: conn_drop_def)
  have "slinks srv' = {p \<in> slinks srv. fst p \<noteq> sr}"
    unfolding slinks_def srv' by (auto split: if_splits)
  moreover have "clinks srv' = {p \<in> clinks srv. snd p \<noteq> cr}"
    unfolding clinks_def srv' by (auto simp: conn_drop_def split: if_splits)
  ultimately have "slinks srv' = clinks srv'" using link_unique[OF inv l] by simp
  moreover have "inv_refs srv'"
    using inv unfolding srv_inv_def inv_refs_def srv' same map_append keys by (auto simp: conn_drop_def)
  moreover have "inv_objs srv'"
    using inv unfolding srv_inv_def inv_objs_def srv' same
    by (auto simp: conn_drop_def conn_ok_def sess_ok_def pin_ok_def)
  moreover have "inv_groups srv'"
    using inv unfolding srv_inv_def inv_groups_def few_ids_def srv' same by auto
  moreover have "inv_ids srv'"
    using inv unfolding srv_inv_def inv_ids_def srv' same keys by simp
  ultimately show ?thesis by (simp add: srv_inv_def)
qed

end
