(* ===== verification/Server_Links.thy ===== *)
theory Server_Links
  imports Server_Inv
begin

text \<open>
  The helpers that break links, remove sessions, collect groups, attach and close, each with
  its effect on the lookups and the proof that it keeps the invariant.
\<close>

section \<open>Detaching\<close>

lemma detach_none: "sess_at srv sr = Some s \<Longrightarrow> s_client s = None \<Longrightarrow> detach_client sr srv = srv"
  by (simp add: detach_client_def)

lemma conn_drop_ref [simp]: "c_ref (fst (conn_drop c)) = c_ref c"
  by (simp add: conn_drop_def)

lemma detach_sess_at:
  "sess_at (detach_client sr srv) sr' =
     (if sr' = sr then map_option clear_client (sess_at srv sr) else sess_at srv sr')"
proof (cases "sess_at srv sr")
  case None
  then show ?thesis by (simp add: detach_client_def)
next
  case (Some s)
  then show ?thesis
    by (cases "s_client s") (auto simp: detach_client_def sess_at_on_sess quiet_def)
qed

lemma detach_frame [simp]:
  "next_id (detach_client sr srv) = next_id srv" "next_group_id (detach_client sr srv) = next_group_id srv"
  "groups (detach_client sr srv) = groups srv" "next_ref (detach_client sr srv) = next_ref srv"
  "ids_issued (detach_client sr srv) = ids_issued srv" "gids_issued (detach_client sr srv) = gids_issued srv"
  "instance_id (detach_client sr srv) = instance_id srv" "running (detach_client sr srv) = running srv"
  by (simp_all add: detach_client_def split: option.split)

lemma unlink_lists:
  assumes "conn_at srv cr = Some c" and "sess_at srv sr = Some s"
  defines "one \<equiv> on_conn cr conn_drop (on_sess sr (quiet (\<lambda>s. clear_client s)) srv)"
    and "two \<equiv> on_sess sr (quiet (\<lambda>s. clear_client s)) (on_conn cr conn_drop srv)"
  shows "sessions one = map (\<lambda>t. if s_ref t = sr then clear_client t else t) (sessions srv)"
    and "dead one = map (\<lambda>t. if s_ref t = sr then clear_client t else t) (dead srv)"
    and "conns one = map (\<lambda>d. if c_ref d = cr then fst (conn_drop d) else d) (conns srv)"
    and "sessions two = sessions one" and "dead two = dead one" and "conns two = conns one"
proof -
  have c': "conn_at (on_sess sr (quiet (\<lambda>s. clear_client s)) srv) cr = Some c"
    and s': "sess_at (on_conn cr conn_drop srv) sr = Some s" using assms(1,2) by simp_all
  note f = sess_on_sess[OF assms(2), of "quiet (\<lambda>s. clear_client s)"]
    conns_on_conn[OF c', of conn_drop] sess_on_sess[OF s', of "quiet (\<lambda>s. clear_client s)"]
    conns_on_conn[OF assms(1), of conn_drop]
  show "sessions one = map (\<lambda>t. if s_ref t = sr then clear_client t else t) (sessions srv)"
    "dead one = map (\<lambda>t. if s_ref t = sr then clear_client t else t) (dead srv)"
    "conns one = map (\<lambda>d. if c_ref d = cr then fst (conn_drop d) else d) (conns srv)"
    "sessions two = sessions one" "dead two = dead one" "conns two = conns one"
    by (simp_all only: one_def two_def on_conn_frame on_sess_frame f quiet_def fst_conv)
qed

lemma unlink_orders_inv:
  assumes inv: "srv_inv srv" and s: "sess_at srv sr = Some s" "s_client s = Some cr"
  shows "srv_inv (on_conn cr conn_drop (on_sess sr (quiet (\<lambda>s. clear_client s)) srv))"
    and "srv_inv (on_sess sr (quiet (\<lambda>s. clear_client s)) (on_conn cr conn_drop srv))"
proof -
  obtain c where c: "conn_at srv cr = Some c" using client_linked[OF inv s] by blast
  note u = unlink_lists[OF c s(1)]
  show "srv_inv (on_conn cr conn_drop (on_sess sr (quiet (\<lambda>s. clear_client s)) srv))"
    by (rule unlink_inv[OF inv s u(1-3)]) simp_all
  show "srv_inv (on_sess sr (quiet (\<lambda>s. clear_client s)) (on_conn cr conn_drop srv))"
    by (rule unlink_inv[OF inv s trans[OF u(4,1)] trans[OF u(5,2)] trans[OF u(6,3)]]) simp_all
qed

lemma detach_inv [wf_intros]:
  assumes "srv_inv srv"
  shows "srv_inv (detach_client sr srv)"
  using assms unlink_orders_inv(1)[OF assms] by (simp add: detach_client_def split: option.split)

lemma detach_lists:
  assumes inv: "srv_inv srv" and s: "sess_at srv sr = Some s"
  shows "map s_ref (sessions (detach_client sr srv)) = map s_ref (sessions srv)"
    and "sessions (detach_client sr srv) = map (\<lambda>t. if s_ref t = sr then clear_client t else t) (sessions srv)"
    and "dead (detach_client sr srv) = map (\<lambda>t. if s_ref t = sr then clear_client t else t) (dead srv)"
proof -
  have 1: "sessions (detach_client sr srv) = map (\<lambda>t. if s_ref t = sr then clear_client t else t) (sessions srv) \<and>
        dead (detach_client sr srv) = map (\<lambda>t. if s_ref t = sr then clear_client t else t) (dead srv)"
  proof (cases "s_client s")
    case None
    have "(if s_ref t = sr then clear_client t else t) = t" if "t \<in> set (sessions srv @ dead srv)" for t
      using sess_at_mem[of srv t] inv that s None by (auto simp: srv_inv_def)
    then show ?thesis using None s by (simp add: detach_client_def map_idI)
  next
    case (Some cr)
    then obtain c where "conn_at srv cr = Some c" using client_linked[OF inv s] by blast
    from unlink_lists[OF this s] show ?thesis using s Some by (simp add: detach_client_def)
  qed
  then show "sessions (detach_client sr srv) = map (\<lambda>t. if s_ref t = sr then clear_client t else t) (sessions srv)"
    "dead (detach_client sr srv) = map (\<lambda>t. if s_ref t = sr then clear_client t else t) (dead srv)" by auto
  then show "map s_ref (sessions (detach_client sr srv)) = map s_ref (sessions srv)" by auto
qed

section \<open>Collecting groups\<close>

lemma remove_first_set: "set (remove_first P xs) \<subseteq> set xs"
  by (induction xs) auto

lemma remove_first_length: "length (remove_first P xs) \<le> length xs"
  by (induction xs) auto

lemma remove_first_other: "x \<in> set xs \<Longrightarrow> \<not> P x \<Longrightarrow> x \<in> set (remove_first P xs)"
  by (induction xs) auto

lemma remove_first_distinct: "distinct (map f xs) \<Longrightarrow> distinct (map f (remove_first P xs))"
proof (induction xs)
  case (Cons x xs)
  then show ?case using remove_first_set[of P xs] by auto
qed simp

lemma remove_first_none: "find P xs = None \<Longrightarrow> remove_first P xs = xs"
  by (induction xs) (auto split: if_splits)

lemma gc_groups:
  "groups (gc_group_if_empty gid srv) =
     (if gid \<noteq> 0 \<and> count_group_members srv gid = 0
      then remove_first (\<lambda>g. g_id g = gid) (groups srv) else groups srv)"
  unfolding gc_group_if_empty_def unlink_group_def find_group_def word_gt_0
  by (auto simp: remove_first_none split: option.split)

text \<open>A u32 count of 0 means no member as long as there are fewer than 2^32 sessions.\<close>

lemma few_ids_length: "srv_inv srv \<Longrightarrow> few_ids srv \<Longrightarrow> length (sessions srv) < 2 ^ 32"
  by (simp add: srv_inv_def inv_groups_def few_ids_def)

lemma count_members_0:
  assumes "length (sessions srv) < 2 ^ 32"
  shows "count_group_members srv gid = 0 \<longleftrightarrow> (\<forall>s \<in> set (sessions srv). \<not> session_in_group s gid)"
proof -
  let ?ms = "filter (\<lambda>s. session_in_group s gid) (sessions srv)"
  have "length ?ms < 2 ^ 32" using assms length_filter_le le_less_trans by blast
  then have "unat (word_of_nat (length ?ms) :: u32) = length ?ms" by (rule of_nat_u32)
  moreover have "unat (word_of_nat (length ?ms) :: u32) = 0 \<longleftrightarrow> (word_of_nat (length ?ms) :: u32) = 0"
    by (rule unat_eq_zero)
  ultimately have "count_group_members srv gid = 0 \<longleftrightarrow> ?ms = []"
    unfolding count_group_members_def by simp
  then show ?thesis by (simp add: filter_empty_conv)
qed

lemma count_members_0_inv:
  assumes "srv_inv srv" and "few_ids srv"
  shows "count_group_members srv gid = 0 \<longleftrightarrow> (\<forall>s \<in> set (sessions srv). \<not> session_in_group s gid)"
  by (rule count_members_0[OF few_ids_length[OF assms]])

lemma ids_below_sub:
  "ids_below n is \<Longrightarrow> (distinct is \<Longrightarrow> distinct js) \<Longrightarrow> set js \<subseteq> set is \<Longrightarrow> ids_below n js"
  unfolding ids_below_def by blast

lemma ids_below_remove_first: "ids_below n (map f xs) \<Longrightarrow> ids_below n (map f (remove_first P xs))"
  using remove_first_set[of P xs] remove_first_distinct[of f xs P]
  by (elim ids_below_sub) auto

lemma gc_inv:
  assumes refs: "inv_refs srv" and objs: "inv_objs srv" and links: "slinks srv = clinks srv"
    and ids: "inv_ids srv" and len: "length (groups srv) \<le> EPI_GROUP_MAX" "length (sessions srv) \<le> ids_issued srv"
    and grp: "few_ids srv \<Longrightarrow> \<forall>s \<in> set (sessions srv). \<not> s_removed s \<longrightarrow>
        s_group_id s = 0 \<or> s_group_id s \<in> g_id ` set (groups srv)"
  shows "srv_inv (gc_group_if_empty gid srv)"
proof -
  let ?g = "gc_group_if_empty gid srv"
  have sub: "set (groups ?g) \<subseteq> set (groups srv)" unfolding gc_groups by (auto dest!: subsetD[OF remove_first_set])
  have "length (groups ?g) \<le> EPI_GROUP_MAX"
    unfolding gc_groups using le_trans[OF remove_first_length len(1)] len(1) by simp
  moreover have "\<forall>s \<in> set (sessions ?g). \<not> s_removed s \<longrightarrow>
      s_group_id s = 0 \<or> s_group_id s \<in> g_id ` set (groups ?g)" if few: "few_ids ?g"
  proof (intro ballI impI)
    fix s assume s: "s \<in> set (sessions ?g)" "\<not> s_removed s"
    have few': "length (sessions srv) < 2 ^ 32" "few_ids srv" using few len(2) by (simp_all add: few_ids_def)
    show "s_group_id s = 0 \<or> s_group_id s \<in> g_id ` set (groups ?g)"
    proof (cases "gid \<noteq> 0 \<and> count_group_members srv gid = 0")
      case True
      then have "s_group_id s \<noteq> gid"
        using count_members_0[OF few'(1)] s by (auto simp: session_in_group_def)
      moreover have "s_group_id s = 0 \<or> (\<exists>h \<in> set (groups srv). g_id h = s_group_id s)"
        using grp[OF few'(2)] s by force
      ultimately show ?thesis unfolding gc_groups using True
        using remove_first_other[of _ "groups srv" "\<lambda>g. g_id g = gid"]
        by (simp only: simp_thms if_True) (metis image_eqI)
    next
      case False
      then show ?thesis using grp[OF few'(2)] s unfolding gc_groups by auto
    qed
  qed
  moreover have "inv_objs ?g" using objs sub by (auto simp: inv_objs_def)
  moreover have "ids_below (gids_issued srv) (map g_id (groups ?g))"
    using ids unfolding gc_groups by (auto simp: inv_ids_def ids_below_remove_first)
  ultimately show ?thesis using assms
    by (simp add: srv_inv_def inv_refs_def inv_groups_def inv_ids_def slinks_def clinks_def)
qed

lemma gc_inv' [wf_intros]: "srv_inv srv \<Longrightarrow> srv_inv (gc_group_if_empty gid srv)"
  by (rule gc_inv) (auto simp: srv_inv_def inv_groups_def)

section \<open>Removing a session\<close>

lemma filter_map_other:
  "filter (\<lambda>t. k t \<noteq> i) (map (\<lambda>t. if k t = i then f t else t) xs) = filter (\<lambda>t. k t \<noteq> i) xs"
  if "\<And>t. k (f t) = k t"
  by (induction xs) (auto simp: that)

lemma filter_on_sess:
  assumes "\<And>s. s_ref (fst (f s)) = s_ref s"
  shows "filter (\<lambda>t. s_ref t \<noteq> sr) (sessions (on_sess sr f srv)) = filter (\<lambda>t. s_ref t \<noteq> sr) (sessions srv)"
    and "filter (\<lambda>t. s_ref t \<noteq> sr) (dead (on_sess sr f srv)) = filter (\<lambda>t. s_ref t \<noteq> sr) (dead srv)"
  by (cases "sess_at srv sr";
      simp add: sess_on_sess sess_on_sess_None filter_map_other[where k = s_ref and f = "\<lambda>t. fst (f t)"] assms)+

text \<open>The state just before the group is collected, in terms of the state at the start.\<close>

definition bury :: "nat \<Rightarrow> epi_server \<Rightarrow> epi_server" where
  "bury sr srv =
     srv\<lparr>sessions := filter (\<lambda>t. s_ref t \<noteq> sr) (sessions srv),
         dead := (the (sess_at srv sr))\<lparr>s_defunct := True\<rparr> # dead srv\<rparr>"

lemma bury_inv:
  assumes inv: "srv_inv srv" and s: "sess_at srv sr = Some s" "\<not> s_defunct s"
    and closed: "s_client s = None" "s_pty_master s < 0"
  shows "srv_inv (gc_group_if_empty gid (bury sr srv))"
proof (rule gc_inv)
  have live: "s \<in> set (sessions srv)" "s_ref s = sr" using sess_at_cases[OF inv s(1)] s(2) by auto
  have b: "sessions (bury sr srv) = filter (\<lambda>t. s_ref t \<noteq> sr) (sessions srv)"
    "dead (bury sr srv) = s\<lparr>s_defunct := True\<rparr> # dead srv" "conns (bury sr srv) = conns srv"
    "groups (bury sr srv) = groups srv" "next_ref (bury sr srv) = next_ref srv"
    "next_id (bury sr srv) = next_id srv" "next_group_id (bury sr srv) = next_group_id srv"
    "ids_issued (bury sr srv) = ids_issued srv" "gids_issued (bury sr srv) = gids_issued srv"
    using s(1) by (simp_all add: bury_def)
  have refs: "inv_refs srv" and objs: "inv_objs srv" and grps: "inv_groups srv" and ids: "inv_ids srv"
    and links: "slinks srv = clinks srv" using inv by (auto simp: srv_inv_def)
  have nd: "s_ref t \<noteq> sr" if "t \<in> set (dead srv)" for t
    using sess_at_mem[OF refs, of t] that s objs by (auto simp: inv_objs_def)
  have sub: "distinct (map s_ref (filter (\<lambda>t. s_ref t \<noteq> sr) (sessions srv) @ dead srv))"
    using refs by (auto simp: inv_refs_def distinct_map_filter)
  show "inv_refs (bury sr srv)"
    using refs sub nd live unfolding inv_refs_def b by auto
  have "sess_ok s" using live_at(2)[OF inv live(1)] .
  then show "inv_objs (bury sr srv)"
    using objs closed unfolding inv_objs_def b by (auto simp: sess_ok_def pin_ok_def)
  have "slinks (bury sr srv) = slinks srv"
  proof (rule set_eqI, clarify)
    fix a cr
    have "t = s" if "t \<in> set (sessions srv)" "s_ref t = sr" for t
      using live_at(1)[OF inv that(1)] that(2) s(1) by simp
    then show "(a, cr) \<in> slinks (bury sr srv) \<longleftrightarrow> (a, cr) \<in> slinks srv"
      unfolding in_slinks b using closed(1) by auto
  qed
  then show "slinks (bury sr srv) = clinks (bury sr srv)" using links by (simp add: clinks_def b)
  show "inv_ids (bury sr srv)"
    using ids unfolding inv_ids_def b
    by (auto elim!: ids_below_sub[of _ "map s_id (sessions srv)"] simp: distinct_map_filter)
  show "length (groups (bury sr srv)) \<le> EPI_GROUP_MAX" using grps by (simp add: inv_groups_def b)
  show "length (sessions (bury sr srv)) \<le> ids_issued (bury sr srv)"
    using grps by (auto simp: inv_groups_def b intro: le_trans[OF length_filter_le])
  assume "few_ids (bury sr srv)"
  then show "\<forall>t \<in> set (sessions (bury sr srv)). \<not> s_removed t \<longrightarrow>
      s_group_id t = 0 \<or> s_group_id t \<in> g_id ` set (groups (bury sr srv))"
    using grps by (simp add: inv_groups_def b few_ids_def)
qed

definition strip :: "epi_session \<Rightarrow> epi_session" where
  "strip s = s\<lparr>s_client := None, s_pty_master := (if 0 \<le> s_pty_master s then -1 else s_pty_master s)\<rparr>"

text \<open>Removal is: break the link, close the master, bury, collect the group.\<close>

lemma remove_session_steps:
  assumes inv: "srv_inv srv" and s: "sess_at srv sr = Some s" "\<not> s_defunct s"
  shows "\<exists>srv2. remove_session sr srv = gc_group_if_empty (s_group_id s) (bury sr srv2) \<and>
     srv_inv srv2 \<and> sess_at srv2 sr = Some (strip s) \<and>
     filter (\<lambda>t. s_ref t \<noteq> sr) (sessions srv2) = filter (\<lambda>t. s_ref t \<noteq> sr) (sessions srv) \<and>
     filter (\<lambda>t. s_ref t \<noteq> sr) (dead srv2) = filter (\<lambda>t. s_ref t \<noteq> sr) (dead srv) \<and>
     groups srv2 = groups srv \<and> next_ref srv2 = next_ref srv \<and> ids_issued srv2 = ids_issued srv \<and>
     gids_issued srv2 = gids_issued srv \<and> next_id srv2 = next_id srv \<and> map c_ref (conns srv2) = map c_ref (conns srv)"
proof -
  define srv1 where "srv1 = (case s_client s of None \<Rightarrow> srv
    | Some cr \<Rightarrow> on_sess sr (quiet (\<lambda>s. clear_client s)) (on_conn cr conn_drop srv))"
  define srv2 where "srv2 = (if 0 \<le> s_pty_master s
    then on_sess sr (\<lambda>s. (s\<lparr>s_pty_master := -1\<rparr>, [Close (s_pty_master s)])) (ep_del (s_pty_master s) srv1)
    else srv1)"
  have r: "remove_session sr srv = gc_group_if_empty (s_group_id s) (bury sr srv2)"
    using s by (simp add: remove_session_def srv1_def[symmetric] srv2_def[symmetric] bury_def Let_def)
  have inv1: "srv_inv srv1"
    using inv unlink_orders_inv(2)[OF inv s(1)] by (simp add: srv1_def split: option.split)
  have at1: "sess_at srv1 sr = Some (clear_client s)"
    using s(1) by (auto simp: srv1_def sess_at_on_sess quiet_def split: option.split)
  have crefs: "map c_ref (conns (on_conn cr conn_drop srv)) = map c_ref (conns srv)" for cr
    by (cases "conn_at srv cr") (auto simp: conns_on_conn conns_on_conn_None)
  have inv2: "srv_inv srv2"
    unfolding srv2_def using inv1
    by (auto intro!: on_sess_keep simp: sess_ok_def pin_ok_def)
  have at2: "sess_at srv2 sr = Some (strip s)"
    using at1 by (auto simp: srv2_def strip_def sess_at_on_sess)
  have "filter (\<lambda>t. s_ref t \<noteq> sr) (sessions srv2) = filter (\<lambda>t. s_ref t \<noteq> sr) (sessions srv)"
    "filter (\<lambda>t. s_ref t \<noteq> sr) (dead srv2) = filter (\<lambda>t. s_ref t \<noteq> sr) (dead srv)"
    "groups srv2 = groups srv" "next_ref srv2 = next_ref srv" "ids_issued srv2 = ids_issued srv"
    "gids_issued srv2 = gids_issued srv" "next_id srv2 = next_id srv"
    "map c_ref (conns srv2) = map c_ref (conns srv)"
    by (simp_all add: srv2_def srv1_def filter_on_sess quiet_def crefs split: option.split)
  then show ?thesis using r inv2 at2 by blast
qed

lemma remove_inv [wf_intros]:
  assumes inv: "srv_inv srv"
  shows "srv_inv (remove_session sr srv)"
proof (cases "\<exists>s. sess_at srv sr = Some s \<and> \<not> s_defunct s")
  case True
  then obtain s where s: "sess_at srv sr = Some s" "\<not> s_defunct s" by blast
  from remove_session_steps[OF inv s] obtain srv2 where
    2: "remove_session sr srv = gc_group_if_empty (s_group_id s) (bury sr srv2)"
      "srv_inv srv2" "sess_at srv2 sr = Some (strip s)" by blast
  show ?thesis unfolding 2(1) by (rule bury_inv[OF 2(2,3)]) (simp_all add: strip_def s)
next
  case False
  then show ?thesis using inv by (auto simp: remove_session_def split: option.split)
qed

end
