(* ===== verification/Server_Updates.thy ===== *)
theory Server_Updates
  imports Server_Links
begin

text \<open>
  The remaining state changes, each with the proof that it keeps the invariant: attaching,
  accepting and closing connections, creating sessions and groups, moving a session between
  groups, replacing a blob, reaping, kill deadlines and the end of a batch.
\<close>

section \<open>Attaching a client\<close>

definition attach_link :: "nat \<Rightarrow> nat \<Rightarrow> epi_server \<Rightarrow> epi_server" where
  "attach_link sr cr srv =
     on_sess sr (quiet (\<lambda>s. s\<lparr>s_client := Some cr\<rparr>))
       (on_conn cr (quiet (\<lambda>c. c\<lparr>c_is_data := True, c_session := Some sr\<rparr>)) srv)"

lemma attach_inv:
  assumes inv: "srv_inv srv" and s: "sess_at srv sr = Some s" "s_client s = None" "\<not> s_removed s" "\<not> s_defunct s"
    and c: "conn_at srv cr = Some c" "c_session c = None"
  shows "srv_inv (attach_link sr cr srv)"
proof -
  let ?f = "\<lambda>s. s\<lparr>s_client := Some cr\<rparr>" and ?g = "\<lambda>c. c\<lparr>c_is_data := True, c_session := Some sr\<rparr>"
  let ?srv = "attach_link sr cr srv"
  have s': "sess_at (on_conn cr (quiet ?g) srv) sr = Some s" using s(1) by simp
  define F where "F t = (if s_ref t = sr then ?f t else t)" for t :: epi_session
  define G where "G d = (if c_ref d = cr then ?g d else d)" for d :: connection
  have lists: "sessions ?srv = map F (sessions srv)" "dead ?srv = map F (dead srv)"
    "conns ?srv = map G (conns srv)"
    by (simp_all only: attach_link_def sess_on_sess[OF s'] conns_on_conn[OF c(1)] on_sess_frame on_conn_frame
        quiet_def fst_conv F_def[abs_def] G_def[abs_def])
  have same: "groups ?srv = groups srv" "next_ref ?srv = next_ref srv" "next_id ?srv = next_id srv"
    "next_group_id ?srv = next_group_id srv" "ids_issued ?srv = ids_issued srv" "gids_issued ?srv = gids_issued srv"
    by (simp_all add: attach_link_def)
  have refs: "inv_refs srv" and links: "slinks srv = clinks srv" using inv by (auto simp: srv_inv_def)
  have here: "t = s" if "t \<in> set (sessions srv @ dead srv)" "s_ref t = sr" for t
    using sess_at_mem[OF refs that(1)] that(2) s(1) by simp
  have there: "d = c" if "d \<in> set (conns srv)" "c_ref d = cr" for d
    using conn_at_mem[OF refs that(1)] that(2) c(1) by simp
  have F: "s_ref (F t) = s_ref t" "s_id (F t) = s_id t" "s_removed (F t) = s_removed t"
    "s_group_id (F t) = s_group_id t" "s_defunct (F t) = s_defunct t"
    "s_client (F t) = (if s_ref t = sr then Some cr else s_client t)" for t
    by (simp_all add: F_def)
  have G: "c_ref (G d) = c_ref d" "c_session (G d) = (if c_ref d = cr then Some sr else c_session d)" for d
    by (simp_all add: G_def)
  have keys: "map s_ref (map F xs) = map s_ref xs" "map s_id (map F xs) = map s_id xs"
    "map c_ref (map G ys) = map c_ref ys" for xs ys
    by (simp_all add: F G)
  have mem: "s \<in> set (sessions srv @ dead srv)" "s_ref s = sr" "c \<in> set (conns srv)" "c_ref c = cr"
    using sess_atD[OF s(1)] conn_atD[OF c(1)] by auto
  have "(a, b) \<in> slinks ?srv \<longleftrightarrow> (a, b) \<in> slinks srv \<or> a = sr \<and> b = cr" for a b
  proof -
    have "(a, b) \<in> slinks ?srv \<longleftrightarrow> (\<exists>t \<in> set (sessions srv @ dead srv). s_ref t = a \<and>
        (if s_ref t = sr then Some cr else s_client t) = Some b)"
      unfolding in_slinks lists map_append[symmetric] set_map bex_simps F ..
    then show ?thesis unfolding in_slinks using here mem(1,2) s(2) by fastforce
  qed
  moreover have "(a, b) \<in> clinks ?srv \<longleftrightarrow> (a, b) \<in> clinks srv \<or> a = sr \<and> b = cr" for a b
  proof -
    have "(a, b) \<in> clinks ?srv \<longleftrightarrow> (\<exists>d \<in> set (conns srv). c_ref d = b \<and>
        (if c_ref d = cr then Some sr else c_session d) = Some a)"
      unfolding in_clinks lists set_map bex_simps G ..
    then show ?thesis unfolding in_clinks using there mem(3,4) c(2) by fastforce
  qed
  ultimately have "slinks ?srv = clinks ?srv" unfolding set_eq_iff using links by auto
  moreover have "inv_refs ?srv"
    using refs unfolding inv_refs_def lists same map_append keys by (auto simp: F G)
  moreover have "inv_objs ?srv"
  proof -
    have objs: "inv_objs srv" using inv by (simp add: srv_inv_def)
    have so: "sess_ok (F t)" if "t \<in> set (sessions srv @ dead srv)" for t
    proof (cases "s_ref t = sr")
      case True
      then show ?thesis using here[OF that True] sess_at_cases(1)[OF inv s(1)] s(3,4)
        by (simp add: F_def sess_ok_def pin_ok_def)
    next
      case False
      then show ?thesis using objs that by (auto simp: F_def inv_objs_def)
    qed
    have co: "conn_ok (G d)" if "d \<in> set (conns srv)" for d
      using objs that by (auto simp: inv_objs_def conn_ok_def G_def)
    show ?thesis using objs so co unfolding inv_objs_def lists same set_map by (auto simp: F)
  qed
  moreover have "inv_groups ?srv"
    using inv unfolding srv_inv_def inv_groups_def few_ids_def lists same set_map ball_simps F length_map by blast
  moreover have "inv_ids ?srv"
    using inv unfolding srv_inv_def inv_ids_def lists same keys by blast
  ultimately show ?thesis by (simp add: srv_inv_def)
qed

section \<open>Connections\<close>

lemma new_conn_inv:
  assumes inv: "srv_inv srv"
  shows "srv_inv (srv\<lparr>conns := new_conn (next_ref srv) fd # conns srv, next_ref := next_ref srv + 1\<rparr>)"
proof -
  have "c_ref c \<noteq> next_ref srv" if "c \<in> set (conns srv)" for c
    using inv that by (auto simp: srv_inv_def inv_refs_def)
  then show ?thesis using inv
    by (auto simp: srv_inv_def inv_refs_def inv_objs_def slinks_def clinks_def inv_groups_def inv_ids_def
        few_ids_def new_conn_def conn_ok_def less_Suc_eq)
qed

lemma conn_close_inv [wf_intros]:
  assumes inv: "srv_inv srv"
  shows "srv_inv (conn_close cr srv)"
proof (cases "conn_at srv cr")
  case None
  then show ?thesis using inv by (simp add: conn_close_def)
next
  case (Some c)
  let ?srv = "conn_close cr srv" and ?f = "\<lambda>s. if s_client s = Some cr then clear_client s else s"
  have refs: "inv_refs srv" and links: "slinks srv = clinks srv" using inv by (auto simp: srv_inv_def)
  have there: "d = c" if "d \<in> set (conns srv)" "c_ref d = cr" for d
    using conn_at_mem[OF refs that(1)] that(2) Some by simp
  have only: "c_session c = Some a" if "(a, cr) \<in> slinks srv" for a
    using that there unfolding links in_clinks by auto
  have lists: "sessions ?srv = map ?f (sessions srv) \<and> dead ?srv = map ?f (dead srv)"
  proof (cases "c_session c")
    case None
    have "?f t = t" if "t \<in> set (sessions srv @ dead srv)" for t
      using only[of "s_ref t"] that None unfolding in_slinks by auto
    then show ?thesis using Some None by (simp add: conn_close_def map_idI)
  next
    case (Some sr)
    obtain s where s: "sess_at srv sr = Some s" "s_client s = Some cr"
      using session_linked[OF inv \<open>conn_at srv cr = Some c\<close> Some] by blast
    have at: "s_ref t = sr" if "t \<in> set (sessions srv @ dead srv)" "s_client t = Some cr" for t
      using only[of "s_ref t"] that Some unfolding in_slinks by auto
    have "(if s_ref t = sr then fst (quiet ?f t) else t) = ?f t" if "t \<in> set (sessions srv @ dead srv)" for t
      using at[OF that] by (auto simp: quiet_def)
    moreover have "sessions ?srv = sessions (on_sess sr (quiet ?f) srv) \<and> dead ?srv = dead (on_sess sr (quiet ?f) srv)"
      using \<open>conn_at srv cr = Some c\<close> Some by (simp add: conn_close_def Let_def)
    ultimately show ?thesis unfolding sess_on_sess[OF s(1)] by (auto intro!: map_cong)
  qed
  have cs: "conns ?srv = filter (\<lambda>d. c_ref d \<noteq> cr) (conns srv)"
    and same: "groups ?srv = groups srv" "next_ref ?srv = next_ref srv" "next_id ?srv = next_id srv"
    "next_group_id ?srv = next_group_id srv" "ids_issued ?srv = ids_issued srv" "gids_issued ?srv = gids_issued srv"
    using Some by (simp_all add: conn_close_def Let_def split: option.split)
  have keys: "map s_ref (map ?f xs) = map s_ref xs" "map s_id (map ?f xs) = map s_id xs" for xs by auto
  have "slinks ?srv = {p \<in> slinks srv. snd p \<noteq> cr}"
  proof (rule set_eqI, clarify)
    fix a b
    have "(a, b) \<in> slinks ?srv \<longleftrightarrow>
      (\<exists>t \<in> set (sessions srv @ dead srv). s_ref (?f t) = a \<and> s_client (?f t) = Some b)"
      unfolding in_slinks lists[THEN conjunct1] lists[THEN conjunct2] map_append[symmetric] set_map bex_simps ..
    moreover have "s_ref (?f t) = s_ref t" "s_client (?f t) = Some b \<longleftrightarrow> s_client t = Some b \<and> b \<noteq> cr" for t
      by auto
    ultimately show "(a, b) \<in> slinks ?srv \<longleftrightarrow> (a, b) \<in> {p \<in> slinks srv. snd p \<noteq> cr}"
      unfolding mem_Collect_eq snd_conv in_slinks[of a b srv] by auto
  qed
  moreover have "clinks ?srv = {p \<in> clinks srv. snd p \<noteq> cr}"
    unfolding clinks_def cs by auto
  moreover have "inv_refs ?srv"
    using refs unfolding inv_refs_def lists[THEN conjunct1] lists[THEN conjunct2] same cs map_append keys
    by (auto simp: distinct_map_filter)
  moreover have "inv_objs ?srv"
    using inv lists unfolding srv_inv_def inv_objs_def same cs by (auto simp: sess_ok_def pin_ok_def)
  moreover have "inv_groups ?srv"
    using inv lists unfolding srv_inv_def inv_groups_def few_ids_def same by auto
  moreover have "inv_ids ?srv"
    using inv unfolding srv_inv_def inv_ids_def same lists[THEN conjunct1] keys by simp
  ultimately show ?thesis using links by (simp add: srv_inv_def)
qed

lemma accept_inv [wf_intros]: "srv_inv srv \<Longrightarrow> srv_inv (accept_conn as srv)"
proof (induction as srv rule: accept_conn.induct)
  case (5 fd a ok as srv)
  let ?srv1 = "srv\<lparr>conns := new_conn (next_ref srv) fd # conns srv, next_ref := next_ref srv + 1\<rparr>"
  obtain srv2 rc where ep: "ep_add ok fd ?srv1 = (srv2, rc)" by (cases "ep_add ok fd ?srv1")
  have 2: "srv_inv srv2" using new_conn_inv[OF 5(3), of fd] ep
    by (metis fst_conv srv_inv_quiet(4))
  show ?case
  proof (cases "a sizeof_connection = None")
    case True
    then show ?thesis using 5 by simp
  next
    case False
    have "srv_inv (if rc \<noteq> 0 then conn_close (next_ref srv) srv2 else srv2)"
      using 2 conn_close_inv by simp
    from 5(2)[OF False refl refl ep[symmetric] this] show ?thesis
      using False ep by (auto simp: Let_def)
  qed
qed simp_all

section \<open>Creating\<close>

lemma word_Suc: "(word_of_nat n + 1 :: u64) = word_of_nat (Suc n)"
  by simp

lemma ids_below_new:
  assumes "ids_below n is" and "i = word_of_nat (Suc n)"
  shows "ids_below (Suc n) (i # is)"
proof -
  have "unat i = Suc n" if "Suc n < 2 ^ 64" unfolding assms(2) using that
    by (subst unat_of_nat) simp
  then show ?thesis using assms(1) by (fastforce simp: ids_below_def)
qed

text \<open>A new session at the head of the list, under the next id and address.\<close>

lemma insert_session_inv:
  assumes inv: "srv_inv srv" and s: "s_ref s = next_ref srv" "s_id s = next_id srv + 1" "s_client s = None"
    "s_group_id s = 0" "\<not> s_defunct s" "sess_ok s"
  shows "srv_inv (srv\<lparr>next_id := next_id srv + 1, ids_issued := ids_issued srv + 1,
           next_ref := next_ref srv + 1, sessions := s # sessions srv\<rparr>)"
    (is "srv_inv ?srv")
proof -
  have parts: "inv_refs srv" "inv_objs srv" "slinks srv = clinks srv" "inv_groups srv" "inv_ids srv"
    using inv by (auto simp: srv_inv_def)
  have "s_ref t < next_ref srv" if "t \<in> set (sessions srv @ dead srv)" for t
    using parts(1) that by (auto simp: inv_refs_def)
  then have fresh: "s_ref t \<noteq> next_ref srv" if "t \<in> set (sessions srv @ dead srv)" for t
    using that by force
  have "slinks ?srv = slinks srv" using s(3) by (auto simp: slinks_def)
  moreover have "clinks ?srv = clinks srv" by (simp add: clinks_def)
  moreover have "inv_refs ?srv" using parts(1) fresh s(1) by (auto simp: inv_refs_def less_Suc_eq)
  moreover have "inv_objs ?srv" using parts(2) s by (simp add: inv_objs_def)
  moreover have "inv_groups ?srv" using parts(4) s(4) by (simp add: inv_groups_def few_ids_def)
  moreover have "inv_ids ?srv"
    using parts(5) ids_below_new[of "ids_issued srv" "map s_id (sessions srv)" "s_id s"] s(2)
    by (simp add: inv_ids_def)
  ultimately show ?thesis using parts(3) by (simp add: srv_inv_def)
qed

lemma insert_group_inv:
  assumes inv: "srv_inv srv" and g: "g_id g = next_group_id srv + 1" "group_wf g"
    and room: "length (groups srv) < EPI_GROUP_MAX"
  shows "srv_inv (srv\<lparr>next_group_id := next_group_id srv + 1, gids_issued := gids_issued srv + 1,
           groups := g # groups srv\<rparr>)"
    (is "srv_inv ?srv")
proof -
  have parts: "inv_refs srv" "inv_objs srv" "slinks srv = clinks srv" "inv_groups srv" "inv_ids srv"
    using inv by (auto simp: srv_inv_def)
  have "slinks ?srv = slinks srv" "clinks ?srv = clinks srv" by (simp_all add: slinks_def clinks_def)
  moreover have "inv_refs ?srv" using parts(1) by (simp add: inv_refs_def)
  moreover have "inv_objs ?srv" using parts(2) g(2) by (simp add: inv_objs_def)
  moreover have "inv_groups ?srv" using parts(4) room by (auto simp: inv_groups_def few_ids_def)
  moreover have "inv_ids ?srv"
    using parts(5) ids_below_new[of "gids_issued srv" "map g_id (groups srv)" "g_id g"] g(1)
    by (simp add: inv_ids_def)
  ultimately show ?thesis using parts(3) by (simp add: srv_inv_def)
qed

section \<open>Groups\<close>

lemma update_first_map: "(\<And>x. x \<in> set xs \<Longrightarrow> P x \<Longrightarrow> k (f x) = k x) \<Longrightarrow> map k (update_first P f xs) = map k xs"
  by (induction xs) auto

lemma update_first_set: "set (update_first P (\<lambda>_. y) xs) \<subseteq> insert y (set xs)"
  by (induction xs) auto

lemma update_first_length [simp]: "length (update_first P f xs) = length xs"
  by (induction xs) auto

lemma update_group_inv:
  assumes inv: "srv_inv srv" and g: "g_id g = gid" "group_wf g"
  shows "srv_inv (srv\<lparr>groups := update_first (\<lambda>h. g_id h = gid) (\<lambda>_. g) (groups srv)\<rparr>)"
    (is "srv_inv ?srv")
proof -
  have parts: "inv_refs srv" "inv_objs srv" "slinks srv = clinks srv" "inv_groups srv" "inv_ids srv"
    using inv by (auto simp: srv_inv_def)
  have keys: "map g_id (groups ?srv) = map g_id (groups srv)"
    using g(1) by (simp add: update_first_map)
  then have ids: "g_id ` set (groups ?srv) = g_id ` set (groups srv)" by (metis set_map)
  have "slinks ?srv = slinks srv" "clinks ?srv = clinks srv" by (simp_all add: slinks_def clinks_def)
  moreover have "inv_refs ?srv" using parts(1) by (simp add: inv_refs_def)
  moreover have "inv_objs ?srv"
    using parts(2) g(2) update_first_set[of "\<lambda>h. g_id h = gid" g "groups srv"] by (auto simp: inv_objs_def)
  moreover have "inv_groups ?srv"
    using parts(4) unfolding inv_groups_def ids few_ids_def by simp
  moreover have "inv_ids ?srv" using parts(5) keys by (simp add: inv_ids_def)
  ultimately show ?thesis using parts(3) by (simp add: srv_inv_def)
qed

text \<open>Moving a session to an existing group or to none.\<close>

lemma set_group_inv:
  assumes inv: "srv_inv srv" and gid: "gid = 0 \<or> gid \<in> g_id ` set (groups srv)"
  shows "srv_inv (on_sess sr (quiet (\<lambda>s. s\<lparr>s_group_id := gid\<rparr>)) srv)"
  using gid sess_at_cases(1)[OF inv]
  by (intro on_sess_inv[OF inv]) (auto simp: quiet_def sess_ok_def pin_ok_def)

section \<open>Reaping and deadlines\<close>

lemma reap_dead_inv [wf_intros]:
  assumes inv: "srv_inv srv"
  shows "srv_inv (reap_dead_sessions srv)"
proof -
  have none: "s_client s = None" if "s \<in> set (dead srv)" for s
    using inv that by (auto simp: srv_inv_def inv_objs_def sess_ok_def)
  have "srv_inv (srv\<lparr>dead := []\<rparr>)"
  proof -
    have "slinks (srv\<lparr>dead := []\<rparr>) = slinks srv" using none by (force simp: slinks_def)
    then show ?thesis using inv
      by (auto simp: srv_inv_def inv_refs_def inv_objs_def inv_groups_def inv_ids_def clinks_def few_ids_def)
  qed
  then show ?thesis by (simp add: reap_dead_sessions_def)
qed

lemma escalate_fields:
  "s_ref (fst (escalate clk s)) = s_ref s" "s_id (fst (escalate clk s)) = s_id s"
  "s_client (fst (escalate clk s)) = s_client s" "s_removed (fst (escalate clk s)) = s_removed s"
  "s_group_id (fst (escalate clk s)) = s_group_id s" "s_defunct (fst (escalate clk s)) = s_defunct s"
  "sess_ok s \<Longrightarrow> sess_ok (fst (escalate clk s))"
  by (auto simp: escalate_def sess_ok_def pin_ok_def)

lemma deadlines_inv [wf_intros]:
  assumes inv: "srv_inv srv"
  shows "srv_inv (process_kill_deadlines clk srv)"
proof -
  let ?f = "\<lambda>s. fst (escalate clk s)"
  let ?srv = "srv\<lparr>sessions := map ?f (sessions srv)\<rparr>"
  have parts: "inv_refs srv" "inv_objs srv" "slinks srv = clinks srv" "inv_groups srv" "inv_ids srv"
    using inv by (auto simp: srv_inv_def)
  have keys: "map s_ref (map ?f xs) = map s_ref xs" "map s_id (map ?f xs) = map s_id xs" for xs
    by (simp_all add: escalate_fields)
  have "(a, b) \<in> slinks ?srv \<longleftrightarrow> (a, b) \<in> slinks srv" for a b
  proof -
    have "set (sessions ?srv @ dead ?srv) = ?f ` set (sessions srv) \<union> set (dead srv)" by simp
    then show ?thesis unfolding in_slinks by (simp only: bex_Un bex_simps set_append escalate_fields)
  qed
  then have "slinks ?srv = slinks srv" by auto
  moreover have "clinks ?srv = clinks srv" by (simp add: clinks_def)
  moreover have "inv_refs ?srv"
    using parts(1) unfolding inv_refs_def by (auto simp: comp_def escalate_fields)
  moreover have "inv_objs ?srv" using parts(2) by (auto simp: inv_objs_def escalate_fields)
  moreover have "inv_groups ?srv"
    using parts(4) by (simp add: inv_groups_def few_ids_def escalate_fields)
  moreover have "inv_ids ?srv" using parts(5) keys by (simp add: inv_ids_def comp_def escalate_fields)
  ultimately have "srv_inv ?srv" using parts(3) by (simp add: srv_inv_def)
  then show ?thesis by (simp add: process_kill_deadlines_def)
qed

lemma reap_child_inv [wf_intros]:
  assumes inv: "srv_inv srv"
  shows "srv_inv (reap_child pid status srv)"
proof -
  have "srv_inv (on_sess sr (quiet (\<lambda>s. s\<lparr>s_alive := False, s_exit_status := status\<rparr>)) srv)" for sr
    by (rule on_sess_keep[OF inv]) (auto simp: quiet_def sess_ok_def pin_ok_def)
  then show ?thesis using inv by (auto simp: reap_child_def Let_def intro!: remove_inv split: option.split)
qed

lemma reap_children_inv [wf_intros]: "srv_inv srv \<Longrightarrow> srv_inv (reap_children ps srv)"
  by (induction ps srv rule: reap_children.induct) (auto intro: wf_intros)

lemma signalfd_inv [wf_intros]: "srv_inv srv \<Longrightarrow> srv_inv (handle_signalfd sigs srv)"
  by (induction sigs srv rule: handle_signalfd.induct) (auto intro: wf_intros)

end
