(* ===== verification/Server_Buffers.thy ===== *)
theory Server_Buffers
  imports Server_Updates
begin

text \<open>
  The outbound buffer of a connection as a queue of bytes: queueing appends, flushing takes
  from the front, and both leave the rest of the connection alone.
\<close>

definition out_bytes :: "connection \<Rightarrow> byte list" where
  "out_bytes c = bytes_at (c_wpos c) (c_wlen c - c_wpos c) (c_wbuf c)"

text \<open>Everything but the outbound buffer and the wish to close stays.\<close>

definition same_conn :: "connection \<Rightarrow> connection \<Rightarrow> bool" where
  "same_conn c c' \<longleftrightarrow>
     c_ref c' = c_ref c \<and> c_fd c' = c_fd c \<and> c_is_data c' = c_is_data c \<and> c_session c' = c_session c \<and>
     c_rbuf c' = c_rbuf c \<and> c_rlen c' = c_rlen c \<and> c_rcap c' = c_rcap c \<and>
     (c_want_close c \<longrightarrow> c_want_close c')"

lemma same_conn_refl [simp]: "same_conn c c"
  by (simp add: same_conn_def)

lemma same_conn_trans: "same_conn c d \<Longrightarrow> same_conn d e \<Longrightarrow> same_conn c e"
  by (auto simp: same_conn_def)

lemma front_of_blit: "length src = n \<Longrightarrow> bytes_at 0 n (blit dst 0 src) = src"
  by (auto simp: bytes_at_def blit_def)

lemma compact_spec:
  "same_conn c (conn_compact c) \<and> c_want_close (conn_compact c) = c_want_close c \<and>
   (conn_ok c \<longrightarrow> conn_ok (conn_compact c) \<and> c_wpos (conn_compact c) = 0 \<and>
      out_bytes (conn_compact c) = out_bytes c)"
proof (cases "0 < c_wpos c")
  case False
  then show ?thesis by (simp add: conn_compact_def)
next
  case True
  let ?live = "bytes_at (c_wpos c) (c_wlen c - c_wpos c) (c_wbuf c)"
  have "conn_ok c \<Longrightarrow> length ?live = c_wlen c - c_wpos c"
    by (rule bytes_at_length) (auto simp: conn_ok_def)
  then show ?thesis using True
    by (auto simp: conn_compact_def same_conn_def conn_ok_def out_bytes_def blit_length front_of_blit)
qed

lemma room_spec:
  "case conn_room a c n of
     None \<Rightarrow> \<not> never_fails a
   | Some c' \<Rightarrow> same_conn c c' \<and> c_want_close c' = c_want_close c \<and> c_wpos c' = c_wpos c \<and> c_wlen c' = c_wlen c \<and>
       (conn_ok c \<longrightarrow> conn_ok c' \<and> out_bytes c' = out_bytes c \<and> c_wlen c + n \<le> length (c_wbuf c'))"
proof -
  let ?nc = "double_until (if c_wcap c \<noteq> 0 then c_wcap c else 4096) (c_wlen c + n)"
  have nc: "c_wlen c + n \<le> ?nc" "c_wcap c \<le> ?nc"
    using double_until_enough double_until_ge[of "c_wcap c"] by auto
  have "out_bytes (c\<lparr>c_wbuf := nd, c_wcap := ?nc\<rparr>) = out_bytes c \<and> length nd = ?nc"
    if "realloc a (c_wbuf c) ?nc = Some nd" "conn_ok c" for nd
  proof -
    have ok: "c_wlen c \<le> length (c_wbuf c)" "length (c_wbuf c) \<le> ?nc" using that(2) nc(2) by (auto simp: conn_ok_def)
    have "take (c_wlen c) nd = take (c_wlen c) (c_wbuf c)"
      using realloc_prefix[OF that(1) ok(2) ok(1)] .
    then show ?thesis using realloc_length[OF that(1)]
      by (auto simp: out_bytes_def bytes_at_def take_drop[symmetric] simp flip: drop_take)
  qed
  then show ?thesis using nc
    by (auto simp: conn_room_def Let_def same_conn_def conn_ok_def split: option.split)
qed

text \<open>Queueing: the bytes are appended, unless memory fails, and then the connection will close.\<close>

lemma queue_spec:
  assumes "conn_ok c"
  shows "conn_ok (conn_queue a data c) \<and> same_conn c (conn_queue a data c) \<and>
     (out_bytes (conn_queue a data c) = out_bytes c @ data \<or>
      out_bytes (conn_queue a data c) = out_bytes c \<and> c_want_close (conn_queue a data c) \<and> \<not> never_fails a)"
proof (cases "data = []")
  case True
  then show ?thesis using assms by (simp add: conn_queue_def)
next
  case False
  define c1 where "c1 = conn_compact c"
  have c1: "same_conn c c1" "conn_ok c1" "c_wpos c1 = 0" "out_bytes c1 = out_bytes c"
    using compact_spec[of c] assms by (auto simp: c1_def)
  show ?thesis
  proof (cases "conn_room a c1 (length data)")
    case None
    then have "conn_queue a data c = c1\<lparr>c_want_close := True\<rparr>"
      using False by (simp add: conn_queue_def c1_def Let_def)
    then show ?thesis using c1 room_spec[of a c1 "length data"] None
      by (auto simp: same_conn_def conn_ok_def out_bytes_def)
  next
    case (Some c2)
    have c2: "same_conn c1 c2" "c_wpos c2 = 0" "conn_ok c2" "out_bytes c2 = out_bytes c1"
      "c_wlen c2 + length data \<le> length (c_wbuf c2)"
      using room_spec[of a c1 "length data"] Some c1 by auto
    let ?c3 = "c2\<lparr>c_wbuf := blit (c_wbuf c2) (c_wlen c2) data, c_wlen := c_wlen c2 + length data\<rparr>"
    have q: "conn_queue a data c =
        (if c_wlen ?c3 - c_wpos ?c3 > MAX_WBUF then ?c3\<lparr>c_want_close := True\<rparr> else ?c3)"
      using False Some unfolding conn_queue_def c1_def[symmetric] Let_def by simp
    have "out_bytes ?c3 = out_bytes c @ data"
      using c2 c1(4) blit_take_all[of "c_wlen c2" "c_wbuf c2" data]
      by (simp add: out_bytes_def bytes_at_def)
    moreover have "conn_ok ?c3" using c2 by (simp add: conn_ok_def blit_length)
    moreover have "same_conn c ?c3" using same_conn_trans[OF c1(1) c2(1)] by (simp add: same_conn_def)
    ultimately show ?thesis unfolding q by (auto simp: same_conn_def conn_ok_def out_bytes_def)
  qed
qed

text \<open>A function on connections that only writes to the outbound buffer.\<close>

definition conn_keep :: "(connection \<Rightarrow> connection) \<Rightarrow> bool" where
  "conn_keep f \<longleftrightarrow> (\<forall>c. same_conn c (f c) \<and> (conn_ok c \<longrightarrow> conn_ok (f c)))"

named_theorems keeps \<open>writers of the outbound buffer\<close>

lemma queue_same: "same_conn c (conn_queue a data c)"
proof -
  have "same_conn (conn_compact c) c2 \<Longrightarrow> same_conn c c2" for c2
    using compact_spec[of c] same_conn_trans by blast
  then show ?thesis using room_spec[of a "conn_compact c" "length data"] compact_spec[of c]
    by (auto simp: conn_queue_def Let_def same_conn_def split: option.split)
qed

lemma queue_keep [keeps]: "conn_keep (conn_queue a data)"
  using queue_spec queue_same by (auto simp: conn_keep_def)

lemma queue_frame_keep [keeps]: "conn_keep (conn_queue_frame a b)"
  using queue_keep by (auto simp: conn_queue_frame_def conn_keep_def)

lemma send_error_keep [keeps]: "conn_keep (send_error a code msg)"
  using queue_frame_keep by (simp add: send_error_def Let_def conn_keep_def)

lemma send_ok_keep [keeps]: "conn_keep (send_ok a)"
  using queue_frame_keep by (simp add: send_ok_def conn_keep_def)

lemma want_close_keep [keeps]: "conn_keep f \<Longrightarrow> conn_keep (\<lambda>c. (f c)\<lparr>c_want_close := True\<rparr>)"
  by (simp add: conn_keep_def same_conn_def conn_ok_def)

lemma close_keep [keeps]: "conn_keep (\<lambda>c. c\<lparr>c_want_close := True\<rparr>)"
  by (simp add: conn_keep_def same_conn_def conn_ok_def)

lemma reply_inv: "conn_keep f \<Longrightarrow> srv_inv srv \<Longrightarrow> srv_inv (reply cr f srv)"
  by (rule on_conn_inv) (auto simp: conn_keep_def same_conn_def quiet_def)

lemma reply_conn_at:
  "conn_keep f \<Longrightarrow> conn_at (reply cr f srv) cr' =
     (if cr' = cr then map_option f (conn_at srv cr) else conn_at srv cr')"
  by (subst conn_at_on_conn) (auto simp: conn_keep_def same_conn_def quiet_def)

section \<open>Flushing\<close>

lemma flush_spec:
  assumes "conn_ok c"
  shows "conn_ok (fst (flush_conn ws c)) \<and> same_conn c (fst (flush_conn ws c)) \<and>
     (\<exists>sent. snd (flush_conn ws c) = (if sent = [] then [] else [Sent (c_fd c) sent]) \<and>
             out_bytes c = sent @ out_bytes (fst (flush_conn ws c)))"
proof -
  obtain off ok where w: "write_loop ws (c_wpos c) (c_wlen c) = (off, ok)" by force
  have pos: "c_wpos c \<le> c_wlen c" "c_wlen c \<le> length (c_wbuf c)" using assms by (auto simp: conn_ok_def)
  have off: "c_wpos c \<le> off" "off \<le> c_wlen c" using write_loop_bounds[OF pos(1), of ws] w by auto
  let ?sent = "bytes_at (c_wpos c) (off - c_wpos c) (c_wbuf c)"
  have len: "length ?sent = off - c_wpos c" using off pos by (intro bytes_at_length) simp
  have split: "out_bytes c = ?sent @ bytes_at off (c_wlen c - off) (c_wbuf c)"
  proof -
    have "out_bytes c = take ((off - c_wpos c) + (c_wlen c - off)) (drop (c_wpos c) (c_wbuf c))"
      using off by (simp add: out_bytes_def bytes_at_def)
    also have "\<dots> = take (off - c_wpos c) (drop (c_wpos c) (c_wbuf c))
        @ take (c_wlen c - off) (drop (off - c_wpos c) (drop (c_wpos c) (c_wbuf c)))"
      by (rule take_add)
    finally show ?thesis using off by (simp add: bytes_at_def)
  qed
  let ?r = "fst (flush_conn ws c)"
  have r: "out_bytes ?r = bytes_at off (c_wlen c - off) (c_wbuf c)"
    using w by (auto simp: flush_conn_def Let_def out_bytes_def)
  have "conn_ok ?r \<and> same_conn c ?r"
    using w off assms by (auto simp: flush_conn_def Let_def conn_ok_def same_conn_def)
  moreover have "snd (flush_conn ws c) = (if ?sent = [] then [] else [Sent (c_fd c) ?sent])"
  proof -
    have "?sent = [] \<longleftrightarrow> \<not> c_wpos c < off" using len off by (metis diff_is_0_eq length_0_conv linorder_not_less)
    then show ?thesis using w by (simp add: flush_conn_def Let_def)
  qed
  ultimately show ?thesis using split r by metis
qed

lemma flush_same: "same_conn c (fst (flush_conn ws c))"
  by (auto simp: flush_conn_def Let_def same_conn_def split: prod.split)

lemma conn_flush_inv [wf_intros]: "srv_inv srv \<Longrightarrow> srv_inv (conn_flush ws cr srv)"
  unfolding conn_flush_def using flush_spec flush_same by (intro on_conn_inv) (auto simp: same_conn_def)

end
