(* ===== verification/Server_Safety.thy ===== *)
theory Server_Safety
  imports Server_Buffers
begin

text \<open>
  The handlers, the event loop and whole runs keep the invariant, and no event of a batch
  reaches an object that is no longer there.
\<close>

section \<open>Objects stay\<close>

text \<open>What identifies a connection and its receive buffer, and the addresses of sessions.\<close>

definition ckeys :: "epi_server \<Rightarrow> (nat \<times> int \<times> byte list \<times> nat \<times> nat) list" where
  "ckeys srv = map (\<lambda>c. (c_ref c, c_fd c, c_rbuf c, c_rlen c, c_rcap c)) (conns srv)"

definition srefs :: "epi_server \<Rightarrow> nat set" where
  "srefs srv = s_ref ` set (sessions srv @ dead srv)"

lemma keys_cong [simp]:
  "ckeys (emit es srv) = ckeys srv" "ckeys (ep_mod fd b srv) = ckeys srv" "ckeys (ep_del fd srv) = ckeys srv"
  "ckeys (conn_update cr srv) = ckeys srv" "ckeys (pty_update sr srv) = ckeys srv"
  "ckeys (on_sess sr g srv) = ckeys srv" "ckeys (gc_group_if_empty gid srv) = ckeys srv"
  "ckeys (fst (ep_add ok fd srv)) = ckeys srv"
  "srefs (emit es srv) = srefs srv" "srefs (ep_mod fd b srv) = srefs srv" "srefs (ep_del fd srv) = srefs srv"
  "srefs (conn_update cr srv) = srefs srv" "srefs (pty_update sr srv) = srefs srv"
  "srefs (on_conn cr f srv) = srefs srv" "srefs (gc_group_if_empty gid srv) = srefs srv"
  "srefs (fst (ep_add ok fd srv)) = srefs srv"
  by (simp_all add: ckeys_def srefs_def)

lemma ckeys_on_conn:
  assumes "\<And>c. same_conn c (fst (f c))"
  shows "ckeys (on_conn cr f srv) = ckeys srv"
proof (cases "conn_at srv cr")
  case None
  then show ?thesis by (simp add: conns_on_conn_None)
next
  case (Some c)
  show ?thesis unfolding ckeys_def conns_on_conn[OF Some]
    by (rule map_at_cong) (use assms in \<open>auto simp: same_conn_def\<close>)
qed

lemma ckeys_reply [simp]: "conn_keep f \<Longrightarrow> ckeys (reply cr f srv) = ckeys srv"
  by (rule ckeys_on_conn) (simp add: conn_keep_def quiet_def)

lemma ckeys_drop [simp]: "ckeys (on_conn cr conn_drop srv) = ckeys srv"
proof (cases "conn_at srv cr")
  case (Some c)
  show ?thesis unfolding ckeys_def conns_on_conn[OF Some]
    by (rule map_at_cong) (simp add: conn_drop_def)
qed (simp add: conns_on_conn_None)

lemma ckeys_flush [simp]: "ckeys (conn_flush ws cr srv) = ckeys srv"
  unfolding conn_flush_def by (rule ckeys_on_conn) (rule flush_same)

lemma srefs_flush [simp]: "srefs (conn_flush ws cr srv) = srefs srv"
  by (simp add: conn_flush_def)

lemma srefs_on_sess: "(\<And>s. s_ref (fst (f s)) = s_ref s) \<Longrightarrow> srefs (on_sess sr f srv) = srefs srv"
proof (cases "sess_at srv sr")
  case (Some s)
  assume f: "\<And>s. s_ref (fst (f s)) = s_ref s"
  have "map s_ref (map (\<lambda>t. if s_ref t = sr then fst (f t) else t) xs) = map s_ref xs" for xs
    by (rule map_at_cong) (simp add: f)
  then show ?thesis unfolding srefs_def sess_on_sess[OF Some] by (metis map_append set_map)
qed (simp add: sess_on_sess_None)

lemma srefs_quiet [simp]: "(\<And>s. s_ref (f s) = s_ref s) \<Longrightarrow> srefs (on_sess sr (quiet f) srv) = srefs srv"
  by (rule srefs_on_sess) (simp add: quiet_def)

lemma keys_detach [simp]:
  "ckeys (detach_client sr srv) = ckeys srv" "srefs (detach_client sr srv) = srefs srv"
  by (simp_all add: detach_client_def split: option.split)

lemma keys_remove [simp]:
  "ckeys (remove_session sr srv) = ckeys srv" "srefs (remove_session sr srv) = srefs srv"
proof -
  show "ckeys (remove_session sr srv) = ckeys srv"
    by (auto simp: remove_session_def Let_def ckeys_def[of "_\<lparr>sessions := _, dead := _\<rparr>"]
        simp flip: ckeys_def split: option.split)
  have bury: "srefs (srv'\<lparr>sessions := filter (\<lambda>t. s_ref t \<noteq> sr) (sessions srv'), dead := s2\<lparr>s_defunct := True\<rparr> # dead srv'\<rparr>)
      = srefs srv'" if "s_ref s2 = sr" "sr \<in> srefs srv'" for srv' :: epi_server and s2
    using that by (auto simp: srefs_def)
  show "srefs (remove_session sr srv) = srefs srv"
  proof (cases "\<exists>s. sess_at srv sr = Some s \<and> \<not> s_defunct s")
    case False
    then show ?thesis by (auto simp: remove_session_def split: option.split)
  next
    case True
    then obtain s where s: "sess_at srv sr = Some s" "\<not> s_defunct s" by blast
    define srv1 where "srv1 = (case s_client s of None \<Rightarrow> srv
      | Some cr \<Rightarrow> on_sess sr (quiet (\<lambda>s. clear_client s)) (on_conn cr conn_drop srv))"
    define srv2 where "srv2 = (if 0 \<le> s_pty_master s
      then on_sess sr (\<lambda>s. (s\<lparr>s_pty_master := -1\<rparr>, [Close (s_pty_master s)])) (ep_del (s_pty_master s) srv1)
      else srv1)"
    have r: "remove_session sr srv = gc_group_if_empty (s_group_id s)
      (srv2\<lparr>sessions := filter (\<lambda>t. s_ref t \<noteq> sr) (sessions srv2),
            dead := (the (sess_at srv2 sr))\<lparr>s_defunct := True\<rparr> # dead srv2\<rparr>)"
      using s by (simp add: remove_session_def srv1_def[symmetric] srv2_def[symmetric] Let_def)
    have k: "srefs srv2 = srefs srv"
      by (simp add: srv2_def srv1_def srefs_on_sess split: option.split)
    have "sess_at srv2 sr = Some (strip s)"
      using s by (auto simp: srv2_def srv1_def strip_def sess_at_on_sess quiet_def split: option.split)
    moreover have "s_ref s = sr" "sr \<in> srefs srv" using sess_atD[OF s(1)] by (auto simp: srefs_def)
    ultimately show ?thesis unfolding r using bury[of "strip s" srv2] k by (simp add: strip_def)
  qed
qed

lemma conn_at_ckeys: "(conn_at srv cr \<noteq> None) = (cr \<in> fst ` set (ckeys srv))"
  by (force simp: conn_at_def ckeys_def find_None_iff)

lemma sess_at_srefs: "(sess_at srv sr \<noteq> None) = (sr \<in> srefs srv)"
  by (force simp: sess_at_def srefs_def find_None_iff)

section \<open>The handlers keep the invariant\<close>

lemmas [simp] = queue_keep queue_frame_keep send_error_keep send_ok_keep close_keep

lemma reply_inv' [wf_intros]: "srv_inv srv \<Longrightarrow> conn_keep f \<Longrightarrow> srv_inv (reply cr f srv)"
  by (rule reply_inv)

text \<open>The three ways a CREATE can end: refused, undone, or done.\<close>

definition grown :: "epi_session \<Rightarrow> sysop list \<Rightarrow> epi_server \<Rightarrow> epi_server" where
  "grown s es srv = (emit es srv)\<lparr>next_id := next_id srv + 1, ids_issued := ids_issued srv + 1,
     next_ref := next_ref srv + 1, sessions := s # sessions srv\<rparr>"

lemma emit_nil [simp]: "emit [] srv = srv"
  by (simp add: emit_def)

lemma handle_create_cases:
  obtains (refused) f es where "conn_keep f" "handle_create e cr r srv = reply cr f (emit es srv)"
  | (undone) f es s ok where "conn_keep f" "s_ref s = next_ref srv" "s_id s = next_id srv + 1" "s_client s = None"
      "s_group_id s = 0" "\<not> s_defunct s" "sess_ok s"
      "handle_create e cr r srv =
         reply cr f (remove_session (s_ref s) (fst (ep_add ok (s_pty_master s) (grown s es srv))))"
  | (made) f es s ok where "conn_keep f" "s_ref s = next_ref srv" "s_id s = next_id srv + 1" "s_client s = None"
      "s_group_id s = 0" "\<not> s_defunct s" "sess_ok s"
      "handle_create e cr r srv = reply cr f (fst (ep_add ok (s_pty_master s) (grown s es srv)))"
proof -
  let ?a = "e_mem e"
  obtain cwd r1 where 1: "epi_rd_str ?a r = (cwd, r1)" by force
  obtain argv r2 where 2: "read_str_array ?a r1 = (argv, r2)" by force
  obtain envp r3 where 3: "read_str_array ?a r2 = (envp, r3)" by force
  obtain xp r4 where 4: "(if \<not> rd_err r3 \<and> rd_pos r3 < rd_len r3 then epi_rd_str ?a r3 else (None, r3)) = (xp, r4)"
    by force
  obtain so es where sp: "epi_session_spawn (e_spawn e) (next_ref srv)
      (case cwd of Some w \<Rightarrow> if w \<noteq> [] then Some w else None | None \<Rightarrow> None) argv envp xp = (so, es)" by force
  note h = handle_create_def Let_def 1 2 3 4 sp
  show thesis
  proof (cases "rd_err r4")
    case True
    then show ?thesis using refused[of "send_error ?a EPI_ERR_PROTOCOL ''malformed CREATE''" "[]"]
      by (simp add: h)
  next
    case nerr: False
    show ?thesis
    proof (cases so)
      case None
      then show ?thesis using nerr refused[of "send_error ?a EPI_ERR_SPAWN ''failed to spawn session''" es]
        by (simp add: h)
    next
      case (Some s0)
      define s where "s = s0\<lparr>s_id := next_id srv + 1\<rparr>"
      have "s_ref s0 = next_ref srv \<and> s_client s0 = None \<and> s_group_id s0 = 0 \<and> \<not> s_defunct s0 \<and> sess_ok s0"
        using spawn_session sp Some by (simp add: sess_ok_def)
      then have s: "s_ref s = next_ref srv" "s_id s = next_id srv + 1" "s_client s = None"
        "s_group_id s = 0" "\<not> s_defunct s" "sess_ok s"
        by (simp_all add: s_def sess_ok_def pin_ok_def)
      obtain srv2 rc where ep: "ep_add (e_ep_ok e) (s_pty_master s) (grown s es srv) = (srv2, rc)" by force
      have pm: "s_pty_master s0 = s_pty_master s" "s_ref s0 = s_ref s" by (simp_all add: s_def)
      have hc: "handle_create e cr r srv = (if rc \<noteq> 0
         then reply cr (send_error ?a EPI_ERR_INTERNAL ''epoll registration failed'') (remove_session (s_ref s) srv2)
         else reply cr (conn_queue_frame ?a
           (epi_msg_end (epi_buf_put_u64 ?a (epi_msg_start ?a EPI_MSG_ID) (next_id srv + 1)))) srv2)"
        using nerr Some ep unfolding grown_def handle_create_def Let_def 1 2 3 4 sp s_def prod.case by simp
      show ?thesis
      proof (cases "rc = 0")
        case True
        then show ?thesis using made[OF queue_frame_keep s] hc ep by (metis fst_conv)
      next
        case False
        then show ?thesis using undone[OF send_error_keep s] hc ep by (metis fst_conv)
      qed
    qed
  qed
qed

lemma grown_keys: "ckeys (grown s es srv) = ckeys srv" "srefs (grown s es srv) = insert (s_ref s) (srefs srv)"
  by (auto simp: grown_def ckeys_def srefs_def)

lemma handle_create_keys:
  "ckeys (handle_create e cr r srv) = ckeys srv \<and> srefs srv \<subseteq> srefs (handle_create e cr r srv)"
  by (cases rule: handle_create_cases[of e cr r srv]) (auto simp: grown_keys)

lemma handle_create_inv:
  assumes inv: "srv_inv srv"
  shows "srv_inv (handle_create e cr r srv)"
proof -
  have grow: "srv_inv (grown s es srv)"
    if "s_ref s = next_ref srv" "s_id s = next_id srv + 1" "s_client s = None"
      "s_group_id s = 0" "\<not> s_defunct s" "sess_ok s" for s es
    using insert_session_inv[of "emit es srv" s] inv that by (simp add: grown_def)
  show ?thesis
    by (cases rule: handle_create_cases[of e cr r srv]) (use inv in \<open>auto simp: grow intro!: reply_inv' remove_inv\<close>)
qed

lemma detach_conn:
  assumes "conn_at srv cr = Some c" and "c_session c = None"
  shows "\<exists>c'. conn_at (detach_client sr srv) cr = Some c' \<and> c_session c' = None \<and> c_is_data c' = c_is_data c"
  using assms
  by (auto simp: detach_client_def conn_at_on_conn quiet_def split: option.split) (simp_all add: conn_drop_def)

lemma handle_attach_inv:
  assumes inv: "srv_inv srv" and c: "conn_at srv cr = Some c" "c_session c = None"
  shows "srv_inv (handle_attach e cr r srv)"
proof -
  let ?a = "e_mem e"
  obtain i r1 where 1: "epi_rd_u64 r = (i, r1)" by force
  show ?thesis
  proof (cases "rd_err r1 \<or> find_session srv i False = None")
    case True
    then show ?thesis using inv by (auto simp: handle_attach_def Let_def 1 intro!: reply_inv')
  next
    case False
    then obtain s where f: "find_session srv i False = Some s" by auto
    have s: "s \<in> set (sessions srv)" "\<not> s_removed s" using find_sessionD[OF f] by auto
    note at = live_at[OF inv s(1)]
    have other: "s_client s \<noteq> Some cr"
      using client_linked[OF inv at(1)] c by fastforce
    define srv1 where "srv1 = (if s_client s \<noteq> None \<and> s_client s \<noteq> Some cr then detach_client (s_ref s) srv else srv)"
    have inv1: "srv_inv srv1" using inv by (simp add: srv1_def detach_inv)
    have at1: "sess_at srv1 (s_ref s) = Some (clear_client s)"
      using at(1) other by (cases "s_client s") (auto simp: srv1_def detach_sess_at)
    obtain c1 where c1: "conn_at srv1 cr = Some c1" "c_session c1 = None"
    proof (cases "s_client s \<noteq> None \<and> s_client s \<noteq> Some cr")
      case True
      then have "srv1 = detach_client (s_ref s) srv" by (simp add: srv1_def)
      then show ?thesis using that detach_conn[OF c, of "s_ref s"] by auto
    next
      case False
      then have "srv1 = srv" unfolding srv1_def by (rule if_not_P)
      then show ?thesis using that c by simp
    qed
    define srv3 where "srv3 = attach_link (s_ref s) cr srv1"
    have inv3: "srv_inv srv3" unfolding srv3_def
      using attach_inv[OF inv1 at1 _ _ _ c1] s(2) at(3) by simp
    have "handle_attach e cr r srv =
      (let s3 = the (sess_at srv3 (s_ref s));
           srv4 = reply cr (conn_queue_frame ?a (epi_msg_end (put_session_info ?a s3 (epi_msg_start ?a EPI_MSG_ATTACHED)))) srv3
       in case epi_ring_snapshot ?a (s_out s3) of
            (None, _) \<Rightarrow> srv4 | (Some snap, n) \<Rightarrow> reply cr (conn_queue ?a (take n snap)) srv4)"
      using False f by (simp add: handle_attach_def Let_def 1 srv3_def srv1_def attach_link_def)
    then show ?thesis using inv3 by (auto simp: Let_def intro!: reply_inv' split: option.split prod.split)
  qed
qed

lemma handle_kill_inv:
  assumes inv: "srv_inv srv"
  shows "srv_inv (handle_kill e cr r srv)"
proof -
  have mark: "srv_inv (on_sess sr (\<lambda>s. (s\<lparr>s_killing := True, s_removed := True, s_kill_deadline := dl\<rparr>,
      epi_session_hangup s)) (detach_client sr srv))" for sr dl
    by (rule on_sess_keep[OF detach_inv[OF inv]])
      (auto simp: detach_sess_at sess_ok_def pin_ok_def)
  show ?thesis
    using inv mark
    by (auto simp: handle_kill_def Let_def intro!: reply_inv' remove_inv detach_inv gc_inv' split: prod.split option.split)
qed

lemma handle_group_new_inv:
  assumes inv: "srv_inv srv"
  shows "srv_inv (handle_group_new e cr r srv)"
proof -
  let ?a = "e_mem e"
  obtain blob n r1 where 1: "(if \<not> rd_err r \<and> rd_pos r < rd_len r then epi_rd_blob ?a r else ((None, 0), r)) = ((blob, n), r1)"
    by (metis prod.collapse)
  have wf: "blob_wf blob n" using rd_blob_wf[of ?a r] 1
    by (cases "\<not> rd_err r \<and> rd_pos r < rd_len r") (auto simp: blob_wf_def[of None])
  have len: "length (groups srv) < 2 ^ 32" using inv by (auto simp: srv_inv_def inv_groups_def EPI_GROUP_MAX_def)
  show ?thesis
  proof (cases "rd_err r1 \<or> n > EPI_GROUP_BLOB_MAX \<or> unat (count_groups srv) \<ge> EPI_GROUP_MAX \<or>
      epi_group_new ?a (e_time e) blob n = None")
    case True
    then show ?thesis using inv by (auto simp: handle_group_new_def Let_def 1 intro!: reply_inv')
  next
    case False
    then obtain g where g: "epi_group_new ?a (e_time e) blob n = Some g" by auto
    let ?g = "g\<lparr>g_id := next_group_id srv + 1\<rparr>"
    have "group_wf ?g" using group_new_wf[OF g wf] wf False by (simp add: group_wf_def)
    moreover have "length (groups srv) < EPI_GROUP_MAX"
      using False of_nat_u32[OF len] by (simp add: count_groups_def)
    ultimately have "srv_inv (srv\<lparr>next_group_id := next_group_id srv + 1, gids_issued := gids_issued srv + 1,
        groups := ?g # groups srv\<rparr>)"
      by (intro insert_group_inv[OF inv]) simp_all
    then show ?thesis using False g by (auto simp: handle_group_new_def Let_def 1 intro!: reply_inv')
  qed
qed

lemma handle_group_set_inv:
  assumes inv: "srv_inv srv"
  shows "srv_inv (handle_group_set e cr r srv)"
proof -
  let ?a = "e_mem e"
  obtain gid r1 where 1: "epi_rd_u64 r = (gid, r1)" by force
  obtain blob n r2 where 2: "epi_rd_blob ?a r1 = ((blob, n), r2)" by (metis prod.collapse)
  have wf: "blob_wf blob n" using rd_blob_wf[of ?a r1] 2 by simp
  show ?thesis
  proof (cases "rd_err r2 \<or> n > EPI_GROUP_BLOB_MAX \<or> find_group srv gid = None")
    case True
    then show ?thesis using inv by (auto simp: handle_group_set_def Let_def 1 2 intro!: reply_inv')
  next
    case False
    then obtain g where g: "find_group srv gid = Some g" by auto
    obtain g' rc where sb: "epi_group_set_blob ?a g blob n = (g', rc)" by force
    have gs: "g \<in> set (groups srv)" "g_id g = gid" using find_groupD[OF g] by auto
    have "group_wf g" using inv gs(1) by (auto simp: srv_inv_def inv_objs_def)
    then have "group_wf g'" "g_id g' = gid"
      using group_set_blob_wf[OF _ wf, of g ?a] group_set_blob_id[of ?a g blob n] sb gs(2) False by auto
    from update_group_inv[OF inv this(2,1)] show ?thesis
      using inv False g sb by (auto simp: handle_group_set_def Let_def 1 2 intro!: reply_inv')
  qed
qed

lemma handle_group_add_inv:
  assumes inv: "srv_inv srv"
  shows "srv_inv (handle_group_add e cr r srv)"
proof -
  have "srv_inv (on_sess sr (quiet (\<lambda>s. s\<lparr>s_group_id := gid\<rparr>)) srv)" if "find_group srv gid \<noteq> None" for sr gid
    using that by (intro set_group_inv[OF inv]) (auto dest: find_groupD)
  then show ?thesis using inv
    by (auto simp: handle_group_add_def Let_def intro!: reply_inv' gc_inv' split: prod.split option.split)
qed

lemma handle_group_remove_inv:
  assumes inv: "srv_inv srv"
  shows "srv_inv (handle_group_remove e cr r srv)"
  using inv set_group_inv[OF inv, of 0]
  by (auto simp: handle_group_remove_def Let_def intro!: reply_inv' gc_inv' split: prod.split option.split)

lemma handle_others_inv:
  assumes "srv_inv srv"
  shows "srv_inv (handle_list e cr srv)" "srv_inv (handle_resize e cr r srv)" "srv_inv (handle_detach e cr r srv)"
    "srv_inv (handle_peek e cr r srv)" "srv_inv (handle_group_list e cr srv)"
  using assms
  by (auto simp: handle_list_def handle_resize_def handle_detach_def handle_peek_def handle_group_list_def Let_def
      intro!: reply_inv' detach_inv split: prod.split option.split)

lemma dispatch_inv:
  assumes "srv_inv srv" and "conn_at srv cr = Some c" and "c_session c = None"
  shows "srv_inv (dispatch_frame e cr type body srv)"
  using assms
  by (simp add: dispatch_frame_def Let_def handle_create_inv handle_attach_inv handle_kill_inv
      handle_group_new_inv handle_group_set_inv handle_group_add_inv handle_group_remove_inv handle_others_inv reply_inv')

section \<open>The handlers keep the objects\<close>

lemma ckeys_attach [simp]: "ckeys (reply cr (\<lambda>c. c\<lparr>c_is_data := True, c_session := v\<rparr>) srv) = ckeys srv"
proof (cases "conn_at srv cr")
  case (Some c)
  show ?thesis unfolding ckeys_def conns_on_conn[OF Some] by (rule map_at_cong) (simp add: quiet_def)
qed (simp add: conns_on_conn_None)

lemma handler_keys:
  "ckeys (handle_list e cr srv) = ckeys srv" "srefs (handle_list e cr srv) = srefs srv"
  "ckeys (handle_attach e cr r srv) = ckeys srv" "srefs (handle_attach e cr r srv) = srefs srv"
  "ckeys (handle_kill e cr r srv) = ckeys srv" "srefs (handle_kill e cr r srv) = srefs srv"
  "ckeys (handle_resize e cr r srv) = ckeys srv" "srefs (handle_resize e cr r srv) = srefs srv"
  "ckeys (handle_detach e cr r srv) = ckeys srv" "srefs (handle_detach e cr r srv) = srefs srv"
  "ckeys (handle_peek e cr r srv) = ckeys srv" "srefs (handle_peek e cr r srv) = srefs srv"
  "ckeys (handle_group_add e cr r srv) = ckeys srv" "srefs (handle_group_add e cr r srv) = srefs srv"
  "ckeys (handle_group_remove e cr r srv) = ckeys srv" "srefs (handle_group_remove e cr r srv) = srefs srv"
  "ckeys (handle_group_list e cr srv) = ckeys srv" "srefs (handle_group_list e cr srv) = srefs srv"
  by (simp_all add: handle_list_def handle_attach_def handle_kill_def handle_resize_def handle_detach_def
      handle_peek_def handle_group_add_def handle_group_remove_def handle_group_list_def Let_def srefs_on_sess
      split: prod.split option.split)

lemma groups_keys: "ckeys (srv\<lparr>groups := gs\<rparr>) = ckeys srv" "srefs (srv\<lparr>groups := gs\<rparr>) = srefs srv"
  "ckeys (srv\<lparr>next_group_id := i, gids_issued := n, groups := gs\<rparr>) = ckeys srv"
  "srefs (srv\<lparr>next_group_id := i, gids_issued := n, groups := gs\<rparr>) = srefs srv"
  "ckeys (srv\<lparr>next_group_id := i, gids_issued := n\<rparr>) = ckeys srv"
  "srefs (srv\<lparr>next_group_id := i, gids_issued := n\<rparr>) = srefs srv"
  by (simp_all add: ckeys_def srefs_def)

lemma handler_keys_group:
  "ckeys (handle_group_new e cr r srv) = ckeys srv" "srefs (handle_group_new e cr r srv) = srefs srv"
  "ckeys (handle_group_set e cr r srv) = ckeys srv" "srefs (handle_group_set e cr r srv) = srefs srv"
  by (simp_all add: handle_group_new_def handle_group_set_def Let_def groups_keys split: prod.split option.split)

lemma dispatch_keys:
  "ckeys (dispatch_frame e cr type body srv) = ckeys srv"
  "srefs srv \<subseteq> srefs (dispatch_frame e cr type body srv)"
  using handle_create_keys
  by (auto simp: dispatch_frame_def Let_def handler_keys handler_keys_group)

section \<open>The frame loop\<close>

lemma conn_objs: "srv_inv srv \<Longrightarrow> conn_at srv cr = Some c \<Longrightarrow> conn_ok c \<and> c_ref c = cr"
  using conn_atD[of srv cr c] by (auto simp: srv_inv_def inv_objs_def)

lemma conn_stays: "ckeys srv' = ckeys srv \<Longrightarrow> conn_at srv cr \<noteq> None \<Longrightarrow> conn_at srv' cr \<noteq> None"
  using conn_at_ckeys[of srv cr] conn_at_ckeys[of srv' cr] by metis

lemma conn_frames_inv:
  assumes "srv_inv srv" and "conn_at srv cr = Some c" and "\<not> c_is_data c"
    and "conn_frames es cr data used k srv = (srv', used', d)"
  shows "srv_inv srv' \<and> ckeys srv' = ckeys srv \<and> srefs srv \<subseteq> srefs srv' \<and> used \<le> used' \<and>
    (used \<le> length data \<longrightarrow> used' \<le> length data)"
  using assms
proof (induction es cr data used k srv arbitrary: c rule: conn_frames.induct)
  case (1 es cr data used k srv)
  let ?flen = "get_le32 data used" and ?a = "e_mem (es k)"
  have err: ?case if "conn_frames es cr data used k srv =
      (reply cr (\<lambda>c. (send_error ?a code msg c)\<lparr>c_want_close := True\<rparr>) srv, used, False)" for code msg
    using 1(2,5) that want_close_keep[OF send_error_keep] reply_inv[of "\<lambda>c. (send_error ?a code msg c)\<lparr>c_want_close := True\<rparr>" srv cr]
    by auto
  show ?case
  proof (cases "length data - used < 4 \<or> ?flen < 4 \<or> ?flen > MAX_FRAME \<or> length data - used - 4 < unat ?flen")
    case True
    then consider "length data - used < 4" | "\<not> length data - used < 4" "?flen < 4"
      | "\<not> length data - used < 4" "\<not> ?flen < 4" "?flen > MAX_FRAME"
      | "\<not> length data - used < 4" "\<not> ?flen < 4" "\<not> ?flen > MAX_FRAME" "length data - used - 4 < unat ?flen"
      by argo
    then show ?thesis
    proof cases
      case 1
      then show ?thesis using "1.prems" by (simp add: conn_frames.simps)
    next
      case 2
      then show ?thesis by (intro err) (subst conn_frames.simps, simp add: Let_def)
    next
      case 3
      then show ?thesis by (intro err) (subst conn_frames.simps, simp add: Let_def)
    next
      case 4
      then show ?thesis using "1.prems" by (simp add: conn_frames.simps[of _ _ _ _ _ srv] Let_def)
    qed
  next
    case False
    let ?type = "get_le32 data (used + 4)" and ?body = "bytes_at (used + 8) (unat ?flen - 4) data"
    define srv1 where "srv1 = dispatch_frame (es k) cr ?type ?body srv"
    define used1 where "used1 = used + (4 + unat ?flen)"
    have "c_session c = None" using conn_objs[OF 1(2,3)] 1(4) by (auto simp: conn_ok_def)
    then have inv1: "srv_inv srv1" unfolding srv1_def by (rule dispatch_inv[OF 1(2,3)])
    have k1: "ckeys srv1 = ckeys srv" "srefs srv \<subseteq> srefs srv1" unfolding srv1_def by (rule dispatch_keys)+
    obtain c1 where c1: "conn_at srv1 cr = Some c1" using conn_stays[OF k1(1), of cr] 1(3) by auto
    have u: "used \<le> used1" "used1 \<le> length data" using False by (auto simp: used1_def)
    have step: "conn_frames es cr data used k srv = (if c_is_data c1 then (srv1, used1, True)
        else if c_want_close c1 then (srv1, used1, False) else conn_frames es cr data used1 (k + 1) srv1)"
      using False c1 by (subst conn_frames.simps) (simp add: Let_def srv1_def[symmetric] used1_def[symmetric])
    show ?thesis
    proof (cases "c_is_data c1 \<or> c_want_close c1")
      case True
      then show ?thesis using step 1(5) inv1 k1 u by (auto split: if_splits)
    next
      case cont: False
      have "conn_frames es cr data used1 (k + 1) srv1 = (srv', used', d)" using step 1(5) cont by simp
      from 1(1)[OF _ refl refl _ _ _ refl srv1_def used1_def c1 _ _ inv1 c1 _ this] False cont
      show ?thesis using k1 u by auto
    qed
  qed
qed

end
