(* ===== verification/Server_Run.thy ===== *)
theory Server_Run
  imports Server_Safety
begin

text \<open>
  Events, batches and runs: every event keeps the invariant and the objects that other events of
  the same batch name; the loop keeps the invariant for ever.
\<close>

section \<open>Reading from a connection\<close>

lemma on_conn_cong:
  assumes "inv_refs srv" and "\<And>c. conn_at srv cr = Some c \<Longrightarrow> f c = g c"
  shows "on_conn cr f srv = on_conn cr g srv"
proof (cases "conn_at srv cr")
  case None
  then show ?thesis by (simp add: conns_on_conn_None)
next
  case (Some c)
  have "fst (f d) = fst (g d)" if "d \<in> set (conns srv)" "c_ref d = cr" for d
    using conn_at_mem[OF assms(1) that(1)] that(2) assms(2) by simp
  then have eq: "map (\<lambda>d. if c_ref d = cr then fst (f d) else d) (conns srv)
      = map (\<lambda>d. if c_ref d = cr then fst (g d) else d) (conns srv)"
    by (intro map_cong) auto
  show ?thesis unfolding on_conn_def Some option.case eq assms(2)[OF Some] ..
qed

text \<open>Changing a connection at its address in a way that is right for the object found there.\<close>

lemma on_conn_inv_at:
  assumes inv: "srv_inv srv" and f: "\<And>c. conn_at srv cr = Some c \<Longrightarrow> conn_ok c \<Longrightarrow>
      conn_ok (fst (f c)) \<and> c_ref (fst (f c)) = c_ref c \<and> c_session (fst (f c)) = c_session c"
  shows "srv_inv (on_conn cr f srv)"
proof -
  define g where "g d = (if conn_at srv cr = Some d \<and> conn_ok d then f d else (d, snd (f d)))" for d
  have refs: "inv_refs srv" using inv by (simp add: srv_inv_def)
  have "on_conn cr f srv = on_conn cr g srv"
    by (rule on_conn_cong[OF refs]) (use conn_objs[OF inv] in \<open>simp add: g_def\<close>)
  moreover have "srv_inv (on_conn cr g srv)"
    by (rule on_conn_inv[OF inv]) (use f in \<open>auto simp: g_def\<close>)
  ultimately show ?thesis by simp
qed

lemma crefs_on_conn:
  assumes "inv_refs srv" and "\<And>c. conn_at srv cr = Some c \<Longrightarrow> c_ref (fst (f c)) = c_ref c"
  shows "map c_ref (conns (on_conn cr f srv)) = map c_ref (conns srv)"
proof (cases "conn_at srv cr")
  case None
  then show ?thesis by (simp add: conns_on_conn_None)
next
  case (Some c)
  show ?thesis unfolding conns_on_conn[OF Some]
    by (rule map_at_cong) (use assms conn_at_mem[OF assms(1)] in auto)
qed

definition crefs :: "epi_server \<Rightarrow> nat list" where
  "crefs srv = map c_ref (conns srv)"

lemma crefs_of_ckeys: "ckeys srv' = ckeys srv \<Longrightarrow> crefs srv' = crefs srv"
proof -
  have "crefs s = map fst (ckeys s)" for s by (simp add: crefs_def ckeys_def comp_def)
  then show "ckeys srv' = ckeys srv \<Longrightarrow> crefs srv' = crefs srv" by simp
qed

lemma data_to_pty_inv:
  assumes inv: "srv_inv srv"
  shows "srv_inv (data_to_pty a ws cr data srv)"
proof -
  let ?f = "\<lambda>s. case epi_session_queue_input a ws s data of (s', es, _) \<Rightarrow> (s', es)"
  have f: "fst (?f s) = fst (epi_session_queue_input a ws s data)" for s by (simp split: prod.split)
  have "srv_inv (on_sess sr ?f srv)" for sr
  proof (rule on_sess_keep[OF inv])
    fix s assume "sess_ok s"
    then show "sess_ok (fst (?f s))" unfolding f
      using same_but_pin_fields[OF queue_input_frame[of s a ws data]] queue_input_ok[of s a ws data]
      by (simp add: sess_ok_def)
  qed (simp_all only: f same_but_pin_fields[OF queue_input_frame])
  then show ?thesis using inv by (simp add: data_to_pty_def split: option.split)
qed

lemma data_to_pty_keys [simp]:
  "ckeys (data_to_pty a ws cr data srv) = ckeys srv" "srefs (data_to_pty a ws cr data srv) = srefs srv"
proof -
  let ?f = "\<lambda>s. case epi_session_queue_input a ws s data of (s', es, _) \<Rightarrow> (s', es)"
  have "s_ref (fst (?f s)) = s_ref s" for s
    using same_but_pin_fields(1)[OF queue_input_frame[of s a ws data]]
    by (cases "epi_session_queue_input a ws s data") simp
  then have "srefs (on_sess sr ?f srv) = srefs srv" for sr by (rule srefs_on_sess)
  then show "srefs (data_to_pty a ws cr data srv) = srefs srv"
    by (simp add: data_to_pty_def split: option.split)
  show "ckeys (data_to_pty a ws cr data srv) = ckeys srv"
    by (simp add: data_to_pty_def split: option.split)
qed

lemma rbuf_room_spec:
  "case rbuf_room a c n of
     None \<Rightarrow> \<not> never_fails a
   | Some c' \<Rightarrow> \<exists>nd cap. c' = c\<lparr>c_rbuf := nd, c_rcap := cap\<rparr> \<and>
       (conn_ok c \<longrightarrow> length nd = cap \<and> c_rlen c + n \<le> cap \<and> take (c_rlen c) nd = take (c_rlen c) (c_rbuf c))"
proof -
  let ?nc = "double_until (if c_rcap c \<noteq> 0 then c_rcap c else 4096) (c_rlen c + n)"
  have nc: "c_rlen c + n \<le> ?nc" "c_rcap c \<le> ?nc"
    using double_until_enough double_until_ge[of "c_rcap c"] by auto
  show ?thesis
  proof (cases "c_rlen c + n > c_rcap c")
    case False
    then have "rbuf_room a c n = Some c" by (simp add: rbuf_room_def)
    moreover have "c = c\<lparr>c_rbuf := c_rbuf c, c_rcap := c_rcap c\<rparr>" by simp
    ultimately show ?thesis using False
      by (simp only: option.case)
        (rule exI[of _ "c_rbuf c"], rule exI[of _ "c_rcap c"], simp add: conn_ok_def)
  next
    case True
    then have r: "rbuf_room a c n = map_option (\<lambda>nd. c\<lparr>c_rbuf := nd, c_rcap := ?nc\<rparr>) (realloc a (c_rbuf c) ?nc)"
      by (simp only: rbuf_room_def Let_def if_True)
    show ?thesis
    proof (cases "realloc a (c_rbuf c) ?nc")
      case None
      then have "\<not> never_fails a" by auto
      then show ?thesis unfolding r None by simp
    next
      case (Some nd)
      have "length nd = ?nc" using realloc_length[OF Some] .
      moreover have "take (c_rlen c) nd = take (c_rlen c) (c_rbuf c)" if "conn_ok c"
        using that nc(2) by (intro realloc_prefix[OF Some]) (simp_all add: conn_ok_def)
      ultimately show ?thesis unfolding r Some option.map option.case using nc(1) by blast
    qed
  qed
qed

text \<open>The connection with the new bytes stored.\<close>

lemma rbuf_store:
  assumes "conn_ok c" and "rbuf_room a c (length tmp) = Some c1"
  defines "c2 \<equiv> c1\<lparr>c_rbuf := blit (c_rbuf c1) (c_rlen c1) tmp, c_rlen := c_rlen c1 + length tmp\<rparr>"
  shows "conn_ok c2" and "c_ref c2 = c_ref c" and "c_session c2 = c_session c" and "c_is_data c2 = c_is_data c"
    and "c_want_close c2 = c_want_close c" and "c_fd c2 = c_fd c"
    and "take (c_rlen c2) (c_rbuf c2) = take (c_rlen c) (c_rbuf c) @ tmp"
proof -
  obtain nd cap where c1: "c1 = c\<lparr>c_rbuf := nd, c_rcap := cap\<rparr>" "length nd = cap" "c_rlen c + length tmp \<le> cap"
    "take (c_rlen c) nd = take (c_rlen c) (c_rbuf c)"
    using rbuf_room_spec[of a c "length tmp"] assms(1,2) by auto
  show "conn_ok c2" "c_ref c2 = c_ref c" "c_session c2 = c_session c" "c_is_data c2 = c_is_data c"
    "c_want_close c2 = c_want_close c" "c_fd c2 = c_fd c"
    using c1 assms(1) by (auto simp: c2_def conn_ok_def blit_length)
  have "take (c_rlen c + length tmp) (blit nd (c_rlen c) tmp) = take (c_rlen c) nd @ tmp"
    using c1 by (intro blit_take_all) simp
  then show "take (c_rlen c2) (c_rbuf c2) = take (c_rlen c) (c_rbuf c) @ tmp"
    using c1 by (simp add: c2_def)
qed

lemma rbuf_drop_ok: "conn_ok c \<Longrightarrow> conn_ok (rbuf_drop used c)"
proof -
  assume ok: "conn_ok c"
  have "length (blit (c_rbuf c) 0 (bytes_at used (c_rlen c - used) (c_rbuf c))) = c_rcap c"
    using ok by (subst blit_length) (auto simp: conn_ok_def bytes_at_def)
  then show ?thesis using ok by (auto simp: rbuf_drop_def conn_ok_def)
qed

text \<open>The early ends of a read.\<close>

lemma conn_read_ends:
  assumes "in_res i = R_data bs"
  shows "take PTY_READ_CHUNK bs = [] \<Longrightarrow> conn_read i cr srv = reply cr (\<lambda>c. c\<lparr>c_want_close := True\<rparr>) srv"
    and "take PTY_READ_CHUNK bs \<noteq> [] \<Longrightarrow> conn_at srv cr = None \<Longrightarrow> conn_read i cr srv = srv"
    and "take PTY_READ_CHUNK bs \<noteq> [] \<Longrightarrow> conn_at srv cr = Some c \<Longrightarrow> c_is_data c \<Longrightarrow>
      conn_read i cr srv = data_to_pty (in_mem i) (in_pty i) cr (take PTY_READ_CHUNK bs) srv"
    and "take PTY_READ_CHUNK bs \<noteq> [] \<Longrightarrow> conn_at srv cr = Some c \<Longrightarrow> \<not> c_is_data c \<Longrightarrow>
      rbuf_room (in_mem i) c (length (take PTY_READ_CHUNK bs)) = None \<Longrightarrow>
      conn_read i cr srv = reply cr (\<lambda>c. c\<lparr>c_want_close := True\<rparr>) srv"
  by (simp_all only: conn_read_def assms rres.case Let_def if_True if_False option.case refl not_True_eq_False)

lemma conn_read_idle:
  "in_res i = R_again \<Longrightarrow> conn_read i cr srv = srv" "in_res i = R_intr \<Longrightarrow> conn_read i cr srv = srv"
  "in_res i = R_err \<Longrightarrow> conn_read i cr srv = reply cr (\<lambda>c. c\<lparr>c_want_close := True\<rparr>) srv"
  by (simp_all only: conn_read_def rres.case)

lemma conn_read_inv:
  assumes inv: "srv_inv srv"
  shows "srv_inv (conn_read i cr srv) \<and> crefs (conn_read i cr srv) = crefs srv \<and>
         srefs srv \<subseteq> srefs (conn_read i cr srv)"
proof -
  have close: "srv_inv (reply cr (\<lambda>c. c\<lparr>c_want_close := True\<rparr>) srv) \<and>
      crefs (reply cr (\<lambda>c. c\<lparr>c_want_close := True\<rparr>) srv) = crefs srv"
    using reply_inv'[OF inv close_keep] crefs_of_ckeys[OF ckeys_reply[OF close_keep]] by blast
  show ?thesis
  proof (cases "in_res i")
    case (R_data bs)
    define tmp where "tmp = take PTY_READ_CHUNK bs"
    show ?thesis
    proof (cases "tmp = [] \<or> conn_at srv cr = None")
      case True
      then have "conn_read i cr srv \<in> {reply cr (\<lambda>c. c\<lparr>c_want_close := True\<rparr>) srv, srv}"
        using conn_read_ends(1,2)[OF R_data, folded tmp_def] by blast
      then show ?thesis using close inv by auto
    next
      case False
      then obtain c where c: "conn_at srv cr = Some c" and ne: "tmp \<noteq> []" by auto
      show ?thesis
      proof (cases "c_is_data c \<or> rbuf_room (in_mem i) c (length tmp) = None")
        case True
        then have "conn_read i cr srv \<in> {reply cr (\<lambda>c. c\<lparr>c_want_close := True\<rparr>) srv,
            data_to_pty (in_mem i) (in_pty i) cr tmp srv}"
          using conn_read_ends(3,4)[OF R_data, folded tmp_def, OF ne c] by blast
        then show ?thesis using close inv data_to_pty_inv[OF inv] crefs_of_ckeys[OF data_to_pty_keys(1)] by auto
      next
        case False
        then obtain c1 where c1: "rbuf_room (in_mem i) c (length tmp) = Some c1" by auto
        define c2 where "c2 = c1\<lparr>c_rbuf := blit (c_rbuf c1) (c_rlen c1) tmp, c_rlen := c_rlen c1 + length tmp\<rparr>"
        note st = rbuf_store[OF conn_objs[OF inv c, THEN conjunct1] c1, folded c2_def]
        define srv1 where "srv1 = reply cr (\<lambda>_. c2) srv"
        define data where "data = take (c_rlen c2) (c_rbuf c2)"
        have refs: "inv_refs srv" using inv by (simp add: srv_inv_def)
        have inv1: "srv_inv srv1" unfolding srv1_def
          by (rule on_conn_inv_at[OF inv]) (use c st in \<open>simp add: quiet_def\<close>)
        have k1: "crefs srv1 = crefs srv" "srefs srv1 = srefs srv"
          using crefs_on_conn[OF refs, of cr "quiet (\<lambda>_. c2)"] c st(2)
          by (simp_all add: srv1_def crefs_def quiet_def)
        have "conns srv1 = map (\<lambda>d. if c_ref d = cr then c2 else d) (conns srv)"
          using conns_on_conn[OF c] by (simp add: srv1_def quiet_def)
        then have at1: "conn_at srv1 cr = Some c2"
          using inv1 conn_at_mem[of srv1 c2] conn_atD[OF c] st(2) by (force simp: srv_inv_def)
        obtain srv2 used d where fr: "conn_frames (in_envs i) cr data 0 0 srv1 = (srv2, used, d)"
          by (cases "conn_frames (in_envs i) cr data 0 0 srv1")
        have nd: "\<not> c_is_data c" "\<not> c_is_data c2" using False st(4) by simp_all
        note f0 = conn_frames_inv[OF inv1 at1 nd(2) fr]
        have f: "srv_inv srv2" "crefs srv2 = crefs srv1" "srefs srv1 \<subseteq> srefs srv2"
          using f0 crefs_of_ckeys[of srv2 srv1] by blast+
        define srv3 where "srv3 = (if d then if used < length data
            then data_to_pty (in_mem i) (in_pty i) cr (drop used data) srv2 else srv2 else srv2)"
        have 3: "srv_inv srv3" "crefs srv3 = crefs srv" "srefs srv \<subseteq> srefs srv3"
          using f k1 data_to_pty_inv[OF f(1)] crefs_of_ckeys[OF data_to_pty_keys(1)] by (simp_all add: srv3_def)
        define g where "g = (if d then (\<lambda>c. c\<lparr>c_rbuf := [], c_rlen := 0, c_rcap := 0\<rparr>) else rbuf_drop used)"
        have res: "conn_read i cr srv = reply cr g srv3"
          unfolding conn_read_def R_data rres.case Let_def tmp_def[symmetric] if_not_P[OF ne] c option.case
            if_not_P[OF nd(1)] c1 c2_def[symmetric] srv1_def[symmetric] data_def[symmetric] fr prod.case g_def srv3_def
          by (cases d) simp_all
        have g: "conn_ok c \<Longrightarrow> conn_ok (g c)" "c_ref (g c) = c_ref c" "c_session (g c) = c_session c" for c
          using rbuf_drop_ok[of c used] by (auto simp: g_def conn_ok_def rbuf_drop_def)
        have "srv_inv (reply cr g srv3)" by (rule on_conn_inv[OF 3(1)]) (simp_all add: quiet_def g)
        moreover have "crefs (reply cr g srv3) = crefs srv3"
          using crefs_on_conn[of srv3 cr "quiet g"] 3(1) by (simp add: crefs_def quiet_def g srv_inv_def)
        ultimately show ?thesis unfolding res using 3 by simp
      qed
    qed
  qed (use close inv in \<open>simp_all only: conn_read_idle, simp_all\<close>)
qed

section \<open>PTY output\<close>

lemma same_on_conn_inv:
  assumes "srv_inv srv" and "\<And>c. same_conn c (fst (f c))" and "\<And>c. conn_ok c \<Longrightarrow> conn_ok (fst (f c))"
  shows "srv_inv (on_conn cr f srv)"
  using assms by (intro on_conn_inv) (auto simp: same_conn_def)

lemma client_eof_inv:
  assumes inv: "srv_inv srv"
  shows "srv_inv (client_eof ws sr srv)"
proof -
  have "srv_inv (on_conn cr (\<lambda>c. (c, if c_wpos c = c_wlen c then [Shutdown (c_fd c)] else []))
      (reply cr (\<lambda>c. c\<lparr>c_want_close := True\<rparr>) (conn_flush ws cr srv)))" for cr
    by (intro same_on_conn_inv reply_inv' conn_flush_inv inv close_keep) simp_all
  then show ?thesis using inv by (simp add: client_eof_def split: option.split)
qed

lemma client_eof_keys [simp]:
  "ckeys (client_eof ws sr srv) = ckeys srv" "srefs (client_eof ws sr srv) = srefs srv"
  by (simp_all add: client_eof_def ckeys_on_conn split: option.split)

lemma ring_store_inv:
  assumes inv: "srv_inv srv"
  shows "srv_inv (on_sess sr (quiet (\<lambda>s. s\<lparr>s_out := epi_ring_write a (s_out s) tmp\<rparr>)) srv)"
  by (rule on_sess_keep[OF inv])
    (auto simp: quiet_def sess_ok_def pin_ok_def intro: epi_ring_write_inv)

lemma pty_hangup_inv:
  assumes inv: "srv_inv srv"
  shows "srv_inv (on_sess sr (\<lambda>s. (s\<lparr>s_pty_master := -1\<rparr>, [Close (s_pty_master s)])) (ep_del fd srv))"
proof (rule on_sess_keep)
  show "srv_inv (ep_del fd srv)" using inv by simp
qed (auto simp: sess_ok_def pin_ok_def)

text \<open>The two continuations of a PTY read.\<close>

definition pty_data :: "nat \<Rightarrow> allocator \<Rightarrow> wres list \<Rightarrow> byte list \<Rightarrow> epi_session \<Rightarrow> epi_server \<Rightarrow> epi_server" where
  "pty_data sr a ws tmp s srv =
     (let srv1 = on_sess sr (quiet (\<lambda>s. s\<lparr>s_out := epi_ring_write a (s_out s) tmp\<rparr>)) srv
      in case s_client s of
           None \<Rightarrow> srv1
         | Some cr \<Rightarrow> conn_update cr (conn_flush ws cr (reply cr (conn_queue a tmp) srv1)))"

definition pty_end :: "nat \<Rightarrow> wres list \<Rightarrow> epi_session \<Rightarrow> epi_server \<Rightarrow> epi_server" where
  "pty_end sr ws s srv =
     (let srv1 = on_sess sr (\<lambda>s. (s\<lparr>s_pty_master := -1\<rparr>, [Close (s_pty_master s)])) (ep_del (s_pty_master s) srv)
      in if s_removed s then remove_session sr srv1 else client_eof ws sr srv1)"

lemma pty_reads_step:
  "pty_reads sr (Pty res a ws # rs) srv =
     (case res of
        R_again \<Rightarrow> srv
      | R_intr \<Rightarrow> pty_reads sr rs srv
      | R_err \<Rightarrow> (case sess_at srv sr of None \<Rightarrow> srv | Some s \<Rightarrow> pty_end sr ws s srv)
      | R_data bs \<Rightarrow> (case sess_at srv sr of
            None \<Rightarrow> srv
          | Some s \<Rightarrow> if take PTY_READ_CHUNK bs \<noteq> []
                      then pty_reads sr rs (pty_data sr a ws (take PTY_READ_CHUNK bs) s srv)
                      else pty_end sr ws s srv))"
  by (cases res) (simp_all add: Let_def pty_data_def pty_end_def split: option.split)

lemma pty_data_inv: "srv_inv srv \<Longrightarrow> srv_inv (pty_data sr a ws tmp s srv)"
  by (auto simp: pty_data_def Let_def intro!: ring_store_inv conn_flush_inv reply_inv' split: option.split)

lemma pty_data_keys [simp]:
  "ckeys (pty_data sr a ws tmp s srv) = ckeys srv" "srefs (pty_data sr a ws tmp s srv) = srefs srv"
  by (simp_all add: pty_data_def Let_def split: option.split)

lemma pty_end_inv: "srv_inv srv \<Longrightarrow> srv_inv (pty_end sr ws s srv)"
  by (auto simp: pty_end_def Let_def intro!: remove_inv client_eof_inv pty_hangup_inv)

lemma pty_end_keys [simp]:
  "ckeys (pty_end sr ws s srv) = ckeys srv" "srefs (pty_end sr ws s srv) = srefs srv"
  by (simp_all add: pty_end_def Let_def srefs_on_sess)

lemma pty_reads_inv:
  "srv_inv srv \<Longrightarrow> srv_inv (pty_reads sr rs srv) \<and> ckeys (pty_reads sr rs srv) = ckeys srv \<and>
     srefs (pty_reads sr rs srv) = srefs srv"
proof (induction rs arbitrary: srv)
  case Nil
  then show ?case by simp
next
  case (Cons r rs)
  obtain res a ws where r: "r = Pty res a ws" by (cases r)
  show ?case unfolding r pty_reads_step
    using Cons.prems Cons.IH[OF Cons.prems] Cons.IH[OF pty_data_inv[OF Cons.prems]] pty_end_inv[OF Cons.prems]
    by (simp split: rres.split option.split)
qed

lemma pty_readable_inv:
  "srv_inv srv \<Longrightarrow> srv_inv (pty_readable sr rs srv) \<and> ckeys (pty_readable sr rs srv) = ckeys srv \<and>
     srefs (pty_readable sr rs srv) = srefs srv"
  using pty_reads_inv by (simp add: pty_readable_def split: option.split)

section \<open>Signals and new connections keep the objects\<close>

lemma reap_child_keys [simp]:
  "ckeys (reap_child pid status srv) = ckeys srv" "srefs (reap_child pid status srv) = srefs srv"
  by (simp_all add: reap_child_def Let_def split: option.split)

lemma reap_children_keys [simp]:
  "ckeys (reap_children ps srv) = ckeys srv" "srefs (reap_children ps srv) = srefs srv"
  by (induction ps srv rule: reap_children.induct) simp_all

lemma running_keys [simp]: "ckeys (srv\<lparr>running := v\<rparr>) = ckeys srv" "srefs (srv\<lparr>running := v\<rparr>) = srefs srv"
  by (simp_all add: ckeys_def srefs_def)

lemma signalfd_keys [simp]:
  "ckeys (handle_signalfd sigs srv) = ckeys srv" "srefs (handle_signalfd sigs srv) = srefs srv"
  by (induction sigs srv rule: handle_signalfd.induct) simp_all

lemma conn_close_keys:
  "crefs (conn_close cr srv) = filter (\<lambda>r. r \<noteq> cr) (crefs srv)" "srefs (conn_close cr srv) = srefs srv"
proof -
  have "map c_ref (filter (\<lambda>d. c_ref d \<noteq> cr) xs) = filter (\<lambda>r. r \<noteq> cr) (map c_ref xs)" for xs
    by (induction xs) auto
  moreover have "filter (\<lambda>r. r \<noteq> cr) (crefs srv) = crefs srv" if "conn_at srv cr = None"
    using that by (auto simp: conn_at_def find_None_iff crefs_def intro!: filter_True)
  ultimately show "crefs (conn_close cr srv) = filter (\<lambda>r. r \<noteq> cr) (crefs srv)"
    by (auto simp: conn_close_def Let_def crefs_def split: option.split)
  have "srefs (s\<lparr>conns := cs\<rparr>) = srefs s" for s cs by (simp add: srefs_def)
  then show "srefs (conn_close cr srv) = srefs srv"
    by (simp add: conn_close_def Let_def split: option.split)
qed

lemma accept_keys:
  "srv_inv srv \<Longrightarrow> set (crefs srv) \<subseteq> set (crefs (accept_conn as srv)) \<and> srefs (accept_conn as srv) = srefs srv"
proof (induction as srv rule: accept_conn.induct)
  case (5 fd a ok as srv)
  let ?srv1 = "srv\<lparr>conns := new_conn (next_ref srv) fd # conns srv, next_ref := next_ref srv + 1\<rparr>"
  obtain srv2 rc where ep: "ep_add ok fd ?srv1 = (srv2, rc)" by (cases "ep_add ok fd ?srv1")
  have s2: "srv2 = fst (ep_add ok fd ?srv1)" using ep by simp
  have 2: "srv_inv srv2" unfolding s2 using new_conn_inv[OF 5(3), of fd] by simp
  have k2: "crefs srv2 = next_ref srv # crefs srv" "srefs srv2 = srefs srv"
    unfolding s2 by (simp_all add: crefs_def new_conn_def) (simp add: srefs_def)
  have fresh: "next_ref srv \<notin> set (crefs srv)"
    using 5(3) by (auto simp: srv_inv_def inv_refs_def crefs_def)
  define srv3 where "srv3 = (if rc \<noteq> 0 then conn_close (next_ref srv) srv2 else srv2)"
  have 3: "srv_inv srv3" "set (crefs srv) \<subseteq> set (crefs srv3)" "srefs srv3 = srefs srv"
    using 2 conn_close_inv[OF 2] k2 fresh by (auto simp: srv3_def conn_close_keys)
  show ?case
  proof (cases "a sizeof_connection = None")
    case True
    have "crefs (emit [Close fd] srv) = crefs srv" by (simp add: crefs_def)
    then show ?thesis using 5(1)[OF True] 5(3) True by simp
  next
    case False
    from 5(2)[OF False refl refl ep[symmetric]] 3
    have "set (crefs srv3) \<subseteq> set (crefs (accept_conn as srv3)) \<and> srefs (accept_conn as srv3) = srefs srv3"
      by (simp add: srv3_def)
    moreover have "accept_conn (A_conn fd a ok # as) srv = accept_conn as srv3"
      using False ep by (auto simp: Let_def srv3_def)
    ultimately show ?thesis using 3 by auto
  qed
qed simp_all

section \<open>Events\<close>

declare handle_event.simps [simp del]

definition event_live :: "epi_server \<Rightarrow> event \<Rightarrow> bool" where
  "event_live srv ev =
     (case ev of
        Ev_pty sr _ _ _ _ \<Rightarrow> sess_at srv sr \<noteq> None
      | Ev_conn cr _ _ _ _ \<Rightarrow> conn_at srv cr \<noteq> None
      | _ \<Rightarrow> True)"

definition ev_conns :: "event \<Rightarrow> nat list" where
  "ev_conns ev = (case ev of Ev_conn cr _ _ _ _ \<Rightarrow> [cr] | _ \<Rightarrow> [])"

lemma ev_conns_simps [simp]:
  "ev_conns (Ev_listen as) = []" "ev_conns (Ev_signal sigs) = []" "ev_conns (Ev_pty sr o1 i1 ws rs) = []"
  "ev_conns (Ev_conn cr o1 i1 ws i) = [cr]"
  by (simp_all add: ev_conns_def)

lemma pty_flush_inv:
  fixes ws :: "wres list"
  defines "f \<equiv> \<lambda>s. case epi_session_flush_input ws s of (s', es, _) \<Rightarrow> (s', es)"
  assumes inv: "srv_inv srv"
  shows "srv_inv (on_sess sr f srv)" and "srefs (on_sess sr f srv) = srefs srv"
proof -
  have f: "fst (f s) = fst (epi_session_flush_input ws s)" for s by (simp add: f_def split: prod.split)
  show "srv_inv (on_sess sr f srv)"
  proof (rule on_sess_keep[OF inv])
    fix s assume "sess_ok s"
    then show "sess_ok (fst (f s))" unfolding f
      using same_but_pin_fields[OF flush_input_frame[of s ws]] flush_input_ok[of s ws]
      by (simp add: sess_ok_def)
  qed (simp_all only: f same_but_pin_fields[OF flush_input_frame])
  show "srefs (on_sess sr f srv) = srefs srv"
    by (rule srefs_on_sess) (simp only: f same_but_pin_fields[OF flush_input_frame])
qed

lemma event_pty_inv:
  assumes inv: "srv_inv srv"
  shows "srv_inv (handle_event (Ev_pty sr out inp ws rs) srv) \<and>
    ckeys (handle_event (Ev_pty sr out inp ws rs) srv) = ckeys srv \<and>
    srefs (handle_event (Ev_pty sr out inp ws rs) srv) = srefs srv"
proof -
  define srv1 where "srv1 = (if out
      then pty_update sr (on_sess sr (\<lambda>s. case epi_session_flush_input ws s of (s', es, _) \<Rightarrow> (s', es)) srv)
      else srv)"
  have 1: "srv_inv srv1" "ckeys srv1 = ckeys srv" "srefs srv1 = srefs srv"
    using inv pty_flush_inv[OF inv, of sr ws] by (simp_all add: srv1_def)
  have "handle_event (Ev_pty sr out inp ws rs) srv \<in> {srv, srv1, pty_readable sr rs srv1}"
    unfolding handle_event.simps Let_def srv1_def[symmetric] by (cases "sess_at srv sr") auto
  then show ?thesis using inv 1 pty_readable_inv[OF 1(1), of sr rs] by auto
qed

lemma event_conn_inv:
  assumes inv: "srv_inv srv"
  shows "srv_inv (handle_event (Ev_conn cr out inp ws i) srv) \<and>
    set (crefs srv) - {cr} \<subseteq> set (crefs (handle_event (Ev_conn cr out inp ws i) srv)) \<and>
    srefs srv \<subseteq> srefs (handle_event (Ev_conn cr out inp ws i) srv)"
proof -
  define srv1 where "srv1 = (if out then conn_flush ws cr srv else srv)"
  define srv2 where "srv2 = (if inp then conn_read i cr srv1 else srv1)"
  have 1: "srv_inv srv1" "crefs srv1 = crefs srv" "srefs srv1 = srefs srv"
    using inv conn_flush_inv[OF inv] crefs_of_ckeys[OF ckeys_flush] by (simp_all add: srv1_def)
  have 2: "srv_inv srv2" "crefs srv2 = crefs srv" "srefs srv \<subseteq> srefs srv2"
    using 1 conn_read_inv[OF 1(1), of i cr] by (simp_all add: srv2_def)
  have "handle_event (Ev_conn cr out inp ws i) srv \<in>
      {srv2, conn_update cr srv2, conn_close cr srv2, conn_close cr (conn_update cr srv2)}"
    unfolding handle_event.simps Let_def srv1_def[symmetric] srv2_def[symmetric]
    by (cases "conn_at srv2 cr") auto
  moreover have "srv_inv (conn_update cr srv2)" "crefs (conn_update cr srv2) = crefs srv2"
    using 2(1) by (simp_all add: crefs_def)
  ultimately show ?thesis
    using 2 conn_close_inv[OF 2(1)] conn_close_inv[of "conn_update cr srv2"] by (auto simp: conn_close_keys)
qed

lemma event_inv:
  assumes inv: "srv_inv srv"
  shows "srv_inv (handle_event ev srv)"
    and "set (crefs srv) - set (ev_conns ev) \<subseteq> set (crefs (handle_event ev srv))"
    and "srefs srv \<subseteq> srefs (handle_event ev srv)"
proof -
  have "srv_inv (handle_event ev srv) \<and> set (crefs srv) - set (ev_conns ev) \<subseteq> set (crefs (handle_event ev srv)) \<and>
      srefs srv \<subseteq> srefs (handle_event ev srv)"
  proof (cases ev)
    case (Ev_listen as)
    then show ?thesis using accept_inv[OF inv, of as] accept_keys[OF inv, of as] by (auto simp: handle_event.simps)
  next
    case (Ev_signal sigs)
    then show ?thesis using signalfd_inv[OF inv, of sigs] crefs_of_ckeys[OF signalfd_keys(1)[of sigs srv]]
      by (simp add: handle_event.simps)
  next
    case (Ev_pty sr out inp ws rs)
    have "crefs (handle_event ev srv) = crefs srv"
      unfolding Ev_pty by (rule crefs_of_ckeys) (use event_pty_inv[OF inv] in blast)
    then show ?thesis using event_pty_inv[OF inv, of sr out inp ws rs] unfolding Ev_pty by simp
  next
    case (Ev_conn cr out inp ws i)
    then show ?thesis using event_conn_inv[OF inv, of cr out inp ws i] by simp
  qed
  then show "srv_inv (handle_event ev srv)" "set (crefs srv) - set (ev_conns ev) \<subseteq> set (crefs (handle_event ev srv))"
    "srefs srv \<subseteq> srefs (handle_event ev srv)" by auto
qed

lemma conn_at_crefs: "conn_at srv cr \<noteq> None \<longleftrightarrow> cr \<in> set (crefs srv)"
  by (auto simp: conn_at_def crefs_def find_None_iff)

lemma event_live_other:
  assumes inv: "srv_inv srv" and "event_live srv ev'" and "set (ev_conns ev) \<inter> set (ev_conns ev') = {}"
  shows "event_live (handle_event ev srv) ev'"
  using assms(2,3) event_inv(2,3)[OF inv, of ev]
  by (cases ev') (auto simp: event_live_def conn_at_crefs sess_at_srefs simp del: not_None_eq)

section \<open>A system that keeps an invariant\<close>

text \<open>
  Steps that keep a predicate keep it along any sequence of them: the contract between a
  component's step function and everything that is claimed of its runs.
\<close>

locale invariant_system =
  fixes step :: "'e \<Rightarrow> 's \<Rightarrow> 's" and inv :: "'s \<Rightarrow> bool"
  assumes step_inv: "inv s \<Longrightarrow> inv (step e s)"
begin

lemma run_inv: "inv s \<Longrightarrow> inv (fold step es s)"
  by (induction es arbitrary: s) (auto simp: step_inv)

lemma prefix_inv: "inv s \<Longrightarrow> inv (fold step (take k es) s)"
  by (rule run_inv)

text \<open>A property of states that steps neither make nor break for others carries along a run.\<close>

lemma run_stable:
  assumes "inv s" and "\<And>s e. inv s \<Longrightarrow> e \<in> set es \<Longrightarrow> P s \<Longrightarrow> P (step e s)" and "P s"
  shows "P (fold step es s)"
  using assms
proof (induction es arbitrary: s)
  case (Cons e es)
  show ?case using Cons.IH[OF step_inv[OF Cons.prems(1)]] Cons.prems by simp
qed simp

end

interpretation events: invariant_system handle_event srv_inv
  by unfold_locales (rule event_inv(1))

lemma run_batch_inv: "srv_inv srv \<Longrightarrow> srv_inv (run_batch evs clk srv)"
  unfolding run_batch_def by (intro deadlines_inv reap_dead_inv events.run_inv)

interpretation batches: invariant_system "\<lambda>(evs, clk). run_batch evs clk" srv_inv
  by unfold_locales (auto intro: run_batch_inv)

lemma server_run_inv: "srv_inv srv \<Longrightarrow> srv_inv (epi_server_run ws srv)"
  by (induction ws srv rule: epi_server_run.induct) (auto intro: run_batch_inv split: wait.split)

lemma init_fields:
  assumes "epi_server_init e path = (srv, rc)"
  shows "sessions srv = [] \<and> dead srv = [] \<and> groups srv = [] \<and> conns srv = [] \<and> next_ref srv = 0 \<and>
    next_id srv = 0 \<and> next_group_id srv = 0 \<and> ids_issued srv = 0 \<and> gids_issued srv = 0 \<and> running srv \<and>
    instance_id srv = make_instance_id (i_random e) (i_now e) (i_pid e)"
  using assms
  by (auto simp: epi_server_init_def empty_server_def ep_add_def Let_def split: if_splits)

lemma init_inv: "epi_server_init e path = (srv, rc) \<Longrightarrow> srv_inv srv"
  using init_fields[of e path srv rc]
  by (simp add: srv_inv_def inv_refs_def inv_objs_def inv_groups_def inv_ids_def slinks_def clinks_def ids_below_def)

end
