(* ===== verification/Server_Props.thy ===== *)
theory Server_Props
  imports Server_Run
begin

text \<open>
  What the daemon promises, stated over the handlers and the loop of Server: the invariant of
  every run, the absence of dangling addresses, and the effect of each kind of request.
  \<open>demo_srv\<close> is a small server on which the theorems with hypotheses are applied.
\<close>

section \<open>A small server\<close>

definition demo_out :: epi_ring where
  "demo_out = \<lparr>r_buf = [104, 105, 33, 0], r_cap = 4, r_max_cap = EPI_RING_CAP, r_head = 0, r_size = 3\<rparr>"

definition demo_sess :: epi_session where
  "demo_sess = \<lparr>s_ref = 0, s_id = 1, s_group_id = 1, s_pid = 500, s_pty_master = 10, s_alive = True,
     s_killing = False, s_removed = False, s_defunct = False, s_created_at = 7, s_exit_status = 0,
     s_cwd = Some (lit ''/home''), s_out = demo_out, s_pin = [], s_pin_len = 0, s_pin_cap = 0,
     s_client = Some 2, s_kill_deadline = (0, 0)\<rparr>"

definition demo_srv :: epi_server where
  "demo_srv = empty_server\<lparr>next_id := 1, ids_issued := 1, next_group_id := 1, gids_issued := 1,
     instance_id := 9, sessions := [demo_sess],
     groups := [\<lparr>g_id = 1, g_blob = Some [5], g_blob_len = 1, g_created_at = 3\<rparr>],
     conns := [(new_conn 2 21)\<lparr>c_is_data := True, c_session := Some 0\<rparr>, new_conn 1 20],
     interest := (\<lambda>fd. if fd \<in> {10, 20, 21} then Some False else None), next_ref := 3\<rparr>"

definition demo_spawn :: spawn_env where
  "demo_spawn = \<lparr>sp_mem = alloc_ok, sp_environ = (\<lambda>_. None), sp_pw_dir = Some (lit ''/root''),
     sp_fork = Some (600, 11), sp_flags_ok = True, sp_now = 8\<rparr>"

definition demo_env :: env where
  "demo_env = \<lparr>e_mem = alloc_ok, e_spawn = demo_spawn, e_ep_ok = True, e_time = 8, e_mono = (50, 0)\<rparr>"

lemma demo_inv: "srv_inv demo_srv"
proof -
  note d = demo_srv_def empty_server_def demo_sess_def demo_out_def new_conn_def
  have "(a, b) \<in> slinks demo_srv \<longleftrightarrow> (a, b) \<in> clinks demo_srv" for a b
    unfolding in_slinks in_clinks by (auto simp: d)
  then have "slinks demo_srv = clinks demo_srv" by auto
  moreover have "inv_refs demo_srv" "inv_ids demo_srv" "inv_groups demo_srv"
    by (simp_all add: d inv_refs_def inv_ids_def inv_groups_def ids_below_def EPI_GROUP_MAX_def)
  moreover have "inv_objs demo_srv"
    by (simp add: d inv_objs_def sess_ok_def conn_ok_def ring_inv_def EPI_RING_CAP_def pin_ok_def
        group_wf_def blob_wf_def EPI_GROUP_BLOB_MAX_def)
  ultimately show ?thesis by (simp add: srv_inv_def)
qed

lemma demo_conn_at: "conn_at demo_srv 1 = Some (new_conn 1 20)"
  by (simp add: conn_at_def demo_srv_def new_conn_def)

section \<open>Every run\<close>

text \<open>C1. From its start, through any sequence of returns of epoll_wait with any results of any
  system call, the daemon's state keeps its invariant: addresses unique, buffers and rings within
  their blocks, attached clients and sessions pointing at each other, live sessions in existing
  groups, ids unique and below their counters, blob and group limits kept.\<close>

theorem every_run_keeps_invariant:
  assumes "epi_server_init e path = (srv, rc)"
  shows "srv_inv (epi_server_run ws srv)"
  by (rule server_run_inv[OF init_inv[OF assms]])

definition demo_init :: init_env where
  "demo_init = \<lparr>i_random = Some 9, i_now = (0, 0), i_pid = 1, i_epfd = 3, i_listen_fd = 4, i_bind_ok = True,
     i_listen_ok = True, i_add_listen_ok = True, i_mask_ok = True, i_sig_fd = 5, i_add_sig_ok = True\<rparr>"

theorem every_run_keeps_invariant_witness:
  "\<exists>srv. epi_server_init demo_init (lit ''/run/s'') = (srv, 0) \<and>
     srv_inv (epi_server_run [W_events [Ev_listen [A_conn 6 alloc_ok True]] (\<lambda>_. (0, 0)), W_interrupted] srv)"
proof -
  obtain srv where "epi_server_init demo_init (lit ''/run/s'') = (srv, 0)"
    by (simp add: epi_server_init_def demo_init_def ep_add_def Let_def lit_def SUN_PATH_MAX_def)
  then show ?thesis using every_run_keeps_invariant by blast
qed

text \<open>C2. No event of a batch is handled through a dangling address: if at the return of
  epoll_wait every source named by an event is registered, and no connection is named twice, then
  whatever the events before it did, the session or connection of the k-th event still exists when
  it is handled.\<close>

theorem batch_reaches_live_objects:
  assumes "srv_inv srv" and "\<forall>ev \<in> set evs. event_live srv ev" and "distinct (concat (map ev_conns evs))"
    and "k < length evs"
  shows "event_live (fold handle_event (take k evs) srv) (evs ! k)"
proof -
  have disj: "set (ev_conns ev) \<inter> set (ev_conns (evs ! k)) = {}" if "ev \<in> set (take k evs)" for ev
  proof -
    have "evs = take k evs @ evs ! k # drop (Suc k) evs" using assms(4) by (rule id_take_nth_drop)
    then have "distinct (concat (map ev_conns (take k evs @ evs ! k # drop (Suc k) evs)))" using assms(3) by simp
    then show ?thesis using that by (auto simp: distinct_append)
  qed
  show ?thesis
    by (rule events.run_stable[OF assms(1)])
      (use assms(2,4) disj event_live_other in \<open>auto simp: disjoint_iff\<close>)
qed

theorem batch_reaches_live_objects_witness:
  "event_live (handle_event (Ev_conn 2 False False [] \<lparr>in_res = R_again, in_mem = alloc_ok, in_pty = [],
       in_envs = (\<lambda>_. demo_env)\<rparr>) demo_srv) (Ev_pty 0 False True [] [])"
proof -
  let ?e1 = "Ev_conn 2 False False [] \<lparr>in_res = R_again, in_mem = alloc_ok, in_pty = [], in_envs = (\<lambda>_. demo_env)\<rparr>"
  let ?e2 = "Ev_pty 0 False True [] []"
  have "\<forall>ev \<in> set [?e1, ?e2]. event_live demo_srv ev"
    by (simp add: event_live_def conn_at_def sess_at_def demo_srv_def demo_sess_def new_conn_def)
  from batch_reaches_live_objects[OF demo_inv this, of 1] show ?thesis by simp
qed

section \<open>Requests and replies as bytes\<close>

lemma rd_at_init: "rd_at (epi_rd_init bs) bs"
  by (simp add: rd_at_def rd_ok_def epi_rd_init_def)

lemma rd_at_more:
  assumes "rd_at r bs"
  shows "(rd_pos r < rd_len r) = (bs \<noteq> [])" and "\<not> rd_err r"
proof -
  have "drop (rd_pos r) (rd_data r) = bs" "rd_pos r \<le> rd_len r" using assms by (auto simp: rd_at_def rd_ok_def)
  then show "(rd_pos r < rd_len r) = (bs \<noteq> [])" by auto
  show "\<not> rd_err r" using assms by (simp add: rd_at_def)
qed

lemma rd_u64_init:
  obtains r1 where "epi_rd_u64 (epi_rd_init (le64 v @ rest)) = (v, r1)" "rd_at r1 rest"
  using rd_u64_at[OF rd_at_init[of "le64 v @ rest"]] by blast

lemma rd_u64_init_only:
  obtains r1 where "epi_rd_u64 (epi_rd_init (le64 v)) = (v, r1)" "rd_at r1 []"
  using rd_u64_init[of v "[]"] by auto

text \<open>A reply built by writers after the start is queued as its frame, when memory holds.\<close>

lemma queue_reply:
  assumes "buf_app (epi_msg_start a t) b body" and "\<not> b_oom b"
  shows "conn_queue_frame a (epi_msg_end b) = conn_queue a (frame t body)"
  using msg_end_frame[OF assms(1)] assms(2) by (auto simp: conn_queue_frame_def buf_bytes_def[symmetric])

lemmas buf_steps = buf_writes[THEN appends_trans[rotated]]

definition enc_info :: "epi_session \<Rightarrow> byte list" where
  "enc_info s = le64 (s_id s) @ le32 (word_of_int (s_pid s)) @ [if s_alive s then 1 else 0] @
     [if s_client s \<noteq> None then 1 else 0] @ le64 (word_of_int (s_created_at s)) @
     enc_str (Some (case s_cwd s of None \<Rightarrow> [] | Some w \<Rightarrow> w))"

lemma put_session_info_appends [buf_writes]: "buf_app b (put_session_info a s b) (enc_info s)"
  unfolding put_session_info_def enc_info_def Let_def append_assoc[symmetric]
  by (rule buf_steps buf_writes)+

lemma put_session_info_oom [simp]: "never_fails a \<Longrightarrow> b_oom (put_session_info a s b) = b_oom b"
  by (simp add: put_session_info_def Let_def)

lemma fold_writes:
  assumes "\<And>x b. buf_app b (f x b) (enc x)"
  shows "buf_app b (fold f xs b) (concat (map enc xs))"
proof (induction xs arbitrary: b)
  case Nil
  then show ?case by (simp add: appends_refl)
next
  case (Cons x xs)
  show ?case using appends_trans[OF assms[of b x] Cons.IH[of "f x b"]] by simp
qed

lemma fold_oom: "(\<And>x b. b_oom (f x b) = b_oom b) \<Longrightarrow> b_oom (fold f xs b) = b_oom b"
  by (induction xs arbitrary: b) auto

lemma msg_start_oom [simp]: "never_fails a \<Longrightarrow> \<not> b_oom (epi_msg_start a t)"
  by simp

section \<open>Requests that only answer\<close>

lemma peek_answer:
  assumes "srv_inv srv" and "never_fails (e_mem e)" and "find_session srv i False = Some s"
  shows "handle_peek e cr (epi_rd_init (le64 i @ le32 m)) srv =
      reply cr (conn_queue (e_mem e) (frame EPI_MSG_PEEK_REPLY
        (le64 i @ enc_blob (lastn (unat m) (ring_contents (s_out s))) @ le64 (word_of_nat (r_size (s_out s)))))) srv \<and>
    handle_peek e cr (epi_rd_init (le64 i)) srv =
      reply cr (conn_queue (e_mem e) (frame EPI_MSG_PEEK_REPLY
        (le64 i @ enc_blob (lastn EPI_PEEK_DEFAULT_BYTES (ring_contents (s_out s))) @
         le64 (word_of_nat (r_size (s_out s)))))) srv"
proof -
  let ?a = "e_mem e"
  have s: "s_id s = i" "ring_inv (s_out s)"
    using find_sessionD[OF assms(3)] live_at(2)[OF assms(1)] by (auto simp: sess_ok_def)
  have tail: "(case epi_ring_snapshot_tail ?a (s_out s) n of (tail, len) \<Rightarrow>
      (case tail of None \<Rightarrow> [] | Some t \<Rightarrow> take len t)) = lastn n (ring_contents (s_out s))" for n
    using epi_ring_snapshot_tail_contents[OF s(2), of ?a n] assms(2) s(2)
    by (auto simp: lastn_def ring_contents_length)
  have body: "conn_queue_frame ?a (peek_reply ?a s n) = conn_queue ?a (frame EPI_MSG_PEEK_REPLY
      (le64 i @ enc_blob (lastn n (ring_contents (s_out s))) @ le64 (word_of_nat (r_size (s_out s)))))" for n
  proof -
    obtain t len where t: "epi_ring_snapshot_tail ?a (s_out s) n = (t, len)" by force
    let ?b = "epi_buf_put_u64 ?a (epi_buf_put_blob ?a (epi_buf_put_u64 ?a (epi_msg_start ?a EPI_MSG_PEEK_REPLY) i)
        (lastn n (ring_contents (s_out s)))) (word_of_nat (r_size (s_out s)))"
    have "peek_reply ?a s n = epi_msg_end ?b"
      using tail[of n] by (simp add: peek_reply_def Let_def s(1) t)
    moreover have "buf_app (epi_msg_start ?a EPI_MSG_PEEK_REPLY) ?b
        (le64 i @ enc_blob (lastn n (ring_contents (s_out s))) @ le64 (word_of_nat (r_size (s_out s))))"
      unfolding append_assoc[symmetric] by (rule buf_steps buf_writes)+
    ultimately show ?thesis using queue_reply assms(2) by simp
  qed
  show "handle_peek e cr (epi_rd_init (le64 i @ le32 m)) srv =
      reply cr (conn_queue ?a (frame EPI_MSG_PEEK_REPLY
        (le64 i @ enc_blob (lastn (unat m) (ring_contents (s_out s))) @ le64 (word_of_nat (r_size (s_out s)))))) srv \<and>
    handle_peek e cr (epi_rd_init (le64 i)) srv =
      reply cr (conn_queue ?a (frame EPI_MSG_PEEK_REPLY
        (le64 i @ enc_blob (lastn EPI_PEEK_DEFAULT_BYTES (ring_contents (s_out s))) @
         le64 (word_of_nat (r_size (s_out s)))))) srv"
  proof
    obtain r1 where r1: "epi_rd_u64 (epi_rd_init (le64 i @ le32 m)) = (i, r1)" "rd_at r1 (le32 m)"
      by (rule rd_u64_init)
    obtain r2 where r2: "epi_rd_u32 r1 = (m, r2)" "rd_at r2 []" using rd_u32_at[of r1 m "[]"] r1(2) by auto
    have "le32 m \<noteq> []" by (simp add: le32_def)
    then show "handle_peek e cr (epi_rd_init (le64 i @ le32 m)) srv =
      reply cr (conn_queue ?a (frame EPI_MSG_PEEK_REPLY
        (le64 i @ enc_blob (lastn (unat m) (ring_contents (s_out s))) @ le64 (word_of_nat (r_size (s_out s)))))) srv"
      using rd_at_more[OF r1(2)] rd_at_more(2)[OF r2(2)] r1(1) r2(1) assms(3)
      by (simp add: handle_peek_def Let_def body)
    obtain r3 where r3: "epi_rd_u64 (epi_rd_init (le64 i)) = (i, r3)" "rd_at r3 []" by (rule rd_u64_init_only)
    have "unat (word_of_nat EPI_PEEK_DEFAULT_BYTES :: u32) = EPI_PEEK_DEFAULT_BYTES"
      by (rule of_nat_u32) (simp add: EPI_PEEK_DEFAULT_BYTES_def)
    then show "handle_peek e cr (epi_rd_init (le64 i)) srv =
      reply cr (conn_queue ?a (frame EPI_MSG_PEEK_REPLY
        (le64 i @ enc_blob (lastn EPI_PEEK_DEFAULT_BYTES (ring_contents (s_out s))) @
         le64 (word_of_nat (r_size (s_out s)))))) srv"
      using rd_at_more[OF r3(2)] r3(1) assms(3) by (simp add: handle_peek_def Let_def body)
  qed
qed

text \<open>PEEK changes nothing but the requester's output: it answers with exactly the last
  \<open>max_bytes\<close> bytes of the session's ring (64 KiB worth when the field is absent), the session's
  id and the ring's size, and no session, group, attachment or PTY is touched.\<close>

theorem peek_is_readonly:
  assumes "srv_inv srv" and "never_fails (e_mem e)" and "find_session srv i False = Some s"
  shows "handle_peek e cr (epi_rd_init (le64 i @ le32 m)) srv =
      reply cr (conn_queue (e_mem e) (frame EPI_MSG_PEEK_REPLY
        (le64 i @ enc_blob (lastn (unat m) (ring_contents (s_out s))) @ le64 (word_of_nat (r_size (s_out s)))))) srv \<and>
    handle_peek e cr (epi_rd_init (le64 i)) srv =
      reply cr (conn_queue (e_mem e) (frame EPI_MSG_PEEK_REPLY
        (le64 i @ enc_blob (lastn EPI_PEEK_DEFAULT_BYTES (ring_contents (s_out s))) @
         le64 (word_of_nat (r_size (s_out s)))))) srv"
  using peek_answer[OF assms] .

theorem peek_is_readonly_witness:
  "\<exists>srv'. handle_peek demo_env 1 (epi_rd_init (le64 1 @ le32 2)) demo_srv = srv' \<and>
     srv' = reply 1 (conn_queue alloc_ok (frame EPI_MSG_PEEK_REPLY (le64 1 @ enc_blob [105, 33] @ le64 3))) demo_srv"
proof -
  have f: "find_session demo_srv 1 False = Some demo_sess"
    by (simp add: find_session_def demo_srv_def demo_sess_def)
  have a: "e_mem demo_env = alloc_ok" by (simp add: demo_env_def)
  have r: "lastn (unat (2 :: u32)) (ring_contents (s_out demo_sess)) = [105, 33]" "r_size (s_out demo_sess) = 3"
    by (simp_all add: demo_sess_def demo_out_def ring_contents_def bytes_at_def lastn_def)
  show ?thesis
    using peek_is_readonly[OF demo_inv _ f, of demo_env 1 2] a r by simp
qed

section \<open>Attaching, killing, grouping\<close>

text \<open>What detaching does to the connections: only the client of that session is dropped.\<close>

lemma detach_conn_at:
  assumes "sess_at srv sr = Some s"
  shows "conn_at (detach_client sr srv) cr =
    (if s_client s = Some cr then map_option (\<lambda>c. fst (conn_drop c)) (conn_at srv cr) else conn_at srv cr)"
  using assms by (cases "s_client s") (auto simp: detach_client_def conn_at_on_conn)

lemma conn_at_quiet:
  assumes "\<And>c. c_ref (f c) = c_ref c"
  shows "conn_at (reply cr f srv) cr' = (if cr' = cr then map_option f (conn_at srv cr) else conn_at srv cr')"
  by (subst conn_at_on_conn) (auto simp: quiet_def assms)

lemma sess_at_quiet:
  assumes "\<And>s. s_ref (f s) = s_ref s"
  shows "sess_at (on_sess sr (quiet f) srv) sr' = (if sr' = sr then map_option f (sess_at srv sr) else sess_at srv sr')"
  by (subst sess_at_on_sess) (auto simp: quiet_def assms)

lemma queue_out:
  assumes "conn_ok c" and "never_fails a"
  shows "out_bytes (conn_queue a data c) = out_bytes c @ data" and "conn_ok (conn_queue a data c)"
    and "same_conn c (conn_queue a data c)"
  using queue_spec[OF assms(1), of a data] assms(2) by auto

lemma conn_queue_nil [simp]: "conn_queue a [] c = c"
  by (simp add: conn_queue_def)

lemma keep_comp: "conn_keep f \<Longrightarrow> conn_keep g \<Longrightarrow> conn_keep (f \<circ> g)"
  unfolding conn_keep_def comp_def using same_conn_trans by blast

text \<open>C4. ATTACH turns the requesting connection into the data channel of the session: it is told
  the session's details, then gets the ring's whole contents, after whatever was still queued for
  it; the session points at it and at nothing else, and the client attached before is dropped and
  will be closed.\<close>

theorem attach_replays_and_takes_over:
  assumes inv: "srv_inv srv" and mem: "never_fails (e_mem e)" and find: "find_session srv i False = Some s"
    and c: "conn_at srv cr = Some c" "\<not> c_is_data c"
  shows "\<exists>c'. conn_at (handle_attach e cr (epi_rd_init (le64 i)) srv) cr = Some c' \<and>
      c_is_data c' \<and> c_session c' = Some (s_ref s) \<and>
      out_bytes c' = out_bytes c @ frame EPI_MSG_ATTACHED (enc_info (s\<lparr>s_client := Some cr\<rparr>)) @ ring_contents (s_out s) \<and>
      sess_at (handle_attach e cr (epi_rd_init (le64 i)) srv) (s_ref s) = Some (s\<lparr>s_client := Some cr\<rparr>) \<and>
      (\<forall>old d. s_client s = Some old \<and> conn_at srv old = Some d \<longrightarrow>
         conn_at (handle_attach e cr (epi_rd_init (le64 i)) srv) old = Some (d\<lparr>c_session := None, c_want_close := True\<rparr>))"
proof -
  let ?a = "e_mem e"
  obtain r1 where r1: "epi_rd_u64 (epi_rd_init (le64 i)) = (i, r1)" "rd_at r1 []" by (rule rd_u64_init_only)
  have s: "s \<in> set (sessions srv)" using find_sessionD[OF find] by auto
  note at = live_at[OF inv s]
  have cok: "conn_ok c" "c_ref c = cr" using conn_objs[OF inv c(1)] by auto
  have other: "s_client s \<noteq> Some cr" using client_linked[OF inv at(1)] c cok(1) by (fastforce simp: conn_ok_def)
  define srv1 where "srv1 = (if s_client s \<noteq> None \<and> s_client s \<noteq> Some cr then detach_client (s_ref s) srv else srv)"
  have at1: "sess_at srv1 (s_ref s) = Some (clear_client s)"
    using at(1) other by (cases "s_client s") (auto simp: srv1_def detach_sess_at)
  have c1: "conn_at srv1 x = (if s_client s = Some x then map_option (\<lambda>c. fst (conn_drop c)) (conn_at srv x)
      else conn_at srv x)" for x
    using detach_conn_at[OF at(1), of x] other by (cases "s_client s") (auto simp: srv1_def)
  define s' where "s' = s\<lparr>s_client := Some cr\<rparr>"
  define c2 where "c2 = c\<lparr>c_is_data := True, c_session := Some (s_ref s)\<rparr>"
  define srv3 where "srv3 = on_sess (s_ref s) (quiet (\<lambda>s. s\<lparr>s_client := Some cr\<rparr>))
      (reply cr (\<lambda>c. c\<lparr>c_is_data := True, c_session := Some (s_ref s)\<rparr>) srv1)"
  have at3: "sess_at srv3 (s_ref s) = Some s'" using at1 by (simp add: srv3_def sess_at_quiet s'_def)
  have c3: "conn_at srv3 x = (if x = cr then Some c2 else conn_at srv1 x)" for x
    using c1 other c(1) by (simp add: srv3_def conn_at_quiet c2_def)
  define b where "b = put_session_info ?a s' (epi_msg_start ?a EPI_MSG_ATTACHED)"
  define q where "q = conn_queue ?a (ring_contents (s_out s)) \<circ> conn_queue_frame ?a (epi_msg_end b)"
  have "buf_app (epi_msg_start ?a EPI_MSG_ATTACHED) b (enc_info s')" unfolding b_def by (rule buf_writes)
  then have qf: "conn_queue_frame ?a (epi_msg_end b) = conn_queue ?a (frame EPI_MSG_ATTACHED (enc_info s'))"
    by (rule queue_reply) (simp add: b_def mem)
  have ring: "ring_inv (s_out s)" using at(2) by (simp add: sess_ok_def)
  have keepq: "conn_keep q" unfolding q_def by (rule keep_comp[OF queue_keep queue_frame_keep])
  define srv4 where "srv4 = reply cr (conn_queue_frame ?a (epi_msg_end b)) srv3"
  have hx: "handle_attach e cr (epi_rd_init (le64 i)) srv =
      (case epi_ring_snapshot ?a (s_out s) of
        (None, _) \<Rightarrow> srv4 | (Some snap, n) \<Rightarrow> reply cr (conn_queue ?a (take n snap)) srv4)"
  proof -
    have s3: "the (sess_at srv3 (s_ref s)) = s'" "s_out s' = s_out s" using at3 by (simp_all add: s'_def)
    show ?thesis
      unfolding handle_attach_def Let_def r1(1) prod.case if_not_P[OF rd_at_more(2)[OF r1(2)]] find option.case
        srv1_def[symmetric] srv3_def[symmetric] s3 b_def[symmetric] srv4_def[symmetric] ..
  qed
  have none: "ring_contents (s_out s) = []" if "r_size (s_out s) = 0"
    using ring_contents_length[OF ring] that by simp
  have h: "conn_at (handle_attach e cr (epi_rd_init (le64 i)) srv) x =
       (if x = cr then Some (q c2) else conn_at srv3 x) \<and>
     sess_at (handle_attach e cr (epi_rd_init (le64 i)) srv) (s_ref s) = Some s'" for x
    unfolding hx epi_ring_snapshot_contents[OF ring] using mem c3 at3 ring none
    by (auto simp: srv4_def reply_conn_at q_def)
  have ok2: "conn_ok c2" "out_bytes c2 = out_bytes c" using cok by (simp_all add: c2_def conn_ok_def out_bytes_def)
  have "out_bytes (q c2) = out_bytes c @ frame EPI_MSG_ATTACHED (enc_info s') @ ring_contents (s_out s)"
    using queue_out[OF ok2(1) mem] queue_out[OF queue_out(2)[OF ok2(1) mem] mem] ok2(2) by (simp add: q_def qf)
  moreover have "same_conn c2 (q c2)" using keepq by (simp add: conn_keep_def)
  ultimately have "conn_at (handle_attach e cr (epi_rd_init (le64 i)) srv) cr = Some (q c2) \<and>
      c_is_data (q c2) \<and> c_session (q c2) = Some (s_ref s) \<and>
      out_bytes (q c2) = out_bytes c @ frame EPI_MSG_ATTACHED (enc_info s') @ ring_contents (s_out s)"
    using h by (simp add: same_conn_def c2_def)
  moreover have "conn_at (handle_attach e cr (epi_rd_init (le64 i)) srv) old = Some (d\<lparr>c_session := None, c_want_close := True\<rparr>)"
    if "s_client s = Some old" "conn_at srv old = Some d" for old d
    using h[of old] c3[of old] c1[of old] that other by (auto simp: conn_drop_def)
  ultimately show ?thesis using h unfolding s'_def by blast
qed

theorem attach_replays_and_takes_over_witness:
  "conn_at (handle_attach demo_env 1 (epi_rd_init (le64 1)) demo_srv) 2 =
     Some ((new_conn 2 21)\<lparr>c_is_data := True, c_want_close := True\<rparr>)"
proof -
  have f: "find_session demo_srv 1 False = Some demo_sess"
    by (simp add: find_session_def demo_srv_def demo_sess_def)
  have m: "never_fails (e_mem demo_env)" by (simp add: demo_env_def)
  have old: "s_client demo_sess = Some 2" "conn_at demo_srv 2 = Some ((new_conn 2 21)\<lparr>c_is_data := True, c_session := Some 0\<rparr>)"
    by (simp_all add: demo_sess_def demo_srv_def conn_at_def new_conn_def)
  have "\<not> c_is_data (new_conn 1 20)" by (simp add: new_conn_def)
  from attach_replays_and_takes_over[OF demo_inv m f demo_conn_at this] old
  show ?thesis by (auto simp: new_conn_def)
qed

lemma remove_first_filter: "distinct (map k xs) \<Longrightarrow> remove_first (\<lambda>x. k x = i) xs = filter (\<lambda>x. k x \<noteq> i) xs"
proof (induction xs)
  case (Cons x xs)
  have "filter (\<lambda>y. k y \<noteq> i) xs = xs" if "k x = i"
    using Cons.prems that by (intro filter_True) (force simp: image_iff)
  then show ?case using Cons by simp
qed simp

lemma gc_spec:
  assumes "length (sessions srv) < 2 ^ 32" and "distinct (map g_id (groups srv))"
  shows "groups (gc_group_if_empty gid srv) =
    (if gid \<noteq> 0 \<and> (\<forall>s \<in> set (sessions srv). \<not> session_in_group s gid)
     then filter (\<lambda>g. g_id g \<noteq> gid) (groups srv) else groups srv)"
  unfolding gc_groups count_members_0[OF assms(1)] remove_first_filter[OF assms(2)] ..

lemma unique_id:
  assumes "srv_inv srv" and "ids_issued srv < 2 ^ 64" and "s \<in> set (sessions srv)" and "t \<in> set (sessions srv)"
    and "s_id s = s_id t"
  shows "s = t"
  using assms by (auto simp: srv_inv_def inv_ids_def ids_below_def distinct_map inj_on_def)

lemma distinct_gids: "srv_inv srv \<Longrightarrow> gids_issued srv < 2 ^ 64 \<Longrightarrow> distinct (map g_id (groups srv))"
  by (simp add: srv_inv_def inv_ids_def ids_below_def)

text \<open>The sessions after an operation on one session of the live list, as a replacement in place.\<close>

definition replace_sess :: "epi_session \<Rightarrow> epi_session \<Rightarrow> epi_session list \<Rightarrow> epi_session list" where
  "replace_sess s s' ss = map (\<lambda>t. if t = s then s' else t) ss"

lemma replace_at:
  assumes inv: "srv_inv srv" and s: "s \<in> set (sessions srv)"
  shows "map (\<lambda>t. if s_ref t = s_ref s then f t else t) (sessions srv) = replace_sess s (f s) (sessions srv)"
proof -
  have "s_ref t = s_ref s \<longleftrightarrow> t = s" if "t \<in> set (sessions srv)" for t
    using live_at(1)[OF inv that] live_at(1)[OF inv s] by (metis option.inject)
  then show ?thesis unfolding replace_sess_def by (intro map_cong) auto
qed

lemma sessions_on_sess:
  assumes inv: "srv_inv srv" and s: "s \<in> set (sessions srv)"
  shows "sessions (on_sess (s_ref s) f srv) = replace_sess s (fst (f s)) (sessions srv)"
  unfolding sess_on_sess(1)[OF live_at(1)[OF inv s]] by (rule replace_at[OF inv s])

lemma sessions_detach:
  assumes inv: "srv_inv srv" and s: "s \<in> set (sessions srv)"
  shows "sessions (detach_client (s_ref s) srv) = replace_sess s (clear_client s) (sessions srv)"
  unfolding detach_lists(2)[OF inv live_at(1)[OF inv s]] by (rule replace_at[OF inv s])

lemma replace_twice: "s' \<notin> set ss - {s} \<Longrightarrow> replace_sess s' s'' (replace_sess s s' ss) = replace_sess s s'' ss"
  unfolding replace_sess_def map_map comp_def by (intro map_cong) auto

lemma replace_mem: "s \<in> set ss \<Longrightarrow> t \<in> set (replace_sess s s' ss) \<longleftrightarrow> t = s' \<or> t \<in> set ss \<and> t \<noteq> s"
  unfolding replace_sess_def by auto

lemma replace_ball:
  "s \<in> set ss \<Longrightarrow> (\<forall>t \<in> set (replace_sess s s' ss). P t) \<longleftrightarrow> P s' \<and> (\<forall>t \<in> set ss. t \<noteq> s \<longrightarrow> P t)"
  unfolding replace_sess_def by auto

lemma replace_length [simp]: "length (replace_sess s s' ss) = length ss"
  by (simp add: replace_sess_def)

lemma same_ref_other:
  assumes "srv_inv srv" and "s \<in> set (sessions srv)" and "s_ref s' = s_ref s"
  shows "s' \<notin> set (sessions srv) - {s}"
  using live_at(1)[OF assms(1)] assms(2,3) by (metis DiffD1 DiffD2 insertCI option.inject)

definition other_member :: "epi_server \<Rightarrow> epi_session \<Rightarrow> u64 \<Rightarrow> bool" where
  "other_member srv s gid \<longleftrightarrow> (\<exists>t \<in> set (sessions srv). t \<noteq> s \<and> session_in_group t gid)"

definition killed :: "env \<Rightarrow> epi_session \<Rightarrow> epi_session" where
  "killed e s = s\<lparr>s_client := None, s_killing := True, s_removed := True,
     s_kill_deadline := (fst (e_mono e) + 2, snd (e_mono e))\<rparr>"

text \<open>C5. KILL of a running session sends it SIGHUP, detaches its client, hides it at once from
  every lookup, arms the SIGKILL deadline two seconds ahead, leaves every other session as it is,
  and destroys its group exactly when no other visible session is a member.\<close>

theorem kill_running_session:
  assumes inv: "srv_inv srv" and few: "few_ids srv" "gids_issued srv < 2 ^ 64"
    and find: "find_session srv i False = Some s" and alive: "s_alive s"
  shows "sessions (handle_kill e cr (epi_rd_init (le64 i)) srv) = replace_sess s (killed e s) (sessions srv) \<and>
    find_session (handle_kill e cr (epi_rd_init (le64 i)) srv) i False = None \<and>
    (\<exists>es. sys (handle_kill e cr (epi_rd_init (le64 i)) srv) = sys srv @ es @ epi_session_hangup s) \<and>
    groups (handle_kill e cr (epi_rd_init (le64 i)) srv) =
      (if s_group_id s \<noteq> 0 \<and> \<not> other_member srv s (s_group_id s)
       then filter (\<lambda>g. g_id g \<noteq> s_group_id s) (groups srv) else groups srv)"
proof -
  let ?a = "e_mem e"
  obtain r1 where r1: "epi_rd_u64 (epi_rd_init (le64 i)) = (i, r1)" "rd_at r1 []" by (rule rd_u64_init_only)
  have s: "s \<in> set (sessions srv)" "s_id s = i" "\<not> s_removed s" using find_sessionD[OF find] by auto
  note at = live_at[OF inv s(1)]
  define srv1 where "srv1 = detach_client (s_ref s) srv"
  define f where "f = (\<lambda>s. (s\<lparr>s_killing := True, s_removed := True,
      s_kill_deadline := (fst (e_mono e) + KILL_GRACE_MS div 1000, snd (e_mono e))\<rparr>, epi_session_hangup s))"
  define srv2 where "srv2 = on_sess (s_ref s) f srv1"
  have h: "handle_kill e cr (epi_rd_init (le64 i)) srv = reply cr (send_ok ?a) (gc_group_if_empty (s_group_id s) srv2)"
    using r1 rd_at_more(2)[OF r1(2)] find alive
    by (simp add: handle_kill_def Let_def srv1_def srv2_def f_def)
  have inv1: "srv_inv srv1" unfolding srv1_def by (rule detach_inv[OF inv])
  have s1: "clear_client s \<in> set (sessions srv1)" "sessions srv1 = replace_sess s (clear_client s) (sessions srv)"
    using s(1) by (simp_all add: srv1_def sessions_detach[OF inv s(1)] replace_mem)
  have fs: "fst (f (clear_client s)) = killed e s" "snd (f (clear_client s)) = epi_session_hangup s"
    by (simp_all add: f_def killed_def KILL_GRACE_MS_def epi_session_hangup_def)
  have s2: "sessions srv2 = replace_sess s (killed e s) (sessions srv)"
    using sessions_on_sess[OF inv1 s1(1), of f] replace_twice[OF same_ref_other[OF inv s(1), of "clear_client s"]]
    by (simp add: srv2_def s1(2) fs)
  have ses: "sessions (handle_kill e cr (epi_rd_init (le64 i)) srv) = replace_sess s (killed e s) (sessions srv)"
    unfolding h by (simp add: s2)
  have "\<not> (s_id t = i \<and> \<not> s_removed t)" if "t \<in> set (replace_sess s (killed e s) (sessions srv))" for t
  proof -
    have "ids_issued srv < 2 ^ 64" using few(1) by (simp add: few_ids_def)
    then have "s_id t \<noteq> i" if "t \<in> set (sessions srv)" "t \<noteq> s"
      using unique_id[OF inv _ that(1) s(1)] s(2) that(2) by metis
    then show ?thesis using that unfolding replace_mem[OF s(1)] by (auto simp: killed_def)
  qed
  then have hidden: "find_session (handle_kill e cr (epi_rd_init (le64 i)) srv) i False = None"
    unfolding find_session_def ses by (auto simp: find_None_iff)
  have gr1: "groups srv2 = groups srv" by (simp add: srv2_def srv1_def)
  have gr2: "length (sessions srv2) < 2 ^ 32" using few_ids_length[OF inv few(1)] by (simp add: s2)
  have mem: "(\<forall>t \<in> set (sessions srv2). \<not> session_in_group t g) \<longleftrightarrow> \<not> other_member srv s g" for g
    unfolding s2 other_member_def replace_ball[OF s(1)] by (auto simp: session_in_group_def killed_def)
  have "groups (handle_kill e cr (epi_rd_init (le64 i)) srv) = groups (gc_group_if_empty (s_group_id s) srv2)"
    unfolding h by simp
  also have "\<dots> = (if s_group_id s \<noteq> 0 \<and> \<not> other_member srv s (s_group_id s)
       then filter (\<lambda>g. g_id g \<noteq> s_group_id s) (groups srv) else groups srv)"
    using gc_spec[OF gr2, of "s_group_id s"] distinct_gids[OF inv few(2)] unfolding gr1 mem by simp
  finally have grp: "groups (handle_kill e cr (epi_rd_init (le64 i)) srv) = \<dots>" .
  have sysr: "sys (reply c g v) = sys v" "sys (gc_group_if_empty gid v) = sys v" for c g gid v
    by (simp_all add: on_conn_def quiet_def emit_def gc_group_if_empty_def unlink_group_def split: option.split)
  have "\<exists>es. sys srv1 = sys srv @ es"
    by (auto simp: srv1_def detach_client_def conn_update_def ep_mod_def on_conn_def on_sess_def emit_def
        split: option.split)
  moreover have "sys srv2 = sys srv1 @ epi_session_hangup s"
    using live_at(1)[OF inv1 s1(1)] fs by (simp add: srv2_def on_sess_def emit_def)
  ultimately have "\<exists>es. sys (handle_kill e cr (epi_rd_init (le64 i)) srv) = sys srv @ es @ epi_session_hangup s"
    unfolding h sysr by auto
  then show ?thesis using ses hidden grp by blast
qed

lemma demo_find: "find_session demo_srv 1 False = Some demo_sess"
  by (simp add: find_session_def demo_srv_def demo_sess_def)

lemma demo_few: "few_ids demo_srv" "gids_issued demo_srv < 2 ^ 64"
  by (simp_all add: few_ids_def demo_srv_def)

theorem kill_running_session_witness:
  "groups (handle_kill demo_env 1 (epi_rd_init (le64 1)) demo_srv) = [] \<and>
   find_session (handle_kill demo_env 1 (epi_rd_init (le64 1)) demo_srv) 1 False = None"
proof -
  have alive: "s_alive demo_sess" by (simp add: demo_sess_def)
  have g: "\<not> other_member demo_srv demo_sess (s_group_id demo_sess)" "s_group_id demo_sess = 1"
    "filter (\<lambda>g. g_id g \<noteq> 1) (groups demo_srv) = []"
    by (simp_all add: other_member_def demo_srv_def demo_sess_def)
  show ?thesis using kill_running_session[OF demo_inv demo_few demo_find alive, of demo_env 1] g by simp
qed

text \<open>C6. GROUP_ADD moves the session to the named group in one step: the target group stays, the
  group it came from is destroyed exactly when no other visible session is left in it, every other
  group and session is kept as it is.\<close>

theorem group_add_moves_session:
  assumes inv: "srv_inv srv" and few: "few_ids srv" "gids_issued srv < 2 ^ 64"
    and find: "find_session srv i False = Some s" and target: "find_group srv gid \<noteq> None"
  shows "sessions (handle_group_add e cr (epi_rd_init (le64 gid @ le64 i)) srv)
        = replace_sess s (s\<lparr>s_group_id := gid\<rparr>) (sessions srv) \<and>
    groups (handle_group_add e cr (epi_rd_init (le64 gid @ le64 i)) srv) =
      (if s_group_id s \<noteq> 0 \<and> s_group_id s \<noteq> gid \<and> \<not> other_member srv s (s_group_id s)
       then filter (\<lambda>g. g_id g \<noteq> s_group_id s) (groups srv) else groups srv)"
proof -
  let ?a = "e_mem e"
  obtain r1 where r1: "epi_rd_u64 (epi_rd_init (le64 gid @ le64 i)) = (gid, r1)" "rd_at r1 (le64 i)"
    by (rule rd_u64_init)
  obtain r2 where r2: "epi_rd_u64 r1 = (i, r2)" "rd_at r2 []" using rd_u64_at[of r1 i "[]"] r1(2) by auto
  have s: "s \<in> set (sessions srv)" "\<not> s_removed s" using find_sessionD[OF find] by auto
  define srv1 where "srv1 = on_sess (s_ref s) (quiet (\<lambda>s. s\<lparr>s_group_id := gid\<rparr>)) srv"
  have h: "handle_group_add e cr (epi_rd_init (le64 gid @ le64 i)) srv = reply cr (send_ok ?a)
      (if s_group_id s \<noteq> gid then gc_group_if_empty (s_group_id s) srv1 else srv1)"
    unfolding handle_group_add_def Let_def r1(1) prod.case r2(1) if_not_P[OF rd_at_more(2)[OF r2(2)]]
      if_not_P[OF target] find option.case srv1_def ..
  have s1: "sessions srv1 = replace_sess s (s\<lparr>s_group_id := gid\<rparr>) (sessions srv)" "groups srv1 = groups srv"
    using sessions_on_sess[OF inv s(1)] by (simp_all add: srv1_def quiet_def)
  have len: "length (sessions srv1) < 2 ^ 32" using few_ids_length[OF inv few(1)] by (simp add: s1)
  have mem: "(\<forall>t \<in> set (sessions srv1). \<not> session_in_group t g) \<longleftrightarrow> \<not> other_member srv s g" if "g \<noteq> gid" for g
    using that s(2) unfolding s1 other_member_def replace_ball[OF s(1)] by (auto simp: session_in_group_def)
  have "groups (gc_group_if_empty (s_group_id s) srv1) =
      (if s_group_id s \<noteq> 0 \<and> \<not> other_member srv s (s_group_id s)
       then filter (\<lambda>g. g_id g \<noteq> s_group_id s) (groups srv) else groups srv)" if "s_group_id s \<noteq> gid"
    using gc_spec[OF len, of "s_group_id s"] distinct_gids[OF inv few(2)] mem[OF that] unfolding s1(2) by simp
  then show ?thesis unfolding h by (auto simp: s1)
qed

theorem group_add_moves_session_witness:
  "groups (handle_group_add demo_env 1 (epi_rd_init (le64 1 @ le64 1)) demo_srv) = groups demo_srv"
proof -
  have "find_group demo_srv 1 \<noteq> None" by (simp add: find_group_def demo_srv_def)
  from group_add_moves_session[OF demo_inv demo_few demo_find this, of demo_env 1]
  show ?thesis by (simp add: demo_sess_def)
qed

section \<open>PTY output\<close>

text \<open>The bytes a list of effects sends to a descriptor, and the whole output of a connection.\<close>

fun sent_on :: "int \<Rightarrow> sysop list \<Rightarrow> byte list" where
  "sent_on fd [] = []"
| "sent_on fd (Sent f bs # es) = (if f = fd then bs else []) @ sent_on fd es"
| "sent_on fd (_ # es) = sent_on fd es"

lemma sent_on_append [simp]: "sent_on fd (es @ fs) = sent_on fd es @ sent_on fd fs"
  by (induction fd es rule: sent_on.induct) auto

definition stream :: "epi_server \<Rightarrow> connection \<Rightarrow> byte list" where
  "stream srv c = sent_on (c_fd c) (sys srv) @ out_bytes c"

text \<open>C3. What a shell prints is kept in the session's ring and sent to the attached client,
  both in order and without gaps: after the PTY delivered any chunks, the ring holds the last
  1 MiB of what it held followed by them, and the bytes sent to the client together with those
  still queued for it have grown by exactly these chunks.\<close>

theorem pty_output_reaches_ring_and_client:
  assumes "srv_inv srv" and "sess_at srv sr = Some s" and "s_client s = Some cr" and "conn_at srv cr = Some c"
    and "\<forall>(d, a, ws) \<in> set chunks. d \<noteq> [] \<and> length d \<le> PTY_READ_CHUNK \<and> never_fails a"
  shows "\<exists>s' c'. sess_at (pty_reads sr (map (\<lambda>(d, a, ws). Pty (R_data d) a ws) chunks) srv) sr = Some s' \<and>
    conn_at (pty_reads sr (map (\<lambda>(d, a, ws). Pty (R_data d) a ws) chunks) srv) cr = Some c' \<and>
    ring_contents (s_out s') = lastn EPI_RING_CAP (ring_contents (s_out s) @ concat (map fst chunks)) \<and>
    stream (pty_reads sr (map (\<lambda>(d, a, ws). Pty (R_data d) a ws) chunks) srv) c'
      = stream srv c @ concat (map fst chunks)"
  using assms
proof (induction chunks arbitrary: srv s c)
  case Nil
  have "length (ring_contents (s_out s)) \<le> EPI_RING_CAP"
    using sess_at_cases(1)[OF Nil(1,2)] by (auto simp: sess_ok_def ring_inv_def)
  then show ?case using Nil by (simp add: lastn_short)
next
  case (Cons ch chunks)
  obtain d a ws where ch: "ch = (d, a, ws)" by (cases ch)
  have d: "d \<noteq> []" "take PTY_READ_CHUNK d = d" "never_fails a" using Cons.prems(5) ch by auto
  have sok: "ring_inv (s_out s)" "r_max_cap (s_out s) = EPI_RING_CAP"
    using sess_at_cases(1)[OF Cons.prems(1,2)] by (auto simp: sess_ok_def)
  have cok: "conn_ok c" using conn_objs[OF Cons.prems(1,4)] by simp
  let ?r = "s\<lparr>s_out := epi_ring_write a (s_out s) d\<rparr>"
  let ?q = "conn_queue a d c"
  let ?c = "fst (flush_conn ws ?q)"
  let ?srv = "pty_data sr a ws d s srv"
  have step: "pty_reads sr (map (\<lambda>(d, a, ws). Pty (R_data d) a ws) (ch # chunks)) srv =
      pty_reads sr (map (\<lambda>(d, a, ws). Pty (R_data d) a ws) chunks) ?srv"
    using d Cons.prems(2) by (simp add: ch pty_reads_step del: pty_reads.simps)
  have inv': "srv_inv ?srv" using pty_data_inv[OF Cons.prems(1)] .
  define srv1 where "srv1 = on_sess sr (quiet (\<lambda>s. s\<lparr>s_out := epi_ring_write a (s_out s) d\<rparr>)) srv"
  define srv2 where "srv2 = reply cr (conn_queue a d) srv1"
  have sr: "?srv = conn_update cr (conn_flush ws cr srv2)"
    using Cons.prems(3) by (simp add: pty_data_def Let_def srv2_def srv1_def)
  have fr: "c_ref (fst (flush_conn ws x)) = c_ref x" for x using flush_same[of x ws] by (simp add: same_conn_def)
  have c2: "conn_at srv2 cr = Some ?q" using Cons.prems(4) by (simp add: srv2_def reply_conn_at srv1_def)
  have at': "sess_at ?srv sr = Some ?r" using Cons.prems(2)
    by (simp add: sr conn_flush_def srv2_def srv1_def sess_at_quiet)
  have ct': "conn_at ?srv cr = Some ?c" using c2 by (simp add: sr conn_flush_def conn_at_on_conn fr)
  have cl': "s_client ?r = Some cr" using Cons.prems(3) by simp
  note q = queue_out[OF cok d(3), of d]
  have sys2: "sys srv2 = sys srv" using Cons.prems(2)
    by (auto simp: srv2_def srv1_def on_conn_def on_sess_def quiet_def emit_def split: option.split)
  have "sys ?srv = sys srv @ snd (flush_conn ws ?q)"
    using c2 by (simp add: sr conn_flush_def on_conn_def conn_update_def ep_mod_def emit_def sys2 split: option.split)
  moreover obtain sent where "snd (flush_conn ws ?q) = (if sent = [] then [] else [Sent (c_fd ?q) sent])"
    "out_bytes ?q = sent @ out_bytes ?c" using flush_spec[OF q(2), of ws] by blast
  moreover have "c_fd ?c = c_fd c" "c_fd ?q = c_fd c"
    using flush_same[of ?q ws] q(3) by (simp_all add: same_conn_def)
  ultimately have st: "stream ?srv ?c = stream srv c @ d"
    using q(1) by (auto simp: stream_def)
  have rest: "\<forall>(d, a, ws) \<in> set chunks. d \<noteq> [] \<and> length d \<le> PTY_READ_CHUNK \<and> never_fails a"
    using Cons.prems(5) by simp
  have ring: "ring_contents (epi_ring_write a (s_out s) d) = lastn EPI_RING_CAP (ring_contents (s_out s) @ d)"
    using epi_ring_write_limit[OF sok(1) d(3), of d] sok(2) by simp
  from Cons.IH[OF inv' at' cl' ct' rest] show ?case
    unfolding step by (simp add: ring st ch lastn_lastn_append)
qed

theorem pty_output_reaches_ring_and_client_witness:
  "\<exists>s'. sess_at (pty_reads 0 [Pty (R_data [65, 66]) alloc_ok [W_ok 1]] demo_srv) 0 = Some s' \<and>
     ring_contents (s_out s') = [104, 105, 33, 65, 66]"
proof -
  have s: "sess_at demo_srv 0 = Some demo_sess" "s_client demo_sess = Some 2"
    by (simp_all add: sess_at_def demo_srv_def demo_sess_def)
  have c: "conn_at demo_srv 2 = Some ((new_conn 2 21)\<lparr>c_is_data := True, c_session := Some 0\<rparr>)"
    by (simp add: demo_srv_def conn_at_def new_conn_def)
  have ch: "\<forall>(d, a, ws) \<in> set [([65, 66], alloc_ok, [W_ok 1])]. d \<noteq> [] \<and> length d \<le> PTY_READ_CHUNK \<and> never_fails a"
    by (simp add: PTY_READ_CHUNK_def)
  have "lastn EPI_RING_CAP (ring_contents (s_out demo_sess) @ [65, 66]) = [104, 105, 33, 65, 66]"
    by (simp add: demo_sess_def demo_out_def ring_contents_def bytes_at_def lastn_def EPI_RING_CAP_def)
  then show ?thesis using pty_output_reaches_ring_and_client[OF demo_inv s c ch] by auto
qed

end
