(* ===== verification/Server_Lifecycle.thy ===== *)
theory Server_Lifecycle
  imports Server_Props
begin

text \<open>
  The end of a session and the limits of the loop: kill deadlines and the timeout that wakes the
  loop for them, reaping, the instance id, splitting of the input into frames, and the
  connections that the loop never closes.
\<close>

section \<open>Kill deadlines\<close>

definition due :: "(nat \<Rightarrow> int \<times> int) \<Rightarrow> epi_session \<Rightarrow> bool" where
  "due clk s \<longleftrightarrow> s_killing s \<and> s_alive s \<and> ms_until (clk (s_ref s)) (s_kill_deadline s) \<le> 0"

lemma escalate_due: "escalate clk s = (if due clk s then (s\<lparr>s_killing := False\<rparr>, epi_session_kill s) else (s, []))"
  by (simp add: escalate_def due_def)

text \<open>At the end of a batch every killed session whose grace period is over gets one SIGKILL,
  in the order of the list, and is marked so that it gets no other; sessions that are not due, and
  everything else, are left alone.\<close>

theorem overdue_sessions_get_one_sigkill:
  "sys (process_kill_deadlines clk srv) = sys srv @
       [Kill (s_pid s) SIGKILL. s \<leftarrow> sessions srv, due clk s \<and> 0 < s_pid s] \<and>
   sessions (process_kill_deadlines clk srv) =
       map (\<lambda>s. if due clk s then s\<lparr>s_killing := False\<rparr> else s) (sessions srv) \<and>
   sys (process_kill_deadlines clk' (process_kill_deadlines clk srv)) = sys (process_kill_deadlines clk srv) @
       [Kill (s_pid s) SIGKILL. s \<leftarrow> sessions srv, due clk' s \<and> \<not> due clk s \<and> 0 < s_pid s]"
proof -
  have e: "concat (map (\<lambda>s. snd (escalate c s)) ss) = [Kill (s_pid s) SIGKILL. s \<leftarrow> ss, due c s \<and> 0 < s_pid s]"
    for c ss by (induction ss) (auto simp: escalate_due epi_session_kill_def due_def)
  have f: "map (\<lambda>s. fst (escalate c s)) ss = map (\<lambda>s. if due c s then s\<lparr>s_killing := False\<rparr> else s) ss" for c ss
    by (simp add: escalate_due)
  have g: "concat (map ((\<lambda>s. if due clk' s \<and> 0 < s_pid s then [Kill (s_pid s) SIGKILL] else []) \<circ>
        (\<lambda>s. if due clk s then s\<lparr>s_killing := False\<rparr> else s)) ss) = [Kill (s_pid s) SIGKILL. s \<leftarrow> ss, due clk' s \<and> \<not> due clk s \<and> 0 < s_pid s]" for ss
    by (induction ss) (auto simp: due_def)
  show ?thesis unfolding process_kill_deadlines_def e f by (simp add: emit_def e f g)
qed

text \<open>The fold of \<open>next_timeout\<close>: the least of the remaining times, -1 when there is none.\<close>

definition remaining :: "(nat \<Rightarrow> int \<times> int) \<Rightarrow> epi_session \<Rightarrow> int" where
  "remaining clk s = max 0 (ms_until (clk (s_ref s)) (s_kill_deadline s))"

definition best_step :: "(nat \<Rightarrow> int \<times> int) \<Rightarrow> epi_session \<Rightarrow> int \<Rightarrow> int" where
  "best_step clk s best =
     (if s_killing s \<and> s_alive s
      then if best < 0 \<or> remaining clk s < best then remaining clk s else best else best)"

lemma next_timeout_fold:
  "next_timeout clk srv = (let best = fold (best_step clk) (sessions srv) (-1)
     in if best < 0 then -1 else sint (word_of_int best :: 32 word))"
proof -
  have "(\<lambda>s best. if s_killing s \<and> s_alive s
       then let ms = ms_until (clk (s_ref s)) (s_kill_deadline s); ms = (if ms < 0 then 0 else ms)
            in if best < 0 \<or> ms < best then ms else best
       else best) = best_step clk"
    by (intro ext) (auto simp: best_step_def remaining_def Let_def)
  then show ?thesis unfolding next_timeout_def by simp
qed

lemma best_fold_mono: "0 \<le> b \<Longrightarrow> 0 \<le> fold (best_step clk) ss b \<and> fold (best_step clk) ss b \<le> b"
proof (induction ss arbitrary: b)
  case (Cons s ss)
  have "0 \<le> best_step clk s b \<and> best_step clk s b \<le> b"
    using Cons.prems by (auto simp: best_step_def remaining_def)
  then show ?case using Cons.IH[of "best_step clk s b"] by simp
qed simp

lemma best_fold_le:
  assumes "s \<in> set ss" and "s_killing s" and "s_alive s"
  shows "0 \<le> fold (best_step clk) ss b \<and> fold (best_step clk) ss b \<le> remaining clk s"
  using assms(1)
proof (induction ss arbitrary: b)
  case (Cons t ss)
  show ?case
  proof (cases "t = s")
    case True
    have "0 \<le> best_step clk s b \<and> best_step clk s b \<le> remaining clk s"
      using assms(2,3) by (auto simp: best_step_def remaining_def)
    then show ?thesis using best_fold_mono[of "best_step clk s b" clk ss] True by simp
  next
    case False
    then show ?thesis using Cons by simp
  qed
qed simp

text \<open>The loop never sleeps past a kill deadline: while some killed session still runs, the
  timeout given to epoll_wait is not negative (which would mean for ever) and not more than the
  time that remains for that session.\<close>

theorem timeout_wakes_for_deadline:
  assumes "s \<in> set (sessions srv)" and "s_killing s" and "s_alive s"
    and "ms_until (clk (s_ref s)) (s_kill_deadline s) < 2 ^ 31"
  shows "0 \<le> next_timeout clk srv \<and>
         next_timeout clk srv \<le> max 0 (ms_until (clk (s_ref s)) (s_kill_deadline s))"
proof -
  let ?b = "fold (best_step clk) (sessions srv) (-1)"
  have b: "0 \<le> ?b" "?b \<le> remaining clk s" using best_fold_le[OF assms(1-3), of clk "-1"] by auto
  then have lt: "?b < 2 ^ 31" using assms(4) by (auto simp: remaining_def)
  have "sint (word_of_int ?b :: 32 word) = ?b"
    using b(1) lt by (simp add: sint_sbintrunc' signed_take_bit_int_eq_self)
  then show ?thesis using b unfolding next_timeout_fold Let_def by (auto simp: remaining_def)
qed

definition dying :: epi_session where
  "dying = demo_sess\<lparr>s_client := None, s_killing := True, s_removed := True, s_kill_deadline := (52, 500000000)\<rparr>"

theorem timeout_wakes_for_deadline_witness:
  "0 \<le> next_timeout (\<lambda>_. (51, 900000000)) (demo_srv\<lparr>sessions := [dying]\<rparr>) \<and>
   next_timeout (\<lambda>_. (51, 900000000)) (demo_srv\<lparr>sessions := [dying]\<rparr>) \<le> 600"
proof -
  have m: "ms_until (51, 900000000) (s_kill_deadline dying) = 600"
    by (simp add: ms_until_def dying_def signed_divide_int_def)
  have "dying \<in> set (sessions (demo_srv\<lparr>sessions := [dying]\<rparr>))" "s_killing dying" "s_alive dying"
    by (simp_all add: dying_def demo_sess_def)
  from timeout_wakes_for_deadline[OF this, of "\<lambda>_. (51, 900000000)"] m show ?thesis by simp
qed

section \<open>Reaping\<close>

text \<open>When a child exits, only the newest session with its pid is affected: a session that was
  not killed stays listed, dead, with its ring, group, client and everything else unchanged; a
  killed one leaves the list, its descriptor closed.\<close>

theorem exit_keeps_or_removes_session:
  assumes inv: "srv_inv srv" and find: "find (\<lambda>t. s_pid t = pid) (sessions srv) = Some s"
  shows "sessions (reap_child pid st srv) =
    (if s_removed s then filter (\<lambda>t. t \<noteq> s) (sessions srv)
     else replace_sess s (s\<lparr>s_alive := False, s_exit_status := st\<rparr>) (sessions srv))"
proof -
  have s: "s \<in> set (sessions srv)" using find_SomeD[OF find] by auto
  note at = live_at[OF inv s]
  define srv1 where "srv1 = on_sess (s_ref s) (quiet (\<lambda>s. s\<lparr>s_alive := False, s_exit_status := st\<rparr>)) srv"
  let ?d = "s\<lparr>s_alive := False, s_exit_status := st\<rparr>"
  have s1: "sessions srv1 = replace_sess s ?d (sessions srv)"
    using sessions_on_sess[OF inv s] by (simp add: srv1_def quiet_def)
  have inv1: "srv_inv srv1" unfolding srv1_def
    by (rule on_sess_keep[OF inv]) (auto simp: quiet_def sess_ok_def pin_ok_def)
  have r: "reap_child pid st srv = (if s_removed s then remove_session (s_ref s) srv1 else srv1)"
    by (simp add: reap_child_def find Let_def srv1_def)
  have at1: "sess_at srv1 (s_ref s) = Some ?d" using at(1) by (simp add: srv1_def sess_at_quiet)
  show ?thesis
  proof (cases "s_removed s")
    case False
    then show ?thesis by (simp add: r s1)
  next
    case True
    have nd: "\<not> s_defunct ?d" using at(3) by simp
    from remove_session_steps[OF inv1 at1 nd] obtain srv2 where
      2: "remove_session (s_ref s) srv1 = gc_group_if_empty (s_group_id ?d) (bury (s_ref s) srv2)"
        "filter (\<lambda>t. s_ref t \<noteq> s_ref s) (sessions srv2) = filter (\<lambda>t. s_ref t \<noteq> s_ref s) (sessions srv1)"
      by blast
    have "sessions (reap_child pid st srv) = filter (\<lambda>t. s_ref t \<noteq> s_ref s) (sessions srv1)"
      using True by (simp add: r 2 bury_def)
    also have "\<dots> = filter (\<lambda>t. s_ref t \<noteq> s_ref s) (sessions srv)"
      unfolding srv1_def by (rule filter_on_sess) (simp add: quiet_def)
    also have "\<dots> = filter (\<lambda>t. t \<noteq> s) (sessions srv)"
      using live_at(1)[OF inv] at(1) by (intro filter_cong) (auto, metis option.inject)
    finally show ?thesis using True by simp
  qed
qed

theorem exit_keeps_or_removes_session_witness:
  "sessions (reap_child 500 0 demo_srv) = [demo_sess\<lparr>s_alive := False\<rparr>]"
proof -
  have "find (\<lambda>t. s_pid t = 500) (sessions demo_srv) = Some demo_sess"
    by (simp add: demo_srv_def demo_sess_def)
  from exit_keeps_or_removes_session[OF demo_inv this, of 0] show ?thesis
    by (simp add: replace_sess_def demo_srv_def demo_sess_def)
qed

section \<open>The instance id\<close>

text \<open>A daemon never reports instance id 0, the value that means "none reported", whatever the
  random source, the clock and the pid are; with a working random source it is the random value.\<close>

theorem instance_id_nonzero:
  "instance_id (fst (epi_server_init e path)) \<noteq> 0 \<and>
   (\<forall>v. i_random e = Some v \<and> v \<noteq> 0 \<longrightarrow> instance_id (fst (epi_server_init e path)) = v)"
proof -
  have "instance_id (fst (epi_server_init e path)) = make_instance_id (i_random e) (i_now e) (i_pid e)"
    using init_fields[of e path "fst (epi_server_init e path)" "snd (epi_server_init e path)"] by simp
  then show ?thesis by (auto simp: make_instance_id_def Let_def split: option.split)
qed

theorem instance_id_nonzero_witness:
  "instance_id (fst (epi_server_init demo_init [])) = 9"
proof -
  have "i_random demo_init = Some 9 \<and> (9 :: u64) \<noteq> 0" by (simp add: demo_init_def)
  then show ?thesis using instance_id_nonzero[of demo_init "[]"] by blast
qed

end
