(* ===== verification/Server_Frames.thy ===== *)
theory Server_Frames
  imports Server_Lifecycle
begin

text \<open>
  The frame loop of a control connection turn by turn, its output queued without loss, and the ways
  in which a connection that should be closed stays open.
\<close>

section \<open>Frames and chunks\<close>

lemma get_le32_append: "i + 4 \<le> length d \<Longrightarrow> get_le32 (d @ e) i = get_le32 d i"
  by (simp add: get_le32_def nth_append)

lemma get_le32_drop: "n \<le> length d \<Longrightarrow> get_le32 (drop n d) i = get_le32 d (n + i)"
  by (simp add: get_le32_def add.assoc)

lemma bytes_at_append: "i + n \<le> length d \<Longrightarrow> bytes_at i n (d @ e) = bytes_at i n d"
  by (simp add: bytes_at_def)

lemma bytes_at_drop: "bytes_at i n (drop m d) = bytes_at (m + i) n d"
  by (simp add: bytes_at_def add.commute)

definition frame_bad :: "u32 \<Rightarrow> bool" where
  "frame_bad flen \<longleftrightarrow> flen < 4 \<or> flen > MAX_FRAME"

definition frame_incomplete :: "byte list \<Rightarrow> nat \<Rightarrow> bool" where
  "frame_incomplete data used \<longleftrightarrow> length data - used < 4 \<or>
     \<not> frame_bad (get_le32 data used) \<and> length data - used - 4 < unat (get_le32 data used)"

lemma incomplete_drop: "m \<le> length d \<Longrightarrow> frame_incomplete (drop m d) u = frame_incomplete d (m + u)"
  by (simp add: frame_incomplete_def get_le32_drop diff_diff_eq)

definition next_frame :: "env \<Rightarrow> nat \<Rightarrow> byte list \<Rightarrow> nat \<Rightarrow> epi_server \<Rightarrow> epi_server" where
  "next_frame e cr data used srv =
     dispatch_frame e cr (get_le32 data (used + 4)) (bytes_at (used + 8) (unat (get_le32 data used) - 4) data) srv"

definition bad_reply :: "allocator \<Rightarrow> u32 \<Rightarrow> connection \<Rightarrow> connection" where
  "bad_reply a flen c =
     (if flen < 4 then send_error a EPI_ERR_PROTOCOL ''short frame'' c
      else send_error a EPI_ERR_TOO_LARGE ''frame too large'' c)\<lparr>c_want_close := True\<rparr>"

text \<open>One turn of the loop.\<close>

lemma conn_frames_turn:
  "conn_frames es cr data used k srv =
     (if frame_incomplete data used then (srv, used, False)
      else if frame_bad (get_le32 data used)
      then (reply cr (bad_reply (e_mem (es k)) (get_le32 data used)) srv, used, False)
      else let srv1 = next_frame (es k) cr data used srv; used1 = used + (4 + unat (get_le32 data used)) in
        case conn_at srv1 cr of
          None \<Rightarrow> (srv1, used1, False)
        | Some c \<Rightarrow> if c_is_data c then (srv1, used1, True)
                    else if c_want_close c then (srv1, used1, False)
                    else conn_frames es cr data used1 (k + 1) srv1)"
  by (subst conn_frames.simps)
    (simp add: frame_incomplete_def frame_bad_def bad_reply_def[abs_def] next_frame_def Let_def)

lemma frame_whole:
  assumes "\<not> frame_incomplete data used" and "\<not> frame_bad (get_le32 data used)"
  shows "used + (4 + unat (get_le32 data used)) \<le> length data" and "4 \<le> unat (get_le32 data used)"
proof -
  show "used + (4 + unat (get_le32 data used)) \<le> length data"
    using assms by (auto simp: frame_incomplete_def)
  have "\<not> get_le32 data used < 4" using assms(2) by (simp add: frame_bad_def)
  then show "4 \<le> unat (get_le32 data used)" by (simp add: word_less_nat_alt)
qed

text \<open>Reading on from an offset is reading the rest.\<close>

lemma conn_frames_shift:
  assumes "m \<le> length d"
  shows "conn_frames es cr d (m + u) (n + j) srv =
    (case conn_frames (\<lambda>j. es (n + j)) cr (drop m d) u j srv of (s, v, b) \<Rightarrow> (s, m + v, b))"
proof (induction "\<lambda>j. es (n + j)" cr "drop m d" u j srv rule: conn_frames.induct)
  case (1 cr u j srv)
  let ?flen = "get_le32 d (m + u)"
  note g = get_le32_drop[OF assms]
  have inc: "frame_incomplete (drop m d) u = frame_incomplete d (m + u)"
    by (rule incomplete_drop[OF assms])
  have nf: "next_frame e cr (drop m d) u s = next_frame e cr d (m + u) s" for e s
    by (simp add: next_frame_def g bytes_at_drop add.assoc)
  show ?case
  proof (cases "frame_incomplete d (m + u) \<or> frame_bad ?flen")
    case True
    then show ?thesis by (auto simp: conn_frames_turn[of _ _ _ _ _ srv] inc g)
  next
    case good: False
    let ?u1 = "u + (4 + unat ?flen)"
    define s1 where "s1 = next_frame (es (n + j)) cr d (m + u) srv"
    have l: "conn_frames es cr d (m + u) (n + j) srv = (case conn_at s1 cr of
          None \<Rightarrow> (s1, m + ?u1, False)
        | Some c \<Rightarrow> if c_is_data c then (s1, m + ?u1, True) else if c_want_close c then (s1, m + ?u1, False)
                    else conn_frames es cr d (m + ?u1) (n + (j + 1)) s1)"
      using good by (subst conn_frames_turn) (simp add: Let_def s1_def add.assoc split: option.split)
    have r: "conn_frames (\<lambda>j. es (n + j)) cr (drop m d) u j srv = (case conn_at s1 cr of
          None \<Rightarrow> (s1, ?u1, False)
        | Some c \<Rightarrow> if c_is_data c then (s1, ?u1, True) else if c_want_close c then (s1, ?u1, False)
                    else conn_frames (\<lambda>j. es (n + j)) cr (drop m d) ?u1 (j + 1) s1)"
      using good by (subst conn_frames_turn) (simp add: Let_def s1_def inc g nf split: option.split)
    show ?thesis
    proof (cases "\<exists>c. conn_at s1 cr = Some c \<and> \<not> c_is_data c \<and> \<not> c_want_close c")
      case False
      then show ?thesis unfolding l r by (auto split: option.split)
    next
      case True
      then obtain c where c: "conn_at s1 cr = Some c" "\<not> c_is_data c" "\<not> c_want_close c" by blast
      have fr: "get_le32 (drop m d) u = ?flen" by (simp add: g)
      have w: "\<not> length (drop m d) - u < 4" "\<not> get_le32 (drop m d) u < 4" "\<not> get_le32 (drop m d) u > MAX_FRAME"
        "\<not> length (drop m d) - u - 4 < unat (get_le32 (drop m d) u)"
        using good inc by (auto simp: frame_incomplete_def frame_bad_def fr)
      have s1: "s1 = dispatch_frame (es (n + j)) cr (get_le32 (drop m d) (u + 4))
          (bytes_at (u + 8) (unat (get_le32 (drop m d) u) - 4) (drop m d)) srv"
        by (simp add: s1_def next_frame_def g bytes_at_drop add.assoc)
      from 1[OF w(1) refl refl w(2-4) refl s1 refl c]
      show ?thesis unfolding l r using c by (simp add: fr)
    qed
  qed
qed

section \<open>Output queues and connections that stay open\<close>

text \<open>A connection's output is a queue without loss or reordering: after any data was queued,
  exactly that data waits behind what was there before. It is also without limit: nothing is
  refused after the backlog passed MAX_WBUF and the connection was marked for closing.\<close>

theorem output_queue_never_drops:
  assumes "conn_ok c" and "\<forall>(a, d) \<in> set ds. never_fails a"
  shows "out_bytes (fold (\<lambda>(a, d) c. conn_queue a d c) ds c) = out_bytes c @ concat (map snd ds)"
  using assms
proof (induction ds arbitrary: c)
  case (Cons x ds)
  obtain a d where x: "x = (a, d)" by (cases x)
  have "never_fails a" using Cons.prems(2) x by simp
  note q = queue_out[OF Cons.prems(1) this, of d]
  show ?case using Cons.IH[OF q(2)] Cons.prems(2) q(1) x by simp
qed simp

theorem output_queue_never_drops_witness:
  "out_bytes (fold (\<lambda>(a, d) c. conn_queue a d c) [(alloc_ok, [1, 2]), (alloc_ok, [3])]
      ((new_conn 1 20)\<lparr>c_want_close := True\<rparr>)) = [1, 2, 3]"
proof -
  have "conn_ok ((new_conn 1 20)\<lparr>c_want_close := True\<rparr>)" by (simp add: conn_ok_def new_conn_def)
  from output_queue_never_drops[OF this, of "[(alloc_ok, [1, 2]), (alloc_ok, [3])]"]
  show ?thesis by (simp add: out_bytes_def new_conn_def bytes_at_def)
qed

text \<open>An event of a connection whose peer is gone: the write fails or would block, the read ends,
  fails or would block.\<close>

definition peer_gone :: "nat \<Rightarrow> event \<Rightarrow> bool" where
  "peer_gone cr ev \<longleftrightarrow>
     (\<exists>out inp w ws i. ev = Ev_conn cr out inp (w # ws) i \<and> w \<in> {W_err, W_again, W_ok 0} \<and>
        in_res i \<in> {R_data [], R_err, R_again, R_intr})"

definition stuck :: "epi_server \<Rightarrow> nat \<Rightarrow> bool" where
  "stuck srv cr \<longleftrightarrow> (\<exists>c. conn_at srv cr = Some c \<and> c_want_close c \<and> c_wpos c < c_wlen c)"

lemma flush_stuck:
  assumes "c_want_close c" and "c_wpos c < c_wlen c" and "w \<in> {W_err, W_again, W_ok 0}"
  shows "fst (flush_conn (w # ws) c) = c"
  using assms by (auto simp: flush_conn_def write_loop.simps Let_def)

lemma conn_read_gone:
  assumes "in_res i \<in> {R_data [], R_err, R_again, R_intr}"
  shows "conn_read i cr srv \<in> {srv, reply cr (\<lambda>c. c\<lparr>c_want_close := True\<rparr>) srv}"
  using assms conn_read_idle[of i cr srv] conn_read_ends(1)[of i "[]" cr srv] by auto

lemma stuck_step:
  assumes "stuck srv cr" and "peer_gone cr ev"
  shows "stuck (handle_event ev srv) cr"
proof -
  obtain out inp w ws i where ev: "ev = Ev_conn cr out inp (w # ws) i" "w \<in> {W_err, W_again, W_ok 0}"
    "in_res i \<in> {R_data [], R_err, R_again, R_intr}" using assms(2) by (auto simp: peer_gone_def)
  obtain c where c: "conn_at srv cr = Some c" "c_want_close c" "c_wpos c < c_wlen c"
    using assms(1) by (auto simp: stuck_def)
  define srv1 where "srv1 = (if out then conn_flush (w # ws) cr srv else srv)"
  define srv2 where "srv2 = (if inp then conn_read i cr srv1 else srv1)"
  have fr: "c_ref (fst (flush_conn (w # ws) x)) = c_ref x" for x
    using flush_same[of x "w # ws"] by (simp add: same_conn_def)
  have 1: "conn_at srv1 cr = Some c"
    using c flush_stuck[OF c(2,3) ev(2)] by (simp add: srv1_def conn_flush_def conn_at_on_conn fr)
  have "conn_at (reply cr (\<lambda>c. c\<lparr>c_want_close := True\<rparr>) srv1) cr = Some c"
    using 1 c(2) by (simp add: conn_at_quiet)
  then have 2: "conn_at srv2 cr = Some c"
    using conn_read_gone[OF ev(3), of cr srv1] 1 by (auto simp: srv2_def)
  have "handle_event ev srv = srv2"
    using 2 c unfolding ev(1) handle_event.simps Let_def srv1_def[symmetric] srv2_def[symmetric] by simp
  then show ?thesis using 2 c by (auto simp: stuck_def)
qed

text \<open>C9. A connection that is to be closed but still has output queued is closed only when the
  output is drained, and when the peer is gone it never is: whatever the loop is told about it from
  then on, write and read failing or ending as they do for a closed peer, it stays open with its
  output queued.\<close>

theorem dead_peer_with_output_is_never_closed:
  assumes "stuck srv cr" and "\<forall>ev \<in> set evs. peer_gone cr ev"
  shows "stuck (fold handle_event evs srv) cr"
  using assms by (induction evs arbitrary: srv) (auto simp: stuck_step)

definition gone_event :: event where
  "gone_event = Ev_conn 1 True True [W_err] \<lparr>in_res = R_data [], in_mem = alloc_ok, in_pty = [],
     in_envs = (\<lambda>_. demo_env)\<rparr>"

theorem dead_peer_with_output_is_never_closed_witness:
  "stuck (fold handle_event [gone_event, gone_event]
     (demo_srv\<lparr>conns := [(new_conn 1 20)\<lparr>c_want_close := True, c_wbuf := [7], c_wlen := 1, c_wcap := 1\<rparr>]\<rparr>)) 1"
proof -
  let ?srv = "demo_srv\<lparr>conns := [(new_conn 1 20)\<lparr>c_want_close := True, c_wbuf := [7], c_wlen := 1, c_wcap := 1\<rparr>]\<rparr>"
  have 1: "stuck ?srv 1" by (simp add: stuck_def conn_at_def new_conn_def)
  have "peer_gone 1 gone_event" unfolding peer_gone_def gone_event_def by (intro exI conjI) auto
  then have "\<forall>ev \<in> set [gone_event, gone_event]. peer_gone 1 ev" by simp
  from dead_peer_with_output_is_never_closed[OF 1 this] show ?thesis .
qed

section \<open>Rejected frames\<close>

lemma send_error_frame:
  assumes "never_fails a"
  shows "send_error a code msg = conn_queue a (frame EPI_MSG_ERROR (le32 code @ enc_str (Some (lit msg))))"
proof -
  let ?b = "epi_buf_put_str a (epi_buf_put_u32 a (epi_msg_start a EPI_MSG_ERROR) code) (Some (lit msg))"
  have "buf_app (epi_msg_start a EPI_MSG_ERROR) ?b (le32 code @ enc_str (Some (lit msg)))"
    by (rule buf_steps buf_writes)+
  from queue_reply[OF this] assms have "conn_queue_frame a (epi_msg_end ?b) =
      conn_queue a (frame EPI_MSG_ERROR (le32 code @ enc_str (Some (lit msg))))" by simp
  then show ?thesis by (intro ext) (simp add: send_error_def Let_def)
qed

lemma send_ok_frame: "never_fails a \<Longrightarrow> send_ok a = conn_queue a (frame EPI_MSG_OK [])"
  using queue_reply[OF appends_refl, of a EPI_MSG_OK] by (intro ext) (simp add: send_ok_def)

lemma frame_nonempty: "frame t body \<noteq> []"
  by (simp add: frame_def le32_def)

lemma interest_on_conn [simp]: "interest (on_conn cr f srv) = interest srv"
  by (simp add: on_conn_def emit_def split: option.split)

lemma conn_read_frames:
  assumes "in_res i = R_data d" and "d \<noteq> []" and "length d \<le> PTY_READ_CHUNK" and "conn_at srv cr = Some c"
    and "\<not> c_is_data c" and "rbuf_room (in_mem i) c (length d) = Some c1"
    and "c2 = c1\<lparr>c_rbuf := blit (c_rbuf c1) (c_rlen c1) d, c_rlen := c_rlen c1 + length d\<rparr>"
    and "conn_frames (in_envs i) cr (take (c_rlen c2) (c_rbuf c2)) 0 0 (reply cr (\<lambda>_. c2) srv) = (srv2, used, False)"
  shows "conn_read i cr srv = reply cr (rbuf_drop used) srv2"
proof -
  have t: "take PTY_READ_CHUNK d = d" using assms(3) by simp
  show ?thesis
    unfolding conn_read_def assms(1) rres.case Let_def t if_not_P[OF assms(2)] assms(4) option.case
      if_not_P[OF assms(5)] assms(6) assms(7)[symmetric] assms(8) prod.case by simp
qed

text \<open>C10. A frame whose length field is under 4 or over MAX_FRAME makes the daemon queue an error
  reply and mark the connection for closing, but it does not ask epoll for writability: the
  descriptor's registration is as it was, so the reply is not sent and the connection not closed
  until something else happens on it.\<close>

theorem rejected_frame_reply_is_not_armed:
  assumes inv: "srv_inv srv" and c: "conn_at srv cr = Some c" "\<not> c_is_data c" "c_rlen c = 0"
    and d: "in_res i = R_data d" "4 \<le> length d" "length d \<le> PTY_READ_CHUNK" "frame_bad (get_le32 d 0)"
    and mem: "never_fails (in_mem i)" "never_fails (e_mem (in_envs i 0))"
  shows "stuck (handle_event (Ev_conn cr False True [] i) srv) cr \<and>
         interest (handle_event (Ev_conn cr False True [] i) srv) = interest srv"
proof -
  let ?a = "e_mem (in_envs i 0)" and ?flen = "get_le32 d 0"
  have cok: "conn_ok c" "c_ref c = cr" using conn_objs[OF inv c(1)] by auto
  obtain c1 where c1: "rbuf_room (in_mem i) c (length d) = Some c1"
    using rbuf_room_spec[of "in_mem i" c "length d"] mem(1) by (cases "rbuf_room (in_mem i) c (length d)") auto
  define c2 where "c2 = c1\<lparr>c_rbuf := blit (c_rbuf c1) (c_rlen c1) d, c_rlen := c_rlen c1 + length d\<rparr>"
  note st = rbuf_store[OF cok(1) c1, folded c2_def]
  have data: "take (c_rlen c2) (c_rbuf c2) = d" using st(7) c(3) by simp
  define srv1 where "srv1 = reply cr (\<lambda>_. c2) srv"
  have "\<not> frame_incomplete d 0" using d(2,4) by (auto simp: frame_incomplete_def)
  then have fr: "conn_frames (in_envs i) cr d 0 0 srv1 = (reply cr (bad_reply ?a ?flen) srv1, 0, False)"
    using d(4) by (subst conn_frames_turn) simp
  have "d \<noteq> []" using d(2) by auto
  from conn_read_frames[OF d(1) this d(3) c(1,2) c1 c2_def] fr
  have rd: "conn_read i cr srv = reply cr (rbuf_drop 0) (reply cr (bad_reply ?a ?flen) srv1)"
    by (simp add: data srv1_def)
  have "srv_inv srv1" unfolding srv1_def
    by (rule on_conn_inv_at[OF inv]) (use c(1) st in \<open>simp add: quiet_def\<close>)
  moreover have "c2 \<in> set (conns srv1)"
    using conn_atD[OF c(1)] conns_on_conn[OF c(1), of "quiet (\<lambda>_. c2)"] by (force simp: srv1_def quiet_def)
  ultimately have at1: "conn_at srv1 cr = Some c2"
    using conn_at_mem[of srv1 c2] st(2) cok(2) by (simp add: srv_inv_def)
  let ?c3 = "bad_reply ?a ?flen c2"
  have ref: "c_ref (bad_reply ?a ?flen x) = c_ref x" for x
    using send_error_keep by (simp add: bad_reply_def conn_keep_def same_conn_def)
  have "c_ref (rbuf_drop 0 x) = c_ref x" "rbuf_drop 0 x = x" for x by (simp_all add: rbuf_drop_def)
  then have at2: "conn_at (conn_read i cr srv) cr = Some ?c3"
    unfolding rd using at1 by (simp add: conn_at_quiet ref)
  have out: "out_bytes (conn_queue ?a (frame t b) c2) \<noteq> []" for t b
    using queue_out(1)[OF st(1) mem(2)] frame_nonempty by simp
  have "out_bytes x \<noteq> [] \<Longrightarrow> c_wpos x < c_wlen x" for x :: connection
    by (rule ccontr) (simp add: out_bytes_def bytes_at_def)
  then have pend: "c_want_close ?c3" "c_wpos ?c3 < c_wlen ?c3"
    using out by (auto simp: bad_reply_def send_error_frame[OF mem(2)])
  have ev: "handle_event (Ev_conn cr False True [] i) srv = conn_read i cr srv"
    using at2 pend by (simp add: handle_event.simps Let_def)
  show ?thesis unfolding ev using at2 pend by (auto simp: stuck_def rd srv1_def)
qed

theorem rejected_frame_reply_is_not_armed_witness:
  "interest (handle_event (Ev_conn 1 False True [] \<lparr>in_res = R_data [3, 0, 0, 0], in_mem = alloc_ok, in_pty = [],
      in_envs = (\<lambda>_. demo_env)\<rparr>) demo_srv) 20 = Some False"
proof -
  let ?i = "\<lparr>in_res = R_data [3, 0, 0, 0], in_mem = alloc_ok, in_pty = [], in_envs = (\<lambda>_. demo_env)\<rparr>"
  have c: "\<not> c_is_data (new_conn 1 20)" "c_rlen (new_conn 1 20) = 0" by (simp_all add: new_conn_def)
  have "frame_bad (get_le32 [3, 0, 0, 0] 0)" by (simp add: frame_bad_def get_le32_def)
  moreover have "interest demo_srv 20 = Some False" by (simp add: demo_srv_def)
  ultimately show ?thesis
    using rejected_frame_reply_is_not_armed[OF demo_inv demo_conn_at c, of ?i "[3, 0, 0, 0]"]
    by (simp add: PTY_READ_CHUNK_def demo_env_def)
qed

end
