(* ===== verification/Server_Stream.thy ===== *)
theory Server_Stream
  imports Server_Frames
begin

text \<open>
  The byte stream of a control connection over many reads: a handler never looks at the receive
  buffer of a connection nor changes it, and what is left of one read is taken up by the next, so
  that the frames are handled the same however the stream is cut into reads.
\<close>

section \<open>Handlers and the receive buffer\<close>

text \<open>A connection, and a server, with another receive buffer at an address.\<close>

type_synonym rbuf = "byte list \<times> nat \<times> nat"

definition with_rbuf :: "rbuf \<Rightarrow> connection \<Rightarrow> connection" where
  "with_rbuf b c = c\<lparr>c_rbuf := fst b, c_rlen := fst (snd b), c_rcap := snd (snd b)\<rparr>"

definition set_rbuf :: "rbuf \<Rightarrow> nat \<Rightarrow> epi_server \<Rightarrow> epi_server" where
  "set_rbuf b cr srv = srv\<lparr>conns := map (\<lambda>c. if c_ref c = cr then with_rbuf b c else c) (conns srv)\<rparr>"

lemma with_rbuf_sel [simp]:
  "c_ref (with_rbuf b c) = c_ref c" "c_fd (with_rbuf b c) = c_fd c" "c_is_data (with_rbuf b c) = c_is_data c"
  "c_session (with_rbuf b c) = c_session c" "c_wbuf (with_rbuf b c) = c_wbuf c"
  "c_wpos (with_rbuf b c) = c_wpos c" "c_wlen (with_rbuf b c) = c_wlen c" "c_wcap (with_rbuf b c) = c_wcap c"
  "c_want_close (with_rbuf b c) = c_want_close c" "c_rbuf (with_rbuf b c) = fst b"
  "c_rlen (with_rbuf b c) = fst (snd b)" "c_rcap (with_rbuf b c) = snd (snd b)"
  "with_rbuf b' (with_rbuf b c) = with_rbuf b' c"
  by (simp_all add: with_rbuf_def)

lemma set_rbuf_sel [simp]:
  "sessions (set_rbuf b cr srv) = sessions srv" "dead (set_rbuf b cr srv) = dead srv"
  "groups (set_rbuf b cr srv) = groups srv" "interest (set_rbuf b cr srv) = interest srv"
  "sys (set_rbuf b cr srv) = sys srv" "next_ref (set_rbuf b cr srv) = next_ref srv"
  "next_id (set_rbuf b cr srv) = next_id srv" "next_group_id (set_rbuf b cr srv) = next_group_id srv"
  "ids_issued (set_rbuf b cr srv) = ids_issued srv" "gids_issued (set_rbuf b cr srv) = gids_issued srv"
  "instance_id (set_rbuf b cr srv) = instance_id srv"
  "set_rbuf b' cr (set_rbuf b cr srv) = set_rbuf b' cr srv"
  by (auto simp: set_rbuf_def)

lemma conn_at_set_rbuf [simp]:
  "conn_at (set_rbuf b cr srv) r = map_option (\<lambda>c. if r = cr then with_rbuf b c else c) (conn_at srv r)"
proof -
  have "find (\<lambda>c. c_ref c = r) (map (\<lambda>c. if c_ref c = cr then with_rbuf b c else c) cs) =
      map_option (\<lambda>c. if r = cr then with_rbuf b c else c) (find (\<lambda>c. c_ref c = r) cs)" for cs
    by (induction cs) auto
  then show ?thesis by (simp add: conn_at_def set_rbuf_def)
qed

lemma lookups_set_rbuf [simp]:
  "sess_at (set_rbuf b cr srv) sr = sess_at srv sr" "find_session (set_rbuf b cr srv) i rm = find_session srv i rm"
  "find_group (set_rbuf b cr srv) i = find_group srv i" "count_groups (set_rbuf b cr srv) = count_groups srv"
  "count_group_members (set_rbuf b cr srv) i = count_group_members srv i"
  by (simp_all add: sess_at_def find_session_def find_group_def count_groups_def count_group_members_def)

text \<open>An operation on connections that leaves the receive buffer alone.\<close>

definition rbuf_blind :: "(connection \<Rightarrow> connection \<times> sysop list) \<Rightarrow> bool" where
  "rbuf_blind f \<longleftrightarrow> (\<forall>b c. f (with_rbuf b c) = (with_rbuf b (fst (f c)), snd (f c)) \<and> c_ref (fst (f c)) = c_ref c)"

lemma on_conn_set_rbuf:
  assumes "rbuf_blind f"
  shows "on_conn r f (set_rbuf b cr srv) = set_rbuf b cr (on_conn r f srv)"
proof -
  have f: "f (with_rbuf b c) = (with_rbuf b (fst (f c)), snd (f c))" "c_ref (fst (f c)) = c_ref c" for b c
    using assms unfolding rbuf_blind_def by blast+
  show ?thesis
    by (cases "conn_at srv r") (auto simp: on_conn_def emit_def set_rbuf_def[of b cr] f simp del: conn_at_set_rbuf
        simp: conn_at_set_rbuf[unfolded set_rbuf_def])
qed

lemma compact_rbuf: "conn_compact (with_rbuf b c) = with_rbuf b (conn_compact c)"
  by (simp add: conn_compact_def with_rbuf_def)

lemma room_rbuf: "conn_room a (with_rbuf b c) n = map_option (with_rbuf b) (conn_room a c n)"
proof -
  have e: "(with_rbuf b c)\<lparr>c_wbuf := x, c_wcap := y\<rparr> = with_rbuf b (c\<lparr>c_wbuf := x, c_wcap := y\<rparr>)" for x y
    by (simp add: with_rbuf_def)
  show ?thesis by (simp add: conn_room_def Let_def option.map_comp comp_def e)
qed

lemma queue_rbuf: "conn_queue a d (with_rbuf b c) = with_rbuf b (conn_queue a d c)"
proof (cases "conn_room a (conn_compact c) (length d)")
  case None
  then show ?thesis unfolding conn_queue_def compact_rbuf room_rbuf Let_def by (simp add: with_rbuf_def)
next
  case (Some c2)
  then show ?thesis unfolding conn_queue_def compact_rbuf room_rbuf Let_def by (simp add: with_rbuf_def)
qed

lemma blind_writer: "conn_keep f \<Longrightarrow> (\<And>b c. f (with_rbuf b c) = with_rbuf b (f c)) \<Longrightarrow> rbuf_blind (quiet f)"
  by (simp add: rbuf_blind_def quiet_def conn_keep_def same_conn_def)

lemma queue_blind: "rbuf_blind (quiet (conn_queue a d))"
  by (rule blind_writer[OF queue_keep]) (rule queue_rbuf)

lemma queue_frame_blind: "rbuf_blind (quiet (conn_queue_frame a d))"
  by (rule blind_writer[OF queue_frame_keep]) (simp add: conn_queue_frame_def queue_rbuf)

lemma error_blind: "rbuf_blind (quiet (send_error a code msg))"
  by (rule blind_writer[OF send_error_keep]) (simp add: send_error_def Let_def conn_queue_frame_def queue_rbuf)

lemma ok_blind: "rbuf_blind (quiet (send_ok a))"
  by (rule blind_writer[OF send_ok_keep]) (simp add: send_ok_def conn_queue_frame_def queue_rbuf)

lemma bad_reply_blind: "rbuf_blind (quiet (bad_reply a flen))"
proof -
  have "c_ref (send_error a k m c) = c_ref c" for k m c
    using send_error_keep by (simp add: conn_keep_def same_conn_def)
  moreover have "send_error a k m (with_rbuf b c) = with_rbuf b (send_error a k m c)" for k m b c
    by (simp add: send_error_def Let_def conn_queue_frame_def queue_rbuf)
  ultimately show ?thesis by (simp add: rbuf_blind_def quiet_def bad_reply_def with_rbuf_def)
qed

lemma link_blind: "rbuf_blind (quiet (\<lambda>c. c\<lparr>c_is_data := True, c_session := s\<rparr>))" "rbuf_blind conn_drop"
  by (simp_all add: rbuf_blind_def quiet_def with_rbuf_def conn_drop_def)

lemmas reply_set_rbuf [simp] = on_conn_set_rbuf[OF queue_blind] on_conn_set_rbuf[OF queue_frame_blind]
  on_conn_set_rbuf[OF error_blind] on_conn_set_rbuf[OF ok_blind] on_conn_set_rbuf[OF bad_reply_blind]
  on_conn_set_rbuf[OF link_blind(1)] on_conn_set_rbuf[OF link_blind(2)]

text \<open>The operations on sessions and groups.\<close>

lemma sess_ops_set_rbuf [simp]:
  "emit es (set_rbuf b cr srv) = set_rbuf b cr (emit es srv)"
  "on_sess sr h (set_rbuf b cr srv) = set_rbuf b cr (on_sess sr h srv)"
  "ep_del fd (set_rbuf b cr srv) = set_rbuf b cr (ep_del fd srv)"
  "ep_mod fd out (set_rbuf b cr srv) = set_rbuf b cr (ep_mod fd out srv)"
  "ep_add ok fd (set_rbuf b cr srv) = (case ep_add ok fd srv of (s, rc) \<Rightarrow> (set_rbuf b cr s, rc))"
  "unlink_group gid (set_rbuf b cr srv) = set_rbuf b cr (unlink_group gid srv)"
  by (simp_all add: emit_def on_sess_def ep_del_def ep_mod_def ep_add_def unlink_group_def set_rbuf_def
      sess_at_def split: option.split)

lemma bookkeeping_set_rbuf [simp]:
  "gc_group_if_empty gid (set_rbuf b cr srv) = set_rbuf b cr (gc_group_if_empty gid srv)"
  "conn_update r (set_rbuf b cr srv) = set_rbuf b cr (conn_update r srv)"
  by (auto simp: gc_group_if_empty_def conn_update_def split: option.split)

lemma detach_set_rbuf [simp]: "detach_client sr (set_rbuf b cr srv) = set_rbuf b cr (detach_client sr srv)"
  by (auto simp: detach_client_def split: option.split)

lemma bury_set_rbuf:
  "(set_rbuf b cr srv)\<lparr>sessions := x, dead := y\<rparr> = set_rbuf b cr (srv\<lparr>sessions := x, dead := y\<rparr>)"
  "(set_rbuf b cr srv)\<lparr>groups := g\<rparr> = set_rbuf b cr (srv\<lparr>groups := g\<rparr>)"
  by (simp_all add: set_rbuf_def)

lemma remove_set_rbuf [simp]: "remove_session sr (set_rbuf b cr srv) = set_rbuf b cr (remove_session sr srv)"
  by (auto simp: remove_session_def Let_def bury_set_rbuf split: option.split)

section \<open>Requests\<close>

lemma requests_set_rbuf:
  "handle_list e r (set_rbuf b cr srv) = set_rbuf b cr (handle_list e r srv)"
  "handle_kill e r x (set_rbuf b cr srv) = set_rbuf b cr (handle_kill e r x srv)"
  "handle_resize e r x (set_rbuf b cr srv) = set_rbuf b cr (handle_resize e r x srv)"
  "handle_detach e r x (set_rbuf b cr srv) = set_rbuf b cr (handle_detach e r x srv)"
  "handle_peek e r x (set_rbuf b cr srv) = set_rbuf b cr (handle_peek e r x srv)"
  by (auto simp: handle_list_def list_reply_def handle_kill_def handle_resize_def handle_detach_def
      handle_peek_def Let_def split: option.split prod.split)

lemma group_requests_set_rbuf:
  "handle_group_set e r x (set_rbuf b cr srv) = set_rbuf b cr (handle_group_set e r x srv)"
  "handle_group_add e r x (set_rbuf b cr srv) = set_rbuf b cr (handle_group_add e r x srv)"
  "handle_group_remove e r x (set_rbuf b cr srv) = set_rbuf b cr (handle_group_remove e r x srv)"
  by (auto simp: handle_group_set_def handle_group_add_def handle_group_remove_def
      Let_def bury_set_rbuf split: option.split prod.split)

lemma group_list_set_rbuf:
  "handle_group_list e r (set_rbuf b cr srv) = set_rbuf b cr (handle_group_list e r srv)"
proof -
  have "put_group a (set_rbuf b cr srv) = put_group a srv" for a
    by (intro ext) (simp add: put_group_def Let_def)
  then have "group_list_reply a (set_rbuf b cr srv) = group_list_reply a srv" for a
    by (simp add: group_list_reply_def Let_def)
  then show ?thesis by (simp add: handle_group_list_def)
qed

lemma group_new_set_rbuf:
  "handle_group_new e r x (set_rbuf b cr srv) = set_rbuf b cr (handle_group_new e r x srv)"
proof -
  have new: "(set_rbuf b cr srv)\<lparr>next_group_id := i, gids_issued := k, groups := g\<rparr> =
      set_rbuf b cr (srv\<lparr>next_group_id := i, gids_issued := k, groups := g\<rparr>)" for i k g
    by (simp add: set_rbuf_def)
  show ?thesis by (auto simp: handle_group_new_def Let_def new split: option.split prod.split)
qed

lemma create_set_rbuf: "handle_create e r x (set_rbuf b cr srv) = set_rbuf b cr (handle_create e r x srv)"
proof -
  have new: "(set_rbuf b cr srv)\<lparr>next_id := i, ids_issued := k, next_ref := m, sessions := ss\<rparr> =
      set_rbuf b cr (srv\<lparr>next_id := i, ids_issued := k, next_ref := m, sessions := ss\<rparr>)" for i k m ss srv
    by (simp add: set_rbuf_def)
  define read where "read = (case epi_rd_str (e_mem e) x of (cwd, r1) \<Rightarrow>
      case read_str_array (e_mem e) r1 of (argv, r2) \<Rightarrow>
      case read_str_array (e_mem e) r2 of (envp, r3) \<Rightarrow>
      case (if \<not> rd_err r3 \<and> rd_pos r3 < rd_len r3 then epi_rd_str (e_mem e) r3 else (None, r3)) of
        (exec_path, r4) \<Rightarrow> (cwd, argv, envp, exec_path, r4))"
  obtain cwd argv envp exec r4 where rd: "read = (cwd, argv, envp, exec, r4)" by (cases read)
  have sp: "handle_create e r x s =
      (if rd_err r4 then reply r (send_error (e_mem e) EPI_ERR_PROTOCOL ''malformed CREATE'') s
       else case epi_session_spawn (e_spawn e) (next_ref s)
              (case cwd of Some w \<Rightarrow> if w \<noteq> [] then Some w else None | None \<Rightarrow> None) argv envp exec of
          (None, es) \<Rightarrow> reply r (send_error (e_mem e) EPI_ERR_SPAWN ''failed to spawn session'') (emit es s)
        | (Some s0, es) \<Rightarrow>
            let i = next_id s + 1; n = s0\<lparr>s_id := i\<rparr>;
                srv1 = (emit es s)\<lparr>next_id := i, ids_issued := ids_issued s + 1,
                          next_ref := next_ref s + 1, sessions := n # sessions s\<rparr>
            in (case ep_add (e_ep_ok e) (s_pty_master n) srv1 of (srv2, rc) \<Rightarrow>
                  if rc \<noteq> 0 then reply r (send_error (e_mem e) EPI_ERR_INTERNAL ''epoll registration failed'')
                      (remove_session (s_ref n) srv2)
                  else reply r (conn_queue_frame (e_mem e)
                      (epi_msg_end (epi_buf_put_u64 (e_mem e) (epi_msg_start (e_mem e) EPI_MSG_ID) i))) srv2))" for s
    using rd unfolding handle_create_def read_def Let_def by (auto split: prod.splits)
  obtain so es where so: "epi_session_spawn (e_spawn e) (next_ref srv)
       (case cwd of Some w \<Rightarrow> if w \<noteq> [] then Some w else None | None \<Rightarrow> None) argv envp exec = (so, es)" by force
  show ?thesis
    by (cases so) (simp_all add: sp so Let_def new split: prod.split, auto)
qed

lemma attach_set_rbuf: "handle_attach e r x (set_rbuf b cr srv) = set_rbuf b cr (handle_attach e r x srv)"
proof -
  define link where "link s t = (let a = e_mem e;
      srv2 = reply r (\<lambda>c. c\<lparr>c_is_data := True, c_session := Some (s_ref s)\<rparr>) t;
      srv3 = on_sess (s_ref s) (quiet (\<lambda>s. s\<lparr>s_client := Some r\<rparr>)) srv2;
      s3 = the (sess_at srv3 (s_ref s));
      b = epi_msg_end (put_session_info a s3 (epi_msg_start a EPI_MSG_ATTACHED));
      srv4 = reply r (conn_queue_frame a b) srv3
    in (case epi_ring_snapshot a (s_out s3) of (None, _) \<Rightarrow> srv4
        | (Some snap, n) \<Rightarrow> reply r (conn_queue a (take n snap)) srv4))" for s :: epi_session and t
  have link: "link s (set_rbuf b cr t) = set_rbuf b cr (link s t)" for s t
    by (simp add: link_def Let_def split: option.split prod.split)
  obtain i r1 where i: "epi_rd_u64 x = (i, r1)" by force
  have "handle_attach e r x t =
      (if rd_err r1 then reply r (send_error (e_mem e) EPI_ERR_PROTOCOL ''malformed ATTACH'') t
       else case find_session t i False of
          None \<Rightarrow> reply r (send_error (e_mem e) EPI_ERR_NOT_FOUND ''no such session'') t
        | Some s \<Rightarrow> link s (if s_client s \<noteq> None \<and> s_client s \<noteq> Some r then detach_client (s_ref s) t else t))" for t
    unfolding handle_attach_def i Let_def link_def by simp
  then show ?thesis by (simp add: link split: option.split)
qed

lemma dispatch_set_rbuf: "dispatch_frame e r t d (set_rbuf b cr srv) = set_rbuf b cr (dispatch_frame e r t d srv)"
  by (simp add: dispatch_frame_def Let_def requests_set_rbuf group_requests_set_rbuf group_list_set_rbuf
      group_new_set_rbuf create_set_rbuf attach_set_rbuf)

text \<open>The frame loop does not depend on the receive buffer of any connection, nor does it change it.\<close>

lemma conn_frames_set_rbuf:
  "conn_frames es r d used k (set_rbuf b cr srv) =
     (case conn_frames es r d used k srv of (s, u, dat) \<Rightarrow> (set_rbuf b cr s, u, dat))"
proof (induction es r d used k srv rule: conn_frames.induct)
  case (1 es r d used k srv)
  let ?flen = "get_le32 d used"
  show ?case
  proof (cases "frame_incomplete d used \<or> frame_bad ?flen")
    case True
    then show ?thesis by (auto simp: conn_frames_turn[of es r d used])
  next
    case good: False
    define s1 where "s1 = next_frame (es k) r d used srv"
    have nf: "next_frame (es k) r d used (set_rbuf b cr srv) = set_rbuf b cr s1"
      by (simp add: next_frame_def dispatch_set_rbuf s1_def)
    have w: "\<not> length d - used < 4" "\<not> ?flen < 4" "\<not> ?flen > MAX_FRAME" "\<not> length d - used - 4 < unat ?flen"
      using good by (auto simp: frame_incomplete_def frame_bad_def)
    have ih: "conn_at s1 r = Some c \<Longrightarrow> \<not> c_is_data c \<Longrightarrow> \<not> c_want_close c \<Longrightarrow>
        conn_frames es r d (used + (4 + unat ?flen)) (k + 1) (set_rbuf b cr s1) =
        (case conn_frames es r d (used + (4 + unat ?flen)) (k + 1) s1 of (s, u, dat) \<Rightarrow> (set_rbuf b cr s, u, dat))" for c
      using 1[OF w(1) refl refl w(2-4) refl s1_def[unfolded next_frame_def] refl] by blast
    show ?thesis
    proof (cases "conn_at s1 r")
      case None
      then show ?thesis using good by (simp add: conn_frames_turn[of es r d used] nf s1_def[symmetric] Let_def)
    next
      case (Some c)
      have l: "conn_frames es r d used k (set_rbuf b cr srv) =
          (let u = used + (4 + unat ?flen) in
           if c_is_data c then (set_rbuf b cr s1, u, True) else if c_want_close c then (set_rbuf b cr s1, u, False)
           else conn_frames es r d u (k + 1) (set_rbuf b cr s1))"
        using good Some by (subst conn_frames_turn) (simp add: nf Let_def)
      have "conn_frames es r d used k srv =
          (let u = used + (4 + unat ?flen) in
           if c_is_data c then (s1, u, True) else if c_want_close c then (s1, u, False)
           else conn_frames es r d u (k + 1) s1)"
        using good Some by (subst conn_frames_turn) (simp add: s1_def[symmetric] Let_def)
      then show ?thesis unfolding l using ih[OF Some] by (simp add: Let_def)
    qed
  qed
qed

section \<open>Reads\<close>

text \<open>How many whole frames begin at an offset of the bytes.\<close>

function whole_frames :: "byte list \<Rightarrow> nat \<Rightarrow> nat" where
  "whole_frames d used =
     (if frame_incomplete d used \<or> frame_bad (get_le32 d used) then 0
      else Suc (whole_frames d (used + (4 + unat (get_le32 d used)))))"
  by pat_completeness auto
termination
  by (relation "measure (\<lambda>(d, used). length d - used)") (auto simp: frame_incomplete_def)

declare whole_frames.simps [simp del]

text \<open>A connection that still takes frames.\<close>

definition taking_frames :: "nat \<Rightarrow> epi_server \<Rightarrow> bool" where
  "taking_frames cr srv \<longleftrightarrow> (\<exists>c. conn_at srv cr = Some c \<and> \<not> c_is_data c \<and> \<not> c_want_close c)"

lemma taking_set_rbuf [simp]: "taking_frames cr (set_rbuf b cr srv) = taking_frames cr srv"
  by (auto simp: taking_frames_def)

text \<open>A run over more bytes that ends well is the run over the first of them, which stops where the
  next frame is not complete, and from there on the rest.\<close>

lemma conn_frames_cut:
  assumes "conn_frames es cr (d @ e) used k srv = (srv2, used2, False)" and "taking_frames cr srv2"
    and "taking_frames cr srv" and "used \<le> length d"
  shows "\<exists>s u. conn_frames es cr d used k srv = (s, u, False) \<and> taking_frames cr s \<and> frame_incomplete d u \<and>
      u \<le> length d \<and> conn_frames es cr (d @ e) u (k + whole_frames d used) s = (srv2, used2, False)"
  using assms
proof (induction es cr d used k srv rule: conn_frames.induct)
  case (1 es cr d used k srv)
  let ?flen = "get_le32 d used"
  show ?case
  proof (cases "frame_incomplete d used")
    case True
    then show ?thesis using 1(2,4,5) by (simp add: conn_frames_turn[of es cr d] whole_frames.simps[of d])
  next
    case whole: False
    have le: "used + 4 \<le> length d" using whole by (auto simp: frame_incomplete_def)
    then have same: "get_le32 (d @ e) used = ?flen" by (simp add: get_le32_append)
    have inc: "\<not> frame_incomplete (d @ e) used"
      using whole by (auto simp: frame_incomplete_def same)
    show ?thesis
    proof (cases "frame_bad ?flen")
      case True
      have "srv2 = reply cr (bad_reply (e_mem (es k)) ?flen) srv"
        using 1(2) inc True by (auto simp: conn_frames_turn[of es cr "d @ e"] same)
      moreover have "c_ref (bad_reply (e_mem (es k)) ?flen c) = c_ref c" for c
        using send_error_keep by (simp add: bad_reply_def conn_keep_def same_conn_def)
      ultimately have "False" using 1(3) by (auto simp: taking_frames_def conn_at_quiet bad_reply_def)
      then show ?thesis ..
    next
      case good: False
      let ?n = "used + (4 + unat ?flen)"
      define s1 where "s1 = next_frame (es k) cr d used srv"
      note w = frame_whole[OF whole good]
      have "get_le32 (d @ e) (used + 4) = get_le32 d (used + 4)"
        "bytes_at (used + 8) (unat ?flen - 4) (d @ e) = bytes_at (used + 8) (unat ?flen - 4) d"
        using w by (simp_all add: get_le32_append bytes_at_append)
      then have nf: "next_frame (es k) cr (d @ e) used srv = s1" by (simp add: next_frame_def same s1_def)
      have turn: "conn_frames es cr x used k srv = (case conn_at s1 cr of None \<Rightarrow> (s1, ?n, False)
          | Some c \<Rightarrow> if c_is_data c then (s1, ?n, True) else if c_want_close c then (s1, ?n, False)
                      else conn_frames es cr x ?n (k + 1) s1)" if "x = d \<or> x = d @ e" for x
      proof -
        have "next_frame (es k) cr x used srv = s1" "get_le32 x used = ?flen" "\<not> frame_incomplete x used"
          using that nf same whole inc by (auto simp: s1_def)
        then show ?thesis using good by (subst conn_frames_turn) (simp add: Let_def)
      qed
      obtain c where c: "conn_at s1 cr = Some c" "\<not> c_is_data c" "\<not> c_want_close c"
        using 1(2,3) turn[of "d @ e"] by (auto simp: taking_frames_def split: option.splits if_splits)
      then have rest: "conn_frames es cr (d @ e) ?n (k + 1) s1 = (srv2, used2, False)"
        using 1(2) turn[of "d @ e"] by simp
      have tk: "taking_frames cr s1" using c by (auto simp: taking_frames_def)
      have "\<not> length d - used < 4" "\<not> ?flen < 4" "\<not> ?flen > MAX_FRAME" "\<not> length d - used - 4 < unat ?flen"
        using whole good by (auto simp: frame_incomplete_def frame_bad_def)
      from 1(1)[OF this(1) refl refl this(2-4) refl s1_def[unfolded next_frame_def] refl c rest 1(3) tk w(1)]
      show ?thesis using turn[of d] c whole good by (simp add: whole_frames.simps[of d used])
    qed
  qed
qed

text \<open>The bytes of a connection's unfinished frame.\<close>

definition waiting :: "nat \<Rightarrow> epi_server \<Rightarrow> byte list" where
  "waiting cr srv = (case conn_at srv cr of None \<Rightarrow> [] | Some c \<Rightarrow> take (c_rlen c) (c_rbuf c))"

lemma reply_const:
  assumes "srv_inv srv" and "conn_at srv cr = Some c"
  shows "reply cr (\<lambda>_. with_rbuf b c) srv = set_rbuf b cr srv"
proof -
  have "d = c" if "d \<in> set (conns srv)" "c_ref d = cr" for d
    using that assms conn_at_mem[of srv d] by (simp add: srv_inv_def)
  then show ?thesis using assms(2)
    by (auto simp: on_conn_def quiet_def emit_def set_rbuf_def)
qed

lemma set_own_rbuf:
  assumes "srv_inv srv" and "conn_at srv cr = Some c"
  shows "set_rbuf (c_rbuf c, c_rlen c, c_rcap c) cr srv = srv"
proof -
  have "d = c" if "d \<in> set (conns srv)" "c_ref d = cr" for d
    using that assms conn_at_mem[of srv d] by (simp add: srv_inv_def)
  then have "map (\<lambda>d. if c_ref d = cr then with_rbuf (c_rbuf c, c_rlen c, c_rcap c) d else d) (conns srv) = conns srv"
    by (intro map_idI) (auto simp: with_rbuf_def)
  then show ?thesis by (simp add: set_rbuf_def)
qed

lemma drop_rbuf:
  assumes "conn_ok c" and "used \<le> c_rlen c"
  shows "\<exists>b. (\<forall>x. rbuf_drop used (with_rbuf (c_rbuf c, c_rlen c, c_rcap c) x) = with_rbuf b x) \<and>
     take (fst (snd b)) (fst b) = drop used (take (c_rlen c) (c_rbuf c))"
proof -
  let ?rest = "bytes_at used (c_rlen c - used) (c_rbuf c)"
  have rest: "?rest = drop used (take (c_rlen c) (c_rbuf c))" by (simp add: bytes_at_def drop_take)
  have len: "length ?rest = c_rlen c - used" using assms by (intro bytes_at_length) (auto simp: conn_ok_def)
  show ?thesis
  proof (cases "0 < used \<and> c_rcap c \<noteq> 0")
    case True
    have "take (c_rlen c - used) (blit (c_rbuf c) 0 ?rest) = ?rest"
      using front_of_blit[OF len, of "c_rbuf c"] by (simp add: bytes_at_def)
    then show ?thesis using True rest
      by (intro exI[of _ "(blit (c_rbuf c) 0 ?rest, c_rlen c - used, c_rcap c)"]) (simp add: rbuf_drop_def with_rbuf_def)
  next
    case False
    then have "used = 0" using assms by (auto simp: conn_ok_def)
    then show ?thesis
      by (intro exI[of _ "(c_rbuf c, c_rlen c, c_rcap c)"]) (simp add: rbuf_drop_def)
  qed
qed

lemma reply_set_rbuf_at:
  assumes "\<And>x. rbuf_drop u (with_rbuf b x) = with_rbuf b' x" and "conn_at s cr = Some c"
  shows "reply cr (rbuf_drop u) (set_rbuf b cr s) = set_rbuf b' cr s"
proof -
  have "reply cr (rbuf_drop u) (set_rbuf b cr s) =
      (set_rbuf b cr s)\<lparr>conns := map (\<lambda>d. if c_ref d = cr then rbuf_drop u d else d) (conns (set_rbuf b cr s))\<rparr>"
    using assms(2) by (simp add: on_conn_def emit_def quiet_def)
  also have "\<dots> = set_rbuf b' cr s" by (auto simp: set_rbuf_def assms(1))
  finally show ?thesis .
qed

text \<open>One read: its bytes are put behind those that wait, the frames that are now whole are handled,
  and what is left over waits.\<close>

lemma conn_read_step:
  assumes inv: "srv_inv srv" and tk: "taking_frames cr srv" and mem: "never_fails (in_mem i)"
    and d: "in_res i = R_data d" "d \<noteq> []" "length d \<le> PTY_READ_CHUNK"
    and run: "conn_frames (in_envs i) cr (waiting cr srv @ d) 0 0 srv = (s, u, False)" "taking_frames cr s"
      "u \<le> length (waiting cr srv @ d)"
  shows "\<exists>b. conn_read i cr srv = set_rbuf b cr s \<and> take (fst (snd b)) (fst b) = drop u (waiting cr srv @ d)"
proof -
  obtain c where c: "conn_at srv cr = Some c" "\<not> c_is_data c" using tk by (auto simp: taking_frames_def)
  have cok: "conn_ok c" "c_ref c = cr" using conn_objs[OF inv c(1)] by auto
  obtain c1 where c1: "rbuf_room (in_mem i) c (length d) = Some c1"
    using rbuf_room_spec[of "in_mem i" c "length d"] mem by (cases "rbuf_room (in_mem i) c (length d)") auto
  define c2 where "c2 = c1\<lparr>c_rbuf := blit (c_rbuf c1) (c_rlen c1) d, c_rlen := c_rlen c1 + length d\<rparr>"
  note st = rbuf_store[OF cok(1) c1, folded c2_def]
  let ?b = "(c_rbuf c2, c_rlen c2, c_rcap c2)"
  obtain nd cap where "c1 = c\<lparr>c_rbuf := nd, c_rcap := cap\<rparr>"
    using rbuf_room_spec[of "in_mem i" c "length d"] c1 by auto
  then have "c2 = with_rbuf ?b c" by (simp add: c2_def with_rbuf_def)
  then have stored: "reply cr (\<lambda>_. c2) srv = set_rbuf ?b cr srv" using reply_const[OF inv c(1), of ?b] by simp
  have data: "take (c_rlen c2) (c_rbuf c2) = waiting cr srv @ d" using st(7) c(1) by (simp add: waiting_def)
  have "u \<le> c_rlen c2" using run(3) unfolding data[symmetric] by simp
  from drop_rbuf[OF st(1) this] obtain b where
    b: "rbuf_drop u (with_rbuf ?b x) = with_rbuf b x" "take (fst (snd b)) (fst b) = drop u (waiting cr srv @ d)" for x
    unfolding data by blast
  have "conn_frames (in_envs i) cr (take (c_rlen c2) (c_rbuf c2)) 0 0 (reply cr (\<lambda>_. c2) srv) = (set_rbuf ?b cr s, u, False)"
    unfolding data stored conn_frames_set_rbuf run(1) by simp
  from conn_read_frames[OF d c c1 c2_def this]
  have "conn_read i cr srv = reply cr (rbuf_drop u) (set_rbuf ?b cr s)" .
  also have "\<dots> = set_rbuf b cr s" using run(2) reply_set_rbuf_at[of u ?b b s cr] b(1) by (auto simp: taking_frames_def)
  finally show ?thesis using b(2) by blast
qed

text \<open>The stream arrives in pieces, each in one read; the frames of a piece are counted so that the
  k-th frame of the stream meets the k-th environment however it is cut.\<close>

fun read_stream :: "(nat \<Rightarrow> env) \<Rightarrow> allocator \<Rightarrow> wres list \<Rightarrow> nat \<Rightarrow> byte list list \<Rightarrow> epi_server \<Rightarrow> epi_server" where
  "read_stream es a ws cr [] srv = srv"
| "read_stream es a ws cr (d # ds) srv =
     read_stream (\<lambda>j. es (whole_frames (waiting cr srv @ d) 0 + j)) a ws cr ds
       (conn_read \<lparr>in_res = R_data d, in_mem = a, in_pty = ws, in_envs = es\<rparr> cr srv)"

text \<open>C7. How the kernel cuts a control connection's byte stream into reads does not matter. Take all
  the bytes that are still to come, behind those that wait from earlier reads, and handle them at
  once: if the connection still takes frames after that, then reading the same bytes in pieces of
  any sizes, down to single bytes, ends in the same server (sessions, groups, every connection's
  queued output, log of effects; only the spare room of this connection's receive buffer may
  differ), and exactly the bytes after the last whole frame wait in the receive buffer.\<close>

theorem stream_independent_of_reads:
  assumes "srv_inv srv" and "taking_frames cr srv" and "frame_incomplete (waiting cr srv) 0"
    and "\<forall>d \<in> set ds. d \<noteq> [] \<and> length d \<le> PTY_READ_CHUNK" and "never_fails a"
    and "conn_frames es cr (waiting cr srv @ concat ds) 0 0 srv = (srv2, used, False)" and "taking_frames cr srv2"
  shows "(\<exists>b. read_stream es a ws cr ds srv = set_rbuf b cr srv2) \<and>
    waiting cr (read_stream es a ws cr ds srv) = drop used (waiting cr srv @ concat ds)"
  using assms
proof (induction ds arbitrary: es srv srv2 used)
  case Nil
  then have "srv2 = srv" "used = 0" by (simp_all add: conn_frames_turn[of es cr])
  moreover obtain c where "conn_at srv cr = Some c" using Nil(2) by (auto simp: taking_frames_def)
  then have "set_rbuf (c_rbuf c, c_rlen c, c_rcap c) cr srv = srv" by (rule set_own_rbuf[OF Nil(1)])
  then have "\<exists>b. srv = set_rbuf b cr srv" by metis
  ultimately show ?case by auto
next
  case (Cons d ds)
  let ?w = "waiting cr srv @ d"
  have whole: "conn_frames es cr (?w @ concat ds) 0 0 srv = (srv2, used, False)" using Cons.prems(6) by simp
  from conn_frames_cut[OF whole Cons.prems(7,2)] obtain s u where
    s: "conn_frames es cr ?w 0 0 srv = (s, u, False)" "taking_frames cr s" "frame_incomplete ?w u" "u \<le> length ?w"
      "conn_frames es cr (?w @ concat ds) u (whole_frames ?w 0) s = (srv2, used, False)" by auto
  define i where "i = \<lparr>in_res = R_data d, in_mem = a, in_pty = ws, in_envs = es\<rparr>"
  have d: "in_res i = R_data d" "d \<noteq> []" "length d \<le> PTY_READ_CHUNK" "never_fails (in_mem i)" "in_envs i = es"
    using Cons.prems(4,5) by (simp_all add: i_def)
  from conn_read_step[OF Cons.prems(1,2) d(4) d(1-3) _ s(2,4)] s(1) d(5) obtain b where
    b: "conn_read i cr srv = set_rbuf b cr s" "take (fst (snd b)) (fst b) = drop u ?w" by auto
  let ?t = "conn_read i cr srv" and ?es = "\<lambda>j. es (whole_frames ?w 0 + j)"
  have t: "waiting cr ?t = drop u ?w" "taking_frames cr ?t" "srv_inv ?t"
    using s(2) b conn_read_inv[OF Cons.prems(1), of i cr] by (auto simp: taking_frames_def waiting_def)
  have inc: "frame_incomplete (waiting cr ?t) 0"
    using s(3) incomplete_drop[OF s(4), of 0] unfolding t(1) by simp
  have drp: "drop u (?w @ concat ds) = waiting cr ?t @ concat ds" using s(4) t(1) by simp
  obtain x v f where x: "conn_frames ?es cr (waiting cr ?t @ concat ds) 0 0 s = (x, v, f)"
    by (cases "conn_frames ?es cr (waiting cr ?t @ concat ds) 0 0 s")
  have "u \<le> length (?w @ concat ds)" using s(4) by simp
  from conn_frames_shift[OF this, of es cr 0 "whole_frames ?w 0" 0 s] s(5) x drp
  have xv: "x = srv2" "used = u + v" "\<not> f" by auto
  have run: "conn_frames ?es cr (waiting cr ?t @ concat ds) 0 0 ?t = (set_rbuf b cr srv2, v, False)"
    using x xv by (simp add: b(1) conn_frames_set_rbuf)
  have "taking_frames cr (set_rbuf b cr srv2)" using Cons.prems(7) by simp
  from Cons.IH[OF t(3,2) inc _ Cons.prems(5) run this] Cons.prems(4)
  have "(\<exists>b'. read_stream ?es a ws cr ds ?t = set_rbuf b' cr (set_rbuf b cr srv2)) \<and>
      waiting cr (read_stream ?es a ws cr ds ?t) = drop v (waiting cr ?t @ concat ds)" by simp
  moreover have "drop v (waiting cr ?t @ concat ds) = drop used (?w @ concat ds)"
    using xv(2) by (simp only: drp[symmetric] drop_drop add.commute)
  ultimately show ?case by (auto simp only: read_stream.simps i_def[symmetric] set_rbuf_sel concat.simps append_assoc)
qed

lemma queue_stays_open:
  assumes "conn_ok c" and "never_fails a" and "c_wlen c + length d \<le> MAX_WBUF" and "\<not> c_want_close c"
  shows "\<not> c_want_close (conn_queue a d c)"
proof (cases "d = []")
  case True
  then show ?thesis using assms(4) by (simp add: conn_queue_def)
next
  case False
  have c1: "c_wlen (conn_compact c) \<le> c_wlen c" "\<not> c_want_close (conn_compact c)"
    using compact_spec[of c] assms(4) by (auto simp: conn_compact_def)
  obtain c2 where c2: "conn_room a (conn_compact c) (length d) = Some c2" "\<not> c_want_close c2"
    "c_wlen c2 = c_wlen (conn_compact c)"
    using room_spec[of a "conn_compact c" "length d"] assms(2) c1(2)
    by (cases "conn_room a (conn_compact c) (length d)") auto
  then show ?thesis using False c1(1) assms(3) by (auto simp: conn_queue_def Let_def)
qed

text \<open>A GROUP_REMOVE for session 1 and the first byte of another frame, in four reads.\<close>

theorem stream_independent_of_reads_witness:
  "waiting 1 (read_stream (\<lambda>_. demo_env) alloc_ok [] 1
     [[12, 0], [0], [0, 11, 0, 0, 0, 1, 0, 0, 0, 0], [0, 0, 0, 7]] demo_srv) = [7]"
proof -
  let ?ds = "[[12, 0], [0], [0, 11, 0, 0, 0, 1, 0, 0, 0, 0], [0, 0, 0, 7 :: byte]]"
  let ?d = "[12, 0, 0, 0, 11, 0, 0, 0, 1, 0, 0, 0, 0, 0, 0, 0, 7 :: byte]"
  define s where "s = next_frame demo_env 1 ?d 0 demo_srv"
  have w: "waiting 1 demo_srv = []" using demo_conn_at by (simp add: waiting_def new_conn_def)
  have flen: "get_le32 ?d 0 = 12" "get_le32 ?d 4 = 11" by (simp_all add: get_le32_def)
  have body: "bytes_at 8 (unat (12 :: u32) - 4) ?d = le64 1"
    by (simp add: bytes_at_def le64_def le32_def)
  obtain r where r: "epi_rd_u64 (epi_rd_init (le64 1)) = (1, r)" "rd_at r []" by (rule rd_u64_init_only)
  define t where "t = gc_group_if_empty 1 (on_sess 0 (quiet (\<lambda>s. s\<lparr>s_group_id := 0\<rparr>)) demo_srv)"
  have f: "find_session demo_srv 1 False = Some demo_sess" by (rule demo_find)
  have "s = reply 1 (send_ok alloc_ok) t"
    unfolding s_def next_frame_def add_0 flen body
    by (simp add: dispatch_frame_def msg_codes handle_group_remove_def r(1) rd_at_more(2)[OF r(2)] f
        demo_env_def demo_sess_def t_def)
  moreover have "conn_at t 1 = Some (new_conn 1 20)"
    using demo_conn_at by (simp add: t_def conn_at_def gc_group_if_empty_def unlink_group_def on_sess_def emit_def
        split: option.split)
  ultimately have "conn_at s 1 = Some (conn_queue alloc_ok (frame EPI_MSG_OK []) (new_conn 1 20))"
    using conn_at_quiet[of "conn_queue alloc_ok (frame EPI_MSG_OK [])" 1 t 1] queue_same[of _ alloc_ok "frame EPI_MSG_OK []"]
    by (simp add: send_ok_frame same_conn_def)
  moreover have "\<not> c_want_close (conn_queue alloc_ok (frame EPI_MSG_OK []) (new_conn 1 20))"
    by (rule queue_stays_open) (simp_all add: new_conn_def conn_ok_def frame_def le32_def MAX_WBUF_def)
  moreover have "\<not> c_is_data (conn_queue alloc_ok (frame EPI_MSG_OK []) (new_conn 1 20))"
    using queue_same[of "new_conn 1 20" alloc_ok "frame EPI_MSG_OK []"] by (simp add: same_conn_def new_conn_def)
  ultimately have s: "taking_frames 1 s" by (simp add: taking_frames_def)
  then obtain c where c: "conn_at s 1 = Some c" "\<not> c_is_data c" "\<not> c_want_close c"
    by (auto simp: taking_frames_def)
  have inc: "\<not> frame_incomplete ?d 0" "\<not> frame_bad (get_le32 ?d 0)" "frame_incomplete ?d 16"
    by (simp_all add: frame_incomplete_def frame_bad_def MAX_FRAME_def flen)
  have run: "conn_frames (\<lambda>_. demo_env) 1 ?d 0 0 demo_srv = (s, 16, False)"
    using inc c flen by (subst conn_frames_turn) (simp add: s_def[symmetric] Let_def del: One_nat_def, subst conn_frames_turn, simp)
  have start: "taking_frames 1 demo_srv" "frame_incomplete (waiting 1 demo_srv) 0"
    unfolding w using demo_conn_at by (simp_all add: taking_frames_def new_conn_def frame_incomplete_def)
  have cut: "\<forall>d \<in> set ?ds. d \<noteq> [] \<and> length d \<le> PTY_READ_CHUNK" by (simp add: PTY_READ_CHUNK_def)
  have "conn_frames (\<lambda>_. demo_env) 1 (waiting 1 demo_srv @ concat ?ds) 0 0 demo_srv = (s, 16, False)"
    using run w by simp
  from stream_independent_of_reads[OF demo_inv start cut never_fails_alloc_ok this s, where ws = "[]"]
  have "waiting 1 (read_stream (\<lambda>_. demo_env) alloc_ok [] 1 ?ds demo_srv) = drop 16 (waiting 1 demo_srv @ concat ?ds)"
    by blast
  also have "\<dots> = [7]" unfolding w by simp
  finally show ?thesis .
qed

end
