(* ===== verification/Paths.thy ===== *)
theory Paths
  imports Protocol
begin

text \<open>
  The daemon's directories (src/src/daemon/paths.c). A path is the bytes of a C string without
  its NUL. \<open>getenv\<close> is a partial map, mkdir(2) a function from a path to its result. A function
  that creates directories returns, beside its result, the paths that it asked mkdir for, in
  order; a path in a buffer is \<open>None\<close> where the C function returns -1.
\<close>

abbreviation slash :: byte where
  "slash \<equiv> 0x2f"

datatype mkdir_res = Mk_ok | Mk_exists | Mk_err

record path_env =
  p_getenv :: "byte list \<rightharpoonup> byte list"
  p_uid :: u32
  p_mkdir :: "byte list \<Rightarrow> mkdir_res"

text \<open>\<open>%u\<close>\<close>

fun decimal :: "nat \<Rightarrow> byte list" where
  "decimal n = (if n < 10 then [word_of_nat (48 + n)]
                else decimal (n div 10) @ [word_of_nat (48 + n mod 10)])"

declare decimal.simps [simp del]

text \<open>
  The checks around snprintf: the text of \<open>n\<close> bytes was cut short when \<open>n >= buflen\<close>.
\<close>

definition printed :: "nat \<Rightarrow> byte list \<Rightarrow> byte list option" where
  "printed buflen s = (if length s \<ge> buflen then None else Some s)"

fun make_dirs :: "(byte list \<Rightarrow> mkdir_res) \<Rightarrow> byte list list \<Rightarrow> int \<times> byte list list" where
  "make_dirs mk [] = (0, [])"
| "make_dirs mk (p # ps) =
     (if mk p = Mk_err then (-1, [p])
      else case make_dirs mk ps of (rc, made) \<Rightarrow> (rc, p # made))"

text \<open>\<open>sizeof tmp\<close>\<close>

definition PATH_TMP :: nat where "PATH_TMP = 512"

text \<open>The loop cuts \<open>tmp\<close> at each slash after the first byte; the last mkdir is the path itself.\<close>

definition ensure_dir :: "(byte list \<Rightarrow> mkdir_res) \<Rightarrow> byte list \<Rightarrow> int \<times> byte list list" where
  "ensure_dir mk path =
     (let len = length path in
      if len = 0 \<or> len \<ge> PATH_TMP then (-1, [])
      else make_dirs mk (map (\<lambda>i. take i path) (filter (\<lambda>i. path ! i = slash) [1..<len]) @ [path]))"

definition made :: "byte list \<Rightarrow> int \<times> byte list list \<Rightarrow> byte list option \<times> byte list list" where
  "made dir r = (if fst r \<noteq> 0 then None else Some dir, snd r)"

definition epi_runtime_dir :: "path_env \<Rightarrow> nat \<Rightarrow> byte list option \<times> byte list list" where
  "epi_runtime_dir e buflen =
     (let xdg = p_getenv e (lit ''XDG_RUNTIME_DIR'');
          text = (case xdg of
                    Some x \<Rightarrow> if take 1 x = [slash] then x @ lit ''/epimone''
                              else lit ''/tmp/epimone-'' @ decimal (unat (p_uid e))
                  | None \<Rightarrow> lit ''/tmp/epimone-'' @ decimal (unat (p_uid e)))
      in case printed buflen text of
           None \<Rightarrow> (None, [])
         | Some dir \<Rightarrow> made dir (ensure_dir (p_mkdir e) dir))"

definition EPIMONE_SOCKET_NAME :: "byte list" where
  "EPIMONE_SOCKET_NAME = lit ''control.sock''"

definition epi_socket_path :: "path_env \<Rightarrow> nat \<Rightarrow> byte list option \<times> byte list list" where
  "epi_socket_path e buflen =
     (case epi_runtime_dir e 512 of
        (None, ds) \<Rightarrow> (None, ds)
      | (Some dir, ds) \<Rightarrow> (printed buflen (dir @ [slash] @ EPIMONE_SOCKET_NAME), ds))"

definition epi_state_dir :: "path_env \<Rightarrow> nat \<Rightarrow> byte list option \<times> byte list list" where
  "epi_state_dir e buflen =
     (let xdg = p_getenv e (lit ''XDG_STATE_HOME'');
          home = p_getenv e (lit ''HOME'')
      in if (case xdg of Some x \<Rightarrow> take 1 x = [slash] | None \<Rightarrow> False)
         then (case printed buflen (the xdg @ lit ''/epimone'') of
                 None \<Rightarrow> (None, [])
               | Some dir \<Rightarrow> made dir (ensure_dir (p_mkdir e) dir))
         else if (case home of Some h \<Rightarrow> take 1 h \<noteq> [slash] | None \<Rightarrow> True) then (None, [])
         else (case printed buflen (the home @ lit ''/.local/state/epimone'') of
                 None \<Rightarrow> (None, [])
               | Some dir \<Rightarrow> made dir (ensure_dir (p_mkdir e) dir)))"

section \<open>Laws\<close>

lemma printed_Some: "printed n s = Some t \<longleftrightarrow> t = s \<and> length s < n"
  by (auto simp: printed_def)

lemma make_dirs_ok:
  "fst (make_dirs mk ps) = 0 \<longleftrightarrow> (\<forall>p \<in> set ps. mk p \<noteq> Mk_err)"
  by (induction ps) (auto split: prod.splits)

lemma make_dirs_made:
  "fst (make_dirs mk ps) = 0 \<Longrightarrow> snd (make_dirs mk ps) = ps"
  by (induction ps) (auto split: prod.splits if_splits)

lemma make_dirs_prefix:
  "\<exists>qs. ps = snd (make_dirs mk ps) @ qs"
  by (induction ps) (auto split: prod.splits)

lemma lit_length [simp]: "length (lit s) = length s"
  by (simp add: lit_def)

lemma make_dirs_rc: "fst (make_dirs mk ps) = 0 \<or> fst (make_dirs mk ps) = -1"
  by (induction ps) (auto split: prod.splits)

text \<open>Every directory that success needs was asked for, the upper ones first.\<close>

lemma ensure_dir_prefixes:
  assumes "fst (ensure_dir mk path) = 0"
  shows "snd (ensure_dir mk path) =
           map (\<lambda>i. take i path) (filter (\<lambda>i. path ! i = slash) [1..<length path]) @ [path]"
    and "0 < length path" "length path < PATH_TMP"
  using assms make_dirs_made[of mk] by (auto simp: ensure_dir_def Let_def split: if_splits)

end
