(* ===== verification/Daemon_Main.thy ===== *)
theory Daemon_Main
  imports Server Paths
begin

text \<open>
  The start of the daemon (src/src/daemon/main.c): the probe of an existing socket, going into
  the background, and main.
\<close>

section \<open>The probe\<close>

text \<open>A result of connect(2).\<close>

datatype connect_res = Cn_ok | Cn_refused | Cn_noent | Cn_other

record probe_env =
  pr_socket :: bool
  pr_connect :: connect_res

definition socket_in_use :: "probe_env \<Rightarrow> byte list \<Rightarrow> int" where
  "socket_in_use e path =
     (if \<not> pr_socket e then -1
      else if length path \<ge> SUN_PATH_MAX then -1
      else (case pr_connect e of
              Cn_ok \<Rightarrow> 1
            | Cn_refused \<Rightarrow> 0
            | Cn_noent \<Rightarrow> 0
            | Cn_other \<Rightarrow> -1))"

section \<open>Going into the background\<close>

text \<open>
  The part of a process that daemonize changes: what its descriptors refer to, its session and
  working directory, and where the log goes. A fork returns in the parent, in the child or fails.
\<close>

datatype fd_target = F_null | F_log "byte list" | F_other nat
datatype fork_res = Fork_parent | Fork_child | Fork_err
datatype 'p fate = Exits int 'p | Returns int 'p

record process =
  pc_fds :: "int \<rightharpoonup> fd_target"
  pc_leader :: bool
  pc_cwd :: "byte list"
  pc_log_fd :: int

record daemonize_env =
  d_fork1 :: fork_res
  d_setsid :: bool
  d_fork2 :: fork_res
  d_chdir :: bool
  d_null :: int
  d_path :: path_env
  d_log :: int

definition dup2 :: "int \<Rightarrow> int \<Rightarrow> process \<Rightarrow> process" where
  "dup2 old new p = p\<lparr>pc_fds := (pc_fds p)(new := pc_fds p old)\<rparr>"

definition opened :: "int \<Rightarrow> fd_target \<Rightarrow> process \<Rightarrow> process" where
  "opened fd f p = p\<lparr>pc_fds := (pc_fds p)(fd \<mapsto> f)\<rparr>"

definition closed :: "int \<Rightarrow> process \<Rightarrow> process" where
  "closed fd p = p\<lparr>pc_fds := (pc_fds p)(fd := None)\<rparr>"

definition redirect_null :: "int \<Rightarrow> process \<Rightarrow> process" where
  "redirect_null fd p =
     (if 0 \<le> fd
      then let p1 = dup2 fd 1 (dup2 fd 0 (opened fd F_null p))
           in if 2 < fd then closed fd p1 else p1
      else p)"

definition redirect_log :: "path_env \<Rightarrow> int \<Rightarrow> process \<Rightarrow> process" where
  "redirect_log e fd p =
     (case epi_state_dir e 512 of
        (None, _) \<Rightarrow> p
      | (Some dir, _) \<Rightarrow>
          let logpath = take 599 (dir @ lit ''/daemon.log'')
          in if 0 \<le> fd
             then let p1 = dup2 fd 2 (opened fd (F_log logpath) p);
                      p2 = (if fd \<noteq> 2 then closed fd p1 else p1)
                  in p2\<lparr>pc_log_fd := 2\<rparr>
             else p)"

text \<open>setsid fails in a process that leads a group already; the second fork ends leadership.\<close>

definition daemonize :: "daemonize_env \<Rightarrow> process \<Rightarrow> process fate" where
  "daemonize e p =
     (case d_fork1 e of
        Fork_err \<Rightarrow> Returns (-1) p
      | Fork_parent \<Rightarrow> Exits 0 p
      | Fork_child \<Rightarrow>
          if \<not> d_setsid e then Returns (-1) p
          else
            let p1 = p\<lparr>pc_leader := True\<rparr> in
            (case d_fork2 e of
               Fork_err \<Rightarrow> Returns (-1) p1
             | Fork_parent \<Rightarrow> Exits 0 p1
             | Fork_child \<Rightarrow>
                 let p2 = p1\<lparr>pc_leader := False\<rparr>;
                     p3 = (if d_chdir e then p2\<lparr>pc_cwd := [slash]\<rparr> else p2);
                     p4 = redirect_null (d_null e) p3
                 in Returns 0 (redirect_log (d_path e) (d_log e) p4)))"

section \<open>main\<close>

text \<open>The arguments after the program name; \<open>Inl\<close> is the exit status of an early return.\<close>

fun parse_args :: "byte list list \<Rightarrow> bool \<Rightarrow> int + bool" where
  "parse_args [] d = Inr d"
| "parse_args (v # vs) d =
     (if v = lit ''--daemonize'' then parse_args vs True
      else if v = lit ''--help'' \<or> v = lit ''-h'' then Inl 0
      else Inl 2)"

record main_env =
  m_path :: path_env
  m_probe :: probe_env
  m_daemonize :: daemonize_env
  m_init :: init_env
  m_waits :: "wait list"

text \<open>
  The exit status, the sockets unlinked and the server as it was left. \<open>p\<close> is the process that
  runs; a process that exits inside daemonize has made no server.
\<close>

definition daemon_main :: "main_env \<Rightarrow> byte list list \<Rightarrow> process \<Rightarrow> int \<times> sysop list \<times> epi_server option" where
  "daemon_main e argv p =
     (case parse_args argv False of
        Inl status \<Rightarrow> (status, [], None)
      | Inr do_daemonize \<Rightarrow>
          (case epi_socket_path (m_path e) 512 of
             (None, _) \<Rightarrow> (1, [], None)
           | (Some path, _) \<Rightarrow>
               let rc = socket_in_use (m_probe e) path in
               if rc = 1 then (0, [], None)
               else
                 let es = (if rc = 0 then [Unlink path] else []);
                     start = (case epi_server_init (m_init e) path of (srv, rc) \<Rightarrow>
                       if rc \<noteq> 0
                       then (let srv' = epi_server_shutdown srv in (1, es @ sys srv', Some srv'))
                       else (let srv' = epi_server_shutdown (epi_server_run (m_waits e) srv)
                             in (0, es @ sys srv', Some srv')))
                 in if do_daemonize
                    then (case daemonize (m_daemonize e) p of
                            Exits status _ \<Rightarrow> (status, es, None)
                          | Returns rc _ \<Rightarrow> if rc \<noteq> 0 then (1, es, None) else start)
                    else start))"

section \<open>Descriptors\<close>

lemma redirect_null_fds:
  assumes "pc_fds p fd = None"
  shows "k \<notin> {0, 1, 2} \<Longrightarrow> pc_fds (redirect_null fd p) k = pc_fds p k"
    and "0 \<le> fd \<Longrightarrow> pc_fds (redirect_null fd p) 0 = Some F_null \<and> pc_fds (redirect_null fd p) 1 = Some F_null"
    and "pc_leader (redirect_null fd p) = pc_leader p" "pc_cwd (redirect_null fd p) = pc_cwd p"
  using assms by (auto simp: redirect_null_def Let_def dup2_def opened_def closed_def)

lemma redirect_log_fds:
  assumes "pc_fds p fd = None"
  shows "k \<notin> {0, 1, 2} \<Longrightarrow> pc_fds (redirect_log e fd p) k = pc_fds p k"
    and "pc_fds p k \<noteq> None \<Longrightarrow> k \<noteq> 2 \<Longrightarrow> pc_fds (redirect_log e fd p) k = pc_fds p k"
    and "0 \<le> fd \<Longrightarrow> epi_state_dir e 512 = (Some dir, ds) \<Longrightarrow>
      pc_fds (redirect_log e fd p) 2 = Some (F_log (take 599 (dir @ lit ''/daemon.log''))) \<and>
      pc_log_fd (redirect_log e fd p) = 2"
    and "pc_leader (redirect_log e fd p) = pc_leader p" "pc_cwd (redirect_log e fd p) = pc_cwd p"
  using assms
  by (auto simp: redirect_log_def Let_def dup2_def opened_def closed_def split: option.splits prod.splits)

lemma state_dir_length: "epi_state_dir e n = (Some dir, ds) \<Longrightarrow> length dir < n"
  by (auto simp: epi_state_dir_def Let_def made_def printed_Some split: option.splits if_splits)

text \<open>A daemonize that returns success leaves a process that is not a session leader, with
  standard input and output on /dev/null and the errors and the log in the log file of the state
  directory, whose name is not cut short; every other descriptor is as it was, so none leaks.
  open(2) gives a descriptor that is not in use.\<close>

theorem daemonize_detaches:
  assumes ret: "daemonize e p = Returns 0 p'"
    and null: "0 \<le> d_null e" "pc_fds p (d_null e) = None"
    and log: "0 \<le> d_log e" "pc_fds (redirect_null (d_null e) p) (d_log e) = None"
    and dir: "epi_state_dir (d_path e) 512 = (Some dir, ds)"
  shows "\<not> pc_leader p' \<and> (d_chdir e \<longrightarrow> pc_cwd p' = [slash]) \<and>
    pc_fds p' 0 = Some F_null \<and> pc_fds p' 1 = Some F_null \<and>
    pc_fds p' 2 = Some (F_log (dir @ lit ''/daemon.log'')) \<and> pc_log_fd p' = 2 \<and>
    (\<forall>k. k \<notin> {0, 1, 2} \<longrightarrow> pc_fds p' k = pc_fds p k)"
proof -
  define q where "q = p\<lparr>pc_leader := False, pc_cwd := if d_chdir e then [slash] else pc_cwd p\<rparr>"
  define r where "r = redirect_null (d_null e) q"
  have p': "p' = redirect_log (d_path e) (d_log e) r"
    using ret by (auto simp: daemonize_def q_def r_def Let_def split: fork_res.splits if_splits)
  have q: "pc_fds q = pc_fds p" by (simp add: q_def)
  have fds: "pc_fds r = pc_fds (redirect_null (d_null e) p)"
    by (simp add: r_def redirect_null_def Let_def dup2_def opened_def closed_def q)
  note n = redirect_null_fds[of q "d_null e", unfolded q, OF null(2), folded r_def]
  note l = redirect_log_fds[of r "d_log e", unfolded fds, OF log(2)]
  have "take 599 (dir @ lit ''/daemon.log'') = dir @ lit ''/daemon.log''"
    using state_dir_length[OF dir] by (simp add: lit_def)
  then show ?thesis
    using n null(1) l(3)[OF log(1) dir] l(1) l(2)[of 0] l(2)[of 1] l(4,5)
    unfolding p' by (simp add: fds[symmetric] q_def)
qed

definition demo_paths :: path_env where
  "demo_paths = \<lparr>p_getenv = [lit ''HOME'' \<mapsto> lit ''/h'', lit ''XDG_RUNTIME_DIR'' \<mapsto> lit ''/run/u''],
     p_uid = 1000, p_mkdir = (\<lambda>_. Mk_exists)\<rparr>"

definition demo_daemonize :: daemonize_env where
  "demo_daemonize = \<lparr>d_fork1 = Fork_child, d_setsid = True, d_fork2 = Fork_child, d_chdir = True,
     d_null = 3, d_path = demo_paths, d_log = 3\<rparr>"

definition demo_process :: process where
  "demo_process = \<lparr>pc_fds = [0 \<mapsto> F_other 0, 1 \<mapsto> F_other 0, 2 \<mapsto> F_other 0], pc_leader = False,
     pc_cwd = lit ''/h'', pc_log_fd = 2\<rparr>"

theorem daemonize_detaches_witness:
  "\<exists>p'. daemonize demo_daemonize demo_process = Returns 0 p' \<and> \<not> pc_leader p' \<and>
     pc_fds p' 0 = Some F_null \<and>
     pc_fds p' 2 = Some (F_log (lit ''/h/.local/state/epimone/daemon.log'')) \<and> pc_fds p' 3 = None"
proof -
  have sd: "\<exists>ds. epi_state_dir demo_paths 512 = (Some (lit ''/h/.local/state/epimone''), ds)"
  proof -
    have mk: "fst (make_dirs (\<lambda>_. Mk_exists) ps) = 0" for ps by (simp add: make_dirs_ok)
    show ?thesis
      by (simp add: epi_state_dir_def demo_paths_def printed_def made_def ensure_dir_def mk lit_def
          PATH_TMP_def Let_def)
  qed
  then obtain ds where sd: "epi_state_dir demo_paths 512 = (Some (lit ''/h/.local/state/epimone''), ds)" ..
  obtain p' where p': "daemonize demo_daemonize demo_process = Returns 0 p'"
    by (simp add: daemonize_def demo_daemonize_def)
  have "pc_fds demo_process (d_null demo_daemonize) = None"
    "pc_fds (redirect_null (d_null demo_daemonize) demo_process) (d_log demo_daemonize) = None"
    by (simp_all add: demo_process_def demo_daemonize_def redirect_null_def dup2_def opened_def closed_def Let_def)
  from daemonize_detaches[OF p' _ this(1) _ this(2), unfolded demo_daemonize_def daemonize_env.simps, OF _ _ sd] p'
  show ?thesis by (auto simp: demo_process_def lit_def)
qed

section \<open>Starting\<close>

lemma server_init_sockpath: "sockpath (fst (epi_server_init e path)) = take 511 path"
  by (auto simp: epi_server_init_def ep_add_def emit_def Let_def empty_server_def split: prod.splits if_splits)

lemma shutdown_unlinks: "sockpath srv \<noteq> [] \<Longrightarrow> Unlink (sockpath srv) \<in> set (sys (epi_server_shutdown srv))"
  by (simp add: epi_server_shutdown_def reap_dead_sessions_def emit_def Let_def)

lemma socket_path_length: "epi_socket_path e n = (Some path, ds) \<Longrightarrow> length path < n \<and> path \<noteq> []"
  by (auto simp: epi_socket_path_def printed_Some EPIMONE_SOCKET_NAME_def lit_def split: prod.splits option.splits)

text \<open>A daemon that finds another one answering on the control socket exits with status 0 and
  leaves everything alone: it unlinks no socket, does not go into the background and makes no
  server. A daemon that finds the socket stale removes it before it starts.\<close>

theorem second_daemon_leaves_the_first_alone:
  assumes "parse_args argv False = Inr d" and "epi_socket_path (m_path e) 512 = (Some path, ds)"
    and "pr_socket (m_probe e)" "length path < SUN_PATH_MAX"
  shows "(pr_connect (m_probe e) = Cn_ok \<longrightarrow> daemon_main e argv p = (0, [], None)) \<and>
    (pr_connect (m_probe e) \<in> {Cn_refused, Cn_noent} \<longrightarrow>
      (\<exists>status rest srv. daemon_main e argv p = (status, Unlink path # rest, srv)))"
  using assms
  by (auto simp: daemon_main_def socket_in_use_def Let_def split: prod.splits fate.splits)

definition demo_broken_init :: init_env where
  "demo_broken_init = \<lparr>i_random = Some 9, i_now = (0, 0), i_pid = 1, i_epfd = -1, i_listen_fd = -1,
     i_bind_ok = False, i_listen_ok = False, i_add_listen_ok = False, i_mask_ok = False, i_sig_fd = -1,
     i_add_sig_ok = False\<rparr>"

definition demo_main :: "connect_res \<Rightarrow> init_env \<Rightarrow> main_env" where
  "demo_main c i = \<lparr>m_path = demo_paths, m_probe = \<lparr>pr_socket = True, pr_connect = c\<rparr>,
     m_daemonize = demo_daemonize, m_init = i, m_waits = []\<rparr>"

lemma demo_socket_path:
  "\<exists>ds. epi_socket_path demo_paths 512 = (Some (lit ''/run/u/epimone/control.sock''), ds)"
proof -
  have mk: "fst (make_dirs (\<lambda>_. Mk_exists) ps) = 0" for ps by (simp add: make_dirs_ok)
  have "\<exists>ds. epi_runtime_dir demo_paths 512 = (Some (lit ''/run/u/epimone''), ds)"
    by (simp add: epi_runtime_dir_def demo_paths_def printed_def made_def ensure_dir_def mk lit_def
        PATH_TMP_def Let_def)
  then obtain ds where "epi_runtime_dir demo_paths 512 = (Some (lit ''/run/u/epimone''), ds)" ..
  then show ?thesis by (simp add: epi_socket_path_def printed_def EPIMONE_SOCKET_NAME_def lit_def)
qed

theorem second_daemon_leaves_the_first_alone_witness:
  "daemon_main (demo_main Cn_ok demo_broken_init) [] demo_process = (0, [], None)"
proof -
  obtain ds where "epi_socket_path demo_paths 512 = (Some (lit ''/run/u/epimone/control.sock''), ds)"
    using demo_socket_path ..
  then have sp: "epi_socket_path (m_path (demo_main Cn_ok demo_broken_init)) 512 = (Some (lit ''/run/u/epimone/control.sock''), ds)"
    by (simp add: demo_main_def)
  from second_daemon_leaves_the_first_alone[OF _ this, of "[]" False demo_process] show ?thesis
    by (simp add: demo_main_def SUN_PATH_MAX_def lit_def)
qed

text \<open>When the probe is inconclusive (connect failed for another reason than a stale or absent
  socket, or the probe had no descriptor) and the server then fails to start, the clean-up
  unlinks the socket path although this process never bound it: a running daemon's socket goes.\<close>

theorem failed_start_unlinks_socket:
  assumes "parse_args argv False = Inr False" and "epi_socket_path (m_path e) 512 = (Some path, ds)"
    and "socket_in_use (m_probe e) path = -1" and "snd (epi_server_init (m_init e) path) \<noteq> 0"
  shows "\<exists>es srv. daemon_main e argv p = (1, es, Some srv) \<and> Unlink path \<in> set es"
proof -
  obtain srv rc where i: "epi_server_init (m_init e) path = (srv, rc)" by (cases "epi_server_init (m_init e) path")
  have "sockpath srv = path"
    using server_init_sockpath[of "m_init e" path] socket_path_length[OF assms(2)] i by simp
  then have "Unlink path \<in> set (sys (epi_server_shutdown srv))"
    using shutdown_unlinks[of srv] socket_path_length[OF assms(2)] by simp
  then show ?thesis using assms i by (simp add: daemon_main_def Let_def)
qed

theorem failed_start_unlinks_socket_witness:
  "\<exists>es srv. daemon_main (demo_main Cn_other demo_broken_init) [] demo_process = (1, es, Some srv) \<and>
     Unlink (lit ''/run/u/epimone/control.sock'') \<in> set es"
proof -
  let ?e = "demo_main Cn_other demo_broken_init"
  obtain ds where "epi_socket_path (m_path ?e) 512 = (Some (lit ''/run/u/epimone/control.sock''), ds)"
    using demo_socket_path by (auto simp: demo_main_def)
  moreover have "snd (epi_server_init (m_init ?e) (lit ''/run/u/epimone/control.sock'')) \<noteq> 0"
    by (simp add: demo_main_def demo_broken_init_def epi_server_init_def)
  moreover have "socket_in_use (m_probe ?e) (lit ''/run/u/epimone/control.sock'') = -1"
    by (simp add: socket_in_use_def demo_main_def)
  ultimately show ?thesis using failed_start_unlinks_socket[of "[]" ?e] by simp
qed

end
