(* ===== verification/Client.thy ===== *)
theory Client
  imports Paths
begin

text \<open>
  The client library of the GUI (src/src/epimone-client.c): blocking input and output on the
  control socket, one-shot transactions, starting the daemon, what a new session runs, and one
  function per request. A failing function gives \<open>Inl\<close> of its error. The system calls an
  operation makes are logged, so that a descriptor that is not closed shows.
\<close>

section \<open>Environment\<close>

text \<open>The functions of GLib that the client relies on are parameters.\<close>

record glib =
  gl_build_filename :: "byte list list \<Rightarrow> byte list"
  gl_basename :: "byte list \<Rightarrow> byte list"
  gl_dirname :: "byte list \<Rightarrow> byte list"
  gl_shell_parse_argv :: "byte list \<Rightarrow> byte list list option"
  gl_strchomp :: "byte list \<Rightarrow> byte list"
  gl_strtoll :: "byte list \<Rightarrow> int"

text \<open>
  What the client asks of the system: the environment, the user, the passwd entry's shell, the
  link /proc/self/exe, tests on files, file contents, and the source directory of the
  shell-integration scripts if one was baked in at build time.
\<close>

record host =
  h_getenv :: "byte list \<rightharpoonup> byte list"
  h_uid :: u32
  h_pw_shell :: "byte list option"
  h_home :: "byte list"
  h_exe :: "byte list option"
  h_is_executable :: "byte list \<Rightarrow> bool"
  h_is_dir :: "byte list \<Rightarrow> bool"
  h_contents :: "byte list \<Rightarrow> byte list option"
  h_integration_src :: "byte list option"

text \<open>The keys of org.felix.Epimone that the spawn path reads.\<close>

record settings =
  k_use_custom_command :: bool
  k_custom_command :: "byte list"
  k_shell_path :: "byte list"
  k_login_shell :: bool
  k_launch_command :: "byte list"

record client =
  cl_glib :: glib
  cl_host :: host
  cl_mem :: allocator
  cl_settings :: settings

text \<open>The results of the system calls on one socket; received bytes come as read delivers them.\<close>

datatype rdres = Rd "byte list" | Rd_intr | Rd_err

record link =
  l_socket :: bool
  l_connect :: bool
  l_writes :: "wres list"
  l_reads :: "rdres list"

datatype client_error =
    E_socket
  | E_path_too_long
  | E_connect
  | E_oom
  | E_write
  | E_no_reply
  | E_short_frame
  | E_truncated
  | E_daemon u32 "byte list option"
  | E_unexpected
  | E_shell_parse
  | E_spawn_daemon
  | E_timeout
  | E_blob_size nat

text \<open>The code of the GError.\<close>

fun error_code :: "client_error \<Rightarrow> int" where
  "error_code (E_daemon code _) = sint code"
| "error_code _ = 1"

datatype call = Opened | Wrote "byte list" | Closed | Nonblock | Launched "byte list list" | Slept nat

definition epimone_client_default_shell :: "host \<Rightarrow> byte list" where
  "epimone_client_default_shell h =
     (let absolute = (\<lambda>s. case s of Some x \<Rightarrow> take 1 x = [slash] | None \<Rightarrow> False)
      in if absolute (h_getenv h (lit ''SHELL'')) then the (h_getenv h (lit ''SHELL''))
         else if absolute (h_pw_shell h) then the (h_pw_shell h)
         else lit ''/bin/sh'')"

definition epimone_client_socket_path :: "glib \<Rightarrow> host \<Rightarrow> byte list" where
  "epimone_client_socket_path g h =
     (case h_getenv h (lit ''XDG_RUNTIME_DIR'') of
        Some xdg \<Rightarrow>
          if take 1 xdg = [slash]
          then gl_build_filename g [xdg, lit ''epimone'', EPIMONE_SOCKET_NAME]
          else lit ''/tmp/epimone-'' @ decimal (unat (h_uid h)) @ lit ''/'' @ EPIMONE_SOCKET_NAME
      | None \<Rightarrow> lit ''/tmp/epimone-'' @ decimal (unat (h_uid h)) @ lit ''/'' @ EPIMONE_SOCKET_NAME)"

section \<open>Blocking input and output\<close>

definition sun_path_size :: nat where "sun_path_size = 108"

definition client_connect :: "byte list \<Rightarrow> link \<Rightarrow> (client_error + unit) \<times> call list" where
  "client_connect path l =
     (if \<not> l_socket l then (Inl E_socket, [])
      else if length path \<ge> sun_path_size then (Inl E_path_too_long, [Opened, Closed])
      else if \<not> l_connect l then (Inl E_connect, [Opened, Closed])
      else (Inr (), [Opened]))"

text \<open>The offset reached and the result. The end of the list is a peer that has gone.\<close>

fun write_all :: "wres list \<Rightarrow> nat \<Rightarrow> nat \<Rightarrow> nat \<times> bool" where
  "write_all ws off len =
     (if off < len then
        (case ws of
           [] \<Rightarrow> (off, False)
         | W_ok n # ws' \<Rightarrow> if 0 < n then write_all ws' (off + min n (len - off)) len else (off, False)
         | W_intr # ws' \<Rightarrow> write_all ws' off len
         | W_again # _ \<Rightarrow> (off, False)
         | W_err # _ \<Rightarrow> (off, False))
      else (off, True))"

declare write_all.simps [simp del]

text \<open>
  The kernel delivers at most what is asked for; the rest of a received chunk stays for the next
  read. The result is the buffer, whether it was filled, and what is still to be received.
\<close>

function read_all :: "rdres list \<Rightarrow> byte list \<Rightarrow> nat \<Rightarrow> nat \<Rightarrow> byte list \<times> bool \<times> rdres list" where
  "read_all rs buf off len =
     (if off < len then
        (case rs of
           [] \<Rightarrow> (buf, False, [])
         | Rd bs # rs' \<Rightarrow>
             (let got = take (len - off) bs; left = drop (len - off) bs in
              if got = [] then (buf, False, rs)
              else read_all (if left = [] then rs' else Rd left # rs')
                     (blit buf off got) (off + length got) len)
         | Rd_intr # rs' \<Rightarrow> read_all rs' buf off len
         | Rd_err # rs' \<Rightarrow> (buf, False, rs'))
      else (buf, True, rs))"
  by pat_completeness auto
termination
  by (relation "measures [\<lambda>(rs, buf, off, len). len - off, \<lambda>(rs, buf, off, len). length rs]") auto

declare read_all.simps [simp del]

definition send_frame :: "link \<Rightarrow> epi_buf \<Rightarrow> (client_error + unit) \<times> call list" where
  "send_frame l b =
     (if b_oom b then (Inl E_oom, [])
      else case write_all (l_writes l) 0 (b_len b) of (off, ok) \<Rightarrow>
        (if ok then Inr () else Inl E_write, [Wrote (take off (b_data b))]))"

text \<open>
  g_malloc does not return on failure. The blocks are filled by \<open>read_all\<close> before they are read;
  what they hold before is written as zeros. The last component is what is left on the socket.
\<close>

definition recv_frame :: "rdres list \<Rightarrow> (client_error + u32 \<times> byte list) \<times> rdres list" where
  "recv_frame rs =
     (case read_all rs (replicate 4 0) 0 4 of
        (hdr, False, rs1) \<Rightarrow> (Inl E_no_reply, rs1)
      | (hdr, True, rs1) \<Rightarrow>
          let flen = get_le32 hdr 0 in
          if flen < 4 then (Inl E_short_frame, rs1)
          else
            (case read_all rs1 (replicate (unat flen) 0) 0 (unat flen) of
               (raw, False, rs2) \<Rightarrow> (Inl E_truncated, rs2)
             | (raw, True, rs2) \<Rightarrow>
                 (Inr (get_le32 raw 0, bytes_at 4 (unat flen - 4) raw), rs2)))"

definition reply_is_error :: "allocator \<Rightarrow> u32 \<Rightarrow> byte list \<Rightarrow> client_error option" where
  "reply_is_error a type body =
     (if type \<noteq> EPI_MSG_ERROR then None
      else case epi_rd_u32 (epi_rd_init body) of (code, r1) \<Rightarrow>
             Some (E_daemon code (fst (epi_rd_str a r1))))"

definition control_txn :: "byte list \<Rightarrow> link \<Rightarrow> epi_buf \<Rightarrow> (client_error + u32 \<times> byte list) \<times> call list" where
  "control_txn path l req =
     (case client_connect path l of
        (Inl e, cs) \<Rightarrow> (Inl e, cs)
      | (Inr _, cs) \<Rightarrow>
          (case send_frame l req of
             (Inl e, ws) \<Rightarrow> (Inl e, cs @ ws @ [Closed])
           | (Inr _, ws) \<Rightarrow>
               (case recv_frame (l_reads l) of
                  (Inl e, _) \<Rightarrow> (Inl e, cs @ ws @ [Closed])
                | (Inr reply, _) \<Rightarrow> (Inr reply, cs @ ws @ [Closed]))))"

section \<open>Starting the daemon\<close>

definition daemon_answers :: "byte list \<Rightarrow> link \<Rightarrow> bool \<times> call list" where
  "daemon_answers path l =
     (case client_connect path l of
        (Inl _, cs) \<Rightarrow> (False, cs)
      | (Inr _, cs) \<Rightarrow> (True, cs @ [Closed]))"

definition find_daemon_binary :: "glib \<Rightarrow> host \<Rightarrow> byte list" where
  "find_daemon_binary g h =
     (case h_exe h of
        Some exe \<Rightarrow>
          let cand = gl_build_filename g [gl_dirname g exe, lit ''epimone-daemon'']
          in if h_is_executable h cand then cand else lit ''epimone-daemon''
      | None \<Rightarrow> lit ''epimone-daemon'')"

definition find_shell_integration_dir :: "glib \<Rightarrow> host \<Rightarrow> byte list option" where
  "find_shell_integration_dir g h =
     (let baked = (case h_integration_src h of
                     Some d \<Rightarrow> if h_is_dir h d then Some d else None
                   | None \<Rightarrow> None)
      in case h_exe h of
           Some exe \<Rightarrow>
             let prefix = gl_dirname g (gl_dirname g exe);
                 cand1 = gl_build_filename g [prefix, lit ''share'', lit ''epimone'', lit ''shell-integration''];
                 cand2 = gl_build_filename g [prefix, lit ''src'', lit ''shell-integration'']
             in if h_is_dir h cand1 then Some cand1
                else if h_is_dir h cand2 then Some cand2
                else baked
         | None \<Rightarrow> baked)"

text \<open>The loop over \<open>n\<close> more tries, of which the next is the \<open>i\<close>-th connection.\<close>

fun wait_daemon :: "byte list \<Rightarrow> (nat \<Rightarrow> link) \<Rightarrow> nat \<Rightarrow> nat \<Rightarrow> (client_error + unit) \<times> call list" where
  "wait_daemon path ls i 0 = (Inl E_timeout, [])"
| "wait_daemon path ls i (Suc n) =
     (case daemon_answers path (ls i) of
        (True, cs) \<Rightarrow> (Inr (), cs)
      | (False, cs) \<Rightarrow>
          (case wait_daemon path ls (i + 1) n of (res, cs2) \<Rightarrow> (res, cs @ [Slept (25 * 1000)] @ cs2)))"

definition epimone_client_ensure_daemon ::
  "client \<Rightarrow> (nat \<Rightarrow> link) \<Rightarrow> bool \<Rightarrow> (client_error + unit) \<times> call list" where
  "epimone_client_ensure_daemon c ls spawned =
     (let path = epimone_client_socket_path (cl_glib c) (cl_host c) in
      case daemon_answers path (ls 0) of
        (True, cs) \<Rightarrow> (Inr (), cs)
      | (False, cs) \<Rightarrow>
          if \<not> spawned then (Inl E_spawn_daemon, cs)
          else
            (case wait_daemon path ls 1 80 of (res, cs2) \<Rightarrow>
               (res, cs @ [Launched [find_daemon_binary (cl_glib c) (cl_host c), lit ''--daemonize'']] @ cs2)))"

section \<open>What a new session runs\<close>

text \<open>What the function adds to the argument and environment vectors, and whether it did.\<close>

definition inject_shell_integration ::
  "glib \<Rightarrow> host \<Rightarrow> byte list list \<Rightarrow> byte list list \<Rightarrow> byte list \<Rightarrow> bool \<Rightarrow> bool \<times> byte list list \<times> byte list list" where
  "inject_shell_integration g h argvv envv shell login =
     (case find_shell_integration_dir g h of
        None \<Rightarrow> (False, argvv, envv)
      | Some sidir \<Rightarrow>
          let base = gl_basename g shell;
              common = [lit ''EPIMONE=1'', lit ''EPIMONE_SHELL_INTEGRATION_DIR='' @ sidir]
          in if base = lit ''bash'' then
               (if login then (False, argvv, envv)
                else (True,
                      argvv @ [lit ''--rcfile'', gl_build_filename g [sidir, lit ''epimone.bash'']],
                      envv @ [lit ''EPIMONE_BASH_RCFILE=1''] @ common))
             else if base = lit ''zsh'' then
               (let zdotdir = gl_build_filename g [sidir, lit ''zsh''];
                    real = (case h_getenv h (lit ''ZDOTDIR'') of
                              Some d \<Rightarrow> if d \<noteq> [] then d else h_home h
                            | None \<Rightarrow> h_home h)
                in (True, argvv,
                    envv @ [lit ''ZDOTDIR='' @ zdotdir, lit ''EPIMONE_ZDOTDIR_REAL='' @ real] @ common))
             else (False, argvv, envv))"

text \<open>The argument and environment vectors and the file to execute if it is not argv[0].\<close>

definition build_session_spawn ::
  "client \<Rightarrow> client_error + (byte list list \<times> byte list list \<times> byte list option)" where
  "build_session_spawn c =
     (let g = cl_glib c; h = cl_host c; k = cl_settings c in
      if k_use_custom_command k \<and> k_custom_command k \<noteq> [] then
        (case gl_shell_parse_argv g (k_custom_command k) of
           None \<Rightarrow> Inl E_shell_parse
         | Some argv \<Rightarrow> Inr (argv, [], None))
      else
        let shell = (if k_shell_path k = [] then epimone_client_default_shell h else k_shell_path k);
            base = gl_basename g shell;
            login = k_login_shell k;
            argvv = (if login then [lit ''-'' @ base] else [shell]);
            exec = (if login then Some shell else None)
        in case inject_shell_integration g h argvv [] shell login of
             (_, argvv', envv') \<Rightarrow> Inr (argvv', envv', exec))"

section \<open>Transactions\<close>

text \<open>
  The shape of the transactions: an ERROR reply is the daemon's error, a reply of the awaited
  type is parsed, any other is unexpected.
\<close>

definition transact ::
  "client \<Rightarrow> link \<Rightarrow> epi_buf \<Rightarrow> u32 \<Rightarrow> (byte list \<Rightarrow> 'a) \<Rightarrow> (client_error + 'a) \<times> call list" where
  "transact c l req want parse =
     (case control_txn (epimone_client_socket_path (cl_glib c) (cl_host c)) l req of
        (Inl e, cs) \<Rightarrow> (Inl e, cs)
      | (Inr (type, body), cs) \<Rightarrow>
          (case reply_is_error (cl_mem c) type body of
             Some e \<Rightarrow> Inl e
           | None \<Rightarrow> if type = want then Inr (parse body) else Inl E_unexpected, cs))"

definition put_strs :: "allocator \<Rightarrow> byte list list \<Rightarrow> epi_buf \<Rightarrow> epi_buf" where
  "put_strs a ss b = fold (\<lambda>s b. epi_buf_put_str a b (Some s)) ss
                       (epi_buf_put_u32 a b (word_of_nat (length ss)))"

definition create_request ::
  "allocator \<Rightarrow> byte list option \<Rightarrow> byte list list \<Rightarrow> byte list list \<Rightarrow> byte list option \<Rightarrow> epi_buf" where
  "create_request a cwd argvv envv exec_path =
     (let req = epi_msg_start a EPI_MSG_CREATE;
          req = epi_buf_put_str a req (Some (case cwd of Some w \<Rightarrow> w | None \<Rightarrow> []));
          req = put_strs a argvv req;
          req = put_strs a envv req;
          req = epi_buf_put_str a req (Some (case exec_path of Some p \<Rightarrow> p | None \<Rightarrow> []))
      in epi_msg_end req)"

definition epimone_client_create_session ::
  "client \<Rightarrow> link \<Rightarrow> byte list option \<Rightarrow> (client_error + u64) \<times> call list" where
  "epimone_client_create_session c l cwd =
     (case build_session_spawn c of
        Inl e \<Rightarrow> (Inl e, [])
      | Inr (argvv, envv, exec_path) \<Rightarrow>
          transact c l (create_request (cl_mem c) cwd argvv envv exec_path) EPI_MSG_ID
            (\<lambda>body. fst (epi_rd_u64 (epi_rd_init body))))"

text \<open>A result of write(2) on the data channel; after EAGAIN, whether poll reported it writable.\<close>

datatype lres = L_ok nat | L_intr | L_again bool | L_err

fun launch_loop :: "lres list \<Rightarrow> nat \<Rightarrow> nat \<Rightarrow> nat" where
  "launch_loop ws off len =
     (if off < len then
        (case ws of
           [] \<Rightarrow> off
         | L_ok n # ws' \<Rightarrow> if 0 < n then launch_loop ws' (off + min n (len - off)) len else off
         | L_intr # ws' \<Rightarrow> launch_loop ws' off len
         | L_again ready # ws' \<Rightarrow> if ready then launch_loop ws' off len else off
         | L_err # _ \<Rightarrow> off)
      else off)"

declare launch_loop.simps [simp del]

text \<open>The bytes that reach the channel.\<close>

definition epimone_client_send_launch_command :: "settings \<Rightarrow> int \<Rightarrow> lres list \<Rightarrow> byte list" where
  "epimone_client_send_launch_command k fd ws =
     (if fd < 0 \<or> k_launch_command k = [] then []
      else let line = k_launch_command k @ lit [CHR 0x0A]
           in take (launch_loop ws 0 (length line)) line)"

record EpiSessionInfo =
  si_id :: u64
  si_pid :: u32
  si_alive :: bool
  si_attached :: bool
  si_created_at :: int
  si_cwd :: "byte list"

definition rd_session_info :: "allocator \<Rightarrow> epi_rd \<Rightarrow> EpiSessionInfo \<times> epi_rd" where
  "rd_session_info a r =
     (case epi_rd_u64 r of (ident, r) \<Rightarrow>
      case epi_rd_u32 r of (pid, r) \<Rightarrow>
      case epi_rd_u8 r of (alive, r) \<Rightarrow>
      case epi_rd_u8 r of (attached, r) \<Rightarrow>
      case epi_rd_u64 r of (created, r) \<Rightarrow>
      case epi_rd_str a r of (cwd, r) \<Rightarrow>
        (\<lparr>si_id = ident, si_pid = pid, si_alive = (alive \<noteq> 0), si_attached = (attached \<noteq> 0),
          si_created_at = sint created, si_cwd = (case cwd of None \<Rightarrow> [] | Some w \<Rightarrow> w)\<rparr>, r))"

definition parse_sessions :: "allocator \<Rightarrow> byte list \<Rightarrow> EpiSessionInfo list" where
  "parse_sessions a body =
     (case epi_rd_u32 (epi_rd_init body) of (count, r) \<Rightarrow>
        fst (rd_loop (rd_session_info a) (unat count) r))"

definition empty_request :: "allocator \<Rightarrow> u32 \<Rightarrow> epi_buf" where
  "empty_request a type = epi_msg_end (epi_msg_start a type)"

definition epimone_client_list_sessions :: "client \<Rightarrow> link \<Rightarrow> (client_error + EpiSessionInfo list) \<times> call list" where
  "epimone_client_list_sessions c l =
     transact c l (empty_request (cl_mem c) EPI_MSG_LIST) EPI_MSG_LIST_REPLY (parse_sessions (cl_mem c))"

definition id_request :: "allocator \<Rightarrow> u32 \<Rightarrow> u64 \<Rightarrow> epi_buf" where
  "id_request a type sid = epi_msg_end (epi_buf_put_u64 a (epi_msg_start a type) sid)"

text \<open>On success the descriptor stays open: the bytes still to be received are its stream.\<close>

definition epimone_client_attach_session ::
  "client \<Rightarrow> link \<Rightarrow> u64 \<Rightarrow> (client_error + rdres list) \<times> call list" where
  "epimone_client_attach_session c l sid =
     (case client_connect (epimone_client_socket_path (cl_glib c) (cl_host c)) l of
        (Inl e, cs) \<Rightarrow> (Inl e, cs)
      | (Inr _, cs) \<Rightarrow>
          (case send_frame l (id_request (cl_mem c) EPI_MSG_ATTACH sid) of
             (Inl e, ws) \<Rightarrow> (Inl e, cs @ ws @ [Closed])
           | (Inr _, ws) \<Rightarrow>
               (case recv_frame (l_reads l) of
                  (Inl e, _) \<Rightarrow> (Inl e, cs @ ws @ [Closed])
                | (Inr (type, body), stream) \<Rightarrow>
                    if type \<noteq> EPI_MSG_ATTACHED
                    then (Inl (case reply_is_error (cl_mem c) type body of
                                 Some e \<Rightarrow> e | None \<Rightarrow> E_unexpected), cs @ ws @ [Closed])
                    else (Inr stream, cs @ ws @ [Nonblock]))))"

definition simple_id_txn :: "client \<Rightarrow> link \<Rightarrow> u32 \<Rightarrow> u64 \<Rightarrow> (client_error + unit) \<times> call list" where
  "simple_id_txn c l msg_type sid =
     transact c l (id_request (cl_mem c) msg_type sid) EPI_MSG_OK (\<lambda>_. ())"

definition epimone_client_kill_session :: "client \<Rightarrow> link \<Rightarrow> u64 \<Rightarrow> (client_error + unit) \<times> call list" where
  "epimone_client_kill_session c l sid = simple_id_txn c l EPI_MSG_KILL sid"

definition epimone_client_detach_session :: "client \<Rightarrow> link \<Rightarrow> u64 \<Rightarrow> (client_error + unit) \<times> call list" where
  "epimone_client_detach_session c l sid = simple_id_txn c l EPI_MSG_DETACH sid"

definition epimone_client_group_remove :: "client \<Rightarrow> link \<Rightarrow> u64 \<Rightarrow> (client_error + unit) \<times> call list" where
  "epimone_client_group_remove c l sid = simple_id_txn c l EPI_MSG_GROUP_REMOVE sid"

text \<open>The tail, its length and the total, which stays 0 if the daemon does not report one.\<close>

definition parse_peek :: "allocator \<Rightarrow> byte list \<Rightarrow> byte list option \<times> nat \<times> u64" where
  "parse_peek a body =
     (case epi_rd_u64 (epi_rd_init body) of (_, r) \<Rightarrow>
      case epi_rd_blob a r of ((tail, tlen), r) \<Rightarrow>
        (tail, tlen, if \<not> rd_err r \<and> rd_pos r < rd_len r then fst (epi_rd_u64 r) else 0))"

definition epimone_client_peek_session ::
  "client \<Rightarrow> link \<Rightarrow> u64 \<Rightarrow> u32 \<Rightarrow> (client_error + byte list option \<times> nat \<times> u64) \<times> call list" where
  "epimone_client_peek_session c l sid max_bytes =
     (let a = cl_mem c in
      transact c l (epi_msg_end (epi_buf_put_u32 a (epi_buf_put_u64 a (epi_msg_start a EPI_MSG_PEEK) sid) max_bytes))
        EPI_MSG_PEEK_REPLY (parse_peek a))"

definition epimone_client_resize_session ::
  "client \<Rightarrow> link \<Rightarrow> u64 \<Rightarrow> u32 \<Rightarrow> u32 \<Rightarrow> (client_error + unit) \<times> call list" where
  "epimone_client_resize_session c l sid rows cols =
     (let a = cl_mem c in
      transact c l (epi_msg_end (epi_buf_put_u16 a (epi_buf_put_u16 a
          (epi_buf_put_u64 a (epi_msg_start a EPI_MSG_RESIZE) sid) (ucast rows)) (ucast cols)))
        EPI_MSG_OK (\<lambda>_. ()))"

section \<open>The foreground command\<close>

definition read_comm :: "glib \<Rightarrow> host \<Rightarrow> u32 \<Rightarrow> byte list option" where
  "read_comm g h pid =
     (case h_contents h (lit ''/proc/'' @ decimal (unat pid) @ lit ''/comm'') of
        None \<Rightarrow> None
      | Some text \<Rightarrow>
          let name = gl_strchomp g (cstr text) in if name = [] then None else Some name)"

text \<open>What follows the last occurrence of a byte; \<open>None\<close> if there is none.\<close>

definition after_last :: "byte \<Rightarrow> byte list \<Rightarrow> byte list option" where
  "after_last b s = (if b \<in> set s then Some (rev (takeWhile (\<lambda>x. x \<noteq> b) (rev s))) else None)"

definition skip_field :: "byte list \<Rightarrow> byte list" where
  "skip_field p = dropWhile (\<lambda>b. b \<noteq> 0x20) (dropWhile (\<lambda>b. b = 0x20) p)"

definition read_tpgid :: "glib \<Rightarrow> host \<Rightarrow> u32 \<Rightarrow> int" where
  "read_tpgid g h pid =
     (case h_contents h (lit ''/proc/'' @ decimal (unat pid) @ lit ''/stat'') of
        None \<Rightarrow> -1
      | Some text \<Rightarrow>
          (case after_last 0x29 (cstr text) of
             None \<Rightarrow> -1
           | Some p \<Rightarrow>
               let p = dropWhile (\<lambda>b. b = 0x20) ((skip_field ^^ 5) p)
               in if p = [] then -1 else sint (word_of_int (gl_strtoll g p) :: 32 word)))"

definition epimone_client_foreground_command :: "glib \<Rightarrow> host \<Rightarrow> u32 \<Rightarrow> byte list option" where
  "epimone_client_foreground_command g h pid =
     (if pid = 0 then None
      else
        let tpgid = read_tpgid g h pid in
        if 0 < tpgid \<and> word_of_int tpgid \<noteq> pid
        then (case read_comm g h (word_of_int tpgid) of
                Some name \<Rightarrow> Some name
              | None \<Rightarrow> read_comm g h pid)
        else read_comm g h pid)"

section \<open>Groups\<close>

record EpiGroupInfo =
  gi_id :: u64
  gi_created_at :: int
  gi_blob :: "byte list option"
  gi_blob_len :: nat
  gi_members :: "u64 list"

definition rd_group_info :: "allocator \<Rightarrow> epi_rd \<Rightarrow> EpiGroupInfo \<times> epi_rd" where
  "rd_group_info a r =
     (case epi_rd_u64 r of (ident, r) \<Rightarrow>
      case epi_rd_u64 r of (created, r) \<Rightarrow>
      case epi_rd_blob a r of ((blob, bl), r) \<Rightarrow>
      case epi_rd_u32 r of (members, r) \<Rightarrow>
      case rd_loop epi_rd_u64 (unat members) r of (sids, r) \<Rightarrow>
        (\<lparr>gi_id = ident, gi_created_at = sint created, gi_blob = blob, gi_blob_len = bl, gi_members = sids\<rparr>, r))"

definition parse_groups :: "allocator \<Rightarrow> byte list \<Rightarrow> u64 \<times> EpiGroupInfo list" where
  "parse_groups a body =
     (case epi_rd_u64 (epi_rd_init body) of (inst, r) \<Rightarrow>
      case epi_rd_u32 r of (count, r) \<Rightarrow>
        (inst, fst (rd_loop (rd_group_info a) (unat count) r)))"

definition epimone_client_list_groups :: "client \<Rightarrow> link \<Rightarrow> (client_error + u64 \<times> EpiGroupInfo list) \<times> call list" where
  "epimone_client_list_groups c l =
     transact c l (empty_request (cl_mem c) EPI_MSG_GROUP_LIST) EPI_MSG_GROUP_LIST_REPLY (parse_groups (cl_mem c))"

definition blob_size_ok :: "nat \<Rightarrow> client_error option" where
  "blob_size_ok len = (if len \<le> EPI_GROUP_BLOB_MAX then None else Some (E_blob_size len))"

definition epimone_client_group_new :: "client \<Rightarrow> link \<Rightarrow> byte list \<Rightarrow> (client_error + u64) \<times> call list" where
  "epimone_client_group_new c l blob =
     (case blob_size_ok (length blob) of
        Some e \<Rightarrow> (Inl e, [])
      | None \<Rightarrow>
          let a = cl_mem c in
          transact c l (epi_msg_end (epi_buf_put_blob a (epi_msg_start a EPI_MSG_GROUP_NEW) blob))
            EPI_MSG_GROUP_ID (\<lambda>body. fst (epi_rd_u64 (epi_rd_init body))))"

definition epimone_client_group_set :: "client \<Rightarrow> link \<Rightarrow> u64 \<Rightarrow> byte list \<Rightarrow> (client_error + unit) \<times> call list" where
  "epimone_client_group_set c l gid blob =
     (case blob_size_ok (length blob) of
        Some e \<Rightarrow> (Inl e, [])
      | None \<Rightarrow>
          let a = cl_mem c in
          transact c l (epi_msg_end (epi_buf_put_blob a
              (epi_buf_put_u64 a (epi_msg_start a EPI_MSG_GROUP_SET) gid) blob))
            EPI_MSG_OK (\<lambda>_. ()))"

definition epimone_client_group_add :: "client \<Rightarrow> link \<Rightarrow> u64 \<Rightarrow> u64 \<Rightarrow> (client_error + unit) \<times> call list" where
  "epimone_client_group_add c l gid sid =
     (let a = cl_mem c in
      transact c l (epi_msg_end (epi_buf_put_u64 a
          (epi_buf_put_u64 a (epi_msg_start a EPI_MSG_GROUP_ADD) gid) sid))
        EPI_MSG_OK (\<lambda>_. ()))"

definition parse_instance_id :: "allocator \<Rightarrow> byte list \<Rightarrow> u64" where
  "parse_instance_id a body =
     (case epi_rd_u32 (epi_rd_init body) of (count, r) \<Rightarrow>
      case rd_loop (rd_session_info a) (unat count) r of (_, r) \<Rightarrow>
        (if \<not> rd_err r \<and> rd_pos r < rd_len r then fst (epi_rd_u64 r) else 0))"

definition epimone_client_instance_id :: "client \<Rightarrow> link \<Rightarrow> (client_error + u64) \<times> call list" where
  "epimone_client_instance_id c l =
     transact c l (empty_request (cl_mem c) EPI_MSG_LIST) EPI_MSG_LIST_REPLY (parse_instance_id (cl_mem c))"

end
