(* ===== verification/Client_IO.thy ===== *)
theory Client_IO
  imports Client
begin

text \<open>
  What the client's blocking input and output achieves, whatever pieces the kernel cuts it into:
  the byte stream of a list of reads, frames out of a stream, and the descriptors that a
  transaction opens and closes.
\<close>

section \<open>Writing\<close>

lemma write_all_bounds:
  "off \<le> len \<Longrightarrow> off \<le> fst (write_all ws off len) \<and> fst (write_all ws off len) \<le> len"
proof (induction ws off len rule: write_all.induct)
  case (1 ws off len)
  show ?case
  proof (cases "off < len")
    case False
    then show ?thesis using 1 by (simp add: write_all.simps)
  next
    case True
    have le: "off + min n (len - off) \<le> len" for n using True by arith
    show ?thesis
    proof (cases ws)
      case Nil
      then show ?thesis using True by (simp add: write_all.simps)
    next
      case (Cons w ws')
      have "off \<le> fst (write_all ws' (off + min n (len - off)) len) \<and>
            fst (write_all ws' (off + min n (len - off)) len) \<le> len" if "w = W_ok n" "0 < n" for n
        using 1(1)[OF True, of w ws' n] Cons that le[of n] by simp
      moreover have "off \<le> fst (write_all ws' off len) \<and> fst (write_all ws' off len) \<le> len" if "w = W_intr"
        using 1(2)[OF True, of w ws'] Cons that True by simp
      ultimately show ?thesis using True Cons by (cases w) (auto simp: write_all.simps[of "_ # _"])
    qed
  qed
qed

lemma write_all_ok: "off \<le> len \<Longrightarrow> snd (write_all ws off len) = (fst (write_all ws off len) = len)"
proof (induction ws off len rule: write_all.induct)
  case (1 ws off len)
  show ?case
  proof (cases "off < len")
    case False
    then show ?thesis using 1 by (simp add: write_all.simps)
  next
    case True
    have le: "off + min n (len - off) \<le> len" for n using True by arith
    show ?thesis
    proof (cases ws)
      case Nil
      then show ?thesis using True by (simp add: write_all.simps)
    next
      case (Cons w ws')
      have "snd (write_all ws' (off + min n (len - off)) len) =
            (fst (write_all ws' (off + min n (len - off)) len) = len)" if "w = W_ok n" "0 < n" for n
        using 1(1)[OF True, of w ws' n] Cons that le[of n] by simp
      moreover have "snd (write_all ws' off len) = (fst (write_all ws' off len) = len)" if "w = W_intr"
        using 1(2)[OF True, of w ws'] Cons that True by simp
      ultimately show ?thesis using True Cons by (cases w) (auto simp: write_all.simps[of "_ # _"])
    qed
  qed
qed

section \<open>Reading\<close>

text \<open>The bytes that arrive before the stream ends or fails.\<close>

fun stream_of :: "rdres list \<Rightarrow> byte list" where
  "stream_of [] = []"
| "stream_of (Rd bs # rs) = (if bs = [] then [] else bs @ stream_of rs)"
| "stream_of (Rd_intr # rs) = stream_of rs"
| "stream_of (Rd_err # rs) = []"

lemma read_all_stream:
  assumes "off \<le> len" and "length buf = len"
  shows "case read_all rs buf off len of (buf', ok, rs') \<Rightarrow>
    ok = (len - off \<le> length (stream_of rs)) \<and>
    (ok \<longrightarrow> buf' = take off buf @ take (len - off) (stream_of rs) \<and>
             stream_of rs' = drop (len - off) (stream_of rs))"
  using assms
proof (induction rs buf off len rule: read_all.induct)
  case (1 rs buf off len)
  show ?case
  proof (cases "off < len")
    case False
    then show ?thesis using 1 by (simp add: read_all.simps)
  next
    case True
    show ?thesis
    proof (cases rs)
      case Nil
      then show ?thesis using True by (simp add: read_all.simps)
    next
      case (Cons x rs')
      show ?thesis
      proof (cases x)
        case Rd_err
        then show ?thesis using True Cons by (simp add: read_all.simps)
      next
        case Rd_intr
        then show ?thesis using 1(2)[OF True Cons] 1(3,4) True Cons
          by (subst read_all.simps) simp
      next
        case (Rd bs)
        let ?n = "len - off"
        let ?got = "take ?n bs"
        let ?rs1 = "if drop ?n bs = [] then rs' else Rd (drop ?n bs) # rs'"
        show ?thesis
        proof (cases "bs = []")
          case True
          then show ?thesis using \<open>off < len\<close> Cons Rd by (simp add: read_all.simps)
        next
          case False
          have ne: "?got \<noteq> []" using False True by simp
          have le: "off + length ?got \<le> len" "length (blit buf off ?got) = len"
            using True 1(4) by (simp_all add: blit_length)
          have s: "stream_of rs = bs @ stream_of rs'" using False Cons Rd by simp
          have s1: "stream_of ?rs1 = drop ?n bs @ stream_of rs'" by simp
          note ih = 1(1)[OF True Cons Rd refl refl ne le]
          have tk: "take (off + length ?got) (blit buf off ?got) = take off buf @ ?got"
            using True 1(4) by (intro blit_take_all) simp
          have step: "read_all rs buf off len = read_all ?rs1 (blit buf off ?got) (off + length ?got) len"
            using True Cons Rd ne by (subst read_all.simps) (simp add: Let_def)
          have n1: "len - (off + length ?got) = ?n - length bs" by simp
          obtain buf' ok rs'' where res: "read_all ?rs1 (blit buf off ?got) (off + length ?got) len = (buf', ok, rs'')"
            by (cases "read_all ?rs1 (blit buf off ?got) (off + length ?got) len")
          have "ok = (?n - length bs \<le> length (stream_of ?rs1))"
            and "ok \<Longrightarrow> buf' = (take off buf @ ?got) @ take (?n - length bs) (stream_of ?rs1) \<and>
              stream_of rs'' = drop (?n - length bs) (stream_of ?rs1)"
            using ih unfolding res n1 tk prod.case by blast+
          then show ?thesis unfolding step res prod.case s s1
            by (cases "length bs \<le> ?n") auto
        qed
      qed
    qed
  qed
qed

lemma read_block:
  obtains buf' ok rs' where "read_all rs (replicate n 0) 0 n = (buf', ok, rs')"
    "ok = (n \<le> length (stream_of rs))"
    "ok \<longrightarrow> buf' = take n (stream_of rs) \<and> stream_of rs' = drop n (stream_of rs)"
  using read_all_stream[of 0 n "replicate n 0" rs] by (cases "read_all rs (replicate n 0) 0 n") auto

text \<open>What the next frame of a byte stream is, and the bytes after it.\<close>

definition stream_frame :: "byte list \<Rightarrow> client_error + u32 \<times> byte list" where
  "stream_frame s =
     (if length s < 4 then Inl E_no_reply
      else if get_le32 s 0 < 4 then Inl E_short_frame
      else if length s - 4 < unat (get_le32 s 0) then Inl E_truncated
      else Inr (get_le32 s 4, bytes_at 8 (unat (get_le32 s 0) - 4) s))"

lemma get_le32_take: "i + 4 \<le> n \<Longrightarrow> get_le32 (take n s) i = get_le32 s i"
  by (simp add: get_le32_def)

lemma get_le32_after: "n \<le> length s \<Longrightarrow> get_le32 (drop n s) i = get_le32 s (n + i)"
  by (simp add: get_le32_def add.assoc)

lemma recv_frame_stream:
  "fst (recv_frame rs) = stream_frame (stream_of rs) \<and>
   (\<forall>t body. fst (recv_frame rs) = Inr (t, body) \<longrightarrow>
      stream_of (snd (recv_frame rs)) = drop (8 + length body) (stream_of rs))"
proof -
  let ?s = "stream_of rs"
  obtain hdr ok rs1 where h: "read_all rs (replicate 4 0) 0 4 = (hdr, ok, rs1)" "ok = (4 \<le> length ?s)"
    "ok \<longrightarrow> hdr = take 4 ?s \<and> stream_of rs1 = drop 4 ?s" by (rule read_block[where n = 4 and rs = rs])
  show ?thesis
  proof (cases ok)
    case False
    then show ?thesis using h by (simp add: recv_frame_def stream_frame_def)
  next
    case True
    let ?n = "unat (get_le32 ?s 0)"
    have hd: "get_le32 hdr 0 = get_le32 ?s 0" using True h(3) by (simp add: get_le32_take)
    show ?thesis
    proof (cases "get_le32 ?s 0 < 4")
      case True
      then show ?thesis using h \<open>ok\<close> hd by (simp add: recv_frame_def stream_frame_def)
    next
      case False
      then have n: "4 \<le> ?n" by (simp add: word_less_nat_alt)
      obtain raw ok2 rs2 where r: "read_all rs1 (replicate ?n 0) 0 ?n = (raw, ok2, rs2)"
        "ok2 = (?n \<le> length (stream_of rs1))"
        "ok2 \<longrightarrow> raw = take ?n (stream_of rs1) \<and> stream_of rs2 = drop ?n (stream_of rs1)" by (rule read_block[where n = ?n and rs = rs1])
      have s1: "stream_of rs1 = drop 4 ?s" using True h by simp
      show ?thesis
      proof (cases ok2)
        case False
        then show ?thesis using h True hd r s1 \<open>\<not> get_le32 ?s 0 < 4\<close>
          by (simp add: recv_frame_def stream_frame_def Let_def)
      next
        case ok2: True
        have raw: "raw = take ?n (drop 4 ?s)" and len: "?n \<le> length ?s - 4" using r(2,3) ok2 s1 by auto
        have "get_le32 raw 0 = get_le32 ?s 4" using n True h(2) unfolding raw
          by (simp add: get_le32_take get_le32_after)
        moreover have "bytes_at 4 (?n - 4) raw = bytes_at 8 (?n - 4) ?s"
          unfolding raw bytes_at_def using n by (simp add: take_drop add.commute)
        moreover have "length (bytes_at 8 (?n - 4) ?s) = ?n - 4" using len n by (simp add: bytes_at_def)
        ultimately show ?thesis using h True hd r ok2 s1 \<open>\<not> get_le32 ?s 0 < 4\<close> n len
          by (simp add: recv_frame_def stream_frame_def Let_def add.commute)
      qed
    qed
  qed
qed

lemma stream_frame_frame:
  assumes "4 + length body < 2 ^ 32"
  shows "stream_frame (frame t body @ rest) = Inr (t, body)"
proof -
  let ?s = "frame t body @ rest"
  have 0: "get_le32 ?s 0 = word_of_nat (4 + length body)" and 4: "get_le32 ?s 4 = t"
    using get_le32_le32[of "[]"] get_le32_le32[of "le32 (word_of_nat (4 + length body))"]
    by (simp_all add: frame_def)
  have u: "unat (word_of_nat (4 + length body) :: u32) = 4 + length body"
    using assms by (rule of_nat_u32)
  then have "\<not> (word_of_nat (4 + length body) :: u32) < 4" by (simp add: word_less_nat_alt)
  moreover have "drop 8 (frame t body @ rest) = body @ rest" by (simp add: frame_def)
  moreover have "length (frame t body) = 8 + length body" by (simp add: frame_def)
  ultimately show ?thesis using u by (simp add: stream_frame_def 0 4 bytes_at_def)
qed

section \<open>Transactions\<close>

definition opened_fds :: "call list \<Rightarrow> int" where
  "opened_fds cs = int (count_list cs Opened) - int (count_list cs Closed)"

lemma opened_fds_simps [simp]:
  "opened_fds [] = 0" "opened_fds (xs @ ys) = opened_fds xs + opened_fds ys"
  "opened_fds (x # ys) = (if x = Opened then 1 else if x = Closed then -1 else 0) + opened_fds ys"
  by (simp_all add: opened_fds_def)

lemma connect_fds:
  "opened_fds (snd (client_connect path l)) = (case fst (client_connect path l) of Inl _ \<Rightarrow> 0 | Inr _ \<Rightarrow> 1)"
  by (simp add: client_connect_def)

lemma send_fds: "opened_fds (snd (send_frame l b)) = 0"
  by (simp add: send_frame_def split: prod.split)

lemma txn_fds: "opened_fds (snd (control_txn path l req)) = 0"
  using connect_fds[of path l] send_fds[of l req]
  by (auto simp: control_txn_def split: sum.split prod.split)

lemma transact_fds: "opened_fds (snd (transact c l req want parse)) = 0"
  using txn_fds[of "epimone_client_socket_path (cl_glib c) (cl_host c)" l req]
  by (auto simp: transact_def split: sum.split prod.split)

text \<open>The socket accepts the connection and every byte of the request.\<close>

definition delivers :: "client \<Rightarrow> link \<Rightarrow> epi_buf \<Rightarrow> bool" where
  "delivers c l req \<longleftrightarrow> l_socket l \<and> l_connect l \<and>
     length (epimone_client_socket_path (cl_glib c) (cl_host c)) < sun_path_size \<and>
     \<not> b_oom req \<and> snd (write_all (l_writes l) 0 (b_len req))"

text \<open>The daemon receives the whole request and the client the next frame of the stream.\<close>

lemma control_txn_delivers:
  assumes "delivers c l req"
  shows "control_txn (epimone_client_socket_path (cl_glib c) (cl_host c)) l req =
    (stream_frame (stream_of (l_reads l)), [Opened, Wrote (buf_bytes req), Closed])"
proof -
  have w: "fst (write_all (l_writes l) 0 (b_len req)) = b_len req"
    using assms write_all_ok[of 0 "b_len req" "l_writes l"] by (simp add: delivers_def)
  have "send_frame l req = (Inr (), [Wrote (buf_bytes req)])"
    using assms w by (auto simp: delivers_def send_frame_def buf_bytes_def split: prod.splits)
  moreover have "fst (recv_frame (l_reads l)) = stream_frame (stream_of (l_reads l))"
    using recv_frame_stream by blast
  ultimately show ?thesis using assms
    by (auto simp: control_txn_def client_connect_def delivers_def split: sum.splits prod.splits)
qed

lemma transact_delivers:
  assumes "delivers c l req" and "stream_of (l_reads l) = frame want body @ rest"
    and "4 + length body < 2 ^ 32" and "want \<noteq> EPI_MSG_ERROR"
  shows "transact c l req want parse = (Inr (parse body), [Opened, Wrote (buf_bytes req), Closed])"
  using assms control_txn_delivers[OF assms(1)]
  by (simp add: transact_def stream_frame_frame reply_is_error_def)

section \<open>Properties\<close>

text \<open>The frame that the client receives depends only on the bytes that arrive, never on how
  read(2) cuts them, on interruptions or on bytes that follow it: it is the frame at the head of
  the stream, with a missing, short or truncated frame told apart; and on success exactly the
  frame has been taken, so that what follows an ATTACHED reply is the raw stream.\<close>

theorem recv_frame_of_stream:
  "fst (recv_frame rs) = stream_frame (stream_of rs) \<and>
   (\<forall>t body rest. stream_of rs = frame t body @ rest \<and> 4 + length body < 2 ^ 32 \<longrightarrow>
      fst (recv_frame rs) = Inr (t, body) \<and> stream_of (snd (recv_frame rs)) = rest)"
proof -
  have "length (frame t body) = 8 + length body" for t body by (simp add: frame_def)
  then show ?thesis using recv_frame_stream[of rs] stream_frame_frame by auto
qed

theorem recv_frame_of_stream_witness:
  "recv_frame [Rd [5, 0], Rd_intr, Rd [0, 0, 103], Rd [0, 0, 0, 7, 9], Rd [8]] = (Inr (EPI_MSG_OK, [7]), [Rd [9], Rd [8]]) \<and>
   fst (recv_frame [Rd [5, 0], Rd_intr, Rd [0, 0, 103], Rd [0, 0, 0, 7, 9], Rd [8]]) = Inr (EPI_MSG_OK, [7])"
proof -
  let ?rs = "[Rd [5, 0], Rd_intr, Rd [0, 0, 103], Rd [0, 0, 0, 7, 9], Rd [8]]"
  have "stream_of ?rs = frame EPI_MSG_OK [7] @ [9, 8]"
    by (simp add: frame_def le32_def EPI_MSG_OK_def)
  moreover have "4 + length [7 :: byte] < 2 ^ 32" by simp
  ultimately have "fst (recv_frame ?rs) = Inr (EPI_MSG_OK, [7])"
    using recv_frame_of_stream[of ?rs] by blast
  moreover have "recv_frame ?rs = (Inr (EPI_MSG_OK, [7]), [Rd [9], Rd [8]])"
    by (simp add: recv_frame_def read_all.simps blit_def get_le32_def bytes_at_def EPI_MSG_OK_def)
  ultimately show ?thesis by simp
qed

lemma wait_fds: "opened_fds (snd (wait_daemon path ls i n)) = 0"
proof (induction n arbitrary: i)
  case (Suc n)
  have "opened_fds (snd (daemon_answers path (ls i))) = 0"
    by (simp add: daemon_answers_def client_connect_def)
  then show ?case using Suc.IH[of "i + 1"] by (auto split: prod.splits bool.splits)
qed simp

text \<open>C14. No operation of the client that talks to the daemon leaks a descriptor: whatever fails on
  the way, each of the fourteen closes the socket it opened, and attaching leaves exactly one open,
  the data channel, if it succeeds and none if it fails. Starting the daemon closes the socket of
  every probe. (Sending the launch command writes to a channel it is given and opens nothing.)\<close>

theorem client_closes_its_sockets:
  "opened_fds (snd (epimone_client_create_session c l cwd)) = 0 \<and>
   opened_fds (snd (epimone_client_list_sessions c l)) = 0 \<and>
   opened_fds (snd (epimone_client_attach_session c l sid)) =
     (case fst (epimone_client_attach_session c l sid) of Inl _ \<Rightarrow> 0 | Inr _ \<Rightarrow> 1) \<and>
   opened_fds (snd (epimone_client_kill_session c l sid)) = 0 \<and>
   opened_fds (snd (epimone_client_peek_session c l sid n)) = 0 \<and>
   opened_fds (snd (epimone_client_list_groups c l)) = 0 \<and>
   opened_fds (snd (epimone_client_group_new c l blob)) = 0 \<and>
   opened_fds (snd (epimone_client_group_set c l gid blob)) = 0 \<and>
   opened_fds (snd (epimone_client_group_add c l gid sid)) = 0 \<and>
   opened_fds (snd (epimone_client_group_remove c l sid)) = 0 \<and>
   opened_fds (snd (epimone_client_resize_session c l sid rows cols)) = 0 \<and>
   opened_fds (snd (epimone_client_detach_session c l sid)) = 0 \<and>
   opened_fds (snd (epimone_client_instance_id c l)) = 0 \<and>
   opened_fds (snd (epimone_client_ensure_daemon c ls spawned)) = 0"
proof -
  have "opened_fds (snd (epimone_client_attach_session c l sid)) =
     (case fst (epimone_client_attach_session c l sid) of Inl _ \<Rightarrow> 0 | Inr _ \<Rightarrow> 1)"
    using connect_fds[of "epimone_client_socket_path (cl_glib c) (cl_host c)" l]
      send_fds[of l "id_request (cl_mem c) EPI_MSG_ATTACH sid"]
    by (auto simp: epimone_client_attach_session_def split: sum.split prod.split)
  moreover have "opened_fds (snd (epimone_client_ensure_daemon c ls spawned)) = 0"
    using wait_fds[of "epimone_client_socket_path (cl_glib c) (cl_host c)" ls 1 80]
    by (auto simp: epimone_client_ensure_daemon_def daemon_answers_def client_connect_def Let_def split: prod.split)
  moreover have "opened_fds (snd (epimone_client_create_session c l cwd)) = 0"
    by (auto simp: epimone_client_create_session_def transact_fds split: sum.split prod.split)
  ultimately show ?thesis
    by (simp add: epimone_client_list_sessions_def epimone_client_kill_session_def simple_id_txn_def
        epimone_client_peek_session_def epimone_client_list_groups_def epimone_client_group_new_def
        epimone_client_group_set_def epimone_client_group_add_def epimone_client_group_remove_def
        epimone_client_resize_session_def epimone_client_detach_session_def epimone_client_instance_id_def
        Let_def transact_fds split: option.split)
qed

definition answers :: "byte list \<Rightarrow> link \<Rightarrow> bool" where
  "answers path l \<longleftrightarrow> l_socket l \<and> l_connect l \<and> length path < sun_path_size"

fun slept :: "call list \<Rightarrow> nat" where
  "slept [] = 0"
| "slept (Slept n # cs) = n + slept cs"
| "slept (_ # cs) = slept cs"

fun launches :: "call list \<Rightarrow> nat" where
  "launches [] = 0"
| "launches (Launched _ # cs) = 1 + launches cs"
| "launches (_ # cs) = launches cs"

lemma slept_append [simp]: "slept (xs @ ys) = slept xs + slept ys" "launches (xs @ ys) = launches xs + launches ys"
  by (induction xs rule: slept.induct) auto

lemma answers_spec: "daemon_answers path l = (answers path l, snd (daemon_answers path l)) \<and>
    slept (snd (daemon_answers path l)) = 0 \<and> launches (snd (daemon_answers path l)) = 0"
  by (auto simp: daemon_answers_def client_connect_def answers_def)

lemma wait_spec:
  "(fst (wait_daemon path ls i n) = Inr ()) = (\<exists>j. i \<le> j \<and> j < i + n \<and> answers path (ls j)) \<and>
   slept (snd (wait_daemon path ls i n)) \<le> n * 25000 \<and> launches (snd (wait_daemon path ls i n)) = 0"
proof (induction n arbitrary: i)
  case (Suc n)
  obtain cs where d: "daemon_answers path (ls i) = (answers path (ls i), cs)" "slept cs = 0" "launches cs = 0"
    using answers_spec[of path "ls i"] by (metis snd_conv)
  have ex: "(\<exists>j. i \<le> j \<and> j < i + Suc n \<and> answers path (ls j)) =
      (answers path (ls i) \<or> (\<exists>j. i + 1 \<le> j \<and> j < i + 1 + n \<and> answers path (ls j)))"
  proof -
    have "i \<le> j \<and> j < i + Suc n \<longleftrightarrow> j = i \<or> i + 1 \<le> j \<and> j < i + 1 + n" for j by arith
    then show ?thesis by (metis (no_types, lifting))
  qed
  show ?case unfolding ex using Suc.IH[of "i + 1"] d
    by (cases "answers path (ls i)") (auto split: prod.splits)
qed simp

text \<open>C15. Making sure of a daemon succeeds exactly if one answers at once, or if one could be started
  and answers one of the next 80 probes; it is started at most once, and the waiting is bounded by
  two seconds.\<close>

theorem ensure_daemon_starts_one_and_waits:
  "(fst (epimone_client_ensure_daemon c ls spawned) = Inr ()) =
     (answers (epimone_client_socket_path (cl_glib c) (cl_host c)) (ls 0) \<or>
      spawned \<and> (\<exists>j. 1 \<le> j \<and> j \<le> 80 \<and>
        answers (epimone_client_socket_path (cl_glib c) (cl_host c)) (ls j))) \<and>
   launches (snd (epimone_client_ensure_daemon c ls spawned)) \<le> 1 \<and>
   slept (snd (epimone_client_ensure_daemon c ls spawned)) \<le> 2000000"
proof -
  define path where "path = epimone_client_socket_path (cl_glib c) (cl_host c)"
  define res where "res = epimone_client_ensure_daemon c ls spawned"
  obtain cs where d: "daemon_answers path (ls 0) = (answers path (ls 0), cs)" "slept cs = 0" "launches cs = 0"
    using answers_spec[of path "ls 0"] by (metis snd_conv)
  obtain r cs2 where w: "wait_daemon path ls 1 80 = (r, cs2)" by (cases "wait_daemon path ls 1 80")
  have "(r = Inr ()) = (\<exists>j. 1 \<le> j \<and> j < 81 \<and> answers path (ls j))" "slept cs2 \<le> 2000000" "launches cs2 = 0"
    using wait_spec[of path ls 1 80] w by simp_all
  moreover have "j < 81 \<longleftrightarrow> j \<le> 80" for j :: nat by arith
  moreover have "res = (if answers path (ls 0) then (Inr (), cs) else if \<not> spawned then (Inl E_spawn_daemon, cs)
      else (r, cs @ [Launched [find_daemon_binary (cl_glib c) (cl_host c), lit ''--daemonize'']] @ cs2))"
    using d w by (auto simp: res_def epimone_client_ensure_daemon_def path_def[symmetric] Let_def split: bool.split)
  ultimately show ?thesis unfolding path_def[symmetric] res_def[symmetric] using d(2,3) by auto
qed

end
