(* ===== verification/Client_Wire.thy ===== *)
theory Client_Wire
  imports Client_IO Server_Frames
begin

text \<open>
  The client and the daemon together: what the client parses is what the daemon's handlers
  wrote, and what the daemon's handlers read is what the client asked for.
\<close>

section \<open>The records of the replies are codecs\<close>

lemma rd_at_err: "rd_at r bs \<Longrightarrow> \<not> rd_err r"
  by (simp add: rd_at_def)

definition enc_session_info :: "EpiSessionInfo \<Rightarrow> byte list" where
  "enc_session_info i = le64 (si_id i) @ le32 (si_pid i) @ [if si_alive i then 1 else 0] @
     [if si_attached i then 1 else 0] @ le64 (word_of_int (si_created_at i)) @ enc_str (Some (si_cwd i))"

definition session_info_ok :: "EpiSessionInfo \<Rightarrow> bool" where
  "session_info_ok i \<longleftrightarrow> 0 \<notin> set (si_cwd i) \<and> length (si_cwd i) < 2 ^ 32 \<and>
     sint (word_of_int (si_created_at i) :: u64) = si_created_at i"

lemma rd_session_info_at:
  assumes "never_fails a" and "session_info_ok i" and at: "rd_at r (enc_session_info i @ rest)"
  shows "fst (rd_session_info a r) = i \<and> rd_at (snd (rd_session_info a r)) rest"
proof -
  have ok: "0 \<notin> set (si_cwd i)" "length (si_cwd i) < 2 ^ 32"
    "sint (word_of_int (si_created_at i) :: u64) = si_created_at i"
    using assms(2) by (simp_all add: session_info_ok_def)
  note at = at[unfolded enc_session_info_def append_assoc]
  note 1 = rd_u64_at[OF at]
  note 2 = rd_u32_at[OF 1(2)]
  note 3 = rd_u8_at[OF 2(2)[unfolded append_Cons append_Nil]]
  note 4 = rd_u8_at[OF 3(2)]
  note 5 = rd_u64_at[OF 4(2)]
  note 6 = rd_str_at[OF assms(1) ok(1,2) 5(2)]
  show ?thesis
    using 6 ok(3) unfolding rd_session_info_def 1(1) 2(1) 3(1) 4(1) 5(1) prod.case
    by (cases i) (auto split: prod.splits)
qed

text \<open>Readers in sequence are a reader.\<close>

lemma reader_seq:
  assumes "reader d1" and "\<And>v. reader (d2 v)"
  shows "reader (\<lambda>a r. case d1 a r of (v, r1) \<Rightarrow> d2 v a r1)"
proof
  fix a r
  obtain v r1 where 1: "d1 a r = (v, r1)" by (cases "d1 a r")
  note f = reader.data[OF assms(1), of a r] reader.sticky[OF assms(1), of r a]
    reader.bounded[OF assms(1), of r a] reader.forward[OF assms(1), of r a]
  note g = reader.data[OF assms(2), of v a r1] reader.sticky[OF assms(2), of r1 v a]
    reader.bounded[OF assms(2), of r1 v a] reader.forward[OF assms(2), of r1 v a]
  let ?d = "\<lambda>a r. case d1 a r of (v, r1) \<Rightarrow> d2 v a r1"
  show "rd_data (snd (?d a r)) = rd_data r" using f g 1 by simp
  show "rd_err r \<Longrightarrow> rd_err (snd (?d a r))" using f g 1 by simp
  show "rd_ok r \<Longrightarrow> rd_ok (snd (?d a r))" using f g 1 by simp
  show "rd_pos r \<le> rd_pos (snd (?d a r))" using f g 1 by simp
qed

lemma reader_return: "reader (\<lambda>a r. (v, r))"
  by unfold_locales simp_all

lemmas basic_readers =
  rd8.reader_axioms rd32.reader_axioms rd64.reader_axioms rd_str_reader rd_blob_reader

lemma rd_session_info_reader: "reader rd_session_info"
  unfolding rd_session_info_def[abs_def]
  by (intro reader_seq reader_return basic_readers)


interpretation session_info: codec rd_session_info enc_session_info session_info_ok
  by (intro codec.intro rd_session_info_reader codec_axioms.intro) (rule rd_session_info_at)

definition enc_group_info :: "EpiGroupInfo \<Rightarrow> byte list" where
  "enc_group_info i = le64 (gi_id i) @ le64 (word_of_int (gi_created_at i)) @
     enc_block (gi_blob i, gi_blob_len i) @ le32 (word_of_nat (length (gi_members i))) @
     concat (map le64 (gi_members i))"

definition group_info_ok :: "EpiGroupInfo \<Rightarrow> bool" where
  "group_info_ok i \<longleftrightarrow> sint (word_of_int (gi_created_at i) :: u64) = gi_created_at i \<and>
     block_ok (gi_blob i, gi_blob_len i) \<and> length (gi_members i) < 2 ^ 32"

lemma rd_group_info_at:
  assumes "never_fails a" and "group_info_ok i" and at: "rd_at r (enc_group_info i @ rest)"
  shows "fst (rd_group_info a r) = i \<and> rd_at (snd (rd_group_info a r)) rest"
proof -
  have ok: "sint (word_of_int (gi_created_at i) :: u64) = gi_created_at i"
    "block_ok (gi_blob i, gi_blob_len i)" "length (gi_members i) < 2 ^ 32"
    using assms(2) by (simp_all add: group_info_ok_def)
  note at = at[unfolded enc_group_info_def append_assoc]
  note 1 = rd_u64_at[OF at]
  note 2 = rd_u64_at[OF 1(2)]
  obtain r3 where 3: "epi_rd_blob a (r\<lparr>rd_pos := rd_pos r + 8\<rparr>\<lparr>rd_pos := rd_pos (r\<lparr>rd_pos := rd_pos r + 8\<rparr>) + 8\<rparr>)
      = ((gi_blob i, gi_blob_len i), r3)"
    "rd_at r3 (le32 (word_of_nat (length (gi_members i))) @ concat (map le64 (gi_members i)) @ rest)"
    using rd_blob_at[OF assms(1) ok(2) 2(2)] by (metis prod.collapse)
  note 4 = rd_u32_at[OF 3(2)]
  have "fst (rd_loop epi_rd_u64 (length (gi_members i)) (r3\<lparr>rd_pos := rd_pos r3 + 4\<rparr>)) = gi_members i \<and>
      rd_at (snd (rd_loop epi_rd_u64 (length (gi_members i)) (r3\<lparr>rd_pos := rd_pos r3 + 4\<rparr>))) rest"
    using rd64.loop_decode[OF assms(1) _ 4(2)] by simp
  then show ?thesis
    using ok(1) unfolding rd_group_info_def 1(1) 2(1) 3(1) 4(1) prod.case of_nat_u32[OF ok(3)]
    by (cases i) (auto split: prod.splits)
qed

lemma rd_group_info_reader: "reader rd_group_info"
  unfolding rd_group_info_def[abs_def]
  by (intro reader_seq reader_return basic_readers rd64.loop_reader)
    (auto split: prod.split intro!: reader_seq reader_return basic_readers rd64.loop_reader)

interpretation group_info: codec rd_group_info enc_group_info group_info_ok
  by (intro codec.intro rd_group_info_reader codec_axioms.intro) (rule rd_group_info_at)

end
