(* ===== verification/Client_Server.thy ===== *)
theory Client_Server
  imports Client_Wire
begin

text \<open>
  Requests end to end: the client's function on one side of the socket, the daemon's handler on
  the other. The contract between them is a locale: the handler queues one frame, and the
  client's parser reads its body as what the server's state means.
\<close>

text \<open>The client receives exactly what the daemon queues for it, on a connection that owed nothing.\<close>

definition serves :: "(epi_server \<Rightarrow> epi_server) \<Rightarrow> nat \<Rightarrow> epi_server \<Rightarrow> link \<Rightarrow> bool" where
  "serves h cr srv l \<longleftrightarrow> (\<exists>d d' rest. conn_at srv cr = Some d \<and> out_bytes d = [] \<and>
     conn_at (h srv) cr = Some d' \<and> stream_of (l_reads l) = out_bytes d' @ rest)"

lemma serves_reply:
  assumes "srv_inv srv" and "never_fails a" and "serves h cr srv l"
    and "h srv = reply cr (conn_queue a bs) srv"
  shows "\<exists>rest. stream_of (l_reads l) = bs @ rest"
proof -
  obtain d d' rest where d: "conn_at srv cr = Some d" "out_bytes d = []" "conn_at (h srv) cr = Some d'"
    "stream_of (l_reads l) = out_bytes d' @ rest" using assms(3) by (auto simp: serves_def)
  have ok: "conn_ok d" using conn_atD[OF d(1)] assms(1) by (auto simp: srv_inv_def inv_objs_def)
  have "c_ref (conn_queue a bs c) = c_ref c" for c
    using queue_keep[of a bs] by (simp add: conn_keep_def same_conn_def)
  then have "d' = conn_queue a bs d" using d(1,3) assms(4) by (simp add: conn_at_quiet)
  then show ?thesis using queue_out(1)[OF ok assms(2), of bs] d(2,4) by auto
qed

locale answered =
  fixes handler :: "env \<Rightarrow> nat \<Rightarrow> epi_server \<Rightarrow> epi_server"
    and want :: u32 and body :: "epi_server \<Rightarrow> byte list"
    and parse :: "allocator \<Rightarrow> byte list \<Rightarrow> 'a" and meaning :: "epi_server \<Rightarrow> 'a"
    and pre :: "epi_server \<Rightarrow> bool"
  assumes handled: "srv_inv srv \<Longrightarrow> pre srv \<Longrightarrow> never_fails (e_mem e) \<Longrightarrow>
      handler e cr srv = reply cr (conn_queue (e_mem e) (frame want (body srv))) srv"
    and not_error: "want \<noteq> EPI_MSG_ERROR"
    and parsed: "srv_inv srv \<Longrightarrow> pre srv \<Longrightarrow> never_fails a \<Longrightarrow> 4 + length (body srv) < 2 ^ 32 \<Longrightarrow>
      parse a (body srv) = meaning srv"
begin

lemma end_to_end:
  assumes inv: "srv_inv srv" and pre: "pre srv" and mem: "never_fails (e_mem e)" "never_fails (cl_mem c)"
    and size: "4 + length (body srv) < 2 ^ 32" and link: "delivers c l req" "serves (handler e cr) cr srv l"
  shows "transact c l req want (parse (cl_mem c)) = (Inr (meaning srv), [Opened, Wrote (buf_bytes req), Closed])"
proof -
  obtain rest where "stream_of (l_reads l) = frame want (body srv) @ rest"
    using serves_reply[OF inv mem(1) link(2) handled[OF inv pre mem(1)]] by blast
  from transact_delivers[OF link(1) this size not_error, of "parse (cl_mem c)"] show ?thesis
    using parsed[OF inv pre mem(2) size] by simp
qed

end

lemma msg_frame:
  assumes "buf_app (epi_msg_start a t) b body" and "\<not> b_oom b"
  shows "buf_bytes (epi_msg_end b) = frame t body"
  using msg_end_frame[OF assms(1)] assms(2) by simp

lemma empty_request_bytes: "never_fails a \<Longrightarrow> buf_bytes (empty_request a t) = frame t []"
  unfolding empty_request_def by (rule msg_frame[OF appends_refl]) simp

lemma length_concat_ge: "(\<And>x. 1 \<le> length (enc x)) \<Longrightarrow> length xs \<le> length (concat (map enc xs))"
proof (induction xs)
  case (Cons x xs)
  have "1 \<le> length (enc x)" by (rule Cons.prems)
  then show ?case using Cons.IH[OF Cons.prems] by simp
qed simp

lemma length_concat_mem: "x \<in> set xs \<Longrightarrow> length (f x) \<le> length (concat (map f xs))"
  by (induction xs) auto

section \<open>LIST\<close>

definition shown :: "epi_server \<Rightarrow> epi_session list" where
  "shown srv = filter (\<lambda>s. \<not> s_removed s) (sessions srv)"

definition info_of :: "epi_session \<Rightarrow> EpiSessionInfo" where
  "info_of s = \<lparr>si_id = s_id s, si_pid = word_of_int (s_pid s), si_alive = s_alive s,
     si_attached = (s_client s \<noteq> None), si_created_at = sint (word_of_int (s_created_at s) :: u64),
     si_cwd = cstr (case s_cwd s of None \<Rightarrow> [] | Some w \<Rightarrow> w)\<rparr>"

definition list_body :: "epi_server \<Rightarrow> byte list" where
  "list_body srv = le32 (word_of_nat (length (shown srv))) @ concat (map enc_info (shown srv)) @ le64 (instance_id srv)"

lemma cstr_cstr [simp]: "cstr (cstr s) = cstr s" "0 \<notin> set (cstr s)"
  by (auto simp: cstr_def dest: set_takeWhileD)

lemma enc_info_of: "enc_info s = enc_session_info (info_of s)"
  by (simp add: enc_info_def enc_session_info_def info_of_def enc_str_def)

lemma enc_session_info_length: "26 + length (cstr (si_cwd i)) \<le> length (enc_session_info i)"
  by (simp add: enc_session_info_def enc_str_def Let_def)

lemma list_queued:
  assumes "never_fails a"
  shows "conn_queue_frame a (list_reply a srv) = conn_queue a (frame EPI_MSG_LIST_REPLY (list_body srv))"
proof -
  let ?b = "epi_buf_put_u64 a (fold (put_session_info a) (shown srv) (epi_buf_put_u32 a
     (epi_msg_start a EPI_MSG_LIST_REPLY) (word_of_nat (length (shown srv))))) (instance_id srv)"
  have "buf_app (epi_msg_start a EPI_MSG_LIST_REPLY) ?b (list_body srv)"
    unfolding list_body_def append_assoc[symmetric]
    by (rule buf_steps buf_writes fold_writes[THEN appends_trans[rotated]])+
  moreover have "\<not> b_oom ?b" using assms by (simp add: fold_oom)
  ultimately show ?thesis using queue_reply by (simp add: list_reply_def Let_def shown_def)
qed

lemma list_read:
  assumes "never_fails a" and "4 + length (list_body srv) < 2 ^ 32"
  shows "\<exists>r1 r2. epi_rd_u32 (epi_rd_init (list_body srv)) = (word_of_nat (length (shown srv)), r1) \<and>
    unat (word_of_nat (length (shown srv)) :: u32) = length (shown srv) \<and>
    rd_loop (rd_session_info a) (length (shown srv)) r1 = (map info_of (shown srv), r2) \<and>
    rd_at r2 (le64 (instance_id srv))"
proof -
  let ?xs = "map info_of (shown srv)"
  have body: "list_body srv = le32 (word_of_nat (length (shown srv))) @ concat (map enc_session_info ?xs) @
      le64 (instance_id srv)"
    by (simp add: list_body_def enc_info_of[abs_def] o_def)
  note at = rd_u32_at[OF rd_at_init[of "list_body srv", unfolded body], folded body]
  have len: "length (concat (map enc_session_info ?xs)) < 2 ^ 32" using assms(2) unfolding body by simp
  have "length ?xs \<le> length (concat (map enc_session_info ?xs))"
    by (rule length_concat_ge) (use enc_session_info_length in \<open>simp add: le_trans[OF _ enc_session_info_length]\<close>)
  then have n: "length (shown srv) < 2 ^ 32" using len by simp
  have "session_info_ok i" if "i \<in> set ?xs" for i
  proof -
    have "length (enc_session_info i) \<le> length (concat (map enc_session_info ?xs))"
      using that by (rule length_concat_mem)
    moreover have "length (si_cwd i) \<le> length (enc_session_info i)" "0 \<notin> set (si_cwd i)"
      using enc_session_info_length[of i] that by (auto simp: info_of_def)
    ultimately show ?thesis using len that by (auto simp: session_info_ok_def info_of_def)
  qed
  then have "fst (rd_loop (rd_session_info a) (length ?xs) (snd (epi_rd_u32 (epi_rd_init (list_body srv))))) = ?xs \<and>
      rd_at (snd (rd_loop (rd_session_info a) (length ?xs) (snd (epi_rd_u32 (epi_rd_init (list_body srv)))))) (le64 (instance_id srv))"
    by (intro session_info.loop_decode[OF assms(1)]) (use at in auto)
  then show ?thesis using at(1) of_nat_u32[OF n] by (metis length_map prod.collapse snd_conv)
qed

interpretation list_sessions: answered "\<lambda>e cr. dispatch_frame e cr EPI_MSG_LIST []" EPI_MSG_LIST_REPLY
  list_body parse_sessions "\<lambda>srv. map info_of (shown srv)" "\<lambda>_. True"
proof
  show "dispatch_frame e cr EPI_MSG_LIST [] srv = reply cr (conn_queue (e_mem e) (frame EPI_MSG_LIST_REPLY (list_body srv))) srv"
    if "never_fails (e_mem e)" for e cr srv
    using list_queued[OF that] by (simp add: dispatch_frame_def handle_list_def msg_codes)
  show "parse_sessions a (list_body srv) = map info_of (shown srv)"
    if "never_fails a" "4 + length (list_body srv) < 2 ^ 32" for a srv
    using list_read[OF that] by (auto simp: parse_sessions_def)
qed (simp add: msg_codes)

interpretation list_instance: answered "\<lambda>e cr. dispatch_frame e cr EPI_MSG_LIST []" EPI_MSG_LIST_REPLY
  list_body parse_instance_id instance_id "\<lambda>_. True"
proof
  show "parse_instance_id a (list_body srv) = instance_id srv"
    if "never_fails a" "4 + length (list_body srv) < 2 ^ 32" for a srv
  proof -
    note lr = list_read[OF that]
    obtain r1 r2 where r: "epi_rd_u32 (epi_rd_init (list_body srv)) = (word_of_nat (length (shown srv)), r1)"
      "unat (word_of_nat (length (shown srv)) :: u32) = length (shown srv)"
      "rd_loop (rd_session_info a) (length (shown srv)) r1 = (map info_of (shown srv), r2)"
      "rd_at r2 (le64 (instance_id srv))" using lr by blast
    have at: "rd_at r2 (le64 (instance_id srv) @ [])" using r(4) by simp
    show ?thesis using rd_at_more[OF at] rd_u64_at(1)[OF at]
      unfolding parse_instance_id_def r(1) prod.case r(2) r(3) by (simp add: le64_def le32_def)
  qed
qed (rule list_sessions.handled list_sessions.not_error; simp)+

section \<open>GROUP_LIST\<close>

definition members_of :: "epi_server \<Rightarrow> u64 \<Rightarrow> u64 list" where
  "members_of srv gid = map s_id (filter (\<lambda>s. session_in_group s gid) (sessions srv))"

definition group_info_of :: "epi_server \<Rightarrow> epi_group \<Rightarrow> EpiGroupInfo" where
  "group_info_of srv g = \<lparr>gi_id = g_id g, gi_created_at = sint (word_of_int (g_created_at g) :: u64),
     gi_blob = g_blob g, gi_blob_len = g_blob_len g, gi_members = members_of srv (g_id g)\<rparr>"

definition groups_body :: "epi_server \<Rightarrow> byte list" where
  "groups_body srv = le64 (instance_id srv) @ le32 (word_of_nat (length (groups srv))) @
     concat (map (enc_group_info \<circ> group_info_of srv) (groups srv))"

definition enc_group :: "epi_server \<Rightarrow> epi_group \<Rightarrow> byte list" where
  "enc_group srv g = le64 (g_id g) @ le64 (word_of_int (g_created_at g)) @
     enc_blob (case g_blob g of None \<Rightarrow> [] | Some p \<Rightarrow> take (g_blob_len g) p) @
     le32 (count_group_members srv (g_id g)) @
     concat (map (\<lambda>s. le64 (s_id s)) (filter (\<lambda>s. session_in_group s (g_id g)) (sessions srv)))"

lemma put_group_appends [buf_writes]: "buf_app b (put_group a srv g b) (enc_group srv g)"
  unfolding put_group_def enc_group_def Let_def append_assoc[symmetric]
  by (rule buf_steps buf_writes fold_writes[THEN appends_trans[rotated]])+

lemma put_group_oom [simp]: "never_fails a \<Longrightarrow> b_oom (put_group a srv g b) = b_oom b"
  by (simp add: put_group_def Let_def fold_oom)

lemma enc_group_info_of: "group_wf g \<Longrightarrow> enc_group srv g = enc_group_info (group_info_of srv g)"
  by (auto simp: enc_group_def enc_group_info_def group_info_of_def members_of_def group_wf_def blob_wf_def
      count_group_members_def enc_block_def o_def split: option.splits)

lemma groups_queued:
  assumes "never_fails a" and "\<forall>g \<in> set (groups srv). group_wf g"
  shows "conn_queue_frame a (group_list_reply a srv) = conn_queue a (frame EPI_MSG_GROUP_LIST_REPLY (groups_body srv))"
proof -
  let ?b = "fold (put_group a srv) (groups srv) (epi_buf_put_u32 a (epi_buf_put_u64 a
     (epi_msg_start a EPI_MSG_GROUP_LIST_REPLY) (instance_id srv)) (count_groups srv))"
  have b: "groups_body srv = le64 (instance_id srv) @ le32 (count_groups srv) @ concat (map (enc_group srv) (groups srv))"
    using assms(2) by (simp add: groups_body_def count_groups_def enc_group_info_of cong: map_cong)
  have "buf_app (epi_msg_start a EPI_MSG_GROUP_LIST_REPLY) ?b (groups_body srv)"
    unfolding b append_assoc[symmetric]
    by (rule buf_steps buf_writes fold_writes[THEN appends_trans[rotated]])+
  moreover have "\<not> b_oom ?b" using assms by (simp add: fold_oom)
  ultimately show ?thesis using queue_reply by (simp add: group_list_reply_def Let_def)
qed

lemma enc_group_info_length:
  "1 \<le> length (enc_group_info i)" "length (gi_members i) \<le> length (enc_group_info i)"
  "length (case gi_blob i of None \<Rightarrow> [] | Some p \<Rightarrow> p) \<le> length (enc_group_info i)"
  using length_concat_ge[of le64 "gi_members i"]
  by (simp_all add: enc_group_info_def enc_block_def enc_blob_def)

lemma groups_wire:
  assumes "4 + length (groups_body srv) < 2 ^ 32" and "\<forall>g \<in> set (groups srv). group_wf g"
  defines "xs \<equiv> map (group_info_of srv) (groups srv)"
  shows "length xs < 2 ^ 32" "\<forall>i \<in> set xs. group_info_ok i"
    "fst (epi_rd_u64 (epi_rd_init (groups_body srv))) = instance_id srv"
    "fst (epi_rd_u32 (snd (epi_rd_u64 (epi_rd_init (groups_body srv))))) = word_of_nat (length xs)"
    "rd_at (snd (epi_rd_u32 (snd (epi_rd_u64 (epi_rd_init (groups_body srv)))))) (concat (map enc_group_info xs))"
proof -
  have body: "groups_body srv = le64 (instance_id srv) @ le32 (word_of_nat (length xs)) @ concat (map enc_group_info xs)"
    by (simp add: groups_body_def xs_def)
  note 1 = rd_u64_at[OF rd_at_init[of "groups_body srv", unfolded body], folded body]
  note 2 = rd_u32_at[OF 1(2)]
  show "fst (epi_rd_u64 (epi_rd_init (groups_body srv))) = instance_id srv"
    "fst (epi_rd_u32 (snd (epi_rd_u64 (epi_rd_init (groups_body srv))))) = word_of_nat (length xs)"
    "rd_at (snd (epi_rd_u32 (snd (epi_rd_u64 (epi_rd_init (groups_body srv)))))) (concat (map enc_group_info xs))"
    using 1(1) 2 by simp_all
  have len: "length (concat (map enc_group_info xs)) < 2 ^ 32" using assms(1) unfolding body by simp
  have "length xs \<le> length (concat (map enc_group_info xs))"
    by (rule length_concat_ge) (rule enc_group_info_length)
  then show "length xs < 2 ^ 32" using len by simp
  show "\<forall>i \<in> set xs. group_info_ok i"
  proof
    fix i assume i: "i \<in> set xs"
    have "length (enc_group_info i) < 2 ^ 32" using length_concat_mem[OF i, of enc_group_info] len by simp
    then have "length (gi_members i) < 2 ^ 32" "length (case gi_blob i of None \<Rightarrow> [] | Some p \<Rightarrow> p) < 2 ^ 32"
      using enc_group_info_length[of i] by simp_all
    then show "group_info_ok i" using i assms(2)
      by (auto simp: xs_def group_info_ok_def group_info_of_def block_ok_def group_wf_def blob_wf_def split: option.splits)
  qed
qed

lemma groups_read:
  assumes "never_fails a" and "4 + length (groups_body srv) < 2 ^ 32" and "\<forall>g \<in> set (groups srv). group_wf g"
  shows "parse_groups a (groups_body srv) = (instance_id srv, map (group_info_of srv) (groups srv))"
  using groups_wire[OF assms(2,3)] group_info.loop_decode[OF assms(1), of "map (group_info_of srv) (groups srv)" _ "[]"]
    of_nat_u32[of "length (map (group_info_of srv) (groups srv))"]
  by (simp add: parse_groups_def case_prod_beta)

interpretation list_groups: answered "\<lambda>e cr. dispatch_frame e cr EPI_MSG_GROUP_LIST []" EPI_MSG_GROUP_LIST_REPLY
  groups_body parse_groups "\<lambda>srv. (instance_id srv, map (group_info_of srv) (groups srv))" "\<lambda>_. True"
proof
  fix srv assume "srv_inv srv"
  then have wf: "\<forall>g \<in> set (groups srv). group_wf g" by (simp add: srv_inv_def inv_objs_def)
  show "dispatch_frame e cr EPI_MSG_GROUP_LIST [] srv =
      reply cr (conn_queue (e_mem e) (frame EPI_MSG_GROUP_LIST_REPLY (groups_body srv))) srv"
    if "never_fails (e_mem e)" for e cr
    using groups_queued[OF that wf] by (simp add: dispatch_frame_def handle_group_list_def msg_codes)
  show "parse_groups a (groups_body srv) = (instance_id srv, map (group_info_of srv) (groups srv))"
    if "never_fails a" "4 + length (groups_body srv) < 2 ^ 32" for a
    by (rule groups_read[OF that wf])
qed (simp add: msg_codes)

section \<open>PEEK\<close>

definition peek_tail :: "u64 \<Rightarrow> u32 \<Rightarrow> epi_server \<Rightarrow> byte list" where
  "peek_tail i m srv = (case find_session srv i False of None \<Rightarrow> []
     | Some s \<Rightarrow> lastn (unat m) (ring_contents (s_out s)))"

definition peek_size :: "u64 \<Rightarrow> epi_server \<Rightarrow> u64" where
  "peek_size i srv = (case find_session srv i False of None \<Rightarrow> 0 | Some s \<Rightarrow> word_of_nat (r_size (s_out s)))"

definition peek_body :: "u64 \<Rightarrow> u32 \<Rightarrow> epi_server \<Rightarrow> byte list" where
  "peek_body i m srv = le64 i @ enc_blob (peek_tail i m srv) @ le64 (peek_size i srv)"

definition peek_meaning :: "u64 \<Rightarrow> u32 \<Rightarrow> epi_server \<Rightarrow> byte list option \<times> nat \<times> u64" where
  "peek_meaning i m srv = (let t = peek_tail i m srv in
     (if t = [] then None else Some t, length t, peek_size i srv))"

interpretation peek_session: answered "\<lambda>e cr. dispatch_frame e cr EPI_MSG_PEEK (le64 i @ le32 m)" EPI_MSG_PEEK_REPLY
  "peek_body i m" parse_peek "peek_meaning i m" "\<lambda>srv. find_session srv i False \<noteq> None" for i m
proof
  fix srv assume inv: "srv_inv srv" and "find_session srv i False \<noteq> None"
  then obtain s where s: "find_session srv i False = Some s" by blast
  show "dispatch_frame e cr EPI_MSG_PEEK (le64 i @ le32 m) srv =
      reply cr (conn_queue (e_mem e) (frame EPI_MSG_PEEK_REPLY (peek_body i m srv))) srv"
    if "never_fails (e_mem e)" for e cr
    using peek_answer[OF inv that s, of cr m]
    by (simp add: dispatch_frame_def msg_codes peek_body_def peek_tail_def peek_size_def s)
  show "parse_peek a (peek_body i m srv) = peek_meaning i m srv"
    if a: "never_fails a" and len: "4 + length (peek_body i m srv) < 2 ^ 32" for a
  proof -
    let ?t = "peek_tail i m srv"
    define b where "b = (if ?t = [] then None else Some ?t, length ?t)"
    have ok: "block_ok b" "enc_block b = enc_blob ?t"
      using len by (auto simp: b_def block_ok_def enc_block_def peek_body_def enc_blob_def)
    have at: "rd_at (epi_rd_init (peek_body i m srv)) (le64 i @ enc_block b @ le64 (peek_size i srv))"
      unfolding ok(2) using rd_at_init[of "peek_body i m srv"] by (simp add: peek_body_def)
    note 1 = rd_u64_at[OF at]
    obtain r2 where 2: "epi_rd_blob a (epi_rd_init (peek_body i m srv)
        \<lparr>rd_pos := rd_pos (epi_rd_init (peek_body i m srv)) + 8\<rparr>) = (b, r2)" "rd_at r2 (le64 (peek_size i srv) @ [])"
      using rd_blob_at[OF a ok(1) 1(2)] by (metis append_Nil2 prod.collapse)
    show ?thesis using rd_at_more[OF 2(2)] rd_u64_at(1)[OF 2(2)]
      unfolding parse_peek_def 1(1) 2(1) prod.case b_def
      by (simp add: peek_meaning_def Let_def le64_def le32_def)
  qed
qed (simp add: msg_codes)

end
