(* ===== verification/Client_Create.thy ===== *)
theory Client_Create
  imports Client_Server
begin

text \<open>
  CREATE end to end: the request that the client builds for a new session is read by the daemon
  as the same working directory, vectors and file to execute, and the child is started with them.
\<close>

definition str_ok :: "byte list \<Rightarrow> bool" where
  "str_ok s \<longleftrightarrow> 0 \<notin> set s \<and> length s < 2 ^ 32"

definition enc_strs :: "byte list list \<Rightarrow> byte list" where
  "enc_strs ss = le32 (word_of_nat (length ss)) @ concat (map (\<lambda>s. enc_str (Some s)) ss)"

lemma put_strs_appends [buf_writes]: "buf_app b (put_strs a ss b) (enc_strs ss)"
  unfolding put_strs_def enc_strs_def
  by (rule appends_trans[OF put_u32_appends fold_writes[OF put_str_appends]])

lemma put_strs_oom [simp]: "never_fails a \<Longrightarrow> b_oom (put_strs a ss b) = b_oom b"
  by (simp add: put_strs_def fold_oom)

definition create_body :: "byte list option \<Rightarrow> byte list list \<Rightarrow> byte list list \<Rightarrow> byte list option \<Rightarrow> byte list" where
  "create_body cwd argvv envv exec = enc_str (Some (case cwd of Some w \<Rightarrow> w | None \<Rightarrow> [])) @ enc_strs argvv @
     enc_strs envv @ enc_str (Some (case exec of Some p \<Rightarrow> p | None \<Rightarrow> []))"

lemma create_request_bytes:
  assumes "never_fails a"
  shows "buf_bytes (create_request a cwd argvv envv exec) = frame EPI_MSG_CREATE (create_body cwd argvv envv exec)"
    and "buf_ok (create_request a cwd argvv envv exec)" "\<not> b_oom (create_request a cwd argvv envv exec)"
proof -
  let ?b = "epi_buf_put_str a (put_strs a envv (put_strs a argvv (epi_buf_put_str a (epi_msg_start a EPI_MSG_CREATE)
      (Some (case cwd of Some w \<Rightarrow> w | None \<Rightarrow> []))))) (Some (case exec of Some p \<Rightarrow> p | None \<Rightarrow> []))"
  have "buf_app (epi_msg_start a EPI_MSG_CREATE) ?b (create_body cwd argvv envv exec)"
    unfolding create_body_def append_assoc[symmetric]
    by (rule buf_steps buf_writes put_strs_appends[THEN appends_trans[rotated]])+
  moreover have "create_request a cwd argvv envv exec = epi_msg_end ?b" "\<not> b_oom ?b"
    using assms by (simp_all add: create_request_def Let_def)
  ultimately show "buf_bytes (create_request a cwd argvv envv exec) = frame EPI_MSG_CREATE (create_body cwd argvv envv exec)"
    "buf_ok (create_request a cwd argvv envv exec)" "\<not> b_oom (create_request a cwd argvv envv exec)"
    using msg_end_frame[of a EPI_MSG_CREATE ?b] by simp_all
qed

section \<open>The daemon's reading\<close>

lemma read_strs_at:
  assumes a: "never_fails a"
  shows "\<forall>s \<in> set ss. str_ok s \<Longrightarrow> rd_at r (concat (map (\<lambda>s. enc_str (Some s)) ss) @ rest) \<Longrightarrow>
    fst (read_strs a (length ss) r) = Some ss \<and> rd_at (snd (read_strs a (length ss) r)) rest"
proof (induction ss arbitrary: r)
  case (Cons s ss)
  obtain r1 where 1: "epi_rd_str a r = (Some s, r1)" "rd_at r1 (concat (map (\<lambda>s. enc_str (Some s)) ss) @ rest)"
    using rd_str_at[OF a, of s r] Cons.prems by (auto simp: str_ok_def) (metis prod.collapse)
  then show ?case using Cons.IH[OF _ 1(2)] Cons.prems by (auto split: prod.splits option.splits)
qed simp

lemma read_str_array_at:
  assumes a: "never_fails a" and ok: "\<forall>s \<in> set ss. str_ok s" "length ss \<le> 4096"
    and at: "rd_at r (enc_strs ss @ rest)"
  shows "fst (read_str_array a r) = (if ss = [] then None else Some ss) \<and> rd_at (snd (read_str_array a r)) rest"
proof -
  have n: "unat (word_of_nat (length ss) :: u32) = length ss" using ok(2) by (intro of_nat_u32) simp
  note 1 = rd_u32_at[OF at[unfolded enc_strs_def append_assoc]]
  have z: "(word_of_nat (length ss) = (0 :: u32)) = (ss = [])" and
    big: "\<not> (word_of_nat (length ss) :: u32) > 4096" using n ok(2)
    by (auto simp: word_less_nat_alt unat_eq_0[symmetric])
  have "a ((length ss + 1) * 8) \<noteq> None" using a by (simp add: never_fails_def)
  then show ?thesis
    using read_strs_at[OF a ok(1) 1(2)] rd_at_err[OF 1(2)] 1(2)
    unfolding read_str_array_def 1(1) prod.case z n using big by auto
qed

lemma enc_str_nonempty: "enc_str s \<noteq> []"
  by (simp add: enc_str_def Let_def le32_def)

lemma rd_result:
  assumes "fst p = x \<and> rd_at (snd p) bs"
  obtains r where "p = (x, r)" "rd_at r bs"
  using assms by (cases p) auto

text \<open>What the handler hands to the spawn.\<close>

definition given :: "byte list option \<Rightarrow> byte list option" where
  "given s = (case s of Some w \<Rightarrow> if w \<noteq> [] then Some w else None | None \<Rightarrow> None)"

lemma handle_create_reads:
  assumes a: "never_fails (e_mem e)" and "str_ok w" "\<forall>s \<in> set argvv. str_ok s" "\<forall>s \<in> set envv. str_ok s" "str_ok x"
    and n: "length argvv \<le> 4096" "length envv \<le> 4096"
    and w: "w = (case cwd of Some w \<Rightarrow> w | None \<Rightarrow> [])" and x: "x = (case exec of Some p \<Rightarrow> p | None \<Rightarrow> [])"
    and sp: "epi_session_spawn (e_spawn e) (next_ref srv) (if w \<noteq> [] then Some w else None)
      (if argvv = [] then None else Some argvv) (if envv = [] then None else Some envv) (Some x) = (Some s, es)"
    and ep: "e_ep_ok e"
  shows "\<exists>srv2. handle_create e cr (epi_rd_init (create_body cwd argvv envv exec)) srv =
      reply cr (conn_queue (e_mem e) (frame EPI_MSG_ID (le64 (next_id srv + 1)))) srv2 \<and>
    conns srv2 = conns srv \<and> sessions srv2 = s\<lparr>s_id := next_id srv + 1\<rparr> # sessions srv \<and> sys srv2 = sys srv @ es"
proof -
  let ?a = "e_mem e"
  have at: "rd_at (epi_rd_init (create_body cwd argvv envv exec)) (enc_str (Some w) @ enc_strs argvv @ enc_strs envv @ enc_str (Some x))"
    using rd_at_init[of "create_body cwd argvv envv exec"] unfolding create_body_def w x by simp
  obtain r1 where 1: "epi_rd_str ?a (epi_rd_init (create_body cwd argvv envv exec)) = (Some w, r1)"
    "rd_at r1 (enc_strs argvv @ enc_strs envv @ enc_str (Some x))"
    by (rule rd_result[OF rd_str_at[OF a _ _ at]]) (use assms(2) in \<open>simp_all add: str_ok_def\<close>)
  obtain r2 where 2: "read_str_array ?a r1 = ((if argvv = [] then None else Some argvv), r2)"
    "rd_at r2 (enc_strs envv @ enc_str (Some x))"
    by (rule rd_result[OF read_str_array_at[OF a assms(3) n(1) 1(2)]])
  obtain r3 where 3: "read_str_array ?a r2 = ((if envv = [] then None else Some envv), r3)" "rd_at r3 (enc_str (Some x) @ [])"
    by (rule rd_result[OF read_str_array_at[OF a assms(4) n(2) 2(2)]]) simp
  obtain r4 where 4: "epi_rd_str ?a r3 = (Some x, r4)" "rd_at r4 []"
    by (rule rd_result[OF rd_str_at[OF a _ _ 3(2)]]) (use assms(5) in \<open>simp_all add: str_ok_def\<close>)
  have more: "\<not> rd_err r3 \<and> rd_pos r3 < rd_len r3" using rd_at_more[OF 3(2)] enc_str_nonempty by simp
  have qf: "conn_queue_frame ?a (epi_msg_end (epi_buf_put_u64 ?a (epi_msg_start ?a EPI_MSG_ID) i))
      = conn_queue ?a (frame EPI_MSG_ID (le64 i))" for i
    by (rule queue_reply[OF put_u64_appends]) (simp add: a)
  let ?i = "next_id srv + 1" and ?s = "s\<lparr>s_id := next_id srv + 1\<rparr>"
  let ?srv1 = "(emit es srv)\<lparr>next_id := ?i, ids_issued := ids_issued srv + 1,
      next_ref := next_ref srv + 1, sessions := ?s # sessions srv\<rparr>"
  have "handle_create e cr (epi_rd_init (create_body cwd argvv envv exec)) srv =
      reply cr (conn_queue ?a (frame EPI_MSG_ID (le64 ?i)))
        (?srv1\<lparr>interest := (interest ?srv1)(s_pty_master ?s \<mapsto> False)\<rparr>)"
    unfolding handle_create_def Let_def 1(1) prod.case 2(1) 3(1) if_P[OF more] 4(1) if_not_P[OF rd_at_err[OF 4(2)]] option.case sp
      option.case ep_add_def if_P[OF ep] qf by (simp only: sp prod.case option.case simp_thms if_False)
  then show ?thesis by (intro exI conjI) (assumption, simp_all add: emit_def)
qed

section \<open>The child\<close>

lemma serves_conns:
  assumes "srv_inv srv" and "never_fails a" and "serves h cr srv l"
    and "h srv = reply cr (conn_queue a bs) srv2" and "conns srv2 = conns srv"
  shows "\<exists>rest. stream_of (l_reads l) = bs @ rest"
proof -
  have "conn_at (h srv) cr = conn_at (reply cr (conn_queue a bs) srv) cr"
    using queue_keep[of a bs] assms(5) unfolding assms(4)
    by (subst (1 2) conn_at_quiet) (simp_all add: conn_keep_def same_conn_def conn_at_def)
  then have "serves (reply cr (conn_queue a bs)) cr srv l" using assms(3) by (simp add: serves_def)
  then show ?thesis using serves_reply[OF assms(1,2), of "reply cr (conn_queue a bs)" cr l bs] by simp
qed

lemma spawn_succeeds:
  assumes "never_fails (sp_mem e)" and "sp_fork e = Some (pid, master)" and "sp_flags_ok e"
  shows "\<exists>s. epi_session_spawn e ref cwd argv env x =
      (Some s, [Exec pid (spawn_child e (case cwd of Some c \<Rightarrow> if c \<noteq> [] then Some c else default_cwd e
                                         | None \<Rightarrow> default_cwd e) argv env x)]) \<and>
    s_pid s = pid \<and> s_ref s = ref"
proof -
  have "snd (epi_ring_init (sp_mem e) EPI_RING_CAP) = 0"
    using assms(1) by (auto simp: epi_ring_init_def Let_def split: option.split)
  then obtain r where "epi_ring_init (sp_mem e) EPI_RING_CAP = (r, 0)" by (metis prod.collapse)
  moreover have "sp_mem e sizeof_epi_session \<noteq> None" using assms(1) by (simp add: never_fails_def)
  ultimately show ?thesis using assms(2,3) by (simp add: epi_session_spawn_def Let_def)
qed

text \<open>The shell that the settings name: the configured one, or the system default.\<close>

definition configured_shell :: "client \<Rightarrow> byte list" where
  "configured_shell c = (if k_shell_path (cl_settings c) = [] then epimone_client_default_shell (cl_host c)
                         else k_shell_path (cl_settings c))"

definition wants_shell :: "client \<Rightarrow> bool" where
  "wants_shell c \<longleftrightarrow> \<not> (k_use_custom_command (cl_settings c) \<and> k_custom_command (cl_settings c) \<noteq> [])"

definition shell_argv0 :: "client \<Rightarrow> byte list" where
  "shell_argv0 c = (if k_login_shell (cl_settings c)
     then lit ''-'' @ gl_basename (cl_glib c) (configured_shell c) else configured_shell c)"

lemma inject_extends:
  "\<exists>more_args more_env. inject_shell_integration g h argvv envv shell login = (b, argvv', envv') \<longrightarrow>
     argvv' = argvv @ more_args \<and> envv' = envv @ more_env"
  by (auto simp: inject_shell_integration_def Let_def split: option.splits if_splits)

lemma default_shell_nonempty: "epimone_client_default_shell h \<noteq> []"
  by (auto simp: epimone_client_default_shell_def Let_def lit_def split: option.splits if_splits)

lemma shell_spawn_shape:
  assumes "wants_shell c"
  shows "\<exists>args envv. build_session_spawn c = Inr (shell_argv0 c # args, envv,
    if k_login_shell (cl_settings c) then Some (configured_shell c) else None)"
proof -
  let ?k = "cl_settings c" and ?sh = "configured_shell c"
  let ?a0 = "if k_login_shell ?k then [lit ''-'' @ gl_basename (cl_glib c) ?sh] else [?sh]"
  obtain b argvv envv where i: "inject_shell_integration (cl_glib c) (cl_host c) ?a0 [] ?sh (k_login_shell ?k) = (b, argvv, envv)"
    by (cases "inject_shell_integration (cl_glib c) (cl_host c) ?a0 [] ?sh (k_login_shell ?k)")
  then obtain args where "argvv = ?a0 @ args" using inject_extends by metis
  then show ?thesis using assms i
    by (auto simp: build_session_spawn_def wants_shell_def Let_def configured_shell_def shell_argv0_def)
qed

text \<open>C11. Creating a session works end to end. The daemon reads from the client's CREATE frame the
  same directory, arguments, environment and executable; when it can fork, it starts a child whose
  executable is the configured shell, whose argv[0] is that shell, or a dash and its base name in
  login mode, in the requested directory; the new session heads its list; and the client gets the
  new session's id back.\<close>

theorem create_starts_the_configured_shell:
  assumes shell: "wants_shell c" "build_session_spawn c = Inr (argvv, envv, exec)"
    and strs: "\<forall>s \<in> set (argvv @ envv). str_ok s" "str_ok w" "w \<noteq> []" "str_ok (configured_shell c)"
    and few: "length argvv \<le> 4096" "length envv \<le> 4096"
    and mem: "never_fails (cl_mem c)" "never_fails (e_mem e)" "never_fails (sp_mem (e_spawn e))"
    and os: "sp_fork (e_spawn e) = Some (pid, master)" "sp_flags_ok (e_spawn e)" "e_ep_ok e"
    and inv: "srv_inv srv"
    and link: "delivers c l (create_request (cl_mem c) (Some w) argvv envv exec)"
      "serves (dispatch_frame e cr EPI_MSG_CREATE (create_body (Some w) argvv envv exec)) cr srv l"
  shows "\<exists>s srv' img. srv' = dispatch_frame e cr EPI_MSG_CREATE (create_body (Some w) argvv envv exec) srv \<and>
    epimone_client_create_session c l (Some w) = (Inr (next_id srv + 1),
      [Opened, Wrote (frame EPI_MSG_CREATE (create_body (Some w) argvv envv exec)), Closed]) \<and>
    sessions srv' = s # sessions srv \<and> s_id s = next_id srv + 1 \<and> s_pid s = pid \<and>
    sys srv' = sys srv @ [Exec pid img] \<and> ch_exec img = configured_shell c \<and>
    ch_argv img = argvv \<and> hd argvv = shell_argv0 c \<and> ch_chdir img = Some w \<and>
    ch_env img = ensure_term (fold putenv envv (sp_environ (e_spawn e)))"
proof -
  let ?body = "create_body (Some w) argvv envv exec"
  let ?x = "case exec of Some p \<Rightarrow> p | None \<Rightarrow> []"
  let ?env = "if envv = [] then None else Some envv"
  define img where "img = spawn_child (e_spawn e) (Some w) (Some argvv) ?env (Some ?x)"
  obtain args where args: "argvv = shell_argv0 c # args"
    "exec = (if k_login_shell (cl_settings c) then Some (configured_shell c) else None)"
    using shell_spawn_shape[OF shell(1)] shell(2) by auto
  have ne: "configured_shell c \<noteq> []" using default_shell_nonempty by (simp add: configured_shell_def)
  obtain s where sp: "epi_session_spawn (e_spawn e) (next_ref srv) (Some w) (Some argvv) ?env (Some ?x) = (Some s, [Exec pid img])"
    and s: "s_pid s = pid"
    using spawn_succeeds[OF mem(3) os(1,2), of "next_ref srv" "Some w" "Some argvv" ?env "Some ?x"] strs(3)
    by (auto simp: img_def)
  have spawn: "epi_session_spawn (e_spawn e) (next_ref srv) (if w \<noteq> [] then Some w else None)
      (if argvv = [] then None else Some argvv) ?env (Some ?x) = (Some s, [Exec pid img])"
    using sp strs(3) args(1) by simp
  have x: "str_ok ?x" using strs(4) args(2) by (simp add: str_ok_def)
  have ok: "\<forall>s \<in> set argvv. str_ok s" "\<forall>s \<in> set envv. str_ok s" using strs(1) by auto
  have w: "w = (case Some w of Some w \<Rightarrow> w | None \<Rightarrow> [])" by simp
  obtain srv2 where h: "handle_create e cr (epi_rd_init ?body) srv =
      reply cr (conn_queue (e_mem e) (frame EPI_MSG_ID (le64 (next_id srv + 1)))) srv2"
    "conns srv2 = conns srv" "sessions srv2 = s\<lparr>s_id := next_id srv + 1\<rparr> # sessions srv"
    "sys srv2 = sys srv @ [Exec pid img]"
    using handle_create_reads[OF mem(2) strs(2) ok x few w refl spawn os(3), of cr] by blast
  have d: "dispatch_frame e cr EPI_MSG_CREATE ?body srv =
      reply cr (conn_queue (e_mem e) (frame EPI_MSG_ID (le64 (next_id srv + 1)))) srv2"
    using h(1) by (simp add: dispatch_frame_def)
  obtain rest where stream: "stream_of (l_reads l) = frame EPI_MSG_ID (le64 (next_id srv + 1)) @ rest"
    using serves_conns[OF inv mem(2) link(2) d h(2)] by blast
  have "transact c l (create_request (cl_mem c) (Some w) argvv envv exec) EPI_MSG_ID
      (\<lambda>body. fst (epi_rd_u64 (epi_rd_init body))) =
      (Inr (next_id srv + 1), [Opened, Wrote (frame EPI_MSG_CREATE ?body), Closed])"
    using transact_delivers[OF link(1) stream, of "\<lambda>body. fst (epi_rd_u64 (epi_rd_init body))"] create_request_bytes(1)[OF mem(1)]
      rd_u64_at(1)[of "epi_rd_init (le64 (next_id srv + 1))" "next_id srv + 1" "[]"] rd_at_init
    by (simp add: msg_codes)
  then have "epimone_client_create_session c l (Some w) =
      (Inr (next_id srv + 1), [Opened, Wrote (frame EPI_MSG_CREATE ?body), Closed])"
    by (simp add: epimone_client_create_session_def shell(2))
  moreover have "ch_exec img = configured_shell c" "ch_argv img = argvv" "ch_chdir img = Some w"
    "ch_env img = ensure_term (fold putenv envv (sp_environ (e_spawn e)))"
    using args ne by (simp_all add: img_def spawn_child_def Let_def shell_argv0_def)
  moreover have "sys (reply cr f srv2) = sys srv2" "sessions (reply cr f srv2) = sessions srv2" for f
    by (simp_all add: on_conn_def quiet_def emit_def split: option.split)
  ultimately show ?thesis using d h s args(1) by (intro exI[of _ "s\<lparr>s_id := next_id srv + 1\<rparr>"] exI[of _ "dispatch_frame e cr EPI_MSG_CREATE ?body srv"]
        exI[of _ img]) simp
qed

end
