(* ===== verification/Client_Props.thy ===== *)
theory Client_Props
  imports Client_Create Daemon_Main
begin

text \<open>
  The client's promises to the GUI: it sees the daemon's sessions, groups and scrollback as they
  are, finds the daemon's socket, names the foreground command, and bounds what a malformed reply
  can make it do.
\<close>

section \<open>Concrete inputs\<close>

fun join_slash :: "byte list list \<Rightarrow> byte list" where
  "join_slash [] = []"
| "join_slash [p] = p"
| "join_slash (p # ps) = p @ [slash] @ join_slash ps"

definition demo_glib :: glib where
  "demo_glib = \<lparr>gl_build_filename = join_slash,
     gl_basename = (\<lambda>p. case after_last slash p of Some b \<Rightarrow> b | None \<Rightarrow> p),
     gl_dirname = (\<lambda>_. lit ''/usr/bin''), gl_shell_parse_argv = (\<lambda>c. Some [c]),
     gl_strchomp = filter (\<lambda>b. b \<noteq> 10),
     gl_strtoll = (\<lambda>s. foldl (\<lambda>n d. n * 10 + (uint d - 48)) 0 (takeWhile (\<lambda>b. 48 \<le> b \<and> b \<le> 57) s))\<rparr>"

definition demo_host :: host where
  "demo_host = \<lparr>h_getenv = [lit ''SHELL'' \<mapsto> lit ''/bin/bash''], h_uid = 1000, h_pw_shell = None,
     h_home = lit ''/h'', h_exe = None, h_is_executable = (\<lambda>_. False), h_is_dir = (\<lambda>_. False),
     h_contents = [lit ''/proc/42/stat'' \<mapsto> lit ''42 (a) b) S 1 42 42 34816 77 4194304'',
                   lit ''/proc/77/comm'' \<mapsto> lit ''vim'' @ [10]],
     h_integration_src = None\<rparr>"

definition demo_client :: client where
  "demo_client = \<lparr>cl_glib = demo_glib, cl_host = demo_host, cl_mem = alloc_ok,
     cl_settings = \<lparr>k_use_custom_command = False, k_custom_command = [], k_shell_path = [],
                    k_login_shell = True, k_launch_command = []\<rparr>\<rparr>"

definition demo_link :: "(epi_server \<Rightarrow> epi_server) \<Rightarrow> link" where
  "demo_link h = \<lparr>l_socket = True, l_connect = True, l_writes = [W_ok 1000],
     l_reads = [Rd (out_bytes (the (conn_at (h demo_srv) 1)))]\<rparr>"

lemma demo_serves:
  assumes "h = dispatch_frame e 1 t body"
  shows "serves h 1 demo_srv (demo_link h)"
proof -
  have "map c_ref (conns (h demo_srv)) = map c_ref (conns demo_srv)"
    using crefs_of_ckeys[OF dispatch_keys(1)[of e 1 t body demo_srv]] by (simp add: assms crefs_def)
  then have "1 \<in> c_ref ` set (conns (h demo_srv))"
    by (metis (no_types) demo_conn_at conn_atD image_eqI list.set_map)
  then obtain d where "conn_at (h demo_srv) 1 = Some d"
    by (cases "conn_at (h demo_srv) 1") (auto simp: conn_at_def find_None_iff)
  moreover have "out_bytes (new_conn 1 20) = []" by (simp add: out_bytes_def new_conn_def bytes_at_def)
  ultimately show ?thesis using demo_conn_at by (auto simp: serves_def demo_link_def)
qed

lemma demo_delivers:
  assumes "buf_ok b" and "\<not> b_oom b" and "length (buf_bytes b) \<le> 1000"
  shows "delivers demo_client (demo_link h) b"
proof -
  have "b_len b \<le> 1000" using assms(1,3) by (simp add: buf_ok_def buf_bytes_def)
  then have "snd (write_all [W_ok 1000] 0 (b_len b))" by (simp add: write_all.simps)
  moreover have "length (decimal 1000) = 4" by (simp add: decimal.simps)
  ultimately show ?thesis using assms(2)
    by (simp add: delivers_def demo_client_def demo_link_def demo_host_def epimone_client_socket_path_def
        sun_path_size_def EPIMONE_SOCKET_NAME_def lit_def)
qed

lemma demo_parts [simp]: "cl_mem demo_client = alloc_ok" "e_mem demo_env = alloc_ok"
  by (simp_all add: demo_client_def demo_env_def)

lemma demo_request: "delivers demo_client (demo_link h) (empty_request alloc_ok t)"
proof (rule demo_delivers)
  have f: "buf_bytes (empty_request alloc_ok t) = frame t [] \<and> buf_ok (empty_request alloc_ok t)"
    unfolding empty_request_def by (rule msg_end_frame[OF appends_refl]) simp
  then show "buf_ok (empty_request alloc_ok t)" "length (buf_bytes (empty_request alloc_ok t)) \<le> 1000"
    by (simp_all add: frame_def)
qed (simp add: empty_request_def)

section \<open>What the client sees\<close>

text \<open>C12. LIST end to end: whatever the reads and writes cut the bytes into, the client gets one entry
  per session that is not removed, in the daemon's order, with its id, pid, liveness, attachment,
  creation time and directory, and the daemon's instance id behind them.\<close>

theorem client_sees_the_daemons_sessions:
  assumes "srv_inv srv" and "never_fails (e_mem e)" and "never_fails (cl_mem c)"
    and "delivers c l (empty_request (cl_mem c) EPI_MSG_LIST)"
    and "serves (dispatch_frame e cr EPI_MSG_LIST []) cr srv l" and "4 + length (list_body srv) < 2 ^ 32"
  shows "epimone_client_list_sessions c l = (Inr (map info_of (filter (\<lambda>s. \<not> s_removed s) (sessions srv))),
      [Opened, Wrote (frame EPI_MSG_LIST []), Closed]) \<and>
    epimone_client_instance_id c l = (Inr (instance_id srv), [Opened, Wrote (frame EPI_MSG_LIST []), Closed])"
  using list_sessions.end_to_end[OF assms(1) TrueI assms(2,3,6,4,5)]
    list_instance.end_to_end[OF assms(1) TrueI assms(2,3,6,4,5)] empty_request_bytes[OF assms(3)]
  by (simp add: epimone_client_list_sessions_def epimone_client_instance_id_def shown_def)

lemma demo_sessions: "map info_of (filter (\<lambda>s. \<not> s_removed s) (sessions demo_srv)) =
    [\<lparr>si_id = 1, si_pid = 500, si_alive = True, si_attached = True, si_created_at = 7, si_cwd = lit ''/home''\<rparr>]"
  by (simp add: demo_srv_def demo_sess_def info_of_def lit_def cstr_def)

theorem client_sees_the_daemons_sessions_witness:
  "\<exists>l. epimone_client_list_sessions demo_client l =
     (Inr [\<lparr>si_id = 1, si_pid = 500, si_alive = True, si_attached = True, si_created_at = 7, si_cwd = lit ''/home''\<rparr>],
      [Opened, Wrote (frame EPI_MSG_LIST []), Closed])"
proof -
  let ?l = "demo_link (dispatch_frame demo_env 1 EPI_MSG_LIST [])"
  have "4 + length (list_body demo_srv) < 2 ^ 32"
    by (simp add: list_body_def shown_def demo_srv_def demo_sess_def enc_info_def enc_str_def lit_def cstr_def)
  then have "fst (epimone_client_list_sessions demo_client ?l) = Inr (map info_of (filter (\<lambda>s. \<not> s_removed s) (sessions demo_srv)))
      \<and> snd (epimone_client_list_sessions demo_client ?l) = [Opened, Wrote (frame EPI_MSG_LIST []), Closed]"
    using client_sees_the_daemons_sessions[OF demo_inv, of demo_env demo_client ?l 1]
      demo_request[of "dispatch_frame demo_env 1 EPI_MSG_LIST []" EPI_MSG_LIST] demo_serves[OF refl] by simp
  then show ?thesis unfolding demo_sessions by (metis prod.collapse)
qed

text \<open>C13. GROUP_LIST end to end: the client gets the daemon's instance id and every group, in order,
  with its id, creation time, the blob byte for byte as it was stored and the ids of its visible
  member sessions.\<close>

theorem client_sees_the_daemons_groups:
  assumes "srv_inv srv" and "never_fails (e_mem e)" and "never_fails (cl_mem c)"
    and "delivers c l (empty_request (cl_mem c) EPI_MSG_GROUP_LIST)"
    and "serves (dispatch_frame e cr EPI_MSG_GROUP_LIST []) cr srv l" and "4 + length (groups_body srv) < 2 ^ 32"
  shows "fst (epimone_client_list_groups c l) = Inr (instance_id srv, map (\<lambda>g.
      \<lparr>gi_id = g_id g, gi_created_at = sint (word_of_int (g_created_at g) :: u64), gi_blob = g_blob g,
       gi_blob_len = g_blob_len g,
       gi_members = map s_id (filter (\<lambda>s. session_in_group s (g_id g)) (sessions srv))\<rparr>) (groups srv))"
  using list_groups.end_to_end[OF assms(1) TrueI assms(2,3,6,4,5)]
  by (simp add: epimone_client_list_groups_def group_info_of_def[abs_def] members_of_def)

theorem client_sees_the_daemons_groups_witness:
  "\<exists>l. fst (epimone_client_list_groups demo_client l) =
     Inr (9, [\<lparr>gi_id = 1, gi_created_at = 3, gi_blob = Some [5], gi_blob_len = 1, gi_members = [1]\<rparr>])"
proof -
  let ?l = "demo_link (dispatch_frame demo_env 1 EPI_MSG_GROUP_LIST [])"
  have "4 + length (groups_body demo_srv) < 2 ^ 32"
    by (simp add: groups_body_def demo_srv_def demo_sess_def empty_server_def enc_group_info_def group_info_of_def
        members_of_def session_in_group_def enc_block_def enc_blob_def)
  then show ?thesis
    using client_sees_the_daemons_groups[OF demo_inv, of demo_env demo_client ?l 1]
      demo_request[of "dispatch_frame demo_env 1 EPI_MSG_GROUP_LIST []" EPI_MSG_GROUP_LIST] demo_serves[OF refl]
    by (intro exI[of _ ?l]) (simp add: demo_srv_def demo_sess_def empty_server_def session_in_group_def)
qed

definition peek_request :: "allocator \<Rightarrow> u64 \<Rightarrow> u32 \<Rightarrow> epi_buf" where
  "peek_request a i m = epi_msg_end (epi_buf_put_u32 a (epi_buf_put_u64 a (epi_msg_start a EPI_MSG_PEEK) i) m)"

text \<open>PEEK end to end: the client gets the last \<open>max_bytes\<close> bytes of the session's scrollback
  (NULL when there are none), their number, and the size of the whole scrollback, without attaching.\<close>

theorem client_peek_sees_the_tail:
  assumes "srv_inv srv" and "find_session srv i False = Some s"
    and "never_fails (e_mem e)" and "never_fails (cl_mem c)"
    and "delivers c l (peek_request (cl_mem c) i m)"
    and "serves (dispatch_frame e cr EPI_MSG_PEEK (le64 i @ le32 m)) cr srv l"
  shows "fst (epimone_client_peek_session c l i m) =
    Inr (let t = lastn (unat m) (ring_contents (s_out s)) in
         (if t = [] then None else Some t, length t, word_of_nat (r_size (s_out s))))"
proof -
  have ring: "ring_inv (s_out s)" "r_max_cap (s_out s) = EPI_RING_CAP"
    using find_sessionD[OF assms(2)] live_at(2)[OF assms(1)] by (auto simp: sess_ok_def)
  have "length (peek_tail i m srv) \<le> EPI_RING_CAP"
    using ring ring_contents_length[OF ring(1)] assms(2) by (auto simp: peek_tail_def ring_inv_def)
  then have "4 + length (peek_body i m srv) < 2 ^ 32"
    by (simp add: peek_body_def enc_blob_def EPI_RING_CAP_def)
  then have "transact c l (peek_request (cl_mem c) i m) EPI_MSG_PEEK_REPLY (parse_peek (cl_mem c)) =
      (Inr (peek_meaning i m srv), [Opened, Wrote (buf_bytes (peek_request (cl_mem c) i m)), Closed])"
    using assms(2) by (intro peek_session.end_to_end[OF assms(1) _ assms(3,4) _ assms(5,6)]) simp_all
  then show ?thesis
    by (simp add: epimone_client_peek_session_def peek_request_def peek_meaning_def peek_tail_def peek_size_def
        assms(2) Let_def)
qed

theorem client_peek_sees_the_tail_witness:
  "\<exists>l. fst (epimone_client_peek_session demo_client l 1 2) = Inr (Some [105, 33], 2, 3)"
proof -
  let ?h = "dispatch_frame demo_env 1 EPI_MSG_PEEK (le64 1 @ le32 2)"
  let ?b = "epi_buf_put_u32 alloc_ok (epi_buf_put_u64 alloc_ok (epi_msg_start alloc_ok EPI_MSG_PEEK) 1) 2"
  have "buf_app (epi_msg_start alloc_ok EPI_MSG_PEEK) ?b (le64 1 @ le32 2)"
    by (rule buf_steps buf_writes)+
  from msg_end_frame[OF this]
  have "buf_bytes (peek_request alloc_ok 1 2) = frame EPI_MSG_PEEK (le64 1 @ le32 2)" "buf_ok (peek_request alloc_ok 1 2)"
    "\<not> b_oom (peek_request alloc_ok 1 2)"
    by (simp_all add: peek_request_def)
  then have "delivers demo_client (demo_link ?h) (peek_request (cl_mem demo_client) 1 2)"
    using demo_delivers by (simp add: frame_def)
  from client_peek_sees_the_tail[OF demo_inv demo_find _ _ this demo_serves[OF refl]]
  have "fst (epimone_client_peek_session demo_client (demo_link ?h) 1 2) =
    Inr (let t = lastn 2 (ring_contents (s_out demo_sess)) in
         (if t = [] then None else Some t, length t, word_of_nat (r_size (s_out demo_sess))))" by simp
  also have "\<dots> = Inr (Some [105, 33], 2, 3)"
    by (simp add: demo_sess_def demo_out_def ring_contents_def bytes_at_def lastn_def Let_def)
  finally show ?thesis by blast
qed

theorem create_starts_the_configured_shell_witness:
  "\<exists>l. fst (epimone_client_create_session demo_client l (Some (lit ''/h''))) = Inr 2 \<and>
     (\<exists>img. Exec 600 img \<in> set (sys (dispatch_frame demo_env 1 EPI_MSG_CREATE
              (create_body (Some (lit ''/h'')) [lit ''-bash''] [] (Some (lit ''/bin/bash''))) demo_srv)) \<and>
       ch_exec img = lit ''/bin/bash'' \<and> ch_argv img = [lit ''-bash''])"
proof -
  let ?body = "create_body (Some (lit ''/h'')) [lit ''-bash''] [] (Some (lit ''/bin/bash''))"
  let ?req = "create_request alloc_ok (Some (lit ''/h'')) [lit ''-bash''] [] (Some (lit ''/bin/bash''))"
  let ?h = "dispatch_frame demo_env 1 EPI_MSG_CREATE ?body"
  have shell: "configured_shell demo_client = lit ''/bin/bash''" "wants_shell demo_client"
    by (simp_all add: configured_shell_def demo_client_def demo_host_def epimone_client_default_shell_def lit_def
        wants_shell_def)
  have base: "gl_basename demo_glib (lit ''/bin/bash'') = lit ''bash''"
    by (simp add: demo_glib_def after_last_def lit_def)
  have build: "build_session_spawn demo_client = Inr ([lit ''-bash''], [], Some (lit ''/bin/bash''))"
    using shell base
    by (simp add: build_session_spawn_def configured_shell_def wants_shell_def Let_def demo_client_def
        inject_shell_integration_def find_shell_integration_dir_def demo_host_def)
      (simp add: lit_def)
  note req = create_request_bytes[of alloc_ok "Some (lit ''/h'')" "[lit ''-bash'']" "[]" "Some (lit ''/bin/bash'')", simplified]
  have body: "length ?body \<le> 100" by (simp add: create_body_def enc_strs_def enc_str_def cstr_def lit_def)
  have "delivers demo_client (demo_link ?h) ?req"
    using demo_delivers[OF req(2,3)] req(1) body by (simp add: frame_def)
  moreover have "\<forall>s \<in> set ([lit ''-bash''] @ []). str_ok s" "str_ok (lit ''/h'')" "lit ''/h'' \<noteq> []"
    "str_ok (configured_shell demo_client)"
    unfolding shell(1) by (simp_all add: str_ok_def lit_def)
  ultimately show ?thesis
    using create_starts_the_configured_shell[OF shell(2) build, of "lit ''/h''" demo_env 600 11 demo_srv "demo_link ?h" 1]
      demo_inv demo_serves[OF refl, of demo_env EPI_MSG_CREATE ?body] shell(1)
    by (intro exI[of _ "demo_link ?h"]) (auto simp: demo_env_def demo_spawn_def demo_srv_def)
qed

section \<open>Malformed replies\<close>

text \<open>Unless it fails, the reader moves the cursor by at least \<open>k\<close> bytes.\<close>

definition advances :: "nat \<Rightarrow> (allocator \<Rightarrow> epi_rd \<Rightarrow> 'v \<times> epi_rd) \<Rightarrow> bool" where
  "advances k d \<longleftrightarrow> (\<forall>a r. \<not> rd_err (snd (d a r)) \<longrightarrow> rd_pos r + k \<le> rd_pos (snd (d a r)))"

lemma advances_seq:
  assumes "advances j d1" and "\<And>v. advances k (d2 v)" and "\<And>v. reader (d2 v)"
  shows "advances (j + k) (\<lambda>a r. case d1 a r of (v, r1) \<Rightarrow> d2 v a r1)"
  unfolding advances_def
proof (intro allI impI)
  fix a r
  obtain v r1 where 1: "d1 a r = (v, r1)" by (cases "d1 a r")
  assume "\<not> rd_err (snd (case d1 a r of (v, r1) \<Rightarrow> d2 v a r1))"
  then have 2: "\<not> rd_err (snd (d2 v a r1))" using 1 by simp
  then have "\<not> rd_err r1" using reader.sticky[OF assms(3)] by blast
  then have "rd_pos r + j \<le> rd_pos r1" using assms(1) 1 by (auto simp: advances_def dest!: spec[of _ a] spec[of _ r])
  moreover have "rd_pos r1 + k \<le> rd_pos (snd (d2 v a r1))" using assms(2)[of v] 2 by (simp add: advances_def)
  ultimately show "rd_pos r + (j + k) \<le> rd_pos (snd (case d1 a r of (v, r1) \<Rightarrow> d2 v a r1))" using 1 by simp
qed

lemma advances_return: "advances 0 (\<lambda>a r. (v, r))"
  by (simp add: advances_def)

lemma advances_basic:
  "advances 1 (\<lambda>_. epi_rd_u8)" "advances 4 (\<lambda>_. epi_rd_u32)" "advances 8 (\<lambda>_. epi_rd_u64)"
  by (auto simp: advances_def epi_rd_u8_def epi_rd_u32_def epi_rd_u64_def split: if_splits)

lemma advances_str: "advances 4 epi_rd_str"
  unfolding advances_def
proof (intro allI impI)
  fix a r assume e: "\<not> rd_err (snd (epi_rd_str a r))"
  obtain n r1 where u: "epi_rd_u32 r = (n, r1)" by (cases "epi_rd_u32 r")
  have "\<not> rd_err r1 \<and> rd_pos r1 \<le> rd_pos (snd (epi_rd_str a r))"
    using e u by (auto simp: epi_rd_str_def Let_def split: option.splits if_splits)
  moreover have "\<not> rd_err r1 \<Longrightarrow> rd_pos r + 4 \<le> rd_pos r1"
    using advances_basic(2) u unfolding advances_def by (metis snd_conv)
  ultimately show "rd_pos r + 4 \<le> rd_pos (snd (epi_rd_str a r))" by simp
qed

lemma rd_session_info_advances: "advances 26 rd_session_info"
proof -
  have "advances (8 + (4 + (1 + (1 + (8 + (4 + 0)))))) rd_session_info"
    unfolding rd_session_info_def[abs_def]
    by (intro advances_seq advances_basic advances_str advances_return reader_seq reader_return basic_readers)
  then show ?thesis by simp
qed

lemma rd_loop_bound:
  assumes dec: "reader dec" and step: "advances k dec"
    and "0 < k" and "rd_ok r"
  shows "length (fst (rd_loop (dec a) n r)) \<le> (rd_len r - rd_pos r) div k + 1"
  using assms(4)
proof (induction n arbitrary: r)
  case (Suc n)
  let ?r1 = "snd (dec a r)"
  have ok: "rd_ok ?r1" "rd_len ?r1 = rd_len r"
    using reader.bounded[OF dec Suc.prems] reader.data[OF dec] by simp_all
  show ?case
  proof (cases "rd_err r \<or> rd_err ?r1")
    case True
    then show ?thesis by (cases n) auto
  next
    case False
    then have p: "rd_pos r + k \<le> rd_pos ?r1" using step by (simp add: advances_def)
    have "(rd_len r - rd_pos ?r1) div k + 1 \<le> (rd_len r - rd_pos r) div k"
    proof -
      have "(rd_len r - rd_pos ?r1 + k) div k \<le> (rd_len r - rd_pos r) div k"
        using p ok by (intro div_le_mono) (simp add: rd_ok_def)
      then show ?thesis using \<open>0 < k\<close> by (simp add: div_add_self2)
    qed
    then show ?thesis using Suc.IH[OF ok(1)] ok(2) False by simp
  qed
qed simp

text \<open>A reply cannot make the client build more session entries than its length allows: however
  large the count that a LIST reply claims, the client stops at the first entry that is not there
  and keeps at most one entry for every 26 bytes, and one more.\<close>

theorem malformed_list_is_bounded:
  "length (parse_sessions a body) \<le> length body div 26 + 1"
proof -
  obtain n r where u: "epi_rd_u32 (epi_rd_init body) = (n, r)" by (cases "epi_rd_u32 (epi_rd_init body)")
  have "rd_ok (epi_rd_init body)" by (simp add: epi_rd_init_def rd_ok_def)
  from rd32.bounded[OF this] rd32.data[of "epi_rd_init body"]
  have r: "rd_ok r" "rd_data r = body" using u by (simp_all add: epi_rd_init_def)
  have "length (parse_sessions a body) \<le> (rd_len r - rd_pos r) div 26 + 1"
    using rd_loop_bound[OF rd_session_info_reader rd_session_info_advances _ r(1), of a "unat n"] u
    by (simp add: parse_sessions_def)
  also have "\<dots> \<le> length body div 26 + 1" using r(2) by (simp add: div_le_mono)
  finally show ?thesis .
qed

section \<open>The foreground command\<close>

lemma after_last_split:
  assumes "b \<notin> set t"
  shows "after_last b (s @ b # t) = Some t"
proof -
  have "takeWhile (\<lambda>x. x \<noteq> b) (rev (s @ b # t)) = takeWhile (\<lambda>x. x \<noteq> b) (rev t @ b # rev s)" by simp
  also have "\<dots> = rev t" using assms by (subst takeWhile_append2) auto
  finally show ?thesis by (simp add: after_last_def)
qed

definition is_field :: "byte list \<Rightarrow> bool" where
  "is_field f \<longleftrightarrow> f \<noteq> [] \<and> 0x20 \<notin> set f \<and> 0x29 \<notin> set f \<and> 0 \<notin> set f"

lemma skip_field_one: "is_field f \<Longrightarrow> skip_field (0x20 # f @ 0x20 # t) = 0x20 # t"
  by (cases f) (auto simp: skip_field_def is_field_def dropWhile_append3)

fun fields :: "byte list list \<Rightarrow> byte list \<Rightarrow> byte list" where
  "fields [] t = t"
| "fields (f # fs) t = 0x20 # f @ fields fs t"

lemma skip_fields:
  "\<forall>f \<in> set fs. is_field f \<Longrightarrow> (skip_field ^^ length fs) (fields fs (0x20 # t)) = 0x20 # t"
proof (induction fs)
  case (Cons f fs)
  have "\<exists>u. fields fs (0x20 # t) = 0x20 # u" by (cases fs) auto
  then obtain u where u: "fields fs (0x20 # t) = 0x20 # u" ..
  have "(skip_field ^^ length (f # fs)) (fields (f # fs) (0x20 # t)) =
      (skip_field ^^ length fs) (skip_field (0x20 # f @ 0x20 # u))"
    by (simp add: u funpow_swap1)
  also have "\<dots> = 0x20 # t" using skip_field_one[of f u] Cons u by simp
  finally show ?case .
qed simp

text \<open>The foreground process group is read from the eighth field of /proc/<pid>/stat however the
  command name in the second field looks: it may hold spaces and parentheses. The name shown is
  then that of the group's leader, or of the session's own process when the leader is gone or is
  that process.\<close>

theorem foreground_names_the_group_leader:
  assumes stat: "h_contents h (lit ''/proc/'' @ decimal (unat pid) @ lit ''/stat'') =
      Some (pre @ 0x28 # comm @ 0x29 # fields [state, ppid, pgrp, sess, tty] (0x20 # tpgid @ 0x20 # rest))"
    and ok: "\<forall>f \<in> {state, ppid, pgrp, sess, tty, tpgid}. is_field f" "0 \<notin> set (pre @ comm)"
      "0x29 \<notin> set rest" "0 \<notin> set rest"
    and num: "gl_strtoll g (tpgid @ 0x20 # rest) = n" "0 < n" "n < 2 ^ 31" and pid: "pid \<noteq> 0"
  shows "epimone_client_foreground_command g h pid =
    (case read_comm g h (if word_of_int n = pid then pid else word_of_int n) of
       Some name \<Rightarrow> Some name | None \<Rightarrow> read_comm g h pid)"
proof -
  let ?t = "fields [state, ppid, pgrp, sess, tty] (0x20 # tpgid @ 0x20 # rest)"
  let ?text = "(pre @ 0x28 # comm) @ 0x29 # ?t"
  have nt: "0x29 \<notin> set ?t" "0 \<notin> set ?t" using ok by (auto simp: is_field_def)
  then have "cstr ?text = ?text" using ok(2) by (intro cstr_id) auto
  then have last: "after_last 0x29 (cstr ?text) = Some ?t" using after_last_split[OF nt(1), of "pre @ 0x28 # comm"] by simp
  have five: "(skip_field ^^ 5) ?t = 0x20 # tpgid @ 0x20 # rest"
    using skip_fields[of "[state, ppid, pgrp, sess, tty]" "tpgid @ 0x20 # rest"] ok(1)
    by (simp add: eval_nat_numeral del: fields.simps funpow.simps)
  obtain d ds where d: "tpgid = d # ds" "d \<noteq> 0x20" using ok(1) by (cases tpgid) (auto simp: is_field_def)
  have "read_tpgid g h pid = sint (word_of_int n :: 32 word)"
    using stat last five d num(1) by (simp add: read_tpgid_def Let_def del: fields.simps funpow.simps)
  also have "\<dots> = n" using num(2,3) by (simp add: int_word_sint)
  finally show ?thesis using pid num(2)
    by (auto simp: epimone_client_foreground_command_def Let_def split: option.split)
qed

theorem foreground_names_the_group_leader_witness:
  "epimone_client_foreground_command demo_glib demo_host 42 = Some (lit ''vim'')"
proof -
  have c: "lit ''/proc/'' @ decimal (unat (42 :: u32)) @ lit ''/stat'' = lit ''/proc/42/stat''"
    "lit ''/proc/'' @ decimal (unat (77 :: u32)) @ lit ''/comm'' = lit ''/proc/77/comm''"
    by (simp_all add: lit_def decimal.simps)
  have st: "h_contents demo_host (lit ''/proc/'' @ decimal (unat (42 :: u32)) @ lit ''/stat'') =
      Some (lit ''42 '' @ 0x28 # lit ''a) b'' @ 0x29 #
        fields [lit ''S'', lit ''1'', lit ''42'', lit ''42'', lit ''34816''] (0x20 # lit ''77'' @ 0x20 # lit ''4194304''))"
    unfolding c by (simp add: demo_host_def lit_def)
  have num: "gl_strtoll demo_glib (lit ''77'' @ 0x20 # lit ''4194304'') = 77"
    by (simp add: demo_glib_def lit_def)
  have "read_comm demo_glib demo_host 77 = Some (lit ''vim'')"
    using c(2) by (simp add: read_comm_def demo_host_def demo_glib_def lit_def cstr_def)
  then show ?thesis
    using foreground_names_the_group_leader[OF st _ _ _ _ num] by (simp add: is_field_def lit_def)
qed

section \<open>The socket path\<close>

text \<open>What GLib documents of g_build_filename: parts without slashes at the seams are joined by one.\<close>

definition joins_with_slash :: "glib \<Rightarrow> bool" where
  "joins_with_slash g \<longleftrightarrow> (\<forall>a b c. a \<noteq> [] \<longrightarrow> last a \<noteq> slash \<longrightarrow> b \<noteq> [] \<longrightarrow> c \<noteq> [] \<longrightarrow> slash \<notin> set (b @ c) \<longrightarrow>
     gl_build_filename g [a, b, c] = a @ [slash] @ b @ [slash] @ c)"

text \<open>The client looks for the daemon where the daemon listens: whenever the daemon gets a socket
  path, the client, in the same environment and for the same user, gets the same bytes, provided
  XDG_RUNTIME_DIR does not end in a slash.\<close>

theorem client_finds_the_daemons_socket:
  assumes "epi_socket_path e n = (Some path, ds)" and "joins_with_slash g"
    and "h_getenv h (lit ''XDG_RUNTIME_DIR'') = p_getenv e (lit ''XDG_RUNTIME_DIR'')" and "h_uid h = p_uid e"
    and "\<forall>x. p_getenv e (lit ''XDG_RUNTIME_DIR'') = Some x \<longrightarrow> x = [] \<or> last x \<noteq> slash"
  shows "epimone_client_socket_path g h = path"
proof -
  obtain dir ds1 where d: "epi_runtime_dir e 512 = (Some dir, ds1)" "path = dir @ [slash] @ EPIMONE_SOCKET_NAME"
    using assms(1) by (auto simp: epi_socket_path_def printed_Some split: prod.splits option.splits)
  have name: "EPIMONE_SOCKET_NAME \<noteq> []" "lit ''epimone'' \<noteq> []" "slash \<notin> set (lit ''epimone'' @ EPIMONE_SOCKET_NAME)"
    and sl: "lit ''/epimone'' = slash # lit ''epimone''" "lit ''/'' = [slash]"
    by (simp_all add: EPIMONE_SOCKET_NAME_def lit_def)
  have dir: "dir = (case p_getenv e (lit ''XDG_RUNTIME_DIR'') of
      Some x \<Rightarrow> if take 1 x = [slash] then x @ lit ''/epimone'' else lit ''/tmp/epimone-'' @ decimal (unat (p_uid e))
    | None \<Rightarrow> lit ''/tmp/epimone-'' @ decimal (unat (p_uid e)))"
    using d(1) by (auto simp: epi_runtime_dir_def Let_def made_def printed_Some split: option.splits if_splits)
  show ?thesis
  proof (cases "\<exists>x. p_getenv e (lit ''XDG_RUNTIME_DIR'') = Some x \<and> take 1 x = [slash]")
    case True
    then obtain x where x: "p_getenv e (lit ''XDG_RUNTIME_DIR'') = Some x" "take 1 x = [slash]" by blast
    then have "x \<noteq> []" "last x \<noteq> slash" using assms(5) by auto
    then have "gl_build_filename g [x, lit ''epimone'', EPIMONE_SOCKET_NAME] =
        x @ [slash] @ lit ''epimone'' @ [slash] @ EPIMONE_SOCKET_NAME"
      using assms(2) name unfolding joins_with_slash_def by blast
    then show ?thesis using x dir d(2) sl assms(3) by (simp add: epimone_client_socket_path_def)
  next
    case False
    then show ?thesis using dir d(2) sl assms(3,4)
      by (auto simp: epimone_client_socket_path_def split: option.splits)
  qed
qed

theorem client_finds_the_daemons_socket_witness:
  "epimone_client_socket_path demo_glib (demo_host\<lparr>h_getenv := p_getenv demo_paths\<rparr>) = lit ''/run/u/epimone/control.sock''"
proof -
  obtain ds where "epi_socket_path demo_paths 512 = (Some (lit ''/run/u/epimone/control.sock''), ds)"
    using demo_socket_path by blast
  moreover have "joins_with_slash demo_glib" by (simp add: joins_with_slash_def demo_glib_def)
  ultimately show ?thesis
    by (rule client_finds_the_daemons_socket) (simp_all add: demo_host_def demo_paths_def lit_def)
qed

end
