(* ===== verification/Page.thy ===== *)
theory Page
  imports Paths Complex_Main
begin

text \<open>
  A tab of the GUI (src/src/epimone-page.c): the split tree of its panes, focus, zoom, titles,
  dimming and the record of its group. The toolkit is outside: its widgets are nodes of a tree
  with an address each, and what it reports (sizes, titles, bounds) comes as an environment. A
  page logs the calls it makes to other parts; the toolkit's signals are operations of their own.
\<close>

section \<open>Doubles\<close>

text \<open>
  C doubles are a type \<open>'d\<close> with its operations as a parameter; nothing is assumed of rounding.
  \<open>fp_add_single\<close> is the sum of two single precision values, rounded to single precision.
\<close>

record 'd fp =
  fp_add :: "'d \<Rightarrow> 'd \<Rightarrow> 'd"
  fp_add_single :: "'d \<Rightarrow> 'd \<Rightarrow> 'd"
  fp_sub :: "'d \<Rightarrow> 'd \<Rightarrow> 'd"
  fp_mul :: "'d \<Rightarrow> 'd \<Rightarrow> 'd"
  fp_div :: "'d \<Rightarrow> 'd \<Rightarrow> 'd"
  fp_less :: "'d \<Rightarrow> 'd \<Rightarrow> bool"
  fp_le :: "'d \<Rightarrow> 'd \<Rightarrow> bool"
  fp_of_int :: "int \<Rightarrow> 'd"
  fp_half :: 'd
  fp_finite :: "'d \<Rightarrow> bool"
  fp_trunc :: "'d \<Rightarrow> int"
  fp_floor :: "'d \<Rightarrow> 'd"

text \<open>Exact arithmetic, on which theorems about the drawing can be evaluated.\<close>

definition rat_fp :: "rat fp" where
  "rat_fp = \<lparr>fp_add = (+), fp_add_single = (+), fp_sub = (-), fp_mul = (*), fp_div = (/), fp_less = (<), fp_le = (\<le>), fp_of_int = of_int,
     fp_half = 1 / 2, fp_finite = (\<lambda>_. True), fp_trunc = (\<lambda>x. if 0 \<le> x then \<lfloor>x\<rfloor> else \<lceil>x\<rceil>),
     fp_floor = (\<lambda>x. of_int \<lfloor>x\<rfloor>)\<rparr>"

section \<open>The split tree\<close>

datatype orientation = Horizontal | Vertical

text \<open>
  A divided node: its address, direction, divider position, and the ratio a restore has left on
  it. Every such node is made with both children set. A leaf is the scrolled terminal of a pane;
  its session id is 0 when it has no bridge.
\<close>

record 'd pane =
  pn_ref :: nat
  pn_orient :: orientation
  pn_pos :: int
  pn_ratio :: "'d option"

datatype 'd tree = Leaf nat u64 | Paned "'d pane" "'d tree" "'d tree"

fun leaves :: "'d tree \<Rightarrow> (nat \<times> u64) list" where
  "leaves (Leaf x s) = [(x, s)]"
| "leaves (Paned p l r) = leaves l @ leaves r"

fun root_ref :: "'d tree \<Rightarrow> nat" where
  "root_ref (Leaf x s) = x"
| "root_ref (Paned p l r) = pn_ref p"

fun node_refs :: "'d tree \<Rightarrow> nat list" where
  "node_refs (Leaf x s) = [x]"
| "node_refs (Paned p l r) = pn_ref p # node_refs l @ node_refs r"

fun epimone_page_first_terminal :: "'d tree \<Rightarrow> nat" where
  "epimone_page_first_terminal (Leaf x s) = x"
| "epimone_page_first_terminal (Paned p l r) = epimone_page_first_terminal l"

fun epimone_page_collect_terminals :: "'d tree \<Rightarrow> nat list" where
  "epimone_page_collect_terminals (Leaf x s) = [x]"
| "epimone_page_collect_terminals (Paned p l r) =
     epimone_page_collect_terminals l @ epimone_page_collect_terminals r"

fun session_at :: "nat \<Rightarrow> 'd tree \<Rightarrow> u64 option" where
  "session_at x (Leaf y s) = (if x = y then Some s else None)"
| "session_at x (Paned p l r) = (case session_at x l of Some s \<Rightarrow> Some s | None \<Rightarrow> session_at x r)"

text \<open>Putting another subtree in the place of a leaf (set_start_child or set_end_child).\<close>

fun replace_leaf :: "nat \<Rightarrow> 'd tree \<Rightarrow> 'd tree \<Rightarrow> 'd tree" where
  "replace_leaf x t (Leaf y s) = (if x = y then t else Leaf y s)"
| "replace_leaf x t (Paned p l r) = Paned p (replace_leaf x t l) (replace_leaf x t r)"

fun is_leaf :: "nat \<Rightarrow> 'd tree \<Rightarrow> bool" where
  "is_leaf x (Leaf y s) = (x = y)"
| "is_leaf x (Paned p l r) = False"

text \<open>The other child of the node that holds a leaf; \<open>None\<close> if the leaf has no such parent.\<close>

fun sibling_of :: "nat \<Rightarrow> 'd tree \<Rightarrow> 'd tree option" where
  "sibling_of x (Leaf y s) = None"
| "sibling_of x (Paned p l r) =
     (if is_leaf x l then Some r else if is_leaf x r then Some l
      else case sibling_of x l of Some t \<Rightarrow> Some t | None \<Rightarrow> sibling_of x r)"

text \<open>The node that holds the leaf is emptied and its sibling takes that node's place.\<close>

fun collapse :: "nat \<Rightarrow> 'd tree \<Rightarrow> 'd tree" where
  "collapse x (Leaf y s) = Leaf y s"
| "collapse x (Paned p l r) =
     (if is_leaf x l then r else if is_leaf x r then l else Paned p (collapse x l) (collapse x r))"

text \<open>The siblings met on the way from a leaf up to the root, the nearest first.\<close>

fun siblings_up :: "nat \<Rightarrow> 'd tree \<Rightarrow> nat list" where
  "siblings_up x (Leaf y s) = []"
| "siblings_up x (Paned p l r) =
     (if x \<in> set (epimone_page_collect_terminals l) then siblings_up x l @ [root_ref r]
      else siblings_up x r @ [root_ref l])"

section \<open>A page\<close>

datatype page_call = Schedule_save | Schedule_group_save | Notify_title | Notify_subtitle | Close_page | Grab_focus nat

text \<open>A frame-clock callback that a restore has left on a widget.\<close>

record restore_tick =
  rt_focus :: u64
  rt_frames :: int
  rt_done :: bool

record 'd page =
  pg_root :: "'d tree option"
  pg_focused :: "nat option"
  pg_title :: "byte list"
  pg_subtitle :: "byte list option"
  pg_custom :: "byte list option"
  pg_zoomed :: "nat option"
  pg_group :: u64
  pg_enrolled :: "u64 set"
  pg_ptr_down :: bool
  pg_dragging :: bool
  pg_hidden :: "nat set"
  pg_dimmed :: "nat set"
  pg_calls :: "page_call list"
  pg_ticks :: "restore_tick list"

text \<open>
  What the toolkit reports: the window title and the working directory of a terminal, the home
  directory, whether inactive panes are dimmed, the size and bounds of a node, and the columns and
  rows of a terminal.
\<close>

record 'd page_env =
  pe_title :: "nat \<Rightarrow> byte list option"
  pe_cwd :: "nat \<Rightarrow> byte list option"
  pe_home :: "byte list option"
  pe_dim_inactive :: bool
  pe_width :: "nat \<Rightarrow> int"
  pe_height :: "nat \<Rightarrow> int"
  pe_bounds :: "nat \<Rightarrow> ('d \<times> 'd \<times> 'd \<times> 'd) option"
  pe_grid :: "nat \<Rightarrow> int \<times> int"

definition page_log :: "page_call \<Rightarrow> 'd page \<Rightarrow> 'd page" where
  "page_log c p = p\<lparr>pg_calls := pg_calls p @ [c]\<rparr>"

text \<open>The UTF-8 text of the magnifying glass and a space.\<close>

definition zoom_marker :: "byte list" where
  "zoom_marker = [0xF0, 0x9F, 0x94, 0x8D, 0x20]"

definition epimone_page_update_title :: "'d page_env \<Rightarrow> 'd page \<Rightarrow> 'd page" where
  "epimone_page_update_title e p =
     (let base = (case pg_custom p of
                    Some c \<Rightarrow> Some c
                  | None \<Rightarrow> (case pg_focused p of Some x \<Rightarrow> pe_title e x | None \<Rightarrow> None));
          base = (case base of Some b \<Rightarrow> if b = [] then lit ''Terminal'' else b | None \<Rightarrow> lit ''Terminal'');
          title = (if pg_zoomed p \<noteq> None then zoom_marker @ base else base)
      in if pg_title p = title then p
         else page_log Schedule_group_save (page_log Notify_title (p\<lparr>pg_title := title\<rparr>)))"

definition home_collapsed :: "byte list option \<Rightarrow> byte list \<Rightarrow> byte list" where
  "home_collapsed home cwd =
     (case home of
        None \<Rightarrow> cwd
      | Some h \<Rightarrow>
          if take (length h) cwd = h
          then let rest = drop (length h) cwd in
               if rest = [] then lit ''~''
               else if hd rest = slash then lit ''~'' @ rest
               else cwd
          else cwd)"

definition epimone_page_update_subtitle :: "'d page_env \<Rightarrow> 'd page \<Rightarrow> 'd page" where
  "epimone_page_update_subtitle e p =
     (case (case pg_focused p of Some x \<Rightarrow> pe_cwd e x | None \<Rightarrow> None) of
        None \<Rightarrow> if pg_subtitle p = None then p
                else page_log Notify_subtitle (p\<lparr>pg_subtitle := None\<rparr>)
      | Some cwd \<Rightarrow>
          let s = home_collapsed (pe_home e) cwd in
          if pg_subtitle p = Some s then p
          else page_log Notify_subtitle (p\<lparr>pg_subtitle := Some s\<rparr>))"

definition epimone_page_update_dimming :: "'d page_env \<Rightarrow> 'd page \<Rightarrow> 'd page" where
  "epimone_page_update_dimming e p =
     (case pg_root p of
        None \<Rightarrow> p
      | Some t \<Rightarrow>
          let xs = epimone_page_collect_terminals t in
          p\<lparr>pg_dimmed := (pg_dimmed p - set xs) \<union>
              {x \<in> set xs. pe_dim_inactive e \<and> length xs > 1 \<and> pg_focused p \<noteq> Some x}\<rparr>)"

definition epimone_page_set_focused :: "'d page_env \<Rightarrow> nat option \<Rightarrow> 'd page \<Rightarrow> 'd page" where
  "epimone_page_set_focused e x p =
     (let changed = (pg_focused p \<noteq> x);
          p1 = epimone_page_update_dimming e (epimone_page_update_subtitle e
                 (epimone_page_update_title e (p\<lparr>pg_focused := x\<rparr>)))
      in if changed then page_log Schedule_save p1 else p1)"

definition epimone_page_get_pane_count :: "'d page \<Rightarrow> nat" where
  "epimone_page_get_pane_count p =
     (case pg_root p of None \<Rightarrow> 0 | Some t \<Rightarrow> length (epimone_page_collect_terminals t))"

subsection \<open>Zoom\<close>

definition epimone_page_apply_zoom :: "'d page_env \<Rightarrow> nat \<Rightarrow> 'd page \<Rightarrow> 'd page" where
  "epimone_page_apply_zoom e x p =
     (let sibs = (case pg_root p of None \<Rightarrow> [] | Some t \<Rightarrow> siblings_up x t) in
      if sibs = [] then p
      else epimone_page_update_title e (p\<lparr>pg_hidden := pg_hidden p \<union> set sibs, pg_zoomed := Some x\<rparr>))"

definition epimone_page_unzoom :: "'d page_env \<Rightarrow> 'd page \<Rightarrow> 'd page" where
  "epimone_page_unzoom e p =
     (if pg_zoomed p = None then p
      else page_log Schedule_group_save (epimone_page_update_title e
             (p\<lparr>pg_hidden := pg_hidden p - (case pg_root p of None \<Rightarrow> {} | Some t \<Rightarrow> set (node_refs t)),
                pg_zoomed := None\<rparr>)))"

definition epimone_page_toggle_zoom :: "'d page_env \<Rightarrow> 'd page \<Rightarrow> 'd page" where
  "epimone_page_toggle_zoom e p =
     (if pg_zoomed p \<noteq> None then epimone_page_unzoom e p
      else case pg_focused p of Some x \<Rightarrow> epimone_page_apply_zoom e x p | None \<Rightarrow> p)"

subsection \<open>Restructuring\<close>

text \<open>A divider moved.\<close>

definition epimone_paned_position_changed :: "'d page \<Rightarrow> 'd page" where
  "epimone_paned_position_changed p =
     page_log Schedule_group_save (if pg_ptr_down p then p\<lparr>pg_dragging := True\<rparr> else p)"

text \<open>\<open>x'\<close> and \<open>s'\<close> are the new pane's leaf and session, \<open>ref\<close> the address of the new node.\<close>

definition epimone_page_split ::
  "'d page_env \<Rightarrow> orientation \<Rightarrow> nat \<Rightarrow> nat \<Rightarrow> u64 \<Rightarrow> 'd page \<Rightarrow> 'd page" where
  "epimone_page_split e orient ref x' s' p =
     (case pg_focused p of
        None \<Rightarrow> p
      | Some x \<Rightarrow>
          let p1 = epimone_page_unzoom e p;
              size = (if orient = Horizontal then pe_width e x else pe_height e x);
              pane = \<lparr>pn_ref = ref, pn_orient = orient, pn_pos = (if 0 < size then size div 2 else 0),
                      pn_ratio = None\<rparr>;
              old = (case pg_root p1 of None \<Rightarrow> 0
                     | Some t \<Rightarrow> (case session_at x t of Some s \<Rightarrow> s | None \<Rightarrow> 0));
              p2 = p1\<lparr>pg_root := map_option (replace_leaf x (Paned pane (Leaf x old) (Leaf x' s'))) (pg_root p1)\<rparr>;
              p3 = (if pn_pos pane \<noteq> 0 then epimone_paned_position_changed p2 else p2)
          in page_log Schedule_save
               (epimone_page_set_focused e (Some x') (page_log (Grab_focus x') p3)))"

definition epimone_page_remove_terminal :: "'d page_env \<Rightarrow> nat \<Rightarrow> 'd page \<Rightarrow> 'd page" where
  "epimone_page_remove_terminal e x p =
     (let p1 = epimone_page_unzoom e p;
          was_focused = (pg_focused p1 = Some x)
      in case (case pg_root p1 of None \<Rightarrow> None | Some t \<Rightarrow> sibling_of x t) of
           None \<Rightarrow> page_log Close_page (p1\<lparr>pg_focused := None\<rparr>)
         | Some sib \<Rightarrow>
             let p2 = p1\<lparr>pg_root := map_option (collapse x) (pg_root p1)\<rparr>;
                 next_focus = epimone_page_first_terminal sib;
                 p3 = (if was_focused
                       then epimone_page_set_focused e (Some next_focus) (page_log (Grab_focus next_focus) p2)
                       else p2)
             in page_log Schedule_save p3)"

definition epimone_page_close_pane :: "'d page_env \<Rightarrow> 'd page \<Rightarrow> 'd page" where
  "epimone_page_close_pane e p =
     (case pg_focused p of None \<Rightarrow> p | Some x \<Rightarrow> epimone_page_remove_terminal e x p)"

definition epimone_page_take_focused_leaf :: "'d page_env \<Rightarrow> 'd page \<Rightarrow> (nat \<times> u64) option \<times> 'd page" where
  "epimone_page_take_focused_leaf e p =
     (case pg_focused p of
        None \<Rightarrow> (None, p)
      | Some x \<Rightarrow>
          let p1 = epimone_page_unzoom e p in
          (case (case pg_root p1 of None \<Rightarrow> None | Some t \<Rightarrow> sibling_of x t) of
             None \<Rightarrow> (None, p1)
           | Some sib \<Rightarrow>
               let s = (case pg_root p1 of None \<Rightarrow> 0
                        | Some t \<Rightarrow> (case session_at x t of Some s \<Rightarrow> s | None \<Rightarrow> 0));
                   p2 = p1\<lparr>pg_root := map_option (collapse x) (pg_root p1)\<rparr>
               in (Some (x, s), page_log Schedule_save
                     (epimone_page_set_focused e (Some (epimone_page_first_terminal sib)) p2))))"

definition epimone_page_adopt_leaf :: "'d page_env \<Rightarrow> nat \<Rightarrow> u64 \<Rightarrow> 'd page \<Rightarrow> 'd page" where
  "epimone_page_adopt_leaf e x s p =
     (if pg_root p \<noteq> None then p
      else epimone_page_set_focused e (Some x) (p\<lparr>pg_root := Some (Leaf x s)\<rparr>))"

definition epimone_page_set_tree_root :: "'d page_env \<Rightarrow> 'd tree \<Rightarrow> 'd page \<Rightarrow> 'd page" where
  "epimone_page_set_tree_root e t p =
     epimone_page_set_focused e (Some (epimone_page_first_terminal t)) (p\<lparr>pg_root := Some t\<rparr>)"

definition epimone_page_new_empty :: "'d page" where
  "epimone_page_new_empty =
     \<lparr>pg_root = None, pg_focused = None, pg_title = lit ''Terminal'', pg_subtitle = None, pg_custom = None,
      pg_zoomed = None, pg_group = 0, pg_enrolled = {}, pg_ptr_down = False, pg_dragging = False,
      pg_hidden = {}, pg_dimmed = {}, pg_calls = [], pg_ticks = []\<rparr>"

definition epimone_page_new_with_cwd :: "'d page_env \<Rightarrow> nat \<Rightarrow> u64 \<Rightarrow> 'd page" where
  "epimone_page_new_with_cwd e x s =
     epimone_page_set_focused e (Some x) (epimone_page_new_empty\<lparr>pg_root := Some (Leaf x s)\<rparr>)"

subsection \<open>Focus\<close>

definition epimone_page_focus_terminal :: "'d page_env \<Rightarrow> 'd page \<Rightarrow> 'd page" where
  "epimone_page_focus_terminal e p =
     (case (case pg_focused p of Some x \<Rightarrow> Some x
            | None \<Rightarrow> map_option epimone_page_first_terminal (pg_root p)) of
        None \<Rightarrow> p
      | Some x \<Rightarrow> epimone_page_set_focused e (Some x) (page_log (Grab_focus x) p))"

definition page_sessions :: "'d page \<Rightarrow> (nat \<times> u64) list" where
  "page_sessions p = (case pg_root p of None \<Rightarrow> [] | Some t \<Rightarrow> leaves t)"

definition epimone_page_focus_session :: "'d page_env \<Rightarrow> u64 \<Rightarrow> 'd page \<Rightarrow> 'd page" where
  "epimone_page_focus_session e sid p =
     (case find (\<lambda>(x, s). s = sid) (page_sessions p) of
        None \<Rightarrow> p
      | Some (x, s) \<Rightarrow> epimone_page_set_focused e (Some x) (page_log (Grab_focus x) p))"

definition epimone_page_get_focused_grid :: "'d page_env \<Rightarrow> 'd page \<Rightarrow> u32 \<times> u32" where
  "epimone_page_get_focused_grid e p =
     (case pg_focused p of
        None \<Rightarrow> (0, 0)
      | Some x \<Rightarrow> (case pe_grid e x of (cols, rows) \<Rightarrow> (word_of_int cols, word_of_int rows)))"

definition epimone_page_has_session :: "'d page \<Rightarrow> u64 \<Rightarrow> bool" where
  "epimone_page_has_session p sid = (sid \<noteq> 0 \<and> (\<exists>(x, s) \<in> set (page_sessions p). s = sid))"

definition epimone_page_get_focused_session :: "'d page \<Rightarrow> u64" where
  "epimone_page_get_focused_session p =
     (case pg_focused p of
        None \<Rightarrow> 0
      | Some x \<Rightarrow> (case pg_root p of None \<Rightarrow> 0
                   | Some t \<Rightarrow> (case session_at x t of Some s \<Rightarrow> s | None \<Rightarrow> 0)))"

datatype dir = Dir_left | Dir_right | Dir_up | Dir_down

text \<open>In the direction, overlapping in the other axis, and the distance.\<close>

definition dir_candidate ::
  "'d fp \<Rightarrow> dir \<Rightarrow> 'd \<times> 'd \<times> 'd \<times> 'd \<Rightarrow> 'd \<times> 'd \<times> 'd \<times> 'd \<Rightarrow> bool \<times> bool \<times> 'd" where
  "dir_candidate f d cur r =
     (let two = fp_of_int f 2; less = fp_less f; add = fp_add f; sub = fp_sub f in
      case cur of (ox, oy, ow, oh) \<Rightarrow> case r of (x, y, w, h) \<Rightarrow>
      let cur_cx = add ox (fp_div f ow two); cur_cy = add oy (fp_div f oh two);
          cx = add x (fp_div f w two); cy = add y (fp_div f h two);
          in_rows = less y cur_cy \<and> less cur_cy (fp_add_single f y h);
          in_cols = less x cur_cx \<and> less cur_cx (fp_add_single f x w)
      in case d of
           Dir_left \<Rightarrow> (less cx cur_cx, in_rows, sub cur_cx cx)
         | Dir_right \<Rightarrow> (less cur_cx cx, in_rows, sub cx cur_cx)
         | Dir_up \<Rightarrow> (less cy cur_cy, in_cols, sub cur_cy cy)
         | Dir_down \<Rightarrow> (less cur_cy cy, in_cols, sub cy cur_cy))"

text \<open>The rating of a pane: \<open>None\<close> for the focused one and for those not in the direction.\<close>

definition dir_score ::
  "'d fp \<Rightarrow> dir \<Rightarrow> (nat \<Rightarrow> ('d \<times> 'd \<times> 'd \<times> 'd) option) \<Rightarrow> nat \<Rightarrow> 'd \<times> 'd \<times> 'd \<times> 'd \<Rightarrow> nat \<Rightarrow> (bool \<times> 'd) option" where
  "dir_score f d bounds self cur c =
     (if c = self then None
      else case bounds c of
             None \<Rightarrow> None
           | Some r \<Rightarrow> (let (in_direction, a) = dir_candidate f d cur r in if in_direction then Some a else None))"

text \<open>A pane that overlaps beats one that does not; then the nearer wins.\<close>

definition beats :: "'d fp \<Rightarrow> bool \<times> 'd \<Rightarrow> bool \<times> 'd \<Rightarrow> bool" where
  "beats f a b = ((fst a \<and> \<not> fst b) \<or> (fst a = fst b \<and> fp_less f (snd a) (snd b)))"

fun dir_search ::
  "'d fp \<Rightarrow> (nat \<Rightarrow> (bool \<times> 'd) option) \<Rightarrow> nat list \<Rightarrow> (nat \<times> bool \<times> 'd) option \<Rightarrow> (nat \<times> bool \<times> 'd) option" where
  "dir_search f score [] best = best"
| "dir_search f score (c # cs) best =
     dir_search f score cs
       (case score c of
          None \<Rightarrow> best
        | Some a \<Rightarrow> (case best of
                       None \<Rightarrow> Some (c, a)
                     | Some (b, a') \<Rightarrow> if beats f a a' then Some (c, a) else best))"

definition epimone_page_focus_direction :: "'d fp \<Rightarrow> 'd page_env \<Rightarrow> dir \<Rightarrow> 'd page \<Rightarrow> 'd page" where
  "epimone_page_focus_direction f e d p =
     (case pg_focused p of
        None \<Rightarrow> p
      | Some x \<Rightarrow>
          let p1 = epimone_page_unzoom e p in
          (case pg_root p1 of
             None \<Rightarrow> p1
           | Some t \<Rightarrow>
               (case pe_bounds e x of
                  None \<Rightarrow> p1
                | Some cur \<Rightarrow>
                    (case dir_search f (dir_score f d (pe_bounds e) x cur) (epimone_page_collect_terminals t) None of
                       None \<Rightarrow> p1
                     | Some (b, _) \<Rightarrow> page_log (Grab_focus b) p1))))"

subsection \<open>Titles and the group\<close>

definition epimone_page_set_initial_title :: "byte list option \<Rightarrow> 'd page \<Rightarrow> 'd page" where
  "epimone_page_set_initial_title title p =
     (case title of
        None \<Rightarrow> p
      | Some t \<Rightarrow> if t = [] \<or> pg_title p = t then p else page_log Notify_title (p\<lparr>pg_title := t\<rparr>))"

definition epimone_page_set_custom_title :: "'d page_env \<Rightarrow> byte list option \<Rightarrow> 'd page \<Rightarrow> 'd page" where
  "epimone_page_set_custom_title e title p =
     (let title = (case title of Some t \<Rightarrow> if t = [] then None else Some t | None \<Rightarrow> None) in
      if pg_custom p = title then p
      else page_log Schedule_group_save (epimone_page_update_title e (p\<lparr>pg_custom := title\<rparr>)))"

definition epimone_page_get_shell_title :: "'d page_env \<Rightarrow> 'd page \<Rightarrow> byte list option" where
  "epimone_page_get_shell_title e p =
     (case pg_focused p of
        None \<Rightarrow> None
      | Some x \<Rightarrow> (case pe_title e x of Some b \<Rightarrow> if b \<noteq> [] then Some b else None | None \<Rightarrow> None))"

definition epimone_page_set_group_id :: "u64 \<Rightarrow> 'd page \<Rightarrow> 'd page" where
  "epimone_page_set_group_id gid p =
     (if pg_group p = gid then p else p\<lparr>pg_group := gid, pg_enrolled := {}\<rparr>)"

definition epimone_page_session_enrolled :: "'d page \<Rightarrow> u64 \<Rightarrow> bool" where
  "epimone_page_session_enrolled p sid = (sid \<in> pg_enrolled p)"

definition epimone_page_mark_enrolled :: "u64 \<Rightarrow> 'd page \<Rightarrow> 'd page" where
  "epimone_page_mark_enrolled sid p = p\<lparr>pg_enrolled := insert sid (pg_enrolled p)\<rparr>"

definition epimone_page_title_changed :: "'d page_env \<Rightarrow> nat \<Rightarrow> 'd page \<Rightarrow> 'd page" where
  "epimone_page_title_changed e x p =
     (if pg_focused p = Some x then epimone_page_update_subtitle e (epimone_page_update_title e p) else p)"

definition epimone_page_directory_changed :: "'d page_env \<Rightarrow> nat \<Rightarrow> 'd page \<Rightarrow> 'd page" where
  "epimone_page_directory_changed e x p =
     (if pg_focused p = Some x then epimone_page_update_subtitle e p else p)"

text \<open>A terminal took the keyboard focus.\<close>

definition epimone_page_focus_enter :: "'d page_env \<Rightarrow> nat \<Rightarrow> 'd page \<Rightarrow> 'd page" where
  "epimone_page_focus_enter e x p = epimone_page_set_focused e (Some x) p"

subsection \<open>The directory of a new pane\<close>

datatype preserve = Preserve_never | Preserve_safe | Preserve_always

text \<open>
  The path and host of the focused terminal's directory as GLib takes them from its URI, and the
  comparison of host names; \<open>None\<close> lets the daemon choose.
\<close>

definition epimone_page_dup_cwd_for_spawn ::
  "preserve \<Rightarrow> (byte list \<Rightarrow> byte list \<Rightarrow> bool) \<Rightarrow> byte list \<Rightarrow>
   (nat \<Rightarrow> (byte list \<times> byte list option) option) \<Rightarrow> 'd page \<Rightarrow> byte list option" where
  "epimone_page_dup_cwd_for_spawn pol same_host this_host dir_of p =
     (if pol = Preserve_never then None
      else case pg_focused p of
             None \<Rightarrow> None
           | Some x \<Rightarrow>
               (case dir_of x of
                  None \<Rightarrow> None
                | Some (path, host) \<Rightarrow>
                    if pol = Preserve_safe \<and>
                       (case host of None \<Rightarrow> False
                        | Some h \<Rightarrow> h \<noteq> [] \<and> \<not> same_host h (lit ''localhost'') \<and> \<not> same_host h this_host)
                    then None else Some path))"

end
