(* ===== verification/Page_Tree.thy ===== *)
theory Page_Tree
  imports Page "HOL-Library.Multiset"
begin

text \<open>
  The split tree of a page: what replacing, collapsing and hiding do to its leaves, the invariant
  of a page, and that the operations of Page keep it.
\<close>

section \<open>Leaves and addresses\<close>

lemma map_fst_leaves [simp]: "map fst (leaves t) = epimone_page_collect_terminals t"
  by (induction t) auto

lemma leaves_nonempty [simp]: "leaves t \<noteq> []"
  by (induction t) auto

lemma collect_nonempty [simp]: "epimone_page_collect_terminals t \<noteq> []"
  by (induction t) auto

lemma first_terminal_hd: "epimone_page_first_terminal t = hd (epimone_page_collect_terminals t)"
  by (induction t) auto

lemma first_terminal_in [simp, intro]:
  "epimone_page_first_terminal t \<in> set (epimone_page_collect_terminals t)"
  by (simp add: first_terminal_hd)

lemma collect_in_refs: "x \<in> set (epimone_page_collect_terminals t) \<Longrightarrow> x \<in> set (node_refs t)"
  by (induction t) auto

lemma root_ref_in [simp, intro]: "root_ref t \<in> set (node_refs t)"
  by (cases t) auto

lemma distinct_collect: "distinct (node_refs t) \<Longrightarrow> distinct (epimone_page_collect_terminals t)"
  by (induction t) (auto dest: collect_in_refs)

lemma leaf_in_collect: "(x, s) \<in> set (leaves t) \<Longrightarrow> x \<in> set (epimone_page_collect_terminals t)"
  by (induction t) auto

lemma collect_leaf: "x \<in> set (epimone_page_collect_terminals t) \<Longrightarrow> \<exists>s. (x, s) \<in> set (leaves t)"
  by (induction t) auto

lemma session_at_None: "session_at x t = None \<longleftrightarrow> x \<notin> set (epimone_page_collect_terminals t)"
  by (induction t) (auto split: option.splits)

lemma session_at_leaf: "distinct (epimone_page_collect_terminals t) \<Longrightarrow> (x, s) \<in> set (leaves t) \<Longrightarrow> session_at x t = Some s"
proof (induction t)
  case (Paned p l r)
  show ?case
  proof (cases "(x, s) \<in> set (leaves l)")
    case True
    then show ?thesis using Paned by simp
  next
    case False
    then have r: "(x, s) \<in> set (leaves r)" using Paned.prems by simp
    then have "x \<notin> set (epimone_page_collect_terminals l)"
      using Paned.prems leaf_in_collect by fastforce
    then show ?thesis using r Paned session_at_None [of x l] by simp
  qed
qed simp

section \<open>Replacing a leaf\<close>

lemma replace_leaf_other: "x \<notin> set (epimone_page_collect_terminals t) \<Longrightarrow> replace_leaf x u t = t"
  by (induction t) auto

lemma leaves_replace:
  "leaves (replace_leaf x u t) = concat (map (\<lambda>(y, s). if y = x then leaves u else [(y, s)]) (leaves t))"
  by (induction t) auto

lemma replace_concat_other:
  "x \<notin> fst ` set ls \<Longrightarrow> concat (map (\<lambda>(y, s). if y = x then us else [(y, s)]) ls) = ls"
  by (induction ls) auto

lemma leaves_replace_split:
  assumes "distinct (node_refs t)" "leaves t = as @ (x, s) # bs"
  shows "leaves (replace_leaf x u t) = as @ leaves u @ bs"
proof -
  have "distinct (map fst (leaves t))" using assms(1) by (simp add: distinct_collect)
  then have "x \<notin> fst ` set as" "x \<notin> fst ` set bs" by (auto simp: assms(2) simp del: map_fst_leaves)
  then show ?thesis by (simp add: leaves_replace assms(2) replace_concat_other)
qed

lemma refs_replace:
  assumes "distinct (node_refs t)" "x \<in> set (epimone_page_collect_terminals t)"
  shows "mset (node_refs (replace_leaf x u t)) + {#x#} = mset (node_refs t) + mset (node_refs u)"
  using assms
proof (induction t)
  case (Paned p l r)
  show ?case
  proof (cases "x \<in> set (epimone_page_collect_terminals l)")
    case True
    then have "x \<notin> set (epimone_page_collect_terminals r)"
      using Paned.prems collect_in_refs by fastforce
    then show ?thesis using Paned True by (simp add: replace_leaf_other)
  next
    case False
    then show ?thesis using Paned by (simp add: replace_leaf_other)
  qed
qed simp

section \<open>Collapsing the node of a leaf\<close>

lemma is_leaf_iff: "is_leaf x t \<longleftrightarrow> (\<exists>s. t = Leaf x s)"
  by (cases t) auto

lemma sibling_of_None:
  "sibling_of x t = None \<longleftrightarrow> x \<notin> set (epimone_page_collect_terminals t) \<or> (\<exists>y s. t = Leaf y s)"
proof (induction t)
  case (Paned p l r)
  then show ?case by (cases l; cases r) (auto simp: is_leaf_iff split: option.splits)
qed simp

lemma collapse_other: "x \<notin> set (epimone_page_collect_terminals t) \<Longrightarrow> collapse x t = t"
  by (induction t) (auto simp: is_leaf_iff)

lemma leaves_filter_other: "x \<notin> set (epimone_page_collect_terminals t) \<Longrightarrow> filter (\<lambda>(y, s). y \<noteq> x) (leaves t) = leaves t"
  by (auto simp: filter_id_conv dest: leaf_in_collect)

lemma leaves_collapse:
  assumes "distinct (node_refs t)" "\<not> is_leaf x t"
  shows "leaves (collapse x t) = filter (\<lambda>(y, s). y \<noteq> x) (leaves t)"
  using assms
proof (induction t)
  case (Paned p l r)
  have "is_leaf x l \<Longrightarrow> x \<notin> set (epimone_page_collect_terminals r)"
    "is_leaf x r \<Longrightarrow> x \<notin> set (epimone_page_collect_terminals l)"
    using Paned.prems collect_in_refs by (fastforce simp: is_leaf_iff)+
  then show ?case using Paned by (auto simp: is_leaf_iff leaves_filter_other)
qed auto

lemma leaves_collapse_split:
  assumes "distinct (node_refs t)" "leaves t = as @ (x, s) # bs" "as @ bs \<noteq> []"
  shows "leaves (collapse x t) = as @ bs"
proof -
  have d: "distinct (map fst (leaves t))" using assms(1) by (simp add: distinct_collect)
  have "\<not> is_leaf x t" using assms by (auto simp: is_leaf_iff append_eq_Cons_conv Cons_eq_append_conv)
  moreover have "x \<notin> fst ` set as" "x \<notin> fst ` set bs" using d by (auto simp: assms(2) simp del: map_fst_leaves)
  moreover have "filter (\<lambda>(y, s). y \<noteq> x) cs = cs" if "x \<notin> fst ` set cs" for cs :: "(nat \<times> u64) list"
    using that by (induction cs) auto
  ultimately show ?thesis using assms(1) by (simp add: leaves_collapse assms(2))
qed

lemma refs_collapse: "mset (node_refs (collapse x t)) \<subseteq># mset (node_refs t)"
proof (induction t)
  case (Paned p l r)
  have both: "mset (node_refs (collapse x l)) + mset (node_refs (collapse x r)) \<subseteq>#
      mset (node_refs l) + mset (node_refs r)"
    by (rule subset_mset.add_mono [OF Paned.IH])
  have sub: "A \<subseteq># add_mset a (A + B)" "B \<subseteq># add_mset a (A + B)" for A B and a :: nat
    by (rule subset_mset.order_trans [of _ "A + B"]; simp add: subset_mset.order_trans)+
  show ?case using both by (auto simp: sub)
qed simp

lemma sibling_first_survives:
  assumes "distinct (node_refs t)" "sibling_of x t = Some u"
  shows "epimone_page_first_terminal u \<in> set (epimone_page_collect_terminals (collapse x t))"
  using assms
proof (induction t)
  case (Paned p l r)
  show ?case
  proof (cases "is_leaf x l \<or> is_leaf x r")
    case True
    then show ?thesis using Paned.prems by (auto split: if_splits)
  next
    case False
    then show ?thesis using Paned by (auto split: option.splits)
  qed
qed simp

section \<open>Hiding\<close>

text \<open>The terminals on screen: a hidden node hides everything below it.\<close>

fun shown :: "nat set \<Rightarrow> 'd tree \<Rightarrow> nat list" where
  "shown h (Leaf x s) = (if x \<in> h then [] else [x])"
| "shown h (Paned p l r) = (if pn_ref p \<in> h then [] else shown h l @ shown h r)"

lemma shown_all: "h \<inter> set (node_refs t) = {} \<Longrightarrow> shown h t = epimone_page_collect_terminals t"
  by (induction t) (auto simp: Int_Un_distrib)

lemma shown_cong: "h \<inter> set (node_refs t) = h' \<inter> set (node_refs t) \<Longrightarrow> shown h t = shown h' t"
proof (induction t)
  case (Paned p l r)
  have "h \<inter> set (node_refs l) = h' \<inter> set (node_refs l)" "h \<inter> set (node_refs r) = h' \<inter> set (node_refs r)"
    "pn_ref p \<in> h \<longleftrightarrow> pn_ref p \<in> h'"
    using Paned.prems by auto
  then show ?case using Paned.IH by simp
qed auto

lemma shown_root: "root_ref t \<in> h \<Longrightarrow> shown h t = []"
  by (cases t) auto

lemma siblings_up_in: "set (siblings_up x t) \<subseteq> set (node_refs t)"
  by (induction t) auto

lemma siblings_up_strict: "distinct (node_refs t) \<Longrightarrow> root_ref t \<notin> set (siblings_up x t)"
proof (cases t)
  case (Paned p l r)
  assume "distinct (node_refs t)"
  then show ?thesis
    using Paned siblings_up_in [of x l] siblings_up_in [of x r] root_ref_in [of l] root_ref_in [of r] by auto
qed simp

lemma siblings_up_Nil: "siblings_up x t = [] \<longleftrightarrow> (\<exists>y s. t = Leaf y s)"
  by (cases t) auto

lemma shown_siblings_up:
  assumes "distinct (node_refs t)" "x \<in> set (epimone_page_collect_terminals t)"
  shows "shown (set (siblings_up x t)) t = [x]"
  using assms
proof (induction t)
  case (Paned p l r)
  have root: "pn_ref p \<notin> set (siblings_up x (Paned p l r))"
    using siblings_up_strict [OF Paned.prems(1)] by simp
  show ?case
  proof (cases "x \<in> set (epimone_page_collect_terminals l)")
    case True
    have "shown (set (siblings_up x l @ [root_ref r])) l = shown (set (siblings_up x l)) l"
      using Paned.prems root_ref_in [of r] by (intro shown_cong) auto
    then show ?thesis using root True Paned by (simp add: shown_root)
  next
    case False
    have "shown (set (siblings_up x r @ [root_ref l])) r = shown (set (siblings_up x r)) r"
      using Paned.prems root_ref_in [of l] by (intro shown_cong) auto
    then show ?thesis using root False Paned by (simp add: shown_root)
  qed
qed simp

section \<open>What the updates of a page leave alone\<close>

lemma page_log_fields [simp]:
  "pg_root (page_log c p) = pg_root p" "pg_focused (page_log c p) = pg_focused p"
  "pg_zoomed (page_log c p) = pg_zoomed p" "pg_hidden (page_log c p) = pg_hidden p"
  "pg_custom (page_log c p) = pg_custom p" "pg_group (page_log c p) = pg_group p"
  "pg_title (page_log c p) = pg_title p" "pg_calls (page_log c p) = pg_calls p @ [c]"
  by (simp_all add: page_log_def)

lemma position_changed_fields [simp]:
  "pg_root (epimone_paned_position_changed p) = pg_root p"
  "pg_focused (epimone_paned_position_changed p) = pg_focused p"
  "pg_zoomed (epimone_paned_position_changed p) = pg_zoomed p"
  "pg_hidden (epimone_paned_position_changed p) = pg_hidden p"
  "pg_custom (epimone_paned_position_changed p) = pg_custom p"
  "pg_group (epimone_paned_position_changed p) = pg_group p"
  by (simp_all add: epimone_paned_position_changed_def)

lemma update_title_fields [simp]:
  "pg_root (epimone_page_update_title e p) = pg_root p"
  "pg_focused (epimone_page_update_title e p) = pg_focused p"
  "pg_zoomed (epimone_page_update_title e p) = pg_zoomed p"
  "pg_hidden (epimone_page_update_title e p) = pg_hidden p"
  "pg_custom (epimone_page_update_title e p) = pg_custom p"
  "pg_group (epimone_page_update_title e p) = pg_group p"
  by (simp_all add: epimone_page_update_title_def Let_def)

lemma update_subtitle_fields [simp]:
  "pg_root (epimone_page_update_subtitle e p) = pg_root p"
  "pg_focused (epimone_page_update_subtitle e p) = pg_focused p"
  "pg_zoomed (epimone_page_update_subtitle e p) = pg_zoomed p"
  "pg_hidden (epimone_page_update_subtitle e p) = pg_hidden p"
  "pg_custom (epimone_page_update_subtitle e p) = pg_custom p"
  "pg_group (epimone_page_update_subtitle e p) = pg_group p"
  by (simp_all add: epimone_page_update_subtitle_def Let_def split: option.splits)

lemma update_dimming_fields [simp]:
  "pg_root (epimone_page_update_dimming e p) = pg_root p"
  "pg_focused (epimone_page_update_dimming e p) = pg_focused p"
  "pg_zoomed (epimone_page_update_dimming e p) = pg_zoomed p"
  "pg_hidden (epimone_page_update_dimming e p) = pg_hidden p"
  "pg_custom (epimone_page_update_dimming e p) = pg_custom p"
  "pg_group (epimone_page_update_dimming e p) = pg_group p"
  "pg_calls (epimone_page_update_dimming e p) = pg_calls p"
  by (simp_all add: epimone_page_update_dimming_def Let_def split: option.splits)

lemma set_focused_fields [simp]:
  "pg_root (epimone_page_set_focused e x p) = pg_root p"
  "pg_focused (epimone_page_set_focused e x p) = x"
  "pg_zoomed (epimone_page_set_focused e x p) = pg_zoomed p"
  "pg_hidden (epimone_page_set_focused e x p) = pg_hidden p"
  "pg_custom (epimone_page_set_focused e x p) = pg_custom p"
  "pg_group (epimone_page_set_focused e x p) = pg_group p"
  by (simp_all add: epimone_page_set_focused_def Let_def)

text \<open>Moving the focus dims every other pane of a divided tab, and none when that is off.\<close>

lemma set_focused_dims:
  assumes "pg_root p = Some t"
  shows "pg_dimmed (epimone_page_set_focused e x p) \<inter> set (epimone_page_collect_terminals t) =
     {y \<in> set (epimone_page_collect_terminals t). pe_dim_inactive e \<and>
        length (epimone_page_collect_terminals t) > 1 \<and> x \<noteq> Some y}"
  using assms
  by (auto simp: epimone_page_set_focused_def epimone_page_update_dimming_def page_log_def Let_def)

section \<open>The invariant of a page\<close>

text \<open>
  Every widget is in the tree once, the focused pane is in the tree, and what is hidden is exactly
  what zooming the zoomed pane hides.
\<close>

definition page_ok :: "'d page \<Rightarrow> bool" where
  "page_ok p =
     (case pg_root p of
        None \<Rightarrow> pg_focused p = None \<and> pg_zoomed p = None \<and> pg_hidden p = {}
      | Some t \<Rightarrow> distinct (node_refs t) \<and>
          (case pg_focused p of Some x \<Rightarrow> x \<in> set (epimone_page_collect_terminals t) | None \<Rightarrow> True) \<and>
          (case pg_zoomed p of
             None \<Rightarrow> pg_hidden p = {}
           | Some x \<Rightarrow> x \<in> set (epimone_page_collect_terminals t) \<and> siblings_up x t \<noteq> [] \<and>
               pg_hidden p = set (siblings_up x t)))"

lemma page_okI:
  assumes "pg_root p = Some t" "distinct (node_refs t)"
    "\<And>x. pg_focused p = Some x \<Longrightarrow> x \<in> set (epimone_page_collect_terminals t)"
    "pg_zoomed p = None" "pg_hidden p = {}"
  shows "page_ok p"
  using assms by (auto simp: page_ok_def split: option.splits)

lemma page_okD:
  assumes "page_ok p" "pg_root p = Some t"
  shows "distinct (node_refs t)"
    "pg_focused p = Some x \<Longrightarrow> x \<in> set (epimone_page_collect_terminals t)"
    "pg_zoomed p = None \<Longrightarrow> pg_hidden p = {}"
    "pg_zoomed p = Some y \<Longrightarrow> y \<in> set (epimone_page_collect_terminals t)"
    "pg_zoomed p = Some y \<Longrightarrow> pg_hidden p = set (siblings_up y t)"
  using assms by (auto simp: page_ok_def)

lemma page_ok_focused_root: "page_ok p \<Longrightarrow> pg_focused p = Some x \<Longrightarrow> \<exists>t. pg_root p = Some t"
  by (auto simp: page_ok_def split: option.splits)

lemma unzoom_fields [simp]:
  "pg_root (epimone_page_unzoom e p) = pg_root p"
  "pg_focused (epimone_page_unzoom e p) = pg_focused p"
  "pg_zoomed (epimone_page_unzoom e p) = None"
  "pg_custom (epimone_page_unzoom e p) = pg_custom p"
  "pg_group (epimone_page_unzoom e p) = pg_group p"
  by (simp_all add: epimone_page_unzoom_def)

lemma unzoom_hidden [simp]: "page_ok p \<Longrightarrow> pg_hidden (epimone_page_unzoom e p) = {}"
  using siblings_up_in by (fastforce simp: epimone_page_unzoom_def page_ok_def split: option.splits)

lemma unzoom_ok [simp, intro]: "page_ok p \<Longrightarrow> page_ok (epimone_page_unzoom e p)"
  by (cases "pg_root p") (auto simp: page_ok_def split: option.splits)

lemma page_ok_cong: "pg_root p = pg_root q \<Longrightarrow> pg_focused p = pg_focused q \<Longrightarrow> pg_zoomed p = pg_zoomed q \<Longrightarrow>
   pg_hidden p = pg_hidden q \<Longrightarrow> page_ok p = page_ok q"
  unfolding page_ok_def by (simp only:)

lemma page_log_ok [simp]: "page_ok (page_log c p) = page_ok p"
  by (rule page_ok_cong) simp_all

lemma update_title_ok [simp]: "page_ok (epimone_page_update_title e p) = page_ok p"
  by (rule page_ok_cong) simp_all

lemma update_subtitle_ok [simp]: "page_ok (epimone_page_update_subtitle e p) = page_ok p"
  by (rule page_ok_cong) simp_all

lemma set_focused_ok:
  assumes "page_ok p" "pg_root p = Some t" "x \<in> set (epimone_page_collect_terminals t)"
  shows "page_ok (epimone_page_set_focused e (Some x) p)"
proof -
  have "page_ok (p\<lparr>pg_focused := Some x\<rparr>)"
    using assms by (auto simp: page_ok_def split: option.splits)
  moreover have "page_ok (epimone_page_set_focused e (Some x) p) = page_ok (p\<lparr>pg_focused := Some x\<rparr>)"
    by (rule page_ok_cong) simp_all
  ultimately show ?thesis by simp
qed

section \<open>The operations keep the invariant\<close>

lemma new_empty_ok [simp]: "page_ok epimone_page_new_empty"
  by (simp add: page_ok_def epimone_page_new_empty_def)

lemma set_tree_root_ok:
  assumes "page_ok p" "pg_zoomed p = None" "distinct (node_refs t)"
  shows "page_ok (epimone_page_set_tree_root e t p)"
proof -
  have "pg_hidden p = {}" using assms by (auto simp: page_ok_def split: option.splits)
  then show ?thesis using assms by (intro page_okI [of _ t]) (auto simp: epimone_page_set_tree_root_def)
qed

lemma adopt_leaf_ok:
  assumes "page_ok p"
  shows "page_ok (epimone_page_adopt_leaf e x s p)"
  using assms by (cases "pg_root p")
    (auto simp: epimone_page_adopt_leaf_def page_ok_def split: option.splits)

lemma new_with_cwd_ok: "page_ok (epimone_page_new_with_cwd e x s)"
  by (intro page_okI [of _ "Leaf x s"])
    (auto simp: epimone_page_new_with_cwd_def epimone_page_new_empty_def)

lemma focus_terminal_ok:
  assumes "page_ok p"
  shows "page_ok (epimone_page_focus_terminal e p)"
proof (cases "pg_root p")
  case None
  then have "pg_focused p = None" using assms by (simp add: page_ok_def)
  then show ?thesis using assms None by (simp add: epimone_page_focus_terminal_def)
next
  case (Some t)
  then have "page_ok (epimone_page_set_focused e (Some x) (page_log (Grab_focus x) p))"
    if "x \<in> set (epimone_page_collect_terminals t)" for x
    using that assms by (intro set_focused_ok) auto
  then show ?thesis
    using assms Some page_okD(2) [OF assms Some]
    by (auto simp: epimone_page_focus_terminal_def split: option.splits)
qed

lemma focus_session_ok:
  assumes "page_ok p"
  shows "page_ok (epimone_page_focus_session e sid p)"
proof (cases "find (\<lambda>(x, s). s = sid) (page_sessions p)")
  case None
  then show ?thesis using assms by (simp add: epimone_page_focus_session_def)
next
  case (Some xs)
  obtain x s where xs: "xs = (x, s)" by (cases xs)
  then have "(x, s) \<in> set (page_sessions p)" using Some by (auto simp: find_Some_iff in_set_conv_nth)
  then obtain t where t: "pg_root p = Some t" "x \<in> set (epimone_page_collect_terminals t)"
    by (cases "pg_root p") (auto simp: page_sessions_def dest: leaf_in_collect)
  then show ?thesis
    using assms Some xs by (auto simp: epimone_page_focus_session_def intro!: set_focused_ok [of _ t])
qed

lemma focus_direction_ok: "page_ok p \<Longrightarrow> page_ok (epimone_page_focus_direction f e d p)"
  by (auto simp: epimone_page_focus_direction_def Let_def split: option.splits)

lemma apply_zoom_ok:
  assumes "page_ok p" "pg_root p = Some t" "x \<in> set (epimone_page_collect_terminals t)" "pg_zoomed p = None"
  shows "page_ok (epimone_page_apply_zoom e x p)"
proof -
  have "page_ok (p\<lparr>pg_hidden := pg_hidden p \<union> set (siblings_up x t), pg_zoomed := Some x\<rparr>)"
    if "siblings_up x t \<noteq> []"
    using assms that by (auto simp: page_ok_def split: option.splits)
  then show ?thesis using assms by (simp add: epimone_page_apply_zoom_def Let_def)
qed

lemma toggle_zoom_ok:
  assumes "page_ok p"
  shows "page_ok (epimone_page_toggle_zoom e p)"
proof (cases "pg_zoomed p = None \<and> pg_focused p \<noteq> None")
  case True
  then obtain x t where "pg_focused p = Some x" "pg_root p = Some t"
    using page_ok_focused_root [OF assms] by auto
  then show ?thesis using True assms page_okD(2) [OF assms]
    by (auto simp: epimone_page_toggle_zoom_def intro: apply_zoom_ok)
next
  case False
  then show ?thesis using assms by (auto simp: epimone_page_toggle_zoom_def)
qed

text \<open>Splitting: the pane keeps its place and the new pane is right after it.\<close>

lemma split_result:
  assumes "page_ok p" "pg_focused p = Some x" "pg_root p = Some t" "leaves t = as @ (x, s) # bs"
    and fresh: "ref \<notin> set (node_refs t)" "x' \<notin> set (node_refs t)" "ref \<noteq> x'"
  obtains t' where "pg_root (epimone_page_split e d ref x' s' p) = Some t'"
    "leaves t' = as @ (x, s) # (x', s') # bs" "page_ok (epimone_page_split e d ref x' s' p)"
proof -
  note d = page_okD(1) [OF assms(1, 3)]
  let ?pane = "\<lparr>pn_ref = ref, pn_orient = d, pn_pos = (let size = (if d = Horizontal then pe_width e x else pe_height e x)
     in if 0 < size then size div 2 else 0), pn_ratio = None\<rparr>"
  let ?t = "replace_leaf x (Paned ?pane (Leaf x s) (Leaf x' s')) t"
  have x: "x \<in> set (epimone_page_collect_terminals t)" by (rule page_okD(2) [OF assms(1, 3, 2)])
  have at: "session_at x t = Some s" using d by (intro session_at_leaf) (auto simp: assms(4) distinct_collect)
  have root: "pg_root (epimone_page_split e d ref x' s' p) = Some ?t"
    using assms at by (simp add: epimone_page_split_def Let_def)
  have l: "leaves ?t = as @ (x, s) # (x', s') # bs"
    using leaves_replace_split [OF d assms(4), of "Paned ?pane (Leaf x s) (Leaf x' s')"] by simp
  have "mset (node_refs ?t) + {#x#} = mset (ref # x' # node_refs t) + {#x#}"
    using refs_replace [OF d x, of "Paned ?pane (Leaf x s) (Leaf x' s')"] by simp
  then have "mset (node_refs ?t) = mset (ref # x' # node_refs t)" by simp
  then have "distinct (node_refs ?t) = distinct (ref # x' # node_refs t)" by (rule mset_eq_imp_distinct_iff)
  then have "distinct (node_refs ?t)" using fresh d by simp
  moreover have "x' \<in> set (epimone_page_collect_terminals ?t)" using l leaf_in_collect [of x' s' ?t] by simp
  ultimately have "page_ok (epimone_page_split e d ref x' s' p)"
    using assms(1) root
    by (intro page_okI [OF root]) (auto simp: epimone_page_split_def Let_def assms(2))
  then show ?thesis using root l that by blast
qed

lemma collapse_ok:
  assumes "distinct (node_refs t)"
  shows "distinct (node_refs (collapse x t))"
  using refs_collapse [of x t] assms
  by (metis mset_subset_eq_add_left subset_mset.le_iff_add distinct_append mset_append ex_mset mset_eq_imp_distinct_iff)

lemma leaf_without_sibling:
  assumes "leaves t = as @ (x, s) # bs" "sibling_of x t = None"
  shows "as @ bs = []"
proof -
  have "x \<in> set (epimone_page_collect_terminals t)" using assms(1) leaf_in_collect [of x s t] by simp
  then obtain y u where "t = Leaf y u" using assms(2) by (auto simp: sibling_of_None)
  then show ?thesis using assms(1) by (simp add: Cons_eq_append_conv)
qed

lemma leaf_with_sibling:
  assumes "leaves t = as @ (x, s) # bs" "sibling_of x t = Some u"
  shows "as @ bs \<noteq> []"
proof -
  obtain p l r where "t = Paned p l r" using assms(2) by (cases t) auto
  then have "length (leaves t) \<ge> 2"
    using leaves_nonempty [of l] leaves_nonempty [of r] by (cases "leaves l"; cases "leaves r") auto
  then show ?thesis using assms(1) by (cases "as @ bs") auto
qed

text \<open>Removing: the other panes stay, in their order, and the focus is on one of them.\<close>

lemma remove_result:
  assumes "page_ok p" "pg_root p = Some t" "leaves t = as @ (x, s) # bs" "as @ bs \<noteq> []"
  obtains t' where "pg_root (epimone_page_remove_terminal e x p) = Some t'" "leaves t' = as @ bs"
    "page_ok (epimone_page_remove_terminal e x p)"
    "pg_focused p \<noteq> Some x \<longrightarrow> pg_focused (epimone_page_remove_terminal e x p) = pg_focused p"
    "pg_focused p = Some x \<longrightarrow> (\<exists>y \<in> set (map fst (as @ bs)). pg_focused (epimone_page_remove_terminal e x p) = Some y)"
proof -
  note d = page_okD(1) [OF assms(1, 2)]
  obtain u where u: "sibling_of x t = Some u"
    using leaf_without_sibling [OF assms(3)] assms(4) by (cases "sibling_of x t") auto
  have l: "leaves (collapse x t) = as @ bs" by (rule leaves_collapse_split [OF d assms(3, 4)])
  have dist: "distinct (node_refs (collapse x t))" by (rule collapse_ok [OF d])
  have terms: "epimone_page_collect_terminals (collapse x t) = map fst (as @ bs)"
    using l by (metis map_fst_leaves)
  have first: "epimone_page_first_terminal u \<in> set (map fst (as @ bs))"
    using sibling_first_survives [OF d u] by (simp add: terms)
  have foc: "y \<in> set (map fst (as @ bs))" if "pg_focused p = Some y" "y \<noteq> x" for y
    using page_okD(2) [OF assms(1, 2) that(1)] that(2) assms(3)
    by (auto simp flip: map_fst_leaves)
  have root: "pg_root (epimone_page_remove_terminal e x p) = Some (collapse x t)"
    and focus: "pg_focused (epimone_page_remove_terminal e x p) =
      (if pg_focused p = Some x then Some (epimone_page_first_terminal u) else pg_focused p)"
    using assms(2) u by (simp_all add: epimone_page_remove_terminal_def Let_def)
  have "page_ok (epimone_page_remove_terminal e x p)"
    using assms(1, 2) u dist focus foc first
    by (intro page_okI [OF root])
      (auto simp: epimone_page_remove_terminal_def Let_def terms simp del: set_map split: if_splits)
  then show ?thesis using root l focus first by (intro that [of "collapse x t"]) auto
qed

lemma remove_last:
  assumes "page_ok p" "pg_root p = Some t" "leaves t = [(x, s)]"
  shows "pg_root (epimone_page_remove_terminal e x p) = Some t"
    "pg_calls (epimone_page_remove_terminal e x p) = pg_calls (epimone_page_unzoom e p) @ [Close_page]"
    "pg_focused (epimone_page_remove_terminal e x p) = None"
    "page_ok (epimone_page_remove_terminal e x p)"
proof -
  have none: "sibling_of x t = None"
    using leaf_with_sibling [of t "[]" x s "[]"] assms(3) by (cases "sibling_of x t") auto
  show root: "pg_root (epimone_page_remove_terminal e x p) = Some t"
    and "pg_calls (epimone_page_remove_terminal e x p) = pg_calls (epimone_page_unzoom e p) @ [Close_page]"
    and "pg_focused (epimone_page_remove_terminal e x p) = None"
    using assms(2) none by (simp_all add: epimone_page_remove_terminal_def Let_def)
  show "page_ok (epimone_page_remove_terminal e x p)"
    using assms(1) none page_okD(1) [OF assms(1, 2)]
    by (intro page_okI [OF root]) (auto simp: epimone_page_remove_terminal_def Let_def assms(2))
qed

text \<open>Taking the focused pane out of its tab hands over the very same pane.\<close>

lemma take_result:
  assumes "page_ok p" "pg_focused p = Some x" "pg_root p = Some t" "leaves t = as @ (x, s) # bs"
    "as @ bs \<noteq> []"
  obtains t' q where "epimone_page_take_focused_leaf e p = (Some (x, s), q)"
    "pg_root q = Some t'" "leaves t' = as @ bs" "page_ok q"
    "\<exists>y \<in> set (map fst (as @ bs)). pg_focused q = Some y"
proof -
  note d = page_okD(1) [OF assms(1, 3)]
  obtain u where u: "sibling_of x t = Some u"
    using leaf_without_sibling [OF assms(4)] assms(5) by (cases "sibling_of x t") auto
  have at: "session_at x t = Some s" using d by (intro session_at_leaf) (auto simp: assms(4) distinct_collect)
  have l: "leaves (collapse x t) = as @ bs" by (rule leaves_collapse_split [OF d assms(4, 5)])
  have terms: "epimone_page_collect_terminals (collapse x t) = map fst (as @ bs)"
    using l by (metis map_fst_leaves)
  have first: "epimone_page_first_terminal u \<in> set (map fst (as @ bs))"
    using sibling_first_survives [OF d u] by (simp add: terms)
  define q where "q = page_log Schedule_save (epimone_page_set_focused e
      (Some (epimone_page_first_terminal u)) ((epimone_page_unzoom e p)\<lparr>pg_root := Some (collapse x t)\<rparr>))"
  have "epimone_page_take_focused_leaf e p = (Some (x, s), q)"
    using assms(2, 3) u at by (simp add: epimone_page_take_focused_leaf_def q_def)
  moreover have "page_ok q"
    using assms(1) collapse_ok [OF d] first by (intro page_okI [of _ "collapse x t"]) (auto simp: q_def terms)
  ultimately show ?thesis using l first by (intro that [of q "collapse x t"]) (auto simp: q_def)
qed

lemma take_single:
  assumes "pg_root p = Some t" "leaves t = [(x, s)]" "pg_focused p = Some x"
  shows "epimone_page_take_focused_leaf e p = (None, epimone_page_unzoom e p)"
proof -
  have "sibling_of x t = None"
    using leaf_with_sibling [of t "[]" x s "[]"] assms(2) by (cases "sibling_of x t") auto
  then show ?thesis using assms by (simp add: epimone_page_take_focused_leaf_def)
qed

end
