(* ===== verification/Page_Props.thy ===== *)
theory Page_Props
  imports Page_Tree
begin

text \<open>
  What a tab promises: dividing and closing panes, moving a pane to a tab of its own, zoom, and
  moving the focus by direction.
\<close>

section \<open>A page to evaluate on\<close>

definition wit_page_env :: "rat page_env" where
  "wit_page_env = \<lparr>pe_title = (\<lambda>_. Some (lit ''sh'')), pe_cwd = (\<lambda>_. None), pe_home = None, pe_dim_inactive = True,
     pe_width = (\<lambda>_. 800), pe_height = (\<lambda>_. 600),
     pe_bounds = (\<lambda>x. if x = 1 then Some (0, 0, 400, 600) else if x = 2 then Some (400, 0, 400, 300)
                      else if x = 3 then Some (400, 300, 400, 300) else None),
     pe_grid = (\<lambda>_. (80, 24))\<rparr>"

definition wit_pane :: "nat \<Rightarrow> orientation \<Rightarrow> rat pane" where
  "wit_pane r d = \<lparr>pn_ref = r, pn_orient = d, pn_pos = 400, pn_ratio = None\<rparr>"

definition wit_tree :: "rat tree" where
  "wit_tree = Paned (wit_pane 10 Horizontal) (Leaf 1 5) (Paned (wit_pane 11 Vertical) (Leaf 2 6) (Leaf 3 7))"

definition wit_page :: "rat page" where
  "wit_page = epimone_page_new_empty\<lparr>pg_root := Some wit_tree, pg_focused := Some 1\<rparr>"

lemma wit_page_ok: "page_ok wit_page"
  by (simp add: page_ok_def wit_page_def wit_tree_def wit_pane_def epimone_page_new_empty_def)

lemma wit_page_fields:
  "pg_root wit_page = Some wit_tree" "pg_focused wit_page = Some 1" "pg_zoomed wit_page = None"
  by (simp_all add: wit_page_def epimone_page_new_empty_def)

lemma wit_tree_leaves: "leaves wit_tree = [] @ (1, 5) # [(2, 6), (3, 7)]"
  "epimone_page_collect_terminals wit_tree = [1, 2, 3]"
  by (simp_all add: wit_tree_def)

section \<open>Dividing and closing\<close>

text \<open>C17. In a well formed tab, splitting the focused pane puts the new pane right after it, keeps every
  other pane in its place with its session, and focuses the new one; detaching the focused pane
  removes that pane only, leaves the others in order and moves the focus to one of them; detaching
  the last pane asks for the tab to be closed. All of them end a zoom and keep the tab well formed.
\<close>

theorem restructuring_keeps_the_other_panes:
  assumes "page_ok p" "pg_root p = Some t" "pg_focused p = Some x" "leaves t = as @ (x, s) # bs"
  shows "(\<forall>d ref x' s'. ref \<notin> set (node_refs t) \<longrightarrow> x' \<notin> set (node_refs t) \<longrightarrow> ref \<noteq> x' \<longrightarrow>
            (let q = epimone_page_split e d ref x' s' p in
             (\<exists>t'. pg_root q = Some t' \<and> leaves t' = as @ (x, s) # (x', s') # bs) \<and>
             pg_focused q = Some x' \<and> pg_zoomed q = None \<and> page_ok q)) \<and>
         (let q = epimone_page_close_pane e p in
          pg_zoomed q = None \<and> page_ok q \<and>
          (if as @ bs = [] then pg_focused q = None \<and> last (pg_calls q) = Close_page \<and> pg_root q = Some t
           else (\<exists>t'. pg_root q = Some t' \<and> leaves t' = as @ bs) \<and>
                (\<exists>y \<in> fst ` set (as @ bs). pg_focused q = Some y)))"
proof -
  let ?R = "epimone_page_remove_terminal e x p"
  have split: "let q = epimone_page_split e d ref x' s' p in
      (\<exists>t'. pg_root q = Some t' \<and> leaves t' = as @ (x, s) # (x', s') # bs) \<and>
      pg_focused q = Some x' \<and> pg_zoomed q = None \<and> page_ok q"
    if fresh: "ref \<notin> set (node_refs t)" "x' \<notin> set (node_refs t)" "ref \<noteq> x'" for d ref x' s'
  proof -
    let ?q = "epimone_page_split e d ref x' s' p"
    obtain t' where "pg_root ?q = Some t'" "leaves t' = as @ (x, s) # (x', s') # bs" "page_ok ?q"
      by (rule split_result [OF assms(1, 3, 2, 4) fresh])
    moreover have "pg_focused ?q = Some x'" "pg_zoomed ?q = None"
      by (simp_all add: Let_def epimone_page_split_def assms(3))
    ultimately show ?thesis by (simp add: Let_def)
  qed
  have close: "epimone_page_close_pane e p = ?R"
    by (simp add: epimone_page_close_pane_def assms(3))
  have unzoomed: "pg_zoomed ?R = None"
    by (simp add: epimone_page_remove_terminal_def Let_def split: option.splits)
  have "if as @ bs = [] then pg_focused ?R = None \<and> last (pg_calls ?R) = Close_page \<and> pg_root ?R = Some t
        else (\<exists>t'. pg_root ?R = Some t' \<and> leaves t' = as @ bs) \<and>
             (\<exists>y \<in> fst ` set (as @ bs). pg_focused ?R = Some y)" and "page_ok ?R"
  proof -
    show "page_ok ?R"
      using remove_last(4) [OF assms(1, 2)] remove_result [OF assms(1, 2, 4)] assms(4)
      by (cases "as @ bs = []") (auto, blast+)
    show "if as @ bs = [] then pg_focused ?R = None \<and> last (pg_calls ?R) = Close_page \<and> pg_root ?R = Some t
        else (\<exists>t'. pg_root ?R = Some t' \<and> leaves t' = as @ bs) \<and>
             (\<exists>y \<in> fst ` set (as @ bs). pg_focused ?R = Some y)"
    proof (cases "as @ bs = []")
      case True
      then have "leaves t = [(x, s)]" using assms(4) by simp
      from remove_last [OF assms(1, 2) this, of e] True show ?thesis by simp
    next
      case False
      obtain t' where "pg_root ?R = Some t'" "leaves t' = as @ bs"
        "\<exists>y \<in> set (map fst (as @ bs)). pg_focused ?R = Some y"
        using remove_result [OF assms(1, 2, 4) False, of e] assms(3) by metis
      then show ?thesis using False by auto
    qed
  qed
  then show ?thesis using split unfolding close Let_def by (simp add: unzoomed)
qed

theorem restructuring_keeps_the_other_panes_witness:
  "\<exists>t'. pg_root (epimone_page_close_pane wit_page_env wit_page) = Some t' \<and> leaves t' = [(2, 6), (3, 7)]"
  using restructuring_keeps_the_other_panes
    [OF wit_page_ok wit_page_fields(1, 2) wit_tree_leaves(1), of wit_page_env]
  by (simp add: Let_def)

text \<open>Opening the focused pane in a new tab moves that one terminal, with its session, out of a tab
  of two or more panes: the new tab holds exactly it and is focused on it, the old tab keeps all the
  others in order, and both are well formed. A lone pane is left where it is.
\<close>

theorem open_in_new_tab_moves_one_pane:
  assumes "page_ok p" "pg_root p = Some t" "pg_focused p = Some x" "leaves t = as @ (x, s) # bs"
  shows "case epimone_page_take_focused_leaf e p of
           (None, q) \<Rightarrow> as @ bs = [] \<and> pg_root q = Some t \<and> pg_focused q = Some x
         | (Some (y, u), q) \<Rightarrow>
             (let n = epimone_page_adopt_leaf e y u epimone_page_new_empty in
              as @ bs \<noteq> [] \<and> pg_root n = Some (Leaf x s) \<and> pg_focused n = Some x \<and> page_ok n \<and>
              page_sessions q = as @ bs \<and> page_ok q \<and>
              epimone_page_get_focused_session n = s \<and>
              (s \<noteq> 0 \<longrightarrow> epimone_page_has_session n s) \<and>
              (\<exists>y \<in> fst ` set (as @ bs). pg_focused q = Some y))"
proof (cases "as @ bs = []")
  case True
  then have l: "leaves t = [(x, s)]" using assms(4) by simp
  show ?thesis using True assms(2, 3) by (simp add: take_single [OF assms(2) l assms(3)])
next
  case False
  from take_result [OF assms(1, 3, 2, 4) False, of e] obtain t' q where
    q: "epimone_page_take_focused_leaf e p = (Some (x, s), q)" "pg_root q = Some t'" "leaves t' = as @ bs"
      "page_ok q" "\<exists>y \<in> set (map fst (as @ bs)). pg_focused q = Some y" by blast
  have "page_ok (epimone_page_adopt_leaf e x s epimone_page_new_empty)"
    by (rule adopt_leaf_ok [OF new_empty_ok])
  then show ?thesis using q False
    by (auto simp: Let_def epimone_page_adopt_leaf_def epimone_page_get_focused_session_def page_sessions_def
        epimone_page_has_session_def epimone_page_new_empty_def)
qed

theorem open_in_new_tab_moves_one_pane_witness:
  "case epimone_page_take_focused_leaf wit_page_env wit_page of
     (None, q) \<Rightarrow> False | (Some (y, u), q) \<Rightarrow> page_sessions q = [(2, 6), (3, 7)]"
  using open_in_new_tab_moves_one_pane
    [OF wit_page_ok wit_page_fields(1, 2) wit_tree_leaves(1), of wit_page_env]
  by (auto simp: Let_def split: prod.splits option.splits)

section \<open>Zoom\<close>

lemma toggle_zoom_on:
  assumes "page_ok p" "pg_root p = Some t" "pg_focused p = Some x" "pg_zoomed p = None"
    "epimone_page_get_pane_count p > 1"
  shows "pg_zoomed (epimone_page_toggle_zoom e p) = Some x" "pg_root (epimone_page_toggle_zoom e p) = Some t"
    "pg_hidden (epimone_page_toggle_zoom e p) = set (siblings_up x t)"
proof -
  have "siblings_up x t \<noteq> []" using assms(2, 5) by (auto simp: siblings_up_Nil epimone_page_get_pane_count_def)
  then show "pg_zoomed (epimone_page_toggle_zoom e p) = Some x" "pg_root (epimone_page_toggle_zoom e p) = Some t"
    "pg_hidden (epimone_page_toggle_zoom e p) = set (siblings_up x t)"
    using assms page_okD(3) [OF assms(1, 2, 4)]
    by (simp_all add: epimone_page_toggle_zoom_def epimone_page_apply_zoom_def Let_def)
qed

lemma update_title_zoomed:
  "pg_zoomed p \<noteq> None \<Longrightarrow> \<exists>base. pg_title (epimone_page_update_title e p) = zoom_marker @ base"
  by (simp add: epimone_page_update_title_def Let_def page_log_def)

text \<open>Zooming a divided tab shows the focused pane and nothing else, and marks the title; zooming
  again shows every pane, in order. The tree is the same throughout, so nothing is reparented, and a
  tab of one pane does not zoom.
\<close>

theorem zoom_shows_one_pane_and_back:
  assumes "page_ok p" "pg_root p = Some t" "pg_focused p = Some x" "pg_zoomed p = None"
  shows "let q = epimone_page_toggle_zoom e p; r = epimone_page_toggle_zoom e q in
         pg_root q = Some t \<and> page_ok q \<and>
         (if epimone_page_get_pane_count p = 1 then q = p
          else shown (pg_hidden q) t = [x] \<and> take (length zoom_marker) (pg_title q) = zoom_marker \<and>
               pg_root r = Some t \<and> shown (pg_hidden r) t = epimone_page_collect_terminals t \<and>
               pg_zoomed r = None \<and> pg_hidden r = pg_hidden p)"
proof (cases "epimone_page_get_pane_count p = 1")
  case True
  then obtain y s where "t = Leaf y s"
    using assms(2) by (cases t) (auto simp: epimone_page_get_pane_count_def add_is_1)
  then show ?thesis using assms True
    by (simp add: Let_def epimone_page_toggle_zoom_def epimone_page_apply_zoom_def)
next
  case False
  then have "epimone_page_get_pane_count p > 1"
    using assms(2) by (cases "epimone_page_collect_terminals t") (auto simp: epimone_page_get_pane_count_def)
  note on = toggle_zoom_on [OF assms this, of e]
  note q = toggle_zoom_ok [OF assms(1), of e]
  have "shown (set (siblings_up x t)) t = [x]"
    by (rule shown_siblings_up [OF page_okD(1) [OF assms(1, 2)] page_okD(2) [OF assms(1, 2, 3)]])
  moreover have "epimone_page_toggle_zoom e (epimone_page_toggle_zoom e p) =
      epimone_page_unzoom e (epimone_page_toggle_zoom e p)"
    using on(1) by (simp add: epimone_page_toggle_zoom_def [of e "epimone_page_toggle_zoom e p"])
  moreover have "epimone_page_toggle_zoom e p = epimone_page_update_title e
      (p\<lparr>pg_hidden := pg_hidden p \<union> set (siblings_up x t), pg_zoomed := Some x\<rparr>)"
    using assms on(1) by (auto simp: epimone_page_toggle_zoom_def epimone_page_apply_zoom_def Let_def split: if_splits)
  then have "take (length zoom_marker) (pg_title (epimone_page_toggle_zoom e p)) = zoom_marker"
    using update_title_zoomed [of "p\<lparr>pg_hidden := pg_hidden p \<union> set (siblings_up x t), pg_zoomed := Some x\<rparr>" e]
    by auto
  ultimately show ?thesis using on q False page_okD(3) [OF assms(1, 2, 4)]
    by (simp add: Let_def shown_all)
qed

theorem zoom_shows_one_pane_and_back_witness:
  "shown (pg_hidden (epimone_page_toggle_zoom wit_page_env wit_page)) wit_tree = [1]"
  using zoom_shows_one_pane_and_back [OF wit_page_ok wit_page_fields, of wit_page_env]
  by (simp add: Let_def epimone_page_get_pane_count_def wit_page_fields wit_tree_leaves)

section \<open>Focus by direction\<close>

lemma not_beats_trans:
  assumes "\<And>a b c. fp_less f a b \<Longrightarrow> fp_less f a c \<or> fp_less f c b" "\<not> beats f a b" "\<not> beats f b c"
  shows "\<not> beats f a c"
  using assms by (auto simp: beats_def)

lemma dir_search_sound:
  "dir_search f score cs best = Some (b, a) \<Longrightarrow> best = Some (b, a) \<or> (b \<in> set cs \<and> score b = Some a)"
proof (induction cs arbitrary: best)
  case (Cons c cs)
  from Cons.IH Cons.prems show ?case
    by (cases "score c"; cases best) (auto split: if_splits, (metis option.inject prod.inject)+)
qed simp

lemma dir_search_best:
  assumes neg: "\<And>a b c. fp_less f a b \<Longrightarrow> fp_less f a c \<or> fp_less f c b"
    and asy: "\<And>a b. fp_less f a b \<Longrightarrow> \<not> fp_less f b a"
  shows "(\<forall>b0 a0. best = Some (b0, a0) \<longrightarrow>
            (\<exists>b a. dir_search f score cs best = Some (b, a) \<and> \<not> beats f a0 a)) \<and>
         (\<forall>c a0. c \<in> set cs \<longrightarrow> score c = Some a0 \<longrightarrow>
            (\<exists>b a. dir_search f score cs best = Some (b, a) \<and> \<not> beats f a0 a))"
proof (induction cs arbitrary: best)
  case Nil
  then show ?case using asy by (auto simp: beats_def)
next
  case (Cons c cs)
  show ?case
  proof (cases "score c")
    case None
    then show ?thesis using Cons.IH [of best] by auto
  next
    case (Some a1)
    define best' where "best' = (case best of None \<Rightarrow> Some (c, a1)
       | Some (b, a) \<Rightarrow> if beats f a1 a then Some (c, a1) else best)"
    have step: "dir_search f score (c # cs) best = dir_search f score cs best'"
      using Some by (simp add: best'_def)
    have "best' \<noteq> None" by (auto simp: best'_def split: option.split)
    then obtain b' a' where b': "best' = Some (b', a')" by auto
    have self: "\<not> beats f a a" for a using asy by (auto simp: beats_def)
    have asym: "beats f a b \<Longrightarrow> \<not> beats f b a" for a b using asy by (auto simp: beats_def)
    have old: "\<not> beats f a1 a'" "\<And>b0 a0. best = Some (b0, a0) \<Longrightarrow> \<not> beats f a0 a'"
      using b' self [of a'] asym by (auto simp: best'_def split: option.splits if_splits)
    from conjunct1 [OF Cons.IH [of best'], rule_format, OF b'] obtain b a where
      r: "dir_search f score cs best' = Some (b, a)" "\<not> beats f a' a" by blast
    have "\<not> beats f a1 a" by (rule not_beats_trans [OF neg old(1) r(2)])
    moreover have "\<not> beats f a0 a" if "best = Some (b0, a0)" for b0 a0
      by (rule not_beats_trans [OF neg old(2) [OF that] r(2)])
    moreover have "\<not> beats f a0 a" if "c' \<in> set cs" "score c' = Some a0" for c' a0
      using conjunct2 [OF Cons.IH [of best'], rule_format, OF that] r(1) by simp
    ultimately show ?thesis using Some unfolding step r(1) by auto
  qed
qed

text \<open>Moving the focus in a direction asks for the focus of a pane that lies in that direction, never
  the focused one, and no other pane in that direction is better: one that overlaps the focused pane
  in the other axis is preferred, and among equals the nearest. With no pane there, focus stays. The
  comparison of doubles is that of values that are not NaN: a strict weak order.
\<close>

theorem focus_direction_picks_the_nearest:
  assumes "pg_focused p = Some x" "pg_root p = Some t" "pe_bounds e x = Some cur"
    and order: "\<forall>a b c. fp_less f a b \<longrightarrow> fp_less f a c \<or> fp_less f c b" "\<forall>a b. fp_less f a b \<longrightarrow> \<not> fp_less f b a"
  shows "let q = epimone_page_focus_direction f e d p; u = epimone_page_unzoom e p;
             score = dir_score f d (pe_bounds e) x cur; panes = set (epimone_page_collect_terminals t) in
         (q = u \<and> (\<forall>c \<in> panes. score c = None)) \<or>
         (\<exists>b a. q = page_log (Grab_focus b) u \<and> b \<in> panes \<and> score b = Some a \<and>
            (\<forall>c \<in> panes. \<forall>a'. score c = Some a' \<longrightarrow> \<not> beats f a' a))"
proof -
  let ?cs = "epimone_page_collect_terminals t" and ?score = "dir_score f d (pe_bounds e) x cur"
  have neg: "\<And>a b c. fp_less f a b \<Longrightarrow> fp_less f a c \<or> fp_less f c b" and asy: "\<And>a b. fp_less f a b \<Longrightarrow> \<not> fp_less f b a"
    using order by blast+
  note best = dir_search_best [of f None ?score ?cs, OF neg asy]
  show ?thesis
  proof (cases "dir_search f ?score ?cs None")
    case None
    then have "epimone_page_focus_direction f e d p = epimone_page_unzoom e p"
      using assms by (simp add: epimone_page_focus_direction_def)
    moreover have "\<forall>c \<in> set ?cs. ?score c = None" using best None by (metis option.distinct(1) option.exhaust)
    ultimately show ?thesis by (simp add: Let_def)
  next
    case (Some ba)
    obtain b a where ba: "ba = (b, a)" by (cases ba)
    have "epimone_page_focus_direction f e d p = page_log (Grab_focus b) (epimone_page_unzoom e p)"
      using assms Some ba by (simp add: epimone_page_focus_direction_def)
    moreover have "b \<in> set ?cs \<and> ?score b = Some a"
      using dir_search_sound [OF Some [unfolded ba]] by simp
    moreover have "\<forall>c \<in> set ?cs. \<forall>a'. ?score c = Some a' \<longrightarrow> \<not> beats f a' a" using best Some ba by auto
    ultimately show ?thesis unfolding Let_def by blast
  qed
qed

lemma wit_score: "dir_score rat_fp Dir_left (pe_bounds wit_page_env) 3 (400, 300, 400, 300) 1 = Some (True, 400)"
  by (simp add: dir_score_def wit_page_env_def dir_candidate_def rat_fp_def)

theorem focus_direction_picks_the_nearest_witness:
  "\<exists>b. epimone_page_focus_direction rat_fp wit_page_env Dir_left (wit_page\<lparr>pg_focused := Some 3\<rparr>) =
     page_log (Grab_focus b) (epimone_page_unzoom wit_page_env (wit_page\<lparr>pg_focused := Some 3\<rparr>))"
proof -
  have h: "pg_focused (wit_page\<lparr>pg_focused := Some 3\<rparr>) = Some 3" "pg_root (wit_page\<lparr>pg_focused := Some 3\<rparr>) = Some wit_tree"
    "pe_bounds wit_page_env 3 = Some (400, 300, 400, 300)"
    "\<forall>a b c. fp_less rat_fp a b \<longrightarrow> fp_less rat_fp a c \<or> fp_less rat_fp c b" "\<forall>a b. fp_less rat_fp a b \<longrightarrow> \<not> fp_less rat_fp b a"
    by (auto simp: wit_page_fields wit_page_env_def rat_fp_def)
  show ?thesis
    using focus_direction_picks_the_nearest [OF h, of Dir_left] wit_score
    by (auto simp: Let_def wit_tree_leaves)
qed

end
