(* ===== verification/Client_Api.thy ===== *)
theory Client_Api
  imports Client
begin

text \<open>
  The client library as the rest of the GUI sees it: each function on a world that it may change,
  failures as \<open>None\<close>, \<open>False\<close> and 0, and its instance by the functions of Client, where the world
  is the sequence of connections that will be made.
\<close>

text \<open>\<open>api_bridge\<close> is not of the library: it is the local terminal that a data channel is bridged to.\<close>

record 'w client_api =
  api_list_sessions :: "'w \<Rightarrow> EpiSessionInfo list option \<times> 'w"
  api_list_groups :: "'w \<Rightarrow> EpiGroupInfo list option \<times> 'w"
  api_instance_id :: "'w \<Rightarrow> u64 \<times> 'w"
  api_group_set :: "u64 \<Rightarrow> byte list \<Rightarrow> 'w \<Rightarrow> bool \<times> 'w"
  api_group_new :: "byte list \<Rightarrow> 'w \<Rightarrow> u64 \<times> 'w"
  api_group_add :: "u64 \<Rightarrow> u64 \<Rightarrow> 'w \<Rightarrow> bool \<times> 'w"
  api_attach_session :: "u64 \<Rightarrow> 'w \<Rightarrow> bool \<times> 'w"
  api_bridge :: "'w \<Rightarrow> bool \<times> 'w"
  api_kill_session :: "u64 \<Rightarrow> 'w \<Rightarrow> 'w"
  api_resize_session :: "u64 \<Rightarrow> u32 \<Rightarrow> u32 \<Rightarrow> 'w \<Rightarrow> 'w"

text \<open>What a function returns when its error is not looked at.\<close>

definition or_none :: "(client_error + 'a) \<times> call list \<Rightarrow> 'a option" where
  "or_none r = (case fst r of Inl _ \<Rightarrow> None | Inr x \<Rightarrow> Some x)"

definition or_zero :: "(client_error + u64) \<times> call list \<Rightarrow> u64" where
  "or_zero r = (case fst r of Inl _ \<Rightarrow> 0 | Inr x \<Rightarrow> x)"

definition succeeds :: "(client_error + 'a) \<times> call list \<Rightarrow> bool" where
  "succeeds r = (case fst r of Inl _ \<Rightarrow> False | Inr _ \<Rightarrow> True)"

text \<open>
  The library over connections: the \<open>n\<close>-th call uses the \<open>n\<close>-th connection; the result of opening a
  local terminal is a sequence of its own.
\<close>

record wire =
  wi_links :: "nat \<Rightarrow> link"
  wi_bridges :: "nat \<Rightarrow> bool"
  wi_calls :: nat
  wi_opened :: nat

definition used_link :: "(link \<Rightarrow> 'a) \<Rightarrow> wire \<Rightarrow> 'a \<times> wire" where
  "used_link h w = (h (wi_links w (wi_calls w)), w\<lparr>wi_calls := wi_calls w + 1\<rparr>)"

definition library_api :: "client \<Rightarrow> wire client_api" where
  "library_api c = \<lparr>
     api_list_sessions = used_link (\<lambda>l. or_none (epimone_client_list_sessions c l)),
     api_list_groups = used_link (\<lambda>l. map_option snd (or_none (epimone_client_list_groups c l))),
     api_instance_id = used_link (\<lambda>l. or_zero (epimone_client_instance_id c l)),
     api_group_set = (\<lambda>gid blob. used_link (\<lambda>l. succeeds (epimone_client_group_set c l gid blob))),
     api_group_new = (\<lambda>blob. used_link (\<lambda>l. or_zero (epimone_client_group_new c l blob))),
     api_group_add = (\<lambda>gid sid. used_link (\<lambda>l. succeeds (epimone_client_group_add c l gid sid))),
     api_attach_session = (\<lambda>sid. used_link (\<lambda>l. succeeds (epimone_client_attach_session c l sid))),
     api_bridge = (\<lambda>w. (wi_bridges w (wi_opened w), w\<lparr>wi_opened := wi_opened w + 1\<rparr>)),
     api_kill_session = (\<lambda>sid w. snd (used_link (\<lambda>l. epimone_client_kill_session c l sid) w)),
     api_resize_session = (\<lambda>sid rows cols w. snd (used_link (\<lambda>l. epimone_client_resize_session c l sid rows cols) w))\<rparr>"

end
