(* ===== verification/Bridge.thy ===== *)
theory Bridge
  imports Page Client_Api Server
begin

text \<open>
  The bridge of a pane (src/src/epimone-page.c): the two-way pump between the data channel of a
  session and the local terminal that VTE drives, the death of a pane, the muting of replayed bells
  and the forwarding of window sizes. Results of read(2) and write(2) are arguments, the bytes a
  bridge has passed on are kept in it, and a source is on or off.
\<close>

record bridge =
  br_session :: u64
  br_sock_fd :: int
  br_slave_fd :: int
  br_to_sock :: "byte list"
  br_to_slave :: "byte list"
  br_sock_in :: bool
  br_sock_out :: bool
  br_slave_in :: bool
  br_slave_out :: bool
  br_death :: bool
  br_last_rows :: int
  br_last_cols :: int
  br_resize :: bool
  br_resize_pending :: bool
  br_dead :: bool
  br_attached_at :: int
  br_bell_quiet :: bool
  br_suppressed :: bool
  br_sock_sent :: "byte list"
  br_slave_sent :: "byte list"

definition EPI_PUMP_CHUNK :: nat where "EPI_PUMP_CHUNK = 65536"
definition EPI_BELL_QUIET_MS :: int where "EPI_BELL_QUIET_MS = 200"
definition EPI_BELL_MAX_MS :: int where "EPI_BELL_MAX_MS = 3000"

section \<open>Writing\<close>

text \<open>
  What is written, what is left, and whether there was no hard error. A descriptor without further
  results would block.
\<close>

fun flush_buf :: "wres list \<Rightarrow> byte list \<Rightarrow> byte list \<times> byte list \<times> bool" where
  "flush_buf ws [] = ([], [], True)"
| "flush_buf [] buf = ([], buf, True)"
| "flush_buf (W_ok n # ws) buf =
     (if 0 < n then
        (case flush_buf ws (drop n buf) of (sent, rest, ok) \<Rightarrow> (take n buf @ sent, rest, ok))
      else ([], buf, False))"
| "flush_buf (W_again # ws) buf = ([], buf, True)"
| "flush_buf (W_intr # ws) buf = flush_buf ws buf"
| "flush_buf (W_err # ws) buf = ([], buf, False)"

definition flush_sock :: "wres list \<Rightarrow> bridge \<Rightarrow> bridge \<times> bool" where
  "flush_sock ws b =
     (case flush_buf ws (br_to_sock b) of (sent, rest, ok) \<Rightarrow>
        (b\<lparr>br_to_sock := rest, br_sock_sent := br_sock_sent b @ sent\<rparr>, ok))"

definition flush_slave :: "wres list \<Rightarrow> bridge \<Rightarrow> bridge \<times> bool" where
  "flush_slave ws b =
     (case flush_buf ws (br_to_slave b) of (sent, rest, ok) \<Rightarrow>
        (b\<lparr>br_to_slave := rest, br_slave_sent := br_slave_sent b @ sent\<rparr>, ok))"

definition schedule_death :: "bridge \<Rightarrow> bridge" where
  "schedule_death b = (if br_dead b then b else b\<lparr>br_dead := True, br_death := True\<rparr>)"

definition on_sock_writable :: "bool \<Rightarrow> wres list \<Rightarrow> bridge \<Rightarrow> bridge" where
  "on_sock_writable err_or_hup ws b =
     (if err_or_hup then schedule_death (b\<lparr>br_sock_out := False\<rparr>)
      else case flush_sock ws b of
             (b1, False) \<Rightarrow> schedule_death (b1\<lparr>br_sock_out := False\<rparr>)
           | (b1, True) \<Rightarrow> if br_to_sock b1 = [] then b1\<lparr>br_sock_out := False\<rparr> else b1)"

definition on_slave_writable :: "wres list \<Rightarrow> bridge \<Rightarrow> bridge" where
  "on_slave_writable ws b =
     (case flush_slave ws b of
        (b1, False) \<Rightarrow> b1\<lparr>br_slave_out := False\<rparr>
      | (b1, True) \<Rightarrow> if br_to_slave b1 = [] then b1\<lparr>br_slave_out := False\<rparr> else b1)"

definition forward_to_sock :: "wres list \<Rightarrow> byte list \<Rightarrow> bridge \<Rightarrow> bridge" where
  "forward_to_sock ws data b =
     (if br_sock_fd b < 0 then b
      else case flush_sock ws (b\<lparr>br_to_sock := br_to_sock b @ data\<rparr>) of
             (b1, False) \<Rightarrow> schedule_death b1
           | (b1, True) \<Rightarrow> if br_to_sock b1 \<noteq> [] \<and> \<not> br_sock_out b1 then b1\<lparr>br_sock_out := True\<rparr> else b1)"

section \<open>Muting the bell of a replay\<close>

text \<open>The audible bell of a terminal.\<close>

definition epimone_terminal_apply_bell :: "bool \<Rightarrow> bridge \<Rightarrow> bool" where
  "epimone_terminal_apply_bell audible_bell b = (audible_bell \<and> \<not> br_suppressed b)"

definition epimone_bridge_bell_quiet_cb :: "bridge \<Rightarrow> bridge" where
  "epimone_bridge_bell_quiet_cb b = b\<lparr>br_bell_quiet := False, br_suppressed := False\<rparr>"

definition epimone_bridge_bell_window :: "int \<Rightarrow> bridge \<Rightarrow> bridge" where
  "epimone_bridge_bell_window now b =
     (if \<not> br_suppressed b then b
      else if now - br_attached_at b \<ge> EPI_BELL_MAX_MS * 1000
      then b\<lparr>br_bell_quiet := False, br_suppressed := False\<rparr>
      else b\<lparr>br_bell_quiet := True\<rparr>)"

section \<open>Reading\<close>

definition forward_to_slave :: "int \<Rightarrow> wres list \<Rightarrow> byte list \<Rightarrow> bridge \<Rightarrow> bridge" where
  "forward_to_slave now ws data b =
     (if br_slave_fd b < 0 then b
      else
        let b1 = epimone_bridge_bell_window now b in
        case flush_slave ws (b1\<lparr>br_to_slave := br_to_slave b1 @ data\<rparr>) of
          (b2, False) \<Rightarrow> b2
        | (b2, True) \<Rightarrow> if br_to_slave b2 \<noteq> [] \<and> \<not> br_slave_out b2 then b2\<lparr>br_slave_out := True\<rparr> else b2)"

text \<open>The empty chunk is the end of the file.\<close>

definition on_slave_readable :: "bool \<Rightarrow> bool \<Rightarrow> rres \<Rightarrow> wres list \<Rightarrow> bridge \<Rightarrow> bridge" where
  "on_slave_readable err_or_hup inp rd ws b =
     (if err_or_hup \<and> \<not> inp then b\<lparr>br_slave_in := False\<rparr>
      else case rd of
             R_data data \<Rightarrow> if data = [] then b\<lparr>br_slave_in := False\<rparr> else forward_to_sock ws (take EPI_PUMP_CHUNK data) b
           | _ \<Rightarrow> b)"

definition on_sock_readable :: "int \<Rightarrow> rres \<Rightarrow> wres list \<Rightarrow> bridge \<Rightarrow> bridge" where
  "on_sock_readable now rd ws b =
     (case rd of
        R_data data \<Rightarrow>
          if data = [] then schedule_death (b\<lparr>br_sock_in := False\<rparr>)
          else forward_to_slave now ws (take EPI_PUMP_CHUNK data) b
      | R_again \<Rightarrow> b
      | R_intr \<Rightarrow> b
      | R_err \<Rightarrow> schedule_death (b\<lparr>br_sock_in := False\<rparr>))"

section \<open>Death\<close>

text \<open>Whether the daemon lists the session as alive; the first entry of the id decides.\<close>

definition listed_alive :: "u64 \<Rightarrow> EpiSessionInfo list \<Rightarrow> bool" where
  "listed_alive sid infos = (case find (\<lambda>i. si_id i = sid) infos of None \<Rightarrow> False | Some i \<Rightarrow> si_alive i)"

text \<open>The pane is removed in every case; the page operation is the caller's next step.\<close>

definition death_idle :: "'w client_api \<Rightarrow> 'd page_env \<Rightarrow> nat \<Rightarrow> bridge \<Rightarrow> 'd page \<Rightarrow> 'w \<Rightarrow> bridge \<times> 'd page \<times> 'w" where
  "death_idle api e x b p w =
     (let b1 = b\<lparr>br_death := False\<rparr>;
          w2 = (if br_session b \<noteq> 0 then
                  (case api_list_sessions api w of
                     (None, w1) \<Rightarrow> api_kill_session api (br_session b) w1
                   | (Some infos, w1) \<Rightarrow>
                       if listed_alive (br_session b) infos then w1 else api_kill_session api (br_session b) w1)
                else w)
      in (b1, epimone_page_remove_terminal e x p, w2))"

text \<open>The descriptors closed; every source is removed.\<close>

definition bridge_free :: "bridge \<Rightarrow> int list \<times> bridge" where
  "bridge_free b =
     ((if 0 \<le> br_sock_fd b then [br_sock_fd b] else []) @ (if 0 \<le> br_slave_fd b then [br_slave_fd b] else []),
      b\<lparr>br_death := False, br_sock_in := False, br_sock_out := False, br_slave_in := False,
        br_slave_out := False, br_resize := False, br_bell_quiet := False\<rparr>)"

section \<open>Attaching\<close>

text \<open>
  openpty(3) gives the two descriptors or fails; VTE makes a terminal of the master or fails. The
  descriptors closed, and the bridge.
\<close>

definition epimone_page_attach_bridge ::
  "u64 \<Rightarrow> int \<Rightarrow> (int \<times> int) option \<Rightarrow> bool \<Rightarrow> int \<Rightarrow> int list \<times> bridge option" where
  "epimone_page_attach_bridge sid sock_fd opened vte_pty now =
     (case opened of
        None \<Rightarrow> ([sock_fd], None)
      | Some (master, slave) \<Rightarrow>
          if \<not> vte_pty then ([master, slave, sock_fd], None)
          else ([], Some \<lparr>br_session = sid, br_sock_fd = sock_fd, br_slave_fd = slave, br_to_sock = [],
                          br_to_slave = [], br_sock_in = True, br_sock_out = False, br_slave_in = True,
                          br_slave_out = False, br_death = False, br_last_rows = -1, br_last_cols = -1,
                          br_resize = False, br_resize_pending = False, br_dead = False,
                          br_attached_at = now, br_bell_quiet = True, br_suppressed = True,
                          br_sock_sent = [], br_slave_sent = []\<rparr>))"

section \<open>Window sizes\<close>

text \<open>The size of the terminal now, in rows and columns.\<close>

definition epimone_page_resize_flush :: "'w client_api \<Rightarrow> int \<times> int \<Rightarrow> bridge \<Rightarrow> 'w \<Rightarrow> bridge \<times> 'w" where
  "epimone_page_resize_flush api grid b w =
     (let b1 = b\<lparr>br_resize := False\<rparr>; (rows, cols) = grid in
      if br_dead b1 \<or> br_session b1 = 0 then (b1, w)
      else if rows \<le> 0 \<or> cols \<le> 0 then (b1, w)
      else if rows = br_last_rows b1 \<and> cols = br_last_cols b1 then (b1, w)
      else (b1\<lparr>br_last_rows := rows, br_last_cols := cols\<rparr>,
            api_resize_session api (br_session b1) (word_of_int rows) (word_of_int cols) w))"

definition epimone_page_maybe_resize :: "'d page option \<Rightarrow> bridge \<Rightarrow> bridge" where
  "epimone_page_maybe_resize p b =
     (if br_dead b \<or> br_session b = 0 then b
      else if (case p of Some q \<Rightarrow> pg_dragging q | None \<Rightarrow> False) then b\<lparr>br_resize_pending := True\<rparr>
      else b\<lparr>br_resize := True\<rparr>)"

text \<open>The bridges of a page's terminals, by the terminal's address; \<open>grid\<close> is every terminal's size.\<close>

fun flush_bridges ::
  "'w client_api \<Rightarrow> (nat \<Rightarrow> int \<times> int) \<Rightarrow> nat list \<Rightarrow> (nat \<rightharpoonup> bridge) \<Rightarrow> 'w \<Rightarrow> (nat \<rightharpoonup> bridge) \<times> 'w" where
  "flush_bridges api grid [] bs w = (bs, w)"
| "flush_bridges api grid (x # xs) bs w =
     (case bs x of
        None \<Rightarrow> flush_bridges api grid xs bs w
      | Some b \<Rightarrow>
          if br_resize_pending b then
            (case epimone_page_resize_flush api (grid x) (b\<lparr>br_resize_pending := False\<rparr>) w of
               (b1, w1) \<Rightarrow> flush_bridges api grid xs (bs(x \<mapsto> b1)) w1)
          else flush_bridges api grid xs bs w)"

definition epimone_page_flush_pending_resizes ::
  "'w client_api \<Rightarrow> (nat \<Rightarrow> int \<times> int) \<Rightarrow> 'd page \<Rightarrow> (nat \<rightharpoonup> bridge) \<Rightarrow> 'w \<Rightarrow> (nat \<rightharpoonup> bridge) \<times> 'w" where
  "epimone_page_flush_pending_resizes api grid p bs w =
     (case pg_root p of
        None \<Rightarrow> (bs, w)
      | Some t \<Rightarrow> flush_bridges api grid (epimone_page_collect_terminals t) bs w)"

definition end_drag ::
  "'w client_api \<Rightarrow> (nat \<Rightarrow> int \<times> int) \<Rightarrow> 'd page \<Rightarrow> (nat \<rightharpoonup> bridge) \<Rightarrow> 'w \<Rightarrow> 'd page \<times> (nat \<rightharpoonup> bridge) \<times> 'w" where
  "end_drag api grid p bs w =
     (if pg_dragging p
      then (p\<lparr>pg_dragging := False\<rparr>,
            epimone_page_flush_pending_resizes api grid (p\<lparr>pg_dragging := False\<rparr>) bs w)
      else (p, bs, w))"

text \<open>The primary button went down or up somewhere in the page.\<close>

definition epimone_page_root_event ::
  "'w client_api \<Rightarrow> (nat \<Rightarrow> int \<times> int) \<Rightarrow> bool \<Rightarrow> 'd page \<Rightarrow> (nat \<rightharpoonup> bridge) \<Rightarrow> 'w \<Rightarrow>
   'd page \<times> (nat \<rightharpoonup> bridge) \<times> 'w" where
  "epimone_page_root_event api grid press p bs w =
     (if press then
        (case end_drag api grid p bs w of (p1, bs1, w1) \<Rightarrow> (p1\<lparr>pg_ptr_down := True\<rparr>, bs1, w1))
      else end_drag api grid (p\<lparr>pg_ptr_down := False\<rparr>) bs w)"

end
