(* ===== verification/Bridge_Props.thy ===== *)
theory Bridge_Props
  imports Bridge Page_Props Client_Props
begin

text \<open>
  What a bridge promises: it is a transparent pipe in both directions, the death of a pane does not
  end a session that lives on, and dragging a divider tells each shell its new size once.
\<close>

section \<open>The pipe\<close>

datatype bridge_event =
    Sock_readable int rres "wres list"
  | Sock_writable bool "wres list"
  | Slave_readable bool bool rres "wres list"
  | Slave_writable "wres list"
  | Bell_quiet

fun bridge_step :: "bridge_event \<Rightarrow> bridge \<Rightarrow> bridge" where
  "bridge_step (Sock_readable now rd ws) b = on_sock_readable now rd ws b"
| "bridge_step (Sock_writable eh ws) b = on_sock_writable eh ws b"
| "bridge_step (Slave_readable eh inp rd ws) b = on_slave_readable eh inp rd ws b"
| "bridge_step (Slave_writable ws) b = on_slave_writable ws b"
| "bridge_step Bell_quiet b = epimone_bridge_bell_quiet_cb b"

text \<open>The bytes an event takes from the session and from the terminal.\<close>

fun from_sock :: "bridge_event \<Rightarrow> byte list" where
  "from_sock (Sock_readable now (R_data data) ws) = take EPI_PUMP_CHUNK data"
| "from_sock _ = []"

fun from_slave :: "bridge_event \<Rightarrow> byte list" where
  "from_slave (Slave_readable eh inp (R_data data) ws) = (if eh \<and> \<not> inp then [] else take EPI_PUMP_CHUNK data)"
| "from_slave _ = []"

lemma flush_buf_split: "flush_buf ws buf = (sent, rest, ok) \<Longrightarrow> sent @ rest = buf"
  by (induction ws buf arbitrary: sent rest ok rule: flush_buf.induct) (auto split: if_splits prod.splits)

definition piped :: "bridge \<Rightarrow> byte list \<Rightarrow> byte list \<Rightarrow> bool" where
  "piped b down up \<longleftrightarrow> br_slave_sent b @ br_to_slave b = down \<and> br_sock_sent b @ br_to_sock b = up \<and>
     (br_to_sock b \<noteq> [] \<longrightarrow> br_sock_out b \<or> br_dead b) \<and> (br_dead b \<longrightarrow> br_death b) \<and>
     (br_suppressed b \<longrightarrow> br_bell_quiet b) \<and> 0 \<le> br_sock_fd b \<and> 0 \<le> br_slave_fd b"

lemma flush_sock_result:
  assumes "flush_sock ws b = (b1, ok)"
  shows "\<exists>sent rest. b1 = b\<lparr>br_to_sock := rest, br_sock_sent := br_sock_sent b @ sent\<rparr> \<and> sent @ rest = br_to_sock b"
  using assms flush_buf_split by (fastforce simp: flush_sock_def split: prod.splits)

lemma flush_slave_result:
  assumes "flush_slave ws b = (b1, ok)"
  shows "\<exists>sent rest. b1 = b\<lparr>br_to_slave := rest, br_slave_sent := br_slave_sent b @ sent\<rparr> \<and> sent @ rest = br_to_slave b"
  using assms flush_buf_split by (fastforce simp: flush_slave_def split: prod.splits)

lemma append_sent: "s @ r = x \<Longrightarrow> a @ x = y \<Longrightarrow> (a @ s) @ r = y" by simp

lemma death_piped: "piped (b\<lparr>br_sock_out := v\<rparr>) d u \<Longrightarrow> piped (schedule_death (b\<lparr>br_sock_out := v\<rparr>)) d u"
  by (auto simp: piped_def schedule_death_def)

lemma forward_to_slave_piped:
  assumes "piped b down up"
  shows "piped (forward_to_slave now ws data b) (down @ data) up"
proof -
  let ?b1 = "epimone_bridge_bell_window now b"
  have b1: "piped ?b1 down up" "br_slave_fd ?b1 = br_slave_fd b"
    using assms by (auto simp: piped_def epimone_bridge_bell_window_def)
  obtain b2 ok where f: "flush_slave ws (?b1\<lparr>br_to_slave := br_to_slave ?b1 @ data\<rparr>) = (b2, ok)"
    by (cases "flush_slave ws (?b1\<lparr>br_to_slave := br_to_slave ?b1 @ data\<rparr>)")
  have fd: "\<not> br_slave_fd b < 0" using assms by (simp add: piped_def)
  from flush_slave_result [OF f] show ?thesis using f b1(1) fd
    by (cases ok) (auto simp: forward_to_slave_def Let_def piped_def)
qed

lemma forward_to_sock_piped:
  assumes "piped b down up"
  shows "piped (forward_to_sock ws data b) down (up @ data)"
proof -
  obtain b2 ok where f: "flush_sock ws (b\<lparr>br_to_sock := br_to_sock b @ data\<rparr>) = (b2, ok)"
    by (cases "flush_sock ws (b\<lparr>br_to_sock := br_to_sock b @ data\<rparr>)")
  have fd: "\<not> br_sock_fd b < 0" using assms by (simp add: piped_def)
  from flush_sock_result [OF f] show ?thesis using f assms fd
    by (cases ok) (auto simp: forward_to_sock_def schedule_death_def piped_def)
qed

lemma bridge_step_piped:
  assumes "piped b down up"
  shows "piped (bridge_step ev b) (down @ from_sock ev) (up @ from_slave ev)"
proof (cases ev)
  case (Sock_readable now rd ws)
  then show ?thesis using assms forward_to_slave_piped [OF assms]
    by (cases rd) (auto simp: on_sock_readable_def schedule_death_def piped_def)
next
  case (Slave_readable eh inp rd ws)
  then show ?thesis using assms forward_to_sock_piped [OF assms]
    by (cases rd) (auto simp: on_slave_readable_def piped_def)
next
  case (Sock_writable eh ws)
  obtain b2 ok where f: "flush_sock ws b = (b2, ok)" by (cases "flush_sock ws b")
  from flush_sock_result [OF f] show ?thesis using f assms Sock_writable
    by (cases ok) (auto simp: on_sock_writable_def schedule_death_def piped_def)
next
  case (Slave_writable ws)
  obtain b2 ok where f: "flush_slave ws b = (b2, ok)" by (cases "flush_slave ws b")
  from flush_slave_result [OF f] show ?thesis using f assms Slave_writable
    by (cases ok) (auto simp: on_slave_writable_def piped_def)
next
  case Bell_quiet
  then show ?thesis using assms by (simp add: epimone_bridge_bell_quiet_cb_def piped_def)
qed

lemma bridge_run_piped:
  "piped b down up \<Longrightarrow> piped (fold bridge_step evs b) (down @ concat (map from_sock evs)) (up @ concat (map from_slave evs))"
proof (induction evs arbitrary: b down up)
  case (Cons ev evs)
  then show ?case using Cons.IH [OF bridge_step_piped [OF Cons.prems, of ev]] by simp
qed simp

text \<open>The watch on the terminal's side. A write to the terminal fails hard when a result of write(2) is
  an error other than EAGAIN and EINTR, or zero.\<close>

definition hard_error :: "wres list \<Rightarrow> bool" where
  "hard_error ws \<longleftrightarrow> (\<exists>w \<in> set ws. w = W_err \<or> w = W_ok 0)"

fun terminal_fails :: "bridge_event \<Rightarrow> bool" where
  "terminal_fails (Sock_readable now rd ws) = hard_error ws"
| "terminal_fails (Slave_writable ws) = hard_error ws"
| "terminal_fails _ = False"

lemma flush_buf_soft: "\<not> hard_error ws \<Longrightarrow> snd (snd (flush_buf ws buf))"
  by (induction ws buf rule: flush_buf.induct) (auto simp: hard_error_def split: prod.split)

lemma flush_slave_soft: "\<not> hard_error ws \<Longrightarrow> flush_slave ws b = (b1, ok) \<Longrightarrow> ok"
  using flush_buf_soft[of ws "br_to_slave b"] by (auto simp: flush_slave_def split: prod.splits)

lemma flush_sock_slave: "flush_sock ws b = (b1, ok) \<Longrightarrow> br_to_slave b1 = br_to_slave b \<and> br_slave_out b1 = br_slave_out b"
  by (auto simp: flush_sock_def split: prod.splits)

definition terminal_watched :: "bridge \<Rightarrow> bool" where
  "terminal_watched b \<longleftrightarrow> (br_to_slave b \<noteq> [] \<longrightarrow> br_slave_out b)"

lemma death_watched [simp]: "terminal_watched (schedule_death b) = terminal_watched b"
  by (simp add: terminal_watched_def schedule_death_def)

lemma forward_to_sock_watched: "terminal_watched b \<Longrightarrow> terminal_watched (forward_to_sock ws data b)"
  by (auto simp: forward_to_sock_def terminal_watched_def schedule_death_def dest!: flush_sock_slave
      split: prod.split bool.split)

lemma forward_to_slave_watched:
  assumes "terminal_watched b" and "\<not> hard_error ws"
  shows "terminal_watched (forward_to_slave now ws data b)"
  using assms flush_slave_soft[OF assms(2)]
  by (auto simp: forward_to_slave_def Let_def terminal_watched_def split: prod.split bool.split)

lemma bridge_step_watched:
  assumes "terminal_watched b" and "\<not> terminal_fails ev"
  shows "terminal_watched (bridge_step ev b)"
proof (cases ev)
  case (Sock_readable now rd ws)
  then show ?thesis using assms forward_to_slave_watched[of b ws now]
    by (auto simp: on_sock_readable_def split: rres.split) (simp_all add: terminal_watched_def)
next
  case (Slave_readable eh inp rd ws)
  then show ?thesis using assms forward_to_sock_watched[of b ws]
    by (auto simp: on_slave_readable_def split: rres.split) (simp_all add: terminal_watched_def)
next
  case (Sock_writable eh ws)
  then show ?thesis using assms
    by (auto simp: on_sock_writable_def terminal_watched_def schedule_death_def dest!: flush_sock_slave
        split: prod.split bool.split)
next
  case (Slave_writable ws)
  obtain b1 ok where f: "flush_slave ws b = (b1, ok)" by (cases "flush_slave ws b")
  have "br_slave_out b1 = br_slave_out b" "br_to_slave b = [] \<Longrightarrow> br_to_slave b1 = []"
    using flush_slave_result[OF f] by auto
  then show ?thesis using assms f flush_slave_soft[of ws, OF _ f] Slave_writable
    by (auto simp: on_slave_writable_def terminal_watched_def split: bool.split)
next
  case Bell_quiet
  then show ?thesis using assms by (simp add: epimone_bridge_bell_quiet_cb_def terminal_watched_def)
qed

lemma bridge_run_watched:
  "terminal_watched b \<Longrightarrow> \<forall>ev \<in> set evs. \<not> terminal_fails ev \<Longrightarrow> terminal_watched (fold bridge_step evs b)"
  by (induction evs arbitrary: b) (simp_all add: bridge_step_watched)

text \<open>C22. Whatever the order of readiness, whatever read and write return, a bridge neither loses, adds
  nor reorders a byte: what it has written to the terminal followed by what it still holds for it is
  exactly what it has read from the session, and the same the other way. Bytes that wait have a watch
  to drain them: those for the session unless the pane is dying, and then its removal is scheduled;
  those for the terminal as long as no write to the terminal has failed hard. And a muted bell always
  has a timer that unmutes it, three seconds of output at most.\<close>

theorem bridge_is_a_transparent_pipe:
  assumes "epimone_page_attach_bridge sid sock (Some (master, slave)) True t0 = ([], Some b)" "0 \<le> sock" "0 \<le> slave"
  shows "let c = fold bridge_step evs b in
     br_slave_sent c @ br_to_slave c = concat (map from_sock evs) \<and>
     br_sock_sent c @ br_to_sock c = concat (map from_slave evs) \<and>
     (br_to_sock c \<noteq> [] \<longrightarrow> br_sock_out c \<or> br_dead c) \<and>
     (br_dead c \<longrightarrow> br_death c) \<and>
     ((\<forall>ev \<in> set evs. \<not> terminal_fails ev) \<longrightarrow> br_to_slave c \<noteq> [] \<longrightarrow> br_slave_out c) \<and>
     (br_suppressed c \<longrightarrow> br_bell_quiet c) \<and>
     (\<forall>now ws data. now - br_attached_at c \<ge> 3000000 \<longrightarrow> data \<noteq> [] \<longrightarrow>
        \<not> br_suppressed (on_sock_readable now (R_data data) ws c))"
proof -
  let ?c = "fold bridge_step evs b"
  have b: "piped b [] []" "terminal_watched b"
    using assms by (auto simp: epimone_page_attach_bridge_def piped_def terminal_watched_def)
  from bridge_run_piped [OF b(1), of evs]
  have c: "piped ?c (concat (map from_sock evs)) (concat (map from_slave evs))" by simp
  have "\<not> br_suppressed (on_sock_readable now (R_data data) ws ?c)"
    if late: "now - br_attached_at ?c \<ge> 3000000" and some: "data \<noteq> []" for now ws data
  proof -
    let ?b1 = "epimone_bridge_bell_window now ?c"
    have b1: "\<not> br_suppressed ?b1" using late by (simp add: epimone_bridge_bell_window_def EPI_BELL_MAX_MS_def)
    obtain b2 ok where f: "flush_slave ws (?b1\<lparr>br_to_slave := br_to_slave ?b1 @ take EPI_PUMP_CHUNK data\<rparr>) = (b2, ok)"
      by (cases "flush_slave ws (?b1\<lparr>br_to_slave := br_to_slave ?b1 @ take EPI_PUMP_CHUNK data\<rparr>)")
    from flush_slave_result [OF f] have "\<not> br_suppressed b2" using b1 by auto
    moreover have "\<not> br_slave_fd ?c < 0" using c by (simp add: piped_def)
    ultimately show ?thesis using f some by (cases ok) (auto simp: on_sock_readable_def forward_to_slave_def Let_def)
  qed
  then show ?thesis using c bridge_run_watched[OF b(2), of evs]
    by (simp add: Let_def piped_def terminal_watched_def)
qed

definition wit_bridge :: bridge where
  "wit_bridge = the (snd (epimone_page_attach_bridge 5 7 (Some (8, 9)) True 0))"

text \<open>The terminal takes one byte of two and is then full: the other is held, with a watch.\<close>

definition wit_pump :: "bridge_event list" where
  "wit_pump = [Sock_readable 1 (R_data [65, 66]) [W_ok 1, W_again]]"

theorem bridge_is_a_transparent_pipe_witness:
  "br_slave_sent (fold bridge_step wit_pump wit_bridge) = [65] \<and>
   br_to_slave (fold bridge_step wit_pump wit_bridge) = [66] \<and> br_slave_out (fold bridge_step wit_pump wit_bridge)"
proof -
  let ?c = "fold bridge_step wit_pump wit_bridge"
  have "epimone_page_attach_bridge 5 7 (Some (8, 9)) True 0 = ([], Some wit_bridge)" "(0 :: int) \<le> 7" "(0 :: int) \<le> 9"
    by (simp_all add: wit_bridge_def epimone_page_attach_bridge_def)
  note pipe = bridge_is_a_transparent_pipe [OF this, of wit_pump, unfolded Let_def]
  have soft: "\<forall>ev \<in> set wit_pump. \<not> terminal_fails ev" by (simp add: wit_pump_def hard_error_def)
  have sent: "br_slave_sent ?c = [65]"
    by (simp add: wit_pump_def wit_bridge_def epimone_page_attach_bridge_def on_sock_readable_def forward_to_slave_def
        EPI_PUMP_CHUNK_def epimone_bridge_bell_window_def EPI_BELL_MAX_MS_def flush_slave_def Let_def)
  moreover have "concat (map from_sock wit_pump) = [65, 66]" by (simp add: wit_pump_def EPI_PUMP_CHUNK_def)
  ultimately have "br_to_slave ?c = [66]" using conjunct1[OF pipe] by simp
  moreover from this have "br_to_slave ?c \<noteq> []" by simp
  then have "br_slave_out ?c" using pipe soft by blast
  ultimately show ?thesis using sent by simp
qed

section \<open>The death of a pane\<close>

lemma find_filter: "find P (filter Q xs) = find (\<lambda>x. P x \<and> Q x) xs"
  by (induction xs) auto

lemma find_map: "find P (map h xs) = map_option h (find (\<lambda>x. P (h x)) xs)"
  by (induction xs) auto

lemma listed_alive_daemon:
  "listed_alive sid (map info_of (shown srv)) =
     (case find_session srv sid False of None \<Rightarrow> False | Some s \<Rightarrow> s_alive s)"
proof -
  have "find (\<lambda>i. si_id i = sid) (map info_of (shown srv)) = map_option info_of (find_session srv sid False)"
    by (simp add: find_map find_filter shown_def find_session_def info_of_def)
  then show ?thesis by (auto simp: listed_alive_def info_of_def split: option.splits)
qed

text \<open>C23. When the data channel of a pane ends, the pane goes, and the daemon, asked over the wire,
  decides about the session: a session that it still shows as alive (its channel was taken over by
  another client) is not killed, the listing is the only request made; one that it shows as dead, or
  not at all, is killed. But if the listing cannot be had, the kill is sent as well, whatever the
  state of the session.\<close>

theorem taken_over_session_is_not_killed:
  assumes "srv_inv srv" "never_fails (e_mem env)" "never_fails (cl_mem c)" "br_session b \<noteq> 0"
    and l: "l = wi_links w (wi_calls w)"
  shows "(delivers c l (empty_request (cl_mem c) EPI_MSG_LIST) \<longrightarrow> 4 + length (list_body srv) < 2 ^ 32 \<longrightarrow>
            serves (dispatch_frame env cr EPI_MSG_LIST []) cr srv l \<longrightarrow>
            snd (snd (death_idle (library_api c) e x b p w)) =
              (if (\<exists>s. find_session srv (br_session b) False = Some s \<and> s_alive s)
               then w\<lparr>wi_calls := wi_calls w + 1\<rparr>
               else api_kill_session (library_api c) (br_session b) (w\<lparr>wi_calls := wi_calls w + 1\<rparr>))) \<and>
         (\<not> succeeds (epimone_client_list_sessions c l) \<longrightarrow>
            snd (snd (death_idle (library_api c) e x b p w)) =
              api_kill_session (library_api c) (br_session b) (w\<lparr>wi_calls := wi_calls w + 1\<rparr>)) \<and>
         fst (snd (death_idle (library_api c) e x b p w)) = epimone_page_remove_terminal e x p"
proof (intro conjI impI)
  assume link: "delivers c l (empty_request (cl_mem c) EPI_MSG_LIST)" "4 + length (list_body srv) < 2 ^ 32"
    "serves (dispatch_frame env cr EPI_MSG_LIST []) cr srv l"
  have "epimone_client_list_sessions c l =
      (Inr (map info_of (shown srv)), [Opened, Wrote (buf_bytes (empty_request (cl_mem c) EPI_MSG_LIST)), Closed])"
    using list_sessions.end_to_end [OF assms(1) TrueI assms(2, 3) link(2, 1, 3)]
    by (simp add: epimone_client_list_sessions_def)
  then have "api_list_sessions (library_api c) w = (Some (map info_of (shown srv)), w\<lparr>wi_calls := wi_calls w + 1\<rparr>)"
    by (simp add: library_api_def used_link_def or_none_def flip: l)
  then show "snd (snd (death_idle (library_api c) e x b p w)) =
      (if (\<exists>s. find_session srv (br_session b) False = Some s \<and> s_alive s)
       then w\<lparr>wi_calls := wi_calls w + 1\<rparr>
       else api_kill_session (library_api c) (br_session b) (w\<lparr>wi_calls := wi_calls w + 1\<rparr>))"
    using assms(4) listed_alive_daemon [of "br_session b" srv]
    by (auto simp: death_idle_def Let_def split: option.splits)
next
  assume "\<not> succeeds (epimone_client_list_sessions c l)"
  then have "api_list_sessions (library_api c) w = (None, w\<lparr>wi_calls := wi_calls w + 1\<rparr>)"
    by (simp add: library_api_def used_link_def or_none_def succeeds_def flip: l split: sum.splits)
  then show "snd (snd (death_idle (library_api c) e x b p w)) =
      api_kill_session (library_api c) (br_session b) (w\<lparr>wi_calls := wi_calls w + 1\<rparr>)"
    using assms(4) by (simp add: death_idle_def Let_def)
qed (simp add: death_idle_def Let_def)

text \<open>The daemon answers that it still runs the session: another client took it over.\<close>

definition wit_link :: link where
  "wit_link = demo_link (dispatch_frame demo_env 1 EPI_MSG_LIST [])"

definition wit_wire :: wire where
  "wit_wire = \<lparr>wi_links = \<lambda>i. wit_link, wi_bridges = \<lambda>i. True, wi_calls = 0, wi_opened = 0\<rparr>"

theorem taken_over_session_is_not_killed_witness:
  "\<forall>e x p. snd (snd (death_idle (library_api demo_client) e x (wit_bridge\<lparr>br_session := 1\<rparr>) p wit_wire)) =
     wit_wire\<lparr>wi_calls := 1\<rparr>"
proof (intro allI)
  fix e :: "'a page_env" and x p
  let ?b = "wit_bridge\<lparr>br_session := 1\<rparr>"
  have l: "wit_link = wi_links wit_wire (wi_calls wit_wire)" by (simp add: wit_wire_def)
  have mem: "never_fails (e_mem demo_env)" "never_fails (cl_mem demo_client)" by simp_all
  have fits: "4 + length (list_body demo_srv) < 2 ^ 32"
    by (simp add: list_body_def shown_def demo_srv_def demo_sess_def enc_info_def enc_str_def lit_def cstr_def)
  have sent: "delivers demo_client wit_link (empty_request (cl_mem demo_client) EPI_MSG_LIST)"
    using demo_request by (simp add: wit_link_def)
  have served: "serves (dispatch_frame demo_env 1 EPI_MSG_LIST []) 1 demo_srv wit_link"
    unfolding wit_link_def by (rule demo_serves [OF refl])
  have "br_session ?b \<noteq> 0" by simp
  from taken_over_session_is_not_killed [OF demo_inv mem this l]
  have "snd (snd (death_idle (library_api demo_client) e x ?b p wit_wire)) =
      (if (\<exists>s. find_session demo_srv (br_session ?b) False = Some s \<and> s_alive s)
       then wit_wire\<lparr>wi_calls := wi_calls wit_wire + 1\<rparr>
       else api_kill_session (library_api demo_client) (br_session ?b) (wit_wire\<lparr>wi_calls := wi_calls wit_wire + 1\<rparr>))"
    using fits sent served by blast
  moreover have "\<exists>s. find_session demo_srv (br_session ?b) False = Some s \<and> s_alive s"
    using demo_find by (auto simp: demo_sess_def)
  ultimately show "snd (snd (death_idle (library_api demo_client) e x ?b p wit_wire)) = wit_wire\<lparr>wi_calls := 1\<rparr>"
    by (simp add: wit_wire_def)
qed

section \<open>Window sizes\<close>

text \<open>A pane of a page gets a new size.\<close>

definition resized :: "'d page \<Rightarrow> nat \<Rightarrow> (nat \<rightharpoonup> bridge) \<Rightarrow> (nat \<rightharpoonup> bridge)" where
  "resized p x bs = bs(x := map_option (epimone_page_maybe_resize (Some p)) (bs x))"

text \<open>The size of a pane is due: it changed in this drag and the shell does not know it.\<close>

definition size_due :: "(nat \<Rightarrow> int \<times> int) \<Rightarrow> (nat \<rightharpoonup> bridge) \<Rightarrow> nat \<Rightarrow> bool" where
  "size_due grid bs x =
     (case bs x of
        None \<Rightarrow> False
      | Some b \<Rightarrow> br_resize_pending b \<and> \<not> br_dead b \<and> br_session b \<noteq> 0 \<and> 0 < fst (grid x) \<and> 0 < snd (grid x) \<and>
                  grid x \<noteq> (br_last_rows b, br_last_cols b))"

definition push_size :: "'w client_api \<Rightarrow> (nat \<Rightarrow> int \<times> int) \<Rightarrow> (nat \<rightharpoonup> bridge) \<Rightarrow> nat \<Rightarrow> 'w \<Rightarrow> 'w" where
  "push_size api grid bs x w =
     api_resize_session api (br_session (the (bs x))) (word_of_int (fst (grid x))) (word_of_int (snd (grid x))) w"

lemma resize_flush_due:
  assumes "bs x = Some b" "br_resize_pending b"
  shows "snd (epimone_page_resize_flush api (grid x) (b\<lparr>br_resize_pending := False\<rparr>) w) =
      (if size_due grid bs x then push_size api grid bs x w else w)"
    "\<not> br_resize_pending (fst (epimone_page_resize_flush api (grid x) (b\<lparr>br_resize_pending := False\<rparr>) w))"
  using assms by (cases "grid x"; auto simp: epimone_page_resize_flush_def size_due_def push_size_def Let_def)+

lemma flush_bridges_untouched:
  "x \<notin> set xs \<Longrightarrow> fst (flush_bridges api grid xs bs w) x = bs x"
  by (induction api grid xs bs w rule: flush_bridges.induct) (auto split: option.splits prod.splits)

lemma flush_bridges_calls:
  "distinct xs \<Longrightarrow> snd (flush_bridges api grid xs bs w) = fold (push_size api grid bs) (filter (size_due grid bs) xs) w"
proof (induction xs arbitrary: bs w)
  case (Cons x xs)
  have same: "fold (push_size api grid (bs(x \<mapsto> b))) (filter (size_due grid (bs(x \<mapsto> b))) xs) v =
      fold (push_size api grid bs) (filter (size_due grid bs) xs) v" for b v
  proof -
    have "filter (size_due grid (bs(x \<mapsto> b))) xs = filter (size_due grid bs) xs"
      using Cons.prems by (intro filter_cong) (auto simp: size_due_def)
    moreover have "fold (push_size api grid (bs(x \<mapsto> b))) (filter (size_due grid bs) xs) v =
        fold (push_size api grid bs) (filter (size_due grid bs) xs) v"
      using Cons.prems by (intro fold_cong) (auto simp: push_size_def fun_eq_iff)
    ultimately show ?thesis by simp
  qed
  show ?case
  proof (cases "\<exists>b. bs x = Some b \<and> br_resize_pending b")
    case True
    then obtain b where b: "bs x = Some b" "br_resize_pending b" by blast
    obtain b1 w1 where r: "epimone_page_resize_flush api (grid x) (b\<lparr>br_resize_pending := False\<rparr>) w = (b1, w1)"
      by (cases "epimone_page_resize_flush api (grid x) (b\<lparr>br_resize_pending := False\<rparr>) w")
    from resize_flush_due(1) [of bs x b api grid w] b r
    have "w1 = (if size_due grid bs x then push_size api grid bs x w else w)" by simp
    then show ?thesis using Cons b r same by simp
  next
    case False
    then have "\<not> size_due grid bs x" by (auto simp: size_due_def split: option.splits)
    then show ?thesis using False Cons by (cases "bs x") auto
  qed
qed simp

lemma flush_bridges_settles:
  "x \<in> set xs \<Longrightarrow> fst (flush_bridges api grid xs bs w) x = Some b \<Longrightarrow> \<not> br_resize_pending b"
proof (induction xs arbitrary: bs w)
  case (Cons y xs)
  show ?case
  proof (cases "\<exists>c. bs y = Some c \<and> br_resize_pending c")
    case True
    then obtain c where c: "bs y = Some c" "br_resize_pending c" by blast
    obtain b1 w1 where r: "epimone_page_resize_flush api (grid y) (c\<lparr>br_resize_pending := False\<rparr>) w = (b1, w1)"
      by (cases "epimone_page_resize_flush api (grid y) (c\<lparr>br_resize_pending := False\<rparr>) w")
    have step: "flush_bridges api grid (y # xs) bs w = flush_bridges api grid xs (bs(y \<mapsto> b1)) w1"
      using c r by simp
    show ?thesis
    proof (cases "x \<in> set xs")
      case True
      then show ?thesis using Cons.IH Cons.prems(2) unfolding step by blast
    next
      case False
      then have "x = y" using Cons.prems(1) by simp
      then have "b1 = b" using Cons.prems(2) False unfolding step by (simp add: flush_bridges_untouched)
      then show ?thesis using resize_flush_due(2) [of bs y c api grid w] c r by simp
    qed
  next
    case False
    then have step: "flush_bridges api grid (y # xs) bs w = flush_bridges api grid xs bs w"
      by (auto split: option.splits)
    show ?thesis
    proof (cases "x \<in> set xs")
      case True
      then show ?thesis using Cons.IH Cons.prems(2) unfolding step by blast
    next
      case out: False
      then have "bs y = Some b" using Cons.prems unfolding step by (simp add: flush_bridges_untouched)
      then show ?thesis using False by blast
    qed
  qed
qed simp

lemma resized_run:
  assumes "pg_dragging p"
  shows "fold (resized p) xs bs x =
     map_option (\<lambda>b. if x \<in> set xs \<and> \<not> br_dead b \<and> br_session b \<noteq> 0 then b\<lparr>br_resize_pending := True\<rparr> else b) (bs x)"
proof (induction xs arbitrary: bs)
  case (Cons y xs)
  show ?case unfolding fold_Cons comp_apply Cons.IH using assms
    by (cases "x = y"; cases "bs y"; simp add: resized_def epimone_page_maybe_resize_def)
qed (simp add: option.map_ident)

text \<open>C24. While a divider is dragged the changes of size only mark the panes: nothing is sent and no
  timer is armed, however many there are. On release each pane of the tab that changed, is alive and
  has a size its shell has not been told gets exactly one resize request, with its last size, in the
  order of the tree, and the others get none; then nothing is pending any more in the tab.\<close>

theorem drag_sends_each_size_once:
  assumes "page_ok p" "pg_dragging p" "pg_root p = Some t"
    and "\<forall>x b. bs x = Some b \<longrightarrow> \<not> br_resize_pending b"
  shows "let bs1 = fold (resized p) xs bs; r = epimone_page_root_event api grid False p bs1 w in
     (\<forall>x b1. bs1 x = Some b1 \<longrightarrow> (\<exists>b. bs x = Some b \<and> br_resize b1 = br_resize b)) \<and>
     \<not> pg_dragging (fst r) \<and>
     snd (snd r) = fold (push_size api grid bs)
       (filter (\<lambda>x. \<exists>b. bs x = Some b \<and> x \<in> set xs \<and> \<not> br_dead b \<and> br_session b \<noteq> 0 \<and>
                  0 < fst (grid x) \<and> 0 < snd (grid x) \<and> grid x \<noteq> (br_last_rows b, br_last_cols b))
         (epimone_page_collect_terminals t)) w \<and>
     (\<forall>x \<in> set (epimone_page_collect_terminals t). \<forall>b. fst (snd r) x = Some b \<longrightarrow> \<not> br_resize_pending b)"
proof -
  let ?bs1 = "fold (resized p) xs bs" and ?ts = "epimone_page_collect_terminals t"
  have once: "distinct ?ts" by (rule distinct_collect [OF page_okD(1) [OF assms(1, 3)]])
  note run = resized_run [OF assms(2)]
  have due: "size_due grid ?bs1 x \<longleftrightarrow> (\<exists>b. bs x = Some b \<and> x \<in> set xs \<and> \<not> br_dead b \<and> br_session b \<noteq> 0 \<and>
      0 < fst (grid x) \<and> 0 < snd (grid x) \<and> grid x \<noteq> (br_last_rows b, br_last_cols b))" for x
    using assms(4) by (cases "bs x") (auto simp: size_due_def run)
  have push: "push_size api grid ?bs1 x = push_size api grid bs x" if "size_due grid ?bs1 x" for x
    using that due [of x] by (auto simp: push_size_def run fun_eq_iff)
  have "snd (flush_bridges api grid ?ts ?bs1 w) = fold (push_size api grid ?bs1) (filter (size_due grid ?bs1) ?ts) w"
    by (rule flush_bridges_calls [OF once])
  also have "\<dots> = fold (push_size api grid bs) (filter (size_due grid ?bs1) ?ts) w"
    by (intro fold_cong) (auto simp: push)
  finally have calls: "snd (flush_bridges api grid ?ts ?bs1 w) =
      fold (push_size api grid bs) (filter (size_due grid ?bs1) ?ts) w" .
  have ev: "epimone_page_root_event api grid False p ?bs1 w =
      (p\<lparr>pg_ptr_down := False, pg_dragging := False\<rparr>, flush_bridges api grid ?ts ?bs1 w)"
    using assms(2, 3) by (simp add: epimone_page_root_event_def end_drag_def epimone_page_flush_pending_resizes_def)
  have due': "size_due grid ?bs1 = (\<lambda>x. \<exists>b. bs x = Some b \<and> x \<in> set xs \<and> \<not> br_dead b \<and> br_session b \<noteq> 0 \<and>
      0 < fst (grid x) \<and> 0 < snd (grid x) \<and> grid x \<noteq> (br_last_rows b, br_last_cols b))"
    by (rule ext) (rule due)
  have timers: "\<forall>x b1. ?bs1 x = Some b1 \<longrightarrow> (\<exists>b. bs x = Some b \<and> br_resize b1 = br_resize b)"
    by (auto simp: run)
  have settled: "\<forall>x \<in> set ?ts. \<forall>b. fst (flush_bridges api grid ?ts ?bs1 w) x = Some b \<longrightarrow> \<not> br_resize_pending b"
    by (intro ballI allI impI) (rule flush_bridges_settles)
  show ?thesis unfolding Let_def ev using timers settled calls [unfolded due'] by simp
qed

text \<open>A tab of three panes whose divider moves twice: two of the three shells get one size each.\<close>

definition wit_bridges :: "nat \<rightharpoonup> bridge" where
  "wit_bridges = [1 \<mapsto> wit_bridge, 2 \<mapsto> wit_bridge\<lparr>br_session := 6\<rparr>, 3 \<mapsto> wit_bridge\<lparr>br_session := 7\<rparr>]"

definition log_api :: "(u64 \<times> u32 \<times> u32) list client_api" where
  "log_api = \<lparr>
     api_list_sessions = Pair None, api_list_groups = Pair None, api_instance_id = Pair 0,
     api_group_set = (\<lambda>_ _ w. (False, w)), api_group_new = (\<lambda>_ w. (0, w)), api_group_add = (\<lambda>_ _ w. (False, w)),
     api_attach_session = (\<lambda>_ w. (False, w)), api_bridge = Pair True, api_kill_session = (\<lambda>_ w. w),
     api_resize_session = (\<lambda>sid rows cols w. w @ [(sid, rows, cols)])\<rparr>"

theorem drag_sends_each_size_once_witness:
  "snd (snd (epimone_page_root_event log_api (\<lambda>_. (24, 80)) False (wit_page\<lparr>pg_dragging := True\<rparr>)
     (fold (resized (wit_page\<lparr>pg_dragging := True\<rparr>)) [1, 2, 2, 1, 2] wit_bridges) [])) = [(5, 24, 80), (6, 24, 80)]"
proof -
  let ?p = "wit_page\<lparr>pg_dragging := True\<rparr>"
  have fields: "br_session wit_bridge = 5" "\<not> br_dead wit_bridge" "\<not> br_resize_pending wit_bridge"
    "br_last_rows wit_bridge = -1"
    by (simp_all add: wit_bridge_def epimone_page_attach_bridge_def)
  have calm: "\<forall>x b. wit_bridges x = Some b \<longrightarrow> \<not> br_resize_pending b"
    by (auto simp: wit_bridges_def fields split: if_splits)
  have "page_ok ?p" "pg_dragging ?p" "pg_root ?p = Some wit_tree"
    using wit_page_ok by (simp_all add: page_ok_def wit_page_fields)
  note r = drag_sends_each_size_once
    [OF this calm, of "[1, 2, 2, 1, 2]" log_api "\<lambda>_. (24, 80)" "[]", unfolded Let_def, THEN conjunct2, THEN conjunct2, THEN conjunct1]
  show ?thesis unfolding r by (simp add: Let_def wit_tree_leaves wit_bridges_def fields push_size_def log_api_def)
qed

end
