(* ===== verification/Ctl.thy ===== *)
theory Ctl
  imports Client Server
begin

text \<open>
  The command line client (src/src/ctl/main.c). A run gives its exit status, the bytes it writes to
  its output, what it tells on its error output, and the calls it makes on descriptors. Writing
  through stdio succeeds; the results of read(2) and write(2) are arguments.
\<close>

datatype ctl_note =
    N_no_path
  | N_socket
  | N_path_too_long
  | N_connect
  | N_no_reply
  | N_error u32 "byte list option"
  | N_malformed_peek
  | N_no_blob
  | N_no_group u64
  | N_no_instance
  | N_attach_no_reply
  | N_attach_failed "byte list option"
  | N_attached u64
  | N_closed
  | N_detached
  | N_usage

record ctl_env =
  ce_paths :: path_env
  ce_mem :: allocator
  ce_cwd :: "byte list option"
  ce_local_time :: "int \<Rightarrow> byte list"
  ce_stdin :: "rdres list"
  ce_stdout :: "wres list"

record ctl_res =
  cx_code :: int
  cx_out :: "byte list"
  cx_notes :: "ctl_note list"
  cx_calls :: "call list"

definition CTRL_RBRACKET :: byte where "CTRL_RBRACKET = 0x1d"

section \<open>The socket\<close>

definition connect_daemon :: "ctl_env \<Rightarrow> link \<Rightarrow> bool \<times> ctl_note list \<times> call list" where
  "connect_daemon e l =
     (case fst (epi_socket_path (ce_paths e) 512) of
        None \<Rightarrow> (False, [N_no_path], [])
      | Some path \<Rightarrow>
          if \<not> l_socket l then (False, [N_socket], [])
          else if length path \<ge> sun_path_size then (False, [N_path_too_long], [Opened, Closed])
          else if \<not> l_connect l then (False, [N_connect], [Opened, Closed])
          else (True, [], [Opened]))"

text \<open>The offset reached, and whether all of it was written.\<close>

fun write_full :: "wres list \<Rightarrow> nat \<Rightarrow> nat \<Rightarrow> nat \<times> bool" where
  "write_full ws off len =
     (if off < len then
        (case ws of
           [] \<Rightarrow> (off, False)
         | W_ok n # ws' \<Rightarrow> if 0 < n then write_full ws' (off + min n (len - off)) len else (off, False)
         | W_intr # ws' \<Rightarrow> write_full ws' off len
         | W_again # _ \<Rightarrow> (off, False)
         | W_err # _ \<Rightarrow> (off, False))
      else (off, True))"

declare write_full.simps [simp del]

function read_full :: "rdres list \<Rightarrow> byte list \<Rightarrow> nat \<Rightarrow> nat \<Rightarrow> byte list \<times> bool \<times> rdres list" where
  "read_full rs buf off len =
     (if off < len then
        (case rs of
           [] \<Rightarrow> (buf, False, [])
         | Rd bs # rs' \<Rightarrow>
             (let got = take (len - off) bs; left = drop (len - off) bs in
              if got = [] then (buf, False, rs)
              else read_full (if left = [] then rs' else Rd left # rs')
                     (blit buf off got) (off + length got) len)
         | Rd_intr # rs' \<Rightarrow> read_full rs' buf off len
         | Rd_err # rs' \<Rightarrow> (buf, False, rs'))
      else (buf, True, rs))"
  by pat_completeness auto
termination
  by (relation "measures [\<lambda>(rs, buf, off, len). len - off, \<lambda>(rs, buf, off, len). length rs]") auto

declare read_full.simps [simp del]

definition ctl_send_frame :: "link \<Rightarrow> epi_buf \<Rightarrow> bool \<times> call list" where
  "ctl_send_frame l b =
     (if b_oom b then (False, [])
      else case write_full (l_writes l) 0 (b_len b) of (off, ok) \<Rightarrow> (ok, [Wrote (take off (b_data b))]))"

definition ctl_recv_frame :: "allocator \<Rightarrow> rdres list \<Rightarrow> (u32 \<times> byte list) option \<times> rdres list" where
  "ctl_recv_frame a rs =
     (case read_full rs (replicate 4 0) 0 4 of
        (hdr, False, rs1) \<Rightarrow> (None, rs1)
      | (hdr, True, rs1) \<Rightarrow>
          let flen = get_le32 hdr 0 in
          if flen < 4 then (None, rs1)
          else
            (case malloc a (unat flen) of
               None \<Rightarrow> (None, rs1)
             | Some raw \<Rightarrow>
                 (case read_full rs1 raw 0 (unat flen) of
                    (raw, False, rs2) \<Rightarrow> (None, rs2)
                  | (raw, True, rs2) \<Rightarrow>
                      let blen = unat flen - 4 in
                      (case malloc a (if blen \<noteq> 0 then blen else 1) of
                         None \<Rightarrow> (None, rs2)
                       | Some _ \<Rightarrow> (Some (get_le32 raw 0, bytes_at 4 blen raw), rs2)))))"

text \<open>The type is 0 when there is no reply.\<close>

definition read_reply :: "allocator \<Rightarrow> rdres list \<Rightarrow> u32 \<times> byte list \<times> ctl_note list" where
  "read_reply a rs =
     (case fst (ctl_recv_frame a rs) of
        None \<Rightarrow> (0, [], [N_no_reply])
      | Some (type, body) \<Rightarrow>
          if type = EPI_MSG_ERROR
          then (case epi_rd_u32 (epi_rd_init body) of (code, r) \<Rightarrow>
                  (type, body, [N_error code (fst (epi_rd_str a r))]))
          else (type, body, []))"

text \<open>
  What every request does after it has connected: it sends, reads the reply and closes. \<open>None\<close> is a
  request that could not be sent.
\<close>

definition ask :: "ctl_env \<Rightarrow> link \<Rightarrow> epi_buf \<Rightarrow> (u32 \<times> byte list) option \<times> ctl_note list \<times> call list" where
  "ask e l req =
     (case ctl_send_frame l req of
        (False, ws) \<Rightarrow> (None, [], ws @ [Closed])
      | (True, ws) \<Rightarrow>
          (case read_reply (ce_mem e) (l_reads l) of (type, body, notes) \<Rightarrow>
             (Some (type, body), notes, ws @ [Closed])))"

text \<open>The run of a command whose reply of the awaited type gives the status, output and notes.\<close>

definition run_request ::
  "ctl_env \<Rightarrow> link \<Rightarrow> epi_buf \<Rightarrow> u32 \<Rightarrow> (byte list \<Rightarrow> int \<times> byte list \<times> ctl_note list) \<Rightarrow> ctl_res" where
  "run_request e l req want k =
     (case connect_daemon e l of
        (False, ns, cs) \<Rightarrow> \<lparr>cx_code = 1, cx_out = [], cx_notes = ns, cx_calls = cs\<rparr>
      | (True, ns, cs) \<Rightarrow>
          (case ask e l req of
             (Some (type, body), ns1, cs1) \<Rightarrow>
               if type = want
               then (case k body of (code, out, ns2) \<Rightarrow>
                       \<lparr>cx_code = code, cx_out = out, cx_notes = ns @ ns1 @ ns2, cx_calls = cs @ cs1\<rparr>)
               else \<lparr>cx_code = 1, cx_out = [], cx_notes = ns @ ns1, cx_calls = cs @ cs1\<rparr>
           | (None, ns1, cs1) \<Rightarrow> \<lparr>cx_code = 1, cx_out = [], cx_notes = ns @ ns1, cx_calls = cs @ cs1\<rparr>))"

section \<open>Printing\<close>

abbreviation newline :: "byte list" where
  "newline \<equiv> [0x0a]"

text \<open>\<open>%-*s\<close>\<close>

definition padded :: "nat \<Rightarrow> byte list \<Rightarrow> byte list" where
  "padded n s = s @ replicate (n - length s) 0x20"

definition columns :: "(nat \<times> byte list) list \<Rightarrow> byte list" where
  "columns cs = concat (map (\<lambda>(n, s). padded n s @ [0x20]) cs)"

definition print_id :: "byte list \<Rightarrow> byte list" where
  "print_id body = decimal (unat (fst (epi_rd_u64 (epi_rd_init body)))) @ newline"

section \<open>Sessions\<close>

definition ctl_create_request :: "ctl_env \<Rightarrow> byte list option \<Rightarrow> epi_buf" where
  "ctl_create_request e cwd =
     (let a = ce_mem e;
          b = epi_buf_put_str a (epi_msg_start a EPI_MSG_CREATE) (Some (case cwd of Some w \<Rightarrow> w | None \<Rightarrow> []))
      in epi_msg_end (epi_buf_put_u32 a (epi_buf_put_u32 a b 0) 0))"

definition cmd_create :: "ctl_env \<Rightarrow> link \<Rightarrow> byte list list \<Rightarrow> ctl_res" where
  "cmd_create e l argv =
     run_request e l (ctl_create_request e (case argv of w # _ \<Rightarrow> Some w | [] \<Rightarrow> ce_cwd e)) EPI_MSG_ID
       (\<lambda>body. (0, print_id body, []))"

definition yes_no :: "bool \<Rightarrow> byte list" where
  "yes_no b = (if b then lit ''yes'' else lit ''no'')"

definition session_row :: "(int \<Rightarrow> byte list) \<Rightarrow> EpiSessionInfo \<Rightarrow> byte list" where
  "session_row ts i =
     columns [(6, decimal (unat (si_id i))), (8, decimal (unat (si_pid i))), (6, yes_no (si_alive i)),
              (8, yes_no (si_attached i)), (20, ts (si_created_at i))] @ si_cwd i @ newline"

definition session_head :: "byte list" where
  "session_head =
     columns [(6, lit ''ID''), (8, lit ''PID''), (6, lit ''ALIVE''), (8, lit ''ATTACHED''), (20, lit ''CREATED'')] @
     lit ''CWD'' @ newline"

definition cmd_list :: "ctl_env \<Rightarrow> link \<Rightarrow> ctl_res" where
  "cmd_list e l =
     run_request e l (empty_request (ce_mem e) EPI_MSG_LIST) EPI_MSG_LIST_REPLY
       (\<lambda>body. (0, session_head @ concat (map (session_row (ce_local_time e)) (parse_sessions (ce_mem e) body)), []))"

definition simple_id_cmd :: "ctl_env \<Rightarrow> link \<Rightarrow> u32 \<Rightarrow> u64 \<Rightarrow> ctl_res" where
  "simple_id_cmd e l msg_type i =
     run_request e l (id_request (ce_mem e) msg_type i) EPI_MSG_OK (\<lambda>_. (0, [], []))"

definition send_resize :: "ctl_env \<Rightarrow> link \<Rightarrow> u64 \<Rightarrow> u16 \<Rightarrow> u16 \<Rightarrow> ctl_res" where
  "send_resize e l i rows cols =
     (let a = ce_mem e in
      run_request e l (epi_msg_end (epi_buf_put_u16 a (epi_buf_put_u16 a
          (epi_buf_put_u64 a (epi_msg_start a EPI_MSG_RESIZE) i) rows) cols)) EPI_MSG_OK (\<lambda>_. (0, [], [])))"

definition show_tail :: "ctl_env \<Rightarrow> byte list \<Rightarrow> int \<times> byte list \<times> ctl_note list" where
  "show_tail e body =
     (case epi_rd_u64 (epi_rd_init body) of (_, r) \<Rightarrow>
      case epi_rd_blob (ce_mem e) r of ((tail, tlen), r) \<Rightarrow>
        if rd_err r then (1, [], [N_malformed_peek])
        else if tlen = 0 then (0, [], [])
        else case write_full (ce_stdout e) 0 tlen of (off, ok) \<Rightarrow>
               (if ok then 0 else 1, take off (the tail), []))"

definition cmd_peek :: "ctl_env \<Rightarrow> link \<Rightarrow> u64 \<Rightarrow> u32 \<Rightarrow> ctl_res" where
  "cmd_peek e l i max_bytes =
     (let a = ce_mem e in
      run_request e l (epi_msg_end (epi_buf_put_u32 a (epi_buf_put_u64 a (epi_msg_start a EPI_MSG_PEEK) i) max_bytes))
        EPI_MSG_PEEK_REPLY (show_tail e))"

section \<open>Groups\<close>

text \<open>The bytes read so far and the capacity of the block; \<open>None\<close> is a failure.\<close>

function read_stdin :: "allocator \<Rightarrow> rdres list \<Rightarrow> byte list \<Rightarrow> nat \<Rightarrow> byte list option" where
  "read_stdin a rs buf cap =
     (if length buf = cap \<and> realloc a buf (cap * 2) = None then None
      else
        let cap = (if length buf = cap then cap * 2 else cap) in
        case rs of
          [] \<Rightarrow> Some buf
        | Rd bs # rs' \<Rightarrow>
            (let got = take (cap - length buf) bs; left = drop (cap - length buf) bs in
             if got = [] then Some buf
             else read_stdin a (if left = [] then rs' else Rd left # rs') (buf @ got) cap)
        | Rd_intr # rs' \<Rightarrow> read_stdin a rs' buf cap
        | Rd_err # rs' \<Rightarrow> None)"
  by pat_completeness auto
termination
  by (relation "measures [\<lambda>(a, rs, buf, cap). sum_list (map (\<lambda>x. case x of Rd bs \<Rightarrow> length bs | _ \<Rightarrow> 0) rs),
                          \<lambda>(a, rs, buf, cap). length rs]") auto

declare read_stdin.simps [simp del]

definition read_blob_arg :: "ctl_env \<Rightarrow> byte list option \<Rightarrow> byte list option" where
  "read_blob_arg e arg =
     (case arg of
        None \<Rightarrow> Some []
      | Some s \<Rightarrow>
          if s \<noteq> lit ''-'' then
            (if s = [] then Some []
             else case malloc (ce_mem e) (length s) of None \<Rightarrow> None | Some _ \<Rightarrow> Some s)
          else (case malloc (ce_mem e) 65536 of
                  None \<Rightarrow> None
                | Some _ \<Rightarrow> read_stdin (ce_mem e) (ce_stdin e) [] 65536))"

definition hex_digit :: "nat \<Rightarrow> byte" where
  "hex_digit n = (if n < 10 then word_of_nat (48 + n) else word_of_nat (87 + n))"

definition escaped :: "byte \<Rightarrow> byte list" where
  "escaped b =
     (if 0x20 \<le> b \<and> b < 0x7f \<and> b \<noteq> 0x5c then [b]
      else if b = 0x5c then [0x5c, 0x5c]
      else [0x5c, 0x78, hex_digit (unat b div 16), hex_digit (unat b mod 16)])"

definition print_blob_escaped :: "byte list \<Rightarrow> byte list" where
  "print_blob_escaped p = concat (map escaped p)"

text \<open>A request whose blob is read once the daemon is connected.\<close>

definition blob_request ::
  "ctl_env \<Rightarrow> link \<Rightarrow> byte list option \<Rightarrow> (byte list \<Rightarrow> epi_buf) \<Rightarrow> u32 \<Rightarrow> (byte list \<Rightarrow> byte list) \<Rightarrow> ctl_res" where
  "blob_request e l arg req want out =
     (case read_blob_arg e arg of
        None \<Rightarrow>
          (case connect_daemon e l of
             (False, ns, cs) \<Rightarrow> \<lparr>cx_code = 1, cx_out = [], cx_notes = ns, cx_calls = cs\<rparr>
           | (True, ns, cs) \<Rightarrow> \<lparr>cx_code = 1, cx_out = [], cx_notes = ns @ [N_no_blob], cx_calls = cs @ [Closed]\<rparr>)
      | Some blob \<Rightarrow> run_request e l (req blob) want (\<lambda>body. (0, out body, [])))"

definition cmd_group_new :: "ctl_env \<Rightarrow> link \<Rightarrow> byte list option \<Rightarrow> ctl_res" where
  "cmd_group_new e l arg =
     (let a = ce_mem e in
      blob_request e l arg (\<lambda>blob. epi_msg_end (epi_buf_put_blob a (epi_msg_start a EPI_MSG_GROUP_NEW) blob))
        EPI_MSG_GROUP_ID print_id)"

definition cmd_group_set :: "ctl_env \<Rightarrow> link \<Rightarrow> u64 \<Rightarrow> byte list \<Rightarrow> ctl_res" where
  "cmd_group_set e l gid arg =
     (let a = ce_mem e in
      blob_request e l (Some arg)
        (\<lambda>blob. epi_msg_end (epi_buf_put_blob a (epi_buf_put_u64 a (epi_msg_start a EPI_MSG_GROUP_SET) gid) blob))
        EPI_MSG_OK (\<lambda>_. []))"

text \<open>\<open>mbuf\<close> and \<open>moff\<close>: snprintf keeps what fits with the NUL; what did not fit is written over.\<close>

definition MBUF :: nat where "MBUF = 256"

definition put_member :: "u64 \<Rightarrow> byte list \<times> nat \<times> bool \<Rightarrow> byte list \<times> nat \<times> bool" where
  "put_member sid s =
     (case s of (mbuf, moff, later) \<Rightarrow>
        let piece = (if later then lit '','' else []) @ decimal (unat sid)
        in (take moff mbuf @ take (MBUF - moff - 1) piece,
            if length piece < MBUF - moff then moff + length piece else moff, True))"

definition members_text :: "u64 list \<Rightarrow> byte list" where
  "members_text sids = fst (fold put_member sids ([], 0, False))"

definition group_row :: "(int \<Rightarrow> byte list) \<Rightarrow> EpiGroupInfo \<Rightarrow> byte list" where
  "group_row ts g =
     (let m = members_text (gi_members g) in
      columns [(6, decimal (unat (gi_id g))), (20, ts (gi_created_at g)), (8, decimal (gi_blob_len g)),
               (16, if m \<noteq> [] then m else lit ''-'')] @
      print_blob_escaped (case gi_blob g of None \<Rightarrow> [] | Some p \<Rightarrow> take (gi_blob_len g) p) @ newline)"

definition group_head :: "byte list" where
  "group_head =
     columns [(6, lit ''GID''), (20, lit ''CREATED''), (8, lit ''BLOBLEN''), (16, lit ''MEMBERS'')] @
     lit ''BLOB'' @ newline"

text \<open>The request that both listing commands make.\<close>

definition group_list_txn ::
  "ctl_env \<Rightarrow> link \<Rightarrow> (byte list \<Rightarrow> int \<times> byte list \<times> ctl_note list) \<Rightarrow> ctl_res" where
  "group_list_txn e l k = run_request e l (empty_request (ce_mem e) EPI_MSG_GROUP_LIST) EPI_MSG_GROUP_LIST_REPLY k"

definition cmd_group_list :: "ctl_env \<Rightarrow> link \<Rightarrow> ctl_res" where
  "cmd_group_list e l =
     group_list_txn e l
       (\<lambda>body. case parse_groups (ce_mem e) body of (inst, gs) \<Rightarrow>
          (0, lit ''instance '' @ decimal (unat inst) @ newline @ group_head @
              concat (map (group_row (ce_local_time e)) gs), []))"

fun blob_of_group :: "allocator \<Rightarrow> u64 \<Rightarrow> nat \<Rightarrow> epi_rd \<Rightarrow> (byte list option \<times> nat) option" where
  "blob_of_group a gid 0 r = None"
| "blob_of_group a gid (Suc n) r =
     (if rd_err r then None
      else case rd_group_info a r of (g, r1) \<Rightarrow>
             if gi_id g = gid \<and> \<not> rd_err r1 then Some (gi_blob g, gi_blob_len g)
             else blob_of_group a gid n r1)"

definition show_blob :: "ctl_env \<Rightarrow> u64 \<Rightarrow> byte list \<Rightarrow> int \<times> byte list \<times> ctl_note list" where
  "show_blob e gid body =
     (case epi_rd_u64 (epi_rd_init body) of (_, r) \<Rightarrow>
      case epi_rd_u32 r of (count, r) \<Rightarrow>
      case blob_of_group (ce_mem e) gid (unat count) r of
        None \<Rightarrow> (1, [], [N_no_group gid])
      | Some (blob, bloblen) \<Rightarrow>
          if bloblen = 0 then (0, [], [])
          else case write_full (ce_stdout e) 0 bloblen of (off, ok) \<Rightarrow>
                 (if ok then 0 else 1, take off (the blob), if ok then [] else [N_no_group gid]))"

definition cmd_group_blob :: "ctl_env \<Rightarrow> link \<Rightarrow> u64 \<Rightarrow> ctl_res" where
  "cmd_group_blob e l gid = group_list_txn e l (show_blob e gid)"

definition cmd_group_add :: "ctl_env \<Rightarrow> link \<Rightarrow> u64 \<Rightarrow> u64 \<Rightarrow> ctl_res" where
  "cmd_group_add e l gid sid =
     (let a = ce_mem e in
      run_request e l (epi_msg_end (epi_buf_put_u64 a (epi_buf_put_u64 a (epi_msg_start a EPI_MSG_GROUP_ADD) gid) sid))
        EPI_MSG_OK (\<lambda>_. (0, [], [])))"

definition show_instance :: "ctl_env \<Rightarrow> byte list \<Rightarrow> int \<times> byte list \<times> ctl_note list" where
  "show_instance e body =
     (case epi_rd_u32 (epi_rd_init body) of (count, r) \<Rightarrow>
      case rd_loop (rd_session_info (ce_mem e)) (unat count) r of (_, r) \<Rightarrow>
        if rd_err r \<or> rd_pos r \<ge> rd_len r then (1, [], [N_no_instance])
        else (0, decimal (unat (fst (epi_rd_u64 r))) @ newline, []))"

definition cmd_instance_id :: "ctl_env \<Rightarrow> link \<Rightarrow> ctl_res" where
  "cmd_instance_id e l =
     run_request e l (empty_request (ce_mem e) EPI_MSG_LIST) EPI_MSG_LIST_REPLY (show_instance e)"

end
