(* ===== verification/Ctl_Main.thy ===== *)
theory Ctl_Main
  imports Ctl
begin

text \<open>
  The attach loop of the command line client and its entry point (src/src/ctl/main.c). Every turn
  of the loop is one poll(2): what it reports, what the reads and writes of the turn return, the
  window size and the connection used if the size is sent. Entering and leaving raw mode is logged.
\<close>

section \<open>Attach\<close>

record revents =
  rv_in :: bool
  rv_hup :: bool
  rv_err :: bool

record poll_turn =
  po_stdin :: revents
  po_sock :: revents
  po_winch :: revents
  po_size :: "(u16 \<times> u16) option"
  po_size_link :: link
  po_typed :: rres
  po_sock_writes :: "wres list"
  po_output :: rres
  po_out_writes :: "wres list"

datatype poll_res = Poll_intr | Poll_err | Polled poll_turn

datatype tty_call = Raw_mode | Restored

record attached =
  at_sent :: "byte list"
  at_shown :: "byte list"
  at_notes :: "ctl_note list"
  at_calls :: "call list"
  at_detached :: bool

text \<open>The size that TIOCGWINSZ reports, if it does, is sent on a connection of its own.\<close>

definition send_current_size ::
  "ctl_env \<Rightarrow> u64 \<Rightarrow> (u16 \<times> u16) option \<Rightarrow> link \<Rightarrow> ctl_note list \<times> call list" where
  "send_current_size e i ws l =
     (case ws of
        None \<Rightarrow> ([], [])
      | Some (rows, cols) \<Rightarrow>
          if rows \<noteq> 0 \<and> cols \<noteq> 0
          then (let r = send_resize e l i rows cols in (cx_notes r, cx_calls r))
          else ([], []))"

text \<open>The turn when the window changed, when keys were typed, when the session wrote; whether to go on.\<close>

definition on_winch :: "ctl_env \<Rightarrow> u64 \<Rightarrow> bool \<Rightarrow> poll_turn \<Rightarrow> attached \<Rightarrow> attached" where
  "on_winch e i piped t s =
     (if piped \<and> rv_in (po_winch t)
      then (case send_current_size e i (po_size t) (po_size_link t) of (ns, cs) \<Rightarrow>
              s\<lparr>at_notes := at_notes s @ ns, at_calls := at_calls s @ cs\<rparr>)
      else s)"

definition put_keys :: "wres list \<Rightarrow> byte list \<Rightarrow> attached \<Rightarrow> attached \<times> bool" where
  "put_keys ws keys s =
     (case write_full ws 0 (length keys) of (off, ok) \<Rightarrow> (s\<lparr>at_sent := at_sent s @ take off keys\<rparr>, ok))"

definition on_stdin :: "poll_turn \<Rightarrow> attached \<Rightarrow> attached \<times> bool" where
  "on_stdin t s =
     (if \<not> rv_in (po_stdin t) then (s, True)
      else
        case po_typed t of
          R_data data \<Rightarrow>
            let keys = take 4096 data; before = takeWhile (\<lambda>b. b \<noteq> CTRL_RBRACKET) keys in
            if keys = [] then (s, False)
            else if before \<noteq> keys
            then ((fst (put_keys (po_sock_writes t) before s))\<lparr>at_detached := True\<rparr>, False)
            else put_keys (po_sock_writes t) keys s
        | _ \<Rightarrow> (s, False))"

definition on_sock :: "poll_turn \<Rightarrow> attached \<Rightarrow> attached \<times> bool" where
  "on_sock t s =
     (if \<not> (rv_in (po_sock t) \<or> rv_hup (po_sock t)) then (s, True)
      else
        case po_output t of
          R_data data \<Rightarrow>
            let out = take 65536 data in
            if out = [] then (s\<lparr>at_notes := at_notes s @ [N_closed]\<rparr>, False)
            else (case write_full (po_out_writes t) 0 (length out) of (off, ok) \<Rightarrow>
                    (s\<lparr>at_shown := at_shown s @ take off out\<rparr>, ok))
        | _ \<Rightarrow> (s\<lparr>at_notes := at_notes s @ [N_closed]\<rparr>, False))"

definition attach_turn :: "ctl_env \<Rightarrow> u64 \<Rightarrow> bool \<Rightarrow> poll_res \<Rightarrow> attached \<Rightarrow> attached \<times> bool" where
  "attach_turn e i piped p s =
     (case p of
        Poll_intr \<Rightarrow> (s, True)
      | Poll_err \<Rightarrow> (s, False)
      | Polled t \<Rightarrow>
          (case on_stdin t (on_winch e i piped t s) of
             (s1, False) \<Rightarrow> (s1, False)
           | (s1, True) \<Rightarrow> on_sock t s1))"

text \<open>The state after the given turns, and whether the loop was left.\<close>

fun attach_loop :: "ctl_env \<Rightarrow> u64 \<Rightarrow> bool \<Rightarrow> poll_res list \<Rightarrow> attached \<Rightarrow> attached \<times> bool" where
  "attach_loop e i piped [] s = (s, False)"
| "attach_loop e i piped (p # ps) s =
     (case attach_turn e i piped p s of
        (s1, True) \<Rightarrow> attach_loop e i piped ps s1
      | (s1, False) \<Rightarrow> (s1, True))"

record attach_env =
  ae_size :: "(u16 \<times> u16) option"
  ae_size_link :: link
  ae_tty :: bool
  ae_pipe :: bool
  ae_turns :: "poll_res list"

text \<open>
  The run, the bytes sent to the session, and what was done to the terminal; \<open>None\<close> is a loop that
  waits for more events.
\<close>

definition cmd_attach ::
  "ctl_env \<Rightarrow> attach_env \<Rightarrow> link \<Rightarrow> u64 \<Rightarrow> (ctl_res \<times> byte list \<times> tty_call list) option" where
  "cmd_attach e x l i =
     (case connect_daemon e l of
        (False, ns, cs) \<Rightarrow> Some (\<lparr>cx_code = 1, cx_out = [], cx_notes = ns, cx_calls = cs\<rparr>, [], [])
      | (True, ns, cs) \<Rightarrow>
          (case send_current_size e i (ae_size x) (ae_size_link x) of (sn, sc) \<Rightarrow>
           case ctl_send_frame l (id_request (ce_mem e) EPI_MSG_ATTACH i) of
             (False, ws) \<Rightarrow>
               Some (\<lparr>cx_code = 1, cx_out = [], cx_notes = ns @ sn, cx_calls = cs @ sc @ ws @ [Closed]\<rparr>, [], [])
           | (True, ws) \<Rightarrow>
               (case fst (ctl_recv_frame (ce_mem e) (l_reads l)) of
                  None \<Rightarrow>
                    Some (\<lparr>cx_code = 1, cx_out = [], cx_notes = ns @ sn @ [N_attach_no_reply],
                           cx_calls = cs @ sc @ ws @ [Closed]\<rparr>, [], [])
                | Some (type, body) \<Rightarrow>
                    if type \<noteq> EPI_MSG_ATTACHED
                    then Some (\<lparr>cx_code = 1, cx_out = [],
                             cx_notes = ns @ sn @
                               (if type = EPI_MSG_ERROR
                                then [N_attach_failed (fst (epi_rd_str (ce_mem e)
                                        (snd (epi_rd_u32 (epi_rd_init body)))))]
                                else []),
                             cx_calls = cs @ sc @ ws @ [Closed]\<rparr>, [], [])
                    else
                      let pipes = (if ae_pipe x then [Opened, Opened] else []);
                          s0 = \<lparr>at_sent = [], at_shown = [], at_notes = ns @ sn @ [N_attached i],
                                at_calls = cs @ sc @ ws @ pipes, at_detached = False\<rparr>
                      in case attach_loop e i (ae_pipe x) (ae_turns x) s0 of
                           (s, False) \<Rightarrow> None
                         | (s, True) \<Rightarrow>
                             Some (\<lparr>cx_code = 0, cx_out = at_shown s,
                                    cx_notes = at_notes s @ (if at_detached s then [N_detached] else []),
                                    cx_calls = at_calls s @ [Closed] @ (if ae_pipe x then [Closed, Closed] else [])\<rparr>,
                                   at_sent s, if ae_tty x then [Raw_mode, Restored] else []))))"

section \<open>Numbers on the command line\<close>

definition is_space :: "byte \<Rightarrow> bool" where
  "is_space b \<longleftrightarrow> b = 0x20 \<or> 0x09 \<le> b \<and> b \<le> 0x0d"

definition is_digit :: "byte \<Rightarrow> bool" where
  "is_digit b \<longleftrightarrow> 0x30 \<le> b \<and> b \<le> 0x39"

definition digits_value :: "byte list \<Rightarrow> nat" where
  "digits_value ds = fold (\<lambda>b v. 10 * v + (unat b - 48)) ds 0"

text \<open>The sign and the value of the longest number at the front, in base ten.\<close>

definition scan_number :: "byte list \<Rightarrow> bool \<times> nat" where
  "scan_number s =
     (let s = dropWhile is_space s;
          neg = (take 1 s = [0x2d]);
          s = (if take 1 s = [0x2d] \<or> take 1 s = [0x2b] then drop 1 s else s)
      in (neg, digits_value (takeWhile is_digit s)))"

definition strtoull :: "byte list \<Rightarrow> u64" where
  "strtoull s =
     (case scan_number s of (neg, v) \<Rightarrow>
        if v \<ge> 2 ^ 64 then - 1 else if neg then - word_of_nat v else word_of_nat v)"

text \<open>strtol, kept within a long, then cut to the 32 bits of an int.\<close>

definition atoi :: "byte list \<Rightarrow> u32" where
  "atoi s =
     (case scan_number s of (neg, v) \<Rightarrow>
        word_of_int (if neg then max (- (2 ^ 63)) (- int v) else min (2 ^ 63 - 1) (int v)))"

section \<open>The command line\<close>

datatype ctl_run =
    Usage
  | Ran ctl_res
  | Attach_ran "(ctl_res \<times> byte list \<times> tty_call list) option"

text \<open>The number of bytes asked for, in 32 bits.\<close>

definition peek_bytes :: "byte list option \<Rightarrow> u32" where
  "peek_bytes arg =
     (case arg of
        None \<Rightarrow> word_of_nat EPI_PEEK_DEFAULT_BYTES
      | Some s \<Rightarrow> if strtoull s > 0xffffffff then 0xffffffff else ucast (strtoull s))"

definition ctl_main :: "ctl_env \<Rightarrow> attach_env \<Rightarrow> link \<Rightarrow> byte list list \<Rightarrow> ctl_run" where
  "ctl_main e x l argv =
     (case argv of
        (_ # cmd # args) \<Rightarrow>
          let argc = length argv; arg = (\<lambda>k. argv ! k) in
          if cmd = lit ''create'' then Ran (cmd_create e l args)
          else if cmd = lit ''list'' then Ran (cmd_list e l)
          else if cmd = lit ''attach'' then
            (if argc < 3 then Usage else Attach_ran (cmd_attach e x l (strtoull (arg 2))))
          else if cmd = lit ''kill'' then
            (if argc < 3 then Usage else Ran (simple_id_cmd e l EPI_MSG_KILL (strtoull (arg 2))))
          else if cmd = lit ''resize'' then
            (if argc < 5 then Usage
             else Ran (send_resize e l (strtoull (arg 2)) (ucast (atoi (arg 3))) (ucast (atoi (arg 4)))))
          else if cmd = lit ''peek'' then
            (if argc < 3 then Usage
             else Ran (cmd_peek e l (strtoull (arg 2)) (peek_bytes (if argc > 3 then Some (arg 3) else None))))
          else if cmd = lit ''group-new'' then
            Ran (cmd_group_new e l (if argc > 2 then Some (arg 2) else None))
          else if cmd = lit ''group-set'' then
            (if argc < 4 then Usage else Ran (cmd_group_set e l (strtoull (arg 2)) (arg 3)))
          else if cmd = lit ''group-list'' then Ran (cmd_group_list e l)
          else if cmd = lit ''group-blob'' then
            (if argc < 3 then Usage else Ran (cmd_group_blob e l (strtoull (arg 2))))
          else if cmd = lit ''group-add'' then
            (if argc < 4 then Usage else Ran (cmd_group_add e l (strtoull (arg 2)) (strtoull (arg 3))))
          else if cmd = lit ''group-remove'' then
            (if argc < 3 then Usage else Ran (simple_id_cmd e l EPI_MSG_GROUP_REMOVE (strtoull (arg 2))))
          else if cmd = lit ''instance-id'' then Ran (cmd_instance_id e l)
          else Usage
      | _ \<Rightarrow> Usage)"

text \<open>The exit status of a run that ends.\<close>

fun exit_status :: "ctl_run \<Rightarrow> int option" where
  "exit_status Usage = Some 2"
| "exit_status (Ran r) = Some (cx_code r)"
| "exit_status (Attach_ran r) = map_option (\<lambda>(r, _). cx_code r) r"

end
