(* ===== verification/Ctl_Props.thy ===== *)
theory Ctl_Props
  imports Ctl_Main Client_Props "HOL-Library.Sublist"
begin

text \<open>
  What the command line client promises: its copies of the blocking routines agree with those of the
  client library, every command closes what it opens, what it prints of a group or an id is exact and
  can be read back, and an attached terminal passes keys and output on unchanged until Ctrl+].
\<close>

section \<open>The same routines as the client library\<close>

lemma write_full_all: "write_full ws off len = write_all ws off len"
proof (induction ws off len rule: write_full.induct)
  case (1 ws off len)
  show ?case
    by (subst write_full.simps, subst write_all.simps) (auto simp: 1 split: list.split wres.split)
qed

lemma read_full_all: "read_full rs buf off len = read_all rs buf off len"
proof (induction rs buf off len rule: read_full.induct)
  case (1 rs buf off len)
  show ?case
  proof (cases "off < len \<and> rs \<noteq> []")
    case False
    then show ?thesis by (subst read_full.simps, subst read_all.simps) auto
  next
    case True
    then obtain x rs' where rs: "rs = x # rs'" "off < len" by (cases rs) auto
    show ?thesis
    proof (cases x)
      case (Rd bs)
      show ?thesis
      proof (cases "take (len - off) bs = []")
        case False
        from 1(1)[OF rs(2,1) Rd refl refl False] show ?thesis using rs Rd False
          by (subst read_full.simps, subst read_all.simps) (simp add: Let_def del: take_eq_Nil)
      qed (use rs Rd in \<open>subst read_full.simps, subst read_all.simps, simp add: Let_def\<close>)
    next
      case Rd_intr
      then show ?thesis using 1(2)[OF rs(2,1)] rs by (subst read_full.simps, subst read_all.simps) simp
    qed (use rs in \<open>subst read_full.simps, subst read_all.simps, simp\<close>)
  qed
qed

text \<open>The frame at the head of the stream arrives, whatever memory it is read into.\<close>

lemma recv_result:
  assumes "never_fails a" "stream_of rs = frame t body @ rest" "4 + length body < 2 ^ 32"
  shows "fst (ctl_recv_frame a rs) = Some (t, body)"
proof -
  have frame: "length (frame t body) = 8 + length body" by (simp add: frame_def)
  have hd: "get_le32 (stream_of rs) 0 = word_of_nat (4 + length body)"
    using get_le32_le32[of "[]" _ "le32 t @ body @ rest"] by (simp add: assms(2) frame_def)
  let ?n = "4 + length body"
  have n: "unat (word_of_nat ?n :: u32) = ?n" by (rule of_nat_u32) (rule assms(3))
  obtain hdr ok rs1 where h: "read_all rs (replicate 4 0) 0 4 = (hdr, ok, rs1)" "ok = (4 \<le> length (stream_of rs))"
    "ok \<longrightarrow> hdr = take 4 (stream_of rs) \<and> stream_of rs1 = drop 4 (stream_of rs)"
    by (rule read_block[where n = 4 and rs = rs])
  have ok: ok using h(2) frame by (simp add: assms(2))
  have flen: "get_le32 hdr 0 = word_of_nat ?n" using h(3) ok hd by (simp add: get_le32_take)
  obtain raw where raw: "malloc a ?n = Some raw" "length raw = ?n"
    using malloc_never_fails[OF assms(1)] malloc_length by (metis (no_types) option.exhaust)
  have s1: "stream_of rs1 = le32 t @ body @ rest" using h(3) ok by (simp add: assms(2) frame_def)
  obtain raw2 ok2 rs2 where r: "read_all rs1 raw 0 ?n = (raw2, ok2, rs2)" by (cases "read_all rs1 raw 0 ?n")
  have "ok2" "raw2 = le32 t @ body"
    using read_all_stream[of 0 ?n raw rs1] raw(2) r by (simp_all add: s1)
  moreover have "get_le32 (le32 t @ body) 0 = t" using get_le32_le32[of "[]" t body] by simp
  moreover have "bytes_at 4 (length body) (le32 t @ body) = body" by (simp add: bytes_at_def)
  moreover have "\<not> (word_of_nat ?n :: u32) < 4" using n by (simp add: word_less_nat_alt)
  moreover obtain m where "malloc a (if length body \<noteq> 0 then length body else 1) = Some m"
    using malloc_never_fails[OF assms(1)] by (metis (no_types) option.exhaust)
  ultimately show ?thesis using h(1) ok flen raw(1) r n
    by (simp add: ctl_recv_frame_def read_full_all Let_def split: if_splits)
qed

text \<open>The client can reach a daemon that takes the whole request.\<close>

definition ctl_delivers :: "ctl_env \<Rightarrow> link \<Rightarrow> epi_buf \<Rightarrow> bool" where
  "ctl_delivers e l req \<longleftrightarrow> fst (connect_daemon e l) \<and> \<not> b_oom req \<and> snd (write_full (l_writes l) 0 (b_len req))"

lemma connected: "fst (connect_daemon e l) \<Longrightarrow> connect_daemon e l = (True, [], [Opened])"
  by (auto simp: connect_daemon_def split: option.splits if_splits)

lemma run_request_delivers:
  assumes "ctl_delivers e l req" "never_fails (ce_mem e)" "stream_of (l_reads l) = frame want body @ rest"
    and "4 + length body < 2 ^ 32" "want \<noteq> EPI_MSG_ERROR"
  shows "run_request e l req want k =
    (case k body of (code, out, notes) \<Rightarrow>
       \<lparr>cx_code = code, cx_out = out, cx_notes = notes, cx_calls = [Opened, Wrote (buf_bytes req), Closed]\<rparr>)"
proof -
  have "fst (write_all (l_writes l) 0 (b_len req)) = b_len req"
    using assms(1) write_all_ok[of 0 "b_len req" "l_writes l"] by (simp add: ctl_delivers_def write_full_all)
  then have "ctl_send_frame l req = (True, [Wrote (buf_bytes req)])"
    using assms(1) by (auto simp: ctl_send_frame_def ctl_delivers_def write_full_all buf_bytes_def split: prod.splits)
  moreover have "read_reply (ce_mem e) (l_reads l) = (want, body, [])"
    using recv_result[OF assms(2-4)] assms(5) by (simp add: read_reply_def)
  moreover have "connect_daemon e l = (True, [], [Opened])" using assms(1) by (intro connected) (simp add: ctl_delivers_def)
  ultimately show ?thesis by (simp add: run_request_def ask_def split: prod.split)
qed

section \<open>Descriptors\<close>

lemma ctl_connect_fds: "opened_fds (snd (snd (connect_daemon e l))) = (if fst (connect_daemon e l) then 1 else 0)"
  by (simp add: connect_daemon_def split: option.split)

lemma ctl_send_fds: "opened_fds (snd (ctl_send_frame l b)) = 0"
  by (simp add: ctl_send_frame_def split: prod.split)

lemma ask_fds: "opened_fds (snd (snd (ask e l req))) = -1"
  using ctl_send_fds[of l req] by (auto simp: ask_def split: prod.split bool.split)

lemma run_request_fds [simp]: "opened_fds (cx_calls (run_request e l req want k)) = 0"
  using ctl_connect_fds[of e l] ask_fds[of e l req]
  by (auto simp: run_request_def split: prod.splits bool.splits option.splits)

lemma blob_request_fds [simp]: "opened_fds (cx_calls (blob_request e l arg req want out)) = 0"
  using ctl_connect_fds[of e l] by (auto simp: blob_request_def split: prod.splits bool.splits option.splits)

lemma send_current_size_fds: "opened_fds (snd (send_current_size e i ws l)) = 0"
  by (auto simp: send_current_size_def send_resize_def Let_def split: option.split)

lemma on_winch_keeps:
  "opened_fds (at_calls (on_winch e i piped t s)) = opened_fds (at_calls s)"
  "at_sent (on_winch e i piped t s) = at_sent s" "at_shown (on_winch e i piped t s) = at_shown s"
  "at_detached (on_winch e i piped t s) = at_detached s"
  using send_current_size_fds[of e i "po_size t" "po_size_link t"] by (auto simp: on_winch_def split: prod.split)

lemma on_stdin_calls: "at_calls (fst (on_stdin t s)) = at_calls s" "at_shown (fst (on_stdin t s)) = at_shown s"
  by (auto simp: on_stdin_def put_keys_def Let_def split: rres.split prod.split)

lemma on_sock_keeps: "at_calls (fst (on_sock t s)) = at_calls s" "at_sent (fst (on_sock t s)) = at_sent s"
  "at_detached (fst (on_sock t s)) = at_detached s"
  by (auto simp: on_sock_def Let_def split: rres.split prod.split)

lemma attach_turn_fds: "opened_fds (at_calls (fst (attach_turn e i piped p s))) = opened_fds (at_calls s)"
proof (cases p)
  case (Polled t)
  obtain s1 go where r: "on_stdin t (on_winch e i piped t s) = (s1, go)" by (cases "on_stdin t (on_winch e i piped t s)")
  then have "opened_fds (at_calls s1) = opened_fds (at_calls s)"
    using on_stdin_calls(1)[of t "on_winch e i piped t s"] on_winch_keeps(1)[of e i piped t s] by simp
  then show ?thesis using Polled r by (cases go) (simp_all add: attach_turn_def on_sock_keeps)
qed (simp_all add: attach_turn_def)

lemma attach_loop_fds: "opened_fds (at_calls (fst (attach_loop e i piped ps s))) = opened_fds (at_calls s)"
proof (induction ps arbitrary: s)
  case (Cons p ps)
  obtain s1 go where r: "attach_turn e i piped p s = (s1, go)" by (cases "attach_turn e i piped p s")
  then show ?case using Cons.IH[of s1] attach_turn_fds[of e i piped p s] by (cases go) simp_all
qed simp

lemma attach_fds:
  assumes "cmd_attach e x l i = Some (r, sent, tty)"
  shows "opened_fds (cx_calls r) = 0" "tty = [] \<or> tty = [Raw_mode, Restored]"
proof -
  obtain ok ns cs where c: "connect_daemon e l = (ok, ns, cs)" by (cases "connect_daemon e l")
  obtain sn sc where w: "send_current_size e i (ae_size x) (ae_size_link x) = (sn, sc)"
    by (cases "send_current_size e i (ae_size x) (ae_size_link x)")
  obtain sent_ok ws where f: "ctl_send_frame l (id_request (ce_mem e) EPI_MSG_ATTACH i) = (sent_ok, ws)"
    by (cases "ctl_send_frame l (id_request (ce_mem e) EPI_MSG_ATTACH i)")
  have fds: "opened_fds cs = (if ok then 1 else 0)" "opened_fds sc = 0" "opened_fds ws = 0"
    using ctl_connect_fds[of e l] c send_current_size_fds[of e i "ae_size x" "ae_size_link x"] w
      ctl_send_fds[of l] f by (simp, metis snd_conv, metis snd_conv)
  let ?s0 = "\<lparr>at_sent = [], at_shown = [], at_notes = ns @ sn @ [N_attached i],
    at_calls = cs @ sc @ ws @ (if ae_pipe x then [Opened, Opened] else []), at_detached = False\<rparr>"
  have loop: "opened_fds (at_calls (fst (attach_loop e i (ae_pipe x) (ae_turns x) ?s0))) =
      opened_fds cs + (if ae_pipe x then 2 else 0)"
    using attach_loop_fds[of e i "ae_pipe x" "ae_turns x" ?s0] fds by simp
  show "opened_fds (cx_calls r) = 0" using assms fds loop
    by (simp add: cmd_attach_def c w f Let_def split: if_splits option.splits prod.splits bool.splits) auto
  show "tty = [] \<or> tty = [Raw_mode, Restored]" using assms
    by (simp add: cmd_attach_def c w f Let_def split: if_splits option.splits prod.splits bool.splits)
qed

text \<open>Whatever the arguments, the daemon and the system calls do, a run of the command line client
  that ends has closed every descriptor it opened, the connection as well as the pipe of an attached
  terminal, and has given the terminal its mode back if it had changed it.\<close>

theorem ctl_closes_its_sockets:
  "case ctl_main e x l argv of
     Usage \<Rightarrow> True
   | Ran r \<Rightarrow> opened_fds (cx_calls r) = 0
   | Attach_ran None \<Rightarrow> True
   | Attach_ran (Some (r, sent, tty)) \<Rightarrow> opened_fds (cx_calls r) = 0 \<and> (tty = [] \<or> tty = [Raw_mode, Restored])"
proof (cases "ctl_main e x l argv")
  case (Ran r)
  have "opened_fds (cx_calls r) = 0" using Ran
    by (auto simp: ctl_main_def Let_def cmd_create_def cmd_list_def simple_id_cmd_def send_resize_def cmd_peek_def
        cmd_group_new_def cmd_group_set_def cmd_group_list_def group_list_txn_def cmd_group_blob_def
        cmd_group_add_def cmd_instance_id_def split: list.splits if_splits)
  then show ?thesis using Ran by simp
next
  case (Attach_ran r)
  then obtain i where "r = cmd_attach e x l i" by (auto simp: ctl_main_def Let_def split: list.splits if_splits)
  then show ?thesis using Attach_ran attach_fds[of e x l i] by (auto split: option.split)
qed simp

section \<open>The blob of a group\<close>

lemma blob_of_group_at:
  assumes "never_fails a" and "\<forall>g \<in> set gs. group_info_ok g" and "rd_at r (concat (map enc_group_info gs) @ rest)"
  shows "blob_of_group a gid (length gs) r =
    map_option (\<lambda>g. (gi_blob g, gi_blob_len g)) (find (\<lambda>g. gi_id g = gid) gs)"
  using assms(2,3)
proof (induction gs arbitrary: r)
  case (Cons g gs)
  have d: "fst (rd_group_info a r) = g" "rd_at (snd (rd_group_info a r)) (concat (map enc_group_info gs) @ rest)"
    using group_info.decode[OF assms(1), of g r "concat (map enc_group_info gs) @ rest"] Cons.prems by simp_all
  then show ?case using Cons.IH[OF _ d(2)] Cons.prems rd_at_err[OF d(2)] rd_at_err[OF Cons.prems(2)]
    by (simp add: case_prod_beta)
qed simp

lemma find_group_info: "find (\<lambda>g. gi_id g = gid) (map (group_info_of srv) gs) =
    map_option (group_info_of srv) (find (\<lambda>g. g_id g = gid) gs)"
  by (induction gs) (simp_all add: group_info_of_def)

definition wrote_all :: "wres list \<Rightarrow> nat \<Rightarrow> bool" where
  "wrote_all ws n \<longleftrightarrow> write_full ws 0 n = (n, True)"

lemma wrote_allI: "snd (write_full ws 0 n) \<Longrightarrow> wrote_all ws n"
  using write_all_ok[of 0 n ws] by (simp add: wrote_all_def write_full_all prod_eq_iff)

text \<open>C26. The group-blob command, end to end: run against the daemon, it writes to its output exactly
  the bytes that are stored for the group, whatever they are, and succeeds; for a group that the
  daemon does not have it writes nothing and fails. It closes its connection in both cases.\<close>

theorem ctl_group_blob_is_exact:
  assumes inv: "srv_inv srv" and mem: "never_fails (e_mem env)" "never_fails (ce_mem e)"
    and sent: "ctl_delivers e l (empty_request (ce_mem e) EPI_MSG_GROUP_LIST)"
    and served: "serves (dispatch_frame env cr EPI_MSG_GROUP_LIST []) cr srv l"
    and fits: "4 + length (groups_body srv) < 2 ^ 32"
    and out: "\<forall>n \<le> EPI_GROUP_BLOB_MAX. snd (write_full (ce_stdout e) 0 n)"
  shows "cmd_group_blob e l gid =
    (case find (\<lambda>g. g_id g = gid) (groups srv) of
       Some g \<Rightarrow> \<lparr>cx_code = 0, cx_out = (case g_blob g of None \<Rightarrow> [] | Some p \<Rightarrow> p), cx_notes = [],
                  cx_calls = [Opened, Wrote (frame EPI_MSG_GROUP_LIST []), Closed]\<rparr>
     | None \<Rightarrow> \<lparr>cx_code = 1, cx_out = [], cx_notes = [N_no_group gid],
                 cx_calls = [Opened, Wrote (frame EPI_MSG_GROUP_LIST []), Closed]\<rparr>)"
proof -
  have wf: "\<forall>g \<in> set (groups srv). group_wf g" using inv by (simp add: srv_inv_def inv_objs_def)
  obtain rest where stream: "stream_of (l_reads l) = frame EPI_MSG_GROUP_LIST_REPLY (groups_body srv) @ rest"
    using serves_reply[OF inv mem(1) served list_groups.handled[OF inv TrueI mem(1)]] by blast
  note wire = groups_wire[OF fits wf]
  have "blob_of_group (ce_mem e) gid (length (groups srv))
      (snd (epi_rd_u32 (snd (epi_rd_u64 (epi_rd_init (groups_body srv)))))) =
      map_option (\<lambda>g. (g_blob g, g_blob_len g)) (find (\<lambda>g. g_id g = gid) (groups srv))"
    using blob_of_group_at[OF mem(2) wire(2), of _ "[]" gid] wire(5)
    by (simp add: find_group_info option.map_comp comp_def group_info_of_def)
  moreover have "unat (fst (epi_rd_u32 (snd (epi_rd_u64 (epi_rd_init (groups_body srv)))))) = length (groups srv)"
    using wire(1,4) of_nat_u32 by simp
  ultimately have k: "show_blob e gid (groups_body srv) =
      (case find (\<lambda>g. g_id g = gid) (groups srv) of
         None \<Rightarrow> (1, [], [N_no_group gid])
       | Some g \<Rightarrow> if g_blob_len g = 0 then (0, [], [])
                    else case write_full (ce_stdout e) 0 (g_blob_len g) of (off, ok) \<Rightarrow>
                      (if ok then 0 else 1, take off (the (g_blob g)), if ok then [] else [N_no_group gid]))"
    by (simp add: show_blob_def case_prod_beta split: option.split)
  have "group_wf g \<and> wrote_all (ce_stdout e) (g_blob_len g)" if "find (\<lambda>g. g_id g = gid) (groups srv) = Some g" for g
    using that wf out by (auto simp: find_Some_iff group_wf_def intro!: wrote_allI)
  then show ?thesis
    using run_request_delivers[OF sent mem(2) stream fits, of "show_blob e gid"]
      empty_request_bytes[OF mem(2), of EPI_MSG_GROUP_LIST]
    unfolding cmd_group_blob_def group_list_txn_def
    by (auto simp: k msg_codes wrote_all_def group_wf_def blob_wf_def split: option.split)
qed

definition demo_ctl :: ctl_env where
  "demo_ctl = \<lparr>ce_paths = \<lparr>p_getenv = (\<lambda>_. None), p_uid = 1000, p_mkdir = (\<lambda>_. Mk_ok)\<rparr>, ce_mem = alloc_ok,
     ce_cwd = None, ce_local_time = (\<lambda>_. []), ce_stdin = [], ce_stdout = [W_ok 100000]\<rparr>"

lemma demo_ctl_parts [simp]: "ce_mem demo_ctl = alloc_ok" "ce_stdout demo_ctl = [W_ok 100000]"
  by (simp_all add: demo_ctl_def)

lemma demo_ctl_path: "fst (epi_socket_path (ce_paths demo_ctl) 512) = Some (lit ''/tmp/epimone-1000/control.sock'')"
proof -
  have d: "decimal 1000 = lit ''1000''" by (simp add: decimal.simps lit_def)
  show ?thesis
    by (simp add: demo_ctl_def epi_socket_path_def epi_runtime_dir_def printed_def made_def ensure_dir_def PATH_TMP_def
        make_dirs_ok d EPIMONE_SOCKET_NAME_def Let_def split: prod.split) (simp add: lit_def)
qed

lemma demo_ctl_delivers: "delivers demo_client (demo_link h) b \<Longrightarrow> ctl_delivers demo_ctl (demo_link h) b"
  unfolding ctl_delivers_def connect_daemon_def demo_ctl_path
  by (simp add: delivers_def demo_link_def sun_path_size_def write_full_all)

theorem ctl_group_blob_is_exact_witness:
  "\<exists>l. cmd_group_blob demo_ctl l 1 = \<lparr>cx_code = 0, cx_out = [5], cx_notes = [],
     cx_calls = [Opened, Wrote (frame EPI_MSG_GROUP_LIST []), Closed]\<rparr>"
proof -
  let ?l = "demo_link (dispatch_frame demo_env 1 EPI_MSG_GROUP_LIST [])"
  have fits: "4 + length (groups_body demo_srv) < 2 ^ 32"
    by (simp add: groups_body_def demo_srv_def demo_sess_def empty_server_def enc_group_info_def group_info_of_def
        members_of_def session_in_group_def enc_block_def enc_blob_def)
  have mem: "never_fails (e_mem demo_env)" "never_fails (ce_mem demo_ctl)" by simp_all
  have sent: "ctl_delivers demo_ctl ?l (empty_request (ce_mem demo_ctl) EPI_MSG_GROUP_LIST)"
    using demo_request by (intro demo_ctl_delivers) simp
  have "\<forall>n \<le> EPI_GROUP_BLOB_MAX. snd (write_full (ce_stdout demo_ctl) 0 n)"
    by (simp add: write_full.simps EPI_GROUP_BLOB_MAX_def)
  from ctl_group_blob_is_exact[OF demo_inv mem sent demo_serves[OF refl] fits this, of 1]
  show ?thesis by (intro exI[of _ ?l]) (simp add: demo_srv_def empty_server_def)
qed

section \<open>What is printed\<close>

text \<open>The reader of the escapes: what a user or a script undoes them with.\<close>

definition hex_value :: "byte \<Rightarrow> nat" where
  "hex_value b = (if unat b < 58 then unat b - 48 else unat b - 87)"

fun unescape :: "byte list \<Rightarrow> byte list" where
  "unescape [] = []"
| "unescape (b # bs) =
     (if b \<noteq> 0x5c then b # unescape bs
      else case bs of
             [] \<Rightarrow> [b]
           | c # cs \<Rightarrow>
               if c \<noteq> 0x78 then c # unescape cs
               else (case cs of
                       d # e # rest \<Rightarrow> word_of_nat (16 * hex_value d + hex_value e) # unescape rest
                     | _ \<Rightarrow> []))"

lemma hex_digits: "\<forall>n \<in> set [0..<16]. hex_value (hex_digit n) = n \<and> 0x20 \<le> hex_digit n \<and> hex_digit n < 0x7f"
  by (simp add: upt_rec hex_value_def hex_digit_def)

lemma hex_digitD: "n < 16 \<Longrightarrow> hex_value (hex_digit n) = n \<and> 0x20 \<le> hex_digit n \<and> hex_digit n < 0x7f"
  using bspec[OF hex_digits, of n] by simp

lemma byte_nibbles: "unat (b :: byte) div 16 < 16" "unat b mod 16 < 16"
proof -
  have "unat b < 2 ^ LENGTH(8)" by (rule unsigned_less)
  then show "unat b div 16 < 16" "unat b mod 16 < 16" by simp_all
qed

lemma unescape_step: "unescape (escaped b @ rest) = b # unescape rest"
proof -
  have "word_of_nat (16 * (unat b div 16) + unat b mod 16) = b" by (simp only: mult_div_mod_eq) simp
  then show ?thesis using byte_nibbles[of b] by (simp add: escaped_def hex_digitD del: of_nat_add of_nat_mult)
qed

lemma escaped_printable: "c \<in> set (escaped b) \<Longrightarrow> 0x20 \<le> c \<and> c < 0x7f"
  using hex_digitD[OF byte_nibbles(1)[of b]] hex_digitD[OF byte_nibbles(2)[of b]]
  by (simp add: escaped_def split: if_splits) (elim disjE; simp)+

text \<open>The escaped form in which group-list shows a blob is printable ASCII only, so that no blob
  can send an escape sequence to the terminal it is listed on, and nothing of the blob is lost:
  undoing the escapes gives its bytes back, so different blobs never look the same.\<close>

theorem escaped_blob_is_safe_and_exact:
  "(\<forall>c \<in> set (print_blob_escaped p). 0x20 \<le> c \<and> c < 0x7f) \<and> unescape (print_blob_escaped p) = p \<and>
   (print_blob_escaped p = print_blob_escaped q \<longleftrightarrow> p = q)"
proof -
  have undo: "unescape (print_blob_escaped r) = r" for r
    by (induction r) (simp_all add: print_blob_escaped_def unescape_step)
  then have "print_blob_escaped p = print_blob_escaped q \<longleftrightarrow> p = q" by metis
  then show ?thesis using undo escaped_printable by (auto simp: print_blob_escaped_def)
qed

section \<open>Numbers\<close>

lemma digits_append: "digits_value (xs @ [d]) = 10 * digits_value xs + (unat d - 48)"
  by (simp add: digits_value_def)

lemma digit_bytes: "\<forall>n \<in> set [0..<10]. is_digit (word_of_nat (48 + n)) \<and> unat (word_of_nat (48 + n) :: byte) = 48 + n"
  by (simp add: upt_rec is_digit_def)

lemma digit_byteD: "n < 10 \<Longrightarrow> is_digit (word_of_nat (48 + n)) \<and> unat (word_of_nat (48 + n) :: byte) = 48 + n"
  using bspec[OF digit_bytes, of n] by simp

lemma decimal_digits: "(\<forall>b \<in> set (decimal n). is_digit b) \<and> decimal n \<noteq> [] \<and> digits_value (decimal n) = n"
proof (induction n rule: decimal.induct)
  case (1 n)
  show ?case
  proof (cases "n < 10")
    case True
    then show ?thesis using digit_byteD[OF True] by (subst (1 2 3) decimal.simps) (simp add: digits_value_def)
  next
    case False
    have d: "n mod 10 < 10" by simp
    from 1[OF False] digit_byteD[OF d] show ?thesis using False
      by (subst (1 2 3) decimal.simps) (simp add: digits_append)
  qed
qed

lemma scan_decimal: "scan_number (decimal n) = (False, n)"
proof -
  obtain b bs where d: "decimal n = b # bs" using decimal_digits[of n] by (cases "decimal n") auto
  have b: "is_digit b" using decimal_digits[of n] by (simp add: d)
  then have "\<not> is_space b" "b \<noteq> 0x2d" "b \<noteq> 0x2b"
    by (auto simp: is_digit_def is_space_def word_le_nat_alt)
  moreover have "takeWhile is_digit (decimal n) = decimal n" using decimal_digits[of n] by (simp add: takeWhile_eq_all_conv)
  moreover have "digits_value (decimal n) = n" using decimal_digits by simp
  ultimately show ?thesis by (simp add: scan_number_def d Let_def)
qed

text \<open>An id is read back as the number it was printed as, for the whole range of 64 bits: what the
  create command prints for a new session, given to any other command, names that session. Likewise
  a row or column count below 65536 reaches the wire unchanged.\<close>

theorem printed_ids_are_read_back:
  "print_id (le64 i) = decimal (unat i) @ newline \<and> strtoull (decimal (unat i)) = i \<and>
   (\<forall>n. n < 65536 \<longrightarrow> unat (ucast (atoi (decimal n)) :: u16) = n)"
proof -
  have "fst (epi_rd_u64 (epi_rd_init (le64 i))) = i"
    using rd_u64_at(1)[OF rd_at_init[of "le64 i @ []"]] by simp
  moreover have "unat i < 2 ^ LENGTH(64)" by (rule unsigned_less)
  then have "strtoull (decimal (unat i)) = i" by (simp add: strtoull_def scan_decimal)
  moreover have "unat (ucast (atoi (decimal n)) :: u16) = n" if n: "n < 65536" for n
    using n by (simp add: atoi_def scan_decimal unsigned_ucast_eq unsigned_of_nat take_bit_nat_eq_self)
  ultimately show ?thesis by (simp add: print_id_def)
qed

theorem escaped_blob_is_safe_and_exact_witness:
  "unescape (print_blob_escaped [27, 91, 92, 65, 0]) = [27, 91, 92, 65, 0] \<and>
   print_blob_escaped [27, 65] = lit (CHR 0x5C # ''x1b'' @ ''A'')"
  using escaped_blob_is_safe_and_exact[of "[27, 91, 92, 65, 0]"]
  by (simp add: print_blob_escaped_def escaped_def hex_digit_def lit_def)

theorem printed_ids_are_read_back_witness:
  "strtoull (lit ''12345'') = 12345 \<and> unat (ucast (atoi (lit ''80'')) :: u16) = 80"
proof -
  have "decimal 80 = lit ''80''" "decimal (unat (12345 :: u64)) = lit ''12345''"
    by (simp_all add: decimal.simps lit_def)
  moreover have "(80 :: nat) < 65536" by simp
  ultimately show ?thesis using printed_ids_are_read_back[of 12345] by metis
qed

section \<open>An attached terminal\<close>

text \<open>The keys and the output that reach the client in the given turns.\<close>

fun typed :: "poll_res list \<Rightarrow> byte list" where
  "typed [] = []"
| "typed (Polled t # ps) =
     (if rv_in (po_stdin t) then (case po_typed t of R_data data \<Rightarrow> take 4096 data | _ \<Rightarrow> []) else []) @ typed ps"
| "typed (p # ps) = typed ps"

fun session_output :: "poll_res list \<Rightarrow> byte list" where
  "session_output [] = []"
| "session_output (Polled t # ps) =
     (if rv_in (po_sock t) \<or> rv_hup (po_sock t)
      then (case po_output t of R_data data \<Rightarrow> take 65536 data | _ \<Rightarrow> []) else []) @ session_output ps"
| "session_output (p # ps) = session_output ps"

abbreviation before_escape :: "byte list \<Rightarrow> byte list" where
  "before_escape keys \<equiv> takeWhile (\<lambda>b. b \<noteq> CTRL_RBRACKET) keys"

lemma write_full_done: "write_full ws 0 n = (off, True) \<Longrightarrow> off = n"
  using write_all_ok[of 0 n ws] by (simp add: write_full_all)

lemma put_keys_result:
  assumes "put_keys ws keys s = (s1, ok)"
  shows "\<exists>z. s1 = s\<lparr>at_sent := at_sent s @ z\<rparr> \<and> prefix z keys \<and> (ok \<longrightarrow> z = keys)"
proof -
  obtain off where w: "write_full ws 0 (length keys) = (off, ok)" "s1 = s\<lparr>at_sent := at_sent s @ take off keys\<rparr>"
    using assms by (auto simp: put_keys_def split: prod.splits)
  then show ?thesis using write_full_done[of ws "length keys" off]
    by (intro exI[of _ "take off keys"]) (auto simp: take_is_prefix)
qed

text \<open>The keys of one turn: what the session gets of them, and whether the loop goes on.\<close>

definition keys_of :: "poll_turn \<Rightarrow> byte list" where
  "keys_of t = (if rv_in (po_stdin t) then (case po_typed t of R_data data \<Rightarrow> take 4096 data | _ \<Rightarrow> []) else [])"

definition out_of :: "poll_turn \<Rightarrow> byte list" where
  "out_of t = (if rv_in (po_sock t) \<or> rv_hup (po_sock t)
               then (case po_output t of R_data data \<Rightarrow> take 65536 data | _ \<Rightarrow> []) else [])"

lemma typed_Polled: "typed (Polled t # ps) = keys_of t @ typed ps"
  and session_output_Polled: "session_output (Polled t # ps) = out_of t @ session_output ps"
  by (simp_all add: keys_of_def out_of_def)

text \<open>The socket takes all the keys of a turn that are to be sent.\<close>

definition taken :: "poll_turn \<Rightarrow> bool" where
  "taken t \<longleftrightarrow> snd (write_full (po_sock_writes t) 0 (length (before_escape (keys_of t))))"

definition all_taken :: "poll_res list \<Rightarrow> bool" where
  "all_taken ps \<longleftrightarrow> list_all (\<lambda>p. case p of Polled t \<Rightarrow> taken t | _ \<Rightarrow> True) ps"

lemma all_taken_Cons: "all_taken (Polled t # ps) \<longleftrightarrow> taken t \<and> all_taken ps"
  by (simp add: all_taken_def)

lemma on_stdin_result:
  assumes "on_stdin t s = (s1, go)"
  shows "\<exists>z. at_sent s1 = at_sent s @ z \<and> prefix z (before_escape (keys_of t)) \<and>
    (go \<longrightarrow> z = keys_of t \<and> CTRL_RBRACKET \<notin> set (keys_of t) \<and> at_detached s1 = at_detached s) \<and>
    (at_detached s1 \<longrightarrow> at_detached s \<or> CTRL_RBRACKET \<in> set (keys_of t) \<and>
       (taken t \<longrightarrow> z = before_escape (keys_of t)))"
proof (cases "rv_in (po_stdin t) \<and> (\<exists>data. po_typed t = R_data data)")
  case False
  then have "s1 = s" "keys_of t = []" "go \<longrightarrow> CTRL_RBRACKET \<notin> set (keys_of t)"
    using assms by (cases "rv_in (po_stdin t)"; cases "po_typed t"; simp add: on_stdin_def keys_of_def)+
  then show ?thesis by simp
next
  case True
  then obtain data where data: "rv_in (po_stdin t)" "po_typed t = R_data data" by blast
  let ?keys = "take 4096 data"
  have keys: "keys_of t = ?keys" using data by (simp add: keys_of_def)
  have esc: "before_escape ?keys \<noteq> ?keys \<longleftrightarrow> CTRL_RBRACKET \<in> set ?keys" by (auto simp: takeWhile_eq_all_conv)
  show ?thesis
  proof (cases "?keys = []")
    case True
    then show ?thesis using assms data by (auto simp: on_stdin_def keys_of_def split: if_splits)
  next
    case ne: False
    show ?thesis
    proof (cases "CTRL_RBRACKET \<in> set ?keys")
      case True
      obtain s2 ok where k: "put_keys (po_sock_writes t) (before_escape ?keys) s = (s2, ok)"
        by (cases "put_keys (po_sock_writes t) (before_escape ?keys) s")
      have "s1 = s2\<lparr>at_detached := True\<rparr>" "\<not> go"
        using assms data ne True esc k by (auto simp: on_stdin_def Let_def)
      moreover have "ok" if "taken t"
        using that k by (auto simp: taken_def keys put_keys_def split: prod.splits)
      ultimately show ?thesis using put_keys_result[OF k] True unfolding keys by auto
    next
      case no: False
      then have "put_keys (po_sock_writes t) ?keys s = (s1, go)"
        using assms data ne esc by (auto simp: on_stdin_def Let_def)
      from put_keys_result[OF this] obtain z where z: "s1 = s\<lparr>at_sent := at_sent s @ z\<rparr>" "prefix z ?keys" "go \<longrightarrow> z = ?keys"
        by blast
      have "before_escape ?keys = ?keys" using no esc by blast
      then have "prefix z (before_escape ?keys)" using z(2) by (rule ssubst)
      then show ?thesis using z no unfolding keys by auto
    qed
  qed
qed

lemma on_sock_result:
  assumes "on_sock t s = (s1, go)"
  shows "\<exists>y. at_shown s1 = at_shown s @ y \<and> prefix y (out_of t) \<and> (go \<longrightarrow> y = out_of t)"
proof (cases "(rv_in (po_sock t) \<or> rv_hup (po_sock t)) \<and> (\<exists>data. po_output t = R_data data)")
  case False
  then show ?thesis using assms by (cases "po_output t") (auto simp: on_sock_def out_of_def split: if_splits)
next
  case True
  then obtain data where data: "rv_in (po_sock t) \<or> rv_hup (po_sock t)" "po_output t = R_data data" by blast
  define out where "out = take 65536 data"
  have out: "out_of t = out" using data by (simp add: out_of_def out_def)
  obtain off ok where w: "write_full (po_out_writes t) 0 (length out) = (off, ok)"
    by (cases "write_full (po_out_writes t) 0 (length out)")
  have "on_sock t s = (if out = [] then (s\<lparr>at_notes := at_notes s @ [N_closed]\<rparr>, False)
      else (s\<lparr>at_shown := at_shown s @ take off out\<rparr>, ok))"
    using data w by (auto simp: on_sock_def out_def Let_def)
  then show ?thesis using assms w write_full_done[of "po_out_writes t" "length out" off] unfolding out
    by (cases "out = []") (auto simp: take_is_prefix)
qed

lemma before_escape_append:
  "CTRL_RBRACKET \<notin> set xs \<Longrightarrow> before_escape (xs @ ys) = xs @ before_escape ys"
  by (induction xs) auto

lemma prefix_before: "prefix z (before_escape xs) \<Longrightarrow> prefix z (before_escape (xs @ ys))"
proof (cases "CTRL_RBRACKET \<in> set xs")
  case True
  then have "before_escape (xs @ ys) = before_escape xs" by (intro takeWhile_append1) auto
  then show "prefix z (before_escape xs) \<Longrightarrow> prefix z (before_escape (xs @ ys))" by simp
next
  case False
  then have "before_escape xs = xs" by (auto simp: takeWhile_eq_all_conv)
  then show "prefix z (before_escape xs) \<Longrightarrow> prefix z (before_escape (xs @ ys))"
    using False by (simp add: before_escape_append)
qed

text \<open>What a whole run of the loop has passed on.\<close>

definition passed_on :: "poll_res list \<Rightarrow> attached \<Rightarrow> attached \<Rightarrow> bool \<Rightarrow> bool" where
  "passed_on ps s s1 fin \<longleftrightarrow>
     (\<exists>z y. at_sent s1 = at_sent s @ z \<and> at_shown s1 = at_shown s @ y \<and>
        prefix z (before_escape (typed ps)) \<and> prefix y (session_output ps) \<and>
        (\<not> fin \<longrightarrow> z = typed ps \<and> y = session_output ps \<and> CTRL_RBRACKET \<notin> set (typed ps)) \<and>
        (at_detached s1 \<longrightarrow> at_detached s \<or> CTRL_RBRACKET \<in> set (typed ps) \<and>
           (all_taken ps \<longrightarrow> z = before_escape (typed ps))))"

lemma attach_turn_result:
  assumes "attach_turn e i piped (Polled t) s = (s1, go)"
  shows "\<exists>z y. at_sent s1 = at_sent s @ z \<and> at_shown s1 = at_shown s @ y \<and>
     prefix z (before_escape (keys_of t)) \<and> prefix y (out_of t) \<and>
     (go \<longrightarrow> z = keys_of t \<and> y = out_of t \<and> CTRL_RBRACKET \<notin> set (keys_of t) \<and> at_detached s1 = at_detached s) \<and>
     (at_detached s1 \<longrightarrow> at_detached s \<or> CTRL_RBRACKET \<in> set (keys_of t) \<and>
        (taken t \<longrightarrow> z = before_escape (keys_of t)))"
proof -
  let ?w = "on_winch e i piped t s"
  obtain s2 go2 where k: "on_stdin t ?w = (s2, go2)" by (cases "on_stdin t ?w")
  have shown: "at_shown s2 = at_shown s" using on_stdin_calls(2)[of t ?w] k by (simp add: on_winch_keeps)
  note r = on_stdin_result[OF k, unfolded on_winch_keeps]
  show ?thesis
  proof (cases go2)
    case False
    then show ?thesis using assms k r shown by (auto simp: attach_turn_def)
  next
    case True
    then have "on_sock t s2 = (s1, go)" using assms k by (simp add: attach_turn_def)
    from on_sock_result[OF this] on_sock_keeps(2,3)[of t s2] this show ?thesis using r True shown by auto
  qed
qed

lemma attach_loop_result: "attach_loop e i piped ps s = (s1, fin) \<Longrightarrow> passed_on ps s s1 fin"
proof (induction ps arbitrary: s)
  case (Cons p ps)
  show ?case
  proof (cases p)
    case (Polled t)
    obtain s2 go where t: "attach_turn e i piped (Polled t) s = (s2, go)" by (cases "attach_turn e i piped (Polled t) s")
    note r = attach_turn_result[OF t]
    show ?thesis
    proof (cases go)
      case False
      then have "s1 = s2" "fin" using Cons.prems Polled t by simp_all
      moreover have "before_escape (keys_of t @ typed ps) = before_escape (keys_of t)" if "CTRL_RBRACKET \<in> set (keys_of t)"
        using that by (intro takeWhile_append1) auto
      ultimately show ?thesis using r unfolding Polled passed_on_def typed_Polled session_output_Polled all_taken_Cons
        by (fastforce intro: prefix_before prefix_prefix)
    next
      case True
      then have "passed_on ps s2 s1 fin" using Cons Polled t by simp
      then show ?thesis using r True unfolding Polled passed_on_def typed_Polled session_output_Polled all_taken_Cons
        by (auto simp: before_escape_append)
    qed
  qed (use Cons in \<open>auto simp: attach_turn_def passed_on_def all_taken_def\<close>)
qed (simp add: passed_on_def)

text \<open>The loop itself never reports a detaching; \<open>cmd_attach\<close> does, after it.\<close>

lemma ask_notes: "N_detached \<notin> set (fst (snd (ask e l req)))"
  by (cases "ctl_send_frame l req"; cases "fst (ctl_send_frame l req)")
    (auto simp: ask_def read_reply_def split: option.split prod.split)

lemma size_notes: "N_detached \<notin> set (fst (send_current_size e i ws l))"
proof -
  have "N_detached \<notin> set (cx_notes (run_request e l req want (\<lambda>_. (0, [], []))))" for req want
    using ask_notes[of e l req] by (auto simp: run_request_def connect_daemon_def split: option.split prod.split)
  then show ?thesis by (simp add: send_current_size_def send_resize_def Let_def split: option.split)
qed

lemma on_stdin_notes: "at_notes (fst (on_stdin t s)) = at_notes s"
  by (auto simp: on_stdin_def put_keys_def Let_def split: rres.split prod.split)

lemma on_sock_notes: "set (at_notes (fst (on_sock t s))) \<subseteq> set (at_notes s) \<union> {N_closed}"
  by (auto simp: on_sock_def Let_def split: rres.split prod.split)

lemma on_winch_notes: "N_detached \<notin> set (at_notes s) \<Longrightarrow> N_detached \<notin> set (at_notes (on_winch e i piped t s))"
  using size_notes[of e i "po_size t" "po_size_link t"] by (auto simp: on_winch_def split: prod.split)

lemma attach_turn_notes:
  "N_detached \<notin> set (at_notes s) \<Longrightarrow> N_detached \<notin> set (at_notes (fst (attach_turn e i piped p s)))"
proof (cases p)
  case (Polled t)
  assume n: "N_detached \<notin> set (at_notes s)"
  obtain s1 go where k: "on_stdin t (on_winch e i piped t s) = (s1, go)" by (cases "on_stdin t (on_winch e i piped t s)")
  have "N_detached \<notin> set (at_notes s1)"
    using on_winch_notes[OF n, of e i piped t] on_stdin_notes[of t "on_winch e i piped t s"] k by simp
  then show ?thesis using on_sock_notes[of t s1] k Polled by (cases go) (auto simp: attach_turn_def)
qed (simp_all add: attach_turn_def)

lemma attach_loop_notes:
  "N_detached \<notin> set (at_notes s) \<Longrightarrow> N_detached \<notin> set (at_notes (fst (attach_loop e i piped ps s)))"
proof (induction ps arbitrary: s)
  case (Cons p ps)
  obtain s1 go where t: "attach_turn e i piped p s = (s1, go)" by (cases "attach_turn e i piped p s")
  then have "N_detached \<notin> set (at_notes s1)" using attach_turn_notes[OF Cons.prems, of e i piped p] by simp
  then show ?case using t Cons.IH by (cases go) simp_all
qed simp

text \<open>A run of \<open>cmd_attach\<close> that ends has sent and shown what its loop has, or never began one.\<close>

lemma cmd_attach_run:
  assumes "cmd_attach e x l i = Some (r, sent, tty)"
  shows "sent = [] \<and> cx_out r = [] \<and> N_detached \<notin> set (cx_notes r) \<or>
    (\<exists>s s1. attach_loop e i (ae_pipe x) (ae_turns x) s = (s1, True) \<and> at_sent s = [] \<and> at_shown s = [] \<and>
       \<not> at_detached s \<and> sent = at_sent s1 \<and> cx_out r = at_shown s1 \<and>
       (N_detached \<in> set (cx_notes r) \<longleftrightarrow> at_detached s1))"
proof -
  obtain ok ns cs where c: "connect_daemon e l = (ok, ns, cs)" by (cases "connect_daemon e l")
  have n1: "N_detached \<notin> set ns" using c by (auto simp: connect_daemon_def split: option.splits if_splits)
  obtain sn sc where w: "send_current_size e i (ae_size x) (ae_size_link x) = (sn, sc)"
    by (cases "send_current_size e i (ae_size x) (ae_size_link x)")
  have n2: "N_detached \<notin> set sn" using size_notes[of e i "ae_size x" "ae_size_link x"] w by simp
  obtain sent_ok ws where f: "ctl_send_frame l (id_request (ce_mem e) EPI_MSG_ATTACH i) = (sent_ok, ws)"
    by (cases "ctl_send_frame l (id_request (ce_mem e) EPI_MSG_ATTACH i)")
  let ?s0 = "\<lparr>at_sent = [], at_shown = [], at_notes = ns @ sn @ [N_attached i],
    at_calls = cs @ sc @ ws @ (if ae_pipe x then [Opened, Opened] else []), at_detached = False\<rparr>"
  obtain s1 fin where lp: "attach_loop e i (ae_pipe x) (ae_turns x) ?s0 = (s1, fin)"
    by (cases "attach_loop e i (ae_pipe x) (ae_turns x) ?s0")
  have n3: "N_detached \<notin> set (at_notes s1)" using attach_loop_notes[of ?s0 e i "ae_pipe x" "ae_turns x"] n1 n2 lp by simp
  show ?thesis
  proof (cases "ok \<and> sent_ok \<and> (\<exists>body. fst (ctl_recv_frame (ce_mem e) (l_reads l)) = Some (EPI_MSG_ATTACHED, body))")
    case False
    then show ?thesis using assms n1 n2
      by (auto simp: cmd_attach_def c w f Let_def split: if_splits option.splits prod.splits bool.splits)
  next
    case True
    then obtain body where at: "ok" "sent_ok" "fst (ctl_recv_frame (ce_mem e) (l_reads l)) = Some (EPI_MSG_ATTACHED, body)"
      by blast
    have "cmd_attach e x l i = (if fin then Some (\<lparr>cx_code = 0, cx_out = at_shown s1,
             cx_notes = at_notes s1 @ (if at_detached s1 then [N_detached] else []),
             cx_calls = at_calls s1 @ [Closed] @ (if ae_pipe x then [Closed, Closed] else [])\<rparr>,
           at_sent s1, if ae_tty x then [Raw_mode, Restored] else []) else None)"
      unfolding cmd_attach_def c w f prod.case at option.case Let_def lp by (cases fin) (simp_all add: at)
    then have "fin" "sent = at_sent s1" "cx_out r = at_shown s1" "N_detached \<in> set (cx_notes r) \<longleftrightarrow> at_detached s1"
      using assms n3 by (auto split: if_splits)
    then show ?thesis using lp by (intro disjI2 exI[of _ ?s0] exI[of _ s1]) simp
  qed
qed

lemma loop_is_transparent:
  assumes "attach_loop e i piped ps s = (s1, fin)" "at_sent s = []" "at_shown s = []" "\<not> at_detached s"
  shows "prefix (at_sent s1) (before_escape (typed ps)) \<and> prefix (at_shown s1) (session_output ps) \<and>
    CTRL_RBRACKET \<notin> set (at_sent s1) \<and>
    (\<not> fin \<longrightarrow> at_sent s1 = typed ps \<and> at_shown s1 = session_output ps) \<and>
    (at_detached s1 \<longrightarrow> CTRL_RBRACKET \<in> set (typed ps) \<and>
       (all_taken ps \<longrightarrow> at_sent s1 = before_escape (typed ps)))"
proof -
  have p: "prefix (at_sent s1) (before_escape (typed ps))"
    using attach_loop_result[OF assms(1)] assms(2) by (auto simp: passed_on_def)
  then have "set (at_sent s1) \<subseteq> set (before_escape (typed ps))" by (rule set_mono_prefix)
  then have "CTRL_RBRACKET \<notin> set (at_sent s1)" by (auto dest: set_takeWhileD)
  then show ?thesis using p attach_loop_result[OF assms(1)] assms(2-4) by (auto simp: passed_on_def)
qed

text \<open>C25. An attached terminal is transparent up to Ctrl+]. While the loop runs, the session has been sent
  exactly the keys typed, in order, and the terminal has been shown exactly what the session wrote.
  When a run of the command ends, what was sent is nothing more and nothing else than keys typed
  before the first Ctrl+], which itself never reaches the session, and what was shown is a prefix of
  what the session wrote; and if it ended as detached, which it only does when Ctrl+] was typed, the
  session was sent exactly the keys before the first Ctrl+], those of the same read included, provided
  that the socket took what was written to it.\<close>

theorem attached_terminal_is_transparent:
  "(attach_loop e i piped ps s = (s1, False) \<and> at_sent s = [] \<and> at_shown s = [] \<and> \<not> at_detached s \<longrightarrow>
      at_sent s1 = typed ps \<and> at_shown s1 = session_output ps \<and> CTRL_RBRACKET \<notin> set (typed ps)) \<and>
   (cmd_attach e x l i = Some (r, sent, tty) \<longrightarrow>
      prefix sent (takeWhile (\<lambda>b. b \<noteq> CTRL_RBRACKET) (typed (ae_turns x))) \<and>
      CTRL_RBRACKET \<notin> set sent \<and> prefix (cx_out r) (session_output (ae_turns x)) \<and>
      (N_detached \<in> set (cx_notes r) \<longrightarrow> CTRL_RBRACKET \<in> set (typed (ae_turns x)) \<and>
         (all_taken (ae_turns x) \<longrightarrow> sent = takeWhile (\<lambda>b. b \<noteq> CTRL_RBRACKET) (typed (ae_turns x)))))"
proof (intro conjI [of "_ \<longrightarrow> _"] impI)
  assume run: "attach_loop e i piped ps s = (s1, False) \<and> at_sent s = [] \<and> at_shown s = [] \<and> \<not> at_detached s"
  then show "at_sent s1 = typed ps \<and> at_shown s1 = session_output ps \<and> CTRL_RBRACKET \<notin> set (typed ps)"
    using loop_is_transparent[of e i piped ps s s1 False] by auto
next
  assume "cmd_attach e x l i = Some (r, sent, tty)"
  from cmd_attach_run[OF this] loop_is_transparent[of e i "ae_pipe x" "ae_turns x" _ _ True]
  show "prefix sent (before_escape (typed (ae_turns x))) \<and>
      CTRL_RBRACKET \<notin> set sent \<and> prefix (cx_out r) (session_output (ae_turns x)) \<and>
      (N_detached \<in> set (cx_notes r) \<longrightarrow> CTRL_RBRACKET \<in> set (typed (ae_turns x)) \<and>
         (all_taken (ae_turns x) \<longrightarrow> sent = before_escape (typed (ae_turns x))))"
    by fastforce
qed

definition quiet_events :: revents where
  "quiet_events = \<lparr>rv_in = False, rv_hup = False, rv_err = False\<rparr>"

definition typing :: "byte list \<Rightarrow> poll_res" where
  "typing keys = Polled \<lparr>po_stdin = \<lparr>rv_in = True, rv_hup = False, rv_err = False\<rparr>, po_sock = quiet_events,
     po_winch = quiet_events, po_size = None, po_size_link = demo_link (\<lambda>s. s), po_typed = R_data keys,
     po_sock_writes = [W_ok 1, W_intr, W_ok 9], po_output = R_again, po_out_writes = []\<rparr>"

definition fresh_attach :: attached where
  "fresh_attach = \<lparr>at_sent = [], at_shown = [], at_notes = [], at_calls = [], at_detached = False\<rparr>"

text \<open>The session was attached; the user types \<open>ls\<close>, Enter and Ctrl+] in one read, and more.\<close>

definition wit_attach :: attach_env where
  "wit_attach = \<lparr>ae_size = None, ae_size_link = demo_link (\<lambda>s. s), ae_tty = True, ae_pipe = False,
     ae_turns = [typing [108, 115], typing [10, 0x1d, 65], typing [66]]\<rparr>"

definition attach_link :: link where
  "attach_link = \<lparr>l_socket = True, l_connect = True, l_writes = [W_ok 100], l_reads = [Rd (frame EPI_MSG_ATTACHED [])]\<rparr>"

theorem attached_terminal_is_transparent_witness:
  "\<exists>r tty. cmd_attach demo_ctl wit_attach attach_link 1 = Some (r, [108, 115, 10], tty) \<and> N_detached \<in> set (cx_notes r)"
proof -
  let ?req = "id_request alloc_ok EPI_MSG_ATTACH 1"
  have "buf_app (epi_msg_start alloc_ok EPI_MSG_ATTACH) (epi_buf_put_u64 alloc_ok (epi_msg_start alloc_ok EPI_MSG_ATTACH) 1) (le64 1)"
    by (rule buf_writes)
  from msg_end_frame[OF this] have "buf_bytes ?req = frame EPI_MSG_ATTACH (le64 1)" "buf_ok ?req" "\<not> b_oom ?req"
    by (simp_all add: id_request_def)
  then have "b_len ?req = 16" "\<not> b_oom ?req"
    by (auto simp: buf_bytes_def buf_ok_def frame_def dest!: arg_cong[of _ _ length])
  then have send: "ctl_send_frame attach_link ?req = (True, [Wrote (take 16 (b_data ?req))])"
    by (simp add: ctl_send_frame_def attach_link_def write_full.simps)
  have conn: "connect_daemon demo_ctl attach_link = (True, [], [Opened])"
    unfolding connect_daemon_def demo_ctl_path by (simp add: attach_link_def sun_path_size_def lit_def)
  have recv: "fst (ctl_recv_frame alloc_ok (l_reads attach_link)) = Some (EPI_MSG_ATTACHED, [])"
    by (rule recv_result[where rest = "[]"]) (simp_all add: attach_link_def frame_def)
  have "\<exists>r sent tty. cmd_attach demo_ctl wit_attach attach_link 1 = Some (r, sent, tty) \<and> N_detached \<in> set (cx_notes r)"
    unfolding cmd_attach_def conn prod.case demo_ctl_parts send recv
    by (simp add: wit_attach_def send_current_size_def attach_turn_def typing_def quiet_events_def on_winch_def
        on_stdin_def on_sock_def put_keys_def CTRL_RBRACKET_def write_full.simps Let_def)
  then obtain r sent tty where run: "cmd_attach demo_ctl wit_attach attach_link 1 = Some (r, sent, tty)"
    "N_detached \<in> set (cx_notes r)" by blast
  have "all_taken (ae_turns wit_attach)"
    by (simp add: all_taken_def taken_def wit_attach_def typing_def keys_of_def write_full.simps CTRL_RBRACKET_def)
  moreover have "before_escape (typed (ae_turns wit_attach)) = [108, 115, 10]"
    by (simp add: wit_attach_def typing_def CTRL_RBRACKET_def)
  ultimately have "sent = [108, 115, 10]"
    using attached_terminal_is_transparent[where e = demo_ctl and x = wit_attach and l = attach_link and i = 1
        and r = r and sent = sent and tty = tty] run by simp
  then show ?thesis using run by blast
qed

text \<open>When the input of an attached client is a pipe whose writer has gone, poll(2) reports a hang-up
  without input at once, every time. The loop reads its input only when there is input to read, so it
  neither ends nor waits: however many turns it has taken, it goes on unchanged.\<close>

theorem closed_input_spins:
  assumes "rv_hup (po_stdin t)" "\<not> rv_in (po_stdin t)" "\<not> rv_in (po_sock t)" "\<not> rv_hup (po_sock t)"
    and "\<not> rv_in (po_winch t)"
  shows "attach_loop e i piped (replicate n (Polled t)) s = (s, False)"
proof (induction n)
  case (Suc n)
  then show ?case using assms by (simp add: attach_turn_def on_winch_def on_stdin_def on_sock_def)
qed simp

definition hung_up :: poll_turn where
  "hung_up = \<lparr>po_stdin = \<lparr>rv_in = False, rv_hup = True, rv_err = False\<rparr>, po_sock = quiet_events,
     po_winch = quiet_events, po_size = None, po_size_link = demo_link (\<lambda>s. s), po_typed = R_again,
     po_sock_writes = [], po_output = R_again, po_out_writes = []\<rparr>"

theorem closed_input_spins_witness:
  "attach_loop demo_ctl 1 True (replicate 1000000 (Polled hung_up)) fresh_attach = (fresh_attach, False)"
  by (rule closed_input_spins) (simp_all add: hung_up_def quiet_events_def)

end
