(* ===== verification/Shortcuts.thy ===== *)
theory Shortcuts
  imports Protocol
begin

text \<open>
  Keyboard shortcuts: their table, the stored accelerators, what is refused as one, how they are
  shown and how they reach the application (src/src/epimone-shortcuts.c), and the dialog that
  captures one (src/src/epimone-settings.c). GTK's parser and printer of accelerators, its table of
  key values and the mask of modifiers that count are parameters.
\<close>

type_synonym mods = u32
type_synonym keyval = u32

record accels =
  tk_parse :: "byte list \<Rightarrow> (keyval \<times> mods) option"
  tk_valid :: "keyval \<Rightarrow> mods \<Rightarrow> bool"
  tk_label :: "keyval \<Rightarrow> mods \<Rightarrow> byte list"
  tk_name :: "keyval \<Rightarrow> mods \<Rightarrow> byte list"
  tk_mask :: mods
  tk_lower :: "keyval \<Rightarrow> keyval"
  tk_unicode :: "keyval \<Rightarrow> u32"

text \<open>Modifier bits and key values as GDK numbers them.\<close>

definition GDK_SHIFT_MASK :: mods where "GDK_SHIFT_MASK = 1"
definition GDK_LOCK_MASK :: mods where "GDK_LOCK_MASK = 2"
definition GDK_CONTROL_MASK :: mods where "GDK_CONTROL_MASK = 4"
definition GDK_ALT_MASK :: mods where "GDK_ALT_MASK = 8"

definition GDK_KEY_Return :: keyval where "GDK_KEY_Return = 0xff0d"
definition GDK_KEY_KP_Enter :: keyval where "GDK_KEY_KP_Enter = 0xff8d"
definition GDK_KEY_ISO_Enter :: keyval where "GDK_KEY_ISO_Enter = 0xfe34"
definition GDK_KEY_Tab :: keyval where "GDK_KEY_Tab = 0xff09"
definition GDK_KEY_KP_Tab :: keyval where "GDK_KEY_KP_Tab = 0xff89"
definition GDK_KEY_ISO_Left_Tab :: keyval where "GDK_KEY_ISO_Left_Tab = 0xfe20"
definition GDK_KEY_Escape :: keyval where "GDK_KEY_Escape = 0xff1b"
definition GDK_KEY_BackSpace :: keyval where "GDK_KEY_BackSpace = 0xff08"
definition GDK_KEY_space :: keyval where "GDK_KEY_space = 0x20"
definition GDK_KEY_Left :: keyval where "GDK_KEY_Left = 0xff51"
definition GDK_KEY_Up :: keyval where "GDK_KEY_Up = 0xff52"
definition GDK_KEY_Right :: keyval where "GDK_KEY_Right = 0xff53"
definition GDK_KEY_Down :: keyval where "GDK_KEY_Down = 0xff54"
definition GDK_KEY_Sys_Req :: keyval where "GDK_KEY_Sys_Req = 0xff15"
definition GDK_KEY_Print :: keyval where "GDK_KEY_Print = 0xff61"

lemmas key_defs =
  GDK_KEY_Return_def GDK_KEY_KP_Enter_def GDK_KEY_ISO_Enter_def GDK_KEY_Tab_def GDK_KEY_KP_Tab_def
  GDK_KEY_ISO_Left_Tab_def GDK_KEY_Escape_def GDK_KEY_BackSpace_def GDK_KEY_space_def GDK_KEY_Left_def
  GDK_KEY_Up_def GDK_KEY_Right_def GDK_KEY_Down_def GDK_KEY_Sys_Req_def GDK_KEY_Print_def

lemmas mask_defs = GDK_SHIFT_MASK_def GDK_LOCK_MASK_def GDK_CONTROL_MASK_def GDK_ALT_MASK_def

section \<open>The table\<close>

record EpimoneShortcut =
  sc_key :: "byte list"
  sc_action :: "byte list"
  sc_label :: "byte list"
  sc_group :: "byte list"

definition shortcut :: "string \<Rightarrow> string \<Rightarrow> string \<Rightarrow> string \<Rightarrow> EpimoneShortcut" where
  "shortcut k a l g = \<lparr>sc_key = lit k, sc_action = lit a, sc_label = lit l, sc_group = lit g\<rparr>"

definition epimone_shortcut_table :: "EpimoneShortcut list" where
  "epimone_shortcut_table = [
     shortcut ''new-tab'' ''win.new-tab'' ''New Tab'' ''Tabs & Windows'',
     shortcut ''new-window'' ''win.new-window'' ''New Window'' ''Tabs & Windows'',
     shortcut ''set-title'' ''win.set-title'' ''Set Title'' ''Tabs & Windows'',
     shortcut ''preferences'' ''win.preferences'' ''Preferences'' ''Tabs & Windows'',
     shortcut ''overview'' ''win.overview'' ''All Sessions'' ''Tabs & Windows'',
     shortcut ''tab-move-left'' ''win.tab-move-left'' ''Move Tab Left'' ''Tabs & Windows'',
     shortcut ''tab-move-right'' ''win.tab-move-right'' ''Move Tab Right'' ''Tabs & Windows'',
     shortcut ''split-right'' ''win.split-right'' ''Split Right'' ''Panes'',
     shortcut ''split-down'' ''win.split-down'' ''Split Down'' ''Panes'',
     shortcut ''close-pane'' ''win.close-pane'' ''Detach Pane'' ''Panes'',
     shortcut ''kill-pane'' ''win.kill-pane'' ''Kill Pane'' ''Panes'',
     shortcut ''zoom'' ''win.zoom'' ''Zoom Pane'' ''Panes'',
     shortcut ''open-in-new-tab'' ''win.open-in-new-tab'' ''Open in New Tab'' ''Panes'',
     shortcut ''read-only'' ''win.read-only'' ''Read-Only'' ''Panes'',
     shortcut ''reset'' ''win.reset'' ''Reset'' ''Panes'',
     shortcut ''reset-and-clear'' ''win.reset-and-clear'' ''Reset and Clear'' ''Panes'',
     shortcut ''focus-left'' ''win.focus::left'' ''Focus Pane Left'' ''Panes'',
     shortcut ''focus-right'' ''win.focus::right'' ''Focus Pane Right'' ''Panes'',
     shortcut ''focus-up'' ''win.focus::up'' ''Focus Pane Up'' ''Panes'',
     shortcut ''focus-down'' ''win.focus::down'' ''Focus Pane Down'' ''Panes'',
     shortcut ''copy'' ''win.copy'' ''Copy'' ''Clipboard'',
     shortcut ''paste'' ''win.paste'' ''Paste'' ''Clipboard'',
     shortcut ''select-all'' ''win.select-all'' ''Select All'' ''Clipboard'',
     shortcut ''select-none'' ''win.select-none'' ''Select None'' ''Clipboard'']"

text \<open>The letters c d z l a e k u w r.\<close>

definition epimone_reserved_ctrl_keys :: "keyval list" where
  "epimone_reserved_ctrl_keys = [0x63, 0x64, 0x7a, 0x6c, 0x61, 0x65, 0x6b, 0x75, 0x77, 0x72]"

definition epimone_shortcuts_table :: "EpimoneShortcut list \<times> nat" where
  "epimone_shortcuts_table = (epimone_shortcut_table, length epimone_shortcut_table)"

definition epimone_shortcuts_lookup :: "byte list option \<Rightarrow> EpimoneShortcut option" where
  "epimone_shortcuts_lookup key =
     (case key of None \<Rightarrow> None | Some k \<Rightarrow> find (\<lambda>s. sc_key s = k) epimone_shortcut_table)"

section \<open>Labels\<close>

definition epimone_modifier_names :: "byte list list" where
  "epimone_modifier_names = [lit ''Ctrl'', lit ''Shift'', lit ''Alt'', lit ''Super'', lit ''Meta'', lit ''Hyper'']"

abbreviation plus_sign :: byte where
  "plus_sign \<equiv> 0x2b"

text \<open>A modifier that is followed by a plus sign and something more.\<close>

definition is_modifier_prefix :: "byte list \<Rightarrow> byte list \<Rightarrow> bool" where
  "is_modifier_prefix rest m \<longleftrightarrow>
     take (length m) rest = m \<and> length m + 1 < length rest \<and> rest ! length m = plus_sign"

function strip_modifiers :: "byte list set \<Rightarrow> byte list \<Rightarrow> byte list set \<times> byte list" where
  "strip_modifiers have rest =
     (case find (is_modifier_prefix rest) epimone_modifier_names of
        None \<Rightarrow> (have, rest)
      | Some m \<Rightarrow> strip_modifiers (insert m have) (drop (length m + 1) rest))"
  by pat_completeness auto
termination
  by (relation "measure (\<lambda>(have, rest). length rest)") (auto simp: find_Some_iff is_modifier_prefix_def)

declare strip_modifiers.simps [simp del]

definition epimone_shortcuts_conventional_label :: "byte list option \<Rightarrow> byte list option" where
  "epimone_shortcuts_conventional_label gtk_label =
     map_option (\<lambda>text. case strip_modifiers {} text of (have, rest) \<Rightarrow>
        concat (map (\<lambda>m. m @ [plus_sign]) (filter (\<lambda>m. m \<in> have) epimone_modifier_names)) @ rest) gtk_label"

definition epimone_shortcuts_format_label :: "accels \<Rightarrow> keyval \<Rightarrow> mods \<Rightarrow> byte list" where
  "epimone_shortcuts_format_label tk keyval mods =
     the (epimone_shortcuts_conventional_label (Some (tk_label tk keyval mods)))"

text \<open>The widgets under a root: whether one is a label of an accelerator, its text, its children.\<close>

datatype widget = Widget bool "byte list" "widget list"

fun epimone_shortcuts_fix_accel_labels :: "widget \<Rightarrow> widget" where
  "epimone_shortcuts_fix_accel_labels (Widget is_accel text children) =
     Widget is_accel
       (if is_accel then the (epimone_shortcuts_conventional_label (Some text)) else text)
       (map epimone_shortcuts_fix_accel_labels children)"

section \<open>Stored accelerators\<close>

text \<open>What the user has set, the defaults of the schema, and whether the schema is installed.\<close>

record accel_store =
  as_user :: "byte list \<rightharpoonup> byte list"
  as_default :: "byte list \<Rightarrow> byte list"
  as_schema :: bool

definition known :: "byte list \<Rightarrow> bool" where
  "known key \<longleftrightarrow> epimone_shortcuts_lookup (Some key) \<noteq> None"

definition epimone_shortcuts_dup_accel :: "accel_store \<Rightarrow> byte list \<Rightarrow> byte list" where
  "epimone_shortcuts_dup_accel st key =
     (if \<not> known key then []
      else case as_user st key of Some a \<Rightarrow> a | None \<Rightarrow> as_default st key)"

definition epimone_shortcuts_dup_default :: "accel_store \<Rightarrow> byte list \<Rightarrow> byte list" where
  "epimone_shortcuts_dup_default st key = (if \<not> known key \<or> \<not> as_schema st then [] else as_default st key)"

definition epimone_shortcuts_set_accel :: "byte list \<Rightarrow> byte list option \<Rightarrow> accel_store \<Rightarrow> accel_store" where
  "epimone_shortcuts_set_accel key accel st =
     (if \<not> known key then st
      else st\<lparr>as_user := (as_user st)(key \<mapsto> (case accel of Some a \<Rightarrow> a | None \<Rightarrow> []))\<rparr>)"

definition epimone_shortcuts_reset :: "byte list \<Rightarrow> accel_store \<Rightarrow> accel_store" where
  "epimone_shortcuts_reset key st = (if \<not> known key then st else st\<lparr>as_user := (as_user st)(key := None)\<rparr>)"

definition epimone_shortcuts_reset_all :: "accel_store \<Rightarrow> accel_store" where
  "epimone_shortcuts_reset_all st =
     fold (\<lambda>s st. st\<lparr>as_user := (as_user st)(sc_key s := None)\<rparr>) epimone_shortcut_table st"

section \<open>Vetting\<close>

definition epimone_keyval_is_plain_input :: "accels \<Rightarrow> keyval \<Rightarrow> bool" where
  "epimone_keyval_is_plain_input tk keyval \<longleftrightarrow>
     keyval \<in> {GDK_KEY_Return, GDK_KEY_KP_Enter, GDK_KEY_ISO_Enter, GDK_KEY_Tab, GDK_KEY_KP_Tab,
               GDK_KEY_ISO_Left_Tab, GDK_KEY_Escape, GDK_KEY_BackSpace, GDK_KEY_space} \<or>
     tk_unicode tk keyval \<noteq> 0"

datatype EpimoneAccelVerdict =
    EPIMONE_ACCEL_OK
  | EPIMONE_ACCEL_UNPARSABLE
  | EPIMONE_ACCEL_NO_MODIFIER
  | EPIMONE_ACCEL_SHELL_KEY
  | EPIMONE_ACCEL_CONFLICT

text \<open>The key and the modifiers that a stored accelerator stands for.\<close>

definition combination :: "accels \<Rightarrow> byte list \<Rightarrow> (keyval \<times> mods) option" where
  "combination tk accel =
     (if accel = [] then None else map_option (\<lambda>(k, m). (k, m AND tk_mask tk)) (tk_parse tk accel))"

text \<open>The first other row of the table that holds the combination.\<close>

definition conflicting :: "accels \<Rightarrow> accel_store \<Rightarrow> byte list \<Rightarrow> keyval \<Rightarrow> mods \<Rightarrow> EpimoneShortcut option" where
  "conflicting tk st key keyval mods =
     find (\<lambda>other. sc_key other \<noteq> key \<and>
             combination tk (epimone_shortcuts_dup_accel st (sc_key other)) = Some (keyval, mods))
       epimone_shortcut_table"

definition quoted :: "byte list \<Rightarrow> byte list" where
  "quoted s = [0xe2, 0x80, 0x9c] @ s @ [0xe2, 0x80, 0x9d]"

definition epimone_shortcuts_check_accel ::
  "accels \<Rightarrow> accel_store \<Rightarrow> byte list option \<Rightarrow> byte list \<Rightarrow>
   EpimoneAccelVerdict \<times> byte list option \<times> EpimoneShortcut option" where
  "epimone_shortcuts_check_accel tk st accel key =
     (case accel of
        None \<Rightarrow> (EPIMONE_ACCEL_OK, None, None)
      | Some text \<Rightarrow>
          if text = [] then (EPIMONE_ACCEL_OK, None, None)
          else
            let bad = (EPIMONE_ACCEL_UNPARSABLE,
                       Some (lit ''That key combination cannot be used as a shortcut.''), None)
            in case tk_parse tk text of
                 None \<Rightarrow> bad
               | Some (keyval, mods) \<Rightarrow>
                   if \<not> tk_valid tk keyval mods then bad
                   else
                     let label = epimone_shortcuts_format_label tk keyval mods;
                         mods = mods AND tk_mask tk
                     in if mods = 0 \<or> mods = GDK_SHIFT_MASK \<and> epimone_keyval_is_plain_input tk keyval
                        then (EPIMONE_ACCEL_NO_MODIFIER,
                              Some (label @ lit '' needs a modifier such as Ctrl, Alt or Super. On its own it would stop reaching the shell.''), None)
                        else if mods = GDK_CONTROL_MASK \<and> tk_lower tk keyval \<in> set epimone_reserved_ctrl_keys
                        then (EPIMONE_ACCEL_SHELL_KEY,
                              Some (label @ lit '' belongs to the shell and cannot be used as a shortcut.''), None)
                        else case conflicting tk st key keyval mods of
                               Some other \<Rightarrow>
                                 (EPIMONE_ACCEL_CONFLICT,
                                  Some (label @ lit '' is already used by '' @ quoted (sc_label other) @
                                        lit ''. Change or unbind that shortcut first.''), Some other)
                             | None \<Rightarrow> (EPIMONE_ACCEL_OK, None, None))"

section \<open>The application\<close>

record application =
  app_accels :: "byte list \<Rightarrow> byte list list"
  app_windows :: "widget list"
  app_connected :: bool

definition epimone_shortcuts_apply_to_app :: "accel_store \<Rightarrow> application \<Rightarrow> application" where
  "epimone_shortcuts_apply_to_app st a =
     (let a1 = fold (\<lambda>s a. let accel = epimone_shortcuts_dup_accel st (sc_key s) in
                  a\<lparr>app_accels := (app_accels a)(sc_action s := (if accel = [] then [] else [accel]))\<rparr>)
                epimone_shortcut_table a
      in a1\<lparr>app_windows := map epimone_shortcuts_fix_accel_labels (app_windows a1)\<rparr>)"

text \<open>Also what runs on every change of the store once connected.\<close>

definition epimone_shortcuts_changed_cb :: "accel_store \<Rightarrow> application \<Rightarrow> application" where
  "epimone_shortcuts_changed_cb st a = epimone_shortcuts_apply_to_app st a"

definition epimone_shortcuts_bind_application :: "accel_store \<Rightarrow> application \<Rightarrow> application" where
  "epimone_shortcuts_bind_application st a = epimone_shortcuts_apply_to_app st (a\<lparr>app_connected := True\<rparr>)"

section \<open>The capture dialog\<close>

record capture =
  ca_key :: "byte list"
  ca_keyval :: keyval
  ca_modifier :: mods
  ca_editing :: bool
  ca_error :: "byte list option"
  ca_confirm :: "byte list"
  ca_on_confirm :: bool
  ca_can_set :: bool
  ca_open :: bool

definition new_capture :: "byte list \<Rightarrow> capture" where
  "new_capture key = \<lparr>ca_key = key, ca_keyval = 0, ca_modifier = 0, ca_editing = True, ca_error = None,
     ca_confirm = [], ca_on_confirm = False, ca_can_set = False, ca_open = True\<rparr>"

definition epimone_settings_capture_show_error :: "byte list \<Rightarrow> capture \<Rightarrow> capture" where
  "epimone_settings_capture_show_error message c =
     c\<lparr>ca_error := Some message, ca_on_confirm := False, ca_can_set := False, ca_editing := True,
       ca_keyval := 0, ca_modifier := 0\<rparr>"

definition epimone_settings_capture_commit ::
  "byte list \<Rightarrow> capture \<Rightarrow> accel_store \<Rightarrow> capture \<times> accel_store" where
  "epimone_settings_capture_commit accel c st =
     (c\<lparr>ca_open := False\<rparr>, epimone_shortcuts_set_accel (ca_key c) (Some accel) st)"

definition epimone_settings_capture_set_clicked_cb ::
  "accels \<Rightarrow> capture \<Rightarrow> accel_store \<Rightarrow> capture \<times> accel_store" where
  "epimone_settings_capture_set_clicked_cb tk c st =
     (if ca_keyval c = 0 then (c, st)
      else epimone_settings_capture_commit (tk_name tk (ca_keyval c) (ca_modifier c)) c st)"

definition epimone_settings_capture_cancel_clicked_cb :: "capture \<Rightarrow> capture" where
  "epimone_settings_capture_cancel_clicked_cb c = c\<lparr>ca_open := False\<rparr>"

definition epimone_settings_capture_reset_clicked_cb :: "capture \<Rightarrow> accel_store \<Rightarrow> capture \<times> accel_store" where
  "epimone_settings_capture_reset_clicked_cb c st = (c\<lparr>ca_open := False\<rparr>, epimone_shortcuts_reset (ca_key c) st)"

definition epimone_settings_capture_should_drop_shift :: "keyval \<Rightarrow> keyval \<Rightarrow> bool" where
  "epimone_settings_capture_should_drop_shift keyval_was keyval_is =
     (let arrows = {GDK_KEY_Left, GDK_KEY_Right, GDK_KEY_Up, GDK_KEY_Down} in
      if keyval_was \<in> arrows \<or> keyval_is \<in> arrows then False else keyval_was = keyval_is)"

text \<open>The key as it is named, and whether the case of the typed key means Shift.\<close>

definition folded_key :: "accels \<Rightarrow> keyval \<Rightarrow> mods \<Rightarrow> keyval \<times> mods" where
  "folded_key tk keyval state =
     (let real_mask = state AND tk_mask tk;
          lower = tk_lower tk keyval;
          lower = (if lower = GDK_KEY_ISO_Left_Tab then GDK_KEY_Tab else lower);
          real_mask = (if lower \<noteq> keyval then real_mask OR GDK_SHIFT_MASK else real_mask);
          lower = (if lower = GDK_KEY_Sys_Req \<and> real_mask AND GDK_ALT_MASK \<noteq> 0 then GDK_KEY_Print else lower)
      in (lower, real_mask))"

definition captured :: "accels \<Rightarrow> keyval \<Rightarrow> keyval \<Rightarrow> mods \<Rightarrow> keyval \<times> mods" where
  "captured tk lower keyval state =
     (let m = state AND tk_mask tk AND NOT GDK_LOCK_MASK;
          m = (if state AND GDK_SHIFT_MASK \<noteq> 0 \<and> epimone_settings_capture_should_drop_shift lower keyval
               then m AND NOT GDK_SHIFT_MASK else m);
          m = (if state AND GDK_LOCK_MASK = 0 \<and> lower \<noteq> keyval then m OR GDK_SHIFT_MASK else m)
      in if lower = GDK_KEY_ISO_Left_Tab \<and> m = GDK_CONTROL_MASK
         then (GDK_KEY_Tab, GDK_CONTROL_MASK OR GDK_SHIFT_MASK) else (lower, m))"

text \<open>The result says whether the event is consumed.\<close>

definition epimone_settings_capture_key_pressed_cb ::
  "accels \<Rightarrow> keyval \<Rightarrow> u32 \<Rightarrow> mods \<Rightarrow> bool \<Rightarrow> capture \<Rightarrow> accel_store \<Rightarrow> bool \<times> capture \<times> accel_store" where
  "epimone_settings_capture_key_pressed_cb tk keyval keycode state is_modifier c st =
     (if keycode = 0x01D8 \<or> \<not> ca_editing c \<or> is_modifier then (False, c, st)
      else
        case folded_key tk keyval state of (lower, real_mask) \<Rightarrow>
          if real_mask = 0 \<and> lower = GDK_KEY_Escape then (True, c\<lparr>ca_open := False\<rparr>, st)
          else if real_mask = 0 \<and> lower = GDK_KEY_BackSpace
          then (True, epimone_settings_capture_commit [] c st)
          else
            case captured tk lower keyval state of (k, m) \<Rightarrow>
            let c1 = c\<lparr>ca_keyval := k, ca_modifier := m\<rparr> in
            case epimone_shortcuts_check_accel tk st (Some (tk_name tk k m)) (ca_key c) of
              (verdict, message, _) \<Rightarrow>
                if verdict \<noteq> EPIMONE_ACCEL_OK
                then (True, epimone_settings_capture_show_error (the message) c1, st)
                else (True, c1\<lparr>ca_confirm := epimone_shortcuts_format_label tk k m, ca_error := None,
                               ca_on_confirm := True, ca_can_set := True, ca_editing := False\<rparr>, st))"

text \<open>What a row of the settings shows, and whether it offers a reset.\<close>

definition epimone_settings_accel_label :: "accels \<Rightarrow> byte list \<Rightarrow> byte list option" where
  "epimone_settings_accel_label tk accel =
     (if accel = [] then None
      else map_option (\<lambda>(k, m). epimone_shortcuts_format_label tk k m) (tk_parse tk accel))"

text \<open>A row: its text, whether that is dimmed, and whether its reset button shows.\<close>

definition epimone_settings_shortcut_row_update :: "accels \<Rightarrow> accel_store \<Rightarrow> byte list \<Rightarrow> byte list \<times> bool \<times> bool" where
  "epimone_settings_shortcut_row_update tk st key =
     (let accel = epimone_shortcuts_dup_accel st key; fallback = epimone_shortcuts_dup_default st key in
      case epimone_settings_accel_label tk accel of
        Some label \<Rightarrow> (label, False, accel \<noteq> fallback)
      | None \<Rightarrow> (lit ''Disabled'', True, accel \<noteq> fallback))"

definition epimone_settings_shortcut_reset_clicked_cb :: "byte list \<Rightarrow> accel_store \<Rightarrow> accel_store" where
  "epimone_settings_shortcut_reset_clicked_cb key st = epimone_shortcuts_reset key st"

text \<open>Where the schema is installed, a reset of one row brings back its own default and leaves the others.\<close>

lemma reset_own:
  "as_schema st \<Longrightarrow> epimone_shortcuts_dup_accel (epimone_settings_shortcut_reset_clicked_cb key st) k =
     (if k = key \<and> known key then epimone_shortcuts_dup_default st k else epimone_shortcuts_dup_accel st k)"
  by (simp add: epimone_settings_shortcut_reset_clicked_cb_def epimone_shortcuts_reset_def
      epimone_shortcuts_dup_accel_def epimone_shortcuts_dup_default_def split: option.split)

end
