(* ===== verification/Shortcuts_Props.thy ===== *)
theory Shortcuts_Props
  imports Shortcuts "HOL-Library.Multiset"
begin

text \<open>
  What keeps the shortcuts usable: no two actions ever hold the same combination and none takes a key
  that the shell needs, as long as bindings come from the dialog; labels have one canonical form.
\<close>

section \<open>The table\<close>

lemma known_iff: "known key \<longleftrightarrow> (\<exists>s \<in> set epimone_shortcut_table. sc_key s = key)"
  by (auto simp: known_def epimone_shortcuts_lookup_def find_None_iff)

lemma distinct_actions: "distinct (map sc_action epimone_shortcut_table)"
  by (simp add: epimone_shortcut_table_def shortcut_def lit_def)

section \<open>Bindings\<close>

definition bound :: "accels \<Rightarrow> accel_store \<Rightarrow> byte list \<Rightarrow> (keyval \<times> mods) option" where
  "bound tk st key = combination tk (epimone_shortcuts_dup_accel st key)"

definition shell_key :: "accels \<Rightarrow> keyval \<times> mods \<Rightarrow> bool" where
  "shell_key tk c \<longleftrightarrow>
     snd c = 0 \<or> snd c = GDK_SHIFT_MASK \<and> epimone_keyval_is_plain_input tk (fst c) \<or>
     snd c = GDK_CONTROL_MASK \<and> tk_lower tk (fst c) \<in> set epimone_reserved_ctrl_keys"

text \<open>No combination is bound twice, and none is one that the shell needs.\<close>

definition well_bound :: "accels \<Rightarrow> accel_store \<Rightarrow> bool" where
  "well_bound tk st \<longleftrightarrow>
     (\<forall>a \<in> set epimone_shortcut_table. \<forall>c. bound tk st (sc_key a) = Some c \<longrightarrow> \<not> shell_key tk c \<and>
        (\<forall>b \<in> set epimone_shortcut_table. sc_key b \<noteq> sc_key a \<longrightarrow> bound tk st (sc_key b) \<noteq> Some c))"

lemma bound_set:
  "bound tk (epimone_shortcuts_set_accel key accel st) k =
     (if k = key \<and> known key then combination tk (case accel of Some a \<Rightarrow> a | None \<Rightarrow> []) else bound tk st k)"
  by (auto simp: bound_def epimone_shortcuts_set_accel_def epimone_shortcuts_dup_accel_def split: option.split)

lemma check_ok:
  assumes "fst (epimone_shortcuts_check_accel tk st accel key) = EPIMONE_ACCEL_OK"
    and "combination tk (case accel of Some a \<Rightarrow> a | None \<Rightarrow> []) = Some c"
  shows "\<not> shell_key tk c"
    "\<forall>b \<in> set epimone_shortcut_table. sc_key b \<noteq> key \<longrightarrow> bound tk st (sc_key b) \<noteq> Some c"
proof -
  obtain s keyval mods where t: "accel = Some s" "s \<noteq> []" "tk_parse tk s = Some (keyval, mods)"
    "c = (keyval, mods AND tk_mask tk)"
    using assms(2) by (auto simp: combination_def split: option.splits if_splits)
  then have "conflicting tk st key keyval (mods AND tk_mask tk) = None \<and> \<not> shell_key tk c"
    using assms(1) by (auto simp: epimone_shortcuts_check_accel_def shell_key_def Let_def split: if_splits option.splits)
  then show "\<not> shell_key tk c" "\<forall>b \<in> set epimone_shortcut_table. sc_key b \<noteq> key \<longrightarrow> bound tk st (sc_key b) \<noteq> Some c"
    using t(4) by (auto simp: conflicting_def find_None_iff bound_def)
qed

lemma set_checked:
  assumes "well_bound tk st" "fst (epimone_shortcuts_check_accel tk st accel key) = EPIMONE_ACCEL_OK"
  shows "well_bound tk (epimone_shortcuts_set_accel key accel st)"
proof (cases "known key")
  case True
  show ?thesis unfolding well_bound_def
  proof (intro ballI allI impI conjI)
    fix a c assume a: "a \<in> set epimone_shortcut_table"
      "bound tk (epimone_shortcuts_set_accel key accel st) (sc_key a) = Some c"
    show "\<not> shell_key tk c"
    proof (cases "sc_key a = key")
      case True
      then show ?thesis using a(2) \<open>known key\<close> check_ok(1) [OF assms(2), of c] by (simp add: bound_set)
    next
      case False
      then have "bound tk st (sc_key a) = Some c" using a(2) by (simp add: bound_set)
      then show ?thesis using assms(1) a(1) unfolding well_bound_def by blast
    qed
    fix b assume b: "b \<in> set epimone_shortcut_table" "sc_key b \<noteq> sc_key a"
    show "bound tk (epimone_shortcuts_set_accel key accel st) (sc_key b) \<noteq> Some c"
    proof (cases "sc_key a = key")
      case True
      then have "combination tk (case accel of Some a \<Rightarrow> a | None \<Rightarrow> []) = Some c"
        using a(2) \<open>known key\<close> by (simp add: bound_set)
      from check_ok(2) [OF assms(2) this] show ?thesis using b True by (simp add: bound_set)
    next
      case False
      then have old: "bound tk st (sc_key a) = Some c" using a(2) by (simp add: bound_set)
      show ?thesis
      proof (cases "sc_key b = key")
        case True
        then have "combination tk (case accel of Some a \<Rightarrow> a | None \<Rightarrow> []) \<noteq> Some c"
          using check_ok(2) [OF assms(2), of c] a(1) False old by blast
        then show ?thesis using True \<open>known key\<close> by (simp add: bound_set)
      next
        case nb: False
        have "bound tk st (sc_key b) \<noteq> Some c" using assms(1) a(1) b old unfolding well_bound_def by blast
        then show ?thesis using nb by (simp add: bound_set)
      qed
    qed
  qed
qed (use assms in \<open>simp add: epimone_shortcuts_set_accel_def\<close>)

section \<open>The dialog\<close>

datatype dialog_event =
    Key_pressed keyval u32 mods bool
  | Set_clicked
  | Cancel_clicked
  | Reset_clicked

fun dialog_step :: "accels \<Rightarrow> dialog_event \<Rightarrow> capture \<times> accel_store \<Rightarrow> capture \<times> accel_store" where
  "dialog_step tk (Key_pressed keyval keycode state is_mod) (c, st) =
     (if ca_open c then snd (epimone_settings_capture_key_pressed_cb tk keyval keycode state is_mod c st) else (c, st))"
| "dialog_step tk Set_clicked (c, st) =
     (if ca_open c then epimone_settings_capture_set_clicked_cb tk c st else (c, st))"
| "dialog_step tk Cancel_clicked (c, st) =
     (if ca_open c then (epimone_settings_capture_cancel_clicked_cb c, st) else (c, st))"
| "dialog_step tk Reset_clicked (c, st) =
     (if ca_open c then epimone_settings_capture_reset_clicked_cb c st else (c, st))"

definition dialog_ok :: "accels \<Rightarrow> capture \<times> accel_store \<Rightarrow> bool" where
  "dialog_ok tk s \<longleftrightarrow> well_bound tk (snd s) \<and>
     (ca_open (fst s) \<and> ca_keyval (fst s) \<noteq> 0 \<longrightarrow>
        fst (epimone_shortcuts_check_accel tk (snd s)
          (Some (tk_name tk (ca_keyval (fst s)) (ca_modifier (fst s)))) (ca_key (fst s))) = EPIMONE_ACCEL_OK)"

lemma check_empty: "fst (epimone_shortcuts_check_accel tk st (Some []) key) = EPIMONE_ACCEL_OK"
  by (simp add: epimone_shortcuts_check_accel_def)

lemma commit_ok:
  assumes "well_bound tk st" "fst (epimone_shortcuts_check_accel tk st (Some accel) (ca_key c)) = EPIMONE_ACCEL_OK"
  shows "dialog_ok tk (epimone_settings_capture_commit accel c st)"
  using set_checked [OF assms] by (simp add: dialog_ok_def epimone_settings_capture_commit_def)

text \<open>What a key press can do to an open dialog.\<close>

lemma key_pressed_cases:
  obtains (ignored) "snd (epimone_settings_capture_key_pressed_cb tk keyval keycode state is_mod c st) = (c, st)"
  | (closed) "snd (epimone_settings_capture_key_pressed_cb tk keyval keycode state is_mod c st) = (c\<lparr>ca_open := False\<rparr>, st)"
  | (unbound) "snd (epimone_settings_capture_key_pressed_cb tk keyval keycode state is_mod c st) =
      epimone_settings_capture_commit [] c st"
  | (refused) c1 msg where "snd (epimone_settings_capture_key_pressed_cb tk keyval keycode state is_mod c st) =
      (epimone_settings_capture_show_error msg c1, st)" "ca_key c1 = ca_key c" "ca_open c1 = ca_open c"
  | (accepted) k m label where "snd (epimone_settings_capture_key_pressed_cb tk keyval keycode state is_mod c st) =
      (c\<lparr>ca_keyval := k, ca_modifier := m, ca_confirm := label, ca_error := None, ca_on_confirm := True,
         ca_can_set := True, ca_editing := False\<rparr>, st)"
    "fst (epimone_shortcuts_check_accel tk st (Some (tk_name tk k m)) (ca_key c)) = EPIMONE_ACCEL_OK"
proof -
  obtain lower real where f: "folded_key tk keyval state = (lower, real)" by (cases "folded_key tk keyval state")
  obtain k m where k: "captured tk lower keyval state = (k, m)" by (cases "captured tk lower keyval state")
  obtain v msg other where v: "epimone_shortcuts_check_accel tk st (Some (tk_name tk k m)) (ca_key c) = (v, msg, other)"
    by (cases "epimone_shortcuts_check_accel tk st (Some (tk_name tk k m)) (ca_key c)")
  note d = epimone_settings_capture_key_pressed_cb_def f k v Let_def
  consider "keycode = 0x01D8 \<or> \<not> ca_editing c \<or> is_mod"
    | "\<not> (keycode = 0x01D8 \<or> \<not> ca_editing c \<or> is_mod)" "real = 0 \<and> lower = GDK_KEY_Escape"
    | "\<not> (keycode = 0x01D8 \<or> \<not> ca_editing c \<or> is_mod)" "\<not> (real = 0 \<and> lower = GDK_KEY_Escape)"
      "real = 0 \<and> lower = GDK_KEY_BackSpace"
    | "\<not> (keycode = 0x01D8 \<or> \<not> ca_editing c \<or> is_mod)" "\<not> (real = 0 \<and> lower = GDK_KEY_Escape)"
      "\<not> (real = 0 \<and> lower = GDK_KEY_BackSpace)" "v \<noteq> EPIMONE_ACCEL_OK"
    | "\<not> (keycode = 0x01D8 \<or> \<not> ca_editing c \<or> is_mod)" "\<not> (real = 0 \<and> lower = GDK_KEY_Escape)"
      "\<not> (real = 0 \<and> lower = GDK_KEY_BackSpace)" "v = EPIMONE_ACCEL_OK" by blast
  then show thesis
  proof cases
    case 1
    then show ?thesis by (intro ignored) (simp add: epimone_settings_capture_key_pressed_cb_def)
  next
    case 2
    then show ?thesis by (intro closed) (simp add: epimone_settings_capture_key_pressed_cb_def f)
  next
    case 3
    then show ?thesis by (intro unbound) (auto simp: epimone_settings_capture_key_pressed_cb_def f)
  next
    case 4
    then show ?thesis by (intro refused [where msg = "the msg" and ?c1.0 = "c\<lparr>ca_keyval := k, ca_modifier := m\<rparr>"]) (auto simp: d)
  next
    case 5
    then show ?thesis
      by (intro accepted [where k = k and m = m and label = "epimone_shortcuts_format_label tk k m"]) (auto simp: d)
  qed
qed

lemma key_pressed_ok:
  assumes "dialog_ok tk (c, st)" "ca_open c"
  shows "dialog_ok tk (snd (epimone_settings_capture_key_pressed_cb tk keyval keycode state is_mod c st))"
proof -
  have wb: "well_bound tk st" using assms by (simp add: dialog_ok_def)
  show ?thesis
    by (rule key_pressed_cases [of tk keyval keycode state is_mod c st])
      (use assms commit_ok [OF wb check_empty, of c] in
        \<open>auto simp: dialog_ok_def epimone_settings_capture_show_error_def\<close>)
qed

text \<open>Only the row of the dialog is ever written.\<close>

lemma commit_own:
  "ca_key (fst (epimone_settings_capture_commit a c st)) = ca_key c"
  "k \<noteq> ca_key c \<Longrightarrow> epimone_shortcuts_dup_accel (snd (epimone_settings_capture_commit a c st)) k = epimone_shortcuts_dup_accel st k"
  by (auto simp: epimone_settings_capture_commit_def epimone_shortcuts_set_accel_def epimone_shortcuts_dup_accel_def
      split: option.split)

lemma reset_keeps_others:
  "k \<noteq> key \<Longrightarrow> epimone_shortcuts_dup_accel (epimone_shortcuts_reset key st) k = epimone_shortcuts_dup_accel st k"
  by (simp add: epimone_shortcuts_reset_def epimone_shortcuts_dup_accel_def split: option.split)

lemma dialog_step_own:
  "ca_key (fst (dialog_step tk ev s)) = ca_key (fst s) \<and>
   (\<forall>k. k \<noteq> ca_key (fst s) \<longrightarrow> epimone_shortcuts_dup_accel (snd (dialog_step tk ev s)) k = epimone_shortcuts_dup_accel (snd s) k)"
proof (cases s)
  case (Pair c st)
  show ?thesis
  proof (cases ev)
    case (Key_pressed keyval keycode state is_mod)
    show ?thesis unfolding Key_pressed Pair
      by (rule key_pressed_cases [of tk keyval keycode state is_mod c st])
        (auto simp: commit_own epimone_settings_capture_show_error_def)
  qed (auto simp: Pair commit_own epimone_settings_capture_set_clicked_cb_def epimone_settings_capture_cancel_clicked_cb_def
      epimone_settings_capture_reset_clicked_cb_def reset_keeps_others)
qed

lemma dialog_step_ok: "dialog_ok tk s \<Longrightarrow> ev \<noteq> Reset_clicked \<Longrightarrow> dialog_ok tk (dialog_step tk ev s)"
proof (cases s)
  case (Pair c st)
  assume ok: "dialog_ok tk s" and ev: "ev \<noteq> Reset_clicked"
  show ?thesis
  proof (cases ev)
    case (Key_pressed keyval keycode state is_mod)
    then show ?thesis using ok Pair key_pressed_ok by simp
  next
    case Set_clicked
    then show ?thesis using ok Pair commit_ok [of tk st "tk_name tk (ca_keyval c) (ca_modifier c)" c]
      by (auto simp: epimone_settings_capture_set_clicked_cb_def dialog_ok_def)
  next
    case Cancel_clicked
    then show ?thesis using ok Pair by (simp add: epimone_settings_capture_cancel_clicked_cb_def dialog_ok_def)
  qed (use ev in simp)
qed

text \<open>An event that writes a binding closes the dialog, and a closed dialog does nothing.\<close>

lemma dialog_step_open: "ca_open (fst (dialog_step tk ev s)) \<Longrightarrow> snd (dialog_step tk ev s) = snd s \<and> ca_open (fst s)"
proof (cases s)
  case (Pair c st)
  assume op: "ca_open (fst (dialog_step tk ev s))"
  show ?thesis
  proof (cases ev)
    case (Key_pressed keyval keycode state is_mod)
    show ?thesis using op unfolding Key_pressed Pair
      by (rule_tac key_pressed_cases [of tk keyval keycode state is_mod c st])
        (auto simp: epimone_settings_capture_commit_def epimone_settings_capture_show_error_def split: if_splits)
  qed (use op Pair in \<open>auto simp: epimone_settings_capture_set_clicked_cb_def epimone_settings_capture_commit_def
      epimone_settings_capture_cancel_clicked_cb_def epimone_settings_capture_reset_clicked_cb_def split: if_splits\<close>)
qed

lemma dialog_step_closed: "\<not> ca_open (fst s) \<Longrightarrow> dialog_step tk ev s = s"
  by (cases s; cases ev) simp_all

text \<open>What a run of the dialog has come to: bindings that are still well, or those of the start with
  the row's own one reset.\<close>

definition dialog_left :: "accels \<Rightarrow> accel_store \<Rightarrow> byte list \<Rightarrow> bool \<Rightarrow> capture \<times> accel_store \<Rightarrow> bool" where
  "dialog_left tk st key reset s \<longleftrightarrow> ca_key (fst s) = key \<and> (ca_open (fst s) \<longrightarrow> snd s = st) \<and>
     (dialog_ok tk s \<or> reset \<and> \<not> ca_open (fst s) \<and> snd s = epimone_shortcuts_reset key st)"

lemma dialog_run_left:
  assumes "well_bound tk st"
  shows "dialog_left tk st key (Reset_clicked \<in> set evs) (fold (dialog_step tk) evs (new_capture key, st))"
proof (induction evs rule: rev_induct)
  case Nil
  then show ?case using assms by (simp add: dialog_left_def dialog_ok_def new_capture_def)
next
  case (snoc ev evs)
  define s where "s = fold (dialog_step tk) evs (new_capture key, st)"
  have ih: "dialog_left tk st key (Reset_clicked \<in> set evs) s" using snoc by (simp add: s_def)
  have "dialog_left tk st key (Reset_clicked \<in> set (evs @ [ev])) (dialog_step tk ev s)"
  proof (cases "ca_open (fst s)")
    case False
    then show ?thesis using ih by (auto simp: dialog_left_def dialog_step_closed)
  next
    case op: True
    then have s: "dialog_ok tk s" "snd s = st" "ca_key (fst s) = key" using ih by (auto simp: dialog_left_def)
    show ?thesis
    proof (cases "ev = Reset_clicked")
      case True
      then show ?thesis using op s
        by (cases s) (simp add: dialog_left_def epimone_settings_capture_reset_clicked_cb_def)
    next
      case False
      then show ?thesis using dialog_step_ok [OF s(1) False] dialog_step_open [of tk ev s] dialog_step_own [of tk ev s] s
        by (auto simp: dialog_left_def)
    qed
  qed
  then show ?case by (simp add: s_def)
qed

text \<open>A row that is reset can only clash through its own binding.\<close>

lemma reset_clash:
  assumes "well_bound tk st" and "\<not> well_bound tk (epimone_shortcuts_reset key st)"
  shows "\<exists>c. bound tk (epimone_shortcuts_reset key st) key = Some c \<and>
    (shell_key tk c \<or> (\<exists>b \<in> set epimone_shortcut_table. sc_key b \<noteq> key \<and> bound tk st (sc_key b) = Some c))"
proof -
  let ?st = "epimone_shortcuts_reset key st"
  have same: "bound tk ?st k = bound tk st k" if "k \<noteq> key" for k
    using that by (simp add: bound_def reset_keeps_others)
  obtain a c where a: "a \<in> set epimone_shortcut_table" "bound tk ?st (sc_key a) = Some c"
    "shell_key tk c \<or> (\<exists>b \<in> set epimone_shortcut_table. sc_key b \<noteq> sc_key a \<and> bound tk ?st (sc_key b) = Some c)"
    using assms(2) unfolding well_bound_def by blast
  show ?thesis
  proof (cases "sc_key a = key")
    case True
    then show ?thesis using a same by metis
  next
    case False
    then have old: "bound tk st (sc_key a) = Some c" using a(2) same by simp
    then have "\<not> shell_key tk c" "\<And>b. b \<in> set epimone_shortcut_table \<Longrightarrow> sc_key b \<noteq> sc_key a \<Longrightarrow> bound tk st (sc_key b) \<noteq> Some c"
      using assms(1) a(1) unfolding well_bound_def by blast+
    then obtain b where b: "b \<in> set epimone_shortcut_table" "sc_key b \<noteq> sc_key a" "bound tk ?st (sc_key b) = Some c"
      "bound tk st (sc_key b) \<noteq> Some c" using a(3) by blast
    then have "sc_key b = key" using same by metis
    then show ?thesis using old a(1) False b(3) by auto
  qed
qed

text \<open>C27. Whatever keys are pressed and whichever of Set, Cancel and Reset is clicked in the capture
  dialog of a shortcut, only the binding of the dialog's own row can change, and, if that was so
  before, no combination ends up bound to two actions and none that the shell needs (a key without
  Ctrl, Alt or Super, or Ctrl with one of ten letters) is taken. The only exception is the Reset
  button, which is not checked: after it the row has its default, and if things are not well then it
  is because another action holds that default, or the shell needs it.\<close>

theorem dialog_keeps_shortcuts_apart:
  assumes "well_bound tk st" "fold (dialog_step tk) evs (new_capture key, st) = (c, st1)"
  shows "(Reset_clicked \<notin> set evs \<longrightarrow> well_bound tk st1) \<and>
    (well_bound tk st1 \<or> st1 = epimone_shortcuts_reset key st \<and>
       (\<exists>k. bound tk st1 key = Some k \<and>
          (shell_key tk k \<or> (\<exists>b \<in> set epimone_shortcut_table. sc_key b \<noteq> key \<and> bound tk st (sc_key b) = Some k)))) \<and>
    (\<forall>k. k \<noteq> key \<longrightarrow> epimone_shortcuts_dup_accel st1 k = epimone_shortcuts_dup_accel st k)"
proof -
  note left = dialog_run_left [OF assms(1), of key evs, unfolded assms(2) dialog_left_def fst_conv snd_conv dialog_ok_def]
  have "Reset_clicked \<notin> set evs \<longrightarrow> well_bound tk st1" using left by blast
  moreover have "well_bound tk st1 \<or> st1 = epimone_shortcuts_reset key st \<and>
       (\<exists>k. bound tk st1 key = Some k \<and>
          (shell_key tk k \<or> (\<exists>b \<in> set epimone_shortcut_table. sc_key b \<noteq> key \<and> bound tk st (sc_key b) = Some k)))"
    using left reset_clash [OF assms(1), of key] by (cases "well_bound tk st1") auto
  moreover
  have "ca_key (fst (fold (dialog_step tk) evs s)) = ca_key (fst s) \<and>
      (\<forall>k. k \<noteq> ca_key (fst s) \<longrightarrow>
         epimone_shortcuts_dup_accel (snd (fold (dialog_step tk) evs s)) k = epimone_shortcuts_dup_accel (snd s) k)" for s
    by (induction evs arbitrary: s) (simp_all add: dialog_step_own)
  from this [of "(new_capture key, st)"] assms(2)
  have "\<forall>k. k \<noteq> key \<longrightarrow> epimone_shortcuts_dup_accel st1 k = epimone_shortcuts_dup_accel st k"
    by (simp add: new_capture_def)
  ultimately show ?thesis by blast
qed

text \<open>A parser of two bytes, the key and its modifiers, serves as an example of GTK's.\<close>

definition wit_accels :: accels where
  "wit_accels = \<lparr>tk_parse = (\<lambda>s. if length s = 2 then Some (ucast (s ! 0), ucast (s ! 1)) else None),
     tk_valid = (\<lambda>_ _. True), tk_label = (\<lambda>_ _. lit ''Shift+Ctrl+T''), tk_name = (\<lambda>k m. [ucast k, ucast m]),
     tk_mask = 13, tk_lower = (\<lambda>k. if 65 \<le> k \<and> k \<le> 90 then k + 32 else k),
     tk_unicode = (\<lambda>k. if k < 256 then k else 0)\<rparr>"

text \<open>The default of \<open>new-tab\<close> was removed by the user and \<open>copy\<close> has taken its combination.\<close>

definition wit_store :: accel_store where
  "wit_store = \<lparr>as_user = [lit ''new-tab'' \<mapsto> [], lit ''copy'' \<mapsto> [116, 5]],
     as_default = (\<lambda>k. if k = lit ''new-tab'' then [116, 5] else []), as_schema = True\<rparr>"

lemma wit_bound: "bound wit_accels wit_store k = (if k = lit ''copy'' then Some (116, 5) else None)"
proof -
  have "known (lit ''copy'')" "known (lit ''new-tab'')"
    by (simp_all add: known_iff epimone_shortcut_table_def shortcut_def lit_def)
  moreover have "lit ''new-tab'' \<noteq> lit ''copy''" by (simp add: lit_def)
  ultimately show ?thesis
    by (auto simp: bound_def epimone_shortcuts_dup_accel_def wit_store_def combination_def wit_accels_def)
qed

lemma wit_well_bound: "well_bound wit_accels wit_store"
proof -
  have free: "\<not> shell_key wit_accels (116, 5)" by (simp add: shell_key_def mask_defs)
  have only: "k = lit ''copy'' \<and> c = (116, 5)" if "bound wit_accels wit_store k = Some c" for k c
    using that by (simp add: wit_bound split: if_splits)
  show ?thesis unfolding well_bound_def using only free by (metis (no_types))
qed

theorem dialog_keeps_shortcuts_apart_witness:
  "\<exists>c st1. fold (dialog_step wit_accels) [Key_pressed 116 0 4 False, Set_clicked] (new_capture (lit ''paste''), wit_store) = (c, st1) \<and>
     well_bound wit_accels st1"
proof -
  let ?r = "fold (dialog_step wit_accels) [Key_pressed 116 0 4 False, Set_clicked] (new_capture (lit ''paste''), wit_store)"
  have r: "?r = (fst ?r, snd ?r)" by (rule prod.collapse [symmetric])
  from dialog_keeps_shortcuts_apart [OF wit_well_bound r] show ?thesis
    by (intro exI [of _ "fst ?r"] exI [of _ "snd ?r"] conjI r) simp
qed

section \<open>Resetting one shortcut\<close>

text \<open>Resetting one shortcut is not vetted: the dialog can have given its default combination to
  another action meanwhile, and then both hold it.\<close>

theorem reset_can_clash:
  "well_bound wit_accels wit_store \<and>
   bound wit_accels (epimone_shortcuts_reset (lit ''new-tab'') wit_store) (lit ''new-tab'') =
   bound wit_accels (epimone_shortcuts_reset (lit ''new-tab'') wit_store) (lit ''copy'') \<and>
   bound wit_accels (epimone_shortcuts_reset (lit ''new-tab'') wit_store) (lit ''copy'') \<noteq> None"
proof -
  have "known (lit ''copy'')" "known (lit ''new-tab'')"
    by (simp_all add: known_iff epimone_shortcut_table_def shortcut_def lit_def)
  moreover have "lit ''new-tab'' \<noteq> lit ''copy''" by (simp add: lit_def)
  ultimately show ?thesis using wit_well_bound
    by (auto simp: bound_def epimone_shortcuts_dup_accel_def epimone_shortcuts_reset_def wit_store_def combination_def
        wit_accels_def)
qed

section \<open>Capturing Shift\<close>

text \<open>A key that has no upper case, an arrow apart, is captured without the Shift it was pressed with:
  the default of tab-move-left, Ctrl+Shift+Page Up, cannot be entered in the dialog.\<close>

theorem uncased_keys_lose_shift:
  assumes "tk_lower tk key = key" "key \<notin> {GDK_KEY_Left, GDK_KEY_Right, GDK_KEY_Up, GDK_KEY_Down}"
    and "key \<noteq> GDK_KEY_ISO_Left_Tab" "key \<noteq> GDK_KEY_Sys_Req"
    and "captured tk (fst (folded_key tk key state)) key state = (k, m)"
  shows "k = key \<and> m AND GDK_SHIFT_MASK = 0"
proof -
  let ?m = "state AND tk_mask tk AND NOT GDK_LOCK_MASK"
  have "fst (folded_key tk key state) = key" using assms(1,3,4) by (simp add: folded_key_def Let_def)
  then have c: "(k, m) = (key, if state AND GDK_SHIFT_MASK \<noteq> 0 then ?m AND NOT GDK_SHIFT_MASK else ?m)"
    using assms(2,3,5) by (simp add: captured_def epimone_settings_capture_should_drop_shift_def Let_def split: if_splits)
  have "(x AND NOT GDK_SHIFT_MASK) AND GDK_SHIFT_MASK = 0" for x :: u32
    by (simp add: bit_eq_iff bit_simps)
  moreover have "?m AND GDK_SHIFT_MASK = 0" if "state AND GDK_SHIFT_MASK = 0"
    using that by (auto simp: bit_eq_iff bit_simps)
  ultimately show ?thesis using c by auto
qed

section \<open>Labels\<close>

definition spelled :: "byte list list \<Rightarrow> byte list \<Rightarrow> byte list" where
  "spelled ms key = concat (map (\<lambda>m. m @ [plus_sign]) ms) @ key"

abbreviation bare :: "byte list \<Rightarrow> bool" where
  "bare key \<equiv> find (is_modifier_prefix key) epimone_modifier_names = None"

lemma spelled_Cons: "spelled (m # ms) key = m @ plus_sign # spelled ms key"
  by (simp add: spelled_def)

lemma modifier_bytes: "epimone_modifier_names = [[67, 116, 114, 108], [83, 104, 105, 102, 116], [65, 108, 116], [83, 117, 112, 101, 114], [77, 101, 116, 97], [72, 121, 112, 101, 114]]"
  by (simp add: epimone_modifier_names_def lit_def)

lemma find_modifier:
  assumes "m \<in> set epimone_modifier_names" "rest \<noteq> []"
  shows "find (is_modifier_prefix (m @ plus_sign # rest)) epimone_modifier_names = Some m"
proof -
  have "0 < length rest" using assms(2) by simp
  then show ?thesis using assms(1) unfolding modifier_bytes
    by (simp only: list.set insert_iff empty_iff) (elim disjE; simp add: is_modifier_prefix_def)
qed

lemma spelled_nonempty: "key \<noteq> [] \<Longrightarrow> spelled ms key \<noteq> []"
  by (simp add: spelled_def)

lemma strip_spelled:
  assumes "key \<noteq> []" "bare key"
  shows "set ms \<subseteq> set epimone_modifier_names \<Longrightarrow> strip_modifiers have (spelled ms key) = (have \<union> set ms, key)"
proof (induction ms arbitrary: "have")
  case Nil
  then show ?case using assms by (subst strip_modifiers.simps) (simp add: spelled_def)
next
  case (Cons m ms)
  have "find (is_modifier_prefix (spelled (m # ms) key)) epimone_modifier_names = Some m"
    unfolding spelled_Cons using Cons.prems spelled_nonempty [OF assms(1)] by (intro find_modifier) auto
  then show ?case using Cons
    by (subst strip_modifiers.simps) (simp add: spelled_Cons)
qed

lemma strip_result:
  "strip_modifiers have t = (have', rest) \<Longrightarrow> have \<subseteq> set epimone_modifier_names \<Longrightarrow>
   have' \<subseteq> set epimone_modifier_names \<and> bare rest \<and> (t = [] \<longleftrightarrow> rest = [])"
proof (induction "have" t arbitrary: have' rest rule: strip_modifiers.induct)
  case (1 "have" t)
  show ?case
  proof (cases "find (is_modifier_prefix t) epimone_modifier_names")
    case None
    then show ?thesis using 1(2,3) by (subst (asm) strip_modifiers.simps) auto
  next
    case (Some m)
    then have m: "m \<in> set epimone_modifier_names" "is_modifier_prefix t m" by (auto simp: find_Some_iff)
    have "strip_modifiers (insert m have) (drop (length m + 1) t) = (have', rest)"
      using 1(2) Some by (subst (asm) strip_modifiers.simps) simp
    from 1(1) [OF Some this] 1(3) m show ?thesis by (auto simp: is_modifier_prefix_def)
  qed
qed

lemma label_of_spelled:
  assumes "set ms \<subseteq> set epimone_modifier_names" "key \<noteq> []" "bare key"
  shows "epimone_shortcuts_conventional_label (Some (spelled ms key)) =
    Some (spelled (filter (\<lambda>m. m \<in> set ms) epimone_modifier_names) key)"
  using strip_spelled [OF assms(2,3,1), of "{}"] by (simp add: epimone_shortcuts_conventional_label_def spelled_def)

text \<open>A label has one form however GTK orders the modifiers in it: the same modifiers and key give
  the same text, with the modifiers in the order Ctrl, Shift, Alt, Super, Meta, Hyper and the key as
  it was, a plus sign as the key included; and rewriting a label again, which happens whenever a menu
  opens, changes nothing.\<close>

theorem labels_have_one_form:
  "(\<forall>ms key. set ms \<subseteq> set epimone_modifier_names \<and> key \<noteq> [] \<and> bare key \<longrightarrow>
      epimone_shortcuts_conventional_label (Some (spelled ms key)) =
      Some (spelled (filter (\<lambda>m. m \<in> set ms) epimone_modifier_names) key)) \<and>
   (\<forall>ms ms' key. set ms \<subseteq> set epimone_modifier_names \<and> mset ms = mset ms' \<and> key \<noteq> [] \<and> bare key \<longrightarrow>
      epimone_shortcuts_conventional_label (Some (spelled ms key)) =
      epimone_shortcuts_conventional_label (Some (spelled ms' key))) \<and>
   epimone_shortcuts_fix_accel_labels (epimone_shortcuts_fix_accel_labels w) = epimone_shortcuts_fix_accel_labels w"
proof (intro conjI allI impI)
  fix ms ms' :: "byte list list" and key :: "byte list"
  assume "set ms \<subseteq> set epimone_modifier_names \<and> key \<noteq> [] \<and> bare key"
  then show "epimone_shortcuts_conventional_label (Some (spelled ms key)) =
      Some (spelled (filter (\<lambda>m. m \<in> set ms) epimone_modifier_names) key)" by (simp add: label_of_spelled)
next
  fix ms ms' :: "byte list list" and key :: "byte list"
  assume a: "set ms \<subseteq> set epimone_modifier_names \<and> mset ms = mset ms' \<and> key \<noteq> [] \<and> bare key"
  then have "set ms = set ms'" by (metis set_mset_mset)
  then show "epimone_shortcuts_conventional_label (Some (spelled ms key)) =
      epimone_shortcuts_conventional_label (Some (spelled ms' key))" using a by (simp add: label_of_spelled)
next
  have twice: "epimone_shortcuts_conventional_label (Some (the (epimone_shortcuts_conventional_label (Some t)))) =
      epimone_shortcuts_conventional_label (Some t)" for t
  proof -
    obtain h r where r: "strip_modifiers {} t = (h, r)" by (cases "strip_modifiers {} t")
    let ?ms = "filter (\<lambda>m. m \<in> h) epimone_modifier_names"
    have t: "epimone_shortcuts_conventional_label (Some t) = Some (spelled ?ms r)"
      by (simp add: epimone_shortcuts_conventional_label_def r spelled_def)
    show ?thesis
    proof (cases "t = []")
      case True
      then have "h = {} \<and> r = []" using r by (subst (asm) strip_modifiers.simps) (simp add: is_modifier_prefix_def modifier_bytes)
      then show ?thesis using t True by (simp add: spelled_def)
    next
      case False
      then have "r \<noteq> []" "bare r" using strip_result [OF r] by simp_all
      then show ?thesis unfolding t using label_of_spelled [of ?ms r] by (auto cong: filter_cong)
    qed
  qed
  show "epimone_shortcuts_fix_accel_labels (epimone_shortcuts_fix_accel_labels w) = epimone_shortcuts_fix_accel_labels w"
    by (induction w) (auto simp: twice)
qed

theorem labels_have_one_form_witness:
  "epimone_shortcuts_conventional_label (Some (lit ''Shift+Ctrl++'')) = Some (lit ''Ctrl+Shift++'')"
proof -
  have "bare (lit ''+'')" by (simp add: modifier_bytes is_modifier_prefix_def lit_def)
  moreover have "set [lit ''Shift'', lit ''Ctrl''] \<subseteq> set epimone_modifier_names" by (simp add: epimone_modifier_names_def)
  moreover have "lit ''+'' \<noteq> []" by (simp add: lit_def)
  ultimately have "epimone_shortcuts_conventional_label (Some (spelled [lit ''Shift'', lit ''Ctrl''] (lit ''+''))) =
      Some (spelled (filter (\<lambda>m. m \<in> set [lit ''Shift'', lit ''Ctrl'']) epimone_modifier_names) (lit ''+''))"
    using labels_have_one_form by blast
  then show ?thesis by (simp add: spelled_def epimone_modifier_names_def lit_def)
qed

section \<open>Applying the table\<close>

text \<open>After the table has been applied, every action of it is triggered by exactly the accelerator
  that is stored for it, an unbound action by none, and no other action has changed.\<close>

lemma application_gets_the_stored_bindings:
  "(\<forall>s \<in> set epimone_shortcut_table.
      app_accels (epimone_shortcuts_apply_to_app st a) (sc_action s) =
        (if epimone_shortcuts_dup_accel st (sc_key s) = [] then [] else [epimone_shortcuts_dup_accel st (sc_key s)])) \<and>
   (\<forall>x. x \<notin> sc_action ` set epimone_shortcut_table \<longrightarrow> app_accels (epimone_shortcuts_apply_to_app st a) x = app_accels a x)"
proof -
  define f :: "EpimoneShortcut \<Rightarrow> application \<Rightarrow> application" where "f = (\<lambda>s a. let accel = epimone_shortcuts_dup_accel st (sc_key s) in
    a\<lparr>app_accels := (app_accels a)(sc_action s := (if accel = [] then [] else [accel]))\<rparr>)"
  have other: "app_accels (fold f ss b) x = app_accels b x" if "x \<notin> sc_action ` set ss" for x ss b
    using that by (induction ss arbitrary: b) (simp_all add: f_def Let_def)
  have own: "app_accels (fold f ss b) (sc_action s) =
      (if epimone_shortcuts_dup_accel st (sc_key s) = [] then [] else [epimone_shortcuts_dup_accel st (sc_key s)])"
    if "distinct (map sc_action ss)" "s \<in> set ss" for s ss b
    using that
  proof (induction ss arbitrary: b)
    case (Cons t ss)
    show ?case
    proof (cases "s = t")
      case True
      then show ?thesis using Cons.prems other [of "sc_action t" ss] by (simp add: f_def Let_def)
    qed (use Cons in simp)
  qed simp
  have "app_accels (epimone_shortcuts_apply_to_app st a) = app_accels (fold f epimone_shortcut_table a)"
    by (simp add: epimone_shortcuts_apply_to_app_def f_def Let_def)
  then show ?thesis using own [OF distinct_actions] other by simp
qed

end
