(* ===== verification/Layout_Data.thy ===== *)
theory Layout_Data
  imports Page Client
begin

text \<open>
  What is written down of a tab (src/src/epimone-layout.c): its split tree as a GVariant node, the
  blob of its group, and the picture of an arrangement computed from a blob. Printing and parsing
  the text of a GVariant is GLib's: a parameter.
\<close>

section \<open>Nodes\<close>

text \<open>
  The value in a boxed variant: \<open>(st)\<close>, \<open>(ssdvv)\<close>, or one of any other type.
\<close>

datatype 'd gnode = G_leaf "byte list" u64 | G_split "byte list" "byte list" 'd "'d gnode" "'d gnode" | G_other

definition node_ratio :: "'d fp \<Rightarrow> int \<Rightarrow> int \<Rightarrow> 'd" where
  "node_ratio f pos sz = (if 0 < sz then fp_div f (fp_of_int f pos) (fp_of_int f sz) else fp_half f)"

definition pane_dim :: "'d page_env \<Rightarrow> 'd pane \<Rightarrow> int" where
  "pane_dim e p = (if pn_orient p = Horizontal then pe_width e (pn_ref p) else pe_height e (pn_ref p))"

fun node_to_variant :: "'d fp \<Rightarrow> 'd page_env \<Rightarrow> 'd tree \<Rightarrow> 'd gnode" where
  "node_to_variant f e (Paned p l r) =
     G_split (lit ''split'') (if pn_orient p = Horizontal then lit ''h'' else lit ''v'')
       (node_ratio f (pn_pos p) (pane_dim e p)) (node_to_variant f e l) (node_to_variant f e r)"
| "node_to_variant f e (Leaf x s) = G_leaf (lit ''leaf'') s"

fun collect_session_ids :: "'d tree \<Rightarrow> u64 list" where
  "collect_session_ids (Paned p l r) = collect_session_ids l @ collect_session_ids r"
| "collect_session_ids (Leaf x s) = (if s \<noteq> 0 then [s] else [])"

section \<open>The text format\<close>

type_synonym 'd blob3 = "u32 \<times> u64 \<times> byte list \<times> 'd gnode \<times> u16 \<times> u16 \<times> byte list"
type_synonym 'd blob2 = "u32 \<times> u64 \<times> byte list \<times> 'd gnode \<times> u16 \<times> u16"
type_synonym 'd blob1 = "u32 \<times> u64 \<times> byte list \<times> 'd gnode"
type_synonym layout2 = "u32 \<times> (int \<times> int \<times> bool \<times> int \<times> u64 list) list"
type_synonym 'd layout1 = "u32 \<times> (int \<times> (u64 \<times> 'd gnode) list) list"
type_synonym groups_state = "u32 \<times> u64 \<times> u64 list"

record 'd gvariant =
  gv_print_blob :: "'d blob3 \<Rightarrow> byte list"
  gv_parse_blob3 :: "byte list \<Rightarrow> 'd blob3 option"
  gv_parse_blob2 :: "byte list \<Rightarrow> 'd blob2 option"
  gv_parse_blob1 :: "byte list \<Rightarrow> 'd blob1 option"
  gv_print_layout :: "layout2 \<Rightarrow> byte list"
  gv_parse_layout2 :: "byte list \<Rightarrow> layout2 option"
  gv_parse_layout1 :: "byte list \<Rightarrow> 'd layout1 option"
  gv_print_groups :: "groups_state \<Rightarrow> byte list"
  gv_parse_groups :: "byte list \<Rightarrow> groups_state option"

section \<open>Blobs\<close>

definition BLOB_VERSION :: u32 where "BLOB_VERSION = 3"
definition LAYOUT_VERSION :: u32 where "LAYOUT_VERSION = 2"
definition GROUPS_VERSION :: u32 where "GROUPS_VERSION = 1"

definition page_blob :: "'d fp \<Rightarrow> 'd page_env \<Rightarrow> 'd page \<Rightarrow> 'd tree \<Rightarrow> 'd blob3" where
  "page_blob f e p t =
     (case epimone_page_get_focused_grid e p of (cols, rows) \<Rightarrow>
        (BLOB_VERSION, epimone_page_get_focused_session p,
         (case epimone_page_get_shell_title e p of Some c \<Rightarrow> c | None \<Rightarrow> []),
         node_to_variant f e t, ucast cols, ucast rows,
         (case pg_custom p of Some c \<Rightarrow> c | None \<Rightarrow> [])))"

definition page_blob_text :: "'d fp \<Rightarrow> 'd gvariant \<Rightarrow> 'd page_env \<Rightarrow> 'd page \<Rightarrow> byte list option" where
  "page_blob_text f g e p =
     (case pg_root p of None \<Rightarrow> None | Some t \<Rightarrow> Some (gv_print_blob g (page_blob f e p t)))"

text \<open>What a blob says; an absent custom name is \<open>None\<close>, an unknown grid is 0.\<close>

record 'd blob =
  bl_focused :: u64
  bl_title :: "byte list"
  bl_custom :: "byte list option"
  bl_tree :: "'d gnode"
  bl_cols :: u32
  bl_rows :: u32

definition blob_parse :: "'d gvariant \<Rightarrow> byte list option \<Rightarrow> nat \<Rightarrow> 'd blob option" where
  "blob_parse g blob len =
     (case blob of
        None \<Rightarrow> None
      | Some bytes \<Rightarrow>
          if len = 0 then None
          else
            let text = take len bytes in
            (case gv_parse_blob3 g text of
               Some (version, focused, title, tree, cols, rows, custom) \<Rightarrow>
                 if version \<noteq> 3 then None
                 else Some \<lparr>bl_focused = focused, bl_title = title,
                            bl_custom = (if custom \<noteq> [] then Some custom else None), bl_tree = tree,
                            bl_cols = ucast cols, bl_rows = ucast rows\<rparr>
             | None \<Rightarrow>
                 (case gv_parse_blob2 g text of
                    Some (version, focused, title, tree, cols, rows) \<Rightarrow>
                      if version \<noteq> 2 then None
                      else Some \<lparr>bl_focused = focused, bl_title = title, bl_custom = None, bl_tree = tree,
                                 bl_cols = ucast cols, bl_rows = ucast rows\<rparr>
                  | None \<Rightarrow>
                      (case gv_parse_blob1 g text of
                         Some (version, focused, title, tree) \<Rightarrow>
                           if version \<noteq> 1 then None
                           else Some \<lparr>bl_focused = focused, bl_title = title, bl_custom = None, bl_tree = tree,
                                      bl_cols = 0, bl_rows = 0\<rparr>
                       | None \<Rightarrow> None))))"

text \<open>The title (if not empty), the focused session, the columns and the rows.\<close>

definition epimone_layout_blob_peek ::
  "'d gvariant \<Rightarrow> byte list option \<Rightarrow> nat \<Rightarrow> (byte list option \<times> u64 \<times> u32 \<times> u32) option" where
  "epimone_layout_blob_peek g blob len =
     (case blob_parse g blob len of
        None \<Rightarrow> None
      | Some b \<Rightarrow> Some (if bl_title b \<noteq> [] then Some (bl_title b) else None, bl_focused b, bl_cols b, bl_rows b))"

definition epimone_layout_blob_dup_custom_title :: "'d gvariant \<Rightarrow> byte list option \<Rightarrow> nat \<Rightarrow> byte list option" where
  "epimone_layout_blob_dup_custom_title g blob len =
     (case blob_parse g blob len of None \<Rightarrow> None | Some b \<Rightarrow> bl_custom b)"

section \<open>Geometry\<close>

record 'd leaf_rect =
  lf_session :: u64
  lf_x :: 'd
  lf_y :: 'd
  lf_w :: 'd
  lf_h :: 'd
  lf_cols :: u32
  lf_rows :: u32

record 'd seam =
  sm_vertical :: bool
  sm_x :: 'd
  sm_y :: 'd
  sm_w :: 'd
  sm_h :: 'd

definition sane_ratio :: "'d fp \<Rightarrow> 'd \<Rightarrow> 'd" where
  "sane_ratio f ratio =
     (if fp_le f ratio (fp_of_int f 0) \<or> fp_le f (fp_of_int f 1) ratio \<or> \<not> fp_finite f ratio
      then fp_half f else ratio)"

definition horizontal_tag :: "byte list \<Rightarrow> bool" where
  "horizontal_tag orient = (take 1 orient = lit ''h'')"

fun walk_node_geometry ::
  "'d fp \<Rightarrow> 'd gnode \<Rightarrow> 'd \<Rightarrow> 'd \<Rightarrow> 'd \<Rightarrow> 'd \<Rightarrow> 'd leaf_rect list \<Rightarrow> 'd seam list \<Rightarrow>
   bool \<times> 'd leaf_rect list \<times> 'd seam list" where
  "walk_node_geometry f (G_leaf tag sid) x y w h ls ss =
     (if sid \<noteq> 0
      then (True, ls @ [\<lparr>lf_session = sid, lf_x = x, lf_y = y, lf_w = w, lf_h = h, lf_cols = 0, lf_rows = 0\<rparr>],
            ss)
      else (False, ls, ss))"
| "walk_node_geometry f (G_split tag orient ratio0 startv endv) x y w h ls ss =
     (let ratio = sane_ratio f ratio0;
          horizontal = horizontal_tag orient;
          mul = fp_mul f; add = fp_add f; sub = fp_sub f;
          a_w = (if horizontal then mul w ratio else w);
          a_h = (if horizontal then h else mul h ratio);
          b_x = (if horizontal then add x a_w else x);
          b_w = (if horizontal then sub w a_w else w);
          b_y = (if horizontal then y else add y a_h);
          b_h = (if horizontal then h else sub h a_h)
      in case walk_node_geometry f startv x y a_w a_h ls ss of (got_start, ls1, ss1) \<Rightarrow>
         case walk_node_geometry f endv b_x b_y b_w b_h ls1 ss1 of (got_end, ls2, ss2) \<Rightarrow>
         if got_start \<noteq> got_end then
           let ls3 = take (length ls) ls2; ss3 = take (length ss) ss2 in
           (case (if got_start then walk_node_geometry f startv x y w h ls3 ss3
                  else walk_node_geometry f endv x y w h ls3 ss3) of
              (_, ls4, ss4) \<Rightarrow> (True, ls4, ss4))
         else if got_start \<and> got_end then
           (True, ls2,
            ss2 @ [if horizontal
                      then \<lparr>sm_vertical = True, sm_x = add x (mul w ratio), sm_y = y,
                            sm_w = fp_of_int f 0, sm_h = h\<rparr>
                      else \<lparr>sm_vertical = False, sm_x = x, sm_y = add y (mul h ratio),
                            sm_w = w, sm_h = fp_of_int f 0\<rparr>])
         else (False, ls2, ss2))"
| "walk_node_geometry f G_other x y w h ls ss = (False, ls, ss)"

text \<open>The whole tab's columns and rows, from the first leaf of the focused session that has a size.\<close>

definition total_grid :: "'d fp \<Rightarrow> u64 \<Rightarrow> u32 \<Rightarrow> u32 \<Rightarrow> 'd leaf_rect list \<Rightarrow> 'd \<times> 'd" where
  "total_grid f focused fcols frows ls =
     (let zero = fp_of_int f 0; fc = fp_of_int f (uint fcols); fr = fp_of_int f (uint frows);
          (tc, tr) = (case find (\<lambda>l. lf_session l = focused \<and> fp_less f zero (lf_w l) \<and> fp_less f zero (lf_h l)) ls of
                        Some l \<Rightarrow> (fp_div f fc (lf_w l), fp_div f fr (lf_h l))
                      | None \<Rightarrow> (zero, zero))
      in if fp_le f tc zero \<or> fp_le f tr zero then (fc, fr) else (tc, tr))"

definition pane_cells :: "'d fp \<Rightarrow> 'd \<Rightarrow> 'd \<Rightarrow> u32" where
  "pane_cells f whole part =
     (let v = fp_floor f (fp_add f (fp_mul f whole part) (fp_half f)); one = fp_of_int f 1 in
      word_of_int (fp_trunc f (if fp_less f v one then one else v)))"

definition epimone_layout_blob_geometry ::
  "'d fp \<Rightarrow> 'd gvariant \<Rightarrow> byte list option \<Rightarrow> nat \<Rightarrow> ('d leaf_rect list \<times> 'd seam list) option" where
  "epimone_layout_blob_geometry f g blob len =
     (case blob_parse g blob len of
        None \<Rightarrow> None
      | Some b \<Rightarrow>
          (case walk_node_geometry f (bl_tree b) (fp_of_int f 0) (fp_of_int f 0) (fp_of_int f 1) (fp_of_int f 1) [] [] of
             (_, ls, ss) \<Rightarrow>
               if 0 < bl_cols b \<and> 0 < bl_rows b
               then case total_grid f (bl_focused b) (bl_cols b) (bl_rows b) ls of (tc, tr) \<Rightarrow>
                      Some (map (\<lambda>l. l\<lparr>lf_cols := pane_cells f tc (lf_w l), lf_rows := pane_cells f tr (lf_h l)\<rparr>) ls,
                            ss)
               else Some (ls, ss)))"

section \<open>Ratios\<close>

fun apply_ratios :: "'d fp \<Rightarrow> 'd page_env \<Rightarrow> 'd tree \<Rightarrow> 'd tree" where
  "apply_ratios f e (Leaf x s) = Leaf x s"
| "apply_ratios f e (Paned p l r) =
     Paned (case pn_ratio p of
              None \<Rightarrow> p
            | Some ratio \<Rightarrow>
                if 0 < pane_dim e p
                then p\<lparr>pn_pos := fp_trunc f (fp_add f (fp_mul f ratio (fp_of_int f (pane_dim e p))) (fp_half f))\<rparr>
                else p)
       (apply_ratios f e l) (apply_ratios f e r)"

end
