(* ===== verification/Layout.thy ===== *)
theory Layout
  imports Layout_Data Client_Api
begin

text \<open>
  Saving and restoring the arrangement of the GUI (src/src/epimone-layout.c) and what it uses of the
  windows (src/src/epimone-window.c): the debounced saves, the synchronisation of every tab with its
  group in the daemon, and the rebuilding of tabs. The client library is reached through the interface
  \<open>client_api\<close>.
\<close>

section \<open>State\<close>

record layout_state =
  ly_restoring :: bool
  ly_frozen :: bool
  ly_timer :: bool
  ly_layout_dirty :: bool
  ly_groups_dirty :: bool
  ly_session_instance :: u64
  ly_recorded_instance :: u64
  ly_instance_checked :: bool

record 'd window =
  wn_ref :: nat
  wn_pages :: "'d page list"
  wn_selected :: "nat option"
  wn_size :: "int \<times> int"
  wn_maximized :: bool
  wn_ticks :: "restore_tick list"

text \<open>
  The application: its windows, the module's variables, the next widget address, the world of the
  client library and the two files.
\<close>

record ('d, 'w) app =
  ap_windows :: "'d window list"
  ap_layout :: layout_state
  ap_next :: nat
  ap_world :: 'w
  ap_layout_file :: "byte list option"
  ap_groups_file :: "byte list option"

text \<open>What surrounds it: doubles, GLib, the client library, the toolkit, and whether files can be written.\<close>

record ('d, 'w) system =
  sy_fp :: "'d fp"
  sy_gv :: "'d gvariant"
  sy_api :: "'w client_api"
  sy_env :: "'d page_env"
  sy_writable :: bool

section \<open>Debounce\<close>

definition arm_save :: "layout_state \<Rightarrow> layout_state" where
  "arm_save l = (if ly_restoring l \<or> ly_frozen l \<or> ly_timer l then l else l\<lparr>ly_timer := True\<rparr>)"

definition epimone_layout_schedule_save :: "layout_state \<Rightarrow> layout_state" where
  "epimone_layout_schedule_save l =
     (if ly_restoring l \<or> ly_frozen l then l
      else arm_save (l\<lparr>ly_layout_dirty := True, ly_groups_dirty := True\<rparr>))"

definition epimone_layout_schedule_group_save :: "layout_state \<Rightarrow> layout_state" where
  "epimone_layout_schedule_group_save l =
     (if ly_restoring l \<or> ly_frozen l then l else arm_save (l\<lparr>ly_groups_dirty := True\<rparr>))"

text \<open>The calls a page has made, carried out.\<close>

fun layout_call :: "page_call \<Rightarrow> layout_state \<Rightarrow> layout_state" where
  "layout_call Schedule_save l = epimone_layout_schedule_save l"
| "layout_call Schedule_group_save l = epimone_layout_schedule_group_save l"
| "layout_call _ l = l"

definition on_page :: "('d page \<Rightarrow> 'd page) \<Rightarrow> 'd page \<Rightarrow> layout_state \<Rightarrow> 'd page \<times> layout_state" where
  "on_page h p l = (let q = h (p\<lparr>pg_calls := []\<rparr>) in (q\<lparr>pg_calls := []\<rparr>, fold layout_call (pg_calls q) l))"

definition set_layout :: "(layout_state \<Rightarrow> layout_state) \<Rightarrow> ('d, 'w) app \<Rightarrow> ('d, 'w) app" where
  "set_layout h a = a\<lparr>ap_layout := h (ap_layout a)\<rparr>"

definition at_page :: "('d page \<Rightarrow> 'd page) \<Rightarrow> nat \<Rightarrow> nat \<Rightarrow> ('d, 'w) app \<Rightarrow> ('d, 'w) app" where
  "at_page h wi pk a =
     (if wi < length (ap_windows a) \<and> pk < length (wn_pages (ap_windows a ! wi)) then
        let w = ap_windows a ! wi in
        case on_page h (wn_pages w ! pk) (ap_layout a) of (q, l) \<Rightarrow>
          a\<lparr>ap_windows := (ap_windows a)[wi := w\<lparr>wn_pages := (wn_pages w)[pk := q]\<rparr>], ap_layout := l\<rparr>
      else a)"

definition at_window :: "('d window \<Rightarrow> 'd window) \<Rightarrow> nat \<Rightarrow> ('d, 'w) app \<Rightarrow> ('d, 'w) app" where
  "at_window h wi a =
     (if wi < length (ap_windows a) then a\<lparr>ap_windows := (ap_windows a)[wi := h (ap_windows a ! wi)]\<rparr> else a)"

section \<open>Windows\<close>

definition epimone_window_new :: "('d, 'w) app \<Rightarrow> ('d, 'w) app" where
  "epimone_window_new a =
     a\<lparr>ap_windows := \<lparr>wn_ref = ap_next a, wn_pages = [], wn_selected = None, wn_size = (0, 0),
                      wn_maximized = False, wn_ticks = []\<rparr> # ap_windows a, ap_next := ap_next a + 1\<rparr>"

definition epimone_window_focus_current_terminal :: "('d, 'w) system \<Rightarrow> nat \<Rightarrow> ('d, 'w) app \<Rightarrow> ('d, 'w) app" where
  "epimone_window_focus_current_terminal y wi a =
     (if wi < length (ap_windows a) then
        case wn_selected (ap_windows a ! wi) of
          None \<Rightarrow> a
        | Some i \<Rightarrow> at_page (epimone_page_focus_terminal (sy_env y)) wi i a
      else a)"

text \<open>The handler of the tab view's selected page; the toolkit calls it when the selection changes.\<close>

definition epimone_window_notify_selected :: "('d, 'w) system \<Rightarrow> nat \<Rightarrow> ('d, 'w) app \<Rightarrow> ('d, 'w) app" where
  "epimone_window_notify_selected y wi a =
     set_layout epimone_layout_schedule_save (epimone_window_focus_current_terminal y wi a)"

definition set_selected_page :: "('d, 'w) system \<Rightarrow> nat \<Rightarrow> nat \<Rightarrow> ('d, 'w) app \<Rightarrow> ('d, 'w) app" where
  "set_selected_page y wi i a =
     (if wi < length (ap_windows a) \<and> wn_selected (ap_windows a ! wi) \<noteq> Some i
      then epimone_window_notify_selected y wi (at_window (\<lambda>w. w\<lparr>wn_selected := Some i\<rparr>) wi a)
      else a)"

text \<open>
  Appending a page: the first page of a tab view becomes its selected one, and the change of the
  number of pages schedules a save.
\<close>

definition epimone_window_adopt_page :: "('d, 'w) system \<Rightarrow> nat \<Rightarrow> 'd page \<Rightarrow> ('d, 'w) app \<Rightarrow> ('d, 'w) app" where
  "epimone_window_adopt_page y wi p a =
     (if wi < length (ap_windows a) then
        let n = length (wn_pages (ap_windows a ! wi));
            a1 = at_window (\<lambda>w. w\<lparr>wn_pages := wn_pages w @ [p]\<rparr>) wi a;
            a2 = set_layout epimone_layout_schedule_save a1
        in if n = 0 then set_selected_page y wi 0 a2 else a2
      else a)"

definition epimone_window_select_index :: "('d, 'w) system \<Rightarrow> nat \<Rightarrow> nat \<Rightarrow> ('d, 'w) app \<Rightarrow> ('d, 'w) app" where
  "epimone_window_select_index y wi i a =
     at_page (epimone_page_focus_terminal (sy_env y)) wi i (set_selected_page y wi i a)"

definition epimone_window_adopt_and_select_page ::
  "('d, 'w) system \<Rightarrow> nat \<Rightarrow> 'd page \<Rightarrow> ('d, 'w) app \<Rightarrow> ('d, 'w) app" where
  "epimone_window_adopt_and_select_page y wi p a =
     (let a1 = epimone_window_adopt_page y wi p a in
      if wi < length (ap_windows a)
      then epimone_window_select_index y wi (length (wn_pages (ap_windows a ! wi))) a1 else a1)"

definition epimone_window_set_active_tab :: "('d, 'w) system \<Rightarrow> nat \<Rightarrow> int \<Rightarrow> ('d, 'w) app \<Rightarrow> ('d, 'w) app" where
  "epimone_window_set_active_tab y wi index a =
     (if wi < length (ap_windows a) then
        let n = length (wn_pages (ap_windows a ! wi)) in
        if n = 0 then a
        else set_selected_page y wi (if index < 0 then 0 else if index \<ge> int n then n - 1 else nat index) a
      else a)"

fun find_index :: "('x \<Rightarrow> bool) \<Rightarrow> 'x list \<Rightarrow> nat option" where
  "find_index P [] = None"
| "find_index P (x # xs) = (if P x then Some 0 else map_option Suc (find_index P xs))"

definition epimone_window_find_page_for_session :: "'d window \<Rightarrow> u64 \<Rightarrow> nat option" where
  "epimone_window_find_page_for_session w sid =
     (if sid = 0 then None else find_index (\<lambda>p. epimone_page_has_session p sid) (wn_pages w))"

definition epimone_window_dup_attached_group_ids :: "'d window \<Rightarrow> u64 list" where
  "epimone_window_dup_attached_group_ids w = filter (\<lambda>g. g \<noteq> 0) (map pg_group (wn_pages w))"

section \<open>Writing the layout file\<close>

definition window_to_variant :: "'d window \<Rightarrow> int \<times> int \<times> bool \<times> int \<times> u64 list" where
  "window_to_variant w =
     (fst (wn_size w), snd (wn_size w), wn_maximized w,
      (case wn_selected w of Some i \<Rightarrow> int i | None \<Rightarrow> 0), filter (\<lambda>g. g \<noteq> 0) (map pg_group (wn_pages w)))"

definition epimone_layout_save_now :: "('d, 'w) system \<Rightarrow> ('d, 'w) app \<Rightarrow> ('d, 'w) app" where
  "epimone_layout_save_now y a =
     (if ap_windows a = [] then a
      else let text = gv_print_layout (sy_gv y) (LAYOUT_VERSION, map window_to_variant (ap_windows a))
           in if sy_writable y then a\<lparr>ap_layout_file := Some text\<rparr> else a)"

section \<open>Groups\<close>

fun enroll :: "'w client_api \<Rightarrow> u64 \<Rightarrow> u64 list \<Rightarrow> 'd page \<Rightarrow> 'w \<Rightarrow> 'd page \<times> 'w" where
  "enroll api gid [] p w = (p, w)"
| "enroll api gid (sid # sids) p w =
     (if epimone_page_session_enrolled p sid then enroll api gid sids p w
      else case api_group_add api gid sid w of
             (True, w1) \<Rightarrow> enroll api gid sids (epimone_page_mark_enrolled sid p) w1
           | (False, w1) \<Rightarrow> enroll api gid sids p w1)"

definition sync_page_group :: "('d, 'w) system \<Rightarrow> 'd page \<Rightarrow> 'w \<Rightarrow> 'd page \<times> 'w" where
  "sync_page_group y p w =
     (let api = sy_api y in
      if pg_zoomed p \<noteq> None then (p, w)
      else
        let ids = (case pg_root p of None \<Rightarrow> [] | Some t \<Rightarrow> collect_session_ids t) in
        if ids = [] then (p, w)
        else
          case page_blob_text (sy_fp y) (sy_gv y) (sy_env y) p of
            None \<Rightarrow> (p, w)
          | Some text \<Rightarrow>
              (case (if pg_group p \<noteq> 0
                     then (case api_group_set api (pg_group p) text w of
                             (True, w1) \<Rightarrow> (p, w1)
                           | (False, w1) \<Rightarrow> (epimone_page_set_group_id 0 p, w1))
                     else (p, w)) of
                 (p1, w1) \<Rightarrow>
                   if pg_group p1 = 0 then
                     (case api_group_new api text w1 of (gid, w2) \<Rightarrow>
                        if gid = 0 then (p1, w2)
                        else enroll api gid ids (epimone_page_set_group_id gid p1) w2)
                   else enroll api (pg_group p1) ids p1 w1))"

definition save_groups_state :: "('d, 'w) system \<Rightarrow> u64 list \<Rightarrow> ('d, 'w) app \<Rightarrow> ('d, 'w) app" where
  "save_groups_state y gids a =
     (case api_instance_id (sy_api y) (ap_world a) of (inst, w) \<Rightarrow>
        let a1 = (a\<lparr>ap_world := w\<rparr>);
            a2 = (if inst \<noteq> 0 then set_layout (\<lambda>l. l\<lparr>ly_recorded_instance := inst\<rparr>) a1 else a1);
            text = gv_print_groups (sy_gv y) (GROUPS_VERSION, inst, gids)
        in if sy_writable y then a2\<lparr>ap_groups_file := Some text\<rparr> else a2)"

fun sync_pages :: "('d, 'w) system \<Rightarrow> 'd page list \<Rightarrow> 'w \<Rightarrow> 'd page list \<times> 'w" where
  "sync_pages y [] w = ([], w)"
| "sync_pages y (p # ps) w =
     (case sync_page_group y p w of (q, w1) \<Rightarrow> case sync_pages y ps w1 of (qs, w2) \<Rightarrow> (q # qs, w2))"

fun sync_windows :: "('d, 'w) system \<Rightarrow> 'd window list \<Rightarrow> 'w \<Rightarrow> 'd window list \<times> 'w" where
  "sync_windows y [] w = ([], w)"
| "sync_windows y (x # xs) w =
     (case sync_pages y (wn_pages x) w of (qs, w1) \<Rightarrow>
      case sync_windows y xs w1 of (ys, w2) \<Rightarrow> (x\<lparr>wn_pages := qs\<rparr> # ys, w2))"

definition sync_groups_now :: "('d, 'w) system \<Rightarrow> ('d, 'w) app \<Rightarrow> ('d, 'w) app" where
  "sync_groups_now y a =
     (case sync_windows y (ap_windows a) (ap_world a) of (xs, w) \<Rightarrow>
        save_groups_state y
          (filter (\<lambda>g. g \<noteq> 0) (map pg_group (concat (map wn_pages xs))))
          (a\<lparr>ap_windows := xs, ap_world := w\<rparr>))"

definition epimone_layout_check_instance :: "('d, 'w) system \<Rightarrow> ('d, 'w) app \<Rightarrow> ('d, 'w) app" where
  "epimone_layout_check_instance y a =
     (case api_instance_id (sy_api y) (ap_world a) of (live, w) \<Rightarrow>
        let a1 = set_layout (\<lambda>l. l\<lparr>ly_instance_checked := True,
                    ly_session_instance := (if ly_session_instance l = 0 then live else ly_session_instance l)\<rparr>)
                  (a\<lparr>ap_world := w\<rparr>)
        in case ap_groups_file a1 of
             None \<Rightarrow> a1
           | Some text \<Rightarrow>
               (case gv_parse_groups (sy_gv y) text of
                  None \<Rightarrow> a1
                | Some (version, recorded, gids) \<Rightarrow>
                    set_layout (\<lambda>l. l\<lparr>ly_recorded_instance := recorded\<rparr>) a1))"

section \<open>The timer\<close>

definition save_timeout_cb :: "('d, 'w) system \<Rightarrow> ('d, 'w) app \<Rightarrow> ('d, 'w) app" where
  "save_timeout_cb y a =
     (let l = ap_layout a;
          a1 = a\<lparr>ap_layout := l\<lparr>ly_timer := False, ly_layout_dirty := False, ly_groups_dirty := False\<rparr>\<rparr>;
          a2 = (if ly_groups_dirty l then sync_groups_now y a1 else a1)
      in if ly_layout_dirty l then epimone_layout_save_now y a2 else a2)"

definition epimone_layout_begin_shutdown :: "('d, 'w) system \<Rightarrow> ('d, 'w) app \<Rightarrow> ('d, 'w) app" where
  "epimone_layout_begin_shutdown y a =
     (if ly_frozen (ap_layout a) then a
      else
        let a1 = set_layout (\<lambda>l. l\<lparr>ly_timer := False\<rparr>) a;
            a2 = epimone_layout_save_now y (sync_groups_now y a1)
        in set_layout (\<lambda>l. l\<lparr>ly_layout_dirty := False, ly_groups_dirty := False, ly_frozen := True\<rparr>) a2)"

end
