(* ===== verification/Restore.thy ===== *)
theory Restore
  imports Layout
begin

text \<open>
  Rebuilding tabs (src/src/epimone-layout.c): from a group's blob, and at startup from the layout
  file, in its current and its first version. A refusal is an \<open>Inl\<close>.
\<close>

section \<open>Sessions and groups, by the low 32 bits of their ids\<close>

text \<open>Hash tables keyed by \<open>GUINT_TO_POINTER ((guint) id)\<close>.\<close>

definition build_alive_set :: "'w client_api \<Rightarrow> 'w \<Rightarrow> u32 set option \<times> 'w" where
  "build_alive_set api w =
     (case api_list_sessions api w of
        (None, w1) \<Rightarrow> (None, w1)
      | (Some infos, w1) \<Rightarrow> (Some (set (map (\<lambda>i. ucast (si_id i)) (filter si_alive infos))), w1))"

definition map_members :: "EpiGroupInfo \<Rightarrow> (u32 \<rightharpoonup> u32) \<Rightarrow> (u32 \<rightharpoonup> u32)" where
  "map_members g m = fold (\<lambda>sid m. m(ucast sid \<mapsto> ucast (gi_id g))) (gi_members g) m"

definition build_session_group_map :: "'w client_api \<Rightarrow> 'w \<Rightarrow> (u32 \<rightharpoonup> u32) option \<times> 'w" where
  "build_session_group_map api w =
     (case api_list_groups api w of
        (None, w1) \<Rightarrow> (None, w1)
      | (Some gs, w1) \<Rightarrow> (Some (fold map_members gs Map.empty), w1))"

text \<open>The first session with a group that is not the null pointer decides.\<close>

fun first_group :: "(u32 \<rightharpoonup> u32) \<Rightarrow> u64 list \<Rightarrow> u64" where
  "first_group m [] = 0"
| "first_group m (sid # sids) =
     (case m (ucast sid) of
        Some v \<Rightarrow> if v \<noteq> 0 then ucast v else first_group m sids
      | None \<Rightarrow> first_group m sids)"

definition adopt_existing_group :: "(u32 \<rightharpoonup> u32) option \<Rightarrow> 'd tree \<Rightarrow> 'd page \<Rightarrow> 'd page" where
  "adopt_existing_group sgmap t p =
     (case sgmap of
        None \<Rightarrow> p
      | Some m \<Rightarrow>
          let ids = collect_session_ids t; gid = first_group m ids in
          if gid = 0 then p
          else fold epimone_page_mark_enrolled ids (epimone_page_set_group_id gid p))"

section \<open>Building a tree\<close>

text \<open>A terminal on an existing session: attach, then bridge; \<open>next\<close> is the next widget address.\<close>

definition epimone_page_create_terminal_for_session ::
  "'w client_api \<Rightarrow> u64 \<Rightarrow> nat \<times> 'w \<Rightarrow> 'd tree option \<times> nat \<times> 'w" where
  "epimone_page_create_terminal_for_session api sid st =
     (case st of (nxt, w) \<Rightarrow>
      case api_attach_session api sid w of
        (False, w1) \<Rightarrow> (None, nxt, w1)
      | (True, w1) \<Rightarrow>
          (case api_bridge api w1 of
             (False, w2) \<Rightarrow> (None, nxt + 1, w2)
           | (True, w2) \<Rightarrow> (Some (Leaf nxt sid), nxt + 1, w2)))"

fun build_node :: "'w client_api \<Rightarrow> u32 set \<Rightarrow> 'd gnode \<Rightarrow> nat \<times> 'w \<Rightarrow> 'd tree option \<times> nat \<times> 'w" where
  "build_node api alive (G_leaf tag sid) st =
     (if sid \<noteq> 0 \<and> ucast sid \<in> alive then epimone_page_create_terminal_for_session api sid st
      else (None, st))"
| "build_node api alive (G_split tag orient ratio startv endv) st =
     (case build_node api alive startv st of (start, st1) \<Rightarrow>
      case build_node api alive endv st1 of (fin, nxt, w) \<Rightarrow>
        (case (start, fin) of
           (None, None) \<Rightarrow> (None, nxt, w)
         | (None, Some b) \<Rightarrow> (Some b, nxt, w)
         | (Some a, None) \<Rightarrow> (Some a, nxt, w)
         | (Some a, Some b) \<Rightarrow>
             (Some (Paned \<lparr>pn_ref = nxt,
                           pn_orient = (if horizontal_tag orient then Horizontal else Vertical),
                           pn_pos = 0, pn_ratio = Some ratio\<rparr> a b), nxt + 1, w)))"
| "build_node api alive G_other st = (None, st)"

section \<open>The frame-clock callback\<close>

definition apply_ratios_page :: "'d fp \<Rightarrow> 'd page_env \<Rightarrow> 'd page \<Rightarrow> 'd page" where
  "apply_ratios_page f e p =
     (case pg_root p of
        None \<Rightarrow> p
      | Some t \<Rightarrow>
          let t' = apply_ratios f e t; q = p\<lparr>pg_root := Some t'\<rparr>
          in if t' \<noteq> t then epimone_paned_position_changed q else q)"

text \<open>One callback on a page: what is left of it is kept only while there are frames left.\<close>

definition restore_tick_page :: "'d fp \<Rightarrow> 'd page_env \<Rightarrow> restore_tick \<Rightarrow> 'd page \<Rightarrow> restore_tick option \<times> 'd page" where
  "restore_tick_page f e rt p =
     (let p1 = apply_ratios_page f e p;
          p2 = (if rt_done rt then p1
                else if rt_focus rt \<noteq> 0 then epimone_page_focus_session e (rt_focus rt) p1
                else epimone_page_focus_terminal e p1);
          left = rt_frames rt - 1
      in (if left \<le> 0 then None else Some (rt\<lparr>rt_frames := left, rt_done := True\<rparr>), p2))"

fun page_ticks :: "'d fp \<Rightarrow> 'd page_env \<Rightarrow> restore_tick list \<Rightarrow> 'd page \<Rightarrow> restore_tick list \<times> 'd page" where
  "page_ticks f e [] p = ([], p)"
| "page_ticks f e (rt # rts) p =
     (case restore_tick_page f e rt p of (k, p1) \<Rightarrow>
      case page_ticks f e rts p1 of (ks, p2) \<Rightarrow> ((case k of None \<Rightarrow> ks | Some k \<Rightarrow> k # ks), p2))"

definition page_frame :: "'d fp \<Rightarrow> 'd page_env \<Rightarrow> 'd page \<Rightarrow> 'd page" where
  "page_frame f e p = (case page_ticks f e (pg_ticks p) p of (ks, q) \<Rightarrow> q\<lparr>pg_ticks := ks\<rparr>)"

definition restore_tick_window ::
  "('d, 'w) system \<Rightarrow> nat \<Rightarrow> restore_tick \<Rightarrow> ('d, 'w) app \<Rightarrow> restore_tick option \<times> ('d, 'w) app" where
  "restore_tick_window y wi rt a =
     (if wi < length (ap_windows a) then
        let a1 = fold (at_page (apply_ratios_page (sy_fp y) (sy_env y)) wi)
                   [0..<length (wn_pages (ap_windows a ! wi))] a;
            a2 = (if rt_done rt \<or> rt_focus rt = 0 then a1
                  else case wn_selected (ap_windows a1 ! wi) of
                         None \<Rightarrow> a1
                       | Some i \<Rightarrow> at_page (epimone_page_focus_session (sy_env y) (rt_focus rt)) wi i a1);
            left = rt_frames rt - 1
        in (if left \<le> 0 then None else Some (rt\<lparr>rt_frames := left, rt_done := True\<rparr>), a2)
      else (None, a))"

definition RESTORE_TICK_FRAMES :: int where "RESTORE_TICK_FRAMES = 12"

definition new_tick :: "u64 \<Rightarrow> restore_tick" where
  "new_tick focus = \<lparr>rt_focus = focus, rt_frames = RESTORE_TICK_FRAMES, rt_done = False\<rparr>"

section \<open>The guard\<close>

datatype restore_error =
    R_group_zero
  | R_no_instance
  | R_not_established
  | R_replaced
  | R_recorded_stale
  | R_daemon
  | R_no_group
  | R_no_layout
  | R_bad_layout
  | R_no_sessions
  | R_set_failed

definition instance_ok :: "'w client_api \<Rightarrow> layout_state \<Rightarrow> 'w \<Rightarrow> restore_error option \<times> 'w" where
  "instance_ok api l w =
     (case api_instance_id api w of (live, w1) \<Rightarrow>
        (if live = 0 then Some R_no_instance
         else if \<not> ly_instance_checked l \<or> ly_session_instance l = 0 then Some R_not_established
         else if live \<noteq> ly_session_instance l then Some R_replaced
         else if ly_recorded_instance l \<noteq> 0 \<and> ly_recorded_instance l \<noteq> live then Some R_recorded_stale
         else None, w1))"

text \<open>The window and the tab that shows one of the members: the first member of the first window.\<close>

fun find_members_in :: "'d window \<Rightarrow> u64 list \<Rightarrow> nat option" where
  "find_members_in w [] = None"
| "find_members_in w (sid # sids) =
     (case epimone_window_find_page_for_session w sid of Some k \<Rightarrow> Some k | None \<Rightarrow> find_members_in w sids)"

fun find_page_for_members :: "u64 list \<Rightarrow> 'd window list \<Rightarrow> (nat \<times> nat) option" where
  "find_page_for_members ms [] = None"
| "find_page_for_members ms (w # ws) =
     (case find_members_in w ms of
        Some k \<Rightarrow> Some (0, k)
      | None \<Rightarrow> map_option (\<lambda>(i, k). (i + 1, k)) (find_page_for_members ms ws))"

section \<open>One tab from its group\<close>

text \<open>The page around the rebuilt tree. It is built while saves are suppressed, so the saves it asks for are dropped.\<close>

definition restored_page :: "'d page_env \<Rightarrow> u64 \<Rightarrow> 'd blob \<Rightarrow> 'd tree \<Rightarrow> 'd page" where
  "restored_page e gid b t =
     (let p = epimone_page_set_tree_root e t epimone_page_new_empty;
          p = epimone_page_set_initial_title (Some (bl_title b)) p;
          p = epimone_page_set_custom_title e (bl_custom b) p;
          p = epimone_page_set_group_id gid p
      in (fold epimone_page_mark_enrolled (collect_session_ids t) p)\<lparr>pg_ticks := [new_tick (bl_focused b)], pg_calls := []\<rparr>)"

text \<open>What follows the guards: the build, with saves suppressed, and the new tab.\<close>

definition build_tab ::
  "('d, 'w) system \<Rightarrow> nat \<Rightarrow> u64 \<Rightarrow> 'd blob \<Rightarrow> u32 set \<Rightarrow> ('d, 'w) app \<Rightarrow> (restore_error + unit) \<times> ('d, 'w) app" where
  "build_tab y wi gid b alive a =
     (let was_restoring = ly_restoring (ap_layout a);
          a1 = set_layout (\<lambda>l. l\<lparr>ly_restoring := True\<rparr>) a
      in case build_node (sy_api y) alive (bl_tree b) (ap_next a1, ap_world a1) of
           (None, nxt, w) \<Rightarrow>
             (Inl R_no_sessions, set_layout (\<lambda>l. l\<lparr>ly_restoring := False\<rparr>) (a1\<lparr>ap_next := nxt, ap_world := w\<rparr>))
         | (Some t, nxt, w) \<Rightarrow>
             let a2 = epimone_window_adopt_and_select_page y wi (restored_page (sy_env y) gid b t)
                        (a1\<lparr>ap_next := nxt, ap_world := w\<rparr>);
                 a3 = set_layout (\<lambda>l. l\<lparr>ly_restoring := was_restoring\<rparr>) a2
             in (Inr (), if was_restoring then a3 else set_layout epimone_layout_schedule_save a3))"

definition epimone_layout_restore_group ::
  "('d, 'w) system \<Rightarrow> nat \<Rightarrow> u64 \<Rightarrow> ('d, 'w) app \<Rightarrow> (restore_error + unit) \<times> ('d, 'w) app" where
  "epimone_layout_restore_group y wi gid a =
     (let api = sy_api y in
      if gid = 0 then (Inl R_group_zero, a)
      else
        case instance_ok api (ap_layout a) (ap_world a) of
          (Some err, w) \<Rightarrow> (Inl err, a\<lparr>ap_world := w\<rparr>)
        | (None, w) \<Rightarrow>
            (case api_list_groups api w of
               (None, w1) \<Rightarrow> (Inl R_daemon, a\<lparr>ap_world := w1\<rparr>)
             | (Some gs, w1) \<Rightarrow>
                 let a1 = a\<lparr>ap_world := w1\<rparr> in
                 (case find (\<lambda>g. gi_id g = gid) gs of
                    None \<Rightarrow> (Inl R_no_group, a1)
                  | Some g \<Rightarrow>
                      (case find_page_for_members (gi_members g) (ap_windows a1) of
                         Some (xi, k) \<Rightarrow> (Inr (), epimone_window_select_index y xi k a1)
                       | None \<Rightarrow>
                           if gi_blob g = None \<or> gi_blob_len g = 0 then (Inl R_no_layout, a1)
                           else
                             (case blob_parse (sy_gv y) (gi_blob g) (gi_blob_len g) of
                                None \<Rightarrow> (Inl R_bad_layout, a1)
                              | Some b \<Rightarrow>
                                  (case build_alive_set api w1 of
                                     (None, w2) \<Rightarrow> (Inl R_daemon, a1\<lparr>ap_world := w2\<rparr>)
                                   | (Some alive, w2) \<Rightarrow> build_tab y wi gid b alive (a1\<lparr>ap_world := w2\<rparr>)))))))"

definition epimone_layout_rename_group ::
  "('d, 'w) system \<Rightarrow> u64 \<Rightarrow> byte list option \<Rightarrow> ('d, 'w) app \<Rightarrow> (restore_error + unit) \<times> ('d, 'w) app" where
  "epimone_layout_rename_group y gid name0 a =
     (let api = sy_api y;
          name = (case name0 of Some n \<Rightarrow> if n = [] then None else Some n | None \<Rightarrow> None) in
      if gid = 0 then (Inl R_group_zero, a)
      else
        case instance_ok api (ap_layout a) (ap_world a) of
          (Some err, w) \<Rightarrow> (Inl err, a\<lparr>ap_world := w\<rparr>)
        | (None, w) \<Rightarrow>
            (case api_list_groups api w of
               (None, w1) \<Rightarrow> (Inl R_daemon, a\<lparr>ap_world := w1\<rparr>)
             | (Some gs, w1) \<Rightarrow>
                 let a1 = a\<lparr>ap_world := w1\<rparr> in
                 (case find (\<lambda>g. gi_id g = gid) gs of
                    None \<Rightarrow> (Inl R_no_group, a1)
                  | Some g \<Rightarrow>
                      (case find_page_for_members (gi_members g) (ap_windows a1) of
                         Some (xi, k) \<Rightarrow> (Inr (), at_page (epimone_page_set_custom_title (sy_env y) name) xi k a1)
                       | None \<Rightarrow>
                           (case blob_parse (sy_gv y) (gi_blob g) (gi_blob_len g) of
                              None \<Rightarrow> (Inl R_bad_layout, a1)
                            | Some b \<Rightarrow>
                                let text = gv_print_blob (sy_gv y)
                                      (BLOB_VERSION, bl_focused b, bl_title b, bl_tree b, ucast (bl_cols b),
                                       ucast (bl_rows b), (case name of Some n \<Rightarrow> n | None \<Rightarrow> []))
                                in case api_group_set api gid text w1 of
                                     (ok, w2) \<Rightarrow> (if ok then Inr () else Inl R_set_failed, a1\<lparr>ap_world := w2\<rparr>))))))"

section \<open>Startup\<close>

fun restore_groups :: "('d, 'w) system \<Rightarrow> u64 list \<Rightarrow> ('d, 'w) app \<Rightarrow> nat \<times> ('d, 'w) app" where
  "restore_groups y [] a = (0, a)"
| "restore_groups y (gid # gids) a =
     (case epimone_layout_restore_group y 0 gid a of (res, a1) \<Rightarrow>
      case restore_groups y gids a1 of (n, a2) \<Rightarrow> ((case res of Inr _ \<Rightarrow> n + 1 | Inl _ \<Rightarrow> n), a2))"

definition restore_window ::
  "('d, 'w) system \<Rightarrow> int \<times> int \<times> bool \<times> int \<times> u64 list \<Rightarrow> ('d, 'w) app \<Rightarrow> nat \<times> ('d, 'w) app" where
  "restore_window y winv a =
     (case winv of (width, height, maximized, active, gids) \<Rightarrow>
        let a1 = epimone_window_new a;
            a2 = (if 0 < width \<and> 0 < height then at_window (\<lambda>w. w\<lparr>wn_size := (width, height)\<rparr>) 0 a1 else a1)
        in case restore_groups y gids a2 of (restored, a3) \<Rightarrow>
             if restored = 0 then (0, a3\<lparr>ap_windows := tl (ap_windows a3)\<rparr>)
             else
               let a4 = epimone_window_set_active_tab y 0 (if active < int restored then active else 0) a3;
                   a5 = (if maximized then at_window (\<lambda>w. w\<lparr>wn_maximized := True\<rparr>) 0 a4 else a4)
               in (1, a5))"

fun restore_windows ::
  "('d, 'w) system \<Rightarrow> (int \<times> int \<times> bool \<times> int \<times> u64 list) list \<Rightarrow> ('d, 'w) app \<Rightarrow> nat \<times> ('d, 'w) app" where
  "restore_windows y [] a = (0, a)"
| "restore_windows y (x # xs) a =
     (case restore_window y x a of (m, a1) \<Rightarrow> case restore_windows y xs a1 of (n, a2) \<Rightarrow> (m + n, a2))"

definition restore_from_v2 :: "('d, 'w) system \<Rightarrow> layout2 \<Rightarrow> ('d, 'w) app \<Rightarrow> bool \<times> ('d, 'w) app" where
  "restore_from_v2 y saved a =
     (let was_restoring = ly_restoring (ap_layout a);
          a1 = set_layout (\<lambda>l. l\<lparr>ly_restoring := True\<rparr>) a
      in case restore_windows y (snd saved) a1 of (created, a2) \<Rightarrow>
           let a3 = set_layout (\<lambda>l. l\<lparr>ly_restoring := was_restoring\<rparr>) a2
           in (0 < created, if 0 < created then set_layout epimone_layout_schedule_save a3 else a3))"

text \<open>
  The migration of a version 1 file. The pages of a window that survive, and the focused session of
  the active tab if that survives.
\<close>

fun restore_tabs_v1 ::
  "('d, 'w) system \<Rightarrow> u32 set \<Rightarrow> (u32 \<rightharpoonup> u32) option \<Rightarrow> int \<Rightarrow> (u64 \<times> 'd gnode) list \<Rightarrow> int \<Rightarrow> nat \<times> 'w \<Rightarrow>
   'd page list \<times> u64 \<times> nat \<times> 'w" where
  "restore_tabs_v1 y alive sgmap active [] tab_index st = ([], 0, st)"
| "restore_tabs_v1 y alive sgmap active ((focused, node) # tabs) tab_index st =
     (case build_node (sy_api y) alive node st of
        (None, st1) \<Rightarrow> restore_tabs_v1 y alive sgmap active tabs (tab_index + 1) st1
      | (Some t, st1) \<Rightarrow>
          let p = (adopt_existing_group sgmap t
                     (epimone_page_set_tree_root (sy_env y) t epimone_page_new_empty))\<lparr>pg_calls := []\<rparr>
          in case restore_tabs_v1 y alive sgmap active tabs (tab_index + 1) st1 of
               (ps, af, st2) \<Rightarrow> (p # ps, if tab_index = active then focused else af, st2))"

definition restore_window_v1 ::
  "('d, 'w) system \<Rightarrow> u32 set \<Rightarrow> (u32 \<rightharpoonup> u32) option \<Rightarrow> int \<times> (u64 \<times> 'd gnode) list \<Rightarrow> ('d, 'w) app \<Rightarrow>
   nat \<times> ('d, 'w) app" where
  "restore_window_v1 y alive sgmap winv a =
     (case winv of (active, tabs) \<Rightarrow>
      case restore_tabs_v1 y alive sgmap active tabs 0 (ap_next a, ap_world a) of (pages, active_focus, nxt, w) \<Rightarrow>
        let a1 = a\<lparr>ap_next := nxt, ap_world := w\<rparr> in
        if pages = [] then (0, a1)
        else
          let a2 = fold (epimone_window_adopt_page y 0) pages (epimone_window_new a1);
              a3 = epimone_window_set_active_tab y 0 (if active < int (length pages) then active else 0) a2
          in (1, at_window (\<lambda>w. w\<lparr>wn_ticks := [new_tick active_focus]\<rparr>) 0 a3))"

fun restore_windows_v1 ::
  "('d, 'w) system \<Rightarrow> u32 set \<Rightarrow> (u32 \<rightharpoonup> u32) option \<Rightarrow> (int \<times> (u64 \<times> 'd gnode) list) list \<Rightarrow> ('d, 'w) app \<Rightarrow>
   nat \<times> ('d, 'w) app" where
  "restore_windows_v1 y alive sgmap [] a = (0, a)"
| "restore_windows_v1 y alive sgmap (x # xs) a =
     (case restore_window_v1 y alive sgmap x a of (m, a1) \<Rightarrow>
      case restore_windows_v1 y alive sgmap xs a1 of (n, a2) \<Rightarrow> (m + n, a2))"

definition restore_from_v1 :: "('d, 'w) system \<Rightarrow> 'd layout1 \<Rightarrow> ('d, 'w) app \<Rightarrow> bool \<times> ('d, 'w) app" where
  "restore_from_v1 y saved a =
     (case build_alive_set (sy_api y) (ap_world a) of
        (None, w) \<Rightarrow> (False, a\<lparr>ap_world := w\<rparr>)
      | (Some alive, w) \<Rightarrow>
          (case build_session_group_map (sy_api y) w of (sgmap, w1) \<Rightarrow>
             let a1 = set_layout (\<lambda>l. l\<lparr>ly_restoring := True\<rparr>) (a\<lparr>ap_world := w1\<rparr>) in
             case restore_windows_v1 y alive sgmap (snd saved) a1 of (created, a2) \<Rightarrow>
               let a3 = set_layout (\<lambda>l. l\<lparr>ly_restoring := False\<rparr>) a2
               in (0 < created, if 0 < created then set_layout epimone_layout_schedule_save a3 else a3)))"

definition epimone_layout_restore :: "('d, 'w) system \<Rightarrow> ('d, 'w) app \<Rightarrow> bool \<times> ('d, 'w) app" where
  "epimone_layout_restore y a =
     (case ap_layout_file a of
        None \<Rightarrow> (False, a)
      | Some text \<Rightarrow>
          (case gv_parse_layout2 (sy_gv y) text of
             Some saved \<Rightarrow> restore_from_v2 y saved a
           | None \<Rightarrow>
               (case gv_parse_layout1 (sy_gv y) text of
                  Some saved \<Rightarrow> restore_from_v1 y saved a
                | None \<Rightarrow> (False, a))))"

end
