(* ===== verification/Layout_Tree.thy ===== *)
theory Layout_Tree
  imports Restore Page_Tree
begin

text \<open>
  The arrangement of a tab as a mathematical object: its panes, the directions and ratios of its
  splits. What is restored and what is drawn are this object, with the missing panes pruned.
\<close>

section \<open>Shapes\<close>

datatype 'd shape = Sh_leaf u64 | Sh_split orientation 'd "'d shape" "'d shape"

fun join :: "orientation \<Rightarrow> 'd \<Rightarrow> 'd shape option \<Rightarrow> 'd shape option \<Rightarrow> 'd shape option" where
  "join d r None b = b"
| "join d r a None = a"
| "join d r (Some a) (Some b) = Some (Sh_split d r a b)"

lemma join_None [simp]: "join d r a None = a"
  by (cases a) auto

definition tag_orient :: "byte list \<Rightarrow> orientation" where
  "tag_orient t = (if horizontal_tag t then Horizontal else Vertical)"

fun pruned :: "(u64 \<Rightarrow> bool) \<Rightarrow> 'd gnode \<Rightarrow> 'd shape option" where
  "pruned keep (G_leaf tag s) = (if keep s then Some (Sh_leaf s) else None)"
| "pruned keep (G_split tag orient r a b) = join (tag_orient orient) r (pruned keep a) (pruned keep b)"
| "pruned keep G_other = None"

fun shape_sessions :: "'d shape \<Rightarrow> u64 list" where
  "shape_sessions (Sh_leaf s) = [s]"
| "shape_sessions (Sh_split d r a b) = shape_sessions a @ shape_sessions b"

text \<open>The shape of a tree that has just been rebuilt: its ratios are those left on it.\<close>

fun rebuilt :: "'d tree \<Rightarrow> 'd shape option" where
  "rebuilt (Leaf x s) = Some (Sh_leaf s)"
| "rebuilt (Paned p l r) =
     (case pn_ratio p of
        None \<Rightarrow> None
      | Some q \<Rightarrow> (case (rebuilt l, rebuilt r) of (Some a, Some b) \<Rightarrow> Some (Sh_split (pn_orient p) q a b) | _ \<Rightarrow> None))"

text \<open>The shape of a live tree, with some panes left out.\<close>

fun tree_shape :: "'d fp \<Rightarrow> 'd page_env \<Rightarrow> (u64 \<Rightarrow> bool) \<Rightarrow> 'd tree \<Rightarrow> 'd shape option" where
  "tree_shape f e keep (Leaf x s) = (if keep s then Some (Sh_leaf s) else None)"
| "tree_shape f e keep (Paned p l r) =
     join (pn_orient p) (node_ratio f (pn_pos p) (pane_dim e p)) (tree_shape f e keep l) (tree_shape f e keep r)"

lemma horizontal_tags [simp]: "horizontal_tag (lit ''h'')" "\<not> horizontal_tag (lit ''v'')"
  by (simp_all add: horizontal_tag_def lit_def)

lemma pruned_saved: "pruned keep (node_to_variant f e t) = tree_shape f e keep t"
  by (induction t) (auto simp: tag_orient_def, metis orientation.exhaust)

lemma collect_sessions: "collect_session_ids t = filter (\<lambda>s. s \<noteq> 0) (map snd (leaves t))"
  by (induction t) auto

lemma rebuilt_sessions: "rebuilt t = Some sh \<Longrightarrow> shape_sessions sh = map snd (leaves t)"
  by (induction t arbitrary: sh) (auto split: option.splits)

section \<open>Rebuilding\<close>

text \<open>When the sessions kept are exactly those that can be attached, the rest is pruned.\<close>

definition attaches :: "'w client_api \<Rightarrow> (u64 \<Rightarrow> bool) \<Rightarrow> bool" where
  "attaches api can \<longleftrightarrow> (\<forall>s w. fst (api_attach_session api s w) = can s) \<and> (\<forall>w. fst (api_bridge api w))"

definition kept :: "u32 set \<Rightarrow> (u64 \<Rightarrow> bool) \<Rightarrow> u64 \<Rightarrow> bool" where
  "kept alive can s = (s \<noteq> 0 \<and> ucast s \<in> alive \<and> can s)"

lemma create_terminal_kept:
  assumes "attaches api can"
  shows "\<exists>m w'. epimone_page_create_terminal_for_session api s (n, w) =
     (if can s then Some (Leaf n s) else None, m, w') \<and> n \<le> m \<and> (can s \<longrightarrow> m = n + 1)"
proof -
  obtain r w1 where a: "api_attach_session api s w = (r, w1)" by (cases "api_attach_session api s w")
  have r: "r = can s" using assms a by (metis attaches_def fst_conv)
  obtain b w2 where b: "api_bridge api w1 = (b, w2)" by (cases "api_bridge api w1")
  have "b" using assms b by (metis attaches_def fst_conv)
  then show ?thesis using a b r by (auto simp: epimone_page_create_terminal_for_session_def split: bool.splits)
qed

lemma build_node_result:
  assumes "attaches api can"
  shows "\<exists>r m w'. build_node api alive node (n, w) = (r, m, w') \<and> n \<le> m \<and>
     (case r of None \<Rightarrow> pruned (kept alive can) node = None
      | Some t \<Rightarrow> rebuilt t = pruned (kept alive can) node \<and> pruned (kept alive can) node \<noteq> None \<and>
          distinct (node_refs t) \<and> set (node_refs t) \<subseteq> {n..<m})"
proof (induction node arbitrary: n w)
  case (G_leaf tag s)
  show ?case
  proof (cases "s \<noteq> 0 \<and> ucast s \<in> alive")
    case True
    then show ?thesis using create_terminal_kept [OF assms, of s n w]
      by (cases "can s") (force simp: kept_def)+
  qed (auto simp: kept_def)
next
  case (G_split tag orient q a b)
  obtain ra m w1 where a: "build_node api alive a (n, w) = (ra, m, w1)" "n \<le> m"
    "case ra of None \<Rightarrow> pruned (kept alive can) a = None
     | Some t \<Rightarrow> rebuilt t = pruned (kept alive can) a \<and> pruned (kept alive can) a \<noteq> None \<and>
          distinct (node_refs t) \<and> set (node_refs t) \<subseteq> {n..<m}" using G_split.IH(1) by blast
  obtain rb k w2 where b: "build_node api alive b (m, w1) = (rb, k, w2)" "m \<le> k"
    "case rb of None \<Rightarrow> pruned (kept alive can) b = None
     | Some t \<Rightarrow> rebuilt t = pruned (kept alive can) b \<and> pruned (kept alive can) b \<noteq> None \<and>
          distinct (node_refs t) \<and> set (node_refs t) \<subseteq> {m..<k}" using G_split.IH(2) by blast
  show ?case
  proof (cases ra)
    case None
    then show ?thesis using a b by (cases rb) auto
  next
    case ra: (Some ta)
    show ?thesis
    proof (cases rb)
      case None
      then show ?thesis using a b ra by (auto dest: subsetD)
    next
      case (Some tb)
      have disj: "set (node_refs ta) \<inter> set (node_refs tb) = {}"
        using a(3) b(3) ra Some by (fastforce dest: subsetD)
      obtain sa sb where "pruned (kept alive can) a = Some sa" "pruned (kept alive can) b = Some sb"
        using a(3) b(3) ra Some by auto
      then show ?thesis using a b ra Some disj
        by (auto simp: tag_orient_def dest: subsetD)
    qed
  qed
next
  case G_other
  then show ?case by simp
qed

section \<open>Drawing\<close>

text \<open>The panes and dividers of a shape in a rectangle.\<close>

fun place :: "'d fp \<Rightarrow> 'd shape \<Rightarrow> 'd \<Rightarrow> 'd \<Rightarrow> 'd \<Rightarrow> 'd \<Rightarrow> 'd leaf_rect list \<times> 'd seam list" where
  "place f (Sh_leaf s) x y w h =
     ([\<lparr>lf_session = s, lf_x = x, lf_y = y, lf_w = w, lf_h = h, lf_cols = 0, lf_rows = 0\<rparr>], [])"
| "place f (Sh_split d r0 a b) x y w h =
     (let r = sane_ratio f r0 in
      if d = Horizontal then
        let c = fp_mul f w r in
        (case place f a x y c h of (la, sa) \<Rightarrow>
         case place f b (fp_add f x c) y (fp_sub f w c) h of (lb, sb) \<Rightarrow>
           (la @ lb, sa @ sb @ [\<lparr>sm_vertical = True, sm_x = fp_add f x c, sm_y = y, sm_w = fp_of_int f 0, sm_h = h\<rparr>]))
      else
        let c = fp_mul f h r in
        (case place f a x y w c of (la, sa) \<Rightarrow>
         case place f b x (fp_add f y c) w (fp_sub f h c) of (lb, sb) \<Rightarrow>
           (la @ lb, sa @ sb @ [\<lparr>sm_vertical = False, sm_x = x, sm_y = fp_add f y c, sm_w = w, sm_h = fp_of_int f 0\<rparr>])))"

lemma walk_node_geometry_place:
  "walk_node_geometry f node x y w h ls ss =
     (case pruned (\<lambda>s. s \<noteq> 0) node of
        None \<Rightarrow> (False, ls, ss)
      | Some sh \<Rightarrow> (True, ls @ fst (place f sh x y w h), ss @ snd (place f sh x y w h)))"
proof (induction node arbitrary: x y w h ls ss)
  case (G_split tag orient r a b)
  show ?case
    by (cases "pruned (\<lambda>s. s \<noteq> 0) a"; cases "pruned (\<lambda>s. s \<noteq> 0) b")
      (auto simp: G_split.IH Let_def tag_orient_def split: prod.split)
qed auto

lemma place_sessions: "map lf_session (fst (place f sh x y w h)) = shape_sessions sh"
  by (induction sh arbitrary: x y w h) (auto simp: Let_def split: prod.split if_splits, (metis fst_conv)+)

lemma place_seams: "length (snd (place f sh x y w h)) + 1 = length (fst (place f sh x y w h))"
proof (induction sh arbitrary: x y w h)
  case (Sh_split d r a b)
  show ?case
  proof (cases "d = Horizontal")
    case True
    let ?c = "fp_mul f w (sane_ratio f r)"
    show ?thesis using True Sh_split.IH(1) [of x y ?c h] Sh_split.IH(2) [of "fp_add f x ?c" y "fp_sub f w ?c" h]
      by (auto simp: Let_def split: prod.split)
  next
    case False
    let ?c = "fp_mul f h (sane_ratio f r)"
    show ?thesis using False Sh_split.IH(1) [of x y w ?c] Sh_split.IH(2) [of x "fp_add f y ?c" w "fp_sub f h ?c"]
      by (auto simp: Let_def split: prod.split)
  qed
qed simp

text \<open>In exact arithmetic the panes cover the rectangle, every point once.\<close>

definition covers :: "rat leaf_rect \<Rightarrow> rat \<Rightarrow> rat \<Rightarrow> bool" where
  "covers l px py = (lf_x l \<le> px \<and> px < lf_x l + lf_w l \<and> lf_y l \<le> py \<and> py < lf_y l + lf_h l)"

lemma sane_ratio_rat: "0 < sane_ratio rat_fp r" "sane_ratio rat_fp r < 1"
  by (auto simp: sane_ratio_def rat_fp_def)

lemma place_tiles:
  assumes "0 < w" "0 < h"
  shows "length (filter (\<lambda>l. covers l px py) (fst (place rat_fp sh x y w h))) =
     (if x \<le> px \<and> px < x + w \<and> y \<le> py \<and> py < y + h then 1 else 0)"
  using assms
proof (induction sh arbitrary: x y w h)
  case (Sh_leaf s)
  then show ?case by (simp add: covers_def)
next
  case (Sh_split d r a b)
  let ?q = "sane_ratio rat_fp r"
  have q: "0 < ?q" "?q < 1" by (rule sane_ratio_rat)+
  have ops: "fp_mul rat_fp = (*)" "fp_add rat_fp = (+)" "fp_sub rat_fp = (-)" by (simp_all add: rat_fp_def)
  show ?case
  proof (cases "d = Horizontal")
    case True
    define c where "c = w * ?q"
    have c: "0 < c" "c < w" using q Sh_split.prems by (auto simp: c_def)
    show ?thesis using Sh_split.IH(1) [of c h x y] Sh_split.IH(2) [of "w - c" h "x + c" y] c True Sh_split.prems
      by (auto simp: ops Let_def c_def [symmetric] split: prod.split)
  next
    case False
    define c where "c = h * ?q"
    have c: "0 < c" "c < h" using q Sh_split.prems by (auto simp: c_def)
    show ?thesis using Sh_split.IH(1) [of w c x y] Sh_split.IH(2) [of w "h - c" x "y + c"] c False Sh_split.prems
      by (auto simp: ops Let_def c_def [symmetric] split: prod.split)
  qed
qed

end
