(* ===== verification/Layout_Inv.thy ===== *)
theory Layout_Inv
  imports Layout_Tree
begin

text \<open>
  The debounced saves over the life of the application: what every event does to the flags and to
  the files.
\<close>

section \<open>What an operation leaves alone\<close>

definition sched_ok :: "layout_state \<Rightarrow> bool" where
  "sched_ok l \<longleftrightarrow> (ly_layout_dirty l \<longrightarrow> ly_groups_dirty l) \<and> (ly_groups_dirty l \<longleftrightarrow> ly_timer l) \<and>
     (ly_frozen l \<longrightarrow> \<not> ly_timer l)"

definition files :: "('d, 'w) app \<Rightarrow> byte list option \<times> byte list option" where
  "files a = (ap_layout_file a, ap_groups_file a)"

definition tame :: "layout_state \<Rightarrow> layout_state \<Rightarrow> bool" where
  "tame l m \<longleftrightarrow> (sched_ok l \<longrightarrow> sched_ok m) \<and> ly_frozen m = ly_frozen l"

definition calm :: "('d, 'w) app \<Rightarrow> ('d, 'w) app \<Rightarrow> bool" where
  "calm a b \<longleftrightarrow> tame (ap_layout a) (ap_layout b) \<and> files b = files a"

definition mute :: "('d, 'w) app \<Rightarrow> ('d, 'w) app \<Rightarrow> bool" where
  "mute a b \<longleftrightarrow> calm a b \<and> ly_restoring (ap_layout b) = ly_restoring (ap_layout a)"

lemma tame_refl [simp, intro]: "tame l l" by (simp add: tame_def)
lemma tame_trans: "tame l m \<Longrightarrow> tame m n \<Longrightarrow> tame l n" by (simp add: tame_def)
lemma calm_refl [simp, intro]: "calm a a" by (simp add: calm_def)
lemma calm_trans [trans]: "calm a b \<Longrightarrow> calm b c \<Longrightarrow> calm a c" by (auto simp: calm_def intro: tame_trans)
lemma mute_refl [simp, intro]: "mute a a" by (simp add: mute_def)
lemma mute_trans [trans]: "mute a b \<Longrightarrow> mute b c \<Longrightarrow> mute a c" by (auto simp: mute_def intro: calm_trans)
lemma mute_calm: "mute a b \<Longrightarrow> calm a b" by (simp add: mute_def)

lemma schedule_save_tame [simp]: "tame l (epimone_layout_schedule_save l)"
  by (auto simp: tame_def sched_ok_def epimone_layout_schedule_save_def arm_save_def)

lemma schedule_group_save_tame [simp]: "tame l (epimone_layout_schedule_group_save l)"
  by (auto simp: tame_def sched_ok_def epimone_layout_schedule_group_save_def arm_save_def)

lemma schedule_restoring [simp]:
  "ly_restoring (epimone_layout_schedule_save l) = ly_restoring l"
  "ly_restoring (epimone_layout_schedule_group_save l) = ly_restoring l"
  by (simp_all add: epimone_layout_schedule_save_def epimone_layout_schedule_group_save_def arm_save_def)

lemma layout_call_tame [simp]: "tame l (layout_call c l)" "ly_restoring (layout_call c l) = ly_restoring l"
  by (cases c; simp)+

lemma layout_calls_tame: "tame l (fold layout_call cs l)" "ly_restoring (fold layout_call cs l) = ly_restoring l"
proof -
  have "tame l (fold layout_call cs l) \<and> ly_restoring (fold layout_call cs l) = ly_restoring l"
  proof (induction cs arbitrary: l)
    case (Cons c cs)
    then show ?case using tame_trans [OF layout_call_tame(1) [of l c]] by simp
  qed simp
  then show "tame l (fold layout_call cs l)" "ly_restoring (fold layout_call cs l) = ly_restoring l" by auto
qed

named_theorems quiet_ops

lemma set_layout_mute [quiet_ops]: "(\<And>l. tame l (h l) \<and> ly_restoring (h l) = ly_restoring l) \<Longrightarrow> mute a (set_layout h a)"
  by (simp add: mute_def calm_def set_layout_def files_def)

lemma at_page_mute [quiet_ops]: "mute a (at_page h wi k a)"
  by (simp add: at_page_def on_page_def Let_def mute_def calm_def files_def layout_calls_tame)

lemma at_window_mute [quiet_ops]: "mute a (at_window h wi a)"
  by (simp add: at_window_def mute_def calm_def files_def)

lemma world_mute [quiet_ops]:
  "mute a (a\<lparr>ap_world := w\<rparr>)" "mute a (a\<lparr>ap_windows := ws\<rparr>)" "mute a (a\<lparr>ap_next := n, ap_world := w\<rparr>)"
  by (simp_all add: mute_def calm_def files_def)

lemma window_new_mute [quiet_ops]: "mute a (epimone_window_new a)"
  by (simp add: epimone_window_new_def mute_def calm_def files_def)

lemma focus_current_mute [quiet_ops]: "mute a (epimone_window_focus_current_terminal y wi a)"
  by (simp add: epimone_window_focus_current_terminal_def at_page_mute split: option.split)

lemma notify_selected_mute [quiet_ops]: "mute a (epimone_window_notify_selected y wi a)"
  unfolding epimone_window_notify_selected_def
  by (rule mute_trans [OF focus_current_mute set_layout_mute]) simp

lemma set_selected_mute [quiet_ops]: "mute a (set_selected_page y wi i a)"
  unfolding set_selected_page_def
  by (simp, intro impI, rule mute_trans [OF at_window_mute notify_selected_mute])

lemma adopt_page_mute [quiet_ops]: "mute a (epimone_window_adopt_page y wi p a)"
proof -
  have "mute a (set_layout epimone_layout_schedule_save (at_window h wi a))" for h
    by (rule mute_trans [OF at_window_mute set_layout_mute]) simp
  then show ?thesis unfolding epimone_window_adopt_page_def Let_def
    by (auto intro: mute_trans [OF _ set_selected_mute])
qed

lemma select_index_mute [quiet_ops]: "mute a (epimone_window_select_index y wi i a)"
  unfolding epimone_window_select_index_def by (rule mute_trans [OF set_selected_mute at_page_mute])

lemma adopt_and_select_mute [quiet_ops]: "mute a (epimone_window_adopt_and_select_page y wi p a)"
  unfolding epimone_window_adopt_and_select_page_def Let_def
  by (auto intro: mute_trans [OF adopt_page_mute select_index_mute] adopt_page_mute)

lemma set_active_mute [quiet_ops]: "mute a (epimone_window_set_active_tab y wi i a)"
  by (simp add: epimone_window_set_active_tab_def Let_def set_selected_mute)

lemma restoring_calm: "calm a (set_layout (\<lambda>l. l\<lparr>ly_restoring := b\<rparr>) a)"
  by (auto simp: calm_def tame_def sched_ok_def set_layout_def files_def)

lemma schedule_mute [quiet_ops]: "mute a (set_layout epimone_layout_schedule_save a)"
  by (rule set_layout_mute) simp

section \<open>Restoring\<close>

text \<open>A restore keeps the flag that suppresses saves if it was clear; it can clear it.\<close>

definition lull :: "('d, 'w) app \<Rightarrow> ('d, 'w) app \<Rightarrow> bool" where
  "lull a b \<longleftrightarrow> calm a b \<and> (\<not> ly_restoring (ap_layout a) \<longrightarrow> \<not> ly_restoring (ap_layout b))"

lemma lull_trans [trans]: "lull a b \<Longrightarrow> lull b c \<Longrightarrow> lull a c"
  by (auto simp: lull_def intro: calm_trans)

lemma mute_lull: "mute a b \<Longrightarrow> lull a b"
  by (simp add: mute_def lull_def)

lemma lull_refl [simp, intro]: "lull a a" by (simp add: lull_def)

lemma build_tab_lull: "lull a (snd (build_tab y wi gid b alive a))"
proof -
  let ?on = "set_layout (\<lambda>l. l\<lparr>ly_restoring := True\<rparr>) a"
  obtain r n w where r: "build_node (sy_api y) alive (bl_tree b) (ap_next ?on, ap_world ?on) = (r, n, w)"
    by (cases "build_node (sy_api y) alive (bl_tree b) (ap_next ?on, ap_world ?on)")
  let ?a1 = "?on\<lparr>ap_next := n, ap_world := w\<rparr>"
  have start: "calm a ?a1" by (rule calm_trans [OF restoring_calm mute_calm [OF world_mute(3)]])
  show ?thesis
  proof (cases r)
    case None
    have "calm a (set_layout (\<lambda>l. l\<lparr>ly_restoring := False\<rparr>) ?a1)" by (rule calm_trans [OF start restoring_calm])
    then show ?thesis using r None by (simp add: build_tab_def Let_def lull_def) (simp add: set_layout_def)
  next
    case (Some t)
    let ?a2 = "epimone_window_adopt_and_select_page y wi (restored_page (sy_env y) gid b t) ?a1"
    let ?a3 = "set_layout (\<lambda>l. l\<lparr>ly_restoring := ly_restoring (ap_layout a)\<rparr>) ?a2"
    have "calm a ?a3"
      by (rule calm_trans [OF start calm_trans [OF mute_calm [OF adopt_and_select_mute] restoring_calm]])
    then have "lull a ?a3" by (simp add: lull_def set_layout_def)
    then show ?thesis using r Some
      by (auto simp: build_tab_def Let_def intro: lull_trans [OF _ mute_lull [OF schedule_mute]])
  qed
qed

lemma restore_group_lull: "lull a (snd (epimone_layout_restore_group y wi gid a))"
proof -
  have w: "lull a (a\<lparr>ap_world := w\<rparr>)" for w by (rule mute_lull [OF world_mute(1)])
  show ?thesis
    unfolding epimone_layout_restore_group_def Let_def
    by (auto split: option.splits prod.splits simp: w
        intro: lull_trans [OF w build_tab_lull] lull_trans [OF w mute_lull [OF select_index_mute]])
qed

lemma rename_group_lull: "lull a (snd (epimone_layout_rename_group y gid name a))"
proof -
  have w: "lull a (a\<lparr>ap_world := w\<rparr>)" for w by (rule mute_lull [OF world_mute(1)])
  show ?thesis
    unfolding epimone_layout_rename_group_def Let_def
    by (auto split: option.splits prod.splits simp: w
        intro: lull_trans [OF w mute_lull [OF at_page_mute]])
qed

lemma restore_groups_lull: "lull a (snd (restore_groups y gids a))"
proof (induction gids arbitrary: a)
  case (Cons gid gids)
  then show ?case using lull_trans [OF restore_group_lull [of a y 0 gid]]
    by (auto split: prod.split sum.split) (metis snd_conv)+
qed simp

lemma restore_window_lull: "lull a (snd (restore_window y x a))"
proof -
  obtain width height mx active gids where x: "x = (width, height, mx, active, gids)" by (cases x)
  let ?a2 = "if 0 < width \<and> 0 < height then at_window (\<lambda>w. w\<lparr>wn_size := (width, height)\<rparr>) 0 (epimone_window_new a)
     else epimone_window_new a"
  have "mute a ?a2" using mute_trans [OF window_new_mute at_window_mute] window_new_mute by auto
  then have a3: "lull a (snd (restore_groups y gids ?a2))" by (rule lull_trans [OF mute_lull restore_groups_lull])
  obtain n a3' where r: "restore_groups y gids ?a2 = (n, a3')" by (cases "restore_groups y gids ?a2")
  have "lull a3' (a3'\<lparr>ap_windows := tl (ap_windows a3')\<rparr>)" by (rule mute_lull [OF world_mute(2)])
  moreover have "lull a3' (epimone_window_set_active_tab y 0 i a3')" for i by (rule mute_lull [OF set_active_mute])
  moreover have "lull a3' (at_window h 0 (epimone_window_set_active_tab y 0 i a3'))" for i h
    by (rule mute_lull [OF mute_trans [OF set_active_mute at_window_mute]])
  ultimately show ?thesis using a3 r unfolding x restore_window_def
    by (auto simp: Let_def r intro: lull_trans [OF a3 [unfolded r snd_conv]])
qed

lemma restore_windows_lull: "lull a (snd (restore_windows y xs a))"
proof (induction xs arbitrary: a)
  case (Cons x xs)
  then show ?case using lull_trans [OF restore_window_lull [of a y x]]
    by (auto split: prod.split) (metis snd_conv)
qed simp

lemma restore_v2_lull: "lull a (snd (restore_from_v2 y saved a))"
proof -
  let ?on = "set_layout (\<lambda>l. l\<lparr>ly_restoring := True\<rparr>) a"
  obtain n a2 where r: "restore_windows y (snd saved) ?on = (n, a2)" by (cases "restore_windows y (snd saved) ?on")
  let ?a3 = "set_layout (\<lambda>l. l\<lparr>ly_restoring := ly_restoring (ap_layout a)\<rparr>) a2"
  have "calm ?on a2" using restore_windows_lull [of ?on y "snd saved"] by (simp add: r lull_def)
  then have "calm a ?a3" by (rule calm_trans [OF restoring_calm calm_trans [OF _ restoring_calm]])
  then have "lull a ?a3" by (simp add: lull_def set_layout_def)
  then show ?thesis using r
    by (auto simp: restore_from_v2_def Let_def intro: lull_trans [OF _ mute_lull [OF schedule_mute]])
qed

lemma adopt_pages_mute: "mute a (fold (epimone_window_adopt_page y 0) ps a)"
  by (induction ps arbitrary: a) (auto intro: mute_trans [OF adopt_page_mute])

lemma restore_window_v1_mute: "mute a (snd (restore_window_v1 y alive m x a))"
proof -
  obtain active tabs where x: "x = (active, tabs)" by (cases x)
  obtain ps af n w where r: "restore_tabs_v1 y alive m active tabs 0 (ap_next a, ap_world a) = (ps, af, n, w)"
    by (cases "restore_tabs_v1 y alive m active tabs 0 (ap_next a, ap_world a)")
  have "mute a (at_window h 0 (epimone_window_set_active_tab y 0 i
     (fold (epimone_window_adopt_page y 0) ps (epimone_window_new (a\<lparr>ap_next := n, ap_world := w\<rparr>)))))" for h i
    by (rule mute_trans [OF world_mute(3)], rule mute_trans [OF window_new_mute], rule mute_trans [OF adopt_pages_mute],
        rule mute_trans [OF set_active_mute at_window_mute])
  then show ?thesis using r unfolding x by (auto simp: restore_window_v1_def Let_def intro: world_mute(3))
qed

lemma restore_windows_v1_mute: "mute a (snd (restore_windows_v1 y alive m xs a))"
proof (induction xs arbitrary: a)
  case (Cons x xs)
  then show ?case using mute_trans [OF restore_window_v1_mute [of a y alive m x]]
    by (auto split: prod.split) (metis snd_conv)
qed simp

lemma restore_v1_lull: "lull a (snd (restore_from_v1 y saved a))"
proof -
  obtain al w where al: "build_alive_set (sy_api y) (ap_world a) = (al, w)"
    by (cases "build_alive_set (sy_api y) (ap_world a)")
  show ?thesis
  proof (cases al)
    case None
    then show ?thesis using al mute_lull [OF world_mute(1)] by (simp add: restore_from_v1_def)
  next
    case (Some alive)
    obtain m w1 where m: "build_session_group_map (sy_api y) w = (m, w1)"
      by (cases "build_session_group_map (sy_api y) w")
    let ?on = "set_layout (\<lambda>l. l\<lparr>ly_restoring := True\<rparr>) (a\<lparr>ap_world := w1\<rparr>)"
    obtain n a2 where r: "restore_windows_v1 y alive m (snd saved) ?on = (n, a2)"
      by (cases "restore_windows_v1 y alive m (snd saved) ?on")
    have "calm ?on a2" using mute_calm [OF restore_windows_v1_mute [of ?on y alive m "snd saved"]] by (simp add: r)
    then have "calm a (set_layout (\<lambda>l. l\<lparr>ly_restoring := False\<rparr>) a2)"
      by (intro calm_trans [OF mute_calm [OF world_mute(1)] calm_trans [OF restoring_calm calm_trans [OF _ restoring_calm]]])
    then have "lull a (set_layout (\<lambda>l. l\<lparr>ly_restoring := False\<rparr>) a2)" by (simp add: lull_def set_layout_def)
    then show ?thesis using al Some m r
      by (auto simp: restore_from_v1_def Let_def intro: lull_trans [OF _ mute_lull [OF schedule_mute]])
  qed
qed

lemma layout_restore_lull: "lull a (snd (epimone_layout_restore y a))"
  by (simp add: epimone_layout_restore_def restore_v1_lull restore_v2_lull split: option.split)

end
