(* ===== verification/Machines.thy ===== *)
theory Machines
  imports Prelude
begin

text \<open>
  State machines: what one step keeps, any run keeps. The parts of the GUI are machines whose steps are the
  events that reach them; each interprets these locales with its own steps and its own invariant.
\<close>

locale machine =
  fixes step :: "'s \<Rightarrow> 's \<Rightarrow> bool" and inv :: "'s \<Rightarrow> bool"
  assumes keeps: "step s t \<Longrightarrow> inv s \<Longrightarrow> inv t"
begin

lemma reach: "step\<^sup>*\<^sup>* s t \<Longrightarrow> inv s \<Longrightarrow> inv t"
  by (induction rule: rtranclp_induct) (auto intro: keeps)

text \<open>A run of events of which only some are allowed, when those that happen are.\<close>

lemma reach_of: "step'\<^sup>*\<^sup>* s t \<Longrightarrow> (\<And>a b. step' a b \<Longrightarrow> step a b) \<Longrightarrow> inv s \<Longrightarrow> inv t"
  by (induction rule: rtranclp_induct) (auto intro: keeps)

end

text \<open>A machine that leaves a part of the state alone.\<close>

locale still_machine = machine +
  fixes part :: "'s \<Rightarrow> 'v"
  assumes still: "step s t \<Longrightarrow> inv s \<Longrightarrow> part t = part s"
begin

lemma reach_still: "step\<^sup>*\<^sup>* s t \<Longrightarrow> inv s \<Longrightarrow> part t = part s \<and> inv t"
proof (induction rule: rtranclp_induct)
  case (step t u)
  then show ?case using still keeps by simp
qed simp

end

end
