(* ===== verification/Layout_Events.thy ===== *)
theory Layout_Events
  imports Layout_Inv Machines
begin

text \<open>
  The application as a state machine: the events that reach the layout module, what holds in every
  reachable state, and what happens after a window has been closed.
\<close>

section \<open>Events\<close>

text \<open>
  A page operation with the saves it asks for; tabs or windows opened, closed or moved; a tab
  selected; a frame of a restored window; the timer, if it is armed; the entry points of the module.
  The surroundings may be different at every event.
\<close>

inductive gui_step :: "('d, 'w) app \<Rightarrow> ('d, 'w) app \<Rightarrow> bool" where
  gui_page: "gui_step a (at_page h wi k a)"
| gui_windows: "gui_step a (set_layout epimone_layout_schedule_save (a\<lparr>ap_windows := ws\<rparr>))"
| gui_select: "gui_step a (epimone_window_select_index y wi i a)"
| gui_tick: "gui_step a (snd (restore_tick_window y wi rt a))"
| gui_timer: "ly_timer (ap_layout a) \<Longrightarrow> gui_step a (save_timeout_cb y a)"
| gui_check: "gui_step a (epimone_layout_check_instance y a)"
| gui_restore: "gui_step a (snd (epimone_layout_restore y a))"
| gui_restore_group: "gui_step a (snd (epimone_layout_restore_group y wi gid a))"
| gui_rename: "gui_step a (snd (epimone_layout_rename_group y gid name a))"
| gui_shutdown: "gui_step a (epimone_layout_begin_shutdown y a)"

definition layout_start :: layout_state where
  "layout_start = \<lparr>ly_restoring = False, ly_frozen = False, ly_timer = False, ly_layout_dirty = False,
     ly_groups_dirty = False, ly_session_instance = 0, ly_recorded_instance = 0, ly_instance_checked = False\<rparr>"

section \<open>Saving\<close>

lemma set_layout_fields [simp]:
  "ap_windows (set_layout h a) = ap_windows a" "ap_layout (set_layout h a) = h (ap_layout a)"
  "ap_world (set_layout h a) = ap_world a" "ap_layout_file (set_layout h a) = ap_layout_file a"
  "ap_groups_file (set_layout h a) = ap_groups_file a" "ap_next (set_layout h a) = ap_next a"
  by (simp_all add: set_layout_def)

text \<open>What does not matter for scheduling: the recorded instance.\<close>

definition same_sched :: "layout_state \<Rightarrow> layout_state \<Rightarrow> bool" where
  "same_sched l m \<longleftrightarrow> ly_restoring m = ly_restoring l \<and> ly_frozen m = ly_frozen l \<and> ly_timer m = ly_timer l \<and>
     ly_layout_dirty m = ly_layout_dirty l \<and> ly_groups_dirty m = ly_groups_dirty l"

lemma same_schedD: "same_sched l m \<Longrightarrow> sched_ok m = sched_ok l"
  by (simp add: same_sched_def sched_ok_def)

lemma sync_groups_sched: "same_sched (ap_layout a) (ap_layout (sync_groups_now y a))"
  by (auto simp: sync_groups_now_def save_groups_state_def Let_def same_sched_def split: prod.split)

lemma sync_groups_layout_file [simp]: "ap_layout_file (sync_groups_now y a) = ap_layout_file a"
  by (auto simp: sync_groups_now_def save_groups_state_def Let_def split: prod.split)

lemma save_now_fields [simp]:
  "ap_layout (epimone_layout_save_now y a) = ap_layout a" "ap_windows (epimone_layout_save_now y a) = ap_windows a"
  "ap_world (epimone_layout_save_now y a) = ap_world a"
  "ap_groups_file (epimone_layout_save_now y a) = ap_groups_file a"
  by (simp_all add: epimone_layout_save_now_def Let_def)

lemma save_now_file: "sy_writable y \<Longrightarrow> ap_windows a \<noteq> [] \<Longrightarrow> ap_layout_file (epimone_layout_save_now y a) =
   Some (gv_print_layout (sy_gv y) (LAYOUT_VERSION, map window_to_variant (ap_windows a)))"
  by (simp add: epimone_layout_save_now_def)

lemma save_timeout_sched:
  "\<not> ly_timer (ap_layout (save_timeout_cb y a))" "\<not> ly_layout_dirty (ap_layout (save_timeout_cb y a))"
  "\<not> ly_groups_dirty (ap_layout (save_timeout_cb y a))"
  "ly_frozen (ap_layout (save_timeout_cb y a)) = ly_frozen (ap_layout a)"
  "ly_restoring (ap_layout (save_timeout_cb y a)) = ly_restoring (ap_layout a)"
  using sync_groups_sched [of "a\<lparr>ap_layout := (ap_layout a)\<lparr>ly_timer := False, ly_layout_dirty := False, ly_groups_dirty := False\<rparr>\<rparr>" y]
  by (auto simp: save_timeout_cb_def Let_def same_sched_def)

lemma save_timeout_file:
  assumes "ly_layout_dirty (ap_layout a)" "sy_writable y" "ap_windows (save_timeout_cb y a) \<noteq> []"
  shows "ap_layout_file (save_timeout_cb y a) =
     Some (gv_print_layout (sy_gv y) (LAYOUT_VERSION, map window_to_variant (ap_windows (save_timeout_cb y a))))"
  using assms by (auto simp: save_timeout_cb_def Let_def save_now_file)

lemma shutdown_sched:
  assumes "\<not> ly_frozen (ap_layout a)"
  shows "ly_frozen (ap_layout (epimone_layout_begin_shutdown y a))" "\<not> ly_timer (ap_layout (epimone_layout_begin_shutdown y a))"
    "sched_ok (ap_layout (epimone_layout_begin_shutdown y a))"
    "ly_restoring (ap_layout (epimone_layout_begin_shutdown y a)) = ly_restoring (ap_layout a)"
  using assms sync_groups_sched [of "set_layout (\<lambda>l. l\<lparr>ly_timer := False\<rparr>) a" y]
  by (auto simp: epimone_layout_begin_shutdown_def Let_def same_sched_def sched_ok_def)

lemma shutdown_file:
  assumes "\<not> ly_frozen (ap_layout a)" "sy_writable y" "ap_windows (epimone_layout_begin_shutdown y a) \<noteq> []"
  shows "ap_layout_file (epimone_layout_begin_shutdown y a) = Some (gv_print_layout (sy_gv y)
     (LAYOUT_VERSION, map window_to_variant (ap_windows (epimone_layout_begin_shutdown y a))))"
  using assms by (simp add: epimone_layout_begin_shutdown_def Let_def save_now_file)

lemma check_instance_sched: "same_sched (ap_layout a) (ap_layout (epimone_layout_check_instance y a))"
  "files (epimone_layout_check_instance y a) = files a"
  by (auto simp: epimone_layout_check_instance_def Let_def same_sched_def files_def split: prod.split option.split)

lemma at_pages_mute: "mute a (fold (at_page h wi) ks a)"
  by (induction ks arbitrary: a) (auto intro: mute_trans [OF at_page_mute])

lemma tick_window_mute: "mute a (snd (restore_tick_window y wi rt a))"
proof -
  have "mute a (at_page h wi i (fold (at_page g wi) ks a))" for h i g ks
    by (rule mute_trans [OF at_pages_mute at_page_mute])
  then show ?thesis by (auto simp: restore_tick_window_def Let_def at_pages_mute split: option.split)
qed

section \<open>Every event\<close>

text \<open>An event that is neither the timer nor a shutdown writes nothing and keeps the flags in order.\<close>

lemma quiet_step:
  assumes "gui_step a b" "ly_frozen (ap_layout a)" "sched_ok (ap_layout a)"
  shows "files b = files a \<and> ly_frozen (ap_layout b) \<and> sched_ok (ap_layout b)"
proof -
  have lull: "lull a c \<Longrightarrow> files c = files a \<and> ly_frozen (ap_layout c) \<and> sched_ok (ap_layout c)" for c :: "('a, 'b) app"
    using assms(2, 3) by (auto simp: lull_def calm_def tame_def)
  show ?thesis using assms(1)
  proof cases
    case (gui_page h wi k)
    then show ?thesis using lull [OF mute_lull [OF at_page_mute]] by simp
  next
    case (gui_windows ws)
    then show ?thesis using lull [OF mute_lull [OF mute_trans [OF world_mute(2) schedule_mute]]] by simp
  next
    case (gui_select y wi i)
    then show ?thesis using lull [OF mute_lull [OF select_index_mute]] by simp
  next
    case (gui_tick y wi rt)
    then show ?thesis using lull [OF mute_lull [OF tick_window_mute]] by simp
  next
    case (gui_timer y)
    then show ?thesis using assms(2, 3) by (simp add: sched_ok_def)
  next
    case (gui_check y)
    then show ?thesis using assms(2, 3) check_instance_sched(1) [of a y] check_instance_sched(2) [of y a] same_schedD [OF check_instance_sched(1) [of a y]]
      by (simp add: same_sched_def)
  next
    case (gui_restore y)
    then show ?thesis using lull [OF layout_restore_lull] by simp
  next
    case (gui_restore_group y wi gid)
    then show ?thesis using lull [OF restore_group_lull] by simp
  next
    case (gui_rename y gid name)
    then show ?thesis using lull [OF rename_group_lull] by simp
  next
    case (gui_shutdown y)
    then show ?thesis using assms(2, 3) by (simp add: epimone_layout_begin_shutdown_def)
  qed
qed

lemma step_inv:
  assumes "gui_step a b" "sched_ok (ap_layout a)" "\<not> ly_restoring (ap_layout a)"
  shows "sched_ok (ap_layout b) \<and> \<not> ly_restoring (ap_layout b)"
proof -
  have lull: "lull a c \<Longrightarrow> sched_ok (ap_layout c) \<and> \<not> ly_restoring (ap_layout c)" for c :: "('a, 'b) app"
    using assms(2, 3) by (auto simp: lull_def calm_def tame_def)
  show ?thesis using assms(1)
  proof cases
    case (gui_page h wi k)
    then show ?thesis using lull [OF mute_lull [OF at_page_mute]] by simp
  next
    case (gui_windows ws)
    then show ?thesis using lull [OF mute_lull [OF mute_trans [OF world_mute(2) schedule_mute]]] by simp
  next
    case (gui_select y wi i)
    then show ?thesis using lull [OF mute_lull [OF select_index_mute]] by simp
  next
    case (gui_tick y wi rt)
    then show ?thesis using lull [OF mute_lull [OF tick_window_mute]] by simp
  next
    case (gui_timer y)
    then show ?thesis using assms(3) save_timeout_sched [of y a] by (simp add: sched_ok_def)
  next
    case (gui_check y)
    then show ?thesis using assms(2, 3) check_instance_sched(1) [of a y] check_instance_sched(2) [of y a] same_schedD [OF check_instance_sched(1) [of a y]]
      by (simp add: same_sched_def)
  next
    case (gui_restore y)
    then show ?thesis using lull [OF layout_restore_lull] by simp
  next
    case (gui_restore_group y wi gid)
    then show ?thesis using lull [OF restore_group_lull] by simp
  next
    case (gui_rename y gid name)
    then show ?thesis using lull [OF rename_group_lull] by simp
  next
    case (gui_shutdown y)
    then show ?thesis using assms(2, 3) shutdown_sched [of a y]
      by (cases "ly_frozen (ap_layout a)") (auto simp: epimone_layout_begin_shutdown_def)
  qed
qed

interpretation saving: machine gui_step "\<lambda>a. sched_ok (ap_layout a) \<and> \<not> ly_restoring (ap_layout a)"
  by unfold_locales (use step_inv in blast)

lemma reach_inv:
  assumes "gui_step\<^sup>*\<^sup>* a0 a" "ap_layout a0 = layout_start"
  shows "sched_ok (ap_layout a) \<and> \<not> ly_restoring (ap_layout a)"
  by (rule saving.reach [OF assms(1)]) (simp add: assms(2) layout_start_def sched_ok_def)

interpretation frozen: still_machine gui_step "\<lambda>a. ly_frozen (ap_layout a) \<and> sched_ok (ap_layout a)" files
  by unfold_locales (use quiet_step in metis)+

lemma reach_frozen:
  assumes "gui_step\<^sup>*\<^sup>* a b" "ly_frozen (ap_layout a)" "sched_ok (ap_layout a)"
  shows "files b = files a \<and> ly_frozen (ap_layout b) \<and> sched_ok (ap_layout b)"
  using frozen.reach_still [OF assms(1)] assms(2, 3) by simp

end
