(* ===== verification/Layout_Restore.thy ===== *)
theory Layout_Restore
  imports Layout_Events
begin

text \<open>
  What a restore leaves on the screen: the tabs that were there, and the new one at the end of its
  window.
\<close>

section \<open>Tabs that keep their substance\<close>

definition same_core :: "'d page \<Rightarrow> 'd page \<Rightarrow> bool" where
  "same_core p q \<longleftrightarrow> pg_root q = pg_root p \<and> pg_group q = pg_group p \<and> pg_custom q = pg_custom p \<and>
     pg_enrolled q = pg_enrolled p \<and> pg_zoomed q = pg_zoomed p \<and> pg_hidden q = pg_hidden p \<and> pg_ticks q = pg_ticks p"

lemma same_core_refl [simp, intro]: "same_core p p" by (simp add: same_core_def)
lemma same_core_trans: "same_core p q \<Longrightarrow> same_core q r \<Longrightarrow> same_core p r" by (simp add: same_core_def)

definition same_tabs :: "('d, 'w) app \<Rightarrow> ('d, 'w) app \<Rightarrow> bool" where
  "same_tabs a b \<longleftrightarrow> list_all2 (\<lambda>v w. wn_ref w = wn_ref v \<and> list_all2 same_core (wn_pages v) (wn_pages w))
     (ap_windows a) (ap_windows b)"

lemma same_tabs_refl [simp, intro]: "same_tabs a a"
  by (simp add: same_tabs_def list_all2_same)

lemma same_tabs_trans [trans]: "same_tabs a b \<Longrightarrow> same_tabs b c \<Longrightarrow> same_tabs a c"
proof -
  assume ab: "same_tabs a b" and bc: "same_tabs b c"
  have pages: "list_all2 same_core ps qs \<Longrightarrow> list_all2 same_core qs rs \<Longrightarrow> list_all2 same_core ps rs"
    for ps qs rs :: "'a page list"
    by (rule list_all2_trans [of same_core same_core same_core]) (auto intro: same_core_trans)
  show "same_tabs a c" unfolding same_tabs_def
    by (rule list_all2_trans [OF _ ab [unfolded same_tabs_def] bc [unfolded same_tabs_def]])
      (auto intro: pages)
qed

lemma update_fields [simp]:
  "pg_enrolled (page_log c p) = pg_enrolled p" "pg_ticks (page_log c p) = pg_ticks p"
  "pg_enrolled (epimone_page_update_title e p) = pg_enrolled p" "pg_ticks (epimone_page_update_title e p) = pg_ticks p"
  "pg_enrolled (epimone_page_update_subtitle e p) = pg_enrolled p" "pg_ticks (epimone_page_update_subtitle e p) = pg_ticks p"
  "pg_enrolled (epimone_page_update_dimming e p) = pg_enrolled p" "pg_ticks (epimone_page_update_dimming e p) = pg_ticks p"
  by (simp_all add: page_log_def epimone_page_update_title_def epimone_page_update_subtitle_def
      epimone_page_update_dimming_def Let_def split: option.split)

lemma set_focused_core: "same_core p (epimone_page_set_focused e x p)"
  by (simp add: same_core_def epimone_page_set_focused_def Let_def)

lemma focus_terminal_core: "same_core p (epimone_page_focus_terminal e p)"
proof -
  have "same_core p (page_log c p)" for c by (simp add: same_core_def)
  then show ?thesis
    by (auto simp: epimone_page_focus_terminal_def intro: same_core_trans [OF _ set_focused_core] split: option.split)
qed

lemma on_page_core:
  assumes "\<And>p. same_core p (h p)"
  shows "same_core p (fst (on_page h p l))"
  using assms [of "p\<lparr>pg_calls := []\<rparr>"] by (simp add: on_page_def Let_def same_core_def)

lemma at_page_tabs:
  assumes "\<And>p. same_core p (h p)"
  shows "same_tabs a (at_page h wi k a)"
proof (cases "wi < length (ap_windows a) \<and> k < length (wn_pages (ap_windows a ! wi))")
  case True
  let ?w = "ap_windows a ! wi"
  obtain q l where q: "on_page h (wn_pages ?w ! k) (ap_layout a) = (q, l)"
    by (cases "on_page h (wn_pages ?w ! k) (ap_layout a)")
  have "same_core (wn_pages ?w ! k) q" using on_page_core [OF assms, of "wn_pages ?w ! k" "ap_layout a"] q by simp
  then have "list_all2 same_core (wn_pages ?w) ((wn_pages ?w)[k := q])"
    using True by (auto simp: list_all2_conv_all_nth nth_list_update)
  then show ?thesis using True q
    by (auto simp: at_page_def Let_def same_tabs_def list_all2_conv_all_nth nth_list_update)
qed (auto simp: at_page_def)

lemma at_window_tabs:
  assumes "\<And>w. wn_pages (h w) = wn_pages w \<and> wn_ref (h w) = wn_ref w"
  shows "same_tabs a (at_window h wi a)"
  using assms by (auto simp: at_window_def same_tabs_def list_all2_conv_all_nth nth_list_update)

lemma set_layout_tabs: "same_tabs a (set_layout h a)"
  by (simp add: same_tabs_def list_all2_same)

lemma set_selected_tabs: "same_tabs a (set_selected_page y wi i a)"
proof -
  have "same_tabs a (epimone_window_focus_current_terminal y wi a)" for a
    by (auto simp: epimone_window_focus_current_terminal_def at_page_tabs focus_terminal_core split: option.split)
  then have "same_tabs b (epimone_window_notify_selected y wi b)" for b
    unfolding epimone_window_notify_selected_def by (rule same_tabs_trans [OF _ set_layout_tabs])
  then have "same_tabs a (epimone_window_notify_selected y wi (at_window (\<lambda>w. w\<lparr>wn_selected := Some i\<rparr>) wi a))"
    by (rule same_tabs_trans [OF at_window_tabs, rotated]) simp
  then show ?thesis by (auto simp: set_selected_page_def)
qed

lemma select_index_tabs: "same_tabs a (epimone_window_select_index y wi i a)"
  unfolding epimone_window_select_index_def
  by (rule same_tabs_trans [OF set_selected_tabs at_page_tabs]) (rule focus_terminal_core)

text \<open>The new tab is the last of its window; every other tab is what it was.\<close>

definition with_tab :: "nat \<Rightarrow> 'd page \<Rightarrow> ('d, 'w) app \<Rightarrow> ('d, 'w) app" where
  "with_tab wi p a = at_window (\<lambda>w. w\<lparr>wn_pages := wn_pages w @ [p]\<rparr>) wi a"

lemma adopt_and_select_tabs:
  assumes "wi < length (ap_windows a)"
  shows "same_tabs (with_tab wi p a) (epimone_window_adopt_and_select_page y wi p a)"
proof -
  have "same_tabs (with_tab wi p a) (epimone_window_adopt_page y wi p a)"
    using assms unfolding epimone_window_adopt_page_def Let_def with_tab_def
    by (auto intro: same_tabs_trans [OF set_layout_tabs set_selected_tabs] set_layout_tabs)
  then show ?thesis using assms unfolding epimone_window_adopt_and_select_page_def Let_def
    by (auto intro: same_tabs_trans [OF _ select_index_tabs])
qed

lemma same_tabs_last:
  assumes "same_tabs (with_tab wi p a) b" "wi < length (ap_windows a)"
  shows "wi < length (ap_windows b)" "wn_pages (ap_windows b ! wi) \<noteq> []"
    "same_core p (last (wn_pages (ap_windows b ! wi)))"
    "list_all2 same_core (wn_pages (ap_windows a ! wi)) (butlast (wn_pages (ap_windows b ! wi)))"
proof -
  have r: "list_all2 same_core (wn_pages (ap_windows a ! wi) @ [p]) (wn_pages (ap_windows b ! wi))"
    and l: "length (ap_windows b) = length (ap_windows a)"
    using assms by (auto simp: same_tabs_def with_tab_def at_window_def list_all2_conv_all_nth)
  then show "wi < length (ap_windows b)" using assms(2) by simp
  obtain qs q where "wn_pages (ap_windows b ! wi) = qs @ [q]"
    "list_all2 same_core (wn_pages (ap_windows a ! wi)) qs" "same_core p q"
    using r by (auto simp: list_all2_append1 list_all2_Cons1)
  then show "wn_pages (ap_windows b ! wi) \<noteq> []" "same_core p (last (wn_pages (ap_windows b ! wi)))"
    "list_all2 same_core (wn_pages (ap_windows a ! wi)) (butlast (wn_pages (ap_windows b ! wi)))"
    by simp_all
qed

lemma restore_windows_len:
  assumes "same_tabs (with_tab wi p a) b"
  shows "length (ap_windows b) = length (ap_windows a)"
    "v < length (ap_windows a) \<Longrightarrow> v \<noteq> wi \<Longrightarrow> list_all2 same_core (wn_pages (ap_windows a ! v)) (wn_pages (ap_windows b ! v))"
  using assms by (auto simp: same_tabs_def with_tab_def at_window_def list_all2_conv_all_nth split: if_splits)

section \<open>The page of a restored tab\<close>

lemma initial_title_core: "same_core p (epimone_page_set_initial_title t p)"
  by (simp add: same_core_def epimone_page_set_initial_title_def split: option.split)

lemma mark_all:
  "pg_enrolled (fold epimone_page_mark_enrolled ids p) = set ids \<union> pg_enrolled p"
  "pg_root (fold epimone_page_mark_enrolled ids p) = pg_root p"
  "pg_group (fold epimone_page_mark_enrolled ids p) = pg_group p"
  "pg_custom (fold epimone_page_mark_enrolled ids p) = pg_custom p"
  "pg_zoomed (fold epimone_page_mark_enrolled ids p) = pg_zoomed p"
  by (induction ids arbitrary: p) (auto simp: epimone_page_mark_enrolled_def)

lemma set_group_id_fields [simp]:
  "pg_root (epimone_page_set_group_id g p) = pg_root p" "pg_group (epimone_page_set_group_id g p) = g"
  "pg_custom (epimone_page_set_group_id g p) = pg_custom p" "pg_zoomed (epimone_page_set_group_id g p) = pg_zoomed p"
  by (simp_all add: epimone_page_set_group_id_def)

lemma custom_title_fields:
  "pg_root (epimone_page_set_custom_title e c p) = pg_root p"
  "pg_zoomed (epimone_page_set_custom_title e c p) = pg_zoomed p"
  "c \<noteq> Some [] \<Longrightarrow> pg_custom (epimone_page_set_custom_title e c p) = c"
  by (auto simp: epimone_page_set_custom_title_def Let_def split: option.split)

lemma custom_title_enrolled [simp]: "pg_enrolled (epimone_page_set_custom_title e c p) = pg_enrolled p"
  by (simp add: epimone_page_set_custom_title_def Let_def)

lemma initial_title_enrolled [simp]: "pg_enrolled (epimone_page_set_initial_title t p) = pg_enrolled p"
  using initial_title_core [of p t] by (simp add: same_core_def)

lemma set_tree_root_enrolled [simp]: "pg_enrolled (epimone_page_set_tree_root e r epimone_page_new_empty) = {}"
  using set_focused_core [of "epimone_page_new_empty\<lparr>pg_root := Some r\<rparr>" e "Some (epimone_page_first_terminal r)"]
  by (simp add: epimone_page_set_tree_root_def same_core_def epimone_page_new_empty_def)

lemma restored_page_fields:
  assumes "bl_custom b \<noteq> Some []"
  shows "pg_root (restored_page e gid b t) = Some t" "pg_group (restored_page e gid b t) = gid"
    "pg_custom (restored_page e gid b t) = bl_custom b"
    "pg_enrolled (restored_page e gid b t) = set (collect_session_ids t)"
    "pg_ticks (restored_page e gid b t) = [new_tick (bl_focused b)]"
    "pg_zoomed (restored_page e gid b t) = None"
proof -
  let ?p = "epimone_page_set_custom_title e (bl_custom b) (epimone_page_set_initial_title (Some (bl_title b))
     (epimone_page_set_tree_root e t epimone_page_new_empty))"
  have r: "pg_root ?p = Some t" "pg_zoomed ?p = None"
    using initial_title_core [of "epimone_page_set_tree_root e t epimone_page_new_empty" "Some (bl_title b)"]
    by (simp_all add: custom_title_fields same_core_def epimone_page_set_tree_root_def epimone_page_new_empty_def)
  have "pg_enrolled (epimone_page_set_group_id gid ?p) = {}"
    by (simp add: epimone_page_set_group_id_def)
  then show "pg_root (restored_page e gid b t) = Some t" "pg_group (restored_page e gid b t) = gid"
    "pg_custom (restored_page e gid b t) = bl_custom b"
    "pg_enrolled (restored_page e gid b t) = set (collect_session_ids t)"
    "pg_ticks (restored_page e gid b t) = [new_tick (bl_focused b)]"
    "pg_zoomed (restored_page e gid b t) = None"
    using r assms by (simp_all add: restored_page_def Let_def mark_all custom_title_fields)
qed

text \<open>The tab that a build adds.\<close>

definition tab_of :: "'d page_env \<Rightarrow> u64 \<Rightarrow> 'd blob \<Rightarrow> 'd shape \<Rightarrow> 'd page \<Rightarrow> bool" where
  "tab_of e gid b sh q \<longleftrightarrow> (\<exists>t. pg_root q = Some t \<and> rebuilt t = Some sh \<and> distinct (node_refs t) \<and>
     pg_group q = gid \<and> pg_custom q = bl_custom b \<and> pg_enrolled q = set (collect_session_ids t) \<and>
     pg_ticks q = [new_tick (bl_focused b)] \<and> pg_zoomed q = None)"

lemma build_tab_result:
  assumes "attaches (sy_api y) can" "wi < length (ap_windows a)" "bl_custom b \<noteq> Some []"
    "pruned (kept alive can) (bl_tree b) = Some sh"
  shows "\<exists>b' p. build_tab y wi gid b alive a = (Inr (), b') \<and> tab_of (sy_env y) gid b sh p \<and>
     same_tabs (with_tab wi p a) b' \<and> ly_restoring (ap_layout b') = ly_restoring (ap_layout a)"
proof -
  let ?on = "set_layout (\<lambda>l. l\<lparr>ly_restoring := True\<rparr>) a"
  obtain r m w where r: "build_node (sy_api y) alive (bl_tree b) (ap_next ?on, ap_world ?on) = (r, m, w)"
    "case r of None \<Rightarrow> pruned (kept alive can) (bl_tree b) = None
      | Some t \<Rightarrow> rebuilt t = pruned (kept alive can) (bl_tree b) \<and> pruned (kept alive can) (bl_tree b) \<noteq> None \<and>
          distinct (node_refs t) \<and> set (node_refs t) \<subseteq> {ap_next ?on..<m}"
    using build_node_result [OF assms(1), of alive "bl_tree b" "ap_next ?on" "ap_world ?on"] by blast
  then obtain t where t: "r = Some t" "rebuilt t = Some sh" "distinct (node_refs t)"
    using assms(4) by (cases r) auto
  let ?p = "restored_page (sy_env y) gid b t" and ?a1 = "?on\<lparr>ap_next := m, ap_world := w\<rparr>"
  let ?a3 = "set_layout (\<lambda>l. l\<lparr>ly_restoring := ly_restoring (ap_layout a)\<rparr>) (epimone_window_adopt_and_select_page y wi ?p ?a1)"
  have "tab_of (sy_env y) gid b sh ?p" using t restored_page_fields [OF assms(3)] by (auto simp: tab_of_def)
  moreover have "same_tabs (with_tab wi ?p a) ?a3"
  proof (rule same_tabs_trans [OF _ set_layout_tabs])
    have "same_tabs (with_tab wi ?p a) (with_tab wi ?p ?a1)"
      by (simp add: same_tabs_def with_tab_def at_window_def set_layout_def list_all2_same)
    then show "same_tabs (with_tab wi ?p a) (epimone_window_adopt_and_select_page y wi ?p ?a1)"
      using assms(2) by (intro same_tabs_trans [OF _ adopt_and_select_tabs]) simp_all
  qed
  ultimately show ?thesis using r(1) t(1) unfolding build_tab_def Let_def
    by (intro exI [of _ "if ly_restoring (ap_layout a) then ?a3 else set_layout epimone_layout_schedule_save ?a3"]
          exI [of _ ?p]) (auto intro: same_tabs_trans [OF _ set_layout_tabs])
qed

end
