(* ===== verification/Layout_Props.thy ===== *)
theory Layout_Props
  imports Layout_Restore Page_Props
begin

text \<open>
  What saving and restoring promise: a restored tab is the saved one with its dead panes pruned, ids
  of another daemon are refused, no save that was asked for is lost, none happens after a window has
  been closed, and the picture of a tab is an exact tiling.
\<close>

section \<open>A system to evaluate on\<close>

definition wit_info :: "u64 \<Rightarrow> EpiSessionInfo" where
  "wit_info i = \<lparr>si_id = i, si_pid = 1, si_alive = True, si_attached = False, si_created_at = 0, si_cwd = []\<rparr>"

definition wit_group :: EpiGroupInfo where
  "wit_group = \<lparr>gi_id = 9, gi_created_at = 0, gi_blob = Some [1], gi_blob_len = 1, gi_members = [5, 6, 7]\<rparr>"

definition wit_api :: "unit client_api" where
  "wit_api = \<lparr>api_list_sessions = (\<lambda>w. (Some [wit_info 5, wit_info 7], w)),
     api_list_groups = (\<lambda>w. (Some [wit_group], w)), api_instance_id = (\<lambda>w. (4, w)),
     api_group_set = (\<lambda>_ _ w. (True, w)), api_group_new = (\<lambda>_ w. (9, w)), api_group_add = (\<lambda>_ _ w. (True, w)),
     api_attach_session = (\<lambda>_ w. (True, w)), api_bridge = (\<lambda>w. (True, w)), api_kill_session = (\<lambda>_ w. w),
     api_resize_session = (\<lambda>_ _ _ w. w)\<rparr>"

definition wit_gv :: "rat gvariant" where
  "wit_gv = \<lparr>gv_print_blob = (\<lambda>_. [1]), gv_parse_blob3 = (\<lambda>_. Some (page_blob rat_fp wit_page_env wit_page wit_tree)),
     gv_parse_blob2 = (\<lambda>_. None), gv_parse_blob1 = (\<lambda>_. None), gv_print_layout = (\<lambda>_. [2]),
     gv_parse_layout2 = (\<lambda>_. None), gv_parse_layout1 = (\<lambda>_. None), gv_print_groups = (\<lambda>_. [3]),
     gv_parse_groups = (\<lambda>_. None)\<rparr>"

definition wit_sys :: "(rat, unit) system" where
  "wit_sys = \<lparr>sy_fp = rat_fp, sy_gv = wit_gv, sy_api = wit_api, sy_env = wit_page_env, sy_writable = True\<rparr>"

definition wit_app :: "(rat, unit) app" where
  "wit_app = \<lparr>ap_windows = [\<lparr>wn_ref = 100, wn_pages = [], wn_selected = None, wn_size = (0, 0),
       wn_maximized = False, wn_ticks = []\<rparr>],
     ap_layout = layout_start\<lparr>ly_session_instance := 4, ly_instance_checked := True\<rparr>, ap_next = 200, ap_world = (),
     ap_layout_file = None, ap_groups_file = None\<rparr>"

section \<open>Restoring\<close>

lemma blob_parse_page:
  assumes "gv_parse_blob3 g text = Some (page_blob f e p t)" "text \<noteq> []"
  shows "\<exists>b. blob_parse g (Some text) (length text) = Some b \<and> bl_tree b = node_to_variant f e t \<and>
     bl_focused b = epimone_page_get_focused_session p \<and>
     bl_custom b = (if pg_custom p = Some [] then None else pg_custom p)"
  using assms by (auto simp: blob_parse_def page_blob_def BLOB_VERSION_def split: prod.split option.split)

text \<open>C16. What is saved of a tab is what comes back: if the daemon answers with the group whose blob is
  the text written for a tab, the ids are this daemon's and no member is on screen, then restoring
  the group adds one tab, at the end of the window, whose panes and splits, directions and ratios
  are the saved ones with the panes that are not alive pruned; it carries the group, the custom name
  and the focused session, all its sessions count as enrolled, and the other tabs stay as they are.
  The text of the blob is parsed back to the value it was printed from, which is what GLib documents.
\<close>

theorem restored_tab_is_the_saved_tab:
  assumes saved: "pg_root p = Some t" "page_blob_text (sy_fp y) (sy_gv y) e p = Some text" "text \<noteq> []"
      "gv_parse_blob3 (sy_gv y) text = Some (page_blob (sy_fp y) e p t)"
    and guard: "gid \<noteq> 0" "instance_ok (sy_api y) (ap_layout a) (ap_world a) = (None, w)"
    and listed: "api_list_groups (sy_api y) w = (Some gs, w1)" "find (\<lambda>g. gi_id g = gid) gs = Some g"
      "gi_blob g = Some text" "gi_blob_len g = length text"
    and away: "find_page_for_members (gi_members g) (ap_windows a) = None" "wi < length (ap_windows a)"
    and alive: "build_alive_set (sy_api y) w1 = (Some alive, w2)" "attaches (sy_api y) can"
      "tree_shape (sy_fp y) e (kept alive can) t = Some sh"
  shows "\<exists>b. epimone_layout_restore_group y wi gid a = (Inr (), b) \<and>
     (let old = wn_pages (ap_windows a ! wi); new = wn_pages (ap_windows b ! wi); q = last new in
      new \<noteq> [] \<and> list_all2 same_core old (butlast new) \<and> length (ap_windows b) = length (ap_windows a) \<and>
      (\<exists>t'. pg_root q = Some t' \<and> rebuilt t' = Some sh \<and> distinct (node_refs t') \<and>
            pg_enrolled q = set (collect_session_ids t')) \<and>
      pg_group q = gid \<and> pg_custom q = (if pg_custom p = Some [] then None else pg_custom p) \<and>
      pg_ticks q = [new_tick (epimone_page_get_focused_session p)] \<and> pg_zoomed q = None)"
proof -
  obtain b where b: "blob_parse (sy_gv y) (Some text) (length text) = Some b"
    "bl_tree b = node_to_variant (sy_fp y) e t" "bl_focused b = epimone_page_get_focused_session p"
    "bl_custom b = (if pg_custom p = Some [] then None else pg_custom p)"
    using blob_parse_page [OF saved(4, 3)] by blast
  have custom: "bl_custom b \<noteq> Some []" using b(4) by simp
  have sh: "pruned (kept alive can) (bl_tree b) = Some sh" using alive(3) by (simp add: b(2) pruned_saved)
  let ?a = "a\<lparr>ap_world := w1\<rparr>\<lparr>ap_world := w2\<rparr>"
  obtain c q where c: "build_tab y wi gid b alive ?a = (Inr (), c)" "tab_of (sy_env y) gid b sh q"
    "same_tabs (with_tab wi q ?a) c"
    using build_tab_result [OF alive(2) _ custom sh, of wi ?a gid] away(2) by auto
  have "epimone_layout_restore_group y wi gid a = build_tab y wi gid b alive ?a"
    using guard listed away alive b(1) saved(3) by (simp add: epimone_layout_restore_group_def Let_def)
  moreover have wi: "wi < length (ap_windows ?a)" using away(2) by simp
  note last = same_tabs_last [OF c(3) wi] restore_windows_len(1) [OF c(3)]
  obtain t' where "same_core q (last (wn_pages (ap_windows c ! wi)))" "pg_root q = Some t'" "rebuilt t' = Some sh"
    "distinct (node_refs t')" "pg_group q = gid" "pg_custom q = bl_custom b"
    "pg_enrolled q = set (collect_session_ids t')" "pg_ticks q = [new_tick (bl_focused b)]" "pg_zoomed q = None"
    using last(3) c(2) by (auto simp: tab_of_def)
  ultimately show ?thesis using c(1) last b(3, 4) by (auto simp: Let_def same_core_def)
qed

lemma wit_alive: "build_alive_set (sy_api wit_sys) () = (Some {5, 7}, ())"
  by (simp add: build_alive_set_def wit_sys_def wit_api_def wit_info_def)

theorem restored_tab_is_the_saved_tab_witness:
  "\<exists>b. epimone_layout_restore_group wit_sys 0 9 wit_app = (Inr (), b) \<and>
     (\<exists>t'. pg_root (last (wn_pages (ap_windows b ! 0))) = Some t' \<and> map snd (leaves t') = [5, 7])"
proof -
  have h: "pg_root wit_page = Some wit_tree" "page_blob_text (sy_fp wit_sys) (sy_gv wit_sys) wit_page_env wit_page = Some [1]"
    "[1 :: byte] \<noteq> []" "gv_parse_blob3 (sy_gv wit_sys) [1] = Some (page_blob (sy_fp wit_sys) wit_page_env wit_page wit_tree)"
    "(9 :: u64) \<noteq> 0" "instance_ok (sy_api wit_sys) (ap_layout wit_app) (ap_world wit_app) = (None, ())"
    "api_list_groups (sy_api wit_sys) () = (Some [wit_group], ())" "find (\<lambda>g. gi_id g = 9) [wit_group] = Some wit_group"
    "gi_blob wit_group = Some [1]" "gi_blob_len wit_group = length [1 :: byte]"
    "find_page_for_members (gi_members wit_group) (ap_windows wit_app) = None" "0 < length (ap_windows wit_app)"
    "attaches (sy_api wit_sys) (\<lambda>_. True)"
    by (simp_all add: wit_sys_def wit_gv_def wit_page_fields page_blob_text_def wit_api_def wit_group_def wit_app_def
        instance_ok_def layout_start_def epimone_window_find_page_for_session_def attaches_def)
  have "ucast (5 :: u64) = (5 :: u32)" "ucast (6 :: u64) = (6 :: u32)" "ucast (7 :: u64) = (7 :: u32)" by simp_all
  then have sh: "\<exists>sh. tree_shape (sy_fp wit_sys) wit_page_env (kept {5, 7} (\<lambda>_. True)) wit_tree = Some sh \<and>
     shape_sessions sh = [5, 7]"
    by (simp add: wit_tree_def kept_def)
  then obtain sh where sh: "tree_shape (sy_fp wit_sys) wit_page_env (kept {5, 7} (\<lambda>_. True)) wit_tree = Some sh"
    "shape_sessions sh = [5, 7]" by blast
  have panes: "map snd (leaves t') = [5, 7]" if "rebuilt t' = Some sh" for t'
    using rebuilt_sessions [OF that] sh(2) by simp
  show ?thesis
    using restored_tab_is_the_saved_tab [OF h(1-12) wit_alive h(13) sh(1)] panes unfolding Let_def by blast
qed

section \<open>Ids of another daemon\<close>

lemma instance_refused:
  assumes "api_instance_id api w = (live, w1)"
    "live = 0 \<or> \<not> ly_instance_checked l \<or> ly_session_instance l = 0 \<or> live \<noteq> ly_session_instance l \<or>
     (ly_recorded_instance l \<noteq> 0 \<and> ly_recorded_instance l \<noteq> live)"
  shows "\<exists>err. instance_ok api l w = (Some err, w1)"
  using assms by (auto simp: instance_ok_def)

text \<open>C19. When the daemon answers with another instance id than the one this process bound to, or with
  none, or when the recorded ids are another instance's, neither restoring nor renaming a group does
  anything but ask for that id: no session is attached, no group changed, no tab opened. A group with
  a member on screen is never attached a second time: its tab is selected.
\<close>

theorem stale_ids_are_refused:
  assumes "gid \<noteq> 0" "api_instance_id (sy_api y) (ap_world a) = (live, w)"
  shows "(live = 0 \<or> \<not> ly_instance_checked (ap_layout a) \<or> ly_session_instance (ap_layout a) = 0 \<or>
          live \<noteq> ly_session_instance (ap_layout a) \<or>
          (ly_recorded_instance (ap_layout a) \<noteq> 0 \<and> ly_recorded_instance (ap_layout a) \<noteq> live) \<longrightarrow>
          (\<exists>err. epimone_layout_restore_group y wi gid a = (Inl err, a\<lparr>ap_world := w\<rparr>) \<and>
                 epimone_layout_rename_group y gid name a = (Inl err, a\<lparr>ap_world := w\<rparr>))) \<and>
         (\<forall>gs w1 g xi k. instance_ok (sy_api y) (ap_layout a) (ap_world a) = (None, w) \<longrightarrow>
            api_list_groups (sy_api y) w = (Some gs, w1) \<longrightarrow> find (\<lambda>g. gi_id g = gid) gs = Some g \<longrightarrow>
            find_page_for_members (gi_members g) (ap_windows a) = Some (xi, k) \<longrightarrow>
            epimone_layout_restore_group y wi gid a =
              (Inr (), epimone_window_select_index y xi k (a\<lparr>ap_world := w1\<rparr>)) \<and>
            same_tabs a (snd (epimone_layout_restore_group y wi gid a)))"
proof (intro conjI impI allI)
  assume "live = 0 \<or> \<not> ly_instance_checked (ap_layout a) \<or> ly_session_instance (ap_layout a) = 0 \<or>
     live \<noteq> ly_session_instance (ap_layout a) \<or>
     (ly_recorded_instance (ap_layout a) \<noteq> 0 \<and> ly_recorded_instance (ap_layout a) \<noteq> live)"
  from instance_refused [OF assms(2) this] obtain err where
    "instance_ok (sy_api y) (ap_layout a) (ap_world a) = (Some err, w)" by blast
  then show "\<exists>err. epimone_layout_restore_group y wi gid a = (Inl err, a\<lparr>ap_world := w\<rparr>) \<and>
      epimone_layout_rename_group y gid name a = (Inl err, a\<lparr>ap_world := w\<rparr>)"
    using assms(1) by (simp add: epimone_layout_restore_group_def epimone_layout_rename_group_def Let_def)
next
  fix gs w1 g xi k
  assume h: "instance_ok (sy_api y) (ap_layout a) (ap_world a) = (None, w)"
    "api_list_groups (sy_api y) w = (Some gs, w1)" "find (\<lambda>g. gi_id g = gid) gs = Some g"
    "find_page_for_members (gi_members g) (ap_windows a) = Some (xi, k)"
  then show r: "epimone_layout_restore_group y wi gid a =
      (Inr (), epimone_window_select_index y xi k (a\<lparr>ap_world := w1\<rparr>))"
    using assms(1) by (simp add: epimone_layout_restore_group_def Let_def)
  have "same_tabs a (a\<lparr>ap_world := w1\<rparr>)" by (simp add: same_tabs_def list_all2_same)
  then show "same_tabs a (snd (epimone_layout_restore_group y wi gid a))"
    using same_tabs_trans [OF _ select_index_tabs] by (simp add: r)
qed

theorem stale_ids_are_refused_witness:
  "\<exists>err. epimone_layout_restore_group wit_sys 0 9 (set_layout (\<lambda>l. l\<lparr>ly_session_instance := 3\<rparr>) wit_app) =
     (Inl err, (set_layout (\<lambda>l. l\<lparr>ly_session_instance := 3\<rparr>) wit_app)\<lparr>ap_world := ()\<rparr>)"
proof -
  have "(9 :: u64) \<noteq> 0" and "api_instance_id (sy_api wit_sys)
      (ap_world (set_layout (\<lambda>l. l\<lparr>ly_session_instance := 3\<rparr>) wit_app)) = (4, ())"
    by (simp_all add: wit_sys_def wit_api_def)
  from stale_ids_are_refused [OF this, of 0 None] show ?thesis by (auto simp: wit_app_def)
qed

section \<open>Saves\<close>

text \<open>C18. In every state the application can reach, saves are not suppressed between events; something is
  dirty exactly when the timer runs, so a save asked for before shutdown is never forgotten; asking
  for one arms the timer; and when the timer fires nothing stays dirty and the layout file, if it was
  to be written, is the text of the windows with the group ids that the same firing has given them.
\<close>

theorem no_save_is_lost:
  assumes "gui_step\<^sup>*\<^sup>* a0 a" "ap_layout a0 = layout_start"
  shows "\<not> ly_restoring (ap_layout a) \<and>
     ((ly_layout_dirty (ap_layout a) \<or> ly_groups_dirty (ap_layout a)) = ly_timer (ap_layout a)) \<and>
     (\<not> ly_frozen (ap_layout a) \<longrightarrow>
        (let l = epimone_layout_schedule_save (ap_layout a) in ly_timer l \<and> ly_layout_dirty l \<and> ly_groups_dirty l)) \<and>
     (let b = save_timeout_cb y a in
      \<not> ly_timer (ap_layout b) \<and> \<not> ly_layout_dirty (ap_layout b) \<and> \<not> ly_groups_dirty (ap_layout b) \<and>
      (ly_layout_dirty (ap_layout a) \<longrightarrow> sy_writable y \<longrightarrow> ap_windows b \<noteq> [] \<longrightarrow>
        ap_layout_file b = Some (gv_print_layout (sy_gv y) (LAYOUT_VERSION, map window_to_variant (ap_windows b)))))"
  using reach_inv [OF assms] save_timeout_sched [of y a] save_timeout_file [of a y]
  by (auto simp: Let_def sched_ok_def epimone_layout_schedule_save_def arm_save_def)

definition wit_start :: "(rat, unit) app" where
  "wit_start = wit_app\<lparr>ap_layout := layout_start\<rparr>"

theorem no_save_is_lost_witness:
  "ly_timer (epimone_layout_schedule_save (ap_layout (epimone_layout_check_instance wit_sys wit_start)))"
proof -
  have "gui_step\<^sup>*\<^sup>* wit_start (epimone_layout_check_instance wit_sys wit_start)"
    by (rule r_into_rtranclp) (rule gui_check)
  moreover have "ap_layout wit_start = layout_start" by (simp add: wit_start_def)
  ultimately have "\<not> ly_frozen (ap_layout (epimone_layout_check_instance wit_sys wit_start)) \<longrightarrow>
      ly_timer (epimone_layout_schedule_save (ap_layout (epimone_layout_check_instance wit_sys wit_start)))"
    using no_save_is_lost by (auto simp: Let_def)
  moreover have "\<not> ly_frozen (ap_layout (epimone_layout_check_instance wit_sys wit_start))"
    by (simp add: epimone_layout_check_instance_def wit_sys_def wit_api_def wit_start_def wit_app_def layout_start_def
        set_layout_def)
  ultimately show ?thesis by blast
qed

text \<open>C20. Accepting the closing of a window saves the layout of all windows once and for all: whatever
  happens afterwards, in any window that is still open, is never written to either file, and no timer
  runs again.
\<close>

theorem nothing_is_saved_after_a_close:
  assumes "\<not> ly_frozen (ap_layout a)" "gui_step\<^sup>*\<^sup>* (epimone_layout_begin_shutdown y a) b"
  shows "ap_layout_file b = ap_layout_file (epimone_layout_begin_shutdown y a) \<and>
     ap_groups_file b = ap_groups_file (epimone_layout_begin_shutdown y a) \<and> \<not> ly_timer (ap_layout b) \<and>
     (sy_writable y \<longrightarrow> ap_windows (epimone_layout_begin_shutdown y a) \<noteq> [] \<longrightarrow>
        ap_layout_file b = Some (gv_print_layout (sy_gv y)
          (LAYOUT_VERSION, map window_to_variant (ap_windows (epimone_layout_begin_shutdown y a)))))"
  using reach_frozen [OF assms(2) shutdown_sched(1, 3) [OF assms(1)]] shutdown_file [OF assms(1), of y]
  by (auto simp: files_def sched_ok_def)

theorem nothing_is_saved_after_a_close_witness:
  "ap_layout_file (set_layout epimone_layout_schedule_save ((epimone_layout_begin_shutdown wit_sys wit_app)\<lparr>ap_windows := []\<rparr>)) =
     Some [2]"
proof -
  have step: "gui_step\<^sup>*\<^sup>* (epimone_layout_begin_shutdown wit_sys wit_app)
     (set_layout epimone_layout_schedule_save ((epimone_layout_begin_shutdown wit_sys wit_app)\<lparr>ap_windows := []\<rparr>))"
    by (rule r_into_rtranclp) (rule gui_windows)
  have open1: "\<not> ly_frozen (ap_layout wit_app)" by (simp add: wit_app_def layout_start_def)
  have some: "ap_windows (epimone_layout_begin_shutdown wit_sys wit_app) \<noteq> []"
    by (simp add: epimone_layout_begin_shutdown_def wit_sys_def wit_app_def layout_start_def sync_groups_now_def
        save_groups_state_def wit_api_def Let_def)
  have sys: "sy_writable wit_sys" "gv_print_layout (sy_gv wit_sys) z = [2]" for z
    by (simp_all add: wit_sys_def wit_gv_def)
  from nothing_is_saved_after_a_close [OF open1 step] sys(1) some show ?thesis unfolding sys(2) by blast
qed

section \<open>The picture of a tab\<close>

text \<open>C21. The picture drawn from a blob is that of its tree with the panes without a session pruned: one
  rectangle for each, in the order of the tree, one divider less than panes, each where the reference
  \<open>place\<close> puts it, and nothing if no pane is left. In exact arithmetic the rectangles tile the unit
  square: every point of it is in exactly one of them, and no point outside is in any.
\<close>

theorem picture_tiles_the_tab:
  "walk_node_geometry f node x y w h ls ss =
     (case pruned (\<lambda>s. s \<noteq> 0) node of
        None \<Rightarrow> (False, ls, ss)
      | Some sh \<Rightarrow> (True, ls @ fst (place f sh x y w h), ss @ snd (place f sh x y w h))) \<and>
   map lf_session (fst (place f sh x y w h)) = shape_sessions sh \<and>
   length (snd (place f sh x y w h)) + 1 = length (fst (place f sh x y w h)) \<and>
   length (filter (\<lambda>l. covers l px py) (fst (place rat_fp sh' 0 0 1 1))) =
     (if 0 \<le> px \<and> px < 1 \<and> 0 \<le> py \<and> py < 1 then 1 else 0)"
  using place_tiles [of 1 1 px py sh' 0 0]
  by (intro conjI walk_node_geometry_place place_sessions place_seams) simp

end
