(* ===== verification/Windows.thy ===== *)
theory Windows
  imports Restore
begin

text \<open>
  The windows of the GUI (src/src/epimone-window.c): tabs with their pins and icons, the header
  title, the tab menu, closing and its confirmation, and the tab bar preferences, on top of the
  application state of Layout. libadwaita's tab view is a parameter where it decides something.
\<close>

section \<open>Preferences\<close>

datatype EpimoneTabBarPolicy = EPIMONE_TAB_BAR_ALWAYS | EPIMONE_TAB_BAR_MULTIPLE | EPIMONE_TAB_BAR_NEVER

definition epimone_tab_bar_policy_from_id :: "byte list option \<Rightarrow> EpimoneTabBarPolicy" where
  "epimone_tab_bar_policy_from_id name =
     (if name = Some (lit ''always'') then EPIMONE_TAB_BAR_ALWAYS
      else if name = Some (lit ''never'') then EPIMONE_TAB_BAR_NEVER
      else EPIMONE_TAB_BAR_MULTIPLE)"

record window_prefs =
  wp_tab_bar_policy :: EpimoneTabBarPolicy
  wp_tab_bar_at_bottom :: bool
  wp_confirm_close :: bool

definition epimone_window_prefs :: window_prefs where
  "epimone_window_prefs =
     \<lparr>wp_tab_bar_policy = EPIMONE_TAB_BAR_MULTIPLE, wp_tab_bar_at_bottom = False, wp_confirm_close = True\<rparr>"

section \<open>State\<close>

text \<open>A tab of the tab view, the holder of a page: its address, its pin, whether it has an icon.\<close>

record tab =
  tb_ref :: nat
  tb_pinned :: bool
  tb_icon :: bool

text \<open>
  What a window keeps beside its pages: its tabs in the same order; the tab bar, visible, hiding
  itself, its slot and the record of that slot; whether closing was confirmed; the tab the menu was
  opened on and the two idle callbacks; which actions are enabled; the tab that the header is bound to;
  the overview; the check mark of the read-only action.
\<close>

record frame =
  fr_tabs :: "tab list"
  fr_bar_visible :: bool
  fr_bar_autohide :: bool
  fr_bar_bottom :: bool
  fr_at_bottom :: bool
  fr_closing :: bool
  fr_menu_page :: "nat option"
  fr_clear_idle :: bool
  fr_hook_idle :: bool
  fr_disabled :: "byte list set"
  fr_title_from :: "nat option"
  fr_overview :: bool
  fr_read_only :: bool

text \<open>What is asked of the user or of others.\<close>

datatype effect =
    Spawned "byte list option" u64
  | Ask_close nat nat nat
  | Ask_title nat nat "byte list" "byte list option"
  | Ask_kill nat u64
  | Overview_to nat bool u64
  | Present nat
  | Present_settings
  | Terminal_op "byte list" nat
  | Warn_restore u64

text \<open>
  All windows: the application, the frames by the address of their window, the registry, the
  preferences, the next tab address, pages that are in no window but still held, the terminals that
  take no input, whether the settings are open, and the effects so far.
\<close>

record ('d, 'w) gui =
  gu_app :: "('d, 'w) app"
  gu_frames :: "nat \<Rightarrow> frame"
  gu_registry :: "nat list"
  gu_prefs :: window_prefs
  gu_next_tab :: nat
  gu_held :: "nat \<rightharpoonup> 'd page"
  gu_read_only :: "nat set"
  gu_settings :: bool
  gu_log :: "effect list"

text \<open>
  libadwaita's decisions: whether a tab, pinned or not, may be closed; whether a page may be put at a
  position among so many pages of which so many are pinned; whether two neighbours may trade places;
  the page selected when the selected one, at a position, leaves so many behind; and the tabs that
  closing all others closes, in order.
\<close>

record tab_view =
  tv_closable :: "bool \<Rightarrow> bool"
  tv_insertable :: "nat \<Rightarrow> nat \<Rightarrow> nat \<Rightarrow> bool"
  tv_swappable :: "bool \<Rightarrow> bool \<Rightarrow> bool"
  tv_successor :: "nat \<Rightarrow> nat \<Rightarrow> nat"
  tv_others :: "nat list \<Rightarrow> nat \<Rightarrow> nat list"

text \<open>
  What its manual says: the default answer to a request to close is no for a pinned page; inserting a
  page that is not pinned before a pinned one is an error, as is trading places across that boundary.
\<close>

definition documented :: "tab_view \<Rightarrow> bool" where
  "documented tv \<longleftrightarrow>
     (\<forall>p. tv_closable tv p = (\<not> p)) \<and> (\<forall>np n pos. tv_insertable tv np n pos = (np \<le> pos \<and> pos \<le> n)) \<and>
     (\<forall>p q. tv_swappable tv p q = (p = q)) \<and> (\<forall>n k. 0 < n \<longrightarrow> tv_successor tv n k < n) \<and>
     (\<forall>ts t. set (tv_others tv ts t) = set ts - {t})"

subsection \<open>Access\<close>

definition in_app :: "(('d, 'w) app \<Rightarrow> ('d, 'w) app) \<Rightarrow> ('d, 'w) gui \<Rightarrow> ('d, 'w) gui" where
  "in_app h g = g\<lparr>gu_app := h (gu_app g)\<rparr>"

definition in_frame :: "nat \<Rightarrow> (frame \<Rightarrow> frame) \<Rightarrow> ('d, 'w) gui \<Rightarrow> ('d, 'w) gui" where
  "in_frame r h g = g\<lparr>gu_frames := (gu_frames g)(r := h (gu_frames g r))\<rparr>"

definition gui_log :: "effect \<Rightarrow> ('d, 'w) gui \<Rightarrow> ('d, 'w) gui" where
  "gui_log e g = g\<lparr>gu_log := gu_log g @ [e]\<rparr>"

definition window_index :: "nat \<Rightarrow> ('d, 'w) gui \<Rightarrow> nat option" where
  "window_index r g = find_index (\<lambda>w. wn_ref w = r) (ap_windows (gu_app g))"

definition tabs_of :: "nat \<Rightarrow> ('d, 'w) gui \<Rightarrow> tab list" where
  "tabs_of r g = fr_tabs (gu_frames g r)"

definition tab_index :: "nat \<Rightarrow> nat \<Rightarrow> ('d, 'w) gui \<Rightarrow> nat option" where
  "tab_index t r g = find_index (\<lambda>x. tb_ref x = t) (tabs_of r g)"

text \<open>The window that shows a tab now, as found from its widget's ancestors.\<close>

definition home_of :: "nat \<Rightarrow> ('d, 'w) gui \<Rightarrow> nat option" where
  "home_of t g = find (\<lambda>r. t \<in> tb_ref ` set (tabs_of r g)) (map wn_ref (ap_windows (gu_app g)))"

definition window_of :: "nat \<Rightarrow> ('d, 'w) gui \<Rightarrow> 'd window option" where
  "window_of r g = map_option (\<lambda>wi. ap_windows (gu_app g) ! wi) (window_index r g)"

definition selected_tab :: "nat \<Rightarrow> ('d, 'w) gui \<Rightarrow> nat option" where
  "selected_tab r g =
     (case window_of r g of
        None \<Rightarrow> None
      | Some w \<Rightarrow> (case wn_selected w of
                     None \<Rightarrow> None
                   | Some i \<Rightarrow> if i < length (tabs_of r g) then Some (tb_ref (tabs_of r g ! i)) else None))"

definition page_at :: "nat \<Rightarrow> nat \<Rightarrow> ('d, 'w) gui \<Rightarrow> 'd page option" where
  "page_at r k g =
     (case window_of r g of
        None \<Rightarrow> None
      | Some w \<Rightarrow> if k < length (wn_pages w) then Some (wn_pages w ! k) else None)"

definition page_of :: "nat \<Rightarrow> ('d, 'w) gui \<Rightarrow> 'd page option" where
  "page_of t g =
     (case home_of t g of
        None \<Rightarrow> gu_held g t
      | Some r \<Rightarrow> (case tab_index t r g of None \<Rightarrow> None | Some k \<Rightarrow> page_at r k g))"

definition epimone_window_current_page :: "nat \<Rightarrow> ('d, 'w) gui \<Rightarrow> 'd page option" where
  "epimone_window_current_page r g =
     (case selected_tab r g of None \<Rightarrow> None | Some t \<Rightarrow> page_of t g)"

definition schedule_save :: "('d, 'w) gui \<Rightarrow> ('d, 'w) gui" where
  "schedule_save = in_app (set_layout epimone_layout_schedule_save)"

text \<open>The calls that a page made outside of any window, carried out.\<close>

definition page_calls :: "'d page \<Rightarrow> ('d, 'w) gui \<Rightarrow> 'd page \<times> ('d, 'w) gui" where
  "page_calls p g = (p\<lparr>pg_calls := []\<rparr>, in_app (set_layout (fold layout_call (pg_calls p))) g)"

text \<open>An operation on the page of a tab, in a window or held.\<close>

definition page_step :: "('d page \<Rightarrow> 'd page) \<Rightarrow> nat \<Rightarrow> ('d, 'w) gui \<Rightarrow> ('d, 'w) gui" where
  "page_step h t g =
     (case home_of t g of
        Some r \<Rightarrow>
          (case (window_index r g, tab_index t r g) of
             (Some wi, Some k) \<Rightarrow> in_app (at_page h wi k) g
           | _ \<Rightarrow> g)
      | None \<Rightarrow>
          (case gu_held g t of
             None \<Rightarrow> g
           | Some p \<Rightarrow>
               (case page_calls (h (p\<lparr>pg_calls := []\<rparr>)) g of (q, g1) \<Rightarrow> g1\<lparr>gu_held := (gu_held g1)(t \<mapsto> q)\<rparr>)))"

definition focus_current :: "('d, 'w) system \<Rightarrow> nat \<Rightarrow> ('d, 'w) gui \<Rightarrow> ('d, 'w) gui" where
  "focus_current y r g =
     (case window_index r g of None \<Rightarrow> g | Some wi \<Rightarrow> in_app (epimone_window_focus_current_terminal y wi) g)"

section \<open>Tab bar preferences\<close>

definition epimone_apply_window_prefs_to :: "window_prefs \<Rightarrow> frame \<Rightarrow> frame" where
  "epimone_apply_window_prefs_to p f =
     (let f1 = f\<lparr>fr_bar_visible := wp_tab_bar_policy p \<noteq> EPIMONE_TAB_BAR_NEVER,
                 fr_bar_autohide := wp_tab_bar_policy p = EPIMONE_TAB_BAR_MULTIPLE\<rparr>
      in if wp_tab_bar_at_bottom p \<noteq> fr_at_bottom f1
         then f1\<lparr>fr_bar_bottom := wp_tab_bar_at_bottom p, fr_at_bottom := wp_tab_bar_at_bottom p\<rparr>
         else f1)"

definition epimone_apply_window_prefs_to_all :: "('d, 'w) gui \<Rightarrow> ('d, 'w) gui" where
  "epimone_apply_window_prefs_to_all g =
     fold (\<lambda>r. in_frame r (epimone_apply_window_prefs_to (gu_prefs g))) (gu_registry g) g"

definition epimone_windows_set_tab_bar_policy :: "EpimoneTabBarPolicy \<Rightarrow> ('d, 'w) gui \<Rightarrow> ('d, 'w) gui" where
  "epimone_windows_set_tab_bar_policy p g =
     epimone_apply_window_prefs_to_all (g\<lparr>gu_prefs := (gu_prefs g)\<lparr>wp_tab_bar_policy := p\<rparr>\<rparr>)"

definition epimone_windows_set_tab_bar_at_bottom :: "bool \<Rightarrow> ('d, 'w) gui \<Rightarrow> ('d, 'w) gui" where
  "epimone_windows_set_tab_bar_at_bottom b g =
     epimone_apply_window_prefs_to_all (g\<lparr>gu_prefs := (gu_prefs g)\<lparr>wp_tab_bar_at_bottom := b\<rparr>\<rparr>)"

definition epimone_windows_set_confirm_close :: "bool \<Rightarrow> ('d, 'w) gui \<Rightarrow> ('d, 'w) gui" where
  "epimone_windows_set_confirm_close b g = g\<lparr>gu_prefs := (gu_prefs g)\<lparr>wp_confirm_close := b\<rparr>\<rparr>"

section \<open>Titles\<close>

definition epimone_window_rebind_title :: "nat \<Rightarrow> ('d, 'w) gui \<Rightarrow> ('d, 'w) gui" where
  "epimone_window_rebind_title r g = in_frame r (\<lambda>f. f\<lparr>fr_title_from := selected_tab r g\<rparr>) g"

text \<open>What the bindings show in the header, and what the window is called.\<close>

definition header_title :: "nat \<Rightarrow> ('d, 'w) gui \<Rightarrow> byte list \<times> byte list option" where
  "header_title r g =
     (case fr_title_from (gu_frames g r) of
        None \<Rightarrow> (lit ''Epimone'', None)
      | Some t \<Rightarrow> (case page_of t g of Some p \<Rightarrow> (pg_title p, pg_subtitle p) | None \<Rightarrow> ([], None)))"

definition epimone_window_notify_header_title :: "nat \<Rightarrow> ('d, 'w) gui \<Rightarrow> byte list" where
  "epimone_window_notify_header_title r g =
     (let title = fst (header_title r g) in if title \<noteq> [] then title else lit ''Epimone'')"

section \<open>Closing a window\<close>

definition epimone_window_count_panes :: "nat \<Rightarrow> ('d, 'w) gui \<Rightarrow> nat" where
  "epimone_window_count_panes r g =
     (case window_of r g of None \<Rightarrow> 0 | Some w \<Rightarrow> sum_list (map epimone_page_get_pane_count (wn_pages w)))"

definition n_pages :: "nat \<Rightarrow> ('d, 'w) gui \<Rightarrow> nat" where
  "n_pages r g = (case window_of r g of None \<Rightarrow> 0 | Some w \<Rightarrow> length (wn_pages w))"

text \<open>The first part of the result says whether the window is kept.\<close>

definition epimone_window_close_request ::
  "('d, 'w) system \<Rightarrow> nat \<Rightarrow> ('d, 'w) gui \<Rightarrow> bool \<times> ('d, 'w) gui" where
  "epimone_window_close_request y r g =
     (let n = n_pages r g; panes = epimone_window_count_panes r g;
          ask = wp_confirm_close (gu_prefs g) \<and> \<not> fr_closing (gu_frames g r) \<and> (1 < n \<or> 1 < panes)
      in if ask then (True, gui_log (Ask_close r n panes) g)
         else (False, in_app (epimone_layout_begin_shutdown y) g))"

definition epimone_window_unregister :: "nat \<Rightarrow> ('d, 'w) gui \<Rightarrow> ('d, 'w) gui" where
  "epimone_window_unregister r g = g\<lparr>gu_registry := remove1 r (gu_registry g)\<rparr>"

text \<open>The window goes from the application; its pages are held by nobody but dialogs.\<close>

definition destroy_window :: "nat \<Rightarrow> ('d, 'w) gui \<Rightarrow> ('d, 'w) gui" where
  "destroy_window r g =
     (let held = (case window_of r g of
                    None \<Rightarrow> gu_held g
                  | Some w \<Rightarrow> gu_held g ++ map_of (zip (map tb_ref (tabs_of r g)) (wn_pages w)));
          g1 = epimone_window_unregister r (in_app (\<lambda>a. a\<lparr>ap_windows := filter (\<lambda>w. wn_ref w \<noteq> r) (ap_windows a)\<rparr>) g)
      in in_frame r (\<lambda>f. f\<lparr>fr_tabs := [], fr_menu_page := None, fr_clear_idle := False, fr_hook_idle := False,
                            fr_title_from := None\<rparr>) (g1\<lparr>gu_held := held\<rparr>))"

definition window_close :: "('d, 'w) system \<Rightarrow> nat \<Rightarrow> ('d, 'w) gui \<Rightarrow> ('d, 'w) gui" where
  "window_close y r g =
     (if window_index r g = None then g
      else case epimone_window_close_request y r g of
             (True, g1) \<Rightarrow> g1
           | (False, g1) \<Rightarrow> destroy_window r g1)"

definition epimone_window_confirm_close :: "('d, 'w) system \<Rightarrow> nat \<Rightarrow> byte list \<Rightarrow> ('d, 'w) gui \<Rightarrow> ('d, 'w) gui" where
  "epimone_window_confirm_close y r response g =
     (if response \<noteq> lit ''close'' then focus_current y r g
      else window_close y r (in_frame r (\<lambda>f. f\<lparr>fr_closing := True\<rparr>) g))"

definition epimone_window_notify_n_pages :: "('d, 'w) system \<Rightarrow> nat \<Rightarrow> ('d, 'w) gui \<Rightarrow> ('d, 'w) gui" where
  "epimone_window_notify_n_pages y r g = (if n_pages r g = 0 then window_close y r g else schedule_save g)"

end
