(* ===== verification/Window_Tabs.thy ===== *)
theory Window_Tabs
  imports Windows
begin

text \<open>
  What a window does with its tabs (src/src/epimone-window.c): attaching, selecting, detaching and
  moving pages, pins and their icons, and the capture of the tab that the menu was opened on.
\<close>

section \<open>Selecting\<close>

definition epimone_window_notify_selected_cb :: "('d, 'w) system \<Rightarrow> nat \<Rightarrow> ('d, 'w) gui \<Rightarrow> ('d, 'w) gui" where
  "epimone_window_notify_selected_cb y r g = schedule_save (focus_current y r (epimone_window_rebind_title r g))"

text \<open>The tab view's own: it tells only a change.\<close>

definition select_tab :: "('d, 'w) system \<Rightarrow> nat \<Rightarrow> nat \<Rightarrow> ('d, 'w) gui \<Rightarrow> ('d, 'w) gui" where
  "select_tab y r t g =
     (case (window_index r g, tab_index t r g) of
        (Some wi, Some k) \<Rightarrow>
          if wn_selected (ap_windows (gu_app g) ! wi) = Some k then g
          else epimone_window_notify_selected_cb y r (in_app (at_window (\<lambda>w. w\<lparr>wn_selected := Some k\<rparr>) wi) g)
      | _ \<Rightarrow> g)"

definition epimone_window_select_page :: "('d, 'w) system \<Rightarrow> nat \<Rightarrow> nat \<Rightarrow> ('d, 'w) gui \<Rightarrow> ('d, 'w) gui" where
  "epimone_window_select_page y r t g =
     (if tab_index t r g = None then g
      else page_step (epimone_page_focus_terminal (sy_env y)) t (select_tab y r t g))"

section \<open>Attaching\<close>

definition insert_at :: "nat \<Rightarrow> 'x \<Rightarrow> 'x list \<Rightarrow> 'x list" where
  "insert_at k x xs = take k xs @ x # drop k xs"

definition remove_at :: "nat \<Rightarrow> 'x list \<Rightarrow> 'x list" where
  "remove_at k xs = take k xs @ drop (Suc k) xs"

definition epimone_tab_page_notify_pinned_cb :: "tab \<Rightarrow> tab" where
  "epimone_tab_page_notify_pinned_cb x = x\<lparr>tb_icon := tb_pinned x\<rparr>"

definition n_pinned :: "nat \<Rightarrow> ('d, 'w) gui \<Rightarrow> nat" where
  "n_pinned r g = length (filter tb_pinned (tabs_of r g))"

text \<open>
  A tab and its page put into a tab view. A first page becomes the selected one; then the number of
  pages has changed.
\<close>

definition put_tab :: "('d, 'w) system \<Rightarrow> nat \<Rightarrow> nat \<Rightarrow> tab \<Rightarrow> 'd page \<Rightarrow> ('d, 'w) gui \<Rightarrow> ('d, 'w) gui" where
  "put_tab y r k x p g =
     (case window_index r g of
        None \<Rightarrow> g
      | Some wi \<Rightarrow>
          let first = (n_pages r g = 0);
              g1 = in_frame r (\<lambda>f. f\<lparr>fr_tabs := insert_at k x (fr_tabs f)\<rparr>)
                     (in_app (at_window (\<lambda>w. w\<lparr>wn_pages := insert_at k p (wn_pages w),
                        wn_selected := map_option (\<lambda>i. if k \<le> i then i + 1 else i) (wn_selected w)\<rparr>) wi) g);
              g2 = (if first then select_tab y r (tb_ref x) g1 else g1)
          in epimone_window_notify_n_pages y r g2)"

text \<open>
  The position -1 is the end. When libadwaita refuses the position the page is in no window, though it
  lives on. The tab's address comes back, or that of the page that nothing shows.
\<close>

definition epimone_window_attach_page_at ::
  "('d, 'w) system \<Rightarrow> tab_view \<Rightarrow> nat \<Rightarrow> 'd page \<Rightarrow> int \<Rightarrow> ('d, 'w) gui \<Rightarrow> nat \<times> ('d, 'w) gui" where
  "epimone_window_attach_page_at y tv r p position g =
     (let t = gu_next_tab g;
          g1 = g\<lparr>gu_next_tab := t + 1\<rparr>;
          n = n_pages r g;
          x = epimone_tab_page_notify_pinned_cb \<lparr>tb_ref = t, tb_pinned = False, tb_icon = False\<rparr>
      in (t, if position < 0 then put_tab y r n x p g1
             else if tv_insertable tv (n_pinned r g) n (nat position) then put_tab y r (nat position) x p g1
             else g1\<lparr>gu_held := (gu_held g1)(t \<mapsto> p)\<rparr>))"

definition epimone_window_attach_page ::
  "('d, 'w) system \<Rightarrow> tab_view \<Rightarrow> nat \<Rightarrow> 'd page \<Rightarrow> ('d, 'w) gui \<Rightarrow> nat \<times> ('d, 'w) gui" where
  "epimone_window_attach_page y tv r p g = epimone_window_attach_page_at y tv r p (- 1) g"

text \<open>A page with one new pane; \<open>sid\<close> is the session that the daemon starts for it.\<close>

definition epimone_window_add_tab_with_cwd ::
  "('d, 'w) system \<Rightarrow> tab_view \<Rightarrow> u64 \<Rightarrow> byte list option \<Rightarrow> nat \<Rightarrow> ('d, 'w) gui \<Rightarrow> ('d, 'w) gui" where
  "epimone_window_add_tab_with_cwd y tv sid cwd r g =
     (let x = ap_next (gu_app g);
          g1 = gui_log (Spawned cwd sid) (in_app (\<lambda>a. a\<lparr>ap_next := x + 1\<rparr>) g)
      in case page_calls (epimone_page_new_with_cwd (sy_env y) x sid) g1 of (p, g2) \<Rightarrow>
         case epimone_window_attach_page y tv r p g2 of (t, g3) \<Rightarrow>
           page_step (epimone_page_focus_terminal (sy_env y)) t (select_tab y r t g3))"

definition epimone_window_add_tab :: "('d, 'w) system \<Rightarrow> tab_view \<Rightarrow> u64 \<Rightarrow> nat \<Rightarrow> ('d, 'w) gui \<Rightarrow> ('d, 'w) gui" where
  "epimone_window_add_tab y tv sid r g = epimone_window_add_tab_with_cwd y tv sid None r g"

text \<open>A window that has just been built: the tab bar on top, then the preferences.\<close>

definition epimone_window_init :: "window_prefs \<Rightarrow> frame" where
  "epimone_window_init p = epimone_apply_window_prefs_to p
     \<lparr>fr_tabs = [], fr_bar_visible = True, fr_bar_autohide = True, fr_bar_bottom = False, fr_at_bottom = False,
      fr_closing = False, fr_menu_page = None, fr_clear_idle = False, fr_hook_idle = False, fr_disabled = {},
      fr_title_from = None, fr_overview = False, fr_read_only = False\<rparr>"

definition new_window :: "('d, 'w) gui \<Rightarrow> nat \<times> ('d, 'w) gui" where
  "new_window g =
     (let r = ap_next (gu_app g)
      in (r, in_frame r (\<lambda>_. epimone_window_init (gu_prefs g))
               (in_app epimone_window_new (g\<lparr>gu_registry := r # gu_registry g\<rparr>))))"

section \<open>Detaching\<close>

text \<open>
  A tab taken out of a tab view: the selection follows its page, or goes where the tab view sends it
  when that was the selected one. The result has the tab and the page.
\<close>

definition take_tab ::
  "('d, 'w) system \<Rightarrow> tab_view \<Rightarrow> nat \<Rightarrow> nat \<Rightarrow> ('d, 'w) gui \<Rightarrow> (tab \<times> 'd page) option \<times> ('d, 'w) gui" where
  "take_tab y tv r t g =
     (case (window_index r g, tab_index t r g) of
        (Some wi, Some k) \<Rightarrow>
          let w = ap_windows (gu_app g) ! wi;
              n = length (wn_pages w) - 1;
              was = (wn_selected w = Some k);
              sel = (if was then (if n = 0 then None else Some (tv_successor tv n k))
                     else map_option (\<lambda>i. if k < i then i - 1 else i) (wn_selected w));
              g1 = in_frame r (\<lambda>f. f\<lparr>fr_tabs := remove_at k (fr_tabs f)\<rparr>)
                     (in_app (at_window (\<lambda>w. w\<lparr>wn_pages := remove_at k (wn_pages w), wn_selected := sel\<rparr>) wi) g);
              g2 = (if was then epimone_window_notify_selected_cb y r g1 else g1)
          in (Some (tabs_of r g ! k, wn_pages w ! k), epimone_window_notify_n_pages y r g2)
      | _ \<Rightarrow> (None, g))"

text \<open>The weak pointers to a tab page that is gone.\<close>

definition forget_menu_page :: "nat \<Rightarrow> ('d, 'w) gui \<Rightarrow> ('d, 'w) gui" where
  "forget_menu_page t g =
     g\<lparr>gu_frames := (\<lambda>r. let f = gu_frames g r in if fr_menu_page f = Some t then f\<lparr>fr_menu_page := None\<rparr> else f)\<rparr>"

definition close_tab :: "('d, 'w) system \<Rightarrow> tab_view \<Rightarrow> nat \<Rightarrow> nat \<Rightarrow> ('d, 'w) gui \<Rightarrow> ('d, 'w) gui" where
  "close_tab y tv r t g =
     (case tab_index t r g of
        None \<Rightarrow> g
      | Some k \<Rightarrow>
          if \<not> tv_closable tv (tb_pinned (tabs_of r g ! k)) then g
          else case take_tab y tv r t g of
                 (None, g1) \<Rightarrow> g1
               | (Some (x, p), g1) \<Rightarrow> forget_menu_page t (g1\<lparr>gu_held := (gu_held g1)(t \<mapsto> p)\<rparr>))"

text \<open>A page says that its last pane is gone; \<open>origin\<close> is the window it was first put in.\<close>

definition epimone_window_page_close_cb :: "('d, 'w) system \<Rightarrow> tab_view \<Rightarrow> nat \<Rightarrow> nat \<Rightarrow> ('d, 'w) gui \<Rightarrow> ('d, 'w) gui" where
  "epimone_window_page_close_cb y tv origin t g =
     (case home_of t g of Some r \<Rightarrow> close_tab y tv r t g | None \<Rightarrow> close_tab y tv origin t g)"

definition epimone_window_close_page :: "('d, 'w) system \<Rightarrow> tab_view \<Rightarrow> nat \<Rightarrow> ('d, 'w) gui \<Rightarrow> ('d, 'w) gui" where
  "epimone_window_close_page y tv t g =
     (case home_of t g of None \<Rightarrow> g | Some r \<Rightarrow> close_tab y tv r t g)"

definition epimone_window_move_page_to_new_window ::
  "('d, 'w) system \<Rightarrow> tab_view \<Rightarrow> nat \<Rightarrow> ('d, 'w) gui \<Rightarrow> ('d, 'w) gui" where
  "epimone_window_move_page_to_new_window y tv t g =
     (case home_of t g of
        None \<Rightarrow> g
      | Some r \<Rightarrow>
          if tab_index t r g = None \<or> n_pages r g < 2 then g
          else case new_window g of (r', g1) \<Rightarrow>
               case take_tab y tv r t g1 of
                 (None, g2) \<Rightarrow> g2
               | (Some (x, p), g2) \<Rightarrow>
                   schedule_save (page_step (epimone_page_focus_terminal (sy_env y)) t
                     (gui_log (Present r') (put_tab y r' 0 x p g2))))"

section \<open>Order and pins\<close>

text \<open>The tab at \<open>k\<close> trades places with the one after it; pages and selection follow.\<close>

definition swap_at :: "nat \<Rightarrow> 'x list \<Rightarrow> 'x list" where
  "swap_at k xs = (if Suc k < length xs then xs[k := xs ! Suc k, Suc k := xs ! k] else xs)"

definition swap_tabs :: "tab_view \<Rightarrow> nat \<Rightarrow> nat \<Rightarrow> ('d, 'w) gui \<Rightarrow> ('d, 'w) gui" where
  "swap_tabs tv r k g =
     (case window_index r g of
        None \<Rightarrow> g
      | Some wi \<Rightarrow>
          let ts = tabs_of r g in
          if Suc k < length ts \<and> tv_swappable tv (tb_pinned (ts ! k)) (tb_pinned (ts ! Suc k))
          then in_frame r (\<lambda>f. f\<lparr>fr_tabs := swap_at k (fr_tabs f)\<rparr>)
                 (in_app (at_window (\<lambda>w. w\<lparr>wn_pages := swap_at k (wn_pages w),
                    wn_selected := map_option (\<lambda>i. if i = k then Suc k else if i = Suc k then k else i) (wn_selected w)\<rparr>) wi) g)
          else g)"

definition reorder_backward :: "tab_view \<Rightarrow> nat \<Rightarrow> nat \<Rightarrow> ('d, 'w) gui \<Rightarrow> ('d, 'w) gui" where
  "reorder_backward tv r t g =
     (case tab_index t r g of Some (Suc k) \<Rightarrow> swap_tabs tv r k g | _ \<Rightarrow> g)"

definition reorder_forward :: "tab_view \<Rightarrow> nat \<Rightarrow> nat \<Rightarrow> ('d, 'w) gui \<Rightarrow> ('d, 'w) gui" where
  "reorder_forward tv r t g =
     (case tab_index t r g of Some k \<Rightarrow> swap_tabs tv r k g | None \<Rightarrow> g)"

text \<open>
  A page that is pinned goes behind the other pinned ones, one that is unpinned before the others that
  are not: in both cases to the place that is the number of the other pinned tabs.
\<close>

definition set_pinned :: "nat \<Rightarrow> nat \<Rightarrow> bool \<Rightarrow> ('d, 'w) gui \<Rightarrow> ('d, 'w) gui" where
  "set_pinned r t pinned g =
     (case (window_index r g, tab_index t r g) of
        (Some wi, Some k) \<Rightarrow>
          let x = tabs_of r g ! k in
          if tb_pinned x = pinned then g
          else
            let x' = epimone_tab_page_notify_pinned_cb (x\<lparr>tb_pinned := pinned\<rparr>);
                rest = remove_at k (tabs_of r g);
                j = length (filter tb_pinned rest);
                moved = (\<lambda>i. if i = k then j else let i' = (if k < i then i - 1 else i) in if j \<le> i' then i' + 1 else i')
            in in_frame r (\<lambda>f. f\<lparr>fr_tabs := insert_at j x' rest\<rparr>)
                 (in_app (at_window (\<lambda>w. w\<lparr>wn_pages := insert_at j (wn_pages w ! k) (remove_at k (wn_pages w)),
                    wn_selected := map_option moved (wn_selected w)\<rparr>) wi) g)
      | _ \<Rightarrow> g)"

section \<open>The tab menu\<close>

definition epimone_window_tab_menu_page :: "nat \<Rightarrow> ('d, 'w) gui \<Rightarrow> nat option" where
  "epimone_window_tab_menu_page r g =
     (case fr_menu_page (gu_frames g r) of Some t \<Rightarrow> Some t | None \<Rightarrow> selected_tab r g)"

definition epimone_window_tab_menu_epi_page :: "nat \<Rightarrow> ('d, 'w) gui \<Rightarrow> 'd page option" where
  "epimone_window_tab_menu_epi_page r g =
     (case epimone_window_tab_menu_page r g of None \<Rightarrow> None | Some t \<Rightarrow> page_of t g)"

definition enable :: "string \<Rightarrow> bool \<Rightarrow> frame \<Rightarrow> frame" where
  "enable name on f = f\<lparr>fr_disabled := (if on then fr_disabled f - {lit name} else insert (lit name) (fr_disabled f))\<rparr>"

definition epimone_window_setup_menu_cb :: "nat \<Rightarrow> nat option \<Rightarrow> ('d, 'w) gui \<Rightarrow> ('d, 'w) gui" where
  "epimone_window_setup_menu_cb r page g =
     (case page of
        None \<Rightarrow> in_frame r (\<lambda>f. f\<lparr>fr_clear_idle := True\<rparr>) g
      | Some t \<Rightarrow>
          let pinned = (case tab_index t r g of Some k \<Rightarrow> tb_pinned (tabs_of r g ! k) | None \<Rightarrow> False);
              several = (1 < n_pages r g)
          in in_frame r (\<lambda>f. enable ''tab-move-to-new-window'' several (enable ''tab-close-others'' several
                 (enable ''tab-unpin'' pinned (enable ''tab-pin'' (\<not> pinned)
                   (f\<lparr>fr_clear_idle := False, fr_menu_page := Some t, fr_hook_idle := True\<rparr>))))) g)"

definition epimone_window_clear_menu_page_cb :: "nat \<Rightarrow> ('d, 'w) gui \<Rightarrow> ('d, 'w) gui" where
  "epimone_window_clear_menu_page_cb r g = in_frame r (\<lambda>f. f\<lparr>fr_clear_idle := False, fr_menu_page := None\<rparr>) g"

text \<open>The idle callback that hooks the menu's popover; whether that has been built yet is the toolkit's.\<close>

definition epimone_window_hook_tab_popover_cb :: "nat \<Rightarrow> ('d, 'w) gui \<Rightarrow> ('d, 'w) gui" where
  "epimone_window_hook_tab_popover_cb r g = in_frame r (\<lambda>f. f\<lparr>fr_hook_idle := False\<rparr>) g"

end
