(* ===== verification/Window_Actions.thy ===== *)
theory Window_Actions
  imports Window_Tabs Shortcuts
begin

text \<open>
  The actions of a window (src/src/epimone-window.c) with the dialogs they ask, the operations on the
  focused pane they pass on and the pane menu (src/src/epimone-page.c).
\<close>

section \<open>Operations on pages\<close>

text \<open>An operation that may find the last pane gone: the page then asks for its tab to be closed.\<close>

definition page_action ::
  "('d, 'w) system \<Rightarrow> tab_view \<Rightarrow> nat \<Rightarrow> ('d page \<Rightarrow> 'd page) \<Rightarrow> nat \<Rightarrow> ('d, 'w) gui \<Rightarrow> ('d, 'w) gui" where
  "page_action y tv r h t g =
     (case page_of t g of
        None \<Rightarrow> g
      | Some p \<Rightarrow>
          let g1 = page_step h t g in
          if Close_page \<in> set (pg_calls (h (p\<lparr>pg_calls := []\<rparr>))) then epimone_window_page_close_cb y tv r t g1 else g1)"

definition on_current ::
  "nat \<Rightarrow> (nat \<Rightarrow> 'd page \<Rightarrow> ('d, 'w) gui \<Rightarrow> ('d, 'w) gui) \<Rightarrow> ('d, 'w) gui \<Rightarrow> ('d, 'w) gui" where
  "on_current r h g =
     (case selected_tab r g of
        None \<Rightarrow> g
      | Some t \<Rightarrow> (case page_of t g of None \<Rightarrow> g | Some p \<Rightarrow> h t p g))"

definition focused_op :: "string \<Rightarrow> 'd page \<Rightarrow> ('d, 'w) gui \<Rightarrow> ('d, 'w) gui" where
  "focused_op name p g = (case pg_focused p of None \<Rightarrow> g | Some x \<Rightarrow> gui_log (Terminal_op (lit name) x) g)"

definition epimone_page_copy :: "'d page \<Rightarrow> ('d, 'w) gui \<Rightarrow> ('d, 'w) gui" where
  "epimone_page_copy = focused_op ''copy''"

definition epimone_page_paste :: "'d page \<Rightarrow> ('d, 'w) gui \<Rightarrow> ('d, 'w) gui" where
  "epimone_page_paste = focused_op ''paste''"

definition epimone_page_select_all :: "'d page \<Rightarrow> ('d, 'w) gui \<Rightarrow> ('d, 'w) gui" where
  "epimone_page_select_all = focused_op ''select-all''"

definition epimone_page_select_none :: "'d page \<Rightarrow> ('d, 'w) gui \<Rightarrow> ('d, 'w) gui" where
  "epimone_page_select_none = focused_op ''select-none''"

definition epimone_page_reset_terminal :: "'d page \<Rightarrow> bool \<Rightarrow> ('d, 'w) gui \<Rightarrow> ('d, 'w) gui" where
  "epimone_page_reset_terminal p clear_history = focused_op (if clear_history then ''reset-and-clear'' else ''reset'') p"

definition epimone_page_get_read_only :: "'d page \<Rightarrow> ('d, 'w) gui \<Rightarrow> bool" where
  "epimone_page_get_read_only p g = (case pg_focused p of None \<Rightarrow> False | Some x \<Rightarrow> x \<in> gu_read_only g)"

definition epimone_page_set_read_only :: "'d page \<Rightarrow> bool \<Rightarrow> ('d, 'w) gui \<Rightarrow> ('d, 'w) gui" where
  "epimone_page_set_read_only p read_only g =
     (case pg_focused p of
        None \<Rightarrow> g
      | Some x \<Rightarrow> g\<lparr>gu_read_only := (if read_only then insert x (gu_read_only g) else gu_read_only g - {x})\<rparr>)"

section \<open>The pane menu\<close>

definition epimone_page_set_win_action_enabled :: "nat \<Rightarrow> string \<Rightarrow> bool \<Rightarrow> ('d, 'w) gui \<Rightarrow> ('d, 'w) gui" where
  "epimone_page_set_win_action_enabled t name enabled g =
     (case home_of t g of None \<Rightarrow> g | Some r \<Rightarrow> in_frame r (enable name enabled) g)"

definition epimone_page_menu_closed_cb :: "nat \<Rightarrow> ('d, 'w) gui \<Rightarrow> ('d, 'w) gui" where
  "epimone_page_menu_closed_cb t g =
     epimone_page_set_win_action_enabled t ''zoom'' True (epimone_page_set_win_action_enabled t ''open-in-new-tab'' True g)"

text \<open>\<open>placed\<close> is whether the toolkit can say where in the page the click was.\<close>

definition epimone_page_popup_menu :: "('d, 'w) system \<Rightarrow> bool \<Rightarrow> nat \<Rightarrow> nat \<Rightarrow> ('d, 'w) gui \<Rightarrow> ('d, 'w) gui" where
  "epimone_page_popup_menu y placed t x g =
     (let g1 = page_step (\<lambda>p. epimone_page_set_focused (sy_env y) (Some x) (page_log (Grab_focus x) p)) t g in
      case page_of t g1 of
        None \<Rightarrow> g1
      | Some p \<Rightarrow>
          if \<not> placed then g1
          else
            let multi = (2 \<le> epimone_page_get_pane_count p);
                g2 = epimone_page_set_win_action_enabled t ''zoom'' multi
                       (epimone_page_set_win_action_enabled t ''open-in-new-tab'' multi g1)
            in case home_of t g2 of
                 None \<Rightarrow> g2
               | Some r \<Rightarrow> in_frame r (\<lambda>f. f\<lparr>fr_read_only := epimone_page_get_read_only p g2\<rparr>) g2)"

definition GDK_SUPER_MASK :: mods where "GDK_SUPER_MASK = 0x4000000"
definition GDK_KEY_Menu :: keyval where "GDK_KEY_Menu = 0xff67"
definition GDK_KEY_F10 :: keyval where "GDK_KEY_F10 = 0xffc7"

text \<open>The keys that open the pane menu; the result says whether the key is consumed.\<close>

definition epimone_page_key_pressed_cb ::
  "('d, 'w) system \<Rightarrow> mods \<Rightarrow> bool \<Rightarrow> nat \<Rightarrow> nat \<Rightarrow> keyval \<Rightarrow> mods \<Rightarrow> ('d, 'w) gui \<Rightarrow> bool \<times> ('d, 'w) gui" where
  "epimone_page_key_pressed_cb y modmask placed t x key state g =
     (let mods = state AND modmask in
      if mods AND (GDK_CONTROL_MASK OR GDK_ALT_MASK OR GDK_SUPER_MASK) \<noteq> 0 then (False, g)
      else if key = GDK_KEY_Menu \<or> key = GDK_KEY_F10 \<and> mods = GDK_SHIFT_MASK
      then (True, epimone_page_popup_menu y placed t x g)
      else (False, g))"

section \<open>Actions\<close>

definition epimone_window_active_group :: "nat \<Rightarrow> ('d, 'w) gui \<Rightarrow> u64" where
  "epimone_window_active_group r g = (case epimone_window_current_page r g of Some p \<Rightarrow> pg_group p | None \<Rightarrow> 0)"

definition epimone_window_show_overview :: "nat \<Rightarrow> ('d, 'w) gui \<Rightarrow> ('d, 'w) gui" where
  "epimone_window_show_overview r g =
     gui_log (Overview_to r True (epimone_window_active_group r g)) (in_frame r (\<lambda>f. f\<lparr>fr_overview := True\<rparr>) g)"

definition epimone_window_hide_overview :: "nat \<Rightarrow> ('d, 'w) gui \<Rightarrow> ('d, 'w) gui" where
  "epimone_window_hide_overview r g =
     gui_log (Overview_to r False (epimone_window_active_group r g)) (in_frame r (\<lambda>f. f\<lparr>fr_overview := False\<rparr>) g)"

definition epimone_window_toggle_overview :: "nat \<Rightarrow> ('d, 'w) gui \<Rightarrow> ('d, 'w) gui" where
  "epimone_window_toggle_overview r g =
     (if fr_overview (gu_frames g r) then epimone_window_hide_overview r g else epimone_window_show_overview r g)"

text \<open>What an action gets from outside: the session the daemon starts, and the directory of a new pane.\<close>

record surroundings =
  su_session :: u64
  su_cwd :: "nat \<Rightarrow> byte list option"

definition spawn_cwd :: "surroundings \<Rightarrow> 'd page \<Rightarrow> byte list option" where
  "spawn_cwd su p = (case pg_focused p of None \<Rightarrow> None | Some x \<Rightarrow> su_cwd su x)"

definition new_tab_action :: "('d, 'w) system \<Rightarrow> tab_view \<Rightarrow> surroundings \<Rightarrow> nat \<Rightarrow> ('d, 'w) gui \<Rightarrow> ('d, 'w) gui" where
  "new_tab_action y tv su r g =
     epimone_window_add_tab_with_cwd y tv (su_session su)
       (case epimone_window_current_page r g of None \<Rightarrow> None | Some p \<Rightarrow> spawn_cwd su p) r g"

definition split_current ::
  "('d, 'w) system \<Rightarrow> tab_view \<Rightarrow> surroundings \<Rightarrow> orientation \<Rightarrow> nat \<Rightarrow> ('d, 'w) gui \<Rightarrow> ('d, 'w) gui" where
  "split_current y tv su orient r g =
     on_current r (\<lambda>t p g.
       if pg_focused p = None then g
       else let n = ap_next (gu_app g);
                g1 = gui_log (Spawned (spawn_cwd su p) (su_session su)) (in_app (\<lambda>a. a\<lparr>ap_next := n + 2\<rparr>) g)
            in page_step (epimone_page_split (sy_env y) orient n (n + 1) (su_session su)) t g1) g"

definition split_right_action :: "('d, 'w) system \<Rightarrow> tab_view \<Rightarrow> surroundings \<Rightarrow> nat \<Rightarrow> ('d, 'w) gui \<Rightarrow> ('d, 'w) gui" where
  "split_right_action y tv su = split_current y tv su Horizontal"

definition split_down_action :: "('d, 'w) system \<Rightarrow> tab_view \<Rightarrow> surroundings \<Rightarrow> nat \<Rightarrow> ('d, 'w) gui \<Rightarrow> ('d, 'w) gui" where
  "split_down_action y tv su = split_current y tv su Vertical"

definition close_pane_action :: "('d, 'w) system \<Rightarrow> tab_view \<Rightarrow> nat \<Rightarrow> ('d, 'w) gui \<Rightarrow> ('d, 'w) gui" where
  "close_pane_action y tv r g =
     on_current r (\<lambda>t p. page_action y tv r (epimone_page_close_pane (sy_env y)) t) g"

definition zoom_action :: "('d, 'w) system \<Rightarrow> nat \<Rightarrow> ('d, 'w) gui \<Rightarrow> ('d, 'w) gui" where
  "zoom_action y r g = on_current r (\<lambda>t p. page_step (epimone_page_toggle_zoom (sy_env y)) t) g"

definition open_in_new_tab_action :: "('d, 'w) system \<Rightarrow> tab_view \<Rightarrow> nat \<Rightarrow> ('d, 'w) gui \<Rightarrow> ('d, 'w) gui" where
  "open_in_new_tab_action y tv r g =
     on_current r (\<lambda>t p g.
       if epimone_page_get_pane_count p < 2 then g
       else
         let position = (case tab_index t r g of Some k \<Rightarrow> int k + 1 | None \<Rightarrow> - 1);
             g1 = page_step (\<lambda>p. snd (epimone_page_take_focused_leaf (sy_env y) p)) t g
         in case fst (epimone_page_take_focused_leaf (sy_env y) (p\<lparr>pg_calls := []\<rparr>)) of
              None \<Rightarrow> g1
            | Some (x, s) \<Rightarrow>
                (case page_calls (epimone_page_adopt_leaf (sy_env y) x s epimone_page_new_empty) g1 of (q, g2) \<Rightarrow>
                 case epimone_window_attach_page_at y tv r q position g2 of (t', g3) \<Rightarrow>
                   schedule_save (page_step (epimone_page_focus_terminal (sy_env y)) t' (select_tab y r t' g3)))) g"

definition copy_action :: "nat \<Rightarrow> ('d, 'w) gui \<Rightarrow> ('d, 'w) gui" where
  "copy_action r = on_current r (\<lambda>t. epimone_page_copy)"

definition paste_action :: "nat \<Rightarrow> ('d, 'w) gui \<Rightarrow> ('d, 'w) gui" where
  "paste_action r = on_current r (\<lambda>t. epimone_page_paste)"

definition select_all_action :: "nat \<Rightarrow> ('d, 'w) gui \<Rightarrow> ('d, 'w) gui" where
  "select_all_action r = on_current r (\<lambda>t. epimone_page_select_all)"

definition select_none_action :: "nat \<Rightarrow> ('d, 'w) gui \<Rightarrow> ('d, 'w) gui" where
  "select_none_action r = on_current r (\<lambda>t. epimone_page_select_none)"

definition read_only_action :: "nat \<Rightarrow> ('d, 'w) gui \<Rightarrow> ('d, 'w) gui" where
  "read_only_action r =
     on_current r (\<lambda>t p g.
       let on = \<not> epimone_page_get_read_only p g
       in in_frame r (\<lambda>f. f\<lparr>fr_read_only := on\<rparr>) (epimone_page_set_read_only p on g))"

definition reset_action :: "nat \<Rightarrow> ('d, 'w) gui \<Rightarrow> ('d, 'w) gui" where
  "reset_action r = on_current r (\<lambda>t p. epimone_page_reset_terminal p False)"

definition reset_and_clear_action :: "nat \<Rightarrow> ('d, 'w) gui \<Rightarrow> ('d, 'w) gui" where
  "reset_and_clear_action r = on_current r (\<lambda>t p. epimone_page_reset_terminal p True)"

subsection \<open>Renaming\<close>

text \<open>The white space that GLib strips is a parameter.\<close>

definition g_strstrip :: "(byte \<Rightarrow> bool) \<Rightarrow> byte list \<Rightarrow> byte list" where
  "g_strstrip space s = rev (dropWhile space (rev (dropWhile space s)))"

definition set_title_response_cb ::
  "('d, 'w) system \<Rightarrow> (byte \<Rightarrow> bool) \<Rightarrow> nat \<Rightarrow> nat \<Rightarrow> byte list \<Rightarrow> byte list \<Rightarrow> ('d, 'w) gui \<Rightarrow> ('d, 'w) gui" where
  "set_title_response_cb y space r t response entry g =
     focus_current y r
       (if response = lit ''set''
        then page_step (epimone_page_set_custom_title (sy_env y)
               (let name = g_strstrip space entry in if name \<noteq> [] then Some name else None)) t g
        else g)"

definition epimone_window_present_set_title :: "('d, 'w) system \<Rightarrow> nat \<Rightarrow> nat \<Rightarrow> ('d, 'w) gui \<Rightarrow> ('d, 'w) gui" where
  "epimone_window_present_set_title y r t g =
     (case page_of t g of
        None \<Rightarrow> g
      | Some p \<Rightarrow> gui_log (Ask_title r t (case pg_custom p of Some c \<Rightarrow> c | None \<Rightarrow> [])
                     (epimone_page_get_shell_title (sy_env y) p)) g)"

definition set_title_action :: "('d, 'w) system \<Rightarrow> nat \<Rightarrow> ('d, 'w) gui \<Rightarrow> ('d, 'w) gui" where
  "set_title_action y r = on_current r (\<lambda>t p. epimone_window_present_set_title y r t)"

subsection \<open>The tab menu's\<close>

definition on_menu_tab :: "nat \<Rightarrow> (nat \<Rightarrow> ('d, 'w) gui \<Rightarrow> ('d, 'w) gui) \<Rightarrow> ('d, 'w) gui \<Rightarrow> ('d, 'w) gui" where
  "on_menu_tab r h g = (case epimone_window_tab_menu_page r g of None \<Rightarrow> g | Some t \<Rightarrow> h t g)"

definition tab_move_left_action :: "tab_view \<Rightarrow> nat \<Rightarrow> ('d, 'w) gui \<Rightarrow> ('d, 'w) gui" where
  "tab_move_left_action tv r = on_menu_tab r (reorder_backward tv r)"

definition tab_move_right_action :: "tab_view \<Rightarrow> nat \<Rightarrow> ('d, 'w) gui \<Rightarrow> ('d, 'w) gui" where
  "tab_move_right_action tv r = on_menu_tab r (reorder_forward tv r)"

definition tab_move_to_new_window_action :: "('d, 'w) system \<Rightarrow> tab_view \<Rightarrow> nat \<Rightarrow> ('d, 'w) gui \<Rightarrow> ('d, 'w) gui" where
  "tab_move_to_new_window_action y tv r = on_menu_tab r (epimone_window_move_page_to_new_window y tv)"

definition tab_pin_action :: "nat \<Rightarrow> ('d, 'w) gui \<Rightarrow> ('d, 'w) gui" where
  "tab_pin_action r = on_menu_tab r (\<lambda>t. set_pinned r t True)"

definition tab_unpin_action :: "nat \<Rightarrow> ('d, 'w) gui \<Rightarrow> ('d, 'w) gui" where
  "tab_unpin_action r = on_menu_tab r (\<lambda>t. set_pinned r t False)"

definition tab_set_title_action :: "('d, 'w) system \<Rightarrow> nat \<Rightarrow> ('d, 'w) gui \<Rightarrow> ('d, 'w) gui" where
  "tab_set_title_action y r = on_menu_tab r (epimone_window_present_set_title y r)"

definition tab_close_action :: "('d, 'w) system \<Rightarrow> tab_view \<Rightarrow> nat \<Rightarrow> ('d, 'w) gui \<Rightarrow> ('d, 'w) gui" where
  "tab_close_action y tv r = on_menu_tab r (close_tab y tv r)"

definition tab_close_others_action :: "('d, 'w) system \<Rightarrow> tab_view \<Rightarrow> nat \<Rightarrow> ('d, 'w) gui \<Rightarrow> ('d, 'w) gui" where
  "tab_close_others_action y tv r =
     on_menu_tab r (\<lambda>t g.
       if tab_index t r g = None then g
       else fold (close_tab y tv r) (tv_others tv (map tb_ref (tabs_of r g)) t) g)"

subsection \<open>Windows\<close>

definition new_window_action :: "('d, 'w) system \<Rightarrow> tab_view \<Rightarrow> surroundings \<Rightarrow> ('d, 'w) gui \<Rightarrow> ('d, 'w) gui" where
  "new_window_action y tv su g =
     (case new_window g of (r, g1) \<Rightarrow> gui_log (Present r) (epimone_window_add_tab y tv (su_session su) r g1))"

definition preferences_action :: "('d, 'w) gui \<Rightarrow> ('d, 'w) gui" where
  "preferences_action g = gui_log Present_settings (g\<lparr>gu_settings := True\<rparr>)"

definition focus_direction_action :: "('d, 'w) system \<Rightarrow> nat \<Rightarrow> byte list \<Rightarrow> ('d, 'w) gui \<Rightarrow> ('d, 'w) gui" where
  "focus_direction_action y r dir g =
     on_current r (\<lambda>t p g.
       case map_of [(lit ''left'', Dir_left), (lit ''right'', Dir_right), (lit ''up'', Dir_up), (lit ''down'', Dir_down)] dir of
         None \<Rightarrow> g
       | Some d \<Rightarrow> page_step (epimone_page_focus_direction (sy_fp y) (sy_env y) d) t g) g"

text \<open>Tabs for the pages that a restore has put into the windows, and the header after it.\<close>

definition wire_restored :: "nat \<Rightarrow> ('d, 'w) gui \<Rightarrow> ('d, 'w) gui" where
  "wire_restored r g =
     (let missing = n_pages r g - length (tabs_of r g);
          fresh = map (\<lambda>i. \<lparr>tb_ref = gu_next_tab g + i, tb_pinned = False, tb_icon = False\<rparr>) [0..<missing]
      in epimone_window_rebind_title r
           (in_frame r (\<lambda>f. f\<lparr>fr_tabs := fr_tabs f @ fresh\<rparr>) (g\<lparr>gu_next_tab := gu_next_tab g + missing\<rparr>)))"

definition restore_group_action :: "('d, 'w) system \<Rightarrow> nat \<Rightarrow> u64 \<Rightarrow> ('d, 'w) gui \<Rightarrow> ('d, 'w) gui" where
  "restore_group_action y r gid g =
     (case window_index r g of
        None \<Rightarrow> g
      | Some wi \<Rightarrow>
          (case epimone_layout_restore_group y wi gid (gu_app g) of (res, a) \<Rightarrow>
             let g1 = fold wire_restored (map wn_ref (ap_windows a)) (g\<lparr>gu_app := a\<rparr>)
             in case res of Inl _ \<Rightarrow> gui_log (Warn_restore gid) g1 | Inr _ \<Rightarrow> g1))"

definition overview_action :: "nat \<Rightarrow> ('d, 'w) gui \<Rightarrow> ('d, 'w) gui" where
  "overview_action r = epimone_window_toggle_overview r"

subsection \<open>Killing\<close>

text \<open>The id that the dialog keeps went through a pointer made of an unsigned int.\<close>

definition kept_sid :: "u64 \<Rightarrow> u64" where
  "kept_sid sid = ucast (ucast sid :: u32)"

definition kill_pane_action :: "nat \<Rightarrow> ('d, 'w) gui \<Rightarrow> ('d, 'w) gui" where
  "kill_pane_action r =
     on_current r (\<lambda>t p g.
       let sid = epimone_page_get_focused_session p
       in if sid = 0 then g else gui_log (Ask_kill r (kept_sid sid)) g)"

definition kill_pane_response_cb :: "('d, 'w) system \<Rightarrow> nat \<Rightarrow> u64 \<Rightarrow> byte list \<Rightarrow> ('d, 'w) gui \<Rightarrow> ('d, 'w) gui" where
  "kill_pane_response_cb y r sid response g =
     focus_current y r
       (if response = lit ''kill'' \<and> sid \<noteq> 0
        then in_app (\<lambda>a. a\<lparr>ap_world := api_kill_session (sy_api y) sid (ap_world a)\<rparr>) g else g)"

section \<open>The table\<close>

datatype win_action =
    New_tab | Split_right | Split_down | Close_pane | Zoom | Open_in_new_tab | New_window | Copy | Paste | Select_all
  | Select_none | Read_only | Reset | Reset_and_clear | Set_title | Tab_move_left | Tab_move_right
  | Tab_move_to_new_window | Tab_pin | Tab_unpin | Tab_set_title | Tab_close | Tab_close_others | Preferences
  | Focus "byte list" | Overview | Kill_pane | Restore_group u64

fun action_name :: "win_action \<Rightarrow> string" where
  "action_name New_tab = ''new-tab''" | "action_name Split_right = ''split-right''"
| "action_name Split_down = ''split-down''" | "action_name Close_pane = ''close-pane''"
| "action_name Zoom = ''zoom''" | "action_name Open_in_new_tab = ''open-in-new-tab''"
| "action_name New_window = ''new-window''" | "action_name Copy = ''copy''" | "action_name Paste = ''paste''"
| "action_name Select_all = ''select-all''" | "action_name Select_none = ''select-none''"
| "action_name Read_only = ''read-only''" | "action_name Reset = ''reset''"
| "action_name Reset_and_clear = ''reset-and-clear''" | "action_name Set_title = ''set-title''"
| "action_name Tab_move_left = ''tab-move-left''" | "action_name Tab_move_right = ''tab-move-right''"
| "action_name Tab_move_to_new_window = ''tab-move-to-new-window''" | "action_name Tab_pin = ''tab-pin''"
| "action_name Tab_unpin = ''tab-unpin''" | "action_name Tab_set_title = ''tab-set-title''"
| "action_name Tab_close = ''tab-close''" | "action_name Tab_close_others = ''tab-close-others''"
| "action_name Preferences = ''preferences''" | "action_name (Focus _) = ''focus''"
| "action_name Overview = ''overview''" | "action_name Kill_pane = ''kill-pane''"
| "action_name (Restore_group _) = ''restore-group''"

fun perform ::
  "('d, 'w) system \<Rightarrow> tab_view \<Rightarrow> surroundings \<Rightarrow> nat \<Rightarrow> win_action \<Rightarrow> ('d, 'w) gui \<Rightarrow> ('d, 'w) gui" where
  "perform y tv su r New_tab = new_tab_action y tv su r"
| "perform y tv su r Split_right = split_right_action y tv su r"
| "perform y tv su r Split_down = split_down_action y tv su r"
| "perform y tv su r Close_pane = close_pane_action y tv r"
| "perform y tv su r Zoom = zoom_action y r"
| "perform y tv su r Open_in_new_tab = open_in_new_tab_action y tv r"
| "perform y tv su r New_window = new_window_action y tv su"
| "perform y tv su r Copy = copy_action r"
| "perform y tv su r Paste = paste_action r"
| "perform y tv su r Select_all = select_all_action r"
| "perform y tv su r Select_none = select_none_action r"
| "perform y tv su r Read_only = read_only_action r"
| "perform y tv su r Reset = reset_action r"
| "perform y tv su r Reset_and_clear = reset_and_clear_action r"
| "perform y tv su r Set_title = set_title_action y r"
| "perform y tv su r Tab_move_left = tab_move_left_action tv r"
| "perform y tv su r Tab_move_right = tab_move_right_action tv r"
| "perform y tv su r Tab_move_to_new_window = tab_move_to_new_window_action y tv r"
| "perform y tv su r Tab_pin = tab_pin_action r"
| "perform y tv su r Tab_unpin = tab_unpin_action r"
| "perform y tv su r Tab_set_title = tab_set_title_action y r"
| "perform y tv su r Tab_close = tab_close_action y tv r"
| "perform y tv su r Tab_close_others = tab_close_others_action y tv r"
| "perform y tv su r Preferences = preferences_action"
| "perform y tv su r (Focus dir) = focus_direction_action y r dir"
| "perform y tv su r Overview = overview_action r"
| "perform y tv su r Kill_pane = kill_pane_action r"
| "perform y tv su r (Restore_group gid) = restore_group_action y r gid"

text \<open>An action that is disabled does nothing, whoever activates it.\<close>

definition activate ::
  "('d, 'w) system \<Rightarrow> tab_view \<Rightarrow> surroundings \<Rightarrow> nat \<Rightarrow> win_action \<Rightarrow> ('d, 'w) gui \<Rightarrow> ('d, 'w) gui" where
  "activate y tv su r act g =
     (if lit (action_name act) \<in> fr_disabled (gu_frames g r) then g else perform y tv su r act g)"

end
