(* ===== verification/Window_Shape.thy ===== *)
theory Window_Shape
  imports Window_Actions Layout_Inv
begin

text \<open>
  What every operation on windows keeps: tabs and pages run in parallel, pinned tabs come first and
  have the icon, a window with pages has one selected, and the header is bound to it.
\<close>

section \<open>The shape of the windows\<close>

definition shape :: "('d, 'w) app \<Rightarrow> (nat \<times> nat \<times> nat option) list" where
  "shape a = map (\<lambda>w. (wn_ref w, length (wn_pages w), wn_selected w)) (ap_windows a)"

lemma shape_nth: "i < length (ap_windows a) \<Longrightarrow>
    shape a ! i = (wn_ref (ap_windows a ! i), length (wn_pages (ap_windows a ! i)), wn_selected (ap_windows a ! i))"
  by (simp add: shape_def)

lemma length_shape [simp]: "length (shape a) = length (ap_windows a)"
  by (simp add: shape_def)

lemma find_index_Some: "find_index P xs = Some i \<longleftrightarrow> i < length xs \<and> P (xs ! i) \<and> (\<forall>j < i. \<not> P (xs ! j))"
proof (induction xs arbitrary: i)
  case (Cons x xs)
  show ?case
  proof (cases i)
    case 0
    then show ?thesis by simp
  next
    case (Suc k)
    then show ?thesis using Cons by (auto simp: All_less_Suc2)
  qed
qed simp

lemma find_index_None: "find_index P xs = None \<longleftrightarrow> (\<forall>x \<in> set xs. \<not> P x)"
  by (induction xs) auto

lemma find_index_map: "find_index P (map f xs) = find_index (\<lambda>x. P (f x)) xs"
  by (induction xs) auto

lemma window_index_shape: "window_index r g = find_index (\<lambda>x. fst x = r) (shape (gu_app g))"
  by (simp add: window_index_def shape_def find_index_map)

text \<open>A window's number of pages and selection, by its address.\<close>

definition seen :: "nat \<Rightarrow> ('d, 'w) gui \<Rightarrow> (nat \<times> nat option) option" where
  "seen r g = map_option (\<lambda>wi. snd (shape (gu_app g) ! wi)) (window_index r g)"

lemma window_index_bound: "window_index r g = Some wi \<Longrightarrow> wi < length (ap_windows (gu_app g)) \<and> wn_ref (ap_windows (gu_app g) ! wi) = r"
  by (simp add: window_index_def find_index_Some)

lemma seen_Some: "window_index r g = Some wi \<Longrightarrow>
    seen r g = Some (length (wn_pages (ap_windows (gu_app g) ! wi)), wn_selected (ap_windows (gu_app g) ! wi))"
  by (auto simp: seen_def shape_nth dest: window_index_bound)

lemma seen_None: "window_index r g = None \<Longrightarrow> seen r g = None"
  by (simp add: seen_def)

lemma n_pages_seen: "n_pages r g = (case seen r g of None \<Rightarrow> 0 | Some (n, _) \<Rightarrow> n)"
  by (cases "window_index r g") (simp_all add: n_pages_def window_of_def seen_Some seen_None)

lemma selected_seen: "selected_tab r g =
    (case seen r g of None \<Rightarrow> None
     | Some (_, s) \<Rightarrow> (case s of None \<Rightarrow> None
                      | Some i \<Rightarrow> if i < length (tabs_of r g) then Some (tb_ref (tabs_of r g ! i)) else None))"
  by (cases "window_index r g") (simp_all add: selected_tab_def window_of_def seen_Some seen_None split: option.split)

section \<open>The invariant\<close>

abbreviation before :: "tab \<Rightarrow> tab \<Rightarrow> bool" where
  "before x x' \<equiv> tb_pinned x' \<longrightarrow> tb_pinned x"

definition sel_ok :: "nat \<Rightarrow> nat option \<Rightarrow> bool" where
  "sel_ok n s \<longleftrightarrow> (case s of None \<Rightarrow> n = 0 | Some i \<Rightarrow> i < n)"

definition tabs_ok :: "tab list \<Rightarrow> nat \<Rightarrow> bool" where
  "tabs_ok ts n \<longleftrightarrow> length ts = n \<and> sorted_wrt before ts \<and> (\<forall>x \<in> set ts. tb_icon x = tb_pinned x)"

definition frame_ok :: "frame \<Rightarrow> nat \<Rightarrow> nat option \<Rightarrow> bool" where
  "frame_ok f n s \<longleftrightarrow> tabs_ok (fr_tabs f) n \<and> sel_ok n s \<and>
     fr_title_from f = map_option (\<lambda>i. tb_ref (fr_tabs f ! i)) s"

text \<open>The invariant but for the windows \<open>X\<close>, of which only their tabs are known to be right.\<close>

definition almost :: "nat set \<Rightarrow> ('d, 'w) gui \<Rightarrow> bool" where
  "almost X g \<longleftrightarrow> distinct (map fst (shape (gu_app g))) \<and>
     (\<forall>(r, n, s) \<in> set (shape (gu_app g)). r < ap_next (gu_app g) \<and> tabs_ok (tabs_of r g) n \<and>
        (r \<notin> X \<longrightarrow> frame_ok (gu_frames g r) n s))"

abbreviation windows_ok :: "('d, 'w) gui \<Rightarrow> bool" where
  "windows_ok \<equiv> almost {}"

lemma almost_mono: "almost X g \<Longrightarrow> X \<subseteq> Y \<Longrightarrow> almost Y g"
  by (fastforce simp: almost_def)

text \<open>An operation on the application that leaves the shape as it is.\<close>

definition keeps_shape :: "('d, 'w) app \<Rightarrow> ('d, 'w) app \<Rightarrow> bool" where
  "keeps_shape a b \<longleftrightarrow> shape b = shape a \<and> ap_next a \<le> ap_next b"

lemma keeps_refl [simp, intro]: "keeps_shape a a" by (simp add: keeps_shape_def)
lemma keeps_trans [trans]: "keeps_shape a b \<Longrightarrow> keeps_shape b c \<Longrightarrow> keeps_shape a c" by (simp add: keeps_shape_def)

lemma almost_in_app: "keeps_shape (gu_app g) (h (gu_app g)) \<Longrightarrow> almost X g \<Longrightarrow> almost X (in_app h g)"
  by (fastforce simp: almost_def in_app_def keeps_shape_def tabs_of_def)

named_theorems shape_ops

lemma set_layout_keeps [shape_ops, simp]: "keeps_shape a (set_layout h a)"
  by (simp add: keeps_shape_def shape_def set_layout_def)

lemma at_page_keeps [shape_ops, simp]: "keeps_shape a (at_page h wi k a)"
proof (cases "wi < length (ap_windows a) \<and> k < length (wn_pages (ap_windows a ! wi))")
  case True
  then show ?thesis
    by (simp add: keeps_shape_def shape_def at_page_def Let_def map_update split: prod.split)
       (metis (mono_tags, lifting) length_map list_update_id nth_map)
next
  case False
  then show ?thesis by (auto simp: at_page_def)
qed

lemma world_keeps [simp]: "keeps_shape a (a\<lparr>ap_world := w\<rparr>)" "keeps_shape a (set_layout h (a\<lparr>ap_world := w\<rparr>))"
    "n \<ge> ap_next a \<Longrightarrow> keeps_shape a (a\<lparr>ap_next := n\<rparr>)"
    "n \<ge> ap_next a \<Longrightarrow> keeps_shape a (a\<lparr>ap_next := n, ap_world := w\<rparr>)"
  by (simp_all add: keeps_shape_def shape_def set_layout_def)

lemma focus_current_keeps [shape_ops, simp]: "keeps_shape a (epimone_window_focus_current_terminal y wi a)"
  by (auto simp: epimone_window_focus_current_terminal_def split: option.split)

lemma sync_pages_length: "length (fst (sync_pages y ps w)) = length ps"
proof (induction ps arbitrary: w)
  case (Cons p ps)
  obtain q w1 where q: "sync_page_group y p w = (q, w1)" by (cases "sync_page_group y p w")
  obtain qs w2 where "sync_pages y ps w1 = (qs, w2)" by (cases "sync_pages y ps w1")
  then show ?case using Cons [of w1] q by simp
qed simp

lemma sync_windows_shape:
  "map (\<lambda>w. (wn_ref w, length (wn_pages w), wn_selected w)) (fst (sync_windows y xs w)) =
   map (\<lambda>w. (wn_ref w, length (wn_pages w), wn_selected w)) xs"
proof (induction xs arbitrary: w)
  case (Cons x xs)
  obtain qs w1 where q: "sync_pages y (wn_pages x) w = (qs, w1)" by (cases "sync_pages y (wn_pages x) w")
  obtain ys w2 where "sync_windows y xs w1 = (ys, w2)" by (cases "sync_windows y xs w1")
  then show ?case using Cons [of w1] q sync_pages_length [of y "wn_pages x" w] by simp
qed simp

lemma sync_groups_keeps [simp]: "keeps_shape a (sync_groups_now y a)"
proof -
  obtain xs w where x: "sync_windows y (ap_windows a) (ap_world a) = (xs, w)"
    by (cases "sync_windows y (ap_windows a) (ap_world a)")
  obtain inst w1 where i: "api_instance_id (sy_api y) w = (inst, w1)" by (cases "api_instance_id (sy_api y) w")
  have "map (\<lambda>w. (wn_ref w, length (wn_pages w), wn_selected w)) xs = shape a"
    using sync_windows_shape [of y "ap_windows a" "ap_world a"] by (simp add: x shape_def)
  then show ?thesis
    by (simp add: keeps_shape_def shape_def sync_groups_now_def save_groups_state_def x i Let_def set_layout_def)
qed

lemma save_now_keeps [simp]: "keeps_shape a (epimone_layout_save_now y a)"
  by (simp add: epimone_layout_save_now_def Let_def keeps_shape_def shape_def)

lemma shutdown_keeps [simp]: "keeps_shape a (epimone_layout_begin_shutdown y a)"
proof (cases "ly_frozen (ap_layout a)")
  case False
  let ?a = "sync_groups_now y (set_layout (\<lambda>l. l\<lparr>ly_timer := False\<rparr>) a)"
  have "keeps_shape a ?a" by (rule keeps_trans [OF set_layout_keeps sync_groups_keeps])
  also have "keeps_shape ?a (epimone_layout_save_now y ?a)" by (rule save_now_keeps)
  finally show ?thesis using False unfolding epimone_layout_begin_shutdown_def Let_def
    by (simp only: if_False) (rule keeps_trans [OF _ set_layout_keeps])
qed (simp add: epimone_layout_begin_shutdown_def)

lemma save_timeout_keeps [simp]: "keeps_shape a (save_timeout_cb y a)"
proof -
  have l: "keeps_shape a (a\<lparr>ap_layout := l\<rparr>)" for l by (simp add: keeps_shape_def shape_def)
  have s: "keeps_shape a (sync_groups_now y (a\<lparr>ap_layout := l\<rparr>))" for l by (rule keeps_trans [OF l sync_groups_keeps])
  show ?thesis unfolding save_timeout_cb_def Let_def
    using l s by (simp add: keeps_trans [OF _ save_now_keeps])
qed

section \<open>Editing one window\<close>

lemma at_window_shape:
  assumes "wi < length (ap_windows a)" "wn_ref (H (ap_windows a ! wi)) = wn_ref (ap_windows a ! wi)"
  shows "shape (at_window H wi a) = (shape a)[wi := (wn_ref (ap_windows a ! wi),
    length (wn_pages (H (ap_windows a ! wi))), wn_selected (H (ap_windows a ! wi)))]"
  using assms by (simp add: shape_def at_window_def map_update)

lemma at_window_next [simp]: "ap_next (at_window H wi a) = ap_next a"
  by (simp add: at_window_def)

lemma almost_edit:
  assumes "almost X g" "window_index r g = Some wi" "X \<subseteq> insert r Y"
    and "wn_ref (H (ap_windows (gu_app g) ! wi)) = r"
    and "tabs_ok (fr_tabs (F (gu_frames g r))) (length (wn_pages (H (ap_windows (gu_app g) ! wi))))"
    and "r \<notin> Y \<Longrightarrow> frame_ok (F (gu_frames g r)) (length (wn_pages (H (ap_windows (gu_app g) ! wi))))
           (wn_selected (H (ap_windows (gu_app g) ! wi)))"
  shows "almost Y (in_frame r F (in_app (at_window H wi) g))"
proof -
  let ?w = "ap_windows (gu_app g) ! wi"
  let ?e = "(r, length (wn_pages (H ?w)), wn_selected (H ?w))"
  have wi: "wi < length (ap_windows (gu_app g))" "wn_ref ?w = r" using window_index_bound [OF assms(2)] by auto
  have sh: "shape (at_window H wi (gu_app g)) = (shape (gu_app g))[wi := ?e]"
    using at_window_shape [OF wi(1), of H] assms(4) wi(2) by simp
  have fst_wi: "fst (shape (gu_app g) ! wi) = r" using wi by (simp add: shape_nth)
  have d: "distinct (map fst (shape (gu_app g)))" using assms(1) by (simp add: almost_def)
  have same: "map fst ((shape (gu_app g))[wi := ?e]) = map fst (shape (gu_app g))"
    using list_update_id [of "map fst (shape (gu_app g))" wi] fst_wi wi(1) by (simp add: map_update)
  have other: "e = ?e \<or> e \<in> set (shape (gu_app g)) \<and> fst e \<noteq> r" if e: "e \<in> set ((shape (gu_app g))[wi := ?e])" for e
  proof -
    obtain j where j: "j < length (shape (gu_app g))" "e = (shape (gu_app g))[wi := ?e] ! j"
      using e by (auto simp: in_set_conv_nth)
    show ?thesis
    proof (cases "j = wi")
      case False
      then have "e = shape (gu_app g) ! j" using j by simp
      moreover have "fst (shape (gu_app g) ! j) \<noteq> r"
        using nth_eq_iff_index_eq [OF d, of j wi] False j(1) wi(1) fst_wi by simp
      ultimately show ?thesis using j(1) by simp
    qed (use j in simp)
  qed
  have old: "r' < ap_next (gu_app g) \<and> tabs_ok (tabs_of r' g) n \<and> (r' \<notin> X \<longrightarrow> frame_ok (gu_frames g r') n s)"
    if "(r', n, s) \<in> set (shape (gu_app g))" for r' n s
    using assms(1) that unfolding almost_def by fastforce
  have "(r, snd (shape (gu_app g) ! wi)) \<in> set (shape (gu_app g))"
    using nth_mem [of wi "shape (gu_app g)"] wi(1) fst_wi by (metis length_shape prod.collapse)
  then have next_r: "r < ap_next (gu_app g)" using old by (metis prod.collapse)
  have "r' < ap_next (gu_app g) \<and> tabs_ok (tabs_of r' (in_frame r F (in_app (at_window H wi) g))) n \<and>
      (r' \<notin> Y \<longrightarrow> frame_ok (gu_frames (in_frame r F (in_app (at_window H wi) g)) r') n s)"
    if "(r', n, s) \<in> set ((shape (gu_app g))[wi := ?e])" for r' n s
  proof (cases "r' = r")
    case True
    then show ?thesis using other [OF that] next_r assms(5, 6) by (auto simp: tabs_of_def in_frame_def in_app_def)
  next
    case False
    then have "(r', n, s) \<in> set (shape (gu_app g))" using other [OF that] by auto
    then show ?thesis using old [of r' n s] False assms(3) by (auto simp: tabs_of_def in_frame_def in_app_def)
  qed
  then show ?thesis unfolding almost_def using d same
    by (auto simp: in_app_def in_frame_def sh) 
qed

lemma almost_frame:
  assumes "almost X g" "\<And>f. fr_tabs (F f) = fr_tabs f" "\<And>f. fr_title_from (F f) = fr_title_from f"
  shows "almost X (in_frame r F g)"
  using assms(1) unfolding almost_def by (auto simp: in_frame_def tabs_of_def frame_ok_def assms(2, 3))

lemma almost_gui [simp]:
  "almost X (gui_log e g) = almost X g" "almost X (g\<lparr>gu_held := m\<rparr>) = almost X g"
  "almost X (g\<lparr>gu_registry := rs\<rparr>) = almost X g" "almost X (g\<lparr>gu_next_tab := t\<rparr>) = almost X g"
  "almost X (g\<lparr>gu_prefs := p\<rparr>) = almost X g" "almost X (g\<lparr>gu_settings := b\<rparr>) = almost X g"
  "almost X (g\<lparr>gu_read_only := ro\<rparr>) = almost X g"
  by (simp_all add: almost_def gui_log_def tabs_of_def)

lemma almost_schedule [simp]: "almost X g \<Longrightarrow> almost X (schedule_save g)"
  unfolding schedule_save_def by (rule almost_in_app) simp_all

lemma almost_focus [simp]: "almost X g \<Longrightarrow> almost X (focus_current y r g)"
  unfolding focus_current_def by (auto intro: almost_in_app split: option.split)

lemma almost_page_calls: "almost X g \<Longrightarrow> page_calls p g = (q, g1) \<Longrightarrow> almost X g1"
  unfolding page_calls_def by (auto intro: almost_in_app)

lemma almost_page_step [simp]: "almost X g \<Longrightarrow> almost X (page_step h t g)"
  unfolding page_step_def by (auto intro: almost_in_app almost_page_calls split: option.split prod.split)

section \<open>Lists\<close>

lemma insert_at_length [simp]: "k \<le> length xs \<Longrightarrow> length (insert_at k x xs) = Suc (length xs)"
  by (simp add: insert_at_def)

lemma remove_at_length [simp]: "k < length xs \<Longrightarrow> length (remove_at k xs) = length xs - 1"
  by (simp add: remove_at_def)

lemma insert_at_nth:
  "k \<le> length xs \<Longrightarrow> i \<le> length xs \<Longrightarrow>
   insert_at k x xs ! i = (if i < k then xs ! i else if i = k then x else xs ! (i - 1))"
  by (auto simp: insert_at_def nth_append nth_Cons')

lemma remove_at_nth: "k < length xs \<Longrightarrow> i < length xs - 1 \<Longrightarrow> remove_at k xs ! i = (if i < k then xs ! i else xs ! Suc i)"
  by (auto simp: remove_at_def nth_append)

lemma set_insert_at: "set (insert_at k x xs) = insert x (set xs)"
  unfolding insert_at_def by (metis append_take_drop_id list.simps(15) set_append Un_insert_right)

lemma set_remove_at: "set (remove_at k xs) \<subseteq> set xs"
  by (auto simp: remove_at_def dest: in_set_takeD in_set_dropD)

lemma swap_at_length [simp]: "length (swap_at k xs) = length xs"
  by (simp add: swap_at_def)

lemma swap_at_nth: "Suc k < length xs \<Longrightarrow> i < length xs \<Longrightarrow>
    swap_at k xs ! i = (if i = k then xs ! Suc k else if i = Suc k then xs ! k else xs ! i)"
  by (auto simp: swap_at_def nth_list_update)

lemma set_swap_at [simp]: "set (swap_at k xs) = set xs"
  by (simp add: swap_at_def set_swap)

lemma sorted_remove_at:
  assumes "sorted_wrt R xs"
  shows "sorted_wrt R (remove_at k xs)"
proof -
  have "sorted_wrt R (take k xs @ drop k xs)" using assms by simp
  then show ?thesis unfolding remove_at_def
    by (cases "drop k xs") (auto simp: sorted_wrt_append drop_Suc tl_drop [symmetric])
qed

lemma pinned_split: "sorted_wrt before ts \<Longrightarrow> filter tb_pinned ts @ filter (\<lambda>x. \<not> tb_pinned x) ts = ts"
proof (induction ts)
  case (Cons x ts)
  show ?case
  proof (cases "tb_pinned x")
    case False
    then have "\<forall>y \<in> set ts. \<not> tb_pinned y" using Cons.prems by simp
    then have "filter tb_pinned ts = [] \<and> filter (\<lambda>x. \<not> tb_pinned x) ts = ts" by (simp add: filter_empty_conv)
    then show ?thesis using False by simp
  qed (use Cons in simp)
qed simp

lemma pinned_boundary:
  assumes "sorted_wrt before ts"
  shows "take (length (filter tb_pinned ts)) ts = filter tb_pinned ts"
    "drop (length (filter tb_pinned ts)) ts = filter (\<lambda>x. \<not> tb_pinned x) ts"
  using pinned_split [OF assms] by (metis append_eq_conv_conj)+

lemma sorted_insert_at:
  assumes "sorted_wrt before ts" "length (filter tb_pinned ts) \<le> k" "\<not> tb_pinned x \<or> k = length (filter tb_pinned ts)"
  shows "sorted_wrt before (insert_at k x ts)"
proof -
  let ?j = "length (filter tb_pinned ts)"
  have parts: "sorted_wrt before (take k ts @ drop k ts)" using assms(1) by simp
  have late: "\<not> tb_pinned z" if "z \<in> set (drop k ts)" for z
  proof -
    have "z \<in> set (drop ?j ts)" using that assms(2) set_drop_subset_set_drop [of ?j k ts] by blast
    then show ?thesis by (simp add: pinned_boundary(2) [OF assms(1)])
  qed
  have early: "tb_pinned z" if "z \<in> set (take k ts)" "tb_pinned x" for z
    using that assms(3) pinned_boundary(1) [OF assms(1)] by auto
  show ?thesis using parts late early unfolding insert_at_def sorted_wrt_append by auto
qed

lemma sorted_swap_at:
  assumes "sorted_wrt before ts" "Suc k < length ts" "tb_pinned (ts ! k) = tb_pinned (ts ! Suc k)"
  shows "sorted_wrt before (swap_at k ts)"
proof -
  have "before (swap_at k ts ! i) (swap_at k ts ! j)" if "i < j" "j < length ts" for i j
  proof -
    have p: "tb_pinned (swap_at k ts ! m) = tb_pinned (ts ! m)" if "m < length ts" for m
      using that assms(2, 3) by (simp add: swap_at_nth)
    show ?thesis using assms(1) that p [of i] p [of j] by (simp add: sorted_wrt_iff_nth_less)
  qed
  then show ?thesis by (simp add: sorted_wrt_iff_nth_less)
qed

section \<open>Selecting and closing\<close>

lemma seen_iff:
  assumes "distinct (map fst (shape (gu_app g)))"
  shows "seen r g = Some (n, s) \<longleftrightarrow> (r, n, s) \<in> set (shape (gu_app g))"
proof
  assume "seen r g = Some (n, s)"
  then obtain wi where wi: "window_index r g = Some wi" "snd (shape (gu_app g) ! wi) = (n, s)"
    by (auto simp: seen_def)
  then have "shape (gu_app g) ! wi = (r, n, s)" "wi < length (shape (gu_app g))"
    using window_index_bound [OF wi(1)] by (auto simp: shape_nth)
  then show "(r, n, s) \<in> set (shape (gu_app g))" by (metis nth_mem)
next
  assume "(r, n, s) \<in> set (shape (gu_app g))"
  then obtain i where i: "i < length (shape (gu_app g))" "shape (gu_app g) ! i = (r, n, s)" by (auto simp: in_set_conv_nth)
  obtain wi where wi: "window_index r g = Some wi"
    using i find_index_None [of "\<lambda>x. fst x = r" "shape (gu_app g)"] window_index_shape [of r g]
    by (metis fst_conv not_None_eq nth_mem)
  then have "fst (shape (gu_app g) ! wi) = r" "wi < length (shape (gu_app g))"
    using window_index_bound [OF wi] by (auto simp: shape_nth)
  then have "wi = i" using nth_eq_iff_index_eq [OF assms, of wi i] i by simp
  then show "seen r g = Some (n, s)" using i wi by (simp add: seen_def)
qed

lemma almost_seen:
  assumes "almost X g" "seen r g = Some (n, s)"
  shows "tabs_ok (tabs_of r g) n" "r \<notin> X \<Longrightarrow> frame_ok (gu_frames g r) n s"
proof -
  have "(r, n, s) \<in> set (shape (gu_app g))" using assms seen_iff [of g r n s] by (simp add: almost_def)
  then show "tabs_ok (tabs_of r g) n" "r \<notin> X \<Longrightarrow> frame_ok (gu_frames g r) n s"
    using assms(1) unfolding almost_def by fastforce+
qed

lemma almost_rebind:
  assumes "almost (insert r X) g" "\<And>n s. seen r g = Some (n, s) \<Longrightarrow> sel_ok n s"
  shows "almost X (epimone_window_rebind_title r g)"
proof -
  let ?g = "epimone_window_rebind_title r g"
  have d: "distinct (map fst (shape (gu_app g)))" using assms(1) by (simp add: almost_def)
  have "r' < ap_next (gu_app g) \<and> tabs_ok (tabs_of r' ?g) n \<and> (r' \<notin> X \<longrightarrow> frame_ok (gu_frames ?g r') n s)"
    if e: "(r', n, s) \<in> set (shape (gu_app g))" for r' n s
  proof (cases "r' = r")
    case True
    then have sn: "seen r g = Some (n, s)" using e seen_iff [OF d] by simp
    have ok: "tabs_ok (tabs_of r g) n" using almost_seen(1) [OF assms(1) sn] .
    have "selected_tab r g = map_option (\<lambda>i. tb_ref (tabs_of r g ! i)) s"
      using assms(2) [OF sn] ok by (simp add: selected_seen sn sel_ok_def tabs_ok_def split: option.splits)
    then show ?thesis using True e ok assms(1) assms(2) [OF sn]
      by (fastforce simp: epimone_window_rebind_title_def in_frame_def tabs_of_def frame_ok_def almost_def)
  next
    case False
    then show ?thesis using e assms(1)
      by (fastforce simp: epimone_window_rebind_title_def in_frame_def tabs_of_def almost_def)
  qed
  then show ?thesis using d by (auto simp: almost_def epimone_window_rebind_title_def in_frame_def)
qed

lemma almost_notify_selected:
  assumes "almost (insert r X) g" "\<And>n s. seen r g = Some (n, s) \<Longrightarrow> sel_ok n s"
  shows "almost X (epimone_window_notify_selected_cb y r g)"
  unfolding epimone_window_notify_selected_cb_def using almost_rebind [OF assms] by simp

text \<open>A window after an edit of it.\<close>

lemma seen_edit:
  assumes "window_index r g = Some wi" "\<And>w. wn_ref (H w) = wn_ref w"
  shows "seen r (in_frame r F (in_app (at_window H wi) g)) =
     Some (length (wn_pages (H (ap_windows (gu_app g) ! wi))), wn_selected (H (ap_windows (gu_app g) ! wi)))"
proof -
  have wi: "wi < length (ap_windows (gu_app g))" "wn_ref (ap_windows (gu_app g) ! wi) = r"
    using window_index_bound [OF assms(1)] by auto
  let ?g = "in_frame r F (in_app (at_window H wi) g)"
  have ws: "ap_windows (gu_app ?g) = (ap_windows (gu_app g))[wi := H (ap_windows (gu_app g) ! wi)]"
    using wi by (simp add: in_frame_def in_app_def at_window_def)
  have "window_index r ?g = Some wi"
    using assms wi unfolding window_index_def ws find_index_Some by (simp add: nth_list_update)
  then show ?thesis using wi by (simp add: seen_Some ws)
qed

end
