(* ===== verification/Window_Kept.thy ===== *)
theory Window_Kept
  imports Window_Shape Layout_Events
begin

text \<open>
  The operations on tabs keep the invariant of the windows: attaching, detaching, closing, reordering
  and pinning tabs, opening windows, moving a tab to a window of its own.
\<close>

section \<open>Closing windows\<close>

lemma almost_shutdown: "almost X g \<Longrightarrow> almost X (in_app (epimone_layout_begin_shutdown y) g)"
  by (rule almost_in_app) simp_all

lemma almost_destroy:
  assumes "almost X g" "X \<subseteq> {r}"
  shows "windows_ok (destroy_window r g)"
proof -
  let ?g = "destroy_window r g"
  have app: "gu_app ?g = (gu_app g)\<lparr>ap_windows := filter (\<lambda>w. wn_ref w \<noteq> r) (ap_windows (gu_app g))\<rparr>"
    by (simp add: destroy_window_def Let_def in_frame_def epimone_window_unregister_def in_app_def)
  have sh: "shape (gu_app ?g) = filter (\<lambda>e. fst e \<noteq> r) (shape (gu_app g))"
    by (simp add: app shape_def filter_map o_def)
  have fr: "r' \<noteq> r \<Longrightarrow> gu_frames ?g r' = gu_frames g r'" for r'
    by (simp add: destroy_window_def Let_def in_frame_def epimone_window_unregister_def in_app_def)
  have "distinct (map fst (shape (gu_app ?g)))"
    using assms(1) by (simp add: almost_def sh distinct_map_filter)
  moreover have "r' < ap_next (gu_app ?g) \<and> tabs_ok (tabs_of r' ?g) n \<and> frame_ok (gu_frames ?g r') n s"
    if "(r', n, s) \<in> set (shape (gu_app ?g))" for r' n s
    using that assms fr [of r'] unfolding sh almost_def by (fastforce simp: tabs_of_def app)
  ultimately show ?thesis by (auto simp: almost_def)
qed

lemma almost_window_close: "almost X g \<Longrightarrow> X \<subseteq> {r} \<Longrightarrow> almost X (window_close y r g)"
proof -
  assume a: "almost X g" "X \<subseteq> {r}"
  have "almost X (destroy_window r (in_app (epimone_layout_begin_shutdown y) g))"
    by (rule almost_mono [OF almost_destroy [OF almost_shutdown [OF a(1)] a(2)]]) simp
  then show ?thesis using a by (simp add: window_close_def epimone_window_close_request_def Let_def)
qed

lemma kept_notify_n_pages: "windows_ok g \<Longrightarrow> windows_ok (epimone_window_notify_n_pages y r g)"
  by (simp add: epimone_window_notify_n_pages_def almost_window_close)

section \<open>Tabs\<close>

lemma window_fields:
  assumes "windows_ok g" "window_index r g = Some wi"
  shows "wn_ref (ap_windows (gu_app g) ! wi) = r"
    "tabs_ok (fr_tabs (gu_frames g r)) (length (wn_pages (ap_windows (gu_app g) ! wi)))"
    "sel_ok (length (wn_pages (ap_windows (gu_app g) ! wi))) (wn_selected (ap_windows (gu_app g) ! wi))"
    "fr_title_from (gu_frames g r) = map_option (\<lambda>i. tb_ref (fr_tabs (gu_frames g r) ! i)) (wn_selected (ap_windows (gu_app g) ! wi))"
proof -
  show "wn_ref (ap_windows (gu_app g) ! wi) = r" using window_index_bound [OF assms(2)] by blast
  have "frame_ok (gu_frames g r) (length (wn_pages (ap_windows (gu_app g) ! wi))) (wn_selected (ap_windows (gu_app g) ! wi))"
    by (rule almost_seen(2) [OF assms(1) seen_Some [OF assms(2)]]) simp
  then show "tabs_ok (fr_tabs (gu_frames g r)) (length (wn_pages (ap_windows (gu_app g) ! wi)))"
    "sel_ok (length (wn_pages (ap_windows (gu_app g) ! wi))) (wn_selected (ap_windows (gu_app g) ! wi))"
    "fr_title_from (gu_frames g r) = map_option (\<lambda>i. tb_ref (fr_tabs (gu_frames g r) ! i)) (wn_selected (ap_windows (gu_app g) ! wi))"
    by (simp_all only: frame_ok_def)
qed

lemma tab_index_bound: "tab_index t r g = Some k \<Longrightarrow> k < length (tabs_of r g) \<and> tb_ref (tabs_of r g ! k) = t"
  by (simp add: tab_index_def find_index_Some)

lemma kept_select_tab:
  assumes "almost (insert r X) g" "\<And>n s. seen r g = Some (n, s) \<Longrightarrow> s = None \<or> r \<notin> X \<and> almost X g"
    and "tab_index t r g \<noteq> None \<or> almost X g"
  shows "almost X (select_tab y r t g)"
proof (cases "window_index r g")
  case None
  then have "seen r g = None" by (rule seen_None)
  have "almost X g"
  proof -
    have "\<forall>x \<in> set (shape (gu_app g)). fst x \<noteq> r" using None find_index_None [of "\<lambda>x. fst x = r" "shape (gu_app g)"] by (simp add: window_index_shape)
    then show ?thesis using assms(1) unfolding almost_def by fastforce
  qed
  then show ?thesis using None by (simp add: select_tab_def)
next
  case (Some wi)
  note s = seen_Some [OF Some]
  show ?thesis
  proof (cases "tab_index t r g")
    case None
    then show ?thesis using Some assms(3) by (simp add: select_tab_def)
  next
    case (Some k)
    let ?w = "ap_windows (gu_app g) ! wi"
    show ?thesis
    proof (cases "wn_selected ?w = Some k")
      case True
      then show ?thesis using assms(2) [OF s] Some \<open>window_index r g = Some wi\<close> by (simp add: select_tab_def)
    next
      case False
      let ?h = "at_window (\<lambda>w. w\<lparr>wn_selected := Some k\<rparr>) wi"
      have k: "k < length (wn_pages ?w)"
        using tab_index_bound [OF Some] almost_seen(1) [OF assms(1) s] by (simp add: tabs_ok_def)
      have id: "in_frame r (\<lambda>f. f) (in_app ?h g) = in_app ?h g" by (simp add: in_frame_def in_app_def)
      have "almost (insert r X) (in_frame r (\<lambda>f. f) (in_app ?h g))"
        by (rule almost_edit [OF assms(1) \<open>window_index r g = Some wi\<close>])
          (use window_index_bound [OF \<open>window_index r g = Some wi\<close>] almost_seen(1) [OF assms(1) s] in \<open>auto simp: tabs_of_def\<close>)
      moreover have "sel_ok n sl" if "seen r (in_frame r (\<lambda>f. f) (in_app ?h g)) = Some (n, sl)" for n sl
        using that seen_edit [OF \<open>window_index r g = Some wi\<close>, of "\<lambda>w. w\<lparr>wn_selected := Some k\<rparr>" "\<lambda>f. f"] k
        by (auto simp: sel_ok_def)
      ultimately have "almost X (epimone_window_notify_selected_cb y r (in_app ?h g))"
        using almost_notify_selected [of r X "in_app ?h g"] unfolding id by blast
      then show ?thesis using False Some \<open>window_index r g = Some wi\<close> by (simp add: select_tab_def)
    qed
  qed
qed

lemma kept_select: "windows_ok g \<Longrightarrow> windows_ok (select_tab y r t g)"
  by (rule kept_select_tab) (auto intro: almost_mono)

text \<open>A tab that fits at its place.\<close>

definition fits :: "nat \<Rightarrow> nat \<Rightarrow> tab \<Rightarrow> ('d, 'w) gui \<Rightarrow> bool" where
  "fits r k x g \<longleftrightarrow> tb_icon x = tb_pinned x \<and> k \<le> n_pages r g \<and> n_pinned r g \<le> k \<and> (\<not> tb_pinned x \<or> k = n_pinned r g)"

lemma kept_put_tab:
  assumes "windows_ok g" "fits r k x g"
  shows "windows_ok (put_tab y r k x p g)"
proof (cases "window_index r g")
  case None
  then show ?thesis using assms(1) by (simp add: put_tab_def)
next
  case (Some wi)
  let ?w = "ap_windows (gu_app g) ! wi"
  let ?ts = "fr_tabs (gu_frames g r)"
  let ?F = "\<lambda>f. f\<lparr>fr_tabs := insert_at k x (fr_tabs f)\<rparr>"
  let ?H = "\<lambda>w. w\<lparr>wn_pages := insert_at k p (wn_pages w),
                  wn_selected := map_option (\<lambda>i. if k \<le> i then i + 1 else i) (wn_selected w)\<rparr>"
  let ?g = "in_frame r ?F (in_app (at_window ?H wi) g)"
  note f = window_fields [OF assms(1) Some]
  have np: "n_pages r g = length (wn_pages ?w)" by (simp add: n_pages_seen seen_Some [OF Some])
  have k: "k \<le> length ?ts" "k \<le> length (wn_pages ?w)" and len: "length ?ts = length (wn_pages ?w)"
    using assms(2) f(2) np by (auto simp: fits_def tabs_ok_def)
  have sorted: "sorted_wrt before (insert_at k x ?ts)"
    using assms(2) f(2) by (intro sorted_insert_at) (auto simp: fits_def tabs_ok_def n_pinned_def tabs_of_def)
  have new: "tabs_ok (insert_at k x ?ts) (length (insert_at k p (wn_pages ?w)))"
    using sorted k assms(2) f(2) by (auto simp: tabs_ok_def set_insert_at fits_def)
  have "almost {r} ?g"
    by (rule almost_edit [OF assms(1) Some]) (use new f in auto)
  moreover have "windows_ok ?g" if some: "n_pages r g \<noteq> 0"
  proof -
    obtain i where i: "wn_selected ?w = Some i" "i < length (wn_pages ?w)"
      using f(3) some np by (auto simp: sel_ok_def split: option.splits)
    show ?thesis
      by (rule almost_edit [OF assms(1) Some])
        (use new f i k len in \<open>auto simp: frame_ok_def sel_ok_def insert_at_nth\<close>)
  qed
  moreover have "windows_ok (select_tab y r (tb_ref x) ?g)" if "n_pages r g = 0"
  proof (rule kept_select_tab)
    show "almost {r} ?g" using calculation(1) .
    have "wn_selected ?w = None" using f(3) that np by (auto simp: sel_ok_def split: option.splits)
    then show "s = None \<or> r \<notin> {} \<and> windows_ok ?g" if "seen r ?g = Some (n, s)" for n s
      using that seen_edit [OF Some, of ?H ?F] by simp
    have "insert_at k x ?ts = [x]" using k that np len by (simp add: insert_at_def)
    then show "tab_index (tb_ref x) r ?g \<noteq> None \<or> windows_ok ?g"
      by (simp add: tab_index_def tabs_of_def in_frame_def in_app_def)
  qed
  ultimately show ?thesis using Some unfolding put_tab_def Let_def
    by (auto intro: kept_notify_n_pages)
qed

lemma kept_attach:
  assumes "windows_ok g" "documented tv" "epimone_window_attach_page_at y tv r p pos g = (t, g1)"
  shows "windows_ok g1"
proof -
  let ?g = "g\<lparr>gu_next_tab := gu_next_tab g + 1\<rparr>"
  have same: "n_pages r (g\<lparr>gu_next_tab := m\<rparr>) = n_pages r g" "n_pinned r (g\<lparr>gu_next_tab := m\<rparr>) = n_pinned r g" for m
    by (simp_all add: n_pages_def window_of_def window_index_def n_pinned_def tabs_of_def split: option.split)
  have ok: "windows_ok ?g" using assms(1) by simp
  have bound: "n_pinned r g \<le> n_pages r g \<or> window_index r g = None"
  proof (cases "window_index r g")
    case (Some wi)
    then have "length (tabs_of r g) = n_pages r g"
      using window_fields(2) [OF assms(1) Some] by (simp add: tabs_of_def tabs_ok_def n_pages_seen seen_Some)
    then show ?thesis using length_filter_le [of tb_pinned "tabs_of r g"] by (simp add: n_pinned_def)
  qed simp
  let ?x = "epimone_tab_page_notify_pinned_cb \<lparr>tb_ref = gu_next_tab g, tb_pinned = False, tb_icon = False\<rparr>"
  have put: "windows_ok (put_tab y r k ?x p ?g)" if "n_pinned r g \<le> k \<and> k \<le> n_pages r g \<or> window_index r g = None" for k
  proof (cases "window_index r g")
    case None
    then show ?thesis using ok by (simp add: put_tab_def window_index_def)
  next
    case (Some wi)
    then show ?thesis using that
      by (intro kept_put_tab [OF ok]) (auto simp: fits_def same epimone_tab_page_notify_pinned_cb_def)
  qed
  show ?thesis using assms(2, 3) put [of "n_pages r g"] put [of "nat pos"] bound ok
    by (auto simp: epimone_window_attach_page_at_def Let_def documented_def split: if_splits)
qed

lemma kept_take_tab:
  assumes "windows_ok g" "documented tv" "take_tab y tv r t g = (res, g1)"
  shows "windows_ok g1"
proof (cases "window_index r g = None \<or> tab_index t r g = None")
  case True
  then show ?thesis using assms(1, 3) by (auto simp: take_tab_def split: option.splits)
next
  case False
  then obtain wi k where wi: "window_index r g = Some wi" and k: "tab_index t r g = Some k" by auto
  let ?w = "ap_windows (gu_app g) ! wi"
  let ?ts = "fr_tabs (gu_frames g r)"
  let ?n = "length (wn_pages ?w) - 1"
  let ?was = "wn_selected ?w = Some k"
  let ?sel = "if ?was then (if ?n = 0 then None else Some (tv_successor tv ?n k))
              else map_option (\<lambda>i. if k < i then i - 1 else i) (wn_selected ?w)"
  let ?F = "\<lambda>f. f\<lparr>fr_tabs := remove_at k (fr_tabs f)\<rparr>"
  let ?H = "\<lambda>w. w\<lparr>wn_pages := remove_at k (wn_pages w), wn_selected := ?sel\<rparr>"
  let ?g = "in_frame r ?F (in_app (at_window ?H wi) g)"
  note f = window_fields [OF assms(1) wi]
  have kb: "k < length ?ts" "length ?ts = length (wn_pages ?w)"
    using tab_index_bound [OF k] f(2) by (auto simp: tabs_of_def tabs_ok_def)
  have new: "tabs_ok (remove_at k ?ts) (length (remove_at k (wn_pages ?w)))"
    using f(2) kb set_remove_at [of k ?ts] by (auto simp: tabs_ok_def sorted_remove_at)
  have a: "almost {r} ?g" by (rule almost_edit [OF assms(1) wi]) (use new f in auto)
  have "windows_ok (epimone_window_notify_selected_cb y r ?g)" if ?was
  proof (rule almost_notify_selected [OF a])
    show "sel_ok n s" if "seen r ?g = Some (n, s)" for n s
      using that seen_edit [OF wi, of ?H ?F] \<open>?was\<close> kb assms(2)
      by (auto simp: sel_ok_def documented_def split: if_splits)
  qed
  moreover have "windows_ok ?g" if other: "\<not> ?was"
  proof -
    obtain i where i: "wn_selected ?w = Some i" "i < length (wn_pages ?w)" "i \<noteq> k"
      using f(3) other kb by (auto simp: sel_ok_def split: option.splits)
    show ?thesis
      by (rule almost_edit [OF assms(1) wi])
        (use new f i kb in \<open>auto simp: frame_ok_def sel_ok_def remove_at_nth\<close>)
  qed
  ultimately show ?thesis using assms(3) wi k unfolding take_tab_def
    by (auto simp: Let_def intro: kept_notify_n_pages split: if_splits)
qed

lemma kept_forget: "almost X g \<Longrightarrow> almost X (forget_menu_page t g)"
  unfolding almost_def by (auto simp: forget_menu_page_def tabs_of_def frame_ok_def Let_def)

lemma kept_close_tab: "windows_ok g \<Longrightarrow> documented tv \<Longrightarrow> windows_ok (close_tab y tv r t g)"
  unfolding close_tab_def by (auto dest: kept_take_tab intro!: kept_forget split: option.split prod.split)

lemma kept_page_close: "windows_ok g \<Longrightarrow> documented tv \<Longrightarrow> windows_ok (epimone_window_page_close_cb y tv r t g)"
  unfolding epimone_window_page_close_cb_def by (auto intro: kept_close_tab split: option.split)

text \<open>A window that has just been opened has no tabs.\<close>

lemma window_new_shape: "shape (epimone_window_new a) = (ap_next a, 0, None) # shape a" "ap_next (epimone_window_new a) = ap_next a + 1"
  by (simp_all add: epimone_window_new_def shape_def)

lemma init_frame_ok: "frame_ok (epimone_window_init p) 0 None"
  by (simp add: frame_ok_def tabs_ok_def sel_ok_def epimone_window_init_def epimone_apply_window_prefs_to_def Let_def)

lemma kept_new_window:
  assumes "windows_ok g" "new_window g = (r, g1)"
  shows "windows_ok g1" "r = ap_next (gu_app g)" "n_pages r g1 = 0" "tabs_of r g1 = []"
proof -
  have r: "r = ap_next (gu_app g)" and g1: "g1 = in_frame r (\<lambda>_. epimone_window_init (gu_prefs g))
      (in_app epimone_window_new (g\<lparr>gu_registry := r # gu_registry g\<rparr>))"
    using assms(2) by (auto simp: new_window_def Let_def)
  have sh: "shape (gu_app g1) = (r, 0, None) # shape (gu_app g)" "ap_next (gu_app g1) = r + 1"
    by (simp_all add: g1 in_frame_def in_app_def window_new_shape r)
  have fr: "gu_frames g1 r = epimone_window_init (gu_prefs g)" "r' \<noteq> r \<Longrightarrow> gu_frames g1 r' = gu_frames g r'" for r'
    by (simp_all add: g1 in_frame_def in_app_def)
  have fresh: "r' < r" if "(r', n, s) \<in> set (shape (gu_app g))" for r' n s
    using assms(1) that unfolding almost_def r by fastforce
  show "r = ap_next (gu_app g)" by (rule r)
  have t: "fr_tabs (epimone_window_init (gu_prefs g)) = []"
    using init_frame_ok [of "gu_prefs g"] by (simp add: frame_ok_def tabs_ok_def)
  then show "tabs_of r g1 = []" by (simp add: tabs_of_def fr)
  have "window_index r g1 = Some 0" by (simp add: window_index_shape sh)
  then show "n_pages r g1 = 0" by (simp add: n_pages_seen seen_def sh)
  have "distinct (map fst (shape (gu_app g1)))"
  proof -
    have "r \<notin> fst ` set (shape (gu_app g))" using fresh by fastforce
    then show ?thesis using assms(1) by (simp add: sh almost_def)
  qed
  moreover have "r' < ap_next (gu_app g1) \<and> tabs_ok (tabs_of r' g1) n \<and> frame_ok (gu_frames g1 r') n s"
    if e: "(r', n, s) \<in> set (shape (gu_app g1))" for r' n s
  proof (cases "r' = r")
    case True
    then have "n = 0 \<and> s = None" using e fresh [of r' n s] by (auto simp: sh)
    then show ?thesis using True init_frame_ok [of "gu_prefs g"] by (simp add: tabs_of_def fr sh tabs_ok_def t)
  next
    case False
    then have "(r', n, s) \<in> set (shape (gu_app g))" using e by (simp add: sh)
    then show ?thesis using assms(1) fr(2) [OF False] fresh [of r' n s] unfolding almost_def
      by (fastforce simp: tabs_of_def sh)
  qed
  ultimately show "windows_ok g1" by (auto simp: almost_def)
qed

lemma kept_add_tab:
  assumes "windows_ok g" "documented tv"
  shows "windows_ok (epimone_window_add_tab_with_cwd y tv sid cwd r g)"
proof -
  let ?g = "gui_log (Spawned cwd sid) (in_app (\<lambda>a. a\<lparr>ap_next := ap_next (gu_app g) + 1\<rparr>) g)"
  obtain p g2 where p: "page_calls (epimone_page_new_with_cwd (sy_env y) (ap_next (gu_app g)) sid) ?g = (p, g2)"
    by (cases "page_calls (epimone_page_new_with_cwd (sy_env y) (ap_next (gu_app g)) sid) ?g")
  obtain t g3 where t: "epimone_window_attach_page y tv r p g2 = (t, g3)" by (cases "epimone_window_attach_page y tv r p g2")
  have "windows_ok (in_app (\<lambda>a. a\<lparr>ap_next := ap_next (gu_app g) + 1\<rparr>) g)" by (rule almost_in_app) (use assms in simp_all)
  then have "windows_ok g2" using almost_page_calls [OF _ p] by simp
  then have "windows_ok g3" using kept_attach [OF _ assms(2)] t unfolding epimone_window_attach_page_def by blast
  from almost_page_step [OF kept_select [OF this]] show ?thesis
    by (simp add: epimone_window_add_tab_with_cwd_def p [simplified] t Let_def)
qed

lemma kept_swap:
  assumes "windows_ok g" "documented tv"
  shows "windows_ok (swap_tabs tv r k g)"
proof (cases "window_index r g")
  case None
  then show ?thesis using assms(1) by (simp add: swap_tabs_def)
next
  case (Some wi)
  let ?w = "ap_windows (gu_app g) ! wi"
  let ?ts = "fr_tabs (gu_frames g r)"
  note f = window_fields [OF assms(1) Some]
  show ?thesis
  proof (cases "Suc k < length ?ts \<and> tv_swappable tv (tb_pinned (?ts ! k)) (tb_pinned (?ts ! Suc k))")
    case False
    then show ?thesis using assms(1) Some by (auto simp: swap_tabs_def tabs_of_def)
  next
    case True
    then have same: "tb_pinned (?ts ! k) = tb_pinned (?ts ! Suc k)" and k: "Suc k < length ?ts"
      using assms(2) by (simp_all add: documented_def)
    have len: "length ?ts = length (wn_pages ?w)" using f(2) by (simp add: tabs_ok_def)
    have new: "tabs_ok (swap_at k ?ts) (length (swap_at k (wn_pages ?w)))"
      using f(2) sorted_swap_at [OF _ k same] set_swap_at [of k ?ts] by (simp add: tabs_ok_def)
    let ?F = "\<lambda>f. f\<lparr>fr_tabs := swap_at k (fr_tabs f)\<rparr>"
    let ?H = "\<lambda>w. w\<lparr>wn_pages := swap_at k (wn_pages w),
                    wn_selected := map_option (\<lambda>i. if i = k then Suc k else if i = Suc k then k else i) (wn_selected w)\<rparr>"
    obtain i where i: "wn_selected ?w = Some i" "i < length (wn_pages ?w)"
      using f(3) k len by (auto simp: sel_ok_def split: option.splits)
    have "windows_ok (in_frame r ?F (in_app (at_window ?H wi) g))"
      by (rule almost_edit [OF assms(1) Some])
        (use new f i k len in \<open>auto simp: frame_ok_def sel_ok_def swap_at_nth\<close>)
    then show ?thesis using True Some by (simp add: swap_tabs_def tabs_of_def Let_def)
  qed
qed

lemma kept_set_pinned:
  assumes "windows_ok g"
  shows "windows_ok (set_pinned r t pinned g)"
proof (cases "window_index r g = None \<or> tab_index t r g = None")
  case True
  then show ?thesis using assms(1) by (auto simp: set_pinned_def split: option.split)
next
  case False
  then obtain wi k where wi: "window_index r g = Some wi" and k: "tab_index t r g = Some k" by auto
  let ?w = "ap_windows (gu_app g) ! wi"
  let ?ts = "fr_tabs (gu_frames g r)"
  let ?x = "epimone_tab_page_notify_pinned_cb ((?ts ! k)\<lparr>tb_pinned := pinned\<rparr>)"
  let ?rest = "remove_at k ?ts"
  let ?j = "length (filter tb_pinned ?rest)"
  let ?moved = "\<lambda>i. if i = k then ?j else let i' = (if k < i then i - 1 else i) in if ?j \<le> i' then i' + 1 else i'"
  let ?F = "\<lambda>f. f\<lparr>fr_tabs := insert_at ?j ?x ?rest\<rparr>"
  let ?H = "\<lambda>w. w\<lparr>wn_pages := insert_at ?j (wn_pages w ! k) (remove_at k (wn_pages w)),
                  wn_selected := map_option ?moved (wn_selected w)\<rparr>"
  note f = window_fields [OF assms wi]
  have kb: "k < length ?ts" "length ?ts = length (wn_pages ?w)"
    using tab_index_bound [OF k] f(2) by (auto simp: tabs_of_def tabs_ok_def)
  have rest: "length ?rest = length ?ts - 1" using kb by simp
  have j: "?j \<le> length ?rest" by (rule length_filter_le)
  have sorted: "sorted_wrt before (insert_at ?j ?x ?rest)"
    using f(2) by (intro sorted_insert_at sorted_remove_at) (auto simp: tabs_ok_def)
  have new: "tabs_ok (insert_at ?j ?x ?rest) (length (insert_at ?j (wn_pages ?w ! k) (remove_at k (wn_pages ?w))))"
    using sorted kb j rest f(2) set_remove_at [of k ?ts]
    by (auto simp: tabs_ok_def set_insert_at epimone_tab_page_notify_pinned_cb_def)
  obtain i where i: "wn_selected ?w = Some i" "i < length (wn_pages ?w)"
    using f(3) kb by (auto simp: sel_ok_def split: option.splits)
  have ref: "tb_ref (insert_at ?j ?x ?rest ! ?moved i) = tb_ref (?ts ! i)"
    using i kb j rest by (auto simp: insert_at_nth remove_at_nth epimone_tab_page_notify_pinned_cb_def Let_def)
  have bound: "?moved i < length (wn_pages ?w)" using i kb j rest by (auto simp: Let_def)
  have "windows_ok (in_frame r ?F (in_app (at_window ?H wi) g))"
    by (rule almost_edit [OF assms wi])
      (use new f i kb j rest ref bound in \<open>auto simp: frame_ok_def sel_ok_def\<close>)
  then show ?thesis using wi k assms by (simp add: set_pinned_def tabs_of_def Let_def)
qed

section \<open>The other windows\<close>

text \<open>An operation on one window leaves the number of pages, the selection and the frame of any other.\<close>

definition spares :: "nat \<Rightarrow> ('d, 'w) gui \<Rightarrow> ('d, 'w) gui \<Rightarrow> bool" where
  "spares r g g' \<longleftrightarrow> (\<forall>r'. r' \<noteq> r \<longrightarrow> seen r' g' = seen r' g \<and> gu_frames g' r' = gu_frames g r')"

lemma spares_refl [simp, intro]: "spares r g g" by (simp add: spares_def)
lemma spares_trans [trans]: "spares r g h \<Longrightarrow> spares r h k \<Longrightarrow> spares r g k" by (simp add: spares_def)

lemma seen_shape: "shape (gu_app g') = shape (gu_app g) \<Longrightarrow> seen r g' = seen r g"
  by (simp add: seen_def window_index_shape)

lemma spares_in_app: "keeps_shape (gu_app g) (h (gu_app g)) \<Longrightarrow> spares r g (in_app h g)"
  by (auto simp: spares_def keeps_shape_def in_app_def intro!: seen_shape)

lemma spares_in_frame: "spares r g (in_frame r F g)"
  by (auto simp: spares_def in_frame_def intro!: seen_shape)

lemma spares_at_window:
  assumes "window_index r g = Some wi" "\<And>w. wn_ref (H w) = wn_ref w"
  shows "spares r g (in_app (at_window H wi) g)"
proof -
  have wi: "wi < length (ap_windows (gu_app g))" "wn_ref (ap_windows (gu_app g) ! wi) = r"
    using window_index_bound [OF assms(1)] by auto
  let ?g = "in_app (at_window H wi) g"
  have ws: "ap_windows (gu_app ?g) = (ap_windows (gu_app g))[wi := H (ap_windows (gu_app g) ! wi)]"
    using wi by (simp add: in_app_def at_window_def)
  have same: "wn_ref (ap_windows (gu_app ?g) ! i) = wn_ref (ap_windows (gu_app g) ! i)" for i
    using wi assms(2) by (cases "i = wi") (simp_all add: ws)
  have idx: "window_index r' ?g = window_index r' g" for r'
  proof -
    have "window_index r' ?g = Some i \<longleftrightarrow> window_index r' g = Some i" for i
      unfolding window_index_def find_index_Some by (simp add: same) (simp add: ws)
    then show ?thesis by (metis not_Some_eq)
  qed
  have "seen r' ?g = seen r' g" if "r' \<noteq> r" for r'
  proof (cases "window_index r' g")
    case None
    then show ?thesis by (simp add: seen_def idx)
  next
    case (Some j)
    then have "j \<noteq> wi" using wi(2) that window_index_bound by blast
    then show ?thesis using Some idx [of r'] by (simp add: seen_Some ws)
  qed
  then show ?thesis by (auto simp: spares_def in_app_def)
qed

lemma spares_select: "spares r g (epimone_window_notify_selected_cb y r g)"
proof -
  have f: "spares r g (focus_current y r g)" for g :: "('a, 'b) gui"
    unfolding focus_current_def by (auto intro: spares_in_app split: option.split)
  have s: "spares r g (schedule_save g)" for g :: "('a, 'b) gui"
    unfolding schedule_save_def by (rule spares_in_app) simp
  show ?thesis unfolding epimone_window_notify_selected_cb_def epimone_window_rebind_title_def
    by (rule spares_trans [OF spares_trans [OF spares_in_frame f] s])
qed

lemma spares_destroy: "spares r g (destroy_window r g)"
proof -
  let ?g = "destroy_window r g"
  have app: "gu_app ?g = (gu_app g)\<lparr>ap_windows := filter (\<lambda>w. wn_ref w \<noteq> r) (ap_windows (gu_app g))\<rparr>"
    by (simp add: destroy_window_def Let_def in_frame_def epimone_window_unregister_def in_app_def)
  have sh: "shape (gu_app ?g) = filter (\<lambda>e. fst e \<noteq> r) (shape (gu_app g))"
    by (simp add: app shape_def filter_map o_def)
  have fr: "r' \<noteq> r \<Longrightarrow> gu_frames ?g r' = gu_frames g r'" for r'
    by (simp add: destroy_window_def Let_def in_frame_def epimone_window_unregister_def in_app_def)
  have look: "map_option (\<lambda>i. snd (es ! i)) (find_index (\<lambda>e. fst e = r') es) = map_of es r'" for es :: "(nat \<times> nat \<times> nat option) list" and r'
    by (induction es) (auto simp: option.map_comp o_def)
  have "map_of (filter (\<lambda>e. fst e \<noteq> r) es) r' = map_of es r'" if "r' \<noteq> r" for es :: "(nat \<times> nat \<times> nat option) list" and r'
    using that by (induction es) auto
  then show ?thesis using fr by (simp add: spares_def seen_def window_index_shape look sh)
qed

lemma spares_close: "spares r g (epimone_window_notify_n_pages y r g)"
proof -
  have s: "spares r g (schedule_save g)" unfolding schedule_save_def by (rule spares_in_app) simp
  have "spares r g (destroy_window r (in_app (epimone_layout_begin_shutdown y) g))"
    by (rule spares_trans [OF spares_in_app spares_destroy]) simp
  moreover have "spares r g (gui_log e g)" for e by (auto simp: spares_def gui_log_def intro!: seen_shape)
  ultimately show ?thesis using s
    by (auto simp: epimone_window_notify_n_pages_def window_close_def epimone_window_close_request_def Let_def)
qed

lemma spares_take_tab: "take_tab y tv r t g = (res, g1) \<Longrightarrow> spares r g g1"
proof (cases "window_index r g = None \<or> tab_index t r g = None")
  case True
  then show "take_tab y tv r t g = (res, g1) \<Longrightarrow> ?thesis" by (auto simp: take_tab_def split: option.splits)
next
  case False
  assume take: "take_tab y tv r t g = (res, g1)"
  obtain wi k where wi: "window_index r g = Some wi" and k: "tab_index t r g = Some k" using False by auto
  have e: "spares r g (in_frame r F (in_app (at_window H wi) g))" if "\<And>w. wn_ref (H w) = wn_ref w" for F H
    by (rule spares_trans [OF spares_at_window [OF wi that] spares_in_frame])
  show ?thesis using take wi k unfolding take_tab_def Let_def
    by (auto intro!: spares_trans [OF _ spares_close] spares_trans [OF _ spares_select] e split: if_splits)
qed

lemma take_tab_tab: "take_tab y tv r t g = (Some (x, p), g1) \<Longrightarrow> windows_ok g \<Longrightarrow> tb_icon x = tb_pinned x"
proof -
  assume take: "take_tab y tv r t g = (Some (x, p), g1)" and ok: "windows_ok g"
  then obtain wi k where wi: "window_index r g = Some wi" and k: "tab_index t r g = Some k" and x: "x = tabs_of r g ! k"
    by (auto simp: take_tab_def Let_def split: option.splits if_splits)
  then have "x \<in> set (tabs_of r g)" using tab_index_bound [OF k] by simp
  then show ?thesis using window_fields(2) [OF ok wi] by (simp add: tabs_ok_def tabs_of_def)
qed

lemma kept_move_to_new_window:
  assumes "windows_ok g" "documented tv"
  shows "windows_ok (epimone_window_move_page_to_new_window y tv t g)"
proof (cases "home_of t g")
  case None
  then show ?thesis using assms(1) by (simp add: epimone_window_move_page_to_new_window_def)
next
  case (Some r)
  obtain r' g1 where n: "new_window g = (r', g1)" by (cases "new_window g")
  note nw = kept_new_window [OF assms(1) n]
  obtain res g2 where take: "take_tab y tv r t g1 = (res, g2)" by (cases "take_tab y tv r t g1")
  have g2: "windows_ok g2" by (rule kept_take_tab [OF nw(1) assms(2) take])
  have "r \<in> wn_ref ` set (ap_windows (gu_app g))" using Some by (auto simp: home_of_def find_Some_iff)
  then have ne: "r' \<noteq> r" using assms(1) nw(2) unfolding almost_def shape_def by fastforce
  have sp: "spares r g1 g2" by (rule spares_take_tab [OF take])
  have "n_pages r' g2 = 0" "tabs_of r' g2 = []"
    using sp ne nw(3, 4) by (simp_all add: spares_def n_pages_seen tabs_of_def)
  then have "fits r' 0 x g2" if "tb_icon x = tb_pinned x" for x
    using that by (simp add: fits_def n_pinned_def)
  then have "windows_ok (put_tab y r' 0 x p g2)" if "res = Some (x, p)" for x p
    using kept_put_tab [OF g2, of r' 0 x y p] that take_tab_tab [of y tv r t g1 x p g2] take nw(1) by simp
  then show ?thesis using assms(1) g2 Some n take
    by (auto simp: epimone_window_move_page_to_new_window_def split: option.split)
qed

end
