(* ===== verification/Window_Steps.thy ===== *)
theory Window_Steps
  imports Window_Kept
begin

text \<open>
  The windows as a state machine: restoring tabs, every action and every event keep the invariant.
\<close>

section \<open>Restored pages\<close>

text \<open>
  What a restore does to the application: it may add pages to windows and select one. The tabs lag
  behind until they are wired.
\<close>

definition grows :: "nat \<times> nat \<times> nat option \<Rightarrow> nat \<times> nat \<times> nat option \<Rightarrow> bool" where
  "grows e e' \<longleftrightarrow> fst e' = fst e \<and> fst (snd e) \<le> fst (snd e') \<and>
     (sel_ok (fst (snd e)) (snd (snd e)) \<longrightarrow> sel_ok (fst (snd e')) (snd (snd e')))"

definition grown :: "('d, 'w) app \<Rightarrow> ('d, 'w) app \<Rightarrow> bool" where
  "grown a b \<longleftrightarrow> ap_next a \<le> ap_next b \<and> list_all2 grows (shape a) (shape b)"

lemma grows_refl [simp]: "grows e e" by (simp add: grows_def)
lemma grows_trans: "grows e e' \<Longrightarrow> grows e' e'' \<Longrightarrow> grows e e''" by (auto simp: grows_def)

lemma keeps_grown: "keeps_shape a b \<Longrightarrow> grown a b"
  by (auto simp: grown_def keeps_shape_def list_all2_same)

lemma grown_trans [trans]: "grown a b \<Longrightarrow> grown b c \<Longrightarrow> grown a c"
  unfolding grown_def using list_all2_trans [of grows grows grows, OF grows_trans] by fastforce

lemma grown_update:
  assumes "wi < length (shape a) \<Longrightarrow> grows (shape a ! wi) e" "shape b = (shape a)[wi := e]" "ap_next a \<le> ap_next b"
  shows "grown a b"
proof -
  have "grows (shape a ! i) ((shape a)[wi := e] ! i)" if "i < length (shape a)" for i
    using that assms(1) by (cases "i = wi") simp_all
  then show ?thesis using assms(2, 3) by (simp add: grown_def list_all2_conv_all_nth)
qed

lemma keeps_notify_selected [simp]: "keeps_shape a (epimone_window_notify_selected y wi a)"
  unfolding epimone_window_notify_selected_def by (rule keeps_trans [OF focus_current_keeps set_layout_keeps])

lemma shape_set_selected:
  assumes "wi < length (ap_windows a)" "shape a ! wi = (r, n, s)"
  shows "shape (set_selected_page y wi i a) = (shape a)[wi := (r, n, Some i)]"
    "ap_next a \<le> ap_next (set_selected_page y wi i a)"
proof -
  let ?h = "at_window (\<lambda>w. w\<lparr>wn_selected := Some i\<rparr>) wi a"
  have h: "shape ?h = (shape a)[wi := (r, n, Some i)]"
    using assms at_window_shape [OF assms(1), of "\<lambda>w. w\<lparr>wn_selected := Some i\<rparr>"] by (simp add: shape_nth)
  have k: "keeps_shape ?h (epimone_window_notify_selected y wi ?h)" by simp
  have "(shape a)[wi := (r, n, Some i)] = shape a" if "s = Some i"
    using that assms by (metis list_update_id)
  then show "shape (set_selected_page y wi i a) = (shape a)[wi := (r, n, Some i)]"
    using assms h k by (auto simp: set_selected_page_def keeps_shape_def shape_nth)
  show "ap_next a \<le> ap_next (set_selected_page y wi i a)"
    using k by (simp add: set_selected_page_def keeps_shape_def)
qed

lemma shape_select_index:
  assumes "wi < length (ap_windows a)" "shape a ! wi = (r, n, s)"
  shows "shape (epimone_window_select_index y wi i a) = (shape a)[wi := (r, n, Some i)]"
    "ap_next a \<le> ap_next (epimone_window_select_index y wi i a)"
  using shape_set_selected [OF assms, of y i]
    at_page_keeps [of "set_selected_page y wi i a" "epimone_page_focus_terminal (sy_env y)" wi i]
  by (simp_all add: epimone_window_select_index_def keeps_shape_def)

lemma shape_adopt:
  assumes "wi < length (ap_windows a)" "shape a ! wi = (r, n, s)"
  shows "\<exists>s'. shape (epimone_window_adopt_page y wi p a) = (shape a)[wi := (r, Suc n, s')]"
    "ap_next a \<le> ap_next (epimone_window_adopt_page y wi p a)"
proof -
  let ?h = "set_layout epimone_layout_schedule_save (at_window (\<lambda>w. w\<lparr>wn_pages := wn_pages w @ [p]\<rparr>) wi a)"
  have h: "shape ?h = (shape a)[wi := (r, Suc n, s)]" "length (ap_windows ?h) = length (ap_windows a)"
    "ap_next ?h = ap_next a"
    using assms at_window_shape [OF assms(1), of "\<lambda>w. w\<lparr>wn_pages := wn_pages w @ [p]\<rparr>"]
    by (simp_all add: shape_nth set_layout_def shape_def at_window_def)
  have hw: "wi < length (ap_windows ?h)" "shape ?h ! wi = (r, Suc n, s)" using assms h by simp_all
  have n: "length (wn_pages (ap_windows a ! wi)) = n" using assms by (simp add: shape_nth)
  show "\<exists>s'. shape (epimone_window_adopt_page y wi p a) = (shape a)[wi := (r, Suc n, s')]"
    "ap_next a \<le> ap_next (epimone_window_adopt_page y wi p a)"
    using shape_set_selected [OF hw, of y 0] h assms(1) n
    by (auto simp: epimone_window_adopt_page_def Let_def)
qed

lemma grown_adopt_and_select: "grown a (epimone_window_adopt_and_select_page y wi p a)"
proof (cases "wi < length (ap_windows a)")
  case True
  obtain r n s where e: "shape a ! wi = (r, n, s)" by (cases "shape a ! wi")
  have n: "length (wn_pages (ap_windows a ! wi)) = n" using e True by (simp add: shape_nth)
  obtain s' where a1: "shape (epimone_window_adopt_page y wi p a) = (shape a)[wi := (r, Suc n, s')]"
    using shape_adopt(1) [OF True e, of y p] by blast
  have len: "length (ap_windows (epimone_window_adopt_page y wi p a)) = length (ap_windows a)"
    using a1 by (metis length_list_update length_shape)
  have w1: "wi < length (ap_windows (epimone_window_adopt_page y wi p a))"
    "shape (epimone_window_adopt_page y wi p a) ! wi = (r, Suc n, s')"
    using True len a1 by simp_all
  have "shape (epimone_window_adopt_and_select_page y wi p a) = (shape a)[wi := (r, Suc n, Some n)]"
    using shape_select_index(1) [OF w1, of y n] True n a1
    by (simp add: epimone_window_adopt_and_select_page_def Let_def)
  moreover have "ap_next a \<le> ap_next (epimone_window_adopt_and_select_page y wi p a)"
    using shape_select_index(2) [OF w1, of y n] shape_adopt(2) [OF True e, of y p] True n
    by (simp add: epimone_window_adopt_and_select_page_def Let_def)
  ultimately show ?thesis
    by (intro grown_update [of wi a "(r, Suc n, Some n)"]) (use e in \<open>simp_all add: grows_def sel_ok_def\<close>)
next
  case False
  then show ?thesis by (simp add: epimone_window_adopt_and_select_page_def epimone_window_adopt_page_def keeps_grown)
qed

lemma find_members_in_bound: "find_members_in w ms = Some k \<Longrightarrow> k < length (wn_pages w)"
  by (induction ms) (auto simp: epimone_window_find_page_for_session_def find_index_Some split: option.splits if_splits)

lemma find_page_bound: "find_page_for_members ms ws = Some (i, k) \<Longrightarrow> i < length ws \<and> k < length (wn_pages (ws ! i))"
  by (induction ws arbitrary: i) (auto dest: find_members_in_bound split: option.splits)

lemma create_terminal_next: "epimone_page_create_terminal_for_session api sid st = (r, n, w) \<Longrightarrow> fst st \<le> n"
  by (cases st) (auto simp: epimone_page_create_terminal_for_session_def split: prod.splits bool.splits if_splits)

lemma build_node_next: "build_node api alive node st = (r, n, w) \<Longrightarrow> fst st \<le> n"
proof (induction node arbitrary: st r n w)
  case (G_split tag orient ratio startv endv)
  obtain l n1 w1 where l: "build_node api alive startv st = (l, n1, w1)" by (cases "build_node api alive startv st") auto
  obtain m n2 w2 where m: "build_node api alive endv (n1, w1) = (m, n2, w2)" by (cases "build_node api alive endv (n1, w1)") auto
  have "n2 \<le> n" using G_split.prems l m by (auto split: option.splits)
  then show ?case using G_split.IH(1) [OF l] G_split.IH(2) [OF m] by simp
qed (auto dest: create_terminal_next split: if_splits)

lemma grown_build_tab: "grown a (snd (build_tab y wi gid b alive a))"
proof -
  let ?a1 = "set_layout (\<lambda>l. l\<lparr>ly_restoring := True\<rparr>) a"
  obtain r nxt w where n: "build_node (sy_api y) alive (bl_tree b) (ap_next ?a1, ap_world ?a1) = (r, nxt, w)"
    by (cases "build_node (sy_api y) alive (bl_tree b) (ap_next ?a1, ap_world ?a1)") auto
  have le: "ap_next ?a1 \<le> nxt" using build_node_next [OF n] by simp
  have b1: "grown a (?a1\<lparr>ap_next := nxt, ap_world := w\<rparr>)"
    by (rule keeps_grown [OF keeps_trans [OF set_layout_keeps world_keeps(4) [OF le]]])
  have fin: "grown a (set_layout h b')" if "grown a b'" for h b'
    by (rule grown_trans [OF that keeps_grown [OF set_layout_keeps]])
  have ad: "grown a (epimone_window_adopt_and_select_page y wi q (?a1\<lparr>ap_next := nxt, ap_world := w\<rparr>))" for q
    by (rule grown_trans [OF b1 grown_adopt_and_select])
  show ?thesis using n fin [OF b1] fin [OF ad] fin [OF fin [OF ad]]
    by (simp add: build_tab_def Let_def split: option.split)
qed

lemma grown_restore_group: "grown a (snd (epimone_layout_restore_group y wi gid a))"
proof -
  have w: "grown a (a\<lparr>ap_world := w\<rparr>)" for w by (rule keeps_grown) simp
  have sel: "grown a (epimone_window_select_index y xi k (a\<lparr>ap_world := w\<rparr>))"
    if f: "find_page_for_members ms (ap_windows a) = Some (xi, k)" for xi k ms w
  proof -
    note b = find_page_bound [OF f]
    let ?a = "a\<lparr>ap_world := w\<rparr>"
    obtain r n s where e: "shape ?a ! xi = (r, n, s)" by (cases "shape ?a ! xi")
    have xi: "xi < length (ap_windows ?a)" and n: "k < n" using b e by (auto simp: shape_nth)
    have "grown ?a (epimone_window_select_index y xi k ?a)"
      by (rule grown_update [OF _ shape_select_index [OF xi e]]) (use e n in \<open>simp add: grows_def sel_ok_def\<close>)
    then show ?thesis by (rule grown_trans [OF w])
  qed
  have build: "grown a (snd (build_tab y wi gid b alive (a\<lparr>ap_world := w\<rparr>)))" for b alive w
    by (rule grown_trans [OF w grown_build_tab])
  have w2: "a\<lparr>ap_world := v, ap_world := w\<rparr> = a\<lparr>ap_world := w\<rparr>" for v w by simp
  show ?thesis unfolding epimone_layout_restore_group_def Let_def w2
    by (auto simp: w build keeps_grown sel split: option.split prod.split)
qed

text \<open>The windows \<open>R\<close> may have pages for which there is no tab yet.\<close>

definition lag :: "nat set \<Rightarrow> ('d, 'w) gui \<Rightarrow> bool" where
  "lag R g \<longleftrightarrow> distinct (map fst (shape (gu_app g))) \<and>
     (\<forall>(r, n, s) \<in> set (shape (gu_app g)). r < ap_next (gu_app g) \<and> sel_ok n s \<and> length (tabs_of r g) \<le> n \<and>
        tabs_ok (tabs_of r g) (length (tabs_of r g)) \<and> (r \<notin> R \<longrightarrow> frame_ok (gu_frames g r) n s))"

lemma lag_windows_ok: "lag {} g \<Longrightarrow> windows_ok g"
  unfolding lag_def almost_def by (fastforce simp: frame_ok_def tabs_of_def)

lemma lag_grown:
  assumes "windows_ok g" "grown (gu_app g) a"
  shows "lag (set (map wn_ref (ap_windows a))) (g\<lparr>gu_app := a\<rparr>)"
proof -
  have fsts: "map fst (shape a) = map fst (shape (gu_app g))"
    using assms(2) by (auto simp: grown_def list_all2_conv_all_nth grows_def intro: nth_equalityI)
  have "r < ap_next a \<and> sel_ok n s \<and> length (tabs_of r g) \<le> n \<and> tabs_ok (tabs_of r g) (length (tabs_of r g))"
    if "(r, n, s) \<in> set (shape a)" for r n s
  proof -
    obtain i where i: "i < length (shape a)" "shape a ! i = (r, n, s)" using \<open>(r, n, s) \<in> set (shape a)\<close> by (auto simp: in_set_conv_nth)
    obtain r0 n0 s0 where e: "shape (gu_app g) ! i = (r0, n0, s0)" by (cases "shape (gu_app g) ! i")
    have "i < length (shape (gu_app g))" using i fsts by (metis length_map)
    then have "(r0, n0, s0) \<in> set (shape (gu_app g))" using e by (metis nth_mem)
    then have "r0 < ap_next (gu_app g) \<and> frame_ok (gu_frames g r0) n0 s0"
      using assms(1) unfolding almost_def by fastforce
    moreover have "grows (r0, n0, s0) (r, n, s)" "ap_next (gu_app g) \<le> ap_next a"
      using assms(2) i e by (auto simp: grown_def list_all2_conv_all_nth dest!: spec [of _ i])
    ultimately show ?thesis by (auto simp: grows_def frame_ok_def tabs_ok_def tabs_of_def)
  qed
  moreover have "r \<in> set (map wn_ref (ap_windows a))" if "(r, n, s) \<in> set (shape a)" for r n s
    using that by (auto simp: shape_def)
  ultimately show ?thesis using assms(1) fsts unfolding lag_def almost_def by (auto simp: tabs_of_def)
qed

lemma rebind_from: "fr_title_from (gu_frames (epimone_window_rebind_title r g) r) = selected_tab r g"
  by (simp add: epimone_window_rebind_title_def in_frame_def)

lemma lag_wire:
  assumes "lag (insert r R) g"
  shows "lag R (wire_restored r g)"
proof -
  let ?m = "n_pages r g - length (tabs_of r g)"
  let ?fresh = "map (\<lambda>i. \<lparr>tb_ref = gu_next_tab g + i, tb_pinned = False, tb_icon = False\<rparr>) [0..<?m]"
  let ?g = "wire_restored r g"
  let ?ts = "tabs_of r g @ ?fresh"
  have d: "distinct (map fst (shape (gu_app g)))" using assms by (simp add: lag_def)
  have app: "gu_app ?g = gu_app g"
    by (simp add: wire_restored_def Let_def epimone_window_rebind_title_def in_frame_def)
  have fr: "r' \<noteq> r \<Longrightarrow> gu_frames ?g r' = gu_frames g r'" for r'
    by (simp add: wire_restored_def Let_def epimone_window_rebind_title_def in_frame_def)
  have ts: "tabs_of r ?g = ?ts"
    by (simp add: wire_restored_def Let_def epimone_window_rebind_title_def in_frame_def tabs_of_def)
  let ?h = "in_frame r (\<lambda>f. f\<lparr>fr_tabs := fr_tabs f @ ?fresh\<rparr>) (g\<lparr>gu_next_tab := gu_next_tab g + ?m\<rparr>)"
  have from_tab: "fr_title_from (gu_frames ?g r) = selected_tab r ?h"
  proof -
    have "?g = epimone_window_rebind_title r ?h" by (simp add: wire_restored_def Let_def)
    then show ?thesis by (simp only: rebind_from)
  qed
  have "r' < ap_next (gu_app ?g) \<and> sel_ok n s \<and> length (tabs_of r' ?g) \<le> n \<and>
      tabs_ok (tabs_of r' ?g) (length (tabs_of r' ?g)) \<and> (r' \<notin> R \<longrightarrow> frame_ok (gu_frames ?g r') n s)"
    if e: "(r', n, s) \<in> set (shape (gu_app ?g))" for r' n s
  proof -
    have old: "r' < ap_next (gu_app g) \<and> sel_ok n s \<and> length (tabs_of r' g) \<le> n \<and>
        tabs_ok (tabs_of r' g) (length (tabs_of r' g)) \<and> (r' \<notin> insert r R \<longrightarrow> frame_ok (gu_frames g r') n s)"
      using assms e unfolding lag_def app by fastforce
    show ?thesis
    proof (cases "r' = r")
      case False
      then show ?thesis using old fr [OF False] by (simp add: app tabs_of_def)
    next
      case True
      have seen: "seen r g = Some (n, s)" using e True seen_iff [OF d] by (simp add: app)
      then have len: "length ?ts = n" using old True by (simp add: n_pages_seen)
      have "sorted_wrt before ?fresh" by (simp add: sorted_wrt_iff_nth_less)
      then have ok: "tabs_ok ?ts n" using old True len by (auto simp: tabs_ok_def sorted_wrt_append)
      have "seen r ?h = Some (n, s)" using seen seen_shape [of ?h g r] by (simp add: in_frame_def)
      moreover have "tabs_of r ?h = ?ts" by (simp add: in_frame_def tabs_of_def)
      ultimately have "selected_tab r ?h = map_option (\<lambda>i. tb_ref (?ts ! i)) s"
        using old len by (auto simp: selected_seen sel_ok_def split: option.split)
      then show ?thesis using old True ok len ts from_tab by (simp add: app frame_ok_def) (simp add: tabs_of_def)
    qed
  qed
  then show ?thesis using d by (auto simp: lag_def app)
qed

lemma lag_wire_all: "lag (set rs) g \<Longrightarrow> windows_ok (fold wire_restored rs g)"
  by (induction rs arbitrary: g) (auto intro: lag_windows_ok lag_wire)

lemma kept_restore_group: "windows_ok g \<Longrightarrow> windows_ok (restore_group_action y r gid g)"
proof (cases "window_index r g")
  case (Some wi)
  assume ok: "windows_ok g"
  obtain res a where a: "epimone_layout_restore_group y wi gid (gu_app g) = (res, a)"
    by (cases "epimone_layout_restore_group y wi gid (gu_app g)")
  have "grown (gu_app g) a" using grown_restore_group [of "gu_app g" y wi gid] a by simp
  from lag_wire_all [OF lag_grown [OF ok this]] show ?thesis
    using Some a by (simp add: restore_group_action_def Let_def split: sum.split)
qed (simp add: restore_group_action_def)

section \<open>Every action\<close>

lemma kept_enable: "almost X g \<Longrightarrow> almost X (in_frame r (enable name b) g)"
  by (rule almost_frame) (simp_all add: enable_def)

lemma kept_focused_op: "almost X g \<Longrightarrow> almost X (focused_op name p g)"
  by (simp add: focused_op_def split: option.split)

lemma kept_on_current: "(\<And>t p. almost X (h t p g)) \<Longrightarrow> almost X g \<Longrightarrow> almost X (on_current r h g)"
  by (simp add: on_current_def split: option.split)

lemma kept_on_menu_tab: "(\<And>t. almost X (h t g)) \<Longrightarrow> almost X g \<Longrightarrow> almost X (on_menu_tab r h g)"
  by (simp add: on_menu_tab_def split: option.split)

lemma kept_page_action: "windows_ok g \<Longrightarrow> documented tv \<Longrightarrow> windows_ok (page_action y tv r h t g)"
  by (simp add: page_action_def Let_def kept_page_close split: option.split)

lemma kept_split: "windows_ok g \<Longrightarrow> windows_ok (split_current y tv su orient r g)"
  unfolding split_current_def
  by (rule kept_on_current) (auto simp: Let_def intro!: almost_page_step almost_in_app)

lemma kept_open_in_new_tab:
  assumes "windows_ok g" "documented tv"
  shows "windows_ok (open_in_new_tab_action y tv r g)"
  unfolding open_in_new_tab_action_def
proof (rule kept_on_current [OF _ assms(1)])
  fix t and p :: "'a page"
  have "windows_ok (page_step (\<lambda>p. snd (epimone_page_take_focused_leaf (sy_env y) p)) t g)" (is "windows_ok ?g1")
    using assms(1) by simp
  moreover have "windows_ok (schedule_save (page_step h t' (select_tab y r t' g3)))"
    if "page_calls p ?g1 = (q, g2)" "epimone_window_attach_page_at y tv r q pos g2 = (t', g3)" for p q g2 pos t' g3 h
    using almost_page_calls [OF calculation that(1)] kept_attach [OF _ assms(2) that(2)]
    by (simp add: kept_select)
  ultimately show "windows_ok (if epimone_page_get_pane_count p < 2 then g
       else
         let position = (case tab_index t r g of Some k \<Rightarrow> int k + 1 | None \<Rightarrow> - 1);
             g1 = page_step (\<lambda>p. snd (epimone_page_take_focused_leaf (sy_env y) p)) t g
         in case fst (epimone_page_take_focused_leaf (sy_env y) (p\<lparr>pg_calls := []\<rparr>)) of
              None \<Rightarrow> g1
            | Some (x, s) \<Rightarrow>
                (case page_calls (epimone_page_adopt_leaf (sy_env y) x s epimone_page_new_empty) g1 of (q, g2) \<Rightarrow>
                 case epimone_window_attach_page_at y tv r q position g2 of (t', g3) \<Rightarrow>
                   schedule_save (page_step (epimone_page_focus_terminal (sy_env y)) t' (select_tab y r t' g3))))"
    using assms(1) by (auto simp: Let_def split: option.split prod.split)
qed

lemma kept_close_others:
  assumes "windows_ok g" "documented tv"
  shows "windows_ok (tab_close_others_action y tv r g)"
proof -
  have "windows_ok (fold (close_tab y tv r) ts g)" if "windows_ok g" for ts and g :: "('a, 'b) gui"
    using that by (induction ts arbitrary: g) (simp_all add: kept_close_tab assms(2))
  then show ?thesis unfolding tab_close_others_action_def
    by (intro kept_on_menu_tab) (simp_all add: assms(1))
qed

lemma kept_new_window_action:
  assumes "windows_ok g" "documented tv"
  shows "windows_ok (new_window_action y tv su g)"
proof -
  obtain r g1 where n: "new_window g = (r, g1)" by (cases "new_window g")
  show ?thesis using kept_add_tab [OF kept_new_window(1) [OF assms(1) n] assms(2)]
    by (simp add: new_window_action_def n epimone_window_add_tab_def)
qed

lemma kept_perform:
  assumes "windows_ok g" "documented tv"
  shows "windows_ok (perform y tv su r act g)"
proof (cases act)
  case New_tab
  then show ?thesis using assms by (simp add: new_tab_action_def kept_add_tab)
next
  case (Focus dir)
  then show ?thesis using assms
    by (auto simp: focus_direction_action_def intro!: kept_on_current split: option.split)
next
  case Read_only
  then show ?thesis using assms
    by (auto simp: read_only_action_def Let_def epimone_page_set_read_only_def intro!: kept_on_current almost_frame split: option.split)
next
  case Overview
  then show ?thesis using assms
    by (auto simp: overview_action_def epimone_window_toggle_overview_def epimone_window_show_overview_def
        epimone_window_hide_overview_def intro!: almost_frame)
next
  case Set_title
  then show ?thesis using assms
    by (auto simp: set_title_action_def epimone_window_present_set_title_def intro!: kept_on_current split: option.split)
next
  case Tab_set_title
  then show ?thesis using assms
    by (auto simp: tab_set_title_action_def epimone_window_present_set_title_def intro!: kept_on_menu_tab split: option.split)
next
  case Kill_pane
  then show ?thesis using assms by (auto simp: kill_pane_action_def Let_def intro!: kept_on_current)
next
  case Tab_move_left
  then show ?thesis using assms
    by (auto simp: tab_move_left_action_def reorder_backward_def intro!: kept_on_menu_tab kept_swap split: option.split nat.split)
next
  case Tab_move_right
  then show ?thesis using assms
    by (auto simp: tab_move_right_action_def reorder_forward_def intro!: kept_on_menu_tab kept_swap split: option.split)
qed (use assms in \<open>auto simp: split_right_action_def split_down_action_def kept_split close_pane_action_def zoom_action_def
     kept_open_in_new_tab kept_new_window_action copy_action_def paste_action_def select_all_action_def select_none_action_def
     epimone_page_copy_def epimone_page_paste_def epimone_page_select_all_def epimone_page_select_none_def reset_action_def
     reset_and_clear_action_def epimone_page_reset_terminal_def tab_move_to_new_window_action_def tab_pin_action_def
     tab_unpin_action_def tab_close_action_def kept_close_others preferences_action_def kept_restore_group
     intro!: kept_on_current kept_on_menu_tab kept_page_action kept_focused_op kept_move_to_new_window kept_set_pinned kept_close_tab\<close>)

section \<open>The windows as a state machine\<close>

text \<open>
  What can happen: an action; a tab selected, dragged along, or a page changed by its terminals; the
  menus; the answers of dialogs; the user closing a window; preferences; the save timer.
\<close>

inductive win_step :: "tab_view \<Rightarrow> ('d, 'w) gui \<Rightarrow> ('d, 'w) gui \<Rightarrow> bool" for tv where
  win_action: "win_step tv g (activate y tv su r act g)"
| win_select: "win_step tv g (select_tab y r t g)"
| win_drag: "win_step tv g (swap_tabs tv r k g)"
| win_page: "win_step tv g (page_action y tv r h t g)"
| win_menu: "win_step tv g (epimone_window_setup_menu_cb r page g)"
| win_menu_idle: "win_step tv g (epimone_window_clear_menu_page_cb r g)"
| win_hook_idle: "win_step tv g (epimone_window_hook_tab_popover_cb r g)"
| win_popup: "win_step tv g (epimone_page_popup_menu y placed t x g)"
| win_popup_closed: "win_step tv g (epimone_page_menu_closed_cb t g)"
| win_title: "win_step tv g (set_title_response_cb y space r t response entry g)"
| win_kill: "win_step tv g (kill_pane_response_cb y r sid response g)"
| win_confirm: "win_step tv g (epimone_window_confirm_close y r response g)"
| win_close: "win_step tv g (window_close y r g)"
| win_close_page: "win_step tv g (epimone_window_close_page y tv t g)"
| win_policy: "win_step tv g (epimone_windows_set_tab_bar_policy policy g)"
| win_bottom: "win_step tv g (epimone_windows_set_tab_bar_at_bottom b g)"
| win_ask: "win_step tv g (epimone_windows_set_confirm_close b g)"
| win_timer: "ly_timer (ap_layout (gu_app g)) \<Longrightarrow> win_step tv g (in_app (save_timeout_cb y) g)"

lemma kept_prefs: "almost X g \<Longrightarrow> almost X (epimone_apply_window_prefs_to_all g)"
proof -
  have "almost X (fold (\<lambda>r. in_frame r (epimone_apply_window_prefs_to p)) rs g)" if "almost X g" for p rs and g :: "('a, 'b) gui"
    using that
  proof (induction rs arbitrary: g)
    case (Cons r rs)
    have "almost X (in_frame r (epimone_apply_window_prefs_to p) g)"
      by (rule almost_frame [OF Cons.prems]) (simp_all add: epimone_apply_window_prefs_to_def Let_def)
    then show ?case using Cons.IH by simp
  qed simp
  then show "almost X g \<Longrightarrow> almost X (epimone_apply_window_prefs_to_all g)"
    by (simp add: epimone_apply_window_prefs_to_all_def)
qed

lemma kept_action_enabled: "almost X g \<Longrightarrow> almost X (epimone_page_set_win_action_enabled t name b g)"
  by (simp add: epimone_page_set_win_action_enabled_def kept_enable split: option.split)

lemma kept_popup: "almost X g \<Longrightarrow> almost X (epimone_page_popup_menu y placed t x g)"
  unfolding epimone_page_popup_menu_def Let_def
  by (auto intro!: almost_frame kept_action_enabled split: option.split)

lemma kept_setup_menu: "almost X g \<Longrightarrow> almost X (epimone_window_setup_menu_cb r page g)"
  by (cases page) (auto simp: epimone_window_setup_menu_cb_def enable_def Let_def intro!: almost_frame)

lemma kept_step:
  assumes "win_step tv g g1" "documented tv" "windows_ok g"
  shows "windows_ok g1"
  using assms(1)
proof cases
  case (win_action y su r act)
  then show ?thesis using kept_perform [OF assms(3, 2)] assms(3) by (simp add: activate_def)
next
  case (win_confirm y r response)
  have "windows_ok (in_frame r (\<lambda>f. f\<lparr>fr_closing := True\<rparr>) g)" by (rule almost_frame) (use assms(3) in simp_all)
  then show ?thesis using win_confirm assms(3) almost_window_close [of "{}" _ r y]
    by (simp add: epimone_window_confirm_close_def)
next
  case (win_close_page y t)
  then show ?thesis using assms(2, 3) kept_close_tab
    by (auto simp: epimone_window_close_page_def split: option.split)
next
  case (win_kill y r sid response)
  have "windows_ok (in_app (\<lambda>a. a\<lparr>ap_world := api_kill_session (sy_api y) sid (ap_world a)\<rparr>) g)"
    by (rule almost_in_app) (use assms(3) in simp_all)
  then show ?thesis using win_kill assms(3) by (simp add: kill_pane_response_cb_def)
next
  case (win_timer y)
  then show ?thesis using assms(3) by (simp add: almost_in_app)
next
  case (win_close y r)
  then show ?thesis using assms(3) almost_window_close [of "{}" g r y] by simp
qed (use assms(2, 3) in \<open>auto simp: kept_select kept_swap kept_page_action kept_setup_menu kept_popup
     epimone_window_clear_menu_page_cb_def epimone_window_hook_tab_popover_cb_def epimone_page_menu_closed_cb_def
     set_title_response_cb_def epimone_windows_set_tab_bar_policy_def epimone_windows_set_tab_bar_at_bottom_def
     epimone_windows_set_confirm_close_def intro!: almost_frame kept_action_enabled kept_prefs\<close>)

end
