(* ===== verification/Window_Props.thy ===== *)
theory Window_Props
  imports Window_Steps Layout_Props Machines
begin

text \<open>
  What the windows promise: their shape in every reachable state, the confirmation of a close, and
  what becomes of the last tab, of pinned tabs and of the ids that dialogs keep.
\<close>

section \<open>Every reachable state\<close>

lemma almost_window:
  assumes "windows_ok g" "w \<in> set (ap_windows (gu_app g))"
  shows "frame_ok (gu_frames g (wn_ref w)) (length (wn_pages w)) (wn_selected w)"
  using assms by (fastforce simp: almost_def shape_def)

interpretation tabs: machine "\<lambda>g h. documented tv \<and> win_step tv g h" windows_ok
  by unfold_locales (use kept_step in blast)

lemma reach_windows_ok:
  assumes "(win_step tv)\<^sup>*\<^sup>* g0 g" "documented tv" "ap_windows (gu_app g0) = []"
  shows "windows_ok g"
  by (rule tabs.reach_of [OF assms(1)]) (use assms(2, 3) in \<open>simp_all add: almost_def shape_def\<close>)

text \<open>C28. In every state that the actions, the menus, the dialogs, the tabs dragged about and the
  terminals can lead to, each window has one tab per page, its pinned tabs come first, a tab has an
  icon exactly when it is pinned, one tab is selected unless there is none, and the header shows the
  title of that one; and no two windows have the same address.\<close>

theorem windows_keep_their_shape:
  assumes "(win_step tv)\<^sup>*\<^sup>* g0 g" "documented tv" "ap_windows (gu_app g0) = []"
  shows "distinct (map wn_ref (ap_windows (gu_app g))) \<and>
    (\<forall>w \<in> set (ap_windows (gu_app g)).
       let f = gu_frames g (wn_ref w); ts = fr_tabs f in
       length ts = length (wn_pages w) \<and>
       (\<forall>i j. i < j \<and> j < length ts \<and> tb_pinned (ts ! j) \<longrightarrow> tb_pinned (ts ! i)) \<and>
       (\<forall>x \<in> set ts. tb_icon x \<longleftrightarrow> tb_pinned x) \<and>
       (case wn_selected w of
          None \<Rightarrow> wn_pages w = [] \<and> fr_title_from f = None
        | Some i \<Rightarrow> i < length (wn_pages w) \<and> fr_title_from f = Some (tb_ref (ts ! i))))"
proof (intro conjI ballI)
  have ok: "windows_ok g" by (rule reach_windows_ok [OF assms])
  then show "distinct (map wn_ref (ap_windows (gu_app g)))" by (simp add: almost_def shape_def o_def)
  fix w assume "w \<in> set (ap_windows (gu_app g))"
  from almost_window [OF ok this]
  show "let f = gu_frames g (wn_ref w); ts = fr_tabs f in
       length ts = length (wn_pages w) \<and>
       (\<forall>i j. i < j \<and> j < length ts \<and> tb_pinned (ts ! j) \<longrightarrow> tb_pinned (ts ! i)) \<and>
       (\<forall>x \<in> set ts. tb_icon x \<longleftrightarrow> tb_pinned x) \<and>
       (case wn_selected w of
          None \<Rightarrow> wn_pages w = [] \<and> fr_title_from f = None
        | Some i \<Rightarrow> i < length (wn_pages w) \<and> fr_title_from f = Some (tb_ref (ts ! i)))"
    by (auto simp: Let_def frame_ok_def tabs_ok_def sel_ok_def sorted_wrt_iff_nth_less split: option.splits)
qed

text \<open>An instance of libadwaita: the page before the closed one is selected, or the first.\<close>

definition wit_tabs :: tab_view where
  "wit_tabs = \<lparr>tv_closable = Not, tv_insertable = (\<lambda>np n pos. np \<le> pos \<and> pos \<le> n), tv_swappable = (=),
     tv_successor = (\<lambda>n k. if k < n then k else n - 1), tv_others = (\<lambda>ts t. filter (\<lambda>x. x \<noteq> t) ts)\<rparr>"

lemma wit_documented: "documented wit_tabs"
  by (auto simp: documented_def wit_tabs_def)

section \<open>Closing\<close>

lemma window_close_gone: "window_index r (destroy_window r g) = None"
proof -
  have "gu_app (destroy_window r g) = (gu_app g)\<lparr>ap_windows := filter (\<lambda>w. wn_ref w \<noteq> r) (ap_windows (gu_app g))\<rparr>"
    by (simp add: destroy_window_def Let_def in_frame_def epimone_window_unregister_def in_app_def)
  then show ?thesis by (simp add: window_index_def find_index_None)
qed

lemma destroy_frozen: "ly_frozen (ap_layout (gu_app (destroy_window r (in_app (epimone_layout_begin_shutdown y) g))))"
proof -
  have "ap_layout (gu_app (destroy_window r g)) = ap_layout (gu_app g)" for g :: "('a, 'b) gui"
    by (simp add: destroy_window_def Let_def in_frame_def epimone_window_unregister_def in_app_def)
  then show ?thesis
    using shutdown_sched(1) [of "gu_app g" y]
    by (cases "ly_frozen (ap_layout (gu_app g))") (simp_all add: in_app_def epimone_layout_begin_shutdown_def)
qed

text \<open>
  A window is closed for good: it is gone, saving is frozen, and unless it was frozen before, both files
  have been written for the last time (where they can be): the groups of all tabs of all windows, this
  one included, were first brought up to date, and the layout is that of all these windows.
\<close>

definition closed_for_good :: "('d, 'w) system \<Rightarrow> nat \<Rightarrow> ('d, 'w) gui \<Rightarrow> ('d, 'w) gui \<Rightarrow> bool" where
  "closed_for_good y r g h \<longleftrightarrow> window_index r h = None \<and> ly_frozen (ap_layout (gu_app h)) \<and>
     (if ly_frozen (ap_layout (gu_app g)) then files (gu_app h) = files (gu_app g)
      else case sync_windows y (ap_windows (gu_app g)) (ap_world (gu_app g)) of (ws, w) \<Rightarrow>
        ap_world (gu_app h) = snd (api_instance_id (sy_api y) w) \<and>
        (sy_writable y \<longrightarrow> files (gu_app h) =
           (Some (gv_print_layout (sy_gv y) (LAYOUT_VERSION, map window_to_variant ws)),
            Some (gv_print_groups (sy_gv y) (GROUPS_VERSION, fst (api_instance_id (sy_api y) w),
               filter (\<lambda>g. g \<noteq> 0) (map pg_group (concat (map wn_pages ws))))))))"

lemma destroy_app: "gu_app (destroy_window r g) = (gu_app g)\<lparr>ap_windows := filter (\<lambda>w. wn_ref w \<noteq> r) (ap_windows (gu_app g))\<rparr>"
  by (simp add: destroy_window_def Let_def in_frame_def epimone_window_unregister_def in_app_def)

lemma sync_windows_nonempty: "ws \<noteq> [] \<Longrightarrow> fst (sync_windows y ws w) \<noteq> []"
  by (cases ws) (simp_all split: prod.split)

lemma begin_shutdown_saves:
  assumes "\<not> ly_frozen (ap_layout a)" and "ap_windows a \<noteq> []" and "sync_windows y (ap_windows a) (ap_world a) = (ws, w)"
  shows "ap_world (epimone_layout_begin_shutdown y a) = snd (api_instance_id (sy_api y) w)"
    and "sy_writable y \<Longrightarrow> files (epimone_layout_begin_shutdown y a) =
       (Some (gv_print_layout (sy_gv y) (LAYOUT_VERSION, map window_to_variant ws)),
        Some (gv_print_groups (sy_gv y) (GROUPS_VERSION, fst (api_instance_id (sy_api y) w),
           filter (\<lambda>g. g \<noteq> 0) (map pg_group (concat (map wn_pages ws))))))"
proof -
  have ne: "ws \<noteq> []" using sync_windows_nonempty [OF assms(2), of y "ap_world a"] assms(3) by simp
  obtain i w2 where i: "api_instance_id (sy_api y) w = (i, w2)" by (cases "api_instance_id (sy_api y) w")
  note d = epimone_layout_begin_shutdown_def sync_groups_now_def save_groups_state_def epimone_layout_save_now_def
    files_def Let_def set_layout_def
  show "ap_world (epimone_layout_begin_shutdown y a) = snd (api_instance_id (sy_api y) w)"
    using assms(1, 3) i by (simp add: d)
  show "files (epimone_layout_begin_shutdown y a) =
       (Some (gv_print_layout (sy_gv y) (LAYOUT_VERSION, map window_to_variant ws)),
        Some (gv_print_groups (sy_gv y) (GROUPS_VERSION, fst (api_instance_id (sy_api y) w),
           filter (\<lambda>g. g \<noteq> 0) (map pg_group (concat (map wn_pages ws))))))" if "sy_writable y"
    using assms(1, 3) i ne that by (simp add: d)
qed

lemma window_close_good:
  assumes "fst (epimone_window_close_request y r g) = False" and "window_index r g \<noteq> None"
  shows "closed_for_good y r g (window_close y r g)"
proof -
  have w: "window_close y r g = destroy_window r (in_app (epimone_layout_begin_shutdown y) g)"
    using assms by (auto simp: window_close_def epimone_window_close_request_def Let_def split: if_splits)
  have ne: "ap_windows (gu_app g) \<noteq> []" using assms(2) by (auto simp: window_index_def)
  obtain ws w' where s: "sync_windows y (ap_windows (gu_app g)) (ap_world (gu_app g)) = (ws, w')"
    by (cases "sync_windows y (ap_windows (gu_app g)) (ap_world (gu_app g))")
  show ?thesis
  proof (cases "ly_frozen (ap_layout (gu_app g))")
    case True
    then show ?thesis unfolding closed_for_good_def w
      using window_close_gone [of r "in_app (epimone_layout_begin_shutdown y) g"] destroy_frozen [of r y g]
      by (simp add: destroy_app files_def in_app_def epimone_layout_begin_shutdown_def)
  next
    case False
    then show ?thesis unfolding closed_for_good_def w
      using window_close_gone [of r "in_app (epimone_layout_begin_shutdown y) g"] destroy_frozen [of r y g]
        begin_shutdown_saves [OF False ne s]
      by (simp add: destroy_app files_def in_app_def s)
  qed
qed

text \<open>C29. Closing a window asks first exactly when the preference to confirm a close is set, the close
  was not confirmed before, and the window has several tabs or a split one; then nothing but the
  question happens. Otherwise, and when the question is answered with close, the window goes and both
  files are written for the last time, with the groups and windows as they were, this window included
  (unless saving had been frozen by an earlier close; then nothing is written). Any other answer leaves
  every window as it is.\<close>

theorem close_is_confirmed:
  assumes "window_index r g \<noteq> None"
  shows "let asks = (wp_confirm_close (gu_prefs g) \<and> \<not> fr_closing (gu_frames g r) \<and>
                     (1 < n_pages r g \<or> 1 < epimone_window_count_panes r g))
    in (if asks then window_close y r g = gui_log (Ask_close r (n_pages r g) (epimone_window_count_panes r g)) g
        else closed_for_good y r g (window_close y r g)) \<and>
       closed_for_good y r g (epimone_window_confirm_close y r (lit ''close'') g) \<and>
       (response \<noteq> lit ''close'' \<longrightarrow> shape (gu_app (epimone_window_confirm_close y r response g)) = shape (gu_app g))"
proof -
  let ?c = "in_frame r (\<lambda>f. f\<lparr>fr_closing := True\<rparr>) g"
  have "fst (epimone_window_close_request y r ?c) = False"
    by (simp add: epimone_window_close_request_def Let_def in_frame_def)
  moreover have "window_index r ?c \<noteq> None" using assms by (simp add: window_index_def in_frame_def)
  moreover have "closed_for_good y r ?c h = closed_for_good y r g h" for h
    by (simp add: closed_for_good_def in_frame_def)
  ultimately have confirmed: "closed_for_good y r g (epimone_window_confirm_close y r (lit ''close'') g)"
    using window_close_good [of y r ?c] by (simp add: epimone_window_confirm_close_def)
  have other: "shape (gu_app (epimone_window_confirm_close y r response g)) = shape (gu_app g)"
    if "response \<noteq> lit ''close''"
    using that focus_current_keeps
    by (auto simp: epimone_window_confirm_close_def focus_current_def in_app_def keeps_shape_def split: option.split)
  show ?thesis using window_close_good [OF _ assms, of y] confirmed other assms
    by (auto simp: Let_def window_close_def epimone_window_close_request_def)
qed

section \<open>A window to evaluate on\<close>

text \<open>The application with no window yet, and after a window with one tab was opened.\<close>

definition wit_gui :: "(rat, unit) gui" where
  "wit_gui = \<lparr>gu_app = wit_app\<lparr>ap_windows := []\<rparr>, gu_frames = (\<lambda>_. epimone_window_init epimone_window_prefs),
     gu_registry = [], gu_prefs = epimone_window_prefs, gu_next_tab = 0, gu_held = Map.empty, gu_read_only = {},
     gu_settings = False, gu_log = []\<rparr>"

definition wit_surroundings :: surroundings where
  "wit_surroundings = \<lparr>su_session = 5, su_cwd = (\<lambda>_. None)\<rparr>"

definition wit_gui1 :: "(rat, unit) gui" where
  "wit_gui1 = activate wit_sys wit_tabs wit_surroundings 0 New_window wit_gui"

text \<open>What leaves the pages, the selection and the tabs of a window as they are.\<close>

definition same_window :: "nat \<Rightarrow> ('d, 'w) gui \<Rightarrow> ('d, 'w) gui \<Rightarrow> bool" where
  "same_window r g g' \<longleftrightarrow> seen r g' = seen r g \<and> tabs_of r g' = tabs_of r g \<and>
     map fst (shape (gu_app g')) = map fst (shape (gu_app g))"

lemma fst_shape: "map fst (shape a) = map wn_ref (ap_windows a)"
  by (simp add: shape_def)

lemma refs_at_window [simp]: "(\<And>w. wn_ref (H w) = wn_ref w) \<Longrightarrow> map wn_ref (ap_windows (at_window H wi a)) = map wn_ref (ap_windows a)"
  by (auto simp: at_window_def map_update intro!: list_update_same_conv [THEN iffD2])

lemma same_refl [simp]: "same_window r g g" by (simp add: same_window_def)
lemma same_trans [trans]: "same_window r g h \<Longrightarrow> same_window r h k \<Longrightarrow> same_window r g k" by (simp add: same_window_def)

lemma same_in_app: "keeps_shape (gu_app g) (h (gu_app g)) \<Longrightarrow> same_window r g (in_app h g)"
  by (auto simp: same_window_def keeps_shape_def in_app_def tabs_of_def intro!: seen_shape)

lemma same_schedule [simp]: "same_window r g (schedule_save g)"
  unfolding schedule_save_def by (rule same_in_app) simp

lemma same_focus [simp]: "same_window r g (focus_current y r' g)"
  unfolding focus_current_def by (auto intro: same_in_app split: option.split)

lemma same_rebind [simp]: "same_window r g (epimone_window_rebind_title r' g)"
  by (auto simp: same_window_def epimone_window_rebind_title_def in_frame_def tabs_of_def intro!: seen_shape)

lemma same_notify [simp]: "same_window r g (epimone_window_notify_selected_cb y r' g)"
  unfolding epimone_window_notify_selected_cb_def by (rule same_trans [OF same_trans [OF same_rebind same_focus] same_schedule])

lemma same_page_calls: "page_calls p g = (q, g1) \<Longrightarrow> same_window r g g1"
  by (auto simp: page_calls_def intro: same_in_app)

lemma same_page_step [simp]: "same_window r g (page_step h t g)"
proof (cases "home_of t g")
  case None
  have "same_window r g (g1\<lparr>gu_held := m\<rparr>)" if "same_window r g g1" for g1 m
    using that seen_shape [of "g1\<lparr>gu_held := m\<rparr>" g1 r] by (simp add: same_window_def tabs_of_def)
  then have held: "same_window r g (case page_calls q g of (q, g1) \<Rightarrow> g1\<lparr>gu_held := (gu_held g1)(t \<mapsto> q)\<rparr>)" for q
    using same_page_calls [of q g _ _ r] by (cases "page_calls q g") simp
  then show ?thesis using None by (simp add: page_step_def split: option.split)
qed (auto simp: page_step_def intro: same_in_app split: option.split)

lemma seen_window: "seen r g = Some e \<Longrightarrow> \<exists>wi. window_index r g = Some wi"
  by (auto simp: seen_def)

lemma put_first:
  assumes "seen r g = Some (0, None)" "tabs_of r g = []"
  shows "seen r (put_tab y r 0 x p g) = Some (1, Some 0) \<and> tabs_of r (put_tab y r 0 x p g) = [x] \<and>
    map fst (shape (gu_app (put_tab y r 0 x p g))) = map fst (shape (gu_app g))"
proof -
  obtain wi where wi: "window_index r g = Some wi" using seen_window [OF assms(1)] by blast
  let ?w = "ap_windows (gu_app g) ! wi"
  have w: "wn_pages ?w = []" "wn_selected ?w = None" using assms(1) seen_Some [OF wi] by auto
  let ?F = "\<lambda>f. f\<lparr>fr_tabs := insert_at 0 x (fr_tabs f)\<rparr>"
  let ?H = "\<lambda>w. w\<lparr>wn_pages := insert_at 0 p (wn_pages w),
                  wn_selected := map_option (\<lambda>i. if 0 \<le> i then i + 1 else i) (wn_selected w)\<rparr>"
  let ?g = "in_frame r ?F (in_app (at_window ?H wi) g)"
  have g: "seen r ?g = Some (1, None)" "tabs_of r ?g = [x]"
    using seen_edit [OF wi, of ?H ?F] w assms(2) by (simp_all add: insert_at_def tabs_of_def in_frame_def in_app_def)
  obtain wi' where wi': "window_index r ?g = Some wi'" using seen_window [OF g(1)] by blast
  let ?S = "\<lambda>w. w\<lparr>wn_selected := Some 0\<rparr>"
  let ?h = "in_app (at_window ?S wi') ?g"
  have "(1, None) = (length (wn_pages (ap_windows (gu_app ?g) ! wi')), wn_selected (ap_windows (gu_app ?g) ! wi'))"
    using trans [OF g(1) [symmetric] seen_Some [OF wi']] by (simp only: option.inject)
  then have sel: "wn_selected (ap_windows (gu_app ?g) ! wi') = None" "length (wn_pages (ap_windows (gu_app ?g) ! wi')) = 1"
    by (simp_all only: prod.inject)
  have "in_frame r (\<lambda>f. f) ?h = ?h" by (simp add: in_frame_def in_app_def)
  moreover have "seen r (in_frame r (\<lambda>f. f) ?h) = Some (length (wn_pages (?S (ap_windows (gu_app ?g) ! wi'))),
      wn_selected (?S (ap_windows (gu_app ?g) ! wi')))" by (rule seen_edit [OF wi']) simp
  ultimately have h1: "seen r ?h = Some (1, Some 0)" using sel(2) by simp
  have h2: "tabs_of r ?h = [x]" using g(2) by (simp add: tabs_of_def in_app_def)
  have h3: "map fst (shape (gu_app ?h)) = map fst (shape (gu_app g))"
    by (simp add: in_app_def in_frame_def fst_shape)
  note h = h1 h2 h3
  have "tab_index (tb_ref x) r ?g = Some 0" using g(2) by (simp add: tab_index_def)
  then have s: "select_tab y r (tb_ref x) ?g = epimone_window_notify_selected_cb y r ?h"
    using wi' sel(1) by (simp add: select_tab_def)
  let ?s = "epimone_window_notify_selected_cb y r ?h"
  have s1: "seen r ?s = Some (1, Some 0)" "tabs_of r ?s = [x]" "map fst (shape (gu_app ?s)) = map fst (shape (gu_app g))" using h same_notify [of r ?h y r] by (simp_all add: same_window_def)
  have "n_pages r ?s = 1" using s1 by (simp add: n_pages_seen)
  then have "epimone_window_notify_n_pages y r ?s = schedule_save ?s" by (simp add: epimone_window_notify_n_pages_def)
  moreover have "n_pages r g = 0" using assms(1) by (simp add: n_pages_seen)
  ultimately have "put_tab y r 0 x p g = schedule_save ?s" unfolding put_tab_def Let_def using wi s by simp
  then show ?thesis using s1 same_schedule [of r ?s] by (simp add: same_window_def)
qed

lemma select_selected:
  assumes "seen r g = Some (n, Some k)" "tab_index t r g = Some k"
  shows "select_tab y r t g = g"
  using seen_window [OF assms(1)] assms by (auto simp: select_tab_def seen_Some)

text \<open>A new window has one tab, which is selected and not pinned.\<close>

lemma new_window_has_one_tab:
  assumes "windows_ok g"
  shows "seen (ap_next (gu_app g)) (new_window_action y tv su g) = Some (1, Some 0) \<and>
    (\<exists>x. tabs_of (ap_next (gu_app g)) (new_window_action y tv su g) = [x] \<and> tb_ref x = gu_next_tab g \<and> \<not> tb_pinned x) \<and>
    map fst (shape (gu_app (new_window_action y tv su g))) = ap_next (gu_app g) # map fst (shape (gu_app g))"
proof -
  let ?r = "ap_next (gu_app g)"
  obtain g1 where n: "new_window g = (?r, g1)" by (simp add: new_window_def Let_def)
  have t1: "gu_next_tab g1 = gu_next_tab g" using n by (auto simp: new_window_def Let_def in_frame_def in_app_def)
  have g1: "seen ?r g1 = Some (0, None)" "tabs_of ?r g1 = []" "map fst (shape (gu_app g1)) = ?r # map fst (shape (gu_app g))"
  proof -
    have "g1 = in_frame ?r (\<lambda>_. epimone_window_init (gu_prefs g)) (in_app epimone_window_new (g\<lparr>gu_registry := ?r # gu_registry g\<rparr>))"
      using n by (auto simp: new_window_def Let_def)
    then have "shape (gu_app g1) = (?r, 0, None) # shape (gu_app g)"
      by (simp add: in_frame_def in_app_def window_new_shape)
    then show "seen ?r g1 = Some (0, None)" "map fst (shape (gu_app g1)) = ?r # map fst (shape (gu_app g))"
      by (simp_all add: seen_def window_index_shape)
    show "tabs_of ?r g1 = []" by (rule kept_new_window(4) [OF assms n])
  qed
  let ?sid = "su_session su" and ?x = "ap_next (gu_app g1)"
  let ?g2 = "gui_log (Spawned None ?sid) (in_app (\<lambda>a. a\<lparr>ap_next := ?x + 1\<rparr>) g1)"
  have "same_window ?r g1 (in_app (\<lambda>a. a\<lparr>ap_next := ?x + 1\<rparr>) g1)" by (rule same_in_app) simp
  then have s2: "same_window ?r g1 ?g2"
    using seen_shape [of ?g2 "in_app (\<lambda>a. a\<lparr>ap_next := ?x + 1\<rparr>) g1" ?r] by (simp add: same_window_def gui_log_def tabs_of_def)
  obtain p g3 where p: "page_calls (epimone_page_new_with_cwd (sy_env y) ?x ?sid) ?g2 = (p, g3)"
    by (cases "page_calls (epimone_page_new_with_cwd (sy_env y) ?x ?sid) ?g2")
  have t3: "gu_next_tab g3 = gu_next_tab g" using p t1 by (auto simp: page_calls_def in_app_def gui_log_def)
  have g3: "seen ?r g3 = Some (0, None)" "tabs_of ?r g3 = []" "map fst (shape (gu_app g3)) = ?r # map fst (shape (gu_app g))"
    using same_page_calls [OF p, of ?r] s2 g1 by (simp_all add: same_window_def)
  let ?tab = "epimone_tab_page_notify_pinned_cb \<lparr>tb_ref = gu_next_tab g, tb_pinned = False, tb_icon = False\<rparr>"
  let ?g4 = "put_tab y ?r 0 ?tab p (g3\<lparr>gu_next_tab := gu_next_tab g + 1\<rparr>)"
  have "seen ?r (g3\<lparr>gu_next_tab := m\<rparr>) = seen ?r g3" for m by (rule seen_shape) simp
  then have g4: "seen ?r ?g4 = Some (1, Some 0)" "tabs_of ?r ?g4 = [?tab]" "map fst (shape (gu_app ?g4)) = ?r # map fst (shape (gu_app g))"
    using put_first [of ?r "g3\<lparr>gu_next_tab := gu_next_tab g + 1\<rparr>" y ?tab p] g3 by (simp_all add: tabs_of_def)
  have at: "epimone_window_attach_page y tv ?r p g3 = (gu_next_tab g, ?g4)"
    using g3 by (simp add: epimone_window_attach_page_def epimone_window_attach_page_at_def t3 n_pages_seen Let_def)
  have "tab_index (gu_next_tab g) ?r ?g4 = Some 0"
    using g4(2) by (simp add: tab_index_def epimone_tab_page_notify_pinned_cb_def)
  from select_selected [OF g4(1) this] have "new_window_action y tv su g =
      gui_log (Present ?r) (page_step (epimone_page_focus_terminal (sy_env y)) (gu_next_tab g) ?g4)"
    using p [simplified] by (simp add: new_window_action_def n epimone_window_add_tab_def epimone_window_add_tab_with_cwd_def at [simplified] Let_def)
  moreover have "same_window ?r h (gui_log e h)" for e and h :: "('a, 'b) gui"
    using seen_shape [of "gui_log e h" h ?r] by (simp add: same_window_def gui_log_def tabs_of_def)
  ultimately have "same_window ?r ?g4 (new_window_action y tv su g)" using same_trans [OF same_page_step] by metis
  then show ?thesis using g4 by (simp add: same_window_def epimone_tab_page_notify_pinned_cb_def)
qed

lemma wit_gui_ok: "windows_ok wit_gui" "ap_windows (gu_app wit_gui) = []"
  by (simp_all add: almost_def shape_def wit_gui_def wit_app_def)

lemma wit_step: "(win_step wit_tabs)\<^sup>*\<^sup>* wit_gui wit_gui1"
  unfolding wit_gui1_def by (rule r_into_rtranclp) (rule win_action)

lemma wit_seen: "seen 200 wit_gui1 = Some (1, Some 0)"
  "\<exists>x. tabs_of 200 wit_gui1 = [x] \<and> tb_ref x = 0 \<and> \<not> tb_pinned x"
  "map wn_ref (ap_windows (gu_app wit_gui1)) = [200]"
proof -
  have "wit_gui1 = new_window_action wit_sys wit_tabs wit_surroundings wit_gui"
    by (simp add: wit_gui1_def activate_def wit_gui_def epimone_window_init_def epimone_apply_window_prefs_to_def Let_def)
  moreover have "ap_next (gu_app wit_gui) = 200" "gu_next_tab wit_gui = 0" by (simp_all add: wit_gui_def wit_app_def)
  ultimately show "seen 200 wit_gui1 = Some (1, Some 0)" "\<exists>x. tabs_of 200 wit_gui1 = [x] \<and> tb_ref x = 0 \<and> \<not> tb_pinned x"
    "map wn_ref (ap_windows (gu_app wit_gui1)) = [200]"
    using new_window_has_one_tab [OF wit_gui_ok(1), of wit_sys wit_tabs wit_surroundings] wit_gui_ok(2)
    by (simp_all add: fst_shape)
qed

theorem windows_keep_their_shape_witness:
  "\<exists>w \<in> set (ap_windows (gu_app wit_gui1)). wn_ref w = 200 \<and> length (fr_tabs (gu_frames wit_gui1 200)) = length (wn_pages w) \<and>
     (\<exists>x. fr_tabs (gu_frames wit_gui1 200) = [x] \<and> fr_title_from (gu_frames wit_gui1 200) = Some (tb_ref x))"
proof -
  obtain wi where wi: "window_index 200 wit_gui1 = Some wi" using seen_window [OF wit_seen(1)] by blast
  let ?w = "ap_windows (gu_app wit_gui1) ! wi"
  have w: "?w \<in> set (ap_windows (gu_app wit_gui1))" "wn_ref ?w = 200" using window_index_bound [OF wi] by auto
  have s: "length (wn_pages ?w) = 1" "wn_selected ?w = Some 0" using wit_seen(1) seen_Some [OF wi] by auto
  from windows_keep_their_shape [OF wit_step wit_documented wit_gui_ok(2)] w
  have "length (fr_tabs (gu_frames wit_gui1 200)) = length (wn_pages ?w)"
    "fr_title_from (gu_frames wit_gui1 200) = Some (tb_ref (fr_tabs (gu_frames wit_gui1 200) ! 0))"
    using s by (auto simp: Let_def dest!: bspec)
  then show ?thesis using w s by (intro bexI [OF _ w(1)]) (auto simp: length_Suc_conv)
qed

text \<open>A window with two tabs is asked about, and the answer to close it saves it.\<close>

definition wit_two_tabs :: "(rat, unit) gui" where
  "wit_two_tabs = wit_gui\<lparr>gu_app := wit_app\<lparr>ap_windows := [\<lparr>wn_ref = 100, wn_pages = [wit_page, wit_page],
     wn_selected = Some 0, wn_size = (800, 600), wn_maximized = False, wn_ticks = []\<rparr>]\<rparr>\<rparr>"

theorem close_is_confirmed_witness:
  "window_close wit_sys 100 wit_two_tabs =
     gui_log (Ask_close 100 2 (epimone_window_count_panes 100 wit_two_tabs)) wit_two_tabs \<and>
   files (gu_app wit_two_tabs) = (None, None) \<and>
   files (gu_app (epimone_window_confirm_close wit_sys 100 (lit ''close'') wit_two_tabs)) = (Some [2], Some [3]) \<and>
   window_index 100 (epimone_window_confirm_close wit_sys 100 (lit ''close'') wit_two_tabs) = None"
proof -
  have at: "window_index 100 wit_two_tabs = Some 0" by (simp add: window_index_def wit_two_tabs_def)
  have n: "n_pages 100 wit_two_tabs = 2" using at by (simp add: n_pages_def window_of_def) (simp add: wit_two_tabs_def)
  have asks: "wp_confirm_close (gu_prefs wit_two_tabs) \<and> \<not> fr_closing (gu_frames wit_two_tabs 100) \<and>
      (1 < n_pages 100 wit_two_tabs \<or> 1 < epimone_window_count_panes 100 wit_two_tabs)"
    by (simp add: n) (simp add: wit_two_tabs_def wit_gui_def epimone_window_prefs_def epimone_window_init_def
        epimone_apply_window_prefs_to_def Let_def)
  have start: "\<not> ly_frozen (ap_layout (gu_app wit_two_tabs))" "files (gu_app wit_two_tabs) = (None, None)"
    by (simp_all add: wit_two_tabs_def wit_app_def layout_start_def files_def)
  have sys: "sy_writable wit_sys" "gv_print_layout (sy_gv wit_sys) v = [2]" "gv_print_groups (sy_gv wit_sys) u = [3]" for u v
    by (simp_all add: wit_sys_def wit_gv_def)
  have "window_index 100 wit_two_tabs \<noteq> None" using at by simp
  from close_is_confirmed [OF this, of wit_sys "[]"]
  have "window_close wit_sys 100 wit_two_tabs =
      gui_log (Ask_close 100 (n_pages 100 wit_two_tabs) (epimone_window_count_panes 100 wit_two_tabs)) wit_two_tabs"
    "closed_for_good wit_sys 100 wit_two_tabs (epimone_window_confirm_close wit_sys 100 (lit ''close'') wit_two_tabs)"
    unfolding Let_def using asks by simp_all
  then show ?thesis using start unfolding closed_for_good_def n by (auto simp: sys split: prod.splits)
qed

section \<open>The last tab\<close>

lemma take_only_tab:
  assumes "windows_ok g" "documented tv" "n_pages r g = 1" "tab_index t r g = Some k"
  shows "\<exists>x p h. take_tab y tv r t g = (Some (x, p), destroy_window r (in_app (epimone_layout_begin_shutdown y) h))"
proof -
  obtain n s where sn: "seen r g = Some (n, s)" using assms(3) by (cases "seen r g") (auto simp: n_pages_seen)
  obtain wi where wi: "window_index r g = Some wi" using seen_window [OF sn] by blast
  let ?w = "ap_windows (gu_app g) ! wi"
  note f = window_fields [OF assms(1) wi]
  have one: "length (wn_pages ?w) = 1" using assms(3) by (simp add: n_pages_seen seen_Some [OF wi])
  have k: "k = 0" using tab_index_bound [OF assms(4)] f(2) one by (simp add: tabs_ok_def tabs_of_def)
  have sel: "wn_selected ?w = Some 0" using f(3) one by (auto simp: sel_ok_def split: option.splits)
  let ?F = "\<lambda>f. f\<lparr>fr_tabs := remove_at k (fr_tabs f)\<rparr>"
  let ?H = "\<lambda>w. w\<lparr>wn_pages := remove_at k (wn_pages w), wn_selected := None\<rparr>"
  let ?g = "in_frame r ?F (in_app (at_window ?H wi) g)"
  let ?s = "epimone_window_notify_selected_cb y r ?g"
  have "seen r ?g = Some (0, None)" using seen_edit [OF wi, of ?H ?F] one k by (simp add: remove_at_def)
  then have s: "seen r ?s = Some (0, None)" using same_notify [of r ?g y r] by (simp add: same_window_def)
  then have n0: "n_pages r ?s = 0" by (simp add: n_pages_seen)
  obtain wj where wj: "window_index r ?s = Some wj" using seen_window [OF s] by blast
  have "wn_pages (ap_windows (gu_app ?s) ! wj) = []" using s seen_Some [OF wj] by simp
  then have "epimone_window_count_panes r ?s = 0"
    using wj by (simp add: epimone_window_count_panes_def window_of_def)
  then have "epimone_window_notify_n_pages y r ?s = destroy_window r (in_app (epimone_layout_begin_shutdown y) ?s)"
    using n0 wj by (simp add: epimone_window_notify_n_pages_def window_close_def epimone_window_close_request_def Let_def)
  then show ?thesis using wi assms(4) one sel k unfolding take_tab_def Let_def by simp blast
qed

text \<open>C30. When the last pane of the only tab of a window is closed or its shell exits, the window goes
  without a question, also while other windows are open, and that is the last save: from then on
  nothing of the other windows is saved.\<close>

theorem last_tab_takes_its_window:
  assumes "(win_step tv)\<^sup>*\<^sup>* g0 g" "documented tv" "ap_windows (gu_app g0) = []"
    and "home_of t g = Some r" "n_pages r g = 1" "\<forall>x \<in> set (tabs_of r g). \<not> tb_pinned x"
  shows "let g' = epimone_window_page_close_cb y tv origin t g in
    window_index r g' = None \<and> ly_frozen (ap_layout (gu_app g'))"
proof -
  have ok: "windows_ok g" by (rule reach_windows_ok [OF assms(1-3)])
  have "t \<in> tb_ref ` set (tabs_of r g)" using assms(4) by (auto simp: home_of_def find_Some_iff)
  then obtain k where k: "tab_index t r g = Some k"
    using find_index_None [of "\<lambda>x. tb_ref x = t" "tabs_of r g"] by (auto simp: tab_index_def)
  obtain x p h where take: "take_tab y tv r t g = (Some (x, p), destroy_window r (in_app (epimone_layout_begin_shutdown y) h))"
    using take_only_tab [OF ok assms(2, 5) k] by blast
  have "\<not> tb_pinned (tabs_of r g ! k)" using assms(6) tab_index_bound [OF k] by simp
  then have c: "epimone_window_page_close_cb y tv origin t g = forget_menu_page t
      ((destroy_window r (in_app (epimone_layout_begin_shutdown y) h))\<lparr>gu_held := (gu_held (destroy_window r
        (in_app (epimone_layout_begin_shutdown y) h)))(t \<mapsto> p)\<rparr>)"
    using assms(2, 4) k take by (simp add: epimone_window_page_close_cb_def close_tab_def documented_def)
  show ?thesis unfolding c Let_def using window_close_gone [of r "in_app (epimone_layout_begin_shutdown y) h"] destroy_frozen [of r y h]
    by (simp add: forget_menu_page_def window_index_def)
qed

theorem last_tab_takes_its_window_witness:
  "let g' = epimone_window_page_close_cb wit_sys wit_tabs 200 0 wit_gui1 in
    window_index 200 g' = None \<and> ly_frozen (ap_layout (gu_app g'))"
proof (rule last_tab_takes_its_window [OF wit_step wit_documented wit_gui_ok(2)])
  obtain x where x: "tabs_of 200 wit_gui1 = [x]" "tb_ref x = 0" "\<not> tb_pinned x" using wit_seen(2) by blast
  show "home_of 0 wit_gui1 = Some 200" using x by (simp add: home_of_def wit_seen(3))
  show "n_pages 200 wit_gui1 = 1" by (simp add: n_pages_seen wit_seen(1))
  show "\<forall>x \<in> set (tabs_of 200 wit_gui1). \<not> tb_pinned x" using x by simp
qed

section \<open>Pinned tabs\<close>

text \<open>A pinned tab outlives its panes: neither the end of its last shell nor Detach Tab closes it.\<close>

theorem pinned_tab_is_not_closed:
  assumes "documented tv" "home_of t g = Some r" "tab_index t r g = Some k" "tb_pinned (tabs_of r g ! k)"
  shows "epimone_window_page_close_cb y tv origin t g = g" "epimone_window_close_page y tv t g = g"
    "epimone_window_tab_menu_page r g = Some t \<Longrightarrow> tab_close_action y tv r g = g"
  using assms by (simp_all add: epimone_window_page_close_cb_def epimone_window_close_page_def close_tab_def documented_def
      tab_close_action_def on_menu_tab_def)

lemma focus_terminal_root: "pg_root (epimone_page_focus_terminal e p) = pg_root p"
  by (simp add: epimone_page_focus_terminal_def page_log_def split: option.split)

lemma page_step_shape: "shape (gu_app (page_step h t g)) = shape (gu_app g)"
  using at_page_keeps [of "gu_app g"] set_layout_keeps [of "gu_app g"]
  by (auto simp: page_step_def page_calls_def in_app_def keeps_shape_def split: option.split)

text \<open>Moving a pane out of a pinned tab that is not the last pinned one puts it into no window: no tab is
  added, and the new page with the pane and its session is held by nobody.\<close>

theorem pane_of_pinned_tab_is_lost:
  assumes "documented tv" "selected_tab r g = Some t" "tab_index t r g = Some k" "Suc k < n_pinned r g"
    and "page_of t g = Some p" "2 \<le> epimone_page_get_pane_count p"
    and "fst (epimone_page_take_focused_leaf (sy_env y) (p\<lparr>pg_calls := []\<rparr>)) = Some (x, s)"
    and "\<forall>r'. gu_next_tab g \<notin> tb_ref ` set (tabs_of r' g)"
  shows "let g' = open_in_new_tab_action y tv r g in
    shape (gu_app g') = shape (gu_app g) \<and>
    (\<exists>q. gu_held g' (gu_next_tab g) = Some q \<and> page_sessions q = [(x, s)] \<and> home_of (gu_next_tab g) g' = None)"
proof -
  let ?n = "gu_next_tab g"
  let ?h = "\<lambda>p. snd (epimone_page_take_focused_leaf (sy_env y) p)"
  let ?q = "epimone_page_adopt_leaf (sy_env y) x s epimone_page_new_empty"
  let ?g1 = "page_step ?h t g"
  obtain q g2 where q: "page_calls ?q ?g1 = (q, g2)" by (cases "page_calls ?q ?g1")
  have frames: "gu_frames ?g1 = gu_frames g" "gu_next_tab ?g1 = ?n" "gu_frames g2 = gu_frames g" "gu_next_tab g2 = ?n"
    using q by (auto simp: page_step_def page_calls_def in_app_def split: option.split)
  have tabs: "tabs_of r' g2 = tabs_of r' g" for r' using frames by (simp add: tabs_of_def)
  have sh1: "shape (gu_app ?g1) = shape (gu_app g)" by (rule page_step_shape)
  have sh2: "shape (gu_app g2) = shape (gu_app g)"
    using q sh1 set_layout_keeps [of "gu_app ?g1"] by (auto simp: page_calls_def in_app_def keeps_shape_def)
  have no: "tb_ref z \<noteq> ?n" if "z \<in> set (fr_tabs (gu_frames g r'))" for z r'
    using assms(8) imageI [OF that, of tb_ref] by (metis tabs_of_def)
  have away: "tab_index ?n r' h = None" "home_of ?n h = None" if "gu_frames h = gu_frames g" for r' and h :: "('a, 'b) gui"
    using no that by (auto simp: tab_index_def home_of_def find_index_None find_None_iff tabs_of_def image_iff) metis
  let ?g3 = "g2\<lparr>gu_next_tab := ?n + 1, gu_held := (gu_held g2)(?n \<mapsto> q)\<rparr>"
  have "\<not> tv_insertable tv (n_pinned r g2) (n_pages r g2) (Suc k)"
    using assms(1, 4) by (simp add: documented_def n_pinned_def tabs)
  then have at: "epimone_window_attach_page_at y tv r q (int k + 1) g2 = (?n, ?g3)"
    using frames by (simp add: epimone_window_attach_page_at_def Let_def nat_add_distrib)
  have sel: "select_tab y r ?n ?g3 = ?g3"
    using away(1) [of ?g3 r] frames by (simp add: select_tab_def split: option.split)
  let ?f = "epimone_page_focus_terminal (sy_env y)"
  obtain q' g4 where q': "page_calls (?f (q\<lparr>pg_calls := []\<rparr>)) ?g3 = (q', g4)" by (cases "page_calls (?f (q\<lparr>pg_calls := []\<rparr>)) ?g3")
  have step: "page_step ?f ?n ?g3 = g4\<lparr>gu_held := (gu_held g4)(?n \<mapsto> q')\<rparr>"
    using away(2) [of ?g3] frames q' by (simp add: page_step_def)
  have g4: "gu_frames g4 = gu_frames g" "shape (gu_app g4) = shape (gu_app g)"
    using q' frames sh2 set_layout_keeps [of "gu_app g2"] by (auto simp: page_calls_def in_app_def keeps_shape_def)
  have act: "open_in_new_tab_action y tv r g = schedule_save (g4\<lparr>gu_held := (gu_held g4)(?n \<mapsto> q')\<rparr>)"
    using assms(2, 3, 5, 6, 7) q at sel step by (simp add: open_in_new_tab_action_def on_current_def Let_def)
  have "page_sessions q = [(x, s)]"
    using q by (auto simp: page_calls_def page_sessions_def epimone_page_adopt_leaf_def epimone_page_new_empty_def)
  then have "page_sessions q' = [(x, s)]"
    using q' focus_terminal_root [of "sy_env y" "q\<lparr>pg_calls := []\<rparr>"] by (auto simp: page_calls_def page_sessions_def)
  moreover have "shape (gu_app (schedule_save h)) = shape (gu_app h)" "gu_held (schedule_save h) = gu_held h"
    "gu_frames (schedule_save h) = gu_frames h" for h :: "('a, 'b) gui"
    using set_layout_keeps [of "gu_app h"] by (auto simp: schedule_save_def in_app_def keeps_shape_def)
  ultimately show ?thesis using act g4 away(2) by (simp add: Let_def)
qed

section \<open>Killing a pane\<close>

text \<open>The dialog keeps the low half of the session's id.\<close>

theorem kill_dialog_keeps_half_an_id:
  "kept_sid sid = sid \<longleftrightarrow> unat sid < 2 ^ 32" "kept_sid (2 ^ 32 + 7) = 7"
proof -
  have "unat (kept_sid sid) = unat sid mod 2 ^ 32"
    by (simp add: kept_sid_def unsigned_ucast_eq take_bit_eq_mod unat_mod)
  then show "kept_sid sid = sid \<longleftrightarrow> unat sid < 2 ^ 32" 
    by (metis mod_less mod_less_divisor word_unat_eq_iff zero_less_numeral zero_less_power)
qed (simp add: kept_sid_def)

end
