(* ===== verification/Overview.thy ===== *)
theory Overview
  imports Window_Actions
begin

text \<open>
  The session overview (src/epimone-overview.c), part one: what a card and the overview keep, the
  signature of a thumbnail, the words on a card and the size of the cards. Doubles come from the
  arithmetic of Page and from the few operations of libm that the sizing formula adds; GLib's text
  functions, the clock and the daemon's answers come from a record of surroundings, one for each event.
\<close>

unbundle bit_operations_syntax

section \<open>State\<close>

text \<open>What one pane gave when it was captured: the bytes that had been fed, and the terminal's size.\<close>

type_synonym capture = "byte list \<times> u32 \<times> u32"

text \<open>
  A thumbnail: the captured panes in their rectangles, the dividers and the size in pixels; or the live
  tab view as it was at the n-th capture.
\<close>

datatype 'd texture =
    Composed "('d leaf_rect \<times> capture) list" "'d seam list" "int \<times> int"
  | Live nat

text \<open>
  CardInfo, with the strings that the code hangs on the card's box, and the widget's address. \<open>cd_shown\<close>
  is the texture of the picture when the stack shows the picture, \<open>None\<close> while it shows the placeholder;
  \<open>cd_hidden\<close> says that the transition draws the thumbnail in the card's stead.
\<close>

record 'd card =
  cd_ref :: nat
  cd_group :: u64
  cd_cache_key :: u64
  cd_kill_session :: u64
  cd_haystack :: "byte list"
  cd_rendered :: bool
  cd_leaves :: "'d leaf_rect list"
  cd_seams :: "'d seam list"
  cd_nodes :: "capture option list"
  cd_cur_leaf :: nat
  cd_attempts :: nat
  cd_sig :: u64
  cd_sig_panes :: nat
  cd_shown :: "'d texture option"
  cd_title :: "byte list"
  cd_shell :: "byte list"
  cd_custom :: "byte list option"
  cd_procs :: "byte list"
  cd_age :: "byte list"
  cd_meta :: "byte list"
  cd_panes :: nat
  cd_attached :: bool
  cd_current :: bool
  cd_has_menu :: bool
  cd_hidden :: bool

text \<open>The card that the menu was opened on, copied.\<close>

record card_menu =
  cm_group :: u64
  cm_panes :: nat
  cm_attached :: bool
  cm_session :: u64
  cm_title :: "byte list option"
  cm_shell :: "byte list option"
  cm_custom :: "byte list option"
  cm_procs :: "byte list option"
  cm_age :: "byte list option"

text \<open>
  The overview of one window. A timer is its delay while it is armed; \<open>ov_term\<close> is the recycled
  terminal: what was fed to it since its reset, and the grid it was set to.
\<close>

record 'd overview =
  ov_flow :: "'d card list"
  ov_next_ref :: nat
  ov_pending :: "nat list"
  ov_rendering :: bool
  ov_pump :: "nat option"
  ov_feed :: bool
  ov_backstop :: bool
  ov_quiet :: bool
  ov_fed :: bool
  ov_fed_len :: nat
  ov_pane_sig :: u64
  ov_last_cols :: u32
  ov_last_rows :: u32
  ov_term :: "byte list \<times> u32 \<times> u32"
  ov_cache :: "u64 \<rightharpoonup> 'd texture"
  ov_sigs :: "u64 \<rightharpoonup> u64"
  ov_fresh :: u64
  ov_captures :: nat
  ov_is_open :: bool
  ov_animating :: bool
  ov_crossfade :: bool
  ov_progress :: 'd
  ov_anchor :: "nat option"
  ov_pending_anchor :: "nat option"
  ov_ui_target :: bool
  ov_ui_focus :: bool
  ov_child_target :: bool
  ov_child_focus :: bool
  ov_thumb_w :: int
  ov_thumb_h :: int
  ov_thumb_aspect :: 'd
  ov_columns :: int
  ov_n_cards :: nat
  ov_resize_idle :: bool
  ov_shows_cards :: bool
  ov_count :: "byte list"
  ov_preloaded :: bool
  ov_preload_timeout :: bool
  ov_menu :: card_menu
  ov_card_actions :: "byte list set"
  ov_actions :: "byte list set"

text \<open>
  What an event finds around it: the seconds of the clock, the foreground command of a process, the
  tail and the size of a session's output, /etc/shells, GLib's text functions, the sizes of the
  overview, of its window and of the recycled terminal, the scale of the display, whether there is a
  renderer, whether a capture and a rendering deliver something, whether a card is near the viewport, whether animations are on,
  whether the live view can be captured, and what the search entry says.
\<close>

record overview_env =
  oe_now :: int
  oe_command :: "u32 \<Rightarrow> byte list option"
  oe_peek :: "u64 \<Rightarrow> byte list option \<times> u64"
  oe_shells :: "byte list option"
  oe_strip :: "byte list \<Rightarrow> byte list"
  oe_strdown :: "byte list \<Rightarrow> byte list"
  oe_basename :: "byte list \<Rightarrow> byte list"
  oe_size :: "int \<times> int"
  oe_window_size :: "int \<times> int"
  oe_term_size :: "int \<times> int"
  oe_term_blank :: bool
  oe_scale :: int
  oe_renderer :: bool
  oe_captured :: bool
  oe_texture :: bool
  oe_near :: "nat \<Rightarrow> bool"
  oe_animations :: bool
  oe_live :: bool
  oe_needle :: "byte list"

definition PEEK_BYTES :: nat where "PEEK_BYTES = 48 * 1024"
definition RENDER_MAX_ATTEMPTS :: nat where "RENDER_MAX_ATTEMPTS = 4"
definition ORPHAN_CACHE_BIT :: u64 where "ORPHAN_CACHE_BIT = push_bit 63 1"
definition SETTLE_QUIET_MS :: nat where "SETTLE_QUIET_MS = 12"
definition SETTLE_MS :: nat where "SETTLE_MS = 60"
definition TRANSITION_DURATION :: nat where "TRANSITION_DURATION = 400"

definition card_nodes_clear :: "'d card \<Rightarrow> 'd card" where
  "card_nodes_clear c = c\<lparr>cd_nodes := []\<rparr>"

section \<open>Signatures\<close>

definition SIG_FNV_OFFSET :: u64 where "SIG_FNV_OFFSET = 14695981039346656037"
definition SIG_FNV_PRIME :: u64 where "SIG_FNV_PRIME = 1099511628211"

definition sig_fold_bytes :: "u64 \<Rightarrow> byte list \<Rightarrow> u64" where
  "sig_fold_bytes h p = fold (\<lambda>b h. (h XOR ucast b) * SIG_FNV_PRIME) p h"

definition sig_fold_u64 :: "u64 \<Rightarrow> u64 \<Rightarrow> u64" where
  "sig_fold_u64 h v = sig_fold_bytes h (map (\<lambda>i. ucast (drop_bit (8 * i) v)) [0..<8])"

text \<open>A failed peek leaves no tail, and 0 in its length.\<close>

definition tail_len :: "byte list option \<Rightarrow> nat" where
  "tail_len t = (case t of None \<Rightarrow> 0 | Some bs \<Rightarrow> length bs)"

definition pane_signature :: "u64 \<Rightarrow> u32 \<Rightarrow> u32 \<Rightarrow> byte list option \<Rightarrow> u64" where
  "pane_signature session cols rows t =
     (let h = sig_fold_u64 SIG_FNV_OFFSET session;
          h = sig_fold_u64 h (push_bit 32 (ucast cols) OR ucast rows);
          h = sig_fold_u64 h (of_nat (tail_len t))
      in case t of None \<Rightarrow> h | Some bs \<Rightarrow> if 0 < length bs then sig_fold_bytes h bs else h)"

definition leaf_signature :: "overview_env \<Rightarrow> 'd leaf_rect \<Rightarrow> u64" where
  "leaf_signature e l = pane_signature (lf_session l) (lf_cols l) (lf_rows l) (fst (oe_peek e (lf_session l)))"

definition card_current_sig :: "overview_env \<Rightarrow> 'd card \<Rightarrow> u64 option" where
  "card_current_sig e c =
     (if cd_leaves c = [] then None
      else Some (fold (\<lambda>l h. sig_fold_u64 h (leaf_signature e l)) (cd_leaves c) SIG_FNV_OFFSET))"

section \<open>Words\<close>

definition middle_dot :: "byte list" where "middle_dot = [0x20, 0xc2, 0xb7, 0x20]"

definition format_age :: "int \<Rightarrow> int \<Rightarrow> byte list" where
  "format_age now created_at =
     (let secs = max 0 (now - created_at) in
      if secs < 60 then lit ''just now''
      else if secs < 3600 then decimal (nat (secs div 60)) @ lit ''m''
      else if secs < 86400 then decimal (nat (secs div 3600)) @ lit ''h''
      else decimal (nat (secs div 86400)) @ lit ''d'')"

text \<open>g_strsplit at a comma followed by a blank; the words so far are given, the last one unfinished.\<close>

fun split_commas :: "byte list \<Rightarrow> byte list \<Rightarrow> byte list list" where
  "split_commas word [] = [word]"
| "split_commas word [b] = [word @ [b]]"
| "split_commas word (b # c # bs) =
     (if b = 0x2c \<and> c = 0x20 then word # split_commas [] bs else split_commas (word @ [b]) (c # bs))"

fun count_name :: "byte list \<Rightarrow> (byte list \<times> nat) list \<Rightarrow> (byte list \<times> nat) list" where
  "count_name x [] = [(x, 1)]"
| "count_name x ((y, n) # r) = (if y = x then (y, n + 1) # r else (y, n) # count_name x r)"

fun print_counts :: "nat \<Rightarrow> byte list \<Rightarrow> (byte list \<times> nat) list \<Rightarrow> byte list" where
  "print_counts j out [] = out"
| "print_counts j out ((x, n) # r) =
     (if j = 3 then out @ lit '', '' @ [0xe2, 0x80, 0xa6]
      else print_counts (j + 1)
             ((if out \<noteq> [] then out @ lit '', '' else out) @ x
              @ (if 1 < n then [0x20, 0xc3, 0x97] @ decimal n else [])) r)"

definition summarise_processes :: "byte list option \<Rightarrow> byte list" where
  "summarise_processes joined =
     (case joined of
        None \<Rightarrow> lit ''no panes''
      | Some s \<Rightarrow> if s = [] then lit ''no panes'' else print_counts 0 [] (fold count_name (split_commas [] s) []))"

definition fallback_shells :: "byte list list" where
  "fallback_shells = [lit ''sh'', lit ''bash'', lit ''zsh'', lit ''fish'', lit ''dash'', lit ''ksh'', lit ''mksh'',
     lit ''tcsh'', lit ''csh'']"

fun split_lines :: "byte list \<Rightarrow> byte list \<Rightarrow> byte list list" where
  "split_lines word [] = [word]"
| "split_lines word (b # bs) = (if b = 0x0a then word # split_lines [] bs else split_lines (word @ [b]) bs)"

definition known_shells :: "overview_env \<Rightarrow> byte list list" where
  "known_shells e =
     fallback_shells @
     (case oe_shells e of
        None \<Rightarrow> []
      | Some text \<Rightarrow> map (oe_basename e)
          (filter (\<lambda>l. take 1 l = lit ''/'') (map (oe_strip e) (if text = [] then [] else split_lines [] text))))"

definition command_is_shell :: "overview_env \<Rightarrow> byte list option \<Rightarrow> bool" where
  "command_is_shell e cmd =
     (case cmd of
        None \<Rightarrow> True
      | Some c \<Rightarrow> (if take 1 c = lit ''-'' then drop 1 c else c) \<in> set (known_shells e))"

text \<open>The dimmed line under the title.\<close>

definition card_meta :: "nat \<Rightarrow> byte list option \<Rightarrow> byte list \<Rightarrow> byte list" where
  "card_meta panes active age =
     decimal panes @ lit '' pane'' @ (if panes = 1 then [] else lit ''s'')
     @ (case active of None \<Rightarrow> [] | Some a \<Rightarrow> if a = [] then [] else middle_dot @ summarise_processes (Some a))
     @ middle_dot @ age"

section \<open>The size of the cards\<close>

text \<open>Of libm: rounding up, rounding to the nearest, powers; and the literals n/d.\<close>

record 'd libm =
  lm_ceil :: "'d \<Rightarrow> 'd"
  lm_round :: "'d \<Rightarrow> 'd"
  lm_pow :: "'d \<Rightarrow> nat \<Rightarrow> 'd"
  lm_lit :: "int \<Rightarrow> int \<Rightarrow> 'd"

definition rat_libm :: "rat libm" where
  "rat_libm = \<lparr>lm_ceil = (\<lambda>x. of_int \<lceil>x\<rceil>), lm_round = (\<lambda>x. of_int (if 0 \<le> x then \<lfloor>x + 1 / 2\<rfloor> else \<lceil>x - 1 / 2\<rceil>)),
     lm_pow = (^), lm_lit = (\<lambda>n d. of_int n / of_int d)\<rparr>"

definition OVERVIEW_SPACING :: int where "OVERVIEW_SPACING = 18"
definition OVERVIEW_MIN_COLUMNS :: int where "OVERVIEW_MIN_COLUMNS = 2"
definition OVERVIEW_MAX_COLUMNS :: int where "OVERVIEW_MAX_COLUMNS = 8"
definition OVERVIEW_MIN_THUMB_WIDTH :: int where "OVERVIEW_MIN_THUMB_WIDTH = 100"
definition OVERVIEW_MAX_THUMB_WIDTH :: int where "OVERVIEW_MAX_THUMB_WIDTH = 500"

definition fp_clamp :: "'d fp \<Rightarrow> 'd \<Rightarrow> 'd \<Rightarrow> 'd \<Rightarrow> 'd" where
  "fp_clamp f x lo hi = (if fp_less f hi x then hi else if fp_less f x lo then lo else x)"

definition clamp :: "int \<Rightarrow> int \<Rightarrow> int \<Rightarrow> int" where
  "clamp x lo hi = (if hi < x then hi else if x < lo then lo else x)"

text \<open>The width and the number of columns.\<close>

definition overview_card_thumb_width :: "'d fp \<Rightarrow> 'd libm \<Rightarrow> int \<Rightarrow> nat \<Rightarrow> int \<times> int" where
  "overview_card_thumb_width f m avail n_cards =
     (let i = fp_of_int f; add = fp_add f; sub = fp_sub f; mul = fp_mul f; quot = fp_div f;
          lo_grid = lm_lit m 360 1; hi_grid = lm_lit m 2560 1; lo_nat = lm_lit m 200 1; hi_nat = lm_lit m 360 1;
          grid_use = lm_lit m 85 100; single_use = lm_lit m 1 2; one = lm_lit m 1 1;
          t = fp_clamp f (quot (sub (i avail) lo_grid) (sub hi_grid lo_grid)) (lm_lit m 0 1) one;
          eased = sub one (lm_pow m (sub one t) 3);
          natural = add lo_nat (mul (sub hi_nat lo_nat) eased);
          max_n = fp_clamp f (i (int (max n_cards 1))) one (i OVERVIEW_MAX_COLUMNS);
          fitting = lm_ceil m (quot (i avail) natural);
          n_fit = fp_clamp f fitting (i OVERVIEW_MIN_COLUMNS) (i OVERVIEW_MAX_COLUMNS);
          n = fp_clamp f fitting (if fp_less f (i OVERVIEW_MIN_COLUMNS) max_n then i OVERVIEW_MIN_COLUMNS else max_n) max_n;
          row = mul (i avail) (sub one (mul (sub one grid_use) eased));
          row = mul row (add single_use (quot (mul (sub one single_use) n) n_fit));
          width = fp_trunc f (lm_ceil m (quot (sub row (mul (i OVERVIEW_SPACING) (add n one))) n))
      in (clamp width OVERVIEW_MIN_THUMB_WIDTH OVERVIEW_MAX_THUMB_WIDTH, fp_trunc f n))"

definition overview_render_aspect :: "'d fp \<Rightarrow> 'd libm \<Rightarrow> overview_env \<Rightarrow> 'd" where
  "overview_render_aspect f m e =
     (let (w, h) = oe_size e
      in fp_clamp f (if 0 < w then fp_div f (fp_of_int f h) (fp_of_int f w) else lm_lit m 6 10)
           (lm_lit m 4 10) (lm_lit m 9 10))"

text \<open>The flag says whether the geometry changed.\<close>

definition overview_update_geometry ::
  "'d fp \<Rightarrow> 'd libm \<Rightarrow> int \<Rightarrow> int \<Rightarrow> 'd overview \<Rightarrow> bool \<times> 'd overview" where
  "overview_update_geometry f m width height v =
     (if width \<le> 0 \<or> ov_n_cards v = 0 then (False, v)
      else
        let avail = max (width - 2 * OVERVIEW_SPACING) 1;
            (w, columns0) = overview_card_thumb_width f m avail (ov_n_cards v);
            columns = max columns0 1;
            h = fp_trunc f (lm_round m (fp_mul f (fp_of_int f w) (ov_thumb_aspect v)))
        in if w = ov_thumb_w v \<and> h = ov_thumb_h v \<and> columns = ov_columns v then (False, v)
           else (True, v\<lparr>ov_thumb_w := w, ov_thumb_h := h, ov_columns := columns\<rparr>))"

text \<open>The size at which a thumbnail is composed.\<close>

definition overview_thumb_pixel_size :: "overview_env \<Rightarrow> 'd overview \<Rightarrow> int \<times> int" where
  "overview_thumb_pixel_size e v =
     (let scale = (if oe_scale e < 1 then 1 else oe_scale e)
      in (max 1 (ov_thumb_w v * scale), max 1 (ov_thumb_h v * scale)))"

definition epimone_overview_size_allocate ::
  "'d fp \<Rightarrow> 'd libm \<Rightarrow> int \<Rightarrow> int \<Rightarrow> 'd overview \<Rightarrow> 'd overview" where
  "epimone_overview_size_allocate f m width height v =
     (if 0 < ov_n_cards v
      then case overview_update_geometry f m width height v of (changed, v1) \<Rightarrow>
             if changed \<and> \<not> ov_resize_idle v1 then v1\<lparr>ov_resize_idle := True\<rparr> else v1
      else v)"

end
