(* ===== verification/Overview_Render.thy ===== *)
theory Overview_Render
  imports Overview
begin

text \<open>
  The overview, part two: the pipeline that draws thumbnails through one recycled terminal. Each pane of
  the card at the head of the queue is laid out (\<open>render_start\<close>), fed (\<open>render_feed\<close>) and captured
  (\<open>render_finish\<close>), then the card is composed and the next one started. The queue holds addresses of
  cards; a timer is a field that its callback clears.
\<close>

section \<open>Cards by address\<close>

definition card_of :: "nat \<Rightarrow> 'd overview \<Rightarrow> 'd card option" where
  "card_of r v = find (\<lambda>c. cd_ref c = r) (ov_flow v)"

definition at_card :: "nat \<Rightarrow> ('d card \<Rightarrow> 'd card) \<Rightarrow> 'd overview \<Rightarrow> 'd overview" where
  "at_card r h v = v\<lparr>ov_flow := map (\<lambda>c. if cd_ref c = r then h c else c) (ov_flow v)\<rparr>"

definition head_card :: "'d overview \<Rightarrow> 'd card option" where
  "head_card v = (case ov_pending v of [] \<Rightarrow> None | r # _ \<Rightarrow> card_of r v)"

section \<open>Stopping\<close>

definition settle_cancel :: "'d overview \<Rightarrow> 'd overview" where
  "settle_cancel v = v\<lparr>ov_backstop := False, ov_quiet := False, ov_feed := False, ov_fed := False\<rparr>"

definition render_abort :: "'d overview \<Rightarrow> 'd overview" where
  "render_abort v =
     (settle_cancel (v\<lparr>ov_last_cols := 0, ov_last_rows := 0\<rparr>))\<lparr>ov_pump := None, ov_pending := [], ov_rendering := False\<rparr>"

section \<open>Starting a card\<close>

definition overview_any_placeholder :: "'d overview \<Rightarrow> bool" where
  "overview_any_placeholder v \<longleftrightarrow> list_ex (\<lambda>c. cd_shown c = None) (ov_flow v)"

definition render_pump :: "'d overview \<Rightarrow> 'd overview" where
  "render_pump v =
     (case ov_pending v of
        [] \<Rightarrow> v\<lparr>ov_rendering := False\<rparr>
      | r # _ \<Rightarrow>
          let v1 = at_card r (\<lambda>c. card_nodes_clear (c\<lparr>cd_cur_leaf := 0, cd_sig := SIG_FNV_OFFSET, cd_sig_panes := 0\<rparr>))
                     (v\<lparr>ov_rendering := True\<rparr>)
          in v1\<lparr>ov_pump := Some (if ov_animating v1 \<and> \<not> overview_any_placeholder v1 then TRANSITION_DURATION + 80 else 1)\<rparr>)"

section \<open>Composing\<close>

definition render_compose :: "overview_env \<Rightarrow> nat \<Rightarrow> 'd overview \<Rightarrow> 'd overview" where
  "render_compose e r v =
     (case card_of r v of
        None \<Rightarrow> v
      | Some c \<Rightarrow>
          if \<not> oe_renderer e \<or> cd_nodes c = [] then at_card r card_nodes_clear v
          else
            let drawn = List.map_filter (\<lambda>(n, l). map_option (\<lambda>k. (l, k)) n) (zip (cd_nodes c) (cd_leaves c)) in
            if drawn = [] then
              (let v1 = at_card r (\<lambda>c. (card_nodes_clear c)\<lparr>cd_cur_leaf := 0\<rparr>) v in
               if cd_attempts c < RENDER_MAX_ATTEMPTS
               then (at_card r (\<lambda>c. c\<lparr>cd_attempts := cd_attempts c + 1\<rparr>) v1)\<lparr>ov_pending := ov_pending v1 @ [r]\<rparr>
               else v1)
            else if \<not> oe_texture e then at_card r card_nodes_clear v
            else
              let t = Composed drawn (cd_seams c) (overview_thumb_pixel_size e v) in
              at_card r (\<lambda>c. card_nodes_clear (c\<lparr>cd_shown := Some t, cd_rendered := True\<rparr>))
                (v\<lparr>ov_cache := (ov_cache v)(cd_cache_key c \<mapsto> t)\<rparr>))"

section \<open>Capturing a pane\<close>

text \<open>The pane is recorded, captured or not, and its signature folded in.\<close>

definition commit_pane :: "overview_env \<Rightarrow> 'd overview \<Rightarrow> 'd card \<Rightarrow> 'd card" where
  "commit_pane e v c =
     (let node = (if 0 < fst (oe_term_size e) \<and> 0 < snd (oe_term_size e) \<and> oe_captured e then Some (ov_term v) else None)
      in c\<lparr>cd_nodes := cd_nodes c @ [node], cd_sig := sig_fold_u64 (cd_sig c) (ov_pane_sig v),
           cd_sig_panes := cd_sig_panes c + 1, cd_cur_leaf := cd_cur_leaf c + 1\<rparr>)"

text \<open>The signature of a card that has been composed whole.\<close>

definition store_sig :: "nat \<Rightarrow> 'd overview \<Rightarrow> 'd overview" where
  "store_sig r v =
     (case card_of r v of
        None \<Rightarrow> v
      | Some d \<Rightarrow> if cd_rendered d \<and> cd_sig_panes d = length (cd_leaves d)
                  then v\<lparr>ov_sigs := (ov_sigs v)(cd_cache_key d \<mapsto> cd_sig d)\<rparr> else v)"

definition render_finish :: "overview_env \<Rightarrow> 'd overview \<Rightarrow> 'd overview" where
  "render_finish e v0 =
     (let v = settle_cancel v0 in
      case head_card v of
        None \<Rightarrow> v\<lparr>ov_rendering := False\<rparr>
      | Some c \<Rightarrow>
          let r = cd_ref c in
          if \<not> (0 < fst (oe_term_size e) \<and> 0 < snd (oe_term_size e)) \<and> cd_attempts c < RENDER_MAX_ATTEMPTS
          then (at_card r (\<lambda>c. c\<lparr>cd_attempts := cd_attempts c + 1\<rparr>) v)\<lparr>ov_pump := Some 16\<rparr>
          else
            let v1 = at_card r (commit_pane e v) v
            in if cd_cur_leaf c + 1 < length (cd_leaves c) then v1\<lparr>ov_pump := Some 1\<rparr>
               else render_pump (store_sig r (render_compose e r (v1\<lparr>ov_pending := tl (ov_pending v1)\<rparr>))))"

section \<open>Feeding a pane\<close>

definition render_current_leaf :: "'d card option \<Rightarrow> 'd leaf_rect option" where
  "render_current_leaf c =
     (case c of
        None \<Rightarrow> None
      | Some c \<Rightarrow> if length (cd_leaves c) \<le> cd_cur_leaf c then None else Some (cd_leaves c ! cd_cur_leaf c))"

text \<open>Home, clear the line, an ellipsis, a new line: there is more than this.\<close>

definition more_hint :: "byte list" where
  "more_hint = [0x1b, 0x5b, 0x48, 0x1b, 0x5b, 0x32, 0x4b, 0xe2, 0x8b, 0xaf, 0x0d, 0x0a]"

definition fed_bytes :: "overview_env \<Rightarrow> u64 \<Rightarrow> byte list" where
  "fed_bytes e sid =
     (case oe_peek e sid of (t, whole) \<Rightarrow>
        (case t of None \<Rightarrow> [] | Some bs \<Rightarrow> bs) @ (if of_nat (tail_len t) < whole then more_hint else []))"

definition render_feed :: "overview_env \<Rightarrow> 'd overview \<Rightarrow> 'd overview" where
  "render_feed e v0 =
     (let v = v0\<lparr>ov_feed := False\<rparr> in
      case render_current_leaf (head_card v) of
        None \<Rightarrow> v\<lparr>ov_rendering := False\<rparr>
      | Some l \<Rightarrow>
          v\<lparr>ov_pane_sig := leaf_signature e l,
            ov_term := (fst (ov_term v) @ fed_bytes e (lf_session l), snd (ov_term v)),
            ov_fed := True, ov_fed_len := tail_len (fst (oe_peek e (lf_session l))), ov_backstop := True\<rparr>)"

definition render_start :: "overview_env \<Rightarrow> 'd overview \<Rightarrow> 'd overview" where
  "render_start e v0 =
     (let v = v0\<lparr>ov_pump := None\<rparr> in
      case render_current_leaf (head_card v) of
        None \<Rightarrow> v\<lparr>ov_rendering := False\<rparr>
      | Some l \<Rightarrow>
          let v1 = v\<lparr>ov_term := ([], snd (ov_term v)), ov_fed := False\<rparr> in
          if 0 < lf_cols l \<and> 0 < lf_rows l \<and> (lf_cols l \<noteq> ov_last_cols v1 \<or> lf_rows l \<noteq> ov_last_rows v1)
          then v1\<lparr>ov_term := ([], lf_cols l, lf_rows l), ov_last_cols := lf_cols l, ov_last_rows := lf_rows l,
                  ov_feed := True\<rparr>
          else render_feed e v1)"

text \<open>A quiet period that ends on an empty grid was the reset's own.\<close>

definition render_finish_quiet :: "overview_env \<Rightarrow> 'd overview \<Rightarrow> 'd overview" where
  "render_finish_quiet e v0 =
     (let v = v0\<lparr>ov_quiet := False\<rparr> in
      if 0 < ov_fed_len v \<and> oe_term_blank e then v else render_finish e v)"

text \<open>The timer that is armed goes off.\<close>

definition fire :: "overview_env \<Rightarrow> 'd overview \<Rightarrow> 'd overview" where
  "fire e v =
     (if ov_pump v \<noteq> None then render_start e v
      else if ov_feed v then render_feed e v
      else if ov_backstop v then render_finish e v
      else v)"

definition thumb_contents_changed_cb :: "'d overview \<Rightarrow> 'd overview" where
  "thumb_contents_changed_cb v = (if \<not> ov_rendering v \<or> \<not> ov_fed v then v else v\<lparr>ov_quiet := True\<rparr>)"

section \<open>Choosing what to draw\<close>

definition unchanged_since :: "overview_env \<Rightarrow> 'd card \<Rightarrow> 'd overview \<Rightarrow> bool" where
  "unchanged_since e c v \<longleftrightarrow>
     (case ov_sigs v (cd_cache_key c) of
        None \<Rightarrow> False
      | Some stored \<Rightarrow> ov_cache v (cd_cache_key c) \<noteq> None \<and> card_current_sig e c = Some stored)"

definition queue_card :: "overview_env \<Rightarrow> nat \<Rightarrow> 'd overview \<Rightarrow> 'd overview" where
  "queue_card e r v =
     (case card_of r v of
        None \<Rightarrow> v
      | Some c \<Rightarrow>
          if cd_rendered c \<or> cd_leaves c = [] \<or> r \<in> set (ov_pending v) \<or> \<not> oe_near e r then v
          else if unchanged_since e c v then at_card r (\<lambda>c. c\<lparr>cd_rendered := True\<rparr>) v
          else v\<lparr>ov_pending := ov_pending v @ [r]\<rparr>)"

definition queue_visible_renders :: "overview_env \<Rightarrow> 'd overview \<Rightarrow> 'd overview" where
  "queue_visible_renders e v =
     (let v1 = fold (queue_card e) (map cd_ref (ov_flow v)) v
      in if ov_rendering v1 then v1 else render_pump v1)"

definition scrolled_cb :: "overview_env \<Rightarrow> 'd overview \<Rightarrow> 'd overview" where
  "scrolled_cb = queue_visible_renders"

text \<open>New colours or a new font: every texture and signature is dropped and every card drawn again.\<close>

definition overview_appearance_changed_cb ::
  "'d fp \<Rightarrow> 'd libm \<Rightarrow> overview_env \<Rightarrow> 'd overview \<Rightarrow> 'd overview" where
  "overview_appearance_changed_cb f m e v =
     (let v1 = (render_abort (v\<lparr>ov_thumb_aspect := overview_render_aspect f m e\<rparr>))
                 \<lparr>ov_cache := Map.empty, ov_sigs := Map.empty\<rparr>
      in queue_visible_renders e
           (v1\<lparr>ov_flow := map (\<lambda>c. if cd_leaves c = [] then c
                                   else card_nodes_clear (c\<lparr>cd_rendered := False, cd_cur_leaf := 0\<rparr>)) (ov_flow v1)\<rparr>))"

end
