(* ===== verification/Overview_Queue.thy ===== *)
theory Overview_Queue
  imports Overview_Render
begin

text \<open>
  The render queue never holds a card that is gone, runs on exactly one timer while it has work and on
  none otherwise, and drains: lemmas for every operation, the work that is left as a number, and the
  finished thumbnails.
\<close>

section \<open>The invariant\<close>

definition refs :: "'d overview \<Rightarrow> nat list" where
  "refs v = map cd_ref (ov_flow v)"

text \<open>The one timer: to start a pane, to feed it, or to capture it.\<close>

definition timers :: "'d overview \<Rightarrow> bool list" where
  "timers v = [ov_pump v \<noteq> None, ov_feed v, ov_backstop v]"

definition pending_ok :: "'d overview \<Rightarrow> bool" where
  "pending_ok v \<longleftrightarrow>
     distinct (refs v) \<and> distinct (ov_pending v) \<and>
     (\<forall>r \<in> set (ov_pending v). \<exists>c. card_of r v = Some c \<and> cd_leaves c \<noteq> [])"

definition idle :: "'d overview \<Rightarrow> bool" where
  "idle v \<longleftrightarrow> ov_pending v = [] \<and> \<not> ov_rendering v \<and> timers v = [False, False, False] \<and> \<not> ov_fed v \<and> \<not> ov_quiet v"

definition busy :: "'d overview \<Rightarrow> bool" where
  "busy v \<longleftrightarrow>
     ov_rendering v \<and> timers v \<in> {[True, False, False], [False, True, False], [False, False, True]} \<and>
     (ov_fed v \<longleftrightarrow> ov_backstop v) \<and> (ov_quiet v \<longrightarrow> ov_backstop v) \<and>
     (\<exists>c. head_card v = Some c \<and> cd_cur_leaf c < length (cd_leaves c))"

definition pipe_ok :: "'d overview \<Rightarrow> bool" where
  "pipe_ok v \<longleftrightarrow> pending_ok v \<and> (idle v \<or> busy v)"

section \<open>Cards\<close>

lemma card_of_ref: "card_of r v = Some c \<Longrightarrow> cd_ref c = r"
  by (auto simp: card_of_def find_Some_iff)

lemma card_of_refs: "(\<exists>c. card_of r v = Some c) \<longleftrightarrow> r \<in> set (refs v)"
  by (auto simp: card_of_def refs_def find_None_iff dest: find_Some_iff[THEN iffD1] simp flip: not_None_eq)

lemma card_of_None: "card_of r v = None \<longleftrightarrow> r \<notin> set (refs v)"
  using card_of_refs[of r v] by (cases "card_of r v") auto

lemma find_renamed_key: "(\<And>c. cd_ref (h c) = cd_ref c) \<Longrightarrow>
  find (\<lambda>c. cd_ref c = x) (map (\<lambda>c. if cd_ref c = r then h c else c) cs) =
  map_option (\<lambda>c. if x = r then h c else c) (find (\<lambda>c. cd_ref c = x) cs)"
  by (induction cs) auto

lemma card_of_at [simp]: "(\<And>c. cd_ref (h c) = cd_ref c) \<Longrightarrow>
  card_of x (at_card r h v) = map_option (\<lambda>c. if x = r then h c else c) (card_of x v)"
  by (simp add: card_of_def at_card_def find_renamed_key)

lemma refs_at [simp]: "(\<And>c. cd_ref (h c) = cd_ref c) \<Longrightarrow> refs (at_card r h v) = refs v"
  by (simp add: refs_def at_card_def)

lemma at_card_fields [simp]:
  "ov_pending (at_card r h v) = ov_pending v" "ov_rendering (at_card r h v) = ov_rendering v"
  "ov_pump (at_card r h v) = ov_pump v" "ov_feed (at_card r h v) = ov_feed v"
  "ov_backstop (at_card r h v) = ov_backstop v" "ov_quiet (at_card r h v) = ov_quiet v"
  "ov_fed (at_card r h v) = ov_fed v" "ov_term (at_card r h v) = ov_term v"
  "ov_cache (at_card r h v) = ov_cache v" "ov_sigs (at_card r h v) = ov_sigs v"
  "ov_pane_sig (at_card r h v) = ov_pane_sig v" "ov_last_cols (at_card r h v) = ov_last_cols v"
  "ov_last_rows (at_card r h v) = ov_last_rows v" "ov_animating (at_card r h v) = ov_animating v"
  "ov_thumb_w (at_card r h v) = ov_thumb_w v" "ov_thumb_h (at_card r h v) = ov_thumb_h v"
  by (simp_all add: at_card_def)

lemma card_of_cong: "ov_flow v = ov_flow w \<Longrightarrow> card_of r v = card_of r w"
  by (simp add: card_of_def)

lemma card_of_updates [simp]:
  "card_of r (v\<lparr>ov_pump := a\<rparr>) = card_of r v" "card_of r (v\<lparr>ov_rendering := b\<rparr>) = card_of r v"
  "card_of r (v\<lparr>ov_pending := ps\<rparr>) = card_of r v" "card_of r (v\<lparr>ov_feed := b\<rparr>) = card_of r v"
  "card_of r (v\<lparr>ov_quiet := b\<rparr>) = card_of r v" "card_of r (v\<lparr>ov_backstop := b\<rparr>) = card_of r v"
  "card_of r (v\<lparr>ov_fed := b\<rparr>) = card_of r v" "card_of r (v\<lparr>ov_sigs := m\<rparr>) = card_of r v"
  "card_of r (v\<lparr>ov_cache := m'\<rparr>) = card_of r v" "card_of r (v\<lparr>ov_term := t\<rparr>) = card_of r v"
  "card_of r (v\<lparr>ov_last_cols := g\<rparr>) = card_of r v" "card_of r (v\<lparr>ov_last_rows := g\<rparr>) = card_of r v"
  "card_of r (v\<lparr>ov_fed_len := n\<rparr>) = card_of r v" "card_of r (v\<lparr>ov_pane_sig := g'\<rparr>) = card_of r v"
  by (simp_all add: card_of_def)

lemma refs_updates [simp]:
  "refs (v\<lparr>ov_pump := a\<rparr>) = refs v" "refs (v\<lparr>ov_rendering := b\<rparr>) = refs v"
  "refs (v\<lparr>ov_pending := ps\<rparr>) = refs v" "refs (v\<lparr>ov_feed := b\<rparr>) = refs v"
  "refs (v\<lparr>ov_quiet := b\<rparr>) = refs v" "refs (v\<lparr>ov_backstop := b\<rparr>) = refs v"
  "refs (v\<lparr>ov_fed := b\<rparr>) = refs v" "refs (v\<lparr>ov_sigs := m\<rparr>) = refs v"
  "refs (v\<lparr>ov_cache := m'\<rparr>) = refs v" "refs (v\<lparr>ov_term := t\<rparr>) = refs v"
  "refs (v\<lparr>ov_last_cols := g\<rparr>) = refs v" "refs (v\<lparr>ov_last_rows := g\<rparr>) = refs v"
  "refs (v\<lparr>ov_fed_len := n\<rparr>) = refs v" "refs (v\<lparr>ov_pane_sig := g'\<rparr>) = refs v"
  by (simp_all add: refs_def)

lemma nodes_clear_fields [simp]:
  "cd_ref (card_nodes_clear c) = cd_ref c" "cd_leaves (card_nodes_clear c) = cd_leaves c"
  "cd_nodes (card_nodes_clear c) = []" "cd_cur_leaf (card_nodes_clear c) = cd_cur_leaf c"
  "cd_sig (card_nodes_clear c) = cd_sig c" "cd_sig_panes (card_nodes_clear c) = cd_sig_panes c"
  "cd_rendered (card_nodes_clear c) = cd_rendered c" "cd_cache_key (card_nodes_clear c) = cd_cache_key c"
  "cd_attempts (card_nodes_clear c) = cd_attempts c" "cd_seams (card_nodes_clear c) = cd_seams c"
  by (simp_all add: card_nodes_clear_def)

lemma pending_head: "pending_ok v \<Longrightarrow> ov_pending v = r # rs \<Longrightarrow> \<exists>c. head_card v = Some c \<and> cd_leaves c \<noteq> [] \<and> cd_ref c = r"
  by (auto simp: pending_ok_def head_card_def dest: card_of_ref)

section \<open>Operations\<close>

text \<open>What pending cards need is there in another state whose cards have the same leaves.\<close>

lemma pending_ok_mono:
  assumes "pending_ok v" and "refs w = refs v" and "distinct (ov_pending w)" and "set (ov_pending w) \<subseteq> set (ov_pending v)"
    and "\<And>r c. card_of r v = Some c \<Longrightarrow> \<exists>d. card_of r w = Some d \<and> cd_leaves d = cd_leaves c"
  shows "pending_ok w"
  using assms unfolding pending_ok_def by (metis subsetD)

lemma pending_ok_at: "(\<And>c. cd_ref (h c) = cd_ref c) \<Longrightarrow> (\<And>c. cd_leaves (h c) = cd_leaves c) \<Longrightarrow>
  pending_ok (at_card r h v) = pending_ok v"
  unfolding pending_ok_def by (auto split: if_splits) (metis option.inject)+

lemma render_pump_ok:
  assumes "pending_ok v" and "timers v = [False, False, False]" and "\<not> ov_fed v" and "\<not> ov_quiet v"
  shows "pipe_ok (render_pump v)"
proof (cases "ov_pending v")
  case Nil
  then show ?thesis using assms by (simp add: render_pump_def pipe_ok_def idle_def timers_def pending_ok_def)
next
  case (Cons r rs)
  obtain c where c: "card_of r v = Some c" "cd_leaves c \<noteq> []" "cd_ref c = r"
    using pending_head[OF assms(1) Cons] Cons by (auto simp: head_card_def)
  have "pending_ok (render_pump v)"
    by (rule pending_ok_mono[OF assms(1)])
      (use assms(1) Cons in \<open>auto simp: render_pump_def Let_def pending_ok_def\<close>)
  then show ?thesis
    using assms Cons c by (auto simp: render_pump_def Let_def pipe_ok_def busy_def timers_def head_card_def)
qed

lemma settle_cancel_fields [simp]:
  "ov_pending (settle_cancel v) = ov_pending v" "ov_rendering (settle_cancel v) = ov_rendering v"
  "ov_pump (settle_cancel v) = ov_pump v" "\<not> ov_feed (settle_cancel v)" "\<not> ov_backstop (settle_cancel v)"
  "\<not> ov_quiet (settle_cancel v)" "\<not> ov_fed (settle_cancel v)" "card_of r (settle_cancel v) = card_of r v"
  "refs (settle_cancel v) = refs v" "ov_term (settle_cancel v) = ov_term v" "ov_pane_sig (settle_cancel v) = ov_pane_sig v"
  "ov_cache (settle_cancel v) = ov_cache v" "ov_sigs (settle_cancel v) = ov_sigs v" "head_card (settle_cancel v) = head_card v"
  "ov_last_cols (settle_cancel v) = ov_last_cols v" "ov_last_rows (settle_cancel v) = ov_last_rows v"
  "ov_thumb_w (settle_cancel v) = ov_thumb_w v" "ov_thumb_h (settle_cancel v) = ov_thumb_h v"
  "pending_ok (settle_cancel v) = pending_ok v"
  by (simp_all add: settle_cancel_def head_card_def pending_ok_def split: list.split)

lemma abort_idle: "idle (render_abort v)"
  by (simp add: render_abort_def idle_def timers_def settle_cancel_def)

lemma abort_ok: "distinct (refs v) \<Longrightarrow> pipe_ok (render_abort v)"
  using abort_idle[of v] by (simp add: pipe_ok_def pending_ok_def render_abort_def settle_cancel_def refs_def)

lemma timers_updates [simp]:
  "timers (v\<lparr>ov_rendering := b\<rparr>) = timers v" "timers (v\<lparr>ov_pending := ps\<rparr>) = timers v"
  "timers (v\<lparr>ov_quiet := b\<rparr>) = timers v" "timers (v\<lparr>ov_fed := b\<rparr>) = timers v"
  "timers (v\<lparr>ov_sigs := m\<rparr>) = timers v" "timers (v\<lparr>ov_cache := m'\<rparr>) = timers v"
  "timers (v\<lparr>ov_term := t\<rparr>) = timers v" "timers (at_card r h v) = timers v"
  by (simp_all add: timers_def)

text \<open>What composing does: it may put the card back, once more tried; everything else but that card stays.\<close>

lemma compose_result:
  assumes "card_of r v = Some c"
  obtains d where "card_of r (render_compose e r v) = Some d" and "cd_leaves d = cd_leaves c"
    and "cd_cache_key d = cd_cache_key c" and "cd_sig d = cd_sig c" and "cd_sig_panes d = cd_sig_panes c"
    and "\<And>x. x \<noteq> r \<Longrightarrow> card_of x (render_compose e r v) = card_of x v"
    and "refs (render_compose e r v) = refs v" and "timers (render_compose e r v) = timers v"
    and "ov_fed (render_compose e r v) = ov_fed v" and "ov_quiet (render_compose e r v) = ov_quiet v"
    and "ov_sigs (render_compose e r v) = ov_sigs v"
    and "(ov_pending (render_compose e r v) = ov_pending v \<and> cd_attempts d = cd_attempts c) \<or>
         (ov_pending (render_compose e r v) = ov_pending v @ [r] \<and> cd_attempts c < RENDER_MAX_ATTEMPTS \<and>
          cd_attempts d = cd_attempts c + 1)"
proof -
  have r: "cd_ref c = r" by (rule card_of_ref[OF assms])
  note parts = render_compose_def assms Let_def
  show ?thesis
  proof (cases "\<not> oe_renderer e \<or> cd_nodes c = []")
    case True
    then show ?thesis
      by (intro that[of "card_nodes_clear c"]) (auto simp: parts map_option_case split: option.split)
  next
    case False
    show ?thesis
    proof (cases "List.map_filter (\<lambda>(n, l). map_option (\<lambda>k. (l, k)) n) (zip (cd_nodes c) (cd_leaves c)) = []")
      case True
      with False show ?thesis
        by (intro that[of "if cd_attempts c < RENDER_MAX_ATTEMPTS
                           then (card_nodes_clear c)\<lparr>cd_cur_leaf := 0, cd_attempts := cd_attempts c + 1\<rparr>
                           else (card_nodes_clear c)\<lparr>cd_cur_leaf := 0\<rparr>"])
          (auto simp: parts map_option_case split: option.split)
    next
      case some: False
      let ?t = "Composed (List.map_filter (\<lambda>(n, l). map_option (\<lambda>k. (l, k)) n) (zip (cd_nodes c) (cd_leaves c)))
                  (cd_seams c) (overview_thumb_pixel_size e v)"
      from False some show ?thesis
        by (intro that[of "if oe_texture e then card_nodes_clear (c\<lparr>cd_shown := Some ?t, cd_rendered := True\<rparr>)
                           else card_nodes_clear c"])
          (auto simp: parts map_option_case split: option.split)
    qed
  qed
qed

lemma commit_fields [simp]:
  "cd_ref (commit_pane e v c) = cd_ref c" "cd_leaves (commit_pane e v c) = cd_leaves c"
  "cd_attempts (commit_pane e v c) = cd_attempts c" "cd_cur_leaf (commit_pane e v c) = cd_cur_leaf c + 1"
  "cd_cache_key (commit_pane e v c) = cd_cache_key c" "cd_sig_panes (commit_pane e v c) = cd_sig_panes c + 1"
  "cd_sig (commit_pane e v c) = sig_fold_u64 (cd_sig c) (ov_pane_sig v)" "cd_seams (commit_pane e v c) = cd_seams c"
  by (simp_all add: commit_pane_def Let_def)

lemma store_sig_fields [simp]:
  "ov_pending (store_sig r v) = ov_pending v" "ov_feed (store_sig r v) = ov_feed v"
  "ov_backstop (store_sig r v) = ov_backstop v" "timers (store_sig r v) = timers v" "ov_fed (store_sig r v) = ov_fed v"
  "ov_quiet (store_sig r v) = ov_quiet v" "card_of x (store_sig r v) = card_of x v" "refs (store_sig r v) = refs v"
  "pending_ok (store_sig r v) = pending_ok v" "ov_cache (store_sig r v) = ov_cache v" "ov_term (store_sig r v) = ov_term v"
  "ov_last_cols (store_sig r v) = ov_last_cols v" "ov_last_rows (store_sig r v) = ov_last_rows v"
  by (auto simp: store_sig_def pending_ok_def split: option.split)

text \<open>The three outcomes of a capture.\<close>

lemma finish_result:
  assumes head: "head_card v = Some c" and cur: "cd_cur_leaf c < length (cd_leaves c)"
  obtains (retry) "cd_attempts c < RENDER_MAX_ATTEMPTS"
      and "\<not> (0 < fst (oe_term_size e) \<and> 0 < snd (oe_term_size e))"
      and "render_finish e v = (at_card (cd_ref c) (\<lambda>c. c\<lparr>cd_attempts := cd_attempts c + 1\<rparr>) (settle_cancel v))\<lparr>ov_pump := Some 16\<rparr>"
    | (pane) "cd_cur_leaf c + 1 < length (cd_leaves c)"
      and "render_finish e v = (at_card (cd_ref c) (commit_pane e (settle_cancel v)) (settle_cancel v))\<lparr>ov_pump := Some 1\<rparr>"
    | (card) "cd_cur_leaf c + 1 = length (cd_leaves c)"
      and "render_finish e v = render_pump (store_sig (cd_ref c) (render_compose e (cd_ref c)
             ((at_card (cd_ref c) (commit_pane e (settle_cancel v)) (settle_cancel v))\<lparr>ov_pending := tl (ov_pending v)\<rparr>)))"
proof -
  let ?sized = "0 < fst (oe_term_size e) \<and> 0 < snd (oe_term_size e)"
  note parts = render_finish_def Let_def head
  consider "\<not> ?sized \<and> cd_attempts c < RENDER_MAX_ATTEMPTS"
    | "?sized \<or> \<not> cd_attempts c < RENDER_MAX_ATTEMPTS" "cd_cur_leaf c + 1 < length (cd_leaves c)"
    | "?sized \<or> \<not> cd_attempts c < RENDER_MAX_ATTEMPTS" "cd_cur_leaf c + 1 = length (cd_leaves c)"
    using cur by linarith
  then show ?thesis
  proof cases
    case 1
    then show ?thesis by (intro retry) (auto simp: parts)
  next
    case 2
    then show ?thesis by (intro pane) (auto simp: parts)
  next
    case 3
    then show ?thesis by (intro card) (auto simp: parts)
  qed
qed

section \<open>Every operation keeps the pipeline in order\<close>

lemma pending_tl: "pending_ok v \<Longrightarrow> pending_ok (v\<lparr>ov_pending := tl (ov_pending v)\<rparr>)"
  by (rule pending_ok_mono[of v]) (cases "ov_pending v"; auto simp: pending_ok_def)+

lemma pending_ok_updates [simp]:
  "pending_ok (v\<lparr>ov_pump := a\<rparr>) = pending_ok v" "pending_ok (v\<lparr>ov_rendering := b\<rparr>) = pending_ok v"
  "pending_ok (v\<lparr>ov_feed := b\<rparr>) = pending_ok v" "pending_ok (v\<lparr>ov_quiet := b\<rparr>) = pending_ok v"
  "pending_ok (v\<lparr>ov_fed := b\<rparr>) = pending_ok v" "pending_ok (v\<lparr>ov_backstop := b\<rparr>) = pending_ok v"
  "pending_ok (v\<lparr>ov_term := t\<rparr>) = pending_ok v" "pending_ok (v\<lparr>ov_last_cols := g\<rparr>) = pending_ok v"
  "pending_ok (v\<lparr>ov_last_rows := g\<rparr>) = pending_ok v" "pending_ok (v\<lparr>ov_fed_len := n\<rparr>) = pending_ok v"
  "pending_ok (v\<lparr>ov_pane_sig := g'\<rparr>) = pending_ok v" "pending_ok (v\<lparr>ov_sigs := m\<rparr>) = pending_ok v"
  "pending_ok (v\<lparr>ov_cache := m'\<rparr>) = pending_ok v"
  by (simp_all add: pending_ok_def)

lemma finish_ok:
  assumes "pipe_ok v" and "busy v" and "ov_pump v = None"
  shows "pipe_ok (render_finish e v)"
proof -
  obtain c where c: "head_card v = Some c" "cd_cur_leaf c < length (cd_leaves c)"
    using assms(2) by (auto simp: busy_def)
  let ?r = "cd_ref c"
  obtain rs where p: "ov_pending v = ?r # rs" and at: "card_of ?r v = Some c"
    using c(1) by (auto simp: head_card_def split: list.splits dest: card_of_ref)
  have ok: "pending_ok v" using assms(1) by (simp add: pipe_ok_def)
  have ren: "ov_rendering v" using assms(2) by (simp add: busy_def)
  from c show ?thesis
  proof (cases rule: finish_result[where e = e])
    case retry
    have "pending_ok (render_finish e v)"
      unfolding retry(3) using ok by (simp add: pending_ok_at)
    then show ?thesis using c ren p at unfolding retry(3)
      by (auto simp: pipe_ok_def busy_def timers_def head_card_def)
  next
    case pane
    have "pending_ok (render_finish e v)"
      unfolding pane(2) using ok by (simp add: pending_ok_at)
    then show ?thesis using c ren p at pane(1) unfolding pane(2)
      by (auto simp: pipe_ok_def busy_def timers_def head_card_def)
  next
    case card
    let ?u = "(at_card ?r (commit_pane e (settle_cancel v)) (settle_cancel v))\<lparr>ov_pending := tl (ov_pending v)\<rparr>"
    have u: "pending_ok ?u" "timers ?u = [False, False, False]" "\<not> ov_fed ?u" "\<not> ov_quiet ?u"
      using ok pending_tl[of "at_card ?r (commit_pane e (settle_cancel v)) (settle_cancel v)"] assms(3)
      by (simp_all add: pending_ok_at timers_def)
    have at_u: "card_of ?r ?u = Some (commit_pane e (settle_cancel v) c)" using at by simp
    have fresh: "?r \<notin> set rs" using ok p by (simp add: pending_ok_def)
    have "pending_ok (render_compose e ?r ?u)"
    proof (rule compose_result[OF at_u, of e])
      fix d
      let ?w = "render_compose e ?r ?u"
      assume w: "card_of ?r ?w = Some d" "cd_leaves d = cd_leaves (commit_pane e (settle_cancel v) c)"
        "\<And>x. x \<noteq> ?r \<Longrightarrow> card_of x ?w = card_of x ?u" "refs ?w = refs ?u"
        "ov_pending ?w = ov_pending ?u \<and> cd_attempts d = cd_attempts (commit_pane e (settle_cancel v) c) \<or>
         ov_pending ?w = ov_pending ?u @ [?r] \<and> cd_attempts (commit_pane e (settle_cancel v) c) < RENDER_MAX_ATTEMPTS \<and>
         cd_attempts d = cd_attempts (commit_pane e (settle_cancel v) c) + 1"
      have "\<exists>d. card_of x ?w = Some d \<and> cd_leaves d \<noteq> []" if "x \<in> set (?r # rs)" for x
        using that u(1) w(1-3) c(2) p by (cases "x = ?r") (auto simp: pending_ok_def)
      then show ?thesis using u(1) w(4,5) fresh p by (auto simp: pending_ok_def)
    qed
    moreover have "timers (render_compose e ?r ?u) = [False, False, False]" "\<not> ov_fed (render_compose e ?r ?u)"
      "\<not> ov_quiet (render_compose e ?r ?u)"
      using compose_result[OF at_u, of e] u(2-4) by metis+
    ultimately show ?thesis unfolding card(2) by (intro render_pump_ok) simp_all
  qed
qed

lemma busy_head:
  assumes "busy v"
  obtains c rs where "head_card v = Some c" and "cd_cur_leaf c < length (cd_leaves c)" and "ov_pending v = cd_ref c # rs"
    and "card_of (cd_ref c) v = Some c" and "render_current_leaf (head_card v) = Some (cd_leaves c ! cd_cur_leaf c)"
  using assms by (auto simp: busy_def head_card_def render_current_leaf_def split: list.splits dest: card_of_ref)

lemma head_updates [simp]:
  "head_card (v\<lparr>ov_pump := a\<rparr>) = head_card v" "head_card (v\<lparr>ov_rendering := b\<rparr>) = head_card v"
  "head_card (v\<lparr>ov_feed := b\<rparr>) = head_card v" "head_card (v\<lparr>ov_quiet := b\<rparr>) = head_card v"
  "head_card (v\<lparr>ov_fed := b\<rparr>) = head_card v" "head_card (v\<lparr>ov_backstop := b\<rparr>) = head_card v"
  "head_card (v\<lparr>ov_term := t\<rparr>) = head_card v" "head_card (v\<lparr>ov_last_cols := g\<rparr>) = head_card v"
  "head_card (v\<lparr>ov_last_rows := g\<rparr>) = head_card v" "head_card (v\<lparr>ov_fed_len := n\<rparr>) = head_card v"
  "head_card (v\<lparr>ov_pane_sig := g'\<rparr>) = head_card v" "head_card (v\<lparr>ov_sigs := m\<rparr>) = head_card v"
  "head_card (v\<lparr>ov_cache := m'\<rparr>) = head_card v"
  by (simp_all add: head_card_def split: list.split)

lemma feed_ok:
  assumes "pending_ok v" and "ov_rendering v" and "ov_pump v = None" and "head_card v = Some c"
    and "cd_cur_leaf c < length (cd_leaves c)"
  shows "pipe_ok (render_feed e v)"
  using assms by (simp add: render_feed_def Let_def pipe_ok_def busy_def timers_def render_current_leaf_def)

text \<open>Either the grid is new and the feed waits a frame, or the pane is fed at once.\<close>

lemma start_result:
  assumes "busy v" and "head_card v = Some c" and "cd_cur_leaf c < length (cd_leaves c)" and "l = cd_leaves c ! cd_cur_leaf c"
  obtains (wait) "0 < lf_cols l \<and> 0 < lf_rows l" and "lf_cols l \<noteq> ov_last_cols v \<or> lf_rows l \<noteq> ov_last_rows v"
      and "render_start e v = v\<lparr>ov_pump := None, ov_fed := False, ov_term := ([], lf_cols l, lf_rows l),
             ov_last_cols := lf_cols l, ov_last_rows := lf_rows l, ov_feed := True\<rparr>"
    | (feed) "\<not> (0 < lf_cols l \<and> 0 < lf_rows l) \<or> lf_cols l = ov_last_cols v \<and> lf_rows l = ov_last_rows v"
      and "render_start e v = render_feed e (v\<lparr>ov_pump := None, ov_term := ([], snd (ov_term v)), ov_fed := False\<rparr>)"
  using assms by (fastforce simp: render_start_def Let_def render_current_leaf_def split: if_splits)

lemma start_ok:
  assumes "pipe_ok v" and "busy v" and "ov_pump v \<noteq> None"
  shows "pipe_ok (render_start e v)"
proof -
  obtain c rs where c: "head_card v = Some c" "cd_cur_leaf c < length (cd_leaves c)"
    by (rule busy_head[OF assms(2)])
  have off: "\<not> ov_feed v" "\<not> ov_backstop v" "\<not> ov_fed v" "\<not> ov_quiet v" "ov_rendering v"
    using assms(2,3) by (auto simp: busy_def timers_def)
  from assms(2) c refl show ?thesis
  proof (cases rule: start_result[where e = e])
    case wait
    then show ?thesis using assms(1) off c unfolding wait(3)
      by (simp add: pipe_ok_def busy_def timers_def)
  next
    case feed
    show ?thesis using assms(1) off c unfolding feed(2) by (intro feed_ok) (simp_all add: pipe_ok_def)
  qed
qed

lemma quiet_ok: "pipe_ok v \<Longrightarrow> ov_quiet v \<Longrightarrow> pipe_ok (render_finish_quiet e v)"
proof -
  assume ok: "pipe_ok v" and q: "ov_quiet v"
  then have b: "busy v" by (auto simp: pipe_ok_def idle_def)
  then have "busy (v\<lparr>ov_quiet := False\<rparr>)" "ov_pump v = None" using q by (auto simp: busy_def timers_def)
  moreover have "pipe_ok (v\<lparr>ov_quiet := False\<rparr>)" using ok calculation(1) by (simp add: pipe_ok_def)
  ultimately show ?thesis using finish_ok[of "v\<lparr>ov_quiet := False\<rparr>" e] by (simp add: render_finish_quiet_def Let_def)
qed

lemma changed_ok: "pipe_ok v \<Longrightarrow> pipe_ok (thumb_contents_changed_cb v)"
  by (auto simp: thumb_contents_changed_cb_def pipe_ok_def idle_def busy_def)

lemma queue_card_ok:
  assumes "pending_ok v" and "x \<in> set (refs v)"
  shows "pending_ok (queue_card e x v)"
proof -
  obtain c where c: "card_of x v = Some c" using assms(2) by (auto simp flip: card_of_refs)
  consider "queue_card e x v = v" | "queue_card e x v = at_card x (\<lambda>c. c\<lparr>cd_rendered := True\<rparr>) v"
    | "queue_card e x v = v\<lparr>ov_pending := ov_pending v @ [x]\<rparr>" "cd_leaves c \<noteq> []" "x \<notin> set (ov_pending v)"
    using c by (cases "cd_rendered c \<or> cd_leaves c = [] \<or> x \<in> set (ov_pending v) \<or> \<not> oe_near e x";
      cases "unchanged_since e c v") (simp_all add: queue_card_def)
  then show ?thesis using assms(1) c by cases (auto simp: pending_ok_at, auto simp: pending_ok_def)
qed

text \<open>Queueing leaves the timers and the head of the queue alone.\<close>

lemma queue_card_fields [simp]:
  "ov_rendering (queue_card e x v) = ov_rendering v" "timers (queue_card e x v) = timers v"
  "ov_fed (queue_card e x v) = ov_fed v" "ov_quiet (queue_card e x v) = ov_quiet v" "refs (queue_card e x v) = refs v"
  "ov_cache (queue_card e x v) = ov_cache v" "ov_sigs (queue_card e x v) = ov_sigs v"
  by (auto simp: queue_card_def split: option.split)

lemma queue_cards_fields [simp]:
  "ov_rendering (fold (queue_card e) xs v) = ov_rendering v" "timers (fold (queue_card e) xs v) = timers v"
  "ov_fed (fold (queue_card e) xs v) = ov_fed v" "ov_quiet (fold (queue_card e) xs v) = ov_quiet v"
  "refs (fold (queue_card e) xs v) = refs v" "ov_cache (fold (queue_card e) xs v) = ov_cache v"
  "ov_sigs (fold (queue_card e) xs v) = ov_sigs v"
  by (induction xs arbitrary: v) simp_all

lemma queue_cards_ok: "pending_ok v \<Longrightarrow> set xs \<subseteq> set (refs v) \<Longrightarrow> pending_ok (fold (queue_card e) xs v)"
  by (induction xs arbitrary: v) (simp_all add: queue_card_ok)

lemma queue_card_card:
  "card_of r v = Some c \<Longrightarrow> \<exists>d. card_of r (queue_card e x v) = Some d \<and> cd_leaves d = cd_leaves c \<and>
     cd_cur_leaf d = cd_cur_leaf c \<and> cd_attempts d = cd_attempts c"
  by (auto simp: queue_card_def split: option.split)

lemma queue_cards_card:
  "card_of r v = Some c \<Longrightarrow> \<exists>d. card_of r (fold (queue_card e) xs v) = Some d \<and> cd_leaves d = cd_leaves c \<and>
     cd_cur_leaf d = cd_cur_leaf c \<and> cd_attempts d = cd_attempts c"
proof (induction xs arbitrary: v c)
  case (Cons x xs)
  show ?case using queue_card_card[OF Cons.prems, of e x] Cons.IH[of "queue_card e x v"] by fastforce
qed simp

lemma queue_cards_pending: "\<exists>ys. ov_pending (fold (queue_card e) xs v) = ov_pending v @ ys"
proof (induction xs arbitrary: v)
  case (Cons x xs)
  have "\<exists>ys. ov_pending (queue_card e x v) = ov_pending v @ ys"
    by (auto simp: queue_card_def split: option.split)
  then show ?case using Cons.IH[of "queue_card e x v"] by auto
qed simp

lemma queue_ok:
  assumes "pipe_ok v"
  shows "pipe_ok (queue_visible_renders e v)"
proof -
  let ?w = "fold (queue_card e) (map cd_ref (ov_flow v)) v"
  have w: "pending_ok ?w" using assms by (intro queue_cards_ok) (auto simp: pipe_ok_def refs_def)
  show ?thesis
  proof (cases "ov_rendering v")
    case False
    then have "idle v" using assms by (auto simp: pipe_ok_def busy_def)
    then show ?thesis using False w by (auto simp: queue_visible_renders_def Let_def idle_def intro: render_pump_ok)
  next
    case True
    then have b: "busy v" using assms by (auto simp: pipe_ok_def idle_def)
    obtain c rs where c: "head_card v = Some c" "cd_cur_leaf c < length (cd_leaves c)" "ov_pending v = cd_ref c # rs"
      "card_of (cd_ref c) v = Some c"
      by (rule busy_head[OF b])
    obtain ys where "ov_pending ?w = cd_ref c # rs @ ys" using queue_cards_pending[of e _ v] c(3) by fastforce
    then have "\<exists>d. head_card ?w = Some d \<and> cd_cur_leaf d < length (cd_leaves d)"
      using queue_cards_card[OF c(4), of e "map cd_ref (ov_flow v)"] c(2) by (auto simp: head_card_def)
    moreover have "ov_backstop ?w = ov_backstop v" using queue_cards_fields(2)[of e _ v] by (simp add: timers_def)
    ultimately show ?thesis
      using True b w by (auto simp: queue_visible_renders_def Let_def pipe_ok_def busy_def)
  qed
qed

end
