(* ===== verification/Overview_Drain.thy ===== *)
theory Overview_Drain
  imports Overview_Queue
begin

text \<open>
  The render queue drains: the work that is left is a number that every timer lowers, so a bounded number
  of timers leaves nothing queued, whatever the terminal, the renderer and the daemon do meanwhile.
\<close>

section \<open>Work\<close>

definition tries :: "'d overview \<Rightarrow> nat \<Rightarrow> nat" where
  "tries v r = (case card_of r v of None \<Rightarrow> 0 | Some c \<Rightarrow> RENDER_MAX_ATTEMPTS - cd_attempts c)"

definition panes :: "'d overview \<Rightarrow> nat \<Rightarrow> nat" where
  "panes v r = (case card_of r v of None \<Rightarrow> 0 | Some c \<Rightarrow> length (cd_leaves c))"

definition phase :: "'d overview \<Rightarrow> nat" where
  "phase v = (if ov_backstop v then 2 else if ov_feed v then 1 else 0)"

text \<open>The steps of the queue if nothing is tried again.\<close>

definition todo :: "'d overview \<Rightarrow> nat" where
  "todo v =
     (case ov_pending v of
        [] \<Rightarrow> 0
      | r # rs \<Rightarrow> 3 * (panes v r - (case card_of r v of None \<Rightarrow> 0 | Some c \<Rightarrow> cd_cur_leaf c)) - phase v
                  + (\<Sum>x\<leftarrow>rs. 3 * panes v x))"

definition work :: "'d overview \<Rightarrow> nat" where
  "work v = (\<Sum>r \<in> set (refs v). tries v r) * (3 * (\<Sum>r \<in> set (refs v). panes v r) + 1) + todo v"

lemma todo_bound:
  assumes "pending_ok v"
  shows "todo v \<le> 3 * (\<Sum>r \<in> set (refs v). panes v r)"
proof -
  have sub: "set (ov_pending v) \<subseteq> set (refs v)" using assms by (auto simp: pending_ok_def simp flip: card_of_refs)
  have "todo v \<le> (\<Sum>x\<leftarrow>ov_pending v. 3 * panes v x)" by (auto simp: todo_def split: list.split)
  also have "\<dots> = 3 * (\<Sum>x \<in> set (ov_pending v). panes v x)"
    using assms by (simp add: pending_ok_def sum_list_distinct_conv_sum_set sum_distrib_left)
  also have "\<dots> \<le> 3 * (\<Sum>x \<in> set (refs v). panes v x)"
    using sub by (intro mult_le_mono2 sum_mono2) auto
  finally show ?thesis .
qed

lemma work_less_todo:
  assumes "refs w = refs v" and "\<And>r. tries w r = tries v r" and "\<And>r. panes w r = panes v r" and "todo w < todo v"
  shows "work w < work v"
  using assms by (simp add: work_def)

lemma work_less_tries:
  assumes ok: "pending_ok w" and same: "refs w = refs v" "\<And>r. panes w r = panes v r"
    and x: "x \<in> set (refs v)" "tries w x < tries v x" and rest: "\<And>r. r \<noteq> x \<Longrightarrow> tries w r = tries v r"
  shows "work w < work v"
proof -
  let ?P = "\<Sum>r \<in> set (refs v). panes v r"
  have "(\<Sum>r \<in> set (refs v). tries w r) < (\<Sum>r \<in> set (refs v). tries v r)"
    using x rest by (intro sum_strict_mono_ex1) (auto, metis le_refl less_imp_le)
  then obtain k where k: "(\<Sum>r \<in> set (refs v). tries v r) = Suc ((\<Sum>r \<in> set (refs v). tries w r) + k)"
    using less_iff_Suc_add by blast
  have "todo w \<le> 3 * ?P" using todo_bound[OF ok] same by simp
  then have "(\<Sum>r \<in> set (refs v). tries w r) * (3 * ?P + 1) + todo w
      < Suc ((\<Sum>r \<in> set (refs v). tries w r) + k) * (3 * ?P + 1)"
    by (simp add: algebra_simps)
  then show ?thesis by (simp add: work_def same k)
qed

lemma phase_bound: "phase v \<le> 2"
  by (simp add: phase_def)

lemma busy_todo: "busy v \<Longrightarrow> 0 < todo v"
proof -
  assume b: "busy v"
  obtain c rs where "cd_cur_leaf c < length (cd_leaves c)" "ov_pending v = cd_ref c # rs" "card_of (cd_ref c) v = Some c"
    by (rule busy_head[OF b])
  then show ?thesis using phase_bound[of v] by (simp add: todo_def panes_def)
qed

lemma panes_at [simp]: "(\<And>c. cd_ref (h c) = cd_ref c) \<Longrightarrow> (\<And>c. cd_leaves (h c) = cd_leaves c) \<Longrightarrow>
  panes (at_card r h v) x = panes v x"
  by (auto simp: panes_def split: option.split)

lemma tries_at [simp]: "(\<And>c. cd_ref (h c) = cd_ref c) \<Longrightarrow> (\<And>c. cd_attempts (h c) = cd_attempts c) \<Longrightarrow>
  tries (at_card r h v) x = tries v x"
  by (auto simp: tries_def split: option.split)

lemma panes_same [simp]:
  "panes (settle_cancel v) x = panes v x" "tries (settle_cancel v) x = tries v x"
  "panes (v\<lparr>ov_pump := a\<rparr>) x = panes v x" "tries (v\<lparr>ov_pump := a\<rparr>) x = tries v x"
  "panes (v\<lparr>ov_pending := ps\<rparr>) x = panes v x" "tries (v\<lparr>ov_pending := ps\<rparr>) x = tries v x"
  "panes (store_sig r v) x = panes v x" "tries (store_sig r v) x = tries v x"
  by (simp_all add: panes_def tries_def)

section \<open>Every timer lowers it\<close>

lemma pump_fields:
  "refs (render_pump v) = refs v" "tries (render_pump v) r = tries v r" "panes (render_pump v) r = panes v r"
  "ov_pending (render_pump v) = ov_pending v" "ov_feed (render_pump v) = ov_feed v"
  "ov_backstop (render_pump v) = ov_backstop v"
  by (auto simp: render_pump_def Let_def tries_def panes_def split: list.split option.split)

lemma pump_todo:
  assumes "\<not> ov_feed v" and "\<not> ov_backstop v"
  shows "todo (render_pump v) = (\<Sum>x\<leftarrow>ov_pending v. 3 * panes v x)"
proof (cases "ov_pending v")
  case Nil
  then show ?thesis by (simp add: todo_def pump_fields)
next
  case (Cons r rs)
  have "(case card_of r (render_pump v) of None \<Rightarrow> 0 | Some c \<Rightarrow> cd_cur_leaf c) = 0"
    using Cons by (auto simp: render_pump_def Let_def split: option.split)
  then show ?thesis using Cons assms by (simp add: todo_def pump_fields phase_def)
qed

lemma feed_work:
  assumes "head_card v = Some c" and "cd_cur_leaf c < length (cd_leaves c)"
  shows "refs (render_feed e v) = refs v" and "tries (render_feed e v) r = tries v r"
    and "panes (render_feed e v) r = panes v r" and "ov_pending (render_feed e v) = ov_pending v"
    and "card_of r (render_feed e v) = card_of r v" and "phase (render_feed e v) = 2"
  using assms by (simp_all add: render_feed_def Let_def render_current_leaf_def tries_def panes_def phase_def)

lemma todo_phase:
  assumes "head_card v = Some c" and "cd_cur_leaf c < length (cd_leaves c)"
    and "ov_pending w = ov_pending v" and "\<And>r. card_of r w = card_of r v" and "phase v < phase w" and "phase w \<le> 2"
  shows "todo w < todo v"
proof -
  obtain r rs where p: "ov_pending v = r # rs" "card_of r v = Some c" using assms(1) by (auto simp: head_card_def split: list.splits)
  have "panes w x = panes v x" for x using assms(4) by (simp add: panes_def)
  then show ?thesis using p assms(2-6) by (simp add: todo_def panes_def)
qed

lemma start_work:
  assumes "busy v" and "ov_pump v \<noteq> None"
  shows "work (render_start e v) < work v"
proof -
  obtain c rs where c: "head_card v = Some c" "cd_cur_leaf c < length (cd_leaves c)" by (rule busy_head[OF assms(1)])
  have off: "phase v = 0" using assms by (auto simp: busy_def timers_def phase_def)
  from assms(1) c refl show ?thesis
  proof (cases rule: start_result[where e = e])
    case wait
    show ?thesis unfolding wait(3)
    proof (rule work_less_todo)
      show "todo (v\<lparr>ov_pump := None, ov_fed := False, ov_term := ([], lf_cols (cd_leaves c ! cd_cur_leaf c), lf_rows (cd_leaves c ! cd_cur_leaf c)),
             ov_last_cols := lf_cols (cd_leaves c ! cd_cur_leaf c), ov_last_rows := lf_rows (cd_leaves c ! cd_cur_leaf c), ov_feed := True\<rparr>) < todo v"
        using off assms(1) by (intro todo_phase[OF c]) (auto simp: phase_def)
    qed (simp_all add: tries_def panes_def)
  next
    case feed
    let ?u = "v\<lparr>ov_pump := None, ov_term := ([], snd (ov_term v)), ov_fed := False\<rparr>"
    have u: "head_card ?u = Some c" using c(1) by simp
    show ?thesis unfolding feed(2)
      by (rule work_less_todo)
        (use off feed_work[OF u c(2), where e = e] in \<open>auto intro!: todo_phase[OF c] simp: tries_def panes_def\<close>)
  qed
qed

lemma finish_work:
  assumes ok: "pipe_ok v" and b: "busy v" and armed: "ov_backstop v"
  shows "work (render_finish e v) < work v"
proof -
  obtain c rs where c: "head_card v = Some c" "cd_cur_leaf c < length (cd_leaves c)" and p: "ov_pending v = cd_ref c # rs"
    and at: "card_of (cd_ref c) v = Some c" by (rule busy_head[OF b])
  have off: "ov_pump v = None" "\<not> ov_feed v" "phase v = 2" using b armed by (auto simp: busy_def timers_def phase_def)
  have ok': "pending_ok (render_finish e v)" using finish_ok[OF ok b off(1), of e] by (simp add: pipe_ok_def)
  have r: "cd_ref c \<in> set (refs v)" using at card_of_refs by blast
  from c show ?thesis
  proof (cases rule: finish_result[where e = e])
    case retry
    show ?thesis
      by (rule work_less_tries[OF ok' _ _ r])
        (use at retry(1) in \<open>auto simp: retry(3) panes_def tries_def split: option.split\<close>)
  next
    case pane
    have len: "panes v (cd_ref c) = length (cd_leaves c)" using at by (simp add: panes_def)
    show ?thesis unfolding pane(2)
    proof (rule work_less_todo)
      let ?w = "(at_card (cd_ref c) (commit_pane e (settle_cancel v)) (settle_cancel v))\<lparr>ov_pump := Some 1\<rparr>"
      have "todo ?w = 3 * (length (cd_leaves c) - (cd_cur_leaf c + 1)) + (\<Sum>x\<leftarrow>rs. 3 * panes v x)"
        using at p len by (simp add: todo_def) (simp add: phase_def)
      then show "todo ?w < todo v" using at p off(3) pane(1) len by (simp add: todo_def)
    qed simp_all
  next
    case card
    let ?r = "cd_ref c"
    let ?u = "(at_card ?r (commit_pane e (settle_cancel v)) (settle_cancel v))\<lparr>ov_pending := tl (ov_pending v)\<rparr>"
    let ?w = "render_compose e ?r ?u"
    have at_u: "card_of ?r ?u = Some (commit_pane e (settle_cancel v) c)" using at by simp
    show ?thesis
    proof (rule compose_result[OF at_u, of e])
      fix d
      assume w: "card_of ?r ?w = Some d" "cd_leaves d = cd_leaves (commit_pane e (settle_cancel v) c)"
        "\<And>x. x \<noteq> ?r \<Longrightarrow> card_of x ?w = card_of x ?u" "refs ?w = refs ?u" "timers ?w = timers ?u"
        and again: "ov_pending ?w = ov_pending ?u \<and> cd_attempts d = cd_attempts (commit_pane e (settle_cancel v) c) \<or>
         ov_pending ?w = ov_pending ?u @ [?r] \<and> cd_attempts (commit_pane e (settle_cancel v) c) < RENDER_MAX_ATTEMPTS \<and>
         cd_attempts d = cd_attempts (commit_pane e (settle_cancel v) c) + 1"
      have panes: "panes ?w x = panes v x" for x
        using w(1-3) at by (cases "x = ?r") (auto simp: panes_def split: option.split)
      have others: "tries ?w x = tries v x" if "x \<noteq> ?r" for x
        using w(3)[OF that] that by (auto simp: tries_def split: option.split)
      have unarmed: "\<not> ov_feed ?w" "\<not> ov_backstop ?w" using w(5) by (simp_all add: timers_def)
      from again show ?thesis
      proof (elim disjE conjE)
        assume a: "ov_pending ?w = ov_pending ?u" "cd_attempts d = cd_attempts (commit_pane e (settle_cancel v) c)"
        have "tries ?w x = tries v x" for x using others[of x] a(2) w(1) at by (cases "x = ?r") (simp_all add: tries_def)
        moreover have "todo (render_pump (store_sig ?r ?w)) = (\<Sum>x\<leftarrow>rs. 3 * panes v x)"
          using unarmed a(1) p panes by (subst pump_todo) simp_all
        moreover have "todo v = 1 + (\<Sum>x\<leftarrow>rs. 3 * panes v x)"
          using p at off(3) card(1) by (simp add: todo_def panes_def)
        ultimately show ?thesis unfolding card(2)
          using w(4) panes by (intro work_less_todo) (simp_all add: pump_fields)
      next
        assume a: "cd_attempts (commit_pane e (settle_cancel v) c) < RENDER_MAX_ATTEMPTS"
          "cd_attempts d = cd_attempts (commit_pane e (settle_cancel v) c) + 1"
        have "tries ?w ?r < tries v ?r" using a w(1) at by (simp add: tries_def)
        then show ?thesis
          by (intro work_less_tries[OF ok' _ _ r]) (simp_all add: card(2) pump_fields w(4) others panes)
      qed
    qed
  qed
qed

lemma fire_ok: "pipe_ok v \<Longrightarrow> pipe_ok (fire e v)"
proof -
  assume ok: "pipe_ok v"
  show ?thesis
  proof (cases "busy v")
    case True
    then obtain c rs where "head_card v = Some c" "cd_cur_leaf c < length (cd_leaves c)" by (rule busy_head)
    then show ?thesis using True ok start_ok[OF ok True, of e] finish_ok[OF ok True, of e] feed_ok[of v c e]
      by (auto simp: fire_def busy_def pipe_ok_def)
  next
    case False
    then show ?thesis using ok by (auto simp: fire_def pipe_ok_def idle_def timers_def)
  qed
qed

lemma fire_idle: "idle v \<Longrightarrow> fire e v = v"
  by (simp add: fire_def idle_def timers_def)

lemma fire_work: "pipe_ok v \<Longrightarrow> busy v \<Longrightarrow> work (fire e v) < work v"
proof -
  assume ok: "pipe_ok v" and b: "busy v"
  obtain c rs where c: "head_card v = Some c" "cd_cur_leaf c < length (cd_leaves c)" by (rule busy_head[OF b])
  consider "ov_pump v \<noteq> None" | "ov_pump v = None" "ov_feed v" "\<not> ov_backstop v" | "ov_pump v = None" "\<not> ov_feed v" "ov_backstop v"
    using b by (auto simp: busy_def timers_def)
  then show ?thesis
  proof cases
    case 2
    then have "phase v = 1" by (simp add: phase_def)
    then have "work (render_feed e v) < work v"
      by (intro work_less_todo) (auto intro!: todo_phase[OF c] simp: feed_work[OF c])
    then show ?thesis using 2 by (simp add: fire_def)
  qed (simp_all add: fire_def start_work[OF b] finish_work[OF ok b])
qed

lemma fires_idle: "pipe_ok v \<Longrightarrow> work v \<le> length es \<Longrightarrow> idle (fold fire es v)"
proof (induction es arbitrary: v)
  case Nil
  then show ?case using busy_todo[of v] by (auto simp: pipe_ok_def work_def)
next
  case (Cons e es)
  show ?case
  proof (cases "idle v")
    case True
    then have "idle (fold fire xs v)" for xs by (induction xs) (simp_all add: fire_idle)
    then show ?thesis by blast
  next
    case False
    then have b: "busy v" using Cons.prems(1) by (simp add: pipe_ok_def)
    show ?thesis using Cons.IH[OF fire_ok[OF Cons.prems(1)], of e] fire_work[OF Cons.prems(1) b, of e] Cons.prems(2)
      by simp
  qed
qed

end
