(* ===== verification/Overview_Drawn.thy ===== *)
theory Overview_Drawn
  imports Overview_Drain
begin

text \<open>
  What the queue leaves behind when the terminal, the renderer and the daemon answer: every card shows all
  of its panes, each at its own grid with what the daemon had for it, and the signature kept for it is the
  one that a later look at the same panes computes.
\<close>

definition able :: "overview_env \<Rightarrow> bool" where
  "able e \<longleftrightarrow> 0 < fst (oe_term_size e) \<and> 0 < snd (oe_term_size e) \<and> oe_captured e \<and> oe_renderer e \<and> oe_texture e"

definition capture_of :: "overview_env \<Rightarrow> 'd leaf_rect \<Rightarrow> capture" where
  "capture_of e l = (fed_bytes e (lf_session l), lf_cols l, lf_rows l)"

definition picture_of :: "overview_env \<Rightarrow> 'd overview \<Rightarrow> 'd card \<Rightarrow> 'd texture" where
  "picture_of e v c = Composed (map (\<lambda>l. (l, capture_of e l)) (cd_leaves c)) (cd_seams c) (overview_thumb_pixel_size e v)"

definition sized :: "'d card \<Rightarrow> bool" where
  "sized c \<longleftrightarrow> (\<forall>l \<in> set (cd_leaves c). 0 < lf_cols l \<and> 0 < lf_rows l)"

definition keyed :: "'d overview \<Rightarrow> bool" where
  "keyed v \<longleftrightarrow> (\<forall>r r' c c'. card_of r v = Some c \<longrightarrow> card_of r' v = Some c' \<longrightarrow> cd_cache_key c = cd_cache_key c' \<longrightarrow> r = r')"

text \<open>How far the card at the head is: the panes before the current one are captured and counted.\<close>

definition sig_of :: "overview_env \<Rightarrow> 'd leaf_rect list \<Rightarrow> u64" where
  "sig_of e ls = fold (\<lambda>l h. sig_fold_u64 h (leaf_signature e l)) ls SIG_FNV_OFFSET"

definition so_far :: "overview_env \<Rightarrow> 'd card \<Rightarrow> bool" where
  "so_far e c \<longleftrightarrow>
     (let ls = take (cd_cur_leaf c) (cd_leaves c)
      in cd_nodes c = map (\<lambda>l. Some (capture_of e l)) ls \<and> cd_sig c = sig_of e ls \<and> cd_sig_panes c = cd_cur_leaf c)"

definition track :: "overview_env \<Rightarrow> 'd overview \<Rightarrow> bool" where
  "track e v \<longleftrightarrow>
     pipe_ok v \<and> keyed v \<and> (\<forall>r c. card_of r v = Some c \<longrightarrow> sized c) \<and>
     (0 < ov_last_cols v \<and> 0 < ov_last_rows v \<longrightarrow> snd (ov_term v) = (ov_last_cols v, ov_last_rows v)) \<and>
     (\<forall>c. head_card v = Some c \<longrightarrow> so_far e c \<and>
        (let l = cd_leaves c ! cd_cur_leaf c in
         (ov_feed v \<longrightarrow> ov_term v = ([], lf_cols l, lf_rows l)) \<and>
         (ov_backstop v \<longrightarrow> ov_term v = capture_of e l \<and> ov_pane_sig v = leaf_signature e l)))"

definition finished :: "overview_env \<Rightarrow> 'd overview \<Rightarrow> nat \<Rightarrow> bool" where
  "finished e v r \<longleftrightarrow>
     (\<exists>c. card_of r v = Some c \<and> cd_rendered c \<and> ov_cache v (cd_cache_key c) = Some (picture_of e v c) \<and>
          ov_sigs v (cd_cache_key c) = card_current_sig e c)"

text \<open>What stays as it is from one state to the next.\<close>

definition same_pictures :: "'d overview \<Rightarrow> 'd overview \<Rightarrow> bool" where
  "same_pictures v w \<longleftrightarrow>
     ov_thumb_w w = ov_thumb_w v \<and> ov_thumb_h w = ov_thumb_h v \<and> refs w = refs v \<and>
     (\<forall>r c. card_of r v = Some c \<longrightarrow> (\<exists>d. card_of r w = Some d \<and> cd_leaves d = cd_leaves c \<and> cd_seams d = cd_seams c \<and>
        cd_cache_key d = cd_cache_key c \<and> (cd_rendered c \<longrightarrow> cd_rendered d)))"

lemma same_pictures_refl [simp]: "same_pictures v v"
  by (simp add: same_pictures_def)

lemma same_pictures_trans: "same_pictures u v \<Longrightarrow> same_pictures v w \<Longrightarrow> same_pictures u w"
  unfolding same_pictures_def by (metis (no_types, lifting))

lemma same_picturesD: "same_pictures v w \<Longrightarrow> card_of r v = Some c \<Longrightarrow>
  \<exists>d. card_of r w = Some d \<and> cd_leaves d = cd_leaves c \<and> cd_seams d = cd_seams c \<and>
      cd_cache_key d = cd_cache_key c \<and> (cd_rendered c \<longrightarrow> cd_rendered d)"
  by (simp add: same_pictures_def)

lemma picture_same: "same_pictures v w \<Longrightarrow> cd_leaves d = cd_leaves c \<Longrightarrow> cd_seams d = cd_seams c \<Longrightarrow>
  picture_of e w d = picture_of e v c"
  by (simp add: picture_of_def same_pictures_def overview_thumb_pixel_size_def)

lemma keyed_same: "same_pictures v w \<Longrightarrow> keyed v \<Longrightarrow> keyed w"
  unfolding keyed_def same_pictures_def by (metis card_of_refs option.inject)

lemma sized_same: "same_pictures v w \<Longrightarrow> \<forall>r c. card_of r v = Some c \<longrightarrow> sized c \<Longrightarrow> \<forall>r c. card_of r w = Some c \<longrightarrow> sized c"
  unfolding same_pictures_def sized_def by (metis card_of_refs option.inject)

lemma finished_same:
  assumes "finished e v r" and "same_pictures v w"
    and "\<And>c. card_of r v = Some c \<Longrightarrow> ov_cache w (cd_cache_key c) = ov_cache v (cd_cache_key c) \<and>
                                     ov_sigs w (cd_cache_key c) = ov_sigs v (cd_cache_key c)"
  shows "finished e w r"
proof -
  obtain c where c: "card_of r v = Some c" "cd_rendered c" "ov_cache v (cd_cache_key c) = Some (picture_of e v c)"
    "ov_sigs v (cd_cache_key c) = card_current_sig e c" using assms(1) by (auto simp: finished_def)
  obtain d where d: "card_of r w = Some d" "cd_leaves d = cd_leaves c" "cd_seams d = cd_seams c"
    "cd_cache_key d = cd_cache_key c" "cd_rendered d" using assms(2) c(1,2) by (auto simp: same_pictures_def)
  then show ?thesis using c assms(3)[OF c(1)] picture_same[OF assms(2) d(2,3), of e]
    by (auto simp: finished_def card_current_sig_def)
qed

lemma so_far_next:
  assumes "so_far e c" and "cd_cur_leaf c < length (cd_leaves c)" and "able e"
    and "ov_term v = capture_of e (cd_leaves c ! cd_cur_leaf c)" and "ov_pane_sig v = leaf_signature e (cd_leaves c ! cd_cur_leaf c)"
  shows "so_far e (commit_pane e v c)"
  using assms by (simp add: so_far_def commit_pane_def Let_def able_def take_Suc_conv_app_nth sig_of_def)

lemma map_filter_captured:
  "List.map_filter (\<lambda>(n, l). map_option (\<lambda>k. (l, k)) n) (zip (map (\<lambda>l. Some (f l)) ls) ls) = map (\<lambda>l. (l, f l)) ls"
  by (induction ls) (simp_all add: List.map_filter_simps)

text \<open>Composing a card whose panes are all captured.\<close>

lemma compose_whole:
  assumes "able e" and "card_of r v = Some c" and "so_far e c" and "cd_cur_leaf c = length (cd_leaves c)" and "cd_leaves c \<noteq> []"
  shows "render_compose e r v =
    at_card r (\<lambda>d. card_nodes_clear (d\<lparr>cd_shown := Some (picture_of e v c), cd_rendered := True\<rparr>))
      (v\<lparr>ov_cache := (ov_cache v)(cd_cache_key c \<mapsto> picture_of e v c)\<rparr>)"
proof -
  have nodes: "cd_nodes c = map (\<lambda>l. Some (capture_of e l)) (cd_leaves c)"
    using assms(3,4) by (simp add: so_far_def Let_def)
  have t: "Composed (List.map_filter (\<lambda>(n, l). map_option (\<lambda>k. (l, k)) n) (zip (cd_nodes c) (cd_leaves c))) (cd_seams c)
    (overview_thumb_pixel_size e v) = picture_of e v c"
    unfolding nodes map_filter_captured by (simp add: picture_of_def)
  have ne: "List.map_filter (\<lambda>(n, l). map_option (\<lambda>k. (l, k)) n) (zip (cd_nodes c) (cd_leaves c)) \<noteq> []"
    unfolding nodes map_filter_captured using assms(5) by simp
  show ?thesis
    using assms(1,2,5) ne t nodes by (simp add: render_compose_def Let_def able_def)
qed

lemma settle_same: "same_pictures v (settle_cancel v)"
  by (simp add: same_pictures_def)

lemma at_same: "(\<And>c. cd_ref (h c) = cd_ref c) \<Longrightarrow> (\<And>c. cd_leaves (h c) = cd_leaves c \<and> cd_seams (h c) = cd_seams c \<and>
    cd_cache_key (h c) = cd_cache_key c \<and> (cd_rendered c \<longrightarrow> cd_rendered (h c))) \<Longrightarrow> same_pictures v (at_card r h v)"
  by (auto simp: same_pictures_def)

lemma update_same:
  "same_pictures v (v\<lparr>ov_pending := ps\<rparr>)" "same_pictures v (v\<lparr>ov_pump := t\<rparr>)" "same_pictures v (v\<lparr>ov_cache := m\<rparr>)"
  "same_pictures v (store_sig r v)"
  by (auto simp: same_pictures_def store_sig_def split: option.split)

lemma pump_same: "same_pictures v (render_pump v)"
  by (cases "ov_pending v") (auto simp: render_pump_def Let_def same_pictures_def)

lemma pump_kept [simp]:
  "ov_cache (render_pump v) = ov_cache v" "ov_sigs (render_pump v) = ov_sigs v"
  "ov_last_cols (render_pump v) = ov_last_cols v" "ov_last_rows (render_pump v) = ov_last_rows v"
  "ov_term (render_pump v) = ov_term v"
  by (simp_all add: render_pump_def Let_def split: list.split)

lemma pump_head: "head_card (render_pump v) = Some c \<Longrightarrow> so_far e c"
  by (cases "ov_pending v") (auto simp: render_pump_def Let_def head_card_def so_far_def sig_of_def)

text \<open>The last pane of a card: the card leaves the queue with its picture and its signature.\<close>

lemma last_pane:
  assumes t: "track e v" and b: "busy v" and armed: "ov_backstop v" and able: "able e" and head: "head_card v = Some c"
    and last: "cd_cur_leaf c + 1 = length (cd_leaves c)"
  defines "w \<equiv> render_finish e v"
  shows "same_pictures v w" and "ov_pending w = tl (ov_pending v)" and "finished e w (cd_ref c)"
    and "\<And>k. k \<noteq> cd_cache_key c \<Longrightarrow> ov_cache w k = ov_cache v k \<and> ov_sigs w k = ov_sigs v k"
    and "\<And>d. head_card w = Some d \<Longrightarrow> so_far e d" and "\<not> ov_feed w" and "\<not> ov_backstop w"
    and "ov_last_cols w = ov_last_cols v" and "ov_last_rows w = ov_last_rows v" and "ov_term w = ov_term v"
proof -
  let ?r = "cd_ref c"
  let ?s = "settle_cancel v"
  let ?u = "(at_card ?r (commit_pane e ?s) ?s)\<lparr>ov_pending := tl (ov_pending v)\<rparr>"
  let ?c = "commit_pane e ?s c"
  have at: "card_of ?r v = Some c" using head by (auto simp: head_card_def split: list.splits dest: card_of_ref)
  have far: "so_far e ?c" and cur: "cd_cur_leaf c < length (cd_leaves c)"
    using so_far_next[of e c ?s] t head armed able last by (simp_all add: track_def Let_def)
  have at_u: "card_of ?r ?u = Some ?c" using at by simp
  have len: "cd_cur_leaf ?c = length (cd_leaves ?c)" "cd_leaves ?c \<noteq> []" using last by auto
  let ?x = "at_card ?r (\<lambda>d. card_nodes_clear (d\<lparr>cd_shown := Some (picture_of e ?u ?c), cd_rendered := True\<rparr>))
      (?u\<lparr>ov_cache := (ov_cache ?u)(cd_cache_key ?c \<mapsto> picture_of e ?u ?c)\<rparr>)"
  let ?d = "card_nodes_clear (?c\<lparr>cd_shown := Some (picture_of e ?u ?c), cd_rendered := True\<rparr>)"
  have w: "w = render_pump (store_sig ?r ?x)"
    unfolding w_def using able head cur
    by (cases rule: finish_result[OF head cur, of e]) (use able last in \<open>simp_all add: able_def
      compose_whole[OF able at_u far len, unfolded able_def]\<close>)
  show "ov_pending w = tl (ov_pending v)" by (simp add: w pump_fields)
  show "so_far e d" if "head_card w = Some d" for d using that unfolding w by (rule pump_head)
  have x: "card_of ?r ?x = Some ?d" using at by simp
  have stored: "store_sig ?r ?x = ?x\<lparr>ov_sigs := (ov_sigs v)(cd_cache_key c \<mapsto> cd_sig ?c)\<rparr>"
    using far len by (simp add: store_sig_def at so_far_def Let_def)
  have sig: "Some (cd_sig ?c) = card_current_sig e c" using far len by (simp add: so_far_def Let_def card_current_sig_def sig_of_def)
  have pic: "picture_of e ?u ?c = picture_of e v c" by (simp add: picture_of_def overview_thumb_pixel_size_def)
  have cache: "ov_cache w = (ov_cache v)(cd_cache_key c \<mapsto> picture_of e v c)" "ov_sigs w = (ov_sigs v)(cd_cache_key c \<mapsto> cd_sig ?c)"
    unfolding w pump_kept unfolding stored by (simp_all add: pic)
  show "ov_cache w k = ov_cache v k \<and> ov_sigs w k = ov_sigs v k" if "k \<noteq> cd_cache_key c" for k
    using that by (simp add: cache)
  show "\<not> ov_feed w" "\<not> ov_backstop w" by (simp_all add: w pump_fields)
  show "ov_last_cols w = ov_last_cols v" "ov_last_rows w = ov_last_rows v" "ov_term w = ov_term v" by (simp_all add: w)
  have "same_pictures ?s ?u" by (rule same_pictures_trans[OF at_same update_same(1)]) (simp_all add: commit_pane_def Let_def)
  moreover have "same_pictures ?u ?x" by (rule same_pictures_trans[OF update_same(3) at_same]) (simp_all add: card_nodes_clear_def)
  moreover have x_w: "same_pictures ?x w" unfolding w by (rule same_pictures_trans[OF update_same(4) pump_same])
  ultimately show same: "same_pictures v w" using settle_same same_pictures_trans by blast
  obtain d where d: "card_of ?r w = Some d" "cd_leaves d = cd_leaves ?d" "cd_seams d = cd_seams ?d"
    "cd_cache_key d = cd_cache_key ?d" "cd_rendered d"
    using same_picturesD[OF x_w x] by auto
  have "picture_of e w d = picture_of e v c" using d by (intro picture_same[OF same]) simp_all
  then show "finished e w ?r" using d cache sig by (simp add: finished_def card_current_sig_def)
qed

text \<open>Feeding the current pane, whatever came before.\<close>

lemma feed_track:
  assumes "head_card v = Some c" and "cd_cur_leaf c < length (cd_leaves c)" and "l = cd_leaves c ! cd_cur_leaf c"
    and "ov_term v = ([], lf_cols l, lf_rows l)"
  shows "same_pictures v (render_feed e v)" and "head_card (render_feed e v) = Some c"
    and "ov_term (render_feed e v) = capture_of e l" and "ov_pane_sig (render_feed e v) = leaf_signature e l"
    and "\<not> ov_feed (render_feed e v)" and "ov_pending (render_feed e v) = ov_pending v"
    and "ov_cache (render_feed e v) = ov_cache v" and "ov_sigs (render_feed e v) = ov_sigs v"
    and "ov_last_cols (render_feed e v) = ov_last_cols v" and "ov_last_rows (render_feed e v) = ov_last_rows v"
  using assms by (auto simp: render_feed_def Let_def render_current_leaf_def capture_of_def same_pictures_def head_card_def split: list.splits)

definition progress :: "overview_env \<Rightarrow> 'd overview \<Rightarrow> 'd overview \<Rightarrow> bool" where
  "progress e v w \<longleftrightarrow>
     track e w \<and> same_pictures v w \<and> (\<forall>r. finished e v r \<longrightarrow> finished e w r) \<and>
     (\<forall>r \<in> set (ov_pending v). r \<in> set (ov_pending w) \<or> finished e w r) \<and>
     set (ov_pending w) \<subseteq> set (ov_pending v) \<and>
     (\<forall>r c. card_of r v = Some c \<longrightarrow> r \<notin> set (ov_pending v) \<longrightarrow>
        ov_cache w (cd_cache_key c) = ov_cache v (cd_cache_key c) \<and> ov_sigs w (cd_cache_key c) = ov_sigs v (cd_cache_key c))"

text \<open>A step that leaves the cache alone and the queue as it is.\<close>

lemma progress_within:
  assumes "track e v" and "pipe_ok w" and "same_pictures v w" and "ov_cache w = ov_cache v" and "ov_sigs w = ov_sigs v"
    and "ov_pending w = ov_pending v"
    and "0 < ov_last_cols w \<and> 0 < ov_last_rows w \<longrightarrow> snd (ov_term w) = (ov_last_cols w, ov_last_rows w)"
    and "\<And>c. head_card w = Some c \<Longrightarrow> so_far e c \<and>
        (let l = cd_leaves c ! cd_cur_leaf c in
         (ov_feed w \<longrightarrow> ov_term w = ([], lf_cols l, lf_rows l)) \<and>
         (ov_backstop w \<longrightarrow> ov_term w = capture_of e l \<and> ov_pane_sig w = leaf_signature e l))"
  shows "progress e v w"
proof -
  have "finished e v r \<Longrightarrow> finished e w r" for r
    using finished_same[of e v r w] assms(3-5) by simp
  moreover have "track e w"
    unfolding track_def using assms keyed_same[OF assms(3)] sized_same[OF assms(3)] unfolding track_def by blast
  ultimately show ?thesis using assms(3-6) by (simp add: progress_def)
qed

lemma start_progress:
  assumes t: "track e v" and b: "busy v" and armed: "ov_pump v \<noteq> None"
  shows "progress e v (render_start e v)"
proof -
  obtain c rs where c: "head_card v = Some c" "cd_cur_leaf c < length (cd_leaves c)" and at: "card_of (cd_ref c) v = Some c"
    by (rule busy_head[OF b])
  define l where "l = cd_leaves c ! cd_cur_leaf c"
  have off: "\<not> ov_feed v" "\<not> ov_backstop v" using b armed by (auto simp: busy_def timers_def)
  have ok: "pipe_ok v" and far: "so_far e c" using t c(1) by (simp_all add: track_def)
  have pos: "0 < lf_cols l" "0 < lf_rows l"
    using t at c(2) unfolding l_def by (auto simp: track_def sized_def)
  from b c l_def show ?thesis
  proof (cases rule: start_result[where e = e])
    case wait
    show ?thesis
      by (rule progress_within[OF t start_ok[OF ok b armed]])
        (use wait c far off in \<open>auto simp: l_def Let_def same_pictures_def\<close>)
  next
    case feed
    let ?u = "v\<lparr>ov_pump := None, ov_term := ([], snd (ov_term v)), ov_fed := False\<rparr>"
    have g: "lf_cols l = ov_last_cols v" "lf_rows l = ov_last_rows v" using feed(1) pos by auto
    then have "snd (ov_term v) = (lf_cols l, lf_rows l)" using t pos by (simp add: track_def)
    then have u: "head_card ?u = Some c" "ov_term ?u = ([], lf_cols l, lf_rows l)" using c(1) by simp_all
    note f = feed_track[OF u(1) c(2) l_def u(2), of e]
    have "same_pictures v ?u" by (auto simp: same_pictures_def)
    then show ?thesis
      by (intro progress_within[OF t start_ok[OF ok b armed]])
        (use f far g same_pictures_trans in \<open>auto simp: feed(2) l_def Let_def capture_of_def\<close>)
  qed
qed

lemma feed_progress:
  assumes t: "track e v" and b: "busy v" and armed: "ov_feed v"
  shows "progress e v (render_feed e v)"
proof -
  obtain c rs where c: "head_card v = Some c" "cd_cur_leaf c < length (cd_leaves c)" by (rule busy_head[OF b])
  define l where "l = cd_leaves c ! cd_cur_leaf c"
  have grid: "ov_term v = ([], lf_cols l, lf_rows l)" and far: "so_far e c"
    using t c(1) armed by (simp_all add: track_def Let_def l_def)
  note f = feed_track[OF c l_def grid, of e]
  have ok: "pipe_ok (render_feed e v)"
    using t b armed c by (intro feed_ok[of v c]) (auto simp: track_def pipe_ok_def idle_def busy_def timers_def)
  show ?thesis
    by (rule progress_within[OF t ok]) (use f far t grid in \<open>auto simp: l_def Let_def capture_of_def track_def\<close>)
qed

lemma progress_trans: "progress e u v \<Longrightarrow> progress e v w \<Longrightarrow> progress e u w"
proof -
  assume a: "progress e u v" and b: "progress e v w"
  have "ov_cache w (cd_cache_key c) = ov_cache u (cd_cache_key c) \<and> ov_sigs w (cd_cache_key c) = ov_sigs u (cd_cache_key c)"
    if c: "card_of r u = Some c" and r: "r \<notin> set (ov_pending u)" for r c
  proof -
    have r': "r \<notin> set (ov_pending v)" using a r unfolding progress_def by blast
    have "same_pictures u v" using a by (simp add: progress_def)
    from same_picturesD[OF this c] obtain d where d: "card_of r v = Some d" "cd_cache_key d = cd_cache_key c" by blast
    have "ov_cache w (cd_cache_key d) = ov_cache v (cd_cache_key d) \<and> ov_sigs w (cd_cache_key d) = ov_sigs v (cd_cache_key d)"
      using b d(1) r' unfolding progress_def by blast
    moreover have "ov_cache v (cd_cache_key c) = ov_cache u (cd_cache_key c) \<and> ov_sigs v (cd_cache_key c) = ov_sigs u (cd_cache_key c)"
      using a c r unfolding progress_def by blast
    ultimately show ?thesis using d(2) by simp
  qed
  moreover have "same_pictures u w" using a b same_pictures_trans unfolding progress_def by blast
  ultimately show ?thesis using a b unfolding progress_def by blast
qed

lemma finish_progress:
  assumes t: "track e v" and b: "busy v" and armed: "ov_backstop v" and able: "able e"
  shows "progress e v (render_finish e v)"
proof -
  obtain c rs where c: "head_card v = Some c" "cd_cur_leaf c < length (cd_leaves c)" and p: "ov_pending v = cd_ref c # rs"
    and at: "card_of (cd_ref c) v = Some c" by (rule busy_head[OF b])
  have off: "ov_pump v = None" using b armed by (auto simp: busy_def timers_def)
  have ok: "pipe_ok (render_finish e v)" using t finish_ok[OF _ b off, of e] by (simp add: track_def)
  from c show ?thesis
  proof (cases rule: finish_result[where e = e])
    case retry
    then show ?thesis using able by (simp add: able_def)
  next
    case pane
    have far: "so_far e (commit_pane e (settle_cancel v) c)"
      using so_far_next[of e c "settle_cancel v"] t c armed able by (simp add: track_def Let_def)
    have "same_pictures (settle_cancel v) (render_finish e v)" unfolding pane(2)
      by (rule same_pictures_trans[OF at_same update_same(2)]) (simp_all add: commit_pane_def Let_def)
    then have same: "same_pictures v (render_finish e v)" by (rule same_pictures_trans[OF settle_same])
    have head: "head_card (render_finish e v) = Some (commit_pane e (settle_cancel v) c)"
      unfolding pane(2) using at p by (simp add: head_card_def)
    show ?thesis
    proof (rule progress_within[OF t ok same])
      show "so_far e d \<and> (let l = cd_leaves d ! cd_cur_leaf d in
         (ov_feed (render_finish e v) \<longrightarrow> ov_term (render_finish e v) = ([], lf_cols l, lf_rows l)) \<and>
         (ov_backstop (render_finish e v) \<longrightarrow> ov_term (render_finish e v) = capture_of e l \<and>
           ov_pane_sig (render_finish e v) = leaf_signature e l))"
        if "head_card (render_finish e v) = Some d" for d
        using that head far by (simp add: pane(2) Let_def)
    qed (use t in \<open>simp_all add: pane(2) track_def\<close>)
  next
    case card
    let ?w = "render_finish e v"
    note last = last_pane[OF t b armed able c(1) card(1)]
    have "keyed v" using t by (simp add: track_def)
    then have other: "cd_cache_key d \<noteq> cd_cache_key c" if "r \<noteq> cd_ref c" "card_of r v = Some d" for r d
      using that at unfolding keyed_def by metis
    then have kept: "finished e v r \<Longrightarrow> finished e ?w r" for r
      using last(3) finished_same[OF _ last(1), of e r] last(4) other by (cases "r = cd_ref c") blast+
    have "track e ?w"
      unfolding track_def using ok keyed_same[OF last(1)] sized_same[OF last(1)] last(5-10) t by (simp add: track_def)
    moreover have "ov_cache ?w (cd_cache_key d) = ov_cache v (cd_cache_key d) \<and> ov_sigs ?w (cd_cache_key d) = ov_sigs v (cd_cache_key d)"
      if "card_of r v = Some d" "r \<notin> set (ov_pending v)" for r d
      using that p other[of r d] last(4) by auto
    ultimately show ?thesis using last(1-3) kept p by (auto simp: progress_def)
  qed
qed

lemma fire_progress: "track e v \<Longrightarrow> able e \<Longrightarrow> progress e v (fire e v)"
proof (cases "busy v")
  case True
  assume t: "track e v" and able: "able e"
  consider "ov_pump v \<noteq> None" | "ov_pump v = None" "ov_feed v" | "ov_pump v = None" "\<not> ov_feed v" "ov_backstop v"
    using True by (auto simp: busy_def timers_def)
  then show ?thesis
    by cases (simp_all add: fire_def start_progress[OF t True] feed_progress[OF t True] finish_progress[OF t True _ able])
next
  case False
  assume t: "track e v"
  then have "fire e v = v" using False by (intro fire_idle) (simp add: track_def pipe_ok_def)
  then show ?thesis using t by (simp add: progress_def)
qed

lemma fires_progress: "track e v \<Longrightarrow> able e \<Longrightarrow> progress e v ((fire e ^^ n) v)"
proof (induction n)
  case 0
  then show ?case by (simp add: progress_def)
next
  case (Suc n)
  let ?u = "(fire e ^^ n) v"
  have u: "progress e v ?u" using Suc by simp
  then have "progress e ?u (fire e ?u)" using Suc.prems(2) by (intro fire_progress) (simp_all add: progress_def)
  with u show ?case using progress_trans by simp
qed

text \<open>The queue as it is when the overview has chosen what to draw.\<close>

lemma queue_card_same: "same_pictures v (queue_card e x v)"
  by (auto simp: queue_card_def same_pictures_def split: option.split)

lemma queue_cards_same: "same_pictures v (fold (queue_card e) xs v)"
proof (induction xs arbitrary: v)
  case (Cons x xs)
  show ?case using same_pictures_trans[OF queue_card_same[of v e x] Cons[of "queue_card e x v"]] by simp
qed simp

lemma queue_cards_kept [simp]:
  "ov_term (fold (queue_card e) xs v) = ov_term v" "ov_last_cols (fold (queue_card e) xs v) = ov_last_cols v"
  "ov_last_rows (fold (queue_card e) xs v) = ov_last_rows v"
  by (induction xs arbitrary: v) (auto simp: queue_card_def split: option.split)

lemma queue_same_pictures: "same_pictures v (queue_visible_renders e v)"
  using queue_cards_same[of v e "map cd_ref (ov_flow v)"]
  by (auto simp: queue_visible_renders_def Let_def intro: same_pictures_trans[OF _ pump_same])

lemma queue_track:
  assumes "pipe_ok v" and "idle v" and "keyed v" and "\<forall>r c. card_of r v = Some c \<longrightarrow> sized c"
    and "0 < ov_last_cols v \<and> 0 < ov_last_rows v \<longrightarrow> snd (ov_term v) = (ov_last_cols v, ov_last_rows v)"
  shows "track e (queue_visible_renders e v)"
proof -
  let ?u = "fold (queue_card e) (map cd_ref (ov_flow v)) v"
  have w: "queue_visible_renders e v = render_pump ?u"
    using assms(2) by (simp add: queue_visible_renders_def Let_def idle_def)
  have "\<not> ov_feed ?u" "\<not> ov_backstop ?u"
    using assms(2) queue_cards_fields(2)[of e "map cd_ref (ov_flow v)" v] by (simp_all add: idle_def timers_def)
  then show ?thesis
    unfolding track_def
    using queue_ok[OF assms(1), of e] keyed_same[OF queue_same_pictures assms(3), of e] sized_same[OF queue_same_pictures assms(4), of e] assms(5)
      pump_head[of ?u]
    by (simp add: w pump_fields)
qed

lemma queue_cards_choice:
  assumes "card_of r v = Some c" and "\<not> cd_rendered c" and "cd_leaves c \<noteq> []" and "oe_near e r" and "r \<in> set xs"
  shows "r \<in> set (ov_pending (fold (queue_card e) xs v)) \<or>
         (unchanged_since e c v \<and> (\<exists>d. card_of r (fold (queue_card e) xs v) = Some d \<and> cd_rendered d))"
  using assms(1,5)
proof (induction xs arbitrary: v)
  case (Cons x xs)
  let ?v = "queue_card e x v"
  obtain ys where ys: "ov_pending (fold (queue_card e) xs ?v) = ov_pending ?v @ ys" using queue_cards_pending by blast
  have sames: "unchanged_since e c ?v = unchanged_since e c v" by (simp add: unchanged_since_def split: option.split)
  show ?case
  proof (cases "x = r")
    case True
    show ?thesis
    proof (cases "r \<in> set (ov_pending v) \<or> \<not> unchanged_since e c v")
      case in_queue: True
      then have "r \<in> set (ov_pending ?v)" using True Cons.prems(1) assms(2-4) by (auto simp: queue_card_def)
      then show ?thesis using ys by simp
    next
      case False
      then have "card_of r ?v = Some (c\<lparr>cd_rendered := True\<rparr>)" using True Cons.prems(1) assms(2-4)
        by (auto simp: queue_card_def)
      from same_picturesD[OF queue_cards_same this, of e xs] show ?thesis using False by auto
    qed
  next
    case False
    then have "card_of r ?v = Some c" using Cons.prems(1) by (auto simp: queue_card_def split: option.split)
    then show ?thesis using Cons.IH[of ?v] Cons.prems(2) False sames by simp
  qed
qed simp

end
