(* ===== verification/Overview_Reload.thy ===== *)
theory Overview_Reload
  imports Overview_Render
begin

text \<open>
  The overview, part three: what a reload shows. Every group of this window gets a card, then every
  group that no client is attached to, then every session alive that none of these shows. Hash tables
  keyed by the low half of an id are sets and maps of 32-bit words. The search filter is at the end.
\<close>

section \<open>The card that the transition flies to\<close>

definition set_hidden :: "bool \<Rightarrow> nat option \<Rightarrow> 'd overview \<Rightarrow> 'd overview" where
  "set_hidden b a v = (case a of None \<Rightarrow> v | Some r \<Rightarrow> at_card r (\<lambda>c. c\<lparr>cd_hidden := b\<rparr>) v)"

definition overview_set_anchor :: "nat option \<Rightarrow> 'd overview \<Rightarrow> 'd overview" where
  "overview_set_anchor a v =
     (if ov_anchor v = a then v
      else set_hidden True a ((set_hidden False (ov_anchor v) v)\<lparr>ov_anchor := a\<rparr>))"

definition overview_set_pending_anchor :: "nat option \<Rightarrow> 'd overview \<Rightarrow> 'd overview" where
  "overview_set_pending_anchor a v = v\<lparr>ov_pending_anchor := a\<rparr>"

definition overview_find_anchor_for_group :: "u64 \<Rightarrow> 'd overview \<Rightarrow> nat option" where
  "overview_find_anchor_for_group gid v =
     (if gid = 0 then None else map_option cd_ref (find (\<lambda>c. cd_group c = gid) (ov_flow v)))"

text \<open>The cards are destroyed, and the weak pointers to them go with them.\<close>

definition flow_clear :: "'d overview \<Rightarrow> 'd overview" where
  "flow_clear v = v\<lparr>ov_flow := [], ov_anchor := None, ov_pending_anchor := None\<rparr>"

section \<open>One card\<close>

text \<open>What the caller knows of the group or of the single session.\<close>

record card_facts =
  cf_title :: "byte list"
  cf_shell :: "byte list"
  cf_custom :: "byte list option"
  cf_attached :: bool
  cf_procs :: "byte list"
  cf_active :: "byte list option"
  cf_panes :: nat
  cf_focused :: u64
  cf_cols :: u32
  cf_rows :: u32
  cf_orphan :: u64

definition low :: "u64 \<Rightarrow> u32" where "low sid = ucast sid"

text \<open>The members that are alive; the session to fall back on, 0 for none.\<close>

definition group_alive :: "u32 set \<Rightarrow> EpiGroupInfo \<Rightarrow> u32 set" where
  "group_alive alive info = low ` set (gi_members info) \<inter> alive"

definition fallback_session :: "u32 set \<Rightarrow> u64 \<Rightarrow> u64 list \<Rightarrow> u64" where
  "fallback_session live focused members =
     (if focused \<noteq> 0 \<and> low focused \<in> live then focused
      else case find (\<lambda>sid. low sid \<in> live) members of Some sid \<Rightarrow> sid | None \<Rightarrow> 0)"

text \<open>The rectangles of the layout, without those whose session is not an alive member.\<close>

definition reconciled ::
  "'d fp \<Rightarrow> 'd gvariant \<Rightarrow> u32 set \<Rightarrow> EpiGroupInfo \<Rightarrow> card_facts \<Rightarrow> 'd leaf_rect list" where
  "reconciled f g alive info cf =
     (let live = group_alive alive info;
          ls = (case epimone_layout_blob_geometry f g (gi_blob info) (gi_blob_len info) of
                  None \<Rightarrow> [] | Some (ls, _) \<Rightarrow> filter (\<lambda>l. low (lf_session l) \<in> live) ls);
          sid = fallback_session live (cf_focused cf) (gi_members info);
          only = \<lparr>lf_session = sid, lf_x = fp_of_int f 0, lf_y = fp_of_int f 0, lf_w = fp_of_int f 1, lf_h = fp_of_int f 1,
                  lf_cols = cf_cols cf, lf_rows = cf_rows cf\<rparr>
      in if ls \<noteq> [] then ls else if sid \<noteq> 0 then [only] else [])"

text \<open>Where the layout has no grid: the one measured, or 80 by 24.\<close>

definition with_grid :: "card_facts \<Rightarrow> 'd leaf_rect \<Rightarrow> 'd leaf_rect" where
  "with_grid cf l =
     (if lf_cols l = 0 \<or> lf_rows l = 0
      then l\<lparr>lf_cols := (if 0 < cf_cols cf then cf_cols cf else 80), lf_rows := (if 0 < cf_rows cf then cf_rows cf else 24)\<rparr>
      else l)"

definition build_card ::
  "'d fp \<Rightarrow> 'd gvariant \<Rightarrow> overview_env \<Rightarrow> u32 set \<Rightarrow> EpiGroupInfo \<Rightarrow> card_facts \<Rightarrow> 'd overview \<Rightarrow> 'd card \<times> 'd overview" where
  "build_card f g e alive info cf v =
     (let age = format_age (oe_now e) (gi_created_at info);
          key = (if cf_orphan cf \<noteq> 0 then ORPHAN_CACHE_BIT OR cf_orphan cf else gi_id info);
          cached = ov_cache v key
      in (\<lparr>cd_ref = ov_next_ref v, cd_group = gi_id info, cd_cache_key = key, cd_kill_session = cf_orphan cf,
           cd_haystack = oe_strdown e (cf_title cf @ [0x20] @ cf_shell cf @ [0x20] @ cf_procs cf),
           cd_rendered = (cached \<noteq> None \<and> cf_orphan cf = 0 \<and> gi_id info \<noteq> 0 \<and> gi_id info = ov_fresh v),
           cd_leaves = map (with_grid cf) (reconciled f g alive info cf),
           cd_seams = (case epimone_layout_blob_geometry f g (gi_blob info) (gi_blob_len info) of
                         None \<Rightarrow> [] | Some (_, ss) \<Rightarrow> ss),
           cd_nodes = [], cd_cur_leaf = 0, cd_attempts = 0, cd_sig = 0, cd_sig_panes = 0, cd_shown = cached,
           cd_title = cf_title cf, cd_shell = cf_shell cf, cd_custom = cf_custom cf, cd_procs = cf_procs cf,
           cd_age = age, cd_meta = card_meta (cf_panes cf) (cf_active cf) age, cd_panes = cf_panes cf,
           cd_attached = cf_attached cf, cd_current = False, cd_has_menu = (cf_orphan cf = 0), cd_hidden = False\<rparr>,
          v\<lparr>ov_next_ref := ov_next_ref v + 1\<rparr>))"

section \<open>The daemon's sessions\<close>

text \<open>The group that holds a session, 0 for none.\<close>

definition group_id_of_session :: "EpiGroupInfo list \<Rightarrow> u64 \<Rightarrow> u64" where
  "group_id_of_session gs sid =
     (case find (\<lambda>g. sid \<in> set (gi_members g)) gs of Some g \<Rightarrow> gi_id g | None \<Rightarrow> 0)"

definition attached_map :: "EpiSessionInfo list \<Rightarrow> u32 \<rightharpoonup> bool" where
  "attached_map ss = fold (\<lambda>s m. m(low (si_id s) \<mapsto> si_attached s)) ss Map.empty"

definition pid_map :: "EpiSessionInfo list \<Rightarrow> u32 \<rightharpoonup> u32" where
  "pid_map ss = fold (\<lambda>s m. m(low (si_id s) \<mapsto> si_pid s)) ss Map.empty"

definition alive_set :: "EpiSessionInfo list \<Rightarrow> u32 set" where
  "alive_set ss = low ` si_id ` {s \<in> set ss. si_alive s}"

definition group_is_attached :: "EpiGroupInfo \<Rightarrow> (u32 \<rightharpoonup> bool) \<Rightarrow> bool" where
  "group_is_attached g m \<longleftrightarrow> list_ex (\<lambda>sid. m (low sid) = Some True) (gi_members g)"

definition join_comma :: "byte list \<Rightarrow> byte list \<Rightarrow> byte list" where
  "join_comma acc x = (if acc \<noteq> [] then acc @ lit '', '' @ x else x)"

text \<open>All foreground commands, and those that are no shell.\<close>

definition member_commands :: "overview_env \<Rightarrow> (u32 \<rightharpoonup> u32) \<Rightarrow> u64 list \<Rightarrow> byte list \<times> byte list" where
  "member_commands e pids ms =
     fold (\<lambda>sid (procs, active).
       let cmd = (case pids (low sid) of None \<Rightarrow> None | Some p \<Rightarrow> if p = 0 then None else oe_command e p)
       in (join_comma procs (case cmd of Some c \<Rightarrow> c | None \<Rightarrow> lit ''?''),
           if cmd \<noteq> None \<and> \<not> command_is_shell e cmd then join_comma active (the cmd) else active))
       ms ([], [])"

definition group_facts ::
  "('d, 'w) system \<Rightarrow> overview_env \<Rightarrow> 'd window \<Rightarrow> EpiSessionInfo list \<Rightarrow> EpiGroupInfo \<Rightarrow> card_facts" where
  "group_facts y e w ss g =
     (let attached = group_is_attached g (attached_map ss);
          (title, focused, cols0, rows0) =
            (case epimone_layout_blob_peek (sy_gv y) (gi_blob g) (gi_blob_len g) of Some t \<Rightarrow> t | None \<Rightarrow> (None, 0, 0, 0));
          custom0 = epimone_layout_blob_dup_custom_title (sy_gv y) (gi_blob g) (gi_blob_len g);
          (procs, active) = member_commands e (pid_map ss) (gi_members g);
          live = (if attached \<and> focused \<noteq> 0 then epimone_window_find_page_for_session w focused else None);
          (custom, cols, rows) =
            (case live of
               None \<Rightarrow> (custom0, cols0, rows0)
             | Some k \<Rightarrow> (pg_custom (wn_pages w ! k), epimone_page_get_focused_grid (sy_env y) (wn_pages w ! k)));
          shell = (case title of Some t \<Rightarrow> t | None \<Rightarrow> lit ''Terminal'')
      in \<lparr>cf_title = (case custom of Some c \<Rightarrow> c | None \<Rightarrow> shell), cf_shell = shell, cf_custom = custom,
          cf_attached = attached, cf_procs = (if procs \<noteq> [] then procs else lit ''no panes''),
          cf_active = (if active \<noteq> [] then Some active else None), cf_panes = length (gi_members g),
          cf_focused = focused, cf_cols = cols, cf_rows = rows, cf_orphan = 0\<rparr>)"

definition orphan_group :: "EpiGroupInfo list \<Rightarrow> EpiSessionInfo \<Rightarrow> EpiGroupInfo" where
  "orphan_group gs s = \<lparr>gi_id = group_id_of_session gs (si_id s), gi_created_at = si_created_at s, gi_blob = None,
     gi_blob_len = 0, gi_members = [si_id s]\<rparr>"

definition orphan_facts :: "overview_env \<Rightarrow> EpiSessionInfo \<Rightarrow> card_facts" where
  "orphan_facts e s =
     (let cmd = oe_command e (si_pid s); name = (case cmd of Some c \<Rightarrow> c | None \<Rightarrow> lit ''Terminal'') in
      \<lparr>cf_title = name, cf_shell = name, cf_custom = None, cf_attached = False,
       cf_procs = (case cmd of Some c \<Rightarrow> c | None \<Rightarrow> lit ''no panes''),
       cf_active = (if cmd \<noteq> None \<and> \<not> command_is_shell e cmd then cmd else None), cf_panes = 1,
       cf_focused = si_id s, cf_cols = 0, cf_rows = 0, cf_orphan = si_id s\<rparr>)"

section \<open>All cards\<close>

text \<open>One of the tabs of this window.\<close>

definition own_group :: "'d window \<Rightarrow> EpiGroupInfo \<Rightarrow> bool" where
  "own_group w g \<longleftrightarrow> low (gi_id g) \<in> low ` set (epimone_window_dup_attached_group_ids w)"

text \<open>Attached cards, detached cards, the sessions shown so far, and the overview.\<close>

type_synonym 'd cards = "'d card list \<times> 'd card list \<times> u32 set \<times> 'd overview"

definition shown_by :: "'d card \<Rightarrow> u32 set" where
  "shown_by c = low ` lf_session ` set (cd_leaves c)"

definition add_group_card ::
  "('d, 'w) system \<Rightarrow> overview_env \<Rightarrow> 'd window \<Rightarrow> u64 \<Rightarrow> EpiSessionInfo list \<Rightarrow> EpiGroupInfo \<Rightarrow> 'd cards \<Rightarrow> 'd cards" where
  "add_group_card y e w current ss g = (\<lambda>(mine, rest, shown, v).
     let attached = group_is_attached g (attached_map ss);
         own = own_group w g
     in if \<not> own \<and> attached then (mine, rest, shown \<union> low ` set (gi_members g), v)
        else case build_card (sy_fp y) (sy_gv y) e (alive_set ss) g (group_facts y e w ss g) v of (c, v1) \<Rightarrow>
             let c1 = c\<lparr>cd_current := (gi_id g = current)\<rparr> in
             if own then (mine @ [c1], rest, shown \<union> shown_by c1, v1)
             else (mine, rest @ [c1], shown \<union> shown_by c1, v1))"

definition add_orphan_card ::
  "('d, 'w) system \<Rightarrow> overview_env \<Rightarrow> EpiGroupInfo list \<Rightarrow> EpiSessionInfo list \<Rightarrow> EpiSessionInfo \<Rightarrow> 'd cards \<Rightarrow> 'd cards" where
  "add_orphan_card y e gs ss s = (\<lambda>(mine, rest, shown, v).
     if \<not> si_alive s \<or> low (si_id s) \<in> shown then (mine, rest, shown, v)
     else case build_card (sy_fp y) (sy_gv y) e (alive_set ss) (orphan_group gs s) (orphan_facts e s) v of (c, v1) \<Rightarrow>
          (mine, rest @ [c], insert (low (si_id s)) shown, v1))"

text \<open>The header: the attached cards, then the detached ones.\<close>

definition count_title :: "nat \<Rightarrow> nat \<Rightarrow> byte list" where
  "count_title n m =
     (let sessions = decimal n @ lit '' Session'' @ (if n = 1 then [] else lit ''s'') in
      if n + m = 0 then lit ''No Sessions''
      else if m = 0 then sessions
      else sessions @ middle_dot @ decimal m @ lit '' Detached'')"

text \<open>Textures of groups that are gone are dropped, with their signatures.\<close>

definition prune_cache :: "EpiGroupInfo list \<Rightarrow> 'd overview \<Rightarrow> 'd overview" where
  "prune_cache gs v =
     (let gone = (\<lambda>k. ov_cache v k \<noteq> None \<and> k \<notin> gi_id ` set gs)
      in v\<lparr>ov_cache := (\<lambda>k. if gone k then None else ov_cache v k),
           ov_sigs := (\<lambda>k. if gone k then None else ov_sigs v k)\<rparr>)"

text \<open>The reload with the answers of the daemon given; \<open>None\<close> when the groups cannot be listed.\<close>

definition reload_with ::
  "('d, 'w) system \<Rightarrow> 'd libm \<Rightarrow> overview_env \<Rightarrow> 'd window \<Rightarrow> u64 \<Rightarrow> EpiGroupInfo list option \<Rightarrow>
   EpiSessionInfo list option \<Rightarrow> 'd overview \<Rightarrow> 'd overview" where
  "reload_with y m e w current groups sessions v =
     (let v1 = flow_clear (overview_set_pending_anchor None (overview_set_anchor None
                 (render_abort (v\<lparr>ov_thumb_aspect := overview_render_aspect (sy_fp y) m e\<rparr>))))
      in case groups of
           None \<Rightarrow> v1\<lparr>ov_shows_cards := False\<rparr>
         | Some gs \<Rightarrow>
             let ss = (case sessions of Some ss \<Rightarrow> ss | None \<Rightarrow> []);
                 n_own = length (filter (own_group w) gs);
                 n_free = length (filter (\<lambda>g. \<not> own_group w g \<and> \<not> group_is_attached g (attached_map ss)) gs);
                 (width, height) = (if fst (oe_size e) \<le> 0 then oe_window_size e else oe_size e);
                 v2 = snd (overview_update_geometry (sy_fp y) m width height (v1\<lparr>ov_n_cards := n_own + n_free\<rparr>));
                 (mine, rest, shown, v3) =
                   fold (add_orphan_card y e gs ss) ss (fold (add_group_card y e w current ss) gs ([], [], {}, v2));
                 n_detached = length rest;
                 v4 = prune_cache gs (v3\<lparr>ov_flow := mine @ rest\<rparr>)
             in queue_visible_renders e
                  (v4\<lparr>ov_shows_cards := (0 < n_own + n_detached), ov_count := count_title n_own n_detached\<rparr>))"

definition overview_reload ::
  "('d, 'w) system \<Rightarrow> 'd libm \<Rightarrow> overview_env \<Rightarrow> nat \<Rightarrow> ('d, 'w) gui \<Rightarrow> 'd overview \<Rightarrow> 'd overview \<times> ('d, 'w) gui" where
  "overview_reload y m e r g v =
     (case window_of r g of
        None \<Rightarrow> (v, g)
      | Some w \<Rightarrow>
          (case api_list_groups (sy_api y) (ap_world (gu_app g)) of
             (None, x) \<Rightarrow> (reload_with y m e w 0 None None v, in_app (\<lambda>a. a\<lparr>ap_world := x\<rparr>) g)
           | (Some gs, x) \<Rightarrow>
               (case api_list_sessions (sy_api y) x of
                  (ss, x') \<Rightarrow> (reload_with y m e w (epimone_window_active_group r g) (Some gs) ss v,
                              in_app (\<lambda>a. a\<lparr>ap_world := x'\<rparr>) g))))"

section \<open>Search\<close>

fun contains :: "byte list \<Rightarrow> byte list \<Rightarrow> bool" where
  "contains needle [] = (needle = [])"
| "contains needle (b # bs) = (take (length needle) (b # bs) = needle \<or> contains needle bs)"

definition filter_card :: "overview_env \<Rightarrow> 'd card \<Rightarrow> bool" where
  "filter_card e c = (if oe_needle e = [] then True else contains (oe_strdown e (oe_needle e)) (cd_haystack c))"

end
