(* ===== verification/Overview_Shown.thy ===== *)
theory Overview_Shown
  imports Overview_Reload Overview_Drawn
begin

text \<open>Which sessions the cards of a reload show: each session alive on one card, or in another window.\<close>

text \<open>How many of the cards show a session, by the low half of its id.\<close>

definition showing :: "u32 \<Rightarrow> 'd card list \<Rightarrow> nat" where
  "showing x cs = length (filter (\<lambda>c. x \<in> shown_by c) cs)"

lemma showing_append [simp]: "showing x (cs @ ds) = showing x cs + showing x ds"
  by (simp add: showing_def)

lemma showing_single [simp]: "showing x [] = 0" "showing x [c] = (if x \<in> shown_by c then 1 else 0)"
  by (simp_all add: showing_def)

text \<open>A group whose card is in the overview of another window.\<close>

definition elsewhere :: "'d window \<Rightarrow> EpiSessionInfo list \<Rightarrow> EpiGroupInfo \<Rightarrow> bool" where
  "elsewhere w ss g \<longleftrightarrow> \<not> own_group w g \<and> group_is_attached g (attached_map ss)"

definition group_shows :: "('d, 'w) system \<Rightarrow> overview_env \<Rightarrow> 'd window \<Rightarrow> EpiSessionInfo list \<Rightarrow> EpiGroupInfo \<Rightarrow> u32 set" where
  "group_shows y e w ss g =
     low ` lf_session ` set (reconciled (sy_fp y) (sy_gv y) (alive_set ss) g (group_facts y e w ss g))"

lemma build_card_shows:
  "build_card f gv e alive g cf v = (c, v') \<Longrightarrow> shown_by c = low ` lf_session ` set (reconciled f gv alive g cf)"
proof -
  assume "build_card f gv e alive g cf v = (c, v')"
  then have "cd_leaves c = map (with_grid cf) (reconciled f gv alive g cf)" by (auto simp: build_card_def Let_def)
  moreover have "lf_session (with_grid cf l) = lf_session l" for l :: "'a leaf_rect" by (simp add: with_grid_def)
  ultimately show ?thesis by (simp add: shown_by_def image_image)
qed

lemma reconciled_alive: "low ` lf_session ` set (reconciled f gv alive g cf) \<subseteq> low ` set (gi_members g) \<inter> alive"
proof -
  have "low (fallback_session (group_alive alive g) (cf_focused cf) (gi_members g)) \<in> group_alive alive g"
    if "fallback_session (group_alive alive g) (cf_focused cf) (gi_members g) \<noteq> 0"
  proof (cases "cf_focused cf \<noteq> 0 \<and> low (cf_focused cf) \<in> group_alive alive g")
    case False
    have found: "find (\<lambda>sid. low sid \<in> group_alive alive g) (gi_members g) = Some sid \<Longrightarrow> low sid \<in> group_alive alive g" for sid
      by (auto simp: find_Some_iff)
    show ?thesis using that False found
      by (cases "find (\<lambda>sid. low sid \<in> group_alive alive g) (gi_members g)") (simp_all add: fallback_session_def)
  qed (simp add: fallback_session_def)
  then show ?thesis by (auto simp: reconciled_def Let_def group_alive_def split: option.splits if_splits)
qed

lemma groups_shown:
  assumes "fold (add_group_card y e w current ss) gs (mine, rest, shown, v) = (mine', rest', shown', v')"
  shows "showing x (mine' @ rest') =
           showing x (mine @ rest) + length (filter (\<lambda>g. \<not> elsewhere w ss g \<and> x \<in> group_shows y e w ss g) gs)"
    and "shown' = shown \<union> (\<Union>g \<in> set gs. if elsewhere w ss g then low ` set (gi_members g) else group_shows y e w ss g)"
proof -
  have "showing x (mine' @ rest') =
           showing x (mine @ rest) + length (filter (\<lambda>g. \<not> elsewhere w ss g \<and> x \<in> group_shows y e w ss g) gs) \<and>
        shown' = shown \<union> (\<Union>g \<in> set gs. if elsewhere w ss g then low ` set (gi_members g) else group_shows y e w ss g)"
    using assms
  proof (induction gs arbitrary: mine rest shown v)
    case (Cons g gs)
    obtain c v1 where c: "build_card (sy_fp y) (sy_gv y) e (alive_set ss) g (group_facts y e w ss g) v = (c, v1)" by fastforce
    let ?c = "c\<lparr>cd_current := (gi_id g = current)\<rparr>"
    have s: "shown_by ?c = group_shows y e w ss g" using build_card_shows[OF c] by (simp add: shown_by_def group_shows_def)
    obtain m1 r1 s1 v2 where step: "add_group_card y e w current ss g (mine, rest, shown, v) = (m1, r1, s1, v2)"
      by (metis prod_cases4)
    then have "showing x (m1 @ r1) = showing x (mine @ rest) + (if \<not> elsewhere w ss g \<and> x \<in> group_shows y e w ss g then 1 else 0)"
      "s1 = shown \<union> (if elsewhere w ss g then low ` set (gi_members g) else group_shows y e w ss g)"
      using c s by (auto simp: add_group_card_def Let_def elsewhere_def split: if_splits)
    then show ?case using Cons.IH[of m1 r1 s1 v2] Cons.prems step by auto
  qed simp
  then show "showing x (mine' @ rest') =
           showing x (mine @ rest) + length (filter (\<lambda>g. \<not> elsewhere w ss g \<and> x \<in> group_shows y e w ss g) gs)"
    and "shown' = shown \<union> (\<Union>g \<in> set gs. if elsewhere w ss g then low ` set (gi_members g) else group_shows y e w ss g)"
    by simp_all
qed

lemma orphan_shows:
  assumes "build_card (sy_fp y) (sy_gv y) e (alive_set ss) (orphan_group gs s) (orphan_facts e s) v = (c, v')"
    and "si_alive s" and "s \<in> set ss" and "si_id s \<noteq> 0"
  shows "shown_by c = {low (si_id s)}"
proof -
  have "low (si_id s) \<in> alive_set ss" using assms(2,3) by (auto simp: alive_set_def)
  then show ?thesis
    unfolding build_card_shows[OF assms(1)] using assms(4)
    by (simp add: reconciled_def orphan_group_def orphan_facts_def Let_def group_alive_def fallback_session_def
        epimone_layout_blob_geometry_def blob_parse_def)
qed

lemma orphans_shown:
  assumes "fold (add_orphan_card y e gs ss) ts (mine, rest, shown, v) = (mine', rest', shown', v')"
    and "set ts \<subseteq> set ss" and "\<forall>s \<in> set ts. si_alive s \<longrightarrow> si_id s \<noteq> 0"
  shows "showing x (mine' @ rest') = showing x (mine @ rest) + (if x \<notin> shown \<and> x \<in> alive_set ts then 1 else 0)"
  using assms
proof (induction ts arbitrary: mine rest shown v)
  case (Cons s ts)
  show ?case
  proof (cases "\<not> si_alive s \<or> low (si_id s) \<in> shown")
    case True
    then have "add_orphan_card y e gs ss s (mine, rest, shown, v) = (mine, rest, shown, v)" by (simp add: add_orphan_card_def)
    moreover have "x \<notin> shown \<and> x \<in> alive_set (s # ts) \<longleftrightarrow> x \<notin> shown \<and> x \<in> alive_set ts"
      using True by (auto simp: alive_set_def)
    ultimately show ?thesis using Cons.IH[of mine rest shown v] Cons.prems by simp
  next
    case False
    obtain c v1 where c: "build_card (sy_fp y) (sy_gv y) e (alive_set ss) (orphan_group gs s) (orphan_facts e s) v = (c, v1)"
      by fastforce
    have "add_orphan_card y e gs ss s (mine, rest, shown, v) = (mine, rest @ [c], insert (low (si_id s)) shown, v1)"
      using False c by (simp add: add_orphan_card_def)
    then show ?thesis
      using Cons.IH[of mine "rest @ [c]" "insert (low (si_id s)) shown" v1] Cons.prems False orphan_shows[OF c]
      by (auto simp: alive_set_def)
  qed
qed (simp add: alive_set_def)

section \<open>Choosing what to draw does not change what is shown\<close>

definition leaf_lists :: "'d overview \<Rightarrow> 'd leaf_rect list list" where
  "leaf_lists v = map cd_leaves (ov_flow v)"

lemma showing_leaves: "leaf_lists v = map cd_leaves cs \<Longrightarrow> showing x (ov_flow v) = showing x cs"
proof -
  have key: "showing x cs = length (filter (\<lambda>ls. x \<in> low ` lf_session ` set ls) (map cd_leaves cs))" for cs :: "'a card list"
    by (simp add: showing_def shown_by_def filter_map comp_def)
  show "leaf_lists v = map cd_leaves cs \<Longrightarrow> showing x (ov_flow v) = showing x cs"
    unfolding key by (simp only: leaf_lists_def)
qed

lemma leaf_lists_at [simp]: "(\<And>c. cd_leaves (h c) = cd_leaves c) \<Longrightarrow> leaf_lists (at_card r h v) = leaf_lists v"
  by (simp add: leaf_lists_def at_card_def)

lemma leaf_lists_updates [simp]:
  "leaf_lists (v\<lparr>ov_pending := ps\<rparr>) = leaf_lists v" "leaf_lists (v\<lparr>ov_rendering := b\<rparr>) = leaf_lists v"
  "leaf_lists (v\<lparr>ov_pump := p\<rparr>) = leaf_lists v" "leaf_lists (v\<lparr>ov_shows_cards := b\<rparr>) = leaf_lists v"
  "leaf_lists (v\<lparr>ov_count := t\<rparr>) = leaf_lists v"
  by (simp_all add: leaf_lists_def)

lemma queue_leaf_lists [simp]: "leaf_lists (queue_visible_renders e v) = leaf_lists v"
proof -
  have pump: "leaf_lists (render_pump v) = leaf_lists v" for v :: "'a overview"
    by (simp add: render_pump_def Let_def split: list.split)
  have "leaf_lists (fold (queue_card e) xs v) = leaf_lists v" for xs
    by (induction xs arbitrary: v) (auto simp: queue_card_def split: option.split)
  then show ?thesis by (simp add: queue_visible_renders_def Let_def pump)
qed

section \<open>A reload\<close>

lemma length_filter_mono: "(\<And>z. P z \<Longrightarrow> Q z) \<Longrightarrow> length (filter P zs) \<le> length (filter Q zs)"
  by (induction zs) (auto intro: le_SucI)

lemma length_le_1_unique: "length (filter P zs) \<le> 1 \<Longrightarrow> a \<in> set zs \<Longrightarrow> b \<in> set zs \<Longrightarrow> P a \<Longrightarrow> P b \<Longrightarrow> a = b"
  by (induction zs) (auto simp: filter_empty_conv split: if_splits)

lemma reload_cards:
  assumes "reload_with y m e w current (Some gs) (Some ss) v = v'"
  obtains mine rest shown v2 v3 where
    "fold (add_orphan_card y e gs ss) ss (fold (add_group_card y e w current ss) gs ([], [], {}, v2)) = (mine, rest, shown, v3)"
    and "leaf_lists v' = map cd_leaves (mine @ rest)"
  using assms unfolding reload_with_def Let_def
  by (auto split: prod.splits simp: prune_cache_def Let_def) (simp add: leaf_lists_def)

lemma each_live_session_once:
  assumes "distinct (map low (concat (map gi_members gs)))" and "\<forall>s \<in> set ss. si_alive s \<longrightarrow> si_id s \<noteq> 0"
  shows "showing x (ov_flow (reload_with y m e w current (Some gs) (Some ss) v)) =
    (if x \<in> alive_set ss \<and> \<not> (\<exists>g \<in> set gs. elsewhere w ss g \<and> x \<in> low ` set (gi_members g)) then 1 else 0)"
proof -
  define v' where "v' = reload_with y m e w current (Some gs) (Some ss) v"
  obtain mine rest shown v2 v3 where
    all: "fold (add_orphan_card y e gs ss) ss (fold (add_group_card y e w current ss) gs ([], [], {}, v2)) = (mine, rest, shown, v3)"
    and flow: "leaf_lists v' = map cd_leaves (mine @ rest)"
    using reload_cards[OF v'_def[symmetric]] by metis
  obtain m1 r1 s1 w1 where groups: "fold (add_group_card y e w current ss) gs ([], [], {}, v2) = (m1, r1, s1, w1)"
    by (metis prod_cases4)
  let ?here = "filter (\<lambda>g. \<not> elsewhere w ss g \<and> x \<in> group_shows y e w ss g) gs"
  have count: "showing x (mine @ rest) = length ?here + (if x \<notin> s1 \<and> x \<in> alive_set ss then 1 else 0)"
    using orphans_shown[of y e gs ss ss m1 r1 s1 w1 mine rest shown v3 x] groups_shown(1)[OF groups, of x] all groups assms(2)
    by simp
  have sub: "group_shows y e w ss g \<subseteq> low ` set (gi_members g) \<inter> alive_set ss" for g
    unfolding group_shows_def by (rule reconciled_alive)
  have one: "length (filter (\<lambda>g. x \<in> low ` set (gi_members g)) gs) \<le> 1"
    using assms(1)
  proof (induction gs)
    case (Cons g gs)
    then show ?case by (auto simp: filter_empty_conv intro: le_SucI)
  qed simp
  have s1: "x \<in> s1 \<longleftrightarrow> (\<exists>g \<in> set gs. if elsewhere w ss g then x \<in> low ` set (gi_members g) else x \<in> group_shows y e w ss g)"
    using groups_shown(2)[OF groups] by auto
  have "length ?here \<le> length (filter (\<lambda>g. x \<in> low ` set (gi_members g)) gs)"
    using sub by (intro length_filter_mono) blast
  then have le: "length ?here \<le> 1" using one by linarith
  have same: "g = h" if "g \<in> set gs" "h \<in> set gs" "x \<in> low ` set (gi_members g)" "x \<in> low ` set (gi_members h)" for g h
    using length_le_1_unique[OF one, of g h] that by simp
  show ?thesis
  proof (cases "x \<in> alive_set ss")
    case False
    then have "?here = []" using sub by (auto simp: filter_empty_conv)
    then have "showing x (mine @ rest) = 0" using count False by simp
    then show ?thesis using False showing_leaves[OF flow, of x] by (simp add: v'_def)
  next
    case alive: True
    show ?thesis
    proof (cases "\<exists>g \<in> set gs. elsewhere w ss g \<and> x \<in> low ` set (gi_members g)")
      case True
      then obtain g0 where g0: "g0 \<in> set gs" "elsewhere w ss g0" "x \<in> low ` set (gi_members g0)" by blast
      have "?here = []"
        unfolding filter_empty_conv
      proof (intro ballI notI)
        fix g assume g: "g \<in> set gs" and in_g: "\<not> elsewhere w ss g \<and> x \<in> group_shows y e w ss g"
        then have "x \<in> low ` set (gi_members g)" using sub by blast
        then have "g = g0" using same[OF g g0(1) _ g0(3)] by blast
        then show False using in_g g0(2) by blast
      qed
      moreover have "x \<in> s1" unfolding s1 using g0 by (intro bexI[of _ g0]) simp_all
      ultimately have "showing x (mine @ rest) = 0" using count by simp
      then show ?thesis using True showing_leaves[OF flow, of x] by (simp add: v'_def)
    next
      case here: False
      then have "x \<in> s1 \<longleftrightarrow> ?here \<noteq> []" unfolding s1 filter_empty_conv by auto
      moreover have "?here \<noteq> [] \<Longrightarrow> length ?here = 1" using le by (cases "?here") simp_all
      ultimately have "showing x (mine @ rest) = 1" using count alive by (cases "?here = []") simp_all
      then show ?thesis using here alive showing_leaves[OF flow, of x] by (simp add: v'_def)
    qed
  qed
qed

section \<open>Panes\<close>

text \<open>How many panes of the cards show a session; cards and saved pictures that show none twice.\<close>

definition panes_showing :: "u32 \<Rightarrow> 'd card list \<Rightarrow> nat" where
  "panes_showing x cs = length (filter (\<lambda>l. low (lf_session l) = x) (concat (map cd_leaves cs)))"

definition shows_once :: "'d leaf_rect list \<Rightarrow> bool" where
  "shows_once ls \<longleftrightarrow> distinct (map (\<lambda>l. low (lf_session l)) ls)"

definition picture_once :: "('d, 'w) system \<Rightarrow> EpiGroupInfo \<Rightarrow> bool" where
  "picture_once y g \<longleftrightarrow>
     (case epimone_layout_blob_geometry (sy_fp y) (sy_gv y) (gi_blob g) (gi_blob_len g) of
        None \<Rightarrow> True
      | Some (ls, _) \<Rightarrow> shows_once (filter (\<lambda>l. low (lf_session l) \<in> low ` set (gi_members g)) ls))"

lemma shows_once_filter: "shows_once ls \<Longrightarrow> shows_once (filter P ls)"
  by (simp add: shows_once_def distinct_map_filter)

lemma once_count: "shows_once ls \<Longrightarrow> length (filter (\<lambda>l. low (lf_session l) = x) ls) = (if x \<in> low ` lf_session ` set ls then 1 else 0)"
  by (induction ls) (auto simp: shows_once_def filter_empty_conv image_iff)

lemma panes_of_cards:
  "\<forall>c \<in> set cs. shows_once (cd_leaves c) \<Longrightarrow> panes_showing x cs = showing x cs"
  by (induction cs) (simp_all add: panes_showing_def showing_def once_count shown_by_def)

lemma grid_session: "lf_session (with_grid cf l) = lf_session l"
  by (simp add: with_grid_def)

lemma build_card_once:
  fixes y :: "('d, 'w) system"
  assumes "build_card (sy_fp y) (sy_gv y) e alive g cf v = (c, v')" and "picture_once y g"
  shows "shows_once (cd_leaves c)"
proof -
  have leaves: "cd_leaves c = map (with_grid cf) (reconciled (sy_fp y) (sy_gv y) alive g cf)"
    using assms(1) by (auto simp: build_card_def Let_def)
  have same: "shows_once (map (with_grid cf) ls) = shows_once ls" for ls :: "'d leaf_rect list"
    by (simp add: shows_once_def comp_def grid_session)
  have "shows_once (filter (\<lambda>l. low (lf_session l) \<in> group_alive alive g) ls)"
    if "epimone_layout_blob_geometry (sy_fp y) (sy_gv y) (gi_blob g) (gi_blob_len g) = Some (ls, ss)" for ls ss
  proof -
    have "shows_once (filter (\<lambda>l. low (lf_session l) \<in> low ` set (gi_members g)) ls)"
      using assms(2) that by (simp add: picture_once_def)
    from shows_once_filter[OF this, of "\<lambda>l. low (lf_session l) \<in> alive"] show ?thesis
      by (simp add: group_alive_def conj_commute)
  qed
  then show ?thesis unfolding leaves same
    by (auto simp: reconciled_def Let_def shows_once_def split: option.split)
qed

definition cards_once :: "'d cards \<Rightarrow> bool" where
  "cards_once = (\<lambda>(mine, rest, shown, v). \<forall>c \<in> set (mine @ rest). shows_once (cd_leaves c))"

lemma group_card_once:
  assumes "picture_once y g" and "cards_once t"
  shows "cards_once (add_group_card y e w current ss g t)"
proof -
  obtain mine rest shown v where t: "t = (mine, rest, shown, v)" by (cases t)
  obtain c v1 where c: "build_card (sy_fp y) (sy_gv y) e (alive_set ss) g (group_facts y e w ss g) v = (c, v1)" by fastforce
  show ?thesis using build_card_once[OF c assms(1)] assms(2) c
    by (auto simp: t add_group_card_def Let_def cards_once_def)
qed

lemma orphan_card_once: "cards_once t \<Longrightarrow> cards_once (add_orphan_card y e gs ss s t)"
proof -
  assume ok: "cards_once t"
  obtain mine rest shown v where t: "t = (mine, rest, shown, v)" by (cases t)
  obtain c v1 where c: "build_card (sy_fp y) (sy_gv y) e (alive_set ss) (orphan_group gs s) (orphan_facts e s) v = (c, v1)" by fastforce
  have "picture_once y (orphan_group gs s)"
    by (simp add: picture_once_def orphan_group_def epimone_layout_blob_geometry_def blob_parse_def)
  from build_card_once[OF c this] show ?thesis using ok c
    by (auto simp: t add_orphan_card_def cards_once_def)
qed

lemma each_live_session_in_one_pane:
  assumes "\<forall>g \<in> set gs. picture_once y g"
  shows "panes_showing x (ov_flow (reload_with y m e w current (Some gs) (Some ss) v)) =
    showing x (ov_flow (reload_with y m e w current (Some gs) (Some ss) v))"
proof -
  define v' where "v' = reload_with y m e w current (Some gs) (Some ss) v"
  obtain mine rest shown v2 v3 where
    all: "fold (add_orphan_card y e gs ss) ss (fold (add_group_card y e w current ss) gs ([], [], {}, v2)) = (mine, rest, shown, v3)"
    and flow: "leaf_lists v' = map cd_leaves (mine @ rest)"
    using reload_cards[OF v'_def[symmetric]] by metis
  have "cards_once (fold (add_group_card y e w current ss) hs t)" if "set hs \<subseteq> set gs" "cards_once t" for hs t
    using that assms by (induction hs arbitrary: t) (simp_all add: group_card_once)
  moreover have "cards_once (fold (add_orphan_card y e gs ss) ts t)" if "cards_once t" for ts t
    using that by (induction ts arbitrary: t) (simp_all add: orphan_card_once)
  ultimately have "cards_once (mine, rest, shown, v3)"
    unfolding all[symmetric] by (simp add: cards_once_def)
  then have "\<forall>ls \<in> set (leaf_lists v'). shows_once ls" unfolding flow by (auto simp: cards_once_def)
  then have "\<forall>c \<in> set (ov_flow v'). shows_once (cd_leaves c)" by (simp add: leaf_lists_def)
  then show ?thesis unfolding v'_def[symmetric] by (rule panes_of_cards)
qed

end
