(* ===== verification/Overview_Actions.thy ===== *)
theory Overview_Actions
  imports Overview_Reload
begin

text \<open>
  The overview, part four: the transition, and everything that a click, a key or a dialog does. The state
  is the windows, an overview for each, and what the user was asked. Ids that a dialog keeps go through a
  pointer made of an unsigned int.
\<close>

section \<open>State\<close>

datatype ov_ask =
    Ask_kill_group nat "byte list" u64
  | Ask_kill_session nat "byte list" u64
  | Ask_kill_detached nat nat
  | Ask_kill_window nat nat
  | Ask_kill_all nat nat
  | Ask_rename nat "byte list" "byte list option" u64

record ('d, 'w) desk =
  dk_gui :: "('d, 'w) gui"
  dk_overviews :: "nat \<Rightarrow> 'd overview"
  dk_asks :: "ov_ask list"

definition in_gui :: "(('d, 'w) gui \<Rightarrow> ('d, 'w) gui) \<Rightarrow> ('d, 'w) desk \<Rightarrow> ('d, 'w) desk" where
  "in_gui h d = d\<lparr>dk_gui := h (dk_gui d)\<rparr>"

definition in_overview :: "nat \<Rightarrow> ('d overview \<Rightarrow> 'd overview) \<Rightarrow> ('d, 'w) desk \<Rightarrow> ('d, 'w) desk" where
  "in_overview r h d = d\<lparr>dk_overviews := (dk_overviews d)(r := h (dk_overviews d r))\<rparr>"

definition ask :: "ov_ask \<Rightarrow> ('d, 'w) desk \<Rightarrow> ('d, 'w) desk" where
  "ask q d = d\<lparr>dk_asks := dk_asks d @ [q]\<rparr>"

definition desk_reload ::
  "('d, 'w) system \<Rightarrow> 'd libm \<Rightarrow> overview_env \<Rightarrow> nat \<Rightarrow> ('d, 'w) desk \<Rightarrow> ('d, 'w) desk" where
  "desk_reload y m e r d =
     (case overview_reload y m e r (dk_gui d) (dk_overviews d r) of
        (v, g) \<Rightarrow> in_overview r (\<lambda>_. v) (d\<lparr>dk_gui := g\<rparr>))"

section \<open>The transition\<close>

definition overview_update_targetable :: "'d overview \<Rightarrow> 'd overview" where
  "overview_update_targetable v =
     v\<lparr>ov_ui_target := ov_is_open v \<and> \<not> ov_animating v, ov_ui_focus := ov_is_open v,
       ov_child_target := \<not> ov_is_open v \<and> \<not> ov_animating v, ov_child_focus := \<not> ov_is_open v \<and> \<not> ov_animating v\<rparr>"

definition open_animation_value_cb :: "'d \<Rightarrow> 'd overview \<Rightarrow> 'd overview" where
  "open_animation_value_cb x v = v\<lparr>ov_progress := x\<rparr>"

text \<open>The flag says that the terminal gets the focus back.\<close>

definition open_animation_done_cb :: "'d overview \<Rightarrow> 'd overview \<times> bool" where
  "open_animation_done_cb v =
     (let v1 = overview_update_targetable (overview_set_anchor None (v\<lparr>ov_animating := False\<rparr>)) in (v1, \<not> ov_is_open v1))"

definition overview_animate_to ::
  "'d fp \<Rightarrow> overview_env \<Rightarrow> bool \<Rightarrow> nat option \<Rightarrow> 'd overview \<Rightarrow> 'd overview \<times> bool" where
  "overview_animate_to f e to_open anchor v =
     (let v1 = overview_update_targetable
                 ((overview_set_anchor anchor (v\<lparr>ov_is_open := to_open\<rparr>))\<lparr>ov_crossfade := \<not> oe_animations e, ov_animating := True\<rparr>)
      in if oe_animations e then (v1, False)
         else open_animation_done_cb (v1\<lparr>ov_progress := fp_of_int f (if to_open then 1 else 0)\<rparr>))"

text \<open>The live tab view becomes the texture of a group; the flag says whether it did.\<close>

definition overview_capture_live_group :: "overview_env \<Rightarrow> u64 \<Rightarrow> 'd overview \<Rightarrow> bool \<times> 'd overview" where
  "overview_capture_live_group e gid v =
     (if gid = 0 \<or> \<not> oe_live e then (False, v)
      else (True, v\<lparr>ov_cache := (ov_cache v)(gid \<mapsto> Live (ov_captures v)), ov_captures := ov_captures v + 1\<rparr>))"

definition focus_back :: "('d, 'w) system \<Rightarrow> nat \<Rightarrow> bool \<Rightarrow> ('d, 'w) desk \<Rightarrow> ('d, 'w) desk" where
  "focus_back y r b d = (if b then in_gui (focus_current y r) d else d)"

definition animation_done :: "('d, 'w) system \<Rightarrow> nat \<Rightarrow> ('d, 'w) desk \<Rightarrow> ('d, 'w) desk" where
  "animation_done y r d =
     (case open_animation_done_cb (dk_overviews d r) of (v, back_to) \<Rightarrow> focus_back y r back_to (in_overview r (\<lambda>_. v) d))"

definition epimone_overview_animate_open ::
  "('d, 'w) system \<Rightarrow> 'd libm \<Rightarrow> overview_env \<Rightarrow> nat \<Rightarrow> u64 \<Rightarrow> ('d, 'w) desk \<Rightarrow> ('d, 'w) desk" where
  "epimone_overview_animate_open y m e r active d =
     (let d1 = in_overview r (\<lambda>v. case overview_capture_live_group e active v of
                  (True, v1) \<Rightarrow> v1\<lparr>ov_fresh := active\<rparr> | (False, v1) \<Rightarrow> v1) d;
          d2 = in_overview r (\<lambda>v. overview_set_pending_anchor None (v\<lparr>ov_fresh := 0\<rparr>)) (desk_reload y m e r d1)
      in case overview_animate_to (sy_fp y) e True (overview_find_anchor_for_group active (dk_overviews d2 r)) (dk_overviews d2 r) of
           (v, back_to) \<Rightarrow> focus_back y r back_to (in_overview r (\<lambda>_. v) d2))"

definition epimone_overview_animate_close ::
  "('d, 'w) system \<Rightarrow> overview_env \<Rightarrow> nat \<Rightarrow> u64 \<Rightarrow> ('d, 'w) desk \<Rightarrow> ('d, 'w) desk" where
  "epimone_overview_animate_close y e r active d =
     (let v = dk_overviews d r;
          anchor = (case ov_pending_anchor v of Some a \<Rightarrow> Some a | None \<Rightarrow> overview_find_anchor_for_group active v);
          v1 = snd (overview_capture_live_group e active (overview_set_pending_anchor None v))
      in case overview_animate_to (sy_fp y) e False anchor v1 of
           (v2, back_to) \<Rightarrow> focus_back y r back_to (in_overview r (\<lambda>_. v2) d))"

definition overview_preload_cb ::
  "('d, 'w) system \<Rightarrow> 'd libm \<Rightarrow> overview_env \<Rightarrow> nat \<Rightarrow> ('d, 'w) desk \<Rightarrow> ('d, 'w) desk" where
  "overview_preload_cb y m e r d =
     (let d1 = in_overview r (\<lambda>v. v\<lparr>ov_preload_timeout := False\<rparr>) d; v = dk_overviews d1 r
      in if ov_is_open v \<or> ov_animating v then d1 else desk_reload y m e r d1)"

definition epimone_overview_map :: "'d overview \<Rightarrow> 'd overview" where
  "epimone_overview_map v = (if ov_preloaded v then v else v\<lparr>ov_preloaded := True, ov_preload_timeout := True\<rparr>)"

text \<open>Showing and hiding, in the window and in its overview.\<close>

definition show_overview ::
  "('d, 'w) system \<Rightarrow> 'd libm \<Rightarrow> overview_env \<Rightarrow> nat \<Rightarrow> ('d, 'w) desk \<Rightarrow> ('d, 'w) desk" where
  "show_overview y m e r d =
     epimone_overview_animate_open y m e r (epimone_window_active_group r (dk_gui d))
       (in_gui (epimone_window_show_overview r) d)"

definition overview_exit :: "('d, 'w) system \<Rightarrow> overview_env \<Rightarrow> nat \<Rightarrow> ('d, 'w) desk \<Rightarrow> ('d, 'w) desk" where
  "overview_exit y e r d =
     epimone_overview_animate_close y e r (epimone_window_active_group r (dk_gui d))
       (in_gui (epimone_window_hide_overview r) d)"

definition GDK_KEY_Escape :: u32 where "GDK_KEY_Escape = 0xff1b"

text \<open>The flag says that the key goes no further.\<close>

definition overview_key_cb ::
  "('d, 'w) system \<Rightarrow> overview_env \<Rightarrow> nat \<Rightarrow> u32 \<Rightarrow> ('d, 'w) desk \<Rightarrow> bool \<times> ('d, 'w) desk" where
  "overview_key_cb y e r keyval d = (if keyval = GDK_KEY_Escape then (True, overview_exit y e r d) else (False, d))"

section \<open>Cards\<close>

definition restore_from ::
  "('d, 'w) system \<Rightarrow> tab_view \<Rightarrow> surroundings \<Rightarrow> overview_env \<Rightarrow> nat \<Rightarrow> nat option \<Rightarrow> u64 \<Rightarrow> ('d, 'w) desk \<Rightarrow> ('d, 'w) desk" where
  "restore_from y tv su e r anchor gid d =
     overview_exit y e r (in_gui (activate y tv su r (Restore_group gid))
       (in_overview r (overview_set_pending_anchor anchor) d))"

definition card_flow_activated_cb ::
  "('d, 'w) system \<Rightarrow> tab_view \<Rightarrow> surroundings \<Rightarrow> overview_env \<Rightarrow> nat \<Rightarrow> nat \<Rightarrow> ('d, 'w) desk \<Rightarrow> ('d, 'w) desk" where
  "card_flow_activated_cb y tv su e r x d =
     (case card_of x (dk_overviews d r) of None \<Rightarrow> d | Some c \<Rightarrow> restore_from y tv su e r (Some x) (cd_group c) d)"

definition new_tab_cb ::
  "('d, 'w) system \<Rightarrow> tab_view \<Rightarrow> surroundings \<Rightarrow> overview_env \<Rightarrow> nat \<Rightarrow> ('d, 'w) desk \<Rightarrow> ('d, 'w) desk" where
  "new_tab_cb y tv su e r d = overview_exit y e r (in_gui (activate y tv su r New_tab) d)"

subsection \<open>Killing one card\<close>

definition overview_kill_session :: "('d, 'w) system \<Rightarrow> u64 \<Rightarrow> ('d, 'w) desk \<Rightarrow> ('d, 'w) desk" where
  "overview_kill_session y sid = in_gui (in_app (\<lambda>a. a\<lparr>ap_world := api_kill_session (sy_api y) sid (ap_world a)\<rparr>))"

definition kill_sessions :: "('d, 'w) system \<Rightarrow> u64 list \<Rightarrow> ('d, 'w) desk \<Rightarrow> ('d, 'w) desk" where
  "kill_sessions y sids d = fold (overview_kill_session y) sids d"

definition list_groups :: "('d, 'w) system \<Rightarrow> ('d, 'w) desk \<Rightarrow> EpiGroupInfo list option \<times> ('d, 'w) desk" where
  "list_groups y d =
     (case api_list_groups (sy_api y) (ap_world (gu_app (dk_gui d))) of
        (gs, x) \<Rightarrow> (gs, in_gui (in_app (\<lambda>a. a\<lparr>ap_world := x\<rparr>)) d))"

definition list_sessions :: "('d, 'w) system \<Rightarrow> ('d, 'w) desk \<Rightarrow> EpiSessionInfo list option \<times> ('d, 'w) desk" where
  "list_sessions y d =
     (case api_list_sessions (sy_api y) (ap_world (gu_app (dk_gui d))) of
        (ss, x) \<Rightarrow> (ss, in_gui (in_app (\<lambda>a. a\<lparr>ap_world := x\<rparr>)) d))"

text \<open>The sessions that a confirmed dialog about a group ends.\<close>

definition group_sessions :: "u64 \<Rightarrow> EpiGroupInfo list \<Rightarrow> u64 list" where
  "group_sessions gid gs = concat (map gi_members (filter (\<lambda>g. gi_id g = gid) gs))"

definition kill_confirmed_cb ::
  "('d, 'w) system \<Rightarrow> 'd libm \<Rightarrow> overview_env \<Rightarrow> nat \<Rightarrow> u64 \<Rightarrow> u64 \<Rightarrow> byte list \<Rightarrow> ('d, 'w) desk \<Rightarrow> ('d, 'w) desk" where
  "kill_confirmed_cb y m e r sid gid response d =
     (if response \<noteq> lit ''kill'' then d
      else if sid \<noteq> 0 then desk_reload y m e r (overview_kill_session y sid d)
      else if gid = 0 then d
      else case list_groups y d of
             (None, d1) \<Rightarrow> desk_reload y m e r d1
           | (Some gs, d1) \<Rightarrow> desk_reload y m e r (kill_sessions y (group_sessions gid gs) d1))"

definition or_words :: "byte list option \<Rightarrow> string \<Rightarrow> byte list" where
  "or_words t s = (case t of Some t \<Rightarrow> t | None \<Rightarrow> lit s)"

definition quoted_title :: "byte list option \<Rightarrow> byte list" where
  "quoted_title t = [0xe2, 0x80, 0x9c] @ or_words t ''This session'' @ [0xe2, 0x80, 0x9d]"

definition kill_body :: "byte list option \<Rightarrow> byte list option \<Rightarrow> byte list option \<Rightarrow> byte list \<Rightarrow> byte list \<Rightarrow> byte list" where
  "kill_body title procs age what verb =
     quoted_title title @ lit '' has been running for '' @ or_words age ''some time'' @ lit ''.'' @ [0x0a, 0x0a]
     @ lit ''Running now: '' @ or_words procs ''unknown'' @ [0x0a] @ what @ [0x0a, 0x0a] @ verb
     @ lit '' leaves the programs running. Killing stops them, and cannot be undone.''"

definition overview_confirm_kill ::
  "nat \<Rightarrow> u64 \<Rightarrow> byte list option \<Rightarrow> byte list option \<Rightarrow> byte list option \<Rightarrow> nat \<Rightarrow> ('d, 'w) desk \<Rightarrow> ('d, 'w) desk" where
  "overview_confirm_kill r gid title procs age panes d =
     (if gid = 0 then d
      else ask (Ask_kill_group r (kill_body title procs age
             (lit ''This ends '' @ decimal panes @ lit '' pane'' @ (if panes = 1 then [] else lit ''s'')
              @ lit '' and every process in them.'') (lit ''Detaching a tab'')) (kept_sid gid)) d)"

definition overview_confirm_kill_session ::
  "nat \<Rightarrow> u64 \<Rightarrow> byte list option \<Rightarrow> byte list option \<Rightarrow> byte list option \<Rightarrow> ('d, 'w) desk \<Rightarrow> ('d, 'w) desk" where
  "overview_confirm_kill_session r sid title procs age d =
     (if sid = 0 then d
      else ask (Ask_kill_session r (kill_body title procs age
             (lit ''This ends this one detached session and every process in it.'') (lit ''Detaching'')) (kept_sid sid)) d)"

definition card_kill_cb :: "nat \<Rightarrow> nat \<Rightarrow> ('d, 'w) desk \<Rightarrow> ('d, 'w) desk" where
  "card_kill_cb r x d =
     (case card_of x (dk_overviews d r) of
        None \<Rightarrow> d
      | Some c \<Rightarrow>
          if cd_kill_session c \<noteq> 0
          then overview_confirm_kill_session r (cd_kill_session c) (Some (cd_title c)) (Some (cd_procs c)) (Some (cd_age c)) d
          else overview_confirm_kill r (cd_group c) (Some (cd_title c)) (Some (cd_procs c)) (Some (cd_age c)) (cd_panes c) d)"

end
