(* ===== verification/Overview_Menus.thy ===== *)
theory Overview_Menus
  imports Overview_Actions
begin

text \<open>
  The overview, part five: the menu of the header, which kills the detached sessions, those of this window
  or all, and the menu of a card. Counts are kept as numbers: no list that fits into memory overflows them.
\<close>

section \<open>Counting\<close>

definition attached_sid_set :: "EpiSessionInfo list option \<Rightarrow> u32 set" where
  "attached_sid_set ss = (case ss of None \<Rightarrow> {} | Some ss \<Rightarrow> low ` si_id ` {s \<in> set ss. si_attached s})"

definition has_attached :: "u32 set \<Rightarrow> EpiGroupInfo \<Rightarrow> bool" where
  "has_attached att g \<longleftrightarrow> list_ex (\<lambda>sid. low sid \<in> att) (gi_members g)"

record tally =
  ta_det_sessions :: nat
  ta_det_groups :: nat
  ta_win_sessions :: nat
  ta_win_groups :: nat
  ta_all :: nat

definition window_groups :: "nat \<Rightarrow> ('d, 'w) gui \<Rightarrow> u32 set" where
  "window_groups r g = (case window_of r g of None \<Rightarrow> {} | Some w \<Rightarrow> low ` set (epimone_window_dup_attached_group_ids w))"

definition count_group :: "u32 set \<Rightarrow> u32 set \<Rightarrow> EpiGroupInfo \<Rightarrow> tally \<Rightarrow> tally" where
  "count_group att mine g t =
     (let n = length (gi_members g);
          t1 = (if \<not> has_attached att g
                then t\<lparr>ta_det_groups := ta_det_groups t + 1, ta_det_sessions := ta_det_sessions t + n\<rparr> else t)
      in if low (gi_id g) \<in> mine
         then t1\<lparr>ta_win_groups := ta_win_groups t1 + 1, ta_win_sessions := ta_win_sessions t1 + n\<rparr> else t1)"

definition tally_of :: "u32 set \<Rightarrow> EpiGroupInfo list option \<Rightarrow> EpiSessionInfo list option \<Rightarrow> tally" where
  "tally_of mine gs ss =
     fold (count_group (attached_sid_set ss) mine) (case gs of None \<Rightarrow> [] | Some gs \<Rightarrow> gs)
       \<lparr>ta_det_sessions = 0, ta_det_groups = 0, ta_win_sessions = 0, ta_win_groups = 0,
        ta_all = (case ss of None \<Rightarrow> 0 | Some ss \<Rightarrow> length ss)\<rparr>"

definition overview_tally :: "('d, 'w) system \<Rightarrow> nat \<Rightarrow> ('d, 'w) desk \<Rightarrow> tally \<times> ('d, 'w) desk" where
  "overview_tally y r d =
     (case list_groups y d of (gs, d1) \<Rightarrow>
      case list_sessions y d1 of (ss, d2) \<Rightarrow> (tally_of (window_groups r (dk_gui d2)) gs ss, d2))"

text \<open>Which of the header's actions are enabled when its menu opens.\<close>

definition overview_menu_update_state :: "('d, 'w) system \<Rightarrow> nat \<Rightarrow> ('d, 'w) desk \<Rightarrow> ('d, 'w) desk" where
  "overview_menu_update_state y r d =
     (case overview_tally y r d of
        (t, d1) \<Rightarrow> in_overview r (\<lambda>v. v\<lparr>ov_actions :=
          (if 0 < ta_det_sessions t then {lit ''kill-detached''} else {}) \<union>
          (if 0 < ta_win_sessions t then {lit ''kill-in-this-window''} else {}) \<union>
          (if 0 < ta_all t then {lit ''kill-all''} else {})\<rparr>) d1)"

section \<open>The sessions that go\<close>

definition doomed_detached :: "EpiGroupInfo list option \<Rightarrow> EpiSessionInfo list option \<Rightarrow> u64 list" where
  "doomed_detached gs ss =
     (case gs of None \<Rightarrow> []
      | Some gs \<Rightarrow> concat (map gi_members (filter (\<lambda>g. \<not> has_attached (attached_sid_set ss) g) gs)))"

definition doomed_window :: "u32 set \<Rightarrow> EpiGroupInfo list option \<Rightarrow> u64 list" where
  "doomed_window mine gs =
     (case gs of None \<Rightarrow> [] | Some gs \<Rightarrow> concat (map gi_members (filter (\<lambda>g. low (gi_id g) \<in> mine) gs)))"

definition doomed_all :: "EpiSessionInfo list option \<Rightarrow> u64 list" where
  "doomed_all ss = (case ss of None \<Rightarrow> [] | Some ss \<Rightarrow> map si_id ss)"

definition overview_kill_detached_execute ::
  "('d, 'w) system \<Rightarrow> 'd libm \<Rightarrow> overview_env \<Rightarrow> nat \<Rightarrow> ('d, 'w) desk \<Rightarrow> ('d, 'w) desk" where
  "overview_kill_detached_execute y m e r d =
     (case list_groups y d of (gs, d1) \<Rightarrow>
      case list_sessions y d1 of (ss, d2) \<Rightarrow> desk_reload y m e r (kill_sessions y (doomed_detached gs ss) d2))"

text \<open>The ids first, then the tab that replaces the others, then the kills.\<close>

definition overview_kill_window_execute ::
  "('d, 'w) system \<Rightarrow> tab_view \<Rightarrow> surroundings \<Rightarrow> overview_env \<Rightarrow> nat \<Rightarrow> ('d, 'w) desk \<Rightarrow> ('d, 'w) desk" where
  "overview_kill_window_execute y tv su e r d =
     (case list_groups y d of (gs, d1) \<Rightarrow>
        let doomed = doomed_window (window_groups r (dk_gui d)) gs
        in overview_exit y e r (kill_sessions y doomed (in_gui (epimone_window_add_tab y tv (su_session su) r) d1)))"

definition overview_kill_all_execute ::
  "('d, 'w) system \<Rightarrow> tab_view \<Rightarrow> surroundings \<Rightarrow> overview_env \<Rightarrow> nat \<Rightarrow> ('d, 'w) desk \<Rightarrow> ('d, 'w) desk" where
  "overview_kill_all_execute y tv su e r d =
     (case list_sessions y d of (ss, d1) \<Rightarrow>
        overview_exit y e r (kill_sessions y (doomed_all ss) (in_gui (epimone_window_add_tab y tv (su_session su) r) d1)))"

section \<open>The dialogs\<close>

definition overview_kill_detached_cb :: "('d, 'w) system \<Rightarrow> nat \<Rightarrow> ('d, 'w) desk \<Rightarrow> ('d, 'w) desk" where
  "overview_kill_detached_cb y r d =
     (case overview_tally y r d of
        (t, d1) \<Rightarrow> if ta_det_sessions t = 0 then d1 else ask (Ask_kill_detached r (ta_det_sessions t)) d1)"

definition kill_detached_confirmed_cb ::
  "('d, 'w) system \<Rightarrow> 'd libm \<Rightarrow> overview_env \<Rightarrow> nat \<Rightarrow> byte list \<Rightarrow> ('d, 'w) desk \<Rightarrow> ('d, 'w) desk" where
  "kill_detached_confirmed_cb y m e r response d =
     (if response = lit ''kill'' then overview_kill_detached_execute y m e r d else d)"

definition overview_kill_window_cb :: "('d, 'w) system \<Rightarrow> nat \<Rightarrow> ('d, 'w) desk \<Rightarrow> ('d, 'w) desk" where
  "overview_kill_window_cb y r d =
     (case overview_tally y r d of
        (t, d1) \<Rightarrow> if ta_win_sessions t = 0 then d1 else ask (Ask_kill_window r (ta_win_sessions t)) d1)"

definition kill_window_confirmed_cb ::
  "('d, 'w) system \<Rightarrow> tab_view \<Rightarrow> surroundings \<Rightarrow> overview_env \<Rightarrow> nat \<Rightarrow> byte list \<Rightarrow> ('d, 'w) desk \<Rightarrow> ('d, 'w) desk" where
  "kill_window_confirmed_cb y tv su e r response d =
     (if response = lit ''kill'' then overview_kill_window_execute y tv su e r d else d)"

definition overview_kill_all_cb :: "('d, 'w) system \<Rightarrow> nat \<Rightarrow> ('d, 'w) desk \<Rightarrow> ('d, 'w) desk" where
  "overview_kill_all_cb y r d =
     (case overview_tally y r d of
        (t, d1) \<Rightarrow> if ta_all t = 0 then d1 else ask (Ask_kill_all r (ta_all t)) d1)"

definition kill_all_confirmed_cb ::
  "('d, 'w) system \<Rightarrow> tab_view \<Rightarrow> surroundings \<Rightarrow> overview_env \<Rightarrow> nat \<Rightarrow> byte list \<Rightarrow> ('d, 'w) desk \<Rightarrow> ('d, 'w) desk" where
  "kill_all_confirmed_cb y tv su e r response d =
     (if response \<noteq> lit ''kill'' then d else overview_kill_all_execute y tv su e r d)"

section \<open>The menu of a card\<close>

text \<open>The items that depend on whether the card's group is attached; the others are always enabled.\<close>

definition menu_items :: "(byte list \<times> bool) list" where
  "menu_items = [(lit ''attach-new-window'', False), (lit ''move-new-window'', True), (lit ''close-tab'', True)]"

definition overview_menu_set_state :: "bool \<Rightarrow> 'd overview \<Rightarrow> 'd overview" where
  "overview_menu_set_state attached v =
     fold (\<lambda>(name, when_attached) v. v\<lparr>ov_card_actions :=
             (if when_attached = attached then insert name (ov_card_actions v) else ov_card_actions v - {name})\<rparr>)
       menu_items v"

definition card_menu_popup_for_box :: "nat \<Rightarrow> 'd overview \<Rightarrow> 'd overview" where
  "card_menu_popup_for_box x v =
     (case card_of x v of
        None \<Rightarrow> v
      | Some c \<Rightarrow> overview_menu_set_state (cd_attached c)
          (v\<lparr>ov_menu := \<lparr>cm_group = cd_group c, cm_panes = cd_panes c, cm_attached = cd_attached c,
              cm_session = (case cd_leaves c of [] \<Rightarrow> 0 | l # _ \<Rightarrow> lf_session l), cm_title = Some (cd_title c),
              cm_shell = Some (cd_shell c), cm_custom = cd_custom c, cm_procs = Some (cd_procs c), cm_age = Some (cd_age c)\<rparr>\<rparr>))"

text \<open>The secondary button on a card; cards of single sessions have no menu.\<close>

definition card_right_click_cb :: "nat \<Rightarrow> 'd overview \<Rightarrow> 'd overview" where
  "card_right_click_cb x v =
     (case card_of x v of None \<Rightarrow> v | Some c \<Rightarrow> if cd_has_menu c then card_menu_popup_for_box x v else v)"

definition card_action_activate_cb ::
  "('d, 'w) system \<Rightarrow> tab_view \<Rightarrow> surroundings \<Rightarrow> overview_env \<Rightarrow> nat \<Rightarrow> ('d, 'w) desk \<Rightarrow> ('d, 'w) desk" where
  "card_action_activate_cb y tv su e r d =
     (let v = dk_overviews d r; gid = cm_group (ov_menu v) in
      if gid = 0 then d else restore_from y tv su e r (overview_find_anchor_for_group gid v) gid d)"

definition card_action_rename_cb :: "nat \<Rightarrow> ('d, 'w) desk \<Rightarrow> ('d, 'w) desk" where
  "card_action_rename_cb r d =
     (let cm = ov_menu (dk_overviews d r) in
      if cm_group cm = 0 then d
      else ask (Ask_rename r (case cm_custom cm of Some c \<Rightarrow> c | None \<Rightarrow> [])
                  (case cm_shell cm of Some s \<Rightarrow> if s \<noteq> [] then Some s else None | None \<Rightarrow> None) (kept_sid (cm_group cm))) d)"

definition rename_response_cb ::
  "('d, 'w) system \<Rightarrow> 'd libm \<Rightarrow> overview_env \<Rightarrow> nat \<Rightarrow> u64 \<Rightarrow> byte list \<Rightarrow> byte list \<Rightarrow> ('d, 'w) desk \<Rightarrow> ('d, 'w) desk" where
  "rename_response_cb y m e r gid response entry d =
     (if response \<noteq> lit ''rename'' \<or> gid = 0 then d
      else
        let name = oe_strip e entry in
        case epimone_layout_rename_group y gid (if name \<noteq> [] then Some name else None) (gu_app (dk_gui d)) of
          (_, a) \<Rightarrow> desk_reload y m e r (in_gui (\<lambda>g. g\<lparr>gu_app := a\<rparr>) d))"

text \<open>The tab of the card's group in this window.\<close>

definition card_menu_live_page :: "nat \<Rightarrow> ('d, 'w) desk \<Rightarrow> nat option" where
  "card_menu_live_page r d =
     (let sid = cm_session (ov_menu (dk_overviews d r)) in
      if sid = 0 then None
      else case window_of r (dk_gui d) of
             None \<Rightarrow> None
           | Some w \<Rightarrow> map_option (\<lambda>k. tb_ref (tabs_of r (dk_gui d) ! k)) (epimone_window_find_page_for_session w sid))"

definition card_action_attach_new_window_cb ::
  "('d, 'w) system \<Rightarrow> overview_env \<Rightarrow> nat \<Rightarrow> ('d, 'w) desk \<Rightarrow> ('d, 'w) desk" where
  "card_action_attach_new_window_cb y e r d =
     (let v = dk_overviews d r; gid = cm_group (ov_menu v) in
      if gid = 0 then d
      else
        case new_window (dk_gui d) of (r', g1) \<Rightarrow>
          (case window_index r' g1 of
             None \<Rightarrow> d
           | Some wi \<Rightarrow>
               (case epimone_layout_restore_group y wi gid (gu_app g1) of
                  (Inl _, a) \<Rightarrow> in_gui (\<lambda>_. destroy_window r' (g1\<lparr>gu_app := a\<rparr>)) d
                | (Inr _, a) \<Rightarrow>
                    let g2 = fold wire_restored (map wn_ref (ap_windows a)) (g1\<lparr>gu_app := a\<rparr>);
                        d1 = in_overview r (overview_set_pending_anchor (overview_find_anchor_for_group gid v))
                               (in_gui (\<lambda>_. gui_log (Present r') g2) d)
                    in overview_exit y e r d1)))"

definition card_action_move_new_window_cb ::
  "('d, 'w) system \<Rightarrow> tab_view \<Rightarrow> overview_env \<Rightarrow> nat \<Rightarrow> ('d, 'w) desk \<Rightarrow> ('d, 'w) desk" where
  "card_action_move_new_window_cb y tv e r d =
     (case card_menu_live_page r d of
        None \<Rightarrow> d
      | Some t \<Rightarrow> overview_exit y e r (in_gui (epimone_window_move_page_to_new_window y tv t) d))"

definition card_action_close_tab_cb ::
  "('d, 'w) system \<Rightarrow> tab_view \<Rightarrow> 'd libm \<Rightarrow> overview_env \<Rightarrow> nat \<Rightarrow> ('d, 'w) desk \<Rightarrow> ('d, 'w) desk" where
  "card_action_close_tab_cb y tv m e r d =
     (case card_menu_live_page r d of
        None \<Rightarrow> d
      | Some t \<Rightarrow> desk_reload y m e r (in_gui (epimone_window_close_page y tv t) d))"

definition card_action_kill_cb :: "nat \<Rightarrow> ('d, 'w) desk \<Rightarrow> ('d, 'w) desk" where
  "card_action_kill_cb r d =
     (let cm = ov_menu (dk_overviews d r)
      in overview_confirm_kill r (cm_group cm) (cm_title cm) (cm_procs cm) (cm_age cm) (cm_panes cm) d)"

section \<open>Construction\<close>

text \<open>A new overview; the window and the tab view are given to it later.\<close>

definition epimone_overview_init :: "'d libm \<Rightarrow> 'd fp \<Rightarrow> 'd overview" where
  "epimone_overview_init m f = overview_update_targetable
     \<lparr>ov_flow = [], ov_next_ref = 0, ov_pending = [], ov_rendering = False, ov_pump = None, ov_feed = False,
      ov_backstop = False, ov_quiet = False, ov_fed = False, ov_fed_len = 0, ov_pane_sig = 0, ov_last_cols = 0,
      ov_last_rows = 0, ov_term = ([], 80, 24), ov_cache = Map.empty, ov_sigs = Map.empty, ov_fresh = 0, ov_captures = 0,
      ov_is_open = False, ov_animating = False, ov_crossfade = False, ov_progress = fp_of_int f 0, ov_anchor = None,
      ov_pending_anchor = None, ov_ui_target = False, ov_ui_focus = False, ov_child_target = False, ov_child_focus = False,
      ov_thumb_w = 260, ov_thumb_h = 146, ov_thumb_aspect = fp_div f (lm_lit m 146 1) (lm_lit m 260 1),
      ov_columns = OVERVIEW_MAX_COLUMNS, ov_n_cards = 0, ov_resize_idle = False, ov_shows_cards = True,
      ov_count = lit ''Sessions'', ov_preloaded = False, ov_preload_timeout = False,
      ov_menu = \<lparr>cm_group = 0, cm_panes = 0, cm_attached = False, cm_session = 0, cm_title = None, cm_shell = None,
                 cm_custom = None, cm_procs = None, cm_age = None\<rparr>,
      ov_card_actions = lit ` {''activate'', ''rename'', ''kill'', ''attach-new-window'', ''move-new-window'', ''close-tab''},
      ov_actions = lit ` {''kill-detached'', ''kill-in-this-window'', ''kill-all''}\<rparr>"

end
