(* ===== verification/Overview_Steps.thy ===== *)
theory Overview_Steps
  imports Overview_Menus Overview_Shown Machines
begin

text \<open>
  An overview as a state machine: everything that may happen to it, and what holds in every state that it
  can reach. Timers, terminal, daemon, pointer and keyboard interleave as they like.
\<close>

section \<open>Steps\<close>

inductive ov_step :: "('d, 'w) system \<Rightarrow> 'd libm \<Rightarrow> 'd overview \<Rightarrow> 'd overview \<Rightarrow> bool" for y m where
  timer: "ov_step y m v (fire e v)"
| quiet: "ov_quiet v \<Longrightarrow> ov_step y m v (render_finish_quiet e v)"
| contents: "ov_step y m v (thumb_contents_changed_cb v)"
| scroll: "ov_step y m v (scrolled_cb e v)"
| appearance: "ov_step y m v (overview_appearance_changed_cb (sy_fp y) m e v)"
| reload: "ov_step y m v (reload_with y m e w current groups sessions v)"
| capture: "ov_step y m v (snd (overview_capture_live_group e gid v))"
| fresh: "ov_step y m v (v\<lparr>ov_fresh := gid\<rparr>)"
| anchor: "ov_step y m v (overview_set_pending_anchor a v)"
| animate: "ov_step y m v (fst (overview_animate_to (sy_fp y) e b a v))"
| drawn_at: "ov_step y m v (open_animation_value_cb x v)"
| ended: "ov_step y m v (fst (open_animation_done_cb v))"
| allocate: "ov_step y m v (epimone_overview_size_allocate (sy_fp y) m width height v)"
| resized: "ov_step y m v (v\<lparr>ov_resize_idle := False\<rparr>)"
| menu: "ov_step y m v (card_right_click_cb x v)"
| mapped: "ov_step y m v (epimone_overview_map v)"
| preload: "ov_step y m v (v\<lparr>ov_preload_timeout := False\<rparr>)"
| actions: "ov_step y m v (v\<lparr>ov_actions := names\<rparr>)"

section \<open>The invariant\<close>

definition grid_ok :: "'d overview \<Rightarrow> bool" where
  "grid_ok v \<longleftrightarrow> (0 < ov_last_cols v \<and> 0 < ov_last_rows v \<longrightarrow> snd (ov_term v) = (ov_last_cols v, ov_last_rows v))"

definition all_sized :: "'d overview \<Rightarrow> bool" where
  "all_sized v \<longleftrightarrow> (\<forall>ls \<in> set (leaf_lists v). \<forall>l \<in> set ls. 0 < lf_cols l \<and> 0 < lf_rows l)"

lemma all_sizedD: "all_sized v \<Longrightarrow> card_of r v = Some c \<Longrightarrow> sized c"
  by (auto simp: all_sized_def leaf_lists_def sized_def card_of_def find_Some_iff)

definition ov_inv :: "'d overview \<Rightarrow> bool" where
  "ov_inv v \<longleftrightarrow> pipe_ok v \<and> all_sized v \<and> grid_ok v"

text \<open>Steps that leave the pipeline alone.\<close>

definition pipe_view :: "'d card \<Rightarrow> nat \<times> 'd leaf_rect list \<times> nat" where
  "pipe_view c = (cd_ref c, cd_leaves c, cd_cur_leaf c)"

definition same_pipe :: "'d overview \<Rightarrow> 'd overview \<Rightarrow> bool" where
  "same_pipe v w \<longleftrightarrow>
     map pipe_view (ov_flow w) = map pipe_view (ov_flow v) \<and> ov_pending w = ov_pending v \<and> ov_rendering w = ov_rendering v \<and>
     timers w = timers v \<and> ov_fed w = ov_fed v \<and> ov_quiet w = ov_quiet v \<and> ov_last_cols w = ov_last_cols v \<and>
     ov_last_rows w = ov_last_rows v \<and> ov_term w = ov_term v"

lemma same_pipe_refl [simp]: "same_pipe v v" by (simp add: same_pipe_def)

lemma same_pipe_trans: "same_pipe u v \<Longrightarrow> same_pipe v w \<Longrightarrow> same_pipe u w" by (simp add: same_pipe_def)

lemma find_pipe_view:
  "map_option pipe_view (find (\<lambda>c. cd_ref c = r) cs) = find (\<lambda>p. fst p = r) (map pipe_view cs)"
  by (induction cs) (auto simp: pipe_view_def)

lemma same_pipe_card: "same_pipe v w \<Longrightarrow> map_option pipe_view (card_of r w) = map_option pipe_view (card_of r v)"
  by (simp add: card_of_def same_pipe_def find_pipe_view)

lemma same_pipe_refs: "same_pipe v w \<Longrightarrow> refs w = refs v"
proof -
  assume "same_pipe v w"
  then have "map fst (map pipe_view (ov_flow w)) = map fst (map pipe_view (ov_flow v))" by (simp add: same_pipe_def)
  then show ?thesis by (simp add: refs_def pipe_view_def comp_def)
qed

lemma same_pipe_cardD:
  assumes "same_pipe v w" and "card_of r v = Some c"
  obtains d where "card_of r w = Some d" and "cd_leaves d = cd_leaves c" and "cd_cur_leaf d = cd_cur_leaf c"
  using same_pipe_card[OF assms(1), of r] assms(2) by (auto simp: pipe_view_def)

lemma same_pipe_inv:
  assumes same: "same_pipe v w" and inv: "ov_inv v"
  shows "ov_inv w"
proof -
  have pending: "ov_pending w = ov_pending v" using same by (simp add: same_pipe_def)
  have ok: "pending_ok v" using inv by (simp add: ov_inv_def pipe_ok_def)
  have "pending_ok w"
  proof (rule pending_ok_mono[OF ok same_pipe_refs[OF same]])
    show "\<exists>d. card_of r w = Some d \<and> cd_leaves d = cd_leaves c" if "card_of r v = Some c" for r c
      using same_pipe_cardD[OF same that] by metis
  qed (use ok pending in \<open>simp_all add: pending_ok_def\<close>)
  moreover have "idle w \<or> busy w"
  proof -
    have "idle v \<or> busy v" using inv by (simp add: ov_inv_def pipe_ok_def)
    moreover have "busy v \<Longrightarrow> busy w"
    proof -
      assume b: "busy v"
      obtain c rs where c: "cd_cur_leaf c < length (cd_leaves c)" "ov_pending v = cd_ref c # rs" "card_of (cd_ref c) v = Some c"
        by (rule busy_head[OF b])
      obtain d where "card_of (cd_ref c) w = Some d" "cd_leaves d = cd_leaves c" "cd_cur_leaf d = cd_cur_leaf c"
        by (rule same_pipe_cardD[OF same c(3)])
      then have "\<exists>d. head_card w = Some d \<and> cd_cur_leaf d < length (cd_leaves d)"
        using c(1,2) pending by (simp add: head_card_def)
      moreover have "ov_backstop w = ov_backstop v" using same by (simp add: same_pipe_def timers_def)
      ultimately show ?thesis using b same by (simp add: busy_def same_pipe_def)
    qed
    ultimately show ?thesis using same by (auto simp: idle_def same_pipe_def)
  qed
  moreover have "leaf_lists w = leaf_lists v"
  proof -
    have "map (fst \<circ> snd) (map pipe_view (ov_flow w)) = map (fst \<circ> snd) (map pipe_view (ov_flow v))"
      using same by (simp add: same_pipe_def)
    then show ?thesis by (simp add: leaf_lists_def pipe_view_def comp_def)
  qed
  then have "all_sized w" using inv by (simp add: ov_inv_def all_sized_def)
  moreover have "grid_ok w" using same inv by (simp add: ov_inv_def grid_ok_def same_pipe_def)
  ultimately show ?thesis by (simp add: ov_inv_def pipe_ok_def)
qed

section \<open>Timers\<close>

lemma leaf_lists_more [simp]:
  "leaf_lists (v\<lparr>ov_feed := b\<rparr>) = leaf_lists v" "leaf_lists (v\<lparr>ov_backstop := b\<rparr>) = leaf_lists v"
  "leaf_lists (v\<lparr>ov_quiet := b\<rparr>) = leaf_lists v" "leaf_lists (v\<lparr>ov_fed := b\<rparr>) = leaf_lists v"
  "leaf_lists (v\<lparr>ov_term := t\<rparr>) = leaf_lists v" "leaf_lists (v\<lparr>ov_last_cols := g\<rparr>) = leaf_lists v"
  "leaf_lists (v\<lparr>ov_last_rows := g\<rparr>) = leaf_lists v" "leaf_lists (v\<lparr>ov_fed_len := n\<rparr>) = leaf_lists v"
  "leaf_lists (v\<lparr>ov_pane_sig := g'\<rparr>) = leaf_lists v" "leaf_lists (v\<lparr>ov_cache := c\<rparr>) = leaf_lists v"
  "leaf_lists (v\<lparr>ov_sigs := s\<rparr>) = leaf_lists v"
  by (simp_all add: leaf_lists_def)

lemma pump_leaf_lists [simp]: "leaf_lists (render_pump v) = leaf_lists v"
  by (simp add: render_pump_def Let_def split: list.split)

lemma feed_leaf_lists [simp]: "leaf_lists (render_feed e v) = leaf_lists v"
  by (simp add: render_feed_def Let_def split: option.split)

lemma start_leaf_lists [simp]: "leaf_lists (render_start e v) = leaf_lists v"
  by (simp add: render_start_def Let_def split: option.split)

lemma finish_leaf_lists [simp]: "leaf_lists (render_finish e v) = leaf_lists v"
  by (simp add: render_finish_def render_compose_def store_sig_def settle_cancel_def Let_def split: option.split)

lemma grid_finish [simp]: "grid_ok (render_finish e v) = grid_ok v"
  by (simp add: grid_ok_def render_finish_def render_compose_def store_sig_def Let_def split: option.split)

lemma grid_feed [simp]: "grid_ok (render_feed e v) = grid_ok v"
  by (simp add: grid_ok_def render_feed_def Let_def split: option.split)

lemma grid_start: "grid_ok v \<Longrightarrow> grid_ok (render_start e v)"
proof -
  assume "grid_ok v"
  then have "grid_ok (v\<lparr>ov_pump := None, ov_term := ([], snd (ov_term v)), ov_fed := False\<rparr>)" "grid_ok (v\<lparr>ov_pump := None\<rparr>)"
    by (simp_all add: grid_ok_def)
  then show ?thesis by (simp add: render_start_def Let_def split: option.split) (simp add: grid_ok_def)
qed

lemma fire_inv: "ov_inv v \<Longrightarrow> ov_inv (fire e v)"
  using fire_ok[of v e] grid_start[of v e] by (auto simp: ov_inv_def all_sized_def fire_def)

lemma quiet_inv: "ov_inv v \<Longrightarrow> ov_quiet v \<Longrightarrow> ov_inv (render_finish_quiet e v)"
  using quiet_ok[of v e] by (auto simp: ov_inv_def all_sized_def render_finish_quiet_def Let_def grid_ok_def[of "v\<lparr>ov_quiet := b\<rparr>" for b] grid_ok_def[of v])

lemma contents_inv: "ov_inv v \<Longrightarrow> ov_inv (thumb_contents_changed_cb v)"
  using changed_ok[of v] by (auto simp: ov_inv_def all_sized_def grid_ok_def thumb_contents_changed_cb_def)

lemma grid_queue: "grid_ok (queue_visible_renders e v) = grid_ok v"
  by (simp add: grid_ok_def queue_visible_renders_def Let_def)

lemma scroll_inv: "ov_inv v \<Longrightarrow> ov_inv (scrolled_cb e v)"
  using queue_ok[of v e] by (simp add: ov_inv_def all_sized_def scrolled_cb_def grid_queue)

section \<open>Drawing everything anew\<close>

lemma appearance_inv: "ov_inv v \<Longrightarrow> ov_inv (overview_appearance_changed_cb f m e v)"
proof -
  assume inv: "ov_inv v"
  define v1 where "v1 = (render_abort (v\<lparr>ov_thumb_aspect := overview_render_aspect f m e\<rparr>))\<lparr>ov_cache := Map.empty, ov_sigs := Map.empty\<rparr>"
  define v2 where "v2 = v1\<lparr>ov_flow := map (\<lambda>c. if cd_leaves c = [] then c
                                   else card_nodes_clear (c\<lparr>cd_rendered := False, cd_cur_leaf := 0\<rparr>)) (ov_flow v1)\<rparr>"
  have flow: "ov_flow v1 = ov_flow v" by (simp add: v1_def render_abort_def settle_cancel_def)
  have "distinct (refs v)" using inv by (simp add: ov_inv_def pipe_ok_def pending_ok_def)
  moreover have "refs v2 = refs v" by (simp add: v2_def refs_def flow comp_def if_distrib)
  moreover have "idle v1" using abort_idle by (simp add: v1_def idle_def timers_def)
  then have "idle v2" by (simp add: v2_def idle_def timers_def)
  ultimately have "pipe_ok v2" by (simp add: pipe_ok_def pending_ok_def idle_def)
  moreover have "leaf_lists v2 = leaf_lists v" by (simp add: v2_def leaf_lists_def flow comp_def if_distrib)
  moreover have "grid_ok v2" by (simp add: v2_def v1_def grid_ok_def render_abort_def settle_cancel_def)
  ultimately have "ov_inv v2" using inv by (simp add: ov_inv_def all_sized_def)
  then have "ov_inv (queue_visible_renders e v2)" using scroll_inv by (simp add: scrolled_cb_def)
  then show ?thesis by (simp add: overview_appearance_changed_cb_def Let_def v1_def v2_def)
qed

section \<open>Reloading\<close>

text \<open>The cards built so far have addresses of their own, below the next one, and grids.\<close>

definition built_ok :: "'d overview \<Rightarrow> 'd cards \<Rightarrow> bool" where
  "built_ok v0 = (\<lambda>(mine, rest, shown, v).
     (\<exists>n. v = v0\<lparr>ov_next_ref := n\<rparr>) \<and> distinct (map cd_ref (mine @ rest)) \<and>
     (\<forall>c \<in> set (mine @ rest). cd_ref c < ov_next_ref v \<and> sized c))"

lemma sized_grid: "sized c \<longleftrightarrow> (\<forall>l \<in> set (cd_leaves c). 0 < lf_cols l \<and> 0 < lf_rows l)"
  by (simp add: sized_def)

lemma build_card_new:
  "build_card f gv e alive g cf v = (c, v1) \<Longrightarrow> cd_ref c = ov_next_ref v \<and> v1 = v\<lparr>ov_next_ref := ov_next_ref v + 1\<rparr> \<and> sized c"
  by (auto simp: build_card_def Let_def sized_def with_grid_def word_neq_0_conv)

lemma built_add:
  assumes "built_ok v0 (mine, rest, shown, v)" and "cd_ref c = ov_next_ref v" and "sized c"
  shows "built_ok v0 (mine @ [c], rest, shown', v\<lparr>ov_next_ref := ov_next_ref v + 1\<rparr>)"
    and "built_ok v0 (mine, rest @ [c], shown', v\<lparr>ov_next_ref := ov_next_ref v + 1\<rparr>)"
proof -
  have fresh: "ov_next_ref v \<notin> cd_ref ` set (mine @ rest)" using assms(1) by (auto simp: built_ok_def)
  have less: "\<forall>d \<in> set (mine @ rest). cd_ref d < ov_next_ref v + 1" using assms(1) by (force simp: built_ok_def)
  have "\<exists>n. v\<lparr>ov_next_ref := ov_next_ref v + 1\<rparr> = v0\<lparr>ov_next_ref := n\<rparr>" using assms(1) by (force simp: built_ok_def)
  then show "built_ok v0 (mine @ [c], rest, shown', v\<lparr>ov_next_ref := ov_next_ref v + 1\<rparr>)"
    "built_ok v0 (mine, rest @ [c], shown', v\<lparr>ov_next_ref := ov_next_ref v + 1\<rparr>)"
    using assms fresh less unfolding built_ok_def by (simp_all add: image_Un ball_Un)
qed

lemma add_group_ok: "built_ok v0 t \<Longrightarrow> built_ok v0 (add_group_card y e w current ss g t)"
proof -
  assume ok: "built_ok v0 t"
  obtain mine rest shown v where t: "t = (mine, rest, shown, v)" by (metis prod_cases4)
  obtain c v1 where c: "build_card (sy_fp y) (sy_gv y) e (alive_set ss) g (group_facts y e w ss g) v = (c, v1)" by fastforce
  let ?c = "c\<lparr>cd_current := (gi_id g = current)\<rparr>"
  have new: "cd_ref ?c = ov_next_ref v" "sized ?c" "v1 = v\<lparr>ov_next_ref := ov_next_ref v + 1\<rparr>"
    using build_card_new[OF c] by (simp_all add: sized_def)
  have "built_ok v0 (mine, rest, shown', v)" for shown' using ok by (simp add: t built_ok_def)
  then show ?thesis using built_add[OF ok[unfolded t] new(1,2)] unfolding t new(3)
    by (simp add: add_group_card_def Let_def c new(3))
qed

lemma add_orphan_ok: "built_ok v0 t \<Longrightarrow> built_ok v0 (add_orphan_card y e gs ss s t)"
proof -
  assume ok: "built_ok v0 t"
  obtain mine rest shown v where t: "t = (mine, rest, shown, v)" by (metis prod_cases4)
  obtain c v1 where c: "build_card (sy_fp y) (sy_gv y) e (alive_set ss) (orphan_group gs s) (orphan_facts e s) v = (c, v1)" by fastforce
  show ?thesis using ok built_add(2)[OF ok[unfolded t], of c] build_card_new[OF c] unfolding t
    by (simp add: add_orphan_card_def c)
qed

lemma folds_ok:
  "built_ok v0 (fold (add_orphan_card y e gs ss) ts (fold (add_group_card y e w current ss) hs ([], [], {}, v0)))"
proof -
  have "built_ok v0 t \<Longrightarrow> built_ok v0 (fold (add_group_card y e w current ss) hs t)" for t
    by (induction hs arbitrary: t) (simp_all add: add_group_ok)
  moreover have "built_ok v0 t \<Longrightarrow> built_ok v0 (fold (add_orphan_card y e gs ss) ts t)" for t
    by (induction ts arbitrary: t) (simp_all add: add_orphan_ok)
  moreover have "built_ok v0 ([], [], {}, v0)"
    by (auto simp: built_ok_def intro: exI[of _ "ov_next_ref v0"])
  ultimately show ?thesis by blast
qed

text \<open>Nothing is queued, no timer is armed and the terminal's grid is not relied on.\<close>

definition rested :: "'d overview \<Rightarrow> bool" where
  "rested v \<longleftrightarrow> idle v \<and> ov_last_cols v = 0 \<and> ov_last_rows v = 0"

lemma rested_inv: "rested v \<Longrightarrow> distinct (refs v) \<Longrightarrow> \<forall>c \<in> set (ov_flow v). sized c \<Longrightarrow> ov_inv v"
  by (auto simp: rested_def ov_inv_def pipe_ok_def pending_ok_def idle_def all_sized_def leaf_lists_def grid_ok_def sized_def)

lemma set_hidden_fields [simp]:
  "rested (set_hidden b a v) = rested v"
  by (simp add: set_hidden_def rested_def idle_def split: option.split)

lemma rested_updates [simp]:
  "rested (v\<lparr>ov_anchor := a\<rparr>) = rested v" "rested (v\<lparr>ov_pending_anchor := a\<rparr>) = rested v"
  "rested (v\<lparr>ov_flow := cs\<rparr>) = rested v" "rested (v\<lparr>ov_shows_cards := b\<rparr>) = rested v"
  "rested (v\<lparr>ov_count := t\<rparr>) = rested v" "rested (v\<lparr>ov_n_cards := n\<rparr>) = rested v"
  "rested (v\<lparr>ov_next_ref := n\<rparr>) = rested v" "rested (v\<lparr>ov_cache := m\<rparr>) = rested v" "rested (v\<lparr>ov_sigs := g\<rparr>) = rested v"
  "rested (v\<lparr>ov_thumb_w := i\<rparr>) = rested v" "rested (v\<lparr>ov_thumb_h := i\<rparr>) = rested v" "rested (v\<lparr>ov_columns := i\<rparr>) = rested v"
  by (simp_all add: rested_def idle_def timers_def)

lemma rested_geometry: "rested v \<Longrightarrow> rested (snd (overview_update_geometry f m width height v))"
  by (simp add: overview_update_geometry_def Let_def split: prod.split)

lemma rested_start:
  "rested (flow_clear (overview_set_pending_anchor None (overview_set_anchor None (render_abort v))))"
proof -
  have "rested (render_abort v)" using abort_idle[of v] by (simp add: rested_def render_abort_def settle_cancel_def)
  then show ?thesis
    by (simp add: flow_clear_def overview_set_pending_anchor_def overview_set_anchor_def)
qed

lemma reload_inv: "ov_inv (reload_with y m e w current groups sessions v)"
proof (cases groups)
  case None
  have r: "rested (flow_clear (overview_set_pending_anchor None (overview_set_anchor None
                 (render_abort (v\<lparr>ov_thumb_aspect := overview_render_aspect (sy_fp y) m e\<rparr>)))))" by (rule rested_start)
  show ?thesis unfolding reload_with_def None Let_def option.case
    by (rule rested_inv) (use r in \<open>simp_all add: refs_def flow_clear_def\<close>)
next
  case (Some gs)
  let ?ss = "case sessions of Some ss \<Rightarrow> ss | None \<Rightarrow> []"
  let ?v1 = "flow_clear (overview_set_pending_anchor None (overview_set_anchor None
                 (render_abort (v\<lparr>ov_thumb_aspect := overview_render_aspect (sy_fp y) m e\<rparr>))))"
  obtain width height where size: "(if fst (oe_size e) \<le> 0 then oe_window_size e else oe_size e) = (width, height)" by fastforce
  define v2 where "v2 = snd (overview_update_geometry (sy_fp y) m width height (?v1\<lparr>ov_n_cards := length (filter (own_group w) gs) +
    length (filter (\<lambda>g. \<not> own_group w g \<and> \<not> group_is_attached g (attached_map ?ss)) gs)\<rparr>))"
  obtain mine rest shown v3 where all:
    "fold (add_orphan_card y e gs ?ss) ?ss (fold (add_group_card y e w current ?ss) gs ([], [], {}, v2)) = (mine, rest, shown, v3)"
    by (metis prod_cases4)
  have built: "built_ok v2 (mine, rest, shown, v3)" using folds_ok[of v2 y e gs ?ss ?ss w current gs] unfolding all .
  have "rested v2" unfolding v2_def using rested_start by (intro rested_geometry) simp
  then have "rested v3" using built by (auto simp: built_ok_def)
  then have "rested (prune_cache gs (v3\<lparr>ov_flow := mine @ rest\<rparr>))" by (simp add: prune_cache_def Let_def)
  moreover have "ov_flow (prune_cache gs (v3\<lparr>ov_flow := mine @ rest\<rparr>)) = mine @ rest" by (simp add: prune_cache_def Let_def)
  ultimately have "ov_inv ((prune_cache gs (v3\<lparr>ov_flow := mine @ rest\<rparr>))\<lparr>ov_shows_cards := b, ov_count := t\<rparr>)" for b t
    using built by (intro rested_inv) (auto simp: built_ok_def refs_def)
  then show ?thesis
    unfolding reload_with_def Some option.case Let_def size prod.case v2_def[symmetric] all
    by (rule scroll_inv[unfolded scrolled_cb_def])
qed

section \<open>Everything else\<close>

lemma pipe_view_map: "(\<And>c. pipe_view (h c) = pipe_view c) \<Longrightarrow> map pipe_view (map h cs) = map pipe_view cs"
  by simp

lemma same_pipe_at: "(\<And>c. pipe_view (h c) = pipe_view c) \<Longrightarrow> same_pipe v (at_card r h v)"
  by (simp add: same_pipe_def) (simp add: at_card_def comp_def)

lemma same_pipe_hidden: "same_pipe v (set_hidden b a v)"
  by (auto simp: set_hidden_def pipe_view_def intro!: same_pipe_at split: option.split)

lemma same_pipe_anchor: "same_pipe v (overview_set_anchor a v)"
proof -
  have "same_pipe v ((set_hidden False (ov_anchor v) v)\<lparr>ov_anchor := a\<rparr>)"
    using same_pipe_hidden[of v False "ov_anchor v"] by (simp add: same_pipe_def timers_def)
  then show ?thesis using same_pipe_hidden same_pipe_trans by (force simp: overview_set_anchor_def)
qed

lemma same_pipe_done: "same_pipe v (fst (open_animation_done_cb v))"
proof -
  have "same_pipe v (v\<lparr>ov_animating := False\<rparr>)" by (simp add: same_pipe_def timers_def)
  moreover have "same_pipe w (overview_update_targetable w)" for w :: "'a overview"
    by (simp add: overview_update_targetable_def same_pipe_def timers_def)
  ultimately show ?thesis using same_pipe_anchor same_pipe_trans
    unfolding open_animation_done_cb_def Let_def fst_conv by metis
qed

lemma same_pipe_animate: "same_pipe v (fst (overview_animate_to f e b a v))"
proof -
  have o: "same_pipe v (v\<lparr>ov_is_open := b\<rparr>)" by (simp add: same_pipe_def timers_def)
  let ?u = "overview_set_anchor a (v\<lparr>ov_is_open := b\<rparr>)"
  have u: "same_pipe v ?u" by (rule same_pipe_trans[OF o same_pipe_anchor])
  let ?w = "overview_update_targetable (?u\<lparr>ov_crossfade := \<not> oe_animations e, ov_animating := True\<rparr>)"
  have w: "same_pipe v ?w" using u by (simp add: overview_update_targetable_def same_pipe_def timers_def)
  have "same_pipe ?w (fst (open_animation_done_cb (?w\<lparr>ov_progress := x\<rparr>)))" for x
    using same_pipe_done[of "?w\<lparr>ov_progress := x\<rparr>"] by (simp add: same_pipe_def timers_def)
  then have "same_pipe v (fst (open_animation_done_cb (?w\<lparr>ov_progress := x\<rparr>)))" for x by (rule same_pipe_trans[OF w])
  then show ?thesis using w unfolding overview_animate_to_def Let_def by (simp only: fst_conv split: if_split) blast
qed

lemma same_pipe_menu: "same_pipe v (card_right_click_cb x v)"
proof -
  have "same_pipe w (overview_menu_set_state b w)" for b and w :: "'a overview"
    by (simp add: overview_menu_set_state_def menu_items_def same_pipe_def timers_def)
  then show ?thesis
    by (auto simp: card_right_click_cb_def card_menu_popup_for_box_def same_pipe_def timers_def split: option.split)
qed

lemma same_pipe_allocate: "same_pipe v (epimone_overview_size_allocate f m width height v)"
  by (auto simp: epimone_overview_size_allocate_def overview_update_geometry_def Let_def same_pipe_def timers_def split: prod.split)

lemma same_pipe_plain:
  "same_pipe v (v\<lparr>ov_fresh := gid\<rparr>)" "same_pipe v (v\<lparr>ov_progress := x\<rparr>)" "same_pipe v (v\<lparr>ov_resize_idle := b\<rparr>)"
  "same_pipe v (v\<lparr>ov_preload_timeout := b\<rparr>)" "same_pipe v (v\<lparr>ov_actions := names\<rparr>)"
  "same_pipe v (overview_set_pending_anchor a v)" "same_pipe v (epimone_overview_map v)"
  "same_pipe v (snd (overview_capture_live_group e gid v))"
  by (simp_all add: overview_set_pending_anchor_def epimone_overview_map_def overview_capture_live_group_def same_pipe_def timers_def)

lemma ov_step_inv:
  assumes "ov_step y m v w" and inv: "ov_inv v"
  shows "ov_inv w"
  using assms(1)
proof (cases rule: ov_step.cases)
  case (timer e)
  then show ?thesis using fire_inv[OF inv] by simp
next
  case (quiet e)
  then show ?thesis using quiet_inv[OF inv] by simp
qed (simp_all add: contents_inv[OF inv] scroll_inv[OF inv] appearance_inv[OF inv] reload_inv open_animation_value_cb_def
      same_pipe_inv[OF same_pipe_plain(1) inv] same_pipe_inv[OF same_pipe_plain(2) inv] same_pipe_inv[OF same_pipe_plain(3) inv]
      same_pipe_inv[OF same_pipe_plain(4) inv] same_pipe_inv[OF same_pipe_plain(5) inv] same_pipe_inv[OF same_pipe_plain(6) inv]
      same_pipe_inv[OF same_pipe_plain(7) inv] same_pipe_inv[OF same_pipe_plain(8) inv] same_pipe_inv[OF same_pipe_animate inv]
      same_pipe_inv[OF same_pipe_done inv] same_pipe_inv[OF same_pipe_allocate inv] same_pipe_inv[OF same_pipe_menu inv])

lemma ov_init_inv: "ov_inv (epimone_overview_init m f)"
  by (rule rested_inv) (simp_all add: rested_def idle_def timers_def refs_def epimone_overview_init_def overview_update_targetable_def)

interpretation grid: machine "ov_step y m" ov_inv
  by unfold_locales (rule ov_step_inv)

lemma reach_inv_overview: "(ov_step y m)\<^sup>*\<^sup>* (epimone_overview_init m f) v \<Longrightarrow> ov_inv v"
  by (erule grid.reach) (rule ov_init_inv)

end
