(* ===== verification/Overview_Kills.thy ===== *)
theory Overview_Kills
  imports Overview_Menus
begin

text \<open>
  What the header's menu of the overview kills: the requests to kill a session are observed by a client
  that keeps a log of them beside its world, whatever that client is, the numbers asked about in the
  dialogs are read off the listings, and the requests of the confirmed dialogs are read off the log.
\<close>

section \<open>A client with a log\<close>

definition beside :: "('w \<Rightarrow> 'x \<times> 'w) \<Rightarrow> 'w \<times> u64 list \<Rightarrow> 'x \<times> 'w \<times> u64 list" where
  "beside h = (\<lambda>(w, l). case h w of (x, w') \<Rightarrow> (x, w', l))"

definition logged_api :: "'w client_api \<Rightarrow> ('w \<times> u64 list) client_api" where
  "logged_api a = \<lparr>
     api_list_sessions = beside (api_list_sessions a), api_list_groups = beside (api_list_groups a),
     api_instance_id = beside (api_instance_id a), api_group_set = (\<lambda>gid blob. beside (api_group_set a gid blob)),
     api_group_new = (\<lambda>blob. beside (api_group_new a blob)), api_group_add = (\<lambda>gid sid. beside (api_group_add a gid sid)),
     api_attach_session = (\<lambda>sid. beside (api_attach_session a sid)), api_bridge = beside (api_bridge a),
     api_kill_session = (\<lambda>sid (w, l). (api_kill_session a sid w, l @ [sid])),
     api_resize_session = (\<lambda>sid rows cols (w, l). (api_resize_session a sid rows cols w, l))\<rparr>"

definition logged :: "('d, 'w) system \<Rightarrow> ('d, 'w \<times> u64 list) system" where
  "logged y = \<lparr>sy_fp = sy_fp y, sy_gv = sy_gv y, sy_api = logged_api (sy_api y), sy_env = sy_env y, sy_writable = sy_writable y\<rparr>"

definition app_kills :: "('d, 'w \<times> u64 list) app \<Rightarrow> u64 list" where "app_kills a = snd (ap_world a)"

definition gui_kills :: "('d, 'w \<times> u64 list) gui \<Rightarrow> u64 list" where "gui_kills g = app_kills (gu_app g)"

definition killed :: "('d, 'w \<times> u64 list) desk \<Rightarrow> u64 list" where "killed d = gui_kills (dk_gui d)"

lemma beside_log [simp]: "snd (snd (beside h wl)) = snd wl"
  by (cases wl) (simp add: beside_def split: prod.split)

lemma beside_result: "beside h wl = (x, wl') \<Longrightarrow> snd wl' = snd wl"
  by (metis beside_log snd_conv)

lemma logged_sel [simp]:
  "sy_api (logged y) = logged_api (sy_api y)"
  "api_list_sessions (logged_api a) = beside (api_list_sessions a)"
  "api_list_groups (logged_api a) = beside (api_list_groups a)"
  "api_instance_id (logged_api a) = beside (api_instance_id a)"
  "api_group_set (logged_api a) gid blob = beside (api_group_set a gid blob)"
  "api_group_new (logged_api a) blob = beside (api_group_new a blob)"
  "api_group_add (logged_api a) gid sid = beside (api_group_add a gid sid)"
  "api_kill_session (logged_api a) sid wl = (api_kill_session a sid (fst wl), snd wl @ [sid])"
  by (simp_all add: logged_def logged_api_def split: prod.split)

section \<open>What kills nothing\<close>

lemma enroll_log: "snd (snd (enroll (logged_api a) gid sids p wl)) = snd wl"
  by (induction sids arbitrary: p wl) (auto dest: beside_result split: prod.split bool.split)

lemma sync_page_log: "snd (snd (sync_page_group (logged y) p wl)) = snd wl"
  by (auto simp: sync_page_group_def Let_def enroll_log dest!: beside_result split: prod.splits bool.splits option.splits)

lemma sync_pages_log: "snd (snd (sync_pages (logged y) ps wl)) = snd wl"
proof (induction ps arbitrary: wl)
  case (Cons p ps)
  obtain q wl1 where p: "sync_page_group (logged y) p wl = (q, wl1)" by (cases "sync_page_group (logged y) p wl")
  then have "snd wl1 = snd wl" using sync_page_log[of y p wl] by simp
  then show ?case using Cons.IH[of wl1] p by (auto split: prod.split)
qed simp

lemma sync_windows_log: "snd (snd (sync_windows (logged y) ws wl)) = snd wl"
proof (induction ws arbitrary: wl)
  case (Cons x ws)
  obtain q wl1 where p: "sync_pages (logged y) (wn_pages x) wl = (q, wl1)" by (cases "sync_pages (logged y) (wn_pages x) wl")
  then have "snd wl1 = snd wl" using sync_pages_log[of y "wn_pages x" wl] by simp
  then show ?case using Cons.IH[of wl1] p by (auto split: prod.split)
qed simp

lemma set_layout_log [simp]: "app_kills (set_layout h a) = app_kills a"
  by (simp add: app_kills_def set_layout_def)

lemma shutdown_log [simp]: "app_kills (epimone_layout_begin_shutdown (logged y) a) = app_kills a"
proof -
  have "app_kills (save_groups_state (logged y) gids b) = app_kills b" for gids b
    by (auto simp: save_groups_state_def app_kills_def Let_def set_layout_def dest!: beside_result split: prod.split)
  moreover have "app_kills (b\<lparr>ap_windows := ws, ap_world := wl\<rparr>) = snd wl" for b :: "('a, 'b \<times> u64 list) app" and ws wl
    by (simp add: app_kills_def)
  ultimately have "app_kills (sync_groups_now (logged y) b) = app_kills b" for b
    using sync_windows_log[of y "ap_windows b" "ap_world b"]
    by (auto simp: sync_groups_now_def app_kills_def[of b] split: prod.split)
  moreover have "app_kills (epimone_layout_save_now z b) = app_kills b" for z and b :: "('a, 'b \<times> u64 list) app"
    by (simp add: epimone_layout_save_now_def app_kills_def Let_def)
  ultimately show ?thesis by (simp add: epimone_layout_begin_shutdown_def Let_def)
qed

lemma at_log [simp]: "app_kills (at_page h wi k a) = app_kills a" "app_kills (at_window f wi a) = app_kills a"
  by (simp_all add: at_page_def at_window_def app_kills_def Let_def split: prod.split)

lemma gui_log_kills [simp]:
  "gui_kills (in_frame r f g) = gui_kills g" "gui_kills (gui_log x g) = gui_kills g"
  "gui_kills (g\<lparr>gu_next_tab := n\<rparr>) = gui_kills g" "gui_kills (g\<lparr>gu_held := held\<rparr>) = gui_kills g"
  by (simp_all add: gui_kills_def in_frame_def gui_log_def)

lemma in_app_kills: "(\<And>a. app_kills (h a) = app_kills a) \<Longrightarrow> gui_kills (in_app h g) = gui_kills g"
  by (simp add: gui_kills_def in_app_def)

lemma gui_ops_kills [simp]:
  "gui_kills (schedule_save g) = gui_kills g" "gui_kills (focus_current y r g) = gui_kills g"
  "gui_kills (snd (page_calls p g)) = gui_kills g"
  by (auto simp: schedule_save_def focus_current_def page_calls_def epimone_window_focus_current_terminal_def
      intro!: in_app_kills split: option.split)

lemma page_step_kills [simp]: "gui_kills (page_step h t g) = gui_kills g"
proof -
  have "gui_kills g1 = gui_kills g" if "page_calls p g = (q, g1)" for p q g1
    using that gui_ops_kills(3)[of p g] by simp
  then show ?thesis by (auto simp: page_step_def in_app_kills split: option.split prod.split)
qed

lemma select_kills [simp]: "gui_kills (select_tab y r t g) = gui_kills g"
  by (auto simp: select_tab_def epimone_window_notify_selected_cb_def epimone_window_rebind_title_def in_app_kills
      split: option.split)

lemma window_close_kills: "gui_kills (window_close (logged y) r g) = gui_kills g"
proof -
  have "gui_kills (destroy_window r h) = gui_kills h" for h :: "('a, 'b \<times> u64 list) gui"
    by (simp add: destroy_window_def Let_def in_frame_def epimone_window_unregister_def in_app_def gui_kills_def app_kills_def)
  then show ?thesis by (simp add: window_close_def epimone_window_close_request_def Let_def in_app_kills)
qed

lemma put_tab_kills [simp]: "gui_kills (put_tab (logged y) r k x p g) = gui_kills g"
  by (auto simp: put_tab_def Let_def epimone_window_notify_n_pages_def window_close_kills in_app_kills split: option.split)

lemma attach_page_kills [simp]: "gui_kills (snd (epimone_window_attach_page (logged y) tv r p g)) = gui_kills g"
  by (simp add: epimone_window_attach_page_def epimone_window_attach_page_at_def Let_def)

lemma add_tab_kills: "gui_kills (epimone_window_add_tab (logged y) tv sid r g) = gui_kills g"
proof -
  let ?x = "ap_next (gu_app g)"
  let ?g1 = "gui_log (Spawned None sid) (in_app (\<lambda>a. a\<lparr>ap_next := ?x + 1\<rparr>) g)"
  have g1: "gui_kills ?g1 = gui_kills g" by (simp add: in_app_kills app_kills_def)
  obtain p g2 where 2: "page_calls (epimone_page_new_with_cwd (sy_env (logged y)) ?x sid) ?g1 = (p, g2)" by fastforce
  obtain t g3 where 3: "epimone_window_attach_page (logged y) tv r p g2 = (t, g3)" by fastforce
  have "gui_kills g2 = gui_kills g" using gui_ops_kills(3)[of "epimone_page_new_with_cwd (sy_env (logged y)) ?x sid" ?g1]
    unfolding 2 snd_conv g1 .
  moreover have "gui_kills g3 = gui_kills g2" using attach_page_kills[of y tv r p g2] 3 by simp
  ultimately show ?thesis
    unfolding epimone_window_add_tab_def epimone_window_add_tab_with_cwd_def Let_def 2 prod.case 3 by simp
qed

lemma in_gui_killed: "killed (in_gui h d) = gui_kills (h (dk_gui d))"
  by (simp add: killed_def in_gui_def)

lemma in_overview_killed [simp]: "killed (in_overview r h d) = killed d"
  by (simp add: killed_def in_overview_def)

lemma focus_back_killed [simp]: "killed (focus_back y r b d) = killed d"
  by (simp add: focus_back_def in_gui_killed) (simp add: killed_def)

lemma exit_killed: "killed (overview_exit y e r d) = killed d"
proof -
  have "killed (epimone_overview_animate_close y e r active h) = killed h" for active h
    by (simp add: epimone_overview_animate_close_def Let_def split: prod.split)
  then show ?thesis by (simp add: overview_exit_def in_gui_killed epimone_window_hide_overview_def) (simp add: killed_def)
qed

lemma reload_killed: "killed (desk_reload (logged y) m e r d) = killed d"
proof -
  have world: "gui_kills (in_app (\<lambda>a. a\<lparr>ap_world := wl\<rparr>) g) = snd wl" for wl and g :: "('a, 'b \<times> u64 list) gui"
    by (simp add: gui_kills_def app_kills_def in_app_def)
  have "gui_kills (snd (overview_reload (logged y) m e r g v)) = gui_kills g" for g v
  proof (cases "window_of r g")
    case (Some w)
    obtain gs x where gs: "beside (api_list_groups (sy_api y)) (ap_world (gu_app g)) = (gs, x)"
      by (rule prod.exhaust)
    obtain ss x2 where ss: "beside (api_list_sessions (sy_api y)) x = (ss, x2)" by (rule prod.exhaust)
    have "snd x = gui_kills g" "snd x2 = snd x"
      using beside_result[OF gs] beside_result[OF ss] by (simp_all add: gui_kills_def app_kills_def)
    then show ?thesis using Some gs ss by (cases gs) (simp_all add: overview_reload_def world)
  qed (simp add: overview_reload_def)
  moreover obtain v g where "overview_reload (logged y) m e r (dk_gui d) (dk_overviews d r) = (v, g)" by fastforce
  ultimately show ?thesis by (simp add: desk_reload_def) (metis killed_def desk.select_convs(1) desk.surjective desk.update_convs(1) snd_conv)
qed

lemma kills_killed: "killed (kill_sessions (logged y) sids d) = killed d @ sids"
proof -
  have "killed (overview_kill_session (logged y) sid d) = killed d @ [sid]" for sid d
    by (simp add: overview_kill_session_def in_gui_killed gui_kills_def in_app_def app_kills_def) (simp add: killed_def gui_kills_def app_kills_def)
  then show ?thesis by (induction sids arbitrary: d) (simp_all add: kill_sessions_def)
qed

lemma listings_killed:
  "killed (snd (list_groups (logged y) d)) = killed d" "killed (snd (list_sessions (logged y) d)) = killed d"
  by (simp_all add: list_groups_def list_sessions_def in_gui_killed in_app_def gui_kills_def app_kills_def case_prod_beta)
    (simp_all add: killed_def gui_kills_def app_kills_def)

lemma listing_keeps:
  "dk_asks (snd (list_groups y d)) = dk_asks d" "dk_asks (snd (list_sessions y d)) = dk_asks d"
  "window_groups r (dk_gui (snd (list_groups y d))) = window_groups r (dk_gui d)"
  "window_groups r (dk_gui (snd (list_sessions y d))) = window_groups r (dk_gui d)"
  by (simp_all add: list_groups_def list_sessions_def in_gui_def in_app_def case_prod_beta window_groups_def window_of_def
      window_index_def)

section \<open>The numbers\<close>

definition members_of :: "(EpiGroupInfo \<Rightarrow> bool) \<Rightarrow> EpiGroupInfo list option \<Rightarrow> u64 list" where
  "members_of P gs = (case gs of None \<Rightarrow> [] | Some l \<Rightarrow> concat (map gi_members (filter P l)))"

lemma tally_numbers:
  "ta_det_sessions (tally_of mine gs ss) = length (members_of (\<lambda>g. \<not> has_attached (attached_sid_set ss) g) gs)"
  "ta_win_sessions (tally_of mine gs ss) = length (members_of (\<lambda>g. low (gi_id g) \<in> mine) gs)"
  "ta_all (tally_of mine gs ss) = length (case ss of None \<Rightarrow> [] | Some l \<Rightarrow> map si_id l)"
proof -
  have "ta_det_sessions (fold (count_group att mine) l t) =
      ta_det_sessions t + length (concat (map gi_members (filter (\<lambda>g. \<not> has_attached att g) l))) \<and>
    ta_win_sessions (fold (count_group att mine) l t) =
      ta_win_sessions t + length (concat (map gi_members (filter (\<lambda>g. low (gi_id g) \<in> mine) l))) \<and>
    ta_all (fold (count_group att mine) l t) = ta_all t" for att l t
    by (induction l arbitrary: t) (simp_all add: count_group_def Let_def)
  then show "ta_det_sessions (tally_of mine gs ss) = length (members_of (\<lambda>g. \<not> has_attached (attached_sid_set ss) g) gs)"
    "ta_win_sessions (tally_of mine gs ss) = length (members_of (\<lambda>g. low (gi_id g) \<in> mine) gs)"
    "ta_all (tally_of mine gs ss) = length (case ss of None \<Rightarrow> [] | Some l \<Rightarrow> map si_id l)"
    by (simp_all add: tally_of_def members_of_def split: option.split)
qed

text \<open>The same listing when the dialog is built and when it has been confirmed.\<close>

definition same_listing :: "('d, 'w) system \<Rightarrow> nat \<Rightarrow> ('d, 'w) desk \<Rightarrow> ('d, 'w) desk \<Rightarrow>
    EpiGroupInfo list option \<Rightarrow> EpiSessionInfo list option \<Rightarrow> bool" where
  "same_listing y r d d' gs ss \<longleftrightarrow>
     fst (list_groups y d) = gs \<and> fst (list_sessions y (snd (list_groups y d))) = ss \<and>
     fst (list_groups y d') = gs \<and> fst (list_sessions y (snd (list_groups y d'))) = ss \<and>
     fst (list_sessions y d') = ss \<and> window_groups r (dk_gui d') = window_groups r (dk_gui d)"

lemma tally_listed:
  assumes "same_listing y r d d' gs ss"
  shows "fst (overview_tally y r d) = tally_of (window_groups r (dk_gui d)) gs ss"
    and "dk_asks (snd (overview_tally y r d)) = dk_asks d"
proof -
  obtain d1 where 1: "list_groups y d = (gs, d1)" using assms by (cases "list_groups y d") (auto simp: same_listing_def)
  obtain d2 where 2: "list_sessions y d1 = (ss, d2)" using assms 1 by (cases "list_sessions y d1") (auto simp: same_listing_def)
  have "window_groups r (dk_gui d2) = window_groups r (dk_gui d)" "dk_asks d2 = dk_asks d"
    using listing_keeps(1)[of y d] listing_keeps(3)[of r y d] listing_keeps(2)[of y d1] listing_keeps(4)[of r y d1] 1 2
    by simp_all
  then show "fst (overview_tally y r d) = tally_of (window_groups r (dk_gui d)) gs ss"
    "dk_asks (snd (overview_tally y r d)) = dk_asks d"
    by (simp_all add: overview_tally_def 1 2)
qed

lemma detached_group:
  "has_attached (attached_sid_set ss) g \<longleftrightarrow>
     low ` set (gi_members g) \<inter> (case ss of None \<Rightarrow> {} | Some l \<Rightarrow> low ` si_id ` {s \<in> set l. si_attached s}) \<noteq> {}"
  by (auto simp: has_attached_def attached_sid_set_def list_ex_iff split: option.splits)

text \<open>The three confirmed kills, seen in the log.\<close>

lemma executed:
  "killed (overview_kill_detached_execute (logged y) m e r d) = killed d @
     members_of (\<lambda>g. \<not> has_attached (attached_sid_set (fst (list_sessions (logged y) (snd (list_groups (logged y) d))))) g)
       (fst (list_groups (logged y) d))"
  "killed (overview_kill_window_execute (logged y) tv su e r d) = killed d @
     members_of (\<lambda>g. low (gi_id g) \<in> window_groups r (dk_gui d)) (fst (list_groups (logged y) d))"
  "killed (overview_kill_all_execute (logged y) tv su e r d) = killed d @
     (case fst (list_sessions (logged y) d) of None \<Rightarrow> [] | Some l \<Rightarrow> map si_id l)"
proof -
  have tab: "killed (in_gui (epimone_window_add_tab (logged y) tv sid r) h) = killed h" for sid h
    by (simp add: in_gui_killed add_tab_kills) (simp add: killed_def)
  obtain gs d1 where 1: "list_groups (logged y) d = (gs, d1)" by (rule prod.exhaust)
  obtain ss d2 where 2: "list_sessions (logged y) d1 = (ss, d2)" by (rule prod.exhaust)
  obtain ts d3 where 3: "list_sessions (logged y) d = (ts, d3)" by (rule prod.exhaust)
  have log: "killed d1 = killed d" "killed d2 = killed d" "killed d3 = killed d"
    using listings_killed(1)[of y d] listings_killed(2)[of y d1] listings_killed(2)[of y d] 1 2 3 by simp_all
  show "killed (overview_kill_detached_execute (logged y) m e r d) = killed d @
     members_of (\<lambda>g. \<not> has_attached (attached_sid_set (fst (list_sessions (logged y) (snd (list_groups (logged y) d))))) g)
       (fst (list_groups (logged y) d))"
    by (simp add: overview_kill_detached_execute_def 1 2 reload_killed kills_killed log doomed_detached_def members_of_def)
  show "killed (overview_kill_window_execute (logged y) tv su e r d) = killed d @
     members_of (\<lambda>g. low (gi_id g) \<in> window_groups r (dk_gui d)) (fst (list_groups (logged y) d))"
    by (simp add: overview_kill_window_execute_def 1 Let_def exit_killed kills_killed tab log doomed_window_def members_of_def)
  show "killed (overview_kill_all_execute (logged y) tv su e r d) = killed d @
     (case fst (list_sessions (logged y) d) of None \<Rightarrow> [] | Some l \<Rightarrow> map si_id l)"
    by (simp add: overview_kill_all_execute_def 3 exit_killed kills_killed tab log doomed_all_def)
qed

text \<open>The three dialogs.\<close>

lemma asked:
  assumes "same_listing y r d d' gs ss"
  shows "dk_asks (overview_kill_detached_cb y r d) = dk_asks d @
      (let n = length (members_of (\<lambda>g. \<not> has_attached (attached_sid_set ss) g) gs) in if n = 0 then [] else [Ask_kill_detached r n])"
    and "dk_asks (overview_kill_window_cb y r d) = dk_asks d @
      (let n = length (members_of (\<lambda>g. low (gi_id g) \<in> window_groups r (dk_gui d)) gs) in if n = 0 then [] else [Ask_kill_window r n])"
    and "dk_asks (overview_kill_all_cb y r d) = dk_asks d @
      (let n = length (case ss of None \<Rightarrow> [] | Some l \<Rightarrow> map si_id l) in if n = 0 then [] else [Ask_kill_all r n])"
proof -
  obtain t d1 where t: "overview_tally y r d = (t, d1)" by (rule prod.exhaust)
  then have "t = tally_of (window_groups r (dk_gui d)) gs ss" "dk_asks d1 = dk_asks d" using tally_listed[OF assms] by simp_all
  note * = this tally_numbers t Let_def ask_def
  show "dk_asks (overview_kill_detached_cb y r d) = dk_asks d @
      (let n = length (members_of (\<lambda>g. \<not> has_attached (attached_sid_set ss) g) gs) in if n = 0 then [] else [Ask_kill_detached r n])"
    unfolding overview_kill_detached_cb_def by (simp add: *)
  show "dk_asks (overview_kill_window_cb y r d) = dk_asks d @
      (let n = length (members_of (\<lambda>g. low (gi_id g) \<in> window_groups r (dk_gui d)) gs) in if n = 0 then [] else [Ask_kill_window r n])"
    unfolding overview_kill_window_cb_def by (simp add: *)
  show "dk_asks (overview_kill_all_cb y r d) = dk_asks d @
      (let n = length (case ss of None \<Rightarrow> [] | Some l \<Rightarrow> map si_id l) in if n = 0 then [] else [Ask_kill_all r n])"
    unfolding overview_kill_all_cb_def by (simp add: *)
qed

end
