(* ===== verification/Overview_Props.thy ===== *)
theory Overview_Props
  imports Overview_Steps Overview_Kills Layout_Props Window_Props
begin

text \<open>
  The properties of the overview: the render queue is sound, drains and leaves every thumbnail drawn; the
  cards show each session alive once; the header's kills ask about what they kill; with an example of a reload that their witnesses use.
\<close>

section \<open>An example\<close>

definition wit_oenv :: overview_env where
  "wit_oenv = \<lparr>oe_now = 100, oe_command = (\<lambda>_. Some (lit ''bash'')), oe_peek = (\<lambda>sid. (Some [ucast sid], 1)), oe_shells = None,
     oe_strip = (\<lambda>s. s), oe_strdown = (\<lambda>s. s), oe_basename = (\<lambda>s. s), oe_size = (1200, 800), oe_window_size = (1200, 800),
     oe_term_size = (720, 432), oe_term_blank = False, oe_scale = 1, oe_renderer = True, oe_captured = True,
     oe_texture = True, oe_near = (\<lambda>_. True), oe_animations = True, oe_live = True, oe_needle = []\<rparr>"

definition wit_groups :: "EpiGroupInfo list" where
  "wit_groups = [\<lparr>gi_id = 1, gi_created_at = 0, gi_blob = None, gi_blob_len = 0, gi_members = [5, 6]\<rparr>,
                 \<lparr>gi_id = 2, gi_created_at = 0, gi_blob = None, gi_blob_len = 0, gi_members = [7]\<rparr>]"

definition wit_listed :: "u64 \<Rightarrow> bool \<Rightarrow> bool \<Rightarrow> EpiSessionInfo" where
  "wit_listed i alive attached = \<lparr>si_id = i, si_pid = 9, si_alive = alive, si_attached = attached, si_created_at = 0, si_cwd = []\<rparr>"

definition wit_sessions :: "EpiSessionInfo list" where
  "wit_sessions = [wit_listed 5 True False, wit_listed 6 True False, wit_listed 7 True True, wit_listed 8 False False]"

definition wit_window :: "rat window" where
  "wit_window = \<lparr>wn_ref = 0, wn_pages = [], wn_selected = None, wn_size = (0, 0), wn_maximized = False, wn_ticks = []\<rparr>"

definition wit_overview :: "rat overview" where
  "wit_overview = reload_with wit_sys rat_libm wit_oenv wit_window 0 (Some wit_groups) (Some wit_sessions)
     (epimone_overview_init rat_libm rat_fp)"

lemma wit_reach: "(ov_step wit_sys rat_libm)\<^sup>*\<^sup>* (epimone_overview_init rat_libm rat_fp) wit_overview"
  unfolding wit_overview_def by (rule r_into_rtranclp) (rule ov_step.reload)

section \<open>The queue\<close>

text \<open>C34. In every state that an overview can reach, whatever the order in which timers, the terminal, scrolling,
  reloads and transitions come, the render queue holds no card twice and none that is gone, every queued
  card has a pane to draw, and exactly one timer drives the queue while it has work, and none otherwise:
  no card waits for ever and no timer meets a freed card.\<close>

theorem render_queue_is_sound:
  assumes "(ov_step y m)\<^sup>*\<^sup>* (epimone_overview_init m f) v"
  shows "distinct (ov_pending v) \<and>
    (\<forall>r \<in> set (ov_pending v). \<exists>c \<in> set (ov_flow v). cd_ref c = r \<and> cd_leaves c \<noteq> []) \<and>
    (ov_rendering v \<longleftrightarrow> ov_pending v \<noteq> []) \<and>
    length (filter id [ov_pump v \<noteq> None, ov_feed v, ov_backstop v]) = (if ov_pending v = [] then 0 else 1)"
proof -
  have inv: "pending_ok v" "idle v \<or> busy v" using reach_inv_overview[OF assms] by (auto simp: ov_inv_def pipe_ok_def)
  have "\<exists>c \<in> set (ov_flow v). cd_ref c = r \<and> cd_leaves c \<noteq> []" if "r \<in> set (ov_pending v)" for r
    using inv(1) that by (fastforce simp: pending_ok_def card_of_def find_Some_iff in_set_conv_nth)
  moreover have "ov_pending v \<noteq> []" if "busy v" using that by (rule busy_head) simp
  ultimately show ?thesis using inv by (auto simp: pending_ok_def idle_def busy_def timers_def)
qed

theorem render_queue_is_sound_witness:
  "distinct (ov_pending wit_overview) \<and>
    set (ov_pending wit_overview) \<subseteq> cd_ref ` {c \<in> set (ov_flow wit_overview). cd_leaves c \<noteq> []} \<and>
    (ov_rendering wit_overview \<longleftrightarrow> ov_pending wit_overview \<noteq> []) \<and>
    length (filter id [ov_pump wit_overview \<noteq> None, ov_feed wit_overview, ov_backstop wit_overview]) =
      (if ov_pending wit_overview = [] then 0 else 1)"
  using render_queue_is_sound[OF wit_reach] by (auto simp: image_def)

definition timers_needed :: "'d overview \<Rightarrow> nat" where
  "timers_needed v =
     (let panes = sum_list (map length (leaf_lists v))
      in 4 * length (leaf_lists v) * (3 * panes + 1) + 3 * panes)"

lemma work_bound:
  assumes "pipe_ok v"
  shows "work v \<le> timers_needed v"
proof -
  let ?P = "sum_list (map length (leaf_lists v))"
  have ok: "distinct (refs v)" "pending_ok v" using assms by (auto simp: pipe_ok_def pending_ok_def)
  have at: "card_of (cd_ref c) v = Some c" if "c \<in> set (ov_flow v)" for c
  proof -
    have "cd_ref c \<in> set (refs v)" using that by (simp add: refs_def)
    then obtain d where d: "card_of (cd_ref c) v = Some d" using card_of_refs by metis
    then have "d \<in> set (ov_flow v)" "cd_ref d = cd_ref c" by (auto simp: card_of_def find_Some_iff)
    then show ?thesis using that ok(1) d by (auto simp: refs_def distinct_map dest: inj_onD)
  qed
  have "(\<Sum>r \<in> set (refs v). panes v r) = (\<Sum>r\<leftarrow>refs v. panes v r)" using ok(1) by (simp add: sum_list_distinct_conv_sum_set)
  also have "\<dots> = ?P" unfolding refs_def leaf_lists_def by (simp add: comp_def panes_def at cong: map_cong)
  finally have panes: "(\<Sum>r \<in> set (refs v). panes v r) = ?P" .
  have "(\<Sum>r \<in> set (refs v). tries v r) \<le> of_nat (card (set (refs v))) * 4"
    by (rule sum_bounded_above) (auto simp: tries_def RENDER_MAX_ATTEMPTS_def split: option.split)
  also have "\<dots> \<le> 4 * length (leaf_lists v)" using card_length[of "refs v"] by (simp add: refs_def leaf_lists_def)
  finally have "(\<Sum>r \<in> set (refs v). tries v r) * (3 * ?P + 1) \<le> 4 * length (leaf_lists v) * (3 * ?P + 1)" by (rule mult_le_mono1)
  then show ?thesis using todo_bound[OF ok(2)] unfolding work_def panes timers_needed_def Let_def by linarith
qed

text \<open>C33. From every reachable state the render queue drains: with n cards of P panes in all, 4 n (3 P + 1) + 3 P
  timers are enough, whatever the terminal, the renderer and the daemon do at each of them, because a
  card is tried again at most four times. Then nothing is queued and no timer is armed.\<close>

theorem thumbnails_settle:
  assumes "(ov_step y m)\<^sup>*\<^sup>* (epimone_overview_init m f) v" and "timers_needed v \<le> length es"
  shows "let z = fold fire es v in
    ov_pending z = [] \<and> \<not> ov_rendering z \<and> ov_pump z = None \<and> \<not> ov_feed z \<and> \<not> ov_backstop z"
proof -
  have ok: "pipe_ok v" using reach_inv_overview[OF assms(1)] by (simp add: ov_inv_def)
  then have "work v \<le> length es" using work_bound[of v] assms(2) by linarith
  from fires_idle[OF ok this] show ?thesis by (simp add: Let_def idle_def timers_def)
qed

theorem thumbnails_settle_witness:
  "let z = fold fire (replicate (timers_needed wit_overview) wit_oenv) wit_overview in
    ov_pending z = [] \<and> \<not> ov_rendering z \<and> ov_pump z = None \<and> \<not> ov_feed z \<and> \<not> ov_backstop z"
  by (rule thumbnails_settle[OF wit_reach]) simp

section \<open>What is drawn\<close>

text \<open>A card that the overview chose is drawn when the queue has drained; one that it left was unchanged.\<close>

lemma drawn_or_kept:
  assumes idle: "idle v" "idle z" and prog: "progress e (queue_visible_renders e v) z"
    and c: "card_of r v = Some c" "\<not> cd_rendered c" "cd_leaves c \<noteq> []" "oe_near e r"
  shows "finished e z r \<or>
    unchanged_since e c v \<and> ov_cache z (cd_cache_key c) = ov_cache v (cd_cache_key c) \<and>
    ov_sigs z (cd_cache_key c) = ov_sigs v (cd_cache_key c) \<and> (\<exists>d. card_of r z = Some d \<and> cd_rendered d)"
proof (cases "r \<in> set (ov_pending (queue_visible_renders e v))")
  case True
  then show ?thesis using prog idle(2) by (auto simp: progress_def idle_def)
next
  case False
  let ?u = "fold (queue_card e) (map cd_ref (ov_flow v)) v" and ?q = "queue_visible_renders e v" and ?k = "cd_cache_key c"
  have q: "?q = render_pump ?u" using idle(1) by (simp add: queue_visible_renders_def Let_def idle_def)
  have in_refs: "r \<in> set (map cd_ref (ov_flow v))" using c(1) by (auto simp: card_of_def find_Some_iff)
  obtain b where b: "unchanged_since e c v" "card_of r ?u = Some b" "cd_rendered b"
    using queue_cards_choice[OF c in_refs] False by (auto simp: q pump_fields)
  obtain b' where b': "card_of r ?q = Some b'" "cd_cache_key b' = cd_cache_key b" "cd_rendered b'"
    using same_picturesD[OF pump_same b(2)] b(3) unfolding q by blast
  have key: "cd_cache_key b = ?k" using same_picturesD[OF queue_cards_same c(1), of e "map cd_ref (ov_flow v)"] b(2) by auto
  have "ov_cache z (cd_cache_key b') = ov_cache ?q (cd_cache_key b') \<and> ov_sigs z (cd_cache_key b') = ov_sigs ?q (cd_cache_key b')"
    using prog False b'(1) unfolding progress_def by blast
  then have kept: "ov_cache z ?k = ov_cache v ?k" "ov_sigs z ?k = ov_sigs v ?k" using b'(2) key by (simp_all add: q)
  have "same_pictures ?q z" using prog by (simp add: progress_def)
  then show ?thesis using same_picturesD b' b(1) kept by blast
qed

lemma keyed_by_distinct: "distinct (map cd_cache_key (ov_flow v)) \<Longrightarrow> keyed v"
  by (auto simp: keyed_def distinct_map card_of_def find_Some_iff dest!: inj_onD)

lemma funpow_fold: "fold (h :: 'b \<Rightarrow> 'a \<Rightarrow> 'a) (replicate n x) u = (h x ^^ n) u"
  by (induction n arbitrary: u) (simp_all add: funpow_swap1)

text \<open>C32. Whatever happened to an overview before: when its queue is at rest and it looks for what to draw, with a
  terminal, a renderer and a daemon that answer, every card that is near the view and not yet drawn ends
  up drawn. Either nothing it shows has changed since its picture was stored, and that picture stays, or
  its stored picture is the new one: each pane in order at its own grid, fed with what the daemon had for
  it. In both cases the signature kept is the one that a later look at the same panes computes.\<close>

theorem thumbnails_are_drawn:
  assumes reach: "(ov_step y m)\<^sup>*\<^sup>* (epimone_overview_init m f) v" and rest: "ov_pending v = []"
    and keys: "distinct (map cd_cache_key (ov_flow v))" and able: "able e" and many: "timers_needed v \<le> n"
    and c: "card_of r v = Some c" "\<not> cd_rendered c" "cd_leaves c \<noteq> []" "oe_near e r"
  shows "let z = fold fire (replicate n e) (queue_visible_renders e v) in
    ov_pending z = [] \<and> (\<exists>d. card_of r z = Some d \<and> cd_leaves d = cd_leaves c \<and> cd_rendered d) \<and>
    ov_sigs z (cd_cache_key c) = card_current_sig e c \<and>
    (ov_cache z (cd_cache_key c) = Some (picture_of e v c) \<or>
     unchanged_since e c v \<and> ov_cache z (cd_cache_key c) = ov_cache v (cd_cache_key c))"
proof -
  let ?q = "queue_visible_renders e v" and ?k = "cd_cache_key c"
  define z where "z = fold fire (replicate n e) ?q"
  have inv: "ov_inv v" by (rule reach_inv_overview[OF reach])
  then have ok: "pipe_ok v" and idle: "idle v" using rest busy_head[of v] by (auto simp: ov_inv_def pipe_ok_def)
  have track: "track e ?q"
    using ok idle inv keyed_by_distinct[OF keys] by (intro queue_track) (auto simp: ov_inv_def grid_ok_def dest: all_sizedD)
  have prog: "progress e ?q z" unfolding z_def funpow_fold by (rule fires_progress[OF track able])
  have drained: "idle z"
    unfolding z_def using work_bound[OF queue_ok[OF ok], of e] many by (intro fires_idle queue_ok ok) (simp add: timers_needed_def)
  have same: "same_pictures v z" 
    by (rule same_pictures_trans[OF queue_same_pictures[of v e]]) (use prog in \<open>simp add: progress_def\<close>)
  obtain d where d: "card_of r z = Some d" "cd_leaves d = cd_leaves c" "cd_seams d = cd_seams c" "cd_cache_key d = ?k"
    using same_picturesD[OF same c(1)] by blast
  have "cd_rendered d \<and> ov_sigs z ?k = card_current_sig e c \<and>
    (ov_cache z ?k = Some (picture_of e v c) \<or> unchanged_since e c v \<and> ov_cache z ?k = ov_cache v ?k)"
    using drawn_or_kept[OF idle drained prog c] d picture_same[OF same d(2,3), of e]
    by (auto simp: finished_def card_current_sig_def unchanged_since_def split: option.splits)
  then show ?thesis using drained d unfolding z_def[symmetric] Let_def by (auto simp: idle_def)
qed

definition wit_far :: overview_env where "wit_far = wit_oenv\<lparr>oe_near := (\<lambda>_. False)\<rparr>"

definition wit_resting :: "rat overview" where
  "wit_resting = reload_with wit_sys rat_libm wit_far wit_window 0 (Some [hd wit_groups]) (Some [wit_listed 5 True False])
     (epimone_overview_init rat_libm rat_fp)"

theorem thumbnails_are_drawn_witness:
  "let z = fold fire (replicate (timers_needed wit_resting) wit_oenv) (queue_visible_renders wit_oenv wit_resting);
       c = hd (ov_flow wit_resting) in
    ov_pending z = [] \<and> (\<exists>d. card_of 0 z = Some d \<and> cd_leaves d = cd_leaves c \<and> cd_rendered d) \<and>
    ov_sigs z (cd_cache_key c) = card_current_sig wit_oenv c \<and>
    (ov_cache z (cd_cache_key c) = Some (picture_of wit_oenv wit_resting c) \<or>
     unchanged_since wit_oenv c wit_resting \<and> ov_cache z (cd_cache_key c) = ov_cache wit_resting (cd_cache_key c))"
proof -
  have flow: "map (\<lambda>c. (cd_ref c, cd_rendered c, length (cd_leaves c))) (ov_flow wit_resting) = [(0, False, 1)]"
    by code_simp
  then obtain c where c: "ov_flow wit_resting = [c]" "cd_ref c = 0" "\<not> cd_rendered c" "length (cd_leaves c) = 1" by auto
  then have leaves: "cd_leaves c \<noteq> []" by auto
  have reach: "(ov_step wit_sys rat_libm)\<^sup>*\<^sup>* (epimone_overview_init rat_libm rat_fp) wit_resting"
    unfolding wit_resting_def by (rule r_into_rtranclp) (rule ov_step.reload)
  have rest: "ov_pending wit_resting = []" by code_simp
  have able: "able wit_oenv" by (simp add: able_def wit_oenv_def)
  have card: "card_of 0 wit_resting = Some c" using c by (simp add: card_of_def)
  show ?thesis
    using thumbnails_are_drawn[OF reach rest _ able order_refl card c(3) leaves] c(1) by (simp add: wit_oenv_def)
qed

section \<open>What is shown and what is killed\<close>

text \<open>C31. A reload of the overview of a window shows each session that is alive on exactly one card,
  unless its group is open in another window, and shows no other session, whatever the saved pictures of
  the groups say: panes of dead sessions are pruned, members that a picture lacks and sessions of no group
  get cards of their own. If moreover no saved picture names a member of its group twice, it is exactly one
  pane of that card. (Ids are compared by their low halves, as the code does.)\<close>

theorem every_live_session_has_one_card:
  assumes "distinct (map low (concat (map gi_members gs)))" and "\<forall>s \<in> set ss. si_alive s \<longrightarrow> si_id s \<noteq> 0"
  shows "showing x (ov_flow (reload_with y m e w current (Some gs) (Some ss) v)) =
      (if x \<in> alive_set ss \<and> \<not> (\<exists>g \<in> set gs. elsewhere w ss g \<and> x \<in> low ` set (gi_members g)) then 1 else 0) \<and>
    ((\<forall>g \<in> set gs. picture_once y g) \<longrightarrow>
      panes_showing x (ov_flow (reload_with y m e w current (Some gs) (Some ss) v)) =
      (if x \<in> alive_set ss \<and> \<not> (\<exists>g \<in> set gs. elsewhere w ss g \<and> x \<in> low ` set (gi_members g)) then 1 else 0))"
  (is "?n = ?one \<and> (?ok \<longrightarrow> ?p = ?one)")
proof (intro conjI impI)
  show n: "?n = ?one" by (rule each_live_session_once[OF assms])
  show "?p = ?one" if ?ok using each_live_session_in_one_pane[OF that, of x m e w current ss v] n by (rule trans)
qed

theorem every_live_session_has_one_card_witness:
  "showing 5 (ov_flow wit_overview) = 1 \<and> showing 6 (ov_flow wit_overview) = 1 \<and>
   showing 7 (ov_flow wit_overview) = 0 \<and> showing 8 (ov_flow wit_overview) = 0 \<and>
   panes_showing 5 (ov_flow wit_overview) = 1"
proof -
  have "distinct (map low (concat (map gi_members wit_groups)))" "\<forall>s \<in> set wit_sessions. si_alive s \<longrightarrow> si_id s \<noteq> 0"
    by (simp_all add: wit_groups_def wit_sessions_def wit_listed_def low_def)
  note shown = every_live_session_has_one_card[OF this, of _ wit_sys rat_libm wit_oenv wit_window 0 "epimone_overview_init rat_libm rat_fp",
      folded wit_overview_def]
  have "\<forall>g \<in> set wit_groups. picture_once wit_sys g"
    by (simp add: wit_groups_def picture_once_def epimone_layout_blob_geometry_def blob_parse_def)
  then have *: "showing x (ov_flow wit_overview) =
    (if x \<in> alive_set wit_sessions \<and> \<not> (\<exists>g \<in> set wit_groups. elsewhere wit_window wit_sessions g \<and> x \<in> low ` set (gi_members g)) then 1 else 0)"
    "panes_showing x (ov_flow wit_overview) = showing x (ov_flow wit_overview)" for x
    using shown[of x] by simp_all
  have alive: "alive_set wit_sessions = {5, 6, 7}"
    by (simp add: alive_set_def wit_sessions_def wit_listed_def low_def Collect_conj_eq Int_insert_right conj_disj_distribR
        Collect_disj_eq insert_commute)
  have "elsewhere wit_window wit_sessions g \<longleftrightarrow> gi_id g = 2" if "g \<in> set wit_groups" for g
    using that by (auto simp: elsewhere_def own_group_def group_is_attached_def attached_map_def epimone_window_dup_attached_group_ids_def
        wit_groups_def wit_sessions_def wit_listed_def wit_window_def low_def)
  then show ?thesis unfolding * alive by (auto simp: wit_groups_def low_def)
qed

text \<open>C35. Each of the three kills of the header's menu asks about exactly as many sessions as it then kills.
  If the daemon answers the listings that are made again after the confirmation as it did when the dialog
  was built, the kill requests made are, in order, those for the members of the groups without an attached
  session, for the members of the groups with a tab in this window, and for all sessions, and the number in
  the dialog is that of the requests; with none there is no dialog. Any other answer kills nothing. No
  attached session is killed as detached while the sessions can be listed; when they cannot, every group
  counts as detached, and all their sessions go. The client is any, with the kills it is asked for logged.\<close>

theorem kill_counts_are_honest:
  assumes "same_listing (logged y) r d d' gs ss"
  shows "let attached = (case ss of None \<Rightarrow> {} | Some l \<Rightarrow> low ` si_id ` {s \<in> set l. si_attached s});
      det = members_of (\<lambda>g. low ` set (gi_members g) \<inter> attached = {}) gs;
      win = members_of (\<lambda>g. low (gi_id g) \<in> window_groups r (dk_gui d)) gs;
      every = (case ss of None \<Rightarrow> [] | Some l \<Rightarrow> map si_id l)
    in dk_asks (overview_kill_detached_cb (logged y) r d) =
         dk_asks d @ (if det = [] then [] else [Ask_kill_detached r (length det)]) \<and>
       killed (kill_detached_confirmed_cb (logged y) m e r (lit ''kill'') d') = killed d' @ det \<and>
       dk_asks (overview_kill_window_cb (logged y) r d) =
         dk_asks d @ (if win = [] then [] else [Ask_kill_window r (length win)]) \<and>
       killed (kill_window_confirmed_cb (logged y) tv su e r (lit ''kill'') d') = killed d' @ win \<and>
       dk_asks (overview_kill_all_cb (logged y) r d) =
         dk_asks d @ (if every = [] then [] else [Ask_kill_all r (length every)]) \<and>
       killed (kill_all_confirmed_cb (logged y) tv su e r (lit ''kill'') d') = killed d' @ every \<and>
       low ` set det \<inter> attached = {} \<and> (ss = None \<longrightarrow> det = members_of (\<lambda>g. True) gs) \<and>
       (response \<noteq> lit ''kill'' \<longrightarrow> kill_detached_confirmed_cb (logged y) m e r response d' = d' \<and>
          kill_window_confirmed_cb (logged y) tv su e r response d' = d' \<and>
          kill_all_confirmed_cb (logged y) tv su e r response d' = d')"
proof -
  define det where "det = members_of (\<lambda>g. \<not> has_attached (attached_sid_set ss) g) gs"
  have det: "members_of (\<lambda>g. low ` set (gi_members g) \<inter> (case ss of None \<Rightarrow> {} | Some l \<Rightarrow> low ` si_id ` {s \<in> set l. si_attached s}) = {}) gs = det"
    by (simp add: det_def detached_group)
  have spared: "low ` set det \<inter> (case ss of None \<Rightarrow> {} | Some l \<Rightarrow> low ` si_id ` {s \<in> set l. si_attached s}) = {}"
    by (auto simp: det_def detached_group members_of_def split: option.splits)
  have none: "ss = None \<longrightarrow> det = members_of (\<lambda>g. True) gs" by (simp add: det_def detached_group)
  have len: "(let n = length xs in if n = 0 then [] else [q n]) = (if xs = [] then [] else [q (length xs)])" for q :: "nat \<Rightarrow> ov_ask" and xs :: "u64 list"
    by (simp add: Let_def)
  have later: "fst (list_groups (logged y) d') = gs" "fst (list_sessions (logged y) (snd (list_groups (logged y) d'))) = ss"
    "fst (list_sessions (logged y) d') = ss" "window_groups r (dk_gui d') = window_groups r (dk_gui d)"
    using assms by (simp_all add: same_listing_def)
  show ?thesis
    using asked[OF assms, unfolded len] executed(1)[of y m e r d'] executed(2)[of y tv su e r d'] executed(3)[of y tv su e r d'] spared none
    unfolding Let_def det later det_def[symmetric]
    by (simp add: kill_detached_confirmed_cb_def kill_window_confirmed_cb_def kill_all_confirmed_cb_def)
qed

definition kill_sys :: "(rat, unit) system" where
  "kill_sys = wit_sys\<lparr>sy_api := wit_api\<lparr>api_list_groups := (\<lambda>w. (Some wit_groups, w)),
     api_list_sessions := (\<lambda>w. (Some wit_sessions, w))\<rparr>\<rparr>"

definition kill_desk :: "(rat, unit \<times> u64 list) desk" where
  "kill_desk = \<lparr>dk_gui = \<lparr>gu_app = \<lparr>ap_windows = [wit_window\<lparr>wn_pages := [epimone_page_new_empty\<lparr>pg_group := 2\<rparr>]\<rparr>],
       ap_layout = layout_start, ap_next = 200, ap_world = ((), []), ap_layout_file = None, ap_groups_file = None\<rparr>,
     gu_frames = (\<lambda>_. epimone_window_init epimone_window_prefs), gu_registry = [], gu_prefs = epimone_window_prefs,
     gu_next_tab = 0, gu_held = Map.empty, gu_read_only = {}, gu_settings = False, gu_log = []\<rparr>,
     dk_overviews = (\<lambda>_. epimone_overview_init rat_libm rat_fp), dk_asks = []\<rparr>"

theorem kill_counts_are_honest_witness:
  "dk_asks (overview_kill_detached_cb (logged kill_sys) 0 kill_desk) = [Ask_kill_detached 0 2] \<and>
   killed (kill_detached_confirmed_cb (logged kill_sys) rat_libm wit_oenv 0 (lit ''kill'') kill_desk) = [5, 6] \<and>
   dk_asks (overview_kill_window_cb (logged kill_sys) 0 kill_desk) = [Ask_kill_window 0 1] \<and>
   killed (kill_window_confirmed_cb (logged kill_sys) wit_tabs wit_surroundings wit_oenv 0 (lit ''kill'') kill_desk) = [7] \<and>
   dk_asks (overview_kill_all_cb (logged kill_sys) 0 kill_desk) = [Ask_kill_all 0 4] \<and>
   killed (kill_all_confirmed_cb (logged kill_sys) wit_tabs wit_surroundings wit_oenv 0 (lit ''kill'') kill_desk) = [5, 6, 7, 8]"
proof -
  have "same_listing (logged kill_sys) 0 kill_desk kill_desk (Some wit_groups) (Some wit_sessions)"
    by (simp add: same_listing_def list_groups_def list_sessions_def kill_sys_def kill_desk_def beside_def in_gui_def in_app_def)
  note * = kill_counts_are_honest[OF this, of rat_libm wit_oenv wit_tabs wit_surroundings]
  have "window_groups 0 (dk_gui kill_desk) = {2}"
    by (simp add: window_groups_def window_of_def window_index_def kill_desk_def wit_window_def
        epimone_window_dup_attached_group_ids_def low_def)
  moreover have "killed kill_desk = []" "dk_asks kill_desk = []"
    by (simp_all add: killed_def gui_kills_def app_kills_def kill_desk_def)
  moreover have "{s \<in> set wit_sessions. si_attached s} = {wit_listed 7 True True}"
    by (auto simp: wit_sessions_def wit_listed_def)
  ultimately show ?thesis using *
    by (simp add: members_of_def wit_groups_def low_def wit_listed_def Let_def) (simp add: wit_sessions_def wit_listed_def)
qed

end
