(* ===== verification/Palettes.thy ===== *)
theory Palettes
  imports Protocol
begin

text \<open>
  The colour schemes (src/src/epimone-palette.c): the table of built-in ones, the lookup by id and the
  parsing of their colours. GDK's parser of colours is a parameter: all that is used of it is that it
  takes a hash sign and six hexadecimal digits.
\<close>

section \<open>The table\<close>

record EpimonePalette =
  pl_id :: string
  pl_name :: string
  pl_background :: string
  pl_foreground :: string
  pl_cursor :: string
  pl_ansi :: "string list"

definition scheme :: "string \<Rightarrow> string \<Rightarrow> string \<Rightarrow> string \<Rightarrow> string \<Rightarrow> string list \<Rightarrow> EpimonePalette" where
  "scheme nick name bg fg cursor ansi =
     \<lparr>pl_id = nick, pl_name = name, pl_background = bg, pl_foreground = fg, pl_cursor = cursor, pl_ansi = ansi\<rparr>"

definition epimone_palette_table :: "EpimonePalette list" where
  "epimone_palette_table = [
     scheme ''epimone-black'' ''Epimone'' ''#1e1e1e'' ''#c8c8c8'' ''#cccccc''
       [''#000000'', ''#cc0000'', ''#33d17a'', ''#c4a000'', ''#62a0ea'', ''#75507b'', ''#06989a'', ''#d3d7cf'',
        ''#555753'', ''#ef2929'', ''#8ae234'', ''#fce94f'', ''#729fcf'', ''#ad7fa8'', ''#34e2e2'', ''#eeeeec''],
     scheme ''dracula'' ''Dracula'' ''#282a36'' ''#f8f8f2'' ''#f8f8f2''
       [''#21222c'', ''#ff5555'', ''#50fa7b'', ''#f1fa8c'', ''#bd93f9'', ''#ff79c6'', ''#8be9fd'', ''#f8f8f2'',
        ''#6272a4'', ''#ff6e6e'', ''#69ff94'', ''#ffffa5'', ''#d6acff'', ''#ff92df'', ''#a4ffff'', ''#ffffff''],
     scheme ''nord'' ''Nord'' ''#2e3440'' ''#d8dee9'' ''#d8dee9''
       [''#3b4252'', ''#bf616a'', ''#a3be8c'', ''#ebcb8b'', ''#81a1c1'', ''#b48ead'', ''#88c0d0'', ''#e5e9f0'',
        ''#4c566a'', ''#bf616a'', ''#a3be8c'', ''#ebcb8b'', ''#81a1c1'', ''#b48ead'', ''#8fbcbb'', ''#eceff4''],
     scheme ''gruvbox-dark'' ''Gruvbox Dark'' ''#282828'' ''#ebdbb2'' ''#ebdbb2''
       [''#282828'', ''#cc241d'', ''#98971a'', ''#d79921'', ''#458588'', ''#b16286'', ''#689d6a'', ''#a89984'',
        ''#928374'', ''#fb4934'', ''#b8bb26'', ''#fabd2f'', ''#83a598'', ''#d3869b'', ''#8ec07c'', ''#ebdbb2''],
     scheme ''solarized-dark'' ''Solarized Dark'' ''#002b36'' ''#839496'' ''#839496''
       [''#073642'', ''#dc322f'', ''#859900'', ''#b58900'', ''#268bd2'', ''#d33682'', ''#2aa198'', ''#eee8d5'',
        ''#002b36'', ''#cb4b16'', ''#586e75'', ''#657b83'', ''#839496'', ''#6c71c4'', ''#93a1a1'', ''#fdf6e3''],
     scheme ''solarized-light'' ''Solarized Light'' ''#fdf6e3'' ''#657b83'' ''#657b83''
       [''#073642'', ''#dc322f'', ''#859900'', ''#b58900'', ''#268bd2'', ''#d33682'', ''#2aa198'', ''#eee8d5'',
        ''#002b36'', ''#cb4b16'', ''#586e75'', ''#657b83'', ''#839496'', ''#6c71c4'', ''#93a1a1'', ''#fdf6e3''],
     scheme ''tango-dark'' ''Tango Dark'' ''#2e3436'' ''#d3d7cf'' ''#d3d7cf''
       [''#2e3436'', ''#cc0000'', ''#4e9a06'', ''#c4a000'', ''#3465a4'', ''#75507b'', ''#06989a'', ''#d3d7cf'',
        ''#555753'', ''#ef2929'', ''#8ae234'', ''#fce94f'', ''#729fcf'', ''#ad7fa8'', ''#34e2e2'', ''#eeeeec''],
     scheme ''gnome'' ''GNOME'' ''#1c1c1f'' ''#ffffff'' ''#ffffff''
       [''#241f31'', ''#c01c28'', ''#2ec27e'', ''#f5c211'', ''#1e78e4'', ''#9841bb'', ''#0ab9dc'', ''#c0bfbc'',
        ''#5e5c64'', ''#ed333b'', ''#57e389'', ''#f8e45c'', ''#51a1ff'', ''#c061cb'', ''#4fd2fd'', ''#f6f5f4''],
     scheme ''ubuntu'' ''Ubuntu'' ''#300a24'' ''#ffffff'' ''#ffffff''
       [''#2e3436'', ''#cc0000'', ''#4e9a06'', ''#c4a000'', ''#3465a4'', ''#75507b'', ''#06989a'', ''#d3d7cf'',
        ''#555753'', ''#ef2929'', ''#8ae234'', ''#fce94f'', ''#729fcf'', ''#ad7fa8'', ''#34e2e2'', ''#eeeeec''],
     scheme ''campbell'' ''Campbell'' ''#0c0c0c'' ''#777777'' ''#777777''
       [''#0c0c0c'', ''#c50f1f'', ''#13a10e'', ''#c19c00'', ''#0037da'', ''#881798'', ''#3a96dd'', ''#cccccc'',
        ''#767676'', ''#e74856'', ''#16c60c'', ''#f9f1a5'', ''#3b78ff'', ''#b4009e'', ''#61d6d6'', ''#f2f2f2''],
     scheme ''horizon'' ''Horizon'' ''#1c1e26'' ''#fdf0ed'' ''#fdf0ed''
       [''#16161c'', ''#e95678'', ''#29d398'', ''#fab795'', ''#26bbd9'', ''#ee64ae'', ''#59e3e3'', ''#fadad1'',
        ''#232530'', ''#ec6a88'', ''#3fdaa4'', ''#fbc3a7'', ''#3fc6de'', ''#f075b7'', ''#6be6e6'', ''#fdf0ed''],
     scheme ''linux'' ''Linux'' ''#000000'' ''#aaaaaa'' ''#aaaaaa''
       [''#000000'', ''#aa0000'', ''#00aa00'', ''#aa5500'', ''#0000aa'', ''#aa00aa'', ''#00aaaa'', ''#aaaaaa'',
        ''#555555'', ''#ff5555'', ''#55ff55'', ''#ffff55'', ''#5555ff'', ''#ff55ff'', ''#55ffff'', ''#ffffff''],
     scheme ''vscode'' ''VS Code'' ''#1e1e1e'' ''#cccccc'' ''#cccccc''
       [''#6a787a'', ''#e9653b'', ''#39e9a8'', ''#e5b684'', ''#44aae6'', ''#e17599'', ''#3dd5e7'', ''#c3dde1'',
        ''#598489'', ''#e65029'', ''#00ff9a'', ''#e89440'', ''#009afb'', ''#ff578f'', ''#5fffff'', ''#d9fbff''],
     scheme ''xterm'' ''XTerm'' ''#000000'' ''#ffffff'' ''#ffffff''
       [''#000000'', ''#cd0000'', ''#00cd00'', ''#cdcd00'', ''#0000ee'', ''#cd00cd'', ''#00cdcd'', ''#e5e5e5'',
        ''#7f7f7f'', ''#ff0000'', ''#00ff00'', ''#ffff00'', ''#5c5cff'', ''#ff00ff'', ''#00ffff'', ''#ffffff''],
     scheme ''high-contrast'' ''High Contrast'' ''#000000'' ''#cfcfcf'' ''#cfcfcf''
       [''#1e1e1e'', ''#c01c28'', ''#26a269'', ''#a2734c'', ''#12488b'', ''#a347ba'', ''#2aa1b3'', ''#cfcfcf'',
        ''#5d5d5d'', ''#f66151'', ''#33d17a'', ''#e9ad0c'', ''#2a7bde'', ''#c061cb'', ''#33c7de'', ''#ffffff'']
   ]"

section \<open>Lookup\<close>

definition epimone_palettes :: "EpimonePalette list \<times> nat" where
  "epimone_palettes = (epimone_palette_table, length epimone_palette_table)"

definition epimone_palette_by_id :: "byte list option \<Rightarrow> EpimonePalette option" where
  "epimone_palette_by_id name =
     (case name of None \<Rightarrow> None | Some x \<Rightarrow> find (\<lambda>p. lit (pl_id p) = x) epimone_palette_table)"

section \<open>Colours\<close>

text \<open>All or nothing: background, foreground, cursor and the sixteen ANSI colours.\<close>

fun parse_all :: "(byte list \<Rightarrow> 'c option) \<Rightarrow> string list \<Rightarrow> 'c list option" where
  "parse_all parse [] = Some []"
| "parse_all parse (s # ss) =
     (case parse (lit s) of
        None \<Rightarrow> None
      | Some c \<Rightarrow> (case parse_all parse ss of None \<Rightarrow> None | Some cs \<Rightarrow> Some (c # cs)))"

definition epimone_palette_get_rgba ::
  "(byte list \<Rightarrow> 'c option) \<Rightarrow> EpimonePalette option \<Rightarrow> ('c \<times> 'c \<times> 'c \<times> 'c list) option" where
  "epimone_palette_get_rgba parse p =
     (case p of
        None \<Rightarrow> None
      | Some p \<Rightarrow>
          (case (parse (lit (pl_background p)), parse (lit (pl_foreground p)), parse (lit (pl_cursor p))) of
             (Some bg, Some fg, Some cursor) \<Rightarrow>
               map_option (\<lambda>ansi. (bg, fg, cursor, ansi)) (parse_all parse (take 16 (pl_ansi p)))
           | _ \<Rightarrow> None))"

text \<open>A hash sign and six hexadecimal digits, and what GDK's manual says of it.\<close>

definition hex_colour :: "string \<Rightarrow> bool" where
  "hex_colour s \<longleftrightarrow> (case s of [] \<Rightarrow> False | c # r \<Rightarrow> c = CHR ''#'' \<and> length r = 6 \<and> set r \<subseteq> set ''0123456789abcdef'')"

definition parses_hex :: "(byte list \<Rightarrow> 'c option) \<Rightarrow> bool" where
  "parses_hex parse \<longleftrightarrow> (\<forall>s. hex_colour s \<longrightarrow> parse (lit s) \<noteq> None)"

text \<open>A scheme is complete when it has sixteen ANSI colours and every colour is such a text.\<close>

definition full_scheme :: "EpimonePalette \<Rightarrow> bool" where
  "full_scheme p \<longleftrightarrow>
     length (pl_ansi p) = 16 \<and> list_all hex_colour (pl_background p # pl_foreground p # pl_cursor p # pl_ansi p)"

lemma table_complete: "list_all full_scheme epimone_palette_table"
  by (simp add: epimone_palette_table_def scheme_def full_scheme_def hex_colour_def)

lemma table_ids: "distinct (map pl_id epimone_palette_table)"
  by (simp add: epimone_palette_table_def scheme_def)

lemma byte_of_char_inj: "(of_char c :: 8 word) = of_char d \<longleftrightarrow> c = d"
proof -
  have "unat (of_char a :: 8 word) = of_char a" for a
    using nat_of_char_less_256[of a] unat_of_nat[of "of_char a :: nat", where 'a = 8] by (simp add: of_nat_of_char)
  then show ?thesis using of_char_eq_iff by metis
qed

lemma lit_inj [simp]: "lit s = lit t \<longleftrightarrow> s = t"
  by (simp add: lit_def byte_of_char_inj inj_def inj_map_eq_map)

lemma parse_all_ok: "parses_hex parse \<Longrightarrow> list_all hex_colour ss \<Longrightarrow> \<exists>cs. parse_all parse ss = Some cs \<and> length cs = length ss"
  by (induction ss) (auto simp: parses_hex_def)

lemma rgba_ok:
  assumes "parses_hex parse" and "full_scheme p"
  shows "\<exists>bg fg cursor ansi. epimone_palette_get_rgba parse (Some p) = Some (bg, fg, cursor, ansi) \<and> length ansi = 16"
proof -
  have hex: "list_all hex_colour (pl_ansi p)" "length (pl_ansi p) = 16" and
    "parse (lit (pl_background p)) \<noteq> None" "parse (lit (pl_foreground p)) \<noteq> None" "parse (lit (pl_cursor p)) \<noteq> None"
    using assms by (auto simp: full_scheme_def parses_hex_def)
  then show ?thesis using parse_all_ok[OF assms(1) hex(1)] by (auto simp: epimone_palette_get_rgba_def)
qed

lemma by_id_table: "epimone_palette_by_id name = Some p \<Longrightarrow> p \<in> set epimone_palette_table \<and> Some (lit (pl_id p)) = name"
  by (auto simp: epimone_palette_by_id_def find_Some_iff split: option.splits)

lemma default_scheme: "epimone_palette_by_id (Some (lit ''epimone-black'')) = Some (hd epimone_palette_table)"
  by (simp add: epimone_palette_by_id_def epimone_palette_table_def scheme_def)

end
