(* ===== verification/Appearance.thy ===== *)
theory Appearance
  imports Palettes Windows
begin

text \<open>
  How terminals look and behave (src/src/epimone-page.c): one desired appearance for the process, the
  registry of the terminals that wear it and those who are told when colours or font change. A colour
  is whatever GDK parses one to.
\<close>

section \<open>Choices\<close>

datatype EpimoneCursorShape = EPIMONE_CURSOR_BLOCK | EPIMONE_CURSOR_IBEAM | EPIMONE_CURSOR_UNDERLINE

datatype VteCursorShape = VTE_CURSOR_SHAPE_BLOCK | VTE_CURSOR_SHAPE_IBEAM | VTE_CURSOR_SHAPE_UNDERLINE

datatype EpimoneEraseBinding =
    EPIMONE_ERASE_AUTO | EPIMONE_ERASE_ASCII_BACKSPACE | EPIMONE_ERASE_ASCII_DELETE
  | EPIMONE_ERASE_DELETE_SEQUENCE | EPIMONE_ERASE_TTY

datatype VteEraseBinding =
    VTE_ERASE_AUTO | VTE_ERASE_ASCII_BACKSPACE | VTE_ERASE_ASCII_DELETE | VTE_ERASE_DELETE_SEQUENCE | VTE_ERASE_TTY

fun epimone_cursor_shape_to_vte :: "EpimoneCursorShape \<Rightarrow> VteCursorShape" where
  "epimone_cursor_shape_to_vte EPIMONE_CURSOR_IBEAM = VTE_CURSOR_SHAPE_IBEAM"
| "epimone_cursor_shape_to_vte EPIMONE_CURSOR_UNDERLINE = VTE_CURSOR_SHAPE_UNDERLINE"
| "epimone_cursor_shape_to_vte EPIMONE_CURSOR_BLOCK = VTE_CURSOR_SHAPE_BLOCK"

definition epimone_cursor_shape_from_id :: "byte list \<Rightarrow> EpimoneCursorShape" where
  "epimone_cursor_shape_from_id name =
     (if name = lit ''ibeam'' then EPIMONE_CURSOR_IBEAM
      else if name = lit ''underline'' then EPIMONE_CURSOR_UNDERLINE else EPIMONE_CURSOR_BLOCK)"

fun epimone_cursor_shape_to_id :: "EpimoneCursorShape \<Rightarrow> byte list" where
  "epimone_cursor_shape_to_id EPIMONE_CURSOR_IBEAM = lit ''ibeam''"
| "epimone_cursor_shape_to_id EPIMONE_CURSOR_UNDERLINE = lit ''underline''"
| "epimone_cursor_shape_to_id EPIMONE_CURSOR_BLOCK = lit ''block''"

fun epimone_erase_binding_to_vte :: "EpimoneEraseBinding \<Rightarrow> VteEraseBinding" where
  "epimone_erase_binding_to_vte EPIMONE_ERASE_ASCII_BACKSPACE = VTE_ERASE_ASCII_BACKSPACE"
| "epimone_erase_binding_to_vte EPIMONE_ERASE_ASCII_DELETE = VTE_ERASE_ASCII_DELETE"
| "epimone_erase_binding_to_vte EPIMONE_ERASE_DELETE_SEQUENCE = VTE_ERASE_DELETE_SEQUENCE"
| "epimone_erase_binding_to_vte EPIMONE_ERASE_TTY = VTE_ERASE_TTY"
| "epimone_erase_binding_to_vte EPIMONE_ERASE_AUTO = VTE_ERASE_AUTO"

definition epimone_erase_binding_from_id :: "byte list \<Rightarrow> EpimoneEraseBinding" where
  "epimone_erase_binding_from_id name =
     (if name = lit ''ascii-backspace'' then EPIMONE_ERASE_ASCII_BACKSPACE
      else if name = lit ''ascii-delete'' then EPIMONE_ERASE_ASCII_DELETE
      else if name = lit ''delete-sequence'' then EPIMONE_ERASE_DELETE_SEQUENCE
      else if name = lit ''tty'' then EPIMONE_ERASE_TTY else EPIMONE_ERASE_AUTO)"

fun epimone_erase_binding_to_id :: "EpimoneEraseBinding \<Rightarrow> byte list" where
  "epimone_erase_binding_to_id EPIMONE_ERASE_ASCII_BACKSPACE = lit ''ascii-backspace''"
| "epimone_erase_binding_to_id EPIMONE_ERASE_ASCII_DELETE = lit ''ascii-delete''"
| "epimone_erase_binding_to_id EPIMONE_ERASE_DELETE_SEQUENCE = lit ''delete-sequence''"
| "epimone_erase_binding_to_id EPIMONE_ERASE_TTY = lit ''tty''"
| "epimone_erase_binding_to_id EPIMONE_ERASE_AUTO = lit ''auto''"

definition epimone_preserve_directory_from_id :: "byte list \<Rightarrow> preserve" where
  "epimone_preserve_directory_from_id name =
     (if name = lit ''never'' then Preserve_never
      else if name = lit ''safe'' then Preserve_safe else Preserve_always)"

fun epimone_preserve_directory_to_id :: "preserve \<Rightarrow> byte list" where
  "epimone_preserve_directory_to_id Preserve_never = lit ''never''"
| "epimone_preserve_directory_to_id Preserve_safe = lit ''safe''"
| "epimone_preserve_directory_to_id Preserve_always = lit ''always''"

section \<open>State\<close>

text \<open>The desired appearance. Colours come as one set: background, foreground, cursor, palette.\<close>

record 'c appearance =
  aa_colors :: "('c \<times> 'c \<times> 'c \<times> 'c list) option"
  aa_font :: "byte list option"
  aa_cursor_shape :: EpimoneCursorShape
  aa_scrollback_lines :: int
  aa_audible_bell :: bool
  aa_scroll_on_output :: bool
  aa_scroll_on_keystroke :: bool
  aa_backspace_binding :: EpimoneEraseBinding
  aa_delete_binding :: EpimoneEraseBinding
  aa_cjk_ambiguous_width :: int
  aa_default_columns :: int
  aa_default_rows :: int

definition epimone_appearance :: "'c appearance" where
  "epimone_appearance =
     \<lparr>aa_colors = None, aa_font = None, aa_cursor_shape = EPIMONE_CURSOR_BLOCK, aa_scrollback_lines = 10000,
      aa_audible_bell = True, aa_scroll_on_output = False, aa_scroll_on_keystroke = True,
      aa_backspace_binding = EPIMONE_ERASE_AUTO, aa_delete_binding = EPIMONE_ERASE_AUTO, aa_cjk_ambiguous_width = 1,
      aa_default_columns = 80, aa_default_rows = 24\<rparr>"

text \<open>What a VTE terminal is set to; \<open>vt_suppressed\<close> is set while its replay is fed.\<close>

record 'c vte =
  vt_colors :: "('c \<times> 'c \<times> 'c list) option"
  vt_color_cursor :: "'c option"
  vt_font :: "byte list option"
  vt_cursor_shape :: VteCursorShape
  vt_scrollback_lines :: int
  vt_audible_bell :: bool
  vt_scroll_on_output :: bool
  vt_scroll_on_keystroke :: bool
  vt_backspace_binding :: VteEraseBinding
  vt_delete_binding :: VteEraseBinding
  vt_cjk_ambiguous_width :: int
  vt_size :: "int \<times> int"
  vt_suppressed :: bool

text \<open>
  The process: the appearance, all live terminals, newest first, what each is set to, those who
  listen, newest first, and whom they told so far; the policy for working directories, the padding, and
  the colours that the chrome was given last.
\<close>

record 'c registry =
  rg_appearance :: "'c appearance"
  rg_terminals :: "nat list"
  rg_vte :: "nat \<Rightarrow> 'c vte"
  rg_watches :: "(nat \<times> nat) list"
  rg_told :: "(nat \<times> nat) list"
  rg_preserve :: preserve
  rg_padding :: "int option"
  rg_dim_inactive :: bool
  rg_chrome :: "('c \<times> 'c) option"

section \<open>Wearing it\<close>

definition vte_bell :: "'c appearance \<Rightarrow> 'c vte \<Rightarrow> 'c vte" where
  "vte_bell a t = t\<lparr>vt_audible_bell := aa_audible_bell a \<and> \<not> vt_suppressed t\<rparr>"

definition epimone_apply_appearance_to :: "'c appearance \<Rightarrow> 'c vte \<Rightarrow> 'c vte" where
  "epimone_apply_appearance_to a t =
     (let t1 = (case aa_colors a of
                  None \<Rightarrow> t
                | Some (bg, fg, cursor, palette) \<Rightarrow>
                    t\<lparr>vt_colors := Some (fg, bg, palette), vt_color_cursor := Some cursor\<rparr>);
          t2 = t1\<lparr>vt_font := (case aa_font a of None \<Rightarrow> None | Some n \<Rightarrow> if n = [] then None else Some n),
                  vt_cursor_shape := epimone_cursor_shape_to_vte (aa_cursor_shape a),
                  vt_scrollback_lines := aa_scrollback_lines a\<rparr>
      in (vte_bell a t2)\<lparr>vt_scroll_on_output := aa_scroll_on_output a,
            vt_scroll_on_keystroke := aa_scroll_on_keystroke a,
            vt_backspace_binding := epimone_erase_binding_to_vte (aa_backspace_binding a),
            vt_delete_binding := epimone_erase_binding_to_vte (aa_delete_binding a),
            vt_cjk_ambiguous_width := aa_cjk_ambiguous_width a\<rparr>)"

definition epimone_terminals_apply_appearance :: "nat \<Rightarrow> 'c registry \<Rightarrow> 'c registry" where
  "epimone_terminals_apply_appearance x g =
     g\<lparr>rg_vte := (rg_vte g)(x := epimone_apply_appearance_to (rg_appearance g) (rg_vte g x))\<rparr>"

definition epimone_apply_appearance_to_all :: "'c registry \<Rightarrow> 'c registry" where
  "epimone_apply_appearance_to_all g = fold epimone_terminals_apply_appearance (rg_terminals g) g"

text \<open>A terminal is built at the default size, registered and dressed.\<close>

definition epimone_register_terminal :: "nat \<Rightarrow> 'c registry \<Rightarrow> 'c registry" where
  "epimone_register_terminal x g = epimone_terminals_apply_appearance x (g\<lparr>rg_terminals := x # rg_terminals g\<rparr>)"

definition epimone_page_make_vte :: "nat \<Rightarrow> 'c vte \<Rightarrow> 'c registry \<Rightarrow> 'c registry" where
  "epimone_page_make_vte x fresh g =
     epimone_register_terminal x
       (g\<lparr>rg_vte := (rg_vte g)(x := fresh\<lparr>vt_size := (aa_default_columns (rg_appearance g), aa_default_rows (rg_appearance g)),
                                          vt_suppressed := False\<rparr>)\<rparr>)"

definition epimone_terminal_destroyed_cb :: "nat \<Rightarrow> 'c registry \<Rightarrow> 'c registry" where
  "epimone_terminal_destroyed_cb x g = g\<lparr>rg_terminals := remove1 x (rg_terminals g)\<rparr>"

definition epimone_terminal_set_bell_suppressed :: "nat \<Rightarrow> bool \<Rightarrow> 'c registry \<Rightarrow> 'c registry" where
  "epimone_terminal_set_bell_suppressed x b g =
     g\<lparr>rg_vte := (rg_vte g)(x := vte_bell (rg_appearance g) ((rg_vte g x)\<lparr>vt_suppressed := b\<rparr>))\<rparr>"

section \<open>Listeners\<close>

text \<open>A listener is a function and its data.\<close>

definition epimone_terminals_add_appearance_listener :: "nat \<times> nat \<Rightarrow> 'c registry \<Rightarrow> 'c registry" where
  "epimone_terminals_add_appearance_listener w g = g\<lparr>rg_watches := w # rg_watches g\<rparr>"

definition epimone_terminals_remove_appearance_listener :: "nat \<times> nat \<Rightarrow> 'c registry \<Rightarrow> 'c registry" where
  "epimone_terminals_remove_appearance_listener w g = g\<lparr>rg_watches := remove1 w (rg_watches g)\<rparr>"

definition epimone_appearance_notify :: "'c registry \<Rightarrow> 'c registry" where
  "epimone_appearance_notify g = g\<lparr>rg_told := rg_told g @ rg_watches g\<rparr>"

section \<open>Setters\<close>

definition set_look :: "('c appearance \<Rightarrow> 'c appearance) \<Rightarrow> 'c registry \<Rightarrow> 'c registry" where
  "set_look h g = epimone_apply_appearance_to_all (g\<lparr>rg_appearance := h (rg_appearance g)\<rparr>)"

definition epimone_terminals_set_colors :: "'c option \<Rightarrow> 'c option \<Rightarrow> 'c option \<Rightarrow> 'c list \<Rightarrow> 'c registry \<Rightarrow> 'c registry" where
  "epimone_terminals_set_colors bg fg cursor palette g =
     (case (bg, fg, cursor) of
        (Some b, Some f, Some c) \<Rightarrow>
          epimone_appearance_notify (set_look (\<lambda>a. a\<lparr>aa_colors := Some (b, f, c, take 16 palette)\<rparr>) g)
      | _ \<Rightarrow> g)"

definition epimone_terminals_set_font :: "byte list option \<Rightarrow> 'c registry \<Rightarrow> 'c registry" where
  "epimone_terminals_set_font name g = epimone_appearance_notify (set_look (\<lambda>a. a\<lparr>aa_font := name\<rparr>) g)"

definition epimone_terminals_set_cursor_shape :: "EpimoneCursorShape \<Rightarrow> 'c registry \<Rightarrow> 'c registry" where
  "epimone_terminals_set_cursor_shape s = set_look (\<lambda>a. a\<lparr>aa_cursor_shape := s\<rparr>)"

definition epimone_terminals_set_scrollback_lines :: "int \<Rightarrow> 'c registry \<Rightarrow> 'c registry" where
  "epimone_terminals_set_scrollback_lines n = set_look (\<lambda>a. a\<lparr>aa_scrollback_lines := (if n < 0 then -1 else n)\<rparr>)"

definition epimone_terminals_set_audible_bell :: "bool \<Rightarrow> 'c registry \<Rightarrow> 'c registry" where
  "epimone_terminals_set_audible_bell b = set_look (\<lambda>a. a\<lparr>aa_audible_bell := b\<rparr>)"

definition epimone_terminals_set_scroll_on_output :: "bool \<Rightarrow> 'c registry \<Rightarrow> 'c registry" where
  "epimone_terminals_set_scroll_on_output b = set_look (\<lambda>a. a\<lparr>aa_scroll_on_output := b\<rparr>)"

definition epimone_terminals_set_scroll_on_keystroke :: "bool \<Rightarrow> 'c registry \<Rightarrow> 'c registry" where
  "epimone_terminals_set_scroll_on_keystroke b = set_look (\<lambda>a. a\<lparr>aa_scroll_on_keystroke := b\<rparr>)"

definition epimone_terminals_set_backspace_binding :: "EpimoneEraseBinding \<Rightarrow> 'c registry \<Rightarrow> 'c registry" where
  "epimone_terminals_set_backspace_binding k = set_look (\<lambda>a. a\<lparr>aa_backspace_binding := k\<rparr>)"

definition epimone_terminals_set_delete_binding :: "EpimoneEraseBinding \<Rightarrow> 'c registry \<Rightarrow> 'c registry" where
  "epimone_terminals_set_delete_binding k = set_look (\<lambda>a. a\<lparr>aa_delete_binding := k\<rparr>)"

definition epimone_terminals_set_cjk_ambiguous_width :: "int \<Rightarrow> 'c registry \<Rightarrow> 'c registry" where
  "epimone_terminals_set_cjk_ambiguous_width n = set_look (\<lambda>a. a\<lparr>aa_cjk_ambiguous_width := (if n = 2 then 2 else 1)\<rparr>)"

definition epimone_terminals_set_preserve_directory :: "preserve \<Rightarrow> 'c registry \<Rightarrow> 'c registry" where
  "epimone_terminals_set_preserve_directory p g = g\<lparr>rg_preserve := p\<rparr>"

definition epimone_terminals_set_default_size :: "int \<Rightarrow> int \<Rightarrow> 'c registry \<Rightarrow> 'c registry" where
  "epimone_terminals_set_default_size columns rows g =
     g\<lparr>rg_appearance := (rg_appearance g)\<lparr>aa_default_columns := max columns 1, aa_default_rows := max rows 1\<rparr>\<rparr>"

text \<open>The padding is one rule of CSS for all terminals.\<close>

definition epimone_terminals_set_padding :: "int \<Rightarrow> 'c registry \<Rightarrow> 'c registry" where
  "epimone_terminals_set_padding px g = g\<lparr>rg_padding := Some (min 32 (max 0 px))\<rparr>"

text \<open>Every page, in a window or held elsewhere, dims its panes anew.\<close>

definition on_all_pages :: "('d page \<Rightarrow> 'd page) \<Rightarrow> ('d, 'w) gui \<Rightarrow> ('d, 'w) gui" where
  "on_all_pages h g =
     (in_app (\<lambda>a. a\<lparr>ap_windows := map (\<lambda>w. w\<lparr>wn_pages := map h (wn_pages w)\<rparr>) (ap_windows a)\<rparr>) g)
       \<lparr>gu_held := (\<lambda>x. map_option h (gu_held g x))\<rparr>"

definition epimone_pages_set_dim_inactive ::
  "'d page_env \<Rightarrow> bool \<Rightarrow> ('d, 'w) gui \<times> 'c registry \<Rightarrow> ('d, 'w) gui \<times> 'c registry" where
  "epimone_pages_set_dim_inactive e b = (\<lambda>(g, r).
     (on_all_pages (epimone_page_update_dimming (e\<lparr>pe_dim_inactive := b\<rparr>)) g, r\<lparr>rg_dim_inactive := b\<rparr>))"

end
