(* ===== verification/Preferences.thy ===== *)
theory Preferences
  imports Shortcuts Appearance
begin

text \<open>
  The preferences window (src/src/epimone-settings.c) and what startup reads (src/src/main.c): the stored
  keys, the handlers that apply a changed key, the rows that write keys when something is picked, and the
  appearance that a start of the process takes from the keys. A write of a key calls its handler at once;
  a combo row that is set to another entry reports that as a pick, which writes the key again.
\<close>

section \<open>Keys\<close>

record gsettings =
  gs_theme :: "byte list"
  gs_font_name :: "byte list"
  gs_cursor_shape :: "byte list"
  gs_cell_padding :: int
  gs_dim_inactive_panes :: bool
  gs_scrollback_unlimited :: bool
  gs_scrollback_lines :: int
  gs_audible_bell :: bool
  gs_scroll_on_output :: bool
  gs_scroll_on_keystroke :: bool
  gs_default_columns :: int
  gs_default_rows :: int
  gs_tab_position :: "byte list"
  gs_tab_bar_policy :: "byte list"
  gs_confirm_close :: bool
  gs_backspace_binding :: "byte list"
  gs_delete_binding :: "byte list"
  gs_cjk_ambiguous_width :: "byte list"
  gs_preserve_directory :: "byte list"
  gs_shell_path :: "byte list"

text \<open>A key with a value to write to it.\<close>

datatype setting =
    Theme "byte list" | Font_name "byte list" | Cursor_shape "byte list" | Cell_padding int | Dim_inactive_panes bool
  | Scrollback_unlimited bool | Scrollback_lines int | Audible_bell bool | Scroll_on_output bool
  | Scroll_on_keystroke bool | Default_columns int | Default_rows int | Tab_position "byte list"
  | Tab_bar_policy "byte list" | Confirm_close bool | Backspace_binding "byte list" | Delete_binding "byte list"
  | Cjk_ambiguous_width "byte list" | Preserve_directory "byte list" | Shell_path "byte list"

fun store_key :: "setting \<Rightarrow> gsettings \<Rightarrow> gsettings" where
  "store_key (Theme x) s = s\<lparr>gs_theme := x\<rparr>"
| "store_key (Font_name x) s = s\<lparr>gs_font_name := x\<rparr>"
| "store_key (Cursor_shape x) s = s\<lparr>gs_cursor_shape := x\<rparr>"
| "store_key (Cell_padding n) s = s\<lparr>gs_cell_padding := n\<rparr>"
| "store_key (Dim_inactive_panes b) s = s\<lparr>gs_dim_inactive_panes := b\<rparr>"
| "store_key (Scrollback_unlimited b) s = s\<lparr>gs_scrollback_unlimited := b\<rparr>"
| "store_key (Scrollback_lines n) s = s\<lparr>gs_scrollback_lines := n\<rparr>"
| "store_key (Audible_bell b) s = s\<lparr>gs_audible_bell := b\<rparr>"
| "store_key (Scroll_on_output b) s = s\<lparr>gs_scroll_on_output := b\<rparr>"
| "store_key (Scroll_on_keystroke b) s = s\<lparr>gs_scroll_on_keystroke := b\<rparr>"
| "store_key (Default_columns n) s = s\<lparr>gs_default_columns := n\<rparr>"
| "store_key (Default_rows n) s = s\<lparr>gs_default_rows := n\<rparr>"
| "store_key (Tab_position x) s = s\<lparr>gs_tab_position := x\<rparr>"
| "store_key (Tab_bar_policy x) s = s\<lparr>gs_tab_bar_policy := x\<rparr>"
| "store_key (Confirm_close b) s = s\<lparr>gs_confirm_close := b\<rparr>"
| "store_key (Backspace_binding x) s = s\<lparr>gs_backspace_binding := x\<rparr>"
| "store_key (Delete_binding x) s = s\<lparr>gs_delete_binding := x\<rparr>"
| "store_key (Cjk_ambiguous_width x) s = s\<lparr>gs_cjk_ambiguous_width := x\<rparr>"
| "store_key (Preserve_directory x) s = s\<lparr>gs_preserve_directory := x\<rparr>"
| "store_key (Shell_path x) s = s\<lparr>gs_shell_path := x\<rparr>"

section \<open>Rows\<close>

datatype combo =
    Cursor_combo | Position_combo | Policy_combo | Backspace_combo | Delete_combo | Cjk_combo | Preserve_combo | Shell_combo

definition epimone_tab_positions :: "byte list list" where "epimone_tab_positions = [lit ''top'', lit ''bottom'']"
definition epimone_tab_policies :: "byte list list" where
  "epimone_tab_policies = [lit ''always'', lit ''multiple'', lit ''never'']"
definition epimone_erase_ids :: "byte list list" where
  "epimone_erase_ids =
     [lit ''auto'', lit ''ascii-delete'', lit ''delete-sequence'', lit ''ascii-backspace'', lit ''tty'']"
definition epimone_cjk_widths :: "byte list list" where "epimone_cjk_widths = [lit ''narrow'', lit ''wide'']"
definition epimone_preserve_dirs :: "byte list list" where
  "epimone_preserve_dirs = [lit ''never'', lit ''safe'', lit ''always'']"

definition epimone_index_of :: "byte list list \<Rightarrow> byte list \<Rightarrow> nat \<Rightarrow> nat" where
  "epimone_index_of names x fallback = (case find_index (\<lambda>y. y = x) names of Some i \<Rightarrow> i | None \<Rightarrow> fallback)"

text \<open>
  The entries of the shell row: the system's default, then the executable absolute paths of /etc/shells,
  each once. Stripping a line and asking whether a file can be executed are parameters.
\<close>

fun text_lines :: "byte list \<Rightarrow> byte list \<Rightarrow> byte list list" where
  "text_lines line [] = [line]"
| "text_lines line (b # bs) = (if b = 0x0a then line # text_lines [] bs else text_lines (line @ [b]) bs)"

definition add_shell :: "(byte list \<Rightarrow> byte list) \<Rightarrow> (byte list \<Rightarrow> bool) \<Rightarrow> byte list \<Rightarrow> byte list list \<Rightarrow> byte list list" where
  "add_shell strip executable l paths =
     (let line = strip l in
      if take 1 line \<noteq> lit ''/'' \<or> \<not> executable line then paths
      else if line \<in> set (tl paths) then paths else paths @ [line])"

definition epimone_settings_shell_paths ::
  "(byte list \<Rightarrow> byte list) \<Rightarrow> (byte list \<Rightarrow> bool) \<Rightarrow> byte list option \<Rightarrow> byte list list" where
  "epimone_settings_shell_paths strip executable contents =
     (case contents of
        None \<Rightarrow> [[]]
      | Some t \<Rightarrow> fold (add_shell strip executable) (if t = [] then [] else text_lines [] t) [[]])"

section \<open>State\<close>

text \<open>
  The windows, the appearance, the stored keys, and of the preferences window: whether it is open, the
  entry selected in each combo row, the palette cards with the ring, the entries of the shell row.
\<close>

record ('c, 'd, 'w) prefs_world =
  pw_gui :: "('d, 'w) gui"
  pw_registry :: "'c registry"
  pw_settings :: gsettings
  pw_open :: bool
  pw_selected :: "combo \<Rightarrow> nat"
  pw_marked :: "byte list set"
  pw_shells :: "byte list list"

text \<open>What the handlers need of outside: the reading of colours and the environment of the pages.\<close>

record ('c, 'd) prefs_env =
  px_parse :: "byte list \<Rightarrow> 'c option"
  px_page_env :: "'d page_env"

definition in_registry :: "('c registry \<Rightarrow> 'c registry) \<Rightarrow> ('c, 'd, 'w) prefs_world \<Rightarrow> ('c, 'd, 'w) prefs_world" where
  "in_registry h w = w\<lparr>pw_registry := h (pw_registry w)\<rparr>"

definition in_windows :: "(('d, 'w) gui \<Rightarrow> ('d, 'w) gui) \<Rightarrow> ('c, 'd, 'w) prefs_world \<Rightarrow> ('c, 'd, 'w) prefs_world" where
  "in_windows h w = w\<lparr>pw_gui := h (pw_gui w)\<rparr>"

section \<open>Applying a key\<close>

text \<open>The scheme of a stored theme; the built-in one when it is unknown.\<close>

definition resolved :: "byte list \<Rightarrow> EpimonePalette option" where
  "resolved name = (case epimone_palette_by_id (Some name) of
     None \<Rightarrow> epimone_palette_by_id (Some (lit ''epimone-black'')) | Some p \<Rightarrow> Some p)"

definition epimone_settings_apply_theme ::
  "('c, 'd) prefs_env \<Rightarrow> byte list \<Rightarrow> ('c, 'd, 'w) prefs_world \<Rightarrow> ('c, 'd, 'w) prefs_world" where
  "epimone_settings_apply_theme e name w =
     (case epimone_palette_get_rgba (px_parse e) (resolved name) of
        None \<Rightarrow> w
      | Some (bg, fg, cursor, ansi) \<Rightarrow>
          in_registry (\<lambda>g. (epimone_terminals_set_colors (Some bg) (Some fg) (Some cursor) ansi g)
                             \<lparr>rg_chrome := Some (bg, fg)\<rparr>) w)"

definition epimone_settings_mark_selected_theme :: "byte list \<Rightarrow> ('c, 'd, 'w) prefs_world \<Rightarrow> ('c, 'd, 'w) prefs_world" where
  "epimone_settings_mark_selected_theme name w =
     w\<lparr>pw_marked := {x \<in> set (map (lit \<circ> pl_id) epimone_palette_table). x = name}\<rparr>"

definition effective_scrollback :: "gsettings \<Rightarrow> int" where
  "effective_scrollback s = (if gs_scrollback_unlimited s then -1 else gs_scrollback_lines s)"

definition epimone_settings_apply_scrollback :: "('c, 'd, 'w) prefs_world \<Rightarrow> ('c, 'd, 'w) prefs_world" where
  "epimone_settings_apply_scrollback w =
     in_registry (epimone_terminals_set_scrollback_lines (effective_scrollback (pw_settings w))) w"

definition set_dim :: "('c, 'd) prefs_env \<Rightarrow> bool \<Rightarrow> ('c, 'd, 'w) prefs_world \<Rightarrow> ('c, 'd, 'w) prefs_world" where
  "set_dim e b w =
     (case epimone_pages_set_dim_inactive (px_page_env e) b (pw_gui w, pw_registry w) of
        (g, r) \<Rightarrow> w\<lparr>pw_gui := g, pw_registry := r\<rparr>)"

definition cjk_of :: "byte list \<Rightarrow> int" where "cjk_of name = (if name = lit ''wide'' then 2 else 1)"

text \<open>
  The handlers of changed keys, by key. Each applies what is stored now; the last thing that some do is
  to select an entry of their combo row.
\<close>

definition epimone_settings_theme_key_changed_cb where
  "epimone_settings_theme_key_changed_cb e w =
     (let name = gs_theme (pw_settings w) in
      (epimone_settings_mark_selected_theme name (epimone_settings_apply_theme e name w), None))"

definition epimone_settings_font_key_changed_cb where
  "epimone_settings_font_key_changed_cb w =
     (in_registry (epimone_terminals_set_font (Some (gs_font_name (pw_settings w)))) w, None)"

definition index_of_shape :: "EpimoneCursorShape \<Rightarrow> nat" where
  "index_of_shape s = (case s of EPIMONE_CURSOR_BLOCK \<Rightarrow> 0 | EPIMONE_CURSOR_IBEAM \<Rightarrow> 1 | EPIMONE_CURSOR_UNDERLINE \<Rightarrow> 2)"

definition epimone_settings_cursor_key_changed_cb where
  "epimone_settings_cursor_key_changed_cb w =
     (let s = epimone_cursor_shape_from_id (gs_cursor_shape (pw_settings w)) in
      (in_registry (epimone_terminals_set_cursor_shape s) w, Some (Cursor_combo, index_of_shape s)))"

definition epimone_settings_padding_key_changed_cb where
  "epimone_settings_padding_key_changed_cb w =
     (in_registry (epimone_terminals_set_padding (gs_cell_padding (pw_settings w))) w, None)"

definition epimone_settings_scrollback_key_changed_cb where
  "epimone_settings_scrollback_key_changed_cb w = (epimone_settings_apply_scrollback w, None)"

definition epimone_settings_bell_key_changed_cb where
  "epimone_settings_bell_key_changed_cb w =
     (in_registry (epimone_terminals_set_audible_bell (gs_audible_bell (pw_settings w))) w, None)"

definition epimone_settings_scroll_output_key_changed_cb where
  "epimone_settings_scroll_output_key_changed_cb w =
     (in_registry (epimone_terminals_set_scroll_on_output (gs_scroll_on_output (pw_settings w))) w, None)"

definition epimone_settings_scroll_keystroke_key_changed_cb where
  "epimone_settings_scroll_keystroke_key_changed_cb w =
     (in_registry (epimone_terminals_set_scroll_on_keystroke (gs_scroll_on_keystroke (pw_settings w))) w, None)"

definition epimone_settings_dim_inactive_key_changed_cb where
  "epimone_settings_dim_inactive_key_changed_cb e w = (set_dim e (gs_dim_inactive_panes (pw_settings w)) w, None)"

definition epimone_settings_tab_position_key_changed_cb where
  "epimone_settings_tab_position_key_changed_cb w =
     (let name = gs_tab_position (pw_settings w) in
      (in_windows (epimone_windows_set_tab_bar_at_bottom (name = lit ''bottom'')) w,
       Some (Position_combo, epimone_index_of epimone_tab_positions name 0)))"

definition epimone_settings_tab_policy_key_changed_cb where
  "epimone_settings_tab_policy_key_changed_cb w =
     (let name = gs_tab_bar_policy (pw_settings w) in
      (in_windows (epimone_windows_set_tab_bar_policy (epimone_tab_bar_policy_from_id (Some name))) w,
       Some (Policy_combo, epimone_index_of epimone_tab_policies name 1)))"

definition epimone_settings_default_size_key_changed_cb where
  "epimone_settings_default_size_key_changed_cb w =
     (in_registry (epimone_terminals_set_default_size (gs_default_columns (pw_settings w)) (gs_default_rows (pw_settings w))) w,
      None)"

definition epimone_settings_confirm_close_key_changed_cb where
  "epimone_settings_confirm_close_key_changed_cb w =
     (in_windows (epimone_windows_set_confirm_close (gs_confirm_close (pw_settings w))) w, None)"

definition epimone_settings_backspace_key_changed_cb where
  "epimone_settings_backspace_key_changed_cb w =
     (let name = gs_backspace_binding (pw_settings w) in
      (in_registry (epimone_terminals_set_backspace_binding (epimone_erase_binding_from_id name)) w,
       Some (Backspace_combo, epimone_index_of epimone_erase_ids name 0)))"

definition epimone_settings_delete_key_changed_cb where
  "epimone_settings_delete_key_changed_cb w =
     (let name = gs_delete_binding (pw_settings w) in
      (in_registry (epimone_terminals_set_delete_binding (epimone_erase_binding_from_id name)) w,
       Some (Delete_combo, epimone_index_of epimone_erase_ids name 0)))"

definition epimone_settings_cjk_key_changed_cb where
  "epimone_settings_cjk_key_changed_cb w =
     (let name = gs_cjk_ambiguous_width (pw_settings w) in
      (in_registry (epimone_terminals_set_cjk_ambiguous_width (cjk_of name)) w,
       Some (Cjk_combo, epimone_index_of epimone_cjk_widths name 0)))"

definition epimone_settings_preserve_key_changed_cb where
  "epimone_settings_preserve_key_changed_cb w =
     (let name = gs_preserve_directory (pw_settings w) in
      (in_registry (epimone_terminals_set_preserve_directory (epimone_preserve_directory_from_id name)) w,
       Some (Preserve_combo, epimone_index_of epimone_preserve_dirs name 2)))"

definition epimone_settings_shell_index :: "byte list list \<Rightarrow> byte list \<Rightarrow> nat" where
  "epimone_settings_shell_index paths path = epimone_index_of paths path 0"

definition epimone_settings_shell_key_changed_cb where
  "epimone_settings_shell_key_changed_cb w =
     (w, Some (Shell_combo, epimone_settings_shell_index (pw_shells w) (gs_shell_path (pw_settings w))))"

fun changed :: "('c, 'd) prefs_env \<Rightarrow> setting \<Rightarrow> ('c, 'd, 'w) prefs_world \<Rightarrow> ('c, 'd, 'w) prefs_world \<times> (combo \<times> nat) option" where
  "changed e (Theme x) w = epimone_settings_theme_key_changed_cb e w"
| "changed e (Font_name x) w = epimone_settings_font_key_changed_cb w"
| "changed e (Cursor_shape x) w = epimone_settings_cursor_key_changed_cb w"
| "changed e (Cell_padding n) w = epimone_settings_padding_key_changed_cb w"
| "changed e (Dim_inactive_panes b) w = epimone_settings_dim_inactive_key_changed_cb e w"
| "changed e (Scrollback_unlimited b) w = epimone_settings_scrollback_key_changed_cb w"
| "changed e (Scrollback_lines n) w = epimone_settings_scrollback_key_changed_cb w"
| "changed e (Audible_bell b) w = epimone_settings_bell_key_changed_cb w"
| "changed e (Scroll_on_output b) w = epimone_settings_scroll_output_key_changed_cb w"
| "changed e (Scroll_on_keystroke b) w = epimone_settings_scroll_keystroke_key_changed_cb w"
| "changed e (Default_columns n) w = epimone_settings_default_size_key_changed_cb w"
| "changed e (Default_rows n) w = epimone_settings_default_size_key_changed_cb w"
| "changed e (Tab_position x) w = epimone_settings_tab_position_key_changed_cb w"
| "changed e (Tab_bar_policy x) w = epimone_settings_tab_policy_key_changed_cb w"
| "changed e (Confirm_close b) w = epimone_settings_confirm_close_key_changed_cb w"
| "changed e (Backspace_binding x) w = epimone_settings_backspace_key_changed_cb w"
| "changed e (Delete_binding x) w = epimone_settings_delete_key_changed_cb w"
| "changed e (Cjk_ambiguous_width x) w = epimone_settings_cjk_key_changed_cb w"
| "changed e (Preserve_directory x) w = epimone_settings_preserve_key_changed_cb w"
| "changed e (Shell_path x) w = epimone_settings_shell_key_changed_cb w"

section \<open>Picking an entry\<close>

definition epimone_settings_cursor_selected_cb :: "nat \<Rightarrow> setting option" where
  "epimone_settings_cursor_selected_cb i =
     Some (Cursor_shape (epimone_cursor_shape_to_id
       (if i = 1 then EPIMONE_CURSOR_IBEAM else if i = 2 then EPIMONE_CURSOR_UNDERLINE else EPIMONE_CURSOR_BLOCK)))"

definition entry :: "byte list list \<Rightarrow> nat \<Rightarrow> byte list option" where
  "entry names i = (if i < length names then Some (names ! i) else None)"

definition epimone_settings_tab_position_selected_cb :: "nat \<Rightarrow> setting option" where
  "epimone_settings_tab_position_selected_cb i = map_option Tab_position (entry epimone_tab_positions i)"
definition epimone_settings_tab_policy_selected_cb :: "nat \<Rightarrow> setting option" where
  "epimone_settings_tab_policy_selected_cb i = map_option Tab_bar_policy (entry epimone_tab_policies i)"
definition epimone_settings_backspace_selected_cb :: "nat \<Rightarrow> setting option" where
  "epimone_settings_backspace_selected_cb i = map_option Backspace_binding (entry epimone_erase_ids i)"
definition epimone_settings_delete_selected_cb :: "nat \<Rightarrow> setting option" where
  "epimone_settings_delete_selected_cb i = map_option Delete_binding (entry epimone_erase_ids i)"
definition epimone_settings_cjk_selected_cb :: "nat \<Rightarrow> setting option" where
  "epimone_settings_cjk_selected_cb i = map_option Cjk_ambiguous_width (entry epimone_cjk_widths i)"
definition epimone_settings_preserve_selected_cb :: "nat \<Rightarrow> setting option" where
  "epimone_settings_preserve_selected_cb i = map_option Preserve_directory (entry epimone_preserve_dirs i)"
definition epimone_settings_shell_selected_cb :: "byte list list \<Rightarrow> nat \<Rightarrow> setting option" where
  "epimone_settings_shell_selected_cb paths i = map_option Shell_path (entry paths i)"

definition selected_cb :: "byte list list \<Rightarrow> combo \<Rightarrow> nat \<Rightarrow> setting option" where
  "selected_cb shells c i =
     (case c of
        Cursor_combo \<Rightarrow> epimone_settings_cursor_selected_cb i
      | Position_combo \<Rightarrow> epimone_settings_tab_position_selected_cb i
      | Policy_combo \<Rightarrow> epimone_settings_tab_policy_selected_cb i
      | Backspace_combo \<Rightarrow> epimone_settings_backspace_selected_cb i
      | Delete_combo \<Rightarrow> epimone_settings_delete_selected_cb i
      | Cjk_combo \<Rightarrow> epimone_settings_cjk_selected_cb i
      | Preserve_combo \<Rightarrow> epimone_settings_preserve_selected_cb i
      | Shell_combo \<Rightarrow> epimone_settings_shell_selected_cb shells i)"

section \<open>Writing and picking\<close>

text \<open>
  A write stores the key and, while the window is open, runs the handler; a row set to another entry
  counts as picked and writes its key. The fuel bounds how often they call each other.
\<close>

fun write_key :: "('c, 'd) prefs_env \<Rightarrow> nat \<Rightarrow> setting \<Rightarrow> ('c, 'd, 'w) prefs_world \<Rightarrow> ('c, 'd, 'w) prefs_world option" where
  "write_key e 0 k w = None"
| "write_key e (Suc n) k w =
     (let w1 = w\<lparr>pw_settings := store_key k (pw_settings w)\<rparr> in
      if \<not> pw_open w1 then Some w1
      else case changed e k w1 of
             (w2, None) \<Rightarrow> Some w2
           | (w2, Some (c, i)) \<Rightarrow>
               if pw_selected w2 c = i then Some w2
               else let w3 = w2\<lparr>pw_selected := (pw_selected w2)(c := i)\<rparr>
                    in case selected_cb (pw_shells w3) c i of None \<Rightarrow> Some w3 | Some k' \<Rightarrow> write_key e n k' w3)"

definition pick :: "('c, 'd) prefs_env \<Rightarrow> nat \<Rightarrow> combo \<Rightarrow> nat \<Rightarrow> ('c, 'd, 'w) prefs_world \<Rightarrow> ('c, 'd, 'w) prefs_world option" where
  "pick e n c i w =
     (if \<not> pw_open w \<or> pw_selected w c = i then Some w
      else let w1 = w\<lparr>pw_selected := (pw_selected w)(c := i)\<rparr>
           in case selected_cb (pw_shells w1) c i of None \<Rightarrow> Some w1 | Some k \<Rightarrow> write_key e n k w1)"

definition epimone_settings_card_clicked_cb ::
  "('c, 'd) prefs_env \<Rightarrow> nat \<Rightarrow> EpimonePalette \<Rightarrow> ('c, 'd, 'w) prefs_world \<Rightarrow> ('c, 'd, 'w) prefs_world option" where
  "epimone_settings_card_clicked_cb e n p w = write_key e n (Theme (lit (pl_id p))) w"

text \<open>A font that was picked, printed by Pango; \<open>None\<close> when the button has none.\<close>

definition epimone_settings_font_changed_cb ::
  "('c, 'd) prefs_env \<Rightarrow> nat \<Rightarrow> byte list option \<Rightarrow> ('c, 'd, 'w) prefs_world \<Rightarrow> ('c, 'd, 'w) prefs_world option" where
  "epimone_settings_font_changed_cb e n desc w =
     (case desc of None \<Rightarrow> Some w | Some s \<Rightarrow> write_key e n (Font_name s) w)"

section \<open>Other rows\<close>

text \<open>The categories in the sidebar: a row's page and title; \<open>None\<close> where nothing is selected.\<close>

definition epimone_categories :: "(string \<times> string) list" where
  "epimone_categories = [(''general'', ''General''), (''appearance'', ''Appearance''), (''terminal'', ''Terminal''),
     (''profiles'', ''Shell & Profiles''), (''keyboard'', ''Keyboard''), (''advanced'', ''Advanced'')]"

definition epimone_settings_row_selected_cb :: "int option \<Rightarrow> (string \<times> string) option" where
  "epimone_settings_row_selected_cb row =
     (case row of
        None \<Rightarrow> None
      | Some idx \<Rightarrow> if idx < 0 \<or> idx \<ge> int (length epimone_categories) then None else Some (epimone_categories ! nat idx))"

text \<open>
  Whether the custom command is marked as wrong, with the message of GLib's parser of command lines;
  \<open>None\<close> where the row is not there.
\<close>

definition epimone_settings_custom_command_validate ::
  "(byte list \<Rightarrow> byte list + byte list list) \<Rightarrow> bool \<Rightarrow> byte list \<Rightarrow> (bool \<times> byte list) option" where
  "epimone_settings_custom_command_validate parse row command =
     (if \<not> row then None
      else if command = [] then Some (False, lit ''Run this instead of a shell'')
      else case parse command of
             Inr _ \<Rightarrow> Some (False, lit ''Run this instead of a shell'')
           | Inl msg \<Rightarrow> Some (True, lit ''Cannot parse command: '' @ msg))"

definition epimone_settings_reset_all_response_cb :: "byte list option \<Rightarrow> accel_store \<Rightarrow> accel_store" where
  "epimone_settings_reset_all_response_cb response st =
     (if response = Some (lit ''reset'') then epimone_shortcuts_reset_all st else st)"

text \<open>The entry that a row shows for what is stored.\<close>

definition row_index :: "byte list list \<Rightarrow> combo \<Rightarrow> gsettings \<Rightarrow> nat" where
  "row_index shells c s =
     (case c of
        Cursor_combo \<Rightarrow> index_of_shape (epimone_cursor_shape_from_id (gs_cursor_shape s))
      | Position_combo \<Rightarrow> epimone_index_of epimone_tab_positions (gs_tab_position s) 0
      | Policy_combo \<Rightarrow> epimone_index_of epimone_tab_policies (gs_tab_bar_policy s) 1
      | Backspace_combo \<Rightarrow> epimone_index_of epimone_erase_ids (gs_backspace_binding s) 0
      | Delete_combo \<Rightarrow> epimone_index_of epimone_erase_ids (gs_delete_binding s) 0
      | Cjk_combo \<Rightarrow> epimone_index_of epimone_cjk_widths (gs_cjk_ambiguous_width s) 0
      | Preserve_combo \<Rightarrow> epimone_index_of epimone_preserve_dirs (gs_preserve_directory s) 2
      | Shell_combo \<Rightarrow> epimone_settings_shell_index shells (gs_shell_path s))"

text \<open>Opening the window: every row is set before it reports picks, the ring is drawn.\<close>

definition epimone_settings_init ::
  "(byte list \<Rightarrow> byte list) \<Rightarrow> (byte list \<Rightarrow> bool) \<Rightarrow> byte list option \<Rightarrow> ('c, 'd, 'w) prefs_world \<Rightarrow> ('c, 'd, 'w) prefs_world" where
  "epimone_settings_init strip executable contents w =
     (let shells = epimone_settings_shell_paths strip executable contents in
      epimone_settings_mark_selected_theme (gs_theme (pw_settings w))
        (w\<lparr>pw_open := True, pw_shells := shells, pw_selected := (\<lambda>c. row_index shells c (pw_settings w))\<rparr>))"

definition epimone_settings_dispose :: "('c, 'd, 'w) prefs_world \<Rightarrow> ('c, 'd, 'w) prefs_world" where
  "epimone_settings_dispose w = w\<lparr>pw_open := False, pw_shells := []\<rparr>"

section \<open>Startup\<close>

definition apply_saved_appearance :: "('c, 'd) prefs_env \<Rightarrow> ('c, 'd, 'w) prefs_world \<Rightarrow> ('c, 'd, 'w) prefs_world" where
  "apply_saved_appearance e w0 =
     (let s = pw_settings w0;
          w = epimone_settings_apply_theme e (gs_theme s) w0;
          w = in_registry (epimone_terminals_set_font (Some (gs_font_name s))) w;
          w = in_registry (epimone_terminals_set_cursor_shape (epimone_cursor_shape_from_id (gs_cursor_shape s))) w;
          w = in_registry (epimone_terminals_set_padding (gs_cell_padding s)) w;
          w = in_registry (epimone_terminals_set_scrollback_lines (effective_scrollback s)) w;
          w = in_registry (epimone_terminals_set_audible_bell (gs_audible_bell s)) w;
          w = in_registry (epimone_terminals_set_scroll_on_output (gs_scroll_on_output s)) w;
          w = in_registry (epimone_terminals_set_scroll_on_keystroke (gs_scroll_on_keystroke s)) w;
          w = set_dim e (gs_dim_inactive_panes s) w;
          w = in_registry (epimone_terminals_set_backspace_binding (epimone_erase_binding_from_id (gs_backspace_binding s))) w;
          w = in_registry (epimone_terminals_set_delete_binding (epimone_erase_binding_from_id (gs_delete_binding s))) w;
          w = in_registry (epimone_terminals_set_cjk_ambiguous_width (cjk_of (gs_cjk_ambiguous_width s))) w;
          w = in_registry (epimone_terminals_set_preserve_directory (epimone_preserve_directory_from_id (gs_preserve_directory s))) w;
          w = in_registry (epimone_terminals_set_default_size (gs_default_columns s) (gs_default_rows s)) w;
          w = in_windows (epimone_windows_set_tab_bar_at_bottom (gs_tab_position s = lit ''bottom'')) w;
          w = in_windows (epimone_windows_set_tab_bar_policy (epimone_tab_bar_policy_from_id (Some (gs_tab_bar_policy s)))) w
      in in_windows (epimone_windows_set_confirm_close (gs_confirm_close s)) w)"

text \<open>A process that has just started, with these settings and nothing open.\<close>

definition fresh_world :: "'d page_env \<Rightarrow> (nat \<Rightarrow> 'c vte) \<Rightarrow> ('d, 'w) gui \<Rightarrow> gsettings \<Rightarrow> ('c, 'd, 'w) prefs_world" where
  "fresh_world e vtes g s =
     \<lparr>pw_gui = g\<lparr>gu_prefs := epimone_window_prefs\<rparr>,
      pw_registry = \<lparr>rg_appearance = epimone_appearance, rg_terminals = [], rg_vte = vtes, rg_watches = [], rg_told = [],
        rg_preserve = Preserve_always, rg_padding = None, rg_dim_inactive = False, rg_chrome = None\<rparr>,
      pw_settings = s, pw_open = False, pw_selected = (\<lambda>_. 0), pw_marked = {}, pw_shells = []\<rparr>"

end
