(* ===== verification/Preferences_Props.thy ===== *)
theory Preferences_Props
  imports Preferences
begin

text \<open>
  The preferences keep their promise: whatever is changed while the window is open, the process ends up
  as one that has just started with the stored keys, every terminal is set to it and every row shows
  its key.
\<close>

section \<open>Dressing\<close>

lemma apply_idem [simp]: "epimone_apply_appearance_to a (epimone_apply_appearance_to a t) = epimone_apply_appearance_to a t"
  by (cases t) (simp add: epimone_apply_appearance_to_def vte_bell_def Let_def split: option.split prod.split)

lemma apply_all:
  "epimone_apply_appearance_to_all g =
     g\<lparr>rg_vte := (\<lambda>x. if x \<in> set (rg_terminals g) then epimone_apply_appearance_to (rg_appearance g) (rg_vte g x) else rg_vte g x)\<rparr>"
proof -
  have "fold epimone_terminals_apply_appearance xs h =
     h\<lparr>rg_vte := (\<lambda>x. if x \<in> set xs then epimone_apply_appearance_to (rg_appearance h) (rg_vte h x) else rg_vte h x)\<rparr>"
    for xs and h :: "'a registry"
    by (induction xs arbitrary: h) (auto simp: epimone_terminals_apply_appearance_def fun_eq_iff)
  then show ?thesis by (simp add: epimone_apply_appearance_to_all_def)
qed

definition dressed :: "'c registry \<Rightarrow> bool" where
  "dressed g \<longleftrightarrow> (\<forall>x \<in> set (rg_terminals g). epimone_apply_appearance_to (rg_appearance g) (rg_vte g x) = rg_vte g x)"

lemma set_look_fields [simp]:
  "rg_appearance (set_look h g) = h (rg_appearance g)" "rg_preserve (set_look h g) = rg_preserve g"
  "rg_padding (set_look h g) = rg_padding g" "rg_dim_inactive (set_look h g) = rg_dim_inactive g"
  "rg_chrome (set_look h g) = rg_chrome g" "rg_terminals (set_look h g) = rg_terminals g"
  by (simp_all add: set_look_def apply_all)

lemma dressed_set_look: "dressed (set_look h g)"
  by (simp add: dressed_def set_look_def apply_all)

lemma dressed_updates [simp]:
  "dressed (g\<lparr>rg_preserve := p\<rparr>) = dressed g" "dressed (g\<lparr>rg_padding := n\<rparr>) = dressed g"
  "dressed (g\<lparr>rg_dim_inactive := b\<rparr>) = dressed g" "dressed (g\<lparr>rg_chrome := c\<rparr>) = dressed g"
  "dressed (g\<lparr>rg_watches := ws\<rparr>) = dressed g" "dressed (g\<lparr>rg_told := ws\<rparr>) = dressed g"
  by (simp_all add: dressed_def)

lemma dressed_default_size: "dressed g \<Longrightarrow> dressed (epimone_terminals_set_default_size n m g)"
  by (simp add: dressed_def epimone_terminals_set_default_size_def epimone_apply_appearance_to_def vte_bell_def)

lemma dressed_made: "dressed g \<Longrightarrow> dressed (epimone_page_make_vte x fresh g)"
  by (simp add: dressed_def epimone_page_make_vte_def epimone_register_terminal_def epimone_terminals_apply_appearance_def)

lemma dressed_destroyed: "dressed g \<Longrightarrow> dressed (epimone_terminal_destroyed_cb x g)"
  using set_remove1_subset[of x "rg_terminals g"] by (auto simp: dressed_def epimone_terminal_destroyed_cb_def)

text \<open>All that applying sets, but for the bell, is set already; the bell follows the replay.\<close>

lemma dressed_bell: "dressed g \<Longrightarrow> dressed (epimone_terminal_set_bell_suppressed x b g)"
proof -
  have "epimone_apply_appearance_to a t = t \<Longrightarrow>
    epimone_apply_appearance_to a (vte_bell a (t\<lparr>vt_suppressed := b\<rparr>)) = vte_bell a (t\<lparr>vt_suppressed := b\<rparr>)"
    for a :: "'a appearance" and t
    by (cases t) (auto simp: epimone_apply_appearance_to_def vte_bell_def Let_def split: option.splits prod.splits if_splits)
  then show "dressed g \<Longrightarrow> ?thesis" by (auto simp: dressed_def epimone_terminal_set_bell_suppressed_def)
qed

section \<open>What the keys ask for\<close>

lemma resolved_ok:
  assumes "parses_hex parse"
  obtains bg fg cursor ansi where "epimone_palette_get_rgba parse (resolved name) = Some (bg, fg, cursor, ansi)"
    and "length ansi = 16"
proof -
  have "\<exists>p \<in> set epimone_palette_table. resolved name = Some p"
  proof (cases "epimone_palette_by_id (Some name)")
    case None
    have "hd epimone_palette_table \<in> set epimone_palette_table" by (simp add: epimone_palette_table_def)
    then show ?thesis using None by (auto simp: resolved_def default_scheme)
  next
    case (Some p)
    then show ?thesis using by_id_table[OF Some] by (auto simp: resolved_def)
  qed
  then obtain p where "full_scheme p" "resolved name = Some p" using table_complete by (auto simp: list_all_iff)
  then show ?thesis using rgba_ok[OF assms, of p] that by auto
qed

lemma by_own_id: "p \<in> set epimone_palette_table \<Longrightarrow> epimone_palette_by_id (Some (lit (pl_id p))) = Some p"
proof -
  have "p \<in> set ps \<Longrightarrow> distinct (map pl_id ps) \<Longrightarrow> find (\<lambda>q. lit (pl_id q) = lit (pl_id p)) ps = Some p" for ps
    by (induction ps) auto
  then show "p \<in> set epimone_palette_table \<Longrightarrow> ?thesis" using table_ids by (simp add: epimone_palette_by_id_def)
qed

text \<open>C39. Whatever theme is stored, a terminal gets a whole set of colours: the scheme of that name, or the
  built-in one when there is none, whose background, foreground, cursor and sixteen ANSI colours all are
  texts that GDK reads. Every scheme of the table is found by its own id.\<close>

theorem every_theme_has_all_colours:
  assumes "parses_hex parse"
  shows "(\<exists>bg fg cursor ansi. epimone_palette_get_rgba parse (resolved name) = Some (bg, fg, cursor, ansi) \<and> length ansi = 16) \<and>
    list_all (\<lambda>p. resolved (lit (pl_id p)) = Some p) epimone_palette_table"
proof
  obtain bg fg cursor ansi where "epimone_palette_get_rgba parse (resolved name) = Some (bg, fg, cursor, ansi)" "length ansi = 16"
    by (rule resolved_ok[OF assms, of name])
  then show "\<exists>bg fg cursor ansi. epimone_palette_get_rgba parse (resolved name) = Some (bg, fg, cursor, ansi) \<and> length ansi = 16"
    by blast
  show "list_all (\<lambda>p. resolved (lit (pl_id p)) = Some p) epimone_palette_table"
    by (simp add: list_all_iff resolved_def by_own_id)
qed

theorem every_theme_has_all_colours_witness:
  "\<exists>bg fg cursor ansi. epimone_palette_get_rgba Some (resolved (lit ''no such theme'')) = Some (bg, fg, cursor, ansi) \<and> length ansi = 16"
proof -
  have "parses_hex (Some :: byte list \<Rightarrow> byte list option)" by (simp add: parses_hex_def)
  from every_theme_has_all_colours[OF this] show ?thesis by blast
qed

text \<open>The looks of a process: appearance, directory policy, padding, dimming, chrome, window preferences.\<close>

definition outward where
  "outward w =
     (let g = pw_registry w in
      (rg_appearance g, rg_preserve g, rg_padding g, rg_dim_inactive g, rg_chrome g, gu_prefs (pw_gui w)))"

definition wanted where
  "wanted e s =
     (case epimone_palette_get_rgba (px_parse e) (resolved (gs_theme s)) of
        None \<Rightarrow> None
      | Some (bg, fg, cursor, ansi) \<Rightarrow> Some
         (\<lparr>aa_colors = Some (bg, fg, cursor, take 16 ansi), aa_font = Some (gs_font_name s),
           aa_cursor_shape = epimone_cursor_shape_from_id (gs_cursor_shape s),
           aa_scrollback_lines = (if effective_scrollback s < 0 then -1 else effective_scrollback s),
           aa_audible_bell = gs_audible_bell s, aa_scroll_on_output = gs_scroll_on_output s,
           aa_scroll_on_keystroke = gs_scroll_on_keystroke s,
           aa_backspace_binding = epimone_erase_binding_from_id (gs_backspace_binding s),
           aa_delete_binding = epimone_erase_binding_from_id (gs_delete_binding s),
           aa_cjk_ambiguous_width = cjk_of (gs_cjk_ambiguous_width s),
           aa_default_columns = max (gs_default_columns s) 1, aa_default_rows = max (gs_default_rows s) 1\<rparr>,
          epimone_preserve_directory_from_id (gs_preserve_directory s), Some (min 32 (max 0 (gs_cell_padding s))),
          gs_dim_inactive_panes s, Some (bg, fg),
          \<lparr>wp_tab_bar_policy = epimone_tab_bar_policy_from_id (Some (gs_tab_bar_policy s)),
           wp_tab_bar_at_bottom = (gs_tab_position s = lit ''bottom''), wp_confirm_close = gs_confirm_close s\<rparr>))"

lemma cjk_cases [simp]: "(if cjk_of x = 2 then 2 else 1) = cjk_of x" by (simp add: cjk_of_def)

lemma prefs_to_all [simp]: "gu_prefs (epimone_apply_window_prefs_to_all g) = gu_prefs g"
proof -
  have "gu_prefs (fold h xs g) = gu_prefs g" if "\<And>x g. gu_prefs (h x g) = gu_prefs g" for h :: "nat \<Rightarrow> ('a, 'b) gui \<Rightarrow> ('a, 'b) gui" and xs g
    using that by (induction xs arbitrary: g) simp_all
  then show ?thesis by (simp add: epimone_apply_window_prefs_to_all_def epimone_apply_window_prefs_to_def in_frame_def)
qed

lemma prefs_pages [simp]: "gu_prefs (on_all_pages h g) = gu_prefs g"
  by (simp add: on_all_pages_def in_app_def)

lemmas setters =
  epimone_terminals_set_colors_def epimone_terminals_set_font_def epimone_terminals_set_cursor_shape_def
  epimone_terminals_set_scrollback_lines_def epimone_terminals_set_audible_bell_def
  epimone_terminals_set_scroll_on_output_def epimone_terminals_set_scroll_on_keystroke_def
  epimone_terminals_set_backspace_binding_def epimone_terminals_set_delete_binding_def
  epimone_terminals_set_cjk_ambiguous_width_def epimone_terminals_set_preserve_directory_def
  epimone_terminals_set_default_size_def epimone_terminals_set_padding_def epimone_pages_set_dim_inactive_def
  epimone_appearance_notify_def in_registry_def in_windows_def set_dim_def
  epimone_windows_set_tab_bar_at_bottom_def epimone_windows_set_tab_bar_policy_def epimone_windows_set_confirm_close_def

lemma effective_other [simp]:
  "effective_scrollback (s\<lparr>gs_theme := x\<rparr>) = effective_scrollback s" "effective_scrollback (s\<lparr>gs_font_name := x\<rparr>) = effective_scrollback s"
  "effective_scrollback (s\<lparr>gs_cursor_shape := x\<rparr>) = effective_scrollback s" "effective_scrollback (s\<lparr>gs_cell_padding := n\<rparr>) = effective_scrollback s"
  "effective_scrollback (s\<lparr>gs_dim_inactive_panes := b\<rparr>) = effective_scrollback s" "effective_scrollback (s\<lparr>gs_audible_bell := b\<rparr>) = effective_scrollback s"
  "effective_scrollback (s\<lparr>gs_scroll_on_output := b\<rparr>) = effective_scrollback s" "effective_scrollback (s\<lparr>gs_scroll_on_keystroke := b\<rparr>) = effective_scrollback s"
  "effective_scrollback (s\<lparr>gs_default_columns := n\<rparr>) = effective_scrollback s" "effective_scrollback (s\<lparr>gs_default_rows := n\<rparr>) = effective_scrollback s"
  "effective_scrollback (s\<lparr>gs_tab_position := x\<rparr>) = effective_scrollback s" "effective_scrollback (s\<lparr>gs_tab_bar_policy := x\<rparr>) = effective_scrollback s"
  "effective_scrollback (s\<lparr>gs_confirm_close := b\<rparr>) = effective_scrollback s" "effective_scrollback (s\<lparr>gs_backspace_binding := x\<rparr>) = effective_scrollback s"
  "effective_scrollback (s\<lparr>gs_delete_binding := x\<rparr>) = effective_scrollback s" "effective_scrollback (s\<lparr>gs_cjk_ambiguous_width := x\<rparr>) = effective_scrollback s"
  "effective_scrollback (s\<lparr>gs_preserve_directory := x\<rparr>) = effective_scrollback s" "effective_scrollback (s\<lparr>gs_shell_path := x\<rparr>) = effective_scrollback s"
  by (simp_all add: effective_scrollback_def)

lemma theme_outward:
  assumes "parses_hex (px_parse e)" and "epimone_palette_get_rgba (px_parse e) (resolved name) = Some (bg, fg, cursor, ansi)"
  shows "epimone_settings_apply_theme e name w =
    in_registry (\<lambda>g. (epimone_terminals_set_colors (Some bg) (Some fg) (Some cursor) ansi g)\<lparr>rg_chrome := Some (bg, fg)\<rparr>) w"
  using assms by (simp add: epimone_settings_apply_theme_def)

text \<open>A start asks for what the keys say, whatever the process looked like before.\<close>

lemma saved_outward:
  assumes "parses_hex (px_parse e)"
  shows "wanted e (pw_settings w) = Some (outward (apply_saved_appearance e w))"
proof -
  obtain bg fg cursor ansi where rgba: "epimone_palette_get_rgba (px_parse e) (resolved (gs_theme (pw_settings w))) = Some (bg, fg, cursor, ansi)"
    by (rule resolved_ok[OF assms])
  show ?thesis
    by (simp add: wanted_def rgba apply_saved_appearance_def theme_outward[OF assms rgba] outward_def setters Let_def)
qed

text \<open>A handler brings the one part of the looks that its key is about up to date.\<close>

lemma changed_outward:
  assumes "parses_hex (px_parse e)" and "wanted e (pw_settings w) = Some (outward w)"
  shows "wanted e (store_key k (pw_settings w)) = Some (outward (fst (changed e k (w\<lparr>pw_settings := store_key k (pw_settings w)\<rparr>))))"
proof -
  obtain bg fg cursor ansi where rgba: "epimone_palette_get_rgba (px_parse e) (resolved (gs_theme (pw_settings w))) = Some (bg, fg, cursor, ansi)"
    by (rule resolved_ok[OF assms(1)])
  note now = assms(2)[symmetric]
  show ?thesis
  proof (cases k)
    case (Theme x)
    obtain bg' fg' cursor' ansi' where new: "epimone_palette_get_rgba (px_parse e) (resolved x) = Some (bg', fg', cursor', ansi')"
      by (rule resolved_ok[OF assms(1)])
    show ?thesis using now
      by (simp add: Theme wanted_def rgba new epimone_settings_theme_key_changed_cb_def theme_outward[OF assms(1) new] outward_def
        setters epimone_settings_mark_selected_theme_def Let_def)
  qed (use now rgba in \<open>simp_all add: wanted_def outward_def setters Let_def
    epimone_settings_font_key_changed_cb_def epimone_settings_cursor_key_changed_cb_def epimone_settings_padding_key_changed_cb_def
    epimone_settings_scrollback_key_changed_cb_def epimone_settings_apply_scrollback_def epimone_settings_bell_key_changed_cb_def
    epimone_settings_scroll_output_key_changed_cb_def epimone_settings_scroll_keystroke_key_changed_cb_def
    epimone_settings_dim_inactive_key_changed_cb_def epimone_settings_tab_position_key_changed_cb_def
    epimone_settings_tab_policy_key_changed_cb_def epimone_settings_default_size_key_changed_cb_def
    epimone_settings_confirm_close_key_changed_cb_def epimone_settings_backspace_key_changed_cb_def
    epimone_settings_delete_key_changed_cb_def epimone_settings_cjk_key_changed_cb_def epimone_settings_preserve_key_changed_cb_def
    epimone_settings_shell_key_changed_cb_def\<close>)
qed

section \<open>Rows\<close>

fun combo_of :: "setting \<Rightarrow> combo option" where
  "combo_of (Cursor_shape x) = Some Cursor_combo"
| "combo_of (Tab_position x) = Some Position_combo"
| "combo_of (Tab_bar_policy x) = Some Policy_combo"
| "combo_of (Backspace_binding x) = Some Backspace_combo"
| "combo_of (Delete_binding x) = Some Delete_combo"
| "combo_of (Cjk_ambiguous_width x) = Some Cjk_combo"
| "combo_of (Preserve_directory x) = Some Preserve_combo"
| "combo_of (Shell_path x) = Some Shell_combo"
| "combo_of k = None"

lemmas handlers =
  epimone_settings_theme_key_changed_cb_def epimone_settings_mark_selected_theme_def epimone_settings_apply_theme_def
  epimone_settings_font_key_changed_cb_def epimone_settings_cursor_key_changed_cb_def epimone_settings_padding_key_changed_cb_def
  epimone_settings_scrollback_key_changed_cb_def epimone_settings_apply_scrollback_def epimone_settings_bell_key_changed_cb_def
  epimone_settings_scroll_output_key_changed_cb_def epimone_settings_scroll_keystroke_key_changed_cb_def
  epimone_settings_dim_inactive_key_changed_cb_def epimone_settings_tab_position_key_changed_cb_def
  epimone_settings_tab_policy_key_changed_cb_def epimone_settings_default_size_key_changed_cb_def
  epimone_settings_confirm_close_key_changed_cb_def epimone_settings_backspace_key_changed_cb_def
  epimone_settings_delete_key_changed_cb_def epimone_settings_cjk_key_changed_cb_def epimone_settings_preserve_key_changed_cb_def
  epimone_settings_shell_key_changed_cb_def

lemma changed_row:
  "snd (changed e k w) = map_option (\<lambda>c. (c, row_index (pw_shells w) c (pw_settings w))) (combo_of k)"
  by (cases k) (simp_all add: handlers row_index_def Let_def)

lemma changed_kept:
  "pw_settings (fst (changed e k w)) = pw_settings w" "pw_open (fst (changed e k w)) = pw_open w"
  "pw_shells (fst (changed e k w)) = pw_shells w" "pw_selected (fst (changed e k w)) = pw_selected w"
  by (cases k; simp add: handlers in_registry_def in_windows_def set_dim_def Let_def split: option.split prod.split)+

text \<open>The ring is drawn around the stored theme, when that is one of the table.\<close>

definition ring :: "gsettings \<Rightarrow> byte list set" where
  "ring s = {x \<in> set (map (lit \<circ> pl_id) epimone_palette_table). x = gs_theme s}"

lemma changed_ring:
  "pw_marked w = ring s \<Longrightarrow> pw_marked (fst (changed e k (w\<lparr>pw_settings := store_key k s\<rparr>))) = ring (store_key k s)"
  by (cases k) (simp_all add: handlers ring_def in_registry_def in_windows_def set_dim_def Let_def split: option.split prod.split)

lemma changed_dressed: "dressed (pw_registry w) \<Longrightarrow> dressed (pw_registry (fst (changed e k w)))"
  by (cases k) (simp_all add: handlers setters dressed_set_look dressed_default_size[unfolded epimone_terminals_set_default_size_def]
    Let_def split: option.split prod.split)

lemma row_other: "combo_of k \<noteq> Some c \<Longrightarrow> row_index shells c (store_key k s) = row_index shells c s"
  by (cases c; cases k) (simp_all add: row_index_def)

definition entries :: "byte list list \<Rightarrow> combo \<Rightarrow> nat" where
  "entries shells c =
     (case c of Cursor_combo \<Rightarrow> 3 | Position_combo \<Rightarrow> 2 | Policy_combo \<Rightarrow> 3 | Backspace_combo \<Rightarrow> 5 | Delete_combo \<Rightarrow> 5
      | Cjk_combo \<Rightarrow> 2 | Preserve_combo \<Rightarrow> 3 | Shell_combo \<Rightarrow> length shells)"

lemma index_of_nth: "distinct names \<Longrightarrow> i < length names \<Longrightarrow> epimone_index_of names (names ! i) fb = i"
proof -
  have "distinct names \<Longrightarrow> i < length names \<Longrightarrow> find_index (\<lambda>y. y = names ! i) names = Some i"
  proof (induction names arbitrary: i)
    case (Cons a names)
    then show ?case by (cases i) auto
  qed simp
  then show "distinct names \<Longrightarrow> i < length names \<Longrightarrow> ?thesis" by (simp add: epimone_index_of_def)
qed

lemma index_of_less: "fb < length names \<Longrightarrow> epimone_index_of names x fb < length names"
proof -
  have "find_index P xs = Some i \<Longrightarrow> i < length xs" for P i and xs :: "byte list list"
    by (induction xs arbitrary: i) (auto split: if_splits)
  then show "fb < length names \<Longrightarrow> ?thesis" by (auto simp: epimone_index_of_def split: option.split)
qed

lemmas row_names = epimone_tab_positions_def epimone_tab_policies_def epimone_erase_ids_def epimone_cjk_widths_def
  epimone_preserve_dirs_def

lemma row_lengths: "length epimone_tab_positions = 2" "length epimone_tab_policies = 3" "length epimone_erase_ids = 5"
  "length epimone_cjk_widths = 2" "length epimone_preserve_dirs = 3"
  by (simp_all add: row_names)

lemma row_index_less: "shells \<noteq> [] \<Longrightarrow> row_index shells c s < entries shells c"
proof (cases c)
  case Cursor_combo
  then show ?thesis by (simp add: row_index_def entries_def index_of_shape_def split: EpimoneCursorShape.split)
qed (use index_of_less[of 0 epimone_tab_positions] index_of_less[of 1 epimone_tab_policies] index_of_less[of 0 epimone_erase_ids]
      index_of_less[of 0 epimone_cjk_widths] index_of_less[of 2 epimone_preserve_dirs] index_of_less[of 0 shells] in
    \<open>simp_all add: row_index_def entries_def row_lengths epimone_settings_shell_index_def\<close>)

text \<open>An entry that is picked writes a key whose row shows that entry.\<close>

lemma selected_row:
  assumes "distinct shells" and "i < entries shells c"
  obtains k where "selected_cb shells c i = Some k" and "combo_of k = Some c" and "\<And>s. row_index shells c (store_key k s) = i"
proof -
  have names: "distinct epimone_tab_positions" "distinct epimone_tab_policies" "distinct epimone_erase_ids"
    "distinct epimone_cjk_widths" "distinct epimone_preserve_dirs" by (simp_all add: row_names)
  note picked = selected_cb_def entry_def entries_def row_index_def index_of_nth
  have "\<exists>k. selected_cb shells c i = Some k \<and> combo_of k = Some c \<and> (\<forall>s. row_index shells c (store_key k s) = i)"
  proof (cases c)
    case Cursor_combo
    have "i = 0 \<or> i = 1 \<or> i = 2" using assms(2) by (auto simp: Cursor_combo entries_def)
    then show ?thesis
      by (auto simp: Cursor_combo selected_cb_def epimone_settings_cursor_selected_cb_def row_index_def index_of_shape_def
        epimone_cursor_shape_from_id_def)
  next
    case Position_combo
    then show ?thesis using assms(2) names(1) row_lengths(1)
      by (simp add: picked epimone_settings_tab_position_selected_cb_def)
  next
    case Policy_combo
    then show ?thesis using assms(2) names(2) row_lengths(2)
      by (simp add: picked epimone_settings_tab_policy_selected_cb_def)
  next
    case Backspace_combo
    then show ?thesis using assms(2) names(3) row_lengths(3)
      by (simp add: picked epimone_settings_backspace_selected_cb_def)
  next
    case Delete_combo
    then show ?thesis using assms(2) names(3) row_lengths(3)
      by (simp add: picked epimone_settings_delete_selected_cb_def)
  next
    case Cjk_combo
    then show ?thesis using assms(2) names(4) row_lengths(4)
      by (simp add: picked epimone_settings_cjk_selected_cb_def)
  next
    case Preserve_combo
    then show ?thesis using assms(2) names(5) row_lengths(5)
      by (simp add: picked epimone_settings_preserve_selected_cb_def)
  next
    case Shell_combo
    then show ?thesis using assms
      by (simp add: picked epimone_settings_shell_selected_cb_def epimone_settings_shell_index_def)
  qed
  then show ?thesis using that by blast
qed

end
