(* ===== verification/Preferences_Steps.thy ===== *)
theory Preferences_Steps
  imports Preferences_Props Window_Props Machines
begin

text \<open>
  What may happen to the preferences and to terminals while the preferences window is open or closed; keys are
  written while it is open.
\<close>

section \<open>Steps\<close>

inductive prefs_step :: "('c, 'd) prefs_env \<Rightarrow> ('c, 'd, 'w) prefs_world \<Rightarrow> ('c, 'd, 'w) prefs_world \<Rightarrow> bool" for e where
  written: "pw_open w \<Longrightarrow> write_key e 2 k w = Some w' \<Longrightarrow> prefs_step e w w'"
| picked: "i < entries (pw_shells w) c \<Longrightarrow> pick e 2 c i w = Some w' \<Longrightarrow> prefs_step e w w'"
| card: "pw_open w \<Longrightarrow> epimone_settings_card_clicked_cb e 2 p w = Some w' \<Longrightarrow> prefs_step e w w'"
| opened: "prefs_step e w (epimone_settings_init strip executable contents w)"
| closed: "prefs_step e w (epimone_settings_dispose w)"
| made: "prefs_step e w (in_registry (epimone_page_make_vte x fresh) w)"
| destroyed: "prefs_step e w (in_registry (epimone_terminal_destroyed_cb x) w)"
| bell: "prefs_step e w (in_registry (epimone_terminal_set_bell_suppressed x b) w)"
| listened: "prefs_step e w (in_registry (epimone_terminals_add_appearance_listener l) w)"
| unlistened: "prefs_step e w (in_registry (epimone_terminals_remove_appearance_listener l) w)"

section \<open>The invariant\<close>

definition rows_agree :: "('c, 'd, 'w) prefs_world \<Rightarrow> bool" where
  "rows_agree w \<longleftrightarrow> (\<forall>c. pw_selected w c = row_index (pw_shells w) c (pw_settings w))"

definition window_ok :: "('c, 'd, 'w) prefs_world \<Rightarrow> bool" where
  "window_ok w \<longleftrightarrow> distinct (pw_shells w) \<and> pw_shells w \<noteq> [] \<and> hd (pw_shells w) = [] \<and> rows_agree w \<and> pw_marked w = ring (pw_settings w)"

definition prefs_ok :: "('c, 'd) prefs_env \<Rightarrow> ('c, 'd, 'w) prefs_world \<Rightarrow> bool" where
  "prefs_ok e w \<longleftrightarrow>
     wanted e (pw_settings w) = Some (outward w) \<and> dressed (pw_registry w) \<and> (pw_open w \<longrightarrow> window_ok w)"

text \<open>One call of a handler, up to the row it may set.\<close>

definition handled :: "('c, 'd) prefs_env \<Rightarrow> setting \<Rightarrow> ('c, 'd, 'w) prefs_world \<Rightarrow> ('c, 'd, 'w) prefs_world" where
  "handled e k w =
     (let w1 = w\<lparr>pw_settings := store_key k (pw_settings w)\<rparr>; w2 = fst (changed e k w1) in
      case combo_of k of
        None \<Rightarrow> w2
      | Some c \<Rightarrow> w2\<lparr>pw_selected := (pw_selected w)(c := row_index (pw_shells w) c (store_key k (pw_settings w)))\<rparr>)"

lemma outward_selected [simp]: "outward (w\<lparr>pw_selected := f\<rparr>) = outward w" by (simp add: outward_def)

lemma handled_kept:
  "pw_settings (handled e k w) = store_key k (pw_settings w)" "pw_open (handled e k w) = pw_open w"
  "pw_shells (handled e k w) = pw_shells w"
  by (simp_all add: handled_def Let_def changed_kept split: option.split)

text \<open>All rows but the one of the key agreed before; then all do.\<close>

lemma handled_ok:
  assumes "parses_hex (px_parse e)" and "wanted e (pw_settings w) = Some (outward w)" and "dressed (pw_registry w)"
    and "distinct (pw_shells w)" "pw_shells w \<noteq> []" "hd (pw_shells w) = []" "pw_marked w = ring (pw_settings w)"
    and "\<And>c. combo_of k \<noteq> Some c \<Longrightarrow> pw_selected w c = row_index (pw_shells w) c (pw_settings w)"
  shows "prefs_ok e (handled e k w)" and "window_ok (handled e k w)"
proof -
  let ?w1 = "w\<lparr>pw_settings := store_key k (pw_settings w)\<rparr>"
  have out: "wanted e (store_key k (pw_settings w)) = Some (outward (handled e k w))"
    using changed_outward[OF assms(1,2), of k] by (simp add: handled_def Let_def split: option.split)
  have dress: "dressed (pw_registry (handled e k w))"
    using changed_dressed[of ?w1 e k] assms(3) by (simp add: handled_def Let_def split: option.split)
  have marked: "pw_marked (handled e k w) = ring (store_key k (pw_settings w))"
    using changed_ring[OF assms(7), of e k] by (simp add: handled_def Let_def split: option.split)
  have rows: "rows_agree (handled e k w)"
    using assms(8) by (auto simp: rows_agree_def handled_def Let_def changed_kept row_other split: option.split)
  show win: "window_ok (handled e k w)" using assms(4-6) marked rows by (simp add: window_ok_def handled_kept)
  show "prefs_ok e (handled e k w)" using out dress win by (simp add: prefs_ok_def handled_kept)
qed

section \<open>Writes settle\<close>

text \<open>
  The row of the key shows it already: the handler is the only thing that runs. Otherwise the row reports the
  pick and writes the key once more, to the same entry.
\<close>

lemma write_same_row:
  assumes "pw_open w" and "\<And>c. combo_of k = Some c \<Longrightarrow> pw_selected w c = row_index (pw_shells w) c (store_key k (pw_settings w))"
  shows "write_key e (Suc n) k w = Some (handled e k w)"
proof -
  let ?w1 = "w\<lparr>pw_settings := store_key k (pw_settings w)\<rparr>"
  obtain w2 q where ch: "changed e k ?w1 = (w2, q)" by (metis prod.exhaust)
  have q: "q = map_option (\<lambda>c. (c, row_index (pw_shells w) c (store_key k (pw_settings w)))) (combo_of k)"
    using changed_row[of e k ?w1] by (simp add: ch)
  have sel: "pw_selected w2 = pw_selected w" using changed_kept(4)[of e k ?w1] by (simp add: ch)
  have same: "w2\<lparr>pw_selected := (pw_selected w)(c := r)\<rparr> = w2" if "pw_selected w c = r" for c r
  proof -
    have "(pw_selected w)(c := r) = pw_selected w2" using that sel by (simp add: fun_upd_idem)
    then show ?thesis by simp
  qed
  show ?thesis
  proof (cases "combo_of k")
    case None
    then show ?thesis using assms(1) by (simp add: ch q handled_def Let_def)
  next
    case (Some c)
    then show ?thesis using assms(1) sel assms(2)[OF Some] by (simp add: ch q handled_def Let_def same[OF assms(2)[OF Some]])
  qed
qed

lemma write_settles:
  assumes "pw_open w" and "distinct (pw_shells w)" "pw_shells w \<noteq> []"
  obtains "write_key e 2 k w = Some (handled e k w)"
      and "\<And>c. combo_of k = Some c \<Longrightarrow> pw_selected w c = row_index (pw_shells w) c (store_key k (pw_settings w))"
  | k' c where "write_key e 2 k w = Some (handled e k' (handled e k w))" and "combo_of k = Some c" and "combo_of k' = Some c"
      and "selected_cb (pw_shells w) c (row_index (pw_shells w) c (store_key k (pw_settings w))) = Some k'"
      and "pw_selected w c \<noteq> row_index (pw_shells w) c (store_key k (pw_settings w))"
proof (cases "\<exists>c. combo_of k = Some c \<and> pw_selected w c \<noteq> row_index (pw_shells w) c (store_key k (pw_settings w))")
  case False
  then have "write_key e 2 k w = Some (handled e k w)"
    using write_same_row[OF assms(1), of k e 1] by (auto simp: numeral_2_eq_2)
  then show ?thesis using False that(1) by blast
next
  case True
  then obtain c where c: "combo_of k = Some c" "pw_selected w c \<noteq> row_index (pw_shells w) c (store_key k (pw_settings w))" by blast
  let ?i = "row_index (pw_shells w) c (store_key k (pw_settings w))" and ?w1 = "w\<lparr>pw_settings := store_key k (pw_settings w)\<rparr>"
  obtain w2 q where ch: "changed e k ?w1 = (w2, q)" by (metis prod.exhaust)
  have q: "q = Some (c, ?i)" using changed_row[of e k ?w1] by (simp add: ch c(1))
  have w2: "pw_selected w2 = pw_selected w" "pw_shells w2 = pw_shells w" "pw_open w2"
    using changed_kept[of e k ?w1] assms(1) by (simp_all add: ch)
  obtain k' where k': "selected_cb (pw_shells w) c ?i = Some k'" "combo_of k' = Some c" "\<And>s. row_index (pw_shells w) c (store_key k' s) = ?i"
    by (rule selected_row[OF assms(2) row_index_less[OF assms(3), of c "store_key k (pw_settings w)"]]) (rule that)
  have h: "w2\<lparr>pw_selected := (pw_selected w)(c := ?i)\<rparr> = handled e k w" by (simp add: handled_def Let_def ch c(1))
  have "write_key e (Suc (Suc 0)) k w = write_key e (Suc 0) k' (w2\<lparr>pw_selected := (pw_selected w)(c := ?i)\<rparr>)"
    using assms(1) c(2) w2 k'(1) by (subst write_key.simps(2)) (simp add: ch q del: write_key.simps)
  then have "write_key e 2 k w = write_key e (Suc 0) k' (handled e k w)" unfolding h numeral_2_eq_2 .
  moreover have "write_key e (Suc 0) k' (handled e k w) = Some (handled e k' (handled e k w))"
  proof (rule write_same_row)
    show "pw_open (handled e k w)" using assms(1) by (simp add: handled_kept)
    have "pw_selected (handled e k w) c = ?i" by (simp flip: h)
    then show "pw_selected (handled e k w) d = row_index (pw_shells (handled e k w)) d (store_key k' (pw_settings (handled e k w)))"
      if "combo_of k' = Some d" for d
      using that k'(2,3) by (simp add: handled_kept)
  qed
  ultimately show ?thesis using that(2)[of k' c] k'(1,2) c by simp
qed

lemma write_ok:
  assumes "parses_hex (px_parse e)" and "prefs_ok e w" and "pw_open w"
  shows "\<exists>w'. write_key e 2 k w = Some w' \<and> prefs_ok e w' \<and> pw_open w'"
proof -
  have w: "wanted e (pw_settings w) = Some (outward w)" "dressed (pw_registry w)" "distinct (pw_shells w)" "pw_shells w \<noteq> []"
    "hd (pw_shells w) = []" "pw_marked w = ring (pw_settings w)" "\<And>c. pw_selected w c = row_index (pw_shells w) c (pw_settings w)"
    using assms(2,3) by (simp_all add: prefs_ok_def window_ok_def rows_agree_def)
  have h: "prefs_ok e (handled e k w)" "window_ok (handled e k w)" by (rule handled_ok; (rule assms(1) w)+)+
  show ?thesis
  proof (rule write_settles[OF assms(3) w(3,4), of e k])
    assume "write_key e 2 k w = Some (handled e k w)"
    then show ?thesis using h assms(3) by (simp add: handled_kept)
  next
    fix k' c assume k': "write_key e 2 k w = Some (handled e k' (handled e k w))"
    have "prefs_ok e (handled e k' (handled e k w))"
      by (rule handled_ok(1)[OF assms(1)]) (use h in \<open>simp_all add: prefs_ok_def window_ok_def rows_agree_def\<close>)
    then show ?thesis using k' assms(3) by (simp add: handled_kept)
  qed
qed

section \<open>Every step\<close>

lemma shells_ok: "distinct (epimone_settings_shell_paths strip executable contents) \<and> epimone_settings_shell_paths strip executable contents \<noteq> [] \<and>
  hd (epimone_settings_shell_paths strip executable contents) = []"
proof -
  have "distinct (fold (add_shell strip executable) ls ps) \<and> fold (add_shell strip executable) ls ps \<noteq> [] \<and> hd (fold (add_shell strip executable) ls ps) = []"
    if "distinct ps" "ps \<noteq> []" "hd ps = []" for ls ps
    using that
  proof (induction ls arbitrary: ps)
    case (Cons l ls)
    have "strip l \<noteq> [] \<and> strip l \<notin> set (tl ps) \<Longrightarrow> strip l \<notin> set ps" using Cons.prems by (cases ps) auto
    moreover have "take 1 (strip l) = lit ''/'' \<Longrightarrow> strip l \<noteq> []" by (auto simp: lit_def)
    ultimately have "distinct (add_shell strip executable l ps)" "add_shell strip executable l ps \<noteq> []"
      "hd (add_shell strip executable l ps) = []"
      using Cons.prems by (auto simp: add_shell_def Let_def)
    from Cons.IH[OF this] show ?case by simp
  qed simp
  from this[of "[[]]"] show ?thesis by (auto simp: epimone_settings_shell_paths_def split: option.split)
qed

lemma prefs_init_ok: "prefs_ok e w \<Longrightarrow> prefs_ok e (epimone_settings_init strip executable contents w)"
  using shells_ok[of strip executable contents]
  by (auto simp: prefs_ok_def window_ok_def rows_agree_def ring_def epimone_settings_init_def
      epimone_settings_mark_selected_theme_def outward_def Let_def)

lemma registry_ok:
  assumes "prefs_ok e w" and "dressed (h (pw_registry w))"
    and "rg_appearance (h (pw_registry w)) = rg_appearance (pw_registry w)"
      "rg_preserve (h (pw_registry w)) = rg_preserve (pw_registry w)"
      "rg_padding (h (pw_registry w)) = rg_padding (pw_registry w)"
      "rg_dim_inactive (h (pw_registry w)) = rg_dim_inactive (pw_registry w)"
      "rg_chrome (h (pw_registry w)) = rg_chrome (pw_registry w)"
  shows "prefs_ok e (in_registry h w)"
  using assms by (simp add: prefs_ok_def window_ok_def rows_agree_def in_registry_def outward_def Let_def)

lemma pick_ok:
  assumes "parses_hex (px_parse e)" and "prefs_ok e w" and "i < entries (pw_shells w) c"
  shows "\<exists>w'. pick e 2 c i w = Some w' \<and> prefs_ok e w'"
proof (cases "\<not> pw_open w \<or> pw_selected w c = i")
  case True
  then show ?thesis using assms(2) by (auto simp: pick_def)
next
  case False
  let ?w = "w\<lparr>pw_selected := (pw_selected w)(c := i)\<rparr>"
  have w: "wanted e (pw_settings w) = Some (outward w)" "dressed (pw_registry w)" "distinct (pw_shells w)" "pw_shells w \<noteq> []"
    "hd (pw_shells w) = []" "pw_marked w = ring (pw_settings w)" "\<And>c. pw_selected w c = row_index (pw_shells w) c (pw_settings w)"
    using assms(2) False by (simp_all add: prefs_ok_def window_ok_def rows_agree_def)
  obtain k where k: "selected_cb (pw_shells w) c i = Some k" "combo_of k = Some c" "\<And>s. row_index (pw_shells w) c (store_key k s) = i"
    by (rule selected_row[OF w(3) assms(3)]) (rule that)
  have "write_key e 2 k ?w = Some (handled e k ?w)"
    unfolding numeral_2_eq_2 by (rule write_same_row) (use False k in auto)
  moreover have "prefs_ok e (handled e k ?w)"
    by (rule handled_ok(1)[OF assms(1)]) (use w k(2) in auto)
  ultimately show ?thesis using False k(1) by (simp add: pick_def)
qed

lemma prefs_step_ok:
  assumes "prefs_step e w w'" and hex: "parses_hex (px_parse e)" and ok: "prefs_ok e w"
  shows "prefs_ok e w'"
  using assms(1)
proof cases
  case (written k)
  then show ?thesis using write_ok[OF hex ok, of k] by auto
next
  case (picked i c)
  then show ?thesis using pick_ok[OF hex ok] by force
next
  case (card p)
  then show ?thesis using write_ok[OF hex ok, of "Theme (lit (pl_id p))"] by (auto simp: epimone_settings_card_clicked_cb_def)
next
  case opened
  then show ?thesis using prefs_init_ok[OF ok] by simp
next
  case closed
  then show ?thesis using ok by (simp add: epimone_settings_dispose_def prefs_ok_def outward_def)
next
  case (made x fresh)
  have "dressed (pw_registry w)" using ok by (simp add: prefs_ok_def)
  then show ?thesis unfolding made
    by (intro registry_ok[OF ok] dressed_made)
      (simp_all add: epimone_page_make_vte_def epimone_register_terminal_def epimone_terminals_apply_appearance_def)
next
  case (destroyed x)
  have "dressed (pw_registry w)" using ok by (simp add: prefs_ok_def)
  then show ?thesis unfolding destroyed
    by (intro registry_ok[OF ok] dressed_destroyed) (simp_all add: epimone_terminal_destroyed_cb_def)
next
  case (bell x b)
  have "dressed (pw_registry w)" using ok by (simp add: prefs_ok_def)
  then show ?thesis unfolding bell
    by (intro registry_ok[OF ok] dressed_bell) (simp_all add: epimone_terminal_set_bell_suppressed_def)
next
  case (listened l)
  have "dressed (pw_registry w)" using ok by (simp add: prefs_ok_def)
  then show ?thesis unfolding listened
    by (intro registry_ok[OF ok]) (simp_all add: epimone_terminals_add_appearance_listener_def)
next
  case (unlistened l)
  have "dressed (pw_registry w)" using ok by (simp add: prefs_ok_def)
  then show ?thesis unfolding unlistened
    by (intro registry_ok[OF ok]) (simp_all add: epimone_terminals_remove_appearance_listener_def)
qed

lemma prefs_start_ok:
  assumes "parses_hex (px_parse e)"
  shows "prefs_ok e (apply_saved_appearance e (fresh_world pe vtes g s))"
proof -
  have kept: "pw_settings (apply_saved_appearance e w) = pw_settings w" "pw_open (apply_saved_appearance e w) = pw_open w"
    "rg_terminals (pw_registry (apply_saved_appearance e w)) = rg_terminals (pw_registry w)" for w :: "('a, 'b, 'c) prefs_world"
    by (simp_all add: apply_saved_appearance_def epimone_settings_apply_theme_def setters Let_def split: option.split prod.split)
  show ?thesis
    using saved_outward[OF assms, of "fresh_world pe vtes g s"]
    by (simp add: prefs_ok_def dressed_def kept) (simp add: fresh_world_def)
qed

interpretation live: machine "\<lambda>w w'. parses_hex (px_parse e) \<and> prefs_step e w w'" "prefs_ok e"
  by unfold_locales (use prefs_step_ok in blast)

lemma prefs_reach_ok:
  assumes "parses_hex (px_parse e)" and "(prefs_step e)\<^sup>*\<^sup>* (apply_saved_appearance e (fresh_world pe vtes g s)) w"
  shows "prefs_ok e w"
  by (rule live.reach_of[OF assms(2)]) (simp_all add: assms(1) prefs_start_ok[OF assms(1)])

section \<open>What is stored\<close>

text \<open>The value is one that the row of the key offers.\<close>

definition known :: "byte list list \<Rightarrow> setting \<Rightarrow> bool" where
  "known shells k =
     (case k of
        Cursor_shape x \<Rightarrow> x \<in> set [lit ''block'', lit ''ibeam'', lit ''underline'']
      | Tab_position x \<Rightarrow> x \<in> set epimone_tab_positions
      | Tab_bar_policy x \<Rightarrow> x \<in> set epimone_tab_policies
      | Backspace_binding x \<Rightarrow> x \<in> set epimone_erase_ids
      | Delete_binding x \<Rightarrow> x \<in> set epimone_erase_ids
      | Cjk_ambiguous_width x \<Rightarrow> x \<in> set epimone_cjk_widths
      | Preserve_directory x \<Rightarrow> x \<in> set epimone_preserve_dirs
      | Shell_path x \<Rightarrow> x \<in> set shells
      | _ \<Rightarrow> True)"

lemma entry_index_of: "x \<in> set names \<Longrightarrow> entry names (epimone_index_of names x fb) = Some x"
proof -
  have "x \<in> set names \<Longrightarrow> \<exists>i. find_index (\<lambda>y. y = x) names = Some i \<and> i < length names \<and> names ! i = x"
    by (induction names) auto
  then show "x \<in> set names \<Longrightarrow> ?thesis" by (auto simp: epimone_index_of_def entry_def)
qed

lemma known_again:
  assumes "known shells k" and "combo_of k = Some c"
  shows "selected_cb shells c (row_index shells c (store_key k s)) = Some k"
proof -
  have cursor: "epimone_settings_cursor_selected_cb (index_of_shape (epimone_cursor_shape_from_id x)) = Some (Cursor_shape x)"
    if "x \<in> set [lit ''block'', lit ''ibeam'', lit ''underline'']" for x
    using that by (auto simp: epimone_settings_cursor_selected_cb_def index_of_shape_def epimone_cursor_shape_from_id_def)
  show ?thesis
    using assms cursor
    by (cases k) (auto simp: known_def selected_cb_def row_index_def entry_index_of epimone_settings_shell_index_def
      epimone_settings_tab_position_selected_cb_def epimone_settings_tab_policy_selected_cb_def
      epimone_settings_backspace_selected_cb_def epimone_settings_delete_selected_cb_def epimone_settings_cjk_selected_cb_def
      epimone_settings_preserve_selected_cb_def epimone_settings_shell_selected_cb_def)
qed

lemma unknown_index: "x \<notin> set names \<Longrightarrow> epimone_index_of names x fb = fb"
proof -
  have "x \<notin> set names \<Longrightarrow> find_index (\<lambda>y. y = x) names = None" by (induction names) auto
  then show "x \<notin> set names \<Longrightarrow> ?thesis" by (simp add: epimone_index_of_def)
qed

lemma store_twice [simp]: "store_key k (store_key k s) = store_key k s"
  by (cases k) simp_all

section \<open>What holds\<close>

text \<open>C36. Changing settings while the preferences are open is the same as restarting with them: whatever keys were
  written, by whom and in which order, whatever rows and cards were picked, the colours, the font and all the other
  looks and preferences of the process are those of a process that has just started with the keys as they are
  stored now, and every terminal that was ever built and still lives is set to them, its bell silenced
  only while its replay is fed.\<close>

theorem live_settings_equal_a_restart:
  assumes "parses_hex (px_parse e)" and "(prefs_step e)\<^sup>*\<^sup>* (apply_saved_appearance e (fresh_world pe vtes g s)) w"
  shows "outward w = outward (apply_saved_appearance e (fresh_world pe vtes g (pw_settings w))) \<and>
    list_all (\<lambda>x. epimone_apply_appearance_to (rg_appearance (pw_registry w)) (rg_vte (pw_registry w) x) = rg_vte (pw_registry w) x)
      (rg_terminals (pw_registry w))"
proof -
  have ok: "prefs_ok e w" by (rule prefs_reach_ok[OF assms])
  have "pw_settings (fresh_world pe vtes g (pw_settings w)) = pw_settings w" by (simp add: fresh_world_def)
  then have "Some (outward w) = Some (outward (apply_saved_appearance e (fresh_world pe vtes g (pw_settings w))))"
    using saved_outward[OF assms(1), of "fresh_world pe vtes g (pw_settings w)"] ok by (simp add: prefs_ok_def)
  then show ?thesis using ok by (simp add: prefs_ok_def dressed_def list_all_iff)
qed

definition wit_px :: "(byte list, rat) prefs_env" where "wit_px = \<lparr>px_parse = Some, px_page_env = wit_page_env\<rparr>"

definition wit_keys :: gsettings where
  "wit_keys = \<lparr>gs_theme = lit ''dracula'', gs_font_name = [], gs_cursor_shape = lit ''block'', gs_cell_padding = 8,
     gs_dim_inactive_panes = True, gs_scrollback_unlimited = False, gs_scrollback_lines = 10000, gs_audible_bell = True,
     gs_scroll_on_output = False, gs_scroll_on_keystroke = True, gs_default_columns = 80, gs_default_rows = 24,
     gs_tab_position = lit ''top'', gs_tab_bar_policy = lit ''multiple'', gs_confirm_close = True,
     gs_backspace_binding = lit ''auto'', gs_delete_binding = lit ''auto'', gs_cjk_ambiguous_width = lit ''narrow'',
     gs_preserve_directory = lit ''always'', gs_shell_path = lit ''/bin/sh''\<rparr>"

definition wit_vtes :: "nat \<Rightarrow> byte list vte" where
  "wit_vtes = (\<lambda>_. \<lparr>vt_colors = None, vt_color_cursor = None, vt_font = None, vt_cursor_shape = VTE_CURSOR_SHAPE_BLOCK,
     vt_scrollback_lines = 512, vt_audible_bell = True, vt_scroll_on_output = False, vt_scroll_on_keystroke = False,
     vt_backspace_binding = VTE_ERASE_AUTO, vt_delete_binding = VTE_ERASE_AUTO, vt_cjk_ambiguous_width = 1,
     vt_size = (80, 24), vt_suppressed = False\<rparr>)"

definition wit_opened where
  "wit_opened = epimone_settings_init id (\<lambda>_. True) (Some (lit ''/bin/sh''))
     (apply_saved_appearance wit_px (fresh_world wit_page_env wit_vtes wit_gui1 wit_keys))"

lemma wit_parses: "parses_hex (px_parse wit_px)"
  by (simp add: parses_hex_def wit_px_def)

lemma wit_opened_reach:
  "(prefs_step wit_px)\<^sup>*\<^sup>* (apply_saved_appearance wit_px (fresh_world wit_page_env wit_vtes wit_gui1 wit_keys)) wit_opened"
  unfolding wit_opened_def by (rule r_into_rtranclp) (rule prefs_step.opened)

lemma wit_opened_fields: "pw_open wit_opened" "pw_shells wit_opened = [[], lit ''/bin/sh'']" "pw_settings wit_opened = wit_keys"
proof -
  have kept: "pw_settings (apply_saved_appearance e w) = pw_settings w" for e :: "(byte list, rat) prefs_env" and w :: "(byte list, rat, 'w) prefs_world"
    by (simp add: apply_saved_appearance_def epimone_settings_apply_theme_def setters Let_def split: option.split prod.split)
  show "pw_open wit_opened" "pw_shells wit_opened = [[], lit ''/bin/sh'']" "pw_settings wit_opened = wit_keys"
    by (simp_all add: wit_opened_def epimone_settings_init_def epimone_settings_mark_selected_theme_def Let_def kept fresh_world_def
      epimone_settings_shell_paths_def add_shell_def lit_def)
qed

theorem live_settings_equal_a_restart_witness:
  "outward wit_opened = outward (apply_saved_appearance wit_px (fresh_world wit_page_env wit_vtes wit_gui1 wit_keys)) \<and>
   list_all (\<lambda>x. epimone_apply_appearance_to (rg_appearance (pw_registry wit_opened)) (rg_vte (pw_registry wit_opened) x) =
      rg_vte (pw_registry wit_opened) x) (rg_terminals (pw_registry wit_opened))"
  using live_settings_equal_a_restart[OF wit_parses wit_opened_reach] by (simp add: wit_opened_fields)

text \<open>C38. While the preferences are open, writing a key settles: the handler, the combo row it sets and the write
  that the row makes in turn call each other at most twice. Afterwards each of the eight combo rows shows the
  stored value of its key, if it offers it, and its default otherwise, and a value that the row offers is the
  one stored. Of the other rows nothing is said: the font row does not follow a written font name, and the
  row of scrollback lines shows a large count as its own greatest. A shell that the row does not offer is not kept when another
  one than the default was selected: the row falls back to the system's default and stores that.\<close>

theorem written_keys_settle:
  assumes "parses_hex (px_parse e)" and "(prefs_step e)\<^sup>*\<^sup>* (apply_saved_appearance e (fresh_world pe vtes g s)) w"
    and "pw_open w"
  shows "\<exists>w'. write_key e 2 k w = Some w' \<and> (\<forall>c. pw_selected w' c = row_index (pw_shells w') c (pw_settings w')) \<and>
    (known (pw_shells w) k \<longrightarrow> pw_settings w' = store_key k (pw_settings w)) \<and>
    (\<forall>x. k = Shell_path x \<and> x \<notin> set (pw_shells w) \<and> pw_selected w Shell_combo \<noteq> 0 \<longrightarrow> gs_shell_path (pw_settings w') = [])"
proof -
  have ok: "prefs_ok e w" by (rule prefs_reach_ok[OF assms(1,2)])
  have shells: "distinct (pw_shells w)" "pw_shells w \<noteq> []" "hd (pw_shells w) = []"
    using ok assms(3) by (simp_all add: prefs_ok_def window_ok_def)
  obtain w' where w': "write_key e 2 k w = Some w'" "prefs_ok e w'" "pw_open w'"
    using write_ok[OF assms(1) ok assms(3), of k] by blast
  have rows: "\<forall>c. pw_selected w' c = row_index (pw_shells w') c (pw_settings w')"
    using w'(2,3) by (simp add: prefs_ok_def window_ok_def rows_agree_def)
  have lost: "row_index (pw_shells w) Shell_combo (store_key k (pw_settings w)) = 0" if "k = Shell_path x" "x \<notin> set (pw_shells w)" for x
    using that by (simp add: row_index_def epimone_settings_shell_index_def unknown_index)
  have "(known (pw_shells w) k \<longrightarrow> pw_settings w' = store_key k (pw_settings w)) \<and>
    (\<forall>x. k = Shell_path x \<and> x \<notin> set (pw_shells w) \<and> pw_selected w Shell_combo \<noteq> 0 \<longrightarrow> gs_shell_path (pw_settings w') = [])"
  proof (rule write_settles[OF assms(3) shells(1,2), of e k])
    assume one: "write_key e 2 k w = Some (handled e k w)"
      and same: "\<And>c. combo_of k = Some c \<Longrightarrow> pw_selected w c = row_index (pw_shells w) c (store_key k (pw_settings w))"
    then have h: "w' = handled e k w" using w'(1) by simp
    have "pw_selected w Shell_combo = 0" if "k = Shell_path x" "x \<notin> set (pw_shells w)" for x
      using same[of Shell_combo] lost[OF that] that(1) by simp
    then show ?thesis using h by (auto simp: handled_kept)
  next
    fix k' c assume two: "write_key e 2 k w = Some (handled e k' (handled e k w))" "combo_of k = Some c"
      and sel: "selected_cb (pw_shells w) c (row_index (pw_shells w) c (store_key k (pw_settings w))) = Some k'"
    have "known (pw_shells w) k \<Longrightarrow> k' = k" using known_again[of "pw_shells w" k c "pw_settings w"] two(2) sel by simp
    moreover have "gs_shell_path (store_key k' t) = []" if "k = Shell_path x" "x \<notin> set (pw_shells w)" for x t
      using sel that two(2) lost[OF that] shells
      by (auto simp: selected_cb_def epimone_settings_shell_selected_cb_def entry_def hd_conv_nth)
    ultimately show ?thesis using two(1) w'(1) by (auto simp: handled_kept)
  qed
  then show ?thesis using w'(1) rows by blast
qed

theorem written_keys_settle_witness:
  "(\<exists>w'. write_key wit_px 2 (Shell_path (lit ''/opt/fish'')) wit_opened = Some w' \<and> gs_shell_path (pw_settings w') = []) \<and>
   (\<exists>w'. write_key wit_px 2 (Cursor_shape (lit ''ibeam'')) wit_opened = Some w' \<and> gs_cursor_shape (pw_settings w') = lit ''ibeam'')"
proof -
  have "prefs_ok wit_px wit_opened" by (rule prefs_reach_ok[OF wit_parses wit_opened_reach])
  then have row: "pw_selected wit_opened Shell_combo = 1"
    using wit_opened_fields
    by (simp add: prefs_ok_def window_ok_def rows_agree_def row_index_def epimone_settings_shell_index_def epimone_index_of_def
      wit_keys_def lit_def)
  note settle = written_keys_settle[OF wit_parses wit_opened_reach wit_opened_fields(1)]
  have unknown: "lit ''/opt/fish'' \<notin> set (pw_shells wit_opened)" by (simp add: wit_opened_fields lit_def)
  then have "\<exists>w'. write_key wit_px 2 (Shell_path (lit ''/opt/fish'')) wit_opened = Some w' \<and> gs_shell_path (pw_settings w') = []"
    using settle[of "Shell_path (lit ''/opt/fish'')"] row by auto
  moreover have "\<exists>w'. write_key wit_px 2 (Cursor_shape (lit ''ibeam'')) wit_opened = Some w' \<and> gs_cursor_shape (pw_settings w') = lit ''ibeam''"
    using settle[of "Cursor_shape (lit ''ibeam'')"] by (auto simp: known_def)
  ultimately show ?thesis by blast
qed

end
