(* ===== verification/Chrome.thy ===== *)
theory Chrome
  imports Page Palettes
begin

text \<open>
  The colours around the terminals (src/src/epimone-chrome.c): GTK's shading of a colour by way of hue,
  saturation and lightness, the test for dark colours and the colours that go into the style sheet. A
  single precision value is carried as the double it is: \<open>fs\<close> computes in single precision and \<open>fd\<close> in
  double precision, and the square root is a parameter. The text of the style sheet around the colours is
  not modelled. In exact arithmetic a colour taken apart and put together again is the same colour.
\<close>

section \<open>Hue, saturation, lightness\<close>

record 'd GdkRGBA =
  rgba_red :: 'd
  rgba_green :: 'd
  rgba_blue :: 'd
  rgba_alpha :: 'd

record 'd EpimoneHSLA =
  hs_hue :: 'd
  hs_saturation :: 'd
  hs_lightness :: 'd
  hs_alpha :: 'd

abbreviation num :: "'d fp \<Rightarrow> int \<Rightarrow> 'd" where "num f n \<equiv> fp_of_int f n"

text \<open>\<open>MAX\<close>, \<open>MIN\<close> and \<open>CLAMP\<close> of GLib, and \<open>==\<close>.\<close>

definition fp_max :: "'d fp \<Rightarrow> 'd \<Rightarrow> 'd \<Rightarrow> 'd" where "fp_max f a b = (if fp_less f b a then a else b)"
definition fp_min :: "'d fp \<Rightarrow> 'd \<Rightarrow> 'd \<Rightarrow> 'd" where "fp_min f a b = (if fp_less f a b then a else b)"
definition fp_clamp :: "'d fp \<Rightarrow> 'd \<Rightarrow> 'd \<Rightarrow> 'd \<Rightarrow> 'd" where
  "fp_clamp f x low high = (if fp_less f high x then high else if fp_less f x low then low else x)"
definition fp_eq :: "'d fp \<Rightarrow> 'd \<Rightarrow> 'd \<Rightarrow> bool" where "fp_eq f a b \<longleftrightarrow> fp_le f a b \<and> fp_le f b a"

definition epimone_hsla_from_rgba :: "'d fp \<Rightarrow> 'd GdkRGBA \<Rightarrow> 'd EpimoneHSLA" where
  "epimone_hsla_from_rgba f c =
     (let red = rgba_red c; green = rgba_green c; blue = rgba_blue c;
          mx = fp_max f red (fp_max f green blue);
          mn = fp_min f red (fp_min f green blue);
          lightness = fp_div f (fp_add f mx mn) (num f 2);
          h = \<lparr>hs_hue = num f 0, hs_saturation = num f 0, hs_lightness = lightness, hs_alpha = rgba_alpha c\<rparr>
      in if fp_eq f mx mn then h
         else
           let saturation = (if fp_le f lightness (fp_half f)
                  then fp_div f (fp_sub f mx mn) (fp_add f mx mn)
                  else fp_div f (fp_sub f mx mn) (fp_sub f (fp_sub f (num f 2) mx) mn));
               delta = fp_sub f mx mn;
               hue = (if fp_eq f red mx then fp_div f (fp_sub f green blue) delta
                      else if fp_eq f green mx then fp_add f (num f 2) (fp_div f (fp_sub f blue red) delta)
                      else if fp_eq f blue mx then fp_add f (num f 4) (fp_div f (fp_sub f red green) delta)
                      else num f 0);
               hue = fp_mul f hue (num f 60);
               hue = (if fp_less f hue (num f 0) then fp_add f hue (num f 360) else hue)
           in h\<lparr>hs_hue := hue, hs_saturation := saturation\<rparr>)"

text \<open>The two loops that bring a hue into the circle. On an infinite hue they do not end.\<close>

partial_function (option) hue_down :: "'d fp \<Rightarrow> 'd \<Rightarrow> 'd option" where
  "hue_down f hue = (if fp_less f (num f 360) hue then hue_down f (fp_sub f hue (num f 360)) else Some hue)"

partial_function (option) hue_up :: "'d fp \<Rightarrow> 'd \<Rightarrow> 'd option" where
  "hue_up f hue = (if fp_less f hue (num f 0) then hue_up f (fp_add f hue (num f 360)) else Some hue)"

definition epimone_hsla_channel :: "'d fp \<Rightarrow> 'd \<Rightarrow> 'd \<Rightarrow> 'd \<Rightarrow> 'd option" where
  "epimone_hsla_channel f hue m1 m2 =
     (case hue_down f hue of
        None \<Rightarrow> None
      | Some hue \<Rightarrow>
          (case hue_up f hue of
             None \<Rightarrow> None
           | Some hue \<Rightarrow> Some
               (if fp_less f hue (num f 60)
                then fp_add f m1 (fp_div f (fp_mul f (fp_sub f m2 m1) hue) (num f 60))
                else if fp_less f hue (num f 180) then m2
                else if fp_less f hue (num f 240)
                then fp_add f m1 (fp_div f (fp_mul f (fp_sub f m2 m1) (fp_sub f (num f 240) hue)) (num f 60))
                else m1)))"

definition epimone_rgba_from_hsla :: "'d fp \<Rightarrow> 'd EpimoneHSLA \<Rightarrow> 'd GdkRGBA option" where
  "epimone_rgba_from_hsla f h =
     (let lightness = hs_lightness h; saturation = hs_saturation h;
          m2 = (if fp_le f lightness (fp_half f) then fp_mul f lightness (fp_add f (num f 1) saturation)
                else fp_sub f (fp_add f lightness saturation) (fp_mul f lightness saturation));
          m1 = fp_sub f (fp_mul f (num f 2) lightness) m2
      in if fp_eq f saturation (num f 0)
         then Some \<lparr>rgba_red = lightness, rgba_green = lightness, rgba_blue = lightness, rgba_alpha = hs_alpha h\<rparr>
         else
           (case (epimone_hsla_channel f (fp_add f (hs_hue h) (num f 120)) m1 m2,
                  epimone_hsla_channel f (hs_hue h) m1 m2,
                  epimone_hsla_channel f (fp_sub f (hs_hue h) (num f 120)) m1 m2) of
              (Some red, Some green, Some blue) \<Rightarrow>
                Some \<lparr>rgba_red = red, rgba_green = green, rgba_blue = blue, rgba_alpha = hs_alpha h\<rparr>
            | _ \<Rightarrow> None))"

definition epimone_shade :: "'d fp \<Rightarrow> 'd GdkRGBA \<Rightarrow> 'd \<Rightarrow> 'd GdkRGBA option" where
  "epimone_shade f color factor =
     (let h = epimone_hsla_from_rgba f color;
          h = h\<lparr>hs_lightness := fp_clamp f (fp_mul f (hs_lightness h) factor) (num f 0) (num f 1)\<rparr>;
          h = h\<lparr>hs_saturation := fp_clamp f (fp_mul f (hs_saturation h) factor) (num f 0) (num f 1)\<rparr>
      in map_option (\<lambda>c. c\<lparr>rgba_alpha := num f 1\<rparr>) (epimone_rgba_from_hsla f h))"

section \<open>What the window takes from a palette\<close>

definition epimone_is_dark :: "'d fp \<Rightarrow> ('d \<Rightarrow> 'd) \<Rightarrow> 'd GdkRGBA \<Rightarrow> bool" where
  "epimone_is_dark fd root_of color =
     (let full = (\<lambda>x. fp_mul fd x (num fd 255));
          weight = (\<lambda>n x. fp_mul fd (fp_div fd (num fd n) (num fd 1000)) (fp_mul fd (full x) (full x)));
          hsp = root_of (fp_add fd (fp_add fd (weight 299 (rgba_red color)) (weight 587 (rgba_green color)))
                               (weight 114 (rgba_blue color)))
      in fp_le fd hsp (fp_div fd (num fd 255) (num fd 2)))"

definition hex_char :: "nat \<Rightarrow> char" where "hex_char n = ''0123456789abcdef'' ! n"

text \<open>A channel as a number of at most two hexadecimal digits.\<close>

definition hex_level :: "'d fp \<Rightarrow> 'd \<Rightarrow> nat" where
  "hex_level fd x =
     nat (fp_trunc fd (fp_clamp fd (fp_add fd (fp_mul fd x (num fd 255)) (fp_half fd)) (num fd 0) (num fd 255)))"

definition epimone_hex :: "'d fp \<Rightarrow> 'd GdkRGBA \<Rightarrow> string" where
  "epimone_hex fd c =
     ''#'' @ concat (map (\<lambda>x. let n = hex_level fd x in [hex_char (n div 16), hex_char (n mod 16)])
                      [rgba_red c, rgba_green c, rgba_blue c])"

text \<open>
  What the display gets: whether dark shades are forced, the four colours of the style sheet, whether
  the rule for dividers on light palettes is in it, and the colour of what destroys.
\<close>

record look =
  lk_dark :: bool
  lk_body_bg :: string
  lk_body_fg :: string
  lk_titlebar_bg :: string
  lk_titlebar_fg :: string
  lk_separator :: bool
  lk_destructive :: string

text \<open>The colours as they are; \<open>None\<close> when a loop does not end.\<close>

definition titlebar ::
  "'d fp \<Rightarrow> 'd fp \<Rightarrow> ('d \<Rightarrow> 'd) \<Rightarrow> 'd GdkRGBA \<Rightarrow> 'd GdkRGBA \<Rightarrow> (bool \<times> 'd GdkRGBA \<times> 'd GdkRGBA) option" where
  "titlebar fs fd root_of bg fg =
     (let dark = epimone_is_dark fd root_of bg; up = fp_div fs (num fs 5) (num fs 4);
          down = fp_div fs (num fs 19) (num fs 20)
      in case (if dark then epimone_shade fs bg up else Some bg, epimone_shade fs fg (if dark then up else down)) of
           (Some tbg, Some tfg) \<Rightarrow> Some (dark, tbg, tfg)
         | _ \<Rightarrow> None)"

definition epimone_chrome_apply_palette ::
  "'d fp \<Rightarrow> 'd fp \<Rightarrow> ('d \<Rightarrow> 'd) \<Rightarrow> 'd GdkRGBA option \<Rightarrow> 'd GdkRGBA option \<Rightarrow> look \<Rightarrow> look option" where
  "epimone_chrome_apply_palette fs fd root_of bg fg old =
     (case (bg, fg) of
        (Some bg, Some fg) \<Rightarrow>
          map_option (\<lambda>(dark, tbg, tfg).
            \<lparr>lk_dark = dark, lk_body_bg = epimone_hex fd bg, lk_body_fg = epimone_hex fd fg,
             lk_titlebar_bg = epimone_hex fd tbg, lk_titlebar_fg = epimone_hex fd tfg,
             lk_separator = (\<not> dark), lk_destructive = (if dark then ''#ff938c'' else ''#c30000'')\<rparr>)
            (titlebar fs fd root_of bg fg)
      | _ \<Rightarrow> Some old)"

section \<open>In exact arithmetic\<close>

lemmas exact = rat_fp_def fp_max_def fp_min_def fp_clamp_def fp_eq_def

lemma rat_ops:
  "fp_add rat_fp = (+)" "fp_sub rat_fp = (-)" "fp_mul rat_fp = (*)" "fp_div rat_fp = (/)" "fp_le rat_fp = (\<le>)"
  "fp_less rat_fp = (<)" "fp_half rat_fp = 1 / 2" "num rat_fp = of_int"
  by (simp_all add: rat_fp_def)

definition in_gamut :: "rat GdkRGBA \<Rightarrow> bool" where
  "in_gamut c \<longleftrightarrow> {rgba_red c, rgba_green c, rgba_blue c} \<subseteq> {0..1}"

lemma hue_once:
  assumes "-360 \<le> h" "h \<le> 720"
  shows "(case hue_down rat_fp h of None \<Rightarrow> None | Some h \<Rightarrow> hue_up rat_fp h) =
    Some (if 360 < h then h - 360 else if h < 0 then h + 360 else h)"
  using assms by (simp add: rat_fp_def hue_down.simps[of _ h] hue_down.simps[of _ "h - 360"] hue_up.simps[of _ h]
    hue_up.simps[of _ "h - 360"] hue_up.simps[of _ "h + 360"])

definition channel_of :: "rat \<Rightarrow> rat \<Rightarrow> rat \<Rightarrow> rat" where
  "channel_of h m1 m2 =
     (let hue = (if 360 < h then h - 360 else if h < 0 then h + 360 else h)
      in if hue < 60 then m1 + (m2 - m1) * hue / 60 else if hue < 180 then m2
         else if hue < 240 then m1 + (m2 - m1) * (240 - hue) / 60 else m1)"

lemma channel_exact:
  assumes "-360 \<le> h" "h \<le> 720"
  shows "epimone_hsla_channel rat_fp h m1 m2 = Some (channel_of h m1 m2)"
  using hue_once[OF assms]
  by (auto simp: epimone_hsla_channel_def channel_of_def Let_def rat_fp_def split: option.splits)


lemma from_rgba_exact:
  "epimone_hsla_from_rgba rat_fp c =
     (let r = rgba_red c; g = rgba_green c; b = rgba_blue c; mx = max r (max g b); mn = min r (min g b); l = (mx + mn) / 2;
          h = (if r = mx then (g - b) / (mx - mn) else if g = mx then 2 + (b - r) / (mx - mn) else 4 + (r - g) / (mx - mn)) * 60
      in if mx = mn then \<lparr>hs_hue = 0, hs_saturation = 0, hs_lightness = l, hs_alpha = rgba_alpha c\<rparr>
         else \<lparr>hs_hue = (if h < 0 then h + 360 else h),
                hs_saturation = (if l \<le> 1 / 2 then (mx - mn) / (mx + mn) else (mx - mn) / (2 - mx - mn)),
                hs_lightness = l, hs_alpha = rgba_alpha c\<rparr>)"
proof -
  have mx: "fp_max rat_fp x y = max x y" and mn: "fp_min rat_fp x y = min x y" and eq: "fp_eq rat_fp x y \<longleftrightarrow> x = y" for x y
    by (auto simp: exact max_def min_def)
  have three: "max x (max y z) = x \<or> max x (max y z) = y \<or> max x (max y z) = z" for x y z :: rat by (simp add: max_def)
  define mx' mn' where "mx' = max (rgba_red c) (max (rgba_green c) (rgba_blue c))" and
    "mn' = min (rgba_red c) (min (rgba_green c) (rgba_blue c))"
  have blue: "rgba_blue c = mx'" if "rgba_red c \<noteq> mx'" "rgba_green c \<noteq> mx'"
    using that three[of "rgba_red c" "rgba_green c" "rgba_blue c"] unfolding mx'_def by metis
  show ?thesis
    unfolding epimone_hsla_from_rgba_def Let_def mx mn eq rat_ops mx'_def[symmetric] mn'_def[symmetric]
    using blue by (cases "rgba_red c = mx'"; cases "rgba_green c = mx'") simp_all
qed

text \<open>A reconstructed channel lies between the two values it is mixed from.\<close>

lemma channel_between:
  assumes "m1 \<le> m2" "-360 \<le> h" "h \<le> 720"
  shows "channel_of h m1 m2 \<in> {m1..m2}"
proof -
  have mix: "m1 + (m2 - m1) * t / 60 \<in> {m1..m2}" if "0 \<le> t" "t \<le> 60" for t
    using mult_left_mono[of t 60 "m2 - m1"] mult_left_mono[of 0 t "m2 - m1"] that assms(1) by (simp add: field_simps)
  define t where "t = (if 360 < h then h - 360 else if h < 0 then h + 360 else h)"
  have "0 \<le> t" using assms by (simp add: t_def)
  then show ?thesis using mix[of t] mix[of "240 - t"] assms(1) by (auto simp: channel_of_def Let_def t_def[symmetric])
qed

definition bounds_of :: "rat \<Rightarrow> rat \<Rightarrow> rat \<times> rat" where
  "bounds_of l s = (let m2 = (if l \<le> 1 / 2 then l * (1 + s) else l + s - l * s) in (2 * l - m2, m2))"

lemma bounds_ok:
  assumes "l \<in> {0..1}" "s \<in> {0..1}" "bounds_of l s = (m1, m2)"
  shows "0 \<le> m1" "m1 \<le> l" "l \<le> m2" "m2 \<le> 1"
proof -
  have ls: "0 \<le> l * s" "l * s \<le> l" "l * s \<le> s" "0 \<le> (1 - l) * (1 - s)"
    using assms by (auto intro: mult_nonneg_nonneg mult_left_le mult_left_le_one_le)
  show "0 \<le> m1" "m1 \<le> l" "l \<le> m2" "m2 \<le> 1"
    using assms ls by (auto simp: bounds_of_def Let_def algebra_simps split: if_splits)
qed

lemma to_rgba_exact:
  assumes "bounds_of (hs_lightness h) (hs_saturation h) = (m1, m2)" "hs_hue h \<in> {0..360}"
  shows "epimone_rgba_from_hsla rat_fp h = Some
    (if hs_saturation h = 0 then \<lparr>rgba_red = hs_lightness h, rgba_green = hs_lightness h, rgba_blue = hs_lightness h, rgba_alpha = hs_alpha h\<rparr>
     else \<lparr>rgba_red = channel_of (hs_hue h + 120) m1 m2, rgba_green = channel_of (hs_hue h) m1 m2,
            rgba_blue = channel_of (hs_hue h - 120) m1 m2, rgba_alpha = hs_alpha h\<rparr>)"
proof -
  have c: "epimone_hsla_channel rat_fp (hs_hue h + 120) x y = Some (channel_of (hs_hue h + 120) x y)"
    "epimone_hsla_channel rat_fp (hs_hue h) x y = Some (channel_of (hs_hue h) x y)"
    "epimone_hsla_channel rat_fp (hs_hue h - 120) x y = Some (channel_of (hs_hue h - 120) x y)" for x y
    using assms(2) by (simp_all add: channel_exact)
  show ?thesis using assms(1)
    unfolding epimone_rgba_from_hsla_def Let_def bounds_of_def rat_ops fp_eq_def by (auto simp: c)
qed


lemma on_circle:
  fixes u v w :: rat
  assumes "u \<in> {-1..1}" "v \<in> {-1..1}" "w \<in> {-1..1}"
  shows "(let t = (if P then u else if Q then 2 + v else 4 + w) * 60 in if t < 0 then t + 360 else t) \<in> {0..360}"
  using assms by (auto simp: Let_def)

lemma scale_back: "d \<noteq> 0 \<Longrightarrow> d * (x / d) = (x :: rat)" by simp

lemma bounds_back:
  assumes "if (mx + mn) / 2 \<le> 1 / 2 then (mx + mn) * s = mx - mn else (2 - mx - mn) * s = mx - mn"
  shows "bounds_of ((mx + mn) / 2) s = (mn, mx)"
proof -
  have "(if (mx + mn) / 2 \<le> 1 / 2 then (mx + mn) / 2 * (1 + s) else (mx + mn) / 2 + s - (mx + mn) / 2 * s) = mx"
    using assms by (auto simp: field_simps split: if_splits)
  then show ?thesis unfolding bounds_of_def Let_def by (simp add: field_simps)
qed

text \<open>The colour that was taken apart: its hue lies on the circle, and it is mixed from its least and greatest channel.\<close>

lemma taken_apart:
  assumes "in_gamut c"
  defines "h \<equiv> epimone_hsla_from_rgba rat_fp c" and "mx \<equiv> max (rgba_red c) (max (rgba_green c) (rgba_blue c))"
    and "mn \<equiv> min (rgba_red c) (min (rgba_green c) (rgba_blue c))"
  shows "hs_hue h \<in> {0..360}" "hs_saturation h \<in> {0..1}" "hs_lightness h \<in> {0..1}"
    "bounds_of (hs_lightness h) (hs_saturation h) = (mn, mx)" "hs_saturation h = 0 \<longleftrightarrow> mx = mn" "hs_alpha h = rgba_alpha c"
proof -
  have b: "0 \<le> mn" "mn \<le> mx" "mx \<le> 1" "rgba_red c \<in> {mn..mx}" "rgba_green c \<in> {mn..mx}" "rgba_blue c \<in> {mn..mx}"
    using assms(1) by (auto simp: in_gamut_def mx_def mn_def)
  have h: "h = (let r = rgba_red c; g = rgba_green c; b = rgba_blue c; l = (mx + mn) / 2;
          h = (if r = mx then (g - b) / (mx - mn) else if g = mx then 2 + (b - r) / (mx - mn) else 4 + (r - g) / (mx - mn)) * 60
      in if mx = mn then \<lparr>hs_hue = 0, hs_saturation = 0, hs_lightness = l, hs_alpha = rgba_alpha c\<rparr>
         else \<lparr>hs_hue = (if h < 0 then h + 360 else h),
                hs_saturation = (if l \<le> 1 / 2 then (mx - mn) / (mx + mn) else (mx - mn) / (2 - mx - mn)),
                hs_lightness = l, hs_alpha = rgba_alpha c\<rparr>)"
    unfolding h_def mx_def mn_def from_rgba_exact Let_def by (rule refl)
  have unit: "(x - y) / (mx - mn) \<in> {-1..1}" if "x \<in> {mn..mx}" "y \<in> {mn..mx}" "mx \<noteq> mn" for x y
    using that b(2) by (auto simp: field_simps)
  show "hs_hue h \<in> {0..360}"
  proof (cases "mx = mn")
    case False
    note on = on_circle[OF unit[OF b(5,6) False] unit[OF b(6,4) False] unit[OF b(4,5) False],
      where P = "rgba_red c = mx" and Q = "rgba_green c = mx"]
    then show ?thesis by (simp only: h Let_def False if_False EpimoneHSLA.simps)
  qed (simp add: h Let_def)
  show "hs_lightness h \<in> {0..1}" "hs_alpha h = rgba_alpha c" using b by (auto simp: h Let_def)
  show "hs_saturation h \<in> {0..1}" using b by (auto simp: h Let_def field_simps)
  show "hs_saturation h = 0 \<longleftrightarrow> mx = mn" using b by (auto simp: h Let_def)
  show "bounds_of (hs_lightness h) (hs_saturation h) = (mn, mx)"
  proof (cases "mx = mn")
    case False
    have "(mx + mn) * ((mx - mn) / (mx + mn)) = mx - mn" "(2 - mx - mn) * ((mx - mn) / (2 - mx - mn)) = mx - mn"
      using False b by (intro scale_back; auto)+
    then have "(if (mx + mn) / 2 \<le> 1 / 2 then (mx + mn) * hs_saturation h = mx - mn else (2 - mx - mn) * hs_saturation h = mx - mn)"
      using False by (simp add: h Let_def)
    from bounds_back[OF this] show ?thesis using False by (simp add: h Let_def)
  qed (simp add: h bounds_of_def Let_def)
qed


subsection \<open>The six sides of the circle\<close>

lemma channel_rise: "0 \<le> u \<Longrightarrow> u \<le> 1 \<Longrightarrow> channel_of (60 * u) m1 m2 = m1 + (m2 - m1) * u"
  by (cases "u = 1") (auto simp: channel_of_def Let_def)

lemma channel_fall: "0 \<le> u \<Longrightarrow> u \<le> 1 \<Longrightarrow> channel_of (240 - 60 * u) m1 m2 = m1 + (m2 - m1) * u"
  by (cases "u = 0") (auto simp: channel_of_def Let_def)

lemma channel_high: "60 \<le> h \<Longrightarrow> h \<le> 180 \<Longrightarrow> channel_of h m1 m2 = m2"
  by (cases "h = 180") (auto simp: channel_of_def Let_def field_simps)

lemma channel_low: "240 \<le> h \<Longrightarrow> h \<le> 360 \<Longrightarrow> channel_of h m1 m2 = m1"
  by (simp add: channel_of_def Let_def)

lemma channel_wrap:
  "360 < h \<Longrightarrow> h \<le> 720 \<Longrightarrow> channel_of h m1 m2 = channel_of (h - 360) m1 m2"
  "h < 0 \<Longrightarrow> -360 \<le> h \<Longrightarrow> channel_of h m1 m2 = channel_of (h + 360) m1 m2"
  by (simp_all add: channel_of_def Let_def)

definition hue_of :: "rat \<Rightarrow> rat \<Rightarrow> rat \<Rightarrow> rat \<Rightarrow> rat \<Rightarrow> rat" where
  "hue_of r g b mx mn =
     (let h = (if r = mx then (g - b) / (mx - mn) else if g = mx then 2 + (b - r) / (mx - mn) else 4 + (r - g) / (mx - mn)) * 60
      in if h < 0 then h + 360 else h)"

definition mixes :: "rat \<Rightarrow> rat \<Rightarrow> rat \<Rightarrow> rat \<times> rat \<times> rat" where
  "mixes h m1 m2 = (channel_of (h + 120) m1 m2, channel_of h m1 m2, channel_of (h - 120) m1 m2)"

lemma side:
  assumes "m1 < m2" "m1 \<le> x" "x \<le> m2"
  defines "u \<equiv> (x - m1) / (m2 - m1)"
  shows "mixes (60 * u) m1 m2 = (m2, x, m1)" "mixes (360 - 60 * u) m1 m2 = (m2, m1, x)"
    "mixes (120 + 60 * u) m1 m2 = (m1, m2, x)" "mixes (120 - 60 * u) m1 m2 = (x, m2, m1)"
    "mixes (240 + 60 * u) m1 m2 = (x, m1, m2)" "mixes (240 - 60 * u) m1 m2 = (m1, x, m2)"
proof -
  have u: "0 \<le> u" "u \<le> 1" and x: "m1 + (m2 - m1) * u = x" using assms by (simp_all add: u_def)
  define w where "w = 60 * u"
  have w: "0 \<le> w" "w \<le> 60" using u by (simp_all add: w_def)
  have rise: "channel_of w m1 m2 = x" and fall: "channel_of (240 - w) m1 m2 = x"
    using channel_rise[OF u] channel_fall[OF u] x by (simp_all add: w_def)
  have over: "channel_of (480 - w) m1 m2 = m2" using channel_wrap(1)[of "480 - w"] w by (simp add: channel_high)
  have low: "channel_of (- w) m1 m2 = m1"
    using channel_wrap(2)[of "- w"] w by (cases "w = 0") (simp_all add: channel_low, simp add: channel_of_def)
  have again: "channel_of (360 + w) m1 m2 = x"
    using channel_wrap(1)[of "360 + w"] w rise by (cases "w = 0") (simp_all, simp add: channel_of_def)
  have under: "channel_of (w - 120) m1 m2 = m1" using channel_wrap(2)[of "w - 120"] w by (simp add: channel_low)
  show "mixes (60 * u) m1 m2 = (m2, x, m1)" "mixes (360 - 60 * u) m1 m2 = (m2, m1, x)"
    "mixes (120 + 60 * u) m1 m2 = (m1, m2, x)" "mixes (120 - 60 * u) m1 m2 = (x, m2, m1)"
    "mixes (240 + 60 * u) m1 m2 = (x, m1, m2)" "mixes (240 - 60 * u) m1 m2 = (m1, x, m2)"
    unfolding w_def[symmetric] mixes_def
    using w rise fall over low again under by (simp_all add: channel_high channel_low algebra_simps)
qed

lemma hexagon:
  assumes "mn < mx" "{r, g, b} \<subseteq> {mn..mx}" "mx \<in> {r, g, b}" "mn \<in> {r, g, b}"
  shows "mixes (hue_of r g b mx mn) mn mx = (r, g, b)"
proof -
  have d: "0 < mx - mn" using assms(1) by simp
  have swap: "(x - y) / (mx - mn) = - ((y - x) / (mx - mn))" for x y
    by (metis minus_diff_eq minus_divide_left)
  have pos: "0 \<le> (x - mn) / (mx - mn)" if "x \<in> {mn..mx}" for x using that d by simp
  have lt: "0 < (x - mn) / (mx - mn)" if "mn < x" for x using that d by simp
  have in_range: "r \<in> {mn..mx}" "g \<in> {mn..mx}" "b \<in> {mn..mx}" using assms(2) by auto
  consider "r = mx" "b = mn" | "r = mx" "g = mn" "g < b" | "g = mx" "r \<noteq> mx" "r = mn" | "g = mx" "r \<noteq> mx" "b = mn"
    | "b = mx" "r \<noteq> mx" "g \<noteq> mx" "g = mn" | "b = mx" "r \<noteq> mx" "g \<noteq> mx" "r = mn"
    using assms by force
  then show ?thesis
  proof cases
    case 1
    define q where "q = (g - mn) / (mx - mn)"
    have q: "0 \<le> q" "q \<le> 1" "(g - mn) / (mx - mn) = q" "(mn - g) / (mx - mn) = - q"
      using in_range(2) d swap[of mn g] by (simp_all add: q_def)
    have "hue_of r g b mx mn = 60 * q" using 1 q by (simp add: hue_of_def Let_def)
    then show ?thesis using side(1)[OF assms(1), of g] in_range 1 by (simp only: q_def) simp
  next
    case 2
    define q where "q = (b - mn) / (mx - mn)"
    have q: "0 \<le> q" "q \<le> 1" "(b - mn) / (mx - mn) = q" "(mn - b) / (mx - mn) = - q"
      using in_range(3) d swap[of mn b] by (simp_all add: q_def)
    have "0 < q" using lt[of b] 2 by (simp add: q_def)
    then have "hue_of r g b mx mn = 360 - 60 * q" using 2 q by (simp add: hue_of_def Let_def)
    then show ?thesis using side(2)[OF assms(1), of b] in_range 2 by (simp only: q_def) simp
  next
    case 3
    define q where "q = (b - mn) / (mx - mn)"
    have q: "0 \<le> q" "q \<le> 1" "(b - mn) / (mx - mn) = q" "(mn - b) / (mx - mn) = - q"
      using in_range(3) d swap[of mn b] by (simp_all add: q_def)
    have "hue_of r g b mx mn = 120 + 60 * q" using 3 q by (simp add: hue_of_def Let_def)
    then show ?thesis using side(3)[OF assms(1), of b] in_range 3 by (simp only: q_def) simp
  next
    case 4
    define q where "q = (r - mn) / (mx - mn)"
    have q: "0 \<le> q" "q \<le> 1" "(r - mn) / (mx - mn) = q" "(mn - r) / (mx - mn) = - q"
      using in_range(1) d swap[of mn r] by (simp_all add: q_def)
    have "hue_of r g b mx mn = 120 - 60 * q" using 4 q by (simp add: hue_of_def Let_def)
    then show ?thesis using side(4)[OF assms(1), of r] in_range 4 by (simp only: q_def) simp
  next
    case 5
    define q where "q = (r - mn) / (mx - mn)"
    have q: "0 \<le> q" "q \<le> 1" "(r - mn) / (mx - mn) = q" "(mn - r) / (mx - mn) = - q"
      using in_range(1) d swap[of mn r] by (simp_all add: q_def)
    have "hue_of r g b mx mn = 240 + 60 * q" using 5 q by (simp add: hue_of_def Let_def)
    then show ?thesis using side(5)[OF assms(1), of r] in_range 5 by (simp only: q_def) simp
  next
    case 6
    define q where "q = (g - mn) / (mx - mn)"
    have q: "0 \<le> q" "q \<le> 1" "(g - mn) / (mx - mn) = q" "(mn - g) / (mx - mn) = - q"
      using in_range(2) d swap[of mn g] by (simp_all add: q_def)
    have "hue_of r g b mx mn = 240 - 60 * q" using 6 q by (simp add: hue_of_def Let_def)
    then show ?thesis using side(6)[OF assms(1), of g] in_range 6 by (simp only: q_def) simp
  qed
qed

text \<open>Taking a colour apart into hue, saturation and lightness and putting it together gives the colour back.\<close>

lemma put_together:
  assumes "in_gamut c"
  shows "epimone_rgba_from_hsla rat_fp (epimone_hsla_from_rgba rat_fp c) = Some c"
proof -
  define h mx mn where "h = epimone_hsla_from_rgba rat_fp c" and "mx = max (rgba_red c) (max (rgba_green c) (rgba_blue c))"
    and "mn = min (rgba_red c) (min (rgba_green c) (rgba_blue c))"
  note apart = taken_apart[OF assms, folded h_def mx_def mn_def]
  have ends: "mx \<in> {rgba_red c, rgba_green c, rgba_blue c}" "mn \<in> {rgba_red c, rgba_green c, rgba_blue c}"
    "{rgba_red c, rgba_green c, rgba_blue c} \<subseteq> {mn..mx}"
    by (auto simp: mx_def mn_def max_def min_def)
  have to: "epimone_rgba_from_hsla rat_fp h = Some
    (if hs_saturation h = 0 then \<lparr>rgba_red = hs_lightness h, rgba_green = hs_lightness h, rgba_blue = hs_lightness h, rgba_alpha = hs_alpha h\<rparr>
     else (case mixes (hs_hue h) mn mx of (r, g, b) \<Rightarrow> \<lparr>rgba_red = r, rgba_green = g, rgba_blue = b, rgba_alpha = hs_alpha h\<rparr>))"
    using to_rgba_exact[OF apart(4,1)] by (simp add: mixes_def)
  show ?thesis
  proof (cases "mx = mn")
    case True
    have "hs_lightness h = mx" using True by (simp add: h_def from_rgba_exact Let_def mx_def mn_def)
    then show ?thesis unfolding h_def[symmetric] using to apart(5,6) True ends(3) by (cases c) simp
  next
    case False
    have "hs_hue h = hue_of (rgba_red c) (rgba_green c) (rgba_blue c) mx mn"
      using False unfolding h_def from_rgba_exact hue_of_def Let_def mx_def mn_def by simp
    then have "mixes (hs_hue h) mn mx = (rgba_red c, rgba_green c, rgba_blue c)"
      using hexagon[OF _ ends(3,1,2)] False ends by auto
    then show ?thesis unfolding h_def[symmetric] using to apart(5,6) False by (cases c) simp
  qed
qed

text \<open>So shading by one changes nothing but the alpha, which becomes one.\<close>

lemma shade_one:
  assumes "in_gamut c"
  shows "epimone_shade rat_fp c 1 = Some (c\<lparr>rgba_alpha := 1\<rparr>)"
  using put_together[OF assms] taken_apart(2,3)[OF assms]
  by (simp add: epimone_shade_def rat_ops fp_clamp_def Let_def)

section \<open>Valid colours\<close>

lemma shade_ok:
  assumes "in_gamut c" "0 \<le> k"
  obtains d where "epimone_shade rat_fp c k = Some d" "in_gamut d"
    "{rgba_red c, rgba_green c, rgba_blue c} = {0} \<Longrightarrow> {rgba_red d, rgba_green d, rgba_blue d} = {0}"
proof -
  define h l s where "h = epimone_hsla_from_rgba rat_fp c" and "l = fp_clamp rat_fp (hs_lightness h * k) 0 1"
    and "s = fp_clamp rat_fp (hs_saturation h * k) 0 1"
  note apart = taken_apart[OF assms(1), folded h_def]
  obtain m1 m2 where m: "bounds_of l s = (m1, m2)" by (cases "bounds_of l s")
  have ls: "l \<in> {0..1}" "s \<in> {0..1}" by (auto simp: l_def s_def fp_clamp_def rat_ops)
  note b = bounds_ok[OF ls m]
  define d where "d = (if s = 0 then \<lparr>rgba_red = l, rgba_green = l, rgba_blue = l, rgba_alpha = 1\<rparr>
    else \<lparr>rgba_red = channel_of (hs_hue h + 120) m1 m2, rgba_green = channel_of (hs_hue h) m1 m2,
           rgba_blue = channel_of (hs_hue h - 120) m1 m2, rgba_alpha = 1\<rparr>)"
  have "epimone_rgba_from_hsla rat_fp (h\<lparr>hs_lightness := l, hs_saturation := s\<rparr>) = Some (d\<lparr>rgba_alpha := hs_alpha h\<rparr>)"
    using to_rgba_exact[of "h\<lparr>hs_lightness := l, hs_saturation := s\<rparr>" m1 m2] apart(1) m by (simp add: d_def)
  moreover have "epimone_shade rat_fp c k =
    map_option (\<lambda>c. c\<lparr>rgba_alpha := 1\<rparr>) (epimone_rgba_from_hsla rat_fp (h\<lparr>hs_lightness := l, hs_saturation := s\<rparr>))"
    by (simp add: epimone_shade_def h_def[symmetric] l_def s_def rat_ops Let_def)
  moreover have "d\<lparr>rgba_alpha := 1\<rparr> = d" by (simp add: d_def)
  ultimately have shade: "epimone_shade rat_fp c k = Some d" by simp
  have hue: "-360 \<le> hs_hue h + 120" "hs_hue h + 120 \<le> 720" "-360 \<le> hs_hue h" "hs_hue h \<le> 720"
    "-360 \<le> hs_hue h - 120" "hs_hue h - 120 \<le> 720" using apart(1) by simp_all
  have mm: "m1 \<le> m2" using b by linarith
  have gamut: "in_gamut d"
    using b ls channel_between[OF mm hue(1,2)] channel_between[OF mm hue(3,4)] channel_between[OF mm hue(5,6)]
    by (auto simp: in_gamut_def d_def)
  have "{rgba_red d, rgba_green d, rgba_blue d} = {0}" if "{rgba_red c, rgba_green c, rgba_blue c} = {0}"
  proof -
    have "rgba_red c = 0" "rgba_green c = 0" "rgba_blue c = 0" using that by auto
    then have "hs_saturation h = 0" "hs_lightness h = 0" by (simp_all add: h_def from_rgba_exact Let_def)
    then have "s = 0" "l = 0" by (simp_all add: s_def l_def fp_clamp_def rat_ops)
    then show ?thesis by (simp add: d_def)
  qed
  with shade gamut show thesis by (rule that)
qed

end
