(* ===== verification/Chrome_Props.thy ===== *)
theory Chrome_Props
  imports Chrome
begin

text \<open>
  The colours of the window under rounding. The single and the double precision of epimone-chrome.c are
  exact arithmetic followed by a rounding; of the one in single precision only laws are used that rounding
  to nearest has, so that the loops end and the printed colours are valid as the program computes them.
\<close>

section \<open>Rounded arithmetic\<close>

definition rounded :: "(rat \<Rightarrow> rat) \<Rightarrow> rat fp" where
  "rounded r = rat_fp\<lparr>fp_add := (\<lambda>x y. r (x + y)), fp_add_single := (\<lambda>x y. r (x + y)), fp_sub := (\<lambda>x y. r (x - y)),
     fp_mul := (\<lambda>x y. r (x * y)), fp_div := (\<lambda>x y. r (x / y))\<rparr>"

text \<open>
  Rounding to nearest is monotone and the same on both sides of nought, it keeps small whole numbers, and,
  with gradual underflow, the difference of two different numbers of the format is not nought.
\<close>

definition rounds :: "(rat \<Rightarrow> rat) \<Rightarrow> bool" where
  "rounds r \<longleftrightarrow> mono r \<and> (\<forall>x. r (- x) = - r x) \<and> (\<forall>n \<in> {0..720}. r (of_int n) = of_int n) \<and>
     (\<forall>x y. r x = x \<and> r y = y \<and> x \<noteq> y \<longrightarrow> r (x - y) \<noteq> 0)"

definition of_format :: "(rat \<Rightarrow> rat) \<Rightarrow> rat GdkRGBA \<Rightarrow> bool" where
  "of_format r c \<longleftrightarrow> {rgba_red c, rgba_green c, rgba_blue c} \<subseteq> {x. r x = x}"

lemma rounded_ops [simp]:
  "fp_add (rounded r) x y = r (x + y)" "fp_sub (rounded r) x y = r (x - y)" "fp_mul (rounded r) x y = r (x * y)"
  "fp_div (rounded r) x y = r (x / y)" "fp_le (rounded r) = (\<le>)" "fp_less (rounded r) = (<)" "fp_half (rounded r) = 1 / 2"
  "num (rounded r) = of_int" "fp_trunc (rounded r) = fp_trunc rat_fp"
  "fp_max (rounded r) x y = max x y" "fp_min (rounded r) x y = min x y" "fp_eq (rounded r) x y \<longleftrightarrow> x = y"
  by (auto simp: rounded_def rat_fp_def fp_max_def fp_min_def fp_eq_def max_def min_def)

lemma rounds_between:
  assumes "rounds r" "of_int a \<le> x" "x \<le> of_int b" "a \<in> {-720..720}" "b \<in> {-720..720}"
  shows "r x \<in> {of_int a..of_int b}"
proof -
  have "r (of_int n) = of_int n" if "n \<in> {-720..720}" for n
  proof (cases "0 \<le> n")
    case False
    have "r (- of_int (- n)) = - r (of_int (- n))" using assms(1) unfolding rounds_def by blast
    moreover have "r (of_int (- n)) = of_int (- n)"
      using assms(1) False that unfolding rounds_def by (metis atLeastAtMost_iff minus_le_iff neg_0_le_iff_le nle_le)
    ultimately show ?thesis by simp
  next
    case True
    then show ?thesis using assms(1) that unfolding rounds_def by auto
  qed
  moreover have "r (of_int a) \<le> r x" "r x \<le> r (of_int b)" using assms(1,2,3) unfolding rounds_def mono_def by blast+
  ultimately show ?thesis using assms(4,5) by simp
qed

lemma rounds_zero: "rounds r \<Longrightarrow> r 0 = 0"
  using rounds_between[of r 0 0 0] by simp

section \<open>The hue lies on the circle and the loops end\<close>

lemma quotient_rounded:
  assumes "rounds r" "mn < mx" "r mn = mn" "r mx = mx" "x \<in> {mn..mx}" "y \<in> {mn..mx}"
  shows "r (r (x - y) / r (mx - mn)) \<in> {-1..1}"
proof -
  have mono: "r x \<le> r y" if "x \<le> y" for x y using assms(1) that unfolding rounds_def mono_def by blast
  have "r (mx - mn) \<noteq> 0" using assms(1,2,3,4) unfolding rounds_def by auto
  moreover have "0 \<le> r (mx - mn)" using mono[of 0 "mx - mn"] rounds_zero[OF assms(1)] assms(2) by simp
  ultimately have d: "0 < r (mx - mn)" by simp
  have "r (- (mx - mn)) = - r (mx - mn)" using assms(1) unfolding rounds_def by blast
  then have "- r (mx - mn) \<le> r (x - y)" "r (x - y) \<le> r (mx - mn)"
    using mono[of "- (mx - mn)" "x - y"] mono[of "x - y" "mx - mn"] assms(5,6) by simp_all
  then have "- 1 \<le> r (x - y) / r (mx - mn)" "r (x - y) / r (mx - mn) \<le> 1" using d by (simp_all add: field_simps)
  then show ?thesis using rounds_between[OF assms(1), of "-1" "r (x - y) / r (mx - mn)" 1] by simp
qed

lemma degrees_rounded:
  assumes "rounds r" "u \<in> {-1..1}" "v \<in> {-1..1}" "w \<in> {-1..1}"
  shows "(let t = r ((if P then u else if Q then r (2 + v) else r (4 + w)) * 60) in if t < 0 then r (t + 360) else t) \<in> {0..360}"
proof -
  define t where "t = r ((if P then u else if Q then r (2 + v) else r (4 + w)) * 60)"
  have "r (2 + v) \<in> {1..3}" "r (4 + w) \<in> {3..5}"
    using rounds_between[OF assms(1), of 1 "2 + v" 3] rounds_between[OF assms(1), of 3 "4 + w" 5] assms(3,4) by simp_all
  then have t: "t \<in> {-60..300}" unfolding t_def
    using rounds_between[OF assms(1), of "-60" _ 300] assms(2) by simp
  then have "r (t + 360) \<in> {0..360}" if "t < 0" using rounds_between[OF assms(1), of 0 "t + 360" 360] that by simp
  then show ?thesis unfolding t_def[symmetric] Let_def using t by simp
qed

lemma hue_rounded:
  assumes "rounds r" "of_format r c" "in_gamut c"
  shows "hs_hue (epimone_hsla_from_rgba (rounded r) c) \<in> {0..360}"
proof -
  define mx mn where "mx = max (rgba_red c) (max (rgba_green c) (rgba_blue c))"
    and "mn = min (rgba_red c) (min (rgba_green c) (rgba_blue c))"
  have ends: "mx \<in> {rgba_red c, rgba_green c, rgba_blue c}" "mn \<in> {rgba_red c, rgba_green c, rgba_blue c}"
    "rgba_red c \<in> {mn..mx}" "rgba_green c \<in> {mn..mx}" "rgba_blue c \<in> {mn..mx}"
    by (auto simp: mx_def mn_def max_def min_def)
  have fixed: "r mn = mn" "r mx = mx" using assms(2) ends(1,2) by (auto simp: of_format_def)
  show ?thesis
  proof (cases "mx = mn")
    case False
    then have "mn < mx" using ends(3) by simp
    note q = quotient_rounded[OF assms(1) this fixed]
    have last: "(if rgba_red c = mx then x else if rgba_green c = mx then y else if rgba_blue c = mx then z else u) =
        (if rgba_red c = mx then x else if rgba_green c = mx then y else z)" for x y z u :: rat
      using ends(1) by auto
    show ?thesis
      using degrees_rounded[OF assms(1) q[OF ends(4,5)] q[OF ends(5,3)] q[OF ends(3,4)],
          where P = "rgba_red c = mx" and Q = "rgba_green c = mx"]
      unfolding epimone_hsla_from_rgba_def Let_def rounded_ops mx_def[symmetric] mn_def[symmetric] last
      by (simp only: False if_False EpimoneHSLA.simps of_int_numeral of_int_0)
  qed (simp add: epimone_hsla_from_rgba_def Let_def mx_def[symmetric] mn_def[symmetric])
qed

lemma channel_rounded:
  assumes "rounds r" "h \<in> {-360..720}"
  shows "\<exists>x. epimone_hsla_channel (rounded r) h m1 m2 = Some x"
proof -
  have down: "\<exists>x \<in> {-360..360}. hue_down (rounded r) h = Some x"
    using rounds_between[OF assms(1), of 0 "h - 360" 360] assms(2)
    by (cases "360 < h") (auto simp: hue_down.simps[of _ h] hue_down.simps[of _ "r (h - 360)"])
  have up: "\<exists>y. hue_up (rounded r) x = Some y" if "x \<in> {-360..360}" for x
    using rounds_between[OF assms(1), of 0 "x + 360" 360] that
    by (cases "x < 0") (auto simp: hue_up.simps[of _ x] hue_up.simps[of _ "r (x + 360)"])
  obtain x where x: "x \<in> {-360..360}" "hue_down (rounded r) h = Some x" using down by blast
  obtain y where "hue_up (rounded r) x = Some y" using up[OF x(1)] by blast
  then show ?thesis by (simp add: epimone_hsla_channel_def x(2))
qed

lemma shade_rounded:
  assumes "rounds r" "of_format r c" "in_gamut c"
  obtains d where "epimone_shade (rounded r) c k = Some d"
    "{rgba_red c, rgba_green c, rgba_blue c} = {0} \<Longrightarrow> {rgba_red d, rgba_green d, rgba_blue d} = {0}"
proof -
  define h l s where "h = epimone_hsla_from_rgba (rounded r) c"
    and "l = fp_clamp (rounded r) (r (hs_lightness h * k)) 0 1" and "s = fp_clamp (rounded r) (r (hs_saturation h * k)) 0 1"
  have circle: "hs_hue h \<in> {0..360}" unfolding h_def by (rule hue_rounded[OF assms])
  have "r (hs_hue h + 120) \<in> {120..480}" "r (hs_hue h - 120) \<in> {-120..240}"
    using rounds_between[OF assms(1), of 120 "hs_hue h + 120" 480] rounds_between[OF assms(1), of "-120" "hs_hue h - 120" 240] circle
    by simp_all
  then have around: "r (hs_hue h + 120) \<in> {-360..720}" "hs_hue h \<in> {-360..720}" "r (hs_hue h - 120) \<in> {-360..720}"
    using circle by auto
  have "\<exists>d. epimone_rgba_from_hsla (rounded r) g = Some d" if "hs_hue g = hs_hue h" for g
  proof (cases "hs_saturation g = 0")
    case False
    obtain x y z where "\<forall>m1 m2. epimone_hsla_channel (rounded r) (r (hs_hue h + 120)) m1 m2 = Some (x m1 m2)"
      "\<forall>m1 m2. epimone_hsla_channel (rounded r) (hs_hue h) m1 m2 = Some (y m1 m2)"
      "\<forall>m1 m2. epimone_hsla_channel (rounded r) (r (hs_hue h - 120)) m1 m2 = Some (z m1 m2)"
      using channel_rounded[OF assms(1)] around by metis
    then show ?thesis using False that by (simp add: epimone_rgba_from_hsla_def Let_def)
  qed (simp add: epimone_rgba_from_hsla_def Let_def)
  then obtain d where d: "epimone_rgba_from_hsla (rounded r) (h\<lparr>hs_lightness := l, hs_saturation := s\<rparr>) = Some d" by fastforce
  have shade: "epimone_shade (rounded r) c k = Some (d\<lparr>rgba_alpha := 1\<rparr>)"
    using d by (simp add: epimone_shade_def h_def[symmetric] l_def s_def Let_def)
  have "{rgba_red d, rgba_green d, rgba_blue d} = {0}" if "{rgba_red c, rgba_green c, rgba_blue c} = {0}"
  proof -
    have "rgba_red c = 0" "rgba_green c = 0" "rgba_blue c = 0" using that by auto
    then have "hs_saturation h = 0" "hs_lightness h = 0"
      by (simp_all add: h_def epimone_hsla_from_rgba_def Let_def rounds_zero[OF assms(1)])
    then have "s = 0" "l = 0" by (simp_all add: s_def l_def fp_clamp_def rounds_zero[OF assms(1)])
    then show ?thesis using d by (auto simp: epimone_rgba_from_hsla_def Let_def)
  qed
  then show thesis by (intro that[OF shade]) simp
qed

section \<open>Valid colours\<close>

lemma hex_ok: "hex_colour (epimone_hex (rounded r) c)"
proof -
  have digit: "hex_char n \<in> set ''0123456789abcdef''" if "n < 16" for n
    using that unfolding hex_char_def by (intro nth_mem) simp
  have "hex_level (rounded r) x < 256" for x
  proof -
    have trunc: "fp_trunc rat_fp z = (if 0 \<le> z then \<lfloor>z\<rfloor> else \<lceil>z\<rceil>)" for z by (simp add: rat_fp_def)
    have y: "fp_clamp (rounded r) z 0 255 \<le> 255" for z by (simp add: fp_clamp_def)
    have "(if 0 \<le> y then \<lfloor>y\<rfloor> else \<lceil>y\<rceil>) < 256" if "y \<le> 255" for y :: rat using that by (auto simp: floor_less_iff ceiling_le_iff intro: le_less_trans[of _ 255])
    from this[OF y] have "fp_trunc rat_fp (fp_clamp (rounded r) z 0 255) < 256" for z by (simp only: trunc)
    from this[of "r (r (x * 255) + 1 / 2)"] show ?thesis by (simp add: hex_level_def)
  qed
  then have "hex_level (rounded r) x div 16 < 16" for x by (simp add: less_mult_imp_div_less)
  then have "set [hex_char (hex_level (rounded r) x div 16), hex_char (hex_level (rounded r) x mod 16)] \<subseteq> set ''0123456789abcdef''" for x
    using digit[of "hex_level (rounded r) x div 16"] digit[of "hex_level (rounded r) x mod 16"] by simp
  then show ?thesis unfolding hex_colour_def epimone_hex_def Let_def by simp
qed

lemma titlebar_exact:
  assumes "in_gamut bg" "in_gamut fg"
  shows "\<exists>dark tbg tfg. titlebar rat_fp rat_fp root_of bg fg = Some (dark, tbg, tfg) \<and> in_gamut tbg \<and> in_gamut tfg"
proof -
  define dark where "dark = epimone_is_dark rat_fp root_of bg"
  obtain tfg where tfg: "epimone_shade rat_fp fg (if dark then 5 / 4 else 19 / 20) = Some tfg" "in_gamut tfg"
    by (rule shade_ok[OF assms(2), of "if dark then 5 / 4 else 19 / 20"]) auto
  obtain up where up: "epimone_shade rat_fp bg (5 / 4) = Some up" "in_gamut up"
    by (rule shade_ok[OF assms(1), of "5 / 4"]) auto
  show ?thesis using tfg up assms(1) by (auto simp: titlebar_def dark_def[symmetric] rat_ops Let_def)
qed

text \<open>C40. The colours computed for the window are valid. In the program's rounded arithmetic, whatever palette
  is applied, the loops on the hue end and the colours that go into the style sheet are colours GDK reads:
  a hash sign and six hexadecimal digits each, although a channel may have been rounded out of its
  range. Light palettes and black ones keep their background in the titlebar, and exactly the light ones get the
  rule for dividers. In exact arithmetic, and there only, the channels are moreover shown to lie between nought
  and one, and a shade by one to be the opaque colour itself. The hypotheses are laws of rounding to
  nearest in single precision, and colours of that format with channels between nought and one; of
  double precision nothing is assumed.\<close>

theorem chrome_colours_are_valid:
  assumes "rounds r" and "of_format r bg" and "of_format r fg" and "in_gamut bg" and "in_gamut fg"
  shows "(\<exists>l. epimone_chrome_apply_palette (rounded r) (rounded r2) root_of (Some bg) (Some fg) old = Some l \<and>
      list_all hex_colour [lk_body_bg l, lk_body_fg l, lk_titlebar_bg l, lk_titlebar_fg l, lk_destructive l] \<and>
      lk_separator l = (\<not> lk_dark l) \<and> lk_dark l = epimone_is_dark (rounded r2) root_of bg \<and>
      (\<not> lk_dark l \<or> {rgba_red bg, rgba_green bg, rgba_blue bg} = {0} \<longrightarrow> lk_titlebar_bg l = lk_body_bg l)) \<and>
    (\<exists>dark tbg tfg. titlebar rat_fp rat_fp root_of bg fg = Some (dark, tbg, tfg) \<and> in_gamut tbg \<and> in_gamut tfg) \<and>
    epimone_shade rat_fp bg 1 = Some (bg\<lparr>rgba_alpha := 1\<rparr>)"
proof -
  define dark where "dark = epimone_is_dark (rounded r2) root_of bg"
  obtain tfg where tfg: "epimone_shade (rounded r) fg (if dark then r (5 / 4) else r (19 / 20)) = Some tfg"
    by (rule shade_rounded[OF assms(1,3,5)])
  obtain up where up: "epimone_shade (rounded r) bg (r (5 / 4)) = Some up"
    "{rgba_red bg, rgba_green bg, rgba_blue bg} = {0} \<Longrightarrow> {rgba_red up, rgba_green up, rgba_blue up} = {0}"
    using shade_rounded[OF assms(1,2,4), of "r (5 / 4)"] by metis
  define tbg where "tbg = (if dark then up else bg)"
  have bar: "titlebar (rounded r) (rounded r2) root_of bg fg = Some (dark, tbg, tfg)"
    using tfg up(1) by (auto simp: titlebar_def dark_def[symmetric] tbg_def Let_def)
  have same: "epimone_hex (rounded r2) tbg = epimone_hex (rounded r2) bg" if "\<not> dark \<or> {rgba_red bg, rgba_green bg, rgba_blue bg} = {0}"
    using that up(2) by (auto simp: tbg_def epimone_hex_def)
  have fixed: "hex_colour ''#ff938c''" "hex_colour ''#c30000''" by (simp_all add: hex_colour_def)
  have "\<exists>l. epimone_chrome_apply_palette (rounded r) (rounded r2) root_of (Some bg) (Some fg) old = Some l \<and>
      list_all hex_colour [lk_body_bg l, lk_body_fg l, lk_titlebar_bg l, lk_titlebar_fg l, lk_destructive l] \<and>
      lk_separator l = (\<not> lk_dark l) \<and> lk_dark l = epimone_is_dark (rounded r2) root_of bg \<and>
      (\<not> lk_dark l \<or> {rgba_red bg, rgba_green bg, rgba_blue bg} = {0} \<longrightarrow> lk_titlebar_bg l = lk_body_bg l)"
    using bar same fixed by (auto simp: epimone_chrome_apply_palette_def hex_ok dark_def[symmetric])
  then show ?thesis using titlebar_exact[OF assms(4,5), of root_of] shade_one[OF assms(4)] by blast
qed

text \<open>Numbers with twenty bits after the point, rounded towards nought.\<close>

definition chopped :: "rat \<Rightarrow> rat" where "chopped x = of_int (fp_trunc rat_fp (x * 1048576)) / 1048576"

lemma chopped_rounds: "rounds chopped"
proof -
  have trunc: "fp_trunc rat_fp z = (if 0 \<le> z then \<lfloor>z\<rfloor> else \<lceil>z\<rceil>)" for z by (simp add: rat_fp_def)
  have "mono chopped"
  proof (rule monoI)
    fix x y :: rat
    assume "x \<le> y"
    then have "x * 1048576 \<le> y * 1048576" by simp
    moreover have "fp_trunc rat_fp a \<le> fp_trunc rat_fp b" if "a \<le> b" for a b
      using that floor_mono[OF that] ceiling_mono[OF that] unfolding trunc
      by (cases "0 \<le> a"; cases "0 \<le> b") (auto simp: le_floor_iff ceiling_le_iff intro: order_trans[of _ 0])
    ultimately have "fp_trunc rat_fp (x * 1048576) \<le> fp_trunc rat_fp (y * 1048576)" by blast
    then show "chopped x \<le> chopped y" by (simp add: chopped_def divide_right_mono)
  qed
  moreover have "chopped (- x) = - chopped x" for x
    by (auto simp: chopped_def trunc floor_minus ceiling_minus)
  moreover have "chopped (of_int n) = of_int n" for n
  proof -
    have "of_int n * 1048576 = (of_int (n * 1048576) :: rat)" by simp
    then show ?thesis unfolding chopped_def trunc by (simp only: floor_of_int ceiling_of_int) simp
  qed
  moreover have "chopped (x - y) = x - y" if grid: "chopped x = x" "chopped y = y" for x y
  proof -
    obtain a b where "x = of_int a / 1048576" "y = of_int b / 1048576" using grid[symmetric] unfolding chopped_def by blast
    then have "(x - y) * 1048576 = of_int (a - b)" by simp
    then show ?thesis unfolding chopped_def trunc
      by (simp only: floor_of_int ceiling_of_int) (simp add: \<open>x = of_int a / 1048576\<close> \<open>y = of_int b / 1048576\<close> diff_divide_distrib)
  qed
  ultimately show ?thesis unfolding rounds_def by simp
qed

theorem chrome_colours_are_valid_witness:
  "\<exists>l. epimone_chrome_apply_palette (rounded chopped) (rounded id) (\<lambda>_. 100)
      (Some \<lparr>rgba_red = 1 / 4, rgba_green = 1 / 8, rgba_blue = 1 / 2, rgba_alpha = 1\<rparr>)
      (Some \<lparr>rgba_red = 1, rgba_green = 3 / 4, rgba_blue = 1 / 2, rgba_alpha = 1\<rparr>) \<lparr>lk_dark = True, lk_body_bg = [], lk_body_fg = [], lk_titlebar_bg = [], lk_titlebar_fg = [], lk_separator = False, lk_destructive = []\<rparr> = Some l \<and>
    lk_dark l \<and> list_all hex_colour [lk_titlebar_bg l, lk_titlebar_fg l]"
proof -
  have "of_format chopped \<lparr>rgba_red = 1 / 4, rgba_green = 1 / 8, rgba_blue = 1 / 2, rgba_alpha = 1\<rparr>"
    "of_format chopped \<lparr>rgba_red = 1, rgba_green = 3 / 4, rgba_blue = 1 / 2, rgba_alpha = 1\<rparr>"
    "in_gamut \<lparr>rgba_red = 1 / 4, rgba_green = 1 / 8, rgba_blue = 1 / 2, rgba_alpha = 1\<rparr>"
    "in_gamut \<lparr>rgba_red = 1, rgba_green = 3 / 4, rgba_blue = 1 / 2, rgba_alpha = 1\<rparr>"
    by (simp_all add: in_gamut_def of_format_def chopped_def rat_fp_def)
  from chrome_colours_are_valid[OF chopped_rounds this, of id "\<lambda>_. 100"] show ?thesis
    by (fastforce simp: epimone_is_dark_def Let_def)
qed

end
