(* ===== verification/App.thy ===== *)
theory App
  imports Window_Props Chrome
begin

text \<open>
  The application (src/src/main.c): the requests that come with a launch, what a launch does as the
  first process and as a later one, the application's actions, and where an uninstalled program finds
  its settings schema. The order in which the toolkit lists the open windows is a parameter.
\<close>

section \<open>Requests\<close>

datatype app_request = Req_new_window | Req_new_tab | Req_preferences

definition flag_names :: "(string \<times> app_request) list" where
  "flag_names = [(''new-window'', Req_new_window), (''new-tab'', Req_new_tab), (''preferences'', Req_preferences)]"

text \<open>
  The process: its windows, the request of a cold start that is still to be done, the calls made to get
  the daemon going and the warnings about them.
\<close>

record ('d, 'w) process =
  pc_gui :: "('d, 'w) gui"
  pc_pending :: "app_request option"
  pc_calls :: "call list"
  pc_warned :: "client_error list"

text \<open>A window as the toolkit lists it, most recently focused first.\<close>

datatype toplevel = Terminal_window nat | Settings_window

text \<open>
  What a launch meets: the toolkit's list, the client with its connections and whether the daemon could
  be started, the session that a first tab gets, and the surroundings of an action.
\<close>

record ('d, 'w) launch_env =
  le_system :: "('d, 'w) system"
  le_tabs :: tab_view
  le_windows :: "('d, 'w) gui \<Rightarrow> toplevel list"
  le_client :: client
  le_links :: "nat \<Rightarrow> link"
  le_spawned :: bool
  le_session :: u64
  le_around :: surroundings

text \<open>What GTK's manual says of the list: it has the open windows of the application.\<close>

definition lists_windows :: "(('d, 'w) gui \<Rightarrow> toplevel list) \<Rightarrow> bool" where
  "lists_windows ws \<longleftrightarrow>
     (\<forall>g. set (ws g) = Terminal_window ` set (map wn_ref (ap_windows (gu_app g))) \<union> (if gu_settings g then {Settings_window} else {}))"

definition in_gui :: "(('d, 'w) gui \<Rightarrow> ('d, 'w) gui) \<Rightarrow> ('d, 'w) process \<Rightarrow> ('d, 'w) process" where
  "in_gui h p = p\<lparr>pc_gui := h (pc_gui p)\<rparr>"

section \<open>Routing\<close>

fun epimone_app_focused_window :: "toplevel list \<Rightarrow> nat option" where
  "epimone_app_focused_window [] = None"
| "epimone_app_focused_window (Terminal_window r # ws) = Some r"
| "epimone_app_focused_window (Settings_window # ws) = epimone_app_focused_window ws"

text \<open>The function is given what g_application_activate does; \<open>None\<close> stands for a call that does not return.\<close>

definition epimone_app_route_to_window ::
  "('d, 'w) launch_env \<Rightarrow> (('d, 'w) process \<Rightarrow> ('d, 'w) process option) \<Rightarrow> win_action \<Rightarrow> bool \<Rightarrow>
   ('d, 'w) process \<Rightarrow> ('d, 'w) process option" where
  "epimone_app_route_to_window e act win_action retry_after_activate p =
     (let route = (\<lambda>r. in_gui (activate (le_system e) (le_tabs e) (le_around e) r win_action)) in
      case epimone_app_focused_window (le_windows e (pc_gui p)) of
        Some r \<Rightarrow> Some (route r p)
      | None \<Rightarrow>
          (case act p of
             None \<Rightarrow> None
           | Some p1 \<Rightarrow>
               if \<not> retry_after_activate then Some p1
               else (case epimone_app_focused_window (le_windows e (pc_gui p1)) of
                       None \<Rightarrow> Some p1 | Some r \<Rightarrow> Some (route r p1))))"

definition app_new_window_action where "app_new_window_action e act = epimone_app_route_to_window e act New_window False"
definition app_new_tab_action where "app_new_tab_action e act = epimone_app_route_to_window e act New_tab False"
definition app_preferences_action where "app_preferences_action e act = epimone_app_route_to_window e act Preferences True"

text \<open>\<open>epimone_app_actions\<close>\<close>

definition app_action where
  "app_action e act req =
     (case req of
        Req_new_window \<Rightarrow> app_new_window_action e act
      | Req_new_tab \<Rightarrow> app_new_tab_action e act
      | Req_preferences \<Rightarrow> app_preferences_action e act)"

section \<open>Activation\<close>

text \<open>
  The windows that a restore has built: each is set up, has a tab for each of its pages and is shown.
  Nothing in between looks at another window, so each of the three is done for all of them in turn.
\<close>

definition set_up_window :: "nat \<Rightarrow> ('d, 'w) gui \<Rightarrow> ('d, 'w) gui" where
  "set_up_window r g = in_frame r (\<lambda>_. epimone_window_init (gu_prefs g)) (g\<lparr>gu_registry := r # gu_registry g\<rparr>)"

definition show_windows :: "nat list \<Rightarrow> ('d, 'w) gui \<Rightarrow> ('d, 'w) gui" where
  "show_windows rs g = fold (\<lambda>r. gui_log (Present r)) rs (fold wire_restored rs (fold set_up_window rs g))"

definition restore_or_new :: "('d, 'w) launch_env \<Rightarrow> ('d, 'w) gui \<Rightarrow> ('d, 'w) gui" where
  "restore_or_new e g =
     (case epimone_layout_restore (le_system e) (gu_app g) of
        (True, a) \<Rightarrow> show_windows (rev (map wn_ref (ap_windows a))) (g\<lparr>gu_app := a\<rparr>)
      | (False, a) \<Rightarrow>
          (case new_window (g\<lparr>gu_app := a\<rparr>) of (r, g1) \<Rightarrow>
             gui_log (Present r) (epimone_window_add_tab (le_system e) (le_tabs e) (le_session e) r g1)))"

text \<open>The first windows of a process: the daemon, the check of its instance, the saved windows or a new one.\<close>

definition first_windows :: "('d, 'w) launch_env \<Rightarrow> ('d, 'w) process \<Rightarrow> ('d, 'w) process" where
  "first_windows e p =
     (case epimone_client_ensure_daemon (le_client e) (le_links e) (le_spawned e) of
        (res, cs) \<Rightarrow>
          in_gui (\<lambda>g. restore_or_new e (in_app (epimone_layout_check_instance (le_system e)) g))
            (p\<lparr>pc_calls := pc_calls p @ cs,
               pc_warned := (case res of Inl err \<Rightarrow> pc_warned p @ [err] | Inr _ \<Rightarrow> pc_warned p)\<rparr>))"

fun present_first :: "toplevel list \<Rightarrow> ('d, 'w) gui \<Rightarrow> ('d, 'w) gui" where
  "present_first [] g = g"
| "present_first (Terminal_window r # ws) g = gui_log (Present r) g"
| "present_first (Settings_window # ws) g = gui_log Present_settings g"

text \<open>
  Activation can route the pending request, and routing can activate: the fuel bounds how deep. It is
  \<open>None\<close> when the fuel runs out.
\<close>

fun activate_cb :: "('d, 'w) launch_env \<Rightarrow> nat \<Rightarrow> ('d, 'w) process \<Rightarrow> ('d, 'w) process option" where
  "activate_cb e 0 p = None"
| "activate_cb e (Suc n) p =
     (if le_windows e (pc_gui p) \<noteq> [] then Some (in_gui (\<lambda>g. present_first (le_windows e g) g) p)
      else
        let p1 = first_windows e p; p2 = p1\<lparr>pc_pending := None\<rparr>
        in case pc_pending p1 of
             None \<Rightarrow> Some p1
           | Some Req_preferences \<Rightarrow> app_action e (activate_cb e n) Req_preferences p2
           | Some _ \<Rightarrow> Some p2)"

section \<open>Launching\<close>

text \<open>What registering the application gives: an error, or whether another process is the primary one.\<close>

datatype registration = Register_failed | Registered_remote | Registered_primary

text \<open>
  The exit status of a launch, or -1 to go on; the request forwarded to the primary process; and the
  request that is kept. \<open>has\<close> says which options were given.
\<close>

definition handle_local_options_cb ::
  "(string \<Rightarrow> bool) \<Rightarrow> registration \<Rightarrow> int \<times> app_request option \<times> app_request option" where
  "handle_local_options_cb has reg =
     (case find (\<lambda>f. has (fst f)) flag_names of
        None \<Rightarrow> (-1, None, None)
      | Some (_, requested) \<Rightarrow>
          (case reg of
             Register_failed \<Rightarrow> (1, None, None)
           | Registered_remote \<Rightarrow> (0, Some requested, None)
           | Registered_primary \<Rightarrow> (-1, None, Some requested)))"

text \<open>
  A launch seen from the primary process \<open>p\<close>: a forwarded request runs its action there; a launch that
  goes on activates the primary process, which is this one when it is the first.
\<close>

definition launch ::
  "('d, 'w) launch_env \<Rightarrow> nat \<Rightarrow> (string \<Rightarrow> bool) \<Rightarrow> registration \<Rightarrow> ('d, 'w) process \<Rightarrow> int \<times> ('d, 'w) process option" where
  "launch e n has reg p =
     (case handle_local_options_cb has reg of
        (status, Some req, _) \<Rightarrow> (status, app_action e (activate_cb e n) req p)
      | (status, None, pend) \<Rightarrow>
          if status \<noteq> -1 then (status, Some p)
          else if reg = Register_failed then (1, Some p)
          else (0, activate_cb e n (case pend of None \<Rightarrow> p | Some req \<Rightarrow> p\<lparr>pc_pending := Some req\<rparr>)))"

section \<open>The schema of an uninstalled program\<close>

text \<open>The new value of GSETTINGS_SCHEMA_DIR. \<open>exists\<close> says which files there are.\<close>

definition epimone_setup_dev_schema_dir :: "glib \<Rightarrow> host \<Rightarrow> (byte list \<Rightarrow> bool) \<Rightarrow> byte list option" where
  "epimone_setup_dev_schema_dir g h exists =
     (let existing = h_getenv h (lit ''GSETTINGS_SCHEMA_DIR'') in
      case h_exe h of
        None \<Rightarrow> existing
      | Some exe \<Rightarrow>
          let schema_dir = gl_build_filename g [gl_dirname g exe, lit ''data''];
              compiled = gl_build_filename g [schema_dir, lit ''gschemas.compiled'']
          in if \<not> exists compiled then existing
             else case existing of
                    Some old \<Rightarrow> if old \<noteq> [] then Some (schema_dir @ lit '':'' @ old) else Some schema_dir
                  | None \<Rightarrow> Some schema_dir)"

end
