(* ===== verification/App_Props.thy ===== *)
theory App_Props
  imports Client_Props App
begin

text \<open>
  A start of the process brings up windows that satisfy the invariant of the windows, whatever the
  layout file has in it, and a request that comes with a launch ends up where it is wanted.
\<close>

section \<open>What a restore leaves\<close>

definition app_ok :: "('d, 'w) app \<Rightarrow> bool" where
  "app_ok a \<longleftrightarrow> distinct (map fst (shape a)) \<and> (\<forall>(r, n, s) \<in> set (shape a). r < ap_next a \<and> sel_ok n s)"

lemma app_ok_grown:
  assumes "app_ok a" "grown a b"
  shows "app_ok b" "length (ap_windows b) = length (ap_windows a)" "map fst (shape b) = map fst (shape a)"
proof -
  show fsts: "map fst (shape b) = map fst (shape a)"
    using assms(2) by (auto simp: grown_def list_all2_conv_all_nth grows_def intro: nth_equalityI)
  then have "length (shape b) = length (shape a)" by (metis length_map)
  then show "length (ap_windows b) = length (ap_windows a)" by (simp add: shape_def)
  have "r < ap_next b \<and> sel_ok n s" if "(r, n, s) \<in> set (shape b)" for r n s
  proof -
    obtain i where i: "i < length (shape b)" "shape b ! i = (r, n, s)" using \<open>(r, n, s) \<in> set (shape b)\<close> by (auto simp: in_set_conv_nth)
    have g: "grows (shape a ! i) (r, n, s)" "i < length (shape a)" "ap_next a \<le> ap_next b"
      using assms(2) i by (auto simp: grown_def list_all2_conv_all_nth dest!: spec [of _ i])
    obtain r0 n0 s0 where e: "shape a ! i = (r0, n0, s0)" by (cases "shape a ! i")
    have "(r0, n0, s0) \<in> set (shape a)" using g(2) e by (metis nth_mem)
    then have "r0 < ap_next a \<and> sel_ok n0 s0" using assms(1) unfolding app_ok_def by fastforce
    then show ?thesis using g e by (auto simp: grows_def)
  qed
  then show "app_ok b" using assms(1) fsts by (auto simp: app_ok_def)
qed

lemma app_ok_new: "app_ok a \<Longrightarrow> app_ok (epimone_window_new a)"
  by (fastforce simp: app_ok_def window_new_shape sel_ok_def)

lemma app_ok_tl: "app_ok a \<Longrightarrow> app_ok (a\<lparr>ap_windows := tl (ap_windows a)\<rparr>)"
  by (cases "ap_windows a") (auto simp: app_ok_def shape_def)

lemma grown_size [simp]:
  "grown a (at_window (\<lambda>w. w\<lparr>wn_size := z\<rparr>) wi a)" "grown a (at_window (\<lambda>w. w\<lparr>wn_maximized := b\<rparr>) wi a)"
  "grown a (at_window (\<lambda>w. w\<lparr>wn_ticks := t\<rparr>) wi a)" "grown a a" "grown a (set_layout h a)" "grown a (a\<lparr>ap_world := v\<rparr>)"
proof -
  have "keeps_shape a (at_window h wi a)" if "\<And>w. wn_ref (h w) = wn_ref w \<and> wn_pages (h w) = wn_pages w \<and> wn_selected (h w) = wn_selected w"
    for h :: "'a window \<Rightarrow> 'a window"
    using that by (auto simp: keeps_shape_def shape_def at_window_def map_update intro!: list_update_same_conv [THEN iffD2])
  then show "grown a (at_window (\<lambda>w. w\<lparr>wn_size := z\<rparr>) wi a)" "grown a (at_window (\<lambda>w. w\<lparr>wn_maximized := b\<rparr>) wi a)"
    "grown a (at_window (\<lambda>w. w\<lparr>wn_ticks := t\<rparr>) wi a)" by (simp_all add: keeps_grown)
qed (simp_all add: keeps_grown)

lemma grown_active [simp]: "grown a (epimone_window_set_active_tab y wi i a)"
proof (cases "wi < length (ap_windows a) \<and> wn_pages (ap_windows a ! wi) \<noteq> []")
  case True
  then have wi: "wi < length (ap_windows a)" by simp
  obtain r n s where e: "shape a ! wi = (r, n, s)" by (cases "shape a ! wi")
  have n: "length (wn_pages (ap_windows a ! wi)) = n" "0 < n" using e True by (auto simp: shape_nth)
  let ?k = "if i < 0 then 0 else if i \<ge> int n then n - 1 else nat i"
  have "?k < n" using n by auto
  then have "grown a (set_selected_page y wi ?k a)"
    by (intro grown_update [OF _ shape_set_selected [OF wi e]]) (use e in \<open>simp add: grows_def sel_ok_def\<close>)
  then show ?thesis using True n by (simp add: epimone_window_set_active_tab_def Let_def)
qed (auto simp: epimone_window_set_active_tab_def)

lemma grown_adopt: "grown a (epimone_window_adopt_page y wi p a)"
proof (cases "wi < length (ap_windows a)")
  case True
  obtain r n s where e: "shape a ! wi = (r, n, s)" by (cases "shape a ! wi")
  let ?h = "set_layout epimone_layout_schedule_save (at_window (\<lambda>w. w\<lparr>wn_pages := wn_pages w @ [p]\<rparr>) wi a)"
  have h: "shape ?h = (shape a)[wi := (r, Suc n, s)]" "ap_next ?h = ap_next a" "length (ap_windows ?h) = length (ap_windows a)"
    using True e at_window_shape [OF True, of "\<lambda>w. w\<lparr>wn_pages := wn_pages w @ [p]\<rparr>"]
    by (simp_all add: shape_nth set_layout_def shape_def at_window_def)
  have n: "length (wn_pages (ap_windows a ! wi)) = n" using e True by (simp add: shape_nth)
  have hw: "wi < length (ap_windows ?h)" "shape ?h ! wi = (r, Suc n, s)" using True h by simp_all
  show ?thesis
  proof (cases "n = 0")
    case True
    then show ?thesis using shape_set_selected [OF hw, of y 0] h n \<open>wi < length (ap_windows a)\<close> e
      by (intro grown_update [of wi a "(r, Suc n, Some 0)"])
        (auto simp: epimone_window_adopt_page_def Let_def grows_def sel_ok_def)
  next
    case False
    have "grown a ?h"
      by (rule grown_update [OF _ h(1)]) (use e h(2) False in \<open>auto simp: grows_def sel_ok_def split: option.splits\<close>)
    then show ?thesis using False n True by (simp add: epimone_window_adopt_page_def Let_def)
  qed
qed (simp add: epimone_window_adopt_page_def)

lemma grown_groups: "grown a (snd (restore_groups y gids a))"
proof (induction gids arbitrary: a)
  case (Cons gid gids)
  obtain res a1 where r: "epimone_layout_restore_group y 0 gid a = (res, a1)" by (cases "epimone_layout_restore_group y 0 gid a")
  have "grown a a1" using grown_restore_group [of a y 0 gid] r by simp
  from grown_trans [OF this Cons.IH [of a1]] show ?case using r by (cases "restore_groups y gids a1") simp
qed simp

text \<open>A part of a restore: the windows are sound, and it has added as many as it says.\<close>

definition adds :: "('d, 'w) app \<Rightarrow> nat \<times> ('d, 'w) app \<Rightarrow> bool" where
  "adds a r \<longleftrightarrow> (app_ok a \<longrightarrow> app_ok (snd r) \<and> length (ap_windows (snd r)) = fst r + length (ap_windows a))"

lemma adds_window: "adds a (restore_window y winv a)"
proof -
  obtain width height maximized active gids where w: "winv = (width, height, maximized, active, gids)" by (cases winv)
  let ?a2 = "if 0 < width \<and> 0 < height then at_window (\<lambda>w. w\<lparr>wn_size := (width, height)\<rparr>) 0 (epimone_window_new a) else epimone_window_new a"
  obtain n a3 where g: "restore_groups y gids ?a2 = (n, a3)" by (cases "restore_groups y gids ?a2")
  have "grown (epimone_window_new a) ?a2" by simp
  then have g3: "grown (epimone_window_new a) a3" using grown_trans [OF _ grown_groups [of ?a2 y gids]] g by simp
  have l: "length (ap_windows (epimone_window_new a)) = Suc (length (ap_windows a))" by (simp add: epimone_window_new_def)
  note ok3 = app_ok_grown(1,2) [OF app_ok_new g3]
  let ?a4 = "epimone_window_set_active_tab y 0 (if active < int n then active else 0) a3"
  have g4: "grown a3 (if maximized then at_window (\<lambda>w. w\<lparr>wn_maximized := True\<rparr>) 0 ?a4 else ?a4)"
    by (auto intro: grown_trans [OF grown_active grown_size(2)])
  show ?thesis using w g ok3 app_ok_tl [of a3] app_ok_grown(1,2) [OF _ g4] l
    by (auto simp: adds_def restore_window_def Let_def)
qed

lemma adds_windows: "adds a (restore_windows y xs a)"
proof (induction xs arbitrary: a)
  case (Cons x xs)
  obtain m a1 where r: "restore_window y x a = (m, a1)" by (cases "restore_window y x a")
  show ?case using adds_window [of a y x] Cons.IH [of a1] r by (auto simp: adds_def split: prod.split)
qed (simp add: adds_def)

lemma adds_window_v1: "adds a (restore_window_v1 y alive sgmap winv a)"
proof -
  obtain active tabs where w: "winv = (active, tabs)" by (cases winv)
  obtain pages focus nxt v where t: "restore_tabs_v1 y alive sgmap active tabs 0 (ap_next a, ap_world a) = (pages, focus, nxt, v)"
    by (cases "restore_tabs_v1 y alive sgmap active tabs 0 (ap_next a, ap_world a)")
  have "fst st \<le> n" if "restore_tabs_v1 y alive sgmap k ts i st = (ps, f, n, v)" for ts i st ps f n v k
    using that
  proof (induction ts arbitrary: i st ps f n v)
    case (Cons t ts)
    obtain foc node where "t = (foc, node)" by (cases t)
    moreover obtain r n1 v1 where b: "build_node (sy_api y) alive node st = (r, n1, v1)"
      by (cases "build_node (sy_api y) alive node st")
    moreover obtain ps2 f2 n2 v2 where s: "restore_tabs_v1 y alive sgmap k ts (i + 1) (n1, v1) = (ps2, f2, n2, v2)"
      by (cases "restore_tabs_v1 y alive sgmap k ts (i + 1) (n1, v1)")
    ultimately have "n = n2" using Cons.prems by (auto split: option.splits)
    then show ?case using build_node_next [OF b] Cons.IH [OF s] by simp
  qed auto
  from this [OF t] have le: "ap_next a \<le> nxt" by simp
  let ?a1 = "a\<lparr>ap_next := nxt, ap_world := v\<rparr>"
  have ok1: "app_ok a \<Longrightarrow> app_ok ?a1" using le by (fastforce simp: app_ok_def shape_def)
  have adopt: "grown b (fold (epimone_window_adopt_page y 0) ps b)" for ps and b :: "('a, 'b) app"
  proof (induction ps arbitrary: b)
    case (Cons p ps)
    show ?case using grown_trans [OF grown_adopt Cons.IH] by simp
  qed simp
  let ?a2 = "fold (epimone_window_adopt_page y 0) pages (epimone_window_new ?a1)"
  let ?a3 = "at_window (\<lambda>w. w\<lparr>wn_ticks := [new_tick focus]\<rparr>) 0
    (epimone_window_set_active_tab y 0 (if active < int (length pages) then active else 0) ?a2)"
  have "grown (epimone_window_new ?a1) ?a3" by (rule grown_trans [OF adopt grown_trans [OF grown_active grown_size(3)]])
  note ok3 = app_ok_grown(1,2) [OF app_ok_new [OF ok1] this]
  have l: "length (ap_windows (epimone_window_new ?a1)) = Suc (length (ap_windows a))" by (simp add: epimone_window_new_def)
  show ?thesis using w t ok1 ok3 l by (auto simp: adds_def restore_window_v1_def Let_def)
qed

lemma adds_windows_v1: "adds a (restore_windows_v1 y alive sgmap xs a)"
proof (induction xs arbitrary: a)
  case (Cons x xs)
  obtain m a1 where r: "restore_window_v1 y alive sgmap x a = (m, a1)" by (cases "restore_window_v1 y alive sgmap x a")
  show ?case using adds_window_v1 [of a y alive sgmap x] Cons.IH [of a1] r by (auto simp: adds_def split: prod.split)
qed (simp add: adds_def)


lemma restore_ok:
  assumes "app_ok a" "epimone_layout_restore y a = (ok, b)"
  shows "app_ok b" "ok \<Longrightarrow> length (ap_windows a) < length (ap_windows b)"
    "\<not> ok \<Longrightarrow> ap_windows a = [] \<Longrightarrow> ap_windows b = []"
proof -
  have flag [simp]: "app_ok (set_layout h a') = app_ok a'" "ap_windows (set_layout h a') = ap_windows a'"
    "app_ok (a'\<lparr>ap_world := v\<rparr>) = app_ok a'" for h a' v
    by (simp_all add: app_ok_def shape_def set_layout_def)
  have same: "app_ok a \<and> (ok \<longrightarrow> length (ap_windows a) < length (ap_windows b)) \<and> (\<not> ok \<longrightarrow> ap_windows a = [] \<longrightarrow> ap_windows b = [])"
    if "b = a \<and> \<not> ok" using that assms(1) by simp
  have v2: "app_ok b \<and> (ok \<longrightarrow> length (ap_windows a) < length (ap_windows b)) \<and> (\<not> ok \<longrightarrow> ap_windows a = [] \<longrightarrow> ap_windows b = [])"
    if "restore_from_v2 y saved a = (ok, b)" for saved
  proof -
    let ?a1 = "set_layout (\<lambda>l. l\<lparr>ly_restoring := True\<rparr>) a"
    obtain n a2 where n: "restore_windows y (snd saved) ?a1 = (n, a2)" by (cases "restore_windows y (snd saved) ?a1")
    show ?thesis using that n adds_windows [of ?a1 y "snd saved"] assms(1)
      by (auto simp: restore_from_v2_def Let_def adds_def)
  qed
  have v1: "app_ok b \<and> (ok \<longrightarrow> length (ap_windows a) < length (ap_windows b)) \<and> (\<not> ok \<longrightarrow> ap_windows a = [] \<longrightarrow> ap_windows b = [])"
    if "restore_from_v1 y saved a = (ok, b)" for saved
  proof -
    obtain alive w where w: "build_alive_set (sy_api y) (ap_world a) = (alive, w)" by (cases "build_alive_set (sy_api y) (ap_world a)")
    obtain sgmap w1 where w1: "build_session_group_map (sy_api y) w = (sgmap, w1)" by (cases "build_session_group_map (sy_api y) w")
    let ?a1 = "set_layout (\<lambda>l. l\<lparr>ly_restoring := True\<rparr>) (a\<lparr>ap_world := w1\<rparr>)"
    obtain n a2 where n: "restore_windows_v1 y (the alive) sgmap (snd saved) ?a1 = (n, a2)"
      by (cases "restore_windows_v1 y (the alive) sgmap (snd saved) ?a1")
    show ?thesis using that w w1 n adds_windows_v1 [of ?a1 y "the alive" sgmap "snd saved"] assms(1)
      by (auto simp: restore_from_v1_def Let_def adds_def split: option.splits)
  qed
  have "app_ok b \<and> (ok \<longrightarrow> length (ap_windows a) < length (ap_windows b)) \<and> (\<not> ok \<longrightarrow> ap_windows a = [] \<longrightarrow> ap_windows b = [])"
    using assms v1 v2 by (auto simp: epimone_layout_restore_def split: option.splits)
  then show "app_ok b" "ok \<Longrightarrow> length (ap_windows a) < length (ap_windows b)"
    "\<not> ok \<Longrightarrow> ap_windows a = [] \<Longrightarrow> ap_windows b = []" by simp_all
qed

section \<open>The first windows\<close>

lemma set_up_app [simp]: "gu_app (fold set_up_window rs g) = gu_app g" "gu_prefs (fold set_up_window rs g) = gu_prefs g"
  by (induction rs arbitrary: g) (simp_all add: set_up_window_def in_frame_def)

lemma set_up_tabs: "r \<in> set rs \<Longrightarrow> tabs_of r (fold set_up_window rs g) = []"
proof (induction rs rule: rev_induct)
  case (snoc x xs)
  have "fr_tabs (epimone_window_init p) = []" for p
    by (simp add: epimone_window_init_def epimone_apply_window_prefs_to_def Let_def)
  then show ?case using snoc by (auto simp: set_up_window_def in_frame_def tabs_of_def)
qed simp

lemma lag_set_up:
  assumes "app_ok (gu_app g)" "set rs = fst ` set (shape (gu_app g))"
  shows "lag (set rs) (fold set_up_window rs g)"
proof -
  have "r < ap_next (gu_app g) \<and> sel_ok n s \<and> tabs_of r (fold set_up_window rs g) = [] \<and> r \<in> set rs"
    if e: "(r, n, s) \<in> set (shape (gu_app g))" for r n s
  proof -
    have "r \<in> set rs" using e assms(2) by force
    then show ?thesis using set_up_tabs assms(1) e unfolding app_ok_def by fastforce
  qed
  then show ?thesis using assms(1) by (auto simp: lag_def app_ok_def tabs_ok_def)
qed

lemma log_fold: "windows_ok (fold (\<lambda>r. gui_log (h r)) rs g) = windows_ok g" "gu_app (fold (\<lambda>r. gui_log (h r)) rs g) = gu_app g"
proof -
  show "windows_ok (fold (\<lambda>r. gui_log (h r)) rs g) = windows_ok g" by (induction rs arbitrary: g) simp_all
  show "gu_app (fold (\<lambda>r. gui_log (h r)) rs g) = gu_app g" by (induction rs arbitrary: g) (simp_all add: gui_log_def)
qed

lemma wire_app [simp]: "gu_app (fold wire_restored rs g) = gu_app g"
  by (induction rs arbitrary: g) (simp_all add: wire_restored_def Let_def epimone_window_rebind_title_def in_frame_def)

lemma show_windows_ok:
  assumes "app_ok (gu_app g)"
  shows "windows_ok (show_windows (rev (map wn_ref (ap_windows (gu_app g)))) g)" "gu_app (show_windows rs g) = gu_app g"
proof -
  have "set (rev (map wn_ref (ap_windows (gu_app g)))) = fst ` set (shape (gu_app g))" by (force simp: shape_def)
  from lag_wire_all [OF lag_set_up [OF assms this]] show "windows_ok (show_windows (rev (map wn_ref (ap_windows (gu_app g)))) g)"
    by (simp add: show_windows_def log_fold)
qed (simp add: show_windows_def log_fold)

lemma restore_or_new_ok:
  assumes "ap_windows (gu_app g) = []" "documented (le_tabs e)"
  shows "windows_ok (restore_or_new e g)" "ap_windows (gu_app (restore_or_new e g)) \<noteq> []"
proof -
  have "app_ok (gu_app g)" using assms by (simp add: app_ok_def shape_def)
  obtain ok a where r: "epimone_layout_restore (le_system e) (gu_app g) = (ok, a)" by (cases "epimone_layout_restore (le_system e) (gu_app g)")
  note b = restore_ok [OF \<open>app_ok (gu_app g)\<close> r]
  have "windows_ok (restore_or_new e g) \<and> ap_windows (gu_app (restore_or_new e g)) \<noteq> []"
  proof (cases ok)
    case True
    then have "ap_windows a \<noteq> []" using b(2) assms by auto
    then show ?thesis using r True show_windows_ok [of "g\<lparr>gu_app := a\<rparr>"] b(1) by (simp add: restore_or_new_def)
  next
    case False
    then have "windows_ok (g\<lparr>gu_app := a\<rparr>)" using b(3) assms by (simp add: almost_def shape_def)
    let ?su = "\<lparr>su_session = le_session e, su_cwd = (\<lambda>_. None)\<rparr>"
    have eq: "restore_or_new e g = new_window_action (le_system e) (le_tabs e) ?su (g\<lparr>gu_app := a\<rparr>)"
      using r False by (simp add: restore_or_new_def new_window_action_def)
    have "windows_ok (new_window_action (le_system e) (le_tabs e) ?su (g\<lparr>gu_app := a\<rparr>))"
      using kept_perform [OF \<open>windows_ok (g\<lparr>gu_app := a\<rparr>)\<close> assms(2), where act = New_window] by simp
    then show ?thesis
      using eq new_window_has_one_tab [OF \<open>windows_ok (g\<lparr>gu_app := a\<rparr>)\<close>, of "le_system e" "le_tabs e" ?su] by (auto simp: fst_shape)
  qed
  then show "windows_ok (restore_or_new e g)" "ap_windows (gu_app (restore_or_new e g)) \<noteq> []" by simp_all
qed


section \<open>What stays out of it\<close>

text \<open>Opening tabs neither opens the settings nor takes an action away.\<close>

definition quiet :: "('d, 'w) gui \<Rightarrow> ('d, 'w) gui \<Rightarrow> bool" where
  "quiet g g' \<longleftrightarrow> gu_settings g' = gu_settings g \<and> (\<forall>r. fr_disabled (gu_frames g' r) = fr_disabled (gu_frames g r))"

named_theorems quiets

lemma quiet_refl [quiets]: "quiet g g" by (simp add: quiet_def)
lemma quiet_trans [trans]: "quiet f g \<Longrightarrow> quiet g h \<Longrightarrow> quiet f h" by (simp add: quiet_def)
lemma quiet_app [quiets]: "quiet g h \<Longrightarrow> quiet g (in_app F h)" by (simp add: quiet_def in_app_def)
lemma quiet_log [quiets]: "quiet g h \<Longrightarrow> quiet g (gui_log x h)" by (simp add: quiet_def gui_log_def)
lemma quiet_frame [quiets]: "quiet g h \<Longrightarrow> (\<And>f. fr_disabled (F f) = fr_disabled f) \<Longrightarrow> quiet g (in_frame r F h)"
  by (simp add: quiet_def in_frame_def)
lemma quiet_fields [quiets]: "quiet g h \<Longrightarrow> quiet g (h\<lparr>gu_registry := x\<rparr>)" "quiet g h \<Longrightarrow> quiet g (h\<lparr>gu_next_tab := n\<rparr>)"
  "quiet g h \<Longrightarrow> quiet g (h\<lparr>gu_held := m\<rparr>)"
  by (simp_all add: quiet_def)

lemma quiet_rebind [quiets]: "quiet g h \<Longrightarrow> quiet g (epimone_window_rebind_title r h)"
  unfolding epimone_window_rebind_title_def by (intro quiets) simp_all
lemma quiet_focus [quiets]: "quiet g h \<Longrightarrow> quiet g (focus_current y r h)"
  unfolding focus_current_def by (auto intro: quiets split: option.split)
lemma quiet_save [quiets]: "quiet g h \<Longrightarrow> quiet g (schedule_save h)"
  unfolding schedule_save_def by (intro quiets)
lemma quiet_selected [quiets]: "quiet g h \<Longrightarrow> quiet g (epimone_window_notify_selected_cb y r h)"
  unfolding epimone_window_notify_selected_cb_def by (intro quiets)
lemma quiet_select [quiets]: "quiet g h \<Longrightarrow> quiet g (select_tab y r t h)"
  unfolding select_tab_def by (auto intro!: quiets split: option.split)
lemma quiet_calls: "quiet g h \<Longrightarrow> page_calls p h = (q, h1) \<Longrightarrow> quiet g h1"
  by (auto simp: page_calls_def intro: quiets)
lemma quiet_page_step [quiets]: "quiet g h \<Longrightarrow> quiet g (page_step F t h)"
  unfolding page_step_def by (auto intro!: quiets simp: page_calls_def split: option.split)

lemma quiet_close [quiets]: "quiet g h \<Longrightarrow> quiet g (window_close y r h)"
  unfolding window_close_def epimone_window_close_request_def destroy_window_def epimone_window_unregister_def Let_def
  by (auto intro!: quiets split: prod.split if_splits)

lemma quiet_n_pages [quiets]: "quiet g h \<Longrightarrow> quiet g (epimone_window_notify_n_pages y r h)"
  unfolding epimone_window_notify_n_pages_def by (auto intro: quiets)

lemma quiet_put [quiets]: "quiet g h \<Longrightarrow> quiet g (put_tab y r k x p h)"
  unfolding put_tab_def Let_def by (auto intro!: quiets split: option.split)

lemma quiet_attach: "quiet g h \<Longrightarrow> epimone_window_attach_page y tv r p h = (t, h1) \<Longrightarrow> quiet g h1"
  by (auto simp: epimone_window_attach_page_def epimone_window_attach_page_at_def Let_def intro!: quiets split: if_splits)

lemma quiet_add_tab [quiets]: "quiet g h \<Longrightarrow> quiet g (epimone_window_add_tab y tv sid r h)"
proof -
  assume h: "quiet g h"
  let ?g = "gui_log (Spawned None sid) (in_app (\<lambda>a. a\<lparr>ap_next := ap_next (gu_app h) + 1\<rparr>) h)"
  obtain p g2 where p: "page_calls (epimone_page_new_with_cwd (sy_env y) (ap_next (gu_app h)) sid) ?g = (p, g2)"
    by (cases "page_calls (epimone_page_new_with_cwd (sy_env y) (ap_next (gu_app h)) sid) ?g")
  obtain t g3 where t: "epimone_window_attach_page y tv r p g2 = (t, g3)" by (cases "epimone_window_attach_page y tv r p g2")
  have "quiet g ?g" using h by (intro quiets)
  from quiet_attach [OF quiet_calls [OF this p] t] show ?thesis
    by (simp add: epimone_window_add_tab_def epimone_window_add_tab_with_cwd_def p [simplified] t Let_def quiets)
qed

lemma wire_quiet: "quiet g h \<Longrightarrow> quiet g (fold wire_restored rs h)"
proof (induction rs arbitrary: h)
  case (Cons r rs)
  have "quiet g (wire_restored r h)" unfolding wire_restored_def Let_def using Cons.prems by (intro quiets) simp_all
  then show ?case using Cons.IH by simp
qed simp

lemma log_quiet: "quiet g h \<Longrightarrow> quiet g (fold (\<lambda>r. gui_log (e r)) rs h)"
  by (induction rs arbitrary: h) (simp_all add: quiet_log)

lemma init_enabled [simp]: "fr_disabled (epimone_window_init p) = {}"
  by (simp add: epimone_window_init_def epimone_apply_window_prefs_to_def Let_def)

lemma set_up_enabled: "r \<in> set rs \<Longrightarrow> fr_disabled (gu_frames (fold set_up_window rs g) r) = {}"
  by (induction rs rule: rev_induct) (auto simp: set_up_window_def in_frame_def)

lemma set_up_settings: "gu_settings (fold set_up_window rs g) = gu_settings g"
  by (induction rs arbitrary: g) (simp_all add: set_up_window_def in_frame_def)

lemma restore_or_new_quiet:
  assumes "ap_windows (gu_app g) = []" "documented (le_tabs e)"
  shows "gu_settings (restore_or_new e g) = gu_settings g"
    "set (map wn_ref (ap_windows (gu_app (restore_or_new e g)))) \<subseteq> {r. fr_disabled (gu_frames (restore_or_new e g) r) = {}}"
proof -
  have ok: "app_ok (gu_app g)" using assms by (simp add: app_ok_def shape_def)
  obtain ok a where r: "epimone_layout_restore (le_system e) (gu_app g) = (ok, a)" by (cases "epimone_layout_restore (le_system e) (gu_app g)")
  note b = restore_ok [OF \<open>app_ok (gu_app g)\<close> r]
  have "gu_settings (restore_or_new e g) = gu_settings g \<and>
    set (map wn_ref (ap_windows (gu_app (restore_or_new e g)))) \<subseteq> {r. fr_disabled (gu_frames (restore_or_new e g) r) = {}}"
  proof (cases ok)
    case True
    let ?rs = "rev (map wn_ref (ap_windows a))" and ?g = "g\<lparr>gu_app := a\<rparr>"
    have q: "quiet (fold set_up_window ?rs ?g) (show_windows ?rs ?g)"
      unfolding show_windows_def by (rule log_quiet [OF wire_quiet [OF quiet_refl]])
    have n: "restore_or_new e g = show_windows ?rs ?g" using r True by (simp add: restore_or_new_def)
    have app: "gu_app (show_windows ?rs ?g) = a" using show_windows_ok(2) [of ?g] b(1) by simp
    have "fr_disabled (gu_frames (show_windows ?rs ?g) x) = {}" if "x \<in> set (map wn_ref (ap_windows a))" for x
      using q set_up_enabled [of x ?rs ?g] that by (simp add: quiet_def)
    then show ?thesis unfolding n app using q set_up_settings [of ?rs ?g] by (auto simp: quiet_def)
  next
    case False
    let ?g = "g\<lparr>gu_app := a\<rparr>"
    have w: "windows_ok ?g" using b(3) assms False by (simp add: almost_def shape_def)
    obtain r1 g1 where n: "new_window ?g = (r1, g1)" by (cases "new_window ?g")
    let ?su = "\<lparr>su_session = le_session e, su_cwd = (\<lambda>_. None)\<rparr>"
    have eq: "restore_or_new e g = gui_log (Present r1) (epimone_window_add_tab (le_system e) (le_tabs e) (le_session e) r1 g1)"
      and eq2: "restore_or_new e g = new_window_action (le_system e) (le_tabs e) ?su ?g"
      using r False n by (simp_all add: restore_or_new_def new_window_action_def)
    have q: "quiet g1 (restore_or_new e g)" unfolding eq by (intro quiets)
    have g1: "r1 = ap_next a" "gu_settings g1 = gu_settings g" "fr_disabled (gu_frames g1 r1) = {}"
      using n by (auto simp: new_window_def Let_def in_frame_def in_app_def)
    have "map wn_ref (ap_windows (gu_app (restore_or_new e g))) = [r1]"
      using new_window_has_one_tab [OF w, of "le_system e" "le_tabs e" ?su] b(3) assms False eq2 g1(1)
      by (simp add: fst_shape)
    then show ?thesis using q g1 by (simp add: quiet_def)
  qed
  then show "gu_settings (restore_or_new e g) = gu_settings g"
    "set (map wn_ref (ap_windows (gu_app (restore_or_new e g)))) \<subseteq> {r. fr_disabled (gu_frames (restore_or_new e g) r) = {}}" by simp_all
qed


section \<open>Launching\<close>

lemma focused_listed: "epimone_app_focused_window ws = Some r \<Longrightarrow> Terminal_window r \<in> set ws"
  by (induction ws rule: epimone_app_focused_window.induct) auto

lemma focused_exists: "Terminal_window r \<in> set ws \<Longrightarrow> epimone_app_focused_window ws \<noteq> None"
  by (induction ws rule: epimone_app_focused_window.induct) auto

lemma check_windows [simp]: "ap_windows (epimone_layout_check_instance y a) = ap_windows a"
  by (auto simp: epimone_layout_check_instance_def Let_def set_layout_def split: prod.split option.split)

lemma focused_of_windows:
  assumes "lists_windows ws" "ap_windows (gu_app g) \<noteq> []"
  obtains r where "epimone_app_focused_window (ws g) = Some r" "r \<in> set (map wn_ref (ap_windows (gu_app g)))"
proof -
  obtain w where "w \<in> set (ap_windows (gu_app g))" using assms(2) by (cases "ap_windows (gu_app g)") auto
  then have "Terminal_window (wn_ref w) \<in> set (ws g)" using assms(1) by (simp add: lists_windows_def)
  then obtain r where r: "epimone_app_focused_window (ws g) = Some r" using focused_exists by blast
  have "r \<in> set (map wn_ref (ap_windows (gu_app g)))"
    using focused_listed [OF r] assms(1) by (auto simp: lists_windows_def split: if_splits)
  with r show thesis by (rule that)
qed

lemma cold_activation:
  assumes "lists_windows (le_windows e)" "documented (le_tabs e)"
    and "ap_windows (gu_app (pc_gui p)) = []" "\<not> gu_settings (pc_gui p)"
  obtains p' where "activate_cb e (Suc n) p = Some p'" "windows_ok (pc_gui p')" "ap_windows (gu_app (pc_gui p')) \<noteq> []"
    "pc_pending p' = None" "gu_settings (pc_gui p') = (pc_pending p = Some Req_preferences)"
proof -
  have none: "le_windows e (pc_gui p) = []"
    using assms(1, 3, 4) unfolding lists_windows_def by (metis Un_empty empty_set image_is_empty list.map_disc_iff set_empty2)
  let ?g = "in_app (epimone_layout_check_instance (le_system e)) (pc_gui p)"
  have g: "ap_windows (gu_app ?g) = []" "gu_settings ?g = gu_settings (pc_gui p)" using assms(3) by (simp_all add: in_app_def)
  let ?p1 = "first_windows e p"
  have p1: "pc_gui ?p1 = restore_or_new e ?g" "pc_pending ?p1 = pc_pending p"
    by (simp_all add: first_windows_def in_gui_def split: prod.split)
  note ok = restore_or_new_ok [OF g(1) assms(2)] and qt = restore_or_new_quiet [OF g(1) assms(2)]
  obtain r where r: "epimone_app_focused_window (le_windows e (pc_gui ?p1)) = Some r"
    "r \<in> set (map wn_ref (ap_windows (gu_app (pc_gui ?p1))))"
    using focused_of_windows [OF assms(1), of "pc_gui ?p1"] ok(2) p1(1) by metis
  have on: "fr_disabled (gu_frames (pc_gui ?p1) r) = {}" using qt(2) r(2) p1(1) by auto
  let ?p2 = "?p1\<lparr>pc_pending := None\<rparr>"
  have pref: "app_action e act Req_preferences ?p2 = Some (in_gui preferences_action ?p2)" for act
    using r(1) on by (simp add: app_action_def app_preferences_action_def epimone_app_route_to_window_def in_gui_def activate_def)
  have "windows_ok (pc_gui (in_gui preferences_action ?p2))"
    using ok(1) p1(1) by (simp add: in_gui_def preferences_action_def)
  moreover have "gu_app (preferences_action h) = gu_app h" "gu_settings (preferences_action h)" for h :: "('a, 'b) gui"
    by (simp_all add: preferences_action_def gui_log_def)
  ultimately have "\<exists>p'. activate_cb e (Suc n) p = Some p' \<and> windows_ok (pc_gui p') \<and> ap_windows (gu_app (pc_gui p')) \<noteq> [] \<and>
    pc_pending p' = None \<and> gu_settings (pc_gui p') = (pc_pending p = Some Req_preferences)"
    using none p1 ok qt(1) g assms(4) pref
    by (cases "pc_pending p") (auto simp: Let_def in_gui_def split: app_request.split)
  then show thesis using that by blast
qed

text \<open>C37. The first launch, whatever flags it has, whatever the layout file holds and whether the daemon could
  be started or not, returns and leaves at least one window; all windows satisfy the invariant of windows
  and tabs, no request is left over, and the settings are open exactly when they were asked for and no
  other flag came before.\<close>

theorem first_launch_opens_sound_windows:
  assumes "lists_windows (le_windows e)" and "documented (le_tabs e)"
    and "ap_windows (gu_app (pc_gui p)) = []" and "\<not> gu_settings (pc_gui p)" and "pc_pending p = None"
  shows "\<exists>p'. launch e (Suc n) has Registered_primary p = (0, Some p') \<and>
    windows_ok (pc_gui p') \<and> ap_windows (gu_app (pc_gui p')) \<noteq> [] \<and> pc_pending p' = None \<and>
    gu_settings (pc_gui p') = (has ''preferences'' \<and> \<not> has ''new-window'' \<and> \<not> has ''new-tab'')"
proof -
  define req where "req = map_option snd (find (\<lambda>f. has (fst f)) flag_names)"
  have req: "handle_local_options_cb has Registered_primary = (-1, None, req)"
    "(req = Some Req_preferences) = (has ''preferences'' \<and> \<not> has ''new-window'' \<and> \<not> has ''new-tab'')"
    by (auto simp: handle_local_options_cb_def req_def flag_names_def split: option.split)
  let ?p = "case req of None \<Rightarrow> p | Some r \<Rightarrow> p\<lparr>pc_pending := Some r\<rparr>"
  have p: "pc_gui ?p = pc_gui p" "pc_pending ?p = req" using assms(5) by (simp_all split: option.split)
  obtain p' where "activate_cb e (Suc n) ?p = Some p'" "windows_ok (pc_gui p')" "ap_windows (gu_app (pc_gui p')) \<noteq> []"
    "pc_pending p' = None" "gu_settings (pc_gui p') = (pc_pending ?p = Some Req_preferences)"
    using cold_activation [OF assms(1, 2), of ?p n] assms(3, 4) unfolding p(1) by blast
  then show ?thesis using req p(2) by (simp add: launch_def)
qed

definition wit_launch :: "(rat, unit) launch_env" where
  "wit_launch = \<lparr>le_system = wit_sys, le_tabs = wit_tabs,
     le_windows = (\<lambda>g. (if gu_settings g then [Settings_window] else []) @ map (Terminal_window \<circ> wn_ref) (ap_windows (gu_app g))),
     le_client = demo_client,
     le_links = (\<lambda>_. \<lparr>l_socket = True, l_connect = False, l_writes = [], l_reads = []\<rparr>), le_spawned = False, le_session = 5, le_around = wit_surroundings\<rparr>"

definition wit_process :: "(rat, unit) process" where
  "wit_process = \<lparr>pc_gui = wit_gui, pc_pending = None, pc_calls = [], pc_warned = []\<rparr>"

lemma wit_lists: "lists_windows (le_windows wit_launch)"
  by (auto simp: lists_windows_def wit_launch_def)

theorem first_launch_opens_sound_windows_witness:
  "\<exists>p'. launch wit_launch 1 (\<lambda>f. f = ''preferences'') Registered_primary wit_process = (0, Some p') \<and>
    ap_windows (gu_app (pc_gui p')) \<noteq> [] \<and> gu_settings (pc_gui p')"
proof -
  have "ap_windows (gu_app (pc_gui wit_process)) = []" "\<not> gu_settings (pc_gui wit_process)" "pc_pending wit_process = None"
    "documented (le_tabs wit_launch)"
    using wit_documented by (simp_all add: wit_process_def wit_gui_def wit_app_def wit_launch_def)
  from first_launch_opens_sound_windows [OF wit_lists this(4) this(1-3), of 0 "\<lambda>f. f = ''preferences''"]
  show ?thesis by auto
qed

text \<open>
  A later launch with a flag acts on the most recent terminal window; with only the settings open it
  shows those, and a new window or tab that was asked for is not opened.
\<close>

lemma later_launch:
  assumes "find (\<lambda>f. has (fst f)) flag_names = Some (f, req)"
  defines "act \<equiv> (case req of Req_new_window \<Rightarrow> New_window | Req_new_tab \<Rightarrow> New_tab | Req_preferences \<Rightarrow> Preferences)"
  shows "epimone_app_focused_window (le_windows e (pc_gui p)) = Some r \<Longrightarrow> launch e n has Registered_remote p =
    (0, Some (in_gui (activate (le_system e) (le_tabs e) (le_around e) r act) p))"
  "le_windows e (pc_gui p) = [Settings_window] \<Longrightarrow> req \<noteq> Req_preferences \<Longrightarrow>
    launch e (Suc n) has Registered_remote p = (0, Some (in_gui (gui_log Present_settings) p))"
  using assms by (auto simp: launch_def handle_local_options_cb_def app_action_def app_new_window_action_def in_gui_def
    app_new_tab_action_def app_preferences_action_def epimone_app_route_to_window_def split: app_request.split)

end
