(* ===== verification/Spec2Isabelle.thy ===== *)
theory Spec2Isabelle
  imports Prelude Ring Protocol Group Session Server_State Server Server_Inv Server_Links
    Server_Updates Server_Buffers Server_Safety Server_Run Server_Props Server_Lifecycle Server_Frames Server_Stream
    Paths Daemon_Main Client Client_IO Client_Wire Client_Server Client_Create Client_Props
    Page Page_Tree Page_Props Client_Api Bridge Bridge_Props Ctl Ctl_Main Ctl_Props Shortcuts Shortcuts_Props Layout_Data Layout Restore Layout_Tree Layout_Inv Layout_Events Layout_Restore Layout_Props Windows Window_Tabs Window_Actions Window_Shape Window_Kept Window_Steps Window_Props
    Overview Overview_Render Overview_Queue Overview_Drain Overview_Drawn Overview_Reload Overview_Shown
    Overview_Actions Overview_Menus Overview_Steps Overview_Kills Overview_Props
    Palettes Appearance Preferences Preferences_Props Preferences_Steps Chrome Chrome_Props App App_Props
begin

text \<open>
  Epimone is a terminal whose shells outlive its windows. A background daemon owns every shell with its
  PTY and its scrollback; the GUI, and a small command line tool, talk to it over a Unix socket. This
  library models the program under src/src/ and proves what makes its parts correct. Definitions carry
  the names of the C functions. A definition with another name is a piece of a function, and PROJECT.json
  says of which lines.

  The parts and how they interact

  The daemon (src/src/daemon/) is a single thread around epoll. A client connection sends frames; each
  is a request on sessions or groups. ATTACH turns a connection into the data channel of a session: from
  then on its bytes go to the PTY and the PTY's output goes to it, while all output is kept in a ring
  that a later ATTACH replays. A session that is killed gets SIGHUP, then SIGKILL after a deadline. A
  group is an opaque blob with member sessions; it goes with its last member.
  The GUI (src/src/epimone-*.c, main.c) reaches the daemon through the client library. A pane is a
  terminal widget with a bridge, which pumps the data channel of its session. The panes of a tab form a
  split tree; a tab is saved as the blob of a group, so that any window can show it again. The layout
  module saves the windows, debounced, and rebuilds them at startup; the overview shows all tabs, of
  this window and of none, as thumbnails and kills sessions; the preferences write keys of GSettings that
  handlers apply to everything that is open.

  Theories, in the order of the code

  Prelude: machine integers, blocks of memory, the C idioms that recur; the locale \<open>sink\<close> of a buffer
  that appends. Machines: the locales \<open>machine\<close> and \<open>still_machine\<close> of invariants of step relations, which
  layout, windows, overview and preferences interpret. Ring: ring.c, with the locale \<open>bounded_log\<close> that it refines. Protocol: epimone-protocol.h,
  with the locales \<open>reader\<close> and \<open>codec\<close>, interpreted for every field type. Group and Session: group.c,
  session.c. Server_State and Server: server.c, from epoll bookkeeping to the event loop.
  Server_Inv, Server_Links, Server_Updates, Server_Buffers, Server_Safety, Server_Run: the invariant
  \<open>srv_inv\<close> (links between sessions and connections agree, addresses and ids are unique, buffers are in
  bounds, groups have members) and that every handler, event and batch keeps it, by the locale
  \<open>invariant_system\<close>. Server_Props, Server_Lifecycle: what the requests do, deadlines and exits.
  Server_Frames and Server_Stream: frames with a dead or refused peer, and that reading a stream in pieces
  of any size handles the same frames as reading it at once. Paths and Daemon_Main: paths.c and daemon/main.c.
  Client: epimone-client.c; Client_IO its blocking input and output and its descriptors; Client_Wire,
  Client_Server, Client_Create, Client_Props the round trips through the daemon of Server, by the locale
  \<open>answered\<close>. Client_Api: the same functions as the GUI sees them.
  Page: the split tree, focus, zoom and titles of epimone-page.c; Page_Tree and Page_Props its lemmas.
  Bridge and Bridge_Props: the pump of a pane, its death, its bell and its size.
  Ctl, Ctl_Main and Ctl_Props: ctl/main.c.
  Layout_Data, Layout, Restore: epimone-layout.c. Layout_Tree and Layout_Restore: what is saved is what is
  restored. Layout_Inv, Layout_Events, Layout_Props: the module as a state machine.
  Shortcuts and Shortcuts_Props: epimone-shortcuts.c and the dialog that captures a shortcut.
  Windows, Window_Tabs, Window_Actions: epimone-window.c and the pane menu. Window_Shape, Window_Kept,
  Window_Steps, Window_Props: the invariant of tabs and pages, kept by every step \<open>win_step\<close>.
  Overview, Overview_Render, Overview_Reload, Overview_Actions, Overview_Menus: epimone-overview.c.
  Overview_Queue, Overview_Drain, Overview_Drawn, Overview_Shown, Overview_Steps, Overview_Kills,
  Overview_Props: the render queue is sound, it drains, what is near gets drawn, a reload shows every
  session once, and the kills of the header ask about what they kill, seen by a client with a log.
  Palettes: epimone-palette.c. Appearance: the registry of terminals in epimone-page.c and its setters.
  Preferences: epimone-settings.c and the part of main.c that applies stored keys. Preferences_Props and
  Preferences_Steps: changing keys live is the same as restarting with them. Chrome: epimone-chrome.c;
  Chrome_Props its colours under rounding.
  App and App_Props: main.c, from the options of a launch to sound windows.

  How state and effects are modelled

  Structs are records with the fields of the C struct, addresses are numbers, linked lists are lists.
  Addresses come from counters (\<open>next_ref\<close> in the daemon, \<open>ap_next\<close> and \<open>gu_next_tab\<close> in the GUI) and are
  never reused, so that a stale one names nothing: with that, "no event reaches a freed object" is a
  statement about addresses. Some fields exist for the theorems only: the ids issued so far, the system
  calls made and the epoll interest in the daemon; the bytes a bridge has passed on; the log of calls that
  a page or the client library made. malloc and realloc are a parameter that may fail; \<open>never_fails\<close> is
  assumed only where a theorem says so. Results of read, write, poll and of GLib's clock are arguments,
  in lists where a loop asks repeatedly: an empty list stands for a call that would block, or for the
  end of what the oracle has to say, as the definition states.
  An error is \<open>Inl\<close> or \<open>None\<close>, or an error frame. Integers of the wire and ids are words; where an id is
  put into 32 bits the model truncates it. \<open>few_ids\<close> bounds the number of ids issued below 2^32, the size of the
  counters that a listing is printed with; it is a hypothesis of the theorems about listings and groups.
  Strings are byte lists. Lengths that the code keeps in size_t are natural numbers.

  What is a parameter, and what is assumed of it

  GLib's path, text and argument functions (\<open>glib\<close>), the environment and files (\<open>host\<close>): nothing but what a
  witness instantiates. The printed form of a GVariant (\<open>gv_*\<close>): printing what was parsed and parsing what
  was printed agree, in the theorems on restoring. Doubles: the operations of \<open>fp\<close>, nothing assumed of
  rounding, except in Chrome_Props, where \<open>rounds\<close> lists laws of rounding to nearest that make the loops on a
  hue end; theorems about geometry hold in exact arithmetic (\<open>rat_fp\<close>), as each says.
  libm's functions in the sizing of cards. libadwaita's tab view (\<open>documented\<close>: what the manual says about
  pinned tabs, positions and the next selected page). GTK's parser and printer of accelerators.
  GDK's parser of colours (\<open>parses_hex\<close>: it reads a hash sign and six hexadecimal digits). GTK's list of open
  windows (\<open>lists_windows\<close>). The daemon as the GUI meets it is \<open>client_api\<close>, and the theorems that join
  the two ends use the daemon of Server itself.
  Events of the GUI arrive one at a time: \<open>gui_step\<close>, \<open>win_step\<close>, \<open>ov_step\<close> and \<open>prefs_step\<close> say which
  there are. The surroundings of the overview (clock, daemon's answers, sizes) are new with every event.
  A written key of GSettings runs its handler at once, and a combo row that is set reports a pick.

  Loops, bounds and fuel

  The loop of the daemon runs over a given list of batches, so that every finite run is covered; the
  frames in a buffer are taken by recursion on what is left in it. Waiting for a starting daemon makes 80
  tries. The overview's timers settle within \<open>timers_needed\<close>, a bound in cards and panes. \<open>write_key\<close> has
  fuel for handlers that write again; two are shown to be enough. \<open>activate_cb\<close> has fuel for activation
  and routing that call each other; one is shown to be enough on a cold start. The loops that bring a hue
  into the circle are partial functions, shown to end on the hues there are.

  What the lemmas show

  Safety of the daemon (no event of a batch reaches freed memory, buffers stay in bounds), the contract
  of each request with its errors, and the round trips between client and daemon; that bridges and the
  attach loop are transparent; that restructuring a tab loses no pane, that a tab saved and restored is
  the same, that no save is lost and none happens after a close; that tabs and pages of a window agree in
  every reachable state and that a launch starts in such a state, whatever the layout file holds; that
  the overview shows every session and finishes drawing; that the capture of a shortcut keeps them apart
  and a reset need not; that the preferences always equal a restart. Where the code does not do what it means to, the theorem states
  what it does, and PROJECT.json lists the finding.

  Not modelled

  daemon/log.c formats a line with the local time and writes it out; nothing reads it. The construction of
  widgets, drawing, animation and scrolling are calls into GTK without a decision of the program's own,
  as are the icon and the fixed text of the style sheets in main.c and epimone-chrome.c. What VTE does
  with bytes and with its settings is VTE's. Messages printed for a reader of the log, usage texts and the
  local form of dates are left out; texts shown to the user in dialogs and on cards are modelled. Memory that
  is freed has no definition of its own beyond the address that becomes stale. The shell-integration
  scripts, the desktop file and the build files are not code of the program's language. A key written
  while no preferences window is open is applied by the next start only, since nothing listens to it: the
  run of \<open>prefs_step\<close> has no such event.
\<close>

end
